(* ===== verification/Sys_Prelude.thy ===== *)
theory Sys_Prelude
  imports Main "HOL-Library.Word" "HOL-Library.Monad_Syntax"
begin

text \<open>
  Shared vocabulary of the development: machine integers, byte strings, the memory allocator the
  services call, and the generic lemmas on lists and words the component theories use.

  A computation that may abort the process (a failed \<^verbatim>\<open>NVRAM_CHECK\<close>, an access
  outside an allocation) has an \<open>option\<close> type: \<^term>\<open>None\<close> is the crash, and the
  theorems that a routine is safe say that its result is not \<^term>\<open>None\<close>.
\<close>

unbundle bit_operations_syntax

section \<open>Machine types\<close>

type_synonym byte = "8 word"
type_synonym u32 = "32 word"
type_synonym u64 = "64 word"
type_synonym blob = "byte list"

text \<open>
  The C heap. \<open>alloc_ok al n\<close> says whether the allocator grants a request for \<open>n\<close> bytes
  (for \<open>n = 0\<close>: whether \<^verbatim>\<open>malloc(0)\<close> returns a non-null pointer), and
  \<open>alloc_fill al i\<close> is what byte \<open>i\<close> of fresh, uninitialised memory holds. Both are
  arbitrary: no theorem fixes them, though many assume that every request is granted (\<open>alloc_total\<close>).
  The outcome depends on the size only; that a heap grants a size once and refuses it later is seen
  where the calls of a run have an allocator each.
\<close>

record allocator =
  alloc_ok :: "nat \<Rightarrow> bool"
  alloc_fill :: "nat \<Rightarrow> byte"

definition alloc_total :: "allocator \<Rightarrow> bool" where
  "alloc_total al \<longleftrightarrow> (\<forall>n. alloc_ok al n)"

section \<open>Lemma collections\<close>

named_theorems io_simps \<open>behaviour of the stream buffers on well-formed streams\<close>
named_theorems wire_simps \<open>length and shape of wire encodings\<close>

section \<open>Lists\<close>

lemma take_append_map_upt_length [simp]:
  "length (take n xs @ map f [length xs..<n]) = n"
  by (cases "n \<le> length xs") auto

definition window :: "nat \<Rightarrow> nat \<Rightarrow> 'a list \<Rightarrow> 'a list" where
  "window a b xs = take (b - a) (drop a xs)"

lemma length_window [simp]: "length (window a b xs) = min (b - a) (length xs - a)"
  by (simp add: window_def)

lemma window_Cons: "window a b xs = y # ys \<Longrightarrow> a < b \<and> a < length xs \<and> xs ! a = y \<and> window (Suc a) b xs = ys"
proof -
  assume h: "window a b xs = y # ys"
  then have l: "a < b" "a < length xs"
    by (auto simp: window_def neq_Nil_conv dest: arg_cong [where f = length])
  then have "window a b xs = xs ! a # window (Suc a) b xs"
    by (simp add: window_def Cons_nth_drop_Suc [symmetric] Suc_diff_Suc take_Cons')
  with h l show ?thesis by simp
qed

lemma drop_window: "drop n (window a b xs) = window (a + n) b xs"
  by (simp add: window_def drop_take add.commute)

text \<open>\<open>memcpy\<close> of \<open>data\<close> to offset \<open>p\<close> of a block.\<close>

definition memcpy_at :: "nat \<Rightarrow> 'a list \<Rightarrow> 'a list \<Rightarrow> 'a list" where
  "memcpy_at p data b = take p b @ data @ drop (p + length data) b"

lemma length_memcpy_at [simp]:
  "p + length data \<le> length b \<Longrightarrow> length (memcpy_at p data b) = length b"
  by (simp add: memcpy_at_def)

lemma take_memcpy_at:
  "p \<le> length b \<Longrightarrow> take (p + length data) (memcpy_at p data b) = take p b @ data"
  by (simp add: memcpy_at_def)

text \<open>A search loop over an array: the first position whose element satisfies \<open>P\<close>.\<close>

definition find_index :: "('a \<Rightarrow> bool) \<Rightarrow> 'a list \<Rightarrow> nat option" where
  "find_index P xs = find (\<lambda>i. P (xs ! i)) [0..<length xs]"

lemma find_index_Some: "find_index P xs = Some i \<Longrightarrow> i < length xs \<and> P (xs ! i)"
  by (auto simp: find_index_def find_Some_iff)

lemma find_index_None: "find_index P xs = None \<longleftrightarrow> (\<forall>i < length xs. \<not> P (xs ! i))"
  by (auto simp: find_index_def find_None_iff)

lemma option_ext: "(\<And>c. x = Some c \<longleftrightarrow> y = Some c) \<Longrightarrow> x = y"
  by (cases x; cases y) auto

lemma alloc_totalD [simp]: "alloc_total al \<Longrightarrow> alloc_ok al n"
  by (simp add: alloc_total_def)

section \<open>Words\<close>

lemma word_0x7f_mask: "(0x7f :: 'a::len word) = mask 7"
  by (simp add: mask_eq_exp_minus_1)

lemma bit_int_0x80: "bit (0x80 :: int) n \<longleftrightarrow> n = 7"
  using bit_exp_iff [of 7 n, where 'a = int] by auto

lemma byte_and_0x80: "(b :: byte) AND 0x80 = 0 \<longleftrightarrow> \<not> bit b 7"
proof
  assume "b AND 0x80 = 0"
  then have "\<not> bit (b AND 0x80) 7" by simp
  then show "\<not> bit b 7" by (simp add: bit_simps bit_int_0x80)
next
  assume "\<not> bit b 7"
  then show "b AND 0x80 = 0" by (intro bit_word_eqI) (auto simp: bit_simps bit_int_0x80)
qed

lemma ucast_u32_u64: "ucast (ucast (v :: u32) :: u64) = v"
  by (rule bit_word_eqI) (simp add: bit_simps)

lemma inj_ucast_u32_u64: "(ucast (a :: u32) :: u64) = ucast b \<longleftrightarrow> a = b"
  by (metis ucast_u32_u64)

text \<open>Comparing blocks of equal length in constant time: the differences are accumulated by OR.\<close>

lemma word_or_zero: "(a :: byte) OR b = 0 \<longleftrightarrow> a = 0 \<and> b = 0"
  by (auto simp: or_eq_0_iff)

lemma word_xor_zero: "(a :: byte) XOR b = 0 \<longleftrightarrow> a = b"
  by (auto simp: bit_eq_iff bit_xor_iff)

lemma xor_loop_zero:
  "length a = length b \<Longrightarrow>
   (foldl (\<lambda>result (x, y). result OR (x XOR y)) (r :: byte) (zip a b) = 0) \<longleftrightarrow> r = 0 \<and> a = b"
  by (induction a b arbitrary: r rule: list_induct2) (auto simp: word_or_zero word_xor_zero)

text \<open>A natural number below the width is read back from the word.\<close>

lemma unat_of_nat_small: "n < 2 ^ 64 \<Longrightarrow> unat (of_nat n :: u64) = n"
  by (simp add: unat_of_nat take_bit_nat_eq_self_iff)

end
