(* ===== verification/Sys_Bytes.thy ===== *)
theory Sys_Bytes
  imports Sys_Prelude
begin

text \<open>
  Integers in memory. The platforms the services run on are little-endian: \<open>le_bytes n w\<close> is what
  \<open>memcpy\<close> of an \<open>n\<close>-byte integer \<open>w\<close> writes, \<open>le_word bs\<close> the integer read back from \<open>bs\<close>, and
  \<open>bswap n\<close> is \<open>htonl\<close> or \<open>htobe64\<close>. The lemmas say that reading and writing are inverse.
\<close>

definition le_bytes :: "nat \<Rightarrow> 'a::len word \<Rightarrow> byte list" where
  "le_bytes n w = map (\<lambda>i. ucast (drop_bit (8 * i) w)) [0..<n]"

fun le_word :: "byte list \<Rightarrow> 'a::len word" where
  "le_word [] = 0"
| "le_word (b # bs) = ucast b OR push_bit 8 (le_word bs)"

definition bswap :: "nat \<Rightarrow> 'a::len word \<Rightarrow> 'a word" where
  "bswap n w = le_word (rev (le_bytes n w))"

lemma length_le_bytes [simp]: "length (le_bytes n w) = n"
  by (simp add: le_bytes_def)

lemma nth_le_bytes: "i < n \<Longrightarrow> le_bytes n w ! i = ucast (drop_bit (8 * i) w)"
  by (simp add: le_bytes_def)

lemma bit_le_word:
  "bit (le_word bs :: 'a::len word) i \<longleftrightarrow>
     i < LENGTH('a) \<and> i div 8 < length bs \<and> bit (bs ! (i div 8)) (i mod 8)"
proof (induction bs arbitrary: i)
  case (Cons b bs)
  show ?case
  proof (cases "i < 8")
    case True
    then show ?thesis by (auto simp: bit_simps)
  next
    case False
    then have "i div 8 = Suc ((i - 8) div 8)" "i mod 8 = (i - 8) mod 8"
      by (simp_all add: le_div_geq le_mod_geq)
    then show ?thesis using False Cons.IH [of "i - 8"]
      by (auto simp: bit_simps dest: bit_imp_le_length)
  qed
qed simp

lemma le_word_le_bytes [simp]:
  assumes "LENGTH('a) \<le> 8 * n"
  shows "le_word (le_bytes n w) = (w :: 'a::len word)"
proof (rule bit_word_eqI)
  fix i assume i: "i < LENGTH('a)"
  then have "i div 8 < n" using assms by (simp add: less_mult_imp_div_less mult.commute)
  then show "bit (le_word (le_bytes n w) :: 'a word) i = bit w i"
    using i by (simp add: bit_le_word nth_le_bytes bit_simps)
qed

lemma le_bytes_le_word:
  assumes "8 * length bs \<le> LENGTH('a)" "n = length bs"
  shows "le_bytes n (le_word bs :: 'a::len word) = bs"
proof (rule nth_equalityI)
  fix k assume "k < length (le_bytes n (le_word bs :: 'a word))"
  then have k: "k < length bs" using assms(2) by simp
  show "le_bytes n (le_word bs :: 'a word) ! k = bs ! k"
  proof (rule bit_word_eqI)
    fix i assume "i < LENGTH(8)"
    then have i: "i < 8" by simp
    then have "8 * k + i < LENGTH('a)" using k assms(1) by simp
    moreover have "(8 * k + i) div 8 = k" "(8 * k + i) mod 8 = i" using i by simp_all
    ultimately show "bit (le_bytes n (le_word bs :: 'a word) ! k) i = bit (bs ! k) i"
      using k i assms(2) by (simp add: nth_le_bytes bit_simps bit_le_word)
  qed
qed (use assms in simp)

lemma le_bytes_inject:
  assumes "LENGTH('a) \<le> 8 * n"
  shows "le_bytes n (a :: 'a::len word) = le_bytes n b \<longleftrightarrow> a = b"
  by (metis le_word_le_bytes [OF assms])

lemma bswap_bswap:
  assumes "8 * n = LENGTH('a)"
  shows "bswap n (bswap n w) = (w :: 'a::len word)"
  using assms by (simp add: bswap_def le_bytes_le_word)

lemma bswap_inject:
  assumes "8 * n = LENGTH('a)"
  shows "bswap n (a :: 'a::len word) = bswap n b \<longleftrightarrow> a = b"
  by (metis bswap_bswap [OF assms])

lemma bswap_simps [simp]: "bswap 4 (bswap 4 (v :: u32)) = v" "bswap 8 (bswap 8 (w :: u64)) = w"
  by (simp_all add: bswap_bswap)

text \<open>Reading \<open>n\<close> bytes at an offset: \<^term>\<open>None\<close> when they are not all inside the block.\<close>

definition read_at :: "nat \<Rightarrow> nat \<Rightarrow> byte list \<Rightarrow> byte list option" where
  "read_at off n bs = (if off + n \<le> length bs then Some (take n (drop off bs)) else None)"

lemma read_at_append [simp]: "read_at (length xs) (length ys) (xs @ ys @ zs) = Some ys"
  by (simp add: read_at_def)

end
