(* ===== verification/Ks_Tokens.thy ===== *)
theory Ks_Tokens
  imports Sys_Bytes
begin

text \<open>
  \<open>class AuthTokenTable\<close> of the keystore daemon (\<open>security/keystore/auth_token_table.h\<close>, \<open>.cpp\<close>): the
  authentication tokens received, and which of them authorizes an operation on a key.

  \<open>KeyParameter\<close> and the enumerations are generated from interface files outside the sources; a parameter is
  modelled by the tag and the member of the union that \<open>keymaster_tags.h\<close> gives the tag, for the tags this class
  reads. The numeric value of \<open>HardwareAuthenticatorType::NONE\<close> is an argument, and so is what the clock
  function returns. The host is little endian. \<^term>\<open>None\<close> is a failed assertion or an access past the end.
\<close>

section \<open>Key parameters\<close>

datatype Algorithm = RSA | EC | AES | HMAC
datatype KeyPurpose = ENCRYPT | DECRYPT | SIGN | VERIFY | DERIVE_KEY

datatype KeyParameter =
    ALGORITHM Algorithm
  | USER_SECURE_ID u64
  | USER_AUTH_TYPE u32
  | AUTH_TIMEOUT u32
  | NO_AUTH_REQUIRED
  | ALLOW_WHILE_ON_BODY
  | OtherParameter nat

type_synonym key_info = "KeyParameter list"

text \<open>\<open>authorizationValue\<close>: the value when the parameter has the tag.\<close>

fun algorithm_value :: "KeyParameter \<Rightarrow> Algorithm option" where
  "algorithm_value (ALGORITHM a) = Some a"
| "algorithm_value _ = None"

fun secure_id_value :: "KeyParameter \<Rightarrow> u64 option" where
  "secure_id_value (USER_SECURE_ID s) = Some s"
| "secure_id_value _ = None"

fun auth_type_value :: "KeyParameter \<Rightarrow> u32 option" where
  "auth_type_value (USER_AUTH_TYPE t) = Some t"
| "auth_type_value _ = None"

fun auth_timeout_value :: "KeyParameter \<Rightarrow> u32 option" where
  "auth_timeout_value (AUTH_TIMEOUT t) = Some t"
| "auth_timeout_value _ = None"

fun GetTagValue :: "(KeyParameter \<Rightarrow> 'v option) \<Rightarrow> key_info \<Rightarrow> 'v option" where
  "GetTagValue value [] = None"
| "GetTagValue value (p # ps) = (case value p of Some v \<Rightarrow> Some v | None \<Rightarrow> GetTagValue value ps)"

fun defaultOr :: "'v option \<Rightarrow> 'v \<Rightarrow> 'v" where
  "defaultOr None d = d"
| "defaultOr (Some v) d = v"

section \<open>Entries\<close>

record HardwareAuthToken =
  challenge :: u64
  userId :: u64
  authenticatorId :: u64
  authenticatorType :: u32
  timestamp :: u64
  token_hmac :: "byte list"

record Entry =
  token :: HardwareAuthToken
  time_received :: int
  last_use :: int
  operation_completed :: bool

definition new_Entry :: "HardwareAuthToken \<Rightarrow> int \<Rightarrow> Entry" where
  "new_Entry t current_time =
     \<lparr>token = t, time_received = current_time, last_use = current_time, operation_completed = (challenge t = 0)\<rparr>"

definition timestamp_host_order :: "Entry \<Rightarrow> u64" where
  "timestamp_host_order e = bswap 8 (timestamp (token e))"

definition authenticator_type :: "Entry \<Rightarrow> u32" where
  "authenticator_type e = bswap 4 (authenticatorType (token e))"

definition is_newer_than :: "Entry \<Rightarrow> Entry option \<Rightarrow> bool" where
  "is_newer_than e other =
     (case other of None \<Rightarrow> True
      | Some o' \<Rightarrow> timestamp_host_order e > timestamp_host_order o' \<or>
          timestamp_host_order e = timestamp_host_order o' \<and> time_received e > time_received o')"

definition SatisfiesAuth :: "u64 list \<Rightarrow> u32 \<Rightarrow> Entry \<Rightarrow> bool" where
  "SatisfiesAuth sids auth_type e \<longleftrightarrow>
     list_ex (\<lambda>sid. sid = authenticatorId (token e) \<or>
       sid = userId (token e) \<and> and auth_type (authenticator_type e) \<noteq> 0) sids"

definition Supersedes :: "Entry \<Rightarrow> Entry \<Rightarrow> bool" where
  "Supersedes e entry \<longleftrightarrow>
     operation_completed entry \<and> userId (token e) = userId (token entry) \<and>
     authenticatorType (token e) = authenticatorType (token entry) \<and>
     authenticatorId (token e) = authenticatorId (token entry) \<and> is_newer_than e (Some entry)"

section \<open>The table\<close>

record AuthTokenTable =
  entries :: "Entry list"
  max_entries :: nat
  last_off_body :: int

datatype Error = OK | AUTH_NOT_REQUIRED | AUTH_TOKEN_EXPIRED | AUTH_TOKEN_WRONG_SID | OP_HANDLE_REQUIRED | AUTH_TOKEN_NOT_FOUND

definition new_AuthTokenTable :: "nat \<Rightarrow> int \<Rightarrow> AuthTokenTable" where
  "new_AuthTokenTable limit now = \<lparr>entries = [], max_entries = limit, last_off_body = now\<rparr>"

definition RemoveEntriesSupersededBy :: "Entry \<Rightarrow> Entry list \<Rightarrow> Entry list" where
  "RemoveEntriesSupersededBy entry es = filter (\<lambda>e. \<not> Supersedes entry e) es"

text \<open>\<open>std::min_element\<close>: the position of the first entry that was not used for the longest time.\<close>

fun min_element :: "Entry list \<Rightarrow> nat option" where
  "min_element [] = None"
| "min_element (e # es) =
     (case min_element es of None \<Rightarrow> Some 0
      | Some i \<Rightarrow> if last_use (es ! i) < last_use e then Some (Suc i) else Some 0)"

definition AddAuthenticationToken :: "int \<Rightarrow> HardwareAuthToken \<Rightarrow> AuthTokenTable \<Rightarrow> AuthTokenTable option" where
  "AddAuthenticationToken now auth_token t =
     (let new_entry = new_Entry auth_token now; es = RemoveEntriesSupersededBy new_entry (entries t) in
      if length es \<ge> max_entries t
      then map_option (\<lambda>i. t\<lparr>entries := es[i := new_entry]\<rparr>) (min_element es)
      else Some (t\<lparr>entries := es @ [new_entry]\<rparr>))"

definition is_secret_key_operation :: "Algorithm \<Rightarrow> KeyPurpose \<Rightarrow> bool" where
  "is_secret_key_operation algorithm purpose =
     (if algorithm \<noteq> RSA \<and> algorithm \<noteq> EC then True
      else if purpose = SIGN \<or> purpose = DECRYPT then True else False)"

definition KeyRequiresAuthentication :: "key_info \<Rightarrow> KeyPurpose \<Rightarrow> bool" where
  "KeyRequiresAuthentication key_info purpose \<longleftrightarrow>
     is_secret_key_operation (defaultOr (GetTagValue algorithm_value key_info) AES) purpose \<and> NO_AUTH_REQUIRED \<notin> set key_info"

definition KeyRequiresAuthPerOperation :: "key_info \<Rightarrow> KeyPurpose \<Rightarrow> bool" where
  "KeyRequiresAuthPerOperation key_info purpose \<longleftrightarrow>
     is_secret_key_operation (defaultOr (GetTagValue algorithm_value key_info) AES) purpose \<and>
     GetTagValue auth_timeout_value key_info = None"

definition ExtractSids :: "key_info \<Rightarrow> u64 list" where
  "ExtractSids key_info = List.map_filter secure_id_value key_info"

definition FindAuthPerOpAuthorization ::
  "u64 list \<Rightarrow> u32 \<Rightarrow> u64 \<Rightarrow> AuthTokenTable \<Rightarrow> Error \<times> HardwareAuthToken option" where
  "FindAuthPerOpAuthorization sids auth_type op_handle t =
     (if op_handle = 0 then (OP_HANDLE_REQUIRED, None)
      else case List.find (\<lambda>e. challenge (token e) = op_handle \<and> \<not> operation_completed e) (entries t) of
        None \<Rightarrow> (AUTH_TOKEN_NOT_FOUND, None)
      | Some matching_op \<Rightarrow>
          if \<not> SatisfiesAuth sids auth_type matching_op then (AUTH_TOKEN_WRONG_SID, None)
          else (OK, Some (token matching_op)))"

text \<open>The loop that keeps the position of the newest entry that satisfies the key.\<close>

function newest_match_loop :: "u64 list \<Rightarrow> u32 \<Rightarrow> Entry list \<Rightarrow> nat \<Rightarrow> nat option \<Rightarrow> nat option" where
  "newest_match_loop sids auth_type es i newest =
     (if i < length es then
        newest_match_loop sids auth_type es (Suc i)
          (if SatisfiesAuth sids auth_type (es ! i) \<and> is_newer_than (es ! i) (map_option ((!) es) newest) then Some i else newest)
      else newest)"
  by pat_completeness auto
termination
  by (relation "measure (\<lambda>(sids, auth_type, es, i, newest). length es - i)") auto

declare newest_match_loop.simps [simp del]

definition FindTimedAuthorization ::
  "int \<Rightarrow> u64 list \<Rightarrow> u32 \<Rightarrow> key_info \<Rightarrow> AuthTokenTable \<Rightarrow> (Error \<times> HardwareAuthToken option) \<times> AuthTokenTable" where
  "FindTimedAuthorization now sids auth_type key_info t =
     (case newest_match_loop sids auth_type (entries t) 0 None of
        None \<Rightarrow> ((AUTH_TOKEN_NOT_FOUND, None), t)
      | Some i \<Rightarrow>
          let newest_match = entries t ! i; timeout = defaultOr (GetTagValue auth_timeout_value key_info) 0 in
          if time_received newest_match + uint timeout < now then ((AUTH_TOKEN_EXPIRED, None), t)
          else if ALLOW_WHILE_ON_BODY \<in> set key_info \<and> time_received newest_match < last_off_body t
          then ((AUTH_TOKEN_EXPIRED, None), t)
          else ((OK, Some (token newest_match)), t\<lparr>entries := (entries t)[i := newest_match\<lparr>last_use := now\<rparr>]\<rparr>))"

definition FindAuthorization ::
  "u32 \<Rightarrow> int \<Rightarrow> key_info \<Rightarrow> KeyPurpose \<Rightarrow> u64 \<Rightarrow> AuthTokenTable \<Rightarrow> (Error \<times> HardwareAuthToken option) \<times> AuthTokenTable" where
  "FindAuthorization NONE now key_info purpose op_handle t =
     (if \<not> KeyRequiresAuthentication key_info purpose then ((AUTH_NOT_REQUIRED, None), t)
      else let auth_type = defaultOr (GetTagValue auth_type_value key_info) NONE; key_sids = ExtractSids key_info in
        if KeyRequiresAuthPerOperation key_info purpose
        then (FindAuthPerOpAuthorization key_sids auth_type op_handle t, t)
        else FindTimedAuthorization now key_sids auth_type key_info t)"

definition onDeviceOffBody :: "int \<Rightarrow> AuthTokenTable \<Rightarrow> AuthTokenTable" where
  "onDeviceOffBody now t = t\<lparr>last_off_body := now\<rparr>"

definition Clear :: "AuthTokenTable \<Rightarrow> AuthTokenTable" where
  "Clear t = t\<lparr>entries := []\<rparr>"

definition IsSupersededBySomeEntry :: "Entry \<Rightarrow> Entry list \<Rightarrow> bool" where
  "IsSupersededBySomeEntry entry es \<longleftrightarrow> list_ex (\<lambda>e. Supersedes e entry) es"

definition mark_completed :: "Entry \<Rightarrow> Entry" where
  "mark_completed e = e\<lparr>operation_completed := True\<rparr>"

definition remove_at :: "nat \<Rightarrow> 'a list \<Rightarrow> 'a list" where
  "remove_at i xs = take i xs @ drop (Suc i) xs"

definition MarkCompleted :: "u64 \<Rightarrow> AuthTokenTable \<Rightarrow> AuthTokenTable option" where
  "MarkCompleted op_handle t =
     (case find_index (\<lambda>e. challenge (token e) = op_handle) (entries t) of
        None \<Rightarrow> Some t
      | Some i \<Rightarrow>
          if IsSupersededBySomeEntry (entries t ! i) (entries t) then None
          else let es = (entries t)[i := mark_completed (entries t ! i)] in
            Some (t\<lparr>entries := if IsSupersededBySomeEntry (es ! i) es then remove_at i es else es\<rparr>))"

end
