(* ===== verification/Ks_TokenRuns.thy ===== *)
theory Ks_TokenRuns
  imports Ks_Tokens
begin

text \<open>
  Runs of the token table: every entry comes from a token that was added and not cleared since, the table stays
  within its limit, and no assertion fails.
\<close>

datatype token_event =
    Added int HardwareAuthToken
  | Searched int key_info KeyPurpose u64
  | Completed u64
  | OffBody int
  | Cleared

fun token_step :: "u32 \<Rightarrow> token_event \<Rightarrow> AuthTokenTable \<Rightarrow> AuthTokenTable option" where
  "token_step NONE (Added now tok) t = AddAuthenticationToken now tok t"
| "token_step NONE (Searched now key_info purpose op_handle) t = Some (snd (FindAuthorization NONE now key_info purpose op_handle t))"
| "token_step NONE (Completed op_handle) t = MarkCompleted op_handle t"
| "token_step NONE (OffBody now) t = Some (onDeviceOffBody now t)"
| "token_step NONE Cleared t = Some (Clear t)"

fun token_run :: "u32 \<Rightarrow> token_event list \<Rightarrow> AuthTokenTable \<Rightarrow> AuthTokenTable option" where
  "token_run NONE [] t = Some t"
| "token_run NONE (e # es) t = Option.bind (token_step NONE e t) (token_run NONE es)"

lemma token_run_snoc: "token_run NONE (es @ [e]) t = Option.bind (token_run NONE es t) (token_step NONE e)"
  by (induction es arbitrary: t) (auto split: Option.bind_split)

definition adds_for :: "u64 \<Rightarrow> token_event list \<Rightarrow> nat" where
  "adds_for h evs = length (filter (\<lambda>e. case e of Added now tok \<Rightarrow> challenge tok = h | _ \<Rightarrow> False) evs)"

section \<open>Searching\<close>

lemma min_element_Some: "es \<noteq> [] \<Longrightarrow> \<exists>i < length es. min_element es = Some i"
proof (induction es)
  case (Cons e es)
  then show ?case by (cases "es = []") (auto split: option.splits)
qed simp

lemma min_element_least:
  "min_element es = Some i \<Longrightarrow> i < length es \<and> (\<forall>j < length es. last_use (es ! i) \<le> last_use (es ! j))"
proof (induction es arbitrary: i)
  case (Cons e es)
  show ?case
  proof (cases "min_element es")
    case None
    then have "es = []" using min_element_Some [of es] by fastforce
    then show ?thesis using Cons.prems by simp
  next
    case (Some k)
    then have k: "k < length es" "\<And>j. j < length es \<Longrightarrow> last_use (es ! k) \<le> last_use (es ! j)" using Cons.IH by blast+
    show ?thesis
    proof (cases "last_use (es ! k) < last_use e")
      case True
      then show ?thesis using Cons.prems Some k by (auto simp: nth_Cons')
    next
      case False
      then have "last_use e \<le> last_use (es ! j)" if "j < length es" for j using k(2) [OF that] by linarith
      then show ?thesis using Cons.prems Some False by (auto simp: nth_Cons')
    qed
  qed
qed simp

definition matches :: "u64 list \<Rightarrow> u32 \<Rightarrow> Entry list \<Rightarrow> nat \<Rightarrow> nat option \<Rightarrow> bool" where
  "matches sids ty es n r \<longleftrightarrow> (case r of
     None \<Rightarrow> \<forall>j < n. \<not> SatisfiesAuth sids ty (es ! j)
   | Some i \<Rightarrow> i < n \<and> SatisfiesAuth sids ty (es ! i) \<and> (\<forall>j < n. SatisfiesAuth sids ty (es ! j) \<longrightarrow> \<not> is_newer_than (es ! j) (Some (es ! i))))"

lemma is_newer_than_trans:
  "is_newer_than a (Some b) \<Longrightarrow> \<not> is_newer_than c (Some b) \<Longrightarrow> \<not> is_newer_than c (Some a)"
  by (auto simp: is_newer_than_def)

lemma is_newer_than_irrefl [simp]: "\<not> is_newer_than a (Some a)"
  by (simp add: is_newer_than_def)

lemma newest_match_loop_matches:
  assumes "i \<le> length es" "matches sids ty es i r"
  shows "matches sids ty es (length es) (newest_match_loop sids ty es i r)"
  using assms
proof (induction "length es - i" arbitrary: i r)
  case 0
  then show ?case by (subst newest_match_loop.simps) simp
next
  case (Suc k)
  then have i: "i < length es" by linarith
  let ?r = "if SatisfiesAuth sids ty (es ! i) \<and> is_newer_than (es ! i) (map_option ((!) es) r) then Some i else r"
  have "matches sids ty es (Suc i) ?r"
    using Suc.prems(2) by (cases r) (auto simp: matches_def less_Suc_eq dest: is_newer_than_trans simp: is_newer_than_def [of _ None])
  then have "matches sids ty es (length es) (newest_match_loop sids ty es (Suc i) ?r)"
    using Suc.hyps(1) [of "Suc i" ?r] Suc.hyps(2) i by simp
  then show ?case using i by (subst newest_match_loop.simps) simp
qed

lemma newest_match:
  "matches sids ty es (length es) (newest_match_loop sids ty es 0 None)"
  by (rule newest_match_loop_matches) (simp_all add: matches_def)

section \<open>The invariant of a run\<close>

text \<open>An entry is backed by the event that added its token.\<close>

definition backed :: "token_event list \<Rightarrow> Entry \<Rightarrow> bool" where
  "backed evs e \<longleftrightarrow> (\<exists>pre post. evs = pre @ Added (time_received e) (token e) # post \<and> Cleared \<notin> set post \<and>
     (\<not> operation_completed e \<and> adds_for (challenge (token e)) evs = 1 \<longrightarrow> Completed (challenge (token e)) \<notin> set post))"

definition superseded_free :: "Entry list \<Rightarrow> bool" where
  "superseded_free es \<longleftrightarrow> (\<forall>e \<in> set es. challenge (token e) \<noteq> 0 \<longrightarrow> \<not> IsSupersededBySomeEntry e es)"

definition token_table_ok :: "nat \<Rightarrow> token_event list \<Rightarrow> AuthTokenTable \<Rightarrow> bool" where
  "token_table_ok limit evs t \<longleftrightarrow> max_entries t = limit \<and> length (entries t) \<le> limit \<and>
     (\<forall>e \<in> set (entries t). backed evs e \<and> (challenge (token e) = 0 \<longrightarrow> operation_completed e)) \<and>
     (\<forall>h. length (filter (\<lambda>e. challenge (token e) = h) (entries t)) \<le> adds_for h evs) \<and>
     superseded_free (entries t)"

lemma adds_for_snoc:
  "adds_for h (evs @ [ev]) = adds_for h evs + (case ev of Added now tok \<Rightarrow> if challenge tok = h then 1 else 0 | _ \<Rightarrow> 0)"
  by (simp add: adds_for_def split: token_event.splits)

lemma backed_snoc:
  assumes "backed evs e" "ev \<noteq> Cleared" "operation_completed e' \<or> adds_for (challenge (token e)) evs \<noteq> 1 \<or> \<not> operation_completed e \<and> ev \<noteq> Completed (challenge (token e))"
    "token e' = token e" "time_received e' = time_received e"
  shows "backed (evs @ [ev]) e'"
proof -
  obtain pre post where b: "evs = pre @ Added (time_received e) (token e) # post" "Cleared \<notin> set post"
    "\<not> operation_completed e \<and> adds_for (challenge (token e)) evs = 1 \<longrightarrow> Completed (challenge (token e)) \<notin> set post"
    using assms(1) by (auto simp: backed_def)
  have "1 \<le> adds_for (challenge (token e)) evs" unfolding b(1) by (simp add: adds_for_def)
  then have "adds_for (challenge (token e)) (evs @ [ev]) = 1 \<Longrightarrow> adds_for (challenge (token e)) evs = 1"
    by (simp add: adds_for_snoc)
  then show ?thesis unfolding backed_def using b assms(2-5) by (intro exI [of _ pre] exI [of _ "post @ [ev]"]) auto
qed

section \<open>Each event keeps the invariant\<close>

text \<open>What the invariant reads of an entry.\<close>

definition core :: "Entry \<Rightarrow> HardwareAuthToken \<times> int \<times> bool" where
  "core e = (token e, time_received e, operation_completed e)"

definition core_supersedes :: "HardwareAuthToken \<times> int \<times> bool \<Rightarrow> HardwareAuthToken \<times> int \<times> bool \<Rightarrow> bool" where
  "core_supersedes a b = Supersedes \<lparr>token = fst a, time_received = fst (snd a), last_use = 0, operation_completed = snd (snd a)\<rparr>
     \<lparr>token = fst b, time_received = fst (snd b), last_use = 0, operation_completed = snd (snd b)\<rparr>"

lemma core_Supersedes: "Supersedes a b = core_supersedes (core a) (core b)"
  by (simp add: core_def core_supersedes_def Supersedes_def is_newer_than_def timestamp_host_order_def)

lemma core_superseded:
  assumes "map core es = map core es'" "core e = core e'"
  shows "IsSupersededBySomeEntry e es = IsSupersededBySomeEntry e' es'"
proof -
  have "IsSupersededBySomeEntry x xs = list_ex (\<lambda>c. core_supersedes c (core x)) (map core xs)" for x xs
    by (induction xs) (simp_all add: IsSupersededBySomeEntry_def core_Supersedes)
  then show ?thesis using assms by simp
qed

lemma core_table_ok:
  assumes "map core (entries t') = map core (entries t)" "max_entries t' = max_entries t" "token_table_ok limit evs t"
    "\<forall>now tok h. ev \<noteq> Added now tok \<and> ev \<noteq> Completed h" "ev \<noteq> Cleared"
  shows "token_table_ok limit (evs @ [ev]) t'"
proof -
  have len: "length (entries t') = length (entries t)" using assms(1) by (rule map_eq_imp_length_eq)
  have nth: "core (entries t' ! i) = core (entries t ! i)" if "i < length (entries t)" for i
    using arg_cong [OF assms(1), of "\<lambda>xs. xs ! i"] that len by simp
  have "backed (evs @ [ev]) e' \<and> (challenge (token e') = 0 \<longrightarrow> operation_completed e') \<and>
      (challenge (token e') \<noteq> 0 \<longrightarrow> \<not> IsSupersededBySomeEntry e' (entries t'))" if e': "e' \<in> set (entries t')" for e'
  proof -
    obtain i where i: "i < length (entries t)" "e' = entries t' ! i" using e' len by (auto simp: in_set_conv_nth)
    let ?e = "entries t ! i"
    have c: "core e' = core ?e" using nth i by simp
    then have eq: "token e' = token ?e" "time_received e' = time_received ?e" "operation_completed e' = operation_completed ?e"
      by (simp_all add: core_def)
    have "?e \<in> set (entries t)" using i by simp
    then show ?thesis using assms(3-5) eq backed_snoc [of evs ?e ev e'] core_superseded [OF assms(1) c]
      by (auto simp: token_table_ok_def superseded_free_def)
  qed
  moreover have "length (filter (\<lambda>e. challenge (token e) = h) (entries t')) = length (filter (\<lambda>e. challenge (token e) = h) (entries t))" for h
    using arg_cong [OF assms(1), of "\<lambda>xs. length (filter (\<lambda>c. challenge (fst c) = h) xs)"] by (simp add: filter_map comp_def core_def)
  moreover have "adds_for h evs \<le> adds_for h (evs @ [ev])" for h by (simp add: adds_for_snoc)
  ultimately show ?thesis using assms(2,3) len by (auto simp: token_table_ok_def superseded_free_def intro: le_trans)
qed

lemma length_filter_update:
  "length (filter P (xs[i := x])) \<le> length (filter P xs) + (if P x then 1 else 0)"
proof (induction xs arbitrary: i)
  case (Cons a xs)
  then show ?case using Cons.IH [of "i - 1"] by (cases i) auto
qed simp

lemma length_filter_filter: "length (filter P (filter Q xs)) \<le> length (filter P xs)"
  by (induction xs) simp_all

lemma Add_ok:
  assumes t: "token_table_ok limit evs t" and l: "0 < limit"
  shows "\<exists>t'. AddAuthenticationToken now tok t = Some t' \<and> token_table_ok limit (evs @ [Added now tok]) t'"
proof -
  let ?N = "new_Entry tok now" and ?ev = "Added now tok"
  define es where "es = RemoveEntriesSupersededBy ?N (entries t)"
  have max: "max_entries t = limit" using t by (simp add: token_table_ok_def)
  have les: "length es \<le> limit" using t length_filter_le [of _ "entries t"] unfolding es_def RemoveEntriesSupersededBy_def token_table_ok_def by (meson le_trans)
  obtain es' where es': "AddAuthenticationToken now tok t = Some (t\<lparr>entries := es'\<rparr>)" "length es' \<le> limit" "set es' \<subseteq> insert ?N (set es)"
    "\<And>h. length (filter (\<lambda>e. challenge (token e) = h) es') \<le> length (filter (\<lambda>e. challenge (token e) = h) es) + (if challenge tok = h then 1 else 0)"
  proof (cases "length es \<ge> limit")
    case True
    then obtain i where i: "i < length es" "min_element es = Some i" using l min_element_Some [of es] by fastforce
    have "AddAuthenticationToken now tok t = Some (t\<lparr>entries := es[i := ?N]\<rparr>)"
      using True i max by (simp add: AddAuthenticationToken_def Let_def es_def [symmetric])
    moreover have "length (filter (\<lambda>e. challenge (token e) = h) (es[i := ?N]))
        \<le> length (filter (\<lambda>e. challenge (token e) = h) es) + (if challenge tok = h then 1 else 0)" for h
      using length_filter_update [of "\<lambda>e. challenge (token e) = h" es i ?N] by (simp add: new_Entry_def)
    ultimately show thesis using les by (intro that [OF _ _ set_update_subset_insert]) (assumption, simp, assumption)
  next
    case False
    then have "AddAuthenticationToken now tok t = Some (t\<lparr>entries := es @ [?N]\<rparr>)"
      using max by (simp add: AddAuthenticationToken_def Let_def es_def [symmetric])
    then show thesis using False by (intro that [of "es @ [?N]"]) (simp_all add: new_Entry_def)
  qed
  have old: "e \<in> set (entries t) \<and> \<not> Supersedes ?N e" if "e \<in> set es" for e
    using that by (simp add: es_def RemoveEntriesSupersededBy_def)
  have N: "backed (evs @ [?ev]) ?N" unfolding backed_def new_Entry_def by (intro exI [of _ evs] exI [of _ "[]"]) simp
  have "backed (evs @ [?ev]) e" "challenge (token e) = 0 \<longrightarrow> operation_completed e" if "e \<in> set es'" for e
    using that es'(3) N old [of e] t backed_snoc [of evs e ?ev e] by (auto simp: token_table_ok_def new_Entry_def)
  moreover have "length (filter (\<lambda>e. challenge (token e) = h) es') \<le> adds_for h (evs @ [?ev])" for h
  proof -
    have "length (filter (\<lambda>e. challenge (token e) = h) es) \<le> length (filter (\<lambda>e. challenge (token e) = h) (entries t))"
      unfolding es_def RemoveEntriesSupersededBy_def by (rule length_filter_filter)
    moreover have "length (filter (\<lambda>e. challenge (token e) = h) (entries t)) \<le> adds_for h evs" using t by (simp add: token_table_ok_def)
    ultimately have "length (filter (\<lambda>e. challenge (token e) = h) es') \<le> adds_for h evs + (if challenge tok = h then 1 else 0)"
      using es'(4) [of h] by linarith
    then show ?thesis by (simp add: adds_for_snoc)
  qed
  moreover have "superseded_free es'" unfolding superseded_free_def IsSupersededBySomeEntry_def list_ex_iff
  proof (intro ballI impI notI, elim bexE)
    fix e e' assume e: "e \<in> set es'" "challenge (token e) \<noteq> 0" and e': "e' \<in> set es'" "Supersedes e' e"
    have "e \<noteq> ?N" using e(2) e'(2) by (auto simp: Supersedes_def new_Entry_def)
    then have "e \<in> set es" using e es'(3) by auto
    then have "e \<in> set (entries t)" "e' \<noteq> ?N" using old e' by auto
    moreover from this have "e' \<in> set (entries t)" using e' es'(3) old by auto
    ultimately show False using t e(2) e'(2) by (auto simp: token_table_ok_def superseded_free_def IsSupersededBySomeEntry_def list_ex_iff)
  qed
  ultimately show ?thesis using es'(1,2) max by (simp add: token_table_ok_def)
qed

lemma core_last_use: "map core (es[i := (es ! i)\<lparr>last_use := now\<rparr>]) = map core es"
proof (cases "i < length es")
  case True
  have "core ((es ! i)\<lparr>last_use := now\<rparr>) = map core es ! i" using True by (simp add: core_def)
  then show ?thesis unfolding map_update by (simp only: list_update_id)
next
  case False
  then show ?thesis by (simp add: not_less list_update_beyond)
qed

definition same_table :: "AuthTokenTable \<Rightarrow> AuthTokenTable \<Rightarrow> bool" where
  "same_table t' t \<longleftrightarrow> map core (entries t') = map core (entries t) \<and> max_entries t' = max_entries t \<and> last_off_body t' = last_off_body t"

lemma same_table_refl [simp]: "same_table t t"
  by (simp add: same_table_def)

lemma Find_core: "same_table (snd (FindAuthorization NONE now key_info purpose h t)) t"
proof -
  have "same_table (t\<lparr>entries := (entries t)[i := (entries t ! i)\<lparr>last_use := now\<rparr>]\<rparr>) t" for i
    using core_last_use by (simp add: same_table_def)
  then show ?thesis
    by (cases "newest_match_loop (ExtractSids key_info) (defaultOr (GetTagValue auth_type_value key_info) NONE) (entries t) 0 None")
      (simp_all add: FindAuthorization_def FindTimedAuthorization_def Let_def)
qed

lemma two_entries:
  assumes "i < length xs" "j < length xs" "i \<noteq> j" "P (xs ! i)" "P (xs ! j)"
  shows "2 \<le> length (filter P xs)"
proof -
  have "{i, j} \<subseteq> {k. k < length xs \<and> P (xs ! k)}" using assms by auto
  then have "card {i, j} \<le> card {k. k < length xs \<and> P (xs ! k)}" by (intro card_mono) simp_all
  then show ?thesis using assms(3) by (simp add: length_filter_conv_card)
qed

lemma in_remove_at: "x \<in> set (remove_at i xs) \<Longrightarrow> \<exists>j < length xs. j \<noteq> i \<and> x = xs ! j"
proof -
  assume "x \<in> set (remove_at i xs)"
  then consider k where "k < length (take i xs)" "x = take i xs ! k" | k where "k < length (drop (Suc i) xs)" "x = drop (Suc i) xs ! k"
    unfolding remove_at_def set_append Un_iff in_set_conv_nth by blast
  then show ?thesis
  proof cases
    case (1 k)
    then show ?thesis by (intro exI [of _ k]) simp
  next
    case (2 k)
    then show ?thesis by (intro exI [of _ "Suc i + k"]) simp
  qed
qed

lemma length_filter_remove_at: "length (filter P (remove_at i xs)) \<le> length (filter P xs)"
proof -
  have "filter P xs = filter P (take i xs) @ filter P (drop i xs)" by (metis append_take_drop_id filter_append)
  moreover have "length (filter P (drop (Suc i) xs)) \<le> length (filter P (drop i xs))"
    unfolding drop_Suc tl_drop [symmetric] by (cases "drop i xs") simp_all
  ultimately show ?thesis by (simp add: remove_at_def)
qed

lemma marked_superseded:
  assumes "i < length es"
  shows "IsSupersededBySomeEntry x (es[i := mark_completed (es ! i)]) = IsSupersededBySomeEntry x es"
proof -
  let ?P = "\<lambda>e. Supersedes e x"
  have "?P (mark_completed (es ! i)) = map ?P es ! i"
    using assms by (simp add: mark_completed_def Supersedes_def is_newer_than_def timestamp_host_order_def)
  then have eq: "map ?P (es[i := mark_completed (es ! i)]) = map ?P es" unfolding map_update by (simp only: list_update_id)
  have ex: "list_ex ?P xs = list_ex id (map ?P xs)" for xs by (induction xs) simp_all
  show ?thesis unfolding IsSupersededBySomeEntry_def ex eq ..
qed

lemma Mark_ok:
  assumes t: "token_table_ok limit evs t" and h: "h \<noteq> 0"
  shows "\<exists>t'. MarkCompleted h t = Some t' \<and> token_table_ok limit (evs @ [Completed h]) t'"
proof (cases "find_index (\<lambda>e. challenge (token e) = h) (entries t)")
  case None
  then have "backed (evs @ [Completed h]) e" if "e \<in> set (entries t)" for e
    using that t backed_snoc [of evs e "Completed h" e] by (auto simp: token_table_ok_def find_index_None in_set_conv_nth)
  then show ?thesis using None t by (simp add: MarkCompleted_def token_table_ok_def adds_for_snoc)
next
  case (Some i)
  let ?e = "entries t ! i" and ?es = "(entries t)[i := mark_completed (entries t ! i)]" and ?ev = "Completed h"
  have i: "i < length (entries t)" "challenge (token ?e) = h" using find_index_Some [OF Some] by simp_all
  have ns: "\<not> IsSupersededBySomeEntry ?e (entries t)" using t i h by (simp add: token_table_ok_def superseded_free_def)
  define es where "es = (if IsSupersededBySomeEntry (?es ! i) ?es then remove_at i ?es else ?es)"
  have run: "MarkCompleted h t = Some (t\<lparr>entries := es\<rparr>)" using Some ns by (simp add: MarkCompleted_def Let_def es_def)
  have kept: "backed (evs @ [?ev]) e \<and> (challenge (token e) = 0 \<longrightarrow> operation_completed e)" if mem: "e \<in> set ?es" for e
  proof -
    obtain j where j: "j < length (entries t)" "?es ! j = e" using mem unfolding in_set_conv_nth length_list_update by blast
    have old: "backed evs (entries t ! j)" "challenge (token (entries t ! j)) = 0 \<longrightarrow> operation_completed (entries t ! j)"
      using t j(1) by (simp_all add: token_table_ok_def)
    show ?thesis
    proof (cases "j = i")
      case True
      then have "e = mark_completed (entries t ! j)" using j(2) [symmetric] i(1) by simp
      then have e: "token e = token (entries t ! j)" "time_received e = time_received (entries t ! j)" "operation_completed e"
        by (simp_all add: mark_completed_def)
      from backed_snoc [OF old(1) _ _ e(1,2), of ?ev] e(3) show ?thesis by simp
    next
      case False
      then have e: "e = entries t ! j" using j(2) [symmetric] by simp
      have "adds_for h evs \<noteq> 1" if "challenge (token e) = h"
      proof -
        have "2 \<le> length (filter (\<lambda>e. challenge (token e) = h) (entries t))"
          by (rule two_entries [OF i(1) j(1) False [symmetric]]) (use i(2) that e in simp_all)
        moreover have "length (filter (\<lambda>e. challenge (token e) = h) (entries t)) \<le> adds_for h evs" using t by (simp add: token_table_ok_def)
        ultimately show ?thesis by linarith
      qed
      then have "operation_completed e \<or> adds_for (challenge (token e)) evs \<noteq> 1 \<or> \<not> operation_completed e \<and> ?ev \<noteq> Completed (challenge (token e))"
        by blast
      from backed_snoc [OF old(1) [folded e] _ this] have "backed (evs @ [?ev]) e" by simp
      then show ?thesis using old e by simp
    qed
  qed
  have es: "\<exists>j < length ?es. e = ?es ! j \<and> (j = i \<longrightarrow> \<not> IsSupersededBySomeEntry e ?es)" if "e \<in> set es" for e
    using that in_remove_at [of e i ?es] by (auto simp: es_def in_set_conv_nth split: if_splits)
  then have sub: "set es \<subseteq> set ?es" by (metis nth_mem subsetI)
  have shorter: "length (filter P es) \<le> length (filter P ?es)" for P using length_filter_remove_at [of P i ?es] by (simp add: es_def)
  have same: "length (filter (\<lambda>e. challenge (token e) = k) ?es) = length (filter (\<lambda>e. challenge (token e) = k) (entries t))" for k
  proof -
    have "token (mark_completed ?e) = map token (entries t) ! i" using i(1) by (simp add: mark_completed_def)
    then have eq: "map token ?es = map token (entries t)" unfolding map_update by (simp only: list_update_id)
    have f: "length (filter (\<lambda>e. challenge (token e) = k) xs) = length (filter (\<lambda>u. challenge u = k) (map token xs))" for xs
      by (induction xs) simp_all
    show ?thesis unfolding f eq ..
  qed
  have cnt: "length (filter (\<lambda>e. challenge (token e) = k) es) \<le> adds_for k (evs @ [?ev])" for k
  proof -
    have "length (filter (\<lambda>e. challenge (token e) = k) (entries t)) \<le> adds_for k evs" using t by (simp add: token_table_ok_def)
    then show ?thesis using shorter [of "\<lambda>e. challenge (token e) = k"] unfolding same by (simp add: adds_for_snoc)
  qed
  have "length (entries t) \<le> limit" using t by (simp add: token_table_ok_def)
  then have len: "length es \<le> limit" using i by (auto simp: es_def remove_at_def)
  have "superseded_free es" unfolding superseded_free_def
  proof (intro ballI impI)
    fix e assume e: "e \<in> set es" "challenge (token e) \<noteq> 0"
    obtain j where j: "j < length (entries t)" "e = ?es ! j" "j = i \<longrightarrow> \<not> IsSupersededBySomeEntry e ?es" using es [OF e(1)] unfolding length_list_update by blast
    have "\<not> IsSupersededBySomeEntry e ?es"
    proof (cases "j = i")
      case False
      then have "e \<in> set (entries t)" using j by simp
      then show ?thesis using t e(2) unfolding marked_superseded [OF i(1)] by (simp add: token_table_ok_def superseded_free_def)
    qed (use j(3) in simp)
    then show "\<not> IsSupersededBySomeEntry e es" using sub by (auto simp: IsSupersededBySomeEntry_def list_ex_iff)
  qed
  then show ?thesis using run kept sub cnt len t by (auto simp: token_table_ok_def)
qed

section \<open>Whole runs\<close>

fun off_body_time :: "int \<Rightarrow> token_event list \<Rightarrow> int" where
  "off_body_time t0 [] = t0"
| "off_body_time t0 (e # es) = off_body_time (case e of OffBody now \<Rightarrow> now | _ \<Rightarrow> t0) es"

lemma off_body_time_snoc: "off_body_time t0 (es @ [e]) = (case e of OffBody now \<Rightarrow> now | _ \<Rightarrow> off_body_time t0 es)"
  by (induction es arbitrary: t0) (simp_all split: token_event.split)

lemma Add_off_body: "AddAuthenticationToken now tok t = Some t' \<Longrightarrow> last_off_body t' = last_off_body t"
  by (auto simp: AddAuthenticationToken_def Let_def split: if_splits)

lemma Mark_off_body: "MarkCompleted h t = Some t' \<Longrightarrow> last_off_body t' = last_off_body t"
  by (auto simp: MarkCompleted_def Let_def split: if_splits option.splits)

lemma token_step_ok:
  assumes "token_table_ok limit evs t" "0 < limit" "ev \<noteq> Completed 0"
  shows "\<exists>t'. token_step NONE ev t = Some t' \<and> token_table_ok limit (evs @ [ev]) t' \<and>
    last_off_body t' = (case ev of OffBody now \<Rightarrow> now | _ \<Rightarrow> last_off_body t)"
proof (cases ev)
  case (Added now tok)
  then show ?thesis using Add_ok [OF assms(1,2), of now tok] Add_off_body [of now tok t] by auto
next
  case (Searched now key_info purpose h)
  then show ?thesis using core_table_ok [OF _ _ assms(1), of _ ev] Find_core [of NONE now key_info purpose h t] by (simp add: same_table_def)
next
  case (Completed h)
  then show ?thesis using Mark_ok [OF assms(1), of h] assms(3) Mark_off_body [of h t] by auto
next
  case (OffBody now)
  then show ?thesis using core_table_ok [OF _ _ assms(1), of "onDeviceOffBody now t" ev] by (simp add: onDeviceOffBody_def)
next
  case Cleared
  then show ?thesis using assms(1) by (simp add: Clear_def token_table_ok_def superseded_free_def)
qed

lemma token_run_ok:
  assumes "0 < limit" "Completed 0 \<notin> set evs"
  shows "\<exists>t. token_run NONE evs (new_AuthTokenTable limit t0) = Some t \<and> token_table_ok limit evs t \<and> last_off_body t = off_body_time t0 evs"
  using assms(2)
proof (induction evs rule: rev_induct)
  case Nil
  then show ?case by (simp add: new_AuthTokenTable_def token_table_ok_def superseded_free_def)
next
  case (snoc ev evs)
  then obtain t where t: "token_run NONE evs (new_AuthTokenTable limit t0) = Some t" "token_table_ok limit evs t" "last_off_body t = off_body_time t0 evs"
    by auto
  have "ev \<noteq> Completed 0" using snoc.prems by auto
  from token_step_ok [OF t(2) assms(1) this] obtain t' where "token_step NONE ev t = Some t'" "token_table_ok limit (evs @ [ev]) t'"
    "last_off_body t' = (case ev of OffBody now \<Rightarrow> now | _ \<Rightarrow> last_off_body t)" by blast
  then show ?case using t by (simp add: token_run_snoc off_body_time_snoc split: token_event.splits)
qed

section \<open>What a search returns\<close>

definition key_auth_type :: "u32 \<Rightarrow> key_info \<Rightarrow> u32" where
  "key_auth_type NONE key_info = defaultOr (GetTagValue auth_type_value key_info) NONE"

definition key_timeout :: "key_info \<Rightarrow> int" where
  "key_timeout key_info = uint (defaultOr (GetTagValue auth_timeout_value key_info) 0)"

text \<open>The token names a secure id of the key, and is of an accepted kind if it is the id of the user.\<close>

definition token_fits :: "u32 \<Rightarrow> key_info \<Rightarrow> HardwareAuthToken \<Rightarrow> bool" where
  "token_fits NONE key_info tok \<longleftrightarrow> (\<exists>sid. USER_SECURE_ID sid \<in> set key_info \<and>
     (sid = authenticatorId tok \<or> sid = userId tok \<and> and (key_auth_type NONE key_info) (bswap 4 (authenticatorType tok)) \<noteq> 0))"

lemma in_ExtractSids: "sid \<in> set (ExtractSids key_info) \<longleftrightarrow> USER_SECURE_ID sid \<in> set key_info"
proof (induction key_info)
  case (Cons p ps)
  then show ?case by (cases p) (auto simp: ExtractSids_def List.map_filter_simps)
qed (simp add: ExtractSids_def List.map_filter_simps)

lemma SatisfiesAuth_fits: "SatisfiesAuth (ExtractSids key_info) (key_auth_type NONE key_info) e \<longleftrightarrow> token_fits NONE key_info (token e)"
  by (auto simp: SatisfiesAuth_def token_fits_def list_ex_iff in_ExtractSids authenticator_type_def)

lemma Find_OK:
  assumes "FindAuthorization NONE now key_info purpose h t = ((OK, Some tok), t')"
  obtains e where "e \<in> set (entries t)" "token e = tok" "token_fits NONE key_info tok" "KeyRequiresAuthentication key_info purpose"
    "KeyRequiresAuthPerOperation key_info purpose \<Longrightarrow> challenge tok = h \<and> h \<noteq> 0 \<and> \<not> operation_completed e"
    "\<not> KeyRequiresAuthPerOperation key_info purpose \<Longrightarrow> now \<le> time_received e + key_timeout key_info \<and>
      (ALLOW_WHILE_ON_BODY \<in> set key_info \<longrightarrow> last_off_body t \<le> time_received e)"
proof -
  let ?sids = "ExtractSids key_info" and ?ty = "key_auth_type NONE key_info"
  have req: "KeyRequiresAuthentication key_info purpose" using assms by (simp add: FindAuthorization_def split: if_splits)
  show thesis
  proof (cases "KeyRequiresAuthPerOperation key_info purpose")
    case True
    then have "FindAuthPerOpAuthorization ?sids ?ty h t = (OK, Some tok)"
      using assms req by (auto simp: FindAuthorization_def key_auth_type_def Let_def)
    then obtain e where e: "h \<noteq> 0" "List.find (\<lambda>e. challenge (token e) = h \<and> \<not> operation_completed e) (entries t) = Some e"
      "SatisfiesAuth ?sids ?ty e" "token e = tok"
      by (auto simp: FindAuthPerOpAuthorization_def split: if_splits option.splits)
    have m: "e \<in> set (entries t)" "challenge (token e) = h \<and> \<not> operation_completed e" using e(2) unfolding find_Some_iff by force+
    have "token_fits NONE key_info tok" using e(3,4) unfolding SatisfiesAuth_fits by simp
    then show thesis using m e(1,4) True req by (intro that [of e]) auto
  next
    case False
    then have f: "FindTimedAuthorization now ?sids ?ty key_info t = ((OK, Some tok), t')"
      using assms req by (simp add: FindAuthorization_def key_auth_type_def Let_def)
    then obtain i where i: "newest_match_loop ?sids ?ty (entries t) 0 None = Some i" by (auto simp: FindTimedAuthorization_def split: option.splits)
    have m: "i < length (entries t)" "SatisfiesAuth ?sids ?ty (entries t ! i)"
      using newest_match [of ?sids ?ty "entries t"] unfolding i by (simp_all add: matches_def)
    have "token (entries t ! i) = tok" "\<not> time_received (entries t ! i) + key_timeout key_info < now"
      "\<not> (ALLOW_WHILE_ON_BODY \<in> set key_info \<and> time_received (entries t ! i) < last_off_body t)"
      using f i by (auto simp: FindTimedAuthorization_def Let_def key_timeout_def split: if_splits)
    moreover from this(1) have "token_fits NONE key_info tok" using m(2) unfolding SatisfiesAuth_fits by simp
    ultimately show thesis using m(1) False req by (intro that [of "entries t ! i"]) auto
  qed
qed

end
