(* ===== verification/Ks_Operations.thy ===== *)
theory Ks_Operations
  imports Ks_Tokens "HOL-Library.AList"
begin

text \<open>
  \<open>class OperationMap\<close> of the keystore daemon (\<open>operation.h\<close>, \<open>operation.cpp\<close>): the operations in progress, by the
  binder token given to the client, with the order of their last use and the operations of each client.

  A binder is a number that identifies the object; \<open>new BBinder()\<close> returns the next one. A binder is reference counted,
  and the daemon's map and the client's proxy both hold it, so that the token of a live operation, or one that a client
  can still present, is not that of a new object: numbers are not reused. (The address of an object that nobody holds
  any more may be used again, which no call can observe.) The keymaster device and the characteristics of a key
  are values of any type. \<open>linked\<close> are the clients whose death the recipient listens for. A map is an association
  list in the order of insertion. The output pointers of \<open>getOperation\<close> are not null. \<^term>\<open>None\<close> is an erasure at the end of a vector.
\<close>

record ('d, 'c) Operation =
  op_handle :: u64
  op_keyid :: u64
  operation_purpose :: KeyPurpose
  op_device :: 'd
  op_characteristics :: 'c
  op_appToken :: nat
  op_authToken :: "HardwareAuthToken option"

record ('d, 'c) OperationMap =
  mMap :: "(nat \<times> ('d, 'c) Operation) list"
  mLru :: "nat list"
  mAppTokenMap :: "(nat \<times> nat list) list"
  linked :: "nat list"
  next_binder :: nat

definition new_OperationMap :: "('d, 'c) OperationMap" where
  "new_OperationMap = \<lparr>mMap = [], mLru = [], mAppTokenMap = [], linked = [], next_binder = 0\<rparr>"

definition addOperation ::
  "u64 \<Rightarrow> u64 \<Rightarrow> KeyPurpose \<Rightarrow> 'd \<Rightarrow> nat \<Rightarrow> 'c \<Rightarrow> bool \<Rightarrow> ('d, 'c) OperationMap \<Rightarrow> nat \<times> ('d, 'c) OperationMap" where
  "addOperation handle keyid purpose dev appToken characteristics pruneable m =
     (let tok = next_binder m;
          operation = \<lparr>op_handle = handle, op_keyid = keyid, operation_purpose = purpose, op_device = dev,
            op_characteristics = characteristics, op_appToken = appToken, op_authToken = None\<rparr>;
          m = m\<lparr>next_binder := Suc tok, mMap := AList.update tok operation (mMap m)\<rparr>;
          m = (if pruneable then m\<lparr>mLru := mLru m @ [tok]\<rparr> else m);
          m = (if map_of (mAppTokenMap m) appToken = None then m\<lparr>linked := linked m @ [appToken]\<rparr> else m);
          tokens = (case map_of (mAppTokenMap m) appToken of None \<Rightarrow> [] | Some ts \<Rightarrow> ts)
      in (tok, m\<lparr>mAppTokenMap := AList.update appToken (tokens @ [tok]) (mAppTokenMap m)\<rparr>))"

definition updateLru :: "nat \<Rightarrow> ('d, 'c) OperationMap \<Rightarrow> ('d, 'c) OperationMap" where
  "updateLru tok m = (if tok \<in> set (mLru m) then m\<lparr>mLru := remove1 tok (mLru m) @ [tok]\<rparr> else m)"

definition getOperation :: "nat \<Rightarrow> ('d, 'c) OperationMap \<Rightarrow> ('d, 'c) Operation option \<times> ('d, 'c) OperationMap" where
  "getOperation tok m =
     (case map_of (mMap m) tok of None \<Rightarrow> (None, m) | Some operation \<Rightarrow> (Some operation, updateLru tok m))"

definition removeOperationTracking :: "nat \<Rightarrow> nat \<Rightarrow> ('d, 'c) OperationMap \<Rightarrow> ('d, 'c) OperationMap option" where
  "removeOperationTracking tok appToken m =
     (case map_of (mAppTokenMap m) appToken of
        None \<Rightarrow> Some m
      | Some tokens \<Rightarrow>
          if tok \<notin> set tokens then None
          else let tokens = remove1 tok tokens in
            if tokens = []
            then Some (m\<lparr>linked := remove1 appToken (linked m), mAppTokenMap := AList.delete appToken (mAppTokenMap m)\<rparr>)
            else Some (m\<lparr>mAppTokenMap := AList.update appToken tokens (mAppTokenMap m)\<rparr>))"

definition removeOperation :: "nat \<Rightarrow> ('d, 'c) OperationMap \<Rightarrow> (bool \<times> ('d, 'c) OperationMap) option" where
  "removeOperation tok m =
     (case map_of (mMap m) tok of
        None \<Rightarrow> Some (False, m)
      | Some operation \<Rightarrow>
          map_option (Pair True) (removeOperationTracking tok (op_appToken operation)
            (m\<lparr>mMap := AList.delete tok (mMap m), mLru := remove1 tok (mLru m)\<rparr>)))"

definition getOperationCount :: "('d, 'c) OperationMap \<Rightarrow> nat" where
  "getOperationCount m = length (mMap m)"

definition hasPruneableOperation :: "('d, 'c) OperationMap \<Rightarrow> bool" where
  "hasPruneableOperation m \<longleftrightarrow> length (mLru m) \<noteq> 0"

definition getPruneableOperationCount :: "('d, 'c) OperationMap \<Rightarrow> nat" where
  "getPruneableOperationCount m = length (mLru m)"

definition getOldestPruneableOperation :: "('d, 'c) OperationMap \<Rightarrow> nat option" where
  "getOldestPruneableOperation m = (if \<not> hasPruneableOperation m then None else Some (mLru m ! 0))"

definition getOperationAuthToken :: "nat \<Rightarrow> ('d, 'c) OperationMap \<Rightarrow> HardwareAuthToken option option" where
  "getOperationAuthToken tok m = map_option op_authToken (map_of (mMap m) tok)"

definition setOperationAuthToken :: "nat \<Rightarrow> HardwareAuthToken \<Rightarrow> ('d, 'c) OperationMap \<Rightarrow> bool \<times> ('d, 'c) OperationMap" where
  "setOperationAuthToken tok authToken m =
     (case map_of (mMap m) tok of
        None \<Rightarrow> (False, m)
      | Some operation \<Rightarrow> (True, m\<lparr>mMap := AList.update tok (operation\<lparr>op_authToken := Some authToken\<rparr>) (mMap m)\<rparr>))"

definition getOperationsForToken :: "nat \<Rightarrow> ('d, 'c) OperationMap \<Rightarrow> nat list" where
  "getOperationsForToken appToken m = (case map_of (mAppTokenMap m) appToken of None \<Rightarrow> [] | Some tokens \<Rightarrow> tokens)"

section \<open>What the map is for\<close>

text \<open>
  The specification keeps the operations in the order of creation, everything that was ever used in the order of
  use, and which operations may be pruned.
\<close>

record ('d, 'c) op_spec =
  live :: "(nat \<times> ('d, 'c) Operation) list"
  use_log :: "nat list"
  pruneables :: "nat list"
  created :: nat

datatype ('d, 'c) op_call =
    CallAdd u64 u64 KeyPurpose 'd nat 'c bool
  | CallGet nat
  | CallRemove nat
  | CallSetToken nat HardwareAuthToken
  | CallGetToken nat
  | CallOldest
  | CallOperationsOf nat
  | CallCounts
  | CallListens nat

datatype ('d, 'c) op_answer =
    NewToken nat
  | Found "('d, 'c) Operation option"
  | Done bool
  | FoundToken "HardwareAuthToken option option"
  | Oldest "nat option"
  | Operations "nat list"
  | Counts nat nat bool
  | Listens bool

fun run_op :: "('d, 'c) op_call \<Rightarrow> ('d, 'c) OperationMap \<Rightarrow> (('d, 'c) op_answer \<times> ('d, 'c) OperationMap) option" where
  "run_op (CallAdd h k p d app c pr) m = (case addOperation h k p d app c pr m of (tok, m) \<Rightarrow> Some (NewToken tok, m))"
| "run_op (CallGet tok) m = (case getOperation tok m of (r, m) \<Rightarrow> Some (Found r, m))"
| "run_op (CallRemove tok) m = map_option (\<lambda>(ok, m). (Done ok, m)) (removeOperation tok m)"
| "run_op (CallSetToken tok a) m = (case setOperationAuthToken tok a m of (ok, m) \<Rightarrow> Some (Done ok, m))"
| "run_op (CallGetToken tok) m = Some (FoundToken (getOperationAuthToken tok m), m)"
| "run_op CallOldest m = Some (Oldest (getOldestPruneableOperation m), m)"
| "run_op (CallOperationsOf app) m = Some (Operations (getOperationsForToken app m), m)"
| "run_op CallCounts m = Some (Counts (getOperationCount m) (getPruneableOperationCount m) (hasPruneableOperation m), m)"
| "run_op (CallListens app) m = Some (Listens (app \<in> set (linked m)), m)"

text \<open>Pruneable operations, the one that was not used for the longest time first.\<close>

definition by_last_use :: "('d, 'c) op_spec \<Rightarrow> nat list" where
  "by_last_use s = filter (\<lambda>tok. tok \<in> fst ` set (live s) \<and> tok \<in> set (pruneables s)) (remdups (use_log s))"

definition operations_of :: "nat \<Rightarrow> ('d, 'c) op_spec \<Rightarrow> nat list" where
  "operations_of app s = map fst (filter (\<lambda>(tok, operation). op_appToken operation = app) (live s))"

fun spec_op :: "('d, 'c) op_call \<Rightarrow> ('d, 'c) op_spec \<Rightarrow> ('d, 'c) op_answer \<times> ('d, 'c) op_spec" where
  "spec_op (CallAdd h k p d app c pr) s =
     (NewToken (created s), s\<lparr>created := Suc (created s), use_log := use_log s @ [created s],
        pruneables := (if pr then pruneables s @ [created s] else pruneables s),
        live := live s @ [(created s, \<lparr>op_handle = h, op_keyid = k, operation_purpose = p, op_device = d, op_characteristics = c,
          op_appToken = app, op_authToken = None\<rparr>)]\<rparr>)"
| "spec_op (CallGet tok) s = (Found (map_of (live s) tok), s\<lparr>use_log := use_log s @ [tok]\<rparr>)"
| "spec_op (CallRemove tok) s = (Done (tok \<in> fst ` set (live s)), s\<lparr>live := filter (\<lambda>(t, _). t \<noteq> tok) (live s)\<rparr>)"
| "spec_op (CallSetToken tok a) s = (Done (tok \<in> fst ` set (live s)),
     s\<lparr>live := map (\<lambda>(t, operation). (t, if t = tok then operation\<lparr>op_authToken := Some a\<rparr> else operation)) (live s)\<rparr>)"
| "spec_op (CallGetToken tok) s = (FoundToken (map_option op_authToken (map_of (live s) tok)), s)"
| "spec_op CallOldest s = (Oldest (case by_last_use s of [] \<Rightarrow> None | tok # _ \<Rightarrow> Some tok), s)"
| "spec_op (CallOperationsOf app) s = (Operations (operations_of app s), s)"
| "spec_op CallCounts s = (Counts (length (live s)) (length (by_last_use s)) (by_last_use s \<noteq> []), s)"
| "spec_op (CallListens app) s = (Listens (operations_of app s \<noteq> []), s)"

fun run_ops :: "('d, 'c) op_call list \<Rightarrow> ('d, 'c) OperationMap \<Rightarrow> ('d, 'c) op_answer list option" where
  "run_ops [] m = Some []"
| "run_ops (c # cs) m = Option.bind (run_op c m) (\<lambda>(a, m). map_option ((#) a) (run_ops cs m))"

fun spec_ops :: "('d, 'c) op_call list \<Rightarrow> ('d, 'c) op_spec \<Rightarrow> ('d, 'c) op_answer list" where
  "spec_ops [] s = []"
| "spec_ops (c # cs) s = (case spec_op c s of (a, s) \<Rightarrow> a # spec_ops cs s)"

section \<open>The refinement\<close>

definition op_refines :: "('d, 'c) OperationMap \<Rightarrow> ('d, 'c) op_spec \<Rightarrow> bool" where
  "op_refines m s \<longleftrightarrow> mMap m = live s \<and> mLru m = by_last_use s \<and> next_binder m = created s \<and>
     distinct (map fst (live s)) \<and> (\<forall>tok \<in> fst ` set (live s). tok < created s \<and> tok \<in> set (use_log s)) \<and>
     (\<forall>tok \<in> set (pruneables s). tok < created s) \<and>
     distinct (map fst (mAppTokenMap m)) \<and> distinct (linked m) \<and>
     (\<forall>app. map_of (mAppTokenMap m) app = (if operations_of app s = [] then None else Some (operations_of app s)) \<and>
       (app \<in> set (linked m) \<longleftrightarrow> operations_of app s \<noteq> []))"

lemma remdups_snoc: "remdups (xs @ [x]) = filter (\<lambda>y. y \<noteq> x) (remdups xs) @ [x]"
  by (induction xs) auto

lemma AList_update_new: "k \<notin> fst ` set xs \<Longrightarrow> AList.update k v xs = xs @ [(k, v)]"
  by (induction xs) auto

lemma AList_update_map:
  "distinct (map fst xs) \<Longrightarrow> map_of xs k = Some v \<Longrightarrow> AList.update k v' xs = map (\<lambda>(t, w). (t, if t = k then v' else w)) xs"
proof (induction xs)
  case (Cons x xs)
  show ?case
  proof (cases "fst x = k")
    case True
    then have "map (\<lambda>(t, w). (t, if t = k then v' else w)) xs = xs" using Cons.prems(1) by (intro map_idI) (auto simp: image_iff)
    then show ?thesis using True by (cases x) simp
  next
    case False
    then show ?thesis using Cons by (cases x) auto
  qed
qed simp

definition pruneable_live :: "('d, 'c) op_spec \<Rightarrow> nat \<Rightarrow> bool" where
  "pruneable_live s tok \<longleftrightarrow> tok \<in> fst ` set (live s) \<and> tok \<in> set (pruneables s)"

lemma by_last_use_def': "by_last_use s = filter (pruneable_live s) (remdups (use_log s))"
  by (simp add: by_last_use_def pruneable_live_def [abs_def])

lemma by_last_use_used:
  assumes "use_log s' = use_log s @ [tok]" "\<And>t. t \<noteq> tok \<Longrightarrow> pruneable_live s' t = pruneable_live s t"
  shows "by_last_use s' = filter (\<lambda>t. t \<noteq> tok) (by_last_use s) @ (if pruneable_live s' tok then [tok] else [])"
proof -
  have "filter (pruneable_live s') (filter (\<lambda>t. t \<noteq> tok) (remdups (use_log s))) = filter (\<lambda>t. t \<noteq> tok) (filter (pruneable_live s) (remdups (use_log s)))"
    unfolding filter_filter using assms(2) by (intro filter_cong) auto
  then show ?thesis by (simp add: by_last_use_def' assms(1) remdups_snoc)
qed

lemma distinct_by_last_use [simp]: "distinct (by_last_use s)"
  by (simp add: by_last_use_def)

lemma operations_of_append: "operations_of app (s\<lparr>live := xs @ ys\<rparr>) = operations_of app (s\<lparr>live := xs\<rparr>) @ operations_of app (s\<lparr>live := ys\<rparr>)"
  by (simp add: operations_of_def)

lemma in_operations_of:
  assumes "distinct (map fst (live s))" "map_of (live s) tok = Some operation"
  shows "tok \<in> set (operations_of app s) \<longleftrightarrow> op_appToken operation = app"
proof
  assume "tok \<in> set (operations_of app s)"
  then obtain o' where "(tok, o') \<in> set (live s)" "op_appToken o' = app" by (auto simp: operations_of_def)
  then show "op_appToken operation = app" using assms by (simp add: map_of_is_SomeI)
next
  assume "op_appToken operation = app"
  then show "tok \<in> set (operations_of app s)" using map_of_SomeD [OF assms(2)] by (force simp: operations_of_def)
qed

lemma distinct_operations_of: "distinct (map fst (live s)) \<Longrightarrow> distinct (operations_of app s)"
  by (simp add: operations_of_def distinct_map inj_on_def)

text \<open>Each call, on states in the relation.\<close>

lemma add_refines:
  assumes "op_refines m s"
  shows "\<exists>m'. addOperation h k p d app c pr m = (created s, m') \<and> op_refines m' (snd (spec_op (CallAdd h k p d app c pr) s))"
proof -
  let ?c = "created s" and ?s' = "snd (spec_op (CallAdd h k p d app c pr) s)"
  note r = assms [unfolded op_refines_def]
  have new: "?c \<notin> fst ` set (live s)" "?c \<notin> set (pruneables s)" using r by auto
  have live': "fst ` set (live ?s') = insert ?c (fst ` set (live s))" "distinct (map fst (live ?s'))" using r new by auto
  have pl: "pruneable_live ?s' t = pruneable_live s t" if "t \<noteq> ?c" for t using that by (auto simp: pruneable_live_def)
  have "filter (\<lambda>t. t \<noteq> ?c) (by_last_use s) = by_last_use s" using new by (intro filter_True) (auto simp: by_last_use_def)
  then have lru: "by_last_use ?s' = by_last_use s @ (if pr then [?c] else [])"
    using by_last_use_used [of ?s' s ?c, OF _ pl] new by (simp add: pruneable_live_def)
  have ops: "operations_of a ?s' = operations_of a s @ (if a = app then [?c] else [])" for a by (simp add: operations_of_def)
  define m' where "m' = snd (addOperation h k p d app c pr m)"
  have look: "map_of (mAppTokenMap m) app = (if operations_of app s = [] then None else Some (operations_of app s))" using r by simp
  have m': "addOperation h k p d app c pr m = (?c, m')" "mMap m' = live ?s'" "mLru m' = by_last_use ?s'" "next_binder m' = Suc ?c"
    "mAppTokenMap m' = AList.update app (operations_of app s @ [?c]) (mAppTokenMap m)"
    "linked m' = (if operations_of app s = [] then linked m @ [app] else linked m)"
    using r new(1) unfolding m'_def lru
    by (cases pr; cases "operations_of app s = []"; simp add: addOperation_def Let_def look AList_update_new)+
  have "op_refines m' ?s'" unfolding op_refines_def
  proof (intro conjI allI)
    show "map_of (mAppTokenMap m') a = (if operations_of a ?s' = [] then None else Some (operations_of a ?s'))" for a
      using r unfolding m'(5) update_conv' ops by simp
    show "(a \<in> set (linked m')) = (operations_of a ?s' \<noteq> [])" for a using r unfolding m'(6) ops by auto
  qed (use r m' live' in \<open>auto simp: distinct_update\<close>)
  then show ?thesis using m'(1) by blast
qed

lemma get_refines:
  assumes "op_refines m s"
  shows "\<exists>m'. getOperation tok m = (map_of (live s) tok, m') \<and> op_refines m' (snd (spec_op (CallGet tok) s))"
proof -
  let ?s' = "snd (spec_op (CallGet tok) s)"
  note r = assms [unfolded op_refines_def]
  have pl: "pruneable_live ?s' t = pruneable_live s t" for t by (simp add: pruneable_live_def)
  have lru: "by_last_use ?s' = filter (\<lambda>t. t \<noteq> tok) (by_last_use s) @ (if pruneable_live s tok then [tok] else [])"
    using by_last_use_used [of ?s' s tok] pl by simp
  have ops: "operations_of a ?s' = operations_of a s" for a by (simp add: operations_of_def)
  have inl: "tok \<in> set (by_last_use s) \<longleftrightarrow> pruneable_live s tok" using r by (auto simp: by_last_use_def' pruneable_live_def)
  have same: "filter (\<lambda>t. t \<noteq> tok) (by_last_use s) = by_last_use s" if "\<not> pruneable_live s tok"
    using that inl by (intro filter_True) auto
  define m' where "m' = (if map_of (live s) tok = None then m else updateLru tok m)"
  have dead: "\<not> pruneable_live s tok" if "map_of (live s) tok = None" using that by (simp add: pruneable_live_def map_of_eq_None_iff)
  have "mLru m' = by_last_use ?s'"
    using r lru inl same dead by (auto simp: m'_def updateLru_def distinct_remove1_removeAll [OF distinct_by_last_use] removeAll_filter_not_eq eq_commute)
  moreover have "mMap m' = mMap m" "next_binder m' = next_binder m" "mAppTokenMap m' = mAppTokenMap m" "linked m' = linked m"
    by (simp_all add: m'_def updateLru_def)
  ultimately have "op_refines m' ?s'" using r by (auto simp: op_refines_def ops [simplified])
  moreover have "getOperation tok m = (map_of (live s) tok, m')"
    using r by (cases "map_of (live s) tok") (simp_all add: getOperation_def m'_def)
  ultimately show ?thesis by blast
qed

lemma remove1_filter: "distinct xs \<Longrightarrow> remove1 x xs = filter (\<lambda>y. y \<noteq> x) xs"
  by (simp add: distinct_remove1_removeAll removeAll_filter_not_eq eq_commute)

lemma remove_refines:
  assumes "op_refines m s"
  shows "\<exists>m'. removeOperation tok m = Some (tok \<in> fst ` set (live s), m') \<and> op_refines m' (snd (spec_op (CallRemove tok) s))"
proof (cases "map_of (live s) tok")
  case None
  then have dead: "tok \<notin> fst ` set (live s)" by (simp add: map_of_eq_None_iff)
  then have "filter (\<lambda>(t, _). t \<noteq> tok) (live s) = live s" by (intro filter_True) force
  then have "snd (spec_op (CallRemove tok) s) = s" by simp
  then show ?thesis using None dead assms by (simp add: removeOperation_def op_refines_def)
next
  case (Some operation)
  let ?s' = "snd (spec_op (CallRemove tok) s)" and ?app = "op_appToken operation"
  note r = assms [unfolded op_refines_def]
  have dist: "distinct (map fst (live s))" using r by simp
  have live': "live ?s' = AList.delete tok (live s)" by (simp add: AList.delete_eq eq_commute)
  have keys: "fst ` set (live ?s') = fst ` set (live s) - {tok}" by (auto simp: image_iff)
  have lru: "by_last_use ?s' = filter (\<lambda>t. t \<noteq> tok) (by_last_use s)"
    unfolding by_last_use_def filter_filter keys by (intro filter_cong) auto
  have ops: "operations_of a ?s' = filter (\<lambda>t. t \<noteq> tok) (operations_of a s)" for a
    by (simp add: operations_of_def filter_map comp_def case_prod_unfold conj_commute)
  have other: "operations_of a ?s' = operations_of a s" if "a \<noteq> ?app" for a
    unfolding ops using in_operations_of [OF dist Some, of a] that by (intro filter_True) auto
  have mine: "tok \<in> set (operations_of ?app s)" "distinct (operations_of ?app s)"
    using in_operations_of [OF dist Some] distinct_operations_of [OF dist] by simp_all
  have own: "remove1 tok (operations_of ?app s) = operations_of ?app ?s'" unfolding ops by (rule remove1_filter [OF mine(2)])
  let ?m = "m\<lparr>mMap := AList.delete tok (mMap m), mLru := remove1 tok (mLru m)\<rparr>"
  have m: "mMap ?m = live ?s'" "mLru ?m = by_last_use ?s'" using r live' lru by (simp_all add: remove1_filter)
  have look: "map_of (mAppTokenMap m) a = (if operations_of a s = [] then None else Some (operations_of a s))"
    "a \<in> set (linked m) \<longleftrightarrow> operations_of a s \<noteq> []" for a using r by auto
  have ne: "operations_of ?app s \<noteq> []" using mine by auto
  define R where "R = operations_of ?app ?s'"
  define m' where "m' = (if R = [] then ?m\<lparr>linked := remove1 ?app (linked m), mAppTokenMap := AList.delete ?app (mAppTokenMap m)\<rparr>
    else ?m\<lparr>mAppTokenMap := AList.update ?app R (mAppTokenMap m)\<rparr>)"
  have "removeOperationTracking tok ?app ?m = Some m'"
    using look(1) [of ?app] ne mine own [folded R_def] by (simp add: removeOperationTracking_def m'_def)
  moreover have "mMap m' = mMap ?m" "mLru m' = mLru ?m" "next_binder m' = next_binder m"
    "mAppTokenMap m' = (if R = [] then AList.delete ?app (mAppTokenMap m) else AList.update ?app R (mAppTokenMap m))"
    "linked m' = (if R = [] then remove1 ?app (linked m) else linked m)" by (simp_all add: m'_def)
  ultimately have m': "removeOperationTracking tok ?app ?m = Some m'" "mMap m' = mMap ?m" "mLru m' = mLru ?m" "next_binder m' = next_binder m"
    "mAppTokenMap m' = (if R = [] then AList.delete ?app (mAppTokenMap m) else AList.update ?app R (mAppTokenMap m))"
    "linked m' = (if R = [] then remove1 ?app (linked m) else linked m)" by blast+
  have "op_refines m' ?s'" unfolding op_refines_def
  proof (intro conjI allI)
    show "distinct (map fst (live ?s'))" unfolding live' by (rule distinct_delete [OF dist])
    show "map_of (mAppTokenMap m') a = (if operations_of a ?s' = [] then None else Some (operations_of a ?s'))" for a
    proof (cases "a = ?app")
      case True
      then show ?thesis unfolding m'(5) True R_def [symmetric] by (cases "R = []") (simp_all add: update_conv' delete_conv')
    next
      case False
      then show ?thesis using look(1) [of a] unfolding m'(5) other [OF False] by (cases "R = []") (simp_all add: update_conv' delete_conv')
    qed
    show "(a \<in> set (linked m')) = (operations_of a ?s' \<noteq> [])" for a
    proof (cases "a = ?app")
      case True
      then show ?thesis using look(2) [of ?app] ne r unfolding m'(6) True R_def [symmetric] by simp
    next
      case False
      then show ?thesis using look(2) [of a] unfolding m'(6) other [OF False] by (simp add: in_set_remove1)
    qed
  qed (use r m' m keys dist in \<open>auto simp: distinct_update distinct_delete live' distinct_remove1\<close>)
  moreover have "removeOperation tok m = Some (True, m')" using Some r m'(1) by (simp add: removeOperation_def)
  moreover have "tok \<in> fst ` set (live s)" using map_of_SomeD [OF Some] by force
  ultimately show ?thesis by auto
qed

lemma set_token_refines:
  assumes "op_refines m s"
  shows "\<exists>m'. setOperationAuthToken tok a m = (tok \<in> fst ` set (live s), m') \<and> op_refines m' (snd (spec_op (CallSetToken tok a) s))"
proof -
  let ?s' = "snd (spec_op (CallSetToken tok a) s)"
  note r = assms [unfolded op_refines_def]
  have keys: "map fst (live ?s') = map fst (live s)" by (simp add: case_prod_unfold comp_def)
  have kset: "fst ` set (live ?s') = fst ` set (live s)" using arg_cong [OF keys, of set] unfolding set_map .
  have ops: "operations_of app ?s' = operations_of app s" for app
    by (simp add: operations_of_def filter_map comp_def case_prod_unfold)
  have lru: "by_last_use ?s' = by_last_use s" by (simp add: by_last_use_def kset [simplified])
  define m' where "m' = m\<lparr>mMap := live ?s'\<rparr>"
  have "op_refines m'' s''" if "m'' = m\<lparr>mMap := live s''\<rparr>" "map fst (live s'') = map fst (live s)" "fst ` set (live s'') = fst ` set (live s)"
    "\<forall>app. operations_of app s'' = operations_of app s" "by_last_use s'' = by_last_use s" "use_log s'' = use_log s" "pruneables s'' = pruneables s"
    "created s'' = created s" for m'' s'' using that r unfolding op_refines_def by (simp del: image_iff ball_simps)
  from this [OF m'_def keys kset] have "op_refines m' ?s'" using ops lru by simp
  moreover have "setOperationAuthToken tok a m = (tok \<in> fst ` set (live s), m')"
  proof (cases "map_of (live s) tok")
    case None
    then have "tok \<notin> fst ` set (live s)" by (simp add: map_of_eq_None_iff)
    moreover from this have "live ?s' = live s" by (auto intro!: map_idI simp: image_iff)
    ultimately show ?thesis using None r by (simp add: setOperationAuthToken_def m'_def)
  next
    case (Some operation)
    have d: "distinct (map fst (live s))" using r by blast
    have "(if t = tok then o'\<lparr>op_authToken := Some a\<rparr> else o') = (if t = tok then operation\<lparr>op_authToken := Some a\<rparr> else o')"
      if "(t, o') \<in> set (live s)" for t o' using map_of_is_SomeI [OF d that] Some by auto
    then have "live ?s' = AList.update tok (operation\<lparr>op_authToken := Some a\<rparr>) (live s)"
      using r Some by (auto simp: AList_update_map [OF _ Some] intro!: map_cong)
    moreover have "tok \<in> fst ` set (live s)" using map_of_SomeD [OF Some] by force
    ultimately show ?thesis using Some r by (simp add: setOperationAuthToken_def m'_def)
  qed
  ultimately show ?thesis by blast
qed

lemmas op_call_refines = add_refines get_refines remove_refines set_token_refines

text \<open>One step of the code answers as the specification does and stays in the relation.\<close>

lemma run_op_refines:
  assumes "op_refines m s"
  shows "\<exists>m'. run_op c m = Some (fst (spec_op c s), m') \<and> op_refines m' (snd (spec_op c s))"
proof -
  note r = assms [unfolded op_refines_def]
  show ?thesis
  proof (cases c)
    case (CallAdd h k p d app c' pr)
    from add_refines [OF assms, of h k p d app c' pr] show ?thesis unfolding CallAdd by (elim exE conjE) simp
  next
    case (CallGet tok)
    from get_refines [OF assms, of tok] show ?thesis unfolding CallGet by (elim exE conjE) simp
  next
    case (CallRemove tok)
    from remove_refines [OF assms, of tok] show ?thesis unfolding CallRemove by (elim exE conjE) simp
  next
    case (CallSetToken tok a)
    from set_token_refines [OF assms, of tok a] show ?thesis unfolding CallSetToken by (elim exE conjE) simp
  next
    case (CallGetToken tok)
    then show ?thesis using assms r by (simp add: getOperationAuthToken_def)
  next
    case CallOldest
    then show ?thesis using assms r
      by (cases "by_last_use s") (simp_all add: getOldestPruneableOperation_def hasPruneableOperation_def)
  next
    case (CallOperationsOf app)
    then show ?thesis using assms r by (simp add: getOperationsForToken_def)
  next
    case CallCounts
    then show ?thesis using assms r
      by (simp add: getOperationCount_def getPruneableOperationCount_def hasPruneableOperation_def)
  next
    case (CallListens app)
    then show ?thesis using assms r by simp
  qed
qed

lemma run_ops_refines: "op_refines m s \<Longrightarrow> run_ops cs m = Some (spec_ops cs s)"
proof (induction cs arbitrary: m s)
  case (Cons c cs)
  from run_op_refines [OF Cons.prems, of c] obtain m' where
    m': "run_op c m = Some (fst (spec_op c s), m')" "op_refines m' (snd (spec_op c s))" by blast
  then show ?case using Cons.IH [OF m'(2)] by (simp add: case_prod_unfold)
qed simp

lemma new_OperationMap_refines: "op_refines new_OperationMap \<lparr>live = [], use_log = [], pruneables = [], created = 0\<rparr>"
  by (simp add: op_refines_def new_OperationMap_def by_last_use_def operations_of_def)

end
