(* ===== verification/Ks_Theorems.thy ===== *)
theory Ks_Theorems
  imports Ks_TokenRuns Ks_Operations
begin

text \<open>The theorems about the keystore daemon.\<close>

section \<open>Authentication tokens\<close>

text \<open>A key that needs authentication within the last 10 seconds, a key that needs it per operation, and their tokens.\<close>

definition ks_demo_timed_key :: key_info where
  "ks_demo_timed_key = [ALGORITHM AES, USER_SECURE_ID 7, AUTH_TIMEOUT 10, ALLOW_WHILE_ON_BODY]"

definition ks_demo_op_key :: key_info where
  "ks_demo_op_key = [ALGORITHM RSA, USER_SECURE_ID 7]"

definition ks_demo_token :: "u64 \<Rightarrow> HardwareAuthToken" where
  "ks_demo_token h = \<lparr>challenge = h, userId = 3, authenticatorId = 7, authenticatorType = 0, timestamp = 0, token_hmac = []\<rparr>"

definition ks_demo_events :: "token_event list" where
  "ks_demo_events = [Added 100 (ks_demo_token 0), Added 101 (ks_demo_token 5), Searched 102 ks_demo_timed_key ENCRYPT 0]"

lemmas ks_demo_simps = ks_demo_timed_key_def ks_demo_op_key_def ks_demo_token_def ks_demo_events_def new_AuthTokenTable_def
  AddAuthenticationToken_def RemoveEntriesSupersededBy_def Supersedes_def new_Entry_def is_newer_than_def timestamp_host_order_def
  FindAuthorization_def FindTimedAuthorization_def FindAuthPerOpAuthorization_def KeyRequiresAuthentication_def
  KeyRequiresAuthPerOperation_def is_secret_key_operation_def ExtractSids_def List.map_filter_simps SatisfiesAuth_def

lemma ks_demo_run: "token_run 0 ks_demo_events (new_AuthTokenTable 32 0) =
  Some \<lparr>entries = [\<lparr>token = ks_demo_token 5, time_received = 101, last_use = 102, operation_completed = False\<rparr>],
    max_entries = 32, last_off_body = 0\<rparr>"
  by (simp add: ks_demo_simps newest_match_loop.simps Let_def)

text \<open>
  C11: Every sequence of calls on the token table runs without a failed assertion and leaves it within its limit.
  After it, a token that \<open>FindAuthorization\<close> returns for a key was received and not cleared since, and fits the
  key. For a key that asks for authentication per operation it carries the handle of that operation, which was
  not marked completed since (if it is the only token for it); otherwise it was received within the timeout of
  the key and, for a key that is usable on the body, not before the device was last taken off. The caller does not
  mark operation 0, which stands for no operation.
\<close>
theorem authorization_has_received_token:
  assumes "0 < limit" "Completed 0 \<notin> set evs"
  shows "\<exists>t. token_run NONE evs (new_AuthTokenTable limit t0) = Some t \<and> length (entries t) \<le> limit \<and>
    (\<forall>now key_info purpose h tok t'. FindAuthorization NONE now key_info purpose h t = ((OK, Some tok), t') \<longrightarrow>
       token_fits NONE key_info tok \<and>
       (\<exists>pre received post. evs = pre @ Added received tok # post \<and> Cleared \<notin> set post \<and>
         (if KeyRequiresAuthPerOperation key_info purpose
          then challenge tok = h \<and> h \<noteq> 0 \<and> (adds_for h evs = 1 \<longrightarrow> Completed h \<notin> set post)
          else now \<le> received + key_timeout key_info \<and>
            (ALLOW_WHILE_ON_BODY \<in> set key_info \<longrightarrow> off_body_time t0 evs \<le> received))))"
proof -
  obtain t where t: "token_run NONE evs (new_AuthTokenTable limit t0) = Some t" "token_table_ok limit evs t" "last_off_body t = off_body_time t0 evs"
    using token_run_ok [OF assms] by blast
  have "token_fits NONE key_info tok \<and> (\<exists>pre received post. evs = pre @ Added received tok # post \<and> Cleared \<notin> set post \<and>
      (if KeyRequiresAuthPerOperation key_info purpose
       then challenge tok = h \<and> h \<noteq> 0 \<and> (adds_for h evs = 1 \<longrightarrow> Completed h \<notin> set post)
       else now \<le> received + key_timeout key_info \<and> (ALLOW_WHILE_ON_BODY \<in> set key_info \<longrightarrow> off_body_time t0 evs \<le> received)))"
    if f: "FindAuthorization NONE now key_info purpose h t = ((OK, Some tok), t')" for now key_info purpose h tok t'
  proof -
    from Find_OK [OF f] obtain e where e: "e \<in> set (entries t)" "token e = tok" "token_fits NONE key_info tok"
      "KeyRequiresAuthPerOperation key_info purpose \<longrightarrow> challenge tok = h \<and> h \<noteq> 0 \<and> \<not> operation_completed e"
      "\<not> KeyRequiresAuthPerOperation key_info purpose \<longrightarrow> now \<le> time_received e + key_timeout key_info \<and>
        (ALLOW_WHILE_ON_BODY \<in> set key_info \<longrightarrow> last_off_body t \<le> time_received e)" by metis
    have "backed evs e" using e(1) t(2) by (simp add: token_table_ok_def)
    then obtain pre post where "evs = pre @ Added (time_received e) tok # post" "Cleared \<notin> set post"
      "\<not> operation_completed e \<and> adds_for (challenge tok) evs = 1 \<longrightarrow> Completed (challenge tok) \<notin> set post"
      unfolding backed_def e(2) by blast
    then show ?thesis using e(3-5) t(3) by (intro conjI exI [of _ pre] exI [of _ "time_received e"] exI [of _ post]) auto
  qed
  moreover have "length (entries t) \<le> limit" using t(2) by (simp add: token_table_ok_def)
  ultimately show ?thesis using t(1) by blast
qed

theorem authorization_has_received_token_witness:
  "\<exists>pre received post. ks_demo_events = pre @ Added received (ks_demo_token 5) # post \<and> Cleared \<notin> set post \<and> Completed 5 \<notin> set post"
proof -
  have "Completed 0 \<notin> set ks_demo_events" "adds_for 5 ks_demo_events = 1" by (simp_all add: ks_demo_events_def adds_for_def ks_demo_token_def)
  moreover have "fst (FindAuthorization 0 103 ks_demo_op_key SIGN 5 (the (token_run 0 ks_demo_events (new_AuthTokenTable 32 0)))) = (OK, Some (ks_demo_token 5))"
    "KeyRequiresAuthPerOperation ks_demo_op_key SIGN"
    unfolding ks_demo_run by (simp_all add: ks_demo_simps)
  ultimately show ?thesis
    using authorization_has_received_token [of 32 ks_demo_events 0 0] unfolding ks_demo_run by (metis option.sel prod.collapse zero_less_numeral)
qed

lemma entries_after_add:
  assumes "AddAuthenticationToken received tok t = Some t1"
  shows "new_Entry tok received \<in> set (entries t1)" "set (entries t1) \<subseteq> insert (new_Entry tok received) (set (entries t))"
    "last_off_body t1 = last_off_body t"
proof -
  let ?N = "new_Entry tok received" and ?es = "RemoveEntriesSupersededBy (new_Entry tok received) (entries t)"
  have sub: "set ?es \<subseteq> set (entries t)" by (auto simp: RemoveEntriesSupersededBy_def)
  consider (full) i where "min_element ?es = Some i" "t1 = t\<lparr>entries := ?es[i := ?N]\<rparr>" | (room) "t1 = t\<lparr>entries := ?es @ [?N]\<rparr>"
    using assms by (auto simp: AddAuthenticationToken_def Let_def split: if_splits)
  then show "?N \<in> set (entries t1)" "set (entries t1) \<subseteq> insert ?N (set (entries t))"
  proof (atomize (full), cases)
    case full
    then show "?N \<in> set (entries t1) \<and> set (entries t1) \<subseteq> insert ?N (set (entries t))"
      using min_element_least [OF full(1)] set_update_subset_insert [of ?es i ?N] set_update_memI [of i ?es ?N] sub by auto
  next
    case room
    then show "?N \<in> set (entries t1) \<and> set (entries t1) \<subseteq> insert ?N (set (entries t))" using sub by auto
  qed
  show "last_off_body t1 = last_off_body t" using assms by (rule Add_off_body)
qed

text \<open>
  C21: A token that has just been received authorizes the key it fits: a key that asks for authentication per operation
  when no other token waits for the operation, and a key with a timeout when the token is the newest and the
  timeout has not passed.
\<close>
theorem received_token_authorizes:
  assumes "AddAuthenticationToken received tok t = Some t1" "KeyRequiresAuthentication key_info purpose" "token_fits NONE key_info tok"
    "if KeyRequiresAuthPerOperation key_info purpose
     then challenge tok = h \<and> h \<noteq> 0 \<and> (\<forall>e \<in> set (entries t). challenge (token e) = h \<longrightarrow> operation_completed e)
     else (\<forall>e \<in> set (entries t). is_newer_than (new_Entry tok received) (Some e)) \<and>
       now \<le> received + key_timeout key_info \<and> (ALLOW_WHILE_ON_BODY \<in> set key_info \<longrightarrow> last_off_body t \<le> received)"
  shows "fst (FindAuthorization NONE now key_info purpose h t1) = (OK, Some tok)"
proof -
  let ?N = "new_Entry tok received" and ?sids = "ExtractSids key_info" and ?ty = "key_auth_type NONE key_info"
  note after = entries_after_add [OF assms(1)]
  have N: "token ?N = tok" "time_received ?N = received" "operation_completed ?N \<longleftrightarrow> challenge tok = 0" by (simp_all add: new_Entry_def)
  have sat: "SatisfiesAuth ?sids ?ty ?N" using assms(3) unfolding SatisfiesAuth_fits by (simp add: N)
  show ?thesis
  proof (cases "KeyRequiresAuthPerOperation key_info purpose")
    case True
    let ?P = "\<lambda>e. challenge (token e) = h \<and> \<not> operation_completed e"
    have h: "challenge tok = h" "h \<noteq> 0" "\<forall>e \<in> set (entries t). \<not> ?P e" using assms(4) True by auto
    have "?P ?N" using h N by simp
    then obtain e where e: "List.find ?P (entries t1) = Some e" using after(1) by (cases "List.find ?P (entries t1)") (auto simp: find_None_iff)
    then have "e \<in> set (entries t1)" "?P e" unfolding find_Some_iff by force+
    then have "e = ?N" using after(2) h(3) by blast
    then show ?thesis using e h(2) sat N True assms(2)
      by (simp add: FindAuthorization_def FindAuthPerOpAuthorization_def key_auth_type_def [symmetric])
  next
    case False
    then have h: "\<forall>e \<in> set (entries t). is_newer_than ?N (Some e)" "now \<le> received + key_timeout key_info"
      "ALLOW_WHILE_ON_BODY \<in> set key_info \<longrightarrow> last_off_body t \<le> received" using assms(4) by auto
    let ?r = "newest_match_loop ?sids ?ty (entries t1) 0 None"
    obtain k where k: "k < length (entries t1)" "entries t1 ! k = ?N" using after(1) unfolding in_set_conv_nth by blast
    have "\<exists>i < length (entries t1). ?r = Some i \<and> \<not> is_newer_than ?N (Some (entries t1 ! i))"
      using newest_match [of ?sids ?ty "entries t1"] k sat unfolding matches_def by (cases ?r) auto
    then obtain i where i: "?r = Some i" "i < length (entries t1)" "\<not> is_newer_than ?N (Some (entries t1 ! i))" by blast
    then have "entries t1 ! i = ?N" using after(2) h(1) nth_mem [OF i(2)] by blast
    then show ?thesis using False assms(2) i(1) h(2,3) after(3) N
      by (auto simp: FindAuthorization_def FindTimedAuthorization_def key_auth_type_def [symmetric] key_timeout_def [symmetric] Let_def)
  qed
qed

theorem received_token_authorizes_witness:
  "fst (FindAuthorization 0 105 ks_demo_timed_key ENCRYPT 0 (the (AddAuthenticationToken 100 (ks_demo_token 0) (new_AuthTokenTable 32 0)))) =
     (OK, Some (ks_demo_token 0))"
  by (rule received_token_authorizes [of 100 "ks_demo_token 0" "new_AuthTokenTable 32 0"])
    (simp_all add: ks_demo_simps token_fits_def key_timeout_def)

section \<open>Operations in progress\<close>

text \<open>
  C12: The map of the operations in progress answers every sequence of calls, without an erasure past the end, as one
  that keeps the operations in a list in the order of creation and remembers every use: an operation is found by
  its token until it is removed, with the authentication token that was set last; the oldest pruneable operation
  is the one whose last use is the furthest back; the operations of a client are the ones created for it, in that
  order; and the death of a client is listened for exactly while it has an operation.
\<close>
theorem operation_map_refines_spec:
  "run_ops cs new_OperationMap = Some (spec_ops cs \<lparr>live = [], use_log = [], pruneables = [], created = 0\<rparr>)"
  by (rule run_ops_refines [OF new_OperationMap_refines])

end
