(* ===== verification/Nvram_Containers.thy ===== *)
theory Nvram_Containers
  imports Sys_Prelude
begin

text \<open>
  The containers of \<^verbatim>\<open>src/nvram/messages\<close>: \<open>Blob\<close>
  (\<^verbatim>\<open>blob.cpp\<close>), \<open>Vector\<close> (\<^verbatim>\<open>vector.h\<close>) and
  \<open>Optional\<close> (\<^verbatim>\<open>optional.h\<close>, which is \<open>option\<close>).
  A blob is its bytes. A vector keeps its elements, the capacity it records and the capacity of the
  block it really owns, because \<open>swap\<close> exchanges only some of these.
\<close>

section \<open>Blob\<close>

definition Blob_Assign :: "allocator \<Rightarrow> byte list \<Rightarrow> blob \<Rightarrow> bool \<times> blob" where
  "Blob_Assign al data b =
     (if \<not> alloc_ok al (length data) then (False, []) else (True, data))"

definition Blob_Resize :: "allocator \<Rightarrow> nat \<Rightarrow> blob \<Rightarrow> bool \<times> blob" where
  "Blob_Resize al sz b =
     (if sz \<noteq> 0 \<and> \<not> alloc_ok al sz then (False, b)
      else (True, take sz b @ map (alloc_fill al) [length b..<sz]))"

lemma Blob_Resize_length: "Blob_Resize al n b = (True, b') \<Longrightarrow> length b' = n"
  by (auto simp: Blob_Resize_def split: if_splits)

lemma Blob_Resize_prefix:
  "Blob_Resize al n b = (True, b') \<Longrightarrow> m \<le> n \<Longrightarrow> m \<le> length b \<Longrightarrow> take m b' = take m b"
  by (auto simp: Blob_Resize_def min_def split: if_splits)

lemma Blob_Resize_shrink:
  "n \<le> length b \<Longrightarrow> Blob_Resize al n b = (True, b') \<Longrightarrow> b' = take n b"
  by (auto simp: Blob_Resize_def split: if_splits)

lemma Blob_Resize_total:
  "alloc_total al \<Longrightarrow> Blob_Resize al n b = (True, take n b @ map (alloc_fill al) [length b..<n])"
  by (simp add: Blob_Resize_def)

section \<open>Vector\<close>

record 'a Vector =
  v_elems :: "'a list"   \<comment> \<open>the \<open>size_\<close> constructed elements\<close>
  v_capacity :: nat      \<comment> \<open>\<open>capacity_\<close>\<close>
  v_alloc :: nat         \<comment> \<open>elements the block behind \<open>data_\<close> has room for; 0 is the null pointer\<close>

definition Vector_empty :: "'a Vector" where
  "Vector_empty = \<lparr>v_elems = [], v_capacity = 0, v_alloc = 0\<rparr>"

definition vector_wf :: "'a Vector \<Rightarrow> bool" where
  "vector_wf v \<longleftrightarrow> v_alloc v = v_capacity v \<and> length (v_elems v) \<le> v_capacity v"

definition Vector_new_capacity :: "nat \<Rightarrow> nat \<Rightarrow> nat" where
  "Vector_new_capacity sz cap =
     (if sz < cap div 2 then sz
      else if sz > cap then (if cap * 2 > sz then cap * 2 else sz)
      else cap)"

text \<open>
  \<open>esize\<close> is \<open>sizeof(ElementType)\<close> and \<open>mk i\<close> the element that constructing entry \<open>i\<close>
  yields. \<^term>\<open>None\<close> is a crash: the \<open>NVRAM_CHECK\<close> fails or an element is constructed
  outside the block.
\<close>

definition Vector_Resize ::
  "allocator \<Rightarrow> nat \<Rightarrow> (nat \<Rightarrow> 'a) \<Rightarrow> nat \<Rightarrow> 'a Vector \<Rightarrow> (bool \<times> 'a Vector) option" where
  "Vector_Resize al esize mk sz v =
     (let cap = v_capacity v;
          new_cap = Vector_new_capacity sz cap;
          min_size = (if sz < length (v_elems v) then sz else length (v_elems v));
          elems = take min_size (v_elems v) @ map mk [min_size..<sz]
      in if \<not> new_cap \<ge> sz then None
         else if new_cap \<noteq> cap then
           (if new_cap \<noteq> 0 \<and> \<not> alloc_ok al (new_cap * esize) then Some (False, v)
            else Some (True, \<lparr>v_elems = elems, v_capacity = new_cap, v_alloc = new_cap\<rparr>))
         else if min_size < sz \<and> v_alloc v < sz then None
         else Some (True, v\<lparr>v_elems := elems\<rparr>))"

definition Vector_Append ::
  "allocator \<Rightarrow> nat \<Rightarrow> (nat \<Rightarrow> 'a) \<Rightarrow> 'a \<Rightarrow> 'a Vector \<Rightarrow> (bool \<times> 'a Vector) option" where
  "Vector_Append al esize mk element v =
     (case Vector_Resize al esize mk (length (v_elems v) + 1) v of
        None \<Rightarrow> None
      | Some (False, v') \<Rightarrow> Some (False, v')
      | Some (True, v') \<Rightarrow>
          Some (True, v'\<lparr>v_elems := (v_elems v')[length (v_elems v') - 1 := element]\<rparr>))"

text \<open>\<open>swap\<close> exchanges \<open>data_\<close> and \<open>size_\<close>; \<open>capacity_\<close> stays where it is.\<close>

definition Vector_swap :: "'a Vector \<times> 'a Vector \<Rightarrow> 'a Vector \<times> 'a Vector" where
  "Vector_swap vs = (case vs of (first, second) \<Rightarrow>
     (first\<lparr>v_elems := v_elems second, v_alloc := v_alloc second\<rparr>,
      second\<lparr>v_elems := v_elems first, v_alloc := v_alloc first\<rparr>))"

lemma Vector_new_capacity_ge: "sz \<le> Vector_new_capacity sz cap"
  by (auto simp: Vector_new_capacity_def)

lemma Vector_empty_wf [simp]: "vector_wf Vector_empty"
  by (simp add: vector_wf_def Vector_empty_def)

text \<open>
  On a vector whose recorded capacity is the capacity of its block, resizing never leaves the block:
  it either fails and changes nothing, or truncates or pads the elements.
\<close>

definition vector_resized :: "(nat \<Rightarrow> 'a) \<Rightarrow> nat \<Rightarrow> 'a Vector \<Rightarrow> 'a Vector" where
  "vector_resized mk sz v =
     (let new_cap = Vector_new_capacity sz (v_capacity v)
      in \<lparr>v_elems = take sz (v_elems v) @ map mk [length (v_elems v)..<sz],
          v_capacity = new_cap, v_alloc = new_cap\<rparr>)"

definition vector_alloc_fails :: "allocator \<Rightarrow> nat \<Rightarrow> nat \<Rightarrow> nat \<Rightarrow> bool" where
  "vector_alloc_fails al esize sz cap \<longleftrightarrow>
     (let new_cap = Vector_new_capacity sz cap
      in new_cap \<noteq> cap \<and> new_cap \<noteq> 0 \<and> \<not> alloc_ok al (new_cap * esize))"

lemma Vector_Resize_wf:
  assumes "vector_wf v"
  shows "Vector_Resize al esize mk sz v =
    Some (if vector_alloc_fails al esize sz (v_capacity v) then (False, v)
          else (True, vector_resized mk sz v))"
proof -
  let ?n = "length (v_elems v)"
  have "take (if sz < ?n then sz else ?n) (v_elems v) @
        map mk [(if sz < ?n then sz else ?n)..<sz] =
      take sz (v_elems v) @ map mk [?n..<sz]"
    by auto
  moreover have "sz \<le> Vector_new_capacity sz (v_capacity v)"
    by (rule Vector_new_capacity_ge)
  ultimately show ?thesis using assms
    by (cases v)
       (auto simp: Vector_Resize_def vector_alloc_fails_def vector_resized_def Let_def vector_wf_def)
qed

lemma vector_resized_wf: "vector_wf (vector_resized mk sz v)"
  using Vector_new_capacity_ge [of sz "v_capacity v"]
  by (simp add: vector_resized_def vector_wf_def Let_def)

lemma Vector_Append_wf:
  assumes "vector_wf v"
  shows "Vector_Append al esize mk x v =
    Some (if vector_alloc_fails al esize (length (v_elems v) + 1) (v_capacity v) then (False, v)
          else (True, (vector_resized mk (length (v_elems v) + 1) v)\<lparr>v_elems := v_elems v @ [x]\<rparr>))"
  using assms
  by (simp add: Vector_Append_def Vector_Resize_wf vector_resized_def Let_def list_update_append)

text \<open>
  The decoder grows a fresh vector by one element at a time. Its capacity is then a function of its
  size, and \<open>grow_fails\<close> says whether the next element can be added.
\<close>

fun grown_capacity :: "nat \<Rightarrow> nat" where
  "grown_capacity 0 = 0"
| "grown_capacity (Suc n) = Vector_new_capacity (Suc n) (grown_capacity n)"

definition grow_fails :: "allocator \<Rightarrow> nat \<Rightarrow> nat \<Rightarrow> bool" where
  "grow_fails al esize n \<longleftrightarrow> vector_alloc_fails al esize (n + 1) (grown_capacity n)"

definition vector_grown :: "'a Vector \<Rightarrow> bool" where
  "vector_grown v \<longleftrightarrow> v_capacity v = grown_capacity (length (v_elems v)) \<and> v_alloc v = v_capacity v"

lemma grown_capacity_ge: "n \<le> grown_capacity n"
  by (cases n) (simp_all add: Vector_new_capacity_ge)

lemma vector_grown_wf: "vector_grown v \<Longrightarrow> vector_wf v"
  by (simp add: vector_grown_def vector_wf_def grown_capacity_ge)

lemma vector_grown_empty: "vector_grown Vector_empty"
  by (simp add: vector_grown_def Vector_empty_def)

lemma Vector_Resize_grow:
  assumes "vector_grown v"
  shows "Vector_Resize al esize mk (length (v_elems v) + 1) v =
    Some (if grow_fails al esize (length (v_elems v)) then (False, v)
          else (True, vector_resized mk (length (v_elems v) + 1) v))"
    "v_elems (vector_resized mk (length (v_elems v) + 1) v) = v_elems v @ [mk (length (v_elems v))]"
    "vector_grown (vector_resized mk (length (v_elems v) + 1) v)"
  using assms Vector_Resize_wf [OF vector_grown_wf [OF assms]]
  by (simp_all add: grow_fails_def vector_grown_def vector_resized_def Let_def)

lemma grow_total [simp]: "alloc_total al \<Longrightarrow> \<not> grow_fails al esize n"
  by (simp add: grow_fails_def vector_alloc_fails_def Let_def)

end
