(* ===== verification/Nvram_Io.thy ===== *)
theory Nvram_Io
  imports Nvram_Containers
begin

text \<open>
  The wire layer of \<^verbatim>\<open>src/nvram/messages/io.cpp\<close> and
  \<^verbatim>\<open>io.h\<close>: input and output stream buffers, varints, and the protobuf
  \<open>ProtoReader\<close> and \<open>ProtoWriter\<close>.

  Pointers into a buffer are offsets. A class with a virtual \<open>Advance\<close> and its subclasses are one
  datatype, a constructor per class, so that \<open>Advance\<close> dispatches on the constructor. A
  \<open>NestedInputStreamBuffer\<close> carries its delegate; the delegate is shared with the code that
  created the nested buffer, which takes it back with \<open>i_delegate\<close> when the nested buffer goes
  out of scope. \<^term>\<open>None\<close> is a crash: an \<open>NVRAM_CHECK\<close> that fails or an access
  outside the buffer.
\<close>

section \<open>Input streams\<close>

datatype istream =
    InputStreamBuffer (i_mem: "byte list") (i_pos: nat) (i_end: nat)
  | NestedInputStreamBuffer (i_pos: nat) (i_end: nat) (i_remaining: nat) (i_delegate: istream)

fun i_data :: "istream \<Rightarrow> byte list" where
  "i_data (InputStreamBuffer mem p e) = mem"
| "i_data (NestedInputStreamBuffer p e r d) = i_data d"

fun i_set_pos :: "nat \<Rightarrow> istream \<Rightarrow> istream" where
  "i_set_pos q (InputStreamBuffer mem p e) = InputStreamBuffer mem q e"
| "i_set_pos q (NestedInputStreamBuffer p e r d) = NestedInputStreamBuffer q e r d"

definition new_InputStreamBuffer :: "byte list \<Rightarrow> istream" where
  "new_InputStreamBuffer data = InputStreamBuffer data 0 (length data)"

definition ClampEnd :: "istream \<Rightarrow> nat \<Rightarrow> nat option" where
  "ClampEnd d sz =
     (if \<not> i_pos d \<le> i_end d then None
      else Some (if sz < i_end d - i_pos d then i_pos d + sz else i_end d))"

definition new_NestedInputStreamBuffer :: "istream \<Rightarrow> nat \<Rightarrow> istream option" where
  "new_NestedInputStreamBuffer d sz =
     do { e \<leftarrow> ClampEnd d sz;
          if \<not> i_pos d \<le> e then None else Some (NestedInputStreamBuffer (i_pos d) e sz d) }"

text \<open>The services run on platforms where \<open>size_t\<close> has 64 bits. The next definition is
  \<open>remaining_ -= end_ - delegate_->pos_\<close> in \<open>size_t\<close> arithmetic.\<close>

definition size_t_bits :: nat where "size_t_bits = 64"

definition size_minus :: "nat \<Rightarrow> int \<Rightarrow> nat" where
  "size_minus r k = nat ((int r - k) mod 2 ^ size_t_bits)"

fun IAdvance :: "istream \<Rightarrow> (bool \<times> istream) option" where
  "IAdvance (InputStreamBuffer mem p e) = Some (False, InputStreamBuffer mem p e)"
| "IAdvance (NestedInputStreamBuffer p e r d) =
     (let r' = size_minus r (int e - int (i_pos d))
      in if r' = 0 then Some (False, NestedInputStreamBuffer p e r' (i_set_pos e d))
         else do { (status, d') \<leftarrow> IAdvance d;
                   e' \<leftarrow> ClampEnd d' r';
                   Some (status, NestedInputStreamBuffer (i_pos d') e' r' d') })"

definition IDone :: "istream \<Rightarrow> (bool \<times> istream) option" where
  "IDone s =
     (if i_pos s \<ge> i_end s then do { (ok, s') \<leftarrow> IAdvance s; Some (\<not> ok, s') }
      else Some (False, s))"

text \<open>Reading through a pointer outside the buffer is a crash.\<close>

definition IFetch :: "istream \<Rightarrow> (byte option \<times> istream) option" where
  "IFetch s =
     (if i_pos s < length (i_data s)
      then Some (Some (i_data s ! i_pos s), i_set_pos (i_pos s + 1) s) else None)"

definition ReadByte :: "istream \<Rightarrow> (byte option \<times> istream) option" where
  "ReadByte s =
     (if i_pos s \<ge> i_end s then
        do { (ok, s') \<leftarrow> IAdvance s;
             if \<not> ok then Some (None, s')
             else if \<not> i_pos s' < i_end s' then None else IFetch s' }
      else IFetch s)"

text \<open>
  \<open>Read\<close> and \<open>Skip\<close> loop over the windows of the stream. \<open>Read\<close> returns the bytes it has
  copied to the caller's buffer so far.
\<close>

function IRead_loop :: "nat \<Rightarrow> byte list \<Rightarrow> istream \<Rightarrow> (bool \<times> byte list \<times> istream) option" where
  "IRead_loop n acc s =
     (if n > i_end s - i_pos s then
        (if \<not> i_end s \<le> length (i_data s) then None
         else case IAdvance (i_set_pos (i_end s) s) of
             None \<Rightarrow> None
           | Some (ok, s') \<Rightarrow>
               if \<not> ok then Some (False, acc @ window (i_pos s) (i_end s) (i_data s), s')
               else if \<not> i_pos s' < i_end s' then None
               else IRead_loop (n - (i_end s - i_pos s))
                      (acc @ window (i_pos s) (i_end s) (i_data s)) s')
      else if \<not> i_pos s + n \<le> length (i_data s) then None
      else Some (True, acc @ window (i_pos s) (i_pos s + n) (i_data s), i_set_pos (i_pos s + n) s))"
  by pat_completeness auto
termination
  by (relation "measure (\<lambda>(n, acc, s). 2 * n + (if i_pos s < i_end s then 0 else 1))") auto

definition IRead :: "nat \<Rightarrow> istream \<Rightarrow> (bool \<times> byte list \<times> istream) option" where
  "IRead n s = (if \<not> i_pos s \<le> i_end s then None else IRead_loop n [] s)"

function ISkip_loop :: "nat \<Rightarrow> istream \<Rightarrow> (bool \<times> istream) option" where
  "ISkip_loop n s =
     (if n > i_end s - i_pos s then
        (case IAdvance (i_set_pos (i_end s) s) of
             None \<Rightarrow> None
           | Some (ok, s') \<Rightarrow>
               if \<not> ok then Some (False, s')
               else if \<not> i_pos s' < i_end s' then None
               else ISkip_loop (n - (i_end s - i_pos s)) s')
      else Some (True, i_set_pos (i_pos s + n) s))"
  by pat_completeness auto
termination
  by (relation "measure (\<lambda>(n, s). 2 * n + (if i_pos s < i_end s then 0 else 1))") auto

definition ISkip :: "nat \<Rightarrow> istream \<Rightarrow> (bool \<times> istream) option" where
  "ISkip n s = (if \<not> i_pos s \<le> i_end s then None else ISkip_loop n s)"

declare IRead_loop.simps [simp del] ISkip_loop.simps [simp del]

section \<open>Output streams\<close>

text \<open>
  \<open>OArray\<close> is an \<open>OutputStreamBuffer\<close> over a fixed block (and \<open>ArrayOutputStreamBuffer\<close>,
  which adds only \<open>bytes_written\<close>), \<open>OCounting\<close> a \<open>CountingOutputStreamBuffer\<close> whose shared
  scratch block nobody reads, \<open>OBlob\<close> a \<open>BlobOutputStreamBuffer\<close>. In all three \<open>end_\<close> is the
  end of the block.
\<close>

datatype ostream =
    OArray (o_buf: "byte list") (o_pos: nat)
  | OCounting (o_bytes_written: nat) (o_pos: nat)
  | OBlob (o_buf: blob) (o_pos: nat)

definition kScratchSpaceSize :: nat where "kScratchSpaceSize = 256"

fun o_end :: "ostream \<Rightarrow> nat" where
  "o_end (OArray b p) = length b"
| "o_end (OCounting w p) = kScratchSpaceSize"
| "o_end (OBlob b p) = length b"

fun o_put :: "byte list \<Rightarrow> ostream \<Rightarrow> ostream" where
  "o_put data (OArray b p) = OArray (memcpy_at p data b) (p + length data)"
| "o_put data (OCounting w p) = OCounting w (p + length data)"
| "o_put data (OBlob b p) = OBlob (memcpy_at p data b) (p + length data)"

fun OAdvance :: "allocator \<Rightarrow> ostream \<Rightarrow> bool \<times> ostream" where
  "OAdvance al (OArray b p) = (False, OArray b p)"
| "OAdvance al (OCounting w p) = (True, OCounting (w + p) 0)"
| "OAdvance al (OBlob b p) =
     (case Blob_Resize al (max (length b * 2) 32) b of
        (False, b') \<Rightarrow> (False, OBlob b' p)
      | (True, b') \<Rightarrow> (True, OBlob b' p))"

definition ODone :: "allocator \<Rightarrow> ostream \<Rightarrow> bool \<times> ostream" where
  "ODone al s =
     (if o_pos s \<ge> o_end s then (case OAdvance al s of (ok, s') \<Rightarrow> (\<not> ok, s')) else (False, s))"

function OWrite_loop :: "allocator \<Rightarrow> byte list \<Rightarrow> ostream \<Rightarrow> (bool \<times> ostream) option" where
  "OWrite_loop al data s =
     (if length data > o_end s - o_pos s then
        (case OAdvance al (o_put (take (o_end s - o_pos s) data) s) of
           (ok, s') \<Rightarrow>
             if \<not> ok then Some (False, s')
             else if \<not> o_pos s' < o_end s' then None
             else OWrite_loop al (drop (o_end s - o_pos s) data) s')
      else Some (True, o_put data s))"
  by pat_completeness auto
termination
  by (relation "measure (\<lambda>(al, data, s). 2 * length data + (if o_pos s < o_end s then 0 else 1))") auto

definition OWrite :: "allocator \<Rightarrow> byte list \<Rightarrow> ostream \<Rightarrow> (bool \<times> ostream) option" where
  "OWrite al data s = (if \<not> o_pos s \<le> o_end s then None else OWrite_loop al data s)"

definition WriteByte :: "allocator \<Rightarrow> byte \<Rightarrow> ostream \<Rightarrow> (bool \<times> ostream) option" where
  "WriteByte al b s =
     (if o_pos s \<ge> o_end s then
        (case OAdvance al s of
           (ok, s') \<Rightarrow> if \<not> ok then Some (False, s')
                       else if \<not> o_pos s' < o_end s' then None else Some (True, o_put [b] s'))
      else Some (True, o_put [b] s))"

declare OWrite_loop.simps [simp del]

fun bytes_written :: "ostream \<Rightarrow> nat" where
  "bytes_written (OArray b p) = p"
| "bytes_written (OCounting w p) = w + p"
| "bytes_written (OBlob b p) = p"

text \<open>\<open>BlobOutputStreamBuffer::Truncate\<close>; the other classes have no such member.\<close>

definition OTruncate :: "allocator \<Rightarrow> blob \<Rightarrow> nat \<Rightarrow> bool \<times> ostream" where
  "OTruncate al b p =
     (case Blob_Resize al p b of
        (False, b') \<Rightarrow> (False, OBlob b' p)
      | (True, b') \<Rightarrow> (True, OBlob b' (length b')))"

section \<open>Varints\<close>

lemma unat_drop_bit_7: "unat (drop_bit 7 (v :: u64)) = unat v div 128"
  unfolding unat_drop_bit_eq by (simp add: drop_bit_eq_div)

lemma unat_drop_bit_7_less: "drop_bit 7 (v :: u64) \<noteq> 0 \<Longrightarrow> unat (drop_bit 7 v) < unat v"
  by (metis div_less_dividend drop_bit_of_0 neq0_conv one_less_numeral_iff semiring_norm(76)
      unat_drop_bit_7 unat_eq_zero)

function EncodeVarint :: "allocator \<Rightarrow> u64 \<Rightarrow> ostream \<Rightarrow> (bool \<times> ostream) option" where
  "EncodeVarint al value s =
     (case WriteByte al
             (ucast (value AND 0x7f) OR (if drop_bit 7 value = 0 then 0x00 else 0x80)) s of
        None \<Rightarrow> None
      | Some (ok, s') \<Rightarrow>
          if \<not> ok then Some (False, s')
          else if drop_bit 7 value \<noteq> 0 then EncodeVarint al (drop_bit 7 value) s'
          else Some (True, s'))"
  by pat_completeness auto

termination
  by (relation "measure (\<lambda>(al, v, s). unat v)") (auto simp: unat_drop_bit_7_less)

declare EncodeVarint.simps [simp del]

definition kMaxVarintBytes :: nat where "kMaxVarintBytes = 10"

function DecodeVarint_loop :: "nat \<Rightarrow> u64 \<Rightarrow> istream \<Rightarrow> (u64 option \<times> istream) option" where
  "DecodeVarint_loop i value s =
     (if i < kMaxVarintBytes then
        (case ReadByte s of
           None \<Rightarrow> None
         | Some (None, s') \<Rightarrow> Some (None, s')
         | Some (Some b, s') \<Rightarrow>
             (let value' = value OR push_bit (i * 7) (ucast (b AND 0x7f))
              in if b AND 0x80 = 0 then Some (Some value', s')
                 else DecodeVarint_loop (i + 1) value' s'))
      else Some (None, s))"
  by pat_completeness auto
termination
  by (relation "measure (\<lambda>(i, v, s). kMaxVarintBytes - i)") auto

declare DecodeVarint_loop.simps [simp del]

definition DecodeVarint :: "istream \<Rightarrow> (u64 option \<times> istream) option" where
  "DecodeVarint s = DecodeVarint_loop 0 0 s"

section \<open>Protobuf reader and writer\<close>

datatype WireType =
  kVarint | kFixed64 | kLengthDelimited | kStartGroup | kEndGroup | kFixed32

fun wire_code :: "WireType \<Rightarrow> int" where
  "wire_code kVarint = 0"
| "wire_code kFixed64 = 1"
| "wire_code kLengthDelimited = 2"
| "wire_code kStartGroup = 3"
| "wire_code kEndGroup = 4"
| "wire_code kFixed32 = 5"

text \<open>\<open>wire_type_\<close> is an \<open>int8_t\<close> that also holds values outside the enumeration: -1 before the
  first tag, 6 and 7 when the input says so.\<close>

record ProtoReader =
  r_stream :: istream
  r_wire_type :: int
  r_field_number :: u64
  r_field_size :: nat

definition kInvalidWireType :: int where "kInvalidWireType = -1"

definition new_ProtoReader :: "istream \<Rightarrow> ProtoReader" where
  "new_ProtoReader s =
     \<lparr>r_stream = s, r_wire_type = kInvalidWireType, r_field_number = 0, r_field_size = 0\<rparr>"

definition r_Done :: "ProtoReader \<Rightarrow> (bool \<times> ProtoReader) option" where
  "r_Done r = do { (d, s) \<leftarrow> IDone (r_stream r); Some (d, r\<lparr>r_stream := s\<rparr>) }"

definition ReadWireTag :: "ProtoReader \<Rightarrow> (bool \<times> ProtoReader) option" where
  "ReadWireTag r =
     do { (tag, s) \<leftarrow> DecodeVarint (r_stream r);
          case tag of
            None \<Rightarrow> Some (False, r\<lparr>r_stream := s\<rparr>)
          | Some wire_tag \<Rightarrow>
              (let wt = uint (wire_tag AND 0x7);
                   r1 = r\<lparr>r_stream := s, r_wire_type := wt, r_field_number := drop_bit 3 wire_tag\<rparr>
               in if wt = wire_code kLengthDelimited then
                    do { (sz, s') \<leftarrow> DecodeVarint s;
                         case sz of
                           None \<Rightarrow> Some (False, r1\<lparr>r_stream := s'\<rparr>)
                         | Some fsz \<Rightarrow>
                             (let fs = unat fsz mod 2 ^ size_t_bits
                              in Some (fs = unat fsz, r1\<lparr>r_stream := s', r_field_size := fs\<rparr>)) }
                  else if wt = wire_code kFixed64 then Some (True, r1\<lparr>r_field_size := 8\<rparr>)
                  else if wt = wire_code kFixed32 then Some (True, r1\<lparr>r_field_size := 4\<rparr>)
                  else if wt = wire_code kVarint \<or> wt = wire_code kStartGroup \<or>
                          wt = wire_code kEndGroup then Some (True, r1\<lparr>r_field_size := 0\<rparr>)
                  else Some (True, r1)) }"

definition ReadVarint :: "ProtoReader \<Rightarrow> (u64 option \<times> ProtoReader) option" where
  "ReadVarint r =
     (if r_wire_type r \<noteq> wire_code kVarint then None
      else do { (v, s) \<leftarrow> DecodeVarint (r_stream r); Some (v, r\<lparr>r_stream := s\<rparr>) })"

definition ReadLengthDelimited ::
  "nat \<Rightarrow> ProtoReader \<Rightarrow> (bool \<times> byte list \<times> ProtoReader) option" where
  "ReadLengthDelimited n r =
     (if r_wire_type r \<noteq> wire_code kLengthDelimited then None
      else do { (ok, data, s) \<leftarrow> IRead n (r_stream r); Some (ok, data, r\<lparr>r_stream := s\<rparr>) })"

definition SkipField :: "ProtoReader \<Rightarrow> (bool \<times> ProtoReader) option" where
  "SkipField r =
     (if r_wire_type r = wire_code kVarint then
        do { (v, s) \<leftarrow> DecodeVarint (r_stream r); Some (v \<noteq> None, r\<lparr>r_stream := s\<rparr>) }
      else if r_field_size r > 0 then
        do { (ok, s) \<leftarrow> ISkip (r_field_size r) (r_stream r); Some (ok, r\<lparr>r_stream := s\<rparr>) }
      else Some (True, r))"

record ProtoWriter =
  w_stream :: ostream
  w_field_number :: u64

definition new_ProtoWriter :: "ostream \<Rightarrow> ProtoWriter" where
  "new_ProtoWriter s = \<lparr>w_stream = s, w_field_number = 0\<rparr>"

text \<open>The writer's members, as functions on its stream lifted to the writer; \<open>then_w\<close> is the
  short-circuit \<open>&&\<close> of two writing calls.\<close>

definition on_stream ::
  "(ostream \<Rightarrow> (bool \<times> ostream) option) \<Rightarrow> ProtoWriter \<Rightarrow> (bool \<times> ProtoWriter) option" where
  "on_stream f w = do { (ok, s) \<leftarrow> f (w_stream w); Some (ok, w\<lparr>w_stream := s\<rparr>) }"

definition then_w ::
  "(ProtoWriter \<Rightarrow> (bool \<times> ProtoWriter) option) \<Rightarrow>
   (ProtoWriter \<Rightarrow> (bool \<times> ProtoWriter) option) \<Rightarrow> ProtoWriter \<Rightarrow> (bool \<times> ProtoWriter) option" where
  "then_w f g w = do { (ok, w') \<leftarrow> f w; if ok then g w' else Some (False, w') }"

definition WriteWireTag :: "allocator \<Rightarrow> WireType \<Rightarrow> ProtoWriter \<Rightarrow> (bool \<times> ProtoWriter) option" where
  "WriteWireTag al wt w =
     on_stream (EncodeVarint al (push_bit 3 (w_field_number w) OR of_int (wire_code wt))) w"

definition WriteVarint :: "allocator \<Rightarrow> u64 \<Rightarrow> ProtoWriter \<Rightarrow> (bool \<times> ProtoWriter) option" where
  "WriteVarint al value = then_w (WriteWireTag al kVarint) (on_stream (EncodeVarint al value))"

definition WriteLengthHeader :: "allocator \<Rightarrow> nat \<Rightarrow> ProtoWriter \<Rightarrow> (bool \<times> ProtoWriter) option" where
  "WriteLengthHeader al sz =
     then_w (WriteWireTag al kLengthDelimited) (on_stream (EncodeVarint al (of_nat sz)))"

definition WriteLengthDelimited ::
  "allocator \<Rightarrow> byte list \<Rightarrow> ProtoWriter \<Rightarrow> (bool \<times> ProtoWriter) option" where
  "WriteLengthDelimited al data =
     then_w (then_w (WriteWireTag al kLengthDelimited)
                    (on_stream (EncodeVarint al (of_nat (length data)))))
            (on_stream (OWrite al data))"

end
