(* ===== verification/Nvram_Wire.thy ===== *)
theory Nvram_Wire
  imports Nvram_Io
begin

text \<open>
  Correctness of the wire layer. The first part is about input: on a well-formed stream, whatever
  bytes it holds, no operation crashes, and a successful read consumes a prefix of the bytes
  available. The second part is about output: a successful write appends. The third part relates
  the two through the varint encoding.
\<close>

section \<open>Input streams\<close>

fun i_wf :: "istream \<Rightarrow> bool" where
  "i_wf (InputStreamBuffer mem p e) \<longleftrightarrow> p \<le> e \<and> e \<le> length mem"
| "i_wf (NestedInputStreamBuffer p e r d) \<longleftrightarrow> i_wf d \<and> i_pos d \<le> e \<and> p \<le> e \<and> e \<le> i_end d"

definition avail :: "istream \<Rightarrow> byte list" where
  "avail s = window (i_pos s) (i_end s) (i_data s)"

definition i_skip :: "nat \<Rightarrow> istream \<Rightarrow> istream" where
  "i_skip n s = i_set_pos (i_pos s + n) s"

lemma i_set_pos_simps [simp]:
  "i_pos (i_set_pos q s) = q" "i_end (i_set_pos q s) = i_end s" "i_data (i_set_pos q s) = i_data s"
  "i_set_pos q (i_set_pos q' s) = i_set_pos q s"
  by (cases s; simp)+

lemma i_wf_bounds: "i_wf s \<Longrightarrow> i_pos s \<le> i_end s \<and> i_end s \<le> length (i_data s)"
  by (induction s) auto

lemma i_wf_set_pos: "i_wf s \<Longrightarrow> q \<le> i_end s \<Longrightarrow> i_wf (i_set_pos q s)"
  by (cases s) auto

lemma length_avail: "i_wf s \<Longrightarrow> length (avail s) = i_end s - i_pos s"
  using i_wf_bounds [of s] by (auto simp: avail_def)

lemma i_skip_simps [simp]:
  "i_end (i_skip n s) = i_end s" "i_data (i_skip n s) = i_data s" "i_pos (i_skip n s) = i_pos s + n"
  "i_skip m (i_skip n s) = i_skip (n + m) s"
  by (simp_all add: i_skip_def add.assoc)

lemma i_skip_0 [simp]: "i_skip 0 s = s"
  by (cases s) (simp_all add: i_skip_def)

lemma avail_skip [simp]: "avail (i_skip n s) = drop n (avail s)"
  by (simp add: avail_def drop_window)

lemma i_wf_skip: "i_wf s \<Longrightarrow> n \<le> length (avail s) \<Longrightarrow> i_wf (i_skip n s)"
  using i_wf_bounds [of s] by (auto simp: i_skip_def length_avail intro!: i_wf_set_pos)

lemma new_InputStreamBuffer_wf [simp]: "i_wf (new_InputStreamBuffer bs)"
  and new_InputStreamBuffer_avail [simp]: "avail (new_InputStreamBuffer bs) = bs"
  and new_InputStreamBuffer_data [simp]: "i_data (new_InputStreamBuffer bs) = bs"
  by (simp_all add: new_InputStreamBuffer_def avail_def window_def)

definition i_moves :: "istream \<Rightarrow> istream \<Rightarrow> bool" where
  "i_moves s s' \<longleftrightarrow> (\<exists>n \<le> length (avail s). s' = i_skip n s)"

lemma i_moves_refl: "i_moves s s"
  by (auto simp: i_moves_def intro!: exI [of _ 0])

lemma i_movesI: "n \<le> length (avail s) \<Longrightarrow> i_moves s (i_skip n s)"
  by (auto simp: i_moves_def)

lemma i_moves_trans: "i_moves s s' \<Longrightarrow> i_moves s' s'' \<Longrightarrow> i_moves s s''"
proof -
  assume "i_moves s s'" "i_moves s' s''"
  then obtain n m where "s' = i_skip n s" "n \<le> length (avail s)"
      "s'' = i_skip m s'" "m \<le> length (avail s')"
    by (auto simp: i_moves_def)
  then show ?thesis using i_movesI [of "n + m" s] by simp
qed

lemma i_moves_set_pos: "i_wf s \<Longrightarrow> i_pos s \<le> q \<Longrightarrow> q \<le> i_end s \<Longrightarrow> i_moves s (i_set_pos q s)"
  using i_movesI [of "q - i_pos s" s] by (simp add: length_avail i_skip_def)

text \<open>
  The outcome of any operation, also of one that could not proceed: a well-formed stream over the
  same bytes and of the same kind. A nested stream over a plain one leaves its delegate at the same
  place or moves it forward.
\<close>

definition delegate_moves :: "istream \<Rightarrow> istream \<Rightarrow> bool" where
  "delegate_moves s s' \<longleftrightarrow>
     (case s of
        InputStreamBuffer mem p e \<Rightarrow> is_InputStreamBuffer s'
      | NestedInputStreamBuffer p e r d \<Rightarrow>
          (case s' of InputStreamBuffer mem p e \<Rightarrow> False
           | NestedInputStreamBuffer p' e' r' d' \<Rightarrow> is_InputStreamBuffer d \<longrightarrow> i_moves d d'))"

lemma is_InputStreamBuffer_set_pos [simp]:
  "is_InputStreamBuffer (i_set_pos q s) = is_InputStreamBuffer s"
  by (cases s) simp_all

lemma is_InputStreamBuffer_skip [simp]: "is_InputStreamBuffer (i_skip n s) = is_InputStreamBuffer s"
  by (simp add: i_skip_def)

lemma is_InputStreamBuffer_moves:
  "i_moves s s' \<Longrightarrow> is_InputStreamBuffer s' = is_InputStreamBuffer s"
  by (auto simp: i_moves_def)

lemma delegate_moves_refl [simp]: "delegate_moves s s"
  by (cases s) (simp_all add: delegate_moves_def i_moves_refl)

lemma delegate_moves_set_pos [simp]:
  "delegate_moves (i_set_pos q s) s' = delegate_moves s s'"
  "delegate_moves s (i_set_pos q s') = delegate_moves s s'"
  by (cases s; cases s'; simp add: delegate_moves_def)+

lemma delegate_moves_trans: "delegate_moves s s' \<Longrightarrow> delegate_moves s' s'' \<Longrightarrow> delegate_moves s s''"
  by (cases s; cases s'; cases s'')
     (auto simp: delegate_moves_def is_InputStreamBuffer_moves intro: i_moves_trans)

definition i_same :: "istream \<Rightarrow> istream \<Rightarrow> bool" where
  "i_same s s' \<longleftrightarrow> i_wf s' \<and> i_data s' = i_data s \<and> delegate_moves s s'"

lemma i_same_refl: "i_wf s \<Longrightarrow> i_same s s"
  by (simp add: i_same_def)

lemma i_same_skip: "i_wf s \<Longrightarrow> n \<le> length (avail s) \<Longrightarrow> i_same s (i_skip n s)"
  by (simp add: i_same_def i_wf_skip) (simp add: i_skip_def)

lemma i_same_trans: "i_same s s' \<Longrightarrow> i_same s' s'' \<Longrightarrow> i_same s s''"
  by (auto simp: i_same_def intro: delegate_moves_trans)

lemma ClampEnd_wf:
  "i_wf d \<Longrightarrow> \<exists>e. ClampEnd d n = Some e \<and> i_pos d \<le> e \<and> e \<le> i_end d"
  using i_wf_bounds [of d] by (auto simp: ClampEnd_def)

text \<open>No stream the repository builds ever refills its window.\<close>

lemma IAdvance_wf: "i_wf s \<Longrightarrow> \<exists>s'. IAdvance s = Some (False, s') \<and> i_same s s'"
proof (induction s)
  case (InputStreamBuffer mem p e)
  then show ?case by (simp add: i_same_def)
next
  case (NestedInputStreamBuffer p e r d)
  then have d: "i_wf d" "i_pos d \<le> e" "p \<le> e" "e \<le> i_end d" by simp_all
  let ?r = "size_minus r (int e - int (i_pos d))"
  show ?case
  proof (cases "?r = 0")
    case True
    then show ?thesis using d
      by (simp add: i_same_def i_wf_set_pos i_moves_set_pos delegate_moves_def)
  next
    case False
    obtain d' where d': "IAdvance d = Some (False, d')" "i_same d d'"
      using NestedInputStreamBuffer.IH d(1) by blast
    then obtain e' where "ClampEnd d' ?r = Some e'" "i_pos d' \<le> e'" "e' \<le> i_end d'"
      using ClampEnd_wf [of d' ?r] by (auto simp: i_same_def)
    moreover have "i_moves d d'" if "is_InputStreamBuffer d"
      using that d'(1) by (cases d) (auto simp: i_moves_refl)
    ultimately show ?thesis using False d d'
      by (simp add: i_same_def Let_def delegate_moves_def)
  qed
qed

lemma ReadByte_more:
  "i_wf s \<Longrightarrow> avail s = b # bs \<Longrightarrow> ReadByte s = Some (Some b, i_skip 1 s)"
  using window_Cons [of "i_pos s" "i_end s" "i_data s" b bs]
  by (simp add: ReadByte_def avail_def IFetch_def i_skip_def)

lemma ReadByte_exhausted:
  assumes "i_wf s" "avail s = []"
  shows "\<exists>s'. ReadByte s = Some (None, s') \<and> i_same s s'"
proof -
  have "i_end s \<le> i_pos s"
    using assms length_avail [of s] by simp
  then show ?thesis using IAdvance_wf [OF assms(1)] by (auto simp: ReadByte_def)
qed

lemma IDone_more: "i_wf s \<Longrightarrow> avail s \<noteq> [] \<Longrightarrow> IDone s = Some (False, s)"
  using length_avail [of s] by (cases "avail s") (auto simp: IDone_def)

lemma IDone_exhausted: "i_wf s \<Longrightarrow> avail s = [] \<Longrightarrow> \<exists>s'. IDone s = Some (True, s') \<and> i_same s s'"
  using length_avail [of s] IAdvance_wf [of s] by (auto simp: IDone_def)

lemma window_prefix: "window a (a + n) xs = take n (window a b xs)" if "a + n \<le> b"
  using that by (auto simp: window_def min_def)

lemma IRead_enough:
  assumes "i_wf s" "n \<le> length (avail s)"
  shows "IRead n s = Some (True, take n (avail s), i_skip n s)"
proof -
  have n: "n \<le> i_end s - i_pos s" "i_pos s \<le> i_end s" "i_end s \<le> length (i_data s)"
    using assms i_wf_bounds [OF assms(1)] length_avail [OF assms(1)] by auto
  then have "window (i_pos s) (i_pos s + n) (i_data s) = take n (avail s)"
    unfolding avail_def by (intro window_prefix) simp
  then show ?thesis using n
    by (simp add: IRead_def IRead_loop.simps [of n "[]" s] i_skip_def)
qed

lemma IRead_short:
  assumes "i_wf s" "length (avail s) < n"
  shows "\<exists>s'. IRead n s = Some (False, avail s, s') \<and> i_same s s'"
proof -
  have "i_wf (i_set_pos (i_end s) s)"
    using assms(1) by (simp add: i_wf_set_pos)
  from IAdvance_wf [OF this] show ?thesis
    using assms i_wf_bounds [OF assms(1)] length_avail [OF assms(1)]
    by (auto simp: IRead_def IRead_loop.simps [of n "[]" s] avail_def i_same_def)
qed

lemma ISkip_enough:
  assumes "i_wf s" "n \<le> length (avail s)"
  shows "ISkip n s = Some (True, i_skip n s)"
  using assms i_wf_bounds [OF assms(1)] length_avail [OF assms(1)]
  by (simp add: ISkip_def ISkip_loop.simps [of n s] i_skip_def)

lemma ISkip_short:
  assumes "i_wf s" "length (avail s) < n"
  shows "\<exists>s'. ISkip n s = Some (False, s') \<and> i_same s s'"
proof -
  have "i_wf (i_set_pos (i_end s) s)"
    using assms(1) by (simp add: i_wf_set_pos)
  from IAdvance_wf [OF this] show ?thesis
    using assms i_wf_bounds [OF assms(1)] length_avail [OF assms(1)]
    by (auto simp: ISkip_def ISkip_loop.simps [of n s] i_same_def)
qed

section \<open>Output streams\<close>

definition o_wf :: "ostream \<Rightarrow> bool" where
  "o_wf s \<longleftrightarrow> o_pos s \<le> o_end s"

text \<open>\<open>o_emits s bs s'\<close>: \<open>s'\<close> is \<open>s\<close> after appending \<open>bs\<close>.\<close>

fun o_emits :: "ostream \<Rightarrow> byte list \<Rightarrow> ostream \<Rightarrow> bool" where
  "o_emits (OArray b p) bs (OArray b' p') \<longleftrightarrow>
     length b' = length b \<and> p' = p + length bs \<and> p' \<le> length b \<and> take p' b' = take p b @ bs"
| "o_emits (OCounting w p) bs (OCounting w' p') \<longleftrightarrow>
     p \<le> kScratchSpaceSize \<and> p' \<le> kScratchSpaceSize \<and> w' + p' = w + p + length bs"
| "o_emits (OBlob b p) bs (OBlob b' p') \<longleftrightarrow>
     p \<le> length b \<and> p' = p + length bs \<and> p' \<le> length b' \<and> take p' b' = take p b @ bs"
| "o_emits _ _ _ \<longleftrightarrow> False"

text \<open>\<open>o_room al s n\<close>: nothing stops the stream from taking \<open>n\<close> more bytes.\<close>

fun o_room :: "allocator \<Rightarrow> ostream \<Rightarrow> nat \<Rightarrow> bool" where
  "o_room al (OArray b p) n \<longleftrightarrow> p + n \<le> length b"
| "o_room al (OCounting w p) n \<longleftrightarrow> True"
| "o_room al (OBlob b p) n \<longleftrightarrow> alloc_total al"

text \<open>\<open>o_writes al f bs\<close>: on every well-formed stream \<open>f\<close> does not crash, appends \<open>bs\<close> when it
  reports success, and reports success when there is room.\<close>

definition o_writes ::
  "allocator \<Rightarrow> (ostream \<Rightarrow> (bool \<times> ostream) option) \<Rightarrow> byte list \<Rightarrow> bool" where
  "o_writes al f bs \<longleftrightarrow>
     (\<forall>s. o_wf s \<longrightarrow> (\<exists>ok s'. f s = Some (ok, s') \<and> o_wf s' \<and> (ok \<longrightarrow> o_emits s bs s') \<and>
                              (o_room al s (length bs) \<longrightarrow> ok)))"

lemma o_emits_wf: "o_emits s bs s' \<Longrightarrow> o_wf s \<and> o_wf s'"
  by (induction s bs s' rule: o_emits.induct) (auto simp: o_wf_def)

lemma o_emits_refl: "o_wf s \<Longrightarrow> o_emits s [] s"
  by (cases s) (auto simp: o_wf_def)

lemma o_emits_trans: "o_emits s bs s' \<Longrightarrow> o_emits s' cs s'' \<Longrightarrow> o_emits s (bs @ cs) s''"
  by (cases s; cases s'; cases s'') auto

lemma o_room_emits: "o_emits s bs s' \<Longrightarrow> o_room al s (length bs + n) \<Longrightarrow> o_room al s' n"
  by (cases s; cases s') auto

lemma o_room_mono: "o_room al s n \<Longrightarrow> m \<le> n \<Longrightarrow> o_room al s m"
  by (cases s) auto

lemma o_put_emits: "o_pos s + length bs \<le> o_end s \<Longrightarrow> o_emits s bs (o_put bs s)"
  by (cases s) (auto simp: take_memcpy_at)

lemma OAdvance_wf:
  assumes "o_wf s" "OAdvance al s = (ok, s')"
  shows "o_wf s' \<and> (ok \<longrightarrow> o_emits s [] s' \<and> o_pos s' < o_end s')"
proof (cases s)
  case (OBlob b p)
  then have "p \<le> length b" using assms(1) by (simp add: o_wf_def)
  then show ?thesis using assms OBlob
    by (auto simp: o_wf_def Blob_Resize_def min_def split: if_splits)
qed (use assms in \<open>auto simp: o_wf_def kScratchSpaceSize_def\<close>)

lemma OAdvance_room: "o_room al s n \<Longrightarrow> o_end s < o_pos s + n \<Longrightarrow> fst (OAdvance al s)"
  by (cases s) (auto simp: Blob_Resize_total)

lemma WriteByte_writes: "o_writes al (WriteByte al b) [b]"
  unfolding o_writes_def
proof (intro allI impI)
  fix s assume s: "o_wf s"
  obtain ok s' where a: "OAdvance al s = (ok, s')" by fastforce
  note w = OAdvance_wf [OF s a]
  show "\<exists>ok s'. WriteByte al b s = Some (ok, s') \<and> o_wf s' \<and> (ok \<longrightarrow> o_emits s [b] s') \<and>
          (o_room al s (length [b]) \<longrightarrow> ok)"
  proof (cases "o_pos s \<ge> o_end s")
    case True
    have "ok \<Longrightarrow> o_emits s' [b] (o_put [b] s')" using w by (intro o_put_emits) simp
    then have "ok \<Longrightarrow> o_emits s [b] (o_put [b] s')" using w o_emits_trans by fastforce
    then show ?thesis using True a w OAdvance_room [of al s 1]
      by (auto simp: WriteByte_def dest: o_emits_wf)
  next
    case False
    then show ?thesis using o_put_emits [of s "[b]"]
      by (auto simp: WriteByte_def dest: o_emits_wf)
  qed
qed

lemma OWrite_loop_writes:
  assumes "o_wf s"
  shows "\<exists>ok s'. OWrite_loop al data s = Some (ok, s') \<and> o_wf s' \<and> (ok \<longrightarrow> o_emits s data s') \<and>
           (o_room al s (length data) \<longrightarrow> ok)"
  using assms
proof (induction al data s rule: OWrite_loop.induct)
  case (1 al data s)
  let ?k = "o_end s - o_pos s"
  show ?case
  proof (cases "length data > ?k")
    case False
    then have "o_emits s data (o_put data s)"
      using "1.prems" by (intro o_put_emits) (auto simp: o_wf_def)
    then show ?thesis using False by (auto simp: OWrite_loop.simps [of al data s] dest: o_emits_wf)
  next
    case True
    let ?s1 = "o_put (take ?k data) s"
    have e1: "o_emits s (take ?k data) ?s1"
      using True "1.prems" by (intro o_put_emits) (auto simp: o_wf_def)
    obtain ok s2 where a: "OAdvance al ?s1 = (ok, s2)" by fastforce
    have w: "o_wf s2 \<and> (ok \<longrightarrow> o_emits ?s1 [] s2 \<and> o_pos s2 < o_end s2)"
      using OAdvance_wf [OF _ a] e1 by (blast dest: o_emits_wf)
    show ?thesis
    proof (cases ok)
      case False
      have p1: "o_pos ?s1 + (length data - ?k) > o_end ?s1"
        using True "1.prems" by (cases s) (auto simp: o_wf_def)
      have "\<not> o_room al s (length data)"
      proof
        assume "o_room al s (length data)"
        then have "o_room al ?s1 (length data - ?k)"
          using o_room_emits [OF e1, of al "length data - ?k"] True by (simp add: min_def)
        from OAdvance_room [OF this p1] show False using a False by simp
      qed
      then show ?thesis using False True a w by (auto simp: OWrite_loop.simps [of al data s])
    next
      case ok: True
      have e2: "o_emits s (take ?k data) s2"
        using o_emits_trans [OF e1, of "[]" s2] w ok by simp
      from "1.IH" [OF True a [symmetric]] ok w
      obtain ok' s3 where r: "OWrite_loop al (drop ?k data) s2 = Some (ok', s3)" "o_wf s3"
          "ok' \<longrightarrow> o_emits s2 (drop ?k data) s3" "o_room al s2 (length (drop ?k data)) \<longrightarrow> ok'"
        by auto
      have "ok' \<longrightarrow> o_emits s data s3"
        using r(3) o_emits_trans [OF e2, of "drop ?k data" s3] by simp
      moreover have "o_room al s (length data) \<longrightarrow> ok'"
        using r(4) o_room_emits [OF e2, of al "length data - ?k"] True by (simp add: min_def)
      ultimately show ?thesis using True a w ok r
        by (auto simp: OWrite_loop.simps [of al data s])
    qed
  qed
qed

lemma OWrite_writes: "o_writes al (OWrite al data) data"
  using OWrite_loop_writes by (auto simp: o_writes_def OWrite_def o_wf_def)

text \<open>Sequencing two writes with \<open>&&\<close>.\<close>

lemma o_writes_seq:
  assumes "o_writes al f bs" "o_writes al g cs"
  shows "o_writes al (\<lambda>s. case f s of None \<Rightarrow> None
                          | Some (ok, s') \<Rightarrow> if \<not> ok then Some (False, s') else g s') (bs @ cs)"
  unfolding o_writes_def
proof (intro allI impI)
  fix s assume "o_wf s"
  then obtain ok s' where f: "f s = Some (ok, s')" "o_wf s'" "ok \<longrightarrow> o_emits s bs s'"
      "o_room al s (length bs) \<longrightarrow> ok"
    using assms(1) unfolding o_writes_def by blast
  obtain ok' s'' where g: "g s' = Some (ok', s'')" "o_wf s''" "ok' \<longrightarrow> o_emits s' cs s''"
      "o_room al s' (length cs) \<longrightarrow> ok'"
    using assms(2) f(2) unfolding o_writes_def by blast
  have r: "o_room al s (length (bs @ cs)) \<Longrightarrow> ok \<and> ok'"
    using f(3,4) g(4) o_room_mono [of al s "length (bs @ cs)" "length bs"]
      o_room_emits [of s bs s' al "length cs"] by auto
  show "\<exists>ok2 s2. (case f s of None \<Rightarrow> None
            | Some (ok, s') \<Rightarrow> if \<not> ok then Some (False, s') else g s') = Some (ok2, s2) \<and>
          o_wf s2 \<and> (ok2 \<longrightarrow> o_emits s (bs @ cs) s2) \<and> (o_room al s (length (bs @ cs)) \<longrightarrow> ok2)"
  proof (cases ok)
    case True
    then show ?thesis using f g r by (auto intro: o_emits_trans)
  next
    case False
    then show ?thesis using f r by auto
  qed
qed

lemma o_writes_nothing: "o_writes al (\<lambda>s. Some (True, s)) []"
  by (auto simp: o_writes_def o_emits_refl)

section \<open>The varint encoding\<close>

function varint :: "u64 \<Rightarrow> byte list" where
  "varint v =
     (ucast (v AND 0x7f) OR (if drop_bit 7 v = 0 then 0x00 else 0x80)) #
     (if drop_bit 7 v \<noteq> 0 then varint (drop_bit 7 v) else [])"
  by pat_completeness auto
termination
  by (relation "measure unat") (auto simp: unat_drop_bit_7_less)

declare varint.simps [simp del]

lemma varint_not_Nil [simp]: "varint v \<noteq> []"
  by (subst varint.simps) simp

lemma EncodeVarint_writes: "o_writes al (EncodeVarint al v) (varint v)"
proof (induction v rule: varint.induct)
  case (1 v)
  let ?b = "ucast (v AND 0x7f) OR (if drop_bit 7 v = 0 then 0x00 else 0x80) :: byte"
  show ?case
  proof (cases "drop_bit 7 v = 0")
    case True
    then have "EncodeVarint al v = WriteByte al ?b"
      by (intro ext) (simp add: EncodeVarint.simps [of al v] split: option.splits)
    then show ?thesis using True WriteByte_writes [of al ?b] by (simp add: varint.simps [of v])
  next
    case False
    have "o_writes al (\<lambda>s. case WriteByte al ?b s of None \<Rightarrow> None
        | Some (ok, s') \<Rightarrow> if \<not> ok then Some (False, s') else EncodeVarint al (drop_bit 7 v) s')
        ([?b] @ varint (drop_bit 7 v))"
      using "1.IH" False by (intro o_writes_seq WriteByte_writes) simp
    moreover have "EncodeVarint al v = (\<lambda>s. case WriteByte al ?b s of None \<Rightarrow> None
        | Some (ok, s') \<Rightarrow> if \<not> ok then Some (False, s') else EncodeVarint al (drop_bit 7 v) s')"
      using False by (intro ext) (simp add: EncodeVarint.simps [of al v] split: option.splits)
    ultimately show ?thesis using False by (simp add: varint.simps [of v])
  qed
qed

lemma varint_byte_low:
  "ucast ((ucast (v AND 0x7f) OR (if c then 0 else 0x80) :: byte) AND 0x7f) = (v :: u64) AND 0x7f"
  unfolding word_0x7f_mask by (rule bit_word_eqI) (auto simp: bit_simps bit_int_0x80)

lemma varint_byte_high:
  "((ucast ((v :: u64) AND 0x7f) OR (if c then 0 else 0x80) :: byte) AND 0x80 = 0) \<longleftrightarrow> c"
  unfolding word_0x7f_mask byte_and_0x80 by (simp add: bit_simps bit_int_0x80)

lemma varint_join: "push_bit k (v AND 0x7f) OR push_bit (k + 7) (drop_bit 7 v) = push_bit k (v :: u64)"
proof (rule bit_word_eqI)
  fix n
  show "bit (push_bit k (v AND 0x7f) OR push_bit (k + 7) (drop_bit 7 v)) n = bit (push_bit k v) n"
  proof (cases "k + 7 \<le> n")
    case True
    then have "7 + (n - (k + 7)) = n - k" by simp
    with True show ?thesis unfolding word_0x7f_mask by (auto simp: bit_simps)
  qed (auto simp: word_0x7f_mask bit_simps)
qed

lemma varint_small: "unat (v :: u64) < 128 \<longleftrightarrow> drop_bit 7 v = 0"
  using unat_drop_bit_7 [of v] by (auto simp: unat_eq_zero [symmetric] simp del: unat_eq_zero)

text \<open>
  Decoding is inverse to encoding: with \<open>i\<close> bytes consumed, the loop can still read any value of
  \<open>7 * (10 - i)\<close> bits, and joins it above the bits it already has.
\<close>

lemma DecodeVarint_loop_varint:
  assumes "i_wf s" "avail s = varint v @ rest" "i < kMaxVarintBytes"
    "unat v < 2 ^ (7 * (kMaxVarintBytes - i))"
  shows "DecodeVarint_loop i acc s =
    Some (Some (acc OR push_bit (i * 7) v), i_skip (length (varint v)) s)"
  using assms
proof (induction v arbitrary: i acc s rule: varint.induct)
  case (1 v)
  define b :: byte where "b = ucast (v AND 0x7f) OR (if drop_bit 7 v = 0 then 0x00 else 0x80)"
  have vb: "varint v = b # (if drop_bit 7 v \<noteq> 0 then varint (drop_bit 7 v) else [])"
    by (simp add: varint.simps [of v] b_def)
  have b: "ucast (b AND 0x7f) = v AND 0x7f" "b AND 0x80 = 0 \<longleftrightarrow> drop_bit 7 v = 0"
    unfolding b_def by (rule varint_byte_low varint_byte_high)+
  have rb: "ReadByte s = Some (Some b, i_skip 1 s)"
    using "1.prems" by (intro ReadByte_more) (simp_all add: vb)
  show ?case
  proof (cases "drop_bit 7 v = 0")
    case True
    then have "v AND 0x7f = v" using varint_join [of 0 v] by simp
    then show ?thesis using True rb "1.prems"(3)
      by (simp add: DecodeVarint_loop.simps [of i acc s] vb b Let_def)
  next
    case False
    have u: "unat v div 128 < 2 ^ (7 * (kMaxVarintBytes - Suc i))" "Suc i < kMaxVarintBytes"
    proof -
      have "kMaxVarintBytes - i = Suc (kMaxVarintBytes - Suc i)" using "1.prems"(3) by simp
      then have w: "unat v < 128 * 2 ^ (7 * (kMaxVarintBytes - Suc i))"
        using "1.prems"(4) by (simp add: power_add)
      then show "unat v div 128 < 2 ^ (7 * (kMaxVarintBytes - Suc i))"
        by (simp add: less_mult_imp_div_less mult.commute)
      have "\<not> unat v < 128" using False varint_small [of v] by simp
      then show "Suc i < kMaxVarintBytes" using w "1.prems"(3)
        by (cases "kMaxVarintBytes - Suc i") auto
    qed
    have "DecodeVarint_loop (Suc i) (acc OR push_bit (i * 7) (v AND 0x7f)) (i_skip 1 s) =
      Some (Some ((acc OR push_bit (i * 7) (v AND 0x7f)) OR push_bit (Suc i * 7) (drop_bit 7 v)),
        i_skip (length (varint (drop_bit 7 v))) (i_skip 1 s))"
      using False "1.prems" u
      by (intro "1.IH" [OF False]) (auto simp: vb unat_drop_bit_7 intro: i_wf_skip)
    moreover have "(acc OR push_bit (i * 7) (v AND 0x7f)) OR push_bit (Suc i * 7) (drop_bit 7 v) =
        acc OR push_bit (i * 7) v"
      using varint_join [of "i * 7" v] by (simp add: or.assoc add.commute)
    ultimately show ?thesis using False rb "1.prems"(3)
      by (simp add: DecodeVarint_loop.simps [of i acc s] vb b Let_def)
  qed
qed

lemma DecodeVarint_varint:
  assumes "i_wf s" "avail s = varint v @ rest"
  shows "DecodeVarint s = Some (Some v, i_skip (length (varint v)) s)"
proof -
  have "unat v < 2 ^ LENGTH(64)" by (rule unsigned_less)
  then have "unat v < 2 ^ (7 * (kMaxVarintBytes - 0))" by (simp add: kMaxVarintBytes_def)
  then show ?thesis
    using DecodeVarint_loop_varint [OF assms, of 0 0] by (simp add: DecodeVarint_def kMaxVarintBytes_def)
qed

text \<open>On arbitrary input a varint either decodes, consuming at least one byte, or fails.\<close>

definition i_reads :: "istream \<Rightarrow> istream \<Rightarrow> bool" where
  "i_reads s s' \<longleftrightarrow> (\<exists>n. 0 < n \<and> n \<le> length (avail s) \<and> s' = i_skip n s)"

lemma i_reads_moves: "i_reads s s' \<Longrightarrow> i_moves s s'"
  by (auto simp: i_reads_def i_moves_def)

lemma i_readsI: "0 < n \<Longrightarrow> n \<le> length (avail s) \<Longrightarrow> i_reads s (i_skip n s)"
  by (auto simp: i_reads_def)

lemma i_reads_moves_trans: "i_reads s s' \<Longrightarrow> i_moves s' s'' \<Longrightarrow> i_reads s s''"
proof -
  assume "i_reads s s'" "i_moves s' s''"
  then obtain n m where "s' = i_skip n s" "0 < n" "n \<le> length (avail s)"
      "s'' = i_skip m s'" "m \<le> length (avail s')"
    by (auto simp: i_moves_def i_reads_def)
  then show ?thesis using i_readsI [of "n + m" s] by simp
qed

lemma i_moves_same: "i_wf s \<Longrightarrow> i_moves s s' \<Longrightarrow> i_same s s'"
  by (auto simp: i_moves_def intro: i_same_skip)

lemma i_moves_length: "i_moves s s' \<Longrightarrow> length (avail s') \<le> length (avail s)"
  by (auto simp: i_moves_def)

lemma i_reads_length: "i_reads s s' \<Longrightarrow> length (avail s') < length (avail s)"
  by (auto simp: i_reads_def)

lemma ReadByte_safe:
  "i_wf s \<Longrightarrow> \<exists>b s'. ReadByte s = Some (b, s') \<and> i_same s s' \<and> (b \<noteq> None \<longrightarrow> i_reads s s')"
proof (cases "avail s")
  case (Cons b bs)
  moreover assume "i_wf s"
  ultimately show ?thesis using ReadByte_more [of s b bs]
    by (auto simp: i_reads_def intro!: i_same_skip)
qed (auto dest: ReadByte_exhausted)

lemma DecodeVarint_loop_safe:
  "i_wf s \<Longrightarrow> \<exists>v s'. DecodeVarint_loop i acc s = Some (v, s') \<and> i_same s s' \<and> (v \<noteq> None \<longrightarrow> i_reads s s')"
proof (induction i acc s rule: DecodeVarint_loop.induct)
  case (1 i acc s)
  obtain b s1 where rb: "ReadByte s = Some (b, s1)" "i_same s s1" "b \<noteq> None \<longrightarrow> i_reads s s1"
    using ReadByte_safe [OF "1.prems"] by blast
  show ?case
  proof (cases "i < kMaxVarintBytes")
    case False
    then show ?thesis using "1.prems" by (simp add: DecodeVarint_loop.simps [of i acc s] i_same_def)
  next
    case i: True
    show ?thesis
    proof (cases b)
      case None
      then show ?thesis using i rb by (simp add: DecodeVarint_loop.simps [of i acc s])
    next
      case (Some c)
      let ?acc = "acc OR push_bit (i * 7) (ucast (c AND 0x7f))"
      have "\<exists>v s'. DecodeVarint_loop (i + 1) ?acc s1 = Some (v, s') \<and> i_same s1 s' \<and>
              (v \<noteq> None \<longrightarrow> i_reads s1 s')" if "c AND 0x80 \<noteq> 0"
        using i rb Some that by (intro "1.IH") (auto simp: i_same_def)
      then show ?thesis using i rb Some
        by (cases "c AND 0x80 = 0")
           (auto simp: DecodeVarint_loop.simps [of i acc s] Let_def
             dest: i_same_trans [OF rb(2)] i_reads_moves i_reads_moves_trans [of s s1])
    qed
  qed
qed

lemma DecodeVarint_safe:
  "i_wf s \<Longrightarrow> \<exists>v s'. DecodeVarint s = Some (v, s') \<and> i_same s s' \<and> (v \<noteq> None \<longrightarrow> i_reads s s')"
  unfolding DecodeVarint_def by (rule DecodeVarint_loop_safe)

section \<open>Tags and records\<close>

definition wire_tag :: "u64 \<Rightarrow> WireType \<Rightarrow> u64" where
  "wire_tag fn wt = push_bit 3 fn OR of_int (wire_code wt)"

lemma word_7_mask: "(7 :: 'a::len word) = mask 3"
  by (simp add: mask_eq_exp_minus_1)

lemma wire_code_take_bit: "take_bit 3 (of_int (wire_code wt) :: u64) = of_int (wire_code wt)"
  by (cases wt) (simp_all add: take_bit_eq_mod)

lemma wire_code_drop_bit: "drop_bit 3 (of_int (wire_code wt) :: u64) = 0"
  by (cases wt) (simp_all add: drop_bit_eq_div)

lemma wire_tag_type: "uint (wire_tag fn wt AND 0x7) = wire_code wt"
proof -
  have "wire_tag fn wt AND 0x7 = of_int (wire_code wt)"
    by (simp add: wire_tag_def word_7_mask take_bit_eq_mask [symmetric] take_bit_or wire_code_take_bit
        take_bit_push_bit)
  then show ?thesis by (cases wt) simp_all
qed

lemma wire_tag_number:
  assumes "unat fn < 2 ^ 61"
  shows "drop_bit 3 (wire_tag fn wt) = fn"
proof -
  have "take_bit 61 fn = fn"
    using assms by (simp add: word_unat_eq_iff unsigned_take_bit_eq take_bit_nat_eq_self)
  then have "bit fn n \<Longrightarrow> n < 61" for n
    by (metis bit_take_bit_iff)
  then have "drop_bit 3 (push_bit 3 fn) = fn"
    by (intro bit_word_eqI) (auto simp: bit_simps dest: bit_imp_le_length)
  then show ?thesis by (simp add: wire_tag_def drop_bit_or wire_code_drop_bit)
qed

text \<open>A field on the wire: tag, length where the wire type has one, payload.\<close>

definition record_header :: "u64 \<Rightarrow> WireType \<Rightarrow> nat \<Rightarrow> byte list" where
  "record_header fn wt n =
     varint (wire_tag fn wt) @ (if wt = kLengthDelimited then varint (of_nat n) else [])"

definition record_bytes :: "u64 \<Rightarrow> WireType \<Rightarrow> byte list \<Rightarrow> byte list" where
  "record_bytes fn wt payload = record_header fn wt (length payload) @ payload"

lemma record_header_not_Nil [simp]: "record_header fn wt n \<noteq> []"
  by (simp add: record_header_def)

lemma ReadWireTag_header:
  assumes "i_wf (r_stream r)" "avail (r_stream r) = record_header fn wt n @ rest"
    "unat fn < 2 ^ 61" "n < 2 ^ 64" "wt = kVarint \<or> wt = kLengthDelimited"
  shows "ReadWireTag r =
    Some (True, r\<lparr>r_stream := i_skip (length (record_header fn wt n)) (r_stream r),
                  r_wire_type := wire_code wt, r_field_number := fn,
                  r_field_size := (if wt = kLengthDelimited then n else 0)\<rparr>)"
proof -
  let ?s = "r_stream r" and ?tag = "wire_tag fn wt"
  have t: "DecodeVarint ?s = Some (Some ?tag, i_skip (length (varint ?tag)) ?s)"
    using assms(1,2) by (intro DecodeVarint_varint) (auto simp: record_header_def)
  have f: "uint (?tag AND 0x7) = wire_code wt" "drop_bit 3 ?tag = fn"
    by (simp_all only: wire_tag_type wire_tag_number [OF assms(3)])
  show ?thesis
  proof (cases "wt = kLengthDelimited")
    case True
    have "DecodeVarint (i_skip (length (varint ?tag)) ?s) = Some (Some (of_nat n),
        i_skip (length (varint (of_nat n))) (i_skip (length (varint ?tag)) ?s))"
      using assms(1,2) True by (intro DecodeVarint_varint) (auto simp: record_header_def i_wf_skip)
    moreover have "unat (of_nat n :: u64) = n"
      using assms(4) by (simp add: unat_of_nat take_bit_nat_eq_self)
    ultimately show ?thesis using True t f assms(4)
      by (simp add: ReadWireTag_def record_header_def size_t_bits_def Let_def)
  next
    case False
    then show ?thesis using t f assms(5)
      by (auto simp: ReadWireTag_def record_header_def Let_def)
  qed
qed

lemma ReadWireTag_safe:
  assumes "i_wf (r_stream r)"
  shows "\<exists>ok r'. ReadWireTag r = Some (ok, r') \<and> i_same (r_stream r) (r_stream r') \<and>
           (ok \<longrightarrow> i_reads (r_stream r) (r_stream r'))"
proof -
  obtain v s where v: "DecodeVarint (r_stream r) = Some (v, s)" "i_same (r_stream r) s"
      "v \<noteq> None \<longrightarrow> i_reads (r_stream r) s"
    using DecodeVarint_safe [OF assms] by blast
  obtain v' s' where v': "DecodeVarint s = Some (v', s')" "i_same s s'" "v' \<noteq> None \<longrightarrow> i_reads s s'"
    using DecodeVarint_safe [of s] v(2) by (auto simp: i_same_def)
  have "i_same (r_stream r) s'" using v(2) v'(2) by (rule i_same_trans)
  moreover have "v \<noteq> None \<Longrightarrow> v' \<noteq> None \<Longrightarrow> i_reads (r_stream r) s'"
    using v(3) v'(3) by (auto intro: i_reads_moves_trans i_reads_moves)
  ultimately show ?thesis using v v'
    by (cases v; cases v') (auto simp: ReadWireTag_def Let_def)
qed

lemma SkipField_safe:
  assumes "i_wf (r_stream r)"
  shows "\<exists>ok r'. SkipField r = Some (ok, r') \<and> i_same (r_stream r) (r_stream r') \<and>
           (ok \<longrightarrow> i_moves (r_stream r) (r_stream r'))"
proof -
  obtain v s where v: "DecodeVarint (r_stream r) = Some (v, s)" "i_same (r_stream r) s"
      "v \<noteq> None \<longrightarrow> i_reads (r_stream r) s"
    using DecodeVarint_safe [OF assms] by blast
  have "\<exists>ok s'. ISkip n (r_stream r) = Some (ok, s') \<and> i_same (r_stream r) s' \<and>
          (ok \<longrightarrow> i_moves (r_stream r) s')" for n
    using ISkip_enough [OF assms, of n] ISkip_short [OF assms, of n] i_same_skip [OF assms, of n]
    by (cases "n \<le> length (avail (r_stream r))") (auto intro: i_movesI)
  then obtain ok s' where k: "ISkip (r_field_size r) (r_stream r) = Some (ok, s')"
      "i_same (r_stream r) s'" "ok \<longrightarrow> i_moves (r_stream r) s'"
    by blast
  have "i_same (r_stream r) (r_stream r)" using assms by (simp add: i_same_def)
  then show ?thesis using v k
    by (cases "r_wire_type r = wire_code kVarint"; cases "r_field_size r > 0")
       (auto simp: SkipField_def i_reads_moves i_moves_refl)
qed

section \<open>Writers\<close>

text \<open>The writer-level form of \<open>o_writes\<close>; what is written depends on the field number set in the
  writer.\<close>

definition w_writes ::
  "allocator \<Rightarrow> (ProtoWriter \<Rightarrow> (bool \<times> ProtoWriter) option) \<Rightarrow> (u64 \<Rightarrow> byte list) \<Rightarrow> bool" where
  "w_writes al f bs \<longleftrightarrow>
     (\<forall>w. o_wf (w_stream w) \<longrightarrow>
        (\<exists>ok w'. f w = Some (ok, w') \<and> o_wf (w_stream w') \<and>
           (ok \<longrightarrow> o_emits (w_stream w) (bs (w_field_number w)) (w_stream w')) \<and>
           (o_room al (w_stream w) (length (bs (w_field_number w))) \<longrightarrow> ok)))"

definition w_keeps :: "(ProtoWriter \<Rightarrow> (bool \<times> ProtoWriter) option) \<Rightarrow> bool" where
  "w_keeps f \<longleftrightarrow> (\<forall>w ok w'. f w = Some (ok, w') \<longrightarrow> w_field_number w' = w_field_number w)"

lemma on_stream_writes: "o_writes al f bs \<Longrightarrow> w_writes al (on_stream f) (\<lambda>_. bs)"
  unfolding w_writes_def
proof (intro allI impI)
  fix w :: ProtoWriter
  assume "o_writes al f bs" "o_wf (w_stream w)"
  then obtain ok s' where "f (w_stream w) = Some (ok, s')" "o_wf s'"
      "ok \<longrightarrow> o_emits (w_stream w) bs s'" "o_room al (w_stream w) (length bs) \<longrightarrow> ok"
    unfolding o_writes_def by blast
  then show "\<exists>ok w'. on_stream f w = Some (ok, w') \<and> o_wf (w_stream w') \<and>
      (ok \<longrightarrow> o_emits (w_stream w) bs (w_stream w')) \<and>
      (o_room al (w_stream w) (length bs) \<longrightarrow> ok)"
    by (simp add: on_stream_def)
qed

lemma on_stream_keeps: "w_keeps (on_stream f)"
  by (auto simp: w_keeps_def on_stream_def split: bind_splits)

lemma then_w_keeps: "w_keeps f \<Longrightarrow> w_keeps g \<Longrightarrow> w_keeps (then_w f g)"
  by (auto simp: w_keeps_def then_w_def split: bind_splits if_splits)

lemma w_writes_then:
  assumes f: "w_writes al f bs" "w_keeps f" and g: "w_writes al g cs"
  shows "w_writes al (then_w f g) (\<lambda>fn. bs fn @ cs fn)"
  unfolding w_writes_def
proof (intro allI impI)
  fix w :: ProtoWriter
  assume "o_wf (w_stream w)"
  then obtain ok w' where f1: "f w = Some (ok, w')" "o_wf (w_stream w')"
      "ok \<longrightarrow> o_emits (w_stream w) (bs (w_field_number w)) (w_stream w')"
      "o_room al (w_stream w) (length (bs (w_field_number w))) \<longrightarrow> ok"
    using f(1) unfolding w_writes_def by blast
  have k: "w_field_number w' = w_field_number w" using f(2) f1(1) by (simp add: w_keeps_def)
  obtain ok' w'' where g1: "g w' = Some (ok', w'')" "o_wf (w_stream w'')"
      "ok' \<longrightarrow> o_emits (w_stream w') (cs (w_field_number w)) (w_stream w'')"
      "o_room al (w_stream w') (length (cs (w_field_number w))) \<longrightarrow> ok'"
    using g f1(2) unfolding w_writes_def k [symmetric] by blast
  have r: "o_room al (w_stream w) (length (bs (w_field_number w) @ cs (w_field_number w))) \<Longrightarrow> ok \<and> ok'"
    using f1(3,4) g1(4) o_room_emits [of "w_stream w" "bs (w_field_number w)" "w_stream w'" al]
      o_room_mono [of al "w_stream w" _ "length (bs (w_field_number w))"] by auto
  show "\<exists>ok2 w2. then_w f g w = Some (ok2, w2) \<and> o_wf (w_stream w2) \<and>
      (ok2 \<longrightarrow> o_emits (w_stream w) (bs (w_field_number w) @ cs (w_field_number w)) (w_stream w2)) \<and>
      (o_room al (w_stream w) (length (bs (w_field_number w) @ cs (w_field_number w))) \<longrightarrow> ok2)"
    using f1 g1 r by (cases ok) (auto simp: then_w_def intro: o_emits_trans)
qed

lemma WriteWireTag_writes: "w_writes al (WriteWireTag al wt) (\<lambda>fn. varint (wire_tag fn wt))"
proof -
  have "w_writes al (on_stream (EncodeVarint al (wire_tag fn wt))) (\<lambda>_. varint (wire_tag fn wt))" for fn
    by (intro on_stream_writes EncodeVarint_writes)
  then show ?thesis by (simp add: w_writes_def WriteWireTag_def wire_tag_def)
qed

lemma WriteWireTag_keeps: "w_keeps (WriteWireTag al wt)"
  using on_stream_keeps by (simp add: w_keeps_def WriteWireTag_def)

lemmas writer_keeps = then_w_keeps WriteWireTag_keeps on_stream_keeps

lemma WriteVarint_writes:
  "w_writes al (WriteVarint al v) (\<lambda>fn. record_bytes fn kVarint (varint v))"
  using w_writes_then [OF WriteWireTag_writes WriteWireTag_keeps
      on_stream_writes [OF EncodeVarint_writes], of al kVarint v]
  by (simp add: WriteVarint_def record_bytes_def record_header_def)

lemma WriteLengthHeader_writes:
  "w_writes al (WriteLengthHeader al n) (\<lambda>fn. record_header fn kLengthDelimited n)"
  using w_writes_then [OF WriteWireTag_writes WriteWireTag_keeps
      on_stream_writes [OF EncodeVarint_writes], of al kLengthDelimited "of_nat n"]
  by (simp add: WriteLengthHeader_def record_header_def)

lemma WriteLengthDelimited_writes:
  "w_writes al (WriteLengthDelimited al bs) (\<lambda>fn. record_bytes fn kLengthDelimited bs)"
  using w_writes_then [OF WriteLengthHeader_writes [of al "length bs"] _
      on_stream_writes [OF OWrite_writes [of al bs]]]
  by (simp add: WriteLengthDelimited_def WriteLengthHeader_def record_bytes_def writer_keeps)

lemma WriteVarint_keeps: "w_keeps (WriteVarint al v)"
  and WriteLengthHeader_keeps: "w_keeps (WriteLengthHeader al n)"
  and WriteLengthDelimited_keeps: "w_keeps (WriteLengthDelimited al bs)"
  unfolding WriteVarint_def WriteLengthHeader_def WriteLengthDelimited_def
  by (intro writer_keeps)+

end
