(* ===== verification/Nvram_Codec.thy ===== *)
theory Nvram_Codec
  imports Nvram_Wire
begin

text \<open>
  The table-driven protobuf codec: \<open>MessageEncoderBase\<close> and \<open>MessageDecoderBase\<close> of
  \<^verbatim>\<open>src/nvram/messages/message_codec.cpp\<close> and the \<open>Codec\<close> templates of
  \<^verbatim>\<open>proto.hpp\<close>. A \<open>Codec<Type>\<close> specialisation is a value of the record
  \<open>Codec\<close>; a descriptor table is a list of \<open>FieldDescriptor\<close> records over the struct type,
  which takes the place of the \<open>void*\<close> object.
\<close>

section \<open>Descriptors, encoder and decoder\<close>

record 'a FieldDescriptor =
  field_number :: u32
  wire_type :: WireType
  encode_function :: "allocator \<Rightarrow> 'a \<Rightarrow> ProtoWriter \<Rightarrow> (bool \<times> ProtoWriter) option"
  decode_function :: "allocator \<Rightarrow> 'a \<Rightarrow> ProtoReader \<Rightarrow> (bool \<times> 'a \<times> ProtoReader) option"

fun EncodeData ::
  "allocator \<Rightarrow> 'a FieldDescriptor list \<Rightarrow> 'a \<Rightarrow> ProtoWriter \<Rightarrow> (bool \<times> ProtoWriter) option" where
  "EncodeData al [] x w = Some (True, w)"
| "EncodeData al (desc # descs) x w =
     do { (ok, w') \<leftarrow> encode_function desc al x (w\<lparr>w_field_number := ucast (field_number desc)\<rparr>);
          if \<not> ok then Some (False, w') else EncodeData al descs x w' }"

definition GetSize :: "allocator \<Rightarrow> 'a FieldDescriptor list \<Rightarrow> 'a \<Rightarrow> nat option" where
  "GetSize al descs x =
     do { (ok, w) \<leftarrow> EncodeData al descs x (new_ProtoWriter (OCounting 0 0));
          Some (if ok then bytes_written (w_stream w) else 0) }"

definition MessageEncode ::
  "allocator \<Rightarrow> 'a FieldDescriptor list \<Rightarrow> 'a \<Rightarrow> ProtoWriter \<Rightarrow> (bool \<times> ProtoWriter) option" where
  "MessageEncode al descs x w =
     do { n \<leftarrow> GetSize al descs x;
          then_w (WriteLengthHeader al n) (EncodeData al descs x) w }"

definition FindDescriptor :: "'a FieldDescriptor list \<Rightarrow> ProtoReader \<Rightarrow> 'a FieldDescriptor option" where
  "FindDescriptor descs r =
     find (\<lambda>desc. r_field_number r = ucast (field_number desc) \<and>
                  r_wire_type r = wire_code (wire_type desc)) descs"

text \<open>
  One turn of the loop of \<open>DecodeData\<close>: \<open>Inl\<close> is a \<open>return\<close> or the end of the loop,
  \<open>Inr\<close> the state the next turn starts from.
\<close>

definition DecodeData_turn ::
  "allocator \<Rightarrow> 'a FieldDescriptor list \<Rightarrow> 'a \<Rightarrow> ProtoReader \<Rightarrow>
   ((bool \<times> 'a \<times> ProtoReader) + ('a \<times> ProtoReader)) option" where
  "DecodeData_turn al descs x r =
     do { (done, r) \<leftarrow> r_Done r;
          if done then Some (Inl (True, x, r))
          else do { (ok, r) \<leftarrow> ReadWireTag r;
                    if \<not> ok then Some (Inl (False, x, r))
                    else (case FindDescriptor descs r of
                        Some desc \<Rightarrow>
                          do { (ok, x, r) \<leftarrow> decode_function desc al x r;
                               Some (if \<not> ok then Inl (False, x, r) else Inr (x, r)) }
                      | None \<Rightarrow>
                          do { (ok, r) \<leftarrow> SkipField r;
                               Some (if \<not> ok then Inl (False, x, r) else Inr (x, r)) }) } }"

text \<open>
  The loop. The first argument bounds the number of turns; every turn that goes on consumes at
  least the tag it reads, so one turn more than there are bytes left is enough
  (\<open>decode_fuel\<close>). Running out is \<^term>\<open>None\<close>, like a crash.
\<close>

fun DecodeData_loop ::
  "nat \<Rightarrow> allocator \<Rightarrow> 'a FieldDescriptor list \<Rightarrow> 'a \<Rightarrow> ProtoReader \<Rightarrow>
   (bool \<times> 'a \<times> ProtoReader) option" where
  "DecodeData_loop 0 al descs x r = None"
| "DecodeData_loop (Suc fuel) al descs x r =
     (case DecodeData_turn al descs x r of
        None \<Rightarrow> None
      | Some (Inl res) \<Rightarrow> Some res
      | Some (Inr (x', r')) \<Rightarrow> DecodeData_loop fuel al descs x' r')"

definition decode_fuel :: "ProtoReader \<Rightarrow> nat" where
  "decode_fuel r = i_end (r_stream r) - i_pos (r_stream r) + 1"

definition DecodeData ::
  "allocator \<Rightarrow> 'a FieldDescriptor list \<Rightarrow> 'a \<Rightarrow> ProtoReader \<Rightarrow>
   (bool \<times> 'a \<times> ProtoReader) option" where
  "DecodeData al descs x r = DecodeData_loop (decode_fuel r) al descs x r"

definition MessageDecode ::
  "allocator \<Rightarrow> 'a FieldDescriptor list \<Rightarrow> 'a \<Rightarrow> ProtoReader \<Rightarrow>
   (bool \<times> 'a \<times> ProtoReader) option" where
  "MessageDecode al descs x r =
     do { nested \<leftarrow> new_NestedInputStreamBuffer (r_stream r) (r_field_size r);
          (ok, x', nr) \<leftarrow> DecodeData al descs x (new_ProtoReader nested);
          if \<not> ok then Some (False, x', r\<lparr>r_stream := i_delegate (r_stream nr)\<rparr>)
          else do { (done, nr) \<leftarrow> r_Done nr;
                    Some (done, x', r\<lparr>r_stream := i_delegate (r_stream nr)\<rparr>) } }"

section \<open>Codecs\<close>

record 'f Codec =
  c_wire_type :: WireType
  c_encode :: "allocator \<Rightarrow> 'f \<Rightarrow> ProtoWriter \<Rightarrow> (bool \<times> ProtoWriter) option"
  c_decode :: "allocator \<Rightarrow> 'f \<Rightarrow> ProtoReader \<Rightarrow> (bool \<times> 'f \<times> ProtoReader) option"

definition BlobDecode :: "allocator \<Rightarrow> blob \<Rightarrow> ProtoReader \<Rightarrow> (bool \<times> blob \<times> ProtoReader) option" where
  "BlobDecode al b r =
     (case Blob_Resize al (r_field_size r) b of
        (False, b') \<Rightarrow> Some (False, b', r)
      | (True, b') \<Rightarrow>
          do { (ok, data, r') \<leftarrow> ReadLengthDelimited (length b') r;
               Some (ok, memcpy_at 0 data b', r') })"

definition BlobCodec :: "blob Codec" where
  "BlobCodec = \<lparr>c_wire_type = kLengthDelimited, c_encode = WriteLengthDelimited,
                c_decode = BlobDecode\<rparr>"

text \<open>Varint-compatible types: \<open>to_raw\<close> and \<open>from_raw\<close> are the two \<open>static_cast\<close>s.\<close>

definition VarintDecode ::
  "('f \<Rightarrow> u64) \<Rightarrow> (u64 \<Rightarrow> 'f) \<Rightarrow> allocator \<Rightarrow> 'f \<Rightarrow> ProtoReader \<Rightarrow> (bool \<times> 'f \<times> ProtoReader) option" where
  "VarintDecode to_raw from_raw al v r =
     do { (raw, r') \<leftarrow> ReadVarint r;
          case raw of
            None \<Rightarrow> Some (False, v, r')
          | Some raw_value \<Rightarrow> Some (to_raw (from_raw raw_value) = raw_value, from_raw raw_value, r') }"

definition VarintCodec :: "('f \<Rightarrow> u64) \<Rightarrow> (u64 \<Rightarrow> 'f) \<Rightarrow> 'f Codec" where
  "VarintCodec to_raw from_raw =
     \<lparr>c_wire_type = kVarint, c_encode = (\<lambda>al v. WriteVarint al (to_raw v)),
      c_decode = VarintDecode to_raw from_raw\<rparr>"

definition U32Codec :: "u32 Codec" where "U32Codec = VarintCodec ucast ucast"
definition U64Codec :: "u64 Codec" where "U64Codec = VarintCodec id id"
definition BoolCodec :: "bool Codec" where "BoolCodec = VarintCodec of_bool (\<lambda>v. v \<noteq> 0)"

text \<open>
  A vector is represented here by its elements: the decoder only ever grows a fresh vector by one,
  so the capacity is a function of the size (\<open>Vector_Resize_grow\<close> of \<open>Nvram_Containers\<close>).
  \<open>esize\<close> is the size of an element and \<open>fresh\<close> a newly constructed one.
\<close>

fun VectorEncode ::
  "'f Codec \<Rightarrow> allocator \<Rightarrow> 'f list \<Rightarrow> ProtoWriter \<Rightarrow> (bool \<times> ProtoWriter) option" where
  "VectorEncode c al [] w = Some (True, w)"
| "VectorEncode c al (elem # elems) w =
     do { (ok, w') \<leftarrow> c_encode c al elem w;
          if \<not> ok then Some (False, w') else VectorEncode c al elems w' }"

definition VectorDecode ::
  "'f Codec \<Rightarrow> nat \<Rightarrow> 'f \<Rightarrow> allocator \<Rightarrow> 'f list \<Rightarrow> ProtoReader \<Rightarrow> (bool \<times> 'f list \<times> ProtoReader) option" where
  "VectorDecode c esize fresh al vs r =
     (if grow_fails al esize (length vs) then Some (False, vs, r)
      else do { (ok, v, r') \<leftarrow> c_decode c al fresh r; Some (ok, vs @ [v], r') })"

definition VectorCodec :: "'f Codec \<Rightarrow> nat \<Rightarrow> 'f \<Rightarrow> 'f list Codec" where
  "VectorCodec c esize fresh =
     \<lparr>c_wire_type = c_wire_type c, c_encode = VectorEncode c, c_decode = VectorDecode c esize fresh\<rparr>"

definition OptionalEncode ::
  "'f Codec \<Rightarrow> allocator \<Rightarrow> 'f option \<Rightarrow> ProtoWriter \<Rightarrow> (bool \<times> ProtoWriter) option" where
  "OptionalEncode c al v w = (case v of None \<Rightarrow> Some (True, w) | Some value \<Rightarrow> c_encode c al value w)"

definition OptionalDecode ::
  "'f Codec \<Rightarrow> 'f \<Rightarrow> allocator \<Rightarrow> 'f option \<Rightarrow> ProtoReader \<Rightarrow> (bool \<times> 'f option \<times> ProtoReader) option" where
  "OptionalDecode c fresh al v r =
     do { (ok, value, r') \<leftarrow> c_decode c al fresh r; Some (ok, Some value, r') }"

definition OptionalCodec :: "'f Codec \<Rightarrow> 'f \<Rightarrow> 'f option Codec" where
  "OptionalCodec c fresh =
     \<lparr>c_wire_type = c_wire_type c, c_encode = OptionalEncode c, c_decode = OptionalDecode c fresh\<rparr>"

definition StructCodec :: "'a FieldDescriptor list \<Rightarrow> 'a Codec" where
  "StructCodec descs =
     \<lparr>c_wire_type = kLengthDelimited, c_encode = (\<lambda>al. MessageEncode al descs),
      c_decode = (\<lambda>al. MessageDecode al descs)\<rparr>"

text \<open>\<open>MakeField\<close>: a descriptor for a struct member, given by its selector and its update.\<close>

definition MakeField :: "u32 \<Rightarrow> 'f Codec \<Rightarrow> ('a \<Rightarrow> 'f) \<Rightarrow> ('f \<Rightarrow> 'a \<Rightarrow> 'a) \<Rightarrow> 'a FieldDescriptor" where
  "MakeField number c sel upd =
     \<lparr>field_number = number, wire_type = c_wire_type c,
      encode_function = (\<lambda>al x. c_encode c al (sel x)),
      decode_function = (\<lambda>al x r. do { (ok, v, r') \<leftarrow> c_decode c al (sel x) r;
                                       Some (ok, upd v x, r') })\<rparr>"

text \<open>
  \<open>MakeOneOfField\<close>: a member of a tagged union. \<open>proj\<close> is \<open>TaggedUnion::get\<close> for the tag,
  \<open>put\<close> puts the activated and decoded member into the struct, \<open>fresh\<close> is the
  value-initialised member that \<open>Activate\<close> leaves.
\<close>

definition MakeOneOfField ::
  "u32 \<Rightarrow> 'm Codec \<Rightarrow> 'm \<Rightarrow> ('a \<Rightarrow> 'm option) \<Rightarrow> ('m \<Rightarrow> 'a \<Rightarrow> 'a) \<Rightarrow> 'a FieldDescriptor" where
  "MakeOneOfField number c fresh proj put =
     \<lparr>field_number = number, wire_type = c_wire_type c,
      encode_function = (\<lambda>al x w. case proj x of None \<Rightarrow> Some (True, w)
                                  | Some m \<Rightarrow> c_encode c al m w),
      decode_function = (\<lambda>al x r. do { (ok, m, r') \<leftarrow> c_decode c al fresh r;
                                       Some (ok, put m x, r') })\<rparr>"

text \<open>The compile-time check on descriptor tables.\<close>

fun CheckFieldNumbersAscending :: "'a FieldDescriptor list \<Rightarrow> u32 \<Rightarrow> bool" where
  "CheckFieldNumbersAscending [] prev \<longleftrightarrow> True"
| "CheckFieldNumbersAscending (d # ds) prev \<longleftrightarrow>
     field_number d > prev \<and> CheckFieldNumbersAscending ds (field_number d)"

end
