(* ===== verification/Nvram_Roundtrip.thy ===== *)
theory Nvram_Roundtrip
  imports Nvram_Codec
begin

text \<open>
  What a \<open>Codec\<close> promises, as locales, and what follows for descriptor tables.

  \<open>safe_codec\<close> is the contract for arbitrary input: decoding a field of the codec's wire type
  never crashes and on success only moves the reader forward. \<open>wire_codec\<close> is the round-trip
  contract: the value is written as a sequence of records, and decoding these records one by one
  from a fresh value rebuilds it. \<open>struct_table\<close> is a descriptor table all of whose fields obey
  these contracts; it yields both contracts for the struct.
\<close>

section \<open>Contracts of a codec\<close>

text \<open>
  The codec of a struct reads through a nested stream. The repository nests at most once, and the
  contract says so: a codec with \<open>deep\<close> works on every stream, one without it on the plain
  \<open>InputStreamBuffer\<close> of a top-level message.
\<close>

definition stream_ok :: "bool \<Rightarrow> istream \<Rightarrow> bool" where
  "stream_ok deep s \<longleftrightarrow> deep \<or> is_InputStreamBuffer s"

lemma stream_ok_True [simp]: "stream_ok True s"
  by (simp add: stream_ok_def)

lemma stream_ok_moves: "i_moves s s' \<Longrightarrow> stream_ok deep s' = stream_ok deep s"
  by (simp add: stream_ok_def is_InputStreamBuffer_moves)

locale safe_codec =
  fixes c :: "'f Codec" and deep :: bool
  assumes wire_types: "c_wire_type c = kVarint \<or> c_wire_type c = kLengthDelimited"
    and decode_safe: "i_wf (r_stream r) \<Longrightarrow> stream_ok deep (r_stream r) \<Longrightarrow> r_wire_type r = wire_code (c_wire_type c) \<Longrightarrow>
      \<exists>ok v' r'. c_decode c al v r = Some (ok, v', r') \<and> i_same (r_stream r) (r_stream r') \<and>
        (ok \<longrightarrow> i_moves (r_stream r) (r_stream r'))"

text \<open>
  \<open>recs v\<close> are the payloads of the records that encode \<open>v\<close>, \<open>after v k\<close> the value the decoder
  holds after \<open>k\<close> of them.
\<close>

definition field_bytes :: "u64 \<Rightarrow> WireType \<Rightarrow> byte list list \<Rightarrow> byte list" where
  "field_bytes fn wt ps = concat (map (record_bytes fn wt) ps)"

definition small_payloads :: "byte list list \<Rightarrow> bool" where
  "small_payloads ps \<longleftrightarrow> (\<forall>p \<in> set ps. length p < 2 ^ 64)"

definition at_payload :: "WireType \<Rightarrow> byte list \<Rightarrow> ProtoReader \<Rightarrow> bool" where
  "at_payload wt p r \<longleftrightarrow>
     i_wf (r_stream r) \<and> r_wire_type r = wire_code wt \<and>
     r_field_size r = (if wt = kLengthDelimited then length p else 0) \<and>
     (\<exists>rest. avail (r_stream r) = p @ rest)"

definition past_payload :: "byte list \<Rightarrow> ProtoReader \<Rightarrow> ProtoReader" where
  "past_payload p r = r\<lparr>r_stream := i_skip (length p) (r_stream r)\<rparr>"

locale wire_codec = safe_codec c deep for c :: "'f Codec" and deep :: bool +
  fixes recs :: "'f \<Rightarrow> byte list list" and after :: "'f \<Rightarrow> nat \<Rightarrow> 'f" and fresh :: 'f
  assumes encode_writes: "w_writes al (c_encode c al v) (\<lambda>fn. field_bytes fn (c_wire_type c) (recs v))"
    and after_0: "after v 0 = fresh"
    and after_all: "after v (length (recs v)) = v"
    and decode_next: "alloc_total al \<Longrightarrow> small_payloads (recs v) \<Longrightarrow> k < length (recs v) \<Longrightarrow>
      at_payload (c_wire_type c) (recs v ! k) r \<Longrightarrow>
      c_decode c al (after v k) r = Some (True, after v (Suc k), past_payload (recs v ! k) r)"

lemma at_payload_wf: "at_payload wt p r \<Longrightarrow> i_wf (r_stream r) \<and> length p \<le> length (avail (r_stream r))"
  by (auto simp: at_payload_def)

lemma field_bytes_single [simp]: "field_bytes fn wt [p] = record_bytes fn wt p"
  and field_bytes_Nil [simp]: "field_bytes fn wt [] = []"
  and field_bytes_Cons: "field_bytes fn wt (p # ps) = record_bytes fn wt p @ field_bytes fn wt ps"
  by (simp_all add: field_bytes_def)

section \<open>The scalar codecs\<close>

lemma ReadVarint_at:
  "at_payload kVarint (varint v) r \<Longrightarrow> ReadVarint r = Some (Some v, past_payload (varint v) r)"
  by (auto simp: at_payload_def ReadVarint_def past_payload_def dest: DecodeVarint_varint)

lemma ReadVarint_safe:
  assumes "i_wf (r_stream r)" "r_wire_type r = wire_code kVarint"
  shows "\<exists>v r'. ReadVarint r = Some (v, r') \<and> i_same (r_stream r) (r_stream r') \<and>
    (v \<noteq> None \<longrightarrow> i_moves (r_stream r) (r_stream r'))"
  using DecodeVarint_safe [OF assms(1)] assms(2) by (auto simp: ReadVarint_def intro: i_reads_moves)

lemma ReadLengthDelimited_safe:
  assumes "i_wf (r_stream r)" "r_wire_type r = wire_code kLengthDelimited"
  shows "\<exists>ok d r'. ReadLengthDelimited n r = Some (ok, d, r') \<and> i_same (r_stream r) (r_stream r') \<and>
    (ok \<longrightarrow> i_moves (r_stream r) (r_stream r'))"
  using IRead_enough [OF assms(1), of n] IRead_short [OF assms(1), of n] assms i_same_skip
  by (cases "n \<le> length (avail (r_stream r))") (auto simp: ReadLengthDelimited_def intro: i_movesI)

lemma VarintCodec_wire:
  assumes "\<And>v. from_raw (to_raw v) = v"
  shows "wire_codec (VarintCodec to_raw from_raw) True (\<lambda>v. [varint (to_raw v)])
           (\<lambda>v k. if k = 0 then fresh else v) fresh"
proof (unfold_locales, goal_cases)
  case (2 r al v)
  then obtain raw r' where "ReadVarint r = Some (raw, r')" "i_same (r_stream r) (r_stream r')"
      "raw \<noteq> None \<longrightarrow> i_moves (r_stream r) (r_stream r')"
    using ReadVarint_safe [of r] by (auto simp: VarintCodec_def)
  then show ?case by (cases raw) (auto simp: VarintCodec_def VarintDecode_def)
next
  case (6 al v k r)
  then show ?case
    by (simp add: VarintCodec_def VarintDecode_def ReadVarint_at assms)
qed (simp_all add: VarintCodec_def WriteVarint_writes)

lemma BlobCodec_wire: "wire_codec BlobCodec True (\<lambda>v. [v]) (\<lambda>v k. if k = 0 then [] else v) []"
proof (unfold_locales, goal_cases)
  case (2 r al v)
  obtain ok b where b: "Blob_Resize al (r_field_size r) v = (ok, b)" by fastforce
  obtain ok' d r' where "ReadLengthDelimited (length b) r = Some (ok', d, r')"
      "i_same (r_stream r) (r_stream r')" "ok' \<longrightarrow> i_moves (r_stream r) (r_stream r')"
    using ReadLengthDelimited_safe [of r "length b"] 2 by (auto simp: BlobCodec_def)
  then show ?case using b 2
    by (cases ok) (auto simp: BlobCodec_def BlobDecode_def i_same_def)
next
  case (6 al v k r)
  then have "IRead (length v) (r_stream r) = Some (True, v, i_skip (length v) (r_stream r))"
    using IRead_enough [of "r_stream r" "length v"] by (auto simp: at_payload_def BlobCodec_def)
  then show ?case using 6
    by (simp add: BlobCodec_def BlobDecode_def at_payload_def Blob_Resize_total past_payload_def
        ReadLengthDelimited_def memcpy_at_def)
qed (simp_all add: BlobCodec_def WriteLengthDelimited_writes)

interpretation u32_codec: wire_codec U32Codec True "\<lambda>v. [varint (ucast v)]"
    "\<lambda>v k. if k = 0 then 0 else v" 0
  unfolding U32Codec_def by (rule VarintCodec_wire) (rule ucast_u32_u64)

interpretation u64_codec: wire_codec U64Codec True "\<lambda>v. [varint v]" "\<lambda>v k. if k = 0 then 0 else v" 0
  unfolding U64Codec_def by (rule VarintCodec_wire [where to_raw = id, simplified]) simp

interpretation bool_codec: wire_codec BoolCodec True "\<lambda>v. [varint (of_bool v)]"
    "\<lambda>v k. if k = 0 then False else v" False
  unfolding BoolCodec_def by (rule VarintCodec_wire) simp

interpretation blob_codec: wire_codec BlobCodec True "\<lambda>v. [v]" "\<lambda>v k. if k = 0 then [] else v" "[]"
  by (rule BlobCodec_wire)

section \<open>Vectors and optional values of scalars\<close>

text \<open>A scalar codec writes one record and leaves the writer's field number alone.\<close>

locale scalar_codec =
  wire_codec c True "\<lambda>v. [payload v]" "\<lambda>v k. if k = 0 then fresh else v" fresh
  for c :: "'f Codec" and payload :: "'f \<Rightarrow> byte list" and fresh :: 'f +
  assumes encode_keeps: "w_keeps (c_encode c al v)"

lemma w_writes_nothing: "w_writes al (\<lambda>w. Some (True, w)) (\<lambda>_. [])"
  by (auto simp: w_writes_def o_emits_refl)

lemma small_payloads_Cons: "small_payloads (p # ps) \<longleftrightarrow> length p < 2 ^ 64 \<and> small_payloads ps"
  and small_payloads_Nil [simp]: "small_payloads []"
  by (simp_all add: small_payloads_def)

context scalar_codec
begin

lemma decode_fresh:
  "alloc_total al \<Longrightarrow> small_payloads [payload v] \<Longrightarrow> at_payload (c_wire_type c) (payload v) r \<Longrightarrow>
   c_decode c al fresh r = Some (True, v, past_payload (payload v) r)"
  using decode_next [of al v 0 r] by simp

lemma VectorEncode_writes:
  "w_writes al (VectorEncode c al vs) (\<lambda>fn. field_bytes fn (c_wire_type c) (map payload vs))"
proof (induction vs)
  case Nil
  have "VectorEncode c al [] = (\<lambda>w. Some (True, w))" by (intro ext) simp
  then show ?case by (simp add: w_writes_nothing)
next
  case (Cons v vs)
  have "VectorEncode c al (v # vs) = then_w (c_encode c al v) (VectorEncode c al vs)"
    by (intro ext) (auto simp: then_w_def split: bind_splits)
  then show ?case
    using w_writes_then [OF encode_writes [of al v] encode_keeps Cons.IH]
    by (simp add: field_bytes_Cons)
qed

lemma vector_wire: "wire_codec (VectorCodec c esize fresh) True (map payload) (\<lambda>vs k. take k vs) []"
proof (unfold_locales, goal_cases)
  case (2 r al vs)
  then show ?case using decode_safe [of r al fresh]
    by (cases "grow_fails al esize (length vs)")
       (auto simp: VectorCodec_def VectorDecode_def i_same_def)
next
  case (3 al vs)
  then show ?case by (simp add: VectorCodec_def VectorEncode_writes)
next
  case (6 al vs k r)
  then have "small_payloads [payload (vs ! k)]"
    by (auto simp: small_payloads_def)
  then show ?case using 6 decode_fresh [of al "vs ! k" r]
    by (simp add: VectorCodec_def VectorDecode_def take_Suc_conv_app_nth)
qed (use wire_types in \<open>simp_all add: VectorCodec_def\<close>)

lemma optional_wire:
  "wire_codec (OptionalCodec c fresh) True (\<lambda>v. case v of None \<Rightarrow> [] | Some x \<Rightarrow> [payload x])
     (\<lambda>v k. if k = 0 then None else v) None"
proof (unfold_locales, goal_cases)
  case (2 r al v)
  then show ?case using decode_safe [of r al fresh]
    by (auto simp: OptionalCodec_def OptionalDecode_def)
next
  case (3 al v)
  then show ?case using encode_writes w_writes_nothing
    by (auto simp: OptionalCodec_def OptionalEncode_def [abs_def] split: option.splits)
next
  case (6 al v k r)
  then show ?case using decode_fresh [of al _ r]
    by (auto simp: OptionalCodec_def OptionalDecode_def split: option.splits)
qed (use wire_types in \<open>auto simp: OptionalCodec_def split: option.splits\<close>)

end

interpretation u32_scalar: scalar_codec U32Codec "\<lambda>v. varint (ucast v)" 0
  by unfold_locales (simp add: U32Codec_def VarintCodec_def WriteVarint_keeps)

interpretation u32_vector: wire_codec "VectorCodec U32Codec 4 0" True "map (\<lambda>v. varint (ucast v))"
    "\<lambda>vs k. take k vs" "[]"
  by (rule u32_scalar.vector_wire)

interpretation u32_optional: wire_codec "OptionalCodec U32Codec 0" True
    "\<lambda>v. case v of None \<Rightarrow> [] | Some x \<Rightarrow> [varint (ucast x)]" "\<lambda>v k. if k = 0 then None else v" None
  by (rule u32_scalar.optional_wire)

end
