(* ===== verification/Nvram_Tables.thy ===== *)
theory Nvram_Tables
  imports Nvram_Roundtrip
begin

text \<open>
  Descriptor tables. \<open>field_law\<close> is the codec contract at the level of a struct member;
  the locale \<open>struct_table\<close> collects it for all members of a struct and proves, once for all
  messages, that \<open>EncodeData\<close> and \<open>DecodeData\<close> are inverse, that \<open>GetSize\<close> is the
  encoded size, and that \<open>DecodeData\<close> terminates without a crash on arbitrary bytes.
\<close>

section \<open>Contract of a descriptor\<close>

text \<open>
  \<open>fs_recs x\<close> are the payloads written for the member of \<open>x\<close>; \<open>fs_upd x k o\<close> is \<open>o\<close> with the
  member set to what decoding the first \<open>k\<close> of them leaves.
\<close>

record 'a field_spec =
  fs_desc :: "'a FieldDescriptor"
  fs_recs :: "'a \<Rightarrow> byte list list"
  fs_upd :: "'a \<Rightarrow> nat \<Rightarrow> 'a \<Rightarrow> 'a"

definition fs_number :: "'a field_spec \<Rightarrow> u64" where
  "fs_number f = ucast (field_number (fs_desc f))"

definition fs_wire :: "'a field_spec \<Rightarrow> WireType" where
  "fs_wire f = wire_type (fs_desc f)"

definition desc_safe :: "bool \<Rightarrow> 'a FieldDescriptor \<Rightarrow> bool" where
  "desc_safe deep d \<longleftrightarrow>
     (\<forall>al x r. i_wf (r_stream r) \<longrightarrow> stream_ok deep (r_stream r) \<longrightarrow>
        r_wire_type r = wire_code (wire_type d) \<longrightarrow>
        (\<exists>ok x' r'. decode_function d al x r = Some (ok, x', r') \<and>
           i_same (r_stream r) (r_stream r') \<and> (ok \<longrightarrow> i_moves (r_stream r) (r_stream r'))))"

definition field_law :: "bool \<Rightarrow> 'a field_spec \<Rightarrow> bool" where
  "field_law deep f \<longleftrightarrow>
     (fs_wire f = kVarint \<or> fs_wire f = kLengthDelimited) \<and>
     desc_safe deep (fs_desc f) \<and>
     (\<forall>al x.
        w_writes al (encode_function (fs_desc f) al x)
          (\<lambda>fn. field_bytes fn (fs_wire f) (fs_recs f x))) \<and>
     (\<forall>al x k o' r. alloc_total al \<longrightarrow> small_payloads (fs_recs f x) \<longrightarrow> k < length (fs_recs f x) \<longrightarrow>
        at_payload (fs_wire f) (fs_recs f x ! k) r \<longrightarrow>
        decode_function (fs_desc f) al (fs_upd f x k o') r =
          Some (True, fs_upd f x (Suc k) o', past_payload (fs_recs f x ! k) r))"

definition member_spec ::
  "u32 \<Rightarrow> 'f Codec \<Rightarrow> ('f \<Rightarrow> byte list list) \<Rightarrow> ('f \<Rightarrow> nat \<Rightarrow> 'f) \<Rightarrow> ('a \<Rightarrow> 'f) \<Rightarrow> ('f \<Rightarrow> 'a \<Rightarrow> 'a) \<Rightarrow>
   'a field_spec" where
  "member_spec number c recs after sel upd =
     \<lparr>fs_desc = MakeField number c sel upd, fs_recs = (\<lambda>x. recs (sel x)),
      fs_upd = (\<lambda>x k o'. upd (after (sel x) k) o')\<rparr>"

definition oneof_spec ::
  "u32 \<Rightarrow> 'm Codec \<Rightarrow> ('m \<Rightarrow> byte list) \<Rightarrow> 'm \<Rightarrow> ('a \<Rightarrow> 'm option) \<Rightarrow> ('m \<Rightarrow> 'a \<Rightarrow> 'a) \<Rightarrow> 'a field_spec" where
  "oneof_spec number c payload fresh proj put =
     \<lparr>fs_desc = MakeOneOfField number c fresh proj put,
      fs_recs = (\<lambda>x. case proj x of None \<Rightarrow> [] | Some m \<Rightarrow> [payload m]),
      fs_upd = (\<lambda>x k o'. if k = 0 then o' else case proj x of None \<Rightarrow> o' | Some m \<Rightarrow> put m o')\<rparr>"

context wire_codec
begin

lemma member_law:
  assumes "\<And>v x. sel (upd v x) = v" "\<And>u v x. upd v (upd u x) = upd v x"
  shows "field_law deep (member_spec number c recs after sel upd)"
  unfolding field_law_def
proof (intro conjI allI impI)
  show "fs_wire (member_spec number c recs after sel upd) = kVarint \<or>
      fs_wire (member_spec number c recs after sel upd) = kLengthDelimited"
    using wire_types by (simp add: fs_wire_def member_spec_def MakeField_def)
  show "desc_safe deep (fs_desc (member_spec number c recs after sel upd))"
    unfolding desc_safe_def
  proof (intro allI impI)
    fix al x and r :: ProtoReader
    assume "i_wf (r_stream r)" "stream_ok deep (r_stream r)"
      "r_wire_type r = wire_code (wire_type (fs_desc (member_spec number c recs after sel upd)))"
    then obtain ok v' r' where "c_decode c al (sel x) r = Some (ok, v', r')"
        "i_same (r_stream r) (r_stream r')" "ok \<longrightarrow> i_moves (r_stream r) (r_stream r')"
      using decode_safe [of r al "sel x"] by (auto simp: member_spec_def MakeField_def)
    then show "\<exists>ok x' r'. decode_function (fs_desc (member_spec number c recs after sel upd)) al x r =
        Some (ok, x', r') \<and> i_same (r_stream r) (r_stream r') \<and>
        (ok \<longrightarrow> i_moves (r_stream r) (r_stream r'))"
      by (simp add: member_spec_def MakeField_def)
  qed
qed (simp_all add: member_spec_def MakeField_def fs_wire_def encode_writes decode_next assms)

lemma oneof_law:
  assumes "\<And>m. recs m = [payload m]"
  shows "field_law deep (oneof_spec number c payload fresh proj put)"
  unfolding field_law_def
proof (intro conjI allI impI)
  let ?f = "oneof_spec number c payload fresh proj put"
  note oneof_defs = oneof_spec_def MakeOneOfField_def fs_wire_def
  show "fs_wire ?f = kVarint \<or> fs_wire ?f = kLengthDelimited"
    using wire_types by (simp add: oneof_defs)
  show "desc_safe deep (fs_desc ?f)"
    unfolding desc_safe_def
  proof (intro allI impI)
    fix al x and r :: ProtoReader
    assume "i_wf (r_stream r)" "stream_ok deep (r_stream r)"
      "r_wire_type r = wire_code (wire_type (fs_desc ?f))"
    then obtain ok v' r' where "c_decode c al fresh r = Some (ok, v', r')"
        "i_same (r_stream r) (r_stream r')" "ok \<longrightarrow> i_moves (r_stream r) (r_stream r')"
      using decode_safe [of r al fresh] by (auto simp: oneof_defs)
    then show "\<exists>ok x' r'. decode_function (fs_desc ?f) al x r = Some (ok, x', r') \<and>
        i_same (r_stream r) (r_stream r') \<and> (ok \<longrightarrow> i_moves (r_stream r) (r_stream r'))"
      by (simp add: oneof_defs)
  qed
  show "w_writes al (encode_function (fs_desc ?f) al x) (\<lambda>fn. field_bytes fn (fs_wire ?f) (fs_recs ?f x))"
    for al x
    using encode_writes [of al "the (proj x)"] assms w_writes_nothing [of al]
    by (cases "proj x") (simp_all add: oneof_defs)
  show "decode_function (fs_desc ?f) al (fs_upd ?f x k o') r =
      Some (True, fs_upd ?f x (Suc k) o', past_payload (fs_recs ?f x ! k) r)"
    if "alloc_total al" "small_payloads (fs_recs ?f x)" "k < length (fs_recs ?f x)"
      "at_payload (fs_wire ?f) (fs_recs ?f x ! k) r" for al x k o' r
    using that decode_next [of al "the (proj x)" 0 r] after_0 after_all [of "the (proj x)"] assms
    by (cases "proj x") (simp_all add: oneof_defs)
qed

end

section \<open>Encoding a table\<close>

definition msg_bytes :: "'a field_spec list \<Rightarrow> 'a \<Rightarrow> byte list" where
  "msg_bytes fs x = concat (map (\<lambda>f. field_bytes (fs_number f) (fs_wire f) (fs_recs f x)) fs)"

text \<open>Applying all members in order to a fresh struct rebuilds the original.\<close>

fun rebuilds :: "'a field_spec list \<Rightarrow> 'a \<Rightarrow> 'a \<Rightarrow> bool" where
  "rebuilds [] x o' \<longleftrightarrow> o' = x"
| "rebuilds (f # fs) x o' \<longleftrightarrow>
     fs_upd f x 0 o' = o' \<and> rebuilds fs x (fs_upd f x (length (fs_recs f x)) o')"

lemma msg_bytes_Cons:
  "msg_bytes (f # fs) x = field_bytes (fs_number f) (fs_wire f) (fs_recs f x) @ msg_bytes fs x"
  and msg_bytes_Nil [simp]: "msg_bytes [] x = []"
  by (simp_all add: msg_bytes_def)

lemma w_writes_at:
  assumes "w_writes al f bs"
  shows "w_writes al (\<lambda>w. f (w\<lparr>w_field_number := n\<rparr>)) (\<lambda>_. bs n)"
  unfolding w_writes_def
proof (intro allI)
  fix w :: ProtoWriter
  show "o_wf (w_stream w) \<longrightarrow> (\<exists>ok w'. f (w\<lparr>w_field_number := n\<rparr>) = Some (ok, w') \<and>
      o_wf (w_stream w') \<and> (ok \<longrightarrow> o_emits (w_stream w) (bs n) (w_stream w')) \<and>
      (o_room al (w_stream w) (length (bs n)) \<longrightarrow> ok))"
    using assms [unfolded w_writes_def, THEN spec, of "w\<lparr>w_field_number := n\<rparr>"] by simp
qed

lemma EncodeData_writes:
  assumes "\<And>f. f \<in> set fs \<Longrightarrow> field_law deep f"
  shows "w_writes al (EncodeData al (map fs_desc fs) x) (\<lambda>_. msg_bytes fs x)"
  using assms
proof (induction fs)
  case Nil
  have "EncodeData al (map fs_desc []) x = (\<lambda>w. Some (True, w))" by (intro ext) simp
  then show ?case by (simp add: w_writes_nothing)
next
  case (Cons f fs)
  let ?n = "fs_number f" and ?enc = "encode_function (fs_desc f) al x"
  have "w_writes al ?enc (\<lambda>fn. field_bytes fn (fs_wire f) (fs_recs f x))"
    using Cons.prems [of f] by (simp add: field_law_def)
  then have "w_writes al (\<lambda>w. ?enc (w\<lparr>w_field_number := ?n\<rparr>))
      (\<lambda>_. field_bytes ?n (fs_wire f) (fs_recs f x))"
    by (rule w_writes_at)
  note enc = this [unfolded w_writes_def, rule_format]
  have IH: "w_writes al (EncodeData al (map fs_desc fs) x) (\<lambda>_. msg_bytes fs x)"
    using Cons by simp
  show ?case unfolding w_writes_def
  proof (intro allI impI)
    fix w :: ProtoWriter
    assume "o_wf (w_stream w)"
    from enc [OF this] obtain ok w' where e: "?enc (w\<lparr>w_field_number := ?n\<rparr>) = Some (ok, w')"
        "o_wf (w_stream w')" "ok \<longrightarrow> o_emits (w_stream w) (field_bytes ?n (fs_wire f) (fs_recs f x)) (w_stream w')"
        "o_room al (w_stream w) (length (field_bytes ?n (fs_wire f) (fs_recs f x))) \<longrightarrow> ok"
      by blast
    obtain ok' w'' where i: "EncodeData al (map fs_desc fs) x w' = Some (ok', w'')" "o_wf (w_stream w'')"
        "ok' \<longrightarrow> o_emits (w_stream w') (msg_bytes fs x) (w_stream w'')"
        "o_room al (w_stream w') (length (msg_bytes fs x)) \<longrightarrow> ok'"
      using IH e(2) unfolding w_writes_def by blast
    have r: "o_room al (w_stream w) (length (msg_bytes (f # fs) x)) \<Longrightarrow> ok \<and> ok'"
      using e(3,4) i(4) o_room_mono [of al "w_stream w"]
        o_room_emits [of "w_stream w" _ "w_stream w'" al] by (auto simp: msg_bytes_Cons)
    show "\<exists>ok2 w2. EncodeData al (map fs_desc (f # fs)) x w = Some (ok2, w2) \<and> o_wf (w_stream w2) \<and>
        (ok2 \<longrightarrow> o_emits (w_stream w) (msg_bytes (f # fs) x) (w_stream w2)) \<and>
        (o_room al (w_stream w) (length (msg_bytes (f # fs) x)) \<longrightarrow> ok2)"
      using e i r by (cases ok) (auto simp: fs_number_def msg_bytes_Cons intro: o_emits_trans)
  qed
qed

lemma GetSize_msg_bytes:
  assumes "\<And>f. f \<in> set fs \<Longrightarrow> field_law deep f"
  shows "GetSize al (map fs_desc fs) x = Some (length (msg_bytes fs x))"
proof -
  let ?w = "new_ProtoWriter (OCounting 0 0)"
  have "o_wf (w_stream ?w)" by (simp add: new_ProtoWriter_def o_wf_def kScratchSpaceSize_def)
  then obtain ok w' where w': "EncodeData al (map fs_desc fs) x ?w = Some (ok, w')"
      "ok \<longrightarrow> o_emits (w_stream ?w) (msg_bytes fs x) (w_stream w')"
      "o_room al (w_stream ?w) (length (msg_bytes fs x)) \<longrightarrow> ok"
    using EncodeData_writes [of fs deep al x, OF assms] unfolding w_writes_def by blast
  then have "ok" "o_emits (OCounting 0 0) (msg_bytes fs x) (w_stream w')"
    by (simp_all add: new_ProtoWriter_def)
  then show ?thesis using w'(1) by (cases "w_stream w'") (simp_all add: GetSize_def)
qed

lemma MessageEncode_writes:
  assumes "\<And>f. f \<in> set fs \<Longrightarrow> field_law deep f"
  shows "w_writes al (MessageEncode al (map fs_desc fs) x)
           (\<lambda>fn. record_bytes fn kLengthDelimited (msg_bytes fs x))"
proof -
  have "MessageEncode al (map fs_desc fs) x =
      then_w (WriteLengthHeader al (length (msg_bytes fs x))) (EncodeData al (map fs_desc fs) x)"
    by (intro ext) (simp add: MessageEncode_def GetSize_msg_bytes [of fs deep, OF assms])
  then show ?thesis
    using w_writes_then [OF WriteLengthHeader_writes WriteLengthHeader_keeps
        EncodeData_writes [of fs deep al x, OF assms]]
    by (simp add: record_bytes_def)
qed

section \<open>Decoding a table\<close>

lemma CheckFieldNumbersAscending_gt:
  "CheckFieldNumbersAscending ds p \<Longrightarrow> d \<in> set ds \<Longrightarrow> p < field_number d"
  by (induction ds arbitrary: p) (auto intro: less_trans)

lemma FindDescriptor_unique:
  assumes "CheckFieldNumbersAscending ds p" "d \<in> set ds"
    "r_field_number r = ucast (field_number d)" "r_wire_type r = wire_code (wire_type d)"
  shows "FindDescriptor ds r = Some d"
  using assms
proof (induction ds arbitrary: p)
  case (Cons e ds)
  show ?case
  proof (cases "e = d")
    case True
    then show ?thesis using Cons.prems by (simp add: FindDescriptor_def)
  next
    case False
    then have "field_number e < field_number d"
      using Cons.prems CheckFieldNumbersAscending_gt by auto
    then have "ucast (field_number d) \<noteq> (ucast (field_number e) :: u64)"
      by (simp add: inj_ucast_u32_u64)
    then show ?thesis using Cons.IH [of "field_number e"] Cons.prems False
      by (simp add: FindDescriptor_def)
  qed
qed simp

lemma unat_ucast_u32_less: "unat (ucast (n :: u32) :: u64) < 2 ^ 61"
proof -
  have "unat n < 2 ^ LENGTH(32)" by (rule unsigned_less)
  moreover from this have "unat (ucast n :: u64) = unat n"
    by (simp add: unsigned_ucast_eq take_bit_nat_eq_self)
  ultimately show ?thesis by simp
qed

text \<open>One turn of the loop on a record of a known field.\<close>

lemma DecodeData_loop_record:
  assumes "alloc_total al" "CheckFieldNumbersAscending ds 0" "field_law deep f" "fs_desc f \<in> set ds"
    "small_payloads (fs_recs f x)" "k < length (fs_recs f x)" "i_wf (r_stream r)"
    "avail (r_stream r) = record_bytes (fs_number f) (fs_wire f) (fs_recs f x ! k) @ rest"
  shows "\<exists>r'. DecodeData_loop (Suc fuel) al ds (fs_upd f x k o') r =
      DecodeData_loop fuel al ds (fs_upd f x (Suc k) o') r' \<and>
      r_stream r' = i_skip (length (record_bytes (fs_number f) (fs_wire f) (fs_recs f x ! k))) (r_stream r)"
proof -
  let ?p = "fs_recs f x ! k"
  let ?h = "record_header (fs_number f) (fs_wire f) (length ?p)"
  have av: "avail (r_stream r) = ?h @ ?p @ rest"
    using assms(8) by (simp add: record_bytes_def)
  have wt: "fs_wire f = kVarint \<or> fs_wire f = kLengthDelimited"
    using assms(3) by (simp add: field_law_def)
  have sz: "length ?p < 2 ^ 64" using assms(5,6) by (simp add: small_payloads_def)
  define r1 where "r1 = r\<lparr>r_stream := i_skip (length ?h) (r_stream r),
      r_wire_type := wire_code (fs_wire f), r_field_number := fs_number f,
      r_field_size := (if fs_wire f = kLengthDelimited then length ?p else 0)\<rparr>"
  have dn: "r_Done r = Some (False, r)"
    using assms(7) av by (simp add: r_Done_def IDone_more)
  have tag: "ReadWireTag r = Some (True, r1)"
    unfolding r1_def using av assms(7) sz wt unat_ucast_u32_less
    by (intro ReadWireTag_header) (auto simp: fs_number_def)
  have find: "FindDescriptor ds r1 = Some (fs_desc f)"
    using assms(2,4) by (intro FindDescriptor_unique) (simp_all add: r1_def fs_number_def fs_wire_def)
  have "at_payload (fs_wire f) ?p r1"
    using assms(7) av by (simp add: at_payload_def r1_def i_wf_skip)
  then have dec: "decode_function (fs_desc f) al (fs_upd f x k o') r1 =
      Some (True, fs_upd f x (Suc k) o', past_payload ?p r1)"
    using assms(1,3,5,6) by (simp add: field_law_def)
  show ?thesis
    by (rule exI [of _ "past_payload ?p r1"])
       (simp add: DecodeData_turn_def dn tag find dec, simp add: past_payload_def r1_def record_bytes_def)
qed

lemma DecodeData_loop_field:
  assumes "alloc_total al" "CheckFieldNumbersAscending ds 0" "field_law deep f" "fs_desc f \<in> set ds"
    "small_payloads (fs_recs f x)" "i_wf (r_stream r)" "k \<le> length (fs_recs f x)"
    "avail (r_stream r) = field_bytes (fs_number f) (fs_wire f) (drop k (fs_recs f x)) @ rest"
  shows "\<exists>r'. DecodeData_loop (length (fs_recs f x) - k + fuel) al ds (fs_upd f x k o') r =
      DecodeData_loop fuel al ds (fs_upd f x (length (fs_recs f x)) o') r' \<and>
      r_stream r' = i_skip (length (field_bytes (fs_number f) (fs_wire f) (drop k (fs_recs f x)))) (r_stream r)"
  using assms(6-8)
proof (induction "length (fs_recs f x) - k" arbitrary: k r)
  case 0
  then show ?case by (intro exI [of _ r]) simp
next
  case (Suc n)
  then have k: "k < length (fs_recs f x)" by simp
  let ?b = "record_bytes (fs_number f) (fs_wire f) (fs_recs f x ! k)"
  let ?c = "field_bytes (fs_number f) (fs_wire f) (drop (Suc k) (fs_recs f x))"
  have split: "field_bytes (fs_number f) (fs_wire f) (drop k (fs_recs f x)) = ?b @ ?c"
    using k by (simp add: Cons_nth_drop_Suc [symmetric] field_bytes_Cons)
  then have av: "avail (r_stream r) = ?b @ ?c @ rest" using Suc.prems(3) by simp
  obtain r1 where r1: "DecodeData_loop (Suc (n + fuel)) al ds (fs_upd f x k o') r =
      DecodeData_loop (n + fuel) al ds (fs_upd f x (Suc k) o') r1"
      "r_stream r1 = i_skip (length ?b) (r_stream r)"
    using DecodeData_loop_record [OF assms(1-5) k Suc.prems(1) av, of "n + fuel" o'] by blast
  have n: "n = length (fs_recs f x) - Suc k" "length (fs_recs f x) - k = Suc n"
    using Suc.hyps(2) by simp_all
  obtain r2 where r2: "DecodeData_loop (n + fuel) al ds (fs_upd f x (Suc k) o') r1 =
      DecodeData_loop fuel al ds (fs_upd f x (length (fs_recs f x)) o') r2"
      "r_stream r2 = i_skip (length ?c) (r_stream r1)"
    using Suc.hyps(1) [of "Suc k" r1] n(1) Suc.prems(1) k av r1(2) by (auto simp: i_wf_skip)
  show ?case using r1 r2 by (intro exI [of _ r2]) (simp only: n(2) split, simp)
qed

definition record_count :: "'a field_spec list \<Rightarrow> 'a \<Rightarrow> nat" where
  "record_count fs x = sum_list (map (\<lambda>f. length (fs_recs f x)) fs)"

lemma DecodeData_loop_fields:
  assumes "alloc_total al" "CheckFieldNumbersAscending ds 0"
    "\<And>f. f \<in> set fs \<Longrightarrow> field_law deep f \<and> fs_desc f \<in> set ds \<and> small_payloads (fs_recs f x)"
    "i_wf (r_stream r)" "avail (r_stream r) = msg_bytes fs x @ rest" "rebuilds fs x o'"
  shows "\<exists>r'. DecodeData_loop (record_count fs x + fuel) al ds o' r = DecodeData_loop fuel al ds x r' \<and>
      r_stream r' = i_skip (length (msg_bytes fs x)) (r_stream r)"
  using assms(3-6)
proof (induction fs arbitrary: r o')
  case Nil
  then show ?case by (intro exI [of _ r]) (simp add: record_count_def)
next
  case (Cons f fs)
  let ?b = "field_bytes (fs_number f) (fs_wire f) (fs_recs f x)"
  have f: "field_law deep f" "fs_desc f \<in> set ds" "small_payloads (fs_recs f x)"
    using Cons.prems(1) [of f] by auto
  have av: "avail (r_stream r) = ?b @ msg_bytes fs x @ rest"
    using Cons.prems(3) by (simp add: msg_bytes_Cons)
  obtain r1 where r1: "DecodeData_loop (length (fs_recs f x) + (record_count fs x + fuel)) al ds o' r =
      DecodeData_loop (record_count fs x + fuel) al ds (fs_upd f x (length (fs_recs f x)) o') r1"
      "r_stream r1 = i_skip (length ?b) (r_stream r)"
    using DecodeData_loop_field [OF assms(1,2) f Cons.prems(2), of 0 _ "record_count fs x + fuel" o']
      av Cons.prems(4) by (auto simp: )
  have "\<exists>r'. DecodeData_loop (record_count fs x + fuel) al ds (fs_upd f x (length (fs_recs f x)) o') r1 =
      DecodeData_loop fuel al ds x r' \<and> r_stream r' = i_skip (length (msg_bytes fs x)) (r_stream r1)"
    using Cons.prems av r1(2) by (intro Cons.IH) (simp_all add: i_wf_skip)
  then show ?case using r1
    by (auto simp: record_count_def add.assoc msg_bytes_Cons)
qed

lemma DecodeData_loop_more_fuel:
  "DecodeData_loop n al ds x r = Some res \<Longrightarrow> DecodeData_loop (n + m) al ds x r = Some res"
proof (induction n arbitrary: x r)
  case (Suc n)
  then show ?case
    by (auto split: option.splits sum.splits)
qed simp

lemma record_count_le: "record_count fs x \<le> length (msg_bytes fs x)"
proof -
  have "length ps \<le> length (field_bytes fn wt ps)" for fn wt and ps :: "byte list list"
  proof (induction ps)
    case (Cons p ps)
    have "0 < length (record_bytes fn wt p)" by (simp add: record_bytes_def)
    then show ?case using Cons.IH by (simp add: field_bytes_Cons del: length_greater_0_conv)
  qed simp
  then show ?thesis
    by (induction fs) (auto simp: record_count_def msg_bytes_Cons intro: add_mono)
qed

lemma DecodeData_msg_bytes:
  assumes "alloc_total al" "CheckFieldNumbersAscending (map fs_desc fs) 0"
    "\<And>f. f \<in> set fs \<Longrightarrow> field_law deep f \<and> small_payloads (fs_recs f x)"
    "i_wf (r_stream r)" "avail (r_stream r) = msg_bytes fs x" "rebuilds fs x o'"
    "IDone (i_skip (length (msg_bytes fs x)) (r_stream r)) = Some (True, s')"
  shows "\<exists>r'. DecodeData al (map fs_desc fs) o' r = Some (True, x, r') \<and> r_stream r' = s'"
proof -
  obtain r1 where r1: "DecodeData_loop (record_count fs x + 1) al (map fs_desc fs) o' r =
      DecodeData_loop 1 al (map fs_desc fs) x r1"
      "r_stream r1 = i_skip (length (msg_bytes fs x)) (r_stream r)"
    using DecodeData_loop_fields [OF assms(1,2), of fs deep x r "[]" o' 1] assms(3-6) by auto
  then have "DecodeData_loop (record_count fs x + 1) al (map fs_desc fs) o' r =
      Some (True, x, r1\<lparr>r_stream := s'\<rparr>)"
    using assms(7) by (simp add: DecodeData_turn_def r_Done_def)
  then have "DecodeData_loop (record_count fs x + 1 + (length (msg_bytes fs x) - record_count fs x))
      al (map fs_desc fs) o' r = Some (True, x, r1\<lparr>r_stream := s'\<rparr>)"
    by (rule DecodeData_loop_more_fuel)
  moreover have "decode_fuel r = record_count fs x + 1 + (length (msg_bytes fs x) - record_count fs x)"
    using record_count_le [of fs x] length_avail [OF assms(4)] assms(5) by (simp add: decode_fuel_def)
  ultimately show ?thesis by (simp add: DecodeData_def)
qed

lemma length_payload_le_msg:
  assumes "f \<in> set fs" "p \<in> set (fs_recs f x)"
  shows "length p \<le> length (msg_bytes fs x)"
proof -
  have "length p \<le> length (record_bytes (fs_number f) (fs_wire f) p)"
    by (simp add: record_bytes_def)
  also have "\<dots> \<le> length (field_bytes (fs_number f) (fs_wire f) (fs_recs f x))"
    using assms(2) by (auto simp: field_bytes_def length_concat intro!: member_le_sum_list)
  also have "\<dots> \<le> length (msg_bytes fs x)"
    using assms(1) by (auto simp: msg_bytes_def length_concat intro!: member_le_sum_list)
  finally show ?thesis .
qed

lemma small_msg_payloads:
  "length (msg_bytes fs x) < 2 ^ 64 \<Longrightarrow> f \<in> set fs \<Longrightarrow> small_payloads (fs_recs f x)"
  using length_payload_le_msg le_less_trans by (fastforce simp: small_payloads_def)

section \<open>Decoding arbitrary bytes\<close>

lemma r_Done_safe:
  assumes "i_wf (r_stream r)"
  shows "\<exists>d r'. r_Done r = Some (d, r') \<and> i_same (r_stream r) (r_stream r') \<and> (\<not> d \<longrightarrow> r' = r)"
proof (cases "avail (r_stream r) = []")
  case True
  then show ?thesis using IDone_exhausted [OF assms] by (auto simp: r_Done_def)
next
  case False
  then show ?thesis using IDone_more [OF assms] assms by (auto simp: r_Done_def i_same_refl)
qed

lemma FindDescriptor_Some:
  "FindDescriptor ds r = Some d \<Longrightarrow> d \<in> set ds \<and> r_wire_type r = wire_code (wire_type d)"
  by (auto simp: FindDescriptor_def find_Some_iff)

lemma DecodeData_turn_safe:
  assumes "i_wf (r_stream r)" "stream_ok deep (r_stream r)" "\<forall>d \<in> set ds. desc_safe deep d"
  shows "(\<exists>ok x' r'. DecodeData_turn al ds x r = Some (Inl (ok, x', r')) \<and>
            i_same (r_stream r) (r_stream r')) \<or>
         (\<exists>x' r'. DecodeData_turn al ds x r = Some (Inr (x', r')) \<and>
            i_reads (r_stream r) (r_stream r'))"
proof -
  obtain d r0 where r0: "r_Done r = Some (d, r0)" "i_same (r_stream r) (r_stream r0)" "\<not> d \<longrightarrow> r0 = r"
    using r_Done_safe [OF assms(1)] by blast
  show ?thesis
  proof (cases d)
    case True
    then show ?thesis using r0 by (auto simp: DecodeData_turn_def)
  next
    case nd: False
    then have [simp]: "r0 = r" using r0 by simp
    obtain ok r1 where r1: "ReadWireTag r = Some (ok, r1)" "i_same (r_stream r) (r_stream r1)"
        "ok \<longrightarrow> i_reads (r_stream r) (r_stream r1)"
      using ReadWireTag_safe [OF assms(1)] by blast
    have w1: "i_wf (r_stream r1)" using r1(2) by (simp add: i_same_def)
    have s1: "stream_ok deep (r_stream r1)" if ok
      using that r1(3) assms(2) by (auto dest: i_reads_moves simp: stream_ok_moves)
    obtain oks rs where sk: "SkipField r1 = Some (oks, rs)" "i_same (r_stream r1) (r_stream rs)"
        "oks \<longrightarrow> i_moves (r_stream r1) (r_stream rs)"
      using SkipField_safe [OF w1] by blast
    have dec: "\<exists>okd x' rd. decode_function desc al x r1 = Some (okd, x', rd) \<and>
        i_same (r_stream r1) (r_stream rd) \<and> (okd \<longrightarrow> i_moves (r_stream r1) (r_stream rd))"
      if "FindDescriptor ds r1 = Some desc" ok for desc
      using FindDescriptor_Some [OF that(1)] assms(3) w1 s1 [OF that(2)] unfolding desc_safe_def by blast
    show ?thesis
    proof (cases ok)
      case False
      then show ?thesis using nd r0 r1 by (auto simp: DecodeData_turn_def)
    next
      case True
      show ?thesis
      proof (cases "FindDescriptor ds r1")
        case None
        then show ?thesis using nd True r0 r1 sk
          by (cases oks) (auto simp: DecodeData_turn_def intro: i_same_trans i_reads_moves_trans)
      next
        case (Some desc)
        then obtain okd x' rd where "decode_function desc al x r1 = Some (okd, x', rd)"
            "i_same (r_stream r1) (r_stream rd)" "okd \<longrightarrow> i_moves (r_stream r1) (r_stream rd)"
          using dec True by blast
        then show ?thesis using nd True r0 r1 Some
          by (cases okd) (auto simp: DecodeData_turn_def intro: i_same_trans i_reads_moves_trans)
      qed
    qed
  qed
qed

lemma DecodeData_loop_safe:
  assumes "\<forall>d \<in> set ds. desc_safe deep d" "i_wf (r_stream r)" "stream_ok deep (r_stream r)"
    "length (avail (r_stream r)) < fuel"
  shows "\<exists>ok x' r'. DecodeData_loop fuel al ds x r = Some (ok, x', r') \<and>
           i_same (r_stream r) (r_stream r')"
  using assms(2-4)
proof (induction fuel arbitrary: x r)
  case (Suc fuel)
  from DecodeData_turn_safe [of r deep ds al x, OF Suc.prems(1,2) assms(1)] show ?case
  proof (elim disjE exE conjE)
    fix x' r' assume t: "DecodeData_turn al ds x r = Some (Inr (x', r'))"
      and rd: "i_reads (r_stream r) (r_stream r')"
    have m: "i_moves (r_stream r) (r_stream r')" using rd by (rule i_reads_moves)
    then have s: "i_same (r_stream r) (r_stream r')" using Suc.prems(1) by (intro i_moves_same)
    have "\<exists>ok x'' r''. DecodeData_loop fuel al ds x' r' = Some (ok, x'', r'') \<and>
        i_same (r_stream r') (r_stream r'')"
      using Suc.prems s m i_reads_length [OF rd]
      by (intro Suc.IH) (auto simp: i_same_def stream_ok_moves)
    then show ?thesis using t s by (auto intro: i_same_trans)
  qed auto
qed simp

lemma DecodeData_safe:
  assumes "\<forall>d \<in> set ds. desc_safe deep d" "i_wf (r_stream r)" "stream_ok deep (r_stream r)"
  shows "\<exists>ok x' r'. DecodeData al ds x r = Some (ok, x', r') \<and> i_same (r_stream r) (r_stream r')"
  unfolding DecodeData_def using assms length_avail [OF assms(2)]
  by (intro DecodeData_loop_safe) (auto simp: decode_fuel_def)

section \<open>Struct tables\<close>

lemma new_Nested_wf:
  assumes "i_wf d"
  obtains e where "new_NestedInputStreamBuffer d n = Some (NestedInputStreamBuffer (i_pos d) e n d)"
    "i_wf (NestedInputStreamBuffer (i_pos d) e n d)"
  using ClampEnd_wf [OF assms, of n] assms by (auto simp: new_NestedInputStreamBuffer_def)

lemma MessageDecode_safe:
  assumes "\<forall>d \<in> set ds. desc_safe True d" "i_wf (r_stream r)" "is_InputStreamBuffer (r_stream r)"
  shows "\<exists>ok x' r'. MessageDecode al ds x r = Some (ok, x', r') \<and>
    i_same (r_stream r) (r_stream r') \<and> i_moves (r_stream r) (r_stream r')"
proof -
  obtain e where n: "new_NestedInputStreamBuffer (r_stream r) (r_field_size r) =
      Some (NestedInputStreamBuffer (i_pos (r_stream r)) e (r_field_size r) (r_stream r))"
      "i_wf (NestedInputStreamBuffer (i_pos (r_stream r)) e (r_field_size r) (r_stream r))"
    using new_Nested_wf [OF assms(2)] by blast
  let ?n = "NestedInputStreamBuffer (i_pos (r_stream r)) e (r_field_size r) (r_stream r)"
  obtain ok x' nr where d: "DecodeData al ds x (new_ProtoReader ?n) = Some (ok, x', nr)"
      "i_same ?n (r_stream nr)"
    using DecodeData_safe [of ds True "new_ProtoReader ?n" al x] assms(1) n(2)
    by (auto simp: new_ProtoReader_def)
  obtain dn nr' where dn: "r_Done nr = Some (dn, nr')" "i_same (r_stream nr) (r_stream nr')"
    using r_Done_safe [of nr] d(2) by (auto simp: i_same_def)
  have mv: "i_moves (r_stream r) (i_delegate s)" if "i_same ?n s" for s
    using that assms(3) by (cases s) (auto simp: i_same_def delegate_moves_def)
  have "i_moves (r_stream r) (i_delegate (r_stream nr))"
      "i_moves (r_stream r) (i_delegate (r_stream nr'))"
    using mv d(2) i_same_trans [OF d(2) dn(2)] by blast+
  then show ?thesis using n d dn i_moves_same [OF assms(2)]
    by (cases ok) (auto simp: MessageDecode_def)
qed

lemma nested_complete:
  assumes "i_wf d" "n \<le> length (avail d)"
  defines "s \<equiv> NestedInputStreamBuffer (i_pos d) (i_pos d + n) n d"
  shows "new_NestedInputStreamBuffer d n = Some s" "i_wf s" "avail s = take n (avail d)"
    "IDone (i_skip n s) = Some (True, NestedInputStreamBuffer (i_pos d + n) (i_pos d + n) 0 (i_skip n d))"
    "IDone (NestedInputStreamBuffer (i_pos d + n) (i_pos d + n) 0 (i_skip n d)) =
       Some (True, NestedInputStreamBuffer (i_pos d + n) (i_pos d + n) 0 (i_skip n d))"
proof -
  have le: "i_pos d + n \<le> i_end d" "i_pos d \<le> i_end d"
    using assms(1,2) i_wf_bounds [of d] length_avail [of d] by auto
  have "ClampEnd d n = Some (i_pos d + n)" using le by (auto simp: ClampEnd_def)
  then show "new_NestedInputStreamBuffer d n = Some s"
    by (simp add: new_NestedInputStreamBuffer_def s_def)
  show "i_wf s" using assms(1) le by (simp add: s_def)
  show "avail s = take n (avail d)"
    using window_prefix [OF le(1)] by (simp add: avail_def s_def)
  show "IDone (i_skip n s) = Some (True, NestedInputStreamBuffer (i_pos d + n) (i_pos d + n) 0 (i_skip n d))"
    by (simp add: IDone_def s_def i_skip_def size_minus_def)
  show "IDone (NestedInputStreamBuffer (i_pos d + n) (i_pos d + n) 0 (i_skip n d)) =
       Some (True, NestedInputStreamBuffer (i_pos d + n) (i_pos d + n) 0 (i_skip n d))"
    by (simp add: IDone_def i_skip_def size_minus_def)
qed

locale struct_table =
  fixes fs :: "'a field_spec list" and fresh :: 'a and deep :: bool
  assumes laws: "f \<in> set fs \<Longrightarrow> field_law deep f"
    and ascending: "CheckFieldNumbersAscending (map fs_desc fs) 0"
    and rebuild: "rebuilds fs x fresh"
begin

lemma laws_small:
  "length (msg_bytes fs x) < 2 ^ 64 \<Longrightarrow> f \<in> set fs \<Longrightarrow> field_law deep f \<and> small_payloads (fs_recs f x)"
  using laws [of f] small_msg_payloads [of fs x f] by simp

lemma descs_safe: "\<forall>d \<in> set (map fs_desc fs). desc_safe deep d"
  using laws by (auto simp: field_law_def)

lemma encode_data:
  "w_writes al (EncodeData al (map fs_desc fs) x) (\<lambda>_. msg_bytes fs x)"
  using EncodeData_writes [of fs deep al x] laws by blast

lemma encode_message:
  "w_writes al (MessageEncode al (map fs_desc fs) x)
     (\<lambda>fn. record_bytes fn kLengthDelimited (msg_bytes fs x))"
  using MessageEncode_writes [of fs deep al x] laws by blast

lemma decode_data:
  assumes "alloc_total al" "length (msg_bytes fs x) < 2 ^ 64" "i_wf (r_stream r)"
    "avail (r_stream r) = msg_bytes fs x"
    "IDone (i_skip (length (msg_bytes fs x)) (r_stream r)) = Some (True, s')"
  shows "\<exists>r'. DecodeData al (map fs_desc fs) fresh r = Some (True, x, r') \<and> r_stream r' = s'"
  using DecodeData_msg_bytes [OF assms(1) ascending laws_small [OF assms(2)] assms(3,4) rebuild assms(5)]
  by blast

lemma decode_message:
  assumes "alloc_total al" "length (msg_bytes fs x) < 2 ^ 64"
    "at_payload kLengthDelimited (msg_bytes fs x) r"
  shows "MessageDecode al (map fs_desc fs) fresh r = Some (True, x, past_payload (msg_bytes fs x) r)"
proof -
  let ?m = "msg_bytes fs x" and ?d = "r_stream r"
  let ?fin = "NestedInputStreamBuffer (i_pos ?d + length ?m) (i_pos ?d + length ?m) 0 (i_skip (length ?m) ?d)"
  have d: "i_wf ?d" "length ?m \<le> length (avail ?d)" "take (length ?m) (avail ?d) = ?m"
      "r_field_size r = length ?m"
    using assms(3) by (auto simp: at_payload_def)
  note nc = nested_complete [OF d(1,2)]
  obtain nr where nr: "DecodeData al (map fs_desc fs) fresh (new_ProtoReader
        (NestedInputStreamBuffer (i_pos ?d) (i_pos ?d + length ?m) (length ?m) ?d)) = Some (True, x, nr)"
      "r_stream nr = ?fin"
    using decode_data [OF assms(1,2), of "new_ProtoReader
        (NestedInputStreamBuffer (i_pos ?d) (i_pos ?d + length ?m) (length ?m) ?d)" ?fin] nc d(3)
    by (auto simp: new_ProtoReader_def)
  then show ?thesis using nc(1,5) d(4)
    by (simp add: MessageDecode_def r_Done_def past_payload_def)
qed

end

text \<open>A table of scalar members is itself the codec of its struct.\<close>

lemma struct_wire:
  assumes "struct_table fs fresh True"
  shows "wire_codec (StructCodec (map fs_desc fs)) False (\<lambda>x. [msg_bytes fs x])
           (\<lambda>x k. if k = 0 then fresh else x) fresh"
proof (unfold_locales, goal_cases)
  case (2 r al v)
  then show ?case
    using MessageDecode_safe [of "map fs_desc fs" r al v] struct_table.descs_safe [OF assms]
    by (auto simp: StructCodec_def stream_ok_def)
next
  case (3 al v)
  then show ?case using struct_table.encode_message [OF assms, of al v]
    by (simp add: StructCodec_def small_payloads_def)
next
  case (6 al v k r)
  then show ?case using struct_table.decode_message [OF assms, of al v r]
    by (simp add: StructCodec_def small_payloads_def)
qed (simp_all add: StructCodec_def)

end
