(* ===== verification/Nvram_Persistence.thy ===== *)
theory Nvram_Persistence
  imports Nvram_Tables
begin

text \<open>
  The persistence layer: \<^verbatim>\<open>src/nvram/core/persistence.cpp\<close> and
  \<^verbatim>\<open>persistence.h\<close>. The header and the space records are encoded as one
  length-delimited protobuf field whose number is a magic constant, so that trailing bytes and
  records of the wrong kind are told apart on load. The storage layer below is the record of
  operations \<open>storage_ops\<close>, whose contract is the locale \<open>nvram_storage\<close>.
\<close>

section \<open>Stored objects\<close>

record NvramHeader =
  version :: u32
  h_flags :: u32
  allocated_indices :: "u32 list"
  provisional_index :: "u32 option"

record NvramSpace =
  s_flags :: u32
  controls :: u32
  authorization_value :: blob
  contents :: blob

definition kVersion :: u32 where "kVersion = 1"
definition kFlagDisableCreate :: u32 where "kFlagDisableCreate = 1"
definition kFlagWriteLocked :: u32 where "kFlagWriteLocked = 1"

definition new_NvramHeader :: NvramHeader where
  "new_NvramHeader =
     \<lparr>version = kVersion, h_flags = 0, allocated_indices = [], provisional_index = None\<rparr>"

definition new_NvramSpace :: NvramSpace where
  "new_NvramSpace = \<lparr>s_flags = 0, controls = 0, authorization_value = [], contents = []\<rparr>"

definition Header_HasFlag :: "NvramHeader \<Rightarrow> u32 \<Rightarrow> bool" where
  "Header_HasFlag h flag \<longleftrightarrow> h_flags h AND flag \<noteq> 0"

definition Header_SetFlag :: "u32 \<Rightarrow> NvramHeader \<Rightarrow> NvramHeader" where
  "Header_SetFlag flag h = h\<lparr>h_flags := h_flags h OR flag\<rparr>"

definition Space_HasFlag :: "NvramSpace \<Rightarrow> u32 \<Rightarrow> bool" where
  "Space_HasFlag sp flag \<longleftrightarrow> s_flags sp AND flag \<noteq> 0"

definition Space_SetFlag :: "u32 \<Rightarrow> NvramSpace \<Rightarrow> NvramSpace" where
  "Space_SetFlag flag sp = sp\<lparr>s_flags := s_flags sp OR flag\<rparr>"

text \<open>Every caller of \<open>HasControl\<close> passes a control below 32, where \<open>1 << control\<close> is defined.\<close>

definition HasControl :: "NvramSpace \<Rightarrow> nat \<Rightarrow> bool" where
  "HasControl sp control \<longleftrightarrow> controls sp AND push_bit control 1 \<noteq> 0"

section \<open>Encoding and decoding objects\<close>

datatype Status = kSuccess | kNotFound | kStorageError

definition kHeaderMagic :: u32 where "kHeaderMagic = 0x4e5648"
definition kSpaceMagic :: u32 where "kSpaceMagic = 0x4e5653"

definition EncodeObject ::
  "allocator \<Rightarrow> u32 \<Rightarrow> 'a FieldDescriptor list \<Rightarrow> 'a \<Rightarrow> blob \<Rightarrow> (Status \<times> blob) option" where
  "EncodeObject al magic descs object b =
     do { (ok, w) \<leftarrow> MessageEncode al descs object
                       ((new_ProtoWriter (OBlob b 0))\<lparr>w_field_number := ucast magic\<rparr>);
          if \<not> ok then Some (kStorageError, o_buf (w_stream w))
          else (case OTruncate al (o_buf (w_stream w)) (o_pos (w_stream w)) of
                  (ok, s) \<Rightarrow> Some (if \<not> ok then kStorageError else kSuccess, o_buf s)) }"

definition DecodeObject ::
  "allocator \<Rightarrow> u32 \<Rightarrow> 'a FieldDescriptor list \<Rightarrow> blob \<Rightarrow> 'a \<Rightarrow> (Status \<times> 'a) option" where
  "DecodeObject al magic descs b object =
     do { (ok, r) \<leftarrow> ReadWireTag (new_ProtoReader (new_InputStreamBuffer b));
          if \<not> ok \<or> r_field_number r \<noteq> ucast magic \<or> r_wire_type r \<noteq> wire_code kLengthDelimited
          then Some (kStorageError, object)
          else do { (ok, object', r) \<leftarrow> MessageDecode al descs object r;
                    Some (if \<not> ok then kStorageError else kSuccess, object') } }"

definition NvramHeader_kFields :: "NvramHeader FieldDescriptor list" where
  "NvramHeader_kFields =
     [MakeField 1 U32Codec version (\<lambda>v. version_update (\<lambda>_. v)),
      MakeField 2 U32Codec h_flags (\<lambda>v. h_flags_update (\<lambda>_. v)),
      MakeField 3 (VectorCodec U32Codec 4 0) allocated_indices (\<lambda>v. allocated_indices_update (\<lambda>_. v)),
      MakeField 4 (OptionalCodec U32Codec 0) provisional_index (\<lambda>v. provisional_index_update (\<lambda>_. v))]"

definition NvramSpace_kFields :: "NvramSpace FieldDescriptor list" where
  "NvramSpace_kFields =
     [MakeField 1 U32Codec s_flags (\<lambda>v. s_flags_update (\<lambda>_. v)),
      MakeField 2 U32Codec controls (\<lambda>v. controls_update (\<lambda>_. v)),
      MakeField 3 BlobCodec authorization_value (\<lambda>v. authorization_value_update (\<lambda>_. v)),
      MakeField 4 BlobCodec contents (\<lambda>v. contents_update (\<lambda>_. v))]"

section \<open>The storage layer and the persistence calls\<close>

text \<open>
  The functions of \<^verbatim>\<open>storage.h\<close>, over a storage state \<open>'s\<close>. Loads return the
  state too, so that an implementation may fail now and succeed later.
\<close>

record 's storage_ops =
  st_LoadHeader :: "'s \<Rightarrow> Status \<times> blob \<times> 's"
  st_StoreHeader :: "blob \<Rightarrow> 's \<Rightarrow> Status \<times> 's"
  st_LoadSpace :: "u32 \<Rightarrow> 's \<Rightarrow> Status \<times> blob \<times> 's"
  st_StoreSpace :: "u32 \<Rightarrow> blob \<Rightarrow> 's \<Rightarrow> Status \<times> 's"
  st_DeleteSpace :: "u32 \<Rightarrow> 's \<Rightarrow> Status \<times> 's"

definition persistence_LoadHeader :: "allocator \<Rightarrow> 's storage_ops \<Rightarrow> 's \<Rightarrow> (Status \<times> NvramHeader \<times> 's) option" where
  "persistence_LoadHeader al sto s =
     (case st_LoadHeader sto s of (status, b, s') \<Rightarrow>
        if status \<noteq> kSuccess then Some (status, new_NvramHeader, s')
        else do { (status, h) \<leftarrow> DecodeObject al kHeaderMagic NvramHeader_kFields b new_NvramHeader;
                  Some (status, h, s') })"

definition persistence_StoreHeader ::
  "allocator \<Rightarrow> 's storage_ops \<Rightarrow> NvramHeader \<Rightarrow> 's \<Rightarrow> (Status \<times> 's) option" where
  "persistence_StoreHeader al sto h s =
     do { (status, b) \<leftarrow> EncodeObject al kHeaderMagic NvramHeader_kFields h [];
          if status \<noteq> kSuccess then Some (status, s) else Some (st_StoreHeader sto b s) }"

definition persistence_LoadSpace ::
  "allocator \<Rightarrow> 's storage_ops \<Rightarrow> u32 \<Rightarrow> 's \<Rightarrow> (Status \<times> NvramSpace \<times> 's) option" where
  "persistence_LoadSpace al sto index s =
     (case st_LoadSpace sto index s of (status, b, s') \<Rightarrow>
        if status \<noteq> kSuccess then Some (status, new_NvramSpace, s')
        else do { (status, sp) \<leftarrow> DecodeObject al kSpaceMagic NvramSpace_kFields b new_NvramSpace;
                  Some (status, sp, s') })"

definition persistence_StoreSpace ::
  "allocator \<Rightarrow> 's storage_ops \<Rightarrow> u32 \<Rightarrow> NvramSpace \<Rightarrow> 's \<Rightarrow> (Status \<times> 's) option" where
  "persistence_StoreSpace al sto index sp s =
     do { (status, b) \<leftarrow> EncodeObject al kSpaceMagic NvramSpace_kFields sp [];
          if status \<noteq> kSuccess then Some (status, s) else Some (st_StoreSpace sto index b s) }"

definition persistence_DeleteSpace :: "'s storage_ops \<Rightarrow> u32 \<Rightarrow> 's \<Rightarrow> Status \<times> 's" where
  "persistence_DeleteSpace sto index s = st_DeleteSpace sto index s"

section \<open>The descriptor tables obey the codec contracts\<close>

definition NvramHeader_specs :: "NvramHeader field_spec list" where
  "NvramHeader_specs =
     [member_spec 1 U32Codec (\<lambda>v. [varint (ucast v)]) (\<lambda>v k. if k = 0 then kVersion else v)
        version (\<lambda>v. version_update (\<lambda>_. v)),
      member_spec 2 U32Codec (\<lambda>v. [varint (ucast v)]) (\<lambda>v k. if k = 0 then 0 else v)
        h_flags (\<lambda>v. h_flags_update (\<lambda>_. v)),
      member_spec 3 (VectorCodec U32Codec 4 0) (map (\<lambda>v. varint (ucast v))) (\<lambda>vs k. take k vs)
        allocated_indices (\<lambda>v. allocated_indices_update (\<lambda>_. v)),
      member_spec 4 (OptionalCodec U32Codec 0)
        (\<lambda>v. case v of None \<Rightarrow> [] | Some x \<Rightarrow> [varint (ucast x)]) (\<lambda>v k. if k = 0 then None else v)
        provisional_index (\<lambda>v. provisional_index_update (\<lambda>_. v))]"

definition NvramSpace_specs :: "NvramSpace field_spec list" where
  "NvramSpace_specs =
     [member_spec 1 U32Codec (\<lambda>v. [varint (ucast v)]) (\<lambda>v k. if k = 0 then 0 else v)
        s_flags (\<lambda>v. s_flags_update (\<lambda>_. v)),
      member_spec 2 U32Codec (\<lambda>v. [varint (ucast v)]) (\<lambda>v k. if k = 0 then 0 else v)
        controls (\<lambda>v. controls_update (\<lambda>_. v)),
      member_spec 3 BlobCodec (\<lambda>v. [v]) (\<lambda>v k. if k = 0 then [] else v)
        authorization_value (\<lambda>v. authorization_value_update (\<lambda>_. v)),
      member_spec 4 BlobCodec (\<lambda>v. [v]) (\<lambda>v k. if k = 0 then [] else v)
        contents (\<lambda>v. contents_update (\<lambda>_. v))]"

text \<open>The decoder of \<open>version\<close> starts from the current version, the other varints from 0.\<close>

interpretation version_codec: wire_codec U32Codec True "\<lambda>v. [varint (ucast v)]"
    "\<lambda>v k. if k = 0 then kVersion else v" kVersion
  unfolding U32Codec_def by (rule VarintCodec_wire) (rule ucast_u32_u64)

lemma NvramHeader_specs_desc: "map fs_desc NvramHeader_specs = NvramHeader_kFields"
  by (simp add: NvramHeader_specs_def NvramHeader_kFields_def member_spec_def)

lemma NvramSpace_specs_desc: "map fs_desc NvramSpace_specs = NvramSpace_kFields"
  by (simp add: NvramSpace_specs_def NvramSpace_kFields_def member_spec_def)

interpretation header_table: struct_table NvramHeader_specs new_NvramHeader True
proof (unfold_locales, goal_cases)
  case (1 f)
  then show ?case
    by (auto simp: NvramHeader_specs_def version_codec.member_law u32_codec.member_law
        u32_vector.member_law u32_optional.member_law)
next
  case 2
  show ?case by (simp add: NvramHeader_specs_desc NvramHeader_kFields_def MakeField_def)
next
  case (3 x)
  show ?case
    by (cases x)
       (simp add: NvramHeader_specs_def member_spec_def new_NvramHeader_def split: option.splits)
qed

interpretation space_table: struct_table NvramSpace_specs new_NvramSpace True
proof (unfold_locales, goal_cases)
  case (1 f)
  then show ?case
    by (auto simp: NvramSpace_specs_def u32_codec.member_law blob_codec.member_law)
next
  case 2
  show ?case by (simp add: NvramSpace_specs_desc NvramSpace_kFields_def MakeField_def)
next
  case (3 x)
  show ?case by (cases x) (simp add: NvramSpace_specs_def member_spec_def new_NvramSpace_def)
qed

section \<open>Round trip and safety of stored objects\<close>

definition object_bytes :: "u32 \<Rightarrow> 'a field_spec list \<Rightarrow> 'a \<Rightarrow> byte list" where
  "object_bytes magic fs x = record_bytes (ucast magic) kLengthDelimited (msg_bytes fs x)"

lemma object_bytes_not_Nil [simp]: "object_bytes magic fs x \<noteq> []"
  by (simp add: object_bytes_def record_bytes_def)

lemma unat_ucast_u32: "unat (ucast (m :: u32) :: u64) = unat m"
  by (simp add: unsigned_ucast_eq unsigned_take_bit_eq take_bit_nat_eq_self
      order_less_le_trans [OF unsigned_less])

lemma magic_small: "unat (ucast (m :: u32) :: u64) < 2 ^ 61"
  unfolding unat_ucast_u32 by (rule order_less_le_trans [OF unsigned_less]) simp

lemma OTruncate_emits:
  assumes "o_emits (OBlob [] 0) bs s"
  shows "\<exists>b p. s = OBlob b p \<and> p = length bs \<and> take p b = bs \<and> p \<le> length b"
  using assms by (cases s) auto

context struct_table
begin

lemma EncodeObject_cases:
  "(\<exists>b. EncodeObject al magic (map fs_desc fs) x [] = Some (kStorageError, b)) \<and> \<not> alloc_total al \<or>
    EncodeObject al magic (map fs_desc fs) x [] = Some (kSuccess, object_bytes magic fs x)"
proof -
  let ?w = "(new_ProtoWriter (OBlob [] 0))\<lparr>w_field_number := ucast magic\<rparr>"
  have wf: "o_wf (w_stream ?w)" by (simp add: o_wf_def new_ProtoWriter_def)
  obtain ok w' where w': "MessageEncode al (map fs_desc fs) x ?w = Some (ok, w')"
      "ok \<longrightarrow> o_emits (OBlob [] 0) (object_bytes magic fs x) (w_stream w')"
      "o_room al (OBlob [] 0) (length (object_bytes magic fs x)) \<longrightarrow> ok"
    using encode_message [of al x, unfolded w_writes_def, rule_format, OF wf]
    by (auto simp: new_ProtoWriter_def object_bytes_def)
  show ?thesis
  proof (cases ok)
    case False
    moreover have "\<not> alloc_total al" using False w'(3) by simp
    ultimately show ?thesis using w'(1) by (simp add: EncodeObject_def)
  next
    case True
    then obtain b p where b: "w_stream w' = OBlob b p" "p = length (object_bytes magic fs x)"
        "take p b = object_bytes magic fs x" "p \<le> length b"
      using OTruncate_emits w'(2) by blast
    then have "Blob_Resize al p b = (True, object_bytes magic fs x) \<or>
        Blob_Resize al p b = (False, b) \<and> \<not> alloc_total al"
      by (auto simp: Blob_Resize_def alloc_total_def)
    then show ?thesis using True w'(1) b(1) by (auto simp: EncodeObject_def OTruncate_def)
  qed
qed

lemma DecodeObject_bytes:
  assumes "alloc_total al" "length (msg_bytes fs x) < 2 ^ 64"
  shows "DecodeObject al magic (map fs_desc fs) (object_bytes magic fs x @ rest) fresh =
    Some (kSuccess, x)"
proof -
  let ?m = "msg_bytes fs x" and ?r = "new_ProtoReader (new_InputStreamBuffer (object_bytes magic fs x @ rest))"
  let ?h = "record_header (ucast magic) kLengthDelimited (length ?m)"
  let ?r' = "?r\<lparr>r_stream := i_skip (length ?h) (r_stream ?r), r_wire_type := wire_code kLengthDelimited,
      r_field_number := ucast magic, r_field_size := length ?m\<rparr>"
  have av: "i_wf (r_stream ?r)" "avail (r_stream ?r) = ?h @ ?m @ rest"
    by (simp_all add: new_ProtoReader_def new_InputStreamBuffer_def avail_def window_def
        object_bytes_def record_bytes_def)
  have tag: "ReadWireTag ?r = Some (True, ?r')"
    using ReadWireTag_header [OF av magic_small assms(2)] by simp
  have "at_payload kLengthDelimited ?m ?r'"
    using av i_wf_skip [OF av(1), of "length ?h"] by (simp add: at_payload_def)
  then show ?thesis using tag decode_message [OF assms, of ?r']
    by (simp add: DecodeObject_def)
qed

end

lemma DecodeObject_safe:
  assumes "struct_table fs fresh True"
  shows "\<exists>status object'. DecodeObject al magic (map fs_desc fs) b object = Some (status, object') \<and>
    status \<noteq> kNotFound"
proof -
  let ?r = "new_ProtoReader (new_InputStreamBuffer b)"
  have wf: "i_wf (r_stream ?r)" "is_InputStreamBuffer (r_stream ?r)"
    by (simp_all add: new_ProtoReader_def) (simp add: new_InputStreamBuffer_def)
  then obtain ok r where r: "ReadWireTag ?r = Some (ok, r)" "i_same (r_stream ?r) (r_stream r)"
      "ok \<longrightarrow> i_reads (r_stream ?r) (r_stream r)"
    using ReadWireTag_safe [of ?r] by blast
  show ?thesis
  proof (cases "ok")
    case True
    then have "i_wf (r_stream r)" "is_InputStreamBuffer (r_stream r)"
      using r wf by (auto simp: i_same_def dest: i_reads_moves is_InputStreamBuffer_moves)
    then obtain ok' object' r' where "MessageDecode al (map fs_desc fs) object r = Some (ok', object', r')"
      using MessageDecode_safe [OF struct_table.descs_safe [OF assms]] by blast
    then show ?thesis using r(1) by (simp add: DecodeObject_def)
  qed (use r in \<open>simp add: DecodeObject_def\<close>)
qed

section \<open>Sizes\<close>

lemma length_varint: "unat v < 128 ^ Suc k \<Longrightarrow> length (varint v) \<le> Suc k"
proof (induction v arbitrary: k rule: varint.induct)
  case (1 v)
  show ?case
  proof (cases "drop_bit 7 v = 0")
    case False
    then obtain k' where k: "k = Suc k'" using 1(2) varint_small [of v] by (cases k) auto
    have "unat (drop_bit 7 v) < 128 ^ Suc k'"
      unfolding unat_drop_bit_7 using 1(2) k by (simp add: less_mult_imp_div_less mult.commute)
    then show ?thesis using 1(1) [of k'] False k by (subst varint.simps) simp
  qed (subst varint.simps, simp)
qed

lemma length_varint_10: "length (varint v) \<le> 10"
proof -
  have "unat v < 2 ^ 64" using unsigned_less [of v] by simp
  also have "(2 :: nat) ^ 64 \<le> 128 ^ Suc 9" by simp
  finally show ?thesis using length_varint [of v 9] by simp
qed

lemma length_record_bytes: "length (record_bytes fn wt p) \<le> 20 + length p"
  using length_varint_10 [of "wire_tag fn wt"] length_varint_10 [of "of_nat (length p)"]
  by (auto simp: record_bytes_def record_header_def)

lemma length_field_bytes: "(\<forall>p \<in> set ps. length p \<le> n) \<Longrightarrow> length (field_bytes fn wt ps) \<le> length ps * (20 + n)"
proof (induction ps)
  case (Cons p ps)
  then show ?case using length_record_bytes [of fn wt p] by (simp add: field_bytes_Cons)
qed simp

definition header_fits :: "NvramHeader \<Rightarrow> bool" where
  "header_fits h \<longleftrightarrow> length (allocated_indices h) < 2 ^ 32"

definition space_fits :: "NvramSpace \<Rightarrow> bool" where
  "space_fits sp \<longleftrightarrow> length (authorization_value sp) < 2 ^ 62 \<and> length (contents sp) < 2 ^ 62"

lemma header_fits_bytes:
  assumes "header_fits h"
  shows "length (msg_bytes NvramHeader_specs h) < 2 ^ 64"
proof -
  have *: "length (field_bytes n kVarint (map (\<lambda>v. varint (ucast v)) vs)) \<le> length vs * 30"
    for n and vs :: "u32 list"
    using length_field_bytes [of "map (\<lambda>v. varint (ucast v)) vs" 10 n kVarint] length_varint_10
    by fastforce
  have "length (msg_bytes NvramHeader_specs h) \<le>
      30 + 30 + length (allocated_indices h) * 30 + 30"
    using * [of 1 "[version h]"] * [of 2 "[h_flags h]"] * [of 3 "allocated_indices h"]
      * [of 4 "[the (provisional_index h)]"]
    by (cases "provisional_index h")
       (auto simp: NvramHeader_specs_def msg_bytes_Cons member_spec_def fs_number_def fs_wire_def
        MakeField_def U32Codec_def VarintCodec_def VectorCodec_def OptionalCodec_def)
  then show ?thesis using assms by (simp add: header_fits_def)
qed

lemma space_fits_bytes:
  assumes "space_fits sp"
  shows "length (msg_bytes NvramSpace_specs sp) < 2 ^ 64"
proof -
  have "length (msg_bytes NvramSpace_specs sp) \<le>
      30 + 30 + (20 + length (authorization_value sp)) + (20 + length (contents sp))"
    using length_record_bytes [of 1 kVarint "varint (ucast (s_flags sp))"]
      length_record_bytes [of 2 kVarint "varint (ucast (controls sp))"]
      length_varint_10 [of "ucast (s_flags sp)"] length_varint_10 [of "ucast (controls sp)"]
      length_record_bytes [of 3 kLengthDelimited "authorization_value sp"]
      length_record_bytes [of 4 kLengthDelimited "contents sp"]
    by (simp add: NvramSpace_specs_def msg_bytes_Cons member_spec_def fs_number_def fs_wire_def
        MakeField_def U32Codec_def VarintCodec_def BlobCodec_def)
  then show ?thesis using assms by (simp add: space_fits_def)
qed

section \<open>The storage contract\<close>

text \<open>
  What \<^verbatim>\<open>storage.h\<close> asks of an implementation. \<open>header_of\<close> and
  \<open>space_of\<close> are the blobs on the medium, \<open>inv\<close> an invariant of the implementation. A load
  may append trailing bytes, every operation may fail, a failed operation changes nothing.

  Because an operation may fail at any time, the contract covers crashes: a request that is cut off
  after some of its storage operations leaves the same medium as one whose remaining operations
  fail.
\<close>

locale nvram_storage =
  fixes sto :: "'s storage_ops" and header_of :: "'s \<Rightarrow> blob option"
    and space_of :: "'s \<Rightarrow> u32 \<Rightarrow> blob option" and inv :: "'s \<Rightarrow> bool"
  assumes load_header: "inv s \<Longrightarrow> st_LoadHeader sto s = (st, b, s') \<Longrightarrow>
      inv s' \<and> header_of s' = header_of s \<and> space_of s' = space_of s \<and>
      (st = kSuccess \<longrightarrow> (\<exists>d rest. header_of s = Some d \<and> b = d @ rest)) \<and>
      (st = kNotFound \<longrightarrow> header_of s = None)"
    and load_space: "inv s \<Longrightarrow> st_LoadSpace sto i s = (st, b, s') \<Longrightarrow>
      inv s' \<and> header_of s' = header_of s \<and> space_of s' = space_of s \<and>
      (st = kSuccess \<longrightarrow> (\<exists>d rest. space_of s i = Some d \<and> b = d @ rest)) \<and>
      (st = kNotFound \<longrightarrow> space_of s i = None)"
    and store_header: "inv s \<Longrightarrow> b \<noteq> [] \<Longrightarrow> st_StoreHeader sto b s = (st, s') \<Longrightarrow>
      inv s' \<and> space_of s' = space_of s \<and>
      header_of s' = (if st = kSuccess then Some b else header_of s)"
    and store_space: "inv s \<Longrightarrow> b \<noteq> [] \<Longrightarrow> st_StoreSpace sto i b s = (st, s') \<Longrightarrow>
      inv s' \<and> header_of s' = header_of s \<and>
      space_of s' = (if st = kSuccess then (space_of s)(i := Some b) else space_of s)"
    and delete_space: "inv s \<Longrightarrow> st_DeleteSpace sto i s = (st, s') \<Longrightarrow>
      inv s' \<and> header_of s' = header_of s \<and>
      space_of s' = (if st = kStorageError then space_of s else (space_of s)(i := None))"

definition header_blob :: "NvramHeader \<Rightarrow> blob" where
  "header_blob h = object_bytes kHeaderMagic NvramHeader_specs h"

definition space_blob :: "NvramSpace \<Rightarrow> blob" where
  "space_blob sp = object_bytes kSpaceMagic NvramSpace_specs sp"

lemma header_blob_not_Nil [simp]: "header_blob h \<noteq> []"
  and space_blob_not_Nil [simp]: "space_blob sp \<noteq> []"
  by (simp_all add: header_blob_def space_blob_def)

lemma encode_header:
  "(\<exists>b. EncodeObject al kHeaderMagic NvramHeader_kFields h [] = Some (kStorageError, b)) \<and> \<not> alloc_total al \<or>
   EncodeObject al kHeaderMagic NvramHeader_kFields h [] = Some (kSuccess, header_blob h)"
  using header_table.EncodeObject_cases
  by (simp add: NvramHeader_specs_desc header_blob_def)

lemma encode_space:
  "(\<exists>b. EncodeObject al kSpaceMagic NvramSpace_kFields sp [] = Some (kStorageError, b)) \<and> \<not> alloc_total al \<or>
   EncodeObject al kSpaceMagic NvramSpace_kFields sp [] = Some (kSuccess, space_blob sp)"
  using space_table.EncodeObject_cases
  by (simp add: NvramSpace_specs_desc space_blob_def)

lemma decode_header:
  "alloc_total al \<Longrightarrow> header_fits h \<Longrightarrow>
   DecodeObject al kHeaderMagic NvramHeader_kFields (header_blob h @ rest) new_NvramHeader = Some (kSuccess, h)"
  using header_table.DecodeObject_bytes [OF _ header_fits_bytes]
  by (simp add: NvramHeader_specs_desc header_blob_def)

lemma decode_space:
  "alloc_total al \<Longrightarrow> space_fits sp \<Longrightarrow>
   DecodeObject al kSpaceMagic NvramSpace_kFields (space_blob sp @ rest) new_NvramSpace = Some (kSuccess, sp)"
  using space_table.DecodeObject_bytes [OF _ space_fits_bytes]
  by (simp add: NvramSpace_specs_desc space_blob_def)

lemma decode_header_safe:
  "\<exists>st h'. DecodeObject al kHeaderMagic NvramHeader_kFields b h = Some (st, h') \<and> st \<noteq> kNotFound"
  using DecodeObject_safe [OF header_table.struct_table_axioms] by (simp add: NvramHeader_specs_desc)

lemma decode_space_safe:
  "\<exists>st sp'. DecodeObject al kSpaceMagic NvramSpace_kFields b sp = Some (st, sp') \<and> st \<noteq> kNotFound"
  using DecodeObject_safe [OF space_table.struct_table_axioms] by (simp add: NvramSpace_specs_desc)

text \<open>The persistence calls never crash, whatever the storage layer returns.\<close>

lemma persistence_LoadHeader_total: "\<exists>st h s'. persistence_LoadHeader al sto s = Some (st, h, s')"
  using decode_header_safe [of al "fst (snd (st_LoadHeader sto s))" new_NvramHeader]
  by (auto simp: persistence_LoadHeader_def split: prod.splits)

lemma persistence_LoadSpace_total: "\<exists>st sp s'. persistence_LoadSpace al sto i s = Some (st, sp, s')"
  using decode_space_safe [of al "fst (snd (st_LoadSpace sto i s))" new_NvramSpace]
  by (auto simp: persistence_LoadSpace_def split: prod.splits)

lemma persistence_StoreHeader_total:
  "\<exists>st s'. persistence_StoreHeader al sto h s = Some (st, s')"
  using encode_header [of al h] by (auto simp: persistence_StoreHeader_def)

lemma persistence_StoreSpace_total:
  "\<exists>st s'. persistence_StoreSpace al sto i sp s = Some (st, s')"
  using encode_space [of al sp] by (auto simp: persistence_StoreSpace_def)

context nvram_storage
begin

lemma LoadHeader_law:
  assumes "inv s" "persistence_LoadHeader al sto s = Some (st, h', s')"
  shows "inv s'" "header_of s' = header_of s" "space_of s' = space_of s"
    "alloc_total al \<Longrightarrow> st = kSuccess \<Longrightarrow> header_of s = Some (header_blob h) \<Longrightarrow> header_fits h \<Longrightarrow> h' = h"
    "st = kNotFound \<Longrightarrow> header_of s = None" "st = kSuccess \<Longrightarrow> header_of s \<noteq> None"
proof -
  obtain st0 b s0 where l: "st_LoadHeader sto s = (st0, b, s0)" by (cases "st_LoadHeader sto s")
  note law = load_header [OF assms(1) l]
  show "inv s'" "header_of s' = header_of s" "space_of s' = space_of s"
      "st = kNotFound \<Longrightarrow> header_of s = None" "st = kSuccess \<Longrightarrow> header_of s \<noteq> None"
    using assms(2) law l decode_header_safe [of al b new_NvramHeader]
    by (auto simp: persistence_LoadHeader_def split: if_splits)
  show "h' = h" if "alloc_total al" "st = kSuccess" "header_of s = Some (header_blob h)" "header_fits h"
    using assms(2) law l that decode_header [OF that(1,4)]
    by (auto simp: persistence_LoadHeader_def split: if_splits)
qed

lemma LoadSpace_law:
  assumes "inv s" "persistence_LoadSpace al sto i s = Some (st, sp', s')"
  shows "inv s'" "header_of s' = header_of s" "space_of s' = space_of s"
    "alloc_total al \<Longrightarrow> st = kSuccess \<Longrightarrow> space_of s i = Some (space_blob sp) \<Longrightarrow> space_fits sp \<Longrightarrow> sp' = sp"
    "st = kNotFound \<Longrightarrow> space_of s i = None" "st = kSuccess \<Longrightarrow> space_of s i \<noteq> None"
proof -
  obtain st0 b s0 where l: "st_LoadSpace sto i s = (st0, b, s0)" by (cases "st_LoadSpace sto i s")
  note law = load_space [OF assms(1) l]
  show "inv s'" "header_of s' = header_of s" "space_of s' = space_of s"
      "st = kNotFound \<Longrightarrow> space_of s i = None" "st = kSuccess \<Longrightarrow> space_of s i \<noteq> None"
    using assms(2) law l decode_space_safe [of al b new_NvramSpace]
    by (auto simp: persistence_LoadSpace_def split: if_splits)
  show "sp' = sp" if "alloc_total al" "st = kSuccess" "space_of s i = Some (space_blob sp)" "space_fits sp"
    using assms(2) law l that decode_space [OF that(1,4)]
    by (auto simp: persistence_LoadSpace_def split: if_splits)
qed

lemma StoreHeader_law:
  assumes "inv s" "persistence_StoreHeader al sto h s = Some (st, s')"
  shows "inv s' \<and> space_of s' = space_of s \<and>
    header_of s' = (if st = kSuccess then Some (header_blob h) else header_of s)"
  using encode_header [of al h] assms store_header [OF assms(1), of "header_blob h"]
  by (auto simp: persistence_StoreHeader_def)

lemma StoreSpace_law:
  assumes "inv s" "persistence_StoreSpace al sto i sp s = Some (st, s')"
  shows "inv s' \<and> header_of s' = header_of s \<and>
    space_of s' = (if st = kSuccess then (space_of s)(i := Some (space_blob sp)) else space_of s)"
  using encode_space [of al sp] assms store_space [OF assms(1), of "space_blob sp"]
  by (auto simp: persistence_StoreSpace_def)

lemma DeleteSpace_law:
  assumes "inv s" "persistence_DeleteSpace sto i s = (st, s')"
  shows "inv s' \<and> header_of s' = header_of s \<and>
    space_of s' = (if st = kStorageError then space_of s else (space_of s)(i := None))"
  using delete_space [OF assms(1)] assms(2) by (simp add: persistence_DeleteSpace_def)

end

end
