(* ===== verification/Nvram_Messages.thy ===== *)
theory Nvram_Messages
  imports Nvram_Persistence
begin

text \<open>
  The request and response messages of \<^verbatim>\<open>src/nvram/messages/nvram_messages.h\<close> and
  their descriptor tables in \<^verbatim>\<open>nvram_messages.cpp\<close>. A struct without members is
  \<^typ>\<open>unit\<close>; a \<open>TaggedUnion\<close> (\<^verbatim>\<open>tagged_union.h\<close>) is a datatype with
  one constructor per tag; \<open>nvram_control_t\<close> and \<open>nvram_result_t\<close>, whose enumerators are
  declared outside the repository, are 32-bit integers. A member \<open>m\<close> of a struct is the record
  field \<open>m\<close> with a prefix for the struct.
\<close>

section \<open>Messages\<close>

record GetInfoResponse =
  gi_total_size :: u64
  gi_available_size :: u64
  gi_max_space_size :: u64
  gi_max_spaces :: u32
  gi_space_list :: "u32 list"
  gi_wipe_disabled :: bool

record CreateSpaceRequest =
  cs_index :: u32
  cs_size :: u64
  cs_controls :: "u32 list"
  cs_authorization_value :: blob

record GetSpaceInfoRequest =
  si_index :: u32

record GetSpaceInfoResponse =
  sr_size :: u64
  sr_controls :: "u32 list"
  sr_read_locked :: bool
  sr_write_locked :: bool

record DeleteSpaceRequest =
  ds_index :: u32
  ds_authorization_value :: blob

record WriteSpaceRequest =
  ws_index :: u32
  ws_buffer :: blob
  ws_authorization_value :: blob

record ReadSpaceRequest =
  rs_index :: u32
  rs_authorization_value :: blob

record ReadSpaceResponse =
  rr_buffer :: blob

record LockSpaceWriteRequest =
  lw_index :: u32
  lw_authorization_value :: blob

record LockSpaceReadRequest =
  lr_index :: u32
  lr_authorization_value :: blob

definition new_GetInfoResponse :: GetInfoResponse where
  "new_GetInfoResponse = \<lparr>gi_total_size = 0, gi_available_size = 0, gi_max_space_size = 0, gi_max_spaces = 0, gi_space_list = [], gi_wipe_disabled = False\<rparr>"

definition new_CreateSpaceRequest :: CreateSpaceRequest where
  "new_CreateSpaceRequest = \<lparr>cs_index = 0, cs_size = 0, cs_controls = [], cs_authorization_value = []\<rparr>"

definition new_GetSpaceInfoRequest :: GetSpaceInfoRequest where
  "new_GetSpaceInfoRequest = \<lparr>si_index = 0\<rparr>"

definition new_GetSpaceInfoResponse :: GetSpaceInfoResponse where
  "new_GetSpaceInfoResponse = \<lparr>sr_size = 0, sr_controls = [], sr_read_locked = False, sr_write_locked = False\<rparr>"

definition new_DeleteSpaceRequest :: DeleteSpaceRequest where
  "new_DeleteSpaceRequest = \<lparr>ds_index = 0, ds_authorization_value = []\<rparr>"

definition new_WriteSpaceRequest :: WriteSpaceRequest where
  "new_WriteSpaceRequest = \<lparr>ws_index = 0, ws_buffer = [], ws_authorization_value = []\<rparr>"

definition new_ReadSpaceRequest :: ReadSpaceRequest where
  "new_ReadSpaceRequest = \<lparr>rs_index = 0, rs_authorization_value = []\<rparr>"

definition new_ReadSpaceResponse :: ReadSpaceResponse where
  "new_ReadSpaceResponse = \<lparr>rr_buffer = []\<rparr>"

definition new_LockSpaceWriteRequest :: LockSpaceWriteRequest where
  "new_LockSpaceWriteRequest = \<lparr>lw_index = 0, lw_authorization_value = []\<rparr>"

definition new_LockSpaceReadRequest :: LockSpaceReadRequest where
  "new_LockSpaceReadRequest = \<lparr>lr_index = 0, lr_authorization_value = []\<rparr>"

datatype RequestUnion =
    Req_GET_INFO unit
  | Req_CREATE_SPACE CreateSpaceRequest
  | Req_GET_SPACE_INFO GetSpaceInfoRequest
  | Req_DELETE_SPACE DeleteSpaceRequest
  | Req_DISABLE_CREATE unit
  | Req_WRITE_SPACE WriteSpaceRequest
  | Req_READ_SPACE ReadSpaceRequest
  | Req_LOCK_SPACE_WRITE LockSpaceWriteRequest
  | Req_LOCK_SPACE_READ LockSpaceReadRequest
  | Req_WIPE_STORAGE unit
  | Req_DISABLE_WIPE unit

datatype ResponseUnion =
    Resp_GET_INFO GetInfoResponse
  | Resp_CREATE_SPACE unit
  | Resp_GET_SPACE_INFO GetSpaceInfoResponse
  | Resp_DELETE_SPACE unit
  | Resp_DISABLE_CREATE unit
  | Resp_WRITE_SPACE unit
  | Resp_READ_SPACE ReadSpaceResponse
  | Resp_LOCK_SPACE_WRITE unit
  | Resp_LOCK_SPACE_READ unit
  | Resp_WIPE_STORAGE unit
  | Resp_DISABLE_WIPE unit

record Request =
  req_payload :: RequestUnion

record Response =
  result :: u32
  resp_payload :: ResponseUnion

text \<open>The first member of a tagged union is active in a new object; \<open>nv_success\<close> is the value of
  \<open>NV_RESULT_SUCCESS\<close>, with which a new response starts.\<close>

definition new_Request :: Request where
  "new_Request = \<lparr>req_payload = Req_GET_INFO ()\<rparr>"

definition new_Response :: "u32 \<Rightarrow> Response" where
  "new_Response nv_success = \<lparr>result = nv_success, resp_payload = Resp_GET_INFO new_GetInfoResponse\<rparr>"

section \<open>Descriptor tables\<close>

definition Empty_kFields :: "unit FieldDescriptor list" where
  "Empty_kFields = []"

definition GetInfoResponse_kFields :: "GetInfoResponse FieldDescriptor list" where
  "GetInfoResponse_kFields =
     [MakeField 1 U64Codec gi_total_size (\<lambda>v. gi_total_size_update (\<lambda>_. v)),
      MakeField 2 U64Codec gi_available_size (\<lambda>v. gi_available_size_update (\<lambda>_. v)),
      MakeField 3 U32Codec gi_max_spaces (\<lambda>v. gi_max_spaces_update (\<lambda>_. v)),
      MakeField 4 (VectorCodec U32Codec 4 0) gi_space_list (\<lambda>v. gi_space_list_update (\<lambda>_. v)),
      MakeField 5 U64Codec gi_max_space_size (\<lambda>v. gi_max_space_size_update (\<lambda>_. v)),
      MakeField 6 BoolCodec gi_wipe_disabled (\<lambda>v. gi_wipe_disabled_update (\<lambda>_. v))]"

definition CreateSpaceRequest_kFields :: "CreateSpaceRequest FieldDescriptor list" where
  "CreateSpaceRequest_kFields =
     [MakeField 1 U32Codec cs_index (\<lambda>v. cs_index_update (\<lambda>_. v)),
      MakeField 2 U64Codec cs_size (\<lambda>v. cs_size_update (\<lambda>_. v)),
      MakeField 3 (VectorCodec U32Codec 4 0) cs_controls (\<lambda>v. cs_controls_update (\<lambda>_. v)),
      MakeField 4 BlobCodec cs_authorization_value (\<lambda>v. cs_authorization_value_update (\<lambda>_. v))]"

definition GetSpaceInfoRequest_kFields :: "GetSpaceInfoRequest FieldDescriptor list" where
  "GetSpaceInfoRequest_kFields =
     [MakeField 1 U32Codec si_index (\<lambda>v. si_index_update (\<lambda>_. v))]"

definition GetSpaceInfoResponse_kFields :: "GetSpaceInfoResponse FieldDescriptor list" where
  "GetSpaceInfoResponse_kFields =
     [MakeField 1 U64Codec sr_size (\<lambda>v. sr_size_update (\<lambda>_. v)),
      MakeField 2 (VectorCodec U32Codec 4 0) sr_controls (\<lambda>v. sr_controls_update (\<lambda>_. v)),
      MakeField 3 BoolCodec sr_read_locked (\<lambda>v. sr_read_locked_update (\<lambda>_. v)),
      MakeField 4 BoolCodec sr_write_locked (\<lambda>v. sr_write_locked_update (\<lambda>_. v))]"

definition DeleteSpaceRequest_kFields :: "DeleteSpaceRequest FieldDescriptor list" where
  "DeleteSpaceRequest_kFields =
     [MakeField 1 U32Codec ds_index (\<lambda>v. ds_index_update (\<lambda>_. v)),
      MakeField 2 BlobCodec ds_authorization_value (\<lambda>v. ds_authorization_value_update (\<lambda>_. v))]"

definition WriteSpaceRequest_kFields :: "WriteSpaceRequest FieldDescriptor list" where
  "WriteSpaceRequest_kFields =
     [MakeField 1 U32Codec ws_index (\<lambda>v. ws_index_update (\<lambda>_. v)),
      MakeField 2 BlobCodec ws_buffer (\<lambda>v. ws_buffer_update (\<lambda>_. v)),
      MakeField 3 BlobCodec ws_authorization_value (\<lambda>v. ws_authorization_value_update (\<lambda>_. v))]"

definition ReadSpaceRequest_kFields :: "ReadSpaceRequest FieldDescriptor list" where
  "ReadSpaceRequest_kFields =
     [MakeField 1 U32Codec rs_index (\<lambda>v. rs_index_update (\<lambda>_. v)),
      MakeField 2 BlobCodec rs_authorization_value (\<lambda>v. rs_authorization_value_update (\<lambda>_. v))]"

definition ReadSpaceResponse_kFields :: "ReadSpaceResponse FieldDescriptor list" where
  "ReadSpaceResponse_kFields =
     [MakeField 1 BlobCodec rr_buffer (\<lambda>v. rr_buffer_update (\<lambda>_. v))]"

definition LockSpaceWriteRequest_kFields :: "LockSpaceWriteRequest FieldDescriptor list" where
  "LockSpaceWriteRequest_kFields =
     [MakeField 1 U32Codec lw_index (\<lambda>v. lw_index_update (\<lambda>_. v)),
      MakeField 2 BlobCodec lw_authorization_value (\<lambda>v. lw_authorization_value_update (\<lambda>_. v))]"

definition LockSpaceReadRequest_kFields :: "LockSpaceReadRequest FieldDescriptor list" where
  "LockSpaceReadRequest_kFields =
     [MakeField 1 U32Codec lr_index (\<lambda>v. lr_index_update (\<lambda>_. v)),
      MakeField 2 BlobCodec lr_authorization_value (\<lambda>v. lr_authorization_value_update (\<lambda>_. v))]"

text \<open>\<open>TaggedUnion::get\<close> for each tag.\<close>

definition get_Req_GET_INFO :: "RequestUnion \<Rightarrow> unit option" where
  "get_Req_GET_INFO u = (case u of Req_GET_INFO m \<Rightarrow> Some m | _ \<Rightarrow> None)"

definition get_Req_CREATE_SPACE :: "RequestUnion \<Rightarrow> CreateSpaceRequest option" where
  "get_Req_CREATE_SPACE u = (case u of Req_CREATE_SPACE m \<Rightarrow> Some m | _ \<Rightarrow> None)"

definition get_Req_GET_SPACE_INFO :: "RequestUnion \<Rightarrow> GetSpaceInfoRequest option" where
  "get_Req_GET_SPACE_INFO u = (case u of Req_GET_SPACE_INFO m \<Rightarrow> Some m | _ \<Rightarrow> None)"

definition get_Req_DELETE_SPACE :: "RequestUnion \<Rightarrow> DeleteSpaceRequest option" where
  "get_Req_DELETE_SPACE u = (case u of Req_DELETE_SPACE m \<Rightarrow> Some m | _ \<Rightarrow> None)"

definition get_Req_DISABLE_CREATE :: "RequestUnion \<Rightarrow> unit option" where
  "get_Req_DISABLE_CREATE u = (case u of Req_DISABLE_CREATE m \<Rightarrow> Some m | _ \<Rightarrow> None)"

definition get_Req_WRITE_SPACE :: "RequestUnion \<Rightarrow> WriteSpaceRequest option" where
  "get_Req_WRITE_SPACE u = (case u of Req_WRITE_SPACE m \<Rightarrow> Some m | _ \<Rightarrow> None)"

definition get_Req_READ_SPACE :: "RequestUnion \<Rightarrow> ReadSpaceRequest option" where
  "get_Req_READ_SPACE u = (case u of Req_READ_SPACE m \<Rightarrow> Some m | _ \<Rightarrow> None)"

definition get_Req_LOCK_SPACE_WRITE :: "RequestUnion \<Rightarrow> LockSpaceWriteRequest option" where
  "get_Req_LOCK_SPACE_WRITE u = (case u of Req_LOCK_SPACE_WRITE m \<Rightarrow> Some m | _ \<Rightarrow> None)"

definition get_Req_LOCK_SPACE_READ :: "RequestUnion \<Rightarrow> LockSpaceReadRequest option" where
  "get_Req_LOCK_SPACE_READ u = (case u of Req_LOCK_SPACE_READ m \<Rightarrow> Some m | _ \<Rightarrow> None)"

definition get_Req_WIPE_STORAGE :: "RequestUnion \<Rightarrow> unit option" where
  "get_Req_WIPE_STORAGE u = (case u of Req_WIPE_STORAGE m \<Rightarrow> Some m | _ \<Rightarrow> None)"

definition get_Req_DISABLE_WIPE :: "RequestUnion \<Rightarrow> unit option" where
  "get_Req_DISABLE_WIPE u = (case u of Req_DISABLE_WIPE m \<Rightarrow> Some m | _ \<Rightarrow> None)"

definition get_Resp_GET_INFO :: "ResponseUnion \<Rightarrow> GetInfoResponse option" where
  "get_Resp_GET_INFO u = (case u of Resp_GET_INFO m \<Rightarrow> Some m | _ \<Rightarrow> None)"

definition get_Resp_CREATE_SPACE :: "ResponseUnion \<Rightarrow> unit option" where
  "get_Resp_CREATE_SPACE u = (case u of Resp_CREATE_SPACE m \<Rightarrow> Some m | _ \<Rightarrow> None)"

definition get_Resp_GET_SPACE_INFO :: "ResponseUnion \<Rightarrow> GetSpaceInfoResponse option" where
  "get_Resp_GET_SPACE_INFO u = (case u of Resp_GET_SPACE_INFO m \<Rightarrow> Some m | _ \<Rightarrow> None)"

definition get_Resp_DELETE_SPACE :: "ResponseUnion \<Rightarrow> unit option" where
  "get_Resp_DELETE_SPACE u = (case u of Resp_DELETE_SPACE m \<Rightarrow> Some m | _ \<Rightarrow> None)"

definition get_Resp_DISABLE_CREATE :: "ResponseUnion \<Rightarrow> unit option" where
  "get_Resp_DISABLE_CREATE u = (case u of Resp_DISABLE_CREATE m \<Rightarrow> Some m | _ \<Rightarrow> None)"

definition get_Resp_WRITE_SPACE :: "ResponseUnion \<Rightarrow> unit option" where
  "get_Resp_WRITE_SPACE u = (case u of Resp_WRITE_SPACE m \<Rightarrow> Some m | _ \<Rightarrow> None)"

definition get_Resp_READ_SPACE :: "ResponseUnion \<Rightarrow> ReadSpaceResponse option" where
  "get_Resp_READ_SPACE u = (case u of Resp_READ_SPACE m \<Rightarrow> Some m | _ \<Rightarrow> None)"

definition get_Resp_LOCK_SPACE_WRITE :: "ResponseUnion \<Rightarrow> unit option" where
  "get_Resp_LOCK_SPACE_WRITE u = (case u of Resp_LOCK_SPACE_WRITE m \<Rightarrow> Some m | _ \<Rightarrow> None)"

definition get_Resp_LOCK_SPACE_READ :: "ResponseUnion \<Rightarrow> unit option" where
  "get_Resp_LOCK_SPACE_READ u = (case u of Resp_LOCK_SPACE_READ m \<Rightarrow> Some m | _ \<Rightarrow> None)"

definition get_Resp_WIPE_STORAGE :: "ResponseUnion \<Rightarrow> unit option" where
  "get_Resp_WIPE_STORAGE u = (case u of Resp_WIPE_STORAGE m \<Rightarrow> Some m | _ \<Rightarrow> None)"

definition get_Resp_DISABLE_WIPE :: "ResponseUnion \<Rightarrow> unit option" where
  "get_Resp_DISABLE_WIPE u = (case u of Resp_DISABLE_WIPE m \<Rightarrow> Some m | _ \<Rightarrow> None)"

definition Request_kFields :: "Request FieldDescriptor list" where
  "Request_kFields =
     [MakeOneOfField 1 (StructCodec Empty_kFields) ()
        (\<lambda>x. get_Req_GET_INFO (req_payload x)) (\<lambda>m. req_payload_update (\<lambda>_. Req_GET_INFO m)),
      MakeOneOfField 2 (StructCodec CreateSpaceRequest_kFields) new_CreateSpaceRequest
        (\<lambda>x. get_Req_CREATE_SPACE (req_payload x)) (\<lambda>m. req_payload_update (\<lambda>_. Req_CREATE_SPACE m)),
      MakeOneOfField 3 (StructCodec GetSpaceInfoRequest_kFields) new_GetSpaceInfoRequest
        (\<lambda>x. get_Req_GET_SPACE_INFO (req_payload x)) (\<lambda>m. req_payload_update (\<lambda>_. Req_GET_SPACE_INFO m)),
      MakeOneOfField 4 (StructCodec DeleteSpaceRequest_kFields) new_DeleteSpaceRequest
        (\<lambda>x. get_Req_DELETE_SPACE (req_payload x)) (\<lambda>m. req_payload_update (\<lambda>_. Req_DELETE_SPACE m)),
      MakeOneOfField 5 (StructCodec Empty_kFields) ()
        (\<lambda>x. get_Req_DISABLE_CREATE (req_payload x)) (\<lambda>m. req_payload_update (\<lambda>_. Req_DISABLE_CREATE m)),
      MakeOneOfField 6 (StructCodec WriteSpaceRequest_kFields) new_WriteSpaceRequest
        (\<lambda>x. get_Req_WRITE_SPACE (req_payload x)) (\<lambda>m. req_payload_update (\<lambda>_. Req_WRITE_SPACE m)),
      MakeOneOfField 7 (StructCodec ReadSpaceRequest_kFields) new_ReadSpaceRequest
        (\<lambda>x. get_Req_READ_SPACE (req_payload x)) (\<lambda>m. req_payload_update (\<lambda>_. Req_READ_SPACE m)),
      MakeOneOfField 8 (StructCodec LockSpaceWriteRequest_kFields) new_LockSpaceWriteRequest
        (\<lambda>x. get_Req_LOCK_SPACE_WRITE (req_payload x)) (\<lambda>m. req_payload_update (\<lambda>_. Req_LOCK_SPACE_WRITE m)),
      MakeOneOfField 9 (StructCodec LockSpaceReadRequest_kFields) new_LockSpaceReadRequest
        (\<lambda>x. get_Req_LOCK_SPACE_READ (req_payload x)) (\<lambda>m. req_payload_update (\<lambda>_. Req_LOCK_SPACE_READ m)),
      MakeOneOfField 10 (StructCodec Empty_kFields) ()
        (\<lambda>x. get_Req_WIPE_STORAGE (req_payload x)) (\<lambda>m. req_payload_update (\<lambda>_. Req_WIPE_STORAGE m)),
      MakeOneOfField 11 (StructCodec Empty_kFields) ()
        (\<lambda>x. get_Req_DISABLE_WIPE (req_payload x)) (\<lambda>m. req_payload_update (\<lambda>_. Req_DISABLE_WIPE m))]"

definition Response_kFields :: "Response FieldDescriptor list" where
  "Response_kFields =
     [MakeField 1 U32Codec result (\<lambda>v. result_update (\<lambda>_. v)),
      MakeOneOfField 2 (StructCodec GetInfoResponse_kFields) new_GetInfoResponse
        (\<lambda>x. get_Resp_GET_INFO (resp_payload x)) (\<lambda>m. resp_payload_update (\<lambda>_. Resp_GET_INFO m)),
      MakeOneOfField 3 (StructCodec Empty_kFields) ()
        (\<lambda>x. get_Resp_CREATE_SPACE (resp_payload x)) (\<lambda>m. resp_payload_update (\<lambda>_. Resp_CREATE_SPACE m)),
      MakeOneOfField 4 (StructCodec GetSpaceInfoResponse_kFields) new_GetSpaceInfoResponse
        (\<lambda>x. get_Resp_GET_SPACE_INFO (resp_payload x)) (\<lambda>m. resp_payload_update (\<lambda>_. Resp_GET_SPACE_INFO m)),
      MakeOneOfField 5 (StructCodec Empty_kFields) ()
        (\<lambda>x. get_Resp_DELETE_SPACE (resp_payload x)) (\<lambda>m. resp_payload_update (\<lambda>_. Resp_DELETE_SPACE m)),
      MakeOneOfField 6 (StructCodec Empty_kFields) ()
        (\<lambda>x. get_Resp_DISABLE_CREATE (resp_payload x)) (\<lambda>m. resp_payload_update (\<lambda>_. Resp_DISABLE_CREATE m)),
      MakeOneOfField 7 (StructCodec Empty_kFields) ()
        (\<lambda>x. get_Resp_WRITE_SPACE (resp_payload x)) (\<lambda>m. resp_payload_update (\<lambda>_. Resp_WRITE_SPACE m)),
      MakeOneOfField 8 (StructCodec ReadSpaceResponse_kFields) new_ReadSpaceResponse
        (\<lambda>x. get_Resp_READ_SPACE (resp_payload x)) (\<lambda>m. resp_payload_update (\<lambda>_. Resp_READ_SPACE m)),
      MakeOneOfField 9 (StructCodec Empty_kFields) ()
        (\<lambda>x. get_Resp_LOCK_SPACE_WRITE (resp_payload x)) (\<lambda>m. resp_payload_update (\<lambda>_. Resp_LOCK_SPACE_WRITE m)),
      MakeOneOfField 10 (StructCodec Empty_kFields) ()
        (\<lambda>x. get_Resp_LOCK_SPACE_READ (resp_payload x)) (\<lambda>m. resp_payload_update (\<lambda>_. Resp_LOCK_SPACE_READ m)),
      MakeOneOfField 11 (StructCodec Empty_kFields) ()
        (\<lambda>x. get_Resp_WIPE_STORAGE (resp_payload x)) (\<lambda>m. resp_payload_update (\<lambda>_. Resp_WIPE_STORAGE m)),
      MakeOneOfField 12 (StructCodec Empty_kFields) ()
        (\<lambda>x. get_Resp_DISABLE_WIPE (resp_payload x)) (\<lambda>m. resp_payload_update (\<lambda>_. Resp_DISABLE_WIPE m))]"

section \<open>Encoding and decoding\<close>

text \<open>
  \<open>Encode\<close> into a blob, \<open>Encode\<close> into a caller's buffer (returning the buffer and the new
  \<open>*size\<close>) and \<open>Decode\<close>, for a message type given by its table.
\<close>

definition Encode_blob :: "allocator \<Rightarrow> 'a FieldDescriptor list \<Rightarrow> 'a \<Rightarrow> blob \<Rightarrow> (bool \<times> blob) option" where
  "Encode_blob al descs msg b =
     do { (ok, w) \<leftarrow> EncodeData al descs msg (new_ProtoWriter (OBlob b 0));
          if \<not> ok then Some (False, o_buf (w_stream w))
          else (case OTruncate al (o_buf (w_stream w)) (o_pos (w_stream w)) of
                  (ok, s) \<Rightarrow> Some (ok, o_buf s)) }"

definition Encode_buffer ::
  "allocator \<Rightarrow> 'a FieldDescriptor list \<Rightarrow> 'a \<Rightarrow> byte list \<Rightarrow> (bool \<times> byte list \<times> nat) option" where
  "Encode_buffer al descs msg buffer =
     do { (ok, w) \<leftarrow> EncodeData al descs msg (new_ProtoWriter (OArray buffer 0));
          if \<not> ok then Some (False, o_buf (w_stream w), length buffer)
          else Some (True, o_buf (w_stream w), bytes_written (w_stream w)) }"

definition Decode :: "allocator \<Rightarrow> 'a FieldDescriptor list \<Rightarrow> byte list \<Rightarrow> 'a \<Rightarrow> (bool \<times> 'a) option" where
  "Decode al descs data msg =
     do { (ok, msg', r) \<leftarrow> DecodeData al descs msg (new_ProtoReader (new_InputStreamBuffer data));
          if \<not> ok then Some (False, msg')
          else do { (done, s) \<leftarrow> IDone (r_stream r); Some (done, msg') } }"

section \<open>The tables obey the codec contracts\<close>

definition Empty_specs :: "unit field_spec list" where
  "Empty_specs = []"

lemma Empty_specs_desc: "map fs_desc Empty_specs = Empty_kFields"
  by (simp add: Empty_specs_def Empty_kFields_def)

interpretation empty_table: struct_table Empty_specs "()" True
  by unfold_locales (simp_all add: Empty_specs_def)

definition GetInfoResponse_specs :: "GetInfoResponse field_spec list" where
  "GetInfoResponse_specs =
     [member_spec 1 U64Codec (\<lambda>v. [varint v]) (\<lambda>v k. if k = 0 then 0 else v) gi_total_size (\<lambda>v. gi_total_size_update (\<lambda>_. v)),
      member_spec 2 U64Codec (\<lambda>v. [varint v]) (\<lambda>v k. if k = 0 then 0 else v) gi_available_size (\<lambda>v. gi_available_size_update (\<lambda>_. v)),
      member_spec 3 U32Codec (\<lambda>v. [varint (ucast v)]) (\<lambda>v k. if k = 0 then 0 else v) gi_max_spaces (\<lambda>v. gi_max_spaces_update (\<lambda>_. v)),
      member_spec 4 (VectorCodec U32Codec 4 0) (map (\<lambda>v. varint (ucast v))) (\<lambda>vs k. take k vs) gi_space_list (\<lambda>v. gi_space_list_update (\<lambda>_. v)),
      member_spec 5 U64Codec (\<lambda>v. [varint v]) (\<lambda>v k. if k = 0 then 0 else v) gi_max_space_size (\<lambda>v. gi_max_space_size_update (\<lambda>_. v)),
      member_spec 6 BoolCodec (\<lambda>v. [varint (of_bool v)]) (\<lambda>v k. if k = 0 then False else v) gi_wipe_disabled (\<lambda>v. gi_wipe_disabled_update (\<lambda>_. v))]"

definition CreateSpaceRequest_specs :: "CreateSpaceRequest field_spec list" where
  "CreateSpaceRequest_specs =
     [member_spec 1 U32Codec (\<lambda>v. [varint (ucast v)]) (\<lambda>v k. if k = 0 then 0 else v) cs_index (\<lambda>v. cs_index_update (\<lambda>_. v)),
      member_spec 2 U64Codec (\<lambda>v. [varint v]) (\<lambda>v k. if k = 0 then 0 else v) cs_size (\<lambda>v. cs_size_update (\<lambda>_. v)),
      member_spec 3 (VectorCodec U32Codec 4 0) (map (\<lambda>v. varint (ucast v))) (\<lambda>vs k. take k vs) cs_controls (\<lambda>v. cs_controls_update (\<lambda>_. v)),
      member_spec 4 BlobCodec (\<lambda>v. [v]) (\<lambda>v k. if k = 0 then [] else v) cs_authorization_value (\<lambda>v. cs_authorization_value_update (\<lambda>_. v))]"

definition GetSpaceInfoRequest_specs :: "GetSpaceInfoRequest field_spec list" where
  "GetSpaceInfoRequest_specs =
     [member_spec 1 U32Codec (\<lambda>v. [varint (ucast v)]) (\<lambda>v k. if k = 0 then 0 else v) si_index (\<lambda>v. si_index_update (\<lambda>_. v))]"

definition GetSpaceInfoResponse_specs :: "GetSpaceInfoResponse field_spec list" where
  "GetSpaceInfoResponse_specs =
     [member_spec 1 U64Codec (\<lambda>v. [varint v]) (\<lambda>v k. if k = 0 then 0 else v) sr_size (\<lambda>v. sr_size_update (\<lambda>_. v)),
      member_spec 2 (VectorCodec U32Codec 4 0) (map (\<lambda>v. varint (ucast v))) (\<lambda>vs k. take k vs) sr_controls (\<lambda>v. sr_controls_update (\<lambda>_. v)),
      member_spec 3 BoolCodec (\<lambda>v. [varint (of_bool v)]) (\<lambda>v k. if k = 0 then False else v) sr_read_locked (\<lambda>v. sr_read_locked_update (\<lambda>_. v)),
      member_spec 4 BoolCodec (\<lambda>v. [varint (of_bool v)]) (\<lambda>v k. if k = 0 then False else v) sr_write_locked (\<lambda>v. sr_write_locked_update (\<lambda>_. v))]"

definition DeleteSpaceRequest_specs :: "DeleteSpaceRequest field_spec list" where
  "DeleteSpaceRequest_specs =
     [member_spec 1 U32Codec (\<lambda>v. [varint (ucast v)]) (\<lambda>v k. if k = 0 then 0 else v) ds_index (\<lambda>v. ds_index_update (\<lambda>_. v)),
      member_spec 2 BlobCodec (\<lambda>v. [v]) (\<lambda>v k. if k = 0 then [] else v) ds_authorization_value (\<lambda>v. ds_authorization_value_update (\<lambda>_. v))]"

definition WriteSpaceRequest_specs :: "WriteSpaceRequest field_spec list" where
  "WriteSpaceRequest_specs =
     [member_spec 1 U32Codec (\<lambda>v. [varint (ucast v)]) (\<lambda>v k. if k = 0 then 0 else v) ws_index (\<lambda>v. ws_index_update (\<lambda>_. v)),
      member_spec 2 BlobCodec (\<lambda>v. [v]) (\<lambda>v k. if k = 0 then [] else v) ws_buffer (\<lambda>v. ws_buffer_update (\<lambda>_. v)),
      member_spec 3 BlobCodec (\<lambda>v. [v]) (\<lambda>v k. if k = 0 then [] else v) ws_authorization_value (\<lambda>v. ws_authorization_value_update (\<lambda>_. v))]"

definition ReadSpaceRequest_specs :: "ReadSpaceRequest field_spec list" where
  "ReadSpaceRequest_specs =
     [member_spec 1 U32Codec (\<lambda>v. [varint (ucast v)]) (\<lambda>v k. if k = 0 then 0 else v) rs_index (\<lambda>v. rs_index_update (\<lambda>_. v)),
      member_spec 2 BlobCodec (\<lambda>v. [v]) (\<lambda>v k. if k = 0 then [] else v) rs_authorization_value (\<lambda>v. rs_authorization_value_update (\<lambda>_. v))]"

definition ReadSpaceResponse_specs :: "ReadSpaceResponse field_spec list" where
  "ReadSpaceResponse_specs =
     [member_spec 1 BlobCodec (\<lambda>v. [v]) (\<lambda>v k. if k = 0 then [] else v) rr_buffer (\<lambda>v. rr_buffer_update (\<lambda>_. v))]"

definition LockSpaceWriteRequest_specs :: "LockSpaceWriteRequest field_spec list" where
  "LockSpaceWriteRequest_specs =
     [member_spec 1 U32Codec (\<lambda>v. [varint (ucast v)]) (\<lambda>v k. if k = 0 then 0 else v) lw_index (\<lambda>v. lw_index_update (\<lambda>_. v)),
      member_spec 2 BlobCodec (\<lambda>v. [v]) (\<lambda>v k. if k = 0 then [] else v) lw_authorization_value (\<lambda>v. lw_authorization_value_update (\<lambda>_. v))]"

definition LockSpaceReadRequest_specs :: "LockSpaceReadRequest field_spec list" where
  "LockSpaceReadRequest_specs =
     [member_spec 1 U32Codec (\<lambda>v. [varint (ucast v)]) (\<lambda>v k. if k = 0 then 0 else v) lr_index (\<lambda>v. lr_index_update (\<lambda>_. v)),
      member_spec 2 BlobCodec (\<lambda>v. [v]) (\<lambda>v k. if k = 0 then [] else v) lr_authorization_value (\<lambda>v. lr_authorization_value_update (\<lambda>_. v))]"

lemmas member_laws =
  u32_codec.member_law u64_codec.member_law bool_codec.member_law blob_codec.member_law u32_vector.member_law

lemma GetInfoResponse_specs_desc: "map fs_desc GetInfoResponse_specs = GetInfoResponse_kFields"
  by (simp add: GetInfoResponse_specs_def GetInfoResponse_kFields_def member_spec_def)

lemma CreateSpaceRequest_specs_desc: "map fs_desc CreateSpaceRequest_specs = CreateSpaceRequest_kFields"
  by (simp add: CreateSpaceRequest_specs_def CreateSpaceRequest_kFields_def member_spec_def)

lemma GetSpaceInfoRequest_specs_desc: "map fs_desc GetSpaceInfoRequest_specs = GetSpaceInfoRequest_kFields"
  by (simp add: GetSpaceInfoRequest_specs_def GetSpaceInfoRequest_kFields_def member_spec_def)

lemma GetSpaceInfoResponse_specs_desc: "map fs_desc GetSpaceInfoResponse_specs = GetSpaceInfoResponse_kFields"
  by (simp add: GetSpaceInfoResponse_specs_def GetSpaceInfoResponse_kFields_def member_spec_def)

lemma DeleteSpaceRequest_specs_desc: "map fs_desc DeleteSpaceRequest_specs = DeleteSpaceRequest_kFields"
  by (simp add: DeleteSpaceRequest_specs_def DeleteSpaceRequest_kFields_def member_spec_def)

lemma WriteSpaceRequest_specs_desc: "map fs_desc WriteSpaceRequest_specs = WriteSpaceRequest_kFields"
  by (simp add: WriteSpaceRequest_specs_def WriteSpaceRequest_kFields_def member_spec_def)

lemma ReadSpaceRequest_specs_desc: "map fs_desc ReadSpaceRequest_specs = ReadSpaceRequest_kFields"
  by (simp add: ReadSpaceRequest_specs_def ReadSpaceRequest_kFields_def member_spec_def)

lemma ReadSpaceResponse_specs_desc: "map fs_desc ReadSpaceResponse_specs = ReadSpaceResponse_kFields"
  by (simp add: ReadSpaceResponse_specs_def ReadSpaceResponse_kFields_def member_spec_def)

lemma LockSpaceWriteRequest_specs_desc: "map fs_desc LockSpaceWriteRequest_specs = LockSpaceWriteRequest_kFields"
  by (simp add: LockSpaceWriteRequest_specs_def LockSpaceWriteRequest_kFields_def member_spec_def)

lemma LockSpaceReadRequest_specs_desc: "map fs_desc LockSpaceReadRequest_specs = LockSpaceReadRequest_kFields"
  by (simp add: LockSpaceReadRequest_specs_def LockSpaceReadRequest_kFields_def member_spec_def)

interpretation gi_table: struct_table GetInfoResponse_specs new_GetInfoResponse True
proof (unfold_locales, goal_cases)
  case (1 f)
  then show ?case by (auto simp: GetInfoResponse_specs_def member_laws)
next
  case 2
  show ?case by (simp add: GetInfoResponse_specs_desc GetInfoResponse_kFields_def MakeField_def)
next
  case (3 x)
  show ?case by (cases x) (simp add: GetInfoResponse_specs_def member_spec_def new_GetInfoResponse_def)
qed

interpretation cs_table: struct_table CreateSpaceRequest_specs new_CreateSpaceRequest True
proof (unfold_locales, goal_cases)
  case (1 f)
  then show ?case by (auto simp: CreateSpaceRequest_specs_def member_laws)
next
  case 2
  show ?case by (simp add: CreateSpaceRequest_specs_desc CreateSpaceRequest_kFields_def MakeField_def)
next
  case (3 x)
  show ?case by (cases x) (simp add: CreateSpaceRequest_specs_def member_spec_def new_CreateSpaceRequest_def)
qed

interpretation si_table: struct_table GetSpaceInfoRequest_specs new_GetSpaceInfoRequest True
proof (unfold_locales, goal_cases)
  case (1 f)
  then show ?case by (auto simp: GetSpaceInfoRequest_specs_def member_laws)
next
  case 2
  show ?case by (simp add: GetSpaceInfoRequest_specs_desc GetSpaceInfoRequest_kFields_def MakeField_def)
next
  case (3 x)
  show ?case by (cases x) (simp add: GetSpaceInfoRequest_specs_def member_spec_def new_GetSpaceInfoRequest_def)
qed

interpretation sr_table: struct_table GetSpaceInfoResponse_specs new_GetSpaceInfoResponse True
proof (unfold_locales, goal_cases)
  case (1 f)
  then show ?case by (auto simp: GetSpaceInfoResponse_specs_def member_laws)
next
  case 2
  show ?case by (simp add: GetSpaceInfoResponse_specs_desc GetSpaceInfoResponse_kFields_def MakeField_def)
next
  case (3 x)
  show ?case by (cases x) (simp add: GetSpaceInfoResponse_specs_def member_spec_def new_GetSpaceInfoResponse_def)
qed

interpretation ds_table: struct_table DeleteSpaceRequest_specs new_DeleteSpaceRequest True
proof (unfold_locales, goal_cases)
  case (1 f)
  then show ?case by (auto simp: DeleteSpaceRequest_specs_def member_laws)
next
  case 2
  show ?case by (simp add: DeleteSpaceRequest_specs_desc DeleteSpaceRequest_kFields_def MakeField_def)
next
  case (3 x)
  show ?case by (cases x) (simp add: DeleteSpaceRequest_specs_def member_spec_def new_DeleteSpaceRequest_def)
qed

interpretation ws_table: struct_table WriteSpaceRequest_specs new_WriteSpaceRequest True
proof (unfold_locales, goal_cases)
  case (1 f)
  then show ?case by (auto simp: WriteSpaceRequest_specs_def member_laws)
next
  case 2
  show ?case by (simp add: WriteSpaceRequest_specs_desc WriteSpaceRequest_kFields_def MakeField_def)
next
  case (3 x)
  show ?case by (cases x) (simp add: WriteSpaceRequest_specs_def member_spec_def new_WriteSpaceRequest_def)
qed

interpretation rs_table: struct_table ReadSpaceRequest_specs new_ReadSpaceRequest True
proof (unfold_locales, goal_cases)
  case (1 f)
  then show ?case by (auto simp: ReadSpaceRequest_specs_def member_laws)
next
  case 2
  show ?case by (simp add: ReadSpaceRequest_specs_desc ReadSpaceRequest_kFields_def MakeField_def)
next
  case (3 x)
  show ?case by (cases x) (simp add: ReadSpaceRequest_specs_def member_spec_def new_ReadSpaceRequest_def)
qed

interpretation rr_table: struct_table ReadSpaceResponse_specs new_ReadSpaceResponse True
proof (unfold_locales, goal_cases)
  case (1 f)
  then show ?case by (auto simp: ReadSpaceResponse_specs_def member_laws)
next
  case 2
  show ?case by (simp add: ReadSpaceResponse_specs_desc ReadSpaceResponse_kFields_def MakeField_def)
next
  case (3 x)
  show ?case by (cases x) (simp add: ReadSpaceResponse_specs_def member_spec_def new_ReadSpaceResponse_def)
qed

interpretation lw_table: struct_table LockSpaceWriteRequest_specs new_LockSpaceWriteRequest True
proof (unfold_locales, goal_cases)
  case (1 f)
  then show ?case by (auto simp: LockSpaceWriteRequest_specs_def member_laws)
next
  case 2
  show ?case by (simp add: LockSpaceWriteRequest_specs_desc LockSpaceWriteRequest_kFields_def MakeField_def)
next
  case (3 x)
  show ?case by (cases x) (simp add: LockSpaceWriteRequest_specs_def member_spec_def new_LockSpaceWriteRequest_def)
qed

interpretation lr_table: struct_table LockSpaceReadRequest_specs new_LockSpaceReadRequest True
proof (unfold_locales, goal_cases)
  case (1 f)
  then show ?case by (auto simp: LockSpaceReadRequest_specs_def member_laws)
next
  case 2
  show ?case by (simp add: LockSpaceReadRequest_specs_desc LockSpaceReadRequest_kFields_def MakeField_def)
next
  case (3 x)
  show ?case by (cases x) (simp add: LockSpaceReadRequest_specs_def member_spec_def new_LockSpaceReadRequest_def)
qed

definition Request_specs :: "Request field_spec list" where
  "Request_specs =
     [oneof_spec 1 (StructCodec Empty_kFields) (msg_bytes Empty_specs) ()
        (\<lambda>x. get_Req_GET_INFO (req_payload x)) (\<lambda>m. req_payload_update (\<lambda>_. Req_GET_INFO m)),
      oneof_spec 2 (StructCodec CreateSpaceRequest_kFields) (msg_bytes CreateSpaceRequest_specs) new_CreateSpaceRequest
        (\<lambda>x. get_Req_CREATE_SPACE (req_payload x)) (\<lambda>m. req_payload_update (\<lambda>_. Req_CREATE_SPACE m)),
      oneof_spec 3 (StructCodec GetSpaceInfoRequest_kFields) (msg_bytes GetSpaceInfoRequest_specs) new_GetSpaceInfoRequest
        (\<lambda>x. get_Req_GET_SPACE_INFO (req_payload x)) (\<lambda>m. req_payload_update (\<lambda>_. Req_GET_SPACE_INFO m)),
      oneof_spec 4 (StructCodec DeleteSpaceRequest_kFields) (msg_bytes DeleteSpaceRequest_specs) new_DeleteSpaceRequest
        (\<lambda>x. get_Req_DELETE_SPACE (req_payload x)) (\<lambda>m. req_payload_update (\<lambda>_. Req_DELETE_SPACE m)),
      oneof_spec 5 (StructCodec Empty_kFields) (msg_bytes Empty_specs) ()
        (\<lambda>x. get_Req_DISABLE_CREATE (req_payload x)) (\<lambda>m. req_payload_update (\<lambda>_. Req_DISABLE_CREATE m)),
      oneof_spec 6 (StructCodec WriteSpaceRequest_kFields) (msg_bytes WriteSpaceRequest_specs) new_WriteSpaceRequest
        (\<lambda>x. get_Req_WRITE_SPACE (req_payload x)) (\<lambda>m. req_payload_update (\<lambda>_. Req_WRITE_SPACE m)),
      oneof_spec 7 (StructCodec ReadSpaceRequest_kFields) (msg_bytes ReadSpaceRequest_specs) new_ReadSpaceRequest
        (\<lambda>x. get_Req_READ_SPACE (req_payload x)) (\<lambda>m. req_payload_update (\<lambda>_. Req_READ_SPACE m)),
      oneof_spec 8 (StructCodec LockSpaceWriteRequest_kFields) (msg_bytes LockSpaceWriteRequest_specs) new_LockSpaceWriteRequest
        (\<lambda>x. get_Req_LOCK_SPACE_WRITE (req_payload x)) (\<lambda>m. req_payload_update (\<lambda>_. Req_LOCK_SPACE_WRITE m)),
      oneof_spec 9 (StructCodec LockSpaceReadRequest_kFields) (msg_bytes LockSpaceReadRequest_specs) new_LockSpaceReadRequest
        (\<lambda>x. get_Req_LOCK_SPACE_READ (req_payload x)) (\<lambda>m. req_payload_update (\<lambda>_. Req_LOCK_SPACE_READ m)),
      oneof_spec 10 (StructCodec Empty_kFields) (msg_bytes Empty_specs) ()
        (\<lambda>x. get_Req_WIPE_STORAGE (req_payload x)) (\<lambda>m. req_payload_update (\<lambda>_. Req_WIPE_STORAGE m)),
      oneof_spec 11 (StructCodec Empty_kFields) (msg_bytes Empty_specs) ()
        (\<lambda>x. get_Req_DISABLE_WIPE (req_payload x)) (\<lambda>m. req_payload_update (\<lambda>_. Req_DISABLE_WIPE m))]"

definition Response_specs :: "u32 \<Rightarrow> Response field_spec list" where
  "Response_specs nv_success =
     [member_spec 1 U32Codec (\<lambda>v. [varint (ucast v)]) (\<lambda>v k. if k = 0 then nv_success else v)
        result (\<lambda>v. result_update (\<lambda>_. v)),
      oneof_spec 2 (StructCodec GetInfoResponse_kFields) (msg_bytes GetInfoResponse_specs) new_GetInfoResponse
        (\<lambda>x. get_Resp_GET_INFO (resp_payload x)) (\<lambda>m. resp_payload_update (\<lambda>_. Resp_GET_INFO m)),
      oneof_spec 3 (StructCodec Empty_kFields) (msg_bytes Empty_specs) ()
        (\<lambda>x. get_Resp_CREATE_SPACE (resp_payload x)) (\<lambda>m. resp_payload_update (\<lambda>_. Resp_CREATE_SPACE m)),
      oneof_spec 4 (StructCodec GetSpaceInfoResponse_kFields) (msg_bytes GetSpaceInfoResponse_specs) new_GetSpaceInfoResponse
        (\<lambda>x. get_Resp_GET_SPACE_INFO (resp_payload x)) (\<lambda>m. resp_payload_update (\<lambda>_. Resp_GET_SPACE_INFO m)),
      oneof_spec 5 (StructCodec Empty_kFields) (msg_bytes Empty_specs) ()
        (\<lambda>x. get_Resp_DELETE_SPACE (resp_payload x)) (\<lambda>m. resp_payload_update (\<lambda>_. Resp_DELETE_SPACE m)),
      oneof_spec 6 (StructCodec Empty_kFields) (msg_bytes Empty_specs) ()
        (\<lambda>x. get_Resp_DISABLE_CREATE (resp_payload x)) (\<lambda>m. resp_payload_update (\<lambda>_. Resp_DISABLE_CREATE m)),
      oneof_spec 7 (StructCodec Empty_kFields) (msg_bytes Empty_specs) ()
        (\<lambda>x. get_Resp_WRITE_SPACE (resp_payload x)) (\<lambda>m. resp_payload_update (\<lambda>_. Resp_WRITE_SPACE m)),
      oneof_spec 8 (StructCodec ReadSpaceResponse_kFields) (msg_bytes ReadSpaceResponse_specs) new_ReadSpaceResponse
        (\<lambda>x. get_Resp_READ_SPACE (resp_payload x)) (\<lambda>m. resp_payload_update (\<lambda>_. Resp_READ_SPACE m)),
      oneof_spec 9 (StructCodec Empty_kFields) (msg_bytes Empty_specs) ()
        (\<lambda>x. get_Resp_LOCK_SPACE_WRITE (resp_payload x)) (\<lambda>m. resp_payload_update (\<lambda>_. Resp_LOCK_SPACE_WRITE m)),
      oneof_spec 10 (StructCodec Empty_kFields) (msg_bytes Empty_specs) ()
        (\<lambda>x. get_Resp_LOCK_SPACE_READ (resp_payload x)) (\<lambda>m. resp_payload_update (\<lambda>_. Resp_LOCK_SPACE_READ m)),
      oneof_spec 11 (StructCodec Empty_kFields) (msg_bytes Empty_specs) ()
        (\<lambda>x. get_Resp_WIPE_STORAGE (resp_payload x)) (\<lambda>m. resp_payload_update (\<lambda>_. Resp_WIPE_STORAGE m)),
      oneof_spec 12 (StructCodec Empty_kFields) (msg_bytes Empty_specs) ()
        (\<lambda>x. get_Resp_DISABLE_WIPE (resp_payload x)) (\<lambda>m. resp_payload_update (\<lambda>_. Resp_DISABLE_WIPE m))]"

lemma StructCodec_oneof:
  assumes "struct_table fs fresh True" "map fs_desc fs = descs"
  shows "field_law False (oneof_spec number (StructCodec descs) (msg_bytes fs) fresh proj put)"
  using wire_codec.oneof_law [OF struct_wire [OF assms(1)], of "msg_bytes fs"] assms(2) by simp

lemma field_law_False: "field_law True f \<Longrightarrow> field_law False f"
  by (auto simp: field_law_def desc_safe_def stream_ok_def)

lemma result_law:
  "field_law False (member_spec number U32Codec (\<lambda>v. [varint (ucast v)])
     (\<lambda>v k. if k = 0 then nv_success else v) result (\<lambda>v. result_update (\<lambda>_. v)))"
  unfolding U32Codec_def
  by (rule field_law_False, rule wire_codec.member_law [OF VarintCodec_wire])
     (simp_all add: ucast_u32_u64)

lemmas oneof_laws =
  StructCodec_oneof [OF empty_table.struct_table_axioms Empty_specs_desc]
  StructCodec_oneof [OF gi_table.struct_table_axioms GetInfoResponse_specs_desc]
  StructCodec_oneof [OF cs_table.struct_table_axioms CreateSpaceRequest_specs_desc]
  StructCodec_oneof [OF si_table.struct_table_axioms GetSpaceInfoRequest_specs_desc]
  StructCodec_oneof [OF sr_table.struct_table_axioms GetSpaceInfoResponse_specs_desc]
  StructCodec_oneof [OF ds_table.struct_table_axioms DeleteSpaceRequest_specs_desc]
  StructCodec_oneof [OF ws_table.struct_table_axioms WriteSpaceRequest_specs_desc]
  StructCodec_oneof [OF rs_table.struct_table_axioms ReadSpaceRequest_specs_desc]
  StructCodec_oneof [OF rr_table.struct_table_axioms ReadSpaceResponse_specs_desc]
  StructCodec_oneof [OF lw_table.struct_table_axioms LockSpaceWriteRequest_specs_desc]
  StructCodec_oneof [OF lr_table.struct_table_axioms LockSpaceReadRequest_specs_desc]

lemmas get_Req_defs =
  get_Req_GET_INFO_def get_Req_CREATE_SPACE_def get_Req_GET_SPACE_INFO_def get_Req_DELETE_SPACE_def get_Req_DISABLE_CREATE_def get_Req_WRITE_SPACE_def get_Req_READ_SPACE_def get_Req_LOCK_SPACE_WRITE_def get_Req_LOCK_SPACE_READ_def get_Req_WIPE_STORAGE_def get_Req_DISABLE_WIPE_def

lemma Request_specs_desc: "map fs_desc Request_specs = Request_kFields"
  by (simp add: Request_specs_def Request_kFields_def oneof_spec_def member_spec_def)

lemma Request_laws: "f \<in> set Request_specs \<Longrightarrow> field_law False f"
  by (auto simp: Request_specs_def oneof_laws)

interpretation req_table: struct_table "Request_specs" "new_Request" False
proof (unfold_locales, goal_cases)
  case (1 f)
  then show ?case by (rule Request_laws)
next
  case 2
  show ?case by (simp add: Request_specs_desc Request_kFields_def MakeField_def MakeOneOfField_def)
next
  case (3 x)
  show ?case
    by (cases x; cases "req_payload x")
       (simp_all add: Request_specs_def oneof_spec_def member_spec_def new_Request_def get_Req_defs)
qed

lemmas get_Resp_defs =
  get_Resp_GET_INFO_def get_Resp_CREATE_SPACE_def get_Resp_GET_SPACE_INFO_def get_Resp_DELETE_SPACE_def get_Resp_DISABLE_CREATE_def get_Resp_WRITE_SPACE_def get_Resp_READ_SPACE_def get_Resp_LOCK_SPACE_WRITE_def get_Resp_LOCK_SPACE_READ_def get_Resp_WIPE_STORAGE_def get_Resp_DISABLE_WIPE_def

lemma Response_specs_desc: "map fs_desc (Response_specs nv_success) = Response_kFields"
  by (simp add: Response_specs_def Response_kFields_def oneof_spec_def member_spec_def)

lemma Response_laws: "f \<in> set (Response_specs nv_success) \<Longrightarrow> field_law False f"
  by (auto simp: Response_specs_def oneof_laws result_law)

interpretation resp_table: struct_table "(Response_specs nv_success)" "(new_Response nv_success)" False
  for nv_success
proof (unfold_locales, goal_cases)
  case (1 f)
  then show ?case by (rule Response_laws)
next
  case 2
  show ?case by (simp add: Response_specs_desc Response_kFields_def MakeField_def MakeOneOfField_def)
next
  case (3 x)
  show ?case
    by (cases x; cases "resp_payload x")
       (simp_all add: Response_specs_def oneof_spec_def member_spec_def new_Response_def get_Resp_defs)
qed

section \<open>Round trip and safety of messages\<close>

context struct_table
begin

lemma Encode_blob_cases:
  "(\<exists>b. Encode_blob al (map fs_desc fs) x [] = Some (False, b)) \<and> \<not> alloc_total al \<or>
    Encode_blob al (map fs_desc fs) x [] = Some (True, msg_bytes fs x)"
proof -
  let ?w = "new_ProtoWriter (OBlob [] 0)"
  have wf: "o_wf (w_stream ?w)" by (simp add: o_wf_def new_ProtoWriter_def)
  obtain ok w' where w': "EncodeData al (map fs_desc fs) x ?w = Some (ok, w')"
      "ok \<longrightarrow> o_emits (OBlob [] 0) (msg_bytes fs x) (w_stream w')"
      "o_room al (OBlob [] 0) (length (msg_bytes fs x)) \<longrightarrow> ok"
    using encode_data [of al x, unfolded w_writes_def, rule_format, OF wf]
    by (auto simp: new_ProtoWriter_def)
  show ?thesis
  proof (cases ok)
    case False
    then show ?thesis using w'(1,3) by (simp add: Encode_blob_def)
  next
    case True
    then obtain b p where b: "w_stream w' = OBlob b p" "p = length (msg_bytes fs x)"
        "take p b = msg_bytes fs x" "p \<le> length b"
      using OTruncate_emits w'(2) by blast
    then have "Blob_Resize al p b = (True, msg_bytes fs x) \<or>
        Blob_Resize al p b = (False, b) \<and> \<not> alloc_total al"
      by (auto simp: Blob_Resize_def alloc_total_def)
    then show ?thesis using True w'(1) b(1) by (auto simp: Encode_blob_def OTruncate_def)
  qed
qed

lemma Encode_buffer_cases:
  "\<exists>ok buf n. Encode_buffer al (map fs_desc fs) x buffer = Some (ok, buf, n) \<and>
    (ok \<longleftrightarrow> length (msg_bytes fs x) \<le> length buffer) \<and>
    (ok \<longrightarrow> length buf = length buffer \<and> n = length (msg_bytes fs x) \<and> take n buf = msg_bytes fs x)"
proof -
  let ?w = "new_ProtoWriter (OArray buffer 0)"
  have wf: "o_wf (w_stream ?w)" by (simp add: o_wf_def new_ProtoWriter_def)
  obtain ok w' where w': "EncodeData al (map fs_desc fs) x ?w = Some (ok, w')"
      "ok \<longrightarrow> o_emits (OArray buffer 0) (msg_bytes fs x) (w_stream w')"
      "o_room al (OArray buffer 0) (length (msg_bytes fs x)) \<longrightarrow> ok"
    using encode_data [of al x, unfolded w_writes_def, rule_format, OF wf]
    by (auto simp: new_ProtoWriter_def)
  then show ?thesis
    by (cases ok; cases "w_stream w'") (auto simp: Encode_buffer_def)
qed

lemma Decode_msg_bytes:
  assumes "alloc_total al" "length (msg_bytes fs x) < 2 ^ 64"
  shows "Decode al (map fs_desc fs) (msg_bytes fs x) fresh = Some (True, x)"
proof -
  let ?m = "msg_bytes fs x"
  let ?r = "new_ProtoReader (new_InputStreamBuffer ?m)"
  have r: "i_wf (r_stream ?r)" "avail (r_stream ?r) = ?m"
    by (simp_all add: new_ProtoReader_def new_InputStreamBuffer_def avail_def window_def)
  have "IDone (i_skip (length ?m) (r_stream ?r)) = Some (True, i_skip (length ?m) (r_stream ?r))"
      "IDone (i_skip (length ?m) (new_InputStreamBuffer ?m)) = Some (True, i_skip (length ?m) (new_InputStreamBuffer ?m))"
    by (simp_all add: new_ProtoReader_def new_InputStreamBuffer_def IDone_def i_skip_def)
  then show ?thesis using decode_data [OF assms r]
    by (auto simp: Decode_def new_ProtoReader_def)
qed

lemma Decode_safe: "\<exists>ok x'. Decode al (map fs_desc fs) data x = Some (ok, x')"
proof -
  let ?r = "new_ProtoReader (new_InputStreamBuffer data)"
  have "i_wf (r_stream ?r)" "stream_ok deep (r_stream ?r)"
    by (simp_all add: new_ProtoReader_def stream_ok_def) (simp add: new_InputStreamBuffer_def)
  then obtain ok x' r' where "DecodeData al (map fs_desc fs) x ?r = Some (ok, x', r')"
      "i_same (r_stream ?r) (r_stream r')"
    using DecodeData_safe [OF descs_safe] by blast
  moreover from this(2) obtain dn s' where "IDone (r_stream r') = Some (dn, s')"
    using IDone_more IDone_exhausted unfolding i_same_def by blast
  ultimately show ?thesis by (cases ok) (auto simp: Decode_def)
qed

end

end
