(* ===== verification/Nvram_Manager.thy ===== *)
theory Nvram_Manager
  imports Nvram_Messages
begin

text \<open>
  The access-controlled NVRAM service: \<open>NvramManager\<close> of
  \<^verbatim>\<open>src/nvram/core/nvram_manager.cpp\<close>. The manager keeps one entry per allocated
  space in memory and the space records in storage. Every handler is a function on the manager and
  the storage state; \<^term>\<open>None\<close> is undefined behaviour (an access outside \<open>spaces\<close>, a
  shift by 32 or more, an \<open>NVRAM_CHECK\<close> that fails).
\<close>

section \<open>Environment and state\<close>

datatype nvram_control =
    NV_CONTROL_PERSISTENT_WRITE_LOCK | NV_CONTROL_BOOT_WRITE_LOCK | NV_CONTROL_BOOT_READ_LOCK
  | NV_CONTROL_WRITE_AUTHORIZATION | NV_CONTROL_READ_AUTHORIZATION | NV_CONTROL_WRITE_EXTEND

datatype nvram_result =
    NV_RESULT_SUCCESS | NV_RESULT_INTERNAL_ERROR | NV_RESULT_ACCESS_DENIED
  | NV_RESULT_INVALID_PARAMETER | NV_RESULT_SPACE_DOES_NOT_EXIST | NV_RESULT_SPACE_ALREADY_EXISTS
  | NV_RESULT_OPERATION_DISABLED

text \<open>
  What the manager is built on and the repository does not contain: the heap, the storage layer, the
  values of the enumerators of \<^verbatim>\<open>hardware/nvram_defs.h\<close>, OpenSSL's \<open>SHA256\<close> and
  the build flag \<^verbatim>\<open>NVRAM_WIPE_STORAGE_SUPPORT\<close>.
\<close>

record 's nv_env =
  e_al :: allocator
  e_sto :: "'s storage_ops"
  nv_control :: "nvram_control \<Rightarrow> nat"
  nv_result :: "nvram_result \<Rightarrow> u32"
  openssl_SHA256 :: "blob \<Rightarrow> blob"
  wipe_support :: bool

record SpaceListEntry =
  sl_index :: u32
  sl_write_locked :: bool
  sl_read_locked :: bool

record NvramManager =
  initialized :: bool
  disable_create :: bool
  disable_wipe :: bool
  num_spaces :: nat
  spaces :: "SpaceListEntry list"

definition kMaxSpaces :: nat where "kMaxSpaces = 32"
definition kMaxSpaceSize :: nat where "kMaxSpaceSize = 1024"
definition kMaxAuthSize :: nat where "kMaxAuthSize = 32"
definition kSHA256DigestSize :: nat where "kSHA256DigestSize = 32"

text \<open>\<open>index\<close> has no initialiser; the value does not matter because the entries are not in use.\<close>

definition new_NvramManager :: "SpaceListEntry \<Rightarrow> NvramManager" where
  "new_NvramManager e =
     \<lparr>initialized = False, disable_create = False, disable_wipe = False, num_spaces = 0,
      spaces = replicate kMaxSpaces e\<rparr>"

definition get_entry :: "nat \<Rightarrow> NvramManager \<Rightarrow> SpaceListEntry option" where
  "get_entry i m = (if i < length (spaces m) then Some (spaces m ! i) else None)"

definition set_entry :: "nat \<Rightarrow> SpaceListEntry \<Rightarrow> NvramManager \<Rightarrow> NvramManager option" where
  "set_entry i e m = (if i < length (spaces m) then Some (m\<lparr>spaces := (spaces m)[i := e]\<rparr>) else None)"

section \<open>Helpers\<close>

definition control_bit :: "'s nv_env \<Rightarrow> nvram_control \<Rightarrow> u32" where
  "control_bit e c = push_bit (nv_control e c) 1"

definition has_control :: "'s nv_env \<Rightarrow> NvramSpace \<Rightarrow> nvram_control \<Rightarrow> bool" where
  "has_control e sp c = HasControl sp (nv_control e c)"

definition kSupportedControlsMask :: "'s nv_env \<Rightarrow> u32" where
  "kSupportedControlsMask e =
     ((((control_bit e NV_CONTROL_PERSISTENT_WRITE_LOCK OR
         control_bit e NV_CONTROL_BOOT_WRITE_LOCK) OR
        control_bit e NV_CONTROL_BOOT_READ_LOCK) OR
       control_bit e NV_CONTROL_WRITE_AUTHORIZATION) OR
      control_bit e NV_CONTROL_READ_AUTHORIZATION) OR
     control_bit e NV_CONTROL_WRITE_EXTEND"

fun GetControlsVector_loop :: "allocator \<Rightarrow> NvramSpace \<Rightarrow> nat list \<Rightarrow> u32 list \<Rightarrow> nvram_result \<times> u32 list" where
  "GetControlsVector_loop al sp [] cs = (NV_RESULT_SUCCESS, cs)"
| "GetControlsVector_loop al sp (control # rest) cs =
     (if HasControl sp control then
        (if grow_fails al 4 (length cs) then (NV_RESULT_INTERNAL_ERROR, cs)
         else GetControlsVector_loop al sp rest (cs @ [of_nat control]))
      else GetControlsVector_loop al sp rest cs)"

definition GetControlsVector :: "allocator \<Rightarrow> NvramSpace \<Rightarrow> u32 list \<Rightarrow> nvram_result \<times> u32 list" where
  "GetControlsVector al sp cs = GetControlsVector_loop al sp [0..<32] cs"

definition ConstantTimeEquals :: "blob \<Rightarrow> blob \<Rightarrow> bool" where
  "ConstantTimeEquals a b =
     (if length a \<noteq> length b then False
      else foldl (\<lambda>result (x, y). result OR (x XOR y)) 0 (zip a b) = 0)"

fun SanitizeStorageStatus :: "Status \<Rightarrow> Status" where
  "SanitizeStorageStatus kSuccess = kSuccess"
| "SanitizeStorageStatus kNotFound = kNotFound"
| "SanitizeStorageStatus kStorageError = kStorageError"

definition crypto_SHA256 :: "'s nv_env \<Rightarrow> blob \<Rightarrow> nat \<Rightarrow> blob" where
  "crypto_SHA256 e data digest_size =
     (let buffer = openssl_SHA256 e data
      in if digest_size < kSHA256DigestSize then take digest_size buffer
         else buffer @ replicate (digest_size - kSHA256DigestSize) 0)"

section \<open>Storage access\<close>

definition WriteHeader ::
  "'s nv_env \<Rightarrow> u32 option \<Rightarrow> NvramManager \<Rightarrow> 's \<Rightarrow> (nvram_result \<times> 's) option" where
  "WriteHeader e prov m s =
     do { (ok, v) \<leftarrow> Vector_Resize (e_al e) 4 (\<lambda>_. 0 :: u32) (num_spaces m) Vector_empty;
          if \<not> ok then Some (NV_RESULT_INTERNAL_ERROR, s)
          else if \<not> num_spaces m \<le> length (spaces m) then None
          else do { (status, s') \<leftarrow> persistence_StoreHeader (e_al e) (e_sto e)
                      (let h = new_NvramHeader\<lparr>version := kVersion\<rparr>;
                           h = (if disable_create m then Header_SetFlag kFlagDisableCreate h else h)
                       in h\<lparr>allocated_indices :=
                              memcpy_at 0 (map sl_index (take (num_spaces m) (spaces m))) (v_elems v),
                            provisional_index := prov\<rparr>) s;
                    Some (if SanitizeStorageStatus status \<noteq> kSuccess then NV_RESULT_INTERNAL_ERROR
                          else NV_RESULT_SUCCESS, s') } }"

definition WriteSpaceData ::
  "'s nv_env \<Rightarrow> u32 \<Rightarrow> NvramSpace \<Rightarrow> 's \<Rightarrow> (nvram_result \<times> 's) option" where
  "WriteSpaceData e index sp s =
     do { (status, s') \<leftarrow> persistence_StoreSpace (e_al e) (e_sto e) index sp s;
          Some (if SanitizeStorageStatus status \<noteq> kSuccess then NV_RESULT_INTERNAL_ERROR
                else NV_RESULT_SUCCESS, s') }"

text \<open>The loop reads \<open>spaces[0]\<close> to \<open>spaces[num_spaces - 1]\<close>.\<close>

definition FindSpace :: "u32 \<Rightarrow> NvramManager \<Rightarrow> nat option" where
  "FindSpace space_index m =
     (if \<not> num_spaces m \<le> length (spaces m) then None
      else Some (case find_index (\<lambda>x. sl_index x = space_index) (take (num_spaces m) (spaces m)) of
                   Some i \<Rightarrow> i | None \<Rightarrow> kMaxSpaces))"

text \<open>A \<open>SpaceRecord\<close>: \<open>transient\<close> points to \<open>spaces[array_index]\<close>.\<close>

record SpaceRecord =
  array_index :: nat
  transient :: SpaceListEntry
  persistent :: NvramSpace

definition LoadSpaceRecord ::
  "'s nv_env \<Rightarrow> u32 \<Rightarrow> NvramManager \<Rightarrow> 's \<Rightarrow> ((nvram_result + SpaceRecord) \<times> 's) option" where
  "LoadSpaceRecord e index m s =
     do { i \<leftarrow> FindSpace index m;
          if i = kMaxSpaces then Some (Inl NV_RESULT_SPACE_DOES_NOT_EXIST, s)
          else do { t \<leftarrow> get_entry i m;
                    (status, sp, s') \<leftarrow> persistence_LoadSpace (e_al e) (e_sto e) index s;
                    Some (case SanitizeStorageStatus status of
                            kStorageError \<Rightarrow> Inl NV_RESULT_INTERNAL_ERROR
                          | kNotFound \<Rightarrow> Inl NV_RESULT_INTERNAL_ERROR
                          | kSuccess \<Rightarrow> Inr \<lparr>array_index = i, transient = t, persistent = sp\<rparr>, s') } }"

definition CheckWriteAccess :: "'s nv_env \<Rightarrow> SpaceRecord \<Rightarrow> blob \<Rightarrow> nvram_result" where
  "CheckWriteAccess e r auth =
     (if has_control e (persistent r) NV_CONTROL_PERSISTENT_WRITE_LOCK \<and>
         Space_HasFlag (persistent r) kFlagWriteLocked then NV_RESULT_OPERATION_DISABLED
      else if \<not> has_control e (persistent r) NV_CONTROL_PERSISTENT_WRITE_LOCK \<and>
              has_control e (persistent r) NV_CONTROL_BOOT_WRITE_LOCK \<and>
              sl_write_locked (transient r) then NV_RESULT_OPERATION_DISABLED
      else if has_control e (persistent r) NV_CONTROL_WRITE_AUTHORIZATION \<and>
              \<not> ConstantTimeEquals (authorization_value (persistent r)) auth
           then NV_RESULT_ACCESS_DENIED
      else NV_RESULT_SUCCESS)"

definition CheckReadAccess :: "'s nv_env \<Rightarrow> SpaceRecord \<Rightarrow> blob \<Rightarrow> nvram_result" where
  "CheckReadAccess e r auth =
     (if has_control e (persistent r) NV_CONTROL_BOOT_READ_LOCK \<and> sl_read_locked (transient r)
      then NV_RESULT_OPERATION_DISABLED
      else if has_control e (persistent r) NV_CONTROL_READ_AUTHORIZATION \<and>
              \<not> ConstantTimeEquals (authorization_value (persistent r)) auth
           then NV_RESULT_ACCESS_DENIED
      else NV_RESULT_SUCCESS)"

section \<open>Initialisation\<close>

definition provisional_in_storage ::
  "'s nv_env \<Rightarrow> u32 option \<Rightarrow> 's \<Rightarrow> (bool \<times> 's) option" where
  "provisional_in_storage e prov s =
     (case prov of
        None \<Rightarrow> Some (False, s)
      | Some index \<Rightarrow>
          do { (status, sp, s') \<leftarrow> persistence_LoadSpace (e_al e) (e_sto e) index s;
               Some (case SanitizeStorageStatus status of
                       kStorageError \<Rightarrow> True | kNotFound \<Rightarrow> False | kSuccess \<Rightarrow> True, s') })"

text \<open>The loop over \<open>allocated_indices\<close>; the boolean is \<open>delete_provisional_space\<close>.\<close>

fun Initialize_spaces ::
  "u32 option \<Rightarrow> bool \<Rightarrow> u32 list \<Rightarrow> bool \<Rightarrow> NvramManager \<Rightarrow> (bool \<times> NvramManager) option" where
  "Initialize_spaces prov in_storage [] del m = Some (del, m)"
| "Initialize_spaces prov in_storage (index # rest) del m =
     (if prov = Some index \<and> \<not> in_storage then Initialize_spaces prov in_storage rest del m
      else do { m' \<leftarrow> set_entry (num_spaces m)
                        \<lparr>sl_index = index, sl_write_locked = False, sl_read_locked = False\<rparr> m;
                Initialize_spaces prov in_storage rest (if prov = Some index then False else del)
                  (m'\<lparr>num_spaces := num_spaces m' + 1\<rparr>) })"

definition delete_provisional ::
  "'s nv_env \<Rightarrow> u32 option \<Rightarrow> bool \<Rightarrow> 's \<Rightarrow> bool \<times> 's" where
  "delete_provisional e prov del s =
     (case (del, prov) of
        (True, Some index) \<Rightarrow>
          (case persistence_DeleteSpace (e_sto e) index s of
             (status, s') \<Rightarrow> (SanitizeStorageStatus status \<noteq> kStorageError, s'))
      | _ \<Rightarrow> (True, s))"

definition Initialize_from ::
  "'s nv_env \<Rightarrow> NvramHeader \<Rightarrow> NvramManager \<Rightarrow> 's \<Rightarrow> (bool \<times> NvramManager \<times> 's) option" where
  "Initialize_from e header m s =
     do { (in_storage, s) \<leftarrow> provisional_in_storage e (provisional_index header) s;
          if length (allocated_indices header) > kMaxSpaces then Some (False, m, s)
          else do {
            (del, m) \<leftarrow> Initialize_spaces (provisional_index header) in_storage
                          (allocated_indices header) (provisional_index header \<noteq> None) m;
            case delete_provisional e (provisional_index header) del s of
              (False, s) \<Rightarrow> Some (False, m, s)
            | (True, s) \<Rightarrow>
                (let m = m\<lparr>disable_create := Header_HasFlag header kFlagDisableCreate, initialized := True\<rparr>
                 in if provisional_index header \<noteq> None
                    then do { (_, s) \<leftarrow> WriteHeader e None m s; Some (True, m, s) }
                    else Some (True, m, s)) } }"

definition Initialize :: "'s nv_env \<Rightarrow> NvramManager \<Rightarrow> 's \<Rightarrow> (bool \<times> NvramManager \<times> 's) option" where
  "Initialize e m s =
     (if initialized m then Some (True, m, s)
      else do { (status, header, s) \<leftarrow> persistence_LoadHeader (e_al e) (e_sto e) s;
                case SanitizeStorageStatus status of
                  kStorageError \<Rightarrow> Some (False, m, s)
                | kNotFound \<Rightarrow> Some (True, m\<lparr>initialized := True\<rparr>, s)
                | kSuccess \<Rightarrow> if version header > kVersion then Some (False, m, s)
                              else Initialize_from e header m s })"

section \<open>Handlers\<close>

definition GetInfo ::
  "'s nv_env \<Rightarrow> NvramManager \<Rightarrow> 's \<Rightarrow> (nvram_result \<times> GetInfoResponse \<times> NvramManager \<times> 's) option" where
  "GetInfo e m s =
     do { (ok, m, s) \<leftarrow> Initialize e m s;
          if \<not> ok then Some (NV_RESULT_INTERNAL_ERROR, new_GetInfoResponse, m, s)
          else do {
            let resp = new_GetInfoResponse\<lparr>
                  gi_total_size := of_nat (kMaxSpaceSize * kMaxSpaces),
                  gi_available_size := of_nat kMaxSpaceSize * (of_nat kMaxSpaces - of_nat (num_spaces m)),
                  gi_max_space_size := of_nat kMaxSpaceSize,
                  gi_max_spaces := of_nat kMaxSpaces\<rparr>;
            (ok, v) \<leftarrow> Vector_Resize (e_al e) 4 (\<lambda>_. 0 :: u32) (num_spaces m) Vector_empty;
            if \<not> ok then Some (NV_RESULT_INTERNAL_ERROR, resp, m, s)
            else if \<not> num_spaces m \<le> length (spaces m) then None
            else Some (NV_RESULT_SUCCESS,
                       resp\<lparr>gi_space_list :=
                              memcpy_at 0 (map sl_index (take (num_spaces m) (spaces m))) (v_elems v),
                            gi_wipe_disabled := disable_wipe m\<rparr>, m, s) } }"

fun request_controls :: "u32 list \<Rightarrow> u32 \<Rightarrow> u32 option" where
  "request_controls [] cs = Some cs"
| "request_controls (control # rest) cs =
     (if \<not> unat control < 32 then None
      else request_controls rest (cs OR push_bit (unat control) 1))"

definition CreateSpace_record ::
  "'s nv_env \<Rightarrow> CreateSpaceRequest \<Rightarrow> u32 \<Rightarrow> NvramManager \<Rightarrow> 's \<Rightarrow> (nvram_result \<times> NvramManager \<times> 's) option" where
  "CreateSpace_record e req cs m s =
     do { m \<leftarrow> set_entry (num_spaces m)
                 \<lparr>sl_index = cs_index req, sl_write_locked = False, sl_read_locked = False\<rparr> m;
          let m = m\<lparr>num_spaces := num_spaces m + 1\<rparr>;
          let sp = new_NvramSpace\<lparr>s_flags := 0, controls := cs\<rparr>;
          let (ok, auth) = (if has_control e sp NV_CONTROL_WRITE_AUTHORIZATION \<or>
                               has_control e sp NV_CONTROL_READ_AUTHORIZATION
                            then Blob_Assign (e_al e) (cs_authorization_value req) (authorization_value sp)
                            else (True, authorization_value sp));
          if \<not> ok then Some (NV_RESULT_INTERNAL_ERROR, m, s)
          else do {
            let (ok, data) = Blob_Resize (e_al e) (unat (cs_size req)) (contents sp);
            if \<not> ok then Some (NV_RESULT_INTERNAL_ERROR, m, s)
            else do {
              let sp = sp\<lparr>authorization_value := auth,
                          contents := memcpy_at 0 (replicate (unat (cs_size req)) 0) data\<rparr>;
              (res, s) \<leftarrow> WriteHeader e (Some (cs_index req)) m s;
              if res \<noteq> NV_RESULT_SUCCESS
              then Some (res, m\<lparr>num_spaces := num_spaces m - 1\<rparr>, s)
              else do { (res, s) \<leftarrow> WriteSpaceData e (cs_index req) sp s;
                        Some (res, if res \<noteq> NV_RESULT_SUCCESS then m\<lparr>num_spaces := num_spaces m - 1\<rparr>
                                   else m, s) } } } }"

text \<open>\<open>CreateSpace\<close> on an initialised manager: the checks on the request.\<close>

definition CreateSpace_initialized ::
  "'s nv_env \<Rightarrow> CreateSpaceRequest \<Rightarrow> NvramManager \<Rightarrow> 's \<Rightarrow> (nvram_result \<times> NvramManager \<times> 's) option" where
  "CreateSpace_initialized e req m s =
     (if disable_create m then Some (NV_RESULT_OPERATION_DISABLED, m, s)
      else do {
        i \<leftarrow> FindSpace (cs_index req) m;
        if i \<noteq> kMaxSpaces then Some (NV_RESULT_SPACE_ALREADY_EXISTS, m, s)
        else if num_spaces m + 1 > kMaxSpaces then Some (NV_RESULT_INVALID_PARAMETER, m, s)
        else if unat (cs_size req) > kMaxSpaceSize then Some (NV_RESULT_INVALID_PARAMETER, m, s)
        else if length (cs_authorization_value req) > kMaxAuthSize
        then Some (NV_RESULT_INVALID_PARAMETER, m, s)
        else do {
          cs \<leftarrow> request_controls (cs_controls req) 0;
          if cs AND NOT (kSupportedControlsMask e) \<noteq> 0 then Some (NV_RESULT_INVALID_PARAMETER, m, s)
          else if cs AND control_bit e NV_CONTROL_PERSISTENT_WRITE_LOCK \<noteq> 0 \<and>
                  cs AND control_bit e NV_CONTROL_BOOT_WRITE_LOCK \<noteq> 0
          then Some (NV_RESULT_INVALID_PARAMETER, m, s)
          else if cs AND control_bit e NV_CONTROL_WRITE_EXTEND \<noteq> 0 \<and>
                  unat (cs_size req) \<noteq> kSHA256DigestSize
          then Some (NV_RESULT_INVALID_PARAMETER, m, s)
          else CreateSpace_record e req cs m s } })"

definition CreateSpace ::
  "'s nv_env \<Rightarrow> CreateSpaceRequest \<Rightarrow> NvramManager \<Rightarrow> 's \<Rightarrow> (nvram_result \<times> NvramManager \<times> 's) option" where
  "CreateSpace e req m s =
     do { (ok, m, s) \<leftarrow> Initialize e m s;
          if \<not> ok then Some (NV_RESULT_INTERNAL_ERROR, m, s) else CreateSpace_initialized e req m s }"

definition GetSpaceInfo_response :: "'s nv_env \<Rightarrow> SpaceRecord \<Rightarrow> nvram_result \<times> GetSpaceInfoResponse" where
  "GetSpaceInfo_response e r =
     (let resp = new_GetSpaceInfoResponse\<lparr>sr_size := of_nat (length (contents (persistent r)))\<rparr>;
          (res, cs) = GetControlsVector (e_al e) (persistent r) (sr_controls resp);
          resp = resp\<lparr>sr_controls := cs\<rparr>
      in if res \<noteq> NV_RESULT_SUCCESS then (NV_RESULT_INTERNAL_ERROR, resp)
         else let resp = (if has_control e (persistent r) NV_CONTROL_BOOT_READ_LOCK
                          then resp\<lparr>sr_read_locked := sl_read_locked (transient r)\<rparr> else resp);
                  resp = (if has_control e (persistent r) NV_CONTROL_PERSISTENT_WRITE_LOCK
                          then resp\<lparr>sr_write_locked := Space_HasFlag (persistent r) kFlagWriteLocked\<rparr>
                          else if has_control e (persistent r) NV_CONTROL_BOOT_WRITE_LOCK
                          then resp\<lparr>sr_write_locked := sl_write_locked (transient r)\<rparr>
                          else resp)
              in (NV_RESULT_SUCCESS, resp))"

definition GetSpaceInfo ::
  "'s nv_env \<Rightarrow> GetSpaceInfoRequest \<Rightarrow> NvramManager \<Rightarrow> 's \<Rightarrow>
   (nvram_result \<times> GetSpaceInfoResponse \<times> NvramManager \<times> 's) option" where
  "GetSpaceInfo e req m s =
     do { (ok, m, s) \<leftarrow> Initialize e m s;
          if \<not> ok then Some (NV_RESULT_INTERNAL_ERROR, new_GetSpaceInfoResponse, m, s)
          else do { (rec, s) \<leftarrow> LoadSpaceRecord e (si_index req) m s;
                    Some (case rec of
                            Inl res \<Rightarrow> (res, new_GetSpaceInfoResponse, m, s)
                          | Inr r \<Rightarrow> (case GetSpaceInfo_response e r of (res, resp) \<Rightarrow> (res, resp, m, s))) } }"

text \<open>The tail of \<open>DeleteSpace\<close>, once access has been granted.\<close>

definition DeleteSpace_record ::
  "'s nv_env \<Rightarrow> u32 \<Rightarrow> SpaceRecord \<Rightarrow> NvramManager \<Rightarrow> 's \<Rightarrow> (nvram_result \<times> NvramManager \<times> 's) option" where
  "DeleteSpace_record e index r m s =
     do { tmp \<leftarrow> get_entry (array_index r) m;
          last \<leftarrow> get_entry (num_spaces m - 1) m;
          m \<leftarrow> set_entry (array_index r) last m;
          let m = m\<lparr>num_spaces := num_spaces m - 1\<rparr>;
          (res, s) \<leftarrow> WriteHeader e (Some index) m s;
          let (res, finished, s) =
            (if res = NV_RESULT_SUCCESS then
               (case persistence_DeleteSpace (e_sto e) index s of
                  (status, s) \<Rightarrow>
                    (case SanitizeStorageStatus status of
                       kStorageError \<Rightarrow> (NV_RESULT_INTERNAL_ERROR, False, s)
                     | kNotFound \<Rightarrow> (NV_RESULT_SUCCESS, True, s)
                     | kSuccess \<Rightarrow> (NV_RESULT_SUCCESS, True, s)))
             else (res, False, s));
          if finished then Some (res, m, s)
          else do { m \<leftarrow> set_entry (num_spaces m) tmp m;
                    Some (res, m\<lparr>num_spaces := num_spaces m + 1\<rparr>, s) } }"

text \<open>
  The four handlers below share their beginning: initialise, load the space record, check access;
  an early return reports the result and leaves the manager alone.
\<close>

definition with_record ::
  "'s nv_env \<Rightarrow> u32 \<Rightarrow> (SpaceRecord \<Rightarrow> nvram_result) \<Rightarrow>
   (SpaceRecord \<Rightarrow> NvramManager \<Rightarrow> 's \<Rightarrow> (nvram_result \<times> NvramManager \<times> 's) option) \<Rightarrow>
   NvramManager \<Rightarrow> 's \<Rightarrow> (nvram_result \<times> NvramManager \<times> 's) option" where
  "with_record e index check body m s =
     do { (ok, m, s) \<leftarrow> Initialize e m s;
          if \<not> ok then Some (NV_RESULT_INTERNAL_ERROR, m, s)
          else do { (rec, s) \<leftarrow> LoadSpaceRecord e index m s;
                    case rec of
                      Inl res \<Rightarrow> Some (res, m, s)
                    | Inr r \<Rightarrow> if check r \<noteq> NV_RESULT_SUCCESS then Some (check r, m, s) else body r m s } }"

definition DeleteSpace ::
  "'s nv_env \<Rightarrow> DeleteSpaceRequest \<Rightarrow> NvramManager \<Rightarrow> 's \<Rightarrow> (nvram_result \<times> NvramManager \<times> 's) option" where
  "DeleteSpace e req =
     with_record e (ds_index req) (\<lambda>r. CheckWriteAccess e r (ds_authorization_value req))
       (DeleteSpace_record e (ds_index req))"

definition DisableCreate :: "'s nv_env \<Rightarrow> NvramManager \<Rightarrow> 's \<Rightarrow> (nvram_result \<times> NvramManager \<times> 's) option" where
  "DisableCreate e m s =
     do { (ok, m, s) \<leftarrow> Initialize e m s;
          if \<not> ok then Some (NV_RESULT_INTERNAL_ERROR, m, s)
          else do { let previous = disable_create m;
                    let m = m\<lparr>disable_create := True\<rparr>;
                    (res, s) \<leftarrow> WriteHeader e None m s;
                    Some (res, if res \<noteq> NV_RESULT_SUCCESS then m\<lparr>disable_create := previous\<rparr> else m, s) } }"

text \<open>The new contents of a space; \<open>Inl\<close> is an early return.\<close>

definition WriteSpace_contents ::
  "'s nv_env \<Rightarrow> blob \<Rightarrow> NvramSpace \<Rightarrow> nvram_result + blob" where
  "WriteSpace_contents e buffer sp =
     (if has_control e sp NV_CONTROL_WRITE_EXTEND then
        (case Blob_Resize (e_al e) (length (contents sp) + length buffer) [] of
           (False, _) \<Rightarrow> Inl NV_RESULT_INTERNAL_ERROR
         | (True, sha256_input) \<Rightarrow>
             (let sha256_input = memcpy_at (length (contents sp)) buffer (memcpy_at 0 (contents sp) sha256_input)
              in Inr (crypto_SHA256 e sha256_input (length (contents sp)))))
      else if length (contents sp) < length buffer then Inl NV_RESULT_INVALID_PARAMETER
      else Inr (memcpy_at (length buffer) (replicate (length (contents sp) - length buffer) 0)
                  (memcpy_at 0 buffer (contents sp))))"

definition WriteSpace ::
  "'s nv_env \<Rightarrow> WriteSpaceRequest \<Rightarrow> NvramManager \<Rightarrow> 's \<Rightarrow> (nvram_result \<times> NvramManager \<times> 's) option" where
  "WriteSpace e req =
     with_record e (ws_index req) (\<lambda>r. CheckWriteAccess e r (ws_authorization_value req))
       (\<lambda>r m s. case WriteSpace_contents e (ws_buffer req) (persistent r) of
          Inl res \<Rightarrow> Some (res, m, s)
        | Inr data \<Rightarrow>
            do { (res, s) \<leftarrow> WriteSpaceData e (ws_index req) ((persistent r)\<lparr>contents := data\<rparr>) s;
                 Some (res, m, s) })"

definition ReadSpace_response ::
  "'s nv_env \<Rightarrow> ReadSpaceRequest \<Rightarrow> SpaceRecord \<Rightarrow> nvram_result \<times> ReadSpaceResponse" where
  "ReadSpace_response e req r =
     (let res = CheckReadAccess e r (rs_authorization_value req)
      in if res \<noteq> NV_RESULT_SUCCESS then (res, new_ReadSpaceResponse)
         else case Blob_Assign (e_al e) (contents (persistent r)) [] of
                (False, b) \<Rightarrow> (NV_RESULT_INTERNAL_ERROR, \<lparr>rr_buffer = b\<rparr>)
              | (True, b) \<Rightarrow> (NV_RESULT_SUCCESS, \<lparr>rr_buffer = b\<rparr>))"

definition ReadSpace ::
  "'s nv_env \<Rightarrow> ReadSpaceRequest \<Rightarrow> NvramManager \<Rightarrow> 's \<Rightarrow>
   (nvram_result \<times> ReadSpaceResponse \<times> NvramManager \<times> 's) option" where
  "ReadSpace e req m s =
     do { (ok, m, s) \<leftarrow> Initialize e m s;
          if \<not> ok then Some (NV_RESULT_INTERNAL_ERROR, new_ReadSpaceResponse, m, s)
          else do { (rec, s) \<leftarrow> LoadSpaceRecord e (rs_index req) m s;
                    Some (case rec of
                            Inl res \<Rightarrow> (res, new_ReadSpaceResponse, m, s)
                          | Inr r \<Rightarrow> (case ReadSpace_response e req r of (res, resp) \<Rightarrow> (res, resp, m, s))) } }"

definition LockSpaceWrite ::
  "'s nv_env \<Rightarrow> LockSpaceWriteRequest \<Rightarrow> NvramManager \<Rightarrow> 's \<Rightarrow> (nvram_result \<times> NvramManager \<times> 's) option" where
  "LockSpaceWrite e req =
     with_record e (lw_index req) (\<lambda>r. CheckWriteAccess e r (lw_authorization_value req))
       (\<lambda>r m s.
          if has_control e (persistent r) NV_CONTROL_PERSISTENT_WRITE_LOCK then
            do { (res, s) \<leftarrow> WriteSpaceData e (lw_index req) (Space_SetFlag kFlagWriteLocked (persistent r)) s;
                 Some (res, m, s) }
          else if has_control e (persistent r) NV_CONTROL_BOOT_WRITE_LOCK then
            do { m \<leftarrow> set_entry (array_index r) ((transient r)\<lparr>sl_write_locked := True\<rparr>) m;
                 Some (NV_RESULT_SUCCESS, m, s) }
          else Some (NV_RESULT_INVALID_PARAMETER, m, s))"

definition LockSpaceRead ::
  "'s nv_env \<Rightarrow> LockSpaceReadRequest \<Rightarrow> NvramManager \<Rightarrow> 's \<Rightarrow> (nvram_result \<times> NvramManager \<times> 's) option" where
  "LockSpaceRead e req =
     with_record e (lr_index req) (\<lambda>r. CheckReadAccess e r (lr_authorization_value req))
       (\<lambda>r m s.
          if has_control e (persistent r) NV_CONTROL_BOOT_READ_LOCK then
            do { m \<leftarrow> set_entry (array_index r) ((transient r)\<lparr>sl_read_locked := True\<rparr>) m;
                 Some (NV_RESULT_SUCCESS, m, s) }
          else Some (NV_RESULT_INVALID_PARAMETER, m, s))"

fun WipeStorage_loop :: "'s storage_ops \<Rightarrow> u32 list \<Rightarrow> 's \<Rightarrow> bool \<times> 's" where
  "WipeStorage_loop sto [] s = (True, s)"
| "WipeStorage_loop sto (index # rest) s =
     (case persistence_DeleteSpace sto index s of
        (status, s') \<Rightarrow> if SanitizeStorageStatus status = kStorageError then (False, s')
                        else WipeStorage_loop sto rest s')"

definition WipeStorage :: "'s nv_env \<Rightarrow> NvramManager \<Rightarrow> 's \<Rightarrow> (nvram_result \<times> NvramManager \<times> 's) option" where
  "WipeStorage e m s =
     do { (ok, m, s) \<leftarrow> Initialize e m s;
          if \<not> ok then Some (NV_RESULT_INTERNAL_ERROR, m, s)
          else if \<not> wipe_support e \<or> disable_wipe m then Some (NV_RESULT_OPERATION_DISABLED, m, s)
          else if \<not> num_spaces m \<le> length (spaces m) then None
          else (case WipeStorage_loop (e_sto e) (map sl_index (take (num_spaces m) (spaces m))) s of
                  (False, s) \<Rightarrow> Some (NV_RESULT_INTERNAL_ERROR, m, s)
                | (True, s) \<Rightarrow>
                    (let m = m\<lparr>num_spaces := 0\<rparr>
                     in do { (res, s) \<leftarrow> WriteHeader e None m s; Some (res, m, s) })) }"

definition DisableWipe :: "'s nv_env \<Rightarrow> NvramManager \<Rightarrow> 's \<Rightarrow> (nvram_result \<times> NvramManager \<times> 's) option" where
  "DisableWipe e m s =
     do { (ok, m, s) \<leftarrow> Initialize e m s;
          if \<not> ok then Some (NV_RESULT_INTERNAL_ERROR, m, s)
          else if wipe_support e then Some (NV_RESULT_SUCCESS, m\<lparr>disable_wipe := True\<rparr>, s)
          else Some (NV_RESULT_OPERATION_DISABLED, m, s) }"

text \<open>\<open>Dispatch\<close>. \<open>respond\<close> is the assignment of the activated member and of the result.\<close>

definition respond ::
  "ResponseUnion \<Rightarrow> (nvram_result \<times> NvramManager \<times> 's) option \<Rightarrow>
   (nvram_result \<times> ResponseUnion \<times> NvramManager \<times> 's) option" where
  "respond u x = do { (res, m, s) \<leftarrow> x; Some (res, u, m, s) }"

definition Dispatch_payload ::
  "'s nv_env \<Rightarrow> RequestUnion \<Rightarrow> NvramManager \<Rightarrow> 's \<Rightarrow>
   (nvram_result \<times> ResponseUnion \<times> NvramManager \<times> 's) option" where
  "Dispatch_payload e input m s =
     (case input of
        Req_GET_INFO _ \<Rightarrow> do { (res, out, m, s) \<leftarrow> GetInfo e m s; Some (res, Resp_GET_INFO out, m, s) }
      | Req_CREATE_SPACE req \<Rightarrow> respond (Resp_CREATE_SPACE ()) (CreateSpace e req m s)
      | Req_GET_SPACE_INFO req \<Rightarrow>
          do { (res, out, m, s) \<leftarrow> GetSpaceInfo e req m s; Some (res, Resp_GET_SPACE_INFO out, m, s) }
      | Req_DELETE_SPACE req \<Rightarrow> respond (Resp_DELETE_SPACE ()) (DeleteSpace e req m s)
      | Req_DISABLE_CREATE _ \<Rightarrow> respond (Resp_DISABLE_CREATE ()) (DisableCreate e m s)
      | Req_WRITE_SPACE req \<Rightarrow> respond (Resp_WRITE_SPACE ()) (WriteSpace e req m s)
      | Req_READ_SPACE req \<Rightarrow>
          do { (res, out, m, s) \<leftarrow> ReadSpace e req m s; Some (res, Resp_READ_SPACE out, m, s) }
      | Req_LOCK_SPACE_WRITE req \<Rightarrow> respond (Resp_LOCK_SPACE_WRITE ()) (LockSpaceWrite e req m s)
      | Req_LOCK_SPACE_READ req \<Rightarrow> respond (Resp_LOCK_SPACE_READ ()) (LockSpaceRead e req m s)
      | Req_WIPE_STORAGE _ \<Rightarrow> respond (Resp_WIPE_STORAGE ()) (WipeStorage e m s)
      | Req_DISABLE_WIPE _ \<Rightarrow> respond (Resp_DISABLE_WIPE ()) (DisableWipe e m s))"

definition Dispatch ::
  "'s nv_env \<Rightarrow> Request \<Rightarrow> NvramManager \<Rightarrow> 's \<Rightarrow> (Response \<times> NvramManager \<times> 's) option" where
  "Dispatch e request m s =
     do { (res, out, m, s) \<leftarrow> Dispatch_payload e (req_payload request) m s;
          Some (\<lparr>result = nv_result e res, resp_payload = out\<rparr>, m, s) }"

end
