(* ===== verification/Nvram_Access.thy ===== *)
theory Nvram_Access
  imports Nvram_Manager
begin

text \<open>
  The NVRAM manager does not run into undefined behaviour, and what its operations do. The first part
  holds for every allocator, every storage layer and every single request to a new or initialised manager
  whose control values can be shifted by; for sequences of requests the storage layer must not fail
  deletions (\<open>deletes_fail\<close>). The helper lemmas describe each operation by
  the entries in use (\<open>entries\<close>) and the header it writes (\<open>mgr_header\<close>).
\<close>

section \<open>Entries in use\<close>

definition mgr_wf :: "NvramManager \<Rightarrow> bool" where
  "mgr_wf m \<longleftrightarrow> length (spaces m) = kMaxSpaces \<and> num_spaces m \<le> kMaxSpaces"

text \<open>Nothing is recorded before initialisation has succeeded.\<close>

definition mgr_clean :: "NvramManager \<Rightarrow> bool" where
  "mgr_clean m \<longleftrightarrow> initialized m \<or> num_spaces m = 0"

definition entries :: "NvramManager \<Rightarrow> SpaceListEntry list" where
  "entries m = take (num_spaces m) (spaces m)"

definition active :: "NvramManager \<Rightarrow> u32 list" where
  "active m = map sl_index (entries m)"

definition fresh_entry :: "u32 \<Rightarrow> SpaceListEntry" where
  "fresh_entry i = \<lparr>sl_index = i, sl_write_locked = False, sl_read_locked = False\<rparr>"

definition mgr_header :: "NvramManager \<Rightarrow> u32 option \<Rightarrow> NvramHeader" where
  "mgr_header m prov =
     \<lparr>version = kVersion, h_flags = (if disable_create m then kFlagDisableCreate else 0),
      allocated_indices = active m, provisional_index = prov\<rparr>"

lemma length_entries [simp]: "mgr_wf m \<Longrightarrow> length (entries m) = num_spaces m"
  by (simp add: entries_def mgr_wf_def)

lemma length_active [simp]: "mgr_wf m \<Longrightarrow> length (active m) = num_spaces m"
  by (simp add: active_def)

lemma entries_record [simp]:
  "entries (m\<lparr>initialized := b\<rparr>) = entries m" "entries (m\<lparr>disable_create := b\<rparr>) = entries m"
  "entries (m\<lparr>disable_wipe := b\<rparr>) = entries m"
  "active (m\<lparr>initialized := b\<rparr>) = active m" "active (m\<lparr>disable_create := b\<rparr>) = active m"
  "active (m\<lparr>disable_wipe := b\<rparr>) = active m"
  "mgr_wf (m\<lparr>initialized := b\<rparr>) = mgr_wf m" "mgr_wf (m\<lparr>disable_create := b\<rparr>) = mgr_wf m"
  "mgr_wf (m\<lparr>disable_wipe := b\<rparr>) = mgr_wf m"
  by (simp_all add: entries_def active_def mgr_wf_def)

lemma SanitizeStorageStatus_id [simp]: "SanitizeStorageStatus st = st"
  by (cases st) simp_all

lemma set_entry_wf [simp]:
  "mgr_wf m \<Longrightarrow> set_entry i x m = (if i < kMaxSpaces then Some (m\<lparr>spaces := (spaces m)[i := x]\<rparr>) else None)"
  by (simp add: set_entry_def mgr_wf_def)

lemma get_entry_wf [simp]:
  "mgr_wf m \<Longrightarrow> get_entry i m = (if i < kMaxSpaces then Some (spaces m ! i) else None)"
  by (simp add: get_entry_def mgr_wf_def)

lemma push_entry:
  fixes x :: SpaceListEntry
  assumes "mgr_wf m" "num_spaces m < kMaxSpaces"
  defines "m' \<equiv> m\<lparr>spaces := (spaces m)[num_spaces m := x], num_spaces := num_spaces m + 1\<rparr>"
  shows "mgr_wf m'" "entries m' = entries m @ [x]" "active m' = active m @ [sl_index x]"
  using assms by (simp_all add: mgr_wf_def entries_def active_def take_Suc_conv_app_nth)

section \<open>Writing\<close>

lemma WriteHeader_eq:
  assumes "mgr_wf m"
  shows "WriteHeader e prov m s =
    (if vector_alloc_fails (e_al e) 4 (num_spaces m) 0 then Some (NV_RESULT_INTERNAL_ERROR, s)
     else do { (st, s') \<leftarrow> persistence_StoreHeader (e_al e) (e_sto e) (mgr_header m prov) s;
               Some (if st \<noteq> kSuccess then NV_RESULT_INTERNAL_ERROR else NV_RESULT_SUCCESS, s') })"
proof -
  have "Header_SetFlag kFlagDisableCreate (new_NvramHeader\<lparr>version := kVersion\<rparr>) =
      new_NvramHeader\<lparr>version := kVersion, h_flags := kFlagDisableCreate\<rparr>"
    by (simp add: Header_SetFlag_def new_NvramHeader_def)
  moreover have "memcpy_at 0 (active m) (v_elems (vector_resized (\<lambda>_. 0) (num_spaces m) Vector_empty)) = active m"
    using assms by (simp add: memcpy_at_def vector_resized_def Vector_empty_def Let_def)
  ultimately show ?thesis using assms
    by (simp add: WriteHeader_def Vector_Resize_wf mgr_header_def Let_def new_NvramHeader_def
        active_def [symmetric] entries_def [symmetric] mgr_wf_def)
       (simp add: Vector_empty_def mgr_wf_def)
qed

lemma WriteHeader_total:
  "mgr_wf m \<Longrightarrow> \<exists>res s'. WriteHeader e prov m s = Some (res, s')"
  using persistence_StoreHeader_total [of "e_al e" "e_sto e" "mgr_header m prov" s]
  by (auto simp: WriteHeader_eq)

lemma WriteSpaceData_total: "\<exists>res s'. WriteSpaceData e i sp s = Some (res, s')"
  using persistence_StoreSpace_total [of "e_al e" "e_sto e" i sp s]
  by (auto simp: WriteSpaceData_def)

section \<open>Finding and loading a space\<close>

lemma FindSpace_cases:
  assumes "mgr_wf m"
  obtains (absent) "FindSpace i m = Some kMaxSpaces" "i \<notin> set (active m)"
  | (found) k where "FindSpace i m = Some k" "k < num_spaces m" "k < kMaxSpaces"
      "sl_index (spaces m ! k) = i" "i \<in> set (active m)"
proof (cases "find_index (\<lambda>x. sl_index x = i) (entries m)")
  case None
  then have "i \<notin> set (active m)"
    by (auto simp: find_index_None active_def in_set_conv_nth)
  then show thesis using None assms absent
    by (simp add: FindSpace_def entries_def mgr_wf_def)
next
  case (Some k)
  then have k: "k < num_spaces m" "sl_index (entries m ! k) = i"
    using assms find_index_Some [OF Some] by simp_all
  moreover have "i \<in> set (active m)"
    using k assms nth_mem [of k "entries m"] by (auto simp: active_def)
  ultimately show thesis using Some assms found [of k]
    by (simp add: FindSpace_def entries_def mgr_wf_def)
qed

lemma LoadSpaceRecord_cases:
  assumes "mgr_wf m"
  obtains (absent) "LoadSpaceRecord e i m s = Some (Inl NV_RESULT_SPACE_DOES_NOT_EXIST, s)"
      "i \<notin> set (active m)"
  | (failed) st sp s' where "LoadSpaceRecord e i m s = Some (Inl NV_RESULT_INTERNAL_ERROR, s')"
      "i \<in> set (active m)" "persistence_LoadSpace (e_al e) (e_sto e) i s = Some (st, sp, s')" "st \<noteq> kSuccess"
  | (loaded) k sp s' where "LoadSpaceRecord e i m s =
        Some (Inr \<lparr>array_index = k, transient = spaces m ! k, persistent = sp\<rparr>, s')"
      "k < num_spaces m" "k < kMaxSpaces" "sl_index (spaces m ! k) = i" "i \<in> set (active m)"
      "persistence_LoadSpace (e_al e) (e_sto e) i s = Some (kSuccess, sp, s')"
  using assms
proof (cases rule: FindSpace_cases [where i = i])
  case fs: absent
  then show thesis using absent by (simp add: LoadSpaceRecord_def)
next
  case fs: (found k)
  obtain st sp s' where l: "persistence_LoadSpace (e_al e) (e_sto e) i s = Some (st, sp, s')"
    using persistence_LoadSpace_total [of "e_al e" "e_sto e" i s] by blast
  show thesis
  proof (cases "st = kSuccess")
    case True
    then show thesis using fs l assms loaded [of k sp s'] by (simp add: LoadSpaceRecord_def)
  next
    case False
    then show thesis using fs l assms failed [of s' st sp]
      by (cases st) (simp_all add: LoadSpaceRecord_def)
  qed
qed

section \<open>Initialisation\<close>

definition kept :: "u32 option \<Rightarrow> bool \<Rightarrow> u32 list \<Rightarrow> u32 list" where
  "kept prov in_storage xs = filter (\<lambda>i. \<not> (prov = Some i \<and> \<not> in_storage)) xs"

text \<open>\<open>filled m xs m'\<close>: \<open>m'\<close> is \<open>m\<close> with fresh entries for \<open>xs\<close> appended.\<close>

definition filled :: "NvramManager \<Rightarrow> u32 list \<Rightarrow> NvramManager \<Rightarrow> bool" where
  "filled m xs m' \<longleftrightarrow> mgr_wf m' \<and> entries m' = entries m @ map fresh_entry xs \<and>
     initialized m' = initialized m \<and> disable_create m' = disable_create m \<and> disable_wipe m' = disable_wipe m"

lemma filled_active: "filled m xs m' \<Longrightarrow> active m' = active m @ xs"
  by (simp add: filled_def active_def fresh_entry_def comp_def)

lemma filled_push:
  assumes "mgr_wf m" "num_spaces m < kMaxSpaces"
    "filled (m\<lparr>spaces := (spaces m)[num_spaces m := fresh_entry i], num_spaces := num_spaces m + 1\<rparr>) xs m'"
  shows "filled m (i # xs) m'"
  using assms push_entry [OF assms(1,2), of "fresh_entry i"] by (simp add: filled_def)

definition left_over :: "u32 option \<Rightarrow> u32 list \<Rightarrow> bool" where
  "left_over prov xs \<longleftrightarrow> (\<forall>p. prov = Some p \<longrightarrow> p \<notin> set xs)"

lemma kept_Cons:
  "kept prov b (i # xs) = (if prov = Some i \<and> \<not> b then kept prov b xs else i # kept prov b xs)"
  by (simp add: kept_def)

lemma Initialize_spaces_Cons:
  assumes "mgr_wf m" "\<not> (prov = Some i \<and> \<not> b)"
  shows "Initialize_spaces prov b (i # xs) del m =
    (if num_spaces m < kMaxSpaces
     then Initialize_spaces prov b xs (if prov = Some i then False else del)
       (m\<lparr>spaces := (spaces m)[num_spaces m := fresh_entry i], num_spaces := num_spaces m + 1\<rparr>)
     else None)"
  using assms by (auto simp: fresh_entry_def)

lemma Initialize_spaces_skip:
  "prov = Some i \<and> \<not> b \<Longrightarrow> Initialize_spaces prov b (i # xs) del m = Initialize_spaces prov b xs del m"
  by simp

declare Initialize_spaces.simps(2) [simp del]

lemma Initialize_spaces_form:
  assumes "mgr_wf m" "Initialize_spaces prov b xs del m = Some (del', m')"
  shows "(del' \<longleftrightarrow> del \<and> left_over prov (kept prov b xs)) \<and> filled m (kept prov b xs) m'"
  using assms
proof (induction xs arbitrary: del m)
  case Nil
  then show ?case by (simp add: kept_def left_over_def filled_def)
next
  case (Cons i xs)
  let ?m = "m\<lparr>spaces := (spaces m)[num_spaces m := fresh_entry i], num_spaces := num_spaces m + 1\<rparr>"
  show ?case
  proof (cases "prov = Some i \<and> \<not> b")
    case False
    have n: "num_spaces m < kMaxSpaces"
      using Cons.prems(2) Initialize_spaces_Cons [OF Cons.prems(1) False] by (simp split: if_splits)
    have "Initialize_spaces prov b xs (if prov = Some i then False else del) ?m = Some (del', m')"
      using Cons.prems(2) n by (simp only: Initialize_spaces_Cons [OF Cons.prems(1) False] if_True)
    from Cons.IH [OF push_entry(1) [OF Cons.prems(1) n] this] show ?thesis
      using False filled_push [OF Cons.prems(1) n] by (auto simp: kept_Cons left_over_def)
  qed (use Cons in \<open>simp add: kept_Cons Initialize_spaces_skip\<close>)
qed

lemma Initialize_spaces_total:
  "mgr_wf m \<Longrightarrow> num_spaces m + length xs \<le> kMaxSpaces \<Longrightarrow>
   \<exists>del' m'. Initialize_spaces prov b xs del m = Some (del', m')"
proof (induction xs arbitrary: del m)
  case (Cons i xs)
  show ?case
  proof (cases "prov = Some i \<and> \<not> b")
    case False
    have n: "num_spaces m < kMaxSpaces" using Cons.prems(2) by simp
    show ?thesis
      using Cons.IH [OF push_entry(1) [OF Cons.prems(1) n]] Cons.prems(2) n
      by (simp add: Initialize_spaces_Cons [OF Cons.prems(1) False])
  qed (use Cons in \<open>simp add: Initialize_spaces_skip\<close>)
qed simp

lemma provisional_in_storage_total: "\<exists>b s'. provisional_in_storage e prov s = Some (b, s')"
  using persistence_LoadSpace_total [of "e_al e" "e_sto e" "the prov" s]
  by (cases prov) (auto simp: provisional_in_storage_def)

text \<open>The header is loaded and acceptable: the ways \<open>Initialize\<close> can go on.\<close>

lemma Initialize_from_cases:
  assumes "mgr_wf m" "Initialize_from e h m s = Some (ok, m', s')"
  obtains (excess) b where "\<not> ok" "m' = m" "provisional_in_storage e (provisional_index h) s = Some (b, s')"
  | (delete_failed) b s1 where "\<not> ok" "provisional_in_storage e (provisional_index h) s = Some (b, s1)"
      "filled m (kept (provisional_index h) b (allocated_indices h)) m'"
      "delete_provisional e (provisional_index h) True s1 = (False, s')"
      "left_over (provisional_index h) (kept (provisional_index h) b (allocated_indices h))"
  | (ready) b s1 s2 m1 where "ok" "provisional_in_storage e (provisional_index h) s = Some (b, s1)"
      "filled m (kept (provisional_index h) b (allocated_indices h)) m1"
      "m' = m1\<lparr>disable_create := Header_HasFlag h kFlagDisableCreate, initialized := True\<rparr>"
      "delete_provisional e (provisional_index h)
         (left_over (provisional_index h) (kept (provisional_index h) b (allocated_indices h))) s1 = (True, s2)"
      "(\<exists>res. WriteHeader e None m' s2 = Some (res, s')) \<or> (provisional_index h = None \<and> s' = s2)"
proof -
  let ?p = "provisional_index h"
  obtain b s1 where b: "provisional_in_storage e ?p s = Some (b, s1)"
    using provisional_in_storage_total [of e ?p s] by blast
  let ?k = "kept ?p b (allocated_indices h)"
  show thesis
  proof (cases "kMaxSpaces < length (allocated_indices h)")
    case True
    then show thesis using assms(2) b excess by (simp add: Initialize_from_def)
  next
    case False
    then obtain del m1 where i: "Initialize_spaces ?p b (allocated_indices h) (?p \<noteq> None) m = Some (del, m1)"
      using assms(2) b by (auto simp: Initialize_from_def bind_eq_Some_conv simp del: split_paired_Ex)
    note form = Initialize_spaces_form [OF assms(1) i, THEN conjunct1] Initialize_spaces_form [OF assms(1) i, THEN conjunct2]
    obtain k s2 where d: "delete_provisional e ?p del s1 = (k, s2)" by fastforce
    have del: "delete_provisional e ?p (left_over ?p ?k) s1 = (k, s2)"
      using d form(1) by (cases ?p) (simp_all add: delete_provisional_def split: bool.splits)
    show thesis
    proof (cases k)
      case True
      obtain res s3 where w: "WriteHeader e None (m1\<lparr>disable_create := Header_HasFlag h kFlagDisableCreate,
          initialized := True\<rparr>) s2 = Some (res, s3)"
        using WriteHeader_total [of "m1\<lparr>disable_create := Header_HasFlag h kFlagDisableCreate,
          initialized := True\<rparr>" e None s2] form(2) by (auto simp: filled_def)
      show thesis
        by (rule ready [of b s1 m1 s2])
           (use assms(2) b False i d del form True w in \<open>auto simp: Initialize_from_def Let_def split: if_splits\<close>)
    next
      case False': False
      then have "del" using d by (auto simp: delete_provisional_def split: bool.splits option.splits)
      then show thesis
        using delete_failed [of b s1] assms(2) b False i d form False' by (simp add: Initialize_from_def)
    qed
  qed
qed

lemma Initialize_cases:
  assumes "Initialize e m s = Some (ok, m', s')"
  obtains (already) "initialized m" "ok" "m' = m" "s' = s"
  | (load_failed) st h where "\<not> initialized m" "\<not> ok" "m' = m"
      "persistence_LoadHeader (e_al e) (e_sto e) s = Some (st, h, s')"
  | (fresh) h where "\<not> initialized m" "ok" "m' = m\<lparr>initialized := True\<rparr>"
      "persistence_LoadHeader (e_al e) (e_sto e) s = Some (kNotFound, h, s')"
  | (loaded) h s1 where "\<not> initialized m" "version h \<le> kVersion"
      "persistence_LoadHeader (e_al e) (e_sto e) s = Some (kSuccess, h, s1)"
      "Initialize_from e h m s1 = Some (ok, m', s')"
proof (cases "initialized m")
  case True
  then have "ok" "m' = m" "s' = s" using assms by (simp_all add: Initialize_def)
  then show thesis using True by (rule already [rotated])
next
  case False
  obtain st h s1 where l: "persistence_LoadHeader (e_al e) (e_sto e) s = Some (st, h, s1)"
    using persistence_LoadHeader_total [of "e_al e" "e_sto e" s] by blast
  note res = assms [unfolded Initialize_def, simplified False l, simplified]
  consider "st = kNotFound" | "st = kSuccess" "version h \<le> kVersion"
    | "st = kStorageError \<or> st = kSuccess \<and> kVersion < version h"
    using linorder_le_less_linear [of "version h" kVersion] by (cases st) auto
  then show thesis
  proof cases
    case 1
    then have "ok" "m' = m\<lparr>initialized := True\<rparr>" "s1 = s'" using res by auto
    then show thesis using fresh False l 1 by blast
  next
    case 2
    then have "Initialize_from e h m s1 = Some (ok, m', s')" using res by (simp add: leD)
    then show thesis using loaded False l 2 by blast
  next
    case 3
    then have "\<not> ok" "m' = m" "s1 = s'" using res by auto
    then show thesis using load_failed False l by blast
  qed
qed

lemma Initialize_wf:
  assumes "mgr_wf m" "Initialize e m s = Some (ok, m', s')"
  shows "mgr_wf m' \<and> (ok \<longrightarrow> initialized m') \<and> disable_wipe m' = disable_wipe m"
  using assms(2)
proof (cases rule: Initialize_cases)
  case (loaded h s1)
  from assms(1) loaded(4) show ?thesis
    by (cases rule: Initialize_from_cases) (use assms(1) in \<open>auto simp: filled_def\<close>)
qed (use assms(1) in auto)

text \<open>A manager that has recorded spaces without being initialised is left behind only when the
  storage layer fails to delete the provisional space.\<close>

definition deletes_fail :: "'s storage_ops \<Rightarrow> bool" where
  "deletes_fail sto \<longleftrightarrow> (\<exists>i s. fst (st_DeleteSpace sto i s) = kStorageError)"

lemma Initialize_clean:
  assumes "mgr_wf m" "mgr_clean m" "Initialize e m s = Some (ok, m', s')" "\<not> deletes_fail (e_sto e)"
  shows "mgr_clean m'"
  using assms(3)
proof (cases rule: Initialize_cases)
  case (loaded h s1)
  from assms(1) loaded(4) show ?thesis
  proof (cases rule: Initialize_from_cases)
    case (delete_failed b s2)
    then show ?thesis using assms(4)
      by (cases "provisional_index h")
         (auto simp: delete_provisional_def deletes_fail_def persistence_DeleteSpace_def split: prod.splits,
          metis fst_conv)
  qed (use assms in \<open>auto simp: mgr_clean_def\<close>)
qed (use assms(2) in \<open>auto simp: mgr_clean_def\<close>)

lemma Initialize_total:
  assumes "mgr_wf m" "mgr_clean m"
  shows "\<exists>ok m' s'. Initialize e m s = Some (ok, m', s')"
proof -
  obtain st h s1 where l: "persistence_LoadHeader (e_al e) (e_sto e) s = Some (st, h, s1)"
    using persistence_LoadHeader_total [of "e_al e" "e_sto e" s] by blast
  obtain b s2 where b: "provisional_in_storage e (provisional_index h) s1 = Some (b, s2)"
    using provisional_in_storage_total [of e "provisional_index h" s1] by blast
  have "\<exists>r. Initialize_from e h m s1 = Some r" if ni: "\<not> initialized m"
  proof (cases "kMaxSpaces < length (allocated_indices h)")
    case False
    then obtain del m1 where i: "Initialize_spaces (provisional_index h) b (allocated_indices h)
        (provisional_index h \<noteq> None) m = Some (del, m1)"
      using Initialize_spaces_total [OF assms(1), of "allocated_indices h" "provisional_index h" b
          "provisional_index h \<noteq> None"] assms(2) ni
      by (auto simp: mgr_clean_def)
    let ?m2 = "m1\<lparr>disable_create := Header_HasFlag h kFlagDisableCreate, initialized := True\<rparr>"
    have "mgr_wf ?m2" using Initialize_spaces_form [OF assms(1) i] by (simp add: filled_def)
    moreover obtain k s3 where d: "delete_provisional e (provisional_index h) del s2 = (k, s3)" by fastforce
    ultimately obtain res s4 where "WriteHeader e None ?m2 s3 = Some (res, s4)"
      using WriteHeader_total [of ?m2 e None s3] by auto
    then show ?thesis using b False i d by (cases k) (auto simp: Initialize_from_def Let_def)
  qed (use b in \<open>auto simp: Initialize_from_def\<close>)
  then show ?thesis using l by (cases st) (auto simp: Initialize_def)
qed

section \<open>No handler crashes\<close>

definition safe_mgr :: "'s nv_env \<Rightarrow> NvramManager \<Rightarrow> bool" where
  "safe_mgr e m \<longleftrightarrow> mgr_wf m \<and> (mgr_clean m \<or> deletes_fail (e_sto e))"

definition safe1 :: "'s nv_env \<Rightarrow> ('r \<times> NvramManager \<times> 's) option \<Rightarrow> bool" where
  "safe1 e x \<longleftrightarrow> (\<exists>res m s. x = Some (res, m, s) \<and> safe_mgr e m)"

definition safe2 :: "'s nv_env \<Rightarrow> ('r \<times> 'o \<times> NvramManager \<times> 's) option \<Rightarrow> bool" where
  "safe2 e x \<longleftrightarrow> (\<exists>res out m s. x = Some (res, out, m, s) \<and> safe_mgr e m)"

lemma safe_initialized: "mgr_wf m \<Longrightarrow> initialized m \<Longrightarrow> safe_mgr e m"
  by (simp add: safe_mgr_def mgr_clean_def)

lemma init_then_safe1:
  assumes "mgr_wf m" "mgr_clean m"
    "\<And>m s. mgr_wf m \<Longrightarrow> initialized m \<Longrightarrow> safe1 e (body m s)"
  shows "safe1 e (do { (ok, m, s) \<leftarrow> Initialize e m s; if \<not> ok then Some (err, m, s) else body m s })"
proof -
  obtain ok m' s' where i: "Initialize e m s = Some (ok, m', s')"
    using Initialize_total [OF assms(1,2), of e s] by auto
  then show ?thesis
    using Initialize_wf [OF assms(1) i] Initialize_clean [OF assms(1,2) i] assms(3) [of m' s']
    by (auto simp: safe1_def safe_mgr_def)
qed

lemma init_then_safe2:
  assumes "mgr_wf m" "mgr_clean m"
    "\<And>m s. mgr_wf m \<Longrightarrow> initialized m \<Longrightarrow> safe2 e (body m s)"
  shows "safe2 e (do { (ok, m, s) \<leftarrow> Initialize e m s; if \<not> ok then Some (err, out, m, s) else body m s })"
proof -
  obtain ok m' s' where i: "Initialize e m s = Some (ok, m', s')"
    using Initialize_total [OF assms(1,2), of e s] by auto
  then show ?thesis
    using Initialize_wf [OF assms(1) i] Initialize_clean [OF assms(1,2) i] assms(3) [of m' s']
    by (auto simp: safe2_def safe_mgr_def)
qed

lemma with_record_safe:
  assumes "mgr_wf m" "mgr_clean m"
    "\<And>k sp m s. mgr_wf m \<Longrightarrow> initialized m \<Longrightarrow> k < num_spaces m \<Longrightarrow> k < kMaxSpaces \<Longrightarrow>
       safe1 e (body \<lparr>array_index = k, transient = spaces m ! k, persistent = sp\<rparr> m s)"
  shows "safe1 e (with_record e i check body m s)"
  unfolding with_record_def
proof (rule init_then_safe1 [OF assms(1,2)])
  fix m :: NvramManager and s
  assume m: "mgr_wf m" "initialized m"
  from m(1) show "safe1 e (do { (rec, s) \<leftarrow> LoadSpaceRecord e i m s;
      case rec of Inl res \<Rightarrow> Some (res, m, s)
      | Inr r \<Rightarrow> if check r \<noteq> NV_RESULT_SUCCESS then Some (check r, m, s) else body r m s })"
    by (cases rule: LoadSpaceRecord_cases [of m e i s])
       (use m assms(3) safe_initialized [OF m] in \<open>auto simp: safe1_def\<close>)
qed

lemma GetInfo_safe: "mgr_wf m \<Longrightarrow> mgr_clean m \<Longrightarrow> safe2 e (GetInfo e m s)"
  unfolding GetInfo_def
  by (rule init_then_safe2)
     (auto simp: safe2_def Vector_Resize_wf mgr_wf_def safe_mgr_def mgr_clean_def)

lemma CreateSpace_record_safe:
  assumes "mgr_wf m" "initialized m" "num_spaces m < kMaxSpaces"
  shows "safe1 e (CreateSpace_record e req cs m s)"
proof -
  let ?m = "m\<lparr>spaces := (spaces m)[num_spaces m := fresh_entry (cs_index req)], num_spaces := num_spaces m + 1\<rparr>"
  have m: "mgr_wf ?m" "mgr_wf (?m\<lparr>num_spaces := num_spaces m\<rparr>)"
    using assms push_entry [OF assms(1,3)] by (simp_all add: mgr_wf_def)
  obtain res s1 where h: "WriteHeader e (Some (cs_index req)) ?m s = Some (res, s1)"
    using WriteHeader_total [OF m(1), of e "Some (cs_index req)" s] by auto
  have d: "\<exists>res s'. WriteSpaceData e (cs_index req) sp s1 = Some (res, s')" for sp
    by (rule WriteSpaceData_total)
  show ?thesis unfolding safe1_def CreateSpace_record_def
    using assms m h d safe_initialized [OF m(1)] safe_initialized [OF m(2)]
    by (auto simp: Let_def fresh_entry_def bind_eq_Some_conv split: prod.split if_splits) metis+
qed

lemma request_controls_total:
  "(\<forall>c \<in> set cs. unat c < 32) \<Longrightarrow> \<exists>b. request_controls cs a = Some b"
  by (induction cs arbitrary: a) auto

lemma CreateSpace_initialized_safe:
  assumes "mgr_wf m" "initialized m" "\<forall>c \<in> set (cs_controls req). unat c < 32"
  shows "safe1 e (CreateSpace_initialized e req m s)"
proof -
  obtain i where i: "FindSpace (cs_index req) m = Some i"
    using assms(1) by (cases rule: FindSpace_cases [of m "cs_index req"]) auto
  obtain cs where cs: "request_controls (cs_controls req) 0 = Some cs"
    using request_controls_total [OF assms(3)] by auto
  have "safe1 e (Some (res, m, s))" for res :: nvram_result
    using safe_initialized [OF assms(1,2)] by (simp add: safe1_def)
  moreover have "safe1 e (CreateSpace_record e req cs m s)" if "\<not> num_spaces m + 1 > kMaxSpaces"
    using CreateSpace_record_safe [OF assms(1,2)] that by simp
  ultimately show ?thesis using i cs by (simp add: CreateSpace_initialized_def)
qed

lemma load_then_safe2:
  assumes "mgr_wf m" "initialized m"
  shows "safe2 e (do { (rec, s) \<leftarrow> LoadSpaceRecord e i m s;
    Some (case rec of Inl res \<Rightarrow> (res, out, m, s) | Inr r \<Rightarrow> (case f r of (res, resp) \<Rightarrow> (res, resp, m, s))) })"
  using assms(1)
  by (cases rule: LoadSpaceRecord_cases [of m e i s])
     (use safe_initialized [OF assms] in \<open>auto simp: safe2_def split: prod.splits\<close>)

lemma DeleteSpace_record_safe:
  assumes "mgr_wf m" "initialized m" "k < num_spaces m" "k < kMaxSpaces"
  shows "safe1 e (DeleteSpace_record e i \<lparr>array_index = k, transient = t, persistent = sp\<rparr> m s)"
proof -
  let ?m = "m\<lparr>spaces := (spaces m)[k := spaces m ! (num_spaces m - 1)], num_spaces := num_spaces m - 1\<rparr>"
  have m: "mgr_wf ?m" "mgr_wf (?m\<lparr>spaces := (spaces ?m)[num_spaces ?m := t'], num_spaces := num_spaces m\<rparr>)" for t'
    using assms by (auto simp: mgr_wf_def)
  have n: "num_spaces m - 1 < kMaxSpaces" using assms(1,3) by (auto simp: mgr_wf_def)
  obtain res s1 where h: "WriteHeader e (Some i) ?m s = Some (res, s1)"
    using WriteHeader_total [OF m(1), of e "Some i" s] by auto
  obtain st s2 where d: "persistence_DeleteSpace (e_sto e) i s1 = (st, s2)" by fastforce
  have "mgr_wf (m\<lparr>spaces := (spaces m)[k := spaces m ! (num_spaces m - 1)]\<rparr>)"
    using assms(1) by (simp add: mgr_wf_def)
  then show ?thesis
    using assms m n h d safe_initialized [OF m(1), of e] safe_initialized [OF m(2), where e = e]
    by (cases "res = NV_RESULT_SUCCESS"; cases st) (auto simp: safe1_def DeleteSpace_record_def Let_def)
qed

lemma WriteSpaceData_safe: "mgr_wf m \<Longrightarrow> initialized m \<Longrightarrow>
    safe1 e (do { (res, s) \<leftarrow> WriteSpaceData e i sp s; Some (res, m, s) })"
  using WriteSpaceData_total [of e i sp s] by (auto simp: safe1_def dest: safe_initialized)

lemma set_entry_safe: "mgr_wf m \<Longrightarrow> initialized m \<Longrightarrow> k < kMaxSpaces \<Longrightarrow>
    safe1 e (do { m \<leftarrow> set_entry k t m; Some (res, m, s) })"
  by (auto simp: safe1_def safe_mgr_def mgr_clean_def mgr_wf_def set_entry_def)

lemma keep_safe: "mgr_wf m \<Longrightarrow> initialized m \<Longrightarrow> safe1 e (Some (res, m, s))"
  by (auto simp: safe1_def dest: safe_initialized)

lemma WriteHeader_safe: "mgr_wf m \<Longrightarrow> (\<And>res. safe_mgr e (f res)) \<Longrightarrow>
    safe1 e (do { (res, s) \<leftarrow> WriteHeader e p m s; Some (res, f res, s) })"
  using WriteHeader_total [of m e p s] by (auto simp: safe1_def)

lemma handlers_safe:
  assumes "mgr_wf m" "mgr_clean m"
  shows "safe1 e (DeleteSpace e dreq m s)" "safe1 e (WriteSpace e wreq m s)"
    "safe1 e (LockSpaceWrite e lwreq m s)" "safe1 e (LockSpaceRead e lrreq m s)"
    "safe1 e (DisableCreate e m s)" "safe1 e (WipeStorage e m s)" "safe1 e (DisableWipe e m s)"
    "safe2 e (GetSpaceInfo e gsreq m s)" "safe2 e (ReadSpace e rsreq m s)"
proof -
  show "safe1 e (DeleteSpace e dreq m s)" unfolding DeleteSpace_def
    by (rule with_record_safe [OF assms]) (rule DeleteSpace_record_safe)
  show "safe1 e (WriteSpace e wreq m s)" unfolding WriteSpace_def
    by (rule with_record_safe [OF assms]) (auto split: sum.split intro: WriteSpaceData_safe keep_safe)
  show "safe1 e (LockSpaceWrite e lwreq m s)" unfolding LockSpaceWrite_def
    by (rule with_record_safe [OF assms])
       (simp add: WriteSpaceData_safe set_entry_safe [simplified] keep_safe del: set_entry_wf)
  show "safe1 e (LockSpaceRead e lrreq m s)" unfolding LockSpaceRead_def
    by (rule with_record_safe [OF assms])
       (simp add: set_entry_safe [simplified] keep_safe del: set_entry_wf)
  show "safe2 e (GetSpaceInfo e gsreq m s)" "safe2 e (ReadSpace e rsreq m s)"
    unfolding GetSpaceInfo_def ReadSpace_def
    by (rule init_then_safe2 [OF assms load_then_safe2], assumption+)+
  show "safe1 e (DisableCreate e m s)" unfolding DisableCreate_def
    by (intro init_then_safe1 [OF assms])
       (auto simp: Let_def safe_mgr_def mgr_clean_def intro!: WriteHeader_safe)
  show "safe1 e (DisableWipe e m s)" unfolding DisableWipe_def
    by (intro init_then_safe1 [OF assms]) (auto simp: safe1_def safe_mgr_def mgr_clean_def)
  show "safe1 e (WipeStorage e m s)" unfolding WipeStorage_def
    by (intro init_then_safe1 [OF assms])
       (auto simp: Let_def safe_mgr_def mgr_clean_def mgr_wf_def
          split: prod.splits bool.splits intro!: WriteHeader_safe keep_safe)
qed

text \<open>Requests whose control values can be shifted by.\<close>

definition request_ok :: "Request \<Rightarrow> bool" where
  "request_ok request \<longleftrightarrow>
     (case req_payload request of
        Req_CREATE_SPACE req \<Rightarrow> \<forall>c \<in> set (cs_controls req). unat c < 32
      | _ \<Rightarrow> True)"

lemma CreateSpace_safe:
  assumes "mgr_wf m" "mgr_clean m" "\<forall>c \<in> set (cs_controls req). unat c < 32"
  shows "safe1 e (CreateSpace e req m s)"
  unfolding CreateSpace_def
  by (rule init_then_safe1 [OF assms(1,2)], rule CreateSpace_initialized_safe) (use assms(3) in auto)

lemma respond_safe: "safe1 e x \<Longrightarrow> safe2 e (respond u x)"
  by (auto simp: safe1_def safe2_def respond_def)

lemma wrap_safe: "safe2 e x \<Longrightarrow> safe2 e (do { (res, out, m, s) \<leftarrow> x; Some (res, f out, m, s) })"
  by (auto simp: safe2_def)

lemma Dispatch_payload_safe:
  assumes "mgr_wf m" "mgr_clean m" "request_ok request"
  shows "safe2 e (Dispatch_payload e (req_payload request) m s)"
  unfolding Dispatch_payload_def
  using assms handlers_safe [OF assms(1,2), of e] GetInfo_safe [OF assms(1,2), of e]
    CreateSpace_safe [OF assms(1,2), of _ e s]
  by (cases "req_payload request")
     (simp_all add: request_ok_def wrap_safe respond_safe)

lemma Dispatch_safe:
  assumes "mgr_wf m" "mgr_clean m" "request_ok request"
  shows "\<exists>response m' s'. Dispatch e request m s = Some (response, m', s') \<and> mgr_wf m' \<and>
    (mgr_clean m' \<or> deletes_fail (e_sto e))"
  using Dispatch_payload_safe [OF assms, of e s]
  by (auto simp: Dispatch_def safe2_def safe_mgr_def)

text \<open>A manager serving one request after the other, each with the heap of its time: the responses, and the
  last state.\<close>

fun Dispatch_all :: "'s nv_env \<Rightarrow> (allocator \<times> Request) list \<Rightarrow> NvramManager \<Rightarrow> 's \<Rightarrow> (Response list \<times> NvramManager \<times> 's) option" where
  "Dispatch_all e [] m s = Some ([], m, s)"
| "Dispatch_all e ((al, request) # requests) m s = do {
     (response, m, s) \<leftarrow> Dispatch (e\<lparr>e_al := al\<rparr>) request m s;
     (responses, m, s) \<leftarrow> Dispatch_all e requests m s;
     Some (response # responses, m, s) }"

lemma Dispatch_all_safe:
  assumes "mgr_wf m" "mgr_clean m" "list_all (\<lambda>(al, request). request_ok request) requests" "deletes_fail (e_sto e) \<longrightarrow> length requests \<le> 1"
  shows "\<exists>responses m' s'. Dispatch_all e requests m s = Some (responses, m', s') \<and>
    length responses = length requests \<and> mgr_wf m'"
  using assms
proof (induction requests arbitrary: m s)
  case (Cons r requests)
  obtain al request where r: "r = (al, request)" by (cases r)
  obtain response m1 s1 where d: "Dispatch (e\<lparr>e_al := al\<rparr>) request m s = Some (response, m1, s1)" "mgr_wf m1"
      "mgr_clean m1 \<or> deletes_fail (e_sto e)"
    using Dispatch_safe [OF Cons.prems(1,2), of request "e\<lparr>e_al := al\<rparr>" s] Cons.prems(3) r by auto
  show ?case
  proof (cases requests)
    case Nil
    then show ?thesis using d r by simp
  next
    case (Cons _ _)
    with Cons.prems d(3) have "\<not> deletes_fail (e_sto e)" "mgr_clean m1" by auto
    then show ?thesis using Cons.IH [OF d(2), of s1] Cons.prems(3) d(1) r by fastforce
  qed
qed simp

end
