(* ===== verification/Nvram_Spec.thy ===== *)
theory Nvram_Spec
  imports Nvram_Access "HOL-Library.Multiset"
begin

text \<open>
  The abstract specification of the NVRAM service: a transition system on the manager's memory, the
  header and the space records on the medium. One transition is the smallest group of effects that
  becomes visible together; every request is a sequence of transitions (\<open>Nvram_Refine\<close>), cut off
  at any point by a storage failure, and a reboot discards the memory.
\<close>

section \<open>Transitions\<close>

type_synonym nv_state = "NvramManager \<times> NvramHeader option \<times> (u32 \<Rightarrow> NvramSpace option)"

text \<open>The same entries in use, possibly reordered, and the same flags.\<close>

definition same_entries :: "NvramManager \<Rightarrow> NvramManager \<Rightarrow> bool" where
  "same_entries m m' \<longleftrightarrow> mset (entries m') = mset (entries m) \<and> initialized m' = initialized m \<and>
     disable_create m' = disable_create m \<and> disable_wipe m' = disable_wipe m"

text \<open>\<open>m'\<close> is \<open>m\<close> without the entry \<open>t\<close>.\<close>

definition removed :: "NvramManager \<Rightarrow> SpaceListEntry \<Rightarrow> NvramManager \<Rightarrow> bool" where
  "removed m t m' \<longleftrightarrow> add_mset t (mset (entries m')) = mset (entries m) \<and> initialized m' = initialized m \<and>
     disable_create m' = disable_create m \<and> disable_wipe m' = disable_wipe m"

text \<open>\<open>t\<close> is in use, its space holds \<open>sp\<close>, and the authorisation value \<open>a\<close> grants write access.\<close>

definition may_write ::
  "'s nv_env \<Rightarrow> NvramManager \<Rightarrow> (u32 \<Rightarrow> NvramSpace option) \<Rightarrow> SpaceListEntry \<Rightarrow> NvramSpace \<Rightarrow> blob \<Rightarrow> bool" where
  "may_write e m d t sp a \<longleftrightarrow> initialized m \<and> t \<in> set (entries m) \<and> d (sl_index t) = Some sp \<and>
     (\<forall>k. CheckWriteAccess e \<lparr>array_index = k, transient = t, persistent = sp\<rparr> a = NV_RESULT_SUCCESS)"

inductive nv_move :: "'s nv_env \<Rightarrow> nv_state \<Rightarrow> nv_state \<Rightarrow> bool" for e where
  boot_empty:
    "\<not> initialized m \<Longrightarrow> nv_move e (m, None, d) (m\<lparr>initialized := True\<rparr>, None, d)"
| boot_stuck:
    "\<not> initialized m \<Longrightarrow> filled m xs m' \<Longrightarrow> nv_move e (m, Some h, d) (m', Some h, d)"
| boot:
    "\<not> initialized m \<Longrightarrow> (\<And>p. provisional_index h = Some p \<Longrightarrow> \<not> b \<Longrightarrow> d p = None) \<Longrightarrow>
     filled m (kept (provisional_index h) b (allocated_indices h)) m1 \<Longrightarrow>
     m' = m1\<lparr>disable_create := Header_HasFlag h kFlagDisableCreate, initialized := True\<rparr> \<Longrightarrow>
     d' = (case provisional_index h of
             Some p \<Rightarrow> if p \<in> set (kept (provisional_index h) b (allocated_indices h)) then d else d(p := None)
           | None \<Rightarrow> d) \<Longrightarrow>
     nv_move e (m, Some h, d) (m', Some h, d')"
| shuffle:
    "same_entries m m' \<Longrightarrow> nv_move e (m, h, d) (m', h, d)"
| sync:
    "initialized m \<Longrightarrow> nv_move e (m, h, d) (m, Some (mgr_header m None), d)"
| create_disabled:
    "initialized m \<Longrightarrow> m' = m\<lparr>disable_create := True\<rparr> \<Longrightarrow>
     nv_move e (m, h, d) (m', Some (mgr_header m' None), d)"
| create_half:
    "initialized m \<Longrightarrow> \<not> disable_create m \<Longrightarrow> i \<notin> set (active m) \<Longrightarrow> filled m [i] m1 \<Longrightarrow>
     same_entries m m' \<Longrightarrow> nv_move e (m, h, d) (m', Some (mgr_header m1 (Some i)), d)"
| create:
    "initialized m \<Longrightarrow> \<not> disable_create m \<Longrightarrow> i \<notin> set (active m) \<Longrightarrow> filled m [i] m' \<Longrightarrow>
     s_flags sp = 0 \<Longrightarrow>
     nv_move e (m, h, d) (m', Some (mgr_header m' (Some i)), d(i \<mapsto> sp))"
| delete_half:
    "may_write e m d t sp a \<Longrightarrow> removed m t m1 \<Longrightarrow> same_entries m m' \<Longrightarrow>
     nv_move e (m, h, d) (m', Some (mgr_header m1 (Some (sl_index t))), d)"
| delete:
    "may_write e m d t sp a \<Longrightarrow> removed m t m' \<Longrightarrow>
     nv_move e (m, h, d) (m', Some (mgr_header m' (Some (sl_index t))), d(sl_index t := None))"
| write_data:
    "may_write e m d t sp a \<Longrightarrow> WriteSpace_contents e buffer sp = Inr data \<Longrightarrow>
     nv_move e (m, h, d) (m, h, d(sl_index t \<mapsto> sp\<lparr>contents := data\<rparr>))"
| lock_persistent:
    "may_write e m d t sp a \<Longrightarrow> has_control e sp NV_CONTROL_PERSISTENT_WRITE_LOCK \<Longrightarrow>
     nv_move e (m, h, d) (m, h, d(sl_index t \<mapsto> Space_SetFlag kFlagWriteLocked sp))"
| lock_boot:
    "initialized m \<Longrightarrow> k < num_spaces m \<Longrightarrow> t = spaces m ! k \<Longrightarrow>
     t' = t\<lparr>sl_write_locked := True\<rparr> \<or> t' = t\<lparr>sl_read_locked := True\<rparr> \<Longrightarrow>
     nv_move e (m, h, d) (m\<lparr>spaces := (spaces m)[k := t']\<rparr>, h, d)"
| wipe_one:
    "wipe_support e \<Longrightarrow> initialized m \<Longrightarrow> \<not> disable_wipe m \<Longrightarrow> i \<in> set (active m) \<Longrightarrow>
     nv_move e (m, h, d) (m, h, d(i := None))"
| wipe_list:
    "wipe_support e \<Longrightarrow> initialized m \<Longrightarrow> \<not> disable_wipe m \<Longrightarrow> (\<And>i. i \<in> set (active m) \<Longrightarrow> d i = None) \<Longrightarrow>
     nv_move e (m, h, d) (m\<lparr>num_spaces := 0\<rparr>, h, d)"
| wipe_disabled:
    "wipe_support e \<Longrightarrow> initialized m \<Longrightarrow> nv_move e (m, h, d) (m\<lparr>disable_wipe := True\<rparr>, h, d)"

text \<open>A run: transitions and reboots; after a reboot the manager is as constructed.\<close>

inductive nv_run :: "'s nv_env \<Rightarrow> nv_state \<Rightarrow> nv_state \<Rightarrow> bool" for e where
  start: "nv_run e x x"
| move: "nv_run e x y \<Longrightarrow> nv_move e y z \<Longrightarrow> nv_run e x z"
| reboot: "nv_run e x (m, h, d) \<Longrightarrow> nv_run e x (new_NvramManager t, h, d)"

lemma nv_run_moves: "(nv_move e)\<^sup>*\<^sup>* y z \<Longrightarrow> nv_run e x y \<Longrightarrow> nv_run e x z"
  by (induction rule: rtranclp_induct) (auto intro: nv_run.move)

lemma set_entries_same: "same_entries m m' \<Longrightarrow> set (entries m') = set (entries m)"
  by (metis same_entries_def set_mset_mset)

lemma active_same: "same_entries m m' \<Longrightarrow> set (active m') = set (active m)"
  by (simp add: active_def set_entries_same)

lemma active_removed: "removed m t m' \<Longrightarrow> set (active m) = insert (sl_index t) (set (active m'))"
proof -
  assume "removed m t m'"
  then have "set_mset (add_mset t (mset (entries m'))) = set_mset (mset (entries m))"
    by (simp add: removed_def)
  then show ?thesis by (auto simp: active_def)
qed

lemma active_may_write: "may_write e m d t sp a \<Longrightarrow> sl_index t \<in> set (active m)"
  by (auto simp: may_write_def active_def)

lemma active_lock:
  assumes "k < num_spaces m" "t = spaces m ! k"
    "t' = t\<lparr>sl_write_locked := True\<rparr> \<or> t' = t\<lparr>sl_read_locked := True\<rparr>"
  shows "active (m\<lparr>spaces := (spaces m)[k := t']\<rparr>) = active m"
proof -
  have "sl_index t' = sl_index (spaces m ! k)" using assms by auto
  then have "map sl_index ((spaces m)[k := t']) = map sl_index (spaces m)"
    by (metis list_update_id map_update)
  then show ?thesis by (simp add: active_def entries_def take_map [symmetric])
qed

lemma active_new [simp]: "active (new_NvramManager t) = []" "\<not> initialized (new_NvramManager t)"
    "mgr_wf (new_NvramManager t)" "mgr_clean (new_NvramManager t)"
  by (simp_all add: active_def entries_def new_NvramManager_def mgr_wf_def mgr_clean_def)

section \<open>Invariants\<close>

text \<open>
  Every space with data on the medium is recorded in the header, as allocated or as provisional, and
  in the memory of an initialised manager.
\<close>

fun recorded :: "nv_state \<Rightarrow> bool" where
  "recorded (m, h, d) \<longleftrightarrow>
     (case h of
        None \<Rightarrow> d = Map.empty
      | Some h0 \<Rightarrow> dom d \<subseteq> set (allocated_indices h0) \<union> set_option (provisional_index h0)) \<and>
     (initialized m \<longrightarrow> dom d \<subseteq> set (active m))"

lemma recorded_boot:
  assumes "dom d \<subseteq> set xs \<union> set_option p" "\<And>i. p = Some i \<Longrightarrow> \<not> b \<Longrightarrow> d i = None"
  shows "dom (case p of Some i \<Rightarrow> if i \<in> set (kept p b xs) then d else d(i := None) | None \<Rightarrow> d)
    \<subseteq> set (kept p b xs)"
  using assms by (auto simp: kept_def split: option.splits if_splits)

lemma recorded_move: "nv_move e x y \<Longrightarrow> recorded x \<Longrightarrow> recorded y"
proof (induction rule: nv_move.induct)
  case (boot m h b d m1 m' d')
  then have "dom d' \<subseteq> set (kept (provisional_index h) b (allocated_indices h))"
    using recorded_boot [of d "allocated_indices h" "provisional_index h" b] by simp
  moreover have "dom d' \<subseteq> dom d" using boot by (auto split: option.splits if_splits)
  moreover have "active m' = active m @ kept (provisional_index h) b (allocated_indices h)"
    using filled_active [OF boot(3)] boot(4) by simp
  moreover have "dom d \<subseteq> set (allocated_indices h) \<union> set_option (provisional_index h)"
    using boot.prems by simp
  ultimately show ?case by auto
next
  case (create_half m i m1 m' h d)
  then show ?case using active_same [of m m'] filled_active [of m "[i]" m1]
    by (auto simp: mgr_header_def)
next
  case (create m i m' sp h d)
  then show ?case using filled_active [of m "[i]" m'] by (auto simp: mgr_header_def)
next
  case (delete_half m d t sp a m1 m' h)
  then have "initialized m" by (simp add: may_write_def)
  then show ?case using delete_half active_same [of m m'] active_removed [of m t m1]
    by (auto simp: mgr_header_def)
next
  case (delete m d t sp a m' h)
  then have "initialized m" by (simp add: may_write_def)
  then show ?case using delete active_removed [of m t m'] by (auto simp: mgr_header_def)
next
  case (write_data m d t sp a buffer data h)
  then show ?case using active_may_write [OF write_data(1)]
    by (auto simp: may_write_def domI split: option.splits)
next
  case (lock_persistent m d t sp a h)
  then show ?case using active_may_write [OF lock_persistent(1)]
    by (auto simp: may_write_def domI split: option.splits)
next
  case (shuffle m m' h d)
  then show ?case using active_same [of m m'] by (auto simp: same_entries_def)
next
  case (lock_boot m k t t' h d)
  then show ?case using active_lock [of k m t t'] by simp
next
  case (wipe_list m d h)
  then have "d = Map.empty" by (auto simp: dom_def fun_eq_iff)
  then show ?case by (simp split: option.splits)
qed (auto simp: mgr_header_def filled_def split: option.splits)

text \<open>
  A persistently locked space \<open>i\<close>: its record on the medium is \<open>sp\<close>, the lock flag is set, and the
  header lists the index as allocated.
\<close>

fun locked :: "'s nv_env \<Rightarrow> u32 \<Rightarrow> NvramSpace \<Rightarrow> nv_state \<Rightarrow> bool" where
  "locked e i sp (m, h, d) \<longleftrightarrow>
     d i = Some sp \<and> has_control e sp NV_CONTROL_PERSISTENT_WRITE_LOCK \<and> Space_HasFlag sp kFlagWriteLocked \<and>
     (\<exists>h0. h = Some h0 \<and> i \<in> set (allocated_indices h0)) \<and> (initialized m \<longrightarrow> i \<in> set (active m))"

lemma locked_not_writable:
  "locked e i sp (m, h, d) \<Longrightarrow> may_write e m d t sp' a \<Longrightarrow> sl_index t \<noteq> i"
  by (auto simp: may_write_def CheckWriteAccess_def)

lemma locked_move: "nv_move e x y \<Longrightarrow> \<not> wipe_support e \<Longrightarrow> locked e i sp x \<Longrightarrow> locked e i sp y"
proof (induction rule: nv_move.induct)
  case (boot m h b d m1 m' d')
  have "i \<in> set (kept (provisional_index h) b (allocated_indices h))"
    using boot by (cases b) (auto simp: kept_def)
  then show ?case using boot filled_active [of m _ m1]
    by (auto split: option.splits if_splits)
next
  case (create_half m j m1 m' h d)
  then show ?case using active_same [of m m'] filled_active [of m "[j]" m1]
    by (auto simp: mgr_header_def)
next
  case (create m j m' sp' h d)
  then show ?case using filled_active [of m "[j]" m'] by (auto simp: mgr_header_def)
next
  case (delete_half m d t sp' a m1 m' h)
  then have "initialized m" "sl_index t \<noteq> i"
    using locked_not_writable [of e i sp m h d t sp' a] by (simp_all add: may_write_def)
  then show ?case using delete_half active_same [of m m'] active_removed [of m t m1]
    by (auto simp: mgr_header_def)
next
  case (delete m d t sp' a m' h)
  then have "initialized m" "sl_index t \<noteq> i"
    using locked_not_writable [of e i sp m h d t sp' a] by (simp_all add: may_write_def)
  then show ?case using delete active_removed [of m t m'] by (auto simp: mgr_header_def)
next
  case (write_data m d t sp' a buffer data h)
  then show ?case using locked_not_writable [of e i sp m h d t sp' a] by auto
next
  case (lock_persistent m d t sp' a h)
  then show ?case using locked_not_writable [of e i sp m h d t sp' a] by auto
next
  case (shuffle m m' h d)
  then show ?case using active_same [of m m'] by (auto simp: same_entries_def)
next
  case (lock_boot m k t t' h d)
  then show ?case using active_lock [of k m t t'] by simp
qed (auto simp: mgr_header_def filled_def)

text \<open>Creation of spaces has been disabled.\<close>

fun create_off :: "nv_state \<Rightarrow> bool" where
  "create_off (m, h, d) \<longleftrightarrow>
     (\<exists>h0. h = Some h0 \<and> Header_HasFlag h0 kFlagDisableCreate) \<and> (initialized m \<longrightarrow> disable_create m)"

lemma mgr_header_flag [simp]: "Header_HasFlag (mgr_header m p) kFlagDisableCreate = disable_create m"
  by (simp add: Header_HasFlag_def mgr_header_def kFlagDisableCreate_def)

lemma create_off_move: "nv_move e x y \<Longrightarrow> create_off x \<Longrightarrow> create_off y"
  by (induction rule: nv_move.induct)
     (auto simp: filled_def same_entries_def removed_def may_write_def)

lemma create_off_dom: "nv_move e (m, h, d) (m', h', d') \<Longrightarrow> create_off (m, h, d) \<Longrightarrow> dom d' \<subseteq> dom d"
  by (cases rule: nv_move.cases) (auto simp: may_write_def split: option.splits if_splits)

lemma recorded_run: "nv_run e x y \<Longrightarrow> recorded x \<Longrightarrow> recorded y"
  by (induction rule: nv_run.induct) (auto dest: recorded_move)

lemma locked_run: "nv_run e x y \<Longrightarrow> \<not> wipe_support e \<Longrightarrow> locked e i sp x \<Longrightarrow> locked e i sp y"
  by (induction rule: nv_run.induct) (auto dest: locked_move)

lemma create_off_run: "nv_run e x y \<Longrightarrow> create_off x \<Longrightarrow> create_off y \<and> dom (snd (snd y)) \<subseteq> dom (snd (snd x))"
proof (induction rule: nv_run.induct)
  case (move x y z)
  obtain m h d m' h' d' where yz: "y = (m, h, d)" "z = (m', h', d')" by (cases y; cases z)
  have "create_off y" "dom d \<subseteq> dom (snd (snd x))" using move yz by simp_all
  moreover from this(1) have "create_off z" "dom d' \<subseteq> dom d"
    using create_off_move [OF move.hyps(2)] create_off_dom [of e m h d m' h' d'] move.hyps(2) yz by simp_all
  ultimately show ?case using yz by auto
qed auto

end
