(* ===== verification/Nvram_Refine.thy ===== *)
theory Nvram_Refine
  imports Nvram_Spec
begin

text \<open>
  The NVRAM manager over a storage layer that keeps its contract refines the transition system of
  \<open>Nvram_Spec\<close>: what a request does to the memory and to the medium is a sequence of transitions.
  The medium holds encoded objects (\<open>nv_abs\<close>); allocations are assumed to succeed.
\<close>

section \<open>The medium\<close>

definition nv_abs ::
  "('s \<Rightarrow> blob option) \<Rightarrow> ('s \<Rightarrow> u32 \<Rightarrow> blob option) \<Rightarrow> ('s \<Rightarrow> bool) \<Rightarrow> 's \<Rightarrow>
   NvramHeader option \<Rightarrow> (u32 \<Rightarrow> NvramSpace option) \<Rightarrow> bool" where
  "nv_abs header_of space_of st_ok s h d \<longleftrightarrow>
     st_ok s \<and> header_of s = map_option header_blob h \<and> (\<forall>h0. h = Some h0 \<longrightarrow> header_fits h0) \<and>
     (\<forall>i. space_of s i = map_option space_blob (d i)) \<and> (\<forall>i sp. d i = Some sp \<longrightarrow> space_fits sp)"

text \<open>The environment of a refined manager: heap requests are granted, and OpenSSL's digest has 32
  bytes.\<close>

definition env_ok :: "'s nv_env \<Rightarrow> bool" where
  "env_ok e \<longleftrightarrow> alloc_total (e_al e) \<and> (\<forall>b. length (openssl_SHA256 e b) = kSHA256DigestSize)"

context nvram_storage
begin

lemma abs_LoadHeader:
  assumes "nv_abs header_of space_of inv s h d" "alloc_total al"
    "persistence_LoadHeader al sto s = Some (st, h', s')"
  shows "nv_abs header_of space_of inv s' h d \<and> (st = kSuccess \<longrightarrow> h = Some h') \<and> (st = kNotFound \<longrightarrow> h = None)"
proof -
  have "inv s" using assms(1) by (simp add: nv_abs_def)
  note law = LoadHeader_law [OF this assms(3)]
  show ?thesis using assms(1) law(1-3) law(5,6) law(4) [OF assms(2)]
    by (cases h) (auto simp: nv_abs_def)
qed

lemma abs_LoadSpace:
  assumes "nv_abs header_of space_of inv s h d" "alloc_total al"
    "persistence_LoadSpace al sto i s = Some (st, sp', s')"
  shows "nv_abs header_of space_of inv s' h d \<and> (st = kSuccess \<longrightarrow> d i = Some sp') \<and> (st = kNotFound \<longrightarrow> d i = None)"
proof -
  have "inv s" using assms(1) by (simp add: nv_abs_def)
  note law = LoadSpace_law [OF this assms(3)]
  show ?thesis using assms(1) law(1-3) law(5,6) law(4) [OF assms(2)]
    by (cases "d i") (auto simp: nv_abs_def)
qed

lemma abs_StoreHeader:
  assumes "nv_abs header_of space_of inv s h d" "header_fits h'"
    "persistence_StoreHeader al sto h' s = Some (st, s')"
  shows "nv_abs header_of space_of inv s' (if st = kSuccess then Some h' else h) d"
  using StoreHeader_law [OF _ assms(3)] assms(1,2) by (simp add: nv_abs_def)

lemma abs_StoreSpace:
  assumes "nv_abs header_of space_of inv s h d" "space_fits sp"
    "persistence_StoreSpace al sto i sp s = Some (st, s')"
  shows "nv_abs header_of space_of inv s' h (if st = kSuccess then d(i \<mapsto> sp) else d)"
  using StoreSpace_law [OF _ assms(3)] assms(1,2) by (simp add: nv_abs_def)

lemma abs_DeleteSpace:
  assumes "nv_abs header_of space_of inv s h d" "persistence_DeleteSpace sto i s = (st, s')"
  shows "nv_abs header_of space_of inv s' h (if st = kStorageError then d else d(i := None))"
  using DeleteSpace_law [OF _ assms(2)] assms(1) by (simp add: nv_abs_def)

end

lemma header_fits_mgr: "mgr_wf m \<Longrightarrow> header_fits (mgr_header m p)"
  by (simp add: header_fits_def mgr_header_def mgr_wf_def kMaxSpaces_def)

section \<open>Simulation\<close>

text \<open>\<open>nv_sim\<close>: from memory \<open>m\<close> and medium \<open>h\<close>, \<open>d\<close> the transitions lead to memory \<open>m'\<close> and to what
  \<open>s'\<close> holds.\<close>

definition nv_sim ::
  "('s \<Rightarrow> blob option) \<Rightarrow> ('s \<Rightarrow> u32 \<Rightarrow> blob option) \<Rightarrow> ('s \<Rightarrow> bool) \<Rightarrow> 's nv_env \<Rightarrow>
   nv_state \<Rightarrow> NvramManager \<Rightarrow> 's \<Rightarrow> bool" where
  "nv_sim header_of space_of st_ok e x m' s' \<longleftrightarrow>
     mgr_wf m' \<and> (\<exists>h' d'. nv_abs header_of space_of st_ok s' h' d' \<and> (nv_move e)\<^sup>*\<^sup>* x (m', h', d'))"

lemma nv_simI:
  "nv_abs header_of space_of st_ok s' h' d' \<Longrightarrow> nv_move e x (m', h', d') \<Longrightarrow> mgr_wf m' \<Longrightarrow>
   nv_sim header_of space_of st_ok e x m' s'"
  by (auto simp: nv_sim_def)

lemma nv_sim_stay:
  "nv_abs header_of space_of st_ok s' h d \<Longrightarrow> mgr_wf m \<Longrightarrow> nv_sim header_of space_of st_ok e (m, h, d) m s'"
  by (auto simp: nv_sim_def)

lemma nv_sim_trans:
  "(nv_move e)\<^sup>*\<^sup>* x y \<Longrightarrow> nv_sim header_of space_of st_ok e y m' s' \<Longrightarrow> nv_sim header_of space_of st_ok e x m' s'"
  by (auto simp: nv_sim_def intro: rtranclp_trans)

lemma nv_sim_step:
  "nv_move e x y \<Longrightarrow> nv_sim header_of space_of st_ok e y m' s' \<Longrightarrow> nv_sim header_of space_of st_ok e x m' s'"
  by (auto simp: nv_sim_def intro: converse_rtranclp_into_rtranclp)

context nvram_storage
begin

lemma abs_WriteHeader:
  assumes "nv_abs header_of space_of inv s h d" "e_sto e = sto" "mgr_wf m"
    "WriteHeader e p m s = Some (res, s')"
  shows "nv_abs header_of space_of inv s' (if res = NV_RESULT_SUCCESS then Some (mgr_header m p) else h) d"
proof -
  obtain st s1 where "persistence_StoreHeader (e_al e) sto (mgr_header m p) s = Some (st, s1)"
    using persistence_StoreHeader_total [of "e_al e" sto "mgr_header m p" s] by auto
  then show ?thesis
    using assms abs_StoreHeader [OF assms(1) header_fits_mgr [OF assms(3)], of "e_al e" p st s1]
    by (auto simp: WriteHeader_eq split: if_splits)
qed

lemma abs_WriteSpaceData:
  assumes "nv_abs header_of space_of inv s h d" "e_sto e = sto" "space_fits sp"
    "WriteSpaceData e i sp s = Some (res, s')"
  shows "nv_abs header_of space_of inv s' h (if res = NV_RESULT_SUCCESS then d(i \<mapsto> sp) else d)"
proof -
  obtain st s1 where "persistence_StoreSpace (e_al e) sto i sp s = Some (st, s1)"
    using persistence_StoreSpace_total [of "e_al e" sto i sp s] by auto
  then show ?thesis
    using assms abs_StoreSpace [OF assms(1,3), of "e_al e" i st s1]
    by (auto simp: WriteSpaceData_def split: if_splits)
qed

lemma abs_provisional:
  assumes "nv_abs header_of space_of inv s h d" "e_sto e = sto" "alloc_total (e_al e)"
    "provisional_in_storage e prov s = Some (b, s')"
  shows "nv_abs header_of space_of inv s' h d \<and> (\<forall>p. prov = Some p \<longrightarrow> \<not> b \<longrightarrow> d p = None)"
proof (cases prov)
  case (Some i)
  obtain st sp s1 where "persistence_LoadSpace (e_al e) sto i s = Some (st, sp, s1)"
    using persistence_LoadSpace_total [of "e_al e" sto i s] by auto
  then show ?thesis using Some assms abs_LoadSpace [OF assms(1,3), of i st sp s1]
    by (cases st) (auto simp: provisional_in_storage_def)
qed (use assms in \<open>simp add: provisional_in_storage_def\<close>)

lemma abs_delete_provisional:
  assumes "nv_abs header_of space_of inv s h d" "e_sto e = sto"
    "delete_provisional e prov del s = (ok, s')"
  shows "nv_abs header_of space_of inv s' h
    (case prov of Some p \<Rightarrow> if del \<and> ok then d(p := None) else d | None \<Rightarrow> d)"
proof (cases "del \<and> prov \<noteq> None")
  case True
  then obtain i where i: "del" "prov = Some i" by auto
  obtain st s1 where "persistence_DeleteSpace sto i s = (st, s1)" by fastforce
  then show ?thesis using i assms abs_DeleteSpace [OF assms(1), of i st s1]
    by (auto simp: delete_provisional_def)
qed (use assms in \<open>auto simp: delete_provisional_def split: option.splits bool.splits\<close>)

lemma sim_Initialize_from:
  assumes "nv_abs header_of space_of inv s (Some h) d" "e_sto e = sto" "alloc_total (e_al e)"
    "mgr_wf m" "\<not> initialized m" "Initialize_from e h m s = Some (ok, m', s')"
  shows "nv_sim header_of space_of inv e (m, Some h, d) m' s'"
  using assms(4,6)
proof (cases rule: Initialize_from_cases)
  case (excess b)
  then show ?thesis using abs_provisional [OF assms(1-3)] assms(4) by (simp add: nv_sim_stay)
next
  case (delete_failed b s1)
  then have "nv_abs header_of space_of inv s1 (Some h) d" using abs_provisional [OF assms(1-3)] by simp
  from abs_delete_provisional [OF this assms(2) delete_failed(4)]
  have "nv_abs header_of space_of inv s' (Some h) d" by (simp split: option.splits)
  then show ?thesis
    by (rule nv_simI) (use delete_failed(3) assms(5) in \<open>auto intro: nv_move.boot_stuck simp: filled_def\<close>)
next
  case (ready b s1 s2 m1)
  let ?p = "provisional_index h"
  let ?d = "case ?p of Some p \<Rightarrow> if p \<in> set (kept ?p b (allocated_indices h)) then d else d(p := None) | None \<Rightarrow> d"
  have s1: "nv_abs header_of space_of inv s1 (Some h) d" "\<And>p. ?p = Some p \<Longrightarrow> \<not> b \<Longrightarrow> d p = None"
    using abs_provisional [OF assms(1-3) ready(2)] by auto
  have "nv_abs header_of space_of inv s2 (Some h) ?d"
    using abs_delete_provisional [OF s1(1) assms(2) ready(5)]
    by (auto simp: left_over_def split: option.splits if_splits)
  note s2 = this
  have mv: "nv_move e (m, Some h, d) (m', Some h, ?d)"
    by (rule nv_move.boot [OF assms(5) s1(2) ready(3,4) refl])
  have m': "mgr_wf m'" "initialized m'" using ready(3,4) by (simp_all add: filled_def)
  from ready(6) show ?thesis
  proof (elim disjE exE)
    fix res
    assume w: "WriteHeader e None m' s2 = Some (res, s')"
    have "nv_move e (m', Some h, ?d) (m', Some (mgr_header m' None), ?d)"
      by (rule nv_move.sync) (rule m')
    then show ?thesis
      using abs_WriteHeader [OF s2 assms(2) m'(1) w] mv m'(1)
      by (cases "res = NV_RESULT_SUCCESS") (auto intro: nv_sim_step [OF mv] nv_simI)
  qed (use s2 mv m' in \<open>auto intro: nv_simI\<close>)
qed

lemma sim_Initialize:
  assumes "nv_abs header_of space_of inv s h d" "e_sto e = sto" "alloc_total (e_al e)" "mgr_wf m"
    "Initialize e m s = Some (ok, m', s')"
  shows "nv_sim header_of space_of inv e (m, h, d) m' s'"
  using assms(5)
proof (cases rule: Initialize_cases)
  case (load_failed st h')
  then show ?thesis using abs_LoadHeader [OF assms(1,3)] assms(2,4) by (simp add: nv_sim_stay)
next
  case (fresh h')
  then have "nv_abs header_of space_of inv s' h d" "h = None"
    using abs_LoadHeader [OF assms(1,3)] assms(2) by auto
  then show ?thesis using fresh assms(4) by (auto intro!: nv_simI nv_move.boot_empty)
next
  case (loaded h' s1)
  then have "nv_abs header_of space_of inv s1 (Some h') d" "h = Some h'"
    using abs_LoadHeader [OF assms(1,3)] assms(2) by auto
  then show ?thesis using sim_Initialize_from loaded assms(2-4) by blast
qed (use assms in \<open>simp add: nv_sim_stay\<close>)

end

section \<open>Facts on entries and sizes\<close>

lemma mset_remove_last:
  assumes "k < length ys"
  shows "add_mset (ys ! k) (mset (butlast (ys[k := last ys]))) = mset ys"
proof (cases "k = length ys - 1")
  case True
  have ne: "ys \<noteq> []" using assms by auto
  then have "ys \<noteq> []" "ys ! k = last ys" using True by (simp_all add: last_conv_nth)
  moreover have "butlast (ys[k := last ys]) = butlast ys" using True by (simp add: butlast_list_update)
  ultimately show ?thesis
    by (metis append_butlast_last_id mset.simps(2) rotate1.simps(2) mset_append union_mset_add_mset_right
        add_mset_add_single mset_single_iff_right)
next
  case False
  then have k: "k < length (butlast ys)" "ys \<noteq> []" using assms by auto
  then have nth: "ys ! k = butlast ys ! k" by (simp add: nth_butlast)
  have "butlast (ys[k := last ys]) = (butlast ys)[k := last ys]"
    using False by (simp add: butlast_list_update)
  moreover have "butlast ys ! k \<in># mset (butlast ys)" using k(1) by simp
  moreover have "mset ys = add_mset (last ys) (mset (butlast ys))"
    using k(2) by (metis append_butlast_last_id mset_append add_mset_add_single mset_single_iff_right union_commute)
  ultimately show ?thesis using k nth by (simp add: mset_update add_mset_commute)
qed

lemma removed_last:
  assumes "mgr_wf m" "k < num_spaces m"
  shows "removed m (spaces m ! k)
    (m\<lparr>spaces := (spaces m)[k := spaces m ! (num_spaces m - 1)], num_spaces := num_spaces m - 1\<rparr>)"
proof -
  let ?ys = "entries m"
  have n: "num_spaces m \<le> length (spaces m)" "length ?ys = num_spaces m" using assms(1) by (simp_all add: mgr_wf_def)
  have "?ys \<noteq> []" using n(2) assms(2) by auto
  then have "last ?ys = spaces m ! (num_spaces m - 1)"
    using n assms(2) by (simp add: last_conv_nth) (simp add: entries_def)
  then have "take (num_spaces m - 1) ((spaces m)[k := spaces m ! (num_spaces m - 1)]) = butlast (?ys[k := last ?ys])"
    using n(1) butlast_take [of "num_spaces m" "(spaces m)[k := last ?ys]"]
    by (simp add: entries_def take_update_swap)
  moreover have "?ys ! k = spaces m ! k" using assms(2) by (simp add: entries_def)
  ultimately show ?thesis
    using mset_remove_last [of k ?ys] assms(2) n by (simp add: removed_def entries_def)
qed

lemma same_entries_drop:
  assumes "mgr_wf m" "num_spaces m < kMaxSpaces"
  shows "same_entries m (m\<lparr>spaces := (spaces m)[num_spaces m := x], num_spaces := num_spaces m\<rparr>)"
  using assms by (simp add: same_entries_def entries_def)

lemma removed_push:
  assumes "removed m t m1" "mgr_wf m1" "num_spaces m1 < kMaxSpaces"
  shows "same_entries m (m1\<lparr>spaces := (spaces m1)[num_spaces m1 := t], num_spaces := num_spaces m1 + 1\<rparr>)"
  using assms push_entry(2) [OF assms(2,3), of t] by (simp add: same_entries_def removed_def)

lemma filled_one:
  assumes "mgr_wf m" "num_spaces m < kMaxSpaces"
  shows "filled m [i] (m\<lparr>spaces := (spaces m)[num_spaces m := fresh_entry i], num_spaces := num_spaces m + 1\<rparr>)"
  using push_entry [OF assms, of "fresh_entry i"] by (simp add: filled_def)

lemma CheckWriteAccess_index:
  "CheckWriteAccess e \<lparr>array_index = k, transient = t, persistent = sp\<rparr> a =
   CheckWriteAccess e \<lparr>array_index = 0, transient = t, persistent = sp\<rparr> a"
  by (simp add: CheckWriteAccess_def)

lemma WriteSpace_contents_length:
  assumes "env_ok e" "WriteSpace_contents e buffer sp = Inr data"
  shows "length data = length (contents sp)"
  using assms
  by (auto simp: WriteSpace_contents_def env_ok_def crypto_SHA256_def Let_def min_def memcpy_at_def
      split: if_splits prod.splits bool.splits)

section \<open>Handlers\<close>

context nvram_storage
begin

lemma sim_init_then:
  assumes "nv_abs header_of space_of inv s h d" "e_sto e = sto" "env_ok e" "mgr_wf m"
    "Initialize e m s \<bind> (\<lambda>(ok, m, s). if \<not> ok then Some (err m s) else body m s) = Some r"
    "\<And>m s. mem (err m s) = m \<and> st (err m s) = s"
    "\<And>m s h d. nv_abs header_of space_of inv s h d \<Longrightarrow> mgr_wf m \<Longrightarrow> initialized m \<Longrightarrow> body m s = Some r \<Longrightarrow>
       nv_sim header_of space_of inv e (m, h, d) (mem r) (st r)"
  shows "nv_sim header_of space_of inv e (m, h, d) (mem r) (st r)"
proof -
  obtain ok m1 s1 where i: "Initialize e m s = Some (ok, m1, s1)"
    using assms(5) by (cases "Initialize e m s") auto
  have "alloc_total (e_al e)" using assms(3) by (simp add: env_ok_def)
  then have sim: "nv_sim header_of space_of inv e (m, h, d) m1 s1"
    using sim_Initialize [OF assms(1,2) _ assms(4) i] by simp
  show ?thesis
  proof (cases ok)
    case False
    then show ?thesis using assms(5,6) i sim by auto
  next
    case True
    obtain h' d' where a: "mgr_wf m1" "nv_abs header_of space_of inv s1 h' d'"
        "(nv_move e)\<^sup>*\<^sup>* (m, h, d) (m1, h', d')"
      using sim by (auto simp: nv_sim_def)
    have "nv_sim header_of space_of inv e (m1, h', d') (mem r) (st r)"
      using assms(5) i True Initialize_wf [OF assms(4) i] by (intro assms(7) [OF a(2,1)]) auto
    then show ?thesis by (rule nv_sim_trans [OF a(3)])
  qed
qed

lemma sim_LoadSpaceRecord:
  assumes "nv_abs header_of space_of inv s h d" "e_sto e = sto" "env_ok e" "mgr_wf m"
    "LoadSpaceRecord e i m s = Some (rec, s')"
  shows "nv_abs header_of space_of inv s' h d \<and>
    (\<forall>r. rec = Inr r \<longrightarrow> (\<exists>k sp. r = \<lparr>array_index = k, transient = spaces m ! k, persistent = sp\<rparr> \<and>
       k < num_spaces m \<and> k < kMaxSpaces \<and> sl_index (spaces m ! k) = i \<and> d i = Some sp))"
proof -
  have al: "alloc_total (e_al e)" using assms(3) by (simp add: env_ok_def)
  from assms(4) show ?thesis
  proof (cases rule: LoadSpaceRecord_cases [of m e i s])
    case (loaded k sp s1)
    then show ?thesis using assms(1,2,5) abs_LoadSpace [OF assms(1) al, of i kSuccess sp s1] by auto
  next
    case (failed st sp s1)
    then show ?thesis using assms(1,2,5) abs_LoadSpace [OF assms(1) al, of i st sp s1] by auto
  qed (use assms in auto)
qed

lemma sim_with_record:
  assumes "nv_abs header_of space_of inv s h d" "e_sto e = sto" "env_ok e" "mgr_wf m"
    "with_record e i check body m s = Some (res, m', s')"
    "\<And>m s h d k sp. nv_abs header_of space_of inv s h d \<Longrightarrow> mgr_wf m \<Longrightarrow> initialized m \<Longrightarrow>
       k < num_spaces m \<Longrightarrow> k < kMaxSpaces \<Longrightarrow> sl_index (spaces m ! k) = i \<Longrightarrow> d i = Some sp \<Longrightarrow>
       check \<lparr>array_index = k, transient = spaces m ! k, persistent = sp\<rparr> = NV_RESULT_SUCCESS \<Longrightarrow>
       body \<lparr>array_index = k, transient = spaces m ! k, persistent = sp\<rparr> m s = Some (res, m', s') \<Longrightarrow>
       nv_sim header_of space_of inv e (m, h, d) m' s'"
  shows "nv_sim header_of space_of inv e (m, h, d) m' s'"
proof -
  let ?body = "\<lambda>m s. do { (rec, s) \<leftarrow> LoadSpaceRecord e i m s;
      case rec of Inl res \<Rightarrow> Some (res, m, s)
      | Inr r \<Rightarrow> if check r \<noteq> NV_RESULT_SUCCESS then Some (check r, m, s) else body r m s }"
  have "nv_sim header_of space_of inv e (m, h, d) m' s'"
    if pre: "nv_abs header_of space_of inv s h d" "mgr_wf m" "initialized m" "?body m s = Some (res, m', s')"
    for m s h d
  proof -
    obtain rec s1 where l: "LoadSpaceRecord e i m s = Some (rec, s1)"
      using pre(4) by (cases "LoadSpaceRecord e i m s") auto
    note sl = sim_LoadSpaceRecord [OF pre(1) assms(2,3) pre(2) l]
    show ?thesis
    proof (cases rec)
      case (Inr r)
      then obtain k sp where k: "r = \<lparr>array_index = k, transient = spaces m ! k, persistent = sp\<rparr>"
          "k < num_spaces m" "k < kMaxSpaces" "sl_index (spaces m ! k) = i" "d i = Some sp"
        using sl by blast
      show ?thesis
      proof (cases "check r = NV_RESULT_SUCCESS")
        case True
        then show ?thesis using assms(6) [of s1 h d m k sp] sl pre(2,3,4) l Inr k by simp
      qed (use sl pre l Inr in \<open>simp add: nv_sim_stay\<close>)
    qed (use sl pre l in \<open>simp add: nv_sim_stay\<close>)
  qed
  then show ?thesis
    using sim_init_then [OF assms(1-4), where r = "(res, m', s')" and mem = "\<lambda>(_, m, _). m"
        and st = "\<lambda>(_, _, s). s" and err = "\<lambda>m s. (NV_RESULT_INTERNAL_ERROR, m, s)" and body = ?body]
      assms(5) unfolding with_record_def by simp
qed

lemma sim_DeleteSpace_record:
  assumes "nv_abs header_of space_of inv s h d" "e_sto e = sto" "mgr_wf m" "initialized m"
    "k < num_spaces m" "k < kMaxSpaces" "sl_index (spaces m ! k) = i" "d i = Some sp"
    "may_write e m d (spaces m ! k) sp a"
    "DeleteSpace_record e i \<lparr>array_index = k, transient = t, persistent = sp\<rparr> m s = Some (res, m', s')"
  shows "nv_sim header_of space_of inv e (m, h, d) m' s'"
proof -
  let ?t = "spaces m ! k"
  let ?m = "m\<lparr>spaces := (spaces m)[k := spaces m ! (num_spaces m - 1)], num_spaces := num_spaces m - 1\<rparr>"
  let ?m' = "?m\<lparr>spaces := (spaces ?m)[num_spaces ?m := ?t], num_spaces := num_spaces ?m + 1\<rparr>"
  have n: "num_spaces m - 1 < kMaxSpaces" "num_spaces ?m < kMaxSpaces" using assms(3,5) by (auto simp: mgr_wf_def)
  have m: "mgr_wf ?m" using assms(3) by (auto simp: mgr_wf_def)
  have m0: "mgr_wf (m\<lparr>spaces := (spaces m)[k := spaces m ! (num_spaces m - 1)]\<rparr>)"
    using assms(3) by (simp add: mgr_wf_def)
  have rem: "removed m ?t ?m" by (rule removed_last [OF assms(3,5)])
  have m': "mgr_wf ?m'" "same_entries m ?m'"
    using push_entry(1) [OF m n(2)] removed_push [OF rem m n(2)] by simp_all
  obtain res1 s1 where h: "WriteHeader e (Some i) ?m s = Some (res1, s1)"
    using WriteHeader_total [OF m, of e "Some i" s] by auto
  note ah = abs_WriteHeader [OF assms(1,2) m h]
  show ?thesis
  proof (cases "res1 = NV_RESULT_SUCCESS")
    case False
    then have "m' = ?m'" "s' = s1"
      using assms(2,3,5,6,10) h n m m0 by (auto simp: DeleteSpace_record_def)
    then show ?thesis using ah False m' by (auto intro!: nv_simI nv_move.shuffle)
  next
    case True
    obtain st s2 where d: "persistence_DeleteSpace sto i s1 = (st, s2)" by fastforce
    note ad = abs_DeleteSpace [OF ah d]
    show ?thesis
    proof (cases "st = kStorageError")
      case err: True
      then have "m' = ?m'" "s' = s2"
        using assms(2,3,5,6,10) h d n m m0 True by (auto simp: DeleteSpace_record_def)
      moreover have "nv_move e (m, h, d) (?m', Some (mgr_header ?m (Some i)), d)"
        using nv_move.delete_half [OF assms(9) rem m'(2), of h] assms(7) by simp
      ultimately show ?thesis using ad True err m' by (auto intro: nv_simI)
    next
      case ok: False
      then have "m' = ?m" "s' = s2"
        using assms(2,3,5,6,10) h d n m m0 True by (cases st; simp add: DeleteSpace_record_def)+
      moreover have "nv_move e (m, h, d) (?m, Some (mgr_header ?m (Some i)), d(i := None))"
        using nv_move.delete [OF assms(9) rem, of h] assms(7) by simp
      ultimately show ?thesis using ad True ok m by (auto intro: nv_simI)
    qed
  qed
qed

end

lemma may_write_entry:
  assumes "mgr_wf m" "initialized m" "k < num_spaces m" "d (sl_index (spaces m ! k)) = Some sp"
    "CheckWriteAccess e \<lparr>array_index = k, transient = spaces m ! k, persistent = sp\<rparr> a = NV_RESULT_SUCCESS"
  shows "may_write e m d (spaces m ! k) sp a"
proof -
  have "spaces m ! k \<in> set (entries m)"
    using assms(1,3) by (auto simp: entries_def in_set_conv_nth mgr_wf_def intro!: exI [of _ k])
  moreover have "CheckWriteAccess e \<lparr>array_index = j, transient = spaces m ! k, persistent = sp\<rparr> a = NV_RESULT_SUCCESS" for j
    using assms(5) CheckWriteAccess_index [of e k] CheckWriteAccess_index [of e j] by simp
  ultimately show ?thesis using assms(2,4) by (simp add: may_write_def)
qed

lemma mgr_wf_set: "mgr_wf m \<Longrightarrow> mgr_wf (m\<lparr>spaces := (spaces m)[k := t]\<rparr>)"
  by (simp add: mgr_wf_def)

context nvram_storage
begin

lemma sim_DeleteSpace:
  assumes "nv_abs header_of space_of inv s h d" "e_sto e = sto" "env_ok e" "mgr_wf m"
    "DeleteSpace e req m s = Some (res, m', s')"
  shows "nv_sim header_of space_of inv e (m, h, d) m' s'"
  by (rule sim_with_record [OF assms(1-4) assms(5) [unfolded DeleteSpace_def]])
     (rule sim_DeleteSpace_record [OF _ assms(2)], assumption+, rule may_write_entry, simp_all)

lemma sim_WriteSpaceData:
  assumes "nv_abs header_of space_of inv s h d" "e_sto e = sto" "mgr_wf m" "space_fits sp"
    "nv_move e (m, h, d) (m, h, d(i \<mapsto> sp))"
    "do { (res, s) \<leftarrow> WriteSpaceData e i sp s; Some (res, m, s) } = Some (res, m', s')"
  shows "nv_sim header_of space_of inv e (m, h, d) m' s'"
proof -
  obtain res1 s1 where w: "WriteSpaceData e i sp s = Some (res1, s1)"
    using WriteSpaceData_total [of e i sp s] by auto
  note aw = abs_WriteSpaceData [OF assms(1,2,4) w]
  have "m' = m" "s' = s1" using assms(6) w by auto
  then show ?thesis using aw assms(3,5)
    by (cases "res1 = NV_RESULT_SUCCESS") (auto intro: nv_simI nv_sim_stay)
qed

lemma sim_WriteSpace:
  assumes "nv_abs header_of space_of inv s h d" "e_sto e = sto" "env_ok e" "mgr_wf m"
    "WriteSpace e req m s = Some (res, m', s')"
  shows "nv_sim header_of space_of inv e (m, h, d) m' s'"
proof (rule sim_with_record [OF assms(1-4) assms(5) [unfolded WriteSpace_def]], goal_cases)
  case (1 m s h d k sp)
  show ?case
  proof (cases "WriteSpace_contents e (ws_buffer req) sp")
    case (Inl r)
    then show ?thesis using 1 by (simp add: nv_sim_stay)
  next
    case (Inr data)
    have "may_write e m d (spaces m ! k) sp (ws_authorization_value req)"
      using 1 by (intro may_write_entry) simp_all
    then have "nv_move e (m, h, d) (m, h, d(ws_index req \<mapsto> sp\<lparr>contents := data\<rparr>))"
      using nv_move.write_data [OF _ Inr] 1(6) by fastforce
    moreover have "space_fits (sp\<lparr>contents := data\<rparr>)"
      using WriteSpace_contents_length [OF assms(3) Inr] 1(1,7) by (simp add: nv_abs_def space_fits_def)
    ultimately show ?thesis
      using sim_WriteSpaceData [OF 1(1) assms(2) 1(2)] 1(9) Inr by simp
  qed
qed

lemma sim_lock_entry:
  assumes "nv_abs header_of space_of inv s h d" "mgr_wf m" "initialized m" "k < num_spaces m" "k < kMaxSpaces"
    "t' = (spaces m ! k)\<lparr>sl_write_locked := True\<rparr> \<or> t' = (spaces m ! k)\<lparr>sl_read_locked := True\<rparr>"
    "do { m \<leftarrow> set_entry k t' m; Some (NV_RESULT_SUCCESS, m, s) } = Some (res, m', s')"
  shows "nv_sim header_of space_of inv e (m, h, d) m' s'"
proof -
  have "m' = m\<lparr>spaces := (spaces m)[k := t']\<rparr>" "s' = s" using assms(2,5,7) by auto
  then show ?thesis
    using nv_move.lock_boot [OF assms(3,4) refl assms(6), of e h d] assms(1,2) mgr_wf_set
    by (auto intro: nv_simI)
qed

lemma sim_LockSpaceWrite:
  assumes "nv_abs header_of space_of inv s h d" "e_sto e = sto" "env_ok e" "mgr_wf m"
    "LockSpaceWrite e req m s = Some (res, m', s')"
  shows "nv_sim header_of space_of inv e (m, h, d) m' s'"
proof (rule sim_with_record [OF assms(1-4) assms(5) [unfolded LockSpaceWrite_def]], goal_cases)
  case (1 m s h d k sp)
  show ?case
  proof (cases "has_control e sp NV_CONTROL_PERSISTENT_WRITE_LOCK")
    case True
    have "may_write e m d (spaces m ! k) sp (lw_authorization_value req)"
      using 1 by (intro may_write_entry) simp_all
    then have "nv_move e (m, h, d) (m, h, d(lw_index req \<mapsto> Space_SetFlag kFlagWriteLocked sp))"
      using nv_move.lock_persistent [OF _ True] 1(6) by fastforce
    moreover have "space_fits (Space_SetFlag kFlagWriteLocked sp)"
      using 1(1,7) by (simp add: nv_abs_def space_fits_def Space_SetFlag_def)
    ultimately show ?thesis
      using sim_WriteSpaceData [OF 1(1) assms(2) 1(2)] 1(9) True by simp
  next
    case False
    then show ?thesis
      using 1 sim_lock_entry [OF 1(1-5) disjI1 [OF refl], of res m' s' e]
      by (cases "has_control e sp NV_CONTROL_BOOT_WRITE_LOCK") (auto simp: nv_sim_stay)
  qed
qed

lemma sim_LockSpaceRead:
  assumes "nv_abs header_of space_of inv s h d" "e_sto e = sto" "env_ok e" "mgr_wf m"
    "LockSpaceRead e req m s = Some (res, m', s')"
  shows "nv_sim header_of space_of inv e (m, h, d) m' s'"
proof (rule sim_with_record [OF assms(1-4) assms(5) [unfolded LockSpaceRead_def]], goal_cases)
  case (1 m s h d k sp)
  then show ?case
    using sim_lock_entry [OF 1(1-5) disjI2 [OF refl], of res m' s' e]
    by (cases "has_control e sp NV_CONTROL_BOOT_READ_LOCK") (auto simp: nv_sim_stay)
qed

end

text \<open>The record that \<open>CreateSpace\<close> stores, when allocations succeed.\<close>

definition created_space :: "'s nv_env \<Rightarrow> CreateSpaceRequest \<Rightarrow> u32 \<Rightarrow> NvramSpace" where
  "created_space e req cs =
     (let sp = \<lparr>s_flags = 0, controls = cs, authorization_value = [],
                contents = replicate (unat (cs_size req)) 0\<rparr>
      in if has_control e sp NV_CONTROL_WRITE_AUTHORIZATION \<or> has_control e sp NV_CONTROL_READ_AUTHORIZATION
         then sp\<lparr>authorization_value := cs_authorization_value req\<rparr> else sp)"

lemma CreateSpace_record_eq:
  fixes req :: CreateSpaceRequest
  assumes "alloc_total (e_al e)" "mgr_wf m" "num_spaces m < kMaxSpaces"
  defines "m1 \<equiv> m\<lparr>spaces := (spaces m)[num_spaces m := fresh_entry (cs_index req)], num_spaces := num_spaces m + 1\<rparr>"
  shows "CreateSpace_record e req cs m s =
    do { (res, s) \<leftarrow> WriteHeader e (Some (cs_index req)) m1 s;
         if res \<noteq> NV_RESULT_SUCCESS then Some (res, m1\<lparr>num_spaces := num_spaces m\<rparr>, s)
         else do { (res, s) \<leftarrow> WriteSpaceData e (cs_index req) (created_space e req cs) s;
                   Some (res, if res \<noteq> NV_RESULT_SUCCESS then m1\<lparr>num_spaces := num_spaces m\<rparr> else m1, s) } }"
proof -
  have "Blob_Resize (e_al e) n [] = (True, map (alloc_fill (e_al e)) [0..<n])" for n
    using assms(1) by (simp add: Blob_Resize_total)
  moreover have "Blob_Assign (e_al e) a [] = (True, a)" for a
    using assms(1) by (simp add: Blob_Assign_def)
  ultimately show ?thesis
    using assms(2,3)
    by (auto simp: CreateSpace_record_def created_space_def Let_def new_NvramSpace_def m1_def memcpy_at_def
        fresh_entry_def has_control_def HasControl_def cong: if_cong)
qed

lemma created_space_fits:
  "unat (cs_size req) \<le> kMaxSpaceSize \<Longrightarrow> length (cs_authorization_value req) \<le> kMaxAuthSize \<Longrightarrow>
   space_fits (created_space e req cs)"
  by (simp add: created_space_def Let_def space_fits_def kMaxSpaceSize_def kMaxAuthSize_def)

lemma created_space_flags [simp]: "s_flags (created_space e req cs) = 0"
  by (simp add: created_space_def Let_def)

context nvram_storage
begin

lemma sim_CreateSpace_record:
  assumes "nv_abs header_of space_of inv s h d" "e_sto e = sto" "env_ok e" "mgr_wf m" "initialized m"
    "num_spaces m < kMaxSpaces" "\<not> disable_create m" "cs_index req \<notin> set (active m)"
    "space_fits (created_space e req cs)"
    "CreateSpace_record e req cs m s = Some (res, m', s')"
  shows "nv_sim header_of space_of inv e (m, h, d) m' s'"
proof -
  let ?i = "cs_index req" and ?sp = "created_space e req cs"
  let ?m1 = "m\<lparr>spaces := (spaces m)[num_spaces m := fresh_entry ?i], num_spaces := num_spaces m + 1\<rparr>"
  let ?m0 = "?m1\<lparr>num_spaces := num_spaces m\<rparr>"
  have al: "alloc_total (e_al e)" using assms(3) by (simp add: env_ok_def)
  note fill = filled_one [OF assms(4,6), of ?i]
  have same: "same_entries m ?m0" "mgr_wf ?m0" "mgr_wf ?m1"
    using same_entries_drop [OF assms(4,6)] assms(4) fill by (simp_all add: mgr_wf_def filled_def)
  obtain res1 s1 where h: "WriteHeader e (Some ?i) ?m1 s = Some (res1, s1)"
    using WriteHeader_total [OF same(3), of e "Some ?i" s] by auto
  obtain res2 s2 where w: "WriteSpaceData e ?i ?sp s1 = Some (res2, s2)"
    using WriteSpaceData_total [of e ?i ?sp s1] by auto
  note ah = abs_WriteHeader [OF assms(1,2) same(3) h] and aw = abs_WriteSpaceData [OF _ assms(2,9) w]
  note eq = CreateSpace_record_eq [OF al assms(4,6), of req cs s]
  show ?thesis
  proof (cases "res1 = NV_RESULT_SUCCESS")
    case False
    then have "m' = ?m0" "s' = s1" using assms(10) eq h by auto
    then show ?thesis using ah False same by (auto intro!: nv_simI nv_move.shuffle)
  next
    case True
    show ?thesis
    proof (cases "res2 = NV_RESULT_SUCCESS")
      case ok: True
      have "m' = ?m1" "s' = s2" using assms(10) eq h w True ok by auto
      then show ?thesis
        using aw [OF ah] True ok same(3) nv_move.create [OF assms(5,7,8) fill, of ?sp e h d]
        by (auto intro: nv_simI)
    next
      case False
      have "m' = ?m0" "s' = s2" using assms(10) eq h w True False by auto
      then show ?thesis
        using aw [OF ah] True False same nv_move.create_half [OF assms(5,7,8) fill same(1), of e h d]
        by (auto intro: nv_simI)
    qed
  qed
qed

lemma sim_CreateSpace_initialized:
  assumes "nv_abs header_of space_of inv s h d" "e_sto e = sto" "env_ok e" "mgr_wf m" "initialized m"
    "CreateSpace_initialized e req m s = Some (res, m', s')"
  shows "nv_sim header_of space_of inv e (m, h, d) m' s'"
proof (cases "\<exists>cs. \<not> disable_create m \<and> cs_index req \<notin> set (active m) \<and> num_spaces m < kMaxSpaces \<and>
    space_fits (created_space e req cs) \<and> CreateSpace_record e req cs m s = Some (res, m', s')")
  case True
  then show ?thesis using sim_CreateSpace_record [OF assms(1-5)] by blast
next
  case False
  from assms(4) have "m' = m \<and> s' = s"
  proof (cases rule: FindSpace_cases [of m "cs_index req"])
    case absent
    then show ?thesis using False assms(6) created_space_fits [of req e]
      by (auto simp: CreateSpace_initialized_def bind_eq_Some_conv not_less split: if_splits)
  next
    case (found k)
    then show ?thesis using assms(6) by (auto simp: CreateSpace_initialized_def split: if_splits)
  qed
  then show ?thesis using assms(1,4) by (simp add: nv_sim_stay)
qed

lemma sim_WipeStorage_loop:
  assumes "wipe_support e" "initialized m" "\<not> disable_wipe m" "mgr_wf m"
  shows "nv_abs header_of space_of inv s h d \<Longrightarrow> set xs \<subseteq> set (active m) \<Longrightarrow>
    WipeStorage_loop sto xs s = (ok, s') \<Longrightarrow>
    \<exists>d'. nv_abs header_of space_of inv s' h d' \<and> (nv_move e)\<^sup>*\<^sup>* (m, h, d) (m, h, d') \<and>
      (ok \<longrightarrow> (\<forall>i. i \<in> set xs \<or> d i = None \<longrightarrow> d' i = None))"
proof (induction xs arbitrary: s d)
  case (Cons i xs)
  obtain st s1 where d: "persistence_DeleteSpace sto i s = (st, s1)" by fastforce
  note ad = abs_DeleteSpace [OF Cons.prems(1) d]
  have mv: "nv_move e (m, h, d) (m, h, d(i := None))"
    using Cons.prems(2) by (intro nv_move.wipe_one [OF assms(1-3)]) auto
  show ?case
  proof (cases "st = kStorageError")
    case True
    then show ?thesis using ad Cons.prems(3) d by auto
  next
    case False
    then have "nv_abs header_of space_of inv s1 h (d(i := None))" "WipeStorage_loop sto xs s1 = (ok, s')"
        "set xs \<subseteq> set (active m)"
      using ad Cons.prems(2,3) d by simp_all
    from Cons.IH [OF this(1,3,2)] obtain d' where d': "nv_abs header_of space_of inv s' h d'"
        "(nv_move e)\<^sup>*\<^sup>* (m, h, d(i := None)) (m, h, d')"
        "ok \<longrightarrow> (\<forall>j. j \<in> set xs \<or> (d(i := None)) j = None \<longrightarrow> d' j = None)"
      by blast
    then show ?thesis using mv by (intro exI [of _ d']) (auto intro: converse_rtranclp_into_rtranclp)
  qed
qed auto

lemma sim_initialized:
  assumes "nv_abs header_of space_of inv s h d" "e_sto e = sto" "mgr_wf m" "initialized m"
  shows "do { (res, s) \<leftarrow> WriteHeader e None (m\<lparr>disable_create := True\<rparr>) s;
       Some (res, if res \<noteq> NV_RESULT_SUCCESS then m else m\<lparr>disable_create := True\<rparr>, s) } = Some (res, m', s') \<Longrightarrow>
     nv_sim header_of space_of inv e (m, h, d) m' s'"
    "do { (res, s) \<leftarrow> WriteHeader e None m s; Some (res, m, s) } = Some (res, m', s') \<Longrightarrow>
     nv_sim header_of space_of inv e (m, h, d) m' s'"
proof -
  let ?m = "m\<lparr>disable_create := True\<rparr>"
  obtain res1 s1 where h1: "WriteHeader e None ?m s = Some (res1, s1)"
    using WriteHeader_total [of ?m e None s] assms(3) by auto
  have ah1: "nv_abs header_of space_of inv s1 (if res1 = NV_RESULT_SUCCESS then Some (mgr_header ?m None) else h) d"
    using abs_WriteHeader [OF assms(1,2) _ h1] assms(3) by simp
  show "nv_sim header_of space_of inv e (m, h, d) m' s'"
    if r: "do { (res, s) \<leftarrow> WriteHeader e None ?m s;
       Some (res, if res \<noteq> NV_RESULT_SUCCESS then m else ?m, s) } = Some (res, m', s')"
    using r h1 ah1 assms(3) nv_move.create_disabled [OF assms(4) refl, of e h d]
    by (cases "res1 = NV_RESULT_SUCCESS") (auto intro: nv_simI nv_sim_stay)
  obtain res2 s2 where h2: "WriteHeader e None m s = Some (res2, s2)"
    using WriteHeader_total [OF assms(3), of e None s] by auto
  show "nv_sim header_of space_of inv e (m, h, d) m' s'"
    if r: "do { (res, s) \<leftarrow> WriteHeader e None m s; Some (res, m, s) } = Some (res, m', s')"
    using r h2 abs_WriteHeader [OF assms(1-3) h2] assms(3) nv_move.sync [OF assms(4), of e h d]
    by (cases "res2 = NV_RESULT_SUCCESS") (auto intro: nv_simI nv_sim_stay)
qed

lemma sim_wipe:
  assumes "nv_abs header_of space_of inv s h d" "e_sto e = sto" "mgr_wf m" "initialized m"
    "wipe_support e" "\<not> disable_wipe m" "WipeStorage_loop sto (active m) s = (ok, s1)"
    "if \<not> ok then m' = m \<and> s' = s1
     else \<exists>res. do { (res, s) \<leftarrow> WriteHeader e None (m\<lparr>num_spaces := 0\<rparr>) s1; Some (res, m\<lparr>num_spaces := 0\<rparr>, s) } =
            Some (res, m', s')"
  shows "nv_sim header_of space_of inv e (m, h, d) m' s'"
proof -
  obtain d' where d': "nv_abs header_of space_of inv s1 h d'" "(nv_move e)\<^sup>*\<^sup>* (m, h, d) (m, h, d')"
      "ok \<longrightarrow> (\<forall>i. i \<in> set (active m) \<or> d i = None \<longrightarrow> d' i = None)"
    using sim_WipeStorage_loop [OF assms(5,4,6,3,1) _ assms(7)] by auto
  show ?thesis
  proof (cases ok)
    case False
    then show ?thesis using assms(3,8) d' by (auto intro: nv_sim_trans nv_sim_stay)
  next
    case True
    let ?m = "m\<lparr>num_spaces := 0\<rparr>"
    have "nv_move e (m, h, d') (?m, h, d')"
      using d'(3) True by (intro nv_move.wipe_list [OF assms(5,4,6)]) auto
    moreover have "nv_sim header_of space_of inv e (?m, h, d') m' s'"
      using sim_initialized(2) [OF d'(1) assms(2), of ?m] assms(3,4,8) True by (auto simp: mgr_wf_def)
    ultimately show ?thesis using d'(2) by (blast intro: nv_sim_trans nv_sim_step)
  qed
qed

lemma sim_load_then:
  assumes "nv_abs header_of space_of inv s h d" "e_sto e = sto" "env_ok e" "mgr_wf m"
    "do { (rec, s) \<leftarrow> LoadSpaceRecord e i m s;
       Some (case rec of Inl res \<Rightarrow> (res, out, m, s)
             | Inr r \<Rightarrow> (case f r of (res, resp) \<Rightarrow> (res, resp, m, s))) } = Some (res, out', m', s')"
  shows "nv_sim header_of space_of inv e (m, h, d) m' s'"
proof -
  obtain rec s1 where l: "LoadSpaceRecord e i m s = Some (rec, s1)"
    using assms(5) by (cases "LoadSpaceRecord e i m s") auto
  have "nv_abs header_of space_of inv s1 h d" using sim_LoadSpaceRecord [OF assms(1-4) l] by simp
  moreover have "m' = m" "s' = s1" using assms(5) l by (auto split: sum.splits prod.splits)
  ultimately show ?thesis using assms(4) by (simp add: nv_sim_stay)
qed

lemma sim1:
  assumes "nv_abs header_of space_of inv s h d" "e_sto e = sto" "env_ok e" "mgr_wf m"
    "do { (ok, m, s) \<leftarrow> Initialize e m s; if \<not> ok then Some (err, m, s) else body m s } = Some (res, m', s')"
    "\<And>m s h d. nv_abs header_of space_of inv s h d \<Longrightarrow> mgr_wf m \<Longrightarrow> initialized m \<Longrightarrow>
       body m s = Some (res, m', s') \<Longrightarrow> nv_sim header_of space_of inv e (m, h, d) m' s'"
  shows "nv_sim header_of space_of inv e (m, h, d) m' s'"
  using sim_init_then [OF assms(1-4), where r = "(res, m', s')" and mem = "\<lambda>(_, m, _). m"
      and st = "\<lambda>(_, _, s). s" and err = "\<lambda>m s. (err, m, s)" and body = body] assms(5,6) by simp

lemma sim2:
  assumes "nv_abs header_of space_of inv s h d" "e_sto e = sto" "env_ok e" "mgr_wf m"
    "do { (ok, m, s) \<leftarrow> Initialize e m s; if \<not> ok then Some (err, o1, m, s) else body m s } = Some (res, o2, m', s')"
    "\<And>m s h d. nv_abs header_of space_of inv s h d \<Longrightarrow> mgr_wf m \<Longrightarrow> initialized m \<Longrightarrow>
       body m s = Some (res, o2, m', s') \<Longrightarrow> nv_sim header_of space_of inv e (m, h, d) m' s'"
  shows "nv_sim header_of space_of inv e (m, h, d) m' s'"
  using sim_init_then [OF assms(1-4), where r = "(res, o2, m', s')" and mem = "\<lambda>(_, _, m, _). m"
      and st = "\<lambda>(_, _, _, s). s" and err = "\<lambda>m s. (err, o1, m, s)" and body = body] assms(5,6) by simp

lemma sim_rest:
  assumes "nv_abs header_of space_of inv s h d" "e_sto e = sto" "env_ok e" "mgr_wf m"
  shows "CreateSpace e creq m s = Some (res, m', s') \<Longrightarrow> nv_sim header_of space_of inv e (m, h, d) m' s'"
    "DisableCreate e m s = Some (res, m', s') \<Longrightarrow> nv_sim header_of space_of inv e (m, h, d) m' s'"
    "WipeStorage e m s = Some (res, m', s') \<Longrightarrow> nv_sim header_of space_of inv e (m, h, d) m' s'"
    "DisableWipe e m s = Some (res, m', s') \<Longrightarrow> nv_sim header_of space_of inv e (m, h, d) m' s'"
    "GetInfo e m s = Some (res, gi, m', s') \<Longrightarrow> nv_sim header_of space_of inv e (m, h, d) m' s'"
    "GetSpaceInfo e greq m s = Some (res, gs, m', s') \<Longrightarrow> nv_sim header_of space_of inv e (m, h, d) m' s'"
    "ReadSpace e rreq m s = Some (res, rs, m', s') \<Longrightarrow> nv_sim header_of space_of inv e (m, h, d) m' s'"
proof (goal_cases)
  case 1
  show ?case by (rule sim1 [OF assms 1 [unfolded CreateSpace_def]])
      (rule sim_CreateSpace_initialized [OF _ assms(2,3)])
next
  case 2
  show ?case by (rule sim1 [OF assms 2 [unfolded DisableCreate_def]])
      (erule sim_initialized(1) [OF _ assms(2)], simp_all add: Let_def cong: if_cong)
next
  case 3
  show ?case
  proof (rule sim1 [OF assms 3 [unfolded WipeStorage_def]], goal_cases)
    case (1 m s h d)
    obtain ok s1 where l: "WipeStorage_loop sto (active m) s = (ok, s1)" by fastforce
    show ?case
    proof (cases "wipe_support e \<and> \<not> disable_wipe m")
      case False
      then have "m' = m" "s' = s" using 1(4) by auto
      then show ?thesis using 1 by (simp add: nv_sim_stay)
    next
      case True
      have "num_spaces m \<le> length (spaces m)" using 1(2) by (simp add: mgr_wf_def)
      then have "if \<not> ok then m' = m \<and> s' = s1
          else do { (res, s) \<leftarrow> WriteHeader e None (m\<lparr>num_spaces := 0\<rparr>) s1; Some (res, m\<lparr>num_spaces := 0\<rparr>, s) } =
            Some (res, m', s')"
        using 1(4) True l assms(2) by (cases ok) (simp_all add: active_def entries_def Let_def)
      then show ?thesis using sim_wipe [OF 1(1) assms(2) 1(2,3) _ _ l, of m' s'] True
        by (auto split: if_splits)
    qed
  qed
next
  case 4
  show ?case by (rule sim1 [OF assms 4 [unfolded DisableWipe_def]])
      (auto split: if_splits intro: nv_simI nv_sim_stay nv_move.wipe_disabled)
next
  case 5
  show ?case by (rule sim2 [OF assms 5 [unfolded GetInfo_def]])
      (auto simp: Let_def bind_eq_Some_conv split: if_splits intro: nv_sim_stay)
next
  case 6
  show ?case by (rule sim2 [OF assms 6 [unfolded GetSpaceInfo_def]]) (rule sim_load_then [OF _ assms(2,3)])
next
  case 7
  show ?case by (rule sim2 [OF assms 7 [unfolded ReadSpace_def]]) (rule sim_load_then [OF _ assms(2,3)])
qed

theorem sim_Dispatch:
  assumes "nv_abs header_of space_of inv s h d" "e_sto e = sto" "env_ok e" "mgr_wf m"
    "Dispatch e request m s = Some (response, m', s')"
  shows "nv_sim header_of space_of inv e (m, h, d) m' s'"
proof -
  note sims = sim_DeleteSpace [OF assms(1-4)] sim_WriteSpace [OF assms(1-4)]
    sim_LockSpaceWrite [OF assms(1-4)] sim_LockSpaceRead [OF assms(1-4)] sim_rest [OF assms(1-4)]
  show ?thesis using assms(5) sims
    by (cases "req_payload request")
       (auto simp: Dispatch_def Dispatch_payload_def respond_def bind_eq_Some_conv)
qed

end

section \<open>Runs of the service\<close>

text \<open>Requests served one after the other, interrupted by reboots.\<close>

inductive nv_system ::
  "'s nv_env \<Rightarrow> NvramManager \<times> 's \<Rightarrow> NvramManager \<times> 's \<Rightarrow> bool" for e where
  idle: "nv_system e x x"
| serve: "nv_system e x (m, s) \<Longrightarrow> Dispatch e request m s = Some (response, m', s') \<Longrightarrow> nv_system e x (m', s')"
| restart: "nv_system e x (m, s) \<Longrightarrow> nv_system e x (new_NvramManager t, s)"

context nvram_storage
begin

lemma system_refines:
  assumes "nv_system e x y" "e_sto e = sto" "env_ok e" "mgr_wf (fst x)"
    "nv_abs header_of space_of inv (snd x) h d"
  shows "\<exists>h' d'. mgr_wf (fst y) \<and> nv_abs header_of space_of inv (snd y) h' d' \<and>
    nv_run e (fst x, h, d) (fst y, h', d')"
  using assms
proof (induction rule: nv_system.induct)
  case (idle x)
  then show ?case by (auto intro: nv_run.start)
next
  case (serve x m s request response m' s')
  then obtain h1 d1 where i: "mgr_wf m" "nv_abs header_of space_of inv s h1 d1"
      "nv_run e (fst x, h, d) (m, h1, d1)"
    by auto
  then show ?case
    using sim_Dispatch [OF i(2) serve.prems(1,2) i(1) serve.hyps(2)]
    by (auto simp: nv_sim_def intro: nv_run_moves)
next
  case (restart x m s t)
  then show ?case by (auto intro: nv_run.reboot)
qed

end

end
