(* ===== verification/Nvram_Storage.thy ===== *)
theory Nvram_Storage
  imports Nvram_Persistence
begin

text \<open>
  The in-memory storage layer of \<^verbatim>\<open>src/nvram/hal/memory_storage.cpp\<close>: a header slot
  and 32 space slots; an empty blob marks a free slot. It implements the storage contract as long
  as allocations succeed.
\<close>

section \<open>Slots\<close>

definition Slot_present :: "blob \<Rightarrow> bool" where
  "Slot_present b \<longleftrightarrow> length b \<noteq> 0"

definition Slot_Load :: "allocator \<Rightarrow> blob \<Rightarrow> Status \<times> blob" where
  "Slot_Load al b =
     (if length b = 0 then (kNotFound, [])
      else case Blob_Assign al b [] of
             (False, out) \<Rightarrow> (kStorageError, out)
           | (True, out) \<Rightarrow> (kSuccess, out))"

definition Slot_Store :: "allocator \<Rightarrow> blob \<Rightarrow> blob \<Rightarrow> Status \<times> blob" where
  "Slot_Store al data b =
     (case Blob_Assign al data b of
        (False, b') \<Rightarrow> (kStorageError, b')
      | (True, b') \<Rightarrow> (kSuccess, b'))"

definition Slot_Delete :: "allocator \<Rightarrow> blob \<Rightarrow> Status \<times> blob" where
  "Slot_Delete al b =
     (case Blob_Resize al 0 b of
        (False, b') \<Rightarrow> (kStorageError, b')
      | (True, b') \<Rightarrow> (kSuccess, b'))"

section \<open>The storage\<close>

definition mem_kMaxSpaces :: nat where "mem_kMaxSpaces = 32"

record mem_storage =
  g_header :: blob
  g_spaces :: "(u32 \<times> blob) list"

definition new_mem_storage :: mem_storage where
  "new_mem_storage = \<lparr>g_header = [], g_spaces = replicate mem_kMaxSpaces (0, [])\<rparr>"

text \<open>A slot is given by its position in \<open>g_spaces\<close>; \<^term>\<open>None\<close> is the null pointer.\<close>

definition FindSpaceSlot :: "u32 \<Rightarrow> mem_storage \<Rightarrow> nat option" where
  "FindSpaceSlot index g =
     find_index (\<lambda>(ix, slot). Slot_present slot \<and> ix = index) (g_spaces g)"

definition mem_LoadHeader :: "allocator \<Rightarrow> mem_storage \<Rightarrow> Status \<times> blob \<times> mem_storage" where
  "mem_LoadHeader al g = (case Slot_Load al (g_header g) of (status, b) \<Rightarrow> (status, b, g))"

definition mem_StoreHeader :: "allocator \<Rightarrow> blob \<Rightarrow> mem_storage \<Rightarrow> Status \<times> mem_storage" where
  "mem_StoreHeader al b g =
     (case Slot_Store al b (g_header g) of (status, slot) \<Rightarrow> (status, g\<lparr>g_header := slot\<rparr>))"

definition mem_LoadSpace :: "allocator \<Rightarrow> u32 \<Rightarrow> mem_storage \<Rightarrow> Status \<times> blob \<times> mem_storage" where
  "mem_LoadSpace al index g =
     (case FindSpaceSlot index g of
        Some i \<Rightarrow> (case Slot_Load al (snd (g_spaces g ! i)) of (status, b) \<Rightarrow> (status, b, g))
      | None \<Rightarrow> (kNotFound, [], g))"

definition mem_StoreSpace :: "allocator \<Rightarrow> u32 \<Rightarrow> blob \<Rightarrow> mem_storage \<Rightarrow> Status \<times> mem_storage" where
  "mem_StoreSpace al index b g =
     (case FindSpaceSlot index g of
        Some i \<Rightarrow>
          (case Slot_Store al b (snd (g_spaces g ! i)) of (status, slot) \<Rightarrow>
             (status, g\<lparr>g_spaces := (g_spaces g)[i := (fst (g_spaces g ! i), slot)]\<rparr>))
      | None \<Rightarrow>
          (case find_index (\<lambda>(ix, slot). \<not> Slot_present slot) (g_spaces g) of
             Some i \<Rightarrow>
               (case Slot_Store al b (snd (g_spaces g ! i)) of (status, slot) \<Rightarrow>
                  (status, g\<lparr>g_spaces := (g_spaces g)[i := (index, slot)]\<rparr>))
           | None \<Rightarrow> (kStorageError, g)))"

definition mem_DeleteSpace :: "allocator \<Rightarrow> u32 \<Rightarrow> mem_storage \<Rightarrow> Status \<times> mem_storage" where
  "mem_DeleteSpace al index g =
     (case FindSpaceSlot index g of
        Some i \<Rightarrow>
          (kSuccess, g\<lparr>g_spaces := (g_spaces g)[i := (fst (g_spaces g ! i),
                                                     snd (Slot_Delete al (snd (g_spaces g ! i))))]\<rparr>)
      | None \<Rightarrow> (kSuccess, g))"

definition memory_storage :: "allocator \<Rightarrow> mem_storage storage_ops" where
  "memory_storage al =
     \<lparr>st_LoadHeader = mem_LoadHeader al, st_StoreHeader = mem_StoreHeader al,
      st_LoadSpace = mem_LoadSpace al, st_StoreSpace = mem_StoreSpace al,
      st_DeleteSpace = mem_DeleteSpace al\<rparr>"

section \<open>The contract\<close>

definition mem_header :: "mem_storage \<Rightarrow> blob option" where
  "mem_header g = (if g_header g = [] then None else Some (g_header g))"

definition mem_space :: "mem_storage \<Rightarrow> u32 \<Rightarrow> blob option" where
  "mem_space g index = map_option (\<lambda>i. snd (g_spaces g ! i)) (FindSpaceSlot index g)"

text \<open>No index occupies two slots.\<close>

definition mem_inv :: "mem_storage \<Rightarrow> bool" where
  "mem_inv g \<longleftrightarrow> (\<forall>j < length (g_spaces g). \<forall>k < length (g_spaces g).
     snd (g_spaces g ! j) \<noteq> [] \<longrightarrow> snd (g_spaces g ! k) \<noteq> [] \<longrightarrow>
     fst (g_spaces g ! j) = fst (g_spaces g ! k) \<longrightarrow> j = k)"

lemma FindSpaceSlot_iff:
  assumes "mem_inv g"
  shows "FindSpaceSlot index g = Some k \<longleftrightarrow>
    k < length (g_spaces g) \<and> fst (g_spaces g ! k) = index \<and> snd (g_spaces g ! k) \<noteq> []"
proof -
  let ?P = "\<lambda>(ix, slot). Slot_present slot \<and> ix = index"
  have *: "?P (g_spaces g ! i) \<longleftrightarrow> fst (g_spaces g ! i) = index \<and> snd (g_spaces g ! i) \<noteq> []" for i
    by (cases "g_spaces g ! i") (auto simp: Slot_present_def)
  have "i = k" if "FindSpaceSlot index g = Some i" "k < length (g_spaces g)"
      "fst (g_spaces g ! k) = index" "snd (g_spaces g ! k) \<noteq> []" for i
    using that find_index_Some [of ?P "g_spaces g" i] assms *
    by (auto simp: FindSpaceSlot_def mem_inv_def)
  then show ?thesis
    using find_index_Some [of ?P "g_spaces g" k] find_index_None [of ?P "g_spaces g"] *
    by (cases "FindSpaceSlot index g") (auto simp: FindSpaceSlot_def)
qed

lemma mem_space_iff:
  assumes "mem_inv g"
  shows "mem_space g index = Some b \<longleftrightarrow>
    b \<noteq> [] \<and> (\<exists>k < length (g_spaces g). g_spaces g ! k = (index, b))"
  using FindSpaceSlot_iff [OF assms, of index]
  by (auto simp: mem_space_def)

text \<open>Storing, creating and deleting all write one slot that is free or belongs to the index.\<close>

lemma mem_update_slot:
  fixes b :: blob
  assumes "mem_inv g" "k < length (g_spaces g)"
    "\<And>j. j < length (g_spaces g) \<Longrightarrow> j \<noteq> k \<Longrightarrow> snd (g_spaces g ! j) \<noteq> [] \<Longrightarrow> fst (g_spaces g ! j) \<noteq> index"
    "snd (g_spaces g ! k) = [] \<or> fst (g_spaces g ! k) = index"
  defines "g' \<equiv> g\<lparr>g_spaces := (g_spaces g)[k := (index, b)]\<rparr>"
  shows "mem_inv g'" "mem_space g' = (mem_space g)(index := if b = [] then None else Some b)"
proof -
  show inv: "mem_inv g'"
    unfolding mem_inv_def
  proof (intro allI impI)
    fix i j
    assume "i < length (g_spaces g')" "j < length (g_spaces g')" "snd (g_spaces g' ! i) \<noteq> []"
      "snd (g_spaces g' ! j) \<noteq> []" "fst (g_spaces g' ! i) = fst (g_spaces g' ! j)"
    then show "i = j"
      using assms(1) assms(3) [of i] assms(3) [of j]
      by (cases "i = k"; cases "j = k") (simp_all add: g'_def mem_inv_def)
  qed
  show "mem_space g' = (mem_space g)(index := if b = [] then None else Some b)"
  proof (intro ext option_ext)
    fix i c
    have "(\<exists>j < length (g_spaces g). (g_spaces g)[k := (index, b)] ! j = (i, c)) \<longleftrightarrow>
        (if i = index then c = b \<or> (\<exists>j < length (g_spaces g). j \<noteq> k \<and> g_spaces g ! j = (i, c))
         else \<exists>j < length (g_spaces g). j \<noteq> k \<and> g_spaces g ! j = (i, c))"
      using assms(2) by (auto simp: nth_list_update)
    moreover have "\<not> (\<exists>j < length (g_spaces g). j \<noteq> k \<and> g_spaces g ! j = (index, c))" if "c \<noteq> []"
      using assms(3) that by fastforce
    moreover have "g_spaces g ! k \<noteq> (i, c)" if "i \<noteq> index" "c \<noteq> []"
      using assms(4) that by auto
    ultimately show "mem_space g' i = Some c \<longleftrightarrow>
        ((mem_space g)(index := if b = [] then None else Some b)) i = Some c"
      using mem_space_iff [OF inv, of i c] mem_space_iff [OF assms(1), of i c]
      by (cases "i = index") (auto simp: g'_def)
  qed
qed

lemma mem_inv_other:
  "mem_inv g \<Longrightarrow> k < length (g_spaces g) \<Longrightarrow> fst (g_spaces g ! k) = index \<Longrightarrow> snd (g_spaces g ! k) \<noteq> [] \<Longrightarrow>
   j < length (g_spaces g) \<Longrightarrow> j \<noteq> k \<Longrightarrow> snd (g_spaces g ! j) \<noteq> [] \<Longrightarrow> fst (g_spaces g ! j) \<noteq> index"
  by (auto simp: mem_inv_def)

lemma mem_StoreSpace_contract:
  assumes "alloc_total al" "mem_inv g" "b \<noteq> []" "mem_StoreSpace al index b g = (st, g')"
  shows "mem_inv g' \<and> mem_header g' = mem_header g \<and>
    mem_space g' = (if st = kSuccess then (mem_space g)(index := Some b) else mem_space g)"
proof (cases "FindSpaceSlot index g")
  case (Some k)
  then have k: "k < length (g_spaces g)" "fst (g_spaces g ! k) = index" "snd (g_spaces g ! k) \<noteq> []"
    using FindSpaceSlot_iff [OF assms(2)] by auto
  note upd = mem_update_slot [OF assms(2) k(1) mem_inv_other [OF assms(2) k] disjI2 [OF k(2)], of b]
  have "st = kSuccess" "g' = g\<lparr>g_spaces := (g_spaces g)[k := (index, b)]\<rparr>"
    using Some assms(1,4) k(2) by (simp_all add: mem_StoreSpace_def Slot_Store_def Blob_Assign_def)
  then show ?thesis using upd assms(3) by (simp add: mem_header_def)
next
  case None
  let ?free = "find_index (\<lambda>(ix, slot). \<not> Slot_present slot) (g_spaces g)"
  have other: "fst (g_spaces g ! j) \<noteq> index" if "j < length (g_spaces g)" "j \<noteq> k" "snd (g_spaces g ! j) \<noteq> []" for j k
    using None that FindSpaceSlot_iff [OF assms(2), of index j] by auto
  show ?thesis
  proof (cases ?free)
    case (Some k)
    then have k: "k < length (g_spaces g)" "snd (g_spaces g ! k) = []"
      using find_index_Some [OF Some] by (auto simp: Slot_present_def split: prod.splits)
    note upd = mem_update_slot [OF assms(2) k(1) other disjI1 [OF k(2)], where b = b]
    have "st = kSuccess" "g' = g\<lparr>g_spaces := (g_spaces g)[k := (index, b)]\<rparr>"
      using None Some assms(1,4) by (simp_all add: mem_StoreSpace_def Slot_Store_def Blob_Assign_def)
    then show ?thesis using upd assms(3) by (simp add: mem_header_def)
  qed (use None assms in \<open>auto simp: mem_StoreSpace_def\<close>)
qed

lemma mem_DeleteSpace_contract:
  assumes "mem_inv g" "mem_DeleteSpace al index g = (st, g')"
  shows "st = kSuccess \<and> mem_inv g' \<and> mem_header g' = mem_header g \<and>
    mem_space g' = (mem_space g)(index := None)"
proof (cases "FindSpaceSlot index g")
  case (Some k)
  then have k: "k < length (g_spaces g)" "fst (g_spaces g ! k) = index" "snd (g_spaces g ! k) \<noteq> []"
    using FindSpaceSlot_iff [OF assms(1)] by auto
  note upd = mem_update_slot [OF assms(1) k(1) mem_inv_other [OF assms(1) k] disjI2 [OF k(2)], of "[]"]
  have "st = kSuccess" "g' = g\<lparr>g_spaces := (g_spaces g)[k := (index, [])]\<rparr>"
    using Some assms(2) k(2) by (simp_all add: mem_DeleteSpace_def Slot_Delete_def Blob_Resize_def)
  then show ?thesis using upd by (simp add: mem_header_def)
qed (use assms in \<open>auto simp: mem_DeleteSpace_def mem_space_def\<close>)

text \<open>An allocator that grants every request; \<open>fill\<close> is what its fresh memory holds.\<close>

definition granting :: "(nat \<Rightarrow> byte) \<Rightarrow> allocator" where
  "granting fill = \<lparr>alloc_ok = (\<lambda>_. True), alloc_fill = fill\<rparr>"

lemma granting_total [simp]: "alloc_total (granting fill)"
  by (simp add: granting_def alloc_total_def)

interpretation mem_store: nvram_storage "memory_storage (granting fill)" mem_header mem_space mem_inv
  for fill
proof (unfold_locales, goal_cases)
  case (1 s st b s')
  then show ?case
    by (auto simp: memory_storage_def mem_LoadHeader_def Slot_Load_def Blob_Assign_def mem_header_def
        granting_def split: if_splits)
next
  case (2 s i st b s')
  then show ?case using FindSpaceSlot_iff [of s i]
    by (auto simp: memory_storage_def mem_LoadSpace_def Slot_Load_def Blob_Assign_def mem_space_def
        granting_def split: if_splits option.splits)
next
  case (3 s b st s')
  then show ?case
    by (auto simp: memory_storage_def mem_StoreHeader_def Slot_Store_def Blob_Assign_def mem_header_def
        granting_def mem_inv_def mem_space_def FindSpaceSlot_def)
next
  case (4 s b i st s')
  then show ?case using mem_StoreSpace_contract [of "granting fill" s b i st s']
    by (simp add: memory_storage_def)
next
  case (5 s i st s')
  then show ?case using mem_DeleteSpace_contract [of s "granting fill" i st s']
    by (simp add: memory_storage_def)
qed

lemma new_mem_storage_inv: "mem_inv new_mem_storage" "mem_header new_mem_storage = None"
    "mem_space new_mem_storage = Map.empty"
proof -
  show inv: "mem_inv new_mem_storage" "mem_header new_mem_storage = None"
    by (simp_all add: mem_inv_def new_mem_storage_def mem_header_def)
  show "mem_space new_mem_storage = Map.empty"
    by (intro ext option_ext) (auto simp: mem_space_iff [OF inv(1)], simp add: new_mem_storage_def)
qed

end
