(* ===== verification/Nvram_Theorems.thy ===== *)
theory Nvram_Theorems
  imports Nvram_Refine Nvram_Storage
begin

text \<open>
  The properties of the NVRAM components: containers, wire format, messages, stored objects, storage
  and manager. Each is stated over the definitions of the components and proved from their lemmas; a
  property with hypotheses is followed by a witness at a concrete input.
\<close>

section \<open>Containers and wire format\<close>

text \<open>On a vector whose recorded capacity is that of its block, \<open>Resize\<close> never writes outside the
  block and never fails its check: it reports an allocation failure and changes nothing, or truncates
  or pads the elements, and the capacity stays correct.\<close>

theorem Vector_Resize_in_bounds:
  assumes "vector_wf v"
  shows "\<exists>ok v'. Vector_Resize al esize mk sz v = Some (ok, v') \<and> vector_wf v' \<and> (alloc_total al \<longrightarrow> ok) \<and>
    (if ok then v_elems v' = take sz (v_elems v) @ map mk [length (v_elems v)..<sz] else v' = v)"
proof (cases "vector_alloc_fails al esize sz (v_capacity v)")
  case True
  then have "\<not> alloc_total al" by (auto simp: vector_alloc_fails_def Let_def)
  then show ?thesis using True assms by (intro exI [of _ False] exI [of _ v]) (simp add: Vector_Resize_wf)
next
  case False
  then show ?thesis using assms vector_resized_wf [of mk sz v]
    by (intro exI [of _ True] exI [of _ "vector_resized mk sz v"])
       (simp add: Vector_Resize_wf vector_resized_def Let_def)
qed

theorem Vector_Resize_in_bounds_witness:
  "vector_wf \<lparr>v_elems = [7 :: u32], v_capacity = 2, v_alloc = 2\<rparr> \<and>
   (\<exists>v'. Vector_Resize (granting (\<lambda>_. 0)) 4 (\<lambda>_. 0 :: u32) 3 \<lparr>v_elems = [7], v_capacity = 2, v_alloc = 2\<rparr> =
      Some (True, v') \<and> v_elems v' = [7, 0, 0])"
proof -
  have wf: "vector_wf \<lparr>v_elems = [7 :: u32], v_capacity = 2, v_alloc = 2\<rparr>" by (simp add: vector_wf_def)
  from Vector_Resize_in_bounds [OF this, of "granting (\<lambda>_. 0)" 4 "\<lambda>_. 0" 3] wf
  show ?thesis by (auto simp: upt_rec)
qed

text \<open>A moved-from vector is not safe to reuse. \<open>swap\<close> exchanges the blocks but not the recorded
  capacities, so after a vector with room for two elements has been moved away, \<open>Resize(1)\<close> on the
  moved-from vector constructs an element behind the null pointer.\<close>

theorem Vector_swap_loses_capacity:
  "(case Vector_swap (Vector_empty, \<lparr>v_elems = [1, 2], v_capacity = 2, v_alloc = 2\<rparr>) of
      (moved_to, moved_from) \<Rightarrow>
        v_elems moved_to = [1, 2 :: u32] \<and> \<not> vector_wf moved_from \<and>
        Vector_Resize al 4 mk 1 moved_from = None)"
  by (simp add: Vector_swap_def Vector_empty_def vector_wf_def Vector_Resize_def Vector_new_capacity_def Let_def)

text \<open>Varints round trip. \<open>EncodeVarint\<close> appends \<open>varint v\<close> to whatever stream it is given, at
  most ten bytes, and \<open>DecodeVarint\<close> reads exactly these bytes back as \<open>v\<close>, whatever follows them.\<close>

theorem varint_roundtrip:
  "o_writes al (EncodeVarint al v) (varint v) \<and> length (varint v) \<le> kMaxVarintBytes \<and>
   DecodeVarint (new_InputStreamBuffer (varint v @ rest)) =
     Some (Some v, i_skip (length (varint v)) (new_InputStreamBuffer (varint v @ rest)))"
  using EncodeVarint_writes length_varint_10 [of v]
    DecodeVarint_varint [of "new_InputStreamBuffer (varint v @ rest)" v rest]
  by (simp add: kMaxVarintBytes_def avail_def new_InputStreamBuffer_def window_def)

text \<open>decoding a request or a response never crashes and always terminates, for arbitrary input
  bytes, an arbitrary allocator and an arbitrary object to decode into.\<close>

theorem Decode_messages_total:
  "(\<exists>ok request'. Decode al Request_kFields data request = Some (ok, request')) \<and>
   (\<exists>ok response'. Decode al Response_kFields data response = Some (ok, response'))"
  using req_table.Decode_safe [of al data request] resp_table.Decode_safe [of al _ data response]
  by (simp add: Request_specs_desc Response_specs_desc)

text \<open>C30: a request survives the wire: when allocations succeed and the encoding is shorter than
  \<open>2\<^sup>6\<^sup>4\<close> bytes, \<open>Encode\<close> into a blob succeeds, and
  \<open>Decode\<close> of the blob into a new request gives the request back.\<close>

theorem Request_roundtrip:
  assumes "alloc_total al" "length (msg_bytes Request_specs request) < 2 ^ 64"
  shows "\<exists>b. Encode_blob al Request_kFields request [] = Some (True, b) \<and>
    Decode al Request_kFields b new_Request = Some (True, request)"
  using req_table.Encode_blob_cases [of al request] req_table.Decode_msg_bytes [OF assms] assms(1)
  by (auto simp: Request_specs_desc)

theorem Request_roundtrip_witness:
  "\<exists>b. Encode_blob (granting (\<lambda>_. 0)) Request_kFields \<lparr>req_payload = Req_READ_SPACE \<lparr>rs_index = 7, rs_authorization_value = [1]\<rparr>\<rparr> [] =
      Some (True, b) \<and>
    Decode (granting (\<lambda>_. 0)) Request_kFields b new_Request =
      Some (True, \<lparr>req_payload = Req_READ_SPACE \<lparr>rs_index = 7, rs_authorization_value = [1]\<rparr>\<rparr>)"
proof (rule Request_roundtrip)
  let ?r = "\<lparr>rs_index = 7, rs_authorization_value = [1]\<rparr>"
  have "length (msg_bytes ReadSpaceRequest_specs ?r) \<le> 60"
    using length_record_bytes [of 1 kVarint "varint (ucast (7 :: u32))"] length_varint_10 [of "ucast (7 :: u32)"]
      length_record_bytes [of 2 kLengthDelimited "[1]"]
    by (simp add: ReadSpaceRequest_specs_def msg_bytes_Cons member_spec_def fs_wire_def fs_number_def
        MakeField_def U32Codec_def VarintCodec_def BlobCodec_def)
  then show "length (msg_bytes Request_specs \<lparr>req_payload = Req_READ_SPACE ?r\<rparr>) < 2 ^ 64"
    using length_record_bytes [of 7 kLengthDelimited "msg_bytes ReadSpaceRequest_specs ?r"]
    by (simp add: Request_specs_def msg_bytes_Cons oneof_spec_def fs_wire_def fs_number_def get_Req_defs
        MakeOneOfField_def StructCodec_def)
qed simp

text \<open>\<open>Encode\<close> into a caller's buffer never writes past it: it succeeds exactly when the encoded
  response fits, and then the buffer starts with an encoding of the reported size that \<open>Decode\<close> turns
  back into the response.\<close>

theorem Response_buffer_roundtrip:
  assumes "alloc_total al" "length (msg_bytes (Response_specs nv) response) < 2 ^ 64"
  shows "\<exists>ok buf n. Encode_buffer al Response_kFields response buffer = Some (ok, buf, n) \<and>
    (ok \<longleftrightarrow> length (msg_bytes (Response_specs nv) response) \<le> length buffer) \<and>
    (ok \<longrightarrow> length buf = length buffer \<and>
       Decode al Response_kFields (take n buf) (new_Response nv) = Some (True, response))"
  using resp_table.Encode_buffer_cases [of al nv response buffer] resp_table.Decode_msg_bytes [OF assms]
  by (fastforce simp: Response_specs_desc)

theorem Response_buffer_roundtrip_witness:
  "\<exists>buf n. Encode_buffer (granting (\<lambda>_. 0)) Response_kFields
      \<lparr>result = 0, resp_payload = Resp_WRITE_SPACE ()\<rparr> (replicate 64 0) = Some (True, buf, n) \<and> length buf = 64 \<and>
    Decode (granting (\<lambda>_. 0)) Response_kFields (take n buf) (new_Response 0) =
      Some (True, \<lparr>result = 0, resp_payload = Resp_WRITE_SPACE ()\<rparr>)"
proof -
  have "length (msg_bytes (Response_specs 0) \<lparr>result = 0, resp_payload = Resp_WRITE_SPACE ()\<rparr>) \<le> 64"
    using length_record_bytes [of 1 kVarint "varint 0"] length_varint_10 [of 0]
      length_record_bytes [of 7 kLengthDelimited "[]"]
    by (simp add: Response_specs_def msg_bytes_Cons oneof_spec_def member_spec_def fs_wire_def fs_number_def
        get_Resp_defs MakeOneOfField_def MakeField_def StructCodec_def U32Codec_def VarintCodec_def
        Empty_specs_def)
  then show ?thesis
    using Response_buffer_roundtrip [of "granting (\<lambda>_. 0)" 0 "\<lparr>result = 0, resp_payload = Resp_WRITE_SPACE ()\<rparr>" "replicate 64 0"]
    by auto
qed

section \<open>Stored objects\<close>

text \<open>The header and the space records survive storage: \<open>EncodeObject\<close> succeeds when allocations
  do, and \<open>DecodeObject\<close> gives the object back even when the storage layer returns trailing bytes.\<close>

theorem stored_objects_roundtrip:
  assumes "alloc_total al" "header_fits h" "space_fits sp"
  shows "(\<exists>b. EncodeObject al kHeaderMagic NvramHeader_kFields h [] = Some (kSuccess, b) \<and>
      DecodeObject al kHeaderMagic NvramHeader_kFields (b @ rest) new_NvramHeader = Some (kSuccess, h)) \<and>
    (\<exists>b. EncodeObject al kSpaceMagic NvramSpace_kFields sp [] = Some (kSuccess, b) \<and>
      DecodeObject al kSpaceMagic NvramSpace_kFields (b @ rest) new_NvramSpace = Some (kSuccess, sp))"
  using encode_header [of al h] encode_space [of al sp] decode_header [OF assms(1,2), of rest]
    decode_space [OF assms(1,3), of rest] assms(1)
  by auto

theorem stored_objects_roundtrip_witness:
  "(\<exists>b. EncodeObject (granting (\<lambda>_. 0)) kHeaderMagic NvramHeader_kFields
        \<lparr>version = 1, h_flags = 0, allocated_indices = [3, 300], provisional_index = Some 3\<rparr> [] = Some (kSuccess, b) \<and>
      DecodeObject (granting (\<lambda>_. 0)) kHeaderMagic NvramHeader_kFields (b @ [0, 0]) new_NvramHeader =
        Some (kSuccess, \<lparr>version = 1, h_flags = 0, allocated_indices = [3, 300], provisional_index = Some 3\<rparr>)) \<and>
    (\<exists>b. EncodeObject (granting (\<lambda>_. 0)) kSpaceMagic NvramSpace_kFields
        \<lparr>s_flags = 1, controls = 2, authorization_value = [9], contents = [1, 2]\<rparr> [] = Some (kSuccess, b) \<and>
      DecodeObject (granting (\<lambda>_. 0)) kSpaceMagic NvramSpace_kFields (b @ [0, 0]) new_NvramSpace =
        Some (kSuccess, \<lparr>s_flags = 1, controls = 2, authorization_value = [9], contents = [1, 2]\<rparr>))"
  by (rule stored_objects_roundtrip) (simp_all add: header_fits_def space_fits_def)

lemma DecodeObject_other_magic:
  assumes "m1 \<noteq> m2" "length (msg_bytes fs x) < 2 ^ 64"
  shows "DecodeObject al m2 ds (object_bytes m1 fs x @ rest) y = Some (kStorageError, y)"
proof -
  let ?r = "new_ProtoReader (new_InputStreamBuffer (object_bytes m1 fs x @ rest))"
  have av: "i_wf (r_stream ?r)"
      "avail (r_stream ?r) = record_header (ucast m1) kLengthDelimited (length (msg_bytes fs x)) @ msg_bytes fs x @ rest"
    by (simp_all add: new_ProtoReader_def new_InputStreamBuffer_def avail_def window_def
        object_bytes_def record_bytes_def)
  show ?thesis using ReadWireTag_header [OF av magic_small assms(2)] assms(1)
    by (simp add: DecodeObject_def inj_ucast_u32_u64)
qed

text \<open>A stored object is never taken for one of the other kind, and arbitrary bytes never crash the
  decoder: the blob of a space is rejected as a header and the blob of a header as a space.\<close>

theorem stored_objects_not_confused:
  assumes "header_fits h" "space_fits sp"
  shows "DecodeObject al kHeaderMagic NvramHeader_kFields (space_blob sp @ rest) h0 = Some (kStorageError, h0) \<and>
    DecodeObject al kSpaceMagic NvramSpace_kFields (header_blob h @ rest) sp0 = Some (kStorageError, sp0) \<and>
    (\<exists>st h'. DecodeObject al kHeaderMagic NvramHeader_kFields bytes h0 = Some (st, h') \<and> st \<noteq> kNotFound)"
  using DecodeObject_other_magic [of kSpaceMagic kHeaderMagic NvramSpace_specs sp al NvramHeader_kFields rest h0]
    DecodeObject_other_magic [of kHeaderMagic kSpaceMagic NvramHeader_specs h al NvramSpace_kFields rest sp0]
    header_fits_bytes [OF assms(1)] space_fits_bytes [OF assms(2)] decode_header_safe [of al bytes h0]
  by (simp add: space_blob_def header_blob_def kHeaderMagic_def kSpaceMagic_def)

theorem stored_objects_not_confused_witness:
  "DecodeObject (granting (\<lambda>_. 0)) kHeaderMagic NvramHeader_kFields (space_blob new_NvramSpace @ []) new_NvramHeader =
     Some (kStorageError, new_NvramHeader) \<and>
   DecodeObject (granting (\<lambda>_. 0)) kSpaceMagic NvramSpace_kFields (header_blob new_NvramHeader @ []) new_NvramSpace =
     Some (kStorageError, new_NvramSpace) \<and>
   (\<exists>st h'. DecodeObject (granting (\<lambda>_. 0)) kHeaderMagic NvramHeader_kFields [255] new_NvramHeader = Some (st, h') \<and>
     st \<noteq> kNotFound)"
  by (rule stored_objects_not_confused)
     (simp_all add: header_fits_def space_fits_def new_NvramHeader_def new_NvramSpace_def)

section \<open>Storage\<close>

text \<open>the in-memory storage layer keeps the contract of \<^verbatim>\<open>storage.h\<close> as long as
  allocations succeed: what was stored is loaded, a deleted space is not found, and nothing else
  changes.\<close>

theorem memory_storage_keeps_contract:
  "nvram_storage (memory_storage (granting fill)) mem_header mem_space mem_inv \<and>
   mem_inv new_mem_storage \<and> mem_header new_mem_storage = None \<and> mem_space new_mem_storage = Map.empty"
  using mem_store.nvram_storage_axioms new_mem_storage_inv by simp

text \<open>When an allocation fails, the in-memory storage layer does not keep the contract: storing over
  an existing header reports an error and the old header is gone, where \<^verbatim>\<open>storage.h\<close> asks for
  the previous version of the data.\<close>

theorem memory_storage_loses_on_failure:
  "mem_header \<lparr>g_header = [1], g_spaces = []\<rparr> = Some [1] \<and>
   (case mem_StoreHeader \<lparr>alloc_ok = (\<lambda>_. False), alloc_fill = (\<lambda>_. 0)\<rparr> [2] \<lparr>g_header = [1], g_spaces = []\<rparr> of
      (status, g') \<Rightarrow> status = kStorageError \<and> mem_header g' = None)"
  by (simp add: mem_header_def mem_StoreHeader_def Slot_Store_def Blob_Assign_def)

section \<open>Manager\<close>

text \<open>An environment and media for the witnesses.\<close>

fun demo_control :: "nvram_control \<Rightarrow> nat" where
  "demo_control NV_CONTROL_PERSISTENT_WRITE_LOCK = 1"
| "demo_control NV_CONTROL_BOOT_WRITE_LOCK = 2"
| "demo_control NV_CONTROL_BOOT_READ_LOCK = 3"
| "demo_control NV_CONTROL_WRITE_AUTHORIZATION = 4"
| "demo_control NV_CONTROL_READ_AUTHORIZATION = 5"
| "demo_control NV_CONTROL_WRITE_EXTEND = 6"

definition demo_env :: "mem_storage nv_env" where
  "demo_env =
     \<lparr>e_al = granting (\<lambda>_. 0), e_sto = memory_storage (granting (\<lambda>_. 0)), nv_control = demo_control,
      nv_result = (\<lambda>_. 0), openssl_SHA256 = (\<lambda>b. take 32 (b @ replicate 32 0)), wipe_support = False\<rparr>"

definition demo_medium :: "NvramHeader \<Rightarrow> u32 \<Rightarrow> NvramSpace \<Rightarrow> mem_storage" where
  "demo_medium h i sp = \<lparr>g_header = header_blob h, g_spaces = [(i, space_blob sp)]\<rparr>"

definition demo_header :: NvramHeader where
  "demo_header = \<lparr>version = 1, h_flags = 1, allocated_indices = [7], provisional_index = None\<rparr>"

definition demo_space :: NvramSpace where
  "demo_space = \<lparr>s_flags = 1, controls = 2 OR 16, authorization_value = [5], contents = [1, 2, 3]\<rparr>"

lemma demo_fits [simp]: "header_fits demo_header" "space_fits demo_space"
  by (simp_all add: header_fits_def space_fits_def demo_header_def demo_space_def)

lemma demo_env_ok [simp]: "env_ok demo_env" "e_sto demo_env = memory_storage (granting (\<lambda>_. 0))"
    "\<not> wipe_support demo_env"
  by (auto simp: env_ok_def demo_env_def kSHA256DigestSize_def min_def)

lemma demo_contract: "nvram_storage (e_sto demo_env) mem_header mem_space mem_inv"
  by (simp add: mem_store.nvram_storage_axioms)

lemma demo_abs:
  assumes "header_fits h" "space_fits sp"
  shows "nv_abs mem_header mem_space mem_inv (demo_medium h i sp) (Some h) [i \<mapsto> sp]"
proof -
  have inv: "mem_inv (demo_medium h i sp)" by (simp add: mem_inv_def demo_medium_def)
  have "mem_space (demo_medium h i sp) j = (if j = i then Some (space_blob sp) else None)" for j
    by (rule option_ext) (auto simp: mem_space_iff [OF inv], auto simp: demo_medium_def)
  then show ?thesis using assms inv by (simp add: nv_abs_def demo_medium_def mem_header_def)
qed

lemma empty_abs: "nv_abs mem_header mem_space mem_inv new_mem_storage None Map.empty"
  using new_mem_storage_inv by (simp add: nv_abs_def)

lemma demo_locked: "locked demo_env 7 demo_space (new_NvramManager t, Some demo_header, [7 \<mapsto> demo_space])"
proof -
  have "(2 OR 16 :: u32) AND 2 \<noteq> 0" by simp
  then show ?thesis
    by (simp add: demo_space_def demo_header_def has_control_def HasControl_def demo_env_def
        Space_HasFlag_def kFlagWriteLocked_def)
qed

lemma memory_deletes: "\<not> deletes_fail (memory_storage al)"
  by (simp add: deletes_fail_def memory_storage_def mem_DeleteSpace_def split: option.split)

text \<open>C17: no sequence of requests crashes the manager. A manager that is new or initialised
  (\<open>mgr_clean\<close>) and well formed answers every request of the sequence, without an access outside
  \<open>spaces_\<close> or a failed check, and stays well formed: with any allocator for each request, also one that
  refuses memory, and whatever the storage layer answers to loads and stores. Two conditions are needed. The control values
  of the requests are below 32, since \<open>CreateSpace\<close> shifts by them. And \<open>DeleteSpace\<close> of the storage
  layer never answers \<open>kStorageError\<close>; for a storage layer that may answer it the claim is only about
  the first request, because an \<open>Initialize\<close> that fails to delete the provisional space leaves the
  manager uninitialised with its spaces counted, and the next one appends to them.\<close>

theorem Dispatch_no_undefined_behaviour:
  assumes "mgr_wf m" "mgr_clean m" "list_all (\<lambda>(al, request). request_ok request) requests"
    "deletes_fail (e_sto e) \<longrightarrow> length requests \<le> 1"
  shows "\<exists>responses m' s'. Dispatch_all e requests m s = Some (responses, m', s') \<and>
    length responses = length requests \<and> mgr_wf m'"
  by (rule Dispatch_all_safe [OF assms])

theorem Dispatch_no_undefined_behaviour_witness:
  "\<exists>responses m' s'. Dispatch_all demo_env
      [(\<lparr>alloc_ok = (\<lambda>n. n < 40), alloc_fill = (\<lambda>_. 1)\<rparr>, \<lparr>req_payload = Req_CREATE_SPACE
         \<lparr>cs_index = 7, cs_size = 32, cs_controls = [1, 4], cs_authorization_value = [9]\<rparr>\<rparr>),
       (granting (\<lambda>_. 0), \<lparr>req_payload = Req_DELETE_SPACE \<lparr>ds_index = 7, ds_authorization_value = [5]\<rparr>\<rparr>)]
      (new_NvramManager (fresh_entry 0)) new_mem_storage = Some (responses, m', s') \<and>
    length responses = length
      [(\<lparr>alloc_ok = (\<lambda>n. n < 40), alloc_fill = (\<lambda>_. 1)\<rparr>, \<lparr>req_payload = Req_CREATE_SPACE
         \<lparr>cs_index = 7, cs_size = 32, cs_controls = [1, 4], cs_authorization_value = [9]\<rparr>\<rparr>),
       (granting (\<lambda>_. 0), \<lparr>req_payload = Req_DELETE_SPACE \<lparr>ds_index = 7, ds_authorization_value = [5]\<rparr>\<rparr>)] \<and> mgr_wf m'"
  by (rule Dispatch_no_undefined_behaviour) (simp_all add: request_ok_def memory_deletes)

text \<open>C1: the manager refines its specification. Over a storage layer that keeps the contract, a request
  takes the memory and the medium through transitions of \<open>nv_move\<close>: each effect it has, also when the
  storage layer fails in the middle of it, is one the specification allows. Storage failures are covered,
  failures of the allocator are not: the environment (\<open>env_ok\<close>) has memory allocations that succeed and a
  digest of its documented length. A \<open>CreateSpace\<close> that runs out of memory, which leaves the unstored
  space listed in the manager, is outside the claim.\<close>

theorem Dispatch_refines_spec:
  assumes "nvram_storage (e_sto e) header_of space_of st_ok" "env_ok e" "mgr_wf m"
    "nv_abs header_of space_of st_ok s h d" "Dispatch e request m s = Some (response, m', s')"
  shows "mgr_wf m' \<and> (\<exists>h' d'. nv_abs header_of space_of st_ok s' h' d' \<and>
    (nv_move e)\<^sup>*\<^sup>* (m, h, d) (m', h', d'))"
  using nvram_storage.sim_Dispatch [OF assms(1,4) refl assms(2,3,5)] by (simp add: nv_sim_def)

theorem Dispatch_refines_spec_witness:
  "\<exists>response m' s'. Dispatch demo_env \<lparr>req_payload = Req_GET_INFO ()\<rparr> (new_NvramManager (fresh_entry 0))
      new_mem_storage = Some (response, m', s') \<and>
    (\<exists>h' d'. nv_abs mem_header mem_space mem_inv s' h' d' \<and>
      (nv_move demo_env)\<^sup>*\<^sup>* (new_NvramManager (fresh_entry 0), None, Map.empty) (m', h', d'))"
proof -
  obtain response m' s' where "Dispatch demo_env \<lparr>req_payload = Req_GET_INFO ()\<rparr>
      (new_NvramManager (fresh_entry 0)) new_mem_storage = Some (response, m', s')"
    using Dispatch_safe [of "new_NvramManager (fresh_entry 0)" "\<lparr>req_payload = Req_GET_INFO ()\<rparr>" demo_env]
    by (fastforce simp: request_ok_def)
  then show ?thesis
    using Dispatch_refines_spec [OF demo_contract _ _ empty_abs] by fastforce
qed

lemma mem_WriteHeader:
  assumes "env_ok e" "e_sto e = memory_storage (granting f)" "mgr_wf m"
  shows "WriteHeader e prov m g = Some (NV_RESULT_SUCCESS, g\<lparr>g_header := header_blob (mgr_header m prov)\<rparr>)"
proof -
  have al: "alloc_total (e_al e)" using assms(1) by (simp add: env_ok_def)
  then have "\<not> vector_alloc_fails (e_al e) 4 (num_spaces m) 0" by (simp add: vector_alloc_fails_def Let_def)
  then show ?thesis
    using assms(2,3) al encode_header [of "e_al e" "mgr_header m prov"]
    by (auto simp: WriteHeader_eq persistence_StoreHeader_def memory_storage_def mem_StoreHeader_def
        Slot_Store_def Blob_Assign_def)
qed

text \<open>Creating a space over the in-memory storage, on an initialised manager with room for it.\<close>

lemma mem_store_new:
  assumes "mem_inv g" "mem_space g i = None" "\<exists>slot \<in> set (g_spaces g). snd slot = []" "alloc_total a"
  shows "\<exists>g'. persistence_StoreSpace a (memory_storage (granting f)) i sp g = Some (kSuccess, g') \<and>
    mem_inv g' \<and> mem_header g' = mem_header g \<and> mem_space g' = (mem_space g)(i \<mapsto> space_blob sp)"
proof -
  have "FindSpaceSlot i g = None" using assms(2) by (cases "FindSpaceSlot i g") (auto simp: mem_space_def)
  moreover obtain k where "find_index (\<lambda>(ix, slot). \<not> Slot_present slot) (g_spaces g) = Some k"
    using assms(3) find_index_None [of "\<lambda>(ix, slot). \<not> Slot_present slot" "g_spaces g"]
    by (cases "find_index (\<lambda>(ix, slot). \<not> Slot_present slot) (g_spaces g)") (fastforce simp: Slot_present_def in_set_conv_nth split_def)+
  ultimately obtain g' where g': "mem_StoreSpace (granting f) i (space_blob sp) g = (kSuccess, g')"
    by (simp add: mem_StoreSpace_def Slot_Store_def Blob_Assign_def)
  then show ?thesis
    using mem_StoreSpace_contract [OF _ assms(1) _ g'] encode_space [of a sp] assms(4)
    by (auto simp: persistence_StoreSpace_def memory_storage_def)
qed

lemma mem_CreateSpace_record:
  assumes "env_ok e" "e_sto e = memory_storage (granting f)" "mgr_wf m" "num_spaces m < kMaxSpaces"
    "mem_inv g" "mem_space g (cs_index req) = None" "\<exists>slot \<in> set (g_spaces g). snd slot = []"
  shows "\<exists>m' g'. CreateSpace_record e req cs m g = Some (NV_RESULT_SUCCESS, m', g') \<and> mgr_wf m' \<and>
    active m' = active m @ [cs_index req] \<and>
    mem_space g' = (mem_space g)(cs_index req \<mapsto> space_blob (created_space e req cs))"
proof -
  let ?i = "cs_index req" and ?sp = "created_space e req cs"
  let ?m = "m\<lparr>spaces := (spaces m)[num_spaces m := fresh_entry ?i], num_spaces := num_spaces m + 1\<rparr>"
  let ?g = "g\<lparr>g_header := header_blob (mgr_header ?m (Some ?i))\<rparr>"
  have al: "alloc_total (e_al e)" using assms(1) by (simp add: env_ok_def)
  have wf: "mgr_wf ?m" "active ?m = active m @ [?i]"
    using push_entry [OF assms(3,4), of "fresh_entry ?i"] by (simp_all add: active_def fresh_entry_def)
  have same: "mem_space ?g = mem_space g" by (simp add: mem_space_def FindSpaceSlot_def fun_eq_iff)
  have "mem_inv ?g" using assms(5) by (simp add: mem_inv_def)
  then obtain g' where "persistence_StoreSpace (e_al e) (e_sto e) ?i ?sp ?g = Some (kSuccess, g')"
      "mem_space g' = (mem_space g)(?i \<mapsto> space_blob ?sp)"
    using mem_store_new [of ?g ?i "e_al e" f ?sp] assms(2,6,7) al same by auto
  then show ?thesis
    using mem_WriteHeader [OF assms(1,2) wf(1), of "Some ?i" g] wf
    by (simp add: CreateSpace_record_eq [OF al assms(3,4)] WriteSpaceData_def)
qed

lemma demo_create:
  assumes "unat (cs_size req) \<le> kMaxSpaceSize" "length (cs_authorization_value req) \<le> kMaxAuthSize" "cs_controls req = []"
  shows "\<exists>m g. CreateSpace demo_env req (new_NvramManager (fresh_entry 0)) new_mem_storage = Some (NV_RESULT_SUCCESS, m, g) \<and>
    mem_space g (cs_index req) \<noteq> None"
proof -
  let ?m = "(new_NvramManager (fresh_entry 0))\<lparr>initialized := True\<rparr>"
  have n: "num_spaces ?m = 0" "\<not> disable_create ?m" "\<not> initialized (new_NvramManager (fresh_entry 0))" "mgr_wf ?m" "active ?m = []"
    by (simp_all add: new_NvramManager_def mgr_wf_def active_def entries_def)
  have none: "mem_space new_mem_storage i = None" for i using empty_abs by (simp add: nv_abs_def)
  have "Initialize demo_env (new_NvramManager (fresh_entry 0)) new_mem_storage = Some (True, ?m, new_mem_storage)"
    using n(3) by (simp add: Initialize_def persistence_LoadHeader_def memory_storage_def mem_LoadHeader_def Slot_Load_def new_mem_storage_def)
  moreover have "FindSpace (cs_index req) ?m = Some kMaxSpaces"
    using FindSpace_cases [OF n(4), of "cs_index req"] n(5) by auto
  moreover have "\<exists>slot \<in> set (g_spaces new_mem_storage). snd slot = []" by (simp add: new_mem_storage_def mem_kMaxSpaces_def)
  ultimately show ?thesis
    using mem_CreateSpace_record [OF demo_env_ok(1,2) n(4) _ _ none, of req 0] n assms new_mem_storage_inv
    by (auto simp: CreateSpace_def CreateSpace_initialized_def kMaxSpaces_def)
qed

text \<open>C31: the header always covers the medium. From a fresh device on, after any requests and reboots
  and with storage failures at any point, every space with data in storage is listed in the stored
  header as allocated or as provisional, and in the memory of an initialised manager. Crash recovery
  relies on it. The storage layer keeps its contract and memory allocations succeed (\<open>env_ok\<close>).\<close>

theorem stored_spaces_are_recorded:
  assumes "nvram_storage (e_sto e) header_of space_of st_ok" "env_ok e"
    "nv_abs header_of space_of st_ok s None Map.empty"
    "nv_system e (new_NvramManager t, s) (m', s')" "space_of s' i \<noteq> None"
  shows "\<exists>h'. header_of s' = Some (header_blob h') \<and>
    (i \<in> set (allocated_indices h') \<or> provisional_index h' = Some i) \<and>
    (initialized m' \<longrightarrow> i \<in> set (active m'))"
proof -
  obtain h' d' where r: "nv_abs header_of space_of st_ok s' h' d'"
      "nv_run e (new_NvramManager t, None, Map.empty) (m', h', d')"
    using nvram_storage.system_refines [OF assms(1,4) refl assms(2)] assms(3) by fastforce
  have "recorded (m', h', d')" by (rule recorded_run [OF r(2)]) simp
  moreover have "i \<in> dom d'" using r(1) assms(5) by (auto simp: nv_abs_def)
  moreover from calculation obtain h0 where "h' = Some h0" by (cases h') auto
  ultimately show ?thesis using r(1) by (intro exI [of _ h0]) (auto simp: nv_abs_def)
qed

theorem stored_spaces_are_recorded_witness:
  "\<exists>m g. nv_system demo_env (new_NvramManager (fresh_entry 0), new_mem_storage) (m, g) \<and>
    mem_space g 7 \<noteq> None \<and> (\<exists>h'. mem_header g = Some (header_blob h') \<and>
      (7 \<in> set (allocated_indices h') \<or> provisional_index h' = Some 7))"
proof -
  let ?req = "\<lparr>cs_index = 7, cs_size = 2, cs_controls = [], cs_authorization_value = []\<rparr>" and ?m = "new_NvramManager (fresh_entry 0)"
  have empty: "mem_space new_mem_storage 7 = None" using empty_abs by (simp add: nv_abs_def)
  obtain m g where c: "CreateSpace demo_env ?req ?m new_mem_storage = Some (NV_RESULT_SUCCESS, m, g)"
      "mem_space g 7 \<noteq> None"
    using demo_create [of ?req] empty by (auto simp: kMaxSpaceSize_def)
  have run: "nv_system demo_env (?m, new_mem_storage) (m, g)"
    by (rule nv_system.serve [OF nv_system.idle, where request = "\<lparr>req_payload = Req_CREATE_SPACE ?req\<rparr>"])
       (simp add: Dispatch_def Dispatch_payload_def respond_def c(1))
  show ?thesis
    using stored_spaces_are_recorded [OF demo_contract demo_env_ok(1) empty_abs run c(2)] run c(2) by blast
qed

text \<open>C2: a persistent write lock is final. Once a space listed in the stored header carries the
  persistent write lock flag, its stored record never changes again, through any requests, storage
  failures and reboots, in a build without wipe support. Memory allocations are assumed to succeed
  (\<open>env_ok\<close>), and the storage layer to keep its contract.\<close>

theorem persistent_lock_is_final:
  assumes "nvram_storage (e_sto e) header_of space_of st_ok" "env_ok e" "\<not> wipe_support e" "mgr_wf m"
    "nv_abs header_of space_of st_ok s h d" "locked e i sp (m, h, d)" "nv_system e (m, s) (m', s')"
  shows "space_of s' i = Some (space_blob sp) \<and> space_of s' i = space_of s i"
proof -
  obtain h' d' where r: "nv_abs header_of space_of st_ok s' h' d'" "nv_run e (m, h, d) (m', h', d')"
    using nvram_storage.system_refines [OF assms(1,7) refl assms(2)] assms(4,5) by fastforce
  have "locked e i sp (m', h', d')" by (rule locked_run [OF r(2) assms(3,6)])
  then show ?thesis using r(1) assms(5,6) by (simp add: nv_abs_def)
qed

theorem persistent_lock_is_final_witness:
  "\<exists>response m' g'. Dispatch demo_env \<lparr>req_payload = Req_DELETE_SPACE \<lparr>ds_index = 7, ds_authorization_value = [5]\<rparr>\<rparr>
      (new_NvramManager (fresh_entry 0)) (demo_medium demo_header 7 demo_space) = Some (response, m', g') \<and>
    mem_space g' 7 = Some (space_blob demo_space) \<and> mem_space g' 7 = mem_space (demo_medium demo_header 7 demo_space) 7"
proof -
  let ?r = "\<lparr>req_payload = Req_DELETE_SPACE \<lparr>ds_index = 7, ds_authorization_value = [5]\<rparr>\<rparr>"
  obtain response m' g' where d: "Dispatch demo_env ?r
      (new_NvramManager (fresh_entry 0)) (demo_medium demo_header 7 demo_space) = Some (response, m', g')"
    using Dispatch_safe [of "new_NvramManager (fresh_entry 0)" ?r demo_env] by (fastforce simp: request_ok_def)
  note run = nv_system.serve [OF nv_system.idle d]
  show ?thesis
    using persistent_lock_is_final [OF demo_contract demo_env_ok(1,3) _ demo_abs [OF demo_fits] demo_locked run] d
    by auto
qed

text \<open>\<open>DisableCreate\<close> is permanent. Once the stored header carries the flag, no request and no reboot
  brings a new space into being: no index without data on the medium ever gets data, and \<open>CreateSpace\<close>
  never succeeds again.\<close>

theorem disabled_create_is_permanent:
  assumes "nvram_storage (e_sto e) header_of space_of st_ok" "env_ok e" "mgr_wf m"
    "nv_abs header_of space_of st_ok s h d" "create_off (m, h, d)" "nv_system e (m, s) (m', s')"
  shows "(\<forall>i. space_of s i = None \<longrightarrow> space_of s' i = None) \<and>
    (\<forall>req res m2 s2. CreateSpace e req m' s' = Some (res, m2, s2) \<longrightarrow> res \<noteq> NV_RESULT_SUCCESS)"
proof (intro conjI allI impI)
  obtain h' d' where r: "mgr_wf m'" "nv_abs header_of space_of st_ok s' h' d'" "nv_run e (m, h, d) (m', h', d')"
    using nvram_storage.system_refines [OF assms(1,6) refl assms(2)] assms(3,4) by fastforce
  have off: "create_off (m', h', d')" "dom d' \<subseteq> dom d" using create_off_run [OF r(3) assms(5)] by auto
  show "space_of s' i = None" if "space_of s i = None" for i
    using off(2) r(2) assms(4) that by (auto simp: nv_abs_def)
  show "res \<noteq> NV_RESULT_SUCCESS" if c: "CreateSpace e req m' s' = Some (res, m2, s2)" for req res m2 s2
  proof -
    obtain ok m1 s1 where i: "Initialize e m' s' = Some (ok, m1, s1)"
      using c by (cases "Initialize e m' s'") (auto simp: CreateSpace_def)
    have "alloc_total (e_al e)" using assms(2) by (simp add: env_ok_def)
    from nvram_storage.sim_Initialize [OF assms(1) r(2) refl this r(1) i]
    obtain h1 d1 where "(nv_move e)\<^sup>*\<^sup>* (m', h', d') (m1, h1, d1)" by (auto simp: nv_sim_def)
    then have "create_off (m1, h1, d1)"
      using create_off_run [OF nv_run_moves [OF _ r(3)] assms(5)] by blast
    then show ?thesis
      using c i Initialize_wf [OF r(1) i] by (cases ok) (auto simp: CreateSpace_def CreateSpace_initialized_def)
  qed
qed

theorem disabled_create_is_permanent_witness:
  "\<exists>res m2 s2. CreateSpace demo_env \<lparr>cs_index = 9, cs_size = 2, cs_controls = [], cs_authorization_value = []\<rparr>
      (new_NvramManager (fresh_entry 0)) (demo_medium demo_header 7 demo_space) = Some (res, m2, s2) \<and>
    res \<noteq> NV_RESULT_SUCCESS"
proof -
  let ?req = "\<lparr>cs_index = 9, cs_size = 2, cs_controls = [], cs_authorization_value = []\<rparr>" and ?m = "new_NvramManager (fresh_entry 0)"
  have off: "create_off (?m, Some demo_header, [7 \<mapsto> demo_space])"
    by (simp add: demo_header_def Header_HasFlag_def kFlagDisableCreate_def)
  obtain response m2 s2 where "Dispatch demo_env \<lparr>req_payload = Req_CREATE_SPACE ?req\<rparr> ?m (demo_medium demo_header 7 demo_space) =
      Some (response, m2, s2)"
    using Dispatch_safe [of ?m "\<lparr>req_payload = Req_CREATE_SPACE ?req\<rparr>" demo_env "demo_medium demo_header 7 demo_space"]
    by (auto simp: request_ok_def)
  then obtain res where "CreateSpace demo_env ?req ?m (demo_medium demo_header 7 demo_space) = Some (res, m2, s2)"
    by (auto simp: Dispatch_def Dispatch_payload_def respond_def split: option.splits bind_splits)
  then show ?thesis
    using disabled_create_is_permanent [OF demo_contract demo_env_ok(1) _ demo_abs [OF demo_fits] off nv_system.idle] by auto
qed

lemma with_record_refused:
  assumes "nvram_storage (e_sto e) header_of space_of st_ok" "env_ok e" "mgr_wf m" "initialized m"
    "nv_abs header_of space_of st_ok s h d" "d i = Some sp"
    "\<And>k t. check \<lparr>array_index = k, transient = t, persistent = sp\<rparr> \<noteq> NV_RESULT_SUCCESS"
    "with_record e i check body m s = Some (res, m', s')"
  shows "res \<noteq> NV_RESULT_SUCCESS \<and> m' = m \<and> nv_abs header_of space_of st_ok s' h d"
proof -
  have al: "alloc_total (e_al e)" using assms(2) by (simp add: env_ok_def)
  obtain rec s1 where l: "LoadSpaceRecord e i m s = Some (rec, s1)"
    using assms(3) by (cases rule: LoadSpaceRecord_cases [of m e i s])
  note sl = nvram_storage.sim_LoadSpaceRecord [OF assms(1,5) refl assms(2,3) l]
  have rec: "rec \<noteq> Inl NV_RESULT_SUCCESS"
    using assms(3) l by (cases rule: LoadSpaceRecord_cases [of m e i s]) auto
  show ?thesis using sl rec l assms(4,6,7,8)
    by (cases rec) (auto simp: with_record_def Initialize_def split: if_splits)
qed

lemma ConstantTimeEquals_iff: "ConstantTimeEquals a b \<longleftrightarrow> a = b"
  using xor_loop_zero [of a b 0] by (auto simp: ConstantTimeEquals_def)

text \<open>C34: no write access without the rights. When the space record on the medium demands a write
  authorisation and the request does not carry it, or the space is persistently locked,
  \<open>WriteSpace\<close>, \<open>DeleteSpace\<close> and \<open>LockSpaceWrite\<close> fail and change neither the manager nor the
  medium. The manager is initialised, the storage layer keeps its contract and allocations succeed.\<close>

theorem write_access_needs_rights:
  assumes "nvram_storage (e_sto e) header_of space_of st_ok" "env_ok e" "mgr_wf m" "initialized m"
    "nv_abs header_of space_of st_ok s h d" "d i = Some sp"
    "has_control e sp NV_CONTROL_WRITE_AUTHORIZATION \<and> authorization_value sp \<noteq> auth \<or>
     has_control e sp NV_CONTROL_PERSISTENT_WRITE_LOCK \<and> Space_HasFlag sp kFlagWriteLocked"
    "WriteSpace e \<lparr>ws_index = i, ws_buffer = buffer, ws_authorization_value = auth\<rparr> m s = Some (res, m', s') \<or>
     DeleteSpace e \<lparr>ds_index = i, ds_authorization_value = auth\<rparr> m s = Some (res, m', s') \<or>
     LockSpaceWrite e \<lparr>lw_index = i, lw_authorization_value = auth\<rparr> m s = Some (res, m', s')"
  shows "res \<noteq> NV_RESULT_SUCCESS \<and> m' = m \<and> nv_abs header_of space_of st_ok s' h d"
proof -
  have "CheckWriteAccess e \<lparr>array_index = k, transient = t, persistent = sp\<rparr> auth \<noteq> NV_RESULT_SUCCESS" for k t
    using assms(7) by (auto simp: CheckWriteAccess_def ConstantTimeEquals_iff)
  then show ?thesis
    using assms(8) with_record_refused [OF assms(1-6), where res = res and m' = m' and s' = s'
        and check = "\<lambda>r. CheckWriteAccess e r auth"]
    by (auto simp: WriteSpace_def DeleteSpace_def LockSpaceWrite_def)
qed

lemma demo_active:
  assumes "mgr_wf m" "initialized m" "nv_abs mem_header mem_space mem_inv g h d"
  shows "\<exists>res m' g'. WriteSpace demo_env req m g = Some (res, m', g')"
  using handlers_safe(2) [OF assms(1), of demo_env req g] assms(2) by (auto simp: safe1_def mgr_clean_def)

theorem write_access_needs_rights_witness:
  "\<exists>res m' g'. WriteSpace demo_env \<lparr>ws_index = 7, ws_buffer = [8], ws_authorization_value = [6]\<rparr>
      ((new_NvramManager (fresh_entry 7))\<lparr>initialized := True, num_spaces := 1\<rparr>)
      (demo_medium demo_header 7 demo_space) = Some (res, m', g') \<and> res \<noteq> NV_RESULT_SUCCESS \<and>
    m' = (new_NvramManager (fresh_entry 7))\<lparr>initialized := True, num_spaces := 1\<rparr> \<and>
    nv_abs mem_header mem_space mem_inv g' (Some demo_header) [7 \<mapsto> demo_space]"
proof -
  let ?m = "(new_NvramManager (fresh_entry 7))\<lparr>initialized := True, num_spaces := 1\<rparr>"
  have m: "mgr_wf ?m" "initialized ?m" by (simp_all add: mgr_wf_def new_NvramManager_def kMaxSpaces_def)
  obtain res m' g' where w: "WriteSpace demo_env \<lparr>ws_index = 7, ws_buffer = [8], ws_authorization_value = [6]\<rparr>
      ?m (demo_medium demo_header 7 demo_space) = Some (res, m', g')"
    using demo_active [OF m demo_abs [OF demo_fits]] by blast
  have "has_control demo_env demo_space NV_CONTROL_PERSISTENT_WRITE_LOCK" "Space_HasFlag demo_space kFlagWriteLocked"
    using demo_locked by simp_all
  then show ?thesis
    using write_access_needs_rights [OF demo_contract demo_env_ok(1) m demo_abs [OF demo_fits, of 7], where i = 7 and
        sp = demo_space and auth = "[6]" and buffer = "[8]" and res = res and m' = m' and s' = g'] w by auto
qed

text \<open>no data leaves the service without the rights. When the space demands a read authorisation and
  the request does not carry it, or the space is locked for reading in this boot, \<open>ReadSpace\<close> fails
  and the response holds no data.\<close>

theorem read_access_needs_rights:
  assumes "nvram_storage (e_sto e) header_of space_of st_ok" "env_ok e" "mgr_wf m" "initialized m"
    "nv_abs header_of space_of st_ok s h d" "d (rs_index req) = Some sp"
    "has_control e sp NV_CONTROL_READ_AUTHORIZATION \<and> authorization_value sp \<noteq> rs_authorization_value req \<or>
     has_control e sp NV_CONTROL_BOOT_READ_LOCK \<and>
       (\<forall>t \<in> set (entries m). sl_index t = rs_index req \<longrightarrow> sl_read_locked t)"
    "ReadSpace e req m s = Some (res, out, m', s')"
  shows "res \<noteq> NV_RESULT_SUCCESS \<and> rr_buffer out = [] \<and> nv_abs header_of space_of st_ok s' h d"
proof -
  obtain rec s1 where l: "LoadSpaceRecord e (rs_index req) m s = Some (rec, s1)"
    using assms(3) by (cases rule: LoadSpaceRecord_cases [of m e "rs_index req" s])
  note sl = nvram_storage.sim_LoadSpaceRecord [OF assms(1,5) refl assms(2,3) l]
  have rec: "rec \<noteq> Inl NV_RESULT_SUCCESS"
    using assms(3) l by (cases rule: LoadSpaceRecord_cases [of m e "rs_index req" s]) auto
  show ?thesis
  proof (cases rec)
    case (Inr r)
    then obtain k where k: "r = \<lparr>array_index = k, transient = spaces m ! k, persistent = sp\<rparr>"
        "k < num_spaces m" "sl_index (spaces m ! k) = rs_index req"
      using sl assms(6) by auto
    have "spaces m ! k \<in> set (entries m)"
      using assms(3) k(2) by (auto simp: entries_def in_set_conv_nth mgr_wf_def intro!: exI [of _ k])
    then have "CheckReadAccess e r (rs_authorization_value req) \<noteq> NV_RESULT_SUCCESS"
      using assms(7) k by (auto simp: CheckReadAccess_def ConstantTimeEquals_iff)
    then show ?thesis
      using sl l assms(4,8) Inr
      by (auto simp: ReadSpace_def Initialize_def ReadSpace_response_def new_ReadSpaceResponse_def Let_def)
  qed (use sl rec l assms(4,8) in \<open>auto simp: ReadSpace_def Initialize_def new_ReadSpaceResponse_def\<close>)
qed

theorem read_access_needs_rights_witness:
  "\<exists>res out m' g'. ReadSpace demo_env \<lparr>rs_index = 7, rs_authorization_value = []\<rparr>
      ((new_NvramManager (fresh_entry 7))\<lparr>initialized := True, num_spaces := 1\<rparr>)
      (demo_medium demo_header 7 (demo_space\<lparr>controls := 32\<rparr>)) = Some (res, out, m', g') \<and>
    res \<noteq> NV_RESULT_SUCCESS \<and> rr_buffer out = [] \<and>
    nv_abs mem_header mem_space mem_inv g' (Some demo_header) [7 \<mapsto> demo_space\<lparr>controls := 32\<rparr>]"
proof -
  let ?m = "(new_NvramManager (fresh_entry 7))\<lparr>initialized := True, num_spaces := 1\<rparr>"
  let ?sp = "demo_space\<lparr>controls := 32\<rparr>"
  have m: "mgr_wf ?m" "initialized ?m" by (simp_all add: mgr_wf_def new_NvramManager_def kMaxSpaces_def)
  have fits: "space_fits ?sp" using demo_fits(2) by (simp add: space_fits_def)
  obtain res out m' g' where w: "ReadSpace demo_env \<lparr>rs_index = 7, rs_authorization_value = []\<rparr>
      ?m (demo_medium demo_header 7 ?sp) = Some (res, out, m', g')"
    using handlers_safe(9) [OF m(1), of demo_env "\<lparr>rs_index = 7, rs_authorization_value = []\<rparr>"] m(2)
    by (fastforce simp: safe2_def mgr_clean_def)
  have "has_control demo_env ?sp NV_CONTROL_READ_AUTHORIZATION" "authorization_value ?sp \<noteq> []"
    by (simp_all add: has_control_def HasControl_def demo_env_def demo_space_def)
  then show ?thesis
    using read_access_needs_rights [OF demo_contract demo_env_ok(1) m demo_abs [OF demo_fits(1) fits, of 7] _ _ w] w
    by auto
qed

text \<open>The in-memory storage layer loads and overwrites existing spaces without failing.\<close>

lemma mem_load:
  assumes "mem_inv g" "mem_space g i = Some (space_blob sp)" "space_fits sp" "alloc_total a"
  shows "persistence_LoadSpace a (memory_storage (granting f)) i g = Some (kSuccess, sp, g)"
proof -
  obtain k where "FindSpaceSlot i g = Some k" "snd (g_spaces g ! k) = space_blob sp"
    using assms(2) by (auto simp: mem_space_def)
  then have "mem_LoadSpace (granting f) i g = (kSuccess, space_blob sp, g)"
    by (simp add: mem_LoadSpace_def Slot_Load_def Blob_Assign_def)
  then show ?thesis
    using decode_space [OF assms(4,3), of "[]"] by (simp add: persistence_LoadSpace_def memory_storage_def)
qed

lemma mem_store_existing:
  assumes "mem_inv g" "mem_space g i \<noteq> None" "alloc_total a"
  shows "\<exists>g'. persistence_StoreSpace a (memory_storage (granting f)) i sp g = Some (kSuccess, g') \<and>
    mem_inv g' \<and> mem_space g' = (mem_space g)(i \<mapsto> space_blob sp)"
proof -
  obtain k where "FindSpaceSlot i g = Some k" using assms(2) by (auto simp: mem_space_def)
  then obtain g' where g': "mem_StoreSpace (granting f) i (space_blob sp) g = (kSuccess, g')"
    by (simp add: mem_StoreSpace_def Slot_Store_def Blob_Assign_def)
  then show ?thesis
    using mem_StoreSpace_contract [OF _ assms(1) _ g'] encode_space [of a sp] assms(3)
    by (auto simp: persistence_StoreSpace_def memory_storage_def)
qed

lemma mem_record:
  assumes "env_ok e" "e_sto e = memory_storage (granting f)" "mgr_wf m" "i \<in> set (active m)" "mem_inv g"
    "mem_space g i = Some (space_blob sp)" "space_fits sp"
  shows "\<exists>k. LoadSpaceRecord e i m g = Some (Inr \<lparr>array_index = k, transient = spaces m ! k, persistent = sp\<rparr>, g) \<and>
    spaces m ! k \<in> set (entries m)"
proof -
  have l: "persistence_LoadSpace (e_al e) (e_sto e) i g = Some (kSuccess, sp, g)"
    using mem_load [OF assms(5-7)] assms(1,2) by (simp add: env_ok_def)
  from assms(3) show ?thesis
  proof (cases rule: LoadSpaceRecord_cases [of m e i g])
    case (loaded k sp' s')
    moreover have "spaces m ! k \<in> set (entries m)"
      using assms(3) loaded(2) by (auto simp: entries_def in_set_conv_nth mgr_wf_def intro!: exI [of _ k])
    ultimately show ?thesis using l by auto
  qed (use l assms(4) in auto)
qed

text \<open>C32: what is written is read back. On the in-memory storage layer, when the access checks pass,
  \<open>WriteSpace\<close> with data that fits succeeds, and \<open>ReadSpace\<close> then returns the data padded with
  zeros to the size of the space. The manager is initialised with the space active, the space is not
  one with \<open>WRITE_EXTEND\<close>, and allocations succeed.\<close>

theorem write_then_read:
  assumes "env_ok e" "e_sto e = memory_storage (granting f)" "mgr_wf m" "initialized m" "mem_inv g"
    "ws_index wreq \<in> set (active m)" "rs_index rreq = ws_index wreq"
    "mem_space g (ws_index wreq) = Some (space_blob sp)" "space_fits sp"
    "\<not> has_control e sp NV_CONTROL_WRITE_EXTEND" "length (ws_buffer wreq) \<le> length (contents sp)"
    "\<forall>k t. t \<in> set (entries m) \<longrightarrow>
       CheckWriteAccess e \<lparr>array_index = k, transient = t, persistent = sp\<rparr> (ws_authorization_value wreq) = NV_RESULT_SUCCESS \<and>
       CheckReadAccess e \<lparr>array_index = k, transient = t, persistent = sp\<rparr> (rs_authorization_value rreq) = NV_RESULT_SUCCESS"
  shows "\<exists>g'. WriteSpace e wreq m g = Some (NV_RESULT_SUCCESS, m, g') \<and>
    ReadSpace e rreq m g' = Some (NV_RESULT_SUCCESS,
      \<lparr>rr_buffer = ws_buffer wreq @ replicate (length (contents sp) - length (ws_buffer wreq)) 0\<rparr>, m, g')"
proof -
  let ?i = "ws_index wreq"
  let ?data = "ws_buffer wreq @ replicate (length (contents sp) - length (ws_buffer wreq)) 0"
  let ?sp = "sp\<lparr>contents := ?data\<rparr>"
  have al: "alloc_total (e_al e)" using assms(1) by (simp add: env_ok_def)
  obtain k where k: "LoadSpaceRecord e ?i m g = Some (Inr \<lparr>array_index = k, transient = spaces m ! k, persistent = sp\<rparr>, g)"
      "spaces m ! k \<in> set (entries m)"
    using mem_record [OF assms(1-3,6,5,8,9)] by blast
  have data: "WriteSpace_contents e (ws_buffer wreq) sp = Inr ?data"
    using assms(10,11) by (simp add: WriteSpace_contents_def memcpy_at_def)
  obtain g' where g': "persistence_StoreSpace (e_al e) (e_sto e) ?i ?sp g = Some (kSuccess, g')" "mem_inv g'"
      "mem_space g' = (mem_space g)(?i \<mapsto> space_blob ?sp)"
    using mem_store_existing [OF assms(5) _ al, of ?i f ?sp] assms(2,8) by auto
  have fits: "space_fits ?sp" using assms(9,11) by (simp add: space_fits_def)
  obtain k' where k': "LoadSpaceRecord e ?i m g' = Some (Inr \<lparr>array_index = k', transient = spaces m ! k', persistent = ?sp\<rparr>, g')"
      "spaces m ! k' \<in> set (entries m)"
    using mem_record [OF assms(1-3,6) g'(2) _ fits] g'(3) by auto
  have "CheckReadAccess e \<lparr>array_index = k', transient = spaces m ! k', persistent = ?sp\<rparr> (rs_authorization_value rreq) =
      CheckReadAccess e \<lparr>array_index = k', transient = spaces m ! k', persistent = sp\<rparr> (rs_authorization_value rreq)"
    by (simp add: CheckReadAccess_def has_control_def HasControl_def)
  then have "ReadSpace e rreq m g' = Some (NV_RESULT_SUCCESS, \<lparr>rr_buffer = ?data\<rparr>, m, g')"
    using k' assms(4,7,12) al by (simp add: ReadSpace_def Initialize_def ReadSpace_response_def Blob_Assign_def)
  moreover have "WriteSpace e wreq m g = Some (NV_RESULT_SUCCESS, m, g')"
    using k g'(1) data assms(4,12)
    by (simp add: WriteSpace_def with_record_def Initialize_def WriteSpaceData_def)
  ultimately show ?thesis by blast
qed

theorem write_then_read_witness:
  "\<exists>g'. WriteSpace demo_env \<lparr>ws_index = 7, ws_buffer = [8], ws_authorization_value = []\<rparr>
      ((new_NvramManager (fresh_entry 7))\<lparr>initialized := True, num_spaces := 1\<rparr>)
      (demo_medium demo_header 7 (demo_space\<lparr>controls := 0\<rparr>)) =
      Some (NV_RESULT_SUCCESS, (new_NvramManager (fresh_entry 7))\<lparr>initialized := True, num_spaces := 1\<rparr>, g') \<and>
    ReadSpace demo_env \<lparr>rs_index = 7, rs_authorization_value = []\<rparr>
      ((new_NvramManager (fresh_entry 7))\<lparr>initialized := True, num_spaces := 1\<rparr>) g' =
      Some (NV_RESULT_SUCCESS, \<lparr>rr_buffer = [8, 0, 0]\<rparr>,
        (new_NvramManager (fresh_entry 7))\<lparr>initialized := True, num_spaces := 1\<rparr>, g')"
proof -
  let ?m = "(new_NvramManager (fresh_entry 7))\<lparr>initialized := True, num_spaces := 1\<rparr>"
  let ?sp = "demo_space\<lparr>controls := 0\<rparr>"
  let ?w = "\<lparr>ws_index = 7, ws_buffer = [8], ws_authorization_value = []\<rparr>"
  let ?r = "\<lparr>rs_index = 7, rs_authorization_value = []\<rparr>"
  have m: "mgr_wf ?m" "initialized ?m" "7 \<in> set (active ?m)"
    by (simp_all add: mgr_wf_def new_NvramManager_def kMaxSpaces_def active_def entries_def fresh_entry_def)
  have fits: "space_fits ?sp" using demo_fits(2) by (simp add: space_fits_def)
  note medium = demo_abs [OF demo_fits(1) fits, of 7, unfolded nv_abs_def]
  have no: "\<not> has_control demo_env ?sp c" for c by (simp add: has_control_def HasControl_def)
  show ?thesis
    using write_then_read [OF demo_env_ok(1,2) m(1,2), of "demo_medium demo_header 7 ?sp" ?w ?r ?sp] m(3) fits medium no
    by (simp add: CheckWriteAccess_def CheckReadAccess_def demo_space_def)
qed

text \<open>a write-extend space accumulates digests: writing to it stores the SHA-256 digest of the old
  contents followed by the new data, and its size does not change.\<close>

theorem write_extend_contents:
  assumes "env_ok e" "has_control e sp NV_CONTROL_WRITE_EXTEND" "length (contents sp) = kSHA256DigestSize"
  shows "WriteSpace_contents e buffer sp = Inr (openssl_SHA256 e (contents sp @ buffer))"
  using assms
  by (simp add: WriteSpace_contents_def env_ok_def Blob_Resize_total crypto_SHA256_def memcpy_at_def Let_def)

theorem write_extend_contents_witness:
  "WriteSpace_contents demo_env [1] (demo_space\<lparr>controls := 64, contents := replicate 32 0\<rparr>) =
     Inr (openssl_SHA256 demo_env (contents (demo_space\<lparr>controls := 64, contents := replicate 32 0\<rparr>) @ [1]))"
  by (rule write_extend_contents [OF demo_env_ok(1)])
     (simp_all add: has_control_def HasControl_def demo_env_def kSHA256DigestSize_def)

lemma mem_provisional:
  assumes "env_ok e" "e_sto e = memory_storage (granting f)"
  shows "provisional_in_storage e prov g = Some (\<exists>p. prov = Some p \<and> mem_space g p \<noteq> None, g)"
proof (cases prov)
  case (Some p)
  show ?thesis
  proof (cases "FindSpaceSlot p g")
    case None
    then show ?thesis using assms(2) Some
      by (simp add: provisional_in_storage_def persistence_LoadSpace_def memory_storage_def mem_LoadSpace_def mem_space_def)
  next
    case found: (Some k)
    have present: "snd (g_spaces g ! k) \<noteq> []"
      using find_index_Some [OF found [unfolded FindSpaceSlot_def]] by (auto simp: Slot_present_def split: prod.splits)
    obtain st sp where "DecodeObject (e_al e) kSpaceMagic NvramSpace_kFields (snd (g_spaces g ! k)) new_NvramSpace = Some (st, sp)"
        "st \<noteq> kNotFound"
      using decode_space_safe by blast
    then show ?thesis using assms(2) Some found present
      by (cases st) (simp_all add: provisional_in_storage_def persistence_LoadSpace_def memory_storage_def
          mem_LoadSpace_def mem_space_def Slot_Load_def Blob_Assign_def)
  qed
qed (simp add: provisional_in_storage_def)

text \<open>The pieces of \<open>Initialize\<close> over the in-memory storage: loading the header, and deleting the data a
  provisional index leaves behind.\<close>

lemma mem_Initialize:
  assumes "env_ok e" "e_sto e = memory_storage (granting f)" "mem_header g = Some (header_blob h)" "header_fits h"
    "version h \<le> kVersion" "\<not> initialized m"
  shows "Initialize e m g = Initialize_from e h m g"
proof -
  have al: "alloc_total (e_al e)" using assms(1) by (simp add: env_ok_def)
  have "g_header g = header_blob h" using assms(3) by (auto simp: mem_header_def split: if_splits)
  then have "persistence_LoadHeader (e_al e) (e_sto e) g = Some (kSuccess, h, g)"
    using decode_header [OF al assms(4), of "[]"] assms(2)
    by (simp add: persistence_LoadHeader_def memory_storage_def mem_LoadHeader_def Slot_Load_def Blob_Assign_def)
  then show ?thesis using leD [OF assms(5)] assms(6) by (simp add: Initialize_def)
qed

lemma mem_delete_provisional:
  assumes "e_sto e = memory_storage (granting f)" "mem_inv g" "del \<longleftrightarrow> prov \<noteq> None \<and> left_over prov k"
  shows "\<exists>g1. delete_provisional e prov del g = (True, g1) \<and>
      mem_space g1 = (case prov of None \<Rightarrow> mem_space g
        | Some p \<Rightarrow> if p \<in> set k then mem_space g else (mem_space g)(p := None))"
proof (cases "del")
  case True
  then obtain p where p: "prov = Some p" "p \<notin> set k" using assms(3) by (auto simp: left_over_def)
  obtain st g2 where d: "mem_DeleteSpace (granting f) p g = (st, g2)" by fastforce
  then show ?thesis
    using mem_DeleteSpace_contract [OF assms(2) d] p True assms(1)
    by (simp add: delete_provisional_def persistence_DeleteSpace_def memory_storage_def)
next
  case False
  then show ?thesis using assms(3) by (cases prov) (auto simp: delete_provisional_def left_over_def)
qed

text \<open>C18: a reboot repairs interrupted creations and deletions. On the in-memory storage layer the first
  request after a reboot initialises the manager with the allocated spaces of the stored header, minus
  a provisional space that has no data; a provisional space that is not allocated loses its data; and
  the header is rewritten without a provisional index. Whether another allocated space has data is not
  looked at. The stored header is one this build can read, with at most \<open>kMaxSpaces\<close> indices, and
  memory allocations succeed.\<close>

theorem boot_repairs_provisional:
  assumes "env_ok e" "e_sto e = memory_storage (granting f)" "mem_inv g"
    "mem_header g = Some (header_blob h)" "header_fits h" "version h \<le> kVersion"
    "length (allocated_indices h) \<le> kMaxSpaces"
  shows "\<exists>m' g'. Initialize e (new_NvramManager t) g = Some (True, m', g') \<and>
    active m' = filter (\<lambda>i. provisional_index h = Some i \<longrightarrow> mem_space g i \<noteq> None) (allocated_indices h) \<and>
    mem_space g' = (case provisional_index h of None \<Rightarrow> mem_space g
      | Some p \<Rightarrow> if p \<in> set (active m') then mem_space g else (mem_space g)(p := None)) \<and>
    (\<exists>h'. mem_header g' = Some (header_blob h') \<and> provisional_index h' = None \<and> allocated_indices h' = active m')"
proof -
  let ?p = "provisional_index h" and ?b = "\<exists>p. provisional_index h = Some p \<and> mem_space g p \<noteq> None"
  let ?k = "kept ?p ?b (allocated_indices h)" and ?n = "new_NvramManager t"
  have n: "num_spaces ?n = 0" "\<not> initialized ?n" by (simp_all add: new_NvramManager_def)
  then obtain del m1 where i: "Initialize_spaces ?p ?b (allocated_indices h) (?p \<noteq> None) ?n = Some (del, m1)"
    using Initialize_spaces_total [of ?n "allocated_indices h" ?p ?b "?p \<noteq> None"] assms(7) by auto
  have fill: "filled ?n ?k m1" and del: "del \<longleftrightarrow> ?p \<noteq> None \<and> left_over ?p ?k"
    using Initialize_spaces_form [OF _ i] by simp_all
  let ?m = "m1\<lparr>disable_create := Header_HasFlag h kFlagDisableCreate, initialized := True\<rparr>"
  have m: "mgr_wf ?m" "active ?m = ?k" using fill filled_active [OF fill] by (simp_all add: filled_def)
  have k: "?k = filter (\<lambda>i. ?p = Some i \<longrightarrow> mem_space g i \<noteq> None) (allocated_indices h)"
    by (auto simp: kept_def intro!: filter_cong)
  obtain g1 where g1: "delete_provisional e ?p del g = (True, g1)"
      "mem_space g1 = (case ?p of None \<Rightarrow> mem_space g
        | Some p \<Rightarrow> if p \<in> set (active ?m) then mem_space g else (mem_space g)(p := None))"
    unfolding m(2) using mem_delete_provisional [OF assms(2,3) del] by blast
  note init = mem_Initialize [OF assms(1,2,4-6) n(2)] and prov = mem_provisional [OF assms(1,2), of ?p g]
    and act = trans [OF m(2) k]
  show ?thesis
  proof (cases "?p = None")
    case True
    then have "?k = allocated_indices h" "g1 = g" using g1(1) by (auto simp: kept_def delete_provisional_def split: bool.splits)
    moreover have "Initialize_from e h ?n g = Some (True, ?m, g1)"
      using prov i g1(1) True assms(7) by (simp add: Initialize_from_def Let_def)
    ultimately show ?thesis using init assms(4) g1(2) act True m(2)
      by (intro exI [of _ ?m] exI [of _ g1] conjI exI [of _ h]) (simp_all only:)
  next
    case False
    let ?g = "g1\<lparr>g_header := header_blob (mgr_header ?m None)\<rparr>"
    have "mem_space ?g = mem_space g1" by (simp add: mem_space_def FindSpaceSlot_def fun_eq_iff)
    moreover have "Initialize_from e h ?n g = Some (True, ?m, ?g)"
      using prov i g1(1) False assms(7) mem_WriteHeader [OF assms(1,2) m(1), of None g1]
      by (simp add: Initialize_from_def Let_def)
    moreover have "mem_header ?g = Some (header_blob (mgr_header ?m None)) \<and>
        provisional_index (mgr_header ?m None) = None \<and> allocated_indices (mgr_header ?m None) = active ?m"
      by (simp add: mem_header_def mgr_header_def)
    ultimately show ?thesis using init g1(2) act
      by (intro exI [of _ ?m] exI [of _ ?g] conjI exI [of _ "mgr_header ?m None"]) (simp_all only:)
  qed
qed

theorem boot_repairs_provisional_witness:
  "\<exists>m' g'. Initialize demo_env (new_NvramManager (fresh_entry 0))
      (demo_medium (demo_header\<lparr>provisional_index := Some 9\<rparr>) 9 demo_space) = Some (True, m', g') \<and>
    active m' = [7] \<and> mem_space g' 9 = None"
proof -
  let ?h = "demo_header\<lparr>provisional_index := Some 9\<rparr>"
  have fits: "header_fits ?h" using demo_fits(1) by (simp add: header_fits_def)
  note medium = demo_abs [OF fits demo_fits(2), of 9, unfolded nv_abs_def]
  from boot_repairs_provisional [OF demo_env_ok(1,2) _ _ fits, of "demo_medium ?h 9 demo_space" "fresh_entry 0"] medium
  obtain m' g' where "Initialize demo_env (new_NvramManager (fresh_entry 0)) (demo_medium ?h 9 demo_space) = Some (True, m', g')"
      "active m' = filter (\<lambda>i. Some 9 = Some i \<longrightarrow> mem_space (demo_medium ?h 9 demo_space) i \<noteq> None) [7]"
      "mem_space g' = (if 9 \<in> set (active m') then mem_space (demo_medium ?h 9 demo_space)
         else (mem_space (demo_medium ?h 9 demo_space))(9 := None))"
    by (auto simp: demo_header_def kVersion_def kMaxSpaces_def)
  then show ?thesis by (intro exI [of _ m'] exI [of _ g']) simp
qed

text \<open>A storage layer that answers every load and fails every change.\<close>

definition stuck_storage :: "NvramHeader \<Rightarrow> NvramSpace \<Rightarrow> unit storage_ops" where
  "stuck_storage h sp =
     \<lparr>st_LoadHeader = (\<lambda>s. (kSuccess, header_blob h, s)), st_StoreHeader = (\<lambda>_ s. (kStorageError, s)),
      st_LoadSpace = (\<lambda>_ s. (kSuccess, space_blob sp, s)), st_StoreSpace = (\<lambda>_ _ s. (kStorageError, s)),
      st_DeleteSpace = (\<lambda>_ s. (kStorageError, s))\<rparr>"

lemma stuck_load:
  assumes "alloc_total a" "header_fits h" "space_fits sp"
  shows "persistence_LoadHeader a (stuck_storage h sp) s = Some (kSuccess, h, s)"
    "persistence_LoadSpace a (stuck_storage h sp) i s = Some (kSuccess, sp, s)"
    "persistence_DeleteSpace (stuck_storage h sp) i s = (kStorageError, s)"
  using decode_header [OF assms(1,2), of "[]"] decode_space [OF assms(1,3), of "[]"]
  by (simp_all add: persistence_LoadHeader_def persistence_LoadSpace_def persistence_DeleteSpace_def stuck_storage_def)

lemma stuck_Initialize:
  assumes "alloc_total (e_al e)" "e_sto e = stuck_storage h sp" "header_fits h" "space_fits sp" "version h \<le> kVersion"
    "length (allocated_indices h) \<le> kMaxSpaces" "provisional_index h = Some p" "p \<notin> set (allocated_indices h)"
    "mgr_wf m" "\<not> initialized m"
  shows "Initialize e m s = (case Initialize_spaces (Some p) True (allocated_indices h) True m of
      None \<Rightarrow> None | Some (del, m1) \<Rightarrow> Some (False, m1, s))"
proof -
  note l = stuck_load [OF assms(1,3,4)]
  have "Initialize e m s = Initialize_from e h m s"
    using l(1) leD [OF assms(5)] assms(2,10) by (simp add: Initialize_def)
  moreover have "provisional_in_storage e (Some p) s = Some (True, s)"
    using l(2) assms(2) by (simp add: provisional_in_storage_def)
  moreover have "del" if "Initialize_spaces (Some p) True (allocated_indices h) True m = Some (del, m1)" for del m1
    using Initialize_spaces_form [OF assms(9) that] assms(8) by (simp add: kept_def left_over_def)
  ultimately show ?thesis using assms(2,6,7) l(3)
    by (cases "Initialize_spaces (Some p) True (allocated_indices h) True m")
       (auto simp: Initialize_from_def delete_provisional_def)
qed

text \<open>a failed initialisation may not be retried. \<open>Initialize\<close> fills \<open>spaces_\<close> before it deletes the
  provisional space; when the deletion fails it returns without resetting \<open>num_spaces_\<close>, so that the
  next request appends the same entries again: with more than 16 spaces it writes past the end of the array.\<close>

theorem Initialize_retry_overflows:
  assumes "alloc_total (e_al e)" "e_sto e = stuck_storage h sp" "header_fits h" "space_fits sp" "version h \<le> kVersion"
    "length (allocated_indices h) \<le> kMaxSpaces" "kMaxSpaces < 2 * length (allocated_indices h)"
    "provisional_index h = Some p" "p \<notin> set (allocated_indices h)"
  shows "\<exists>m. Initialize e (new_NvramManager t) () = Some (False, m, ()) \<and>
    active m = allocated_indices h \<and> Initialize e m () = None"
proof -
  let ?n = "new_NvramManager t"
  note boot = stuck_Initialize [OF assms(1-6,8,9)]
  have n: "num_spaces ?n = 0" "\<not> initialized ?n" by (simp_all add: new_NvramManager_def)
  have kept: "kept (Some p) True (allocated_indices h) = allocated_indices h" by (simp add: kept_def)
  obtain del m where i: "Initialize_spaces (Some p) True (allocated_indices h) True ?n = Some (del, m)"
    using Initialize_spaces_total [of ?n "allocated_indices h" "Some p" True True] assms(6) n by auto
  have m: "filled ?n (allocated_indices h) m" using Initialize_spaces_form [OF _ i] kept by simp
  have "\<not> initialized m" using m n by (simp add: filled_def)
  moreover have "active m = allocated_indices h" using filled_active [OF m] by simp
  moreover have "Initialize_spaces (Some p) True (allocated_indices h) True m = None"
  proof (rule ccontr)
    assume "Initialize_spaces (Some p) True (allocated_indices h) True m \<noteq> None"
    then obtain del2 m2 where j: "Initialize_spaces (Some p) True (allocated_indices h) True m = Some (del2, m2)" by auto
    then have f: "filled m (allocated_indices h) m2" using Initialize_spaces_form [OF _ j] m kept by (simp add: filled_def)
    then have "length (active m2) \<le> kMaxSpaces" by (simp add: filled_def length_active mgr_wf_def)
    then show False using filled_active [OF f] filled_active [OF m] assms(7) by simp
  qed
  ultimately show ?thesis
    using boot [of ?n "()"] boot [of m "()"] i m n by (intro exI [of _ m]) (simp add: filled_def)
qed

theorem Initialize_retry_overflows_witness:
  "let h = \<lparr>version = 1, h_flags = 0, 
         allocated_indices = [1, 2, 3, 4, 5, 6, 7, 8, 9, 10, 11, 12, 13, 14, 15, 16, 17], provisional_index = Some 99\<rparr>;
       e = \<lparr>e_al = granting (\<lambda>_. 0), e_sto = stuck_storage h demo_space, nv_control = demo_control,
            nv_result = (\<lambda>_. 0), openssl_SHA256 = (\<lambda>b. b), wipe_support = False\<rparr>
   in \<exists>m. Initialize e (new_NvramManager (fresh_entry 0)) () = Some (False, m, ()) \<and>
        active m = allocated_indices h \<and> Initialize e m () = None"
  unfolding Let_def by (rule Initialize_retry_overflows [OF _ _ _ demo_fits(2), where p = 99])
    (simp_all add: header_fits_def kVersion_def kMaxSpaces_def)

text \<open>A control value of 32 or more is shifted unchecked. \<open>CreateSpace\<close> computes \<open>1 << control\<close> for
  every control of the request before it compares the mask with the supported controls; the request
  decoder accepts any 32-bit value, so a client reaches undefined behaviour with one request.\<close>

theorem CreateSpace_unchecked_shift:
  assumes "mgr_wf m" "initialized m" "\<not> disable_create m" "num_spaces m < kMaxSpaces" "cs_index req \<notin> set (active m)"
    "unat (cs_size req) \<le> kMaxSpaceSize" "length (cs_authorization_value req) \<le> kMaxAuthSize"
    "\<exists>c\<in>set (cs_controls req). 32 \<le> unat c"
  shows "CreateSpace e req m s = None"
proof -
  have "request_controls cs a = None" if "\<exists>c\<in>set cs. 32 \<le> unat c" for cs a
    using that by (induction cs arbitrary: a) auto
  moreover have "FindSpace (cs_index req) m = Some kMaxSpaces"
    using FindSpace_cases [OF assms(1), of "cs_index req"] assms(5) by auto
  ultimately show ?thesis using assms by (simp add: CreateSpace_def Initialize_def CreateSpace_initialized_def)
qed

theorem CreateSpace_unchecked_shift_witness:
  "CreateSpace demo_env \<lparr>cs_index = 7, cs_size = 1, cs_controls = [32], cs_authorization_value = []\<rparr>
     (new_NvramManager (fresh_entry 0)\<lparr>initialized := True\<rparr>) new_mem_storage = None"
  by (rule CreateSpace_unchecked_shift) (simp_all add: new_NvramManager_def kMaxSpaces_def kMaxSpaceSize_def mgr_wf_def active_def entries_def)

text \<open>A header cut off after its length prefix is accepted as an empty header. The nested stream
  reports \<open>Done\<close> when its delegate ends before the declared length, so \<open>DecodeObject\<close> returns
  \<open>kSuccess\<close> with no fields read: a truncated header becomes one without spaces.\<close>

theorem truncated_header_accepted:
  assumes "0 < n" "n < 2 ^ 64"
  shows "DecodeObject al kHeaderMagic NvramHeader_kFields
     (record_header (ucast kHeaderMagic) kLengthDelimited n) new_NvramHeader = Some (kSuccess, new_NvramHeader)"
proof -
  let ?b = "record_header (ucast kHeaderMagic) kLengthDelimited n"
  let ?r = "new_ProtoReader (new_InputStreamBuffer ?b)"
  have av: "i_wf (r_stream ?r)" "avail (r_stream ?r) = ?b @ []"
    by (simp_all add: new_ProtoReader_def new_InputStreamBuffer_def avail_def window_def)
  have "size_minus n 0 = n" using assms(2) by (simp add: size_minus_def size_t_bits_def)
  then show ?thesis using ReadWireTag_header [OF av magic_small assms(2)] assms(1)
    by (simp add: DecodeObject_def MessageDecode_def new_NestedInputStreamBuffer_def ClampEnd_def i_skip_def
        new_InputStreamBuffer_def new_ProtoReader_def DecodeData_def decode_fuel_def DecodeData_turn_def r_Done_def IDone_def)
qed

theorem truncated_header_accepted_witness:
  "DecodeObject (granting (\<lambda>_. 0)) kHeaderMagic NvramHeader_kFields
     (record_header (ucast kHeaderMagic) kLengthDelimited 20) new_NvramHeader = Some (kSuccess, new_NvramHeader)"
  by (rule truncated_header_accepted) simp_all

end
