(* ===== verification/Gk_Messages.thy ===== *)
theory Gk_Messages
  imports Sys_Bytes
begin

text \<open>
  The messages between the gatekeeper daemon and the gatekeeper implementation:
  \<open>gatekeeper_messages.h\<close> and \<open>gatekeeper_messages.cpp\<close>. The message classes are records that extend
  \<open>GateKeeperMessage\<close>, their virtual functions a table \<open>gk_virtual\<close> the base class is given.
  \<^term>\<open>None\<close> is an access outside a buffer.

  The locale \<open>gk_codec\<close> states what \<open>Serialize\<close> and \<open>Deserialize\<close> need of the virtual functions; it is
  interpreted for the four messages, and gives their round trips.
\<close>

section \<open>Data\<close>

type_synonym gatekeeper_error_t = u32

definition ERROR_NONE :: gatekeeper_error_t where "ERROR_NONE = 0"
definition ERROR_INVALID :: gatekeeper_error_t where "ERROR_INVALID = 1"
definition ERROR_RETRY :: gatekeeper_error_t where "ERROR_RETRY = 2"
definition ERROR_UNKNOWN :: gatekeeper_error_t where "ERROR_UNKNOWN = 3"

lemmas gk_error_defs = ERROR_NONE_def ERROR_INVALID_def ERROR_RETRY_def ERROR_UNKNOWN_def

lemma gk_errors_distinct [simp]:
  "ERROR_INVALID \<noteq> ERROR_NONE" "ERROR_RETRY \<noteq> ERROR_NONE" "ERROR_UNKNOWN \<noteq> ERROR_NONE"
  "ERROR_NONE \<noteq> ERROR_INVALID" "ERROR_NONE \<noteq> ERROR_RETRY" "ERROR_NONE \<noteq> ERROR_UNKNOWN"
  "ERROR_RETRY \<noteq> ERROR_INVALID" "ERROR_RETRY \<noteq> ERROR_UNKNOWN"
  "ERROR_INVALID \<noteq> ERROR_RETRY" "ERROR_UNKNOWN \<noteq> ERROR_RETRY"
  by (simp_all add: gk_error_defs)

text \<open>A \<open>SizedBuffer\<close>: the block its pointer refers to (\<^term>\<open>None\<close> is the null pointer) and the length.\<close>

record SizedBuffer =
  sb_buffer :: "byte list option"
  sb_length :: u32

definition null_buffer :: SizedBuffer where "null_buffer = \<lparr>sb_buffer = None, sb_length = 0\<rparr>"

definition sized :: "byte list \<Rightarrow> SizedBuffer" where
  "sized bs = (if bs = [] then null_buffer else \<lparr>sb_buffer = Some bs, sb_length = of_nat (length bs)\<rparr>)"

record GateKeeperMessage =
  error :: gatekeeper_error_t
  gk_user_id :: u32
  retry_timeout :: u32

record VerifyRequest = GateKeeperMessage +
  vq_challenge :: u64
  vq_password_handle :: SizedBuffer
  vq_provided_password :: SizedBuffer

record VerifyResponse = GateKeeperMessage +
  vp_auth_token :: SizedBuffer
  vp_request_reenroll :: bool

record EnrollRequest = GateKeeperMessage +
  eq_password_handle :: SizedBuffer
  eq_enrolled_password :: SizedBuffer
  eq_provided_password :: SizedBuffer

record EnrollResponse = GateKeeperMessage +
  ep_enrolled_password_handle :: SizedBuffer

text \<open>
  The constructors leave \<open>user_id\<close> and \<open>retry_timeout\<close> of a response uninitialised: \<open>u\<close> and \<open>r\<close>.
\<close>

definition new_VerifyResponse :: "u32 \<Rightarrow> u32 \<Rightarrow> VerifyResponse" where
  "new_VerifyResponse u r = \<lparr>error = ERROR_NONE, gk_user_id = u, retry_timeout = r,
     vp_auth_token = null_buffer, vp_request_reenroll = False\<rparr>"

definition new_EnrollResponse :: "u32 \<Rightarrow> u32 \<Rightarrow> EnrollResponse" where
  "new_EnrollResponse u r = \<lparr>error = ERROR_NONE, gk_user_id = u, retry_timeout = r,
     ep_enrolled_password_handle = null_buffer\<rparr>"

definition new_VerifyRequest :: "u32 \<Rightarrow> u32 \<Rightarrow> u64 \<Rightarrow> SizedBuffer \<Rightarrow> SizedBuffer \<Rightarrow> VerifyRequest" where
  "new_VerifyRequest r user_id challenge handle password =
     \<lparr>error = ERROR_NONE, gk_user_id = user_id, retry_timeout = r, vq_challenge = challenge,
      vq_password_handle = handle, vq_provided_password = password\<rparr>"

definition new_EnrollRequest ::
  "u32 \<Rightarrow> u32 \<Rightarrow> SizedBuffer option \<Rightarrow> SizedBuffer \<Rightarrow> SizedBuffer option \<Rightarrow> EnrollRequest" where
  "new_EnrollRequest r user_id handle provided enrolled =
     \<lparr>error = ERROR_NONE, gk_user_id = user_id, retry_timeout = r,
      eq_password_handle = (case handle of None \<Rightarrow> null_buffer | Some b \<Rightarrow> b),
      eq_enrolled_password = (case enrolled of None \<Rightarrow> null_buffer | Some b \<Rightarrow> b),
      eq_provided_password = provided\<rparr>"

definition SetRetryTimeout :: "u32 \<Rightarrow> 'x GateKeeperMessage_scheme \<Rightarrow> 'x GateKeeperMessage_scheme" where
  "SetRetryTimeout t m = m\<lparr>retry_timeout := t, error := ERROR_RETRY\<rparr>"

definition SetVerificationToken :: "SizedBuffer \<Rightarrow> VerifyResponse \<Rightarrow> VerifyResponse" where
  "SetVerificationToken token m = m\<lparr>vp_auth_token := token\<rparr>"

definition SetEnrolledPasswordHandle :: "SizedBuffer \<Rightarrow> EnrollResponse \<Rightarrow> EnrollResponse" where
  "SetEnrolledPasswordHandle handle m = m\<lparr>ep_enrolled_password_handle := handle\<rparr>"

section \<open>Serialization\<close>

definition serialized_buffer_size :: "SizedBuffer \<Rightarrow> u32" where
  "serialized_buffer_size buf = 4 + sb_length buf"

text \<open>The bytes \<open>append_to_buffer\<close> copies; reading past the end of the block is an error.\<close>

definition append_to_buffer :: "SizedBuffer \<Rightarrow> byte list option" where
  "append_to_buffer buf =
     (if sb_length buf = 0 then Some (le_bytes 4 (sb_length buf))
      else do { bs \<leftarrow> sb_buffer buf;
                data \<leftarrow> read_at 0 (unat (sb_length buf)) bs;
                Some (le_bytes 4 (sb_length buf) @ data) })"

text \<open>\<open>read_from_buffer\<close>: the error, the bytes that remain up to \<open>end\<close>, and the target.\<close>

definition read_from_buffer :: "byte list \<Rightarrow> SizedBuffer \<Rightarrow> gatekeeper_error_t \<times> byte list \<times> SizedBuffer" where
  "read_from_buffer payload target =
     (if length payload < 4 then (ERROR_INVALID, payload, target)
      else let len = le_word (take 4 payload); rest = drop 4 payload;
               target = target\<lparr>sb_length := len\<rparr>
           in if len = 0 then (ERROR_NONE, rest, target)
              else if length rest < unat len then (ERROR_INVALID, rest, target)
              else (ERROR_NONE, drop (unat len) rest, target\<lparr>sb_buffer := Some (take (unat len) rest)\<rparr>))"

text \<open>The virtual functions of a message class.\<close>

record 'm gk_virtual =
  nonErrorSerializedSize :: "'m \<Rightarrow> u32"
  nonErrorSerialize :: "'m \<Rightarrow> byte list option"
  nonErrorDeserialize :: "byte list \<Rightarrow> 'm \<Rightarrow> (gatekeeper_error_t \<times> 'm) option"

definition serial_header :: "gatekeeper_error_t \<Rightarrow> u32 \<Rightarrow> byte list" where
  "serial_header err uid = le_bytes 4 err @ le_bytes 4 uid"

definition GetSerializedSize ::
  "'x GateKeeperMessage_scheme gk_virtual \<Rightarrow> 'x GateKeeperMessage_scheme \<Rightarrow> u32" where
  "GetSerializedSize vt m =
     (if error m = ERROR_NONE then 8 + nonErrorSerializedSize vt m
      else if error m = ERROR_RETRY then 8 + 4 else 8)"

text \<open>\<open>Serialize\<close> into the block \<open>buffer .. end\<close>: the number of bytes written and the block.\<close>

definition Serialize ::
  "'x GateKeeperMessage_scheme gk_virtual \<Rightarrow> 'x GateKeeperMessage_scheme \<Rightarrow> byte list \<Rightarrow> (u32 \<times> byte list) option" where
  "Serialize vt m buffer =
     (if unat (GetSerializedSize vt m) > length buffer then Some (0, buffer)
      else if error m \<noteq> ERROR_NONE then
        (if 8 > length buffer then Some (0, buffer)
         else let bytes = serial_header (error m) (gk_user_id m) @
                    (if error m = ERROR_RETRY then le_bytes 4 (retry_timeout m) else [])
              in if length bytes > length buffer then None
                 else Some (of_nat (length bytes), memcpy_at 0 bytes buffer))
      else if 8 + unat (nonErrorSerializedSize vt m) > length buffer then Some (0, buffer)
      else do { body \<leftarrow> nonErrorSerialize vt m;
                let bytes = serial_header (error m) (gk_user_id m) @ body;
                if length bytes > length buffer then None
                else Some (8 + nonErrorSerializedSize vt m, memcpy_at 0 bytes buffer) })"

text \<open>\<open>Deserialize\<close>: the result and the message object afterwards.\<close>

definition Deserialize ::
  "'x GateKeeperMessage_scheme gk_virtual \<Rightarrow> byte list \<Rightarrow> 'x GateKeeperMessage_scheme \<Rightarrow>
   (gatekeeper_error_t \<times> 'x GateKeeperMessage_scheme) option" where
  "Deserialize vt payload m =
     (if length payload < 4 then Some (ERROR_INVALID, m)
      else do {
        err \<leftarrow> map_option le_word (read_at 0 4 payload);
        uid \<leftarrow> map_option le_word (read_at 4 4 payload);
        let m = m\<lparr>gk_user_id := uid\<rparr>;
        if err = ERROR_NONE then
          do { (e, m) \<leftarrow> nonErrorDeserialize vt (drop 8 payload) m;
               Some (e, m\<lparr>error := e\<rparr>) }
        else do {
          let m = m\<lparr>error := err\<rparr>;
          if err = ERROR_RETRY then
            (if 8 < length payload
             then do { t \<leftarrow> map_option le_word (read_at 8 4 payload); Some (err, m\<lparr>retry_timeout := t\<rparr>) }
             else Some (err, m\<lparr>retry_timeout := 0\<rparr>))
          else Some (err, m) } })"

section \<open>The four messages\<close>

definition VerifyRequest_virtual :: "VerifyRequest gk_virtual" where
  "VerifyRequest_virtual =
     \<lparr>nonErrorSerializedSize = (\<lambda>m. 8 + serialized_buffer_size (vq_password_handle m) +
        serialized_buffer_size (vq_provided_password m)),
      nonErrorSerialize = (\<lambda>m. do {
        handle \<leftarrow> append_to_buffer (vq_password_handle m);
        password \<leftarrow> append_to_buffer (vq_provided_password m);
        Some (le_bytes 8 (vq_challenge m) @ handle @ password) }),
      nonErrorDeserialize = (\<lambda>payload m. do {
        let handle = (vq_password_handle m)\<lparr>sb_buffer := None\<rparr>;
        let password = (vq_provided_password m)\<lparr>sb_buffer := None\<rparr>;
        let m = m\<lparr>vq_password_handle := handle, vq_provided_password := password\<rparr>;
        challenge \<leftarrow> map_option le_word (read_at 0 8 payload);
        let m = m\<lparr>vq_challenge := challenge\<rparr>;
        Some (case read_from_buffer (drop 8 payload) handle of (err, payload, handle) \<Rightarrow>
          let m = m\<lparr>vq_password_handle := handle\<rparr>
          in if err \<noteq> ERROR_NONE then (err, m)
             else case read_from_buffer payload password of (err, _, password) \<Rightarrow>
               (err, m\<lparr>vq_provided_password := password\<rparr>)) })\<rparr>"

definition VerifyResponse_virtual :: "VerifyResponse gk_virtual" where
  "VerifyResponse_virtual =
     \<lparr>nonErrorSerializedSize = (\<lambda>m. serialized_buffer_size (vp_auth_token m) + 1),
      nonErrorSerialize = (\<lambda>m. do {
        token \<leftarrow> append_to_buffer (vp_auth_token m);
        Some (token @ [of_bool (vp_request_reenroll m)]) }),
      nonErrorDeserialize = (\<lambda>payload m.
        case read_from_buffer payload ((vp_auth_token m)\<lparr>sb_buffer := None\<rparr>) of (err, payload, token) \<Rightarrow>
          let m = m\<lparr>vp_auth_token := token\<rparr>
          in if err \<noteq> ERROR_NONE then Some (err, m)
             else do { b \<leftarrow> read_at 0 1 payload;
                       Some (ERROR_NONE, m\<lparr>vp_request_reenroll := (hd b \<noteq> 0)\<rparr>) })\<rparr>"

definition EnrollRequest_virtual :: "EnrollRequest gk_virtual" where
  "EnrollRequest_virtual =
     \<lparr>nonErrorSerializedSize = (\<lambda>m. serialized_buffer_size (eq_provided_password m) +
        serialized_buffer_size (eq_enrolled_password m) + serialized_buffer_size (eq_password_handle m)),
      nonErrorSerialize = (\<lambda>m. do {
        provided \<leftarrow> append_to_buffer (eq_provided_password m);
        enrolled \<leftarrow> append_to_buffer (eq_enrolled_password m);
        handle \<leftarrow> append_to_buffer (eq_password_handle m);
        Some (provided @ enrolled @ handle) }),
      nonErrorDeserialize = (\<lambda>payload m.
        let provided = (eq_provided_password m)\<lparr>sb_buffer := None\<rparr>;
            enrolled = (eq_enrolled_password m)\<lparr>sb_buffer := None\<rparr>;
            handle = (eq_password_handle m)\<lparr>sb_buffer := None\<rparr>;
            m = m\<lparr>eq_provided_password := provided, eq_enrolled_password := enrolled, eq_password_handle := handle\<rparr>
        in Some (case read_from_buffer payload provided of (err, payload, provided) \<Rightarrow>
             let m = m\<lparr>eq_provided_password := provided\<rparr>
             in if err \<noteq> ERROR_NONE then (err, m)
                else case read_from_buffer payload enrolled of (err, payload, enrolled) \<Rightarrow>
                  let m = m\<lparr>eq_enrolled_password := enrolled\<rparr>
                  in if err \<noteq> ERROR_NONE then (err, m)
                     else case read_from_buffer payload handle of (err, _, handle) \<Rightarrow>
                       (err, m\<lparr>eq_password_handle := handle\<rparr>)))\<rparr>"

definition EnrollResponse_virtual :: "EnrollResponse gk_virtual" where
  "EnrollResponse_virtual =
     \<lparr>nonErrorSerializedSize = (\<lambda>m. serialized_buffer_size (ep_enrolled_password_handle m)),
      nonErrorSerialize = (\<lambda>m. append_to_buffer (ep_enrolled_password_handle m)),
      nonErrorDeserialize = (\<lambda>payload m.
        Some (case read_from_buffer payload ((ep_enrolled_password_handle m)\<lparr>sb_buffer := None\<rparr>) of
          (err, _, handle) \<Rightarrow> (err, m\<lparr>ep_enrolled_password_handle := handle\<rparr>)))\<rparr>"

section \<open>Round trips\<close>

text \<open>A buffer as the constructors make it: a null pointer with length 0, or a block of the given length.\<close>

definition sb_ok :: "SizedBuffer \<Rightarrow> bool" where
  "sb_ok buf \<longleftrightarrow> (case sb_buffer buf of None \<Rightarrow> sb_length buf = 0
     | Some bs \<Rightarrow> sb_length buf \<noteq> 0 \<and> length bs = unat (sb_length buf))"

lemma sb_ok_cases:
  assumes "sb_ok buf"
  obtains (null) "buf = null_buffer"
  | (block) bs where "sb_buffer buf = Some bs" "sb_length buf \<noteq> 0" "length bs = unat (sb_length buf)"
  using assms by (cases buf; cases "sb_buffer buf") (auto simp: sb_ok_def null_buffer_def)

lemma sb_ok_null [simp]: "sb_ok null_buffer"
  by (simp add: sb_ok_def null_buffer_def)

lemma sb_ok_sized: "length bs < 2 ^ 32 \<Longrightarrow> sb_ok (sized bs)"
  by (auto simp: sb_ok_def sized_def unat_of_nat take_bit_nat_eq_self null_buffer_def
      word_of_nat_eq_0_iff dest!: nat_dvd_not_less [rotated])

lemma append_to_buffer_ok:
  assumes "sb_ok buf"
  obtains bs where "append_to_buffer buf = Some bs" "length bs = 4 + unat (sb_length buf)"
    "\<And>rest n. read_from_buffer (bs @ rest) \<lparr>sb_buffer = None, sb_length = n\<rparr> = (ERROR_NONE, rest, buf)"
  using assms
proof (cases rule: sb_ok_cases)
  case null
  then show thesis
    by (intro that [of "le_bytes 4 (0 :: u32)"]) (simp_all add: append_to_buffer_def null_buffer_def read_from_buffer_def)
next
  case (block bs)
  note l = block(3) [symmetric] block(1)
  have a: "append_to_buffer buf = Some (le_bytes 4 (sb_length buf) @ bs)"
    using block(2) l by (simp add: append_to_buffer_def read_at_def)
  have r: "read_from_buffer ((le_bytes 4 (sb_length buf) @ bs) @ rest) \<lparr>sb_buffer = None, sb_length = n\<rparr> =
      (ERROR_NONE, rest, buf)" for rest n
    using block(2) l by (cases buf) (simp add: read_from_buffer_def Let_def)
  show thesis by (rule that [OF a _ r]) (simp add: l)
qed

text \<open>
  What the base class needs of the virtual functions: a message in \<open>ok\<close> is written to as many bytes as
  \<open>nonErrorSerializedSize\<close> says, these fit a 32-bit size together with the header, and reading them
  back gives its own members, whatever the target held.
\<close>

locale gk_codec =
  fixes vt :: "'x GateKeeperMessage_scheme gk_virtual"
    and ok :: "'x GateKeeperMessage_scheme \<Rightarrow> bool"
  assumes body: "ok m \<Longrightarrow> \<exists>bs. nonErrorSerialize vt m = Some bs \<and>
      length bs = unat (nonErrorSerializedSize vt m) \<and> length bs + 8 < 2 ^ 32 \<and>
      (\<forall>m0. nonErrorDeserialize vt bs m0 = Some (ERROR_NONE,
         m\<lparr>error := error m0, gk_user_id := gk_user_id m0, retry_timeout := retry_timeout m0\<rparr>))"
begin

lemma serialize_none:
  assumes "ok m" "error m = ERROR_NONE" "unat (GetSerializedSize vt m) \<le> length buffer"
  shows "\<exists>buffer'. Serialize vt m buffer = Some (GetSerializedSize vt m, buffer') \<and>
    length buffer' = length buffer \<and>
    Deserialize vt (take (unat (GetSerializedSize vt m)) buffer') m0 =
      Some (ERROR_NONE, m\<lparr>retry_timeout := retry_timeout m0\<rparr>)"
proof -
  obtain bs where bs: "nonErrorSerialize vt m = Some bs" "length bs = unat (nonErrorSerializedSize vt m)"
      "length bs + 8 < 2 ^ 32"
      "\<And>m0. nonErrorDeserialize vt bs m0 = Some (ERROR_NONE,
         m\<lparr>error := error m0, gk_user_id := gk_user_id m0, retry_timeout := retry_timeout m0\<rparr>)"
    using body [OF assms(1)] by blast
  let ?h = "serial_header ERROR_NONE (gk_user_id m)"
  have n: "unat (GetSerializedSize vt m) = 8 + length bs"
    using bs(2,3) assms(2) by (simp add: GetSerializedSize_def unat_word_ariths)
  have h: "length ?h = 8" "take 4 ?h = le_bytes 4 ERROR_NONE" "take 4 (drop 4 ?h) = le_bytes 4 (gk_user_id m)"
    by (simp_all add: serial_header_def)
  have "Serialize vt m buffer = Some (GetSerializedSize vt m, memcpy_at 0 (?h @ bs) buffer)"
    using assms n bs(1,2) h(1) by (simp add: Serialize_def GetSerializedSize_def)
  moreover have "take (unat (GetSerializedSize vt m)) (memcpy_at 0 (?h @ bs) buffer) = ?h @ bs"
    using n h(1) by (simp add: memcpy_at_def)
  moreover have "Deserialize vt (?h @ bs) m0 = Some (ERROR_NONE, m\<lparr>retry_timeout := retry_timeout m0\<rparr>)"
    using h bs(4) assms(2) by (simp add: Deserialize_def read_at_def)
  ultimately show ?thesis using assms(3) n h(1) by simp
qed

end

text \<open>A message that reports an error carries only the header, and the timeout of \<open>ERROR_RETRY\<close>.\<close>

lemma serialize_error:
  assumes "error m \<noteq> ERROR_NONE" "unat (GetSerializedSize vt m) \<le> length buffer"
  shows "\<exists>buffer'. Serialize vt m buffer = Some (GetSerializedSize vt m, buffer') \<and>
    length buffer' = length buffer \<and>
    Deserialize vt (take (unat (GetSerializedSize vt m)) buffer') m0 =
      Some (error m, m0\<lparr>gk_user_id := gk_user_id m, error := error m,
        retry_timeout := if error m = ERROR_RETRY then retry_timeout m else retry_timeout m0\<rparr>)"
proof -
  let ?h = "serial_header (error m) (gk_user_id m)"
  have h: "length ?h = 8" "take 4 ?h = le_bytes 4 (error m)" "take 4 (drop 4 ?h) = le_bytes 4 (gk_user_id m)"
    by (simp_all add: serial_header_def)
  show ?thesis
  proof (cases "error m = ERROR_RETRY")
    case True
    then show ?thesis using assms h
      by (simp add: Serialize_def GetSerializedSize_def Deserialize_def read_at_def memcpy_at_def)
  next
    case False
    then show ?thesis using assms h
      by (simp add: Serialize_def GetSerializedSize_def Deserialize_def read_at_def memcpy_at_def)
  qed
qed

section \<open>The messages keep the contract\<close>

definition VerifyRequest_ok :: "VerifyRequest \<Rightarrow> bool" where
  "VerifyRequest_ok m \<longleftrightarrow> sb_ok (vq_password_handle m) \<and> sb_ok (vq_provided_password m) \<and>
     unat (sb_length (vq_password_handle m)) + unat (sb_length (vq_provided_password m)) + 24 < 2 ^ 32"

definition VerifyResponse_ok :: "VerifyResponse \<Rightarrow> bool" where
  "VerifyResponse_ok m \<longleftrightarrow> sb_ok (vp_auth_token m) \<and> unat (sb_length (vp_auth_token m)) + 13 < 2 ^ 32"

definition EnrollRequest_ok :: "EnrollRequest \<Rightarrow> bool" where
  "EnrollRequest_ok m \<longleftrightarrow> sb_ok (eq_password_handle m) \<and> sb_ok (eq_enrolled_password m) \<and>
     sb_ok (eq_provided_password m) \<and>
     unat (sb_length (eq_password_handle m)) + unat (sb_length (eq_enrolled_password m)) +
       unat (sb_length (eq_provided_password m)) + 20 < 2 ^ 32"

definition EnrollResponse_ok :: "EnrollResponse \<Rightarrow> bool" where
  "EnrollResponse_ok m \<longleftrightarrow> sb_ok (ep_enrolled_password_handle m) \<and>
     unat (sb_length (ep_enrolled_password_handle m)) + 12 < 2 ^ 32"

lemma reset_buffer: "buf\<lparr>sb_buffer := None\<rparr> = \<lparr>sb_buffer = None, sb_length = sb_length buf\<rparr>"
  by simp

lemma unat_sum: "unat a + unat b < 2 ^ 32 \<Longrightarrow> unat (a + b :: u32) = unat a + unat b"
  by (simp add: unat_word_ariths)

interpretation verify_request: gk_codec VerifyRequest_virtual VerifyRequest_ok
proof
  fix m :: VerifyRequest
  assume ok: "VerifyRequest_ok m"
  obtain h where h: "append_to_buffer (vq_password_handle m) = Some h" "length h = 4 + unat (sb_length (vq_password_handle m))"
      "\<And>rest n. read_from_buffer (h @ rest) \<lparr>sb_buffer = None, sb_length = n\<rparr> = (ERROR_NONE, rest, vq_password_handle m)"
    using append_to_buffer_ok [of "vq_password_handle m"] ok by (auto simp only: VerifyRequest_ok_def)
  obtain p where p: "append_to_buffer (vq_provided_password m) = Some p" "length p = 4 + unat (sb_length (vq_provided_password m))"
      "\<And>rest n. read_from_buffer (p @ rest) \<lparr>sb_buffer = None, sb_length = n\<rparr> = (ERROR_NONE, rest, vq_provided_password m)"
    using append_to_buffer_ok [of "vq_provided_password m"] ok by (auto simp only: VerifyRequest_ok_def)
  let ?bs = "le_bytes 8 (vq_challenge m) @ h @ p"
  have "nonErrorSerialize VerifyRequest_virtual m = Some ?bs" by (simp add: VerifyRequest_virtual_def h p)
  moreover have "unat (nonErrorSerializedSize VerifyRequest_virtual m) = length ?bs" "length ?bs + 8 < 2 ^ 32"
    using ok h(2) p(2)
    by (simp_all add: VerifyRequest_virtual_def serialized_buffer_size_def unat_sum VerifyRequest_ok_def)
  moreover have "nonErrorDeserialize VerifyRequest_virtual ?bs m0 = Some (ERROR_NONE,
         m\<lparr>error := error m0, gk_user_id := gk_user_id m0, retry_timeout := retry_timeout m0\<rparr>)" for m0
    using h(3) p(3) [of "[]"] by (simp add: VerifyRequest_virtual_def read_at_def reset_buffer)
  ultimately show "\<exists>bs. nonErrorSerialize VerifyRequest_virtual m = Some bs \<and>
      length bs = unat (nonErrorSerializedSize VerifyRequest_virtual m) \<and> length bs + 8 < 2 ^ 32 \<and>
      (\<forall>m0. nonErrorDeserialize VerifyRequest_virtual bs m0 = Some (ERROR_NONE,
         m\<lparr>error := error m0, gk_user_id := gk_user_id m0, retry_timeout := retry_timeout m0\<rparr>))"
    by auto
qed

interpretation verify_response: gk_codec VerifyResponse_virtual VerifyResponse_ok
proof
  fix m :: VerifyResponse
  assume ok: "VerifyResponse_ok m"
  obtain t where t: "append_to_buffer (vp_auth_token m) = Some t" "length t = 4 + unat (sb_length (vp_auth_token m))"
      "\<And>rest n. read_from_buffer (t @ rest) \<lparr>sb_buffer = None, sb_length = n\<rparr> = (ERROR_NONE, rest, vp_auth_token m)"
    using append_to_buffer_ok [of "vp_auth_token m"] ok by (auto simp only: VerifyResponse_ok_def)
  let ?bs = "t @ [of_bool (vp_request_reenroll m)]"
  have "nonErrorSerialize VerifyResponse_virtual m = Some ?bs" by (simp add: VerifyResponse_virtual_def t)
  moreover have "unat (nonErrorSerializedSize VerifyResponse_virtual m) = length ?bs" "length ?bs + 8 < 2 ^ 32"
    using ok t(2) by (simp_all add: VerifyResponse_virtual_def serialized_buffer_size_def unat_sum VerifyResponse_ok_def)
  moreover have "nonErrorDeserialize VerifyResponse_virtual ?bs m0 = Some (ERROR_NONE,
         m\<lparr>error := error m0, gk_user_id := gk_user_id m0, retry_timeout := retry_timeout m0\<rparr>)" for m0
    using t(3) by (simp add: VerifyResponse_virtual_def read_at_def reset_buffer)
  ultimately show "\<exists>bs. nonErrorSerialize VerifyResponse_virtual m = Some bs \<and>
      length bs = unat (nonErrorSerializedSize VerifyResponse_virtual m) \<and> length bs + 8 < 2 ^ 32 \<and>
      (\<forall>m0. nonErrorDeserialize VerifyResponse_virtual bs m0 = Some (ERROR_NONE,
         m\<lparr>error := error m0, gk_user_id := gk_user_id m0, retry_timeout := retry_timeout m0\<rparr>))"
    by auto
qed

interpretation enroll_request: gk_codec EnrollRequest_virtual EnrollRequest_ok
proof
  fix m :: EnrollRequest
  assume ok: "EnrollRequest_ok m"
  obtain p where p: "append_to_buffer (eq_provided_password m) = Some p" "length p = 4 + unat (sb_length (eq_provided_password m))"
      "\<And>rest n. read_from_buffer (p @ rest) \<lparr>sb_buffer = None, sb_length = n\<rparr> = (ERROR_NONE, rest, eq_provided_password m)"
    using append_to_buffer_ok [of "eq_provided_password m"] ok by (auto simp only: EnrollRequest_ok_def)
  obtain e where e: "append_to_buffer (eq_enrolled_password m) = Some e" "length e = 4 + unat (sb_length (eq_enrolled_password m))"
      "\<And>rest n. read_from_buffer (e @ rest) \<lparr>sb_buffer = None, sb_length = n\<rparr> = (ERROR_NONE, rest, eq_enrolled_password m)"
    using append_to_buffer_ok [of "eq_enrolled_password m"] ok by (auto simp only: EnrollRequest_ok_def)
  obtain h where h: "append_to_buffer (eq_password_handle m) = Some h" "length h = 4 + unat (sb_length (eq_password_handle m))"
      "\<And>rest n. read_from_buffer (h @ rest) \<lparr>sb_buffer = None, sb_length = n\<rparr> = (ERROR_NONE, rest, eq_password_handle m)"
    using append_to_buffer_ok [of "eq_password_handle m"] ok by (auto simp only: EnrollRequest_ok_def)
  let ?bs = "p @ e @ h"
  have "nonErrorSerialize EnrollRequest_virtual m = Some ?bs" by (simp add: EnrollRequest_virtual_def p e h)
  moreover have "unat (nonErrorSerializedSize EnrollRequest_virtual m) = length ?bs" "length ?bs + 8 < 2 ^ 32"
    using ok p(2) e(2) h(2)
    by (simp_all add: EnrollRequest_virtual_def serialized_buffer_size_def unat_sum EnrollRequest_ok_def)
  moreover have "nonErrorDeserialize EnrollRequest_virtual ?bs m0 = Some (ERROR_NONE,
         m\<lparr>error := error m0, gk_user_id := gk_user_id m0, retry_timeout := retry_timeout m0\<rparr>)" for m0
    using p(3) e(3) h(3) [of "[]"] by (simp add: EnrollRequest_virtual_def reset_buffer)
  ultimately show "\<exists>bs. nonErrorSerialize EnrollRequest_virtual m = Some bs \<and>
      length bs = unat (nonErrorSerializedSize EnrollRequest_virtual m) \<and> length bs + 8 < 2 ^ 32 \<and>
      (\<forall>m0. nonErrorDeserialize EnrollRequest_virtual bs m0 = Some (ERROR_NONE,
         m\<lparr>error := error m0, gk_user_id := gk_user_id m0, retry_timeout := retry_timeout m0\<rparr>))"
    by auto
qed

interpretation enroll_response: gk_codec EnrollResponse_virtual EnrollResponse_ok
proof
  fix m :: EnrollResponse
  assume ok: "EnrollResponse_ok m"
  obtain h where h: "append_to_buffer (ep_enrolled_password_handle m) = Some h"
      "length h = 4 + unat (sb_length (ep_enrolled_password_handle m))"
      "\<And>rest n. read_from_buffer (h @ rest) \<lparr>sb_buffer = None, sb_length = n\<rparr> =
         (ERROR_NONE, rest, ep_enrolled_password_handle m)"
    using append_to_buffer_ok [of "ep_enrolled_password_handle m"] ok by (auto simp only: EnrollResponse_ok_def)
  have "nonErrorSerialize EnrollResponse_virtual m = Some h" by (simp add: EnrollResponse_virtual_def h)
  moreover have "unat (nonErrorSerializedSize EnrollResponse_virtual m) = length h" "length h + 8 < 2 ^ 32"
    using ok h(2) by (simp_all add: EnrollResponse_virtual_def serialized_buffer_size_def unat_sum EnrollResponse_ok_def)
  moreover have "nonErrorDeserialize EnrollResponse_virtual h m0 = Some (ERROR_NONE,
         m\<lparr>error := error m0, gk_user_id := gk_user_id m0, retry_timeout := retry_timeout m0\<rparr>)" for m0
    using h(3) [of "[]"] by (simp add: EnrollResponse_virtual_def reset_buffer)
  ultimately show "\<exists>bs. nonErrorSerialize EnrollResponse_virtual m = Some bs \<and>
      length bs = unat (nonErrorSerializedSize EnrollResponse_virtual m) \<and> length bs + 8 < 2 ^ 32 \<and>
      (\<forall>m0. nonErrorDeserialize EnrollResponse_virtual bs m0 = Some (ERROR_NONE,
         m\<lparr>error := error m0, gk_user_id := gk_user_id m0, retry_timeout := retry_timeout m0\<rparr>))"
    by auto
qed

end
