(* ===== verification/Hw_Token.thy ===== *)
theory Hw_Token
  imports Sys_Bytes
begin

text \<open>
  The authentication token that gatekeeper mints and keymaster checks. The structure
  \<open>hw_auth_token_t\<close> is declared by the hardware headers, outside the sources: its members are the ones
  the code uses, and its layout and constants are a parameter \<open>hw_layout\<close>. \<open>hw_ok\<close> states what a
  packed C structure gives: it has a fixed size, it can be copied through bytes, and the members before
  \<open>hmac\<close> occupy the bytes before it.
\<close>

record hw_auth_token =
  tok_version :: byte
  tok_challenge :: u64
  tok_user_id :: u64
  tok_authenticator_id :: u64
  tok_authenticator_type :: u32
  tok_timestamp :: u64
  tok_hmac :: "byte list"

record hw_layout =
  HW_AUTH_TOKEN_VERSION :: byte
  HW_AUTH_PASSWORD :: u32
  hw_hmac_size :: nat
  hw_hmac_offset :: nat
  hw_sizeof :: nat
  hw_bytes :: "hw_auth_token \<Rightarrow> byte list"
  hw_read :: "byte list \<Rightarrow> hw_auth_token"

definition hw_ok :: "hw_layout \<Rightarrow> bool" where
  "hw_ok L \<longleftrightarrow>
     (\<forall>t. length (tok_hmac t) = hw_hmac_size L \<longrightarrow>
        length (hw_bytes L t) = hw_sizeof L \<and> hw_read L (hw_bytes L t) = t) \<and>
     (\<forall>t h. take (hw_hmac_offset L) (hw_bytes L (t\<lparr>tok_hmac := h\<rparr>)) = take (hw_hmac_offset L) (hw_bytes L t)) \<and>
     0 < hw_sizeof L \<and> hw_sizeof L < 2 ^ 32"

text \<open>The bytes of a token that its signature covers.\<close>

definition hw_signed_bytes :: "hw_layout \<Rightarrow> hw_auth_token \<Rightarrow> byte list" where
  "hw_signed_bytes L t = take (hw_hmac_offset L) (hw_bytes L t)"

lemma hw_okD:
  assumes "hw_ok L"
  shows "length (tok_hmac t) = hw_hmac_size L \<Longrightarrow> length (hw_bytes L t) = hw_sizeof L"
    "length (tok_hmac t) = hw_hmac_size L \<Longrightarrow> hw_read L (hw_bytes L t) = t"
    "hw_signed_bytes L (t\<lparr>tok_hmac := h\<rparr>) = hw_signed_bytes L t"
    "0 < hw_sizeof L" "hw_sizeof L < 2 ^ 32"
  using assms by (auto simp: hw_ok_def hw_signed_bytes_def)

text \<open>The packed layout, an instance for the witnesses.\<close>

definition packed_bytes :: "hw_auth_token \<Rightarrow> byte list" where
  "packed_bytes t = [tok_version t] @ le_bytes 8 (tok_challenge t) @ le_bytes 8 (tok_user_id t) @
     le_bytes 8 (tok_authenticator_id t) @ le_bytes 4 (tok_authenticator_type t) @ le_bytes 8 (tok_timestamp t) @ tok_hmac t"

definition packed_read :: "byte list \<Rightarrow> hw_auth_token" where
  "packed_read bs =
     \<lparr>tok_version = hd bs, tok_challenge = le_word (take 8 (drop 1 bs)), tok_user_id = le_word (take 8 (drop 9 bs)),
      tok_authenticator_id = le_word (take 8 (drop 17 bs)), tok_authenticator_type = le_word (take 4 (drop 25 bs)),
      tok_timestamp = le_word (take 8 (drop 29 bs)), tok_hmac = drop 37 bs\<rparr>"

definition packed_layout :: hw_layout where
  "packed_layout = \<lparr>HW_AUTH_TOKEN_VERSION = 0, HW_AUTH_PASSWORD = 1, hw_hmac_size = 32, hw_hmac_offset = 37,
     hw_sizeof = 69, hw_bytes = packed_bytes, hw_read = packed_read\<rparr>"

lemma hw_ok_packed [simp]: "hw_ok packed_layout"
  by (simp add: hw_ok_def packed_layout_def packed_bytes_def packed_read_def)

end
