(* ===== verification/Gk_Core.thy ===== *)
theory Gk_Core
  imports Gk_Messages Hw_Token "HOL-Library.Monad_Syntax"
begin

text \<open>
  \<open>class GateKeeper\<close> of \<open>gatekeeper.h\<close> and \<open>gatekeeper.cpp\<close>: enrolment and verification of passwords
  with throttling, and the minting of authentication tokens. The pure virtual functions a platform
  implements are the record \<open>gk_platform\<close>; they act on a platform state \<open>'s\<close> that holds the keys, the
  random generator, the clock and the failure records. \<open>DoVerify\<close>, which a subclass overrides, is the
  field \<open>gk_class\<close> adds.

  \<^term>\<open>None\<close> is an access outside a block. Operator \<open>new\<close> does not return a null pointer.
\<close>

section \<open>Password handles and failure records\<close>

record password_handle_t =
  ph_version :: byte
  ph_user_id :: u64
  ph_flags :: u64
  ph_salt :: u64
  ph_signature :: "byte list"
  ph_hardware_backed :: bool

definition HANDLE_FLAG_THROTTLE_SECURE :: u64 where "HANDLE_FLAG_THROTTLE_SECURE = 1"
definition HANDLE_VERSION_THROTTLE :: byte where "HANDLE_VERSION_THROTTLE = 2"
definition HANDLE_VERSION :: byte where "HANDLE_VERSION = 2"

text \<open>The members of the packed structure, read from the block the handle is cast from.\<close>

definition handle_metadata :: "byte \<Rightarrow> u64 \<Rightarrow> u64 \<Rightarrow> byte list" where
  "handle_metadata version user_id flags = [version] @ le_bytes 8 user_id @ le_bytes 8 flags"

definition handle_bytes :: "password_handle_t \<Rightarrow> byte list" where
  "handle_bytes h = handle_metadata (ph_version h) (ph_user_id h) (ph_flags h) @ le_bytes 8 (ph_salt h) @
     ph_signature h @ [of_bool (ph_hardware_backed h)]"

definition handle_version :: "byte list \<Rightarrow> byte option" where
  "handle_version b = map_option hd (read_at 0 1 b)"

definition handle_user_id :: "byte list \<Rightarrow> u64 option" where
  "handle_user_id b = map_option le_word (read_at 1 8 b)"

definition handle_flags :: "byte list \<Rightarrow> u64 option" where
  "handle_flags b = map_option le_word (read_at 9 8 b)"

definition handle_salt :: "byte list \<Rightarrow> u64 option" where
  "handle_salt b = map_option le_word (read_at 17 8 b)"

definition handle_signature :: "byte list \<Rightarrow> byte list option" where
  "handle_signature b = read_at 25 32 b"

record failure_record_t =
  secure_user_id :: u64
  last_checked_timestamp :: u64
  failure_counter :: u32

section \<open>The platform\<close>

record 's gk_platform =
  GetAuthTokenKey :: "'s \<Rightarrow> byte list option"
  GetPasswordKey :: "'s \<Rightarrow> byte list option \<times> 's"
  ComputePasswordSignature :: "nat \<Rightarrow> byte list \<Rightarrow> byte list \<Rightarrow> u64 \<Rightarrow> byte list"
  GetRandom :: "nat \<Rightarrow> 's \<Rightarrow> byte list \<times> 's"
  ComputeSignature :: "nat \<Rightarrow> byte list \<Rightarrow> byte list \<Rightarrow> byte list"
  GetMillisecondsSinceBoot :: "'s \<Rightarrow> u64"
  GetFailureRecord :: "u32 \<Rightarrow> u64 \<Rightarrow> bool \<Rightarrow> 's \<Rightarrow> failure_record_t option \<times> 's"
  ClearFailureRecord :: "u32 \<Rightarrow> u64 \<Rightarrow> bool \<Rightarrow> 's \<Rightarrow> bool \<times> 's"
  WriteFailureRecord :: "u32 \<Rightarrow> failure_record_t \<Rightarrow> bool \<Rightarrow> 's \<Rightarrow> bool \<times> 's"
  IsHardwareBacked :: bool
  token_layout :: hw_layout

record 's gk_class = "'s gk_platform" +
  gk_DoVerify :: "byte list \<Rightarrow> SizedBuffer \<Rightarrow> 's \<Rightarrow> (bool \<times> 's) option"

section \<open>Passwords\<close>

definition memcmp_s :: "byte list \<Rightarrow> byte list \<Rightarrow> nat \<Rightarrow> nat" where
  "memcmp_s s1 s2 n =
     (if foldl (\<lambda>result (x, y). result OR (x XOR y)) (0 :: byte) (zip (take n s1) (take n s2)) = 0 then 0 else 1)"

text \<open>
  \<open>CreatePasswordHandle\<close>: the handle, or \<^term>\<open>None\<close> when it returns false. The size of the block to
  sign is computed in 32 bits; copying more than it holds is an error.
\<close>

definition CreatePasswordHandle ::
  "('s, 'x) gk_platform_scheme \<Rightarrow> u64 \<Rightarrow> u64 \<Rightarrow> u64 \<Rightarrow> byte \<Rightarrow> byte list \<Rightarrow> u32 \<Rightarrow> 's \<Rightarrow> (byte list option \<times> 's) option" where
  "CreatePasswordHandle e salt user_id flags version password password_length s =
     do { data \<leftarrow> read_at 0 (unat password_length) password;
          let metadata = handle_metadata version user_id flags;
          let to_sign_size = unat (password_length + of_nat (length metadata));
          if length metadata + length data > to_sign_size then None
          else case GetPasswordKey e s of (key, s) \<Rightarrow>
            Some (case key of
                None \<Rightarrow> (None, s)
              | Some k \<Rightarrow>
                  if k = [] then (None, s)
                  else (Some (handle_bytes \<lparr>ph_version = version, ph_user_id = user_id, ph_flags = flags, ph_salt = salt,
                          ph_signature = ComputePasswordSignature e 32 k (metadata @ data) salt,
                          ph_hardware_backed = IsHardwareBacked e\<rparr>), s)) }"

definition DoVerify ::
  "('s, 'x) gk_platform_scheme \<Rightarrow> byte list \<Rightarrow> SizedBuffer \<Rightarrow> 's \<Rightarrow> (bool \<times> 's) option" where
  "DoVerify e expected password s =
     (case sb_buffer password of
        None \<Rightarrow> Some (False, s)
      | Some block \<Rightarrow>
          do { salt \<leftarrow> handle_salt expected;
               user_id \<leftarrow> handle_user_id expected;
               flags \<leftarrow> handle_flags expected;
               version \<leftarrow> handle_version expected;
               (created, s) \<leftarrow> CreatePasswordHandle e salt user_id flags version block (sb_length password) s;
               case created of
                 None \<Rightarrow> Some (False, s)
               | Some generated \<Rightarrow>
                   do { s1 \<leftarrow> handle_signature generated;
                        s2 \<leftarrow> handle_signature expected;
                        Some (memcmp_s s1 s2 32 = 0, s) } })"

definition MintAuthToken ::
  "('s, 'x) gk_platform_scheme \<Rightarrow> u64 \<Rightarrow> u64 \<Rightarrow> u64 \<Rightarrow> u64 \<Rightarrow> 's \<Rightarrow> byte list" where
  "MintAuthToken e timestamp user_id authenticator_id challenge s =
     (let L = token_layout e;
          token = \<lparr>tok_version = HW_AUTH_TOKEN_VERSION L, tok_challenge = challenge, tok_user_id = user_id,
                   tok_authenticator_id = authenticator_id, tok_authenticator_type = bswap 4 (HW_AUTH_PASSWORD L),
                   tok_timestamp = bswap 8 timestamp, tok_hmac = []\<rparr>
      in hw_bytes L (case GetAuthTokenKey e s of
             Some key \<Rightarrow> token\<lparr>tok_hmac := ComputeSignature e (hw_hmac_size L) key (hw_signed_bytes L token)\<rparr>
           | None \<Rightarrow> token\<lparr>tok_hmac := replicate (hw_hmac_size L) 0\<rparr>))"

section \<open>Throttling\<close>

definition DAY_IN_MS :: u32 where "DAY_IN_MS = 1000 * 60 * 60 * 24"
definition failure_timeout_ms :: u32 where "failure_timeout_ms = 30000"

definition ComputeRetryTimeout :: "failure_record_t \<Rightarrow> u32" where
  "ComputeRetryTimeout record =
     (let n = failure_counter record
      in if n = 0 then 0
         else if n > 0 \<and> n \<le> 10 then (if n mod 5 = 0 then failure_timeout_ms else 0)
         else if n < 30 then failure_timeout_ms
         else if n < 140 then push_bit (unat ((n - 30) div 10)) failure_timeout_ms
         else DAY_IN_MS)"

text \<open>\<open>ThrottleRequest\<close>: whether the request is within the throttle window, and the response.\<close>

definition ThrottleRequest ::
  "('s, 'x) gk_platform_scheme \<Rightarrow> u32 \<Rightarrow> u64 \<Rightarrow> failure_record_t \<Rightarrow> bool \<Rightarrow> 'm GateKeeperMessage_scheme \<Rightarrow> 's \<Rightarrow>
   bool \<times> 'm GateKeeperMessage_scheme \<times> 's" where
  "ThrottleRequest e uid timestamp record secure response s =
     (let last_checked = last_checked_timestamp record; timeout = ComputeRetryTimeout record
      in if timeout > 0 then
           (if timestamp < last_checked + ucast timeout \<and> timestamp > last_checked
            then (True, SetRetryTimeout (ucast (ucast timeout - (timestamp - last_checked))) response, s)
            else if timestamp \<le> last_checked
            then (case WriteFailureRecord e uid (record\<lparr>last_checked_timestamp := timestamp\<rparr>) secure s of
                    (ok, s) \<Rightarrow> if \<not> ok then (True, response\<lparr>error := ERROR_UNKNOWN\<rparr>, s)
                               else (True, SetRetryTimeout timeout response, s))
            else (False, response, s))
         else (False, response, s))"

definition IncrementFailureRecord ::
  "('s, 'x) gk_platform_scheme \<Rightarrow> u32 \<Rightarrow> u64 \<Rightarrow> u64 \<Rightarrow> failure_record_t \<Rightarrow> bool \<Rightarrow> 's \<Rightarrow> bool \<times> failure_record_t \<times> 's" where
  "IncrementFailureRecord e uid user_id timestamp record secure s =
     (let record = record\<lparr>secure_user_id := user_id, failure_counter := failure_counter record + 1,
                          last_checked_timestamp := timestamp\<rparr>
      in case WriteFailureRecord e uid record secure s of (ok, s) \<Rightarrow> (ok, record, s))"

text \<open>
  The part \<open>Enroll\<close> and \<open>Verify\<close> share: \<open>Inl\<close> is the early return with the response, \<open>Inr\<close> the
  timeout of the incremented record.
\<close>

definition throttle ::
  "('s, 'x) gk_platform_scheme \<Rightarrow> u32 \<Rightarrow> u64 \<Rightarrow> u64 \<Rightarrow> bool \<Rightarrow> 'm GateKeeperMessage_scheme \<Rightarrow> 's \<Rightarrow>
   ('m GateKeeperMessage_scheme + u32) \<times> 's" where
  "throttle e uid user_id timestamp secure response s =
     (case GetFailureRecord e uid user_id secure s of
        (None, s) \<Rightarrow> (Inl (response\<lparr>error := ERROR_UNKNOWN\<rparr>), s)
      | (Some record, s) \<Rightarrow>
          (case ThrottleRequest e uid timestamp record secure response s of
             (True, response, s) \<Rightarrow> (Inl response, s)
           | (False, response, s) \<Rightarrow>
               (case IncrementFailureRecord e uid user_id timestamp record secure s of
                  (ok, record, s) \<Rightarrow>
                    if \<not> ok then (Inl (response\<lparr>error := ERROR_UNKNOWN\<rparr>), s)
                    else (Inr (ComputeRetryTimeout record), s))))"

text \<open>The response to a wrong password.\<close>

definition refuse :: "bool \<Rightarrow> u32 \<Rightarrow> 'm GateKeeperMessage_scheme \<Rightarrow> 'm GateKeeperMessage_scheme" where
  "refuse throttled timeout response =
     (if throttled \<and> timeout > 0 then SetRetryTimeout timeout response else response\<lparr>error := ERROR_INVALID\<rparr>)"

section \<open>Enrolment and verification\<close>

text \<open>The end of \<open>Enroll\<close>: clear the failure record and create the new handle.\<close>

definition Enroll_finish ::
  "('s, 'x) gk_class_scheme \<Rightarrow> EnrollRequest \<Rightarrow> byte list \<Rightarrow> u64 \<Rightarrow> EnrollResponse \<Rightarrow> 's \<Rightarrow> (EnrollResponse \<times> 's) option" where
  "Enroll_finish e request password user_id response s =
     (let uid = gk_user_id request in
      case ClearFailureRecord e uid user_id True s of (secure, s) \<Rightarrow>
      case (if secure then (HANDLE_FLAG_THROTTLE_SECURE, s) else (0, snd (ClearFailureRecord e uid user_id False s))) of
        (flags, s) \<Rightarrow>
      case GetRandom e 8 s of (salt, s) \<Rightarrow>
        do { (created, s) \<leftarrow> CreatePasswordHandle e (le_word salt) user_id flags HANDLE_VERSION password
               (sb_length (eq_provided_password request)) s;
             Some (case created of
                 None \<Rightarrow> (response\<lparr>error := ERROR_INVALID\<rparr>, s)
               | Some handle \<Rightarrow> (SetEnrolledPasswordHandle (sized handle) response, s)) })"

definition Enroll ::
  "('s, 'x) gk_class_scheme \<Rightarrow> EnrollRequest \<Rightarrow> EnrollResponse \<Rightarrow> 's \<Rightarrow> (EnrollResponse \<times> 's) option" where
  "Enroll e request response s =
     (case sb_buffer (eq_provided_password request) of
        None \<Rightarrow> Some (response\<lparr>error := ERROR_INVALID\<rparr>, s)
      | Some password \<Rightarrow>
          (case sb_buffer (eq_password_handle request) of
             None \<Rightarrow> (case GetRandom e 8 s of (r, s) \<Rightarrow> Enroll_finish e request password (le_word r) response s)
           | Some handle \<Rightarrow>
               do { version \<leftarrow> handle_version handle;
                    if version > HANDLE_VERSION then Some (response\<lparr>error := ERROR_INVALID\<rparr>, s)
                    else do {
                      user_id \<leftarrow> handle_user_id handle;
                      let timestamp = GetMillisecondsSinceBoot e s;
                      let throttled = (version \<ge> HANDLE_VERSION_THROTTLE);
                      (res, s) \<leftarrow> (if throttled
                                   then do { flags \<leftarrow> handle_flags handle;
                                             Some (throttle e (gk_user_id request) user_id timestamp
                                               (flags AND HANDLE_FLAG_THROTTLE_SECURE \<noteq> 0) response s) }
                                   else Some (Inr 0, s));
                      case res of
                        Inl response \<Rightarrow> Some (response, s)
                      | Inr timeout \<Rightarrow>
                          do { (ok, s) \<leftarrow> gk_DoVerify e handle (eq_enrolled_password request) s;
                               if \<not> ok then Some (refuse throttled timeout response, s)
                               else Enroll_finish e request password user_id response s } } }))"

definition Verify ::
  "('s, 'x) gk_class_scheme \<Rightarrow> VerifyRequest \<Rightarrow> VerifyResponse \<Rightarrow> 's \<Rightarrow> (VerifyResponse \<times> 's) option" where
  "Verify e request response s =
     (case (sb_buffer (vq_provided_password request), sb_buffer (vq_password_handle request)) of
        (Some _, Some handle) \<Rightarrow>
          do { version \<leftarrow> handle_version handle;
               if version > HANDLE_VERSION then Some (response\<lparr>error := ERROR_INVALID\<rparr>, s)
               else do {
                 user_id \<leftarrow> handle_user_id handle;
                 let uid = gk_user_id request;
                 let timestamp = GetMillisecondsSinceBoot e s;
                 let throttled = (version \<ge> HANDLE_VERSION_THROTTLE);
                 flags \<leftarrow> handle_flags handle;
                 let secure = (flags AND HANDLE_FLAG_THROTTLE_SECURE \<noteq> 0);
                 let (res, s) = (if throttled then throttle e uid user_id timestamp secure response s else (Inr 0, s));
                 let response = (if throttled then response else response\<lparr>vp_request_reenroll := True\<rparr>);
                 case res of
                   Inl response \<Rightarrow> Some (response, s)
                 | Inr timeout \<Rightarrow>
                     do { (ok, s) \<leftarrow> gk_DoVerify e handle (vq_provided_password request) s;
                          if ok
                          then Some (SetVerificationToken
                                 (sized (MintAuthToken e timestamp user_id 0 (vq_challenge request) s)) response,
                                 if throttled then snd (ClearFailureRecord e uid user_id secure s) else s)
                          else Some (refuse throttled timeout response, s) } } }
      | _ \<Rightarrow> Some (response\<lparr>error := ERROR_INVALID\<rparr>, s))"

end
