(* ===== verification/Gk_Soft.thy ===== *)
theory Gk_Soft
  imports Gk_Core
begin

text \<open>
  The software gatekeeper of \<open>core/gatekeeperd\<close>: \<open>class SoftGateKeeper\<close>, a subclass of \<open>GateKeeper\<close>
  that keeps failure records and fast password hashes in memory, and \<open>SoftGateKeeperDevice\<close>, which
  calls it. The cryptographic library and the random generator are the parameter \<open>soft_lib\<close>: \<open>lib_rand k n\<close>
  are the \<open>n\<close> bytes of the \<open>k\<close>-th draw.
\<close>

section \<open>State\<close>

record fast_hash_t =
  fh_salt :: u64
  fh_digest :: "byte list"

record soft_state =
  failure_map :: "u32 \<rightharpoonup> failure_record_t"
  fast_hash_map :: "u64 \<rightharpoonup> fast_hash_t"
  sg_key :: "byte list"
  sg_draws :: nat
  boot_time :: "(u64 \<times> u64) option"

record soft_lib =
  crypto_scrypt :: "byte list \<Rightarrow> byte list \<Rightarrow> nat \<Rightarrow> byte list"
  lib_rand :: "nat \<Rightarrow> nat \<Rightarrow> byte list"
  lib_SHA256 :: "byte list \<Rightarrow> byte list"
  lib_layout :: hw_layout

definition SIGNATURE_LENGTH_BYTES :: nat where "SIGNATURE_LENGTH_BYTES = 32"

definition new_SoftGateKeeper :: "(u64 \<times> u64) option \<Rightarrow> soft_state" where
  "new_SoftGateKeeper t = \<lparr>failure_map = Map.empty, fast_hash_map = Map.empty,
     sg_key = replicate SIGNATURE_LENGTH_BYTES 0, sg_draws = 0, boot_time = t\<rparr>"

section \<open>The virtual functions\<close>

definition soft_GetRandom :: "soft_lib \<Rightarrow> nat \<Rightarrow> soft_state \<Rightarrow> byte list \<times> soft_state" where
  "soft_GetRandom lib n s = (lib_rand lib (sg_draws s) n, s\<lparr>sg_draws := sg_draws s + 1\<rparr>)"

text \<open>\<open>clock_gettime\<close> gives seconds and nanoseconds, or fails.\<close>

definition soft_GetMillisecondsSinceBoot :: "soft_state \<Rightarrow> u64" where
  "soft_GetMillisecondsSinceBoot s =
     (case boot_time s of None \<Rightarrow> 0 | Some (sec, nsec) \<Rightarrow> sec * 1000 + nsec div 1000 div 1000)"

definition zero_record :: failure_record_t where
  "zero_record = \<lparr>secure_user_id = 0, last_checked_timestamp = 0, failure_counter = 0\<rparr>"

text \<open>\<open>failure_map_[uid]\<close> inserts a zero record for a new key.\<close>

definition stored_record :: "u32 \<Rightarrow> soft_state \<Rightarrow> failure_record_t" where
  "stored_record uid s = (case failure_map s uid of None \<Rightarrow> zero_record | Some r \<Rightarrow> r)"

definition soft_GetFailureRecord ::
  "u32 \<Rightarrow> u64 \<Rightarrow> bool \<Rightarrow> soft_state \<Rightarrow> failure_record_t option \<times> soft_state" where
  "soft_GetFailureRecord uid user_id secure s =
     (let stored = stored_record uid s;
          stored = (if user_id \<noteq> secure_user_id stored
                    then \<lparr>secure_user_id = user_id, last_checked_timestamp = 0, failure_counter = 0\<rparr> else stored)
      in (Some stored, s\<lparr>failure_map := (failure_map s)(uid \<mapsto> stored)\<rparr>))"

definition soft_ClearFailureRecord :: "u32 \<Rightarrow> u64 \<Rightarrow> bool \<Rightarrow> soft_state \<Rightarrow> bool \<times> soft_state" where
  "soft_ClearFailureRecord uid user_id secure s =
     (True, s\<lparr>failure_map := (failure_map s)
        (uid \<mapsto> \<lparr>secure_user_id = user_id, last_checked_timestamp = 0, failure_counter = 0\<rparr>)\<rparr>)"

definition soft_WriteFailureRecord :: "u32 \<Rightarrow> failure_record_t \<Rightarrow> bool \<Rightarrow> soft_state \<Rightarrow> bool \<times> soft_state" where
  "soft_WriteFailureRecord uid record secure s = (True, s\<lparr>failure_map := (failure_map s)(uid \<mapsto> record)\<rparr>)"

definition soft_platform :: "soft_lib \<Rightarrow> soft_state gk_platform" where
  "soft_platform lib =
     \<lparr>GetAuthTokenKey = (\<lambda>s. Some (sg_key s)),
      GetPasswordKey = (\<lambda>s. (Some (sg_key s), s)),
      ComputePasswordSignature = (\<lambda>n key password salt. crypto_scrypt lib password (le_bytes 8 salt) n),
      GetRandom = soft_GetRandom lib,
      ComputeSignature = (\<lambda>n key msg. replicate n 0),
      GetMillisecondsSinceBoot = soft_GetMillisecondsSinceBoot,
      GetFailureRecord = soft_GetFailureRecord,
      ClearFailureRecord = soft_ClearFailureRecord,
      WriteFailureRecord = soft_WriteFailureRecord,
      IsHardwareBacked = False,
      token_layout = lib_layout lib\<rparr>"

section \<open>Fast hashes\<close>

text \<open>The bytes of a password that the code copies; reading past the end of the block is an error.\<close>

definition sized_data :: "SizedBuffer \<Rightarrow> byte list option" where
  "sized_data password =
     (case sb_buffer password of None \<Rightarrow> (if sb_length password = 0 then Some [] else None)
      | Some b \<Rightarrow> read_at 0 (unat (sb_length password)) b)"

definition ComputeFastHash :: "soft_lib \<Rightarrow> SizedBuffer \<Rightarrow> u64 \<Rightarrow> fast_hash_t option" where
  "ComputeFastHash lib password salt =
     do { data \<leftarrow> sized_data password;
          Some \<lparr>fh_salt = salt, fh_digest = lib_SHA256 lib (le_bytes 8 salt @ data)\<rparr> }"

definition VerifyFast :: "soft_lib \<Rightarrow> fast_hash_t \<Rightarrow> SizedBuffer \<Rightarrow> bool option" where
  "VerifyFast lib fast_hash password =
     do { computed \<leftarrow> ComputeFastHash lib password (fh_salt fast_hash);
          Some (fh_digest computed = fh_digest fast_hash) }"

definition soft_DoVerify :: "soft_lib \<Rightarrow> byte list \<Rightarrow> SizedBuffer \<Rightarrow> soft_state \<Rightarrow> (bool \<times> soft_state) option" where
  "soft_DoVerify lib expected password s =
     do { user_id \<leftarrow> handle_user_id expected;
          fast \<leftarrow> (case fast_hash_map s user_id of None \<Rightarrow> Some False | Some fh \<Rightarrow> VerifyFast lib fh password);
          if fast then Some (True, s)
          else do {
            (ok, s) \<leftarrow> DoVerify (soft_platform lib) expected password s;
            if ok then
              case soft_GetRandom lib 8 s of (salt, s) \<Rightarrow>
                do { fh \<leftarrow> ComputeFastHash lib password (le_word salt);
                     Some (True, s\<lparr>fast_hash_map := (fast_hash_map s)(user_id \<mapsto> fh)\<rparr>) }
            else Some (False, s) } }"

definition soft_class :: "soft_lib \<Rightarrow> soft_state gk_class" where
  "soft_class lib = gk_platform.extend (soft_platform lib) (gk_class.fields (soft_DoVerify lib))"

lemma soft_class_simps [simp]:
  "GetAuthTokenKey (soft_class lib) = (\<lambda>s. Some (sg_key s))"
  "GetPasswordKey (soft_class lib) = (\<lambda>s. (Some (sg_key s), s))"
  "ComputePasswordSignature (soft_class lib) = (\<lambda>n key password salt. crypto_scrypt lib password (le_bytes 8 salt) n)"
  "GetRandom (soft_class lib) = soft_GetRandom lib"
  "ComputeSignature (soft_class lib) = (\<lambda>n key msg. replicate n 0)"
  "GetMillisecondsSinceBoot (soft_class lib) = soft_GetMillisecondsSinceBoot"
  "GetFailureRecord (soft_class lib) = soft_GetFailureRecord"
  "ClearFailureRecord (soft_class lib) = soft_ClearFailureRecord"
  "WriteFailureRecord (soft_class lib) = soft_WriteFailureRecord"
  "IsHardwareBacked (soft_class lib) = False"
  "token_layout (soft_class lib) = lib_layout lib"
  "gk_DoVerify (soft_class lib) = soft_DoVerify lib"
  by (simp_all add: soft_class_def soft_platform_def gk_platform.extend_def gk_class.fields_def)

section \<open>The device\<close>

text \<open>
  \<open>SoftGateKeeperDevice\<close>: pointers are blocks or null, \<open>device_buffer\<close> is the construction of a
  \<open>SizedBuffer\<close> with the \<open>memcpy\<close> that follows it. The result is the return code with the outputs;
  \<open>u\<close> and \<open>r\<close> are uninitialised members.
\<close>

definition EINVAL :: int where "EINVAL = 22"

definition device_buffer :: "byte list option \<Rightarrow> u32 \<Rightarrow> SizedBuffer option" where
  "device_buffer p len =
     (case p of None \<Rightarrow> (if len = 0 then Some null_buffer else None)
      | Some b \<Rightarrow> map_option sized (read_at 0 (unat len) b))"

definition device_enroll ::
  "soft_lib \<Rightarrow> u32 \<times> u32 \<Rightarrow> bool \<Rightarrow> u32 \<Rightarrow> byte list option \<times> u32 \<Rightarrow> byte list option \<times> u32 \<Rightarrow> byte list option \<times> u32 \<Rightarrow>
   soft_state \<Rightarrow> (int \<times> SizedBuffer option \<times> soft_state) option" where
  "device_enroll lib garbage outputs uid current_handle current_password desired s =
     (case (current_handle, current_password, desired) of ((hp, hl), (cp, cl), (dp, dl)) \<Rightarrow>
      if \<not> outputs \<or> dp = None \<or> dl = 0 then Some (- EINVAL, None, s)
      else do {
        let together = \<not> (hp = None \<or> hl = 0 \<or> cp = None \<or> cl = 0);
        desired \<leftarrow> device_buffer dp dl;
        handle \<leftarrow> (if together then device_buffer hp hl else Some null_buffer);
        current \<leftarrow> (if together then device_buffer cp cl else Some null_buffer);
        (response, s) \<leftarrow> Enroll (soft_class lib)
          (new_EnrollRequest (snd garbage) uid (Some handle) desired (Some current))
          (new_EnrollResponse (fst garbage) (snd garbage)) s;
        Some (if error response = ERROR_RETRY then (sint (retry_timeout response), None, s)
              else if error response \<noteq> ERROR_NONE then (- EINVAL, None, s)
              else (0, Some (ep_enrolled_password_handle response), s)) })"

definition device_verify ::
  "soft_lib \<Rightarrow> u32 \<times> u32 \<Rightarrow> u32 \<Rightarrow> u64 \<Rightarrow> byte list option \<times> u32 \<Rightarrow> byte list option \<times> u32 \<Rightarrow>
   soft_state \<Rightarrow> (int \<times> (SizedBuffer \<times> bool) option \<times> soft_state) option" where
  "device_verify lib garbage uid challenge enrolled_handle provided s =
     (case (enrolled_handle, provided) of ((hp, hl), (pp, pl)) \<Rightarrow>
      if hp = None \<or> pp = None then Some (- EINVAL, None, s)
      else do {
        handle \<leftarrow> device_buffer hp hl;
        password \<leftarrow> device_buffer pp pl;
        (response, s) \<leftarrow> Verify (soft_class lib) (new_VerifyRequest (snd garbage) uid challenge handle password)
          (new_VerifyResponse (fst garbage) (snd garbage)) s;
        Some (if error response = ERROR_RETRY then (sint (retry_timeout response), None, s)
              else if error response \<noteq> ERROR_NONE then (- EINVAL, None, s)
              else (0, Some (vp_auth_token response, vp_request_reenroll response), s)) })"

end
