(* ===== verification/Gk_Throttle.thy ===== *)
theory Gk_Throttle
  imports Gk_Soft
begin

text \<open>
  Throttling. \<open>gk_store\<close> is the contract \<open>gatekeeper.h\<close> states for the failure records of a platform:
  reading, writing and clearing the record of a user, with a clock that the handlers do not change.
  From it follow the behaviour of \<open>Verify\<close> inside and outside the throttle window and a lower bound on
  the time that a number of password guesses takes. The software gatekeeper keeps the contract.
\<close>

section \<open>Timeouts\<close>

text \<open>The timeout after \<open>n\<close> failures, on natural numbers.\<close>

definition timeout_ms :: "nat \<Rightarrow> nat" where
  "timeout_ms n =
     (if n = 5 \<or> n = 10 then 30000 else if n < 10 then 0 else if n < 30 then 30000
      else if n < 140 then 30000 * 2 ^ ((n - 30) div 10) else 86400000)"

lemma timeout_ms_le: "timeout_ms n \<le> 86400000"
proof (cases "30 \<le> n \<and> n < 140")
  case True
  then have "(2 :: nat) ^ ((n - 30) div 10) \<le> 2 ^ 10" by (intro power_increasing) auto
  then show ?thesis using True by (simp add: timeout_ms_def)
qed (auto simp: timeout_ms_def)

lemma unat_push_bit_timeout:
  assumes "k \<le> 10"
  shows "unat (push_bit k failure_timeout_ms) = 30000 * 2 ^ k"
proof -
  have "(2 :: nat) ^ k \<le> 2 ^ 10" using assms by (intro power_increasing) auto
  then have "push_bit k (unat failure_timeout_ms) < 2 ^ 32"
    by (simp add: push_bit_eq_mult failure_timeout_ms_def)
  moreover have "unat (push_bit k failure_timeout_ms) = take_bit 32 (push_bit k (unat failure_timeout_ms))"
    using unsigned_push_bit_eq [where 'b = 32, of k failure_timeout_ms, where 'a = nat] by simp
  ultimately show ?thesis
    by (simp only: take_bit_nat_eq_self) (simp add: push_bit_eq_mult failure_timeout_ms_def)
qed

lemma ComputeRetryTimeout_unat: "unat (ComputeRetryTimeout r) = timeout_ms (unat (failure_counter r))"
proof -
  define n where "n = failure_counter r"
  have cmp: "n = 0 \<longleftrightarrow> unat n = 0" "n \<le> 10 \<longleftrightarrow> unat n \<le> 10" "n < 30 \<longleftrightarrow> unat n < 30" "n < 140 \<longleftrightarrow> unat n < 140"
    "n mod 5 = 0 \<longleftrightarrow> unat n mod 5 = 0"
    by (simp_all add: word_le_nat_alt word_less_nat_alt unat_eq_0 flip: unat_eq_0 [of "n mod 5"] add: unat_mod)
  consider "unat n \<le> 10" | "10 < unat n" "unat n < 30" | "30 \<le> unat n" "unat n < 140" | "140 \<le> unat n" by linarith
  then show ?thesis
  proof cases
    case 1
    then have d: "unat n mod 5 = 0 \<longleftrightarrow> unat n = 0 \<or> unat n = 5 \<or> unat n = 10" by presburger
    have "n > 0 \<longleftrightarrow> unat n \<noteq> 0" by (simp add: word_gt_0 unat_eq_0)
    then show ?thesis using 1 cmp(1,2,5) d
      by (simp add: ComputeRetryTimeout_def n_def [symmetric] timeout_ms_def failure_timeout_ms_def Let_def)
  next
    case 2
    then show ?thesis using cmp
      by (simp add: ComputeRetryTimeout_def n_def [symmetric] timeout_ms_def failure_timeout_ms_def Let_def)
  next
    case 3
    have "unat (n - 30) = unat n - 30" using 3 by (simp add: unat_sub word_le_nat_alt)
    then have "unat ((n - 30) div 10) = (unat n - 30) div 10" by (simp add: unat_div)
    moreover have "(unat n - 30) div 10 \<le> 10" using 3 by auto
    ultimately show ?thesis using 3 cmp unat_push_bit_timeout
      by (simp add: ComputeRetryTimeout_def n_def [symmetric] timeout_ms_def Let_def)
  next
    case 4
    then show ?thesis using cmp
      by (simp add: ComputeRetryTimeout_def n_def [symmetric] timeout_ms_def DAY_IN_MS_def Let_def)
  qed
qed

section \<open>Guessing a password\<close>

text \<open>The throttling that \<open>Verify\<close> and \<open>Enroll\<close> apply for a handle they were given.\<close>

definition handle_throttle ::
  "('s, 'x) gk_platform_scheme \<Rightarrow> u32 \<Rightarrow> byte list \<Rightarrow> 'm GateKeeperMessage_scheme \<Rightarrow> 's \<Rightarrow>
   (('m GateKeeperMessage_scheme + u32) \<times> 's) option" where
  "handle_throttle e uid handle response s =
     do { user_id \<leftarrow> handle_user_id handle;
          flags \<leftarrow> handle_flags handle;
          Some (throttle e uid user_id (GetMillisecondsSinceBoot e s)
            (flags AND HANDLE_FLAG_THROTTLE_SECURE \<noteq> 0) response s) }"

text \<open>What came of the password of a request with that handle: nothing inside the throttle window, or a comparison.\<close>

definition compared ::
  "('s, 'x) gk_class_scheme \<Rightarrow> u32 \<Rightarrow> byte list \<Rightarrow> SizedBuffer \<Rightarrow> 'm GateKeeperMessage_scheme \<Rightarrow> 's \<Rightarrow> bool option" where
  "compared e uid handle password response s =
     (case handle_throttle e uid handle response s of
        Some (Inr timeout, s1) \<Rightarrow> map_option fst (gk_DoVerify e handle password s1)
      | _ \<Rightarrow> None)"

text \<open>The time of the last success and the number of failures since.\<close>

fun tally :: "u64 \<Rightarrow> bool option \<Rightarrow> nat \<times> nat \<Rightarrow> nat \<times> nat" where
  "tally now None g = g"
| "tally now (Some False) (t, n) = (t, Suc n)"
| "tally now (Some True) (t, n) = (unat now, 0)"

text \<open>
  \<open>guess_run e tick uid handle s0 s (t, n)\<close>: from \<open>s0\<close> the platform got to \<open>s\<close> by the passing of time, by
  any requests for the user \<open>uid\<close> with the handle \<open>handle\<close>, successful or not, and by any requests for other
  users. The last success for \<open>uid\<close>, or the start, was at time \<open>t\<close>, and since then \<open>n\<close> passwords were
  compared, all of them wrong.
\<close>

inductive guess_run ::
  "('s, 'x) gk_class_scheme \<Rightarrow> ('s \<Rightarrow> 's \<Rightarrow> bool) \<Rightarrow> u32 \<Rightarrow> byte list \<Rightarrow> 's \<Rightarrow> 's \<Rightarrow> nat \<times> nat \<Rightarrow> bool"
  for e tick uid handle s0 where
  start: "guess_run e tick uid handle s0 s0 (unat (GetMillisecondsSinceBoot e s0), 0)"
| wait: "guess_run e tick uid handle s0 s g \<Longrightarrow> tick s s' \<Longrightarrow> guess_run e tick uid handle s0 s' g"
| verify:
    "guess_run e tick uid handle s0 s g \<Longrightarrow> gk_user_id request = uid \<Longrightarrow>
     sb_buffer (vq_password_handle request) = Some handle \<Longrightarrow> Verify e request response s = Some (response', s') \<Longrightarrow>
     guess_run e tick uid handle s0 s' (if sb_buffer (vq_provided_password request) = None then g
       else tally (GetMillisecondsSinceBoot e s) (compared e uid handle (vq_provided_password request) response s) g)"
| enroll:
    "guess_run e tick uid handle s0 s g \<Longrightarrow> gk_user_id erequest = uid \<Longrightarrow>
     sb_buffer (eq_password_handle erequest) = Some handle \<Longrightarrow> Enroll e erequest eresponse s = Some (eresponse', s') \<Longrightarrow>
     guess_run e tick uid handle s0 s' (if sb_buffer (eq_provided_password erequest) = None then g
       else tally (GetMillisecondsSinceBoot e s) (compared e uid handle (eq_enrolled_password erequest) eresponse s) g)"
| other_verify:
    "guess_run e tick uid handle s0 s g \<Longrightarrow> gk_user_id request \<noteq> uid \<Longrightarrow>
     Verify e request response s = Some (response', s') \<Longrightarrow> guess_run e tick uid handle s0 s' g"
| other_enroll:
    "guess_run e tick uid handle s0 s g \<Longrightarrow> gk_user_id erequest \<noteq> uid \<Longrightarrow>
     Enroll e erequest eresponse s = Some (eresponse', s') \<Longrightarrow> guess_run e tick uid handle s0 s' g"

lemma refuse_error [simp]: "error (refuse throttled t response) \<noteq> ERROR_NONE"
  by (simp add: refuse_def SetRetryTimeout_def)

text \<open>The three ways in which \<open>Verify\<close> answers.\<close>

lemma Verify_cases:
  assumes "Verify e request response s = Some (response', s')"
  obtains (invalid) "response' = response\<lparr>error := ERROR_INVALID\<rparr>" "s' = s"
  | (throttled) sid secure where
      "throttle e (gk_user_id request) sid (GetMillisecondsSinceBoot e s) secure response s = (Inl response', s')"
  | (checked) handle sid secure throttled timeout s1 ok s2 where
      "sb_buffer (vq_password_handle request) = Some handle" "handle_user_id handle = Some sid"
      "(if throttled then throttle e (gk_user_id request) sid (GetMillisecondsSinceBoot e s) secure response s
        else (Inr 0, s)) = (Inr timeout, s1)"
      "gk_DoVerify e handle (vq_provided_password request) s1 = Some (ok, s2)"
      "if ok then error response' = error response else error response' \<noteq> ERROR_NONE"
      "s' = (if ok \<and> throttled then snd (ClearFailureRecord e (gk_user_id request) sid secure s2) else s2)"
proof -
  consider (null) "sb_buffer (vq_provided_password request) = None \<or> sb_buffer (vq_password_handle request) = None"
    | (block) pw handle where "sb_buffer (vq_provided_password request) = Some pw"
      "sb_buffer (vq_password_handle request) = Some handle" by (metis option.exhaust)
  then show thesis
  proof cases
    case null
    then show thesis using assms by (intro invalid) (auto simp: Verify_def split: option.splits)
  next
    case block
    obtain v where v: "handle_version handle = Some v"
      using assms block by (auto simp: Verify_def split: Option.bind_splits)
    show thesis
    proof (cases "v > HANDLE_VERSION")
      case True
      then show thesis using assms block v by (intro invalid) (auto simp: Verify_def)
    next
      case False
      let ?throttled = "v \<ge> HANDLE_VERSION_THROTTLE"
      obtain sid flags where f: "handle_user_id handle = Some sid" "handle_flags handle = Some flags"
        using assms block v False by (auto simp: Verify_def Let_def split: Option.bind_splits)
      let ?secure = "flags AND HANDLE_FLAG_THROTTLE_SECURE \<noteq> 0"
      obtain res s1 where t: "(if ?throttled then throttle e (gk_user_id request) sid (GetMillisecondsSinceBoot e s)
          ?secure response s else (Inr 0, s)) = (res, s1)" by fastforce
      show thesis
      proof (cases res)
        case (Inl r)
        then show thesis using assms block v False f t
          by (intro throttled [of sid ?secure]) (auto simp: Verify_def Let_def split: if_splits)
      next
        case (Inr timeout)
        obtain ok s2 where d: "gk_DoVerify e handle (vq_provided_password request) s1 = Some (ok, s2)"
          using assms block v False f t Inr by (auto simp: Verify_def Let_def split: Option.bind_splits)
        show thesis
          by (rule checked [OF block(2) f(1) t [unfolded Inr] d])
            (use assms block v False f t Inr d in \<open>auto simp: Verify_def Let_def SetVerificationToken_def split: if_splits\<close>)
      qed
    qed
  qed
qed

text \<open>The ways in which \<open>Enroll\<close> goes.\<close>

lemma Enroll_cases:
  assumes "Enroll e request response s = Some (response', s')"
  obtains (invalid) "response' = response\<lparr>error := ERROR_INVALID\<rparr>" "s' = s"
  | (fresh) password r s1 where "sb_buffer (eq_password_handle request) = None" "GetRandom e 8 s = (r, s1)"
      "Enroll_finish e request password (le_word r) response s1 = Some (response', s')"
  | (throttled) sid secure where
      "throttle e (gk_user_id request) sid (GetMillisecondsSinceBoot e s) secure response s = (Inl response', s')"
  | (wrong) handle sid secure throttled timeout s1 where
      "sb_buffer (eq_password_handle request) = Some handle" "handle_user_id handle = Some sid"
      "(if throttled then throttle e (gk_user_id request) sid (GetMillisecondsSinceBoot e s) secure response s
        else (Inr 0, s)) = (Inr timeout, s1)"
      "gk_DoVerify e handle (eq_enrolled_password request) s1 = Some (False, s')" "error response' \<noteq> ERROR_NONE"
  | (right) handle sid secure throttled timeout s1 s2 password where
      "sb_buffer (eq_password_handle request) = Some handle" "handle_user_id handle = Some sid"
      "(if throttled then throttle e (gk_user_id request) sid (GetMillisecondsSinceBoot e s) secure response s
        else (Inr 0, s)) = (Inr timeout, s1)"
      "gk_DoVerify e handle (eq_enrolled_password request) s1 = Some (True, s2)"
      "sb_buffer (eq_provided_password request) = Some password"
      "Enroll_finish e request password sid response s2 = Some (response', s')"
proof (cases "sb_buffer (eq_provided_password request)")
  case None
  then show thesis using assms by (intro invalid) (auto simp: Enroll_def)
next
  case password: (Some password)
  show thesis
  proof (cases "sb_buffer (eq_password_handle request)")
    case None
    obtain r s1 where "GetRandom e 8 s = (r, s1)" by fastforce
    then show thesis using assms password None by (intro fresh) (auto simp: Enroll_def)
  next
    case (Some handle)
    obtain v where v: "handle_version handle = Some v"
      using assms password Some by (auto simp: Enroll_def split: Option.bind_splits)
    show thesis
    proof (cases "v > HANDLE_VERSION")
      case True
      then show thesis using assms password Some v by (intro invalid) (auto simp: Enroll_def)
    next
      case False
      obtain sid where sid: "handle_user_id handle = Some sid"
        using assms password Some v False by (auto simp: Enroll_def split: Option.bind_splits)
      obtain secure res s1 where t: "(if v \<ge> HANDLE_VERSION_THROTTLE then throttle e (gk_user_id request) sid
          (GetMillisecondsSinceBoot e s) secure response s else (Inr 0, s)) = (res, s1)"
        and f: "(if v \<ge> HANDLE_VERSION_THROTTLE then do { flags \<leftarrow> handle_flags handle; Some (throttle e (gk_user_id request) sid
          (GetMillisecondsSinceBoot e s) (flags AND HANDLE_FLAG_THROTTLE_SECURE \<noteq> 0) response s) } else Some (Inr 0, s)) = Some (res, s1)"
        using assms password Some v False sid by (auto simp: Enroll_def Let_def split: Option.bind_splits if_splits)
      show thesis
      proof (cases res)
        case (Inl r)
        then show thesis using assms password Some v False sid t f
          by (intro throttled [of sid secure]) (auto simp: Enroll_def Let_def split: if_splits)
      next
        case (Inr timeout)
        obtain ok s2 where d: "gk_DoVerify e handle (eq_enrolled_password request) s1 = Some (ok, s2)"
          using assms password Some v False sid f Inr by (auto simp: Enroll_def Let_def split: Option.bind_splits)
        have "if ok then Enroll_finish e request password sid response s2 = Some (response', s')
            else s' = s2 \<and> error response' \<noteq> ERROR_NONE"
          using assms password Some v False sid f Inr d by (auto simp: Enroll_def Let_def)
        then show thesis
          using wrong [OF Some sid t [unfolded Inr]] right [OF Some sid t [unfolded Inr] _ password] d by (cases ok) auto
      qed
    qed
  qed
qed

text \<open>
  The ways in which the two requests go, for a handle of the current version: nothing is done, the request
  is refused by the throttling, or the password is compared.
\<close>

lemma Verify_outcome:
  assumes "Verify e request response s = Some (response', s')" "gk_user_id request = uid"
    "sb_buffer (vq_password_handle request) = Some handle" "handle_version handle = Some HANDLE_VERSION"
    "handle_user_id handle = Some sid"
  obtains (null) "sb_buffer (vq_provided_password request) = None" "s' = s"
  | (refused) r where "sb_buffer (vq_provided_password request) \<noteq> None" "handle_throttle e uid handle response s = Some (Inl r, s')"
  | (wrong) t s1 where "sb_buffer (vq_provided_password request) \<noteq> None" "handle_throttle e uid handle response s = Some (Inr t, s1)"
      "gk_DoVerify e handle (vq_provided_password request) s1 = Some (False, s')"
  | (right) t s1 s2 secure where "sb_buffer (vq_provided_password request) \<noteq> None"
      "handle_throttle e uid handle response s = Some (Inr t, s1)"
      "gk_DoVerify e handle (vq_provided_password request) s1 = Some (True, s2)" "s' = snd (ClearFailureRecord e uid sid secure s2)"
proof (cases "sb_buffer (vq_provided_password request) = None")
  case True
  then show thesis using assms null by (simp add: Verify_def)
next
  case False
  obtain flags where f: "handle_flags handle = Some flags"
    using assms False by (auto simp: Verify_def Let_def HANDLE_VERSION_def HANDLE_VERSION_THROTTLE_def split: Option.bind_splits)
  obtain res s1 where t: "throttle e uid sid (GetMillisecondsSinceBoot e s) (flags AND HANDLE_FLAG_THROTTLE_SECURE \<noteq> 0) response s = (res, s1)"
    by fastforce
  then have h: "handle_throttle e uid handle response s = Some (res, s1)" using f assms(5) by (simp add: handle_throttle_def)
  show thesis
  proof (cases res)
    case (Inl r)
    then show thesis using refused [OF False] h f t assms False
      by (auto simp: Verify_def Let_def HANDLE_VERSION_def HANDLE_VERSION_THROTTLE_def)
  next
    case (Inr timeout)
    obtain ok s2 where v: "gk_DoVerify e handle (vq_provided_password request) s1 = Some (ok, s2)"
      using Inr f t assms False by (auto simp: Verify_def Let_def HANDLE_VERSION_def HANDLE_VERSION_THROTTLE_def split: Option.bind_splits)
    then have "s' = (if ok then snd (ClearFailureRecord e uid sid (flags AND HANDLE_FLAG_THROTTLE_SECURE \<noteq> 0) s2) else s2)"
      using Inr f t assms False by (auto simp: Verify_def Let_def HANDLE_VERSION_def HANDLE_VERSION_THROTTLE_def)
    then show thesis using wrong [OF False] right [OF False] h v Inr by (cases ok) auto
  qed
qed

lemma Enroll_outcome:
  assumes "Enroll e request response s = Some (response', s')" "gk_user_id request = uid"
    "sb_buffer (eq_password_handle request) = Some handle" "handle_version handle = Some HANDLE_VERSION"
    "handle_user_id handle = Some sid"
  obtains (null) "sb_buffer (eq_provided_password request) = None" "s' = s"
  | (refused) r where "sb_buffer (eq_provided_password request) \<noteq> None" "handle_throttle e uid handle response s = Some (Inl r, s')"
  | (wrong) t s1 where "sb_buffer (eq_provided_password request) \<noteq> None" "handle_throttle e uid handle response s = Some (Inr t, s1)"
      "gk_DoVerify e handle (eq_enrolled_password request) s1 = Some (False, s')"
  | (right) t s1 s2 password where "sb_buffer (eq_provided_password request) \<noteq> None"
      "handle_throttle e uid handle response s = Some (Inr t, s1)"
      "gk_DoVerify e handle (eq_enrolled_password request) s1 = Some (True, s2)"
      "Enroll_finish e request password sid response s2 = Some (response', s')"
proof (cases "sb_buffer (eq_provided_password request)")
  case None
  then show thesis using assms null by (simp add: Enroll_def)
next
  case (Some password)
  then have ne: "sb_buffer (eq_provided_password request) \<noteq> None" by simp
  obtain flags where f: "handle_flags handle = Some flags"
    using assms Some by (auto simp: Enroll_def Let_def HANDLE_VERSION_def HANDLE_VERSION_THROTTLE_def split: Option.bind_splits)
  obtain res s1 where t: "throttle e uid sid (GetMillisecondsSinceBoot e s) (flags AND HANDLE_FLAG_THROTTLE_SECURE \<noteq> 0) response s = (res, s1)"
    by fastforce
  then have h: "handle_throttle e uid handle response s = Some (res, s1)" using f assms(5) by (simp add: handle_throttle_def)
  show thesis
  proof (cases res)
    case (Inl r)
    then show thesis using refused [OF ne] h f t assms Some
      by (auto simp: Enroll_def Let_def HANDLE_VERSION_def HANDLE_VERSION_THROTTLE_def)
  next
    case (Inr timeout)
    obtain ok s2 where v: "gk_DoVerify e handle (eq_enrolled_password request) s1 = Some (ok, s2)"
      using Inr f t assms Some by (auto simp: Enroll_def Let_def HANDLE_VERSION_def HANDLE_VERSION_THROTTLE_def split: Option.bind_splits)
    then have "if ok then Enroll_finish e request password sid response s2 = Some (response', s') else s' = s2"
      using Inr f t assms Some by (auto simp: Enroll_def Let_def HANDLE_VERSION_def HANDLE_VERSION_THROTTLE_def)
    then show thesis using wrong [OF ne] right [OF ne] h v Inr by (cases ok) auto
  qed
qed

text \<open>
  The invariant of a run: after a success at \<open>t0\<close> and \<open>n\<close> failures the record counts the failures, its time is
  not in the future, and the failures took the sum of their timeouts.
\<close>

definition guess_inv :: "nat \<Rightarrow> nat \<Rightarrow> failure_record_t \<Rightarrow> nat \<Rightarrow> bool" where
  "guess_inv t0 now r n \<longleftrightarrow>
     unat (failure_counter r) = n \<and> unat (last_checked_timestamp r) \<le> now \<and> t0 \<le> now \<and> now < 2 ^ 63 \<and>
     (n = 0 \<or> t0 + (\<Sum>k<n. timeout_ms k) \<le> unat (last_checked_timestamp r))"

text \<open>
  What gatekeeper relies on. \<open>rec s uid sid\<close> is the failure record that the platform keeps for a user and
  a secure id: reading returns it, a write that succeeds replaces it and one that fails leaves it,
  clearing succeeds and resets it, and the records of other users stay as they are. Neither these operations nor
  \<open>DoVerify\<close>, \<open>GetRandom\<close> and \<open>GetPasswordKey\<close> change the clock, and the last three leave the records alone. \<open>tick\<close> is
  the passing of time: the clock does not go back.
\<close>

locale gk_store =
  fixes e :: "('s, 'x) gk_class_scheme"
    and rec :: "'s \<Rightarrow> u32 \<Rightarrow> u64 \<Rightarrow> failure_record_t"
    and tick :: "'s \<Rightarrow> 's \<Rightarrow> bool"
  assumes get_law: "GetFailureRecord e uid sid secure s = (found, s') \<Longrightarrow>
      found = Some (rec s uid sid) \<and> rec s' uid sid = rec s uid sid \<and>
      GetMillisecondsSinceBoot e s' = GetMillisecondsSinceBoot e s"
    and write_law: "WriteFailureRecord e uid r secure s = (ok, s') \<Longrightarrow>
      rec s' uid (secure_user_id r) = (if ok then r else rec s uid (secure_user_id r)) \<and>
      GetMillisecondsSinceBoot e s' = GetMillisecondsSinceBoot e s"
    and clear_law: "ClearFailureRecord e uid sid secure s = (ok, s') \<Longrightarrow>
      ok \<and> failure_counter (rec s' uid sid) = 0 \<and> last_checked_timestamp (rec s' uid sid) = 0 \<and>
      GetMillisecondsSinceBoot e s' = GetMillisecondsSinceBoot e s"
    and get_frame: "GetFailureRecord e uid sid secure s = (found, s') \<Longrightarrow> uid' \<noteq> uid \<Longrightarrow> rec s' uid' = rec s uid'"
    and write_frame: "WriteFailureRecord e uid r secure s = (ok, s') \<Longrightarrow> uid' \<noteq> uid \<Longrightarrow> rec s' uid' = rec s uid'"
    and clear_frame: "ClearFailureRecord e uid sid secure s = (ok, s') \<Longrightarrow> uid' \<noteq> uid \<Longrightarrow> rec s' uid' = rec s uid'"
    and rec_sid: "secure_user_id (rec s uid sid) = sid"
    and verify_law: "gk_DoVerify e h pw s = Some (b, s') \<Longrightarrow>
      rec s' = rec s \<and> GetMillisecondsSinceBoot e s' = GetMillisecondsSinceBoot e s"
    and random_law: "GetRandom e n s = (bytes, s') \<Longrightarrow>
      rec s' = rec s \<and> GetMillisecondsSinceBoot e s' = GetMillisecondsSinceBoot e s"
    and key_law: "GetPasswordKey e s = (key, s') \<Longrightarrow>
      rec s' = rec s \<and> GetMillisecondsSinceBoot e s' = GetMillisecondsSinceBoot e s"
    and tick_law: "tick s s' \<Longrightarrow> rec s' = rec s \<and>
      GetMillisecondsSinceBoot e s \<le> GetMillisecondsSinceBoot e s' \<and> unat (GetMillisecondsSinceBoot e s') < 2 ^ 63"
begin

text \<open>The three outcomes of \<open>throttle\<close>: inside the window, after the clock was reset, and a check.\<close>

lemma rec_sid_update [simp]: "(rec s uid sid)\<lparr>secure_user_id := sid\<rparr> = rec s uid sid"
  using rec_sid [of s uid sid] by (cases "rec s uid sid") simp

lemma get_record:
  obtains s' where "GetFailureRecord e uid sid secure s = (Some (rec s uid sid), s')" "rec s' uid sid = rec s uid sid"
    "GetMillisecondsSinceBoot e s' = GetMillisecondsSinceBoot e s"
  using get_law by (metis surj_pair)

lemma throttle_window:
  assumes "ComputeRetryTimeout (rec s uid sid) > 0" "last_checked_timestamp (rec s uid sid) < t"
    "t < last_checked_timestamp (rec s uid sid) + ucast (ComputeRetryTimeout (rec s uid sid))"
  shows "\<exists>s'. throttle e uid sid t secure response s =
      (Inl (SetRetryTimeout (ucast (ucast (ComputeRetryTimeout (rec s uid sid)) -
        (t - last_checked_timestamp (rec s uid sid)))) response), s') \<and>
    rec s' uid sid = rec s uid sid \<and> GetMillisecondsSinceBoot e s' = GetMillisecondsSinceBoot e s"
proof -
  obtain r s' where g: "GetFailureRecord e uid sid secure s = (r, s')" by fastforce
  show ?thesis using get_law [OF g] g assms by (simp add: throttle_def ThrottleRequest_def Let_def)
qed

lemma throttle_refused:
  assumes "throttle e uid sid t secure response s = (Inl response', s')"
  shows "(rec s' uid sid = rec s uid sid \<or>
      0 < ComputeRetryTimeout (rec s uid sid) \<and> t \<le> last_checked_timestamp (rec s uid sid) \<and>
      rec s' uid sid = (rec s uid sid)\<lparr>last_checked_timestamp := t\<rparr>) \<and>
    GetMillisecondsSinceBoot e s' = GetMillisecondsSinceBoot e s"
proof -
  let ?r = "rec s uid sid"
  obtain s1 where g: "GetFailureRecord e uid sid secure s = (Some ?r, s1)" and get: "rec s1 uid sid = ?r"
    "GetMillisecondsSinceBoot e s1 = GetMillisecondsSinceBoot e s" by (rule get_record)
  obtain ok1 s2 where w1: "WriteFailureRecord e uid (?r\<lparr>last_checked_timestamp := t\<rparr>) secure s1 = (ok1, s2)" by fastforce
  obtain ok3 s3 where w2: "WriteFailureRecord e uid (?r\<lparr>failure_counter := failure_counter ?r + 1,
      last_checked_timestamp := t\<rparr>) secure s1 = (ok3, s3)" by fastforce
  note laws = get write_law [OF w1] write_law [OF w2]
  from assms show ?thesis
    using laws by (auto simp: g w1 w2 rec_sid throttle_def ThrottleRequest_def IncrementFailureRecord_def Let_def split: if_splits)
qed

lemma throttle_checked:
  assumes "throttle e uid sid t secure response s = (Inr timeout, s')"
  shows "(ComputeRetryTimeout (rec s uid sid) = 0 \<or> last_checked_timestamp (rec s uid sid) < t \<and>
      last_checked_timestamp (rec s uid sid) + ucast (ComputeRetryTimeout (rec s uid sid)) \<le> t) \<and>
    rec s' uid sid = (rec s uid sid)\<lparr>failure_counter := failure_counter (rec s uid sid) + 1,
      last_checked_timestamp := t\<rparr> \<and> timeout = ComputeRetryTimeout (rec s' uid sid) \<and>
    GetMillisecondsSinceBoot e s' = GetMillisecondsSinceBoot e s"
proof -
  let ?r = "rec s uid sid"
  obtain s1 where g: "GetFailureRecord e uid sid secure s = (Some ?r, s1)" and get: "rec s1 uid sid = ?r"
    "GetMillisecondsSinceBoot e s1 = GetMillisecondsSinceBoot e s" by (rule get_record)
  obtain ok1 s2 where w1: "WriteFailureRecord e uid (?r\<lparr>last_checked_timestamp := t\<rparr>) secure s1 = (ok1, s2)" by fastforce
  obtain ok3 s3 where w2: "WriteFailureRecord e uid (?r\<lparr>failure_counter := failure_counter ?r + 1,
      last_checked_timestamp := t\<rparr>) secure s1 = (ok3, s3)" by fastforce
  note laws = get write_law [OF w1] write_law [OF w2]
  from assms show ?thesis
    using laws by (auto simp: g w1 w2 rec_sid throttle_def ThrottleRequest_def IncrementFailureRecord_def Let_def
        not_less word_gt_0 split: if_splits)
qed

text \<open>A run of guesses keeps the counter of the record equal to the number of guesses.\<close>

lemma guess_inv_refused:
  assumes inv: "guess_inv t0 (unat (GetMillisecondsSinceBoot e s)) (rec s uid sid) n"
    and t: "handle_throttle e uid handle response s = Some (Inl response', s')" and "handle_user_id handle = Some sid"
  shows "guess_inv t0 (unat (GetMillisecondsSinceBoot e s')) (rec s' uid sid) n"
proof -
  obtain secure where "throttle e uid sid (GetMillisecondsSinceBoot e s) secure response s = (Inl response', s')"
    using assms by (auto simp: handle_throttle_def split: Option.bind_splits)
  note refused = throttle_refused [OF this]
  have "(rec s uid sid)\<lparr>last_checked_timestamp := GetMillisecondsSinceBoot e s\<rparr> = rec s uid sid"
    if "GetMillisecondsSinceBoot e s \<le> last_checked_timestamp (rec s uid sid)"
    using that inv by (cases "rec s uid sid") (auto simp: guess_inv_def simp flip: word_le_nat_alt)
  then show ?thesis using refused inv by auto
qed

lemma guess_inv_checked:
  assumes inv: "guess_inv t0 (unat (GetMillisecondsSinceBoot e s)) (rec s uid sid) n"
    and t: "handle_throttle e uid handle response s = Some (Inr timeout, s')" and "handle_user_id handle = Some sid"
    and n: "Suc n < 2 ^ 32"
  shows "guess_inv t0 (unat (GetMillisecondsSinceBoot e s')) (rec s' uid sid) (Suc n)"
proof -
  let ?r = "rec s uid sid" and ?t = "GetMillisecondsSinceBoot e s"
  obtain secure where "throttle e uid sid (GetMillisecondsSinceBoot e s) secure response s = (Inr timeout, s')"
    using assms by (auto simp: handle_throttle_def split: Option.bind_splits)
  note checked = throttle_checked [OF this]
  have count: "unat (failure_counter ?r + 1) = Suc n"
    using inv n by (simp add: guess_inv_def unat_word_ariths)
  have timeout: "unat (ComputeRetryTimeout ?r) = timeout_ms n"
    using inv by (simp add: guess_inv_def ComputeRetryTimeout_unat)
  have "unat (last_checked_timestamp ?r + ucast (ComputeRetryTimeout ?r)) =
      unat (last_checked_timestamp ?r) + timeout_ms n"
    using inv timeout timeout_ms_le [of n]
    by (subst unat_word_ariths) (simp add: guess_inv_def unsigned_ucast_eq take_bit_nat_eq_self)
  then have "unat (last_checked_timestamp ?r) + timeout_ms n \<le> unat ?t"
    using checked inv timeout by (auto simp: word_le_nat_alt guess_inv_def)
  moreover have "timeout_ms 0 = 0" by (simp add: timeout_ms_def)
  ultimately show ?thesis using checked inv count by (auto simp: guess_inv_def)
qed

text \<open>The end of an enrolment clears the record, and leaves those of other users alone.\<close>

lemma create_law:
  assumes "CreatePasswordHandle e salt sid flags version password len s = Some (created, s')"
  shows "rec s' = rec s \<and> GetMillisecondsSinceBoot e s' = GetMillisecondsSinceBoot e s"
proof -
  obtain key s1 where k: "GetPasswordKey e s = (key, s1)" by fastforce
  then have "s' = s1" using assms by (auto simp: CreatePasswordHandle_def Let_def split: Option.bind_splits if_splits option.splits)
  then show ?thesis using key_law [OF k] by simp
qed

lemma Enroll_finish_clears:
  assumes "Enroll_finish e request password sid response s = Some (response', s')"
  shows "failure_counter (rec s' (gk_user_id request) sid) = 0 \<and> last_checked_timestamp (rec s' (gk_user_id request) sid) = 0 \<and>
    (\<forall>uid. uid \<noteq> gk_user_id request \<longrightarrow> rec s' uid = rec s uid) \<and> GetMillisecondsSinceBoot e s' = GetMillisecondsSinceBoot e s"
proof -
  obtain ok s1 where c: "ClearFailureRecord e (gk_user_id request) sid True s = (ok, s1)" by fastforce
  obtain salt s2 where r: "GetRandom e 8 s1 = (salt, s2)" by fastforce
  note c' = clear_law [OF c] clear_frame [OF c] and r' = random_law [OF r]
  obtain created where "CreatePasswordHandle e (le_word salt) sid HANDLE_FLAG_THROTTLE_SECURE HANDLE_VERSION password
      (sb_length (eq_provided_password request)) s2 = Some (created, s')"
    using assms c r c' by (auto simp: Enroll_finish_def Let_def split: Option.bind_splits option.splits)
  then show ?thesis using c' r' create_law by simp
qed

text \<open>Requests for other users.\<close>

lemma throttle_other:
  assumes "throttle e uid' sid t secure response s = (res, s')" "uid \<noteq> uid'"
  shows "rec s' uid = rec s uid \<and> GetMillisecondsSinceBoot e s' = GetMillisecondsSinceBoot e s"
proof -
  let ?r = "rec s uid' sid"
  obtain s1 where g: "GetFailureRecord e uid' sid secure s = (Some ?r, s1)" using get_record by metis
  obtain ok1 s2 where w1: "WriteFailureRecord e uid' (?r\<lparr>last_checked_timestamp := t\<rparr>) secure s1 = (ok1, s2)" by fastforce
  obtain ok3 s3 where w2: "WriteFailureRecord e uid' (?r\<lparr>failure_counter := failure_counter ?r + 1,
      last_checked_timestamp := t\<rparr>) secure s1 = (ok3, s3)" by fastforce
  note laws = get_law [OF g] get_frame [OF g assms(2)] write_law [OF w1] write_law [OF w2]
    write_frame [OF w1 assms(2)] write_frame [OF w2 assms(2)]
  from assms(1) show ?thesis
    using laws by (auto simp: g w1 w2 rec_sid throttle_def ThrottleRequest_def IncrementFailureRecord_def Let_def split: if_splits)
qed

lemma throttled_other:
  assumes "(if throttled then throttle e uid' sid t secure response s else (Inr 0, s)) = (res, s1)" "uid' \<noteq> uid"
  shows "rec s1 uid = rec s uid \<and> GetMillisecondsSinceBoot e s1 = GetMillisecondsSinceBoot e s"
proof (cases throttled)
  case True
  then show ?thesis using throttle_other [of uid' sid t secure response s res s1 uid] assms by simp
qed (use assms in simp)

lemma Verify_other:
  assumes "Verify e request response s = Some (response', s')" "gk_user_id request \<noteq> uid"
  shows "rec s' uid = rec s uid \<and> GetMillisecondsSinceBoot e s' = GetMillisecondsSinceBoot e s"
proof -
  have clear: "rec (snd (ClearFailureRecord e (gk_user_id request) sid secure s1)) uid = rec s1 uid \<and>
      GetMillisecondsSinceBoot e (snd (ClearFailureRecord e (gk_user_id request) sid secure s1)) = GetMillisecondsSinceBoot e s1" for sid secure s1
    using clear_law clear_frame assms(2) by (metis prod.collapse)
  from assms(1) show ?thesis
  proof (cases rule: Verify_cases)
    case (throttled sid secure)
    then show ?thesis using throttle_other assms(2) by metis
  next
    case (checked handle sid secure throttled timeout s1 ok s2)
    then show ?thesis using throttled_other [OF checked(3) assms(2)] verify_law [OF checked(4)] clear by auto
  qed simp
qed

lemma Enroll_other:
  assumes "Enroll e request response s = Some (response', s')" "gk_user_id request \<noteq> uid"
  shows "rec s' uid = rec s uid \<and> GetMillisecondsSinceBoot e s' = GetMillisecondsSinceBoot e s"
proof -
  have finish: "rec s' uid = rec s1 uid \<and> GetMillisecondsSinceBoot e s' = GetMillisecondsSinceBoot e s1"
    if "Enroll_finish e request password sid response s1 = Some (response', s')" for password sid s1
    using Enroll_finish_clears [OF that] assms(2) by auto
  from assms(1) show ?thesis
  proof (cases rule: Enroll_cases)
    case (fresh password r s1)
    then show ?thesis using finish random_law by metis
  next
    case (throttled sid secure)
    then show ?thesis using throttle_other assms(2) by metis
  next
    case (wrong handle sid secure throttled timeout s1)
    then show ?thesis using throttled_other [OF wrong(3) assms(2)] verify_law [OF wrong(4)] by simp
  next
    case (right handle sid secure throttled timeout s1 s2 password)
    then show ?thesis using throttled_other [OF right(3) assms(2)] verify_law [OF right(4)] finish by simp
  qed simp
qed

text \<open>What a run keeps. The record counts only up to \<open>2\<^sup>3\<^sup>2\<close> failures in a row.\<close>

definition run_inv :: "u32 \<Rightarrow> u64 \<Rightarrow> 's \<Rightarrow> nat \<times> nat \<Rightarrow> bool" where
  "run_inv uid sid s g \<longleftrightarrow> unat (GetMillisecondsSinceBoot e s) < 2 ^ 63 \<and>
     (snd g < 2 ^ 32 \<longrightarrow> guess_inv (fst g) (unat (GetMillisecondsSinceBoot e s)) (rec s uid sid) (snd g))"

lemma run_inv_refused:
  assumes "run_inv uid sid s g" "handle_throttle e uid handle response s = Some (Inl r, s')" "handle_user_id handle = Some sid"
  shows "run_inv uid sid s' (tally now (compared e uid handle pw response s) g)"
proof -
  have "compared e uid handle pw response s = None" by (simp add: compared_def assms(2))
  moreover have "GetMillisecondsSinceBoot e s' = GetMillisecondsSinceBoot e s"
    using assms(2,3) by (auto simp: handle_throttle_def dest!: throttle_refused split: Option.bind_splits)
  ultimately show ?thesis using assms(1) guess_inv_refused [OF _ assms(2,3)] by (simp add: run_inv_def)
qed

lemma run_inv_wrong:
  assumes "run_inv uid sid s g" "handle_throttle e uid handle response s = Some (Inr t, s1)" "handle_user_id handle = Some sid"
    "gk_DoVerify e handle pw s1 = Some (False, s')"
  shows "run_inv uid sid s' (tally now (compared e uid handle pw response s) g)"
proof -
  obtain t0 n where g: "g = (t0, n)" by (cases g)
  have "compared e uid handle pw response s = Some False" by (simp add: compared_def assms(2,4))
  moreover have "GetMillisecondsSinceBoot e s1 = GetMillisecondsSinceBoot e s"
    using assms(2,3) by (auto simp: handle_throttle_def dest!: throttle_checked split: Option.bind_splits)
  ultimately show ?thesis
    using assms(1) guess_inv_checked [OF _ assms(2,3)] verify_law [OF assms(4)] by (simp add: run_inv_def g)
qed

lemma run_inv_right:
  assumes "run_inv uid sid s g" "handle_throttle e uid handle response s = Some (Inr t, s1)" "handle_user_id handle = Some sid"
    "gk_DoVerify e handle pw s1 = Some (True, s2)"
    "failure_counter (rec s' uid sid) = 0" "last_checked_timestamp (rec s' uid sid) = 0"
    "GetMillisecondsSinceBoot e s' = GetMillisecondsSinceBoot e s2"
  shows "run_inv uid sid s' (tally (GetMillisecondsSinceBoot e s) (compared e uid handle pw response s) g)"
proof -
  have "compared e uid handle pw response s = Some True" by (simp add: compared_def assms(2,4))
  moreover have "GetMillisecondsSinceBoot e s1 = GetMillisecondsSinceBoot e s"
    using assms(2,3) by (auto simp: handle_throttle_def dest!: throttle_checked split: Option.bind_splits)
  ultimately show ?thesis using assms(1,5-7) verify_law [OF assms(4)] by (cases g) (simp add: run_inv_def guess_inv_def)
qed

lemma guess_run_inv:
  assumes "guess_run e tick uid handle s0 s g" "handle_version handle = Some HANDLE_VERSION"
    "handle_user_id handle = Some sid" "failure_counter (rec s0 uid sid) = 0"
    "last_checked_timestamp (rec s0 uid sid) \<le> GetMillisecondsSinceBoot e s0"
    "unat (GetMillisecondsSinceBoot e s0) < 2 ^ 63"
  shows "run_inv uid sid s g"
  using assms(1)
proof (induction rule: guess_run.induct)
  case start
  then show ?case using assms(4-6) by (simp add: run_inv_def guess_inv_def word_le_nat_alt)
next
  case (wait s g s')
  then show ?case using tick_law [of s s'] by (auto simp: run_inv_def guess_inv_def word_le_nat_alt)
next
  case (verify s g request response response' s')
  from verify(4,2,3) assms(2,3) show ?case
  proof (cases rule: Verify_outcome)
    case (right t s1 s2 secure)
    obtain ok s3 where "ClearFailureRecord e uid sid secure s2 = (ok, s3)" by fastforce
    then show ?thesis using run_inv_right [OF verify.IH right(2) assms(3) right(3), of s'] clear_law right by auto
  next
    case null
    then show ?thesis using verify.IH by simp
  next
    case (refused r)
    then show ?thesis using run_inv_refused [OF verify.IH refused(2) assms(3)] by (simp only: refused(1) if_False)
  next
    case (wrong t s1)
    then show ?thesis using run_inv_wrong [OF verify.IH wrong(2) assms(3) wrong(3)] by (simp only: wrong(1) if_False)
  qed
next
  case (enroll s g request response response' s')
  from enroll(4,2,3) assms(2,3) show ?case
  proof (cases rule: Enroll_outcome)
    case (right t s1 s2 password)
    then show ?thesis
      using run_inv_right [OF enroll.IH right(2) assms(3) right(3), of s'] Enroll_finish_clears [OF right(4)] enroll(2) by auto
  next
    case null
    then show ?thesis using enroll.IH by simp
  next
    case (refused r)
    then show ?thesis using run_inv_refused [OF enroll.IH refused(2) assms(3)] by (simp only: refused(1) if_False)
  next
    case (wrong t s1)
    then show ?thesis using run_inv_wrong [OF enroll.IH wrong(2) assms(3) wrong(3)] by (simp only: wrong(1) if_False)
  qed
next
  case (other_verify s g request response response' s')
  then show ?case using Verify_other by (simp add: run_inv_def)
next
  case (other_enroll s g request response response' s')
  then show ?case using Enroll_other by (simp add: run_inv_def)
qed

text \<open>How long \<open>n\<close> failures in a row take.\<close>

lemma guess_time:
  assumes "guess_run e tick uid handle s0 s (t, n)" "handle_version handle = Some HANDLE_VERSION"
    "handle_user_id handle = Some sid" "failure_counter (rec s0 uid sid) = 0"
    "last_checked_timestamp (rec s0 uid sid) \<le> GetMillisecondsSinceBoot e s0" "n < 2 ^ 32"
    "unat (GetMillisecondsSinceBoot e s0) < 2 ^ 63"
  shows "t + (\<Sum>k<n. timeout_ms k) \<le> unat (GetMillisecondsSinceBoot e s)"
  using guess_run_inv [OF assms(1-5,7)] assms(6) by (auto simp: run_inv_def guess_inv_def)

end

section \<open>The records of the software gatekeeper\<close>

text \<open>
  \<open>SoftGateKeeper\<close> keeps one record per user; for another secure id it behaves as a fresh one.
\<close>

definition soft_record :: "soft_state \<Rightarrow> u32 \<Rightarrow> u64 \<Rightarrow> failure_record_t" where
  "soft_record s uid sid =
     (if secure_user_id (stored_record uid s) = sid then stored_record uid s
      else \<lparr>secure_user_id = sid, last_checked_timestamp = 0, failure_counter = 0\<rparr>)"

definition soft_tick :: "soft_state \<Rightarrow> soft_state \<Rightarrow> bool" where
  "soft_tick s s' \<longleftrightarrow> s' = s\<lparr>boot_time := boot_time s'\<rparr> \<and>
     soft_GetMillisecondsSinceBoot s \<le> soft_GetMillisecondsSinceBoot s' \<and>
     unat (soft_GetMillisecondsSinceBoot s') < 2 ^ 63"

lemma soft_millis_update [simp]:
  "soft_GetMillisecondsSinceBoot (s\<lparr>failure_map := m\<rparr>) = soft_GetMillisecondsSinceBoot s"
  "soft_GetMillisecondsSinceBoot (s\<lparr>fast_hash_map := f\<rparr>) = soft_GetMillisecondsSinceBoot s"
  "soft_GetMillisecondsSinceBoot (s\<lparr>sg_draws := d\<rparr>) = soft_GetMillisecondsSinceBoot s"
  by (simp_all add: soft_GetMillisecondsSinceBoot_def)

lemma DoVerify_soft:
  assumes "DoVerify (soft_platform lib) h pw s = Some (b, s')"
  shows "s' = s"
  using assms by (auto simp: DoVerify_def CreatePasswordHandle_def soft_platform_def Let_def
      split: option.splits if_splits Option.bind_splits)

lemma soft_DoVerify_state:
  assumes "soft_DoVerify lib h pw s = Some (b, s')"
  shows "failure_map s' = failure_map s \<and> boot_time s' = boot_time s \<and> sg_key s' = sg_key s"
  using assms by (auto simp: soft_DoVerify_def soft_GetRandom_def dest!: DoVerify_soft
      split: option.splits if_splits Option.bind_splits prod.splits)

lemma soft_record_cong: "failure_map s' = failure_map s \<Longrightarrow> soft_record s' = soft_record s"
  by (auto simp: soft_record_def stored_record_def fun_eq_iff)

lemma soft_record_update:
  "soft_record (s\<lparr>failure_map := (failure_map s)(uid \<mapsto> r)\<rparr>) uid sid =
     (if secure_user_id r = sid then r else \<lparr>secure_user_id = sid, last_checked_timestamp = 0, failure_counter = 0\<rparr>)"
  by (simp add: soft_record_def stored_record_def)

lemma soft_record_other:
  "uid' \<noteq> uid \<Longrightarrow> soft_record (s\<lparr>failure_map := (failure_map s)(uid \<mapsto> r)\<rparr>) uid' = soft_record s uid'"
  by (simp add: soft_record_def stored_record_def fun_eq_iff)

interpretation soft: gk_store "soft_class lib" soft_record soft_tick for lib
proof (unfold_locales, goal_cases)
  case (1 uid sid secure s found s')
  then show ?case by (auto simp: soft_GetFailureRecord_def Let_def soft_record_update soft_record_def [of s])
next
  case (2 uid r secure s ok s')
  then show ?case by (auto simp: soft_WriteFailureRecord_def soft_record_update)
next
  case (3 uid sid secure s ok s')
  then show ?case by (auto simp: soft_ClearFailureRecord_def soft_record_update)
next
  case (4 uid sid secure s found s' uid')
  then show ?case by (auto simp: soft_GetFailureRecord_def Let_def soft_record_other)
next
  case (5 uid r secure s ok s' uid')
  then show ?case by (auto simp: soft_WriteFailureRecord_def soft_record_other)
next
  case (6 uid sid secure s ok s' uid')
  then show ?case by (auto simp: soft_ClearFailureRecord_def soft_record_other)
next
  case (7 s uid sid)
  then show ?case by (simp add: soft_record_def)
next
  case (8 h pw s b s')
  then show ?case by (auto dest!: soft_DoVerify_state intro: soft_record_cong simp: soft_GetMillisecondsSinceBoot_def)
next
  case (9 n s bytes s')
  then show ?case by (auto simp: soft_GetRandom_def soft_GetMillisecondsSinceBoot_def intro: soft_record_cong)
next
  case (10 s key s')
  then show ?case by simp
next
  case (11 s s')
  then have "failure_map s' = failure_map s" unfolding soft_tick_def by (metis soft_state.select_convs(1) soft_state.surjective soft_state.update_convs(5))
  with 11 show ?case by (auto intro: soft_record_cong simp: soft_tick_def)
qed

end
