(* ===== verification/Gk_Verify.thy ===== *)
theory Gk_Verify
  imports Gk_Throttle
begin

text \<open>
  Which passwords the software gatekeeper accepts. \<open>genuine\<close> says that a handle carries the scrypt
  signature of a password; the slow check decides exactly this. The fast check accepts a password whose
  hash is stored for the user, and the invariant \<open>soft_from\<close> of the runs of the device says where the
  stored hashes come from. \<open>lib_ok\<close> is what is relied on of the cryptographic library: scrypt fills the
  buffer it is given, and the token structure is packed.
\<close>

section \<open>Handles\<close>

definition lib_ok :: "soft_lib \<Rightarrow> bool" where
  "lib_ok lib \<longleftrightarrow> (\<forall>p salt n. length (crypto_scrypt lib p salt n) = n) \<and> hw_ok (lib_layout lib)"

lemma read_at_skip:
  "length xs \<le> off \<Longrightarrow> read_at off n (xs @ ys) = read_at (off - length xs) n ys"
  by (auto simp: read_at_def)

lemma read_at_prefix: "length xs = n \<Longrightarrow> read_at 0 n (xs @ ys) = Some xs"
  by (simp add: read_at_def)

lemma handle_fields [simp]:
  "handle_version (handle_bytes h) = Some (ph_version h)"
  "handle_user_id (handle_bytes h) = Some (ph_user_id h)"
  "handle_flags (handle_bytes h) = Some (ph_flags h)"
  "handle_salt (handle_bytes h) = Some (ph_salt h)"
  "length (ph_signature h) = 32 \<Longrightarrow> handle_signature (handle_bytes h) = Some (ph_signature h)"
  by (simp_all add: handle_version_def handle_user_id_def handle_flags_def handle_salt_def handle_signature_def
      handle_bytes_def handle_metadata_def read_at_def)

lemma memcmp_s_iff: "length a = n \<Longrightarrow> length b = n \<Longrightarrow> memcmp_s a b n = 0 \<longleftrightarrow> a = b"
  using xor_loop_zero [of a b 0] by (simp add: memcmp_s_def)

section \<open>The slow check\<close>

definition genuine :: "soft_lib \<Rightarrow> byte list \<Rightarrow> byte list \<Rightarrow> bool" where
  "genuine lib h data \<longleftrightarrow>
     (case (handle_version h, handle_user_id h, handle_flags h, handle_salt h, handle_signature h) of
        (Some v, Some u, Some f, Some salt, Some sig) \<Rightarrow>
          crypto_scrypt lib (handle_metadata v u f @ data) (le_bytes 8 salt) 32 = sig
      | _ \<Rightarrow> False)"

text \<open>A handle as long as the structure has all its members.\<close>

lemma handle_fields_long:
  assumes "57 \<le> length h"
  obtains v u f salt sig where "handle_version h = Some v" "handle_user_id h = Some u" "handle_flags h = Some f"
    "handle_salt h = Some salt" "handle_signature h = Some sig" "length sig = 32"
  using assms by (simp add: handle_version_def handle_user_id_def handle_flags_def handle_salt_def
      handle_signature_def read_at_def)

lemma handle_signature_long: "handle_signature h = Some sig \<Longrightarrow> 57 \<le> length h \<and> length sig = 32"
  by (auto simp: handle_signature_def read_at_def split: if_splits)

lemma CreatePasswordHandle_key:
  assumes "unat len \<le> length pw" "unat len + 17 < 2 ^ 32" "GetPasswordKey e s = (Some k, s')" "k \<noteq> []"
  shows "CreatePasswordHandle e salt u f v pw len s =
      Some (Some (handle_bytes \<lparr>ph_version = v, ph_user_id = u, ph_flags = f, ph_salt = salt,
        ph_signature = ComputePasswordSignature e 32 k (handle_metadata v u f @ take (unat len) pw) salt,
        ph_hardware_backed = IsHardwareBacked e\<rparr>), s')"
proof -
  have "unat (len + 17) = unat len + 17" using assms(2) by (simp add: unat_sum)
  then show ?thesis using assms by (simp add: CreatePasswordHandle_def read_at_def handle_metadata_def Let_def)
qed

lemma CreatePasswordHandle_soft:
  assumes "unat len \<le> length pw" "unat len + 17 < 2 ^ 32" "sg_key s \<noteq> []"
  shows "CreatePasswordHandle (soft_platform lib) salt u f v pw len s =
      Some (Some (handle_bytes \<lparr>ph_version = v, ph_user_id = u, ph_flags = f, ph_salt = salt,
        ph_signature = crypto_scrypt lib (handle_metadata v u f @ take (unat len) pw) (le_bytes 8 salt) 32,
        ph_hardware_backed = False\<rparr>), s)"
  using CreatePasswordHandle_key [OF assms(1,2) _ assms(3), of "soft_platform lib" s]
  by (simp add: soft_platform_def)

lemma DoVerify_genuine:
  assumes "lib_ok lib" "sg_key s \<noteq> []" "DoVerify (soft_platform lib) h pw s = Some (True, s')"
  shows "\<exists>data. sized_data pw = Some data \<and> genuine lib h data"
proof -
  obtain block where b: "sb_buffer pw = Some block"
    using assms(3) by (auto simp: DoVerify_def split: option.splits)
  obtain v u f salt where h: "handle_version h = Some v" "handle_user_id h = Some u" "handle_flags h = Some f"
      "handle_salt h = Some salt" and len: "unat (sb_length pw) \<le> length block" "unat (sb_length pw) + 17 < 2 ^ 32"
  proof -
    have ov: "unat n < 4294967279" if "17 + unat n \<le> unat (n + 17 :: u32)" for n
      using that unsigned_less [of n, where 'a = nat] by (simp add: unat_word_ariths not_less flip: not_le)
    show ?thesis
      using assms(3) b
      by (auto simp: DoVerify_def CreatePasswordHandle_def read_at_def Let_def handle_metadata_def not_less intro!: that ov
          split: Option.bind_splits if_splits)
  qed
  let ?sig = "crypto_scrypt lib (handle_metadata v u f @ take (unat (sb_length pw)) block) (le_bytes 8 salt) 32"
  have "length ?sig = 32" using assms(1) by (simp add: lib_ok_def)
  then have "genuine lib h (take (unat (sb_length pw)) block)"
    using assms(3) b h CreatePasswordHandle_soft [OF len assms(2)] handle_signature_long [of h]
    by (auto simp: DoVerify_def genuine_def memcmp_s_iff split: Option.bind_splits)
  then show ?thesis using b len by (simp add: sized_data_def read_at_def)
qed

lemma DoVerify_accepts:
  assumes "lib_ok lib" "sg_key s \<noteq> []" "genuine lib h data" "sized_data pw = Some data"
    "sb_buffer pw \<noteq> None" "length data + 17 < 2 ^ 32"
  shows "DoVerify (soft_platform lib) h pw s = Some (True, s)"
proof -
  obtain block where b: "sb_buffer pw = Some block" using assms(5) by auto
  then have d: "unat (sb_length pw) \<le> length block" "data = take (unat (sb_length pw)) block"
    using assms(4) by (auto simp: sized_data_def read_at_def split: if_splits)
  obtain v u f salt sig where h: "handle_version h = Some v" "handle_user_id h = Some u" "handle_flags h = Some f"
      "handle_salt h = Some salt" "handle_signature h = Some sig"
      "crypto_scrypt lib (handle_metadata v u f @ data) (le_bytes 8 salt) 32 = sig"
    using assms(3) by (auto simp: genuine_def split: option.splits)
  have "length sig = 32" using h(6) assms(1) by (auto simp: lib_ok_def)
  moreover have "unat (sb_length pw) + 17 < 2 ^ 32" using assms(6) d by simp
  ultimately show ?thesis
    using h b d CreatePasswordHandle_soft [OF d(1) _ assms(2)] by (simp add: DoVerify_def memcmp_s_iff)
qed

section \<open>The fast check\<close>

text \<open>
  \<open>A\<close> are handles with passwords. A stored hash is that of a password in \<open>A\<close> which matched its handle, of the
  secure id it is stored for, with a salt that was drawn.
\<close>

definition fast_from :: "soft_lib \<Rightarrow> (byte list \<times> byte list) set \<Rightarrow> (u64 \<rightharpoonup> fast_hash_t) \<Rightarrow> bool" where
  "fast_from lib A m \<longleftrightarrow> (\<forall>u fh. m u = Some fh \<longrightarrow> (\<exists>(h, data) \<in> A. handle_user_id h = Some u \<and> genuine lib h data \<and>
     (\<exists>k. fh_salt fh = le_word (lib_rand lib k 8)) \<and> fh_digest fh = lib_SHA256 lib (le_bytes 8 (fh_salt fh) @ data)))"

definition soft_from :: "soft_lib \<Rightarrow> (byte list \<times> byte list) set \<Rightarrow> soft_state \<Rightarrow> bool" where
  "soft_from lib A s \<longleftrightarrow> sg_key s = replicate SIGNATURE_LENGTH_BYTES 0 \<and> fast_from lib A (fast_hash_map s)"

abbreviation soft_inv :: "soft_lib \<Rightarrow> soft_state \<Rightarrow> bool" where
  "soft_inv lib s \<equiv> soft_from lib UNIV s"

text \<open>
  What an accepted password is for a handle after the passwords in \<open>A\<close> were accepted for their handles: it
  matches the handle, or it has the same salted hash as one of them that matched a handle of the same secure id.
\<close>

definition acceptable :: "soft_lib \<Rightarrow> (byte list \<times> byte list) set \<Rightarrow> byte list \<Rightarrow> byte list \<Rightarrow> bool" where
  "acceptable lib A h data \<longleftrightarrow> genuine lib h data \<or>
     (\<exists>(h', data') \<in> A. handle_user_id h' = handle_user_id h \<and> genuine lib h' data' \<and>
        (\<exists>k. lib_SHA256 lib (le_bytes 8 (le_word (lib_rand lib k 8) :: u64) @ data) =
          lib_SHA256 lib (le_bytes 8 (le_word (lib_rand lib k 8) :: u64) @ data')))"

lemma soft_inv_key: "soft_from lib A s \<Longrightarrow> sg_key s \<noteq> []"
  by (simp add: soft_from_def SIGNATURE_LENGTH_BYTES_def)

lemma soft_inv_update [simp]:
  "soft_from lib A (s\<lparr>failure_map := m\<rparr>) = soft_from lib A s"
  "soft_from lib A (s\<lparr>sg_draws := d\<rparr>) = soft_from lib A s"
  "soft_from lib A (s\<lparr>boot_time := t\<rparr>) = soft_from lib A s"
  by (simp_all add: soft_from_def)

lemma soft_from_mono: "soft_from lib A s \<Longrightarrow> A \<subseteq> B \<Longrightarrow> soft_from lib B s"
  unfolding soft_from_def fast_from_def by blast

lemma soft_DoVerify_sound:
  assumes "lib_ok lib" "soft_from lib A s" "soft_DoVerify lib h pw s = Some (b, s')"
  shows "if b then \<exists>data. sized_data pw = Some data \<and> acceptable lib A h data \<and> soft_from lib (insert (h, data) A) s'
    else soft_from lib A s'"
proof (cases "\<exists>u fh. handle_user_id h = Some u \<and> fast_hash_map s u = Some fh \<and> VerifyFast lib fh pw = Some True")
  case True
  then obtain u fh where u: "handle_user_id h = Some u" "fast_hash_map s u = Some fh" "VerifyFast lib fh pw = Some True"
    by blast
  then have r: "b" "s' = s" using assms(3) by (auto simp: soft_DoVerify_def)
  obtain data where d: "sized_data pw = Some data" "lib_SHA256 lib (le_bytes 8 (fh_salt fh) @ data) = fh_digest fh"
    using u(3) by (auto simp: VerifyFast_def ComputeFastHash_def split: Option.bind_splits)
  obtain h' data' k where "(h', data') \<in> A" "handle_user_id h' = Some u" "genuine lib h' data'"
      "fh_salt fh = le_word (lib_rand lib k 8)" "fh_digest fh = lib_SHA256 lib (le_bytes 8 (fh_salt fh) @ data')"
    using assms(2) u(2) unfolding soft_from_def fast_from_def by blast
  then have "acceptable lib A h data" using u(1) d(2) unfolding acceptable_def by (intro disjI2 bexI [of _ "(h', data')"]) auto
  then show ?thesis using r d(1) soft_from_mono [OF assms(2), of "insert (h, data) A"] by auto
next
  case False
  obtain u where u: "handle_user_id h = Some u"
    using assms(3) by (auto simp: soft_DoVerify_def split: Option.bind_splits)
  obtain ok s1 where v: "DoVerify (soft_platform lib) h pw s = Some (ok, s1)"
    using assms(3) False u by (auto simp: soft_DoVerify_def split: Option.bind_splits option.splits)
  then have s1: "s1 = s" by (rule DoVerify_soft)
  show ?thesis
  proof (cases ok)
    case True
    with DoVerify_genuine [OF assms(1) soft_inv_key [OF assms(2)], of h pw s1] v
    obtain data where d: "sized_data pw = Some data" "genuine lib h data" by auto
    let ?salt = "le_word (lib_rand lib (sg_draws s) 8) :: u64"
    have b: "b" "s' = s\<lparr>sg_draws := sg_draws s + 1, fast_hash_map := (fast_hash_map s)(u \<mapsto>
        \<lparr>fh_salt = ?salt, fh_digest = lib_SHA256 lib (le_bytes 8 ?salt @ data)\<rparr>)\<rparr>"
      using assms(3) False u v s1 True d(1)
      by (auto simp: soft_DoVerify_def soft_GetRandom_def ComputeFastHash_def split: Option.bind_splits option.splits)
    have "soft_from lib (insert (h, data) A) s'"
      unfolding b(2) using soft_from_mono [OF assms(2), of "insert (h, data) A"] u d(2) by (auto simp: soft_from_def fast_from_def)
    then show ?thesis using b(1) d by (auto simp: acceptable_def)
  next
    case False': False
    then have "\<not> b \<and> s' = s"
      using assms(3) False u v s1 by (auto simp: soft_DoVerify_def split: Option.bind_splits option.splits)
    then show ?thesis using assms(2) by simp
  qed
qed

lemma soft_DoVerify_inv: "lib_ok lib \<Longrightarrow> soft_inv lib s \<Longrightarrow> soft_DoVerify lib h pw s = Some (b, s') \<Longrightarrow> soft_inv lib s'"
  using soft_DoVerify_sound [of lib UNIV s h pw b s'] by (auto split: if_splits)

section \<open>The requests\<close>

lemma throttle_soft_inv:
  assumes "throttle (soft_class lib) uid sid t secure response s = (r, s')" "soft_from lib A s"
  shows "soft_from lib A s'"
  using assms by (auto simp: throttle_def ThrottleRequest_def IncrementFailureRecord_def soft_GetFailureRecord_def
      soft_WriteFailureRecord_def Let_def split: if_splits)

lemma throttle_error:
  assumes "throttle e uid sid t secure response s = (Inl response', s')"
  shows "error response' \<noteq> ERROR_NONE"
  using assms by (auto simp: throttle_def ThrottleRequest_def IncrementFailureRecord_def SetRetryTimeout_def Let_def
      split: if_splits option.splits prod.splits bool.splits)

lemma throttled_soft_inv:
  assumes "(if throttled then throttle (soft_class lib) uid sid t secure response s else (Inr 0, s)) = (r, s')" "soft_from lib A s"
  shows "soft_from lib A s'"
  using assms throttle_soft_inv by (cases throttled) auto

lemma Verify_sound:
  assumes "lib_ok lib" "soft_from lib A s" "Verify (soft_class lib) request response s = Some (response', s')"
    "error response = ERROR_NONE"
  shows "if error response' = ERROR_NONE then \<exists>handle data. sb_buffer (vq_password_handle request) = Some handle \<and>
      sb_buffer (vq_provided_password request) \<noteq> None \<and> sized_data (vq_provided_password request) = Some data \<and>
      acceptable lib A handle data \<and> soft_from lib (insert (handle, data) A) s'
    else soft_from lib A s'"
proof -
  have ne: "sb_buffer (vq_provided_password request) \<noteq> None" if "error response' = ERROR_NONE"
  proof
    assume "sb_buffer (vq_provided_password request) = None"
    then have "response' = response\<lparr>error := ERROR_INVALID\<rparr>" using assms(3) by (simp add: Verify_def)
    then show False using that by simp
  qed
  from assms(3) show ?thesis
  proof (cases rule: Verify_cases)
    case invalid
    then show ?thesis using assms(2) by simp
  next
    case (throttled sid secure)
    then show ?thesis using throttle_soft_inv [OF throttled assms(2)] throttle_error [OF throttled] by simp
  next
    case (checked handle sid secure throttled timeout s1 ok s2)
    have "gk_DoVerify (soft_class lib) handle (vq_provided_password request) s1 = Some (ok, s2)" by (rule checked(4))
    with soft_DoVerify_sound [OF assms(1) throttled_soft_inv [OF checked(3) assms(2)], of handle "vq_provided_password request" ok s2]
    have "if ok then \<exists>data. sized_data (vq_provided_password request) = Some data \<and> acceptable lib A handle data \<and>
        soft_from lib (insert (handle, data) A) s2 else soft_from lib A s2" by simp
    then show ?thesis using checked(1,5,6) assms(4) ne by (cases ok) (auto simp: soft_ClearFailureRecord_def)
  qed
qed

lemma Enroll_finish_inv:
  assumes "Enroll_finish (soft_class lib) request pw sid response s = Some (response', s')" "soft_from lib A s"
  shows "soft_from lib A s' \<and> error response' = error response"
  using assms soft_inv_key [OF assms(2)]
  by (auto simp: Enroll_finish_def Let_def soft_ClearFailureRecord_def soft_GetRandom_def SetEnrolledPasswordHandle_def
      CreatePasswordHandle_def split: if_splits option.splits Option.bind_splits prod.splits)

lemma Enroll_sound:
  assumes "lib_ok lib" "soft_from lib A s" "Enroll (soft_class lib) request response s = Some (response', s')"
    "error response = ERROR_NONE"
  shows "soft_from lib A s' \<or> error response' = ERROR_NONE \<and> (\<exists>handle data. sb_buffer (eq_password_handle request) = Some handle \<and>
    sized_data (eq_enrolled_password request) = Some data \<and> acceptable lib A handle data \<and> soft_from lib (insert (handle, data) A) s')"
  using assms(3)
proof (cases rule: Enroll_cases)
  case invalid
  then show ?thesis using assms(2) by simp
next
  case (fresh password r s1)
  then have "soft_from lib A s1" using assms(2) by (auto simp: soft_GetRandom_def)
  then show ?thesis using Enroll_finish_inv [OF fresh(3)] by simp
next
  case (throttled sid secure)
  then show ?thesis using throttle_soft_inv [OF throttled assms(2)] by simp
next
  case (wrong handle sid secure throttled timeout s1)
  have "soft_DoVerify lib handle (eq_enrolled_password request) s1 = Some (False, s')" using wrong(4) by simp
  from soft_DoVerify_sound [OF assms(1) throttled_soft_inv [OF wrong(3) assms(2)] this] show ?thesis by simp
next
  case (right handle sid secure throttled timeout s1 s2 password)
  have "soft_DoVerify lib handle (eq_enrolled_password request) s1 = Some (True, s2)" using right(4) by simp
  from soft_DoVerify_sound [OF assms(1) throttled_soft_inv [OF right(3) assms(2)] this]
  obtain data where d: "sized_data (eq_enrolled_password request) = Some data" "acceptable lib A handle data"
    "soft_from lib (insert (handle, data) A) s2" by auto
  then show ?thesis using right(1) Enroll_finish_inv [OF right(6) d(3)] assms(4) by auto
qed

section \<open>Runs of the device\<close>

inductive soft_run :: "soft_lib \<Rightarrow> soft_state \<Rightarrow> bool" for lib where
  start: "soft_run lib (new_SoftGateKeeper t)"
| time: "soft_run lib s \<Longrightarrow> soft_run lib (s\<lparr>boot_time := t\<rparr>)"
| enroll: "soft_run lib s \<Longrightarrow> device_enroll lib garbage outputs uid handle password desired s = Some (rc, out, s') \<Longrightarrow>
    soft_run lib s'"
| verify: "soft_run lib s \<Longrightarrow> device_verify lib garbage uid challenge handle password s = Some (vrc, vout, s') \<Longrightarrow>
    soft_run lib s'"

text \<open>
  A run with its history: the handles and passwords of the requests that were answered with success, as the
  pointers and lengths of a call give them.
\<close>

definition attempt :: "byte list option \<times> u32 \<Rightarrow> byte list option \<times> u32 \<Rightarrow> (byte list \<times> byte list) list" where
  "attempt h p =
     (case (h, p) of ((Some hb, hl), (Some pb, pl)) \<Rightarrow> if hl = 0 \<or> pl = 0 then [] else [(take (unat hl) hb, take (unat pl) pb)]
      | _ \<Rightarrow> [])"

inductive soft_history :: "soft_lib \<Rightarrow> (byte list \<times> byte list) list \<Rightarrow> soft_state \<Rightarrow> bool" for lib where
  start: "soft_history lib [] (new_SoftGateKeeper t)"
| time: "soft_history lib hist s \<Longrightarrow> soft_history lib hist (s\<lparr>boot_time := t\<rparr>)"
| enroll: "soft_history lib hist s \<Longrightarrow>
    device_enroll lib garbage outputs uid handle password desired s = Some (rc, out, s') \<Longrightarrow>
    soft_history lib (hist @ (if out \<noteq> None then attempt handle password else [])) s'"
| verify: "soft_history lib hist s \<Longrightarrow>
    device_verify lib garbage uid challenge handle password s = Some (vrc, vout, s') \<Longrightarrow>
    soft_history lib (hist @ (if vout \<noteq> None then attempt handle password else [])) s'"

lemma sized_data_sized: "length bs < 2 ^ 32 \<Longrightarrow> sized_data (sized bs) = Some bs"
  by (cases "bs = []") (simp_all add: sized_data_def sized_def null_buffer_def read_at_def unat_of_nat take_bit_nat_eq_self)

lemma sb_buffer_sized: "bs \<noteq> [] \<Longrightarrow> sb_buffer (sized bs) = Some bs \<and> sb_length (sized bs) = of_nat (length bs)"
  by (simp add: sized_def)

text \<open>The bytes behind the pointers of a call.\<close>

lemma device_buffer_bytes:
  assumes "device_buffer p len = Some b" "sb_buffer b = Some x"
  shows "\<exists>bytes. p = Some bytes \<and> len \<noteq> 0 \<and> x = take (unat len) bytes"
  using assms by (auto simp: device_buffer_def read_at_def sized_def null_buffer_def split: if_splits option.splits)

lemma device_buffer_data:
  assumes "device_buffer (Some bytes) len = Some b" "sized_data b = Some data"
  shows "data = take (unat len) bytes"
proof -
  have "length (take (unat len) bytes) < 2 ^ 32" using unsigned_less [of len, where 'a = nat] by simp
  then show ?thesis using assms sized_data_sized by (auto simp: device_buffer_def read_at_def split: if_splits)
qed

lemma device_verify_from:
  assumes "lib_ok lib" "soft_from lib A s" "device_verify lib garbage uid challenge handle password s = Some (rc, out, s')"
  shows "if out = None then soft_from lib A s' else
    \<exists>h p. attempt handle password = [(h, p)] \<and> acceptable lib A h p \<and> soft_from lib (insert (h, p) A) s'"
proof -
  obtain hp hl pp pl where hp: "handle = (hp, hl)" "password = (pp, pl)" by (cases handle; cases password)
  show ?thesis
  proof (cases "hp = None \<or> pp = None")
    case True
    then show ?thesis using assms(2,3) by (auto simp: device_verify_def hp)
  next
    case False
    then obtain hb pb where b: "hp = Some hb" "pp = Some pb" by auto
    obtain h p where d: "device_buffer (Some hb) hl = Some h" "device_buffer (Some pb) pl = Some p"
      using assms(3) by (auto simp: device_verify_def hp b split: Option.bind_splits)
    let ?q = "new_VerifyRequest (snd garbage) uid challenge h p" and ?p = "new_VerifyResponse (fst garbage) (snd garbage)"
    obtain response where v: "Verify (soft_class lib) ?q ?p s = Some (response, s')" "out = None \<longleftrightarrow> error response \<noteq> ERROR_NONE"
      using assms(3) d by (auto simp: device_verify_def hp b split: Option.bind_splits if_splits)
    have q: "vq_password_handle ?q = h" "vq_provided_password ?q = p" "error ?p = ERROR_NONE"
      by (simp_all add: new_VerifyRequest_def new_VerifyResponse_def)
    note sound = Verify_sound [OF assms(1,2) v(1) q(3), unfolded q(1,2)]
    show ?thesis
    proof (cases "out = None")
      case True
      then show ?thesis using sound v(2) by simp
    next
      case some: False
      then obtain x y data where s: "sb_buffer h = Some x" "sb_buffer p = Some y" "sized_data p = Some data"
        "acceptable lib A x data" "soft_from lib (insert (x, data) A) s'" using sound v(2) by auto
      have "x = take (unat hl) hb" "hl \<noteq> 0" "pl \<noteq> 0" using device_buffer_bytes [OF d(1) s(1)] device_buffer_bytes [OF d(2) s(2)] by auto
      moreover have "data = take (unat pl) pb" by (rule device_buffer_data [OF d(2) s(3)])
      ultimately have "attempt handle password = [(x, data)]" by (simp add: attempt_def hp b)
      then show ?thesis using some s(4,5) by auto
    qed
  qed
qed

lemma device_enroll_from:
  assumes "lib_ok lib" "soft_from lib A s" "device_enroll lib garbage outputs uid handle password desired s = Some (rc, out, s')"
  shows "soft_from lib A s' \<or> out \<noteq> None \<and> (\<exists>h p. attempt handle password = [(h, p)] \<and> soft_from lib (insert (h, p) A) s')"
proof -
  obtain hp hl cp cl dp dl where hp: "handle = (hp, hl)" "password = (cp, cl)" "desired = (dp, dl)"
    by (cases handle; cases password; cases desired)
  let ?together = "\<not> (hp = None \<or> hl = 0 \<or> cp = None \<or> cl = 0)"
  show ?thesis
  proof (cases "\<not> outputs \<or> dp = None \<or> dl = 0")
    case True
    then show ?thesis using assms(2,3) by (auto simp: device_enroll_def hp)
  next
    case False
    obtain h c d where d: "(if ?together then device_buffer hp hl else Some null_buffer) = Some h"
      "(if ?together then device_buffer cp cl else Some null_buffer) = Some c" "device_buffer dp dl = Some d"
      using assms(3) False by (auto simp: device_enroll_def hp Let_def split: Option.bind_splits)
    let ?q = "new_EnrollRequest (snd garbage) uid (Some h) d (Some c)" and ?p = "new_EnrollResponse (fst garbage) (snd garbage)"
    obtain response where v: "Enroll (soft_class lib) ?q ?p s = Some (response, s')" "out = None \<longleftrightarrow> error response \<noteq> ERROR_NONE"
      using assms(3) False d unfolding device_enroll_def hp prod.case Let_def
      by (auto split: Option.bind_splits if_splits)
    have q: "eq_password_handle ?q = h" "eq_enrolled_password ?q = c" "error ?p = ERROR_NONE"
      by (simp_all add: new_EnrollRequest_def new_EnrollResponse_def)
    from Enroll_sound [OF assms(1,2) v(1) q(3), unfolded q(1,2)] consider "soft_from lib A s'"
      | x data where "out \<noteq> None" "sb_buffer h = Some x" "sized_data c = Some data" "soft_from lib (insert (x, data) A) s'"
      using v(2) by auto
    then show ?thesis
    proof cases
      case 2
      have t: "?together" using d(1) 2(2) by (auto simp: null_buffer_def split: if_splits)
      then obtain hb cb where b: "hp = Some hb" "cp = Some cb" by auto
      have "x = take (unat hl) hb" using device_buffer_bytes [of hp hl h x] d(1) 2(2) t b by auto
      moreover have "data = take (unat cl) cb" using device_buffer_data [of cb cl c data] d(2) 2(3) t b by auto
      ultimately show ?thesis using 2 t b by (simp add: attempt_def hp)
    qed simp
  qed
qed

lemma soft_history_from: "soft_history lib hist s \<Longrightarrow> lib_ok lib \<Longrightarrow> soft_from lib (set hist) s"
proof (induction rule: soft_history.induct)
  case (start t)
  then show ?case by (simp add: soft_from_def fast_from_def new_SoftGateKeeper_def)
next
  case (enroll hist s garbage outputs uid handle password desired rc out s')
  from device_enroll_from [OF enroll.prems enroll.IH [OF enroll.prems] enroll.hyps(2)] show ?case
    by (auto intro: soft_from_mono)
next
  case (verify hist s garbage uid challenge handle password vrc vout s')
  from device_verify_from [OF verify.prems verify.IH [OF verify.prems] verify.hyps(2)] show ?case
    by (cases "vout = None") auto
qed simp

lemma device_enroll_inv:
  assumes "lib_ok lib" "soft_inv lib s" "device_enroll lib garbage outputs uid handle password desired s = Some (rc, out, s')"
  shows "soft_inv lib s'"
  using device_enroll_from [OF assms] by auto

lemma device_verify_inv:
  assumes "lib_ok lib" "soft_inv lib s" "device_verify lib garbage uid challenge handle password s = Some (rc, out, s')"
  shows "soft_inv lib s'"
  using device_verify_from [OF assms] by (auto split: if_splits)

lemma soft_run_inv:
  assumes "soft_run lib s" "lib_ok lib"
  shows "soft_inv lib s"
  using assms
proof (induction rule: soft_run.induct)
  case (start t)
  then show ?case by (simp add: soft_from_def fast_from_def new_SoftGateKeeper_def)
qed (auto dest: device_enroll_inv device_verify_inv)

section \<open>The right password\<close>

lemma soft_DoVerify_accepts:
  assumes "lib_ok lib" "sg_key s \<noteq> []" "genuine lib h data" "sized_data pw = Some data"
    "sb_buffer pw \<noteq> None" "length data + 17 < 2 ^ 32"
  shows "\<exists>s'. soft_DoVerify lib h pw s = Some (True, s')"
proof -
  obtain u where u: "handle_user_id h = Some u" using assms(3) by (auto simp: genuine_def split: option.splits)
  have "VerifyFast lib fh pw \<noteq> None" for fh
    using assms(4) by (simp add: VerifyFast_def ComputeFastHash_def)
  then obtain fast where f: "(case fast_hash_map s u of None \<Rightarrow> Some False | Some fh \<Rightarrow> VerifyFast lib fh pw) = Some fast"
    by (cases "fast_hash_map s u") auto
  show ?thesis
    using u f DoVerify_accepts [OF assms] assms(4)
    by (cases fast) (simp_all add: soft_DoVerify_def soft_GetRandom_def ComputeFastHash_def)
qed

text \<open>Outside the throttle window the record is incremented and the request goes on.\<close>

definition window_open :: "failure_record_t \<Rightarrow> u64 \<Rightarrow> bool" where
  "window_open r now \<longleftrightarrow> ComputeRetryTimeout r = 0 \<or>
     last_checked_timestamp r < now \<and> last_checked_timestamp r + ucast (ComputeRetryTimeout r) \<le> now"

lemma soft_record_get:
  "soft_GetFailureRecord uid sid secure s =
     (Some (soft_record s uid sid), s\<lparr>failure_map := (failure_map s)(uid \<mapsto> soft_record s uid sid)\<rparr>)"
  by (simp add: soft_GetFailureRecord_def soft_record_def Let_def)

lemma throttle_open:
  assumes "window_open (soft_record s uid sid) now"
  shows "\<exists>timeout m. throttle (soft_class lib) uid sid now secure response s = (Inr timeout, s\<lparr>failure_map := m\<rparr>)"
  using assms by (auto simp: throttle_def ThrottleRequest_def IncrementFailureRecord_def soft_record_get
      soft_WriteFailureRecord_def Let_def window_open_def)

text \<open>
  A handle and a password that the check accepts, whatever the failure records are.
\<close>

definition checks_out :: "soft_lib \<Rightarrow> soft_state \<Rightarrow> byte list \<Rightarrow> byte list \<Rightarrow> bool" where
  "checks_out lib s h pw \<longleftrightarrow> (\<forall>m. \<exists>s2. soft_DoVerify lib h (sized pw) (s\<lparr>failure_map := m\<rparr>) = Some (True, s2))"

lemma Verify_accepts:
  assumes "checks_out lib s h pw" "handle_version h = Some HANDLE_VERSION" "handle_user_id h = Some sid"
    "handle_flags h = Some flags" "vq_provided_password request = sized pw" "pw \<noteq> []"
    "sb_buffer (vq_password_handle request) = Some h"
    "window_open (soft_record s (gk_user_id request) sid) (soft_GetMillisecondsSinceBoot s)"
  shows "\<exists>s2 s'. Verify (soft_class lib) request response s =
      Some (SetVerificationToken (sized (MintAuthToken (soft_class lib) (soft_GetMillisecondsSinceBoot s) sid 0
        (vq_challenge request) s2)) response, s') \<and> failure_counter (soft_record s' (gk_user_id request) sid) = 0"
proof -
  let ?secure = "flags AND HANDLE_FLAG_THROTTLE_SECURE \<noteq> 0"
  obtain timeout m where t: "throttle (soft_class lib) (gk_user_id request) sid (soft_GetMillisecondsSinceBoot s)
      ?secure response s = (Inr timeout, s\<lparr>failure_map := m\<rparr>)"
    using throttle_open [OF assms(8)] by blast
  obtain s2 where v: "soft_DoVerify lib h (sized pw) (s\<lparr>failure_map := m\<rparr>) = Some (True, s2)"
    using assms(1) by (auto simp: checks_out_def)
  show ?thesis
    using assms(2-7) t v
    by (auto simp: Verify_def Let_def HANDLE_VERSION_def HANDLE_VERSION_THROTTLE_def soft_ClearFailureRecord_def
        soft_record_update sb_buffer_sized)
qed

text \<open>The token that is minted, read back through its structure.\<close>

lemma minted_token:
  assumes "lib_ok lib"
  shows "hw_read (lib_layout lib) (MintAuthToken (soft_class lib) now sid aid challenge s) =
      \<lparr>tok_version = HW_AUTH_TOKEN_VERSION (lib_layout lib), tok_challenge = challenge, tok_user_id = sid,
       tok_authenticator_id = aid, tok_authenticator_type = bswap 4 (HW_AUTH_PASSWORD (lib_layout lib)),
       tok_timestamp = bswap 8 now, tok_hmac = replicate (hw_hmac_size (lib_layout lib)) 0\<rparr>"
  using assms hw_okD(2) [of "lib_layout lib"] by (simp add: lib_ok_def MintAuthToken_def Let_def)

lemma minted_length:
  assumes "lib_ok lib"
  shows "length (MintAuthToken (soft_class lib) now sid aid challenge s) = hw_sizeof (lib_layout lib)"
  using assms hw_okD(1) [of "lib_layout lib"] by (simp add: lib_ok_def MintAuthToken_def Let_def)

section \<open>Enrolment\<close>

text \<open>The end of an enrolment creates a handle of the password with the given secure id.\<close>

lemma Enroll_finish_handle:
  assumes "lib_ok lib" "soft_inv lib s" "pw \<noteq> []" "length pw + 17 < 2 ^ 32" "eq_provided_password request = sized pw"
  shows "\<exists>h s'. Enroll_finish (soft_class lib) request pw sid response s =
      Some (SetEnrolledPasswordHandle (sized h) response, s') \<and> genuine lib h pw \<and>
    handle_version h = Some HANDLE_VERSION \<and> handle_user_id h = Some sid \<and> length h = 58 \<and>
    fast_hash_map s' = fast_hash_map s \<and> sg_key s' = sg_key s \<and> boot_time s' = boot_time s \<and>
    soft_record s' (gk_user_id request) sid =
      \<lparr>secure_user_id = sid, last_checked_timestamp = 0, failure_counter = 0\<rparr>"
proof -
  let ?s = "s\<lparr>failure_map := (failure_map s)(gk_user_id request \<mapsto>
      \<lparr>secure_user_id = sid, last_checked_timestamp = 0, failure_counter = 0\<rparr>), sg_draws := sg_draws s + 1\<rparr>"
  let ?h = "\<lparr>ph_version = HANDLE_VERSION, ph_user_id = sid, ph_flags = HANDLE_FLAG_THROTTLE_SECURE,
      ph_salt = le_word (lib_rand lib (sg_draws s) 8),
      ph_signature = crypto_scrypt lib (handle_metadata HANDLE_VERSION sid HANDLE_FLAG_THROTTLE_SECURE @ pw)
        (le_bytes 8 (le_word (lib_rand lib (sg_draws s) 8) :: u64)) 32, ph_hardware_backed = False\<rparr>"
  have n: "unat (of_nat (length pw) :: u32) = length pw" using assms(4) by (simp add: unat_of_nat take_bit_nat_eq_self)
  have sig: "length (ph_signature ?h) = 32" using assms(1) by (simp add: lib_ok_def)
  have "Enroll_finish (soft_class lib) request pw sid response s =
      Some (SetEnrolledPasswordHandle (sized (handle_bytes ?h)) response, ?s)"
    using assms(3,4,5) n soft_inv_key [OF assms(2)]
    by (simp add: Enroll_finish_def Let_def soft_ClearFailureRecord_def soft_GetRandom_def sb_buffer_sized
        CreatePasswordHandle_key)
  moreover have "genuine lib (handle_bytes ?h) pw" using sig by (simp add: genuine_def)
  moreover have "length (handle_bytes ?h) = 58" using sig by (simp add: handle_bytes_def handle_metadata_def)
  ultimately show ?thesis
    by (intro exI [of _ "handle_bytes ?h"] exI [of _ ?s]) (simp add: soft_record_def stored_record_def)
qed

lemma device_buffer_length: "length b < 2 ^ 32 \<Longrightarrow> device_buffer (Some b) (of_nat (length b)) = Some (sized b)"
  by (simp add: device_buffer_def read_at_def unat_of_nat take_bit_nat_eq_self)

lemma device_verify_minted:
  assumes "lib_ok lib" "checks_out lib s h pw" "handle_version h = Some HANDLE_VERSION" "handle_user_id h = Some sid"
    "handle_flags h = Some flags" "pw \<noteq> []" "length pw < 2 ^ 32" "length h < 2 ^ 32"
    "window_open (soft_record s uid sid) (soft_GetMillisecondsSinceBoot s)"
  shows "\<exists>token s'. device_verify lib garbage uid challenge (Some h, of_nat (length h)) (Some pw, of_nat (length pw)) s =
      Some (0, Some (sized token, False), s') \<and> hw_read (lib_layout lib) token =
      \<lparr>tok_version = HW_AUTH_TOKEN_VERSION (lib_layout lib), tok_challenge = challenge, tok_user_id = sid,
       tok_authenticator_id = 0, tok_authenticator_type = bswap 4 (HW_AUTH_PASSWORD (lib_layout lib)),
       tok_timestamp = bswap 8 (soft_GetMillisecondsSinceBoot s), tok_hmac = replicate (hw_hmac_size (lib_layout lib)) 0\<rparr> \<and>
    failure_counter (soft_record s' uid sid) = 0 \<and> length token = hw_sizeof (lib_layout lib)"
proof -
  let ?q = "new_VerifyRequest (snd garbage) uid challenge (sized h) (sized pw)"
  let ?p = "new_VerifyResponse (fst garbage) (snd garbage)"
  have "h \<noteq> []" using assms(3) by (auto simp: handle_version_def read_at_def split: if_splits)
  then have q: "vq_provided_password ?q = sized pw" "sb_buffer (vq_password_handle ?q) = Some h"
      "window_open (soft_record s (gk_user_id ?q) sid) (soft_GetMillisecondsSinceBoot s)"
    using assms(6,7,9) by (simp_all add: new_VerifyRequest_def sb_buffer_sized)
  obtain s2 s' where v: "Verify (soft_class lib) ?q ?p s =
      Some (SetVerificationToken (sized (MintAuthToken (soft_class lib) (soft_GetMillisecondsSinceBoot s) sid 0
        (vq_challenge ?q) s2)) ?p, s')" "failure_counter (soft_record s' uid sid) = 0"
    using Verify_accepts [OF assms(2-5) q(1) assms(6) q(2,3), of ?p] by (auto simp: new_VerifyRequest_def)
  have "device_verify lib garbage uid challenge (Some h, of_nat (length h)) (Some pw, of_nat (length pw)) s =
      Some (0, Some (sized (MintAuthToken (soft_class lib) (soft_GetMillisecondsSinceBoot s) sid 0 challenge s2), False), s')"
    using v(1) assms(7,8) by (simp add: device_verify_def device_buffer_length SetVerificationToken_def
        new_VerifyResponse_def) (simp add: new_VerifyRequest_def)
  then show ?thesis using minted_token [OF assms(1)] minted_length [OF assms(1)] v(2) by blast
qed

lemma device_verify_checks_out:
  assumes "lib_ok lib" "checks_out lib s h pw" "handle_version h = Some HANDLE_VERSION" "handle_user_id h = Some sid"
    "handle_flags h = Some flags" "pw \<noteq> []" "length pw < 2 ^ 32" "length h < 2 ^ 32"
    "window_open (soft_record s uid sid) (soft_GetMillisecondsSinceBoot s)"
  shows "\<exists>token s'. device_verify lib garbage uid challenge (Some h, of_nat (length h)) (Some pw, of_nat (length pw)) s =
      Some (0, Some (sized token, False), s') \<and> hw_read (lib_layout lib) token =
      \<lparr>tok_version = HW_AUTH_TOKEN_VERSION (lib_layout lib), tok_challenge = challenge, tok_user_id = sid,
       tok_authenticator_id = 0, tok_authenticator_type = bswap 4 (HW_AUTH_PASSWORD (lib_layout lib)),
       tok_timestamp = bswap 8 (soft_GetMillisecondsSinceBoot s), tok_hmac = replicate (hw_hmac_size (lib_layout lib)) 0\<rparr> \<and>
    failure_counter (soft_record s' uid sid) = 0"
  using device_verify_minted [OF assms] by blast

lemma genuine_checks_out:
  assumes "lib_ok lib" "soft_inv lib s" "genuine lib h pw" "pw \<noteq> []" "length pw + 17 < 2 ^ 32"
  shows "checks_out lib s h pw"
  using assms soft_inv_key [OF assms(2)]
  by (auto simp: checks_out_def sized_data_sized sb_buffer_sized intro!: soft_DoVerify_accepts)

lemma genuine_flags: "genuine lib h pw \<Longrightarrow> \<exists>flags. handle_flags h = Some flags"
  by (auto simp: genuine_def split: option.splits)

text \<open>After a password was accepted, its hash is stored for the secure id of the handle.\<close>

lemma soft_DoVerify_stores:
  assumes "soft_DoVerify lib h pw s = Some (True, s')" "handle_user_id h = Some sid"
  shows "\<exists>fh. fast_hash_map s' sid = Some fh \<and> VerifyFast lib fh pw = Some True"
  using assms by (auto simp: soft_DoVerify_def soft_GetRandom_def VerifyFast_def ComputeFastHash_def
      dest!: DoVerify_soft split: Option.bind_splits option.splits if_splits)

lemma stored_checks_out:
  assumes "fast_hash_map s sid = Some fh" "VerifyFast lib fh (sized pw) = Some True" "handle_user_id h = Some sid"
  shows "checks_out lib s h pw"
  using assms by (simp add: checks_out_def soft_DoVerify_def)

lemma Enroll_fresh:
  assumes "lib_ok lib" "soft_inv lib s" "pw \<noteq> []" "length pw + 17 < 2 ^ 32"
  shows "\<exists>h sid s'. device_enroll lib garbage True uid (None, 0) (None, 0) (Some pw, of_nat (length pw)) s =
      Some (0, Some (sized h), s') \<and> genuine lib h pw \<and> handle_version h = Some HANDLE_VERSION \<and>
    handle_user_id h = Some sid \<and> length h = 58 \<and> soft_inv lib s' \<and>
    soft_record s' uid sid = \<lparr>secure_user_id = sid, last_checked_timestamp = 0, failure_counter = 0\<rparr>"
proof -
  let ?q = "new_EnrollRequest (snd garbage) uid (Some null_buffer) (sized pw) (Some null_buffer)"
  let ?sid = "le_word (lib_rand lib (sg_draws s) 8)" and ?s = "s\<lparr>sg_draws := sg_draws s + 1\<rparr>"
  let ?p = "new_EnrollResponse (fst garbage) (snd garbage)"
  have i: "soft_inv lib ?s" using assms(2) by simp
  have p: "eq_provided_password ?q = sized pw" by (simp add: new_EnrollRequest_def)
  obtain h s' where f: "Enroll_finish (soft_class lib) ?q pw ?sid ?p ?s = Some (SetEnrolledPasswordHandle (sized h) ?p, s')"
      "genuine lib h pw" "handle_version h = Some HANDLE_VERSION" "handle_user_id h = Some ?sid" "length h = 58"
      "soft_record s' uid ?sid = \<lparr>secure_user_id = ?sid, last_checked_timestamp = 0, failure_counter = 0\<rparr>"
    using Enroll_finish_handle [OF assms(1) i assms(3,4) p, of ?sid ?p] by (auto simp: new_EnrollRequest_def)
  have "Enroll (soft_class lib) ?q ?p s = Some (SetEnrolledPasswordHandle (sized h) ?p, s')"
    using f(1) assms(3) by (simp add: Enroll_def new_EnrollRequest_def sb_buffer_sized null_buffer_def soft_GetRandom_def)
  moreover have "(of_nat (length pw) :: u32) \<noteq> 0"
    using sb_ok_sized [of pw] assms(3,4) by (simp add: sb_ok_def sized_def)
  ultimately have e: "device_enroll lib garbage True uid (None, 0) (None, 0) (Some pw, of_nat (length pw)) s = Some (0, Some (sized h), s')"
    using assms(4) by (simp add: device_enroll_def device_buffer_length SetEnrolledPasswordHandle_def new_EnrollResponse_def)
  show ?thesis using f e device_enroll_inv [OF assms(1,2) e] by blast
qed

text \<open>Enrolment with the current handle and password: the new handle keeps the secure id.\<close>

lemma Enroll_again:
  assumes "lib_ok lib" "soft_inv lib s" "Enroll (soft_class lib) request response s = Some (response', s')"
    "error response' = ERROR_NONE" "sb_buffer (eq_password_handle request) = Some h" "handle_version h = Some HANDLE_VERSION"
    "handle_user_id h = Some sid" "eq_provided_password request = sized pw" "pw \<noteq> []" "length pw + 17 < 2 ^ 32"
  shows "\<exists>h2 fh. ep_enrolled_password_handle response' = sized h2 \<and> genuine lib h2 pw \<and>
    handle_version h2 = Some HANDLE_VERSION \<and> handle_user_id h2 = Some sid \<and> length h2 = 58 \<and>
    fast_hash_map s' sid = Some fh \<and> VerifyFast lib fh (eq_enrolled_password request) = Some True \<and>
    soft_record s' (gk_user_id request) sid =
      \<lparr>secure_user_id = sid, last_checked_timestamp = 0, failure_counter = 0\<rparr>"
proof -
  obtain flags where f: "handle_flags h = Some flags"
    using assms by (auto simp: Enroll_def Let_def sb_buffer_sized HANDLE_VERSION_def HANDLE_VERSION_THROTTLE_def
        split: Option.bind_splits)
  obtain res s1 where t: "throttle (soft_class lib) (gk_user_id request) sid (soft_GetMillisecondsSinceBoot s)
      (flags AND HANDLE_FLAG_THROTTLE_SECURE \<noteq> 0) response s = (res, s1)" by fastforce
  note Enroll_eval = Enroll_def Let_def sb_buffer_sized HANDLE_VERSION_def HANDLE_VERSION_THROTTLE_def
  have "res \<noteq> Inl r" for r
    using assms(3-9) f t by (auto simp: Enroll_eval dest!: throttle_error)
  then obtain timeout where r: "res = Inr timeout" by (cases res) auto
  have i: "soft_inv lib s1" by (rule throttle_soft_inv [OF t assms(2)])
  obtain s2 where v: "soft_DoVerify lib h (eq_enrolled_password request) s1 = Some (True, s2)"
      "Enroll_finish (soft_class lib) request pw sid response s2 = Some (response', s')"
    using assms(3-9) f t r by (auto simp: Enroll_eval split: Option.bind_splits if_splits)
  have "soft_inv lib s2" by (rule soft_DoVerify_inv [OF assms(1) i v(1)])
  from Enroll_finish_handle [OF assms(1) this assms(9,10,8), of sid response] v(2)
    soft_DoVerify_stores [OF v(1) assms(7)]
  show ?thesis by (auto simp: SetEnrolledPasswordHandle_def)
qed

section \<open>A wrong password\<close>

lemma soft_DoVerify_rejects:
  assumes "lib_ok lib" "sg_key s \<noteq> []" "handle_user_id h = Some sid" "fast_hash_map s sid = None" "57 \<le> length h"
    "\<not> genuine lib h data" "sized_data pw = Some data" "length data + 17 < 2 ^ 32" "sb_buffer pw \<noteq> None"
  shows "soft_DoVerify lib h pw s = Some (False, s)"
proof -
  obtain block where b: "sb_buffer pw = Some block" using assms(9) by auto
  then have d: "unat (sb_length pw) \<le> length block" "data = take (unat (sb_length pw)) block"
    using assms(7) by (auto simp: sized_data_def read_at_def split: if_splits)
  obtain v u f salt sig where h: "handle_version h = Some v" "handle_user_id h = Some u" "handle_flags h = Some f"
      "handle_salt h = Some salt" "handle_signature h = Some sig" "length sig = 32"
    using handle_fields_long [OF assms(5)] .
  have "length (crypto_scrypt lib (handle_metadata v u f @ data) (le_bytes 8 salt) 32) = 32"
    using assms(1) by (simp add: lib_ok_def)
  moreover have "unat (sb_length pw) + 17 < 2 ^ 32" using assms(8) d by simp
  moreover have "crypto_scrypt lib (handle_metadata v u f @ data) (le_bytes 8 salt) 32 \<noteq> sig"
    using assms(6) h by (simp add: genuine_def)
  ultimately have "DoVerify (soft_platform lib) h pw s = Some (False, s)"
    using h b d CreatePasswordHandle_soft [OF d(1) _ assms(2)] by (simp add: DoVerify_def memcmp_s_iff)
  then show ?thesis using assms(3,4) by (simp add: soft_DoVerify_def)
qed

text \<open>Outside the window a wrong password is one more step of a run of guesses.\<close>

lemma wrong_guess:
  assumes "guess_run (soft_class lib) soft_tick uid h s0 s (t0, n)" "lib_ok lib" "sg_key s \<noteq> []" "handle_user_id h = Some sid"
    "fast_hash_map s sid = None" "57 \<le> length h" "handle_version h = Some HANDLE_VERSION"
    "\<not> genuine lib h pw" "pw \<noteq> []" "length pw + 17 < 2 ^ 32"
    "window_open (soft_record s uid sid) (soft_GetMillisecondsSinceBoot s)"
  shows "\<exists>m. guess_run (soft_class lib) soft_tick uid h s0 (s\<lparr>failure_map := m\<rparr>) (t0, Suc n) \<and>
    soft_record (s\<lparr>failure_map := m\<rparr>) uid sid = (soft_record s uid sid)\<lparr>failure_counter :=
      failure_counter (soft_record s uid sid) + 1, last_checked_timestamp := soft_GetMillisecondsSinceBoot s\<rparr>"
proof -
  obtain flags where f: "handle_flags h = Some flags" using handle_fields_long [OF assms(6)] by metis
  let ?secure = "flags AND HANDLE_FLAG_THROTTLE_SECURE \<noteq> 0" and ?now = "soft_GetMillisecondsSinceBoot s"
  let ?q = "new_VerifyRequest 0 uid 0 (sized h) (sized pw)" and ?p = "new_VerifyResponse 0 0"
  have h: "h \<noteq> []" using assms(6) by auto
  obtain timeout m where t: "throttle (soft_class lib) uid sid ?now ?secure ?p s = (Inr timeout, s\<lparr>failure_map := m\<rparr>)"
    using throttle_open [OF assms(11)] by blast
  then have ht: "handle_throttle (soft_class lib) uid h ?p s = Some (Inr timeout, s\<lparr>failure_map := m\<rparr>)"
    using assms(4) f by (simp add: handle_throttle_def)
  have q: "gk_user_id ?q = uid" "sb_buffer (vq_password_handle ?q) = Some h" "sb_buffer (vq_provided_password ?q) = Some pw"
    using h assms(9) by (simp_all add: new_VerifyRequest_def sb_buffer_sized)
  have v: "gk_DoVerify (soft_class lib) h (vq_provided_password ?q) (s\<lparr>failure_map := m\<rparr>) =
      Some (False, s\<lparr>failure_map := m\<rparr>)"
    using assms by (simp add: soft_DoVerify_rejects new_VerifyRequest_def sized_data_sized sb_buffer_sized)
  have r: "Verify (soft_class lib) ?q ?p s = Some (refuse True timeout ?p, s\<lparr>failure_map := m\<rparr>)"
    using t v f h assms(4,7,9) by (simp add: Verify_def Let_def new_VerifyRequest_def sb_buffer_sized
        HANDLE_VERSION_def HANDLE_VERSION_THROTTLE_def)
  have "compared (soft_class lib) uid h (vq_provided_password ?q) ?p s = Some False" unfolding compared_def ht using v by simp
  then have "guess_run (soft_class lib) soft_tick uid h s0 (s\<lparr>failure_map := m\<rparr>) (t0, Suc n)"
    using guess_run.verify [OF assms(1) q(1,2) r] q(3) by simp
  then show ?thesis using soft.throttle_checked [OF t] by auto
qed

section \<open>One record per user\<close>

lemma throttle_stored:
  assumes "throttle (soft_class lib) uid sid now secure response s = (res, s')"
  shows "secure_user_id (stored_record uid s') = sid"
  using assms by (auto simp: throttle_def ThrottleRequest_def IncrementFailureRecord_def soft_record_get
      soft_WriteFailureRecord_def Let_def stored_record_def soft_record_def split: if_splits)

lemma Verify_stored:
  assumes "Verify (soft_class lib) request response s = Some (response', s')"
    "sb_buffer (vq_password_handle request) = Some h" "sb_buffer (vq_provided_password request) \<noteq> None"
    "handle_version h = Some HANDLE_VERSION" "handle_user_id h = Some sid"
  shows "secure_user_id (stored_record (gk_user_id request) s') = sid"
proof -
  obtain flags where f: "handle_flags h = Some flags"
    using assms by (auto simp: Verify_def Let_def HANDLE_VERSION_def split: Option.bind_splits)
  obtain res s1 where t: "throttle (soft_class lib) (gk_user_id request) sid (soft_GetMillisecondsSinceBoot s)
      (flags AND HANDLE_FLAG_THROTTLE_SECURE \<noteq> 0) response s = (res, s1)" by fastforce
  note Verify_eval = Verify_def Let_def HANDLE_VERSION_def HANDLE_VERSION_THROTTLE_def
  show ?thesis
  proof (cases res)
    case (Inl r)
    then have "s' = s1" using assms f t by (auto simp: Verify_eval)
    then show ?thesis using throttle_stored [OF t] by simp
  next
    case (Inr timeout)
    obtain ok s2 where v: "soft_DoVerify lib h (vq_provided_password request) s1 = Some (ok, s2)"
        "s' = (if ok then snd (soft_ClearFailureRecord (gk_user_id request) sid
          (flags AND HANDLE_FLAG_THROTTLE_SECURE \<noteq> 0) s2) else s2)"
      using assms f t Inr by (auto simp: Verify_eval split: Option.bind_splits if_splits)
    then show ?thesis using throttle_stored [OF t] soft_DoVerify_state [OF v(1)]
      by (auto simp: stored_record_def soft_ClearFailureRecord_def)
  qed
qed

end
