(* ===== verification/Gk_Theorems.thy ===== *)
theory Gk_Theorems
  imports Gk_Verify
begin

text \<open>
  The properties of the gatekeeper library and of the software gatekeeper: the messages, throttling, and
  which passwords are accepted.
\<close>

section \<open>Messages\<close>

text \<open>Sending a message: it is written into \<open>buffer\<close> and the bytes written are read into \<open>m0\<close>.\<close>

definition resend ::
  "'x GateKeeperMessage_scheme gk_virtual \<Rightarrow> 'x GateKeeperMessage_scheme \<Rightarrow> byte list \<Rightarrow>
   'x GateKeeperMessage_scheme \<Rightarrow> (gatekeeper_error_t \<times> 'x GateKeeperMessage_scheme) option" where
  "resend vt m buffer m0 = do { (n, b) \<leftarrow> Serialize vt m buffer; Deserialize vt (take (unat n) b) m0 }"

text \<open>
  each of the four messages with \<open>ERROR_NONE\<close> survives serialization. Written into a buffer of at
  least \<open>GetSerializedSize\<close> bytes and read back into an object with any content, it gives the result
  \<open>ERROR_NONE\<close> and the message that was sent, up to the timeout, which is not part of it.
\<close>

theorem messages_resend:
  assumes "VerifyRequest_ok vq" "VerifyResponse_ok vp" "EnrollRequest_ok eq" "EnrollResponse_ok ep"
    and "error vq = ERROR_NONE" "error vp = ERROR_NONE" "error eq = ERROR_NONE" "error ep = ERROR_NONE"
    and "unat (GetSerializedSize VerifyRequest_virtual vq) \<le> length b1"
    and "unat (GetSerializedSize VerifyResponse_virtual vp) \<le> length b2"
    and "unat (GetSerializedSize EnrollRequest_virtual eq) \<le> length b3"
    and "unat (GetSerializedSize EnrollResponse_virtual ep) \<le> length b4"
  shows "resend VerifyRequest_virtual vq b1 m1 = Some (ERROR_NONE, vq\<lparr>retry_timeout := retry_timeout m1\<rparr>) \<and>
    resend VerifyResponse_virtual vp b2 m2 = Some (ERROR_NONE, vp\<lparr>retry_timeout := retry_timeout m2\<rparr>) \<and>
    resend EnrollRequest_virtual eq b3 m3 = Some (ERROR_NONE, eq\<lparr>retry_timeout := retry_timeout m3\<rparr>) \<and>
    resend EnrollResponse_virtual ep b4 m4 = Some (ERROR_NONE, ep\<lparr>retry_timeout := retry_timeout m4\<rparr>)"
  using verify_request.serialize_none [OF assms(1,5,9), of m1] verify_response.serialize_none [OF assms(2,6,10), of m2]
    enroll_request.serialize_none [OF assms(3,7,11), of m3] enroll_response.serialize_none [OF assms(4,8,12), of m4]
  by (auto simp: resend_def)

definition demo_request :: VerifyRequest where
  "demo_request = new_VerifyRequest 0 10 77 (sized (replicate 58 2)) (sized [49, 50, 51, 52])"

definition demo_response :: VerifyResponse where
  "demo_response = (new_VerifyResponse 10 0)\<lparr>vp_auth_token := sized (replicate 69 1), vp_request_reenroll := True\<rparr>"

definition demo_enroll :: EnrollRequest where
  "demo_enroll = new_EnrollRequest 0 10 None (sized [49, 50, 51, 52]) None"

definition demo_enrolled :: EnrollResponse where
  "demo_enrolled = (new_EnrollResponse 10 0)\<lparr>ep_enrolled_password_handle := sized (replicate 58 2)\<rparr>"

lemmas demo_messages = demo_request_def demo_response_def demo_enroll_def demo_enrolled_def new_VerifyRequest_def
  new_VerifyResponse_def new_EnrollRequest_def new_EnrollResponse_def

theorem messages_resend_witness:
  "resend VerifyRequest_virtual demo_request (replicate 100 0) demo_request = Some (ERROR_NONE, demo_request) \<and>
   resend VerifyResponse_virtual demo_response (replicate 100 0) (new_VerifyResponse 0 0) = Some (ERROR_NONE, demo_response) \<and>
   resend EnrollRequest_virtual demo_enroll (replicate 100 0) demo_enroll = Some (ERROR_NONE, demo_enroll) \<and>
   resend EnrollResponse_virtual demo_enrolled (replicate 100 0) (new_EnrollResponse 0 0) = Some (ERROR_NONE, demo_enrolled)"
proof -
  have ok: "VerifyRequest_ok demo_request" "VerifyResponse_ok demo_response" "EnrollRequest_ok demo_enroll"
    "EnrollResponse_ok demo_enrolled"
    by (simp_all add: VerifyRequest_ok_def VerifyResponse_ok_def EnrollRequest_ok_def EnrollResponse_ok_def
        demo_messages sb_ok_sized) (simp_all add: sized_def null_buffer_def)
  show ?thesis
    using messages_resend [OF ok, of "replicate 100 0" "replicate 100 0" "replicate 100 0" "replicate 100 0"
        demo_request "new_VerifyResponse 0 0" demo_enroll "new_EnrollResponse 0 0"]
    by (simp add: demo_messages GetSerializedSize_def VerifyRequest_virtual_def VerifyResponse_virtual_def
        EnrollRequest_virtual_def EnrollResponse_virtual_def serialized_buffer_size_def sized_def null_buffer_def)
qed

text \<open>
  \<open>Deserialize\<close> reads beyond its input. A payload of 4 to 7 bytes passes the length check, which
  counts only the error field, and the header is then read in full; so does an \<open>ERROR_RETRY\<close> message
  with 9 to 11 bytes, whose timeout is copied if there is any byte after the header.
\<close>

theorem Deserialize_overreads:
  assumes "4 \<le> length payload \<and> length payload < 8 \<or>
    8 < length payload \<and> length payload < 12 \<and> le_word (take 4 payload) = ERROR_RETRY"
  shows "Deserialize vt payload m = None"
  using assms by (auto simp: Deserialize_def read_at_def Let_def)

theorem Deserialize_overreads_witness:
  "Deserialize VerifyResponse_virtual [0, 0, 0, 0] (new_VerifyResponse 0 0) = None \<and>
   Deserialize EnrollResponse_virtual [2, 0, 0, 0, 1, 0, 0, 0, 9] (new_EnrollResponse 0 0) = None"
  by (intro conjI Deserialize_overreads) (simp_all add: ERROR_RETRY_def)

section \<open>Throttling\<close>

text \<open>
  C33: inside the throttle window \<open>Verify\<close> does not look at the password. If the failure record of the
  user asks for a timeout that is not over, the answer to any password is \<open>ERROR_RETRY\<close> with the time
  that remains, the record stays as it is, and no password hash is touched.
\<close>

theorem throttled_ignores_password:
  assumes "sb_buffer (vq_password_handle request) = Some h" "sb_buffer (vq_provided_password request) \<noteq> None"
    and "handle_version h = Some HANDLE_VERSION" "handle_user_id h = Some sid" "handle_flags h = Some flags"
    and "r = soft_record s (gk_user_id request) sid" "now = soft_GetMillisecondsSinceBoot s"
    and "last_checked_timestamp r < now" "now < last_checked_timestamp r + ucast (ComputeRetryTimeout r)"
  shows "Verify (soft_class lib) request response s =
    Some (SetRetryTimeout (ucast (ucast (ComputeRetryTimeout r) - (now - last_checked_timestamp r))) response,
      s\<lparr>failure_map := (failure_map s)(gk_user_id request \<mapsto> r)\<rparr>)"
proof -
  have "0 < ComputeRetryTimeout r" using assms(8,9) by (cases "ComputeRetryTimeout r = 0") (auto simp: word_gt_0)
  then have "throttle (soft_class lib) (gk_user_id request) sid now secure response s =
      (Inl (SetRetryTimeout (ucast (ucast (ComputeRetryTimeout r) - (now - last_checked_timestamp r))) response),
       s\<lparr>failure_map := (failure_map s)(gk_user_id request \<mapsto> r)\<rparr>)" for secure
    using assms(6-9) by (simp add: throttle_def ThrottleRequest_def soft_record_get Let_def)
  then show ?thesis using assms(1-5,7)
    by (auto simp: Verify_def Let_def HANDLE_VERSION_def HANDLE_VERSION_THROTTLE_def)
qed

text \<open>A library for the witnesses, a handle that fits it and states.\<close>

definition demo_lib :: soft_lib where
  "demo_lib = \<lparr>crypto_scrypt = (\<lambda>p salt n. take n (rev p @ replicate n 0)), lib_rand = (\<lambda>k n. replicate n (of_nat k)),
     lib_SHA256 = (\<lambda>m. m), lib_layout = packed_layout\<rparr>"

definition demo_handle :: "byte list" where
  "demo_handle = handle_bytes \<lparr>ph_version = 2, ph_user_id = 5, ph_flags = 1, ph_salt = 0,
     ph_signature = crypto_scrypt demo_lib (handle_metadata 2 5 1 @ [49, 50]) (le_bytes 8 (0 :: u64)) 32,
     ph_hardware_backed = False\<rparr>"

definition demo_state :: "u32 \<Rightarrow> u64 \<Rightarrow> soft_state" where
  "demo_state n t = (new_SoftGateKeeper (Some (t, 0)))\<lparr>failure_map := [10 \<mapsto>
     \<lparr>secure_user_id = 5, last_checked_timestamp = 1000, failure_counter = n\<rparr>]\<rparr>"

lemma demo_lib_ok [simp]: "lib_ok demo_lib"
  by (auto simp: lib_ok_def demo_lib_def)

lemma demo_handle_fields [simp]:
  "handle_version demo_handle = Some HANDLE_VERSION" "handle_user_id demo_handle = Some 5"
  "handle_flags demo_handle = Some 1" "length demo_handle = 58"
  by (simp_all add: demo_handle_def HANDLE_VERSION_def) (simp add: demo_lib_def handle_bytes_def handle_metadata_def)

lemma demo_handle_sized [simp]: "demo_handle \<noteq> []" "sb_buffer (sized demo_handle) = Some demo_handle"
proof -
  show "demo_handle \<noteq> []" using demo_handle_fields(4) by (metis length_0_conv zero_neq_numeral)
  then show "sb_buffer (sized demo_handle) = Some demo_handle" by (simp add: sb_buffer_sized)
qed

lemma demo_genuine [simp]: "genuine demo_lib demo_handle [49, 50]" "\<not> genuine demo_lib demo_handle [51]"
proof -
  have "length (crypto_scrypt demo_lib p salt 32) = 32" for p salt by (simp add: demo_lib_def)
  then show "genuine demo_lib demo_handle [49, 50]" "\<not> genuine demo_lib demo_handle [51]"
    by (simp_all add: genuine_def demo_handle_def) (simp add: demo_lib_def handle_metadata_def)
qed

theorem throttled_ignores_password_witness:
  "Verify (soft_class demo_lib) (new_VerifyRequest 0 10 7 (sized demo_handle) (sized [49, 50]))
     (new_VerifyResponse 0 0) (demo_state 5 3) =
     Some (SetRetryTimeout 28000 (new_VerifyResponse 0 0), demo_state 5 3)"
proof -
  have r: "soft_record (demo_state 5 3) 10 5 = \<lparr>secure_user_id = 5, last_checked_timestamp = 1000, failure_counter = 5\<rparr>"
    by (simp add: demo_state_def soft_record_def stored_record_def)
  have t: "soft_GetMillisecondsSinceBoot (demo_state 5 3) = 3000"
    by (simp add: demo_state_def soft_GetMillisecondsSinceBoot_def new_SoftGateKeeper_def)
  have c: "ComputeRetryTimeout \<lparr>secure_user_id = 5, last_checked_timestamp = 1000, failure_counter = 5\<rparr> = 30000"
    by (simp add: ComputeRetryTimeout_def failure_timeout_ms_def)
  have s: "(demo_state 5 3)\<lparr>failure_map := (failure_map (demo_state 5 3))(10 \<mapsto>
      \<lparr>secure_user_id = 5, last_checked_timestamp = 1000, failure_counter = 5\<rparr>)\<rparr> = demo_state 5 3"
    by (simp add: demo_state_def)
  show ?thesis
    using throttled_ignores_password [where lib = demo_lib and s = "demo_state 5 3" and h = demo_handle and sid = 5 and
        flags = 1 and r = "soft_record (demo_state 5 3) 10 5" and now = 3000 and response = "new_VerifyResponse 0 0" and
        request = "new_VerifyRequest 0 10 7 (sized demo_handle) (sized [49, 50])"] s
    by (simp add: new_VerifyRequest_def sb_buffer_sized r t c)
qed

text \<open>
  C3: guessing is slow. Take any sequence of \<open>Verify\<close> and \<open>Enroll\<close> requests for a user with one handle of the
  current version, successful or not, mixed with any requests for other users and the passing of time, from a state in
  which the user has no failures. If the last successful request for the user, or the start, was at time
  \<open>t\<close>, and \<open>n\<close> passwords were compared since, all of them wrong, then at least the sum of the timeouts
  after \<open>0, 1, ..., n - 1\<close> failures has passed since \<open>t\<close>. Requests for this user with other handles, or
  without one, are not part of the run: they replace the failure record. Assumed are fewer than \<open>2\<^sup>3\<^sup>2\<close>
  failures in a row and a clock below \<open>2\<^sup>6\<^sup>3\<close> milliseconds.
\<close>

theorem guess_rate:
  assumes "guess_run (soft_class lib) soft_tick uid h s0 s (t, n)" "handle_version h = Some HANDLE_VERSION"
    "handle_user_id h = Some sid" "failure_counter (soft_record s0 uid sid) = 0"
    "last_checked_timestamp (soft_record s0 uid sid) \<le> soft_GetMillisecondsSinceBoot s0" "n < 2 ^ 32"
    "unat (soft_GetMillisecondsSinceBoot s0) < 2 ^ 63"
  shows "t + (\<Sum>k<n. timeout_ms k) \<le> unat (soft_GetMillisecondsSinceBoot s)"
  using soft.guess_time [of lib uid h s0 s t n sid] assms by simp

text \<open>Five wrong guesses at once, and one more after the timeout.\<close>

lemma demo_guesses:
  "n \<le> 5 \<Longrightarrow> \<exists>m. guess_run (soft_class demo_lib) soft_tick 10 demo_handle (demo_state 0 1)
      ((demo_state 0 1)\<lparr>failure_map := m\<rparr>) (1000, n) \<and>
    soft_record ((demo_state 0 1)\<lparr>failure_map := m\<rparr>) 10 5 =
      \<lparr>secure_user_id = 5, last_checked_timestamp = 1000, failure_counter = of_nat n\<rparr>"
proof (induction n)
  case 0
  have "(demo_state 0 1)\<lparr>failure_map := failure_map (demo_state 0 1)\<rparr> = demo_state 0 1" by simp
  moreover have "soft_record (demo_state 0 1) 10 5 = \<lparr>secure_user_id = 5, last_checked_timestamp = 1000, failure_counter = 0\<rparr>"
    by (simp add: demo_state_def soft_record_def stored_record_def)
  moreover have "soft_GetMillisecondsSinceBoot (demo_state 0 1) = 1000"
    by (simp add: demo_state_def new_SoftGateKeeper_def soft_GetMillisecondsSinceBoot_def)
  ultimately show ?case using guess_run.start [of "soft_class demo_lib" soft_tick 10 demo_handle "demo_state 0 1"]
    by (intro exI [of _ "failure_map (demo_state 0 1)"]) simp
next
  case (Suc n)
  then obtain m where m: "guess_run (soft_class demo_lib) soft_tick 10 demo_handle (demo_state 0 1)
      ((demo_state 0 1)\<lparr>failure_map := m\<rparr>) (1000, n)"
    "soft_record ((demo_state 0 1)\<lparr>failure_map := m\<rparr>) 10 5 =
      \<lparr>secure_user_id = 5, last_checked_timestamp = 1000, failure_counter = of_nat n\<rparr>" by auto
  have "unat (ComputeRetryTimeout \<lparr>secure_user_id = 5, last_checked_timestamp = 1000, failure_counter = of_nat n\<rparr>) = 0"
    using Suc(2) by (simp add: ComputeRetryTimeout_unat timeout_ms_def unat_of_nat take_bit_nat_eq_self)
  then have w: "window_open \<lparr>secure_user_id = 5, last_checked_timestamp = 1000, failure_counter = of_nat n\<rparr>
      (soft_GetMillisecondsSinceBoot ((demo_state 0 1)\<lparr>failure_map := m\<rparr>))"
    by (simp add: window_open_def unat_eq_0)
  have t: "soft_GetMillisecondsSinceBoot (demo_state 0 1) = 1000"
    "sg_key (demo_state 0 1) = replicate 32 0" "fast_hash_map (demo_state 0 1) = Map.empty"
    by (simp_all add: demo_state_def new_SoftGateKeeper_def soft_GetMillisecondsSinceBoot_def SIGNATURE_LENGTH_BYTES_def)
  show ?case using wrong_guess [OF m(1) demo_lib_ok, where sid = 5 and pw = "[51]"] w m(2) t by (auto simp: add.commute)
qed

theorem guess_rate_witness:
  "\<exists>s. guess_run (soft_class demo_lib) soft_tick 10 demo_handle (demo_state 0 1) s (1000, 6) \<and>
    31000 \<le> unat (soft_GetMillisecondsSinceBoot s)"
proof -
  obtain m where m: "guess_run (soft_class demo_lib) soft_tick 10 demo_handle (demo_state 0 1)
      ((demo_state 0 1)\<lparr>failure_map := m\<rparr>) (1000, 5)"
    "soft_record ((demo_state 0 1)\<lparr>failure_map := m\<rparr>) 10 5 =
      \<lparr>secure_user_id = 5, last_checked_timestamp = 1000, failure_counter = 5\<rparr>" using demo_guesses [of 5] by auto
  let ?s = "(demo_state 0 1)\<lparr>failure_map := m, boot_time := Some (40, 0)\<rparr>"
  note d = demo_state_def new_SoftGateKeeper_def soft_GetMillisecondsSinceBoot_def SIGNATURE_LENGTH_BYTES_def
  have t: "soft_GetMillisecondsSinceBoot ?s = 40000" "soft_GetMillisecondsSinceBoot (demo_state 0 1) = 1000" by (simp_all add: d)
  have "soft_tick ((demo_state 0 1)\<lparr>failure_map := m\<rparr>) ?s" by (simp add: soft_tick_def t)
  then have run: "guess_run (soft_class demo_lib) soft_tick 10 demo_handle (demo_state 0 1) ?s (1000, 5)"
    using m(1) by (rule guess_run.wait [rotated])
  have r: "soft_record ?s 10 5 = \<lparr>secure_user_id = 5, last_checked_timestamp = 1000, failure_counter = 5\<rparr>"
    using m(2) soft_record_cong [of ?s "(demo_state 0 1)\<lparr>failure_map := m\<rparr>"] by simp
  have "window_open (soft_record ?s 10 5) (soft_GetMillisecondsSinceBoot ?s)"
    by (simp add: r t window_open_def ComputeRetryTimeout_def failure_timeout_ms_def)
  then obtain s' where s': "guess_run (soft_class demo_lib) soft_tick 10 demo_handle (demo_state 0 1) s' (1000, Suc 5)"
    using wrong_guess [OF run demo_lib_ok, where sid = 5 and pw = "[51]"] by (auto simp: d)
  have "(\<Sum>k<Suc 5. timeout_ms k) = 30000" by (simp add: timeout_ms_def lessThan_nat_numeral)
  moreover have "soft_record (demo_state 0 1) 10 5 = \<lparr>secure_user_id = 5, last_checked_timestamp = 1000, failure_counter = 0\<rparr>"
    by (simp add: demo_state_def soft_record_def stored_record_def)
  ultimately have "31000 \<le> unat (soft_GetMillisecondsSinceBoot s')"
    using guess_rate [OF s', of 5] by (simp add: t)
  then show ?thesis using s' by auto
qed

section \<open>Passwords\<close>

text \<open>
  C4: only a matching password is accepted. Take a run of the software gatekeeper from its start, and the
  handles and passwords of the requests in it that were answered with success. When a verification succeeds
  after it, the password matches the scrypt signature of the handle, or one of these requests came with a
  password that matched its handle, of the same secure id, and has the same SHA-256 hash under a salt the
  device drew. After a start without successful requests only the first is possible.
\<close>

theorem device_verify_sound:
  assumes "lib_ok lib" "soft_history lib hist s"
    and "device_verify lib garbage uid challenge (Some handle, hl) (Some pw, pl) s = Some (0, Some out, s')"
  shows "acceptable lib (set hist) (take (unat hl) handle) (take (unat pl) pw)"
proof -
  obtain h p where "attempt (Some handle, hl) (Some pw, pl) = [(h, p)]" "acceptable lib (set hist) h p"
    using device_verify_from [OF assms(1) soft_history_from [OF assms(2,1)] assms(3)] by auto
  then show ?thesis by (auto simp: attempt_def split: if_splits)
qed

lemma demo_device_accepts:
  "\<exists>token s'. device_verify demo_lib (0, 0) 10 7 (Some demo_handle, 58) (Some [49, 50], 2) (new_SoftGateKeeper (Some (1, 0))) =
     Some (0, Some (sized token, False), s')"
proof -
  note inv = soft_run_inv [OF soft_run.start demo_lib_ok]
  have "window_open (soft_record (new_SoftGateKeeper (Some (1, 0))) 10 5) now" for now
    by (simp add: window_open_def soft_record_def stored_record_def new_SoftGateKeeper_def zero_record_def
        ComputeRetryTimeout_def)
  from device_verify_checks_out [OF demo_lib_ok genuine_checks_out [OF demo_lib_ok inv demo_genuine(1)]
      demo_handle_fields(1,2,3) _ _ _ this, of "(0, 0)" 7]
  show ?thesis by auto
qed

theorem device_verify_sound_witness:
  "\<exists>out s'. device_verify demo_lib (0, 0) 10 7 (Some demo_handle, 58) (Some [49, 50], 2) (new_SoftGateKeeper (Some (1, 0))) =
     Some (0, Some out, s') \<and> genuine demo_lib (take 58 demo_handle) [49, 50]"
proof -
  obtain out s' where v: "device_verify demo_lib (0, 0) 10 7 (Some demo_handle, 58) (Some [49, 50], 2)
      (new_SoftGateKeeper (Some (1, 0))) = Some (0, Some out, s')" using demo_device_accepts by blast
  show ?thesis using device_verify_sound [OF demo_lib_ok soft_history.start v] v by (simp add: acceptable_def)
qed



text \<open>
  C20: what is enrolled can be verified. Enrolling a non-empty password for a user without a handle
  returns a handle, and at any later time the device answers a verification of that password against the
  handle with success, and a token with the challenge and the secure id of the handle.
\<close>

theorem enroll_then_verify:
  assumes "lib_ok lib" "soft_run lib s" "pw \<noteq> []" "length pw + 17 < 2 ^ 32"
  shows "\<exists>h s1. device_enroll lib garbage True uid (None, 0) (None, 0) (Some pw, of_nat (length pw)) s =
      Some (0, Some (sized h), s1) \<and>
    (\<forall>t. \<exists>token s2. device_verify lib garbage' uid challenge (Some h, of_nat (length h)) (Some pw, of_nat (length pw))
        (s1\<lparr>boot_time := t\<rparr>) = Some (0, Some (sized token, False), s2) \<and>
      tok_challenge (hw_read (lib_layout lib) token) = challenge \<and>
      handle_user_id h = Some (tok_user_id (hw_read (lib_layout lib) token)))"
proof -
  obtain h sid s1 where e: "device_enroll lib garbage True uid (None, 0) (None, 0) (Some pw, of_nat (length pw)) s =
      Some (0, Some (sized h), s1)" "genuine lib h pw" "handle_version h = Some HANDLE_VERSION"
    "handle_user_id h = Some sid" "length h = 58" "soft_inv lib s1"
    "soft_record s1 uid sid = \<lparr>secure_user_id = sid, last_checked_timestamp = 0, failure_counter = 0\<rparr>"
    using Enroll_fresh [OF assms(1) soft_run_inv [OF assms(2,1)] assms(3,4)] by blast
  have "\<exists>token s2. device_verify lib garbage' uid challenge (Some h, of_nat (length h)) (Some pw, of_nat (length pw))
        (s1\<lparr>boot_time := t\<rparr>) = Some (0, Some (sized token, False), s2) \<and>
      tok_challenge (hw_read (lib_layout lib) token) = challenge \<and>
      handle_user_id h = Some (tok_user_id (hw_read (lib_layout lib) token))" for t
  proof -
    have "soft_record (s1\<lparr>boot_time := t\<rparr>) uid sid = soft_record s1 uid sid"
      using soft_record_cong [of "s1\<lparr>boot_time := t\<rparr>" s1] by simp
    then have "window_open (soft_record (s1\<lparr>boot_time := t\<rparr>) uid sid) now" for now
      using e(7) by (simp add: window_open_def ComputeRetryTimeout_def)
    moreover have "checks_out lib (s1\<lparr>boot_time := t\<rparr>) h pw"
      using genuine_checks_out [OF assms(1) _ e(2) assms(3,4)] e(6) by simp
    moreover obtain flags where "handle_flags h = Some flags" using genuine_flags [OF e(2)] by blast
    ultimately show ?thesis
      using device_verify_checks_out [OF assms(1) _ e(3,4) _ assms(3), of "s1\<lparr>boot_time := t\<rparr>" flags uid garbage' challenge]
        assms(4) e(4,5) by fastforce
  qed
  then show ?thesis using e(1) by blast
qed

theorem enroll_then_verify_witness:
  "\<exists>h s1 token s2. device_enroll demo_lib (0, 0) True 10 (None, 0) (None, 0) (Some [49, 50], 2) (new_SoftGateKeeper None) =
      Some (0, Some (sized h), s1) \<and>
    device_verify demo_lib (0, 0) 10 7 (Some h, of_nat (length h)) (Some [49, 50], 2) (s1\<lparr>boot_time := Some (60, 0)\<rparr>) =
      Some (0, Some (sized token, False), s2) \<and> tok_challenge (hw_read packed_layout token) = 7"
proof -
  obtain h s1 where e: "device_enroll demo_lib (0, 0) True 10 (None, 0) (None, 0) (Some [49, 50], 2) (new_SoftGateKeeper None) =
      Some (0, Some (sized h), s1)"
    and v: "\<forall>t. \<exists>token s2. device_verify demo_lib (0, 0) 10 7 (Some h, of_nat (length h)) (Some [49, 50], 2)
      (s1\<lparr>boot_time := t\<rparr>) = Some (0, Some (sized token, False), s2) \<and>
      tok_challenge (hw_read (lib_layout demo_lib) token) = 7 \<and>
      handle_user_id h = Some (tok_user_id (hw_read (lib_layout demo_lib) token))"
    using enroll_then_verify [OF demo_lib_ok soft_run.start, where pw = "[49, 50]" and t1 = None and garbage = "(0, 0)" and
        uid = 10 and garbage' = "(0, 0)" and challenge = 7] by (simp del: ex_simps) blast
  show ?thesis using e v [rule_format, of "Some (60, 0)"] by (auto simp: demo_lib_def)
qed

section \<open>Two weaknesses of the software gatekeeper\<close>

text \<open>
  C36: changing the password does not revoke the old one. The fast hashes are keyed by the secure id only,
  which a change of password keeps: after a successful enrolment of a new password with the current handle
  and the old password, a verification of the new handle with the old password succeeds. The handle has the
  current version, and passwords (the new one with 17 bytes added) and handle are shorter than \<open>2\<^sup>3\<^sup>2\<close> bytes.
\<close>

theorem old_password_accepted:
  assumes "lib_ok lib" "soft_run lib s" "handle_version h = Some HANDLE_VERSION" "handle_user_id h = Some sid"
    and "old \<noteq> []" "new \<noteq> []" "length old < 2 ^ 32" "length new + 17 < 2 ^ 32" "length h < 2 ^ 32"
    and "device_enroll lib garbage True uid (Some h, of_nat (length h)) (Some old, of_nat (length old))
      (Some new, of_nat (length new)) s = Some (0, Some handle, s1)"
  shows "\<exists>h2 token s2. handle = sized h2 \<and>
    device_verify lib garbage' uid challenge (Some h2, of_nat (length h2)) (Some old, of_nat (length old)) s1 =
      Some (0, Some (sized token, False), s2)"
proof -
  let ?q = "new_EnrollRequest (snd garbage) uid (Some (sized h)) (sized new) (Some (sized old))"
  have h: "h \<noteq> []" using assms(3) by (auto simp: handle_version_def read_at_def split: if_splits)
  have "(of_nat (length x) :: u32) \<noteq> 0" if "x \<noteq> []" "length x < 2 ^ 32" for x :: "byte list"
    using sb_ok_sized [OF that(2)] that(1) by (simp add: sb_ok_def sized_def)
  then have n: "(of_nat (length h) :: u32) \<noteq> 0" "(of_nat (length old) :: u32) \<noteq> 0" "(of_nat (length new) :: u32) \<noteq> 0"
    using h assms(5-9) by simp_all
  have "length new < 2 ^ 32" using assms(8) by simp
  then obtain response where e: "Enroll (soft_class lib) ?q (new_EnrollResponse (fst garbage) (snd garbage)) s = Some (response, s1)"
      "error response = ERROR_NONE" "handle = ep_enrolled_password_handle response"
    using assms(7-10) n
    by (auto simp: device_enroll_def device_buffer_length Let_def split: Option.bind_splits if_splits)
  have q: "sb_buffer (eq_password_handle ?q) = Some h" "eq_provided_password ?q = sized new"
    "eq_enrolled_password ?q = sized old" "gk_user_id ?q = uid"
    using h by (simp_all add: new_EnrollRequest_def sb_buffer_sized)
  obtain h2 fh where h2: "ep_enrolled_password_handle response = sized h2" "genuine lib h2 new"
      "handle_version h2 = Some HANDLE_VERSION" "handle_user_id h2 = Some sid" "length h2 = 58"
      "fast_hash_map s1 sid = Some fh" "VerifyFast lib fh (sized old) = Some True"
      "soft_record s1 uid sid = \<lparr>secure_user_id = sid, last_checked_timestamp = 0, failure_counter = 0\<rparr>"
    using Enroll_again [OF assms(1) soft_run_inv [OF assms(2,1)] e(1,2) q(1) assms(3,4) q(2) assms(6,8)]
    unfolding q by blast
  obtain flags where "handle_flags h2 = Some flags" using genuine_flags [OF h2(2)] by blast
  moreover have "window_open (soft_record s1 uid sid) now" for now
    by (simp add: h2(8) window_open_def ComputeRetryTimeout_def)
  moreover have "length h2 < 2 ^ 32" by (simp add: h2(5))
  ultimately have "\<exists>token s2. device_verify lib garbage' uid challenge (Some h2, of_nat (length h2)) (Some old, of_nat (length old)) s1 =
      Some (0, Some (sized token, False), s2)"
    using device_verify_checks_out [OF assms(1) stored_checks_out [OF h2(6,7,4)] h2(3,4) _ assms(5,7)] by blast
  then show ?thesis using e(3) h2(1) by blast
qed

lemma demo_reenroll:
  "\<exists>handle s1. device_enroll demo_lib (0, 0) True 10 (Some demo_handle, 58) (Some [49, 50], 2) (Some [51], 1)
     (new_SoftGateKeeper (Some (1, 0))) = Some (0, Some handle, s1)"
proof -
  let ?s = "new_SoftGateKeeper (Some (1, 0))" and ?p = "new_EnrollResponse 0 0"
  let ?q = "new_EnrollRequest 0 10 (Some (sized demo_handle)) (sized [51]) (Some (sized [49, 50]))"
  note inv = soft_run_inv [OF soft_run.start demo_lib_ok, of "Some (1, 0)"]
  have "window_open (soft_record ?s 10 5) (soft_GetMillisecondsSinceBoot ?s)"
    by (simp add: window_open_def soft_record_def stored_record_def new_SoftGateKeeper_def zero_record_def
        ComputeRetryTimeout_def)
  then obtain timeout m where t: "throttle (soft_class demo_lib) 10 5 (soft_GetMillisecondsSinceBoot ?s) True ?p ?s =
      (Inr timeout, ?s\<lparr>failure_map := m\<rparr>)" using throttle_open by blast
  obtain s2 where v: "soft_DoVerify demo_lib demo_handle (sized [49, 50]) (?s\<lparr>failure_map := m\<rparr>) = Some (True, s2)"
    using genuine_checks_out [OF demo_lib_ok inv demo_genuine(1)] by (auto simp: checks_out_def)
  have i: "soft_inv demo_lib s2" using soft_DoVerify_inv [OF demo_lib_ok _ v] inv by simp
  have p: "eq_provided_password ?q = sized [51]" by (simp add: new_EnrollRequest_def)
  obtain h s1 where f: "Enroll_finish (soft_class demo_lib) ?q [51] 5 ?p s2 = Some (SetEnrolledPasswordHandle (sized h) ?p, s1)"
    using Enroll_finish_handle [OF demo_lib_ok i _ _ p, of 5 ?p] by auto
  have "Enroll (soft_class demo_lib) ?q ?p ?s = Some (SetEnrolledPasswordHandle (sized h) ?p, s1)"
    using t v f by (simp add: Enroll_def Let_def sb_buffer_sized HANDLE_VERSION_def HANDLE_VERSION_THROTTLE_def
        HANDLE_FLAG_THROTTLE_SECURE_def new_EnrollRequest_def)
  then show ?thesis
    using device_buffer_length [of demo_handle] device_buffer_length [of "[51]"] device_buffer_length [of "[49, 50]"]
    by (auto simp: device_enroll_def SetEnrolledPasswordHandle_def new_EnrollResponse_def)
qed

theorem old_password_accepted_witness:
  "\<exists>h2 token s1 s2. device_enroll demo_lib (0, 0) True 10 (Some demo_handle, 58) (Some [49, 50], 2) (Some [51], 1)
     (new_SoftGateKeeper (Some (1, 0))) = Some (0, Some (sized h2), s1) \<and>
   device_verify demo_lib (0, 0) 10 7 (Some h2, of_nat (length h2)) (Some [49, 50], 2) s1 =
     Some (0, Some (sized token, False), s2)"
proof -
  obtain handle s1 where e: "device_enroll demo_lib (0, 0) True 10 (Some demo_handle, 58) (Some [49, 50], 2) (Some [51], 1)
     (new_SoftGateKeeper (Some (1, 0))) = Some (0, Some handle, s1)" using demo_reenroll by blast
  have "\<exists>h2 token s2. handle = sized h2 \<and> device_verify demo_lib (0, 0) 10 7 (Some h2, of_nat (length h2))
      (Some [49, 50], of_nat (length [49 :: byte, 50])) s1 = Some (0, Some (sized token, False), s2)"
    using e by (intro old_password_accepted [OF demo_lib_ok soft_run.start demo_handle_fields(1,2), where new = "[51]"]) auto
  then show ?thesis using e by auto
qed

text \<open>
  C37: the failure counter can be reset without a password. The software gatekeeper keeps one failure
  record per user, and starts a new one when the secure id differs: after any request with a handle of
  another secure id, which anyone can make up, the throttling of the real handle starts afresh.
\<close>

theorem foreign_handle_resets_throttle:
  assumes "device_verify lib garbage uid challenge (Some h, of_nat (length h)) (Some pw, of_nat (length pw)) s = Some (rc, out, s')"
    and "handle_version h = Some HANDLE_VERSION" "handle_user_id h = Some sid'" "sid' \<noteq> sid"
    and "pw \<noteq> []" "length pw < 2 ^ 32" "length h < 2 ^ 32"
  shows "soft_record s' uid sid = \<lparr>secure_user_id = sid, last_checked_timestamp = 0, failure_counter = 0\<rparr>"
proof -
  let ?q = "new_VerifyRequest (snd garbage) uid challenge (sized h) (sized pw)"
  have h: "h \<noteq> []" using assms(2) by (auto simp: handle_version_def read_at_def split: if_splits)
  obtain response where v: "Verify (soft_class lib) ?q (new_VerifyResponse (fst garbage) (snd garbage)) s = Some (response, s')"
    using assms(1,6,7) by (auto simp: device_verify_def device_buffer_length split: Option.bind_splits if_splits)
  have "sb_buffer (vq_password_handle ?q) = Some h" "sb_buffer (vq_provided_password ?q) \<noteq> None" "gk_user_id ?q = uid"
    using h assms(5) by (simp_all add: new_VerifyRequest_def sb_buffer_sized)
  then show ?thesis using Verify_stored [OF v _ _ assms(2,3)] assms(4) by (simp add: soft_record_def)
qed

definition foreign_handle :: "byte list" where
  "foreign_handle = handle_bytes \<lparr>ph_version = 2, ph_user_id = 6, ph_flags = 1, ph_salt = 0,
     ph_signature = crypto_scrypt demo_lib (handle_metadata 2 6 1 @ [51]) (le_bytes 8 (0 :: u64)) 32,
     ph_hardware_backed = False\<rparr>"

theorem foreign_handle_resets_throttle_witness:
  "failure_counter (soft_record (demo_state 200 3) 10 5) = 200 \<and>
   (\<exists>out s'. device_verify demo_lib (0, 0) 10 7 (Some foreign_handle, of_nat (length foreign_handle)) (Some [51], 1)
      (demo_state 200 3) = Some (0, out, s') \<and> failure_counter (soft_record s' 10 5) = 0)"
proof -
  let ?h = foreign_handle
  have l: "length (crypto_scrypt demo_lib p salt 32) = 32" for p salt by (simp add: demo_lib_def)
  have h: "handle_version ?h = Some HANDLE_VERSION" "handle_user_id ?h = Some 6" "handle_flags ?h = Some 1"
    "genuine demo_lib ?h [51]" "length ?h < 2 ^ 32"
    by (simp_all add: foreign_handle_def HANDLE_VERSION_def genuine_def l handle_bytes_def [THEN arg_cong, of length]
        handle_metadata_def)
  have i: "soft_inv demo_lib (demo_state 200 3)"
    by (simp add: demo_state_def soft_from_def fast_from_def new_SoftGateKeeper_def)
  have w: "window_open (soft_record (demo_state 200 3) 10 6) now" for now
    by (simp add: window_open_def soft_record_def stored_record_def demo_state_def ComputeRetryTimeout_def)
  obtain token s' where v: "device_verify demo_lib (0, 0) 10 7 (Some ?h, of_nat (length ?h)) (Some [51], of_nat (length [51 :: byte]))
      (demo_state 200 3) = Some (0, Some (sized token, False), s')"
    using device_verify_checks_out [OF demo_lib_ok genuine_checks_out [OF demo_lib_ok i h(4)] h(1,2,3) _ _ h(5) w, of "(0, 0)" 7]
    by auto
  have "failure_counter (soft_record s' 10 5) = 0"
    using foreign_handle_resets_throttle [OF v h(1,2) _ _ _ h(5), of 5] by simp
  moreover have "failure_counter (soft_record (demo_state 200 3) 10 5) = 200"
    by (simp add: soft_record_def stored_record_def demo_state_def)
  ultimately show ?thesis using v by auto
qed

end
