(* ===== verification/Km_Serial.thy ===== *)
theory Km_Serial
  imports Sys_Bytes
begin

text \<open>
  \<open>serializable.h\<close> and \<open>serializable.cpp\<close> of keymaster: the functions that write integers and byte
  arrays to a buffer and read them back, and \<open>class Buffer\<close>.

  A buffer that is written is a block with a position, one that is read the bytes that remain up to
  \<open>end\<close>. The checks for a pointer that wraps around coincide with those for the end of the block, since
  a block does not extend over the end of the address space. \<open>size_t\<close> has 64 bits.
\<close>

section \<open>Writing\<close>

record wbuf =
  wb_block :: "byte list"
  wb_pos :: nat

definition append_to_buf :: "byte list \<Rightarrow> wbuf \<Rightarrow> wbuf" where
  "append_to_buf data w =
     (if wb_pos w + length data \<le> length (wb_block w)
      then \<lparr>wb_block = memcpy_at (wb_pos w) data (wb_block w), wb_pos = wb_pos w + length data\<rparr>
      else w)"

definition append_uint32_to_buf :: "u32 \<Rightarrow> wbuf \<Rightarrow> wbuf" where
  "append_uint32_to_buf value = append_to_buf (le_bytes 4 value)"

definition append_uint64_to_buf :: "u64 \<Rightarrow> wbuf \<Rightarrow> wbuf" where
  "append_uint64_to_buf value = append_to_buf (le_bytes 8 value)"

definition append_size_and_data_to_buf :: "byte list \<Rightarrow> wbuf \<Rightarrow> wbuf" where
  "append_size_and_data_to_buf data w = append_to_buf data (append_uint32_to_buf (of_nat (length data)) w)"

definition append_uint32_array_to_buf :: "u32 list \<Rightarrow> wbuf \<Rightarrow> wbuf" where
  "append_uint32_array_to_buf data w =
     (if length data \<ge> (2 ^ 32 - 1) div 4 then w
      else foldl (\<lambda>w v. append_uint32_to_buf v w) (append_uint32_to_buf (of_nat (length data)) w) data)"

text \<open>Writing when there is room: the bytes go to the position.\<close>

definition has_room :: "nat \<Rightarrow> wbuf \<Rightarrow> bool" where
  "has_room n w \<longleftrightarrow> wb_pos w + n \<le> length (wb_block w)"

definition put :: "byte list \<Rightarrow> wbuf \<Rightarrow> wbuf" where
  "put data w = \<lparr>wb_block = memcpy_at (wb_pos w) data (wb_block w), wb_pos = wb_pos w + length data\<rparr>"

lemma has_room_put: "has_room (length data + n) w \<Longrightarrow> has_room n (put data w)"
  by (simp add: has_room_def put_def)

lemma has_room_le: "has_room n w \<Longrightarrow> m \<le> n \<Longrightarrow> has_room m w"
  by (simp add: has_room_def)

lemma put_put: "has_room (length a + length b) w \<Longrightarrow> put b (put a w) = put (a @ b) w"
  by (simp add: put_def has_room_def memcpy_at_def drop_append ac_simps)

lemma append_to_buf_room: "has_room (length data) w \<Longrightarrow> append_to_buf data w = put data w"
  by (simp add: append_to_buf_def has_room_def put_def)

lemma append_uint_room:
  "has_room 4 w \<Longrightarrow> append_uint32_to_buf v w = put (le_bytes 4 v) w"
  "has_room 8 w \<Longrightarrow> append_uint64_to_buf x w = put (le_bytes 8 x) w"
  by (simp_all add: append_uint32_to_buf_def append_uint64_to_buf_def append_to_buf_room)

lemma append_size_and_data_room:
  assumes "has_room (4 + length data) w"
  shows "append_size_and_data_to_buf data w = put (le_bytes 4 (of_nat (length data) :: u32) @ data) w"
proof -
  have "has_room 4 w" "has_room (length data) (put (le_bytes 4 (of_nat (length data) :: u32)) w)"
    using assms by (auto intro: has_room_le has_room_put)
  then show ?thesis using assms
    by (simp add: append_size_and_data_to_buf_def append_uint_room append_to_buf_room put_put)
qed

text \<open>Whatever is written, nothing beyond the block is.\<close>

lemma length_append_to_buf [simp]: "length (wb_block (append_to_buf data w)) = length (wb_block w)"
  by (simp add: append_to_buf_def)

section \<open>Reading\<close>

text \<open>A read that fails gives \<^term>\<open>None\<close>; the second component is what remains in the buffer.\<close>

definition copy_from_buf :: "nat \<Rightarrow> byte list \<Rightarrow> byte list option \<times> byte list" where
  "copy_from_buf n buf = (if length buf < n then (None, buf) else (Some (take n buf), drop n buf))"

definition copy_uint32_from_buf :: "byte list \<Rightarrow> u32 option \<times> byte list" where
  "copy_uint32_from_buf buf = (case copy_from_buf 4 buf of (v, buf) \<Rightarrow> (map_option le_word v, buf))"

definition copy_uint64_from_buf :: "byte list \<Rightarrow> u64 option \<times> byte list" where
  "copy_uint64_from_buf buf = (case copy_from_buf 8 buf of (v, buf) \<Rightarrow> (map_option le_word v, buf))"

definition copy_size_and_data_from_buf :: "allocator \<Rightarrow> byte list \<Rightarrow> byte list option \<times> byte list" where
  "copy_size_and_data_from_buf al buf =
     (case copy_uint32_from_buf buf of
        (None, buf) \<Rightarrow> (None, buf)
      | (Some n, buf) \<Rightarrow>
          if unat n > length buf then (None, buf)
          else if n = 0 then (Some [], buf)
          else if \<not> alloc_ok al (unat n) then (None, buf)
          else copy_from_buf (unat n) buf)"

fun copy_uint32s :: "nat \<Rightarrow> byte list \<Rightarrow> u32 list option \<times> byte list" where
  "copy_uint32s 0 buf = (Some [], buf)"
| "copy_uint32s (Suc n) buf =
     (case copy_uint32_from_buf buf of
        (None, buf) \<Rightarrow> (None, buf)
      | (Some v, buf) \<Rightarrow> (case copy_uint32s n buf of (vs, buf) \<Rightarrow> (map_option ((#) v) vs, buf)))"

definition copy_uint32_array_from_buf :: "allocator \<Rightarrow> byte list \<Rightarrow> u32 list option \<times> byte list" where
  "copy_uint32_array_from_buf al buf =
     (case copy_uint32_from_buf buf of
        (None, buf) \<Rightarrow> (None, buf)
      | (Some count, buf) \<Rightarrow>
          if unat count \<ge> (2 ^ 32 - 1) div 4 \<or> unat count * 4 > length buf then (None, buf)
          else if \<not> alloc_ok al (unat count * 4) then (None, buf)
          else copy_uint32s (unat count) buf)"

lemma copy_from_buf_append [simp]: "length data = n \<Longrightarrow> copy_from_buf n (data @ rest) = (Some data, rest)"
  by (simp add: copy_from_buf_def)

lemma copy_uint_append [simp]:
  "copy_uint32_from_buf (le_bytes 4 v @ rest) = (Some v, rest)"
  "copy_uint64_from_buf (le_bytes 8 x @ rest) = (Some x, rest)"
  by (simp_all add: copy_uint32_from_buf_def copy_uint64_from_buf_def)

lemma copy_size_and_data_append:
  assumes "length data < 2 ^ 32" "alloc_ok al (length data)"
  shows "copy_size_and_data_from_buf al (le_bytes 4 (of_nat (length data) :: u32) @ data @ rest) = (Some data, rest)"
proof -
  have "unat (of_nat (length data) :: u32) = length data"
    using assms(1) by (simp add: unat_of_nat take_bit_nat_eq_self)
  then show ?thesis using assms(2)
    by (auto simp: copy_size_and_data_from_buf_def simp flip: unat_eq_0)
qed

text \<open>Reads only consume: the rest is a suffix of the buffer.\<close>

lemma copy_suffix:
  "copy_from_buf n buf = (r, rest) \<Longrightarrow> \<exists>k. rest = drop k buf"
  "copy_uint32_from_buf buf = (v, rest) \<Longrightarrow> \<exists>k. rest = drop k buf"
  "copy_uint64_from_buf buf = (x, rest) \<Longrightarrow> \<exists>k. rest = drop k buf"
proof -
  show *: "copy_from_buf n buf = (r, rest) \<Longrightarrow> \<exists>k. rest = drop k buf" for n r rest
    by (auto simp: copy_from_buf_def split: if_splits intro: exI [of _ 0])
  show "copy_uint32_from_buf buf = (v, rest) \<Longrightarrow> \<exists>k. rest = drop k buf"
    "copy_uint64_from_buf buf = (x, rest) \<Longrightarrow> \<exists>k. rest = drop k buf"
    by (auto simp: copy_uint32_from_buf_def copy_uint64_from_buf_def dest: * split: prod.splits)
qed

section \<open>Buffer\<close>

text \<open>
  \<open>class Buffer\<close>: the block (\<open>buffer_size_\<close> is its length) and the two positions. A failed assertion is
  \<^term>\<open>None\<close>.
\<close>

record km_buffer =
  buffer_data :: "byte list"
  read_position :: nat
  write_position :: nat

definition new_Buffer :: km_buffer where
  "new_Buffer = \<lparr>buffer_data = [], read_position = 0, write_position = 0\<rparr>"

definition Buffer_Clear :: "km_buffer \<Rightarrow> km_buffer" where
  "Buffer_Clear b = \<lparr>buffer_data = [], read_position = 0, write_position = 0\<rparr>"

definition available_write :: "km_buffer \<Rightarrow> nat option" where
  "available_write b =
     (if length (buffer_data b) \<ge> write_position b then Some (length (buffer_data b) - write_position b) else None)"

definition available_read :: "km_buffer \<Rightarrow> nat option" where
  "available_read b =
     (if length (buffer_data b) \<ge> write_position b \<and> write_position b \<ge> read_position b
      then Some (write_position b - read_position b) else None)"

definition fresh_block :: "allocator \<Rightarrow> nat \<Rightarrow> byte list" where
  "fresh_block al n = map (alloc_fill al) [0..<n]"

text \<open>The new size is computed in \<open>size_t\<close>; the bytes copied into a smaller block would overrun it.\<close>

definition Buffer_reserve :: "allocator \<Rightarrow> nat \<Rightarrow> km_buffer \<Rightarrow> (bool \<times> km_buffer) option" where
  "Buffer_reserve al n b =
     do { room \<leftarrow> available_write b;
          if room < n then
            do { let new_size = (length (buffer_data b) + n - room) mod 2 ^ 64;
                 if \<not> alloc_ok al new_size then Some (False, b)
                 else do { readable \<leftarrow> available_read b;
                           if readable > new_size then None else Some (True, \<lparr>buffer_data = memcpy_at 0 (take readable (drop (read_position b) (buffer_data b)))
                                          (fresh_block al new_size),
                                        read_position = 0, write_position = write_position b - read_position b\<rparr>) } }
          else Some (True, b) }"

definition Buffer_Reinitialize_size :: "allocator \<Rightarrow> nat \<Rightarrow> km_buffer \<Rightarrow> bool \<times> km_buffer" where
  "Buffer_Reinitialize_size al n b =
     (let b = Buffer_Clear b
      in if \<not> alloc_ok al n then (False, b)
         else (True, \<lparr>buffer_data = fresh_block al n, read_position = 0, write_position = 0\<rparr>))"

definition Buffer_Reinitialize :: "allocator \<Rightarrow> byte list \<Rightarrow> km_buffer \<Rightarrow> bool \<times> km_buffer" where
  "Buffer_Reinitialize al data b =
     (let b = Buffer_Clear b
      in if \<not> alloc_ok al (length data) then (False, b)
         else (True, \<lparr>buffer_data = data, read_position = 0, write_position = length data\<rparr>))"

definition Buffer_write :: "byte list \<Rightarrow> km_buffer \<Rightarrow> (bool \<times> km_buffer) option" where
  "Buffer_write src b =
     do { room \<leftarrow> available_write b;
          Some (if room < length src then (False, b)
                else (True, b\<lparr>buffer_data := memcpy_at (write_position b) src (buffer_data b),
                              write_position := write_position b + length src\<rparr>)) }"

definition Buffer_read :: "nat \<Rightarrow> km_buffer \<Rightarrow> (byte list option \<times> km_buffer) option" where
  "Buffer_read n b =
     do { readable \<leftarrow> available_read b;
          Some (if readable < n then (None, b)
                else (Some (take n (drop (read_position b) (buffer_data b))),
                      b\<lparr>read_position := read_position b + n\<rparr>)) }"

definition peek_read :: "km_buffer \<Rightarrow> byte list option" where
  "peek_read b = do { n \<leftarrow> available_read b; Some (take n (drop (read_position b) (buffer_data b))) }"

text \<open>The distance is an \<open>int\<close>, the sum a \<open>size_t\<close>.\<close>

definition advance_read :: "int \<Rightarrow> km_buffer \<Rightarrow> bool \<times> km_buffer" where
  "advance_read distance b =
     (let p = nat ((int (read_position b) + distance) mod 2 ^ 64)
      in if p \<le> write_position b then (True, b\<lparr>read_position := p\<rparr>) else (False, b))"

definition advance_write :: "int \<Rightarrow> km_buffer \<Rightarrow> bool \<times> km_buffer" where
  "advance_write distance b =
     (let p = nat ((int (write_position b) + distance) mod 2 ^ 64)
      in if p \<le> length (buffer_data b) then (True, b\<lparr>write_position := p\<rparr>) else (False, b))"

definition Buffer_SerializedSize :: "km_buffer \<Rightarrow> nat option" where
  "Buffer_SerializedSize b = do { n \<leftarrow> available_read b; Some (4 + n) }"

definition Buffer_Serialize :: "km_buffer \<Rightarrow> wbuf \<Rightarrow> wbuf option" where
  "Buffer_Serialize b w = do { data \<leftarrow> peek_read b; Some (append_size_and_data_to_buf data w) }"

definition Buffer_Deserialize :: "allocator \<Rightarrow> byte list \<Rightarrow> km_buffer \<Rightarrow> bool \<times> km_buffer \<times> byte list" where
  "Buffer_Deserialize al buf b =
     (let b = Buffer_Clear b
      in case copy_size_and_data_from_buf al buf of
           (None, buf) \<Rightarrow> (False, b, buf)
         | (Some data, buf) \<Rightarrow> (True, b\<lparr>buffer_data := data, write_position := length data\<rparr>, buf))"

text \<open>The positions are in order, and the readable bytes are a queue.\<close>

definition Buffer_ok :: "km_buffer \<Rightarrow> bool" where
  "Buffer_ok b \<longleftrightarrow> read_position b \<le> write_position b \<and> write_position b \<le> length (buffer_data b) \<and>
     length (buffer_data b) < 2 ^ 63"

definition readable :: "km_buffer \<Rightarrow> byte list" where
  "readable b = window (read_position b) (write_position b) (buffer_data b)"

lemma Buffer_available [simp]:
  "Buffer_ok b \<Longrightarrow> available_read b = Some (length (readable b))"
  "Buffer_ok b \<Longrightarrow> available_write b = Some (length (buffer_data b) - write_position b)"
  by (auto simp: Buffer_ok_def available_read_def available_write_def readable_def)

lemma peek_read_ok: "Buffer_ok b \<Longrightarrow> peek_read b = Some (readable b)"
  by (auto simp: peek_read_def Buffer_ok_def available_read_def readable_def window_def)

lemma readable_data:
  "Buffer_ok b \<Longrightarrow> take (length (readable b)) (drop (read_position b) (buffer_data b)) = readable b"
  by (auto simp: Buffer_ok_def readable_def window_def)

lemma Buffer_write_ok:
  assumes "Buffer_ok b"
  shows "\<exists>r b'. Buffer_write src b = Some (r, b') \<and> Buffer_ok b' \<and>
    readable b' = readable b @ (if r then src else []) \<and> (r \<longleftrightarrow> length src \<le> length (buffer_data b) - write_position b)"
proof (cases "length (buffer_data b) - write_position b < length src")
  case True
  then show ?thesis using assms by (auto simp: Buffer_write_def)
next
  case False
  let ?b = "b\<lparr>buffer_data := memcpy_at (write_position b) src (buffer_data b), write_position := write_position b + length src\<rparr>"
  have "Buffer_write src b = Some (True, ?b)" using False assms by (auto simp: Buffer_write_def)
  moreover have "Buffer_ok ?b" using assms False by (auto simp: Buffer_ok_def)
  moreover have "readable ?b = readable b @ src"
    using assms False by (auto simp: readable_def window_def Buffer_ok_def memcpy_at_def drop_take)
  ultimately show ?thesis using False by auto
qed

lemma Buffer_read_ok:
  assumes "Buffer_ok b"
  shows "\<exists>r b'. Buffer_read n b = Some (r, b') \<and> Buffer_ok b' \<and>
    (case r of None \<Rightarrow> readable b' = readable b \<and> length (readable b) < n
     | Some d \<Rightarrow> readable b = d @ readable b' \<and> length d = n)"
proof (cases "length (readable b) < n")
  case True
  then show ?thesis using assms by (simp add: Buffer_read_def)
next
  case False
  let ?b = "b\<lparr>read_position := read_position b + n\<rparr>" and ?d = "take n (drop (read_position b) (buffer_data b))"
  have n: "n \<le> write_position b - read_position b" using False assms by (simp add: readable_def Buffer_ok_def)
  then have "readable ?b = drop n (readable b)" "?d = take n (readable b)"
    by (simp_all add: readable_def drop_window) (simp add: window_def min_absorb1)
  moreover have "Buffer_ok ?b" using False assms by (auto simp: Buffer_ok_def readable_def)
  moreover have "Buffer_read n b = Some (Some ?d, ?b)" using False assms by (simp add: Buffer_read_def)
  ultimately show ?thesis using False by (auto simp: min_def)
qed

lemma Buffer_reserve_ok:
  assumes "Buffer_ok b" "length (buffer_data b) + n < 2 ^ 63"
  shows "\<exists>r b'. Buffer_reserve al n b = Some (r, b') \<and> Buffer_ok b' \<and> readable b' = readable b \<and>
    length (buffer_data b') \<le> length (buffer_data b) + n \<and>
    (r \<longrightarrow> n \<le> length (buffer_data b') - write_position b')"
proof (cases "length (buffer_data b) - write_position b < n")
  case False
  then show ?thesis using assms by (auto simp: Buffer_reserve_def)
next
  case True
  define N where "N = length (buffer_data b) + n - (length (buffer_data b) - write_position b)"
  define B where "B = \<lparr>buffer_data = memcpy_at 0 (readable b) (fresh_block al N), read_position = 0,
    write_position = write_position b - read_position b\<rparr>"
  have l: "length (readable b) = write_position b - read_position b" "N = write_position b + n"
    using assms(1) True by (auto simp: readable_def Buffer_ok_def N_def)
  then have len: "length (buffer_data B) = N" by (simp add: B_def fresh_block_def)
  have ok: "Buffer_ok B" using assms len l by (simp add: Buffer_ok_def B_def)
  have "readable B = take (length (readable b)) (buffer_data B)"
    unfolding l(1) by (simp add: B_def readable_def [of B, unfolded B_def] window_def)
  then have q: "readable B = readable b" by (simp add: memcpy_at_def B_def)
  have room: "length (buffer_data B) \<le> length (buffer_data b) + n" "n \<le> length (buffer_data B) - write_position B"
    using assms(1) len l by (auto simp: Buffer_ok_def B_def)
  have r: "Buffer_reserve al n b = Some (if alloc_ok al N then (True, B) else (False, b))"
  proof -
    have "N mod 2 ^ 64 = N" using assms l(2) by (intro mod_less) (auto simp: Buffer_ok_def)
    moreover have "\<not> N < length (readable b)" using l by simp
    ultimately show ?thesis
      using True assms(1) readable_data [OF assms(1)] by (simp add: Buffer_reserve_def Let_def B_def flip: N_def)
  qed
  show ?thesis
  proof (cases "alloc_ok al N")
    case True
    then show ?thesis using r ok q room by auto
  next
    case False
    then show ?thesis using r assms by auto
  qed
qed

text \<open>A request close to the largest \<open>size_t\<close> wraps around: the copy overruns the small new block.\<close>

lemma Buffer_reserve_wraps:
  assumes "Buffer_ok b" "readable b \<noteq> []" "length (buffer_data b) < 2 ^ 63" "alloc_ok al 0"
  shows "Buffer_reserve al (2 ^ 64 - write_position b) b = None"
proof -
  have w: "read_position b < write_position b" "write_position b \<le> length (buffer_data b)"
    using assms(1,2) by (auto simp: Buffer_ok_def readable_def window_def)
  have "length (buffer_data b) + (2 ^ 64 - write_position b) - (length (buffer_data b) - write_position b) = (2 ^ 64 :: nat)"
    using w(2) assms(3) by simp
  then show ?thesis using w assms(1,3,4) by (simp add: Buffer_reserve_def Buffer_ok_def Let_def available_write_def available_read_def)
qed

section \<open>A buffer is a queue\<close>

datatype buffer_op = Write "byte list" | Read nat | Reserve nat

text \<open>The bytes written and read by a sequence of operations.\<close>

fun Buffer_run :: "allocator \<Rightarrow> buffer_op list \<Rightarrow> km_buffer \<Rightarrow> (byte list \<times> byte list \<times> km_buffer) option" where
  "Buffer_run al [] b = Some ([], [], b)"
| "Buffer_run al (Write d # ops) b =
     do { (r, b) \<leftarrow> Buffer_write d b;
          (written, got, b) \<leftarrow> Buffer_run al ops b;
          Some ((if r then d else []) @ written, got, b) }"
| "Buffer_run al (Read n # ops) b =
     do { (r, b) \<leftarrow> Buffer_read n b;
          (written, got, b) \<leftarrow> Buffer_run al ops b;
          Some (written, (case r of None \<Rightarrow> [] | Some d \<Rightarrow> d) @ got, b) }"
| "Buffer_run al (Reserve n # ops) b =
     do { (r, b) \<leftarrow> Buffer_reserve al n b; Buffer_run al ops b }"

definition op_growth :: "buffer_op \<Rightarrow> nat" where
  "op_growth p = (case p of Reserve n \<Rightarrow> n | _ \<Rightarrow> 0)"

lemma Buffer_write_length: "Buffer_write d b = Some (r, b') \<Longrightarrow> Buffer_ok b \<Longrightarrow> length (buffer_data b') = length (buffer_data b)"
  by (auto simp: Buffer_write_def Buffer_ok_def split: if_splits)

lemma Buffer_read_length: "Buffer_read n b = Some (r, b') \<Longrightarrow> length (buffer_data b') = length (buffer_data b)"
  by (auto simp: Buffer_read_def split: if_splits Option.bind_splits)

lemma Buffer_run_queue:
  "Buffer_ok b \<Longrightarrow> length (buffer_data b) + sum_list (map op_growth ops) < 2 ^ 63 \<Longrightarrow>
   \<exists>written got b'. Buffer_run al ops b = Some (written, got, b') \<and> Buffer_ok b' \<and>
     readable b @ written = got @ readable b'"
proof (induction ops arbitrary: b)
  case (Cons p ops)
  show ?case
  proof (cases p)
    case (Write d)
    obtain r b1 where w: "Buffer_write d b = Some (r, b1)" "Buffer_ok b1" "readable b1 = readable b @ (if r then d else [])"
      using Buffer_write_ok [OF Cons.prems(1)] by blast
    with Cons.IH [of b1] Cons.prems Buffer_write_length [OF w(1)] show ?thesis
      by (auto simp: Write op_growth_def)
  next
    case (Read n)
    obtain r b1 where w: "Buffer_read n b = Some (r, b1)" "Buffer_ok b1"
        "case r of None \<Rightarrow> readable b1 = readable b \<and> length (readable b) < n | Some d \<Rightarrow> readable b = d @ readable b1 \<and> length d = n"
      using Buffer_read_ok [OF Cons.prems(1)] by blast
    with Cons.IH [of b1] Cons.prems Buffer_read_length [OF w(1)] show ?thesis
      by (cases r) (auto simp: Read op_growth_def)
  next
    case (Reserve n)
    obtain r b1 where w: "Buffer_reserve al n b = Some (r, b1)" "Buffer_ok b1" "readable b1 = readable b"
        "length (buffer_data b1) \<le> length (buffer_data b) + n"
      using Buffer_reserve_ok [OF Cons.prems(1), of n al] Cons.prems(2) by (auto simp: Reserve op_growth_def)
    with Cons.IH [of b1] Cons.prems show ?thesis by (auto simp: Reserve op_growth_def)
  qed
qed simp

lemma Buffer_serialize_roundtrip:
  assumes "Buffer_ok b" "length (readable b) < 2 ^ 32" "alloc_ok al (length (readable b))"
    "has_room (4 + length (readable b)) w"
  shows "\<exists>bytes. Buffer_Serialize b w = Some (put bytes w) \<and> Buffer_SerializedSize b = Some (length bytes) \<and>
    Buffer_Deserialize al (bytes @ rest) b0 =
      (True, \<lparr>buffer_data = readable b, read_position = 0, write_position = length (readable b)\<rparr>, rest)"
  using assms append_size_and_data_room [OF assms(4)] copy_size_and_data_append [OF assms(2,3)]
  by (auto simp: Buffer_Serialize_def Buffer_SerializedSize_def Buffer_Deserialize_def Buffer_Clear_def peek_read_ok Let_def
      intro!: exI [of _ "le_bytes 4 (of_nat (length (readable b)) :: u32) @ readable b"])

end
