(* ===== verification/Km_AuthSet.thy ===== *)
theory Km_AuthSet
  imports Km_Serial
begin

text \<open>
  \<open>class AuthorizationSet\<close> of keymaster (\<open>authorization_set.h\<close>, \<open>authorization_set.cpp\<close>): a growable array
  of tagged parameters whose byte strings live in one block of indirect data.

  The tags, their types and \<open>keymaster_param_compare\<close> are declared in \<open>hardware/keymaster_defs.h\<close>,
  outside the sources: they are the parameter \<open>km_defs\<close>, together with \<open>qsort\<close> of the C library.
  A parameter that is passed in holds its bytes, an element of a set the offset and length of its bytes in
  the indirect data; moving that block does not change offsets. Reading a member of a union that is not
  the active one, an access outside a block and a failed assertion are \<^term>\<open>None\<close>. Sizes fit an \<open>int\<close>.
\<close>

section \<open>Parameters\<close>

datatype keymaster_tag_type_t =
  KM_INVALID | KM_ENUM | KM_ENUM_REP | KM_UINT | KM_UINT_REP | KM_ULONG | KM_ULONG_REP | KM_DATE | KM_BOOL
| KM_BIGNUM | KM_BYTES | KM_OTHER

text \<open>The union: \<open>enumerated\<close> and \<open>integer\<close>, \<open>long_integer\<close> and \<open>date_time\<close>, \<open>boolean\<close>, \<open>blob\<close>.\<close>

datatype 'b km_value = VNone | VInt u32 | VLong u64 | VBool bool | VBlob 'b

record 'b km_param =
  p_tag :: u32
  p_value :: "'b km_value"

type_synonym blob_ref = "nat \<times> nat"

record km_defs =
  tag_get_type :: "u32 \<Rightarrow> keymaster_tag_type_t"
  KM_TAG_INVALID :: u32
  param_compare :: "byte list km_param \<Rightarrow> byte list km_param \<Rightarrow> int"
  param_size :: nat
  km_qsort :: "(blob_ref km_param \<Rightarrow> blob_ref km_param \<Rightarrow> int) \<Rightarrow> blob_ref km_param list \<Rightarrow> blob_ref km_param list"

definition is_blob_tag :: "km_defs \<Rightarrow> u32 \<Rightarrow> bool" where
  "is_blob_tag d tag \<longleftrightarrow> tag_get_type d tag = KM_BYTES \<or> tag_get_type d tag = KM_BIGNUM"

definition as_int :: "'b km_value \<Rightarrow> u32 option" where
  "as_int v = (case v of VInt x \<Rightarrow> Some x | _ \<Rightarrow> None)"

definition as_long :: "'b km_value \<Rightarrow> u64 option" where
  "as_long v = (case v of VLong x \<Rightarrow> Some x | _ \<Rightarrow> None)"

definition as_bool :: "'b km_value \<Rightarrow> bool option" where
  "as_bool v = (case v of VBool x \<Rightarrow> Some x | _ \<Rightarrow> None)"

definition as_blob :: "'b km_value \<Rightarrow> 'b option" where
  "as_blob v = (case v of VBlob x \<Rightarrow> Some x | _ \<Rightarrow> None)"

section \<open>Sets\<close>

datatype auth_error = OK | ALLOCATION_FAILURE | MALFORMED_DATA

text \<open>
  \<open>indirect_data\<close> are the \<open>indirect_data_size_\<close> bytes in use, \<open>indirect_data_capacity\<close> is the member of that
  name, and \<open>indirect_block\<close> the size of the block that is really allocated.
\<close>

record auth_set =
  elems :: "blob_ref km_param list"
  elems_capacity :: nat
  indirect_data :: "byte list"
  indirect_data_capacity :: nat
  indirect_block :: nat
  set_error :: auth_error

definition new_AuthorizationSet :: auth_set where
  "new_AuthorizationSet = \<lparr>elems = [], elems_capacity = 0, indirect_data = [], indirect_data_capacity = 0,
     indirect_block = 0, set_error = OK\<rparr>"

text \<open>The value of an element, with its bytes.\<close>

definition blob_at :: "byte list \<Rightarrow> blob_ref \<Rightarrow> byte list" where
  "blob_at ind r = take (snd r) (drop (fst r) ind)"

definition value_of :: "byte list \<Rightarrow> blob_ref km_param \<Rightarrow> byte list km_param" where
  "value_of ind p = \<lparr>p_tag = p_tag p, p_value = map_km_value (blob_at ind) (p_value p)\<rparr>"

definition set_values :: "auth_set \<Rightarrow> byte list km_param list" where
  "set_values s = map (value_of (indirect_data s)) (elems s)"

definition Set_Clear :: "auth_set \<Rightarrow> auth_set" where
  "Set_Clear s = s\<lparr>elems := [], indirect_data := []\<rparr>"

definition FreeData :: "auth_set \<Rightarrow> auth_set" where
  "FreeData s = (Set_Clear s)\<lparr>elems_capacity := 0, indirect_data_capacity := 0, indirect_block := 0, set_error := OK\<rparr>"

definition set_invalid :: "auth_error \<Rightarrow> auth_set \<Rightarrow> auth_set" where
  "set_invalid err s = (FreeData s)\<lparr>set_error := err\<rparr>"

definition reserve_elems :: "km_defs \<Rightarrow> allocator \<Rightarrow> nat \<Rightarrow> auth_set \<Rightarrow> bool \<times> auth_set" where
  "reserve_elems d al count s =
     (if set_error s \<noteq> OK then (False, s)
      else if count > elems_capacity s then
        (if \<not> alloc_ok al (param_size d * count) then (False, set_invalid ALLOCATION_FAILURE s)
         else (True, s\<lparr>elems_capacity := count\<rparr>))
      else (True, s))"

definition reserve_indirect :: "allocator \<Rightarrow> nat \<Rightarrow> auth_set \<Rightarrow> (bool \<times> auth_set) option" where
  "reserve_indirect al n s =
     (if set_error s \<noteq> OK then Some (False, s)
      else if n > indirect_data_capacity s then
        (if \<not> alloc_ok al n then Some (False, set_invalid ALLOCATION_FAILURE s)
         else if length (indirect_data s) > n then None
         else Some (True, s\<lparr>indirect_data_capacity := n, indirect_block := n\<rparr>))
      else Some (True, s))"

text \<open>\<open>MoveFrom\<close>: the new content of the target and of the source.\<close>

definition MoveFrom :: "auth_set \<Rightarrow> auth_set \<times> auth_set" where
  "MoveFrom src = (src, new_AuthorizationSet)"

fun ComputeIndirectDataSize :: "km_defs \<Rightarrow> byte list km_param list \<Rightarrow> nat option" where
  "ComputeIndirectDataSize d [] = Some 0"
| "ComputeIndirectDataSize d (p # ps) =
     do { n \<leftarrow> (if is_blob_tag d (p_tag p) then map_option length (as_blob (p_value p)) else Some 0);
          m \<leftarrow> ComputeIndirectDataSize d ps;
          Some (n + m) }"

text \<open>An element for the parameter \<open>p\<close> whose bytes are copied to offset \<open>pos\<close>, and these bytes.\<close>

definition own_param :: "km_defs \<Rightarrow> nat \<Rightarrow> byte list km_param \<Rightarrow> (blob_ref km_param \<times> byte list) option" where
  "own_param d pos p =
     (if is_blob_tag d (p_tag p)
      then do { b \<leftarrow> as_blob (p_value p); Some (\<lparr>p_tag = p_tag p, p_value = VBlob (pos, length b)\<rparr>, b) }
      else (case p_value p of
              VBlob b \<Rightarrow> None
            | v \<Rightarrow> Some (\<lparr>p_tag = p_tag p, p_value = map_km_value (\<lambda>_. (0, 0)) v\<rparr>, [])))"

text \<open>\<open>CopyIndirectData\<close>: the elements and the bytes from position \<open>pos\<close> on.\<close>

fun CopyIndirectData ::
  "km_defs \<Rightarrow> nat \<Rightarrow> byte list km_param list \<Rightarrow> (blob_ref km_param list \<times> byte list) option" where
  "CopyIndirectData d pos [] = Some ([], [])"
| "CopyIndirectData d pos (p # ps) =
     do { (e, b) \<leftarrow> own_param d pos p;
          (es, bs) \<leftarrow> CopyIndirectData d (pos + length b) ps;
          Some (e # es, b @ bs) }"

text \<open>\<open>Reinitialize\<close>: a null pointer is the empty list.\<close>

definition Set_Reinitialize :: "km_defs \<Rightarrow> allocator \<Rightarrow> byte list km_param list \<Rightarrow> auth_set \<Rightarrow> (bool \<times> auth_set) option" where
  "Set_Reinitialize d al ps s =
     (let s = FreeData s
      in if ps = [] then Some (True, s\<lparr>set_error := OK\<rparr>)
         else case reserve_elems d al (length ps) s of
           (False, s) \<Rightarrow> Some (False, s)
         | (True, s) \<Rightarrow>
             do { n \<leftarrow> ComputeIndirectDataSize d ps;
                  (ok, s) \<leftarrow> reserve_indirect al n s;
                  if \<not> ok then Some (False, s)
                  else do { (es, bs) \<leftarrow> CopyIndirectData d 0 ps;
                            if length bs \<noteq> indirect_data_capacity s then None
                            else Some (True, s\<lparr>elems := es, indirect_data := bs, set_error := OK\<rparr>) } })"

section \<open>Sorting, union and difference\<close>

definition elem_compare :: "km_defs \<Rightarrow> byte list \<Rightarrow> blob_ref km_param \<Rightarrow> blob_ref km_param \<Rightarrow> int" where
  "elem_compare d ind a b = param_compare d (value_of ind a) (value_of ind b)"

definition Set_Sort :: "km_defs \<Rightarrow> auth_set \<Rightarrow> auth_set" where
  "Set_Sort d s = s\<lparr>elems := km_qsort d (elem_compare d (indirect_data s)) (elems s)\<rparr>"

text \<open>The loop that marks duplicates, with the number of invalid entries it counts.\<close>

fun mark_duplicates ::
  "km_defs \<Rightarrow> byte list \<Rightarrow> blob_ref km_param list \<Rightarrow> blob_ref km_param list \<times> nat" where
  "mark_duplicates d ind (a # b # es) =
     (case mark_duplicates d ind (b # es) of
        (es, n) \<Rightarrow>
          if p_tag a = KM_TAG_INVALID d then (a # es, Suc n)
          else if elem_compare d ind a b = 0 then (a\<lparr>p_tag := KM_TAG_INVALID d\<rparr> # es, Suc n)
          else (a # es, n))"
| "mark_duplicates d ind [a] = ([a], if p_tag a = KM_TAG_INVALID d then 1 else 0)"
| "mark_duplicates d ind [] = ([], 0)"

definition Deduplicate :: "km_defs \<Rightarrow> auth_set \<Rightarrow> auth_set" where
  "Deduplicate d s =
     (let s = Set_Sort d s;
          (es, invalid_count) = mark_duplicates d (indirect_data s) (elems s);
          s = s\<lparr>elems := es\<rparr>
      in if invalid_count = 0 then s
         else let s = Set_Sort d s in s\<lparr>elems := drop invalid_count (elems s)\<rparr>)"

text \<open>\<open>find(tag, begin)\<close>, started after \<open>begin\<close>; beyond the size it returns the start itself.\<close>

definition find_tag :: "auth_set \<Rightarrow> u32 \<Rightarrow> nat \<Rightarrow> nat option" where
  "find_tag s tag start =
     (if set_error s \<noteq> OK then None
      else if start > length (elems s) then Some start
      else find (\<lambda>i. p_tag (elems s ! i) = tag) [start..<length (elems s)])"

lemma find_tag_bounds:
  "find_tag s tag start = Some i \<Longrightarrow> start \<le> i"
  by (auto simp: find_tag_def find_Some_iff split: if_splits)

definition erase :: "nat \<Rightarrow> auth_set \<Rightarrow> bool \<times> auth_set" where
  "erase i s =
     (if i \<ge> length (elems s) then (False, s)
      else (True, s\<lparr>elems := take i (elems s) @ drop (Suc i) (elems s)\<rparr>))"

text \<open>The \<open>do\<close> loop of \<open>Difference\<close> for one parameter.\<close>

function difference_one :: "km_defs \<Rightarrow> byte list km_param \<Rightarrow> nat \<Rightarrow> auth_set \<Rightarrow> auth_set option" where
  "difference_one d p start s =
     (case find_tag s (p_tag p) start of
        None \<Rightarrow> Some s
      | Some i \<Rightarrow>
          if i \<ge> length (elems s) then None
          else if param_compare d (value_of (indirect_data s) (elems s ! i)) p = 0 then Some (snd (erase i s))
          else difference_one d p (Suc i) s)"
  by pat_completeness auto
termination
  by (relation "measure (\<lambda>(d, p, start, s). length (elems s) - start)") (auto dest: find_tag_bounds)

fun difference_loop :: "km_defs \<Rightarrow> byte list km_param list \<Rightarrow> auth_set \<Rightarrow> auth_set option" where
  "difference_loop d [] s = Some s"
| "difference_loop d (p # ps) s = do { s \<leftarrow> difference_one d p 0 s; difference_loop d ps s }"

definition Set_Difference :: "km_defs \<Rightarrow> byte list km_param list \<Rightarrow> auth_set \<Rightarrow> auth_set option" where
  "Set_Difference d ps s = (if ps = [] then Some s else difference_loop d ps (Deduplicate d s))"

definition CopyToParamSet :: "km_defs \<Rightarrow> allocator \<Rightarrow> auth_set \<Rightarrow> byte list km_param list option" where
  "CopyToParamSet d al s =
     (if (elems s \<noteq> [] \<and> \<not> alloc_ok al (param_size d * length (elems s))) \<or>
         (\<exists>p \<in> set (set_values s). is_blob_tag d (p_tag p) \<and>
            (case p_value p of VBlob b \<Rightarrow> b \<noteq> [] \<and> \<not> alloc_ok al (length b) | _ \<Rightarrow> True))
      then None else Some (set_values s))"

text \<open>\<open>operator[]\<close> for an index that is not negative.\<close>

definition set_at :: "km_defs \<Rightarrow> auth_set \<Rightarrow> nat \<Rightarrow> blob_ref km_param" where
  "set_at d s i =
     (if set_error s = OK \<and> i < length (elems s) then elems s ! i else \<lparr>p_tag = KM_TAG_INVALID d, p_value = VNone\<rparr>)"

section \<open>Adding elements\<close>

definition STARTING_ELEMS_CAPACITY :: nat where "STARTING_ELEMS_CAPACITY = 8"

text \<open>The free room in the indirect data is a difference of two \<open>size_t\<close>.\<close>

definition push_back :: "km_defs \<Rightarrow> allocator \<Rightarrow> byte list km_param \<Rightarrow> auth_set \<Rightarrow> (bool \<times> auth_set) option" where
  "push_back d al p s =
     (if set_error s \<noteq> OK then Some (False, s)
      else case (if length (elems s) \<ge> elems_capacity s
                 then reserve_elems d al (if elems_capacity s \<noteq> 0 then elems_capacity s * 2 else STARTING_ELEMS_CAPACITY) s
                 else (True, s)) of
        (False, s) \<Rightarrow> Some (False, s)
      | (True, s) \<Rightarrow>
          do { (e, b) \<leftarrow> own_param d (length (indirect_data s)) p;
               (ok, s) \<leftarrow> (if is_blob_tag d (p_tag p) \<and>
                   nat ((int (indirect_data_capacity s) - int (length (indirect_data s))) mod 2 ^ 64) < length b
                 then reserve_indirect al (2 * (indirect_data_capacity s + length b)) s
                 else Some (True, s));
               if \<not> ok then Some (False, s)
               else if length (indirect_data s) + length b > indirect_block s \<and> b \<noteq> [] then None
               else Some (True, s\<lparr>elems := elems s @ [e], indirect_data := indirect_data s @ b\<rparr>) })"

fun push_back_all :: "km_defs \<Rightarrow> allocator \<Rightarrow> byte list km_param list \<Rightarrow> auth_set \<Rightarrow> (bool \<times> auth_set) option" where
  "push_back_all d al [] s = Some (True, s)"
| "push_back_all d al (p # ps) s =
     do { (ok, s) \<leftarrow> push_back d al p s;
          if \<not> ok then Some (False, s) else push_back_all d al ps s }"

definition push_back_set ::
  "km_defs \<Rightarrow> allocator \<Rightarrow> byte list km_param list \<Rightarrow> auth_set \<Rightarrow> (bool \<times> auth_set) option" where
  "push_back_set d al ps s =
     (if set_error s \<noteq> OK then Some (False, s)
      else case reserve_elems d al (length (elems s) + length ps) s of
        (False, s) \<Rightarrow> Some (False, s)
      | (True, s) \<Rightarrow>
          do { n \<leftarrow> ComputeIndirectDataSize d ps;
               (ok, s) \<leftarrow> reserve_indirect al (length (indirect_data s) + n) s;
               if \<not> ok then Some (False, s) else push_back_all d al ps s })"

definition Set_Union :: "km_defs \<Rightarrow> allocator \<Rightarrow> byte list km_param list \<Rightarrow> auth_set \<Rightarrow> auth_set option" where
  "Set_Union d al ps s =
     (if ps = [] then Some s
      else do { (_, s) \<leftarrow> push_back_set d al ps s; Some (Deduplicate d s) })"

section \<open>Serialization\<close>

definition serialized_size :: "km_defs \<Rightarrow> 'b km_param \<Rightarrow> nat" where
  "serialized_size d p =
     (case tag_get_type d (p_tag p) of
        KM_INVALID \<Rightarrow> 4
      | KM_ENUM \<Rightarrow> 8 | KM_ENUM_REP \<Rightarrow> 8 | KM_UINT \<Rightarrow> 8 | KM_UINT_REP \<Rightarrow> 8
      | KM_ULONG \<Rightarrow> 12 | KM_ULONG_REP \<Rightarrow> 12 | KM_DATE \<Rightarrow> 12
      | KM_BOOL \<Rightarrow> 5
      | KM_BIGNUM \<Rightarrow> 12 | KM_BYTES \<Rightarrow> 12
      | KM_OTHER \<Rightarrow> 4)"

text \<open>A boolean advances the position even when there is no room for it.\<close>

definition append_bool :: "bool \<Rightarrow> wbuf \<Rightarrow> wbuf" where
  "append_bool v w =
     (let w' = (if wb_pos w < length (wb_block w) then w\<lparr>wb_block := (wb_block w)[wb_pos w := of_bool v]\<rparr> else w)
      in w'\<lparr>wb_pos := wb_pos w + 1\<rparr>)"

definition serialize_param :: "km_defs \<Rightarrow> blob_ref km_param \<Rightarrow> wbuf \<Rightarrow> wbuf option" where
  "serialize_param d p w =
     (let w = append_uint32_to_buf (p_tag p) w
      in case tag_get_type d (p_tag p) of
           KM_INVALID \<Rightarrow> Some w
         | KM_ENUM \<Rightarrow> do { v \<leftarrow> as_int (p_value p); Some (append_uint32_to_buf v w) }
         | KM_ENUM_REP \<Rightarrow> do { v \<leftarrow> as_int (p_value p); Some (append_uint32_to_buf v w) }
         | KM_UINT \<Rightarrow> do { v \<leftarrow> as_int (p_value p); Some (append_uint32_to_buf v w) }
         | KM_UINT_REP \<Rightarrow> do { v \<leftarrow> as_int (p_value p); Some (append_uint32_to_buf v w) }
         | KM_ULONG \<Rightarrow> do { v \<leftarrow> as_long (p_value p); Some (append_uint64_to_buf v w) }
         | KM_ULONG_REP \<Rightarrow> do { v \<leftarrow> as_long (p_value p); Some (append_uint64_to_buf v w) }
         | KM_DATE \<Rightarrow> do { v \<leftarrow> as_long (p_value p); Some (append_uint64_to_buf v w) }
         | KM_BOOL \<Rightarrow> do { v \<leftarrow> as_bool (p_value p); Some (append_bool v w) }
         | KM_BIGNUM \<Rightarrow> do { (off, len) \<leftarrow> as_blob (p_value p);
                            Some (append_uint32_to_buf (of_nat off) (append_uint32_to_buf (of_nat len) w)) }
         | KM_BYTES \<Rightarrow> do { (off, len) \<leftarrow> as_blob (p_value p);
                           Some (append_uint32_to_buf (of_nat off) (append_uint32_to_buf (of_nat len) w)) }
         | KM_OTHER \<Rightarrow> Some w)"

definition SerializedSizeOfElements :: "km_defs \<Rightarrow> auth_set \<Rightarrow> nat" where
  "SerializedSizeOfElements d s = sum_list (map (serialized_size d) (elems s))"

definition Set_SerializedSize :: "km_defs \<Rightarrow> auth_set \<Rightarrow> nat" where
  "Set_SerializedSize d s = 4 + length (indirect_data s) + 4 + 4 + SerializedSizeOfElements d s"

fun serialize_params :: "km_defs \<Rightarrow> blob_ref km_param list \<Rightarrow> wbuf \<Rightarrow> wbuf option" where
  "serialize_params d [] w = Some w"
| "serialize_params d (p # ps) w = do { w \<leftarrow> serialize_param d p w; serialize_params d ps w }"

definition Set_Serialize :: "km_defs \<Rightarrow> auth_set \<Rightarrow> wbuf \<Rightarrow> wbuf option" where
  "Set_Serialize d s w =
     (let w = append_size_and_data_to_buf (indirect_data s) w;
          w = append_uint32_to_buf (of_nat (length (elems s))) w;
          w = append_uint32_to_buf (of_nat (SerializedSizeOfElements d s)) w
      in serialize_params d (elems s) w)"

text \<open>
  \<open>deserialize\<close>: the parameter, with offsets into indirect data of \<open>n\<close> bytes, and the rest of the buffer.
\<close>

definition read_int :: "u32 \<Rightarrow> byte list \<Rightarrow> blob_ref km_param option \<times> byte list" where
  "read_int tag buf =
     (case copy_uint32_from_buf buf of (v, buf) \<Rightarrow> (map_option (\<lambda>v. \<lparr>p_tag = tag, p_value = VInt v\<rparr>) v, buf))"

definition read_long :: "u32 \<Rightarrow> byte list \<Rightarrow> blob_ref km_param option \<times> byte list" where
  "read_long tag buf =
     (case copy_uint64_from_buf buf of (v, buf) \<Rightarrow> (map_option (\<lambda>v. \<lparr>p_tag = tag, p_value = VLong v\<rparr>) v, buf))"

definition read_blob :: "nat \<Rightarrow> u32 \<Rightarrow> byte list \<Rightarrow> blob_ref km_param option \<times> byte list" where
  "read_blob n tag buf =
     (case copy_uint32_from_buf buf of
        (None, buf) \<Rightarrow> (None, buf)
      | (Some len, buf) \<Rightarrow>
          (case copy_uint32_from_buf buf of
             (None, buf) \<Rightarrow> (None, buf)
           | (Some off, buf) \<Rightarrow>
               if unat off > n \<or> unat off + unat len > n then (None, buf)
               else (Some \<lparr>p_tag = tag, p_value = VBlob (unat off, unat len)\<rparr>, buf)))"

definition deserialize_param :: "km_defs \<Rightarrow> nat \<Rightarrow> byte list \<Rightarrow> blob_ref km_param option \<times> byte list" where
  "deserialize_param d n buf =
     (case copy_uint32_from_buf buf of
        (None, buf) \<Rightarrow> (None, buf)
      | (Some tag, buf) \<Rightarrow>
          (case tag_get_type d tag of
             KM_INVALID \<Rightarrow> (None, buf)
           | KM_ENUM \<Rightarrow> read_int tag buf | KM_ENUM_REP \<Rightarrow> read_int tag buf
           | KM_UINT \<Rightarrow> read_int tag buf | KM_UINT_REP \<Rightarrow> read_int tag buf
           | KM_ULONG \<Rightarrow> read_long tag buf | KM_ULONG_REP \<Rightarrow> read_long tag buf
           | KM_DATE \<Rightarrow> read_long tag buf
           | KM_BOOL \<Rightarrow> (case buf of [] \<Rightarrow> (None, buf) | b # buf \<Rightarrow> (Some \<lparr>p_tag = tag, p_value = VBool (b \<noteq> 0)\<rparr>, buf))
           | KM_BIGNUM \<Rightarrow> read_blob n tag buf | KM_BYTES \<Rightarrow> read_blob n tag buf
           | KM_OTHER \<Rightarrow> (None, buf)))"

fun deserialize_params :: "km_defs \<Rightarrow> nat \<Rightarrow> nat \<Rightarrow> byte list \<Rightarrow> blob_ref km_param list option \<times> byte list" where
  "deserialize_params d n 0 buf = (Some [], buf)"
| "deserialize_params d n (Suc count) buf =
     (case deserialize_param d n buf of
        (None, buf) \<Rightarrow> (None, buf)
      | (Some p, buf) \<Rightarrow> (case deserialize_params d n count buf of (ps, buf) \<Rightarrow> (map_option ((#) p) ps, buf)))"

definition DeserializeIndirectData :: "allocator \<Rightarrow> byte list \<Rightarrow> auth_set \<Rightarrow> bool \<times> auth_set \<times> byte list" where
  "DeserializeIndirectData al buf s =
     (case copy_size_and_data_from_buf al buf of
        (None, buf) \<Rightarrow> (False, set_invalid MALFORMED_DATA s, buf)
      | (Some data, buf) \<Rightarrow> (True, s\<lparr>indirect_data := data, indirect_block := length data\<rparr>, buf))"

text \<open>The elements are read from the next \<open>elements_size\<close> bytes; what they leave stays in the buffer.\<close>

definition DeserializeElementsData ::
  "km_defs \<Rightarrow> allocator \<Rightarrow> byte list \<Rightarrow> auth_set \<Rightarrow> bool \<times> auth_set \<times> byte list" where
  "DeserializeElementsData d al buf s =
     (case copy_uint32_from_buf buf of
        (None, buf) \<Rightarrow> (False, set_invalid MALFORMED_DATA s, buf)
      | (Some count, buf) \<Rightarrow>
          (case copy_uint32_from_buf buf of
             (None, buf) \<Rightarrow> (False, set_invalid MALFORMED_DATA s, buf)
           | (Some elements_size, buf) \<Rightarrow>
               if unat elements_size > length buf \<or> unat count * 4 > unat elements_size
               then (False, set_invalid MALFORMED_DATA s, buf)
               else case reserve_elems d al (unat count) s of
                 (False, s) \<Rightarrow> (False, s, buf)
               | (True, s) \<Rightarrow>
                   (case deserialize_params d (length (indirect_data s)) (unat count) (take (unat elements_size) buf) of
                      (ps, rest) \<Rightarrow>
                        let buf = drop (unat elements_size - length rest) buf
                        in (case ps of
                              None \<Rightarrow> (False, set_invalid MALFORMED_DATA s, buf)
                            | Some ps \<Rightarrow> (True, s\<lparr>elems := ps\<rparr>, buf)))))"

definition elems_indirect_size :: "km_defs \<Rightarrow> blob_ref km_param list \<Rightarrow> nat" where
  "elems_indirect_size d ps =
     sum_list (map (\<lambda>p. if is_blob_tag d (p_tag p) then (case p_value p of VBlob (off, len) \<Rightarrow> len | _ \<Rightarrow> 0) else 0) ps)"

definition Set_Deserialize :: "km_defs \<Rightarrow> allocator \<Rightarrow> byte list \<Rightarrow> auth_set \<Rightarrow> bool \<times> auth_set \<times> byte list" where
  "Set_Deserialize d al buf s =
     (case DeserializeIndirectData al buf (FreeData s) of
        (False, s, buf) \<Rightarrow> (False, s, buf)
      | (True, s, buf) \<Rightarrow>
          (case DeserializeElementsData d al buf s of
             (False, s, buf) \<Rightarrow> (False, s, buf)
           | (True, s, buf) \<Rightarrow>
               if length (indirect_data s) \<noteq> elems_indirect_size d (elems s)
               then (False, set_invalid MALFORMED_DATA s, buf)
               else (True, s, buf)))"

section \<open>Looking up values\<close>

function count_from :: "auth_set \<Rightarrow> u32 \<Rightarrow> nat \<Rightarrow> nat" where
  "count_from s tag start =
     (case find_tag s tag start of
        None \<Rightarrow> 0
      | Some i \<Rightarrow> if i \<ge> length (elems s) then 0 else Suc (count_from s tag (Suc i)))"
  by pat_completeness auto
termination
  by (relation "measure (\<lambda>(s, tag, start). length (elems s) - start)") (auto dest: find_tag_bounds)

definition GetTagCount :: "auth_set \<Rightarrow> u32 \<Rightarrow> nat" where
  "GetTagCount s tag = count_from s tag 0"

text \<open>The position of instance \<open>n\<close> of a tag.\<close>

fun find_instance :: "auth_set \<Rightarrow> u32 \<Rightarrow> nat \<Rightarrow> nat \<Rightarrow> nat option" where
  "find_instance s tag 0 start = find_tag s tag start"
| "find_instance s tag (Suc n) start = do { i \<leftarrow> find_tag s tag start; find_instance s tag n (Suc i) }"

definition get_at :: "('v \<Rightarrow> 'w option) \<Rightarrow> (blob_ref km_param \<Rightarrow> 'v) \<Rightarrow> nat option \<Rightarrow> auth_set \<Rightarrow> 'w option option" where
  "get_at read member pos s =
     (case pos of
        None \<Rightarrow> Some None
      | Some i \<Rightarrow> if i \<ge> length (elems s) then None else map_option Some (read (member (elems s ! i))))"

definition GetTagValueEnum :: "auth_set \<Rightarrow> u32 \<Rightarrow> u32 option option" where
  "GetTagValueEnum s tag = get_at as_int p_value (find_tag s tag 0) s"

definition GetTagValueEnumRep :: "auth_set \<Rightarrow> u32 \<Rightarrow> nat \<Rightarrow> u32 option option" where
  "GetTagValueEnumRep s tag n = get_at as_int p_value (find_instance s tag n 0) s"

definition GetTagValueInt :: "auth_set \<Rightarrow> u32 \<Rightarrow> u32 option option" where
  "GetTagValueInt s tag = get_at as_int p_value (find_tag s tag 0) s"

definition GetTagValueIntRep :: "auth_set \<Rightarrow> u32 \<Rightarrow> nat \<Rightarrow> u32 option option" where
  "GetTagValueIntRep s tag n = get_at as_int p_value (find_instance s tag n 0) s"

definition GetTagValueLong :: "auth_set \<Rightarrow> u32 \<Rightarrow> u64 option option" where
  "GetTagValueLong s tag = get_at as_long p_value (find_tag s tag 0) s"

definition GetTagValueLongRep :: "auth_set \<Rightarrow> u32 \<Rightarrow> nat \<Rightarrow> u64 option option" where
  "GetTagValueLongRep s tag n = get_at as_long p_value (find_instance s tag n 0) s"

definition GetTagValueDate :: "auth_set \<Rightarrow> u32 \<Rightarrow> u64 option option" where
  "GetTagValueDate s tag = get_at as_long p_value (find_tag s tag 0) s"

definition GetTagValueBlob :: "auth_set \<Rightarrow> u32 \<Rightarrow> byte list option option" where
  "GetTagValueBlob s tag = get_at as_blob (\<lambda>p. p_value (value_of (indirect_data s) p)) (find_tag s tag 0) s"

text \<open>The value of a boolean tag that is present is asserted to be true.\<close>

definition GetTagValueBool :: "auth_set \<Rightarrow> u32 \<Rightarrow> bool option" where
  "GetTagValueBool s tag =
     (case find_tag s tag 0 of
        None \<Rightarrow> Some False
      | Some i \<Rightarrow> if i \<ge> length (elems s) then None
                  else do { b \<leftarrow> as_bool (p_value (elems s ! i)); if b then Some True else None })"

fun contains_int :: "blob_ref km_param list \<Rightarrow> u32 \<Rightarrow> u32 \<Rightarrow> bool option" where
  "contains_int [] tag v = Some False"
| "contains_int (p # ps) tag v =
     (if p_tag p = tag then do { x \<leftarrow> as_int (p_value p); if x = v then Some True else contains_int ps tag v }
      else contains_int ps tag v)"

definition ContainsEnumValue :: "auth_set \<Rightarrow> u32 \<Rightarrow> u32 \<Rightarrow> bool option" where
  "ContainsEnumValue s tag v = contains_int (elems s) tag v"

definition ContainsIntValue :: "auth_set \<Rightarrow> u32 \<Rightarrow> u32 \<Rightarrow> bool option" where
  "ContainsIntValue s tag v = contains_int (elems s) tag v"

end
