(* ===== verification/Km_AuthSerial.thy ===== *)
theory Km_AuthSerial
  imports Km_AuthSet
begin

text \<open>
  Serialization of authorization sets: whatever bytes are deserialized, the set is well formed, and a set
  built from parameters survives a round trip.
\<close>

section \<open>Well-formed sets\<close>

text \<open>A value of the member that the type of the tag selects.\<close>

definition value_fits :: "keymaster_tag_type_t \<Rightarrow> 'b km_value \<Rightarrow> bool" where
  "value_fits t v =
     (case t of
        KM_INVALID \<Rightarrow> (case v of VNone \<Rightarrow> True | _ \<Rightarrow> False)
      | KM_OTHER \<Rightarrow> (case v of VNone \<Rightarrow> True | _ \<Rightarrow> False)
      | KM_BOOL \<Rightarrow> (case v of VBool _ \<Rightarrow> True | _ \<Rightarrow> False)
      | KM_BIGNUM \<Rightarrow> (case v of VBlob _ \<Rightarrow> True | _ \<Rightarrow> False)
      | KM_BYTES \<Rightarrow> (case v of VBlob _ \<Rightarrow> True | _ \<Rightarrow> False)
      | KM_ULONG \<Rightarrow> (case v of VLong _ \<Rightarrow> True | _ \<Rightarrow> False)
      | KM_ULONG_REP \<Rightarrow> (case v of VLong _ \<Rightarrow> True | _ \<Rightarrow> False)
      | KM_DATE \<Rightarrow> (case v of VLong _ \<Rightarrow> True | _ \<Rightarrow> False)
      | _ \<Rightarrow> (case v of VInt _ \<Rightarrow> True | _ \<Rightarrow> False))"

definition typed :: "km_defs \<Rightarrow> 'b km_param \<Rightarrow> bool" where
  "typed d p \<longleftrightarrow> value_fits (tag_get_type d (p_tag p)) (p_value p)"

text \<open>A tag that can be sent: its type is one of those the format knows.\<close>

definition sendable :: "km_defs \<Rightarrow> 'b km_param \<Rightarrow> bool" where
  "sendable d p \<longleftrightarrow> tag_get_type d (p_tag p) \<noteq> KM_INVALID \<and> tag_get_type d (p_tag p) \<noteq> KM_OTHER \<and> typed d p"

definition in_range :: "nat \<Rightarrow> blob_ref km_param \<Rightarrow> bool" where
  "in_range n p = (case p_value p of VBlob (off, len) \<Rightarrow> off + len \<le> n | _ \<Rightarrow> True)"

definition set_ok :: "km_defs \<Rightarrow> auth_set \<Rightarrow> bool" where
  "set_ok d s \<longleftrightarrow>
     list_all (\<lambda>p. typed d p \<and> in_range (length (indirect_data s)) p) (elems s) \<and>
     length (elems s) \<le> elems_capacity s \<and> length (indirect_data s) \<le> indirect_block s \<and>
     indirect_data_capacity s \<le> indirect_block s \<and> (set_error s = OK \<or> elems s = [] \<and> indirect_data s = [])"

lemma sendable_cases:
  assumes "sendable d (p :: 'b km_param)"
  obtains (int) v where "p_value p = VInt v" "tag_get_type d (p_tag p) \<in> {KM_ENUM, KM_ENUM_REP, KM_UINT, KM_UINT_REP}"
  | (long) v where "p_value p = VLong v" "tag_get_type d (p_tag p) \<in> {KM_ULONG, KM_ULONG_REP, KM_DATE}"
  | (bool) v where "p_value p = VBool v" "tag_get_type d (p_tag p) = KM_BOOL"
  | (blob) b where "p_value p = VBlob b" "tag_get_type d (p_tag p) \<in> {KM_BIGNUM, KM_BYTES}"
  using assms that
  by (cases "tag_get_type d (p_tag p)"; cases "p_value p") (auto simp: sendable_def typed_def value_fits_def)

lemma sendable_blob: "sendable d p \<Longrightarrow> is_blob_tag d (p_tag p) \<longleftrightarrow> (\<exists>b. p_value p = VBlob b)"
  by (erule sendable_cases) (auto simp: is_blob_tag_def)

lemma typed_value_of [simp]: "typed d (value_of ind p) = typed d p"
  by (cases "p_value p"; cases "tag_get_type d (p_tag p)") (auto simp: typed_def value_of_def value_fits_def)

section \<open>Deserialization is safe\<close>

lemma deserialize_param_ok:
  assumes "deserialize_param d n buf = (Some p, rest)"
  shows "sendable d p \<and> in_range n p \<and> length rest < length buf"
proof -
  obtain tag buf1 where t: "copy_uint32_from_buf buf = (Some tag, buf1)"
    using assms by (cases "copy_uint32_from_buf buf" rule: prod.exhaust; cases "fst (copy_uint32_from_buf buf)")
      (auto simp: deserialize_param_def)
  then have l: "length buf1 + 4 = length buf"
    by (auto simp: copy_uint32_from_buf_def copy_from_buf_def split: if_splits)
  show ?thesis using assms t l
    by (cases "tag_get_type d tag")
      (auto simp: deserialize_param_def read_int_def read_long_def read_blob_def copy_uint32_from_buf_def
        copy_uint64_from_buf_def copy_from_buf_def sendable_def typed_def value_fits_def in_range_def
        split: if_splits list.splits)
qed

lemma deserialize_param_suffix:
  assumes "deserialize_param d n buf = (r, rest)"
  shows "\<exists>k. rest = drop k buf"
proof -
  have c: "\<exists>k. snd (copy_uint32_from_buf b) = drop k b" "\<exists>k. snd (copy_uint64_from_buf b) = drop k b" for b
    using copy_suffix(2) [of b "fst (copy_uint32_from_buf b)"] copy_suffix(3) [of b "fst (copy_uint64_from_buf b)"] by auto
  obtain v buf1 where t: "copy_uint32_from_buf buf = (v, buf1)" by fastforce
  then obtain k where k: "buf1 = drop k buf" using c(1) [of buf] by auto
  have i: "\<exists>j. snd (read_int tag b) = drop j b" "\<exists>j. snd (read_long tag b) = drop j b" for tag b
    using c [of b] by (auto simp: read_int_def read_long_def split: prod.splits)
  have b: "\<exists>j. snd (read_blob n tag b) = drop j b" for tag b
  proof -
    obtain v1 b1 v2 b2 where cc: "copy_uint32_from_buf b = (v1, b1)" "copy_uint32_from_buf b1 = (v2, b2)" by fastforce
    then obtain i j where "b1 = drop i b" "b2 = drop j b1" using c(1) [of b] c(1) [of b1] by auto
    then show ?thesis using cc by (cases v1; cases v2) (auto simp: read_blob_def)
  qed
  have "\<exists>j. rest = drop j buf1"
    using assms t i [of "the v" buf1] b [of "the v" buf1]
    by (cases v; cases "tag_get_type d (the v)")
      (auto simp: deserialize_param_def intro: exI [of _ 0] exI [of _ 1] split: list.splits)
  then show ?thesis using k by auto
qed

lemma deserialize_params_ok:
  "deserialize_params d n count buf = (Some ps, rest) \<Longrightarrow>
     length ps = count \<and> list_all (\<lambda>p. sendable d p \<and> in_range n p) ps"
proof (induction count arbitrary: buf ps)
  case (Suc count)
  then show ?case
    by (auto dest: deserialize_param_ok split: prod.splits option.splits)
qed simp

lemma deserialize_params_suffix:
  "deserialize_params d n count buf = (ps, rest) \<Longrightarrow> \<exists>k. rest = drop k buf"
proof (induction count arbitrary: buf ps)
  case (Suc count)
  obtain r buf1 where r: "deserialize_param d n buf = (r, buf1)" by fastforce
  then obtain k where k: "buf1 = drop k buf" using deserialize_param_suffix by blast
  show ?case using Suc.prems r k Suc.IH by (cases r) (fastforce split: prod.splits)+
qed (auto intro: exI [of _ 0])

lemma FreeData_new: "FreeData s = new_AuthorizationSet"
  by (cases s) (simp add: FreeData_def Set_Clear_def new_AuthorizationSet_def)

lemma set_ok_invalid [simp]: "set_ok d (set_invalid e s)" "elems (set_invalid e s) = []" "set_error (set_invalid e s) = e"
  by (simp_all add: set_ok_def set_invalid_def FreeData_def Set_Clear_def)

lemma copy_size_and_data_suffix:
  assumes "copy_size_and_data_from_buf al buf = (r, rest)"
  shows "\<exists>k. rest = drop k buf"
proof -
  obtain n b where c: "copy_uint32_from_buf buf = (n, b)" by fastforce
  then obtain j where "b = drop j buf" using copy_suffix(2) by blast
  then show ?thesis using assms c
    by (cases n) (auto simp: copy_size_and_data_from_buf_def copy_from_buf_def split: if_splits)
qed

lemma DeserializeElementsData_ok:
  assumes "DeserializeElementsData d al buf s = (ok, s', rest)" "elems s = []" "set_error s = OK"
    "length (indirect_data s) \<le> indirect_block s" "indirect_data_capacity s \<le> indirect_block s"
  shows "set_ok d s' \<and> (\<exists>k. rest = drop k buf) \<and>
    (if ok then set_error s' = OK \<and> list_all (sendable d) (elems s') \<and> indirect_data s' = indirect_data s
     else elems s' = [] \<and> set_error s' \<noteq> OK)"
proof -
  obtain count b2 where c: "copy_uint32_from_buf buf = (count, b2)" by fastforce
  obtain size b3 where e: "copy_uint32_from_buf b2 = (size, b3)" by fastforce
  have k: "\<exists>k. b2 = drop k buf" "\<exists>k. drop j b3 = drop k buf" for j
    using copy_suffix(2) [OF c] copy_suffix(2) [OF e] by auto
  have k3: "\<exists>k. b3 = drop k buf" using k(2) [of 0] by simp
  show ?thesis
  proof (cases "count = None \<or> size = None")
    case True
    then show ?thesis using assms(1) c e k(1) k3
      by (cases count; cases size) (auto simp: DeserializeElementsData_def)
  next
    case False
    then obtain n m where nm: "count = Some n" "size = Some m" by auto
    show ?thesis
    proof (cases "unat m > length b3 \<or> unat n * 4 > unat m \<or> \<not> fst (reserve_elems d al (unat n) s)")
      case True
      then show ?thesis using assms(1,3) c e nm k3
        by (auto simp: DeserializeElementsData_def reserve_elems_def split: if_splits)
    next
      case False
      then have r: "reserve_elems d al (unat n) s = (True, s\<lparr>elems_capacity := max (unat n) (elems_capacity s)\<rparr>)"
        using assms(3) by (cases s) (auto simp: reserve_elems_def max_def split: if_splits)
      obtain ps rest' where p: "deserialize_params d (length (indirect_data s)) (unat n) (take (unat m) b3) = (ps, rest')"
        by fastforce
      show ?thesis
      proof (cases ps)
        case None
        then show ?thesis using assms(1) c e nm r p False k(2) by (auto simp: DeserializeElementsData_def Let_def)
      next
        case (Some xs)
        then show ?thesis using assms c e nm r p False k(2) deserialize_params_ok [OF p [unfolded Some]]
          by (auto simp: DeserializeElementsData_def Let_def set_ok_def list_all_iff sendable_def)
      qed
    qed
  qed
qed

lemma Set_Deserialize_ok:
  assumes "Set_Deserialize d al buf s0 = (ok, s, rest)"
  shows "set_ok d s \<and> (\<exists>k. rest = drop k buf) \<and>
    (if ok then set_error s = OK \<and> list_all (sendable d) (elems s) \<and> elems_indirect_size d (elems s) = length (indirect_data s)
     else elems s = [] \<and> set_error s \<noteq> OK)"
proof -
  obtain data buf1 where d1: "copy_size_and_data_from_buf al buf = (data, buf1)" by fastforce
  then obtain k where k: "buf1 = drop k buf" using copy_size_and_data_suffix by blast
  show ?thesis
  proof (cases data)
    case None
    then show ?thesis using assms d1 k by (auto simp: Set_Deserialize_def DeserializeIndirectData_def)
  next
    case (Some bytes)
    define s1 where "s1 = (FreeData s0)\<lparr>indirect_data := bytes, indirect_block := length bytes\<rparr>"
    have s1: "elems s1 = []" "set_error s1 = OK" "length (indirect_data s1) \<le> indirect_block s1"
      "indirect_data_capacity s1 \<le> indirect_block s1"
      by (simp_all add: s1_def FreeData_def Set_Clear_def)
    obtain ok2 s2 buf2 where e: "DeserializeElementsData d al buf1 s1 = (ok2, s2, buf2)" by (metis surj_pair)
    note E = DeserializeElementsData_ok [OF e s1]
    then show ?thesis using assms d1 Some e k
      by (cases ok2) (auto simp: Set_Deserialize_def DeserializeIndirectData_def simp flip: s1_def split: if_splits)
  qed
qed

section \<open>Round trip\<close>

definition param_bytes :: "blob_ref km_param \<Rightarrow> byte list" where
  "param_bytes p = le_bytes 4 (p_tag p) @
     (case p_value p of
        VInt v \<Rightarrow> le_bytes 4 v
      | VLong v \<Rightarrow> le_bytes 8 v
      | VBool v \<Rightarrow> [of_bool v]
      | VBlob (off, len) \<Rightarrow> le_bytes 4 (of_nat len :: u32) @ le_bytes 4 (of_nat off :: u32)
      | VNone \<Rightarrow> [])"

lemma length_param_bytes: "sendable d p \<Longrightarrow> length (param_bytes p) = serialized_size d p"
  by (erule sendable_cases) (auto simp: param_bytes_def serialized_size_def split: prod.splits)

lemma append_bool_room: "has_room 1 w \<Longrightarrow> append_bool v w = put [of_bool v] w"
  by (auto simp: append_bool_def has_room_def put_def memcpy_at_def upd_conv_take_nth_drop)

lemma serialize_param_put:
  assumes "sendable d p" "has_room (serialized_size d p) w"
  shows "serialize_param d p w = Some (put (param_bytes p) w)"
  using assms(1)
proof (cases rule: sendable_cases)
  case (int v)
  then have "has_room 8 w" using assms(2) by (auto simp: serialized_size_def)
  then have "has_room 4 w" "has_room 4 (put (le_bytes 4 (p_tag p)) w)" "has_room (4 + 4) w"
    by (simp_all add: has_room_def put_def)
  then show ?thesis using int
    by (auto simp: serialize_param_def as_int_def append_uint_room put_put param_bytes_def)
next
  case (long v)
  then have "has_room 12 w" using assms(2) by (auto simp: serialized_size_def)
  then have "has_room 4 w" "has_room 8 (put (le_bytes 4 (p_tag p)) w)" "has_room (4 + 8) w"
    by (simp_all add: has_room_def put_def)
  then show ?thesis using long
    by (auto simp: serialize_param_def as_long_def append_uint_room put_put param_bytes_def)
next
  case (bool v)
  then have "has_room 5 w" using assms(2) by (auto simp: serialized_size_def)
  then have "has_room 4 w" "has_room 1 (put (le_bytes 4 (p_tag p)) w)" "has_room (4 + 1) w"
    by (simp_all add: has_room_def put_def)
  then show ?thesis using bool
    by (auto simp: serialize_param_def as_bool_def append_uint_room append_bool_room put_put param_bytes_def)
next
  case (blob b)
  obtain off len where b: "b = (off, len)" by fastforce
  have "has_room 12 w" using assms(2) blob by (auto simp: serialized_size_def)
  then have "has_room 4 w" "has_room 4 (put (le_bytes 4 (p_tag p)) w)" "has_room (4 + 4) w" "has_room (8 + 4) w"
      "has_room 4 (put (le_bytes 4 (p_tag p) @ le_bytes 4 (of_nat len :: u32)) w)"
    by (simp_all add: has_room_def put_def)
  then show ?thesis using blob b
    by (auto simp: serialize_param_def as_blob_def append_uint_room put_put param_bytes_def)
qed

lemma deserialize_param_bytes:
  assumes "sendable d p" "in_range n p" "n < 2 ^ 32"
  shows "deserialize_param d n (param_bytes p @ rest) = (Some p, rest)"
  using assms(1)
proof (cases rule: sendable_cases)
  case (blob b)
  obtain off len where b: "b = (off, len)" by fastforce
  have "off + len \<le> n" using assms(2) blob(1) b by (simp add: in_range_def)
  then have "unat (of_nat off :: u32) = off" "unat (of_nat len :: u32) = len"
    using assms(3) by (simp_all add: unat_of_nat take_bit_nat_eq_self)
  then show ?thesis using blob b \<open>off + len \<le> n\<close>
    by (cases p) (auto simp: deserialize_param_def param_bytes_def read_blob_def)
qed (cases p, auto simp: deserialize_param_def param_bytes_def read_int_def read_long_def)+

lemma serialize_params_put:
  "list_all (sendable d) ps \<Longrightarrow> has_room (sum_list (map (serialized_size d) ps)) w \<Longrightarrow>
   serialize_params d ps w = Some (put (concat (map param_bytes ps)) w)"
proof (induction ps arbitrary: w)
  case Nil
  then show ?case by (simp add: put_def memcpy_at_def)
next
  case (Cons p ps)
  have w: "serialize_param d p w = Some (put (param_bytes p) w)"
    using Cons.prems by (intro serialize_param_put) (auto intro: has_room_le)
  have r: "has_room (sum_list (map (serialized_size d) ps)) (put (param_bytes p) w)"
    using Cons.prems by (intro has_room_put) (simp add: length_param_bytes [of d])
  have "length (concat (map param_bytes ps)) = sum_list (map (serialized_size d) ps)"
    using Cons.prems(1) by (simp add: length_concat comp_def list_all_iff length_param_bytes [of d] cong: map_cong)
  then show ?case using Cons w r by (simp add: put_put length_param_bytes [of d])
qed

lemma deserialize_params_bytes:
  "list_all (\<lambda>p. sendable d p \<and> in_range n p) ps \<Longrightarrow> n < 2 ^ 32 \<Longrightarrow>
   deserialize_params d n (length ps) (concat (map param_bytes ps) @ rest) = (Some ps, rest)"
  by (induction ps) (simp_all add: deserialize_param_bytes)

text \<open>The bytes of a set, and that they are what is written and read.\<close>

definition set_bytes :: "km_defs \<Rightarrow> auth_set \<Rightarrow> byte list" where
  "set_bytes d s = le_bytes 4 (of_nat (length (indirect_data s)) :: u32) @ indirect_data s @
     le_bytes 4 (of_nat (length (elems s)) :: u32) @ le_bytes 4 (of_nat (SerializedSizeOfElements d s) :: u32) @
     concat (map param_bytes (elems s))"

lemma length_set_bytes:
  "list_all (sendable d) (elems s) \<Longrightarrow> length (set_bytes d s) = Set_SerializedSize d s"
  by (simp add: set_bytes_def Set_SerializedSize_def SerializedSizeOfElements_def length_concat comp_def list_all_iff
      length_param_bytes [of d] cong: map_cong)

lemma Set_Serialize_put:
  assumes "list_all (sendable d) (elems s)" "has_room (Set_SerializedSize d s) w"
  shows "Set_Serialize d s w = Some (put (set_bytes d s) w)"
proof -
  let ?a = "le_bytes 4 (of_nat (length (indirect_data s)) :: u32) @ indirect_data s"
  let ?b = "le_bytes 4 (of_nat (length (elems s)) :: u32)" and ?c = "le_bytes 4 (of_nat (SerializedSizeOfElements d s) :: u32)"
  have room: "has_room (4 + length (indirect_data s)) w" "has_room 4 (put ?a w)" "has_room 4 (put (?a @ ?b) w)"
    "has_room (sum_list (map (serialized_size d) (elems s))) (put ((?a @ ?b) @ ?c) w)"
    "has_room (length ?a + length ?b) w" "has_room (length (?a @ ?b) + length ?c) w"
    "has_room (length ((?a @ ?b) @ ?c) + length (concat (map param_bytes (elems s)))) w"
    using assms(2) length_set_bytes [OF assms(1)]
    by (simp_all add: has_room_def put_def Set_SerializedSize_def SerializedSizeOfElements_def set_bytes_def)
  have "Set_Serialize d s w = serialize_params d (elems s) (put ((?a @ ?b) @ ?c) w)"
    using room by (simp only: Set_Serialize_def Let_def append_size_and_data_room append_uint_room put_put)
  also have "\<dots> = Some (put (concat (map param_bytes (elems s))) (put ((?a @ ?b) @ ?c) w))"
    by (rule serialize_params_put [OF assms(1) room(4)])
  finally show ?thesis using room(7) by (simp add: put_put set_bytes_def)
qed

text \<open>Deserialization accepts the bytes exactly when all indirect data is referred to.\<close>

lemma Set_Deserialize_bytes:
  assumes "list_all (\<lambda>p. sendable d p \<and> in_range (length (indirect_data s)) p) (elems s)"
    "length (indirect_data s) < 2 ^ 32" "SerializedSizeOfElements d s < 2 ^ 32" "alloc_total al"
  shows "Set_Deserialize d al (set_bytes d s @ rest) s0 =
    (if elems_indirect_size d (elems s) = length (indirect_data s)
     then (True, \<lparr>elems = elems s, elems_capacity = length (elems s), indirect_data = indirect_data s,
        indirect_data_capacity = 0, indirect_block = length (indirect_data s), set_error = OK\<rparr>, rest)
     else (False, set_invalid MALFORMED_DATA new_AuthorizationSet, rest))"
proof -
  let ?n = "length (elems s)" and ?z = "SerializedSizeOfElements d s" and ?c = "concat (map param_bytes (elems s))"
  have s: "list_all (sendable d) (elems s)" using assms(1) by (simp add: list_all_iff)
  have z: "length ?c = ?z"
    using s by (simp add: SerializedSizeOfElements_def length_concat comp_def list_all_iff length_param_bytes [of d] cong: map_cong)
  have "4 * length ps \<le> sum_list (map (serialized_size d) ps)" for ps :: "blob_ref km_param list"
  proof (induction ps)
    case (Cons p ps)
    moreover have "4 \<le> serialized_size d p"
      by (simp add: serialized_size_def split: keymaster_tag_type_t.splits)
    ultimately show ?case by simp
  qed simp
  then have n: "?n * 4 \<le> ?z" by (simp add: SerializedSizeOfElements_def mult.commute)
  have u: "unat (of_nat ?n :: u32) = ?n" "unat (of_nat ?z :: u32) = ?z"
    using assms(3) n by (simp_all add: unat_of_nat take_bit_nat_eq_self)
  have d1: "copy_size_and_data_from_buf al (set_bytes d s @ rest) =
      (Some (indirect_data s), le_bytes 4 (of_nat ?n :: u32) @ le_bytes 4 (of_nat ?z :: u32) @ ?c @ rest)"
    using copy_size_and_data_append [OF assms(2)] assms(4) by (simp add: set_bytes_def)
  have d2: "deserialize_params d (length (indirect_data s)) ?n (take ?z (?c @ rest)) = (Some (elems s), [])"
    using deserialize_params_bytes [OF assms(1,2), of "[]"] z by simp
  let ?s1 = "\<lparr>elems = [], elems_capacity = 0, indirect_data = indirect_data s, indirect_data_capacity = 0,
    indirect_block = length (indirect_data s), set_error = OK\<rparr>"
  have r: "reserve_elems d al ?n ?s1 = (True, ?s1\<lparr>elems_capacity := ?n\<rparr>)"
    using assms(4) by (auto simp: reserve_elems_def)
  show ?thesis
    using d1 d2 r u n z
    by (auto simp: Set_Deserialize_def DeserializeIndirectData_def DeserializeElementsData_def FreeData_new
        set_invalid_def new_AuthorizationSet_def)
qed

end
