(* ===== verification/Km_AuthBuild.thy ===== *)
theory Km_AuthBuild
  imports Km_AuthSerial "HOL-Library.Multiset"
begin

text \<open>
  Building and combining authorization sets: a set initialised from parameters holds them, \<open>push_back\<close>
  appends, and \<open>Deduplicate\<close>, \<open>Union\<close> and \<open>Difference\<close> compute the set operations they are named for,
  provided \<open>keymaster_param_compare\<close> is the total order its header describes and \<open>qsort\<close> sorts.
\<close>

section \<open>Copying parameters into a set\<close>

definition param_len :: "byte list km_param \<Rightarrow> nat" where
  "param_len p = (case p_value p of VBlob b \<Rightarrow> length b | _ \<Rightarrow> 0)"

lemma typed_blob: "typed d p \<Longrightarrow> is_blob_tag d (p_tag p) \<longleftrightarrow> (\<exists>b. p_value p = VBlob b)"
  by (cases "tag_get_type d (p_tag p)"; cases "p_value p") (auto simp: typed_def value_fits_def is_blob_tag_def)

lemma own_param_typed:
  assumes "typed d p"
  obtains e b where "own_param d pos p = Some (e, b)" "p_tag e = p_tag p" "typed d e" "in_range (pos + length b) e"
    "length b = param_len p" "\<forall>pre post. length pre = pos \<longrightarrow> value_of (pre @ b @ post) e = p"
    "elems_indirect_size d [e] = length b"
proof (cases "\<exists>b. p_value p = VBlob b")
  case True
  then obtain b where VBlob: "p_value p = VBlob b" by blast
  let ?e = "\<lparr>p_tag = p_tag p, p_value = VBlob (pos, length b)\<rparr>"
  have t: "is_blob_tag d (p_tag p)" using assms VBlob by (simp add: typed_blob)
  have e: "own_param d pos p = Some (?e, b)" using t VBlob by (simp add: own_param_def as_blob_def)
  have ty: "typed d ?e" using t by (auto simp: typed_def value_fits_def is_blob_tag_def)
  have v: "value_of (pre @ b @ post) ?e = p" if "length pre = pos" for pre post
    using that VBlob by (cases p) (simp add: value_of_def blob_at_def)
  show thesis by (rule that [OF e _ ty]) (use t VBlob v in \<open>auto simp: in_range_def param_len_def elems_indirect_size_def\<close>)
next
  case False
  let ?e = "\<lparr>p_tag = p_tag p, p_value = map_km_value (\<lambda>_. (0, 0)) (p_value p)\<rparr> :: blob_ref km_param"
  have t: "\<not> is_blob_tag d (p_tag p)" using assms False by (simp add: typed_blob)
  have e: "own_param d pos p = Some (?e, [])"
    using t False by (cases "p_value p") (auto simp: own_param_def)
  have ty: "typed d ?e" using assms by (cases "p_value p") (auto simp: typed_def value_fits_def split: keymaster_tag_type_t.splits)
  have v: "value_of ind ?e = p" for ind using False by (cases p; cases "p_value p") (auto simp: value_of_def)
  show thesis
    by (rule that [OF e _ ty])
      (use t False v in \<open>cases "p_value p"; auto simp: in_range_def param_len_def elems_indirect_size_def\<close>)+
qed

lemma in_range_mono: "in_range n p \<Longrightarrow> n \<le> m \<Longrightarrow> in_range m p"
  by (auto simp: in_range_def split: km_value.splits)

lemma value_of_append: "in_range (length ind) e \<Longrightarrow> value_of (ind @ bs) e = value_of ind e"
  by (cases "p_value e") (auto simp: value_of_def in_range_def blob_at_def)

lemma elems_indirect_size_append [simp]:
  "elems_indirect_size d (ps @ qs) = elems_indirect_size d ps + elems_indirect_size d qs"
  by (simp add: elems_indirect_size_def)

lemma CopyIndirectData_ok:
  "list_all (typed d) ps \<Longrightarrow> length pre = pos \<Longrightarrow> \<exists>es bs. CopyIndirectData d pos ps = Some (es, bs) \<and>
     length es = length ps \<and> ComputeIndirectDataSize d ps = Some (length bs) \<and>
     list_all (\<lambda>e. typed d e \<and> in_range (pos + length bs) e) es \<and>
     map (value_of (pre @ bs @ post)) es = ps \<and> elems_indirect_size d es = length bs"
proof (induction ps arbitrary: pos pre)
  case Nil
  then show ?case by (simp add: elems_indirect_size_def)
next
  case (Cons p ps)
  have "typed d p" using Cons.prems(1) by simp
  obtain e b where e: "own_param d pos p = Some (e, b)" "p_tag e = p_tag p" "typed d e" "in_range (pos + length b) e"
    "length b = param_len p" "\<forall>pre post. length pre = pos \<longrightarrow> value_of (pre @ b @ post) e = p"
    "elems_indirect_size d [e] = length b" using own_param_typed [OF \<open>typed d p\<close>, of pos] by blast
  obtain es bs where es: "CopyIndirectData d (pos + length b) ps = Some (es, bs)" "length es = length ps"
      "ComputeIndirectDataSize d ps = Some (length bs)"
      "list_all (\<lambda>e. typed d e \<and> in_range (pos + length b + length bs) e) es"
      "map (value_of ((pre @ b) @ bs @ post)) es = ps" "elems_indirect_size d es = length bs"
    using Cons.IH [of "pre @ b" "pos + length b"] Cons.prems by auto
  have "elems_indirect_size d (e # es) = length (b @ bs)"
    using elems_indirect_size_append [of d "[e]" es] e(7) es(6) by simp
  moreover have "(if is_blob_tag d (p_tag p) then map_option length (as_blob (p_value p)) else Some 0) = Some (length b)"
    using \<open>typed d p\<close> e(5) by (auto simp: typed_blob as_blob_def param_len_def split: km_value.splits)
  moreover have "in_range (pos + length (b @ bs)) e" using e(4) by (rule in_range_mono) simp
  ultimately show ?case
    using e(1,3) e(6) Cons.prems(2) es by (simp add: add.assoc)
qed

text \<open>A set that all its indirect data belongs to, with room as its members say.\<close>

definition growable :: "km_defs \<Rightarrow> auth_set \<Rightarrow> bool" where
  "growable d s \<longleftrightarrow> set_ok d s \<and> set_error s = OK \<and> length (indirect_data s) \<le> indirect_data_capacity s"

lemma Set_Reinitialize_ok:
  assumes "list_all (typed d) ps" "alloc_total al"
  shows "\<exists>s. Set_Reinitialize d al ps s0 = Some (True, s) \<and> set_values s = ps \<and> growable d s \<and>
    elems_indirect_size d (elems s) = length (indirect_data s) \<and>
    ComputeIndirectDataSize d ps = Some (length (indirect_data s)) \<and> indirect_data_capacity s = length (indirect_data s)"
proof (cases "ps = []")
  case True
  then show ?thesis
    by (simp add: Set_Reinitialize_def FreeData_new new_AuthorizationSet_def set_values_def growable_def set_ok_def
        elems_indirect_size_def)
next
  case False
  obtain es bs where c: "CopyIndirectData d 0 ps = Some (es, bs)" "length es = length ps"
      "ComputeIndirectDataSize d ps = Some (length bs)" "list_all (\<lambda>e. typed d e \<and> in_range (length bs) e) es"
      "map (value_of bs) es = ps" "elems_indirect_size d es = length bs"
    using CopyIndirectData_ok [OF assms(1), of "[]" 0 "[]"] by auto
  let ?s = "\<lparr>elems = es, elems_capacity = length ps, indirect_data = bs, indirect_data_capacity = length bs,
    indirect_block = length bs, set_error = OK\<rparr>"
  have "Set_Reinitialize d al ps s0 = Some (True, ?s)"
    using False c assms(2)
    by (cases "bs = []") (auto simp: Set_Reinitialize_def FreeData_new new_AuthorizationSet_def reserve_elems_def
        reserve_indirect_def Let_def)
  then show ?thesis using c by (simp add: set_values_def growable_def set_ok_def)
qed

lemma push_back_ok:
  assumes "growable d s" "typed d p" "alloc_total al" "indirect_data_capacity s < 2 ^ 63"
  shows "\<exists>s'. push_back d al p s = Some (True, s') \<and> growable d s' \<and> set_values s' = set_values s @ [p] \<and>
    elems_indirect_size d (elems s') = elems_indirect_size d (elems s) + param_len p \<and>
    length (indirect_data s') = length (indirect_data s) + param_len p \<and>
    (length (indirect_data s) + param_len p \<le> indirect_data_capacity s \<longrightarrow>
      indirect_data_capacity s' = indirect_data_capacity s)"
proof -
  note g = assms(1) [unfolded growable_def set_ok_def]
  define s1 where "s1 = (if length (elems s) \<ge> elems_capacity s
    then s\<lparr>elems_capacity := (if elems_capacity s \<noteq> 0 then elems_capacity s * 2 else STARTING_ELEMS_CAPACITY)\<rparr> else s)"
  have r1: "(if length (elems s) \<ge> elems_capacity s
      then reserve_elems d al (if elems_capacity s \<noteq> 0 then elems_capacity s * 2 else STARTING_ELEMS_CAPACITY) s
      else (True, s)) = (True, s1)"
    using g assms(3) by (auto simp: s1_def reserve_elems_def STARTING_ELEMS_CAPACITY_def)
  have s1: "elems s1 = elems s" "indirect_data s1 = indirect_data s" "indirect_data_capacity s1 = indirect_data_capacity s"
      "indirect_block s1 = indirect_block s" "set_error s1 = OK" "length (elems s) < elems_capacity s1"
    using g by (auto simp: s1_def STARTING_ELEMS_CAPACITY_def)
  obtain e b where e: "own_param d (length (indirect_data s)) p = Some (e, b)" "p_tag e = p_tag p" "typed d e"
      "in_range (length (indirect_data s) + length b) e" "length b = param_len p"
      "\<forall>pre post. length pre = length (indirect_data s) \<longrightarrow> value_of (pre @ b @ post) e = p"
      "elems_indirect_size d [e] = length b" using own_param_typed [OF assms(2), of "length (indirect_data s)"] by blast
  let ?cap = "indirect_data_capacity s" and ?n = "length (indirect_data s)"
  have room: "nat ((int ?cap - int ?n) mod 2 ^ 64) = ?cap - ?n"
    using g assms(4) by (simp add: nat_diff_distrib flip: of_nat_diff)
  have b: "is_blob_tag d (p_tag p) \<or> b = []"
    using typed_blob [OF assms(2)] e(5) by (auto simp: param_len_def split: km_value.splits)
  define s2 where "s2 = (if is_blob_tag d (p_tag p) \<and> ?cap - ?n < length b
    then s1\<lparr>indirect_data_capacity := 2 * (?cap + length b), indirect_block := 2 * (?cap + length b)\<rparr> else s1)"
  have r2: "(if is_blob_tag d (p_tag p) \<and> nat ((int ?cap - int ?n) mod 2 ^ 64) < length b
      then reserve_indirect al (2 * (?cap + length b)) s1 else Some (True, s1)) = Some (True, s2)"
    unfolding room using g assms(3) by (auto simp: s2_def reserve_indirect_def s1)
  have s2: "elems s2 = elems s" "indirect_data s2 = indirect_data s" "?n + length b \<le> indirect_data_capacity s2"
      "indirect_data_capacity s2 \<le> indirect_block s2" "set_error s2 = OK" "elems_capacity s2 = elems_capacity s1"
      "?n + length b \<le> ?cap \<Longrightarrow> indirect_data_capacity s2 = ?cap"
    using g b s1 by (auto simp: s2_def)
  let ?s = "s2\<lparr>elems := elems s @ [e], indirect_data := indirect_data s @ b\<rparr>"
  have p: "push_back d al p s = Some (True, ?s)"
    unfolding push_back_def r1 prod.case bool.case s1(1-4) e(1) Option.bind.simps r2 using g s2 by simp
  have "value_of (indirect_data s @ b) e = p" using e(6) by (metis append_Nil2)
  moreover have "map (value_of (indirect_data s @ b)) (elems s) = set_values s"
    using g by (auto simp: set_values_def list_all_iff value_of_append)
  ultimately have "set_values ?s = set_values s @ [p]" by (simp add: set_values_def [of ?s])
  moreover have "growable d ?s"
    using g s1 s2 e(3,4) by (auto simp: growable_def set_ok_def list_all_iff intro: in_range_mono)
  ultimately show ?thesis using p e(5,7) s2(7) by auto
qed

lemma push_back_all_ok:
  "growable d s \<Longrightarrow> list_all (typed d) ps \<Longrightarrow> alloc_total al \<Longrightarrow> indirect_data_capacity s < 2 ^ 63 \<Longrightarrow>
   length (indirect_data s) + sum_list (map param_len ps) \<le> indirect_data_capacity s \<Longrightarrow>
   \<exists>s'. push_back_all d al ps s = Some (True, s') \<and> growable d s' \<and> set_values s' = set_values s @ ps"
proof (induction ps arbitrary: s)
  case (Cons p ps)
  obtain s1 where s1: "push_back d al p s = Some (True, s1)" "growable d s1" "set_values s1 = set_values s @ [p]"
      "length (indirect_data s1) = length (indirect_data s) + param_len p" "indirect_data_capacity s1 = indirect_data_capacity s"
    using push_back_ok [of d s p al] Cons.prems by auto
  then obtain s2 where "push_back_all d al ps s1 = Some (True, s2)" "growable d s2" "set_values s2 = set_values s1 @ ps"
    using Cons.IH [OF s1(2)] Cons.prems by auto
  then show ?case using s1 by simp
qed simp

lemma ComputeIndirectDataSize_typed:
  "list_all (typed d) ps \<Longrightarrow> ComputeIndirectDataSize d ps = Some (sum_list (map param_len ps))"
proof (induction ps)
  case (Cons p ps)
  then show ?case
    by (cases "p_value p") (auto simp: typed_blob param_len_def as_blob_def)
qed simp

lemma push_back_set_ok:
  assumes "set_ok d s" "set_error s = OK" "list_all (typed d) ps" "alloc_total al"
    "length (indirect_data s) + sum_list (map param_len ps) < 2 ^ 63" "indirect_data_capacity s < 2 ^ 63"
  shows "\<exists>s'. push_back_set d al ps s = Some (True, s') \<and> growable d s' \<and> set_values s' = set_values s @ ps"
proof -
  let ?n = "length (indirect_data s) + sum_list (map param_len ps)" and ?k = "length (elems s) + length ps"
  define s1 where "s1 = s\<lparr>elems_capacity := max (elems_capacity s) ?k\<rparr>"
  define s2 where "s2 = (if ?n > indirect_data_capacity s then s1\<lparr>indirect_data_capacity := ?n, indirect_block := ?n\<rparr> else s1)"
  have r1: "reserve_elems d al ?k s = (True, s1)"
    using assms(2,4) by (cases s) (auto simp: reserve_elems_def s1_def max_def)
  have r2: "reserve_indirect al ?n s1 = Some (True, s2)"
    using assms(2,4) by (auto simp: reserve_indirect_def s1_def s2_def)
  have g: "growable d s2" "?n \<le> indirect_data_capacity s2" "indirect_data_capacity s2 < 2 ^ 63"
      "indirect_data s2 = indirect_data s" "set_values s2 = set_values s"
    using assms(1,2,5,6) by (auto simp: s1_def s2_def growable_def set_ok_def set_values_def)
  have "push_back_set d al ps s = push_back_all d al ps s2"
    using assms(2) r1 r2 ComputeIndirectDataSize_typed [OF assms(3)] by (simp add: push_back_set_def s1_def)
  then show ?thesis using push_back_all_ok [OF g(1) assms(3,4) g(3)] g by simp
qed

text \<open>
  After deserialization \<open>indirect_data_capacity\<close> is zero: the subtraction wraps, and a byte string is
  copied behind the end of the block.
\<close>

lemma push_back_overflow:
  assumes "set_error s = OK" "indirect_data_capacity s = 0" "indirect_data s \<noteq> []" "indirect_block s = length (indirect_data s)"
    "typed d p" "0 < param_len p" "length (indirect_data s) + param_len p \<le> 2 ^ 64"
    "length (elems s) < elems_capacity s \<or> alloc_total al"
  shows "push_back d al p s = None"
proof -
  let ?n = "length (indirect_data s)"
  obtain b where b: "own_param d ?n p = Some (\<lparr>p_tag = p_tag p, p_value = VBlob (?n, length b)\<rparr>, b)" "length b = param_len p"
    using assms(5,6) typed_blob [OF assms(5)]
    by (cases "p_value p") (auto simp: own_param_def param_len_def as_blob_def)
  have "nat ((0 - int ?n) mod 2 ^ 64) = 2 ^ 64 - ?n"
    using assms(3,6,7) by (simp add: zmod_zminus1_eq_if nat_diff_distrib)
  then have room: "\<not> nat ((0 - int ?n) mod 2 ^ 64) < length b" using assms(7) b(2) by linarith
  show ?thesis
  proof (cases "length (elems s) \<ge> elems_capacity s")
    case True
    then show ?thesis using assms b room by (auto simp: push_back_def reserve_elems_def STARTING_ELEMS_CAPACITY_def)
  next
    case False
    then show ?thesis using assms b room by (auto simp: push_back_def)
  qed
qed

end
