(* ===== verification/Km_AuthOps.thy ===== *)
theory Km_AuthOps
  imports Km_AuthBuild
begin

text \<open>
  \<open>Deduplicate\<close>, \<open>Union\<close> and \<open>Difference\<close> of authorization sets. \<open>defs_ok\<close> states what they rely on:
  \<open>keymaster_param_compare\<close> is a total order on parameters that puts those with the invalid tag first, tells
  booleans apart by their tag and all others by tag and value, and \<open>qsort\<close> returns a sorted permutation.
\<close>

section \<open>Sorting\<close>

definition order_on :: "'a set \<Rightarrow> ('a \<Rightarrow> 'a \<Rightarrow> int) \<Rightarrow> bool" where
  "order_on A f \<longleftrightarrow> (\<forall>a\<in>A. \<forall>b\<in>A. f a b < 0 \<longleftrightarrow> 0 < f b a) \<and>
     (\<forall>a\<in>A. \<forall>b\<in>A. \<forall>c\<in>A. f a b \<le> 0 \<longrightarrow> f b c \<le> 0 \<longrightarrow> f a c \<le> 0)"

definition comparable :: "km_defs \<Rightarrow> 'b km_param \<Rightarrow> bool" where
  "comparable d p \<longleftrightarrow> typed d p \<or> p_tag p = KM_TAG_INVALID d"

text \<open>
  The comparison ignores the value of a boolean: a boolean parameter says something by being there. \<open>canon\<close> forgets
  the value.
\<close>

definition canon :: "'b km_param \<Rightarrow> 'b km_param" where
  "canon p = (case p_value p of VBool _ \<Rightarrow> p\<lparr>p_value := VBool True\<rparr> | _ \<Rightarrow> p)"

definition same_param :: "km_defs \<Rightarrow> 'b km_param \<Rightarrow> 'b km_param \<Rightarrow> bool" where
  "same_param d a b \<longleftrightarrow> p_tag a = p_tag b \<and> (p_tag a = KM_TAG_INVALID d \<or> canon a = canon b)"

definition defs_ok :: "km_defs \<Rightarrow> bool" where
  "defs_ok d \<longleftrightarrow> order_on {p. comparable d p} (param_compare d) \<and>
     (\<forall>a b. comparable d a \<longrightarrow> comparable d b \<longrightarrow> (param_compare d a b = 0 \<longleftrightarrow> same_param d a b)) \<and>
     (\<forall>a b. comparable d a \<longrightarrow> comparable d b \<longrightarrow> p_tag a = KM_TAG_INVALID d \<longrightarrow> p_tag b \<noteq> KM_TAG_INVALID d \<longrightarrow>
        param_compare d a b < 0) \<and>
     (\<forall>f es. order_on (set es) f \<longrightarrow> mset (km_qsort d f es) = mset es \<and> sorted_wrt (\<lambda>a b. f a b \<le> 0) (km_qsort d f es))"

lemma p_tag_canon [simp]: "p_tag (canon p) = p_tag p"
  by (simp add: canon_def split: km_value.split)

lemma canon_tag: "canon a = canon b \<Longrightarrow> p_tag a = p_tag b"
  using p_tag_canon by metis

lemma canon_not_bool: "(\<And>b. p_value p \<noteq> VBool b) \<Longrightarrow> canon p = p"
  by (simp add: canon_def split: km_value.split)

lemma comparable_invalid [simp]: "p_tag p = KM_TAG_INVALID d \<Longrightarrow> comparable d p"
  by (simp add: comparable_def)

lemma comparable_value_of [simp]: "comparable d (value_of ind p) = comparable d p"
  by (simp add: comparable_def) (simp add: value_of_def)

lemma p_tag_value_of [simp]: "p_tag (value_of ind p) = p_tag p"
  by (simp add: value_of_def)

lemma order_on_antisym: "order_on A f \<Longrightarrow> a \<in> A \<Longrightarrow> b \<in> A \<Longrightarrow> f a b < 0 \<longleftrightarrow> 0 < f b a"
  unfolding order_on_def by (elim conjE) simp

lemma order_on_image: "order_on A f \<Longrightarrow> g ` B \<subseteq> A \<Longrightarrow> order_on B (\<lambda>a b. f (g a) (g b))"
  unfolding order_on_def image_subset_iff by meson

lemma elem_order:
  assumes "defs_ok d" "list_all (comparable d) es"
  shows "order_on (set es) (elem_compare d ind)"
proof -
  have "order_on (set es) (\<lambda>a b. param_compare d (value_of ind a) (value_of ind b))"
  proof (rule order_on_image)
    show "order_on {p. comparable d p} (param_compare d)" using assms(1) unfolding defs_ok_def by (elim conjE)
    show "value_of ind ` set es \<subseteq> {p. comparable d p}" using assms(2) by (auto simp: list_all_iff)
  qed
  then show ?thesis by (simp add: elem_compare_def [abs_def])
qed

lemma qsort_elems:
  assumes "defs_ok d" "list_all (comparable d) es"
  shows "mset (km_qsort d (elem_compare d ind) es) = mset es"
    "sorted_wrt (\<lambda>a b. elem_compare d ind a b \<le> 0) (km_qsort d (elem_compare d ind) es)"
    "list_all (comparable d) (km_qsort d (elem_compare d ind) es)"
proof -
  show *: "mset (km_qsort d (elem_compare d ind) es) = mset es"
    "sorted_wrt (\<lambda>a b. elem_compare d ind a b \<le> 0) (km_qsort d (elem_compare d ind) es)"
    using assms(1) elem_order [OF assms, of ind] by (auto simp: defs_ok_def)
  show "list_all (comparable d) (km_qsort d (elem_compare d ind) es)"
    using assms(2) mset_eq_setD [OF *(1)] by (simp add: list_all_iff)
qed

lemma defs_ok_same:
  "defs_ok d \<Longrightarrow> comparable d a \<Longrightarrow> comparable d b \<Longrightarrow> param_compare d a b = 0 \<longleftrightarrow> same_param d a b"
  unfolding defs_ok_def by (elim conjE) simp

section \<open>Removing duplicates\<close>

abbreviation valid_tag :: "km_defs \<Rightarrow> 'b km_param \<Rightarrow> bool" where
  "valid_tag d p \<equiv> p_tag p \<noteq> KM_TAG_INVALID d"

lemma same_param_valid: "valid_tag d a \<Longrightarrow> same_param d a b \<longleftrightarrow> canon a = canon b"
  by (auto simp: same_param_def dest: canon_tag)

text \<open>What is compared of an element.\<close>

definition canonical :: "byte list \<Rightarrow> (nat \<times> nat) km_param \<Rightarrow> byte list km_param" where
  "canonical ind p = canon (value_of ind p)"

lemma p_tag_canonical [simp]: "p_tag (canonical ind p) = p_tag p"
  by (simp add: canonical_def)

lemma compare_same:
  assumes "defs_ok d" "comparable d a" "comparable d b" "valid_tag d a"
  shows "elem_compare d ind a b = 0 \<longleftrightarrow> canonical ind a = canonical ind b"
proof -
  have "elem_compare d ind a b = 0 \<longleftrightarrow> same_param d (value_of ind a) (value_of ind b)"
    using assms(1-3) by (simp add: defs_ok_def elem_compare_def)
  then show ?thesis using assms(4) same_param_valid [of "value_of ind a" d] by (simp add: canonical_def)
qed

lemma mark_duplicates_ok:
  assumes "defs_ok d" "list_all (comparable d) es" "sorted_wrt (\<lambda>a b. elem_compare d ind a b \<le> 0) es"
    "mark_duplicates d ind es = (es', n)"
  shows "n = length (filter (\<lambda>e. \<not> valid_tag d e) es') \<and> list_all (comparable d) es' \<and>
    distinct (map (canonical ind) (filter (valid_tag d) es')) \<and>
    canonical ind ` set (filter (valid_tag d) es') = canonical ind ` set (filter (valid_tag d) es) \<and>
    set (filter (valid_tag d) es') \<subseteq> set es \<and> (n = 0 \<longrightarrow> es' = es)"
  using assms
proof (induction d ind es arbitrary: es' n rule: mark_duplicates.induct)
  case (1 d ind a b es)
  obtain es1 m where r: "mark_duplicates d ind (b # es) = (es1, m)" by fastforce
  have prems: "list_all (comparable d) (b # es)" "sorted_wrt (\<lambda>a b. elem_compare d ind a b \<le> 0) (b # es)"
    using "1.prems"(2,3) by simp_all
  have IH: "m = length (filter (\<lambda>e. \<not> valid_tag d e) es1)" "list_all (comparable d) es1"
    "distinct (map (canonical ind) (filter (valid_tag d) es1))"
    "canonical ind ` set (filter (valid_tag d) es1) = canonical ind ` set (filter (valid_tag d) (b # es))"
    "set (filter (valid_tag d) es1) \<subseteq> set (b # es)" "m = 0 \<longrightarrow> es1 = b # es"
    using "1.IH" [OF "1.prems"(1) prems r] by - (elim conjE, assumption)+
  have c: "comparable d a" "comparable d b" "list_all (comparable d) es" using "1.prems"(2) by auto
  show ?case
  proof (cases "valid_tag d a")
    case False
    then have "es' = a # es1" "n = Suc m" using "1.prems"(4) r by auto
    then show ?thesis using False IH(2-4) c subset_trans [OF IH(5) set_subset_Cons [of _ a]] by (simp add: IH(1))
  next
    case True
    note same = compare_same [OF "1.prems"(1) c(1) _ True, where ind = ind]
    show ?thesis
    proof (cases "elem_compare d ind a b = 0")
      case dup: True
      then have e: "es' = a\<lparr>p_tag := KM_TAG_INVALID d\<rparr> # es1" "n = Suc m" using "1.prems"(4) r True by auto
      have v: "canonical ind a = canonical ind b" using same [OF c(2)] dup by simp
      then have "valid_tag d b" using True p_tag_canonical by metis
      then show ?thesis using e IH(2-4) v c True subset_trans [OF IH(5) set_subset_Cons [of _ a]] by (simp add: IH(1))
    next
      case new: False
      then have e: "es' = a # es1" "n = m" using "1.prems"(4) r True by auto
      have "canonical ind a \<noteq> canonical ind x" if x: "x \<in> set (b # es)" for x
      proof
        assume v: "canonical ind a = canonical ind x"
        have "elem_compare d ind b x \<le> 0"
        proof (cases "x = b")
          case True
          then show ?thesis using v new same [OF c(2)] by simp
        qed (use x "1.prems"(3) in auto)
        moreover have cx: "comparable d x" using x c by (auto simp: list_all_iff)
        moreover have "elem_compare d ind a x = 0" using same [OF cx] v by simp
        moreover have o3: "order_on {a, b, x} (elem_compare d ind)" using elem_order [OF "1.prems"(1), of "[a, b, x]"] c cx by simp
        then have "elem_compare d ind x a \<le> 0"
          using order_on_antisym [OF o3, of a x] \<open>elem_compare d ind a x = 0\<close> by simp
        ultimately have "elem_compare d ind b a \<le> 0" using o3 unfolding order_on_def by blast
        moreover have "elem_compare d ind a b \<le> 0" using "1.prems"(3) by simp
        moreover have "order_on {a, b} (elem_compare d ind)" using elem_order [OF "1.prems"(1), of "[a, b]"] c by simp
        ultimately show False using new order_on_antisym [of "{a, b}" "elem_compare d ind" a b] by simp
      qed
      then have "canonical ind a \<notin> canonical ind ` set (filter (valid_tag d) es1)"
        unfolding IH(4) by auto
      moreover have "n = 0 \<longrightarrow> es' = a # b # es" using e IH(6) by simp
      ultimately show ?thesis using e(1) IH(2-4) c True subset_trans [OF IH(5) set_subset_Cons [of _ a]]
        by (simp add: e(2) IH(1))
    qed
  qed
qed auto

lemma sorted_invalid_prefix:
  assumes "defs_ok d" "list_all (comparable d) es" "sorted_wrt (\<lambda>a b. elem_compare d ind a b \<le> 0) es"
  shows "drop (length (filter (\<lambda>e. \<not> valid_tag d e) es)) es = filter (valid_tag d) es"
  using assms(2,3)
proof (induction es)
  case (Cons a es)
  show ?case
  proof (cases "valid_tag d a")
    case False
    then show ?thesis using Cons by simp
  next
    case True
    have "valid_tag d x" if x: "x \<in> set es" for x
    proof (rule ccontr)
      assume "\<not> valid_tag d x"
      then have "elem_compare d ind x a < 0"
        using assms(1) True Cons.prems(1) x by (auto simp: defs_ok_def elem_compare_def list_all_iff)
      moreover have "order_on {a, x} (elem_compare d ind)"
        using elem_order [OF assms(1), of "[a, x]"] Cons.prems(1) x by (auto simp: list_all_iff)
      moreover have "elem_compare d ind a x \<le> 0" using Cons.prems(2) x by simp
      ultimately show False using order_on_antisym [of "{a, x}" "elem_compare d ind" x a] by simp
    qed
    then show ?thesis using True by (simp add: filter_empty_conv)
  qed
qed simp

text \<open>\<open>Deduplicate\<close> keeps the valid values, once each and in order; the indirect data stays as it is.\<close>

lemma Deduplicate_ok:
  assumes "defs_ok d" "list_all (comparable d) (elems s)"
  shows "distinct (map canon (set_values (Deduplicate d s))) \<and>
    canon ` set (set_values (Deduplicate d s)) = canon ` set (filter (valid_tag d) (set_values s)) \<and>
    set (set_values (Deduplicate d s)) \<subseteq> set (set_values s) \<and>
    sorted_wrt (\<lambda>a b. param_compare d a b \<le> 0) (set_values (Deduplicate d s)) \<and>
    set (elems (Deduplicate d s)) \<subseteq> set (elems s) \<and> list_all (valid_tag d) (elems (Deduplicate d s)) \<and>
    Deduplicate d s = s\<lparr>elems := elems (Deduplicate d s)\<rparr> \<and> length (elems (Deduplicate d s)) \<le> length (elems s)"
proof -
  let ?ind = "indirect_data s" and ?c = "elem_compare d (indirect_data s)"
  define e1 where "e1 = km_qsort d ?c (elems s)"
  note q1 = qsort_elems [OF assms, of ?ind, folded e1_def]
  obtain e2 n where m: "mark_duplicates d ?ind e1 = (e2, n)" by fastforce
  have M: "n = length (filter (\<lambda>e. \<not> valid_tag d e) e2)" "list_all (comparable d) e2"
    "distinct (map (canonical ?ind) (filter (valid_tag d) e2))"
    "canonical ?ind ` set (filter (valid_tag d) e2) = canonical ?ind ` set (filter (valid_tag d) e1)"
    "set (filter (valid_tag d) e2) \<subseteq> set e1" "n = 0 \<longrightarrow> e2 = e1"
    using mark_duplicates_ok [OF assms(1) q1(3,2) m] by - (elim conjE, assumption)+
  note q2 = qsort_elems [OF assms(1) M(2), of ?ind]
  define e3 where "e3 = (if n = 0 then e2 else drop n (km_qsort d ?c e2))"
  have D: "Deduplicate d s = s\<lparr>elems := e3\<rparr>"
    using m by (cases s) (simp add: Deduplicate_def Set_Sort_def e1_def e3_def Let_def)
  have f: "e3 = filter (valid_tag d) (if n = 0 then e2 else km_qsort d ?c e2)"
  proof (cases "n = 0")
    case True
    then show ?thesis using M(1) by (simp add: e3_def filter_empty_conv)
  next
    case False
    have "mset (filter (\<lambda>e. \<not> valid_tag d e) (km_qsort d ?c e2)) = mset (filter (\<lambda>e. \<not> valid_tag d e) e2)"
      using q2(1) by (simp add: mset_filter)
    then have "n = length (filter (\<lambda>e. \<not> valid_tag d e) (km_qsort d ?c e2))" using M(1) by (metis size_mset)
    then show ?thesis
      using sorted_invalid_prefix [OF assms(1) q2(3,2)] False by (simp add: e3_def)
  qed
  have ms: "mset e3 = mset (filter (valid_tag d) e2)"
    using q2(1) by (simp add: f mset_filter)
  have set_e3: "set e3 = set (filter (valid_tag d) e2)" using ms by (rule mset_eq_setD)
  have sub: "set e3 \<subseteq> set (elems s)" using M(5) set_e3 mset_eq_setD [OF q1(1)] by auto
  have "mset (map (canonical ?ind) e3) = mset (map (canonical ?ind) (filter (valid_tag d) e2))" by (simp add: ms)
  then have dist: "distinct (map (canonical ?ind) e3)" using M(3) mset_eq_imp_distinct_iff by metis
  have "length e3 = card (set e3)" using dist by (simp add: distinct_map distinct_card)
  also have "\<dots> \<le> length (elems s)" using sub by (meson List.finite_set card_length card_mono le_trans)
  finally have len: "length e3 \<le> length (elems s)" .
  have "sorted_wrt (\<lambda>a b. ?c a b \<le> 0) e3"
    using q1(2) q2(2) M(6) unfolding f by (cases "n = 0") (simp_all add: sorted_wrt_filter)
  then have srt: "sorted_wrt (\<lambda>a b. param_compare d a b \<le> 0) (map (value_of ?ind) e3)"
    by (simp add: sorted_wrt_map elem_compare_def)
  have "canonical ?ind ` set e3 = canon ` set (filter (valid_tag d) (set_values s))"
    unfolding set_e3 M(4)
    by (simp add: set_values_def filter_map comp_def mset_eq_setD [OF q1(1)] image_image canonical_def [abs_def])
  moreover have "value_of ?ind ` set e3 \<subseteq> set (set_values s)" using sub by (auto simp: set_values_def)
  ultimately show ?thesis using dist srt sub len set_e3
    by (simp add: D set_values_def list_all_iff image_image comp_def canonical_def [symmetric, abs_def])
qed

section \<open>Union and difference\<close>

lemma set_ok_comparable: "set_ok d s \<Longrightarrow> list_all (comparable d) (elems s)"
  by (auto simp: set_ok_def comparable_def list_all_iff)

lemma Deduplicate_set_ok:
  assumes "defs_ok d" "set_ok d s"
  shows "set_ok d (Deduplicate d s) \<and> set_error (Deduplicate d s) = set_error s"
proof -
  note D = Deduplicate_ok [OF assms(1) set_ok_comparable [OF assms(2)]]
  obtain es where e: "Deduplicate d s = s\<lparr>elems := es\<rparr>" "set es \<subseteq> set (elems s)" "length es \<le> length (elems s)"
    using D by (elim conjE) blast
  then show ?thesis using assms(2) by (auto simp: set_ok_def list_all_iff)
qed

lemma Set_Union_ok:
  assumes "defs_ok d" "set_ok d s" "set_error s = OK" "list_all (typed d) ps" "ps \<noteq> []" "alloc_total al"
    "length (indirect_data s) + sum_list (map param_len ps) < 2 ^ 63" "indirect_data_capacity s < 2 ^ 63"
  shows "\<exists>s'. Set_Union d al ps s = Some s' \<and> set_ok d s' \<and> set_error s' = OK \<and> distinct (map canon (set_values s')) \<and>
    set (set_values s') \<subseteq> set (set_values s) \<union> set ps \<and>
    canon ` set (set_values s') = canon ` {p \<in> set (set_values s) \<union> set ps. valid_tag d p}"
proof -
  obtain s1 where s1: "push_back_set d al ps s = Some (True, s1)" "growable d s1" "set_values s1 = set_values s @ ps"
    using push_back_set_ok [OF assms(2-4,6-8)] by blast
  have ok: "set_ok d s1" "set_error s1 = OK" using s1(2) by (simp_all add: growable_def)
  have "set (filter (valid_tag d) (set_values s1)) = {p \<in> set (set_values s) \<union> set ps. valid_tag d p}"
    "set (set_values s1) = set (set_values s) \<union> set ps" unfolding s1(3) by auto
  moreover have "Set_Union d al ps s = Some (Deduplicate d s1)" using s1(1) assms(5) by (simp add: Set_Union_def)
  moreover note Deduplicate_ok [OF assms(1) set_ok_comparable [OF ok(1)]] Deduplicate_set_ok [OF assms(1) ok(1)]
  ultimately show ?thesis using ok(2) by simp
qed

lemma find_upt_skip:
  assumes "\<forall>i. a \<le> i \<longrightarrow> i < b \<longrightarrow> \<not> Q i" "a \<le> b"
  shows "find Q [a..<n] = find Q [b..<n]"
  using assms
proof (induction "b - a" arbitrary: a)
  case (Suc k)
  then have "find Q [Suc a..<n] = find Q [b..<n]" by simp
  then show ?case using Suc by (cases "a < n") (auto simp: upt_rec)
qed simp

lemma difference_one_ok:
  assumes "defs_ok d" "list_all (comparable d) (elems s)" "list_all (valid_tag d) (elems s)" "comparable d p"
    "set_error s = OK" "start \<le> length (elems s)"
  shows "difference_one d p start s =
    Some (case find (\<lambda>i. canonical (indirect_data s) (elems s ! i) = canon p) [start..<length (elems s)] of
       None \<Rightarrow> s | Some i \<Rightarrow> s\<lparr>elems := take i (elems s) @ drop (Suc i) (elems s)\<rparr>)"
  using assms
proof (induction d p start s rule: difference_one.induct)
  case (1 d p start s)
  let ?n = "length (elems s)" and ?v = "\<lambda>i. canonical (indirect_data s) (elems s ! i)" and ?w = "\<lambda>i. value_of (indirect_data s) (elems s ! i)"
  have f: "find_tag s (p_tag p) start = find (\<lambda>i. p_tag (elems s ! i) = p_tag p) [start..<?n]"
    using "1.prems" by (simp add: find_tag_def)
  show ?case
  proof (cases "find_tag s (p_tag p) start")
    case None
    then have "find (\<lambda>i. ?v i = canon p) [start..<?n] = None" unfolding f find_None_iff by (metis p_tag_canonical p_tag_canon)
    then show ?thesis using None by (simp add: difference_one.simps [of d p start s])
  next
    case (Some i)
    then have i: "start \<le> i" "i < ?n" "p_tag (elems s ! i) = p_tag p"
      "\<forall>j. start \<le> j \<longrightarrow> j < i \<longrightarrow> p_tag (elems s ! j) \<noteq> p_tag p"
      unfolding f by (auto simp: find_Some_iff) (metis add.commute le_Suc_ex nat_add_left_cancel_less)
    have "?v j \<noteq> canon p" if "p_tag (elems s ! j) \<noteq> p_tag p" for j using that by (metis p_tag_canonical p_tag_canon)
    then have skip: "find (\<lambda>i. ?v i = canon p) [start..<?n] = find (\<lambda>i. ?v i = canon p) [i..<?n]"
      using i(1,4) by (intro find_upt_skip) auto
    have c: "comparable d (elems s ! i)" "valid_tag d (elems s ! i)"
      using "1.prems"(2,3) i(2) by (auto simp: list_all_length)
    have eq: "param_compare d (?w i) p = 0 \<longleftrightarrow> ?v i = canon p"
      using defs_ok_same [OF "1.prems"(1), of "?w i" p] c "1.prems"(4) same_param_valid [of "?w i"] by (simp add: canonical_def)
    show ?thesis
    proof (cases "?v i = canon p")
      case True
      then have "find (\<lambda>i. ?v i = canon p) [i..<?n] = Some i" using i(2) by (simp add: upt_rec)
      then show ?thesis using Some True i(2) eq skip by (simp add: difference_one.simps [of d p start s] erase_def)
    next
      case False
      have "find (\<lambda>i. ?v i = canon p) [i..<?n] = find (\<lambda>i. ?v i = canon p) [Suc i..<?n]"
        using False by (intro find_upt_skip) (auto simp: le_less_Suc_eq)
      then show ?thesis
        using "1.IH" [OF Some _ _ "1.prems"(1-5)] Some False i(2) eq skip
        by (simp add: difference_one.simps [of d p start s])
    qed
  qed
qed

lemma filter_neq_nth:
  assumes "distinct (map f xs)" "i < length xs"
  shows "take i xs @ drop (Suc i) xs = filter (\<lambda>x. f x \<noteq> f (xs ! i)) xs"
proof -
  have *: "filter (\<lambda>y. f y \<noteq> f x) (ys @ x # zs) = ys @ zs" if "distinct (map f (ys @ x # zs))" for x ys zs
    using that by (auto intro!: arg_cong2 [of _ _ _ _ "(@)"] filter_True simp: image_iff)
  have "xs = take i xs @ xs ! i # drop (Suc i) xs" using assms(2) by (rule id_take_nth_drop)
  then show ?thesis using * [of "take i xs" "xs ! i" "drop (Suc i) xs"] assms(1) by simp
qed

definition plain :: "km_defs \<Rightarrow> auth_set \<Rightarrow> bool" where
  "plain d s \<longleftrightarrow> set_ok d s \<and> set_error s = OK \<and> list_all (valid_tag d) (elems s) \<and> distinct (map canon (set_values s))"

lemma difference_one_values:
  assumes "defs_ok d" "plain d s" "comparable d p"
  shows "\<exists>s'. difference_one d p 0 s = Some s' \<and> plain d s' \<and> set_values s' = filter (\<lambda>x. canon x \<noteq> canon p) (set_values s)"
proof -
  let ?v = "value_of (indirect_data s)" and ?f = "find (\<lambda>i. canonical (indirect_data s) (elems s ! i) = canon p) [0..<length (elems s)]"
  note P = assms(2) [unfolded plain_def]
  have d1: "difference_one d p 0 s = Some (case ?f of None \<Rightarrow> s | Some i \<Rightarrow> s\<lparr>elems := take i (elems s) @ drop (Suc i) (elems s)\<rparr>)"
    using difference_one_ok [OF assms(1) set_ok_comparable _ assms(3)] P by simp
  show ?thesis
  proof (cases ?f)
    case None
    then have "filter (\<lambda>x. canon x \<noteq> canon p) (set_values s) = set_values s"
      by (auto simp: find_None_iff set_values_def in_set_conv_nth canonical_def intro!: filter_True)
    then show ?thesis using d1 None assms(2) by simp
  next
    case (Some i)
    then have i: "i < length (elems s)" "canon (?v (elems s ! i)) = canon p" by (auto simp: find_Some_iff canonical_def)
    define s' where "s' = s\<lparr>elems := take i (elems s) @ drop (Suc i) (elems s)\<rparr>"
    have "set_values s' = take i (set_values s) @ drop (Suc i) (set_values s)"
      by (simp add: s'_def set_values_def take_map drop_map)
    also have "\<dots> = filter (\<lambda>x. canon x \<noteq> canon p) (set_values s)"
      using filter_neq_nth [of canon "set_values s" i] P i by (simp add: set_values_def)
    finally have v: "set_values s' = filter (\<lambda>x. canon x \<noteq> canon p) (set_values s)" .
    have "set (elems s') \<subseteq> set (elems s)" by (auto simp: s'_def dest: in_set_takeD in_set_dropD)
    moreover have "length (elems s') \<le> length (elems s)" using i(1) by (simp add: s'_def)
    moreover have "distinct (map canon (set_values s'))" unfolding v using P by (simp add: distinct_map_filter)
    ultimately have "plain d s'" using P by (auto simp: plain_def set_ok_def list_all_iff s'_def)
    then show ?thesis using d1 Some v by (simp add: s'_def)
  qed
qed

lemma difference_loop_values:
  assumes "defs_ok d" "plain d s" "list_all (comparable d) ps"
  shows "\<exists>s'. difference_loop d ps s = Some s' \<and> plain d s' \<and> set_values s' = filter (\<lambda>x. canon x \<notin> canon ` set ps) (set_values s)"
  using assms(2,3)
proof (induction ps arbitrary: s)
  case (Cons p ps)
  then obtain s1 where s1: "difference_one d p 0 s = Some s1" "plain d s1" "set_values s1 = filter (\<lambda>x. canon x \<noteq> canon p) (set_values s)"
    using difference_one_values [OF assms(1) Cons.prems(1), of p] by auto
  then obtain s2 where "difference_loop d ps s1 = Some s2" "plain d s2" "set_values s2 = filter (\<lambda>x. canon x \<notin> canon ` set ps) (set_values s1)"
    using Cons.IH [OF s1(2)] Cons.prems(2) by auto
  then show ?case using s1 by (simp add: conj_commute)
qed simp

lemma Set_Difference_ok:
  assumes "defs_ok d" "set_ok d s" "set_error s = OK" "list_all (typed d) ps" "ps \<noteq> []"
  shows "\<exists>s'. Set_Difference d ps s = Some s' \<and> set_ok d s' \<and> set_error s' = OK \<and> distinct (map canon (set_values s')) \<and>
    set (set_values s') \<subseteq> set (set_values s) \<and>
    canon ` set (set_values s') = canon ` {p \<in> set (set_values s). valid_tag d p} - canon ` set ps"
proof -
  note D = Deduplicate_ok [OF assms(1) set_ok_comparable [OF assms(2)]] Deduplicate_set_ok [OF assms(1,2)]
  have "plain d (Deduplicate d s)" using D assms(3) by (simp add: plain_def)
  moreover have "list_all (comparable d) ps" using assms(4) by (auto simp: list_all_iff comparable_def)
  ultimately obtain s' where s': "difference_loop d ps (Deduplicate d s) = Some s'" "plain d s'"
    "set_values s' = filter (\<lambda>x. canon x \<notin> canon ` set ps) (set_values (Deduplicate d s))"
    using difference_loop_values [OF assms(1)] by blast
  have "canon ` set (set_values s') = canon ` set (set_values (Deduplicate d s)) - canon ` set ps" unfolding s'(3) by auto
  moreover have "canon ` set (set_values (Deduplicate d s)) = canon ` {p \<in> set (set_values s). valid_tag d p}"
    "set (set_values (Deduplicate d s)) \<subseteq> set (set_values s)" using D(1) by simp_all
  ultimately show ?thesis using s' assms(5) by (auto simp: Set_Difference_def plain_def)
qed

end
