(* ===== verification/Km_Enforcement.thy ===== *)
theory Km_Enforcement
  imports Km_AuthSerial Hw_Token
begin

text \<open>
  \<open>class KeymasterEnforcement\<close> (\<open>keymaster_enforcement.h\<close>, \<open>keymaster_enforcement.cpp\<close>): whether a key may be
  used, from its authorizations, the parameters of the operation and what is remembered since boot.

  The tag numbers and the purposes are declared in \<open>hardware/keymaster_defs.h\<close>, outside the sources: the
  functions \<open>tag\<close> and \<open>purpose_code\<close> of the parameter \<open>km_consts\<close> give them. The pure virtual functions are
  the parameter \<open>platform\<close>. They may answer differently at each call, so each takes the number of calls made
  before it, which the state counts in \<open>platform_calls\<close>; \<^term>\<open>None\<close> is a failed assertion.
\<close>

section \<open>Constants and the platform\<close>

datatype km_tag =
  KM_TAG_PURPOSE | KM_TAG_ALGORITHM | KM_TAG_NONCE | KM_TAG_CALLER_NONCE | KM_TAG_ACTIVE_DATETIME
| KM_TAG_ORIGINATION_EXPIRE_DATETIME | KM_TAG_USAGE_EXPIRE_DATETIME | KM_TAG_MIN_SECONDS_BETWEEN_OPS
| KM_TAG_MAX_USES_PER_BOOT | KM_TAG_USER_SECURE_ID | KM_TAG_NO_AUTH_REQUIRED | KM_TAG_USER_AUTH_TYPE
| KM_TAG_AUTH_TIMEOUT | KM_TAG_AUTH_TOKEN | KM_TAG_ROOT_OF_TRUST | KM_TAG_APPLICATION_DATA
| KM_TAG_ATTESTATION_CHALLENGE | KM_TAG_ATTESTATION_APPLICATION_ID | KM_TAG_ATTESTATION_ID_BRAND
| KM_TAG_ATTESTATION_ID_DEVICE | KM_TAG_ATTESTATION_ID_PRODUCT | KM_TAG_ATTESTATION_ID_SERIAL
| KM_TAG_ATTESTATION_ID_IMEI | KM_TAG_ATTESTATION_ID_MEID | KM_TAG_ATTESTATION_ID_MANUFACTURER
| KM_TAG_ATTESTATION_ID_MODEL | KM_TAG_BOOTLOADER_ONLY | KM_TAG_PADDING_OLD | KM_TAG_DIGEST_OLD | KM_TAG_OS_PATCHLEVEL

datatype keymaster_purpose_t =
  KM_PURPOSE_ENCRYPT | KM_PURPOSE_DECRYPT | KM_PURPOSE_SIGN | KM_PURPOSE_VERIFY

datatype keymaster_error_t =
  KM_ERROR_OK | KM_ERROR_INCOMPATIBLE_PURPOSE | KM_ERROR_UNSUPPORTED_PURPOSE | KM_ERROR_KEY_NOT_YET_VALID
| KM_ERROR_KEY_EXPIRED | KM_ERROR_KEY_RATE_LIMIT_EXCEEDED | KM_ERROR_KEY_MAX_OPS_EXCEEDED
| KM_ERROR_INVALID_KEY_BLOB | KM_ERROR_KEY_USER_NOT_AUTHENTICATED | KM_ERROR_CALLER_NONCE_PROHIBITED
| KM_ERROR_MEMORY_ALLOCATION_FAILED | KM_ERROR_TOO_MANY_OPERATIONS | KM_ERROR_UNKNOWN_ERROR
| KM_ERROR_INVALID_OPERATION_HANDLE | KM_ERROR_UNSUPPORTED_ALGORITHM | KM_ERROR_KEY_REQUIRES_UPGRADE | KM_ERROR_OTHER nat

record km_consts =
  tag :: "km_tag \<Rightarrow> u32"
  purpose_code :: "keymaster_purpose_t \<Rightarrow> u32"
  KM_ALGORITHM_RSA :: u32
  KM_ALGORITHM_EC :: u32

record platform =
  activation_date_valid :: "nat \<Rightarrow> u64 \<Rightarrow> bool"
  expiration_date_passed :: "nat \<Rightarrow> u64 \<Rightarrow> bool"
  auth_token_timed_out :: "nat \<Rightarrow> hw_auth_token \<Rightarrow> u32 \<Rightarrow> bool"
  get_current_time :: "nat \<Rightarrow> u32"
  ValidateTokenSignature :: "nat \<Rightarrow> hw_auth_token \<Rightarrow> bool"

text \<open>What the code runs against: all its external constants and functions.\<close>

record km_env =
  env_defs :: km_defs
  env_consts :: km_consts
  env_layout :: hw_layout
  env_platform :: platform

abbreviation tag_of :: "km_env \<Rightarrow> km_tag \<Rightarrow> u32" where
  "tag_of v \<equiv> tag (env_consts v)"

abbreviation purpose_of :: "km_env \<Rightarrow> keymaster_purpose_t \<Rightarrow> u32" where
  "purpose_of v \<equiv> purpose_code (env_consts v)"

section \<open>What is remembered\<close>

record access_time =
  at_keyid :: u64
  at_access_time :: u32
  at_timeout :: u32

record time_map =
  last_access_list :: "access_time list"
  time_max_size :: u32

record access_count =
  ac_keyid :: u64
  ac_access_count :: u64

record count_map =
  access_count_list :: "access_count list"
  count_max_size :: u32

definition LastKeyAccessTime :: "u64 \<Rightarrow> time_map \<Rightarrow> u32 option" where
  "LastKeyAccessTime keyid m = map_option at_access_time (find (\<lambda>e. at_keyid e = keyid) (last_access_list m))"

text \<open>The loop of \<open>UpdateKeyAccessTime\<close>: it stops at the key, and drops what has expired before it.\<close>

fun update_access_list :: "u64 \<Rightarrow> u32 \<Rightarrow> access_time list \<Rightarrow> (bool \<times> access_time list) option" where
  "update_access_list keyid now [] = Some (False, [])"
| "update_access_list keyid now (e # es) =
     (if at_keyid e = keyid then Some (True, e\<lparr>at_access_time := now\<rparr> # es)
      else if now < at_access_time e then None
      else do {
        (found, es') \<leftarrow> update_access_list keyid now es;
        Some (found, if now - at_access_time e \<ge> at_timeout e then es' else e # es')
      })"

definition UpdateKeyAccessTime :: "u64 \<Rightarrow> u32 \<Rightarrow> u32 \<Rightarrow> time_map \<Rightarrow> (bool \<times> time_map) option" where
  "UpdateKeyAccessTime keyid now timeout m = do {
     (found, es) \<leftarrow> update_access_list keyid now (last_access_list m);
     Some
       (if found then (True, m\<lparr>last_access_list := es\<rparr>)
        else if length es \<ge> unat (time_max_size m) then (False, m\<lparr>last_access_list := es\<rparr>)
        else (True, m\<lparr>last_access_list := \<lparr>at_keyid = keyid, at_access_time = now, at_timeout = timeout\<rparr> # es\<rparr>))
   }"

definition KeyAccessCount :: "u64 \<Rightarrow> count_map \<Rightarrow> u32 option" where
  "KeyAccessCount keyid m =
     map_option (\<lambda>e. ucast (ac_access_count e)) (find (\<lambda>e. ac_keyid e = keyid) (access_count_list m))"

fun increment_count_list :: "u64 \<Rightarrow> access_count list \<Rightarrow> access_count list option" where
  "increment_count_list keyid [] = None"
| "increment_count_list keyid (e # es) =
     (if ac_keyid e = keyid
      then Some ((if ac_access_count e < - 1 then e\<lparr>ac_access_count := ac_access_count e + 1\<rparr> else e) # es)
      else map_option ((#) e) (increment_count_list keyid es))"

definition IncrementKeyAccessCount :: "u64 \<Rightarrow> count_map \<Rightarrow> bool \<times> count_map" where
  "IncrementKeyAccessCount keyid m =
     (case increment_count_list keyid (access_count_list m) of
        Some es \<Rightarrow> (True, m\<lparr>access_count_list := es\<rparr>)
      | None \<Rightarrow>
          if length (access_count_list m) \<ge> unat (count_max_size m) then (False, m)
          else (True, m\<lparr>access_count_list := \<lparr>ac_keyid = keyid, ac_access_count = 1\<rparr> # access_count_list m\<rparr>))"

text \<open>A table that could not be allocated is \<^term>\<open>None\<close>.\<close>

record enforcement =
  access_time_map :: "time_map option"
  access_count_map :: "count_map option"
  platform_calls :: nat

definition new_KeymasterEnforcement :: "bool \<Rightarrow> bool \<Rightarrow> u32 \<Rightarrow> u32 \<Rightarrow> enforcement" where
  "new_KeymasterEnforcement ok1 ok2 max_access_time_map_size max_access_count_map_size =
     \<lparr>access_time_map = (if ok1 then Some \<lparr>last_access_list = [], time_max_size = max_access_time_map_size\<rparr> else None),
      access_count_map = (if ok2 then Some \<lparr>access_count_list = [], count_max_size = max_access_count_map_size\<rparr> else None),
      platform_calls = 0\<rparr>"

text \<open>A comparison of a \<open>uint32_t\<close> with a difference of \<open>int64_t\<close>, so without wrap-around.\<close>

definition MinTimeBetweenOpsPassed :: "km_env \<Rightarrow> u32 \<Rightarrow> u64 \<Rightarrow> enforcement \<Rightarrow> bool \<times> enforcement" where
  "MinTimeBetweenOpsPassed v min_time_between keyid s =
     (case access_time_map s of
        None \<Rightarrow> (False, s)
      | Some m \<Rightarrow>
          (case LastKeyAccessTime keyid m of
             None \<Rightarrow> (True, s)
           | Some last_access_time \<Rightarrow>
               (uint min_time_between \<le> uint (get_current_time (env_platform v) (platform_calls s)) - uint last_access_time,
                s\<lparr>platform_calls := Suc (platform_calls s)\<rparr>)))"

definition MaxUsesPerBootNotExceeded :: "u64 \<Rightarrow> u32 \<Rightarrow> enforcement \<Rightarrow> bool" where
  "MaxUsesPerBootNotExceeded keyid max_uses s =
     (case access_count_map s of
        None \<Rightarrow> False
      | Some m \<Rightarrow> (case KeyAccessCount keyid m of None \<Rightarrow> True | Some n \<Rightarrow> n < max_uses))"

section \<open>Purposes\<close>

definition is_public_key_algorithm :: "km_env \<Rightarrow> auth_set \<Rightarrow> bool option" where
  "is_public_key_algorithm v aset = do {
     a \<leftarrow> GetTagValueEnum aset (tag_of v KM_TAG_ALGORITHM);
     Some (case a of None \<Rightarrow> False
           | Some alg \<Rightarrow> alg = KM_ALGORITHM_RSA (env_consts v) \<or> alg = KM_ALGORITHM_EC (env_consts v))
   }"

definition authorized_purpose :: "km_env \<Rightarrow> u32 \<Rightarrow> auth_set \<Rightarrow> keymaster_error_t option" where
  "authorized_purpose v purpose aset =
     (if purpose = purpose_of v KM_PURPOSE_VERIFY \<or> purpose = purpose_of v KM_PURPOSE_ENCRYPT \<or>
         purpose = purpose_of v KM_PURPOSE_SIGN \<or> purpose = purpose_of v KM_PURPOSE_DECRYPT
      then do {
        b \<leftarrow> ContainsEnumValue aset (tag_of v KM_TAG_PURPOSE) purpose;
        Some (if b then KM_ERROR_OK else KM_ERROR_INCOMPATIBLE_PURPOSE)
      }
      else Some KM_ERROR_UNSUPPORTED_PURPOSE)"

definition is_origination_purpose :: "km_env \<Rightarrow> u32 \<Rightarrow> bool" where
  "is_origination_purpose v purpose \<longleftrightarrow>
     purpose = purpose_of v KM_PURPOSE_ENCRYPT \<or> purpose = purpose_of v KM_PURPOSE_SIGN"

definition is_usage_purpose :: "km_env \<Rightarrow> u32 \<Rightarrow> bool" where
  "is_usage_purpose v purpose \<longleftrightarrow>
     purpose = purpose_of v KM_PURPOSE_DECRYPT \<or> purpose = purpose_of v KM_PURPOSE_VERIFY"

section \<open>Authentication\<close>

text \<open>The position a scan of the whole set leaves in its index variable; \<^term>\<open>None\<close> is -1.\<close>

definition last_position :: "u32 \<Rightarrow> auth_set \<Rightarrow> nat option" where
  "last_position t aset =
     (let is = filter (\<lambda>i. p_tag (elems aset ! i) = t) [0..<length (elems aset)] in if is = [] then None else Some (last is))"

definition in_set :: "nat option \<Rightarrow> auth_set \<Rightarrow> bool" where
  "in_set pos aset = (case pos of None \<Rightarrow> True | Some i \<Rightarrow> i < length (elems aset))"

text \<open>The authentication type and the timeout of the key, the part after the token itself is checked.\<close>

definition type_and_timeout_match ::
  "km_env \<Rightarrow> auth_set \<Rightarrow> nat option \<Rightarrow> nat option \<Rightarrow> bool \<Rightarrow> hw_auth_token \<Rightarrow> nat \<Rightarrow> (bool \<times> nat) option" where
  "type_and_timeout_match v aset auth_type_index auth_timeout_index is_begin auth_token n =
     (case auth_type_index of
        None \<Rightarrow> Some (False, n)
      | Some i \<Rightarrow>
          if p_tag (elems aset ! i) \<noteq> tag_of v KM_TAG_USER_AUTH_TYPE then None
          else do {
            mask \<leftarrow> as_int (p_value (elems aset ! i));
            if mask AND bswap 4 (tok_authenticator_type auth_token) = 0 then Some (False, n)
            else case auth_timeout_index of
              None \<Rightarrow> Some (True, n)
            | Some j \<Rightarrow>
                if \<not> is_begin then Some (True, n)
                else if p_tag (elems aset ! j) \<noteq> tag_of v KM_TAG_AUTH_TIMEOUT then None
                else do {
                  timeout \<leftarrow> as_int (p_value (elems aset ! j));
                  Some (\<not> auth_token_timed_out (env_platform v) n auth_token timeout, Suc n)
                }
          })"

definition AuthTokenMatches ::
  "km_env \<Rightarrow> auth_set \<Rightarrow> auth_set \<Rightarrow> u64 \<Rightarrow> nat option \<Rightarrow> nat option \<Rightarrow> u64 \<Rightarrow> bool \<Rightarrow> nat \<Rightarrow> (bool \<times> nat) option" where
  "AuthTokenMatches v aset operation_params user_secure_id auth_type_index auth_timeout_index op_handle is_begin n =
     (if \<not> in_set auth_type_index aset \<or> \<not> in_set auth_timeout_index aset then None
      else do {
        blob \<leftarrow> GetTagValueBlob operation_params (tag_of v KM_TAG_AUTH_TOKEN);
        case blob of
          None \<Rightarrow> Some (False, n)
        | Some bytes \<Rightarrow>
            if length bytes \<noteq> hw_sizeof (env_layout v) then Some (False, n)
            else let auth_token = hw_read (env_layout v) bytes in
              if tok_version auth_token \<noteq> HW_AUTH_TOKEN_VERSION (env_layout v) then Some (False, n)
              else if \<not> ValidateTokenSignature (env_platform v) n auth_token then Some (False, Suc n)
              else if auth_timeout_index = None \<and> op_handle \<noteq> 0 \<and> op_handle \<noteq> tok_challenge auth_token
              then Some (False, Suc n)
              else if user_secure_id \<noteq> tok_user_id auth_token \<and> user_secure_id \<noteq> tok_authenticator_id auth_token
              then Some (False, Suc n)
              else type_and_timeout_match v aset auth_type_index auth_timeout_index is_begin auth_token (Suc n)
      })"

text \<open>The second loop of \<open>AuthorizeUpdateOrFinish\<close>.\<close>

fun update_or_finish_loop ::
  "km_env \<Rightarrow> auth_set \<Rightarrow> auth_set \<Rightarrow> nat option \<Rightarrow> u64 \<Rightarrow> blob_ref km_param list \<Rightarrow> bool \<Rightarrow> nat \<Rightarrow>
   (keymaster_error_t \<times> nat) option" where
  "update_or_finish_loop v aset params auth_type_index op_handle [] required n =
     Some (if required then KM_ERROR_KEY_USER_NOT_AUTHENTICATED else KM_ERROR_OK, n)"
| "update_or_finish_loop v aset params auth_type_index op_handle (p # ps) required n =
     (if p_tag p = tag_of v KM_TAG_USER_SECURE_ID
      then do {
        sid \<leftarrow> as_long (p_value p);
        (matches, n) \<leftarrow> AuthTokenMatches v aset params sid auth_type_index None op_handle False n;
        if matches then Some (KM_ERROR_OK, n)
        else update_or_finish_loop v aset params auth_type_index op_handle ps True n
      }
      else update_or_finish_loop v aset params auth_type_index op_handle ps required n)"

definition AuthorizeUpdateOrFinish ::
  "km_env \<Rightarrow> auth_set \<Rightarrow> auth_set \<Rightarrow> u64 \<Rightarrow> enforcement \<Rightarrow> (keymaster_error_t \<times> enforcement) option" where
  "AuthorizeUpdateOrFinish v aset params op_handle s =
     (if \<exists>p \<in> set (elems aset). p_tag p = tag_of v KM_TAG_NO_AUTH_REQUIRED \<or> p_tag p = tag_of v KM_TAG_AUTH_TIMEOUT
      then Some (KM_ERROR_OK, s)
      else do {
        let auth_type_index = last_position (tag_of v KM_TAG_USER_AUTH_TYPE) aset;
        (e, n) \<leftarrow> update_or_finish_loop v aset params auth_type_index op_handle (elems aset) (auth_type_index \<noteq> None)
          (platform_calls s);
        Some (e, s\<lparr>platform_calls := n\<rparr>)
      })"

section \<open>Beginning an operation\<close>

text \<open>The tags that must not occur in the authorizations of a key.\<close>

definition forbidden_tags :: "km_env \<Rightarrow> u32 list" where
  "forbidden_tags v = KM_TAG_INVALID (env_defs v) # map (tag_of v)
     [KM_TAG_AUTH_TOKEN, KM_TAG_ROOT_OF_TRUST, KM_TAG_APPLICATION_DATA, KM_TAG_ATTESTATION_CHALLENGE,
      KM_TAG_ATTESTATION_APPLICATION_ID, KM_TAG_ATTESTATION_ID_BRAND, KM_TAG_ATTESTATION_ID_DEVICE,
      KM_TAG_ATTESTATION_ID_PRODUCT, KM_TAG_ATTESTATION_ID_SERIAL, KM_TAG_ATTESTATION_ID_IMEI,
      KM_TAG_ATTESTATION_ID_MEID, KM_TAG_ATTESTATION_ID_MANUFACTURER, KM_TAG_ATTESTATION_ID_MODEL,
      KM_TAG_BOOTLOADER_ONLY]"

text \<open>The local variables of \<open>AuthorizeBegin\<close>.\<close>

record begin_vars =
  min_ops_timeout :: u32
  update_access_count :: bool
  caller_nonce_authorized_by_key :: bool
  authentication_required :: bool
  auth_token_matched :: bool

definition begin_start :: begin_vars where
  "begin_start = \<lparr>min_ops_timeout = - 1, update_access_count = False, caller_nonce_authorized_by_key = False,
     authentication_required = False, auth_token_matched = False\<rparr>"

text \<open>One pass of the loop over the authorizations; an error other than \<open>KM_ERROR_OK\<close> ends it.\<close>

definition begin_param ::
  "km_env \<Rightarrow> u32 \<Rightarrow> u64 \<Rightarrow> auth_set \<Rightarrow> auth_set \<Rightarrow> blob_ref km_param \<Rightarrow> begin_vars \<Rightarrow> enforcement \<Rightarrow>
   (keymaster_error_t \<times> begin_vars \<times> enforcement) option" where
  "begin_param v purpose keyid aset params p x s =
     (let t = tag_of v; n = platform_calls s; called = s\<lparr>platform_calls := Suc n\<rparr> in
      if p_tag p = t KM_TAG_PADDING_OLD \<or> p_tag p = t KM_TAG_DIGEST_OLD then Some (KM_ERROR_OK, x, s)
      else if p_tag p = t KM_TAG_ACTIVE_DATETIME then do {
        date \<leftarrow> as_long (p_value p);
        Some (if activation_date_valid (env_platform v) n date then KM_ERROR_OK else KM_ERROR_KEY_NOT_YET_VALID, x, called)
      }
      else if p_tag p = t KM_TAG_ORIGINATION_EXPIRE_DATETIME then
        (if is_origination_purpose v purpose then do {
           date \<leftarrow> as_long (p_value p);
           Some (if expiration_date_passed (env_platform v) n date then KM_ERROR_KEY_EXPIRED else KM_ERROR_OK, x, called)
         } else Some (KM_ERROR_OK, x, s))
      else if p_tag p = t KM_TAG_USAGE_EXPIRE_DATETIME then
        (if is_usage_purpose v purpose then do {
           date \<leftarrow> as_long (p_value p);
           Some (if expiration_date_passed (env_platform v) n date then KM_ERROR_KEY_EXPIRED else KM_ERROR_OK, x, called)
         } else Some (KM_ERROR_OK, x, s))
      else if p_tag p = t KM_TAG_MIN_SECONDS_BETWEEN_OPS then do {
        m \<leftarrow> as_int (p_value p);
        let (passed, s) = MinTimeBetweenOpsPassed v m keyid s;
        Some (if passed then KM_ERROR_OK else KM_ERROR_KEY_RATE_LIMIT_EXCEEDED, x\<lparr>min_ops_timeout := m\<rparr>, s)
      }
      else if p_tag p = t KM_TAG_MAX_USES_PER_BOOT then do {
        m \<leftarrow> as_int (p_value p);
        Some (if MaxUsesPerBootNotExceeded keyid m s then KM_ERROR_OK else KM_ERROR_KEY_MAX_OPS_EXCEEDED,
              x\<lparr>update_access_count := True\<rparr>, s)
      }
      else if p_tag p = t KM_TAG_USER_SECURE_ID then
        (if last_position (t KM_TAG_NO_AUTH_REQUIRED) aset \<noteq> None then Some (KM_ERROR_INVALID_KEY_BLOB, x, s)
         else if last_position (t KM_TAG_AUTH_TIMEOUT) aset \<noteq> None then do {
           sid \<leftarrow> as_long (p_value p);
           (matches, n) \<leftarrow> AuthTokenMatches v aset params sid (last_position (t KM_TAG_USER_AUTH_TYPE) aset)
              (last_position (t KM_TAG_AUTH_TIMEOUT) aset) 0 True n;
           Some (KM_ERROR_OK,
                 x\<lparr>authentication_required := True, auth_token_matched := auth_token_matched x \<or> matches\<rparr>,
                 s\<lparr>platform_calls := n\<rparr>)
         } else Some (KM_ERROR_OK, x, s))
      else if p_tag p = t KM_TAG_CALLER_NONCE then Some (KM_ERROR_OK, x\<lparr>caller_nonce_authorized_by_key := True\<rparr>, s)
      else if p_tag p \<in> set (forbidden_tags v) then Some (KM_ERROR_INVALID_KEY_BLOB, x, s)
      else Some (KM_ERROR_OK, x, s))"

fun begin_loop ::
  "km_env \<Rightarrow> u32 \<Rightarrow> u64 \<Rightarrow> auth_set \<Rightarrow> auth_set \<Rightarrow> blob_ref km_param list \<Rightarrow> begin_vars \<Rightarrow> enforcement \<Rightarrow>
   (keymaster_error_t \<times> begin_vars \<times> enforcement) option" where
  "begin_loop v purpose keyid aset params [] x s = Some (KM_ERROR_OK, x, s)"
| "begin_loop v purpose keyid aset params (p # ps) x s = do {
     (e, x, s) \<leftarrow> begin_param v purpose keyid aset params p x s;
     if e \<noteq> KM_ERROR_OK then Some (e, x, s) else begin_loop v purpose keyid aset params ps x s
   }"

text \<open>The updates of the two tables that end \<open>AuthorizeBegin\<close>.\<close>

definition record_time ::
  "km_env \<Rightarrow> u64 \<Rightarrow> u32 \<Rightarrow> enforcement \<Rightarrow> (keymaster_error_t \<times> enforcement) option" where
  "record_time v keyid timeout s =
     (if timeout = - 1 then Some (KM_ERROR_OK, s)
      else case access_time_map s of
        None \<Rightarrow> Some (KM_ERROR_MEMORY_ALLOCATION_FAILED, s)
      | Some m \<Rightarrow> do {
          (ok, m) \<leftarrow> UpdateKeyAccessTime keyid (get_current_time (env_platform v) (platform_calls s)) timeout m;
          Some (if ok then KM_ERROR_OK else KM_ERROR_TOO_MANY_OPERATIONS,
                s\<lparr>access_time_map := Some m, platform_calls := Suc (platform_calls s)\<rparr>)
        })"

definition record_use :: "u64 \<Rightarrow> bool \<Rightarrow> enforcement \<Rightarrow> keymaster_error_t \<times> enforcement" where
  "record_use keyid counted s =
     (if \<not> counted then (KM_ERROR_OK, s)
      else case access_count_map s of
        None \<Rightarrow> (KM_ERROR_MEMORY_ALLOCATION_FAILED, s)
      | Some m \<Rightarrow>
          let (ok, m) = IncrementKeyAccessCount keyid m
          in (if ok then KM_ERROR_OK else KM_ERROR_TOO_MANY_OPERATIONS, s\<lparr>access_count_map := Some m\<rparr>))"

definition AuthorizeBegin ::
  "km_env \<Rightarrow> u32 \<Rightarrow> u64 \<Rightarrow> auth_set \<Rightarrow> auth_set \<Rightarrow> enforcement \<Rightarrow> (keymaster_error_t \<times> enforcement) option" where
  "AuthorizeBegin v purpose keyid aset params s = do {
     e \<leftarrow> authorized_purpose v purpose aset;
     if e \<noteq> KM_ERROR_OK then Some (e, s)
     else do {
       (e, x, s) \<leftarrow> begin_loop v purpose keyid aset params (elems aset) begin_start s;
       if e \<noteq> KM_ERROR_OK then Some (e, s)
       else if authentication_required x \<and> \<not> auth_token_matched x then Some (KM_ERROR_KEY_USER_NOT_AUTHENTICATED, s)
       else if \<not> caller_nonce_authorized_by_key x \<and> is_origination_purpose v purpose \<and>
               find_tag params (tag_of v KM_TAG_NONCE) 0 \<noteq> None
       then Some (KM_ERROR_CALLER_NONCE_PROHIBITED, s)
       else do {
         (e, s) \<leftarrow> record_time v keyid (min_ops_timeout x) s;
         Some (if e \<noteq> KM_ERROR_OK then (e, s) else record_use keyid (update_access_count x) s)
       }
     }
   }"

definition AuthorizeOperation ::
  "km_env \<Rightarrow> u32 \<Rightarrow> u64 \<Rightarrow> auth_set \<Rightarrow> auth_set \<Rightarrow> u64 \<Rightarrow> bool \<Rightarrow> enforcement \<Rightarrow>
   (keymaster_error_t \<times> enforcement) option" where
  "AuthorizeOperation v purpose keyid aset params op_handle is_begin_operation s = do {
     public \<leftarrow> is_public_key_algorithm v aset;
     if public \<and> (purpose = purpose_of v KM_PURPOSE_ENCRYPT \<or> purpose = purpose_of v KM_PURPOSE_VERIFY)
     then Some (KM_ERROR_OK, s)
     else if is_begin_operation then AuthorizeBegin v purpose keyid aset params s
     else AuthorizeUpdateOrFinish v aset params op_handle s
   }"

end
