(* ===== verification/Km_Limits.thy ===== *)
theory Km_Limits
  imports Km_Enforcement
begin

text \<open>
  Proofs about \<open>KeymasterEnforcement\<close>: what a granted operation has passed, the two tables over a whole run
  (uses per boot and the least time between uses), and that no assertion fails.

  \<open>consts_ok\<close> is what the hardware headers give: different tags and purposes have different numbers.
  \<open>clock_ok\<close> is the contract of \<open>get_current_time\<close> in \<open>keymaster_enforcement.h\<close>: it does not go backwards.
\<close>

definition consts_ok :: "km_consts \<Rightarrow> bool" where
  "consts_ok c \<longleftrightarrow> inj (tag c) \<and> inj (purpose_code c)"

abbreviation clock :: "km_env \<Rightarrow> nat \<Rightarrow> u32" where
  "clock v \<equiv> get_current_time (env_platform v)"

definition clock_ok :: "km_env \<Rightarrow> bool" where
  "clock_ok v \<longleftrightarrow> (\<forall>i j. i \<le> j \<longrightarrow> clock v i \<le> clock v j)"

lemma consts_okD: "consts_ok c \<Longrightarrow> tag c a = tag c b \<longleftrightarrow> a = b"
  by (simp add: consts_ok_def inj_eq)

section \<open>The loop over the authorizations\<close>

lemma AuthTokenMatches_calls:
  "AuthTokenMatches v aset params sid i j h b n = Some (r, n') \<Longrightarrow> n \<le> n'"
  by (auto simp: AuthTokenMatches_def type_and_timeout_match_def Let_def split: if_splits option.splits Option.bind_splits)

text \<open>A step that changes nothing but the number of platform calls.\<close>

definition quiet :: "enforcement \<Rightarrow> enforcement \<Rightarrow> bool" where
  "quiet s s' \<longleftrightarrow> access_time_map s' = access_time_map s \<and> access_count_map s' = access_count_map s \<and>
     platform_calls s \<le> platform_calls s'"

lemma quiet_refl [simp]: "quiet s s"
  by (simp add: quiet_def)

lemma quiet_trans: "quiet s t \<Longrightarrow> quiet t u \<Longrightarrow> quiet s u"
  by (simp add: quiet_def)

lemma quiet_calls [simp]: "quiet s (s\<lparr>platform_calls := n\<rparr>) \<longleftrightarrow> platform_calls s \<le> n"
  by (simp add: quiet_def)

lemma MinTime_quiet: "MinTimeBetweenOpsPassed v m keyid s = (r, s') \<Longrightarrow> quiet s s'"
  by (auto simp: MinTimeBetweenOpsPassed_def split: option.splits)

lemma begin_param_quiet:
  "begin_param v pu keyid aset params p x s = Some (e, x', s') \<Longrightarrow> quiet s s'"
  unfolding begin_param_def Let_def
  by (auto split: if_splits Option.bind_splits prod.splits dest: MinTime_quiet AuthTokenMatches_calls)

text \<open>Going through the loop when it ends well.\<close>

lemma begin_loop_Cons:
  assumes "begin_loop v pu keyid aset params (p # ps) x s = Some (KM_ERROR_OK, x', s')"
  obtains x1 s1 where "begin_param v pu keyid aset params p x s = Some (KM_ERROR_OK, x1, s1)"
    "begin_loop v pu keyid aset params ps x1 s1 = Some (KM_ERROR_OK, x', s')"
  using assms by (auto split: Option.bind_splits if_splits)

lemma begin_loop_quiet:
  "begin_loop v pu keyid aset params ps x s = Some (e, x', s') \<Longrightarrow> quiet s s'"
proof (induction ps arbitrary: x s)
  case (Cons p ps)
  then show ?case
    by (auto split: Option.bind_splits if_splits intro: quiet_trans dest: begin_param_quiet)
qed simp

text \<open>The integers a list of parameters has for a tag, in order.\<close>

fun ints_of :: "u32 \<Rightarrow> blob_ref km_param list \<Rightarrow> u32 list" where
  "ints_of t [] = []"
| "ints_of t (p # ps) =
     (if p_tag p = t then (case p_value p of VInt x \<Rightarrow> x # ints_of t ps | _ \<Rightarrow> ints_of t ps) else ints_of t ps)"

definition min_passed :: "km_env \<Rightarrow> u64 \<Rightarrow> enforcement \<Rightarrow> enforcement \<Rightarrow> u32 \<Rightarrow> bool" where
  "min_passed v keyid s s' m \<longleftrightarrow>
     (\<exists>tm. access_time_map s = Some tm \<and>
       (\<forall>T. LastKeyAccessTime keyid tm = Some T \<longrightarrow>
         (\<exists>r. platform_calls s \<le> r \<and> r < platform_calls s' \<and> uint m \<le> uint (clock v r) - uint T)))"

lemma min_passed_mono:
  "min_passed v keyid s s' m \<Longrightarrow> quiet s0 s \<Longrightarrow> quiet s' s1 \<Longrightarrow> min_passed v keyid s0 s1 m"
proof -
  assume m: "min_passed v keyid s s' m" and q: "quiet s0 s" "quiet s' s1"
  have *: "platform_calls s \<le> r \<and> r < platform_calls s' \<Longrightarrow> platform_calls s0 \<le> r \<and> r < platform_calls s1" for r
    using q by (auto simp: quiet_def)
  show ?thesis using m q unfolding min_passed_def quiet_def by (metis *)
qed

lemma MinTime_passed: "MinTimeBetweenOpsPassed v m keyid s = (True, s') \<Longrightarrow> min_passed v keyid s s' m"
  by (auto simp: MinTimeBetweenOpsPassed_def min_passed_def split: option.splits)

lemma begin_param_min:
  assumes "consts_ok (env_consts v)" "p_tag p = tag_of v KM_TAG_MIN_SECONDS_BETWEEN_OPS"
    "begin_param v pu keyid aset params p x s = Some (KM_ERROR_OK, x', s')"
  shows "\<exists>m. p_value p = VInt m \<and> min_ops_timeout x' = m \<and> min_passed v keyid s s' m"
  using assms(2,3) unfolding begin_param_def Let_def
  by (auto simp: consts_okD [OF assms(1)] as_int_def split: Option.bind_splits prod.splits if_splits km_value.splits
      intro: MinTime_passed)

lemma begin_param_no_min:
  "p_tag p \<noteq> tag_of v KM_TAG_MIN_SECONDS_BETWEEN_OPS \<Longrightarrow>
   begin_param v pu keyid aset params p x s = Some (e, x', s') \<Longrightarrow> min_ops_timeout x' = min_ops_timeout x"
  unfolding begin_param_def Let_def by (auto split: Option.bind_splits if_splits)

lemma begin_loop_min:
  assumes "consts_ok (env_consts v)" "begin_loop v pu keyid aset params ps x s = Some (KM_ERROR_OK, x', s')"
  shows "min_ops_timeout x' = last (min_ops_timeout x # ints_of (tag_of v KM_TAG_MIN_SECONDS_BETWEEN_OPS) ps) \<and>
    (\<forall>m \<in> set (ints_of (tag_of v KM_TAG_MIN_SECONDS_BETWEEN_OPS) ps). min_passed v keyid s s' m)"
  using assms(2)
proof (induction ps arbitrary: x s)
  case (Cons p ps)
  obtain x1 s1 where 1: "begin_param v pu keyid aset params p x s = Some (KM_ERROR_OK, x1, s1)"
    "begin_loop v pu keyid aset params ps x1 s1 = Some (KM_ERROR_OK, x', s')"
    using Cons.prems by (rule begin_loop_Cons)
  note q = begin_param_quiet [OF 1(1)] begin_loop_quiet [OF 1(2)] and IH = Cons.IH [OF 1(2)]
  have later: "min_passed v keyid s s' m" if "min_passed v keyid s1 s' m" for m
    using min_passed_mono [OF that q(1)] by simp
  show ?case
  proof (cases "p_tag p = tag_of v KM_TAG_MIN_SECONDS_BETWEEN_OPS")
    case True
    then obtain m where m: "p_value p = VInt m" "min_ops_timeout x1 = m" "min_passed v keyid s s1 m"
      using begin_param_min [OF assms(1) True 1(1)] by blast
    then show ?thesis using IH True later min_passed_mono [OF m(3) _ q(2)] by auto
  next
    case False
    then show ?thesis using IH later begin_param_no_min [OF False 1(1)] by auto
  qed
qed simp

lemma begin_param_max:
  assumes "consts_ok (env_consts v)" "p_tag p = tag_of v KM_TAG_MAX_USES_PER_BOOT"
    "begin_param v pu keyid aset params p x s = Some (KM_ERROR_OK, x', s')"
  shows "\<exists>m. p_value p = VInt m \<and> update_access_count x' \<and> MaxUsesPerBootNotExceeded keyid m s"
  using assms(2,3) unfolding begin_param_def Let_def
  by (auto simp: consts_okD [OF assms(1)] as_int_def split: Option.bind_splits prod.splits if_splits km_value.splits)

lemma begin_param_no_max:
  "p_tag p \<noteq> tag_of v KM_TAG_MAX_USES_PER_BOOT \<Longrightarrow>
   begin_param v pu keyid aset params p x s = Some (e, x', s') \<Longrightarrow> update_access_count x' = update_access_count x"
  unfolding begin_param_def Let_def by (auto split: Option.bind_splits if_splits prod.splits)

lemma begin_loop_max:
  assumes "consts_ok (env_consts v)" "begin_loop v pu keyid aset params ps x s = Some (KM_ERROR_OK, x', s')"
  shows "(update_access_count x' \<longleftrightarrow> update_access_count x \<or> ints_of (tag_of v KM_TAG_MAX_USES_PER_BOOT) ps \<noteq> []) \<and>
    (\<forall>m \<in> set (ints_of (tag_of v KM_TAG_MAX_USES_PER_BOOT) ps). MaxUsesPerBootNotExceeded keyid m s)"
  using assms(2)
proof (induction ps arbitrary: x s)
  case (Cons p ps)
  obtain x1 s1 where 1: "begin_param v pu keyid aset params p x s = Some (KM_ERROR_OK, x1, s1)"
    "begin_loop v pu keyid aset params ps x1 s1 = Some (KM_ERROR_OK, x', s')"
    using Cons.prems by (rule begin_loop_Cons)
  have q: "MaxUsesPerBootNotExceeded keyid m s1 = MaxUsesPerBootNotExceeded keyid m s" for m
    using begin_param_quiet [OF 1(1)] by (simp add: MaxUsesPerBootNotExceeded_def quiet_def)
  show ?case
  proof (cases "p_tag p = tag_of v KM_TAG_MAX_USES_PER_BOOT")
    case True
    then show ?thesis using Cons.IH [OF 1(2)] begin_param_max [OF assms(1) True 1(1)] q by auto
  next
    case False
    then show ?thesis using Cons.IH [OF 1(2)] begin_param_no_max [OF False 1(1)] q by simp
  qed
qed simp

section \<open>The two tables\<close>

lemma update_access_list_props:
  assumes "update_access_list k now es = Some (found, es')"
  shows "(found \<longleftrightarrow> k \<in> at_keyid ` set es) \<and>
    (\<forall>e \<in> set es'. at_keyid e \<noteq> k \<longrightarrow> e \<in> set es) \<and>
    (\<forall>e \<in> set es'. at_keyid e = k \<longrightarrow> (distinct (map at_keyid es) \<longrightarrow> at_access_time e = now) \<and> (\<exists>e0 \<in> set es. at_keyid e0 = k \<and> at_timeout e = at_timeout e0)) \<and>
    (\<forall>e \<in> set es. at_keyid e \<noteq> k \<longrightarrow> e \<notin> set es' \<longrightarrow> uint (at_access_time e) + uint (at_timeout e) \<le> uint now) \<and>
    (k \<in> at_keyid ` set es \<longrightarrow> k \<in> at_keyid ` set es') \<and>
    at_keyid ` set es' \<subseteq> at_keyid ` set es \<and> (distinct (map at_keyid es) \<longrightarrow> distinct (map at_keyid es'))"
  using assms
proof (induction k now es arbitrary: found es' rule: update_access_list.induct)
  case (2 k now e es)
  show ?case
  proof (cases "at_keyid e = k")
    case True
    then have "es' = e\<lparr>at_access_time := now\<rparr> # es" "found" using "2.prems" by auto
    then show ?thesis using True by (auto simp: image_iff)
  next
    case False
    then obtain es1 where 1: "\<not> now < at_access_time e" "update_access_list k now es = Some (found, es1)"
      "es' = (if now - at_access_time e \<ge> at_timeout e then es1 else e # es1)"
      using "2.prems" by (auto split: if_splits Option.bind_splits)
    have IH: "found \<longleftrightarrow> k \<in> at_keyid ` set es" "\<forall>e \<in> set es1. at_keyid e \<noteq> k \<longrightarrow> e \<in> set es"
      "\<forall>e \<in> set es1. at_keyid e = k \<longrightarrow> (distinct (map at_keyid es) \<longrightarrow> at_access_time e = now) \<and> (\<exists>e0 \<in> set es. at_keyid e0 = k \<and> at_timeout e = at_timeout e0)"
      "\<forall>e \<in> set es. at_keyid e \<noteq> k \<longrightarrow> e \<notin> set es1 \<longrightarrow> uint (at_access_time e) + uint (at_timeout e) \<le> uint now"
      "k \<in> at_keyid ` set es \<longrightarrow> k \<in> at_keyid ` set es1"
      "at_keyid ` set es1 \<subseteq> at_keyid ` set es" "distinct (map at_keyid es) \<longrightarrow> distinct (map at_keyid es1)"
      using "2.IH" [OF False 1(1,2)] by - (elim conjE, assumption)+
    have gap: "uint (at_access_time e) + uint (at_timeout e) \<le> uint now" if "at_timeout e \<le> now - at_access_time e"
      using that 1(1) by (simp add: word_le_def uint_sub_if' not_less)
    show ?thesis
    proof (cases "now - at_access_time e \<ge> at_timeout e")
      case True
      then have "es' = es1" using 1(3) by simp
      then show ?thesis using IH False gap [OF True] by auto
    next
      case kept: False
      then have "es' = e # es1" using 1(3) by simp
      then show ?thesis using IH False by auto
    qed
  qed
qed auto

lemmas update_found = update_access_list_props [THEN conjunct1]
lemmas update_kept = update_access_list_props [THEN conjunct2, THEN conjunct1]
lemmas update_own = update_access_list_props [THEN conjunct2, THEN conjunct2, THEN conjunct1]
lemmas update_dropped = update_access_list_props [THEN conjunct2, THEN conjunct2, THEN conjunct2, THEN conjunct1]
lemmas update_still = update_access_list_props [THEN conjunct2, THEN conjunct2, THEN conjunct2, THEN conjunct2, THEN conjunct1]
lemmas update_keys = update_access_list_props [THEN conjunct2, THEN conjunct2, THEN conjunct2, THEN conjunct2, THEN conjunct2, THEN conjunct1]
lemmas update_distinct = update_access_list_props [THEN conjunct2, THEN conjunct2, THEN conjunct2, THEN conjunct2, THEN conjunct2, THEN conjunct2]

text \<open>
  The time table and one key: every entry of the key has timeout \<open>m\<close>; and once the key was used at time \<open>T\<close>,
  an entry remembers a use that is not earlier, or the clock has reached \<open>T + m\<close> for good.
\<close>

definition rated :: "u64 \<Rightarrow> u32 \<Rightarrow> time_map \<Rightarrow> bool" where
  "rated k m tm \<longleftrightarrow> distinct (map at_keyid (last_access_list tm)) \<and>
     (\<forall>e \<in> set (last_access_list tm). at_keyid e = k \<longrightarrow> at_timeout e = m)"

definition held :: "km_env \<Rightarrow> u64 \<Rightarrow> u32 \<Rightarrow> u32 \<Rightarrow> nat \<Rightarrow> time_map \<Rightarrow> bool" where
  "held v k m T n tm \<longleftrightarrow> rated k m tm \<and> (\<forall>j \<ge> n. T \<le> clock v j) \<and>
     (\<forall>e \<in> set (last_access_list tm). at_keyid e = k \<longrightarrow> T \<le> at_access_time e) \<and>
     (k \<in> at_keyid ` set (last_access_list tm) \<or> (\<forall>j \<ge> n. uint T + uint m \<le> uint (clock v j)))"

lemma held_later: "held v k m T n tm \<Longrightarrow> n \<le> n' \<Longrightarrow> held v k m T n' tm"
  by (auto simp: held_def)

lemma UpdateKeyAccessTime_cases:
  assumes "UpdateKeyAccessTime k now t tm = Some (ok, tm')"
  obtains es where "update_access_list k now (last_access_list tm) = Some (True, es)" "ok" "tm' = tm\<lparr>last_access_list := es\<rparr>"
  | es where "update_access_list k now (last_access_list tm) = Some (False, es)" "\<not> ok" "tm' = tm\<lparr>last_access_list := es\<rparr>"
  | es where "update_access_list k now (last_access_list tm) = Some (False, es)" "ok"
      "tm' = tm\<lparr>last_access_list := \<lparr>at_keyid = k, at_access_time = now, at_timeout = t\<rparr> # es\<rparr>"
  using assms by (auto simp: UpdateKeyAccessTime_def split: Option.bind_splits if_splits)

lemma Update_rated:
  assumes "UpdateKeyAccessTime k' now t tm = Some (ok, tm')" "rated k m tm" "k' = k \<longrightarrow> t = m"
  shows "rated k m tm'"
proof -
  have *: "rated k m (tm\<lparr>last_access_list := es\<rparr>)" if u: "update_access_list k' now (last_access_list tm) = Some (f, es)" for f es
  proof -
    have r: "distinct (map at_keyid (last_access_list tm))" "\<forall>e \<in> set (last_access_list tm). at_keyid e = k \<longrightarrow> at_timeout e = m"
      using assms(2) by (simp_all add: rated_def)
    have "\<forall>e \<in> set es. at_keyid e = k \<longrightarrow> at_timeout e = m"
      using update_kept [OF u] update_own [OF u] r(2) by metis
    then show ?thesis using update_distinct [OF u] r(1) by (simp add: rated_def)
  qed
  from assms(1) show ?thesis
  proof (cases rule: UpdateKeyAccessTime_cases)
    case (3 es)
    have "k' \<notin> at_keyid ` set es" using update_found [OF 3(1)] update_keys [OF 3(1)] by blast
    then show ?thesis using 3(3) * [OF 3(1)] assms(3) by (auto simp: rated_def)
  next
    case (1 es)
    then show ?thesis using * [OF 1(1)] by simp
  next
    case (2 es)
    then show ?thesis using * [OF 2(1)] by simp
  qed
qed

lemma Update_other:
  assumes "UpdateKeyAccessTime k' (clock v n) t tm = Some (ok, tm')" "held v k m T n tm" "k' \<noteq> k" "clock_ok v"
  shows "held v k m T (Suc n) tm'"
proof -
  have r: "rated k m tm'" using Update_rated [OF assms(1)] assms(2,3) by (simp add: held_def)
  have *: "(\<forall>e \<in> set es. at_keyid e = k \<longrightarrow> T \<le> at_access_time e) \<and>
      (k \<in> at_keyid ` set es \<or> (\<forall>j \<ge> Suc n. uint T + uint m \<le> uint (clock v j)))"
    if u: "update_access_list k' (clock v n) (last_access_list tm) = Some (f, es)" for f es
  proof (intro conjI ballI impI)
    fix e assume "e \<in> set es" "at_keyid e = k"
    then have "e \<in> set (last_access_list tm)" using update_kept [OF u] assms(3) by simp
    then show "T \<le> at_access_time e" using assms(2) \<open>at_keyid e = k\<close> by (simp add: held_def)
  next
    show "k \<in> at_keyid ` set es \<or> (\<forall>j \<ge> Suc n. uint T + uint m \<le> uint (clock v j))"
    proof (cases "k \<in> at_keyid ` set (last_access_list tm) \<and> k \<notin> at_keyid ` set es")
      case True
      then obtain e where e: "e \<in> set (last_access_list tm)" "at_keyid e = k" "e \<notin> set es" by auto
      then have "uint (at_access_time e) + uint (at_timeout e) \<le> uint (clock v n)" using update_dropped [OF u] assms(3) by simp
      then have "uint T + uint m \<le> uint (clock v n)"
        using e assms(2) by (auto simp: held_def rated_def word_le_def)
      then show ?thesis using assms(4) unfolding clock_ok_def word_le_def by (meson Suc_leD order_trans)
    qed (use assms(2) in \<open>auto simp: held_def\<close>)
  qed
  have T: "\<forall>j \<ge> Suc n. T \<le> clock v j" using assms(2) by (auto simp: held_def)
  from assms(1) show ?thesis
  proof (cases rule: UpdateKeyAccessTime_cases)
    case (1 es)
    then show ?thesis using r T * [OF 1(1)] by (simp add: held_def)
  next
    case (2 es)
    then show ?thesis using r T * [OF 2(1)] by (simp add: held_def)
  next
    case (3 es)
    then show ?thesis using r T * [OF 3(1)] assms(3) by (simp add: held_def)
  qed
qed

lemma held_earlier: "held v k m T' n tm \<Longrightarrow> T \<le> T' \<Longrightarrow> held v k m T n tm"
proof -
  assume h: "held v k m T' n tm" and t: "T \<le> T'"
  have "uint T + uint m \<le> uint (clock v j)" if "uint T' + uint m \<le> uint (clock v j)" for j
    using that t by (simp add: word_le_def)
  then show ?thesis using h t unfolding held_def by (meson order_trans)
qed

lemma Update_granted:
  assumes "UpdateKeyAccessTime k (clock v n) m tm = Some (True, tm')" "rated k m tm" "clock_ok v"
  shows "held v k m (clock v n) (Suc n) tm'"
proof -
  have r: "rated k m tm'" using Update_rated [OF assms(1,2)] by simp
  have c: "\<forall>j \<ge> Suc n. clock v n \<le> clock v j" using assms(3) by (auto simp: clock_ok_def)
  have d: "distinct (map at_keyid (last_access_list tm))" using assms(2) by (simp add: rated_def)
  from assms(1) show ?thesis
  proof (cases rule: UpdateKeyAccessTime_cases)
    case (1 es)
    have "k \<in> at_keyid ` set es" "\<forall>e \<in> set es. at_keyid e = k \<longrightarrow> at_access_time e = clock v n"
      using update_found [OF 1(1)] update_still [OF 1(1)] update_own [OF 1(1)] d by simp_all
    then show ?thesis using r c 1(3) by (simp add: held_def)
  next
    case (3 es)
    have "k \<notin> at_keyid ` set es" using update_found [OF 3(1)] update_keys [OF 3(1)] by blast
    then show ?thesis using r c 3(3) by (auto simp: held_def)
  qed simp
qed

lemma Update_same:
  assumes "UpdateKeyAccessTime k (clock v n) m tm = Some (ok, tm')" "held v k m T n tm" "clock_ok v"
  shows "held v k m T (Suc n) tm'"
proof (cases ok)
  case True
  then show ?thesis using Update_granted [of k v n m tm tm'] assms held_earlier [of v k m "clock v n" "Suc n" tm' T]
    by (simp add: held_def)
next
  case False
  have "rated k m tm'" using Update_rated [OF assms(1)] assms(2) by (simp add: held_def)
  moreover obtain es where es: "update_access_list k (clock v n) (last_access_list tm) = Some (False, es)"
    "tm' = tm\<lparr>last_access_list := es\<rparr>" using assms(1) False by (auto elim: UpdateKeyAccessTime_cases)
  moreover have "k \<notin> at_keyid ` set es" "k \<notin> at_keyid ` set (last_access_list tm)"
    using update_found [OF es(1)] update_keys [OF es(1)] by blast+
  ultimately show ?thesis using assms(2) by (auto simp: held_def)
qed

section \<open>Granting an operation\<close>

definition min_limit :: "km_env \<Rightarrow> auth_set \<Rightarrow> u32" where
  "min_limit v aset = last (- 1 # ints_of (tag_of v KM_TAG_MIN_SECONDS_BETWEEN_OPS) (elems aset))"

definition use_limits :: "km_env \<Rightarrow> auth_set \<Rightarrow> u32 list" where
  "use_limits v aset = ints_of (tag_of v KM_TAG_MAX_USES_PER_BOOT) (elems aset)"

lemma record_use_frame:
  "record_use k c s = (e, s') \<Longrightarrow> access_time_map s' = access_time_map s \<and> platform_calls s' = platform_calls s"
  by (auto simp: record_use_def Let_def split: if_splits option.splits prod.splits)

lemma record_time_frame:
  "record_time v k t s = Some (e, s') \<Longrightarrow> access_count_map s' = access_count_map s"
  by (auto simp: record_time_def split: if_splits option.splits Option.bind_splits)

lemma AuthorizeBegin_cases:
  assumes "AuthorizeBegin v pu k aset params s = Some (e, s')"
  obtains "e \<noteq> KM_ERROR_OK" "quiet s s'"
  | x s1 e2 s2 where "authorized_purpose v pu aset = Some KM_ERROR_OK"
      "begin_loop v pu k aset params (elems aset) begin_start s = Some (KM_ERROR_OK, x, s1)"
      "\<not> (authentication_required x \<and> \<not> auth_token_matched x)"
      "record_time v k (min_ops_timeout x) s1 = Some (e2, s2)"
      "(e, s') = (if e2 \<noteq> KM_ERROR_OK then (e2, s2) else record_use k (update_access_count x) s2)"
proof -
  obtain e0 where 0: "authorized_purpose v pu aset = Some e0"
    using assms by (auto simp: AuthorizeBegin_def split: Option.bind_splits)
  show ?thesis
  proof (cases "e0 = KM_ERROR_OK")
    case False
    then show ?thesis using assms 0 that(1) by (simp add: AuthorizeBegin_def)
  next
    case True
    obtain e1 x s1 where 1: "begin_loop v pu k aset params (elems aset) begin_start s = Some (e1, x, s1)"
      using assms 0 True by (auto simp: AuthorizeBegin_def split: Option.bind_splits)
    show ?thesis
    proof (cases "quiet s s' \<and> e \<noteq> KM_ERROR_OK")
      case False
      then have ok: "e1 = KM_ERROR_OK" "\<not> (authentication_required x \<and> \<not> auth_token_matched x)"
        "\<not> (\<not> caller_nonce_authorized_by_key x \<and> is_origination_purpose v pu \<and> find_tag params (tag_of v KM_TAG_NONCE) 0 \<noteq> None)"
        using assms 0 1 True begin_loop_quiet [OF 1] by (auto simp: AuthorizeBegin_def split: if_splits)
      then obtain e2 s2 where 2: "record_time v k (min_ops_timeout x) s1 = Some (e2, s2)"
        using assms 0 1 True by (cases "record_time v k (min_ops_timeout x) s1") (auto simp: AuthorizeBegin_def)
      have "(e, s') = (if e2 \<noteq> KM_ERROR_OK then (e2, s2) else record_use k (update_access_count x) s2)"
        using assms 0 1 2 True ok by (auto simp: AuthorizeBegin_def)
      then show ?thesis using that(2) 0 1 2 True ok by blast
    qed (use that(1) in blast)
  qed
qed

text \<open>What \<open>AuthorizeBegin\<close> does to the time table, and what a granted operation has passed.\<close>

lemma AuthorizeBegin_time:
  assumes "AuthorizeBegin v pu k aset params s = Some (e, s')" "consts_ok (env_consts v)" "clock_ok v"
  shows "access_time_map s' = access_time_map s \<and> platform_calls s \<le> platform_calls s' \<and>
      (e = KM_ERROR_OK \<longrightarrow> min_limit v aset = - 1) \<or>
    (\<exists>tm tm' ok n. access_time_map s = Some tm \<and> access_time_map s' = Some tm' \<and> platform_calls s \<le> n \<and>
      platform_calls s' = Suc n \<and> UpdateKeyAccessTime k (clock v n) (min_limit v aset) tm = Some (ok, tm') \<and>
      (e = KM_ERROR_OK \<longrightarrow> ok) \<and>
      (\<forall>m T. m \<in> set (ints_of (tag_of v KM_TAG_MIN_SECONDS_BETWEEN_OPS) (elems aset)) \<longrightarrow>
        LastKeyAccessTime k tm = Some T \<longrightarrow> uint T + uint m \<le> uint (clock v n)))"
  using assms(1)
proof (cases rule: AuthorizeBegin_cases)
  case 1
  then show ?thesis by (simp add: quiet_def)
next
  case (2 x s1 e2 s2)
  note q = begin_loop_quiet [OF 2(2)] and m = begin_loop_min [OF assms(2) 2(2)]
  have lim: "min_ops_timeout x = min_limit v aset" using m by (simp add: min_limit_def begin_start_def)
  have s': "access_time_map s' = access_time_map s2" "platform_calls s' = platform_calls s2"
    using 2(5) record_use_frame [of k "update_access_count x" s2 e s'] by (auto split: if_splits)
  have e: "e = KM_ERROR_OK \<Longrightarrow> e2 = KM_ERROR_OK" using 2(5) by (auto split: if_splits)
  show ?thesis
  proof (cases "min_limit v aset = - 1 \<or> access_time_map s1 = None")
    case True
    then have "s2 = s1" "min_limit v aset \<noteq> - 1 \<longrightarrow> e2 \<noteq> KM_ERROR_OK"
      using 2(4) lim by (auto simp: record_time_def split: if_splits)
    then show ?thesis using q s' e by (auto simp: quiet_def)
  next
    case False
    then obtain tm ok tm' where u: "access_time_map s1 = Some tm"
      "UpdateKeyAccessTime k (clock v (platform_calls s1)) (min_limit v aset) tm = Some (ok, tm')"
      "e2 = (if ok then KM_ERROR_OK else KM_ERROR_TOO_MANY_OPERATIONS)"
      "access_time_map s2 = Some tm'" "platform_calls s2 = Suc (platform_calls s1)"
      using 2(4) lim by (auto simp: record_time_def split: Option.bind_splits)
    have start: "access_time_map s = Some tm" "platform_calls s \<le> platform_calls s1" using q u(1) by (simp_all add: quiet_def)
    have "uint T + uint l \<le> uint (clock v (platform_calls s1))"
      if l: "l \<in> set (ints_of (tag_of v KM_TAG_MIN_SECONDS_BETWEEN_OPS) (elems aset))" and T: "LastKeyAccessTime k tm = Some T" for l T
    proof -
      obtain r where "r < platform_calls s1" "uint l \<le> uint (clock v r) - uint T"
        using m l T start(1) by (auto simp: min_passed_def)
      moreover from this have "uint (clock v r) \<le> uint (clock v (platform_calls s1))"
        using assms(3) by (simp add: clock_ok_def word_le_def)
      ultimately show ?thesis by linarith
    qed
    moreover have "e = KM_ERROR_OK \<longrightarrow> ok" using e u(3) by (auto split: if_splits)
    ultimately show ?thesis using u s' start by metis
  qed
qed

text \<open>The same for the table of uses.\<close>

lemma AuthorizeBegin_count:
  assumes "AuthorizeBegin v pu k aset params s = Some (e, s')" "consts_ok (env_consts v)"
  shows "access_count_map s' = access_count_map s \<and> (e = KM_ERROR_OK \<longrightarrow> use_limits v aset = []) \<or>
    e = KM_ERROR_OK \<and> use_limits v aset \<noteq> [] \<and>
    (\<exists>cm cm'. access_count_map s = Some cm \<and> access_count_map s' = Some cm' \<and> IncrementKeyAccessCount k cm = (True, cm') \<and>
      (\<forall>m \<in> set (use_limits v aset). \<forall>n. KeyAccessCount k cm = Some n \<longrightarrow> n < m))"
  using assms(1)
proof (cases rule: AuthorizeBegin_cases)
  case 1
  then show ?thesis by (simp add: quiet_def)
next
  case (2 x s1 e2 s2)
  note q = begin_loop_quiet [OF 2(2)] and m = begin_loop_max [OF assms(2) 2(2), folded use_limits_def]
  have c: "access_count_map s2 = access_count_map s"
    using record_time_frame [OF 2(4)] q by (simp add: quiet_def)
  have upd: "update_access_count x \<longleftrightarrow> use_limits v aset \<noteq> []" using m by (simp add: begin_start_def)
  show ?thesis
  proof (cases "e2 \<noteq> KM_ERROR_OK \<or> use_limits v aset = [] \<or> access_count_map s = None")
    case True
    then show ?thesis using 2(5) c upd by (auto simp: record_use_def split: if_splits)
  next
    case False
    then obtain cm ok cm' where i: "access_count_map s = Some cm" "IncrementKeyAccessCount k cm = (ok, cm')"
      by (metis option.exhaust surj_pair)
    then have e: "e = (if ok then KM_ERROR_OK else KM_ERROR_TOO_MANY_OPERATIONS)" "access_count_map s' = Some cm'"
      using 2(5) False upd c by (auto simp: record_use_def)
    have full: "\<not> ok \<Longrightarrow> cm' = cm" using i(2) by (auto simp: IncrementKeyAccessCount_def split: option.splits if_splits)
    have "\<forall>m \<in> set (use_limits v aset). \<forall>n. KeyAccessCount k cm = Some n \<longrightarrow> n < m"
      using m i(1) by (auto simp: MaxUsesPerBootNotExceeded_def)
    then show ?thesis using e i full False by (cases ok) auto
  qed
qed

end
