(* ===== verification/Km_Runs.thy ===== *)
theory Km_Runs
  imports Km_Limits
begin

text \<open>
  Runs of \<open>KeymasterEnforcement\<close>: sequences of calls of \<open>AuthorizeOperation\<close> on any keys, from the
  constructor on. The two limits of a key are shown over whole runs.
\<close>

section \<open>Runs\<close>

record km_call =
  c_purpose :: u32
  c_keyid :: u64
  c_auths :: auth_set
  c_params :: auth_set
  c_handle :: u64
  c_is_begin :: bool

definition authorize_call :: "km_env \<Rightarrow> km_call \<Rightarrow> enforcement \<Rightarrow> (keymaster_error_t \<times> enforcement) option" where
  "authorize_call v c s =
     AuthorizeOperation v (c_purpose c) (c_keyid c) (c_auths c) (c_params c) (c_handle c) (c_is_begin c) s"

type_synonym km_trace = "(km_call \<times> keymaster_error_t \<times> enforcement) list"

inductive enf_run :: "km_env \<Rightarrow> enforcement \<Rightarrow> km_trace \<Rightarrow> enforcement \<Rightarrow> bool" for v s0 where
  start: "enf_run v s0 [] s0"
| call: "enf_run v s0 tr s \<Longrightarrow> authorize_call v c s = Some (e, s') \<Longrightarrow> enf_run v s0 (tr @ [(c, e, s')]) s'"

inductive_cases enf_run_snocE: "enf_run v s0 (tr @ [x]) s"

lemma enf_run_snocD:
  "enf_run v s0 (tr @ [(c, e, s')]) t \<Longrightarrow> t = s' \<and> (\<exists>s. enf_run v s0 tr s \<and> authorize_call v c s = Some (e, s'))"
  by (auto elim: enf_run_snocE)

text \<open>A call that the limits apply to: it begins an operation that is not one with a public key.\<close>

definition public_operation :: "km_env \<Rightarrow> u32 \<Rightarrow> auth_set \<Rightarrow> bool" where
  "public_operation v purpose aset \<longleftrightarrow> is_public_key_algorithm v aset = Some True \<and>
     (purpose = purpose_of v KM_PURPOSE_ENCRYPT \<or> purpose = purpose_of v KM_PURPOSE_VERIFY)"

definition limited :: "km_env \<Rightarrow> km_call \<Rightarrow> bool" where
  "limited v c \<longleftrightarrow> c_is_begin c \<and> \<not> public_operation v (c_purpose c) (c_auths c)"

lemma update_or_finish_loop_calls:
  "update_or_finish_loop v aset params i h ps req n = Some (e, n') \<Longrightarrow> n \<le> n'"
proof (induction ps arbitrary: req n)
  case (Cons p ps)
  show ?case
  proof (cases "p_tag p = tag_of v KM_TAG_USER_SECURE_ID")
    case True
    then obtain sid b n1 where 1: "as_long (p_value p) = Some sid" "AuthTokenMatches v aset params sid i None h False n = Some (b, n1)"
      using Cons.prems by (auto split: Option.bind_splits)
    then show ?thesis using Cons True AuthTokenMatches_calls [OF 1(2)] by (auto split: if_splits intro: le_trans)
  qed (use Cons in simp)
qed simp

lemma AuthorizeUpdateOrFinish_quiet:
  "AuthorizeUpdateOrFinish v aset params h s = Some (e, s') \<Longrightarrow> quiet s s'"
  by (auto simp: AuthorizeUpdateOrFinish_def Let_def split: if_splits Option.bind_splits dest: update_or_finish_loop_calls)

lemma authorize_call_cases:
  assumes "authorize_call v c s = Some (e, s')"
  obtains "limited v c" "AuthorizeBegin v (c_purpose c) (c_keyid c) (c_auths c) (c_params c) s = Some (e, s')"
  | "\<not> limited v c" "quiet s s'"
proof -
  obtain b where b: "is_public_key_algorithm v (c_auths c) = Some b"
    using assms by (auto simp: authorize_call_def AuthorizeOperation_def split: Option.bind_splits)
  then show ?thesis
    using assms that AuthorizeUpdateOrFinish_quiet
    by (auto simp: authorize_call_def AuthorizeOperation_def limited_def public_operation_def split: if_splits)
qed

lemma enf_run_prefix: "enf_run v s0 (tr @ tr') s \<Longrightarrow> \<exists>s1. enf_run v s0 tr s1"
proof (induction tr' arbitrary: s rule: rev_induct)
  case (snoc x tr')
  then show ?case by (metis append_assoc enf_run_snocE)
qed auto

lemma enf_run_deterministic: "enf_run v s0 tr s \<Longrightarrow> enf_run v s0 tr s' \<Longrightarrow> s = s'"
  by (erule enf_run.cases; erule enf_run.cases) auto

section \<open>Uses per boot\<close>

definition used :: "km_env \<Rightarrow> u64 \<Rightarrow> km_call \<times> keymaster_error_t \<times> enforcement \<Rightarrow> bool" where
  "used v k x \<longleftrightarrow> (case x of (c, e, _) \<Rightarrow>
     limited v c \<and> c_keyid c = k \<and> use_limits v (c_auths c) \<noteq> [] \<and> e = KM_ERROR_OK)"

definition count_of :: "u64 \<Rightarrow> enforcement \<Rightarrow> u64 option" where
  "count_of k s = (case access_count_map s of
     None \<Rightarrow> None | Some cm \<Rightarrow> map_option ac_access_count (find (\<lambda>e. ac_keyid e = k) (access_count_list cm)))"

definition counted :: "u64 option \<Rightarrow> nat \<Rightarrow> bool" where
  "counted c n \<longleftrightarrow> n < 2 ^ 32 \<and> (case c of None \<Rightarrow> n = 0 | Some x \<Rightarrow> unat x = n)"

lemma increment_count_list_find:
  "increment_count_list k es = Some es' \<Longrightarrow>
   find (\<lambda>e. ac_keyid e = k') es' =
     (if k' = k then map_option (\<lambda>e. if ac_access_count e < - 1 then e\<lparr>ac_access_count := ac_access_count e + 1\<rparr> else e)
        (find (\<lambda>e. ac_keyid e = k) es) else find (\<lambda>e. ac_keyid e = k') es) \<and> find (\<lambda>e. ac_keyid e = k) es \<noteq> None"
  by (induction k es arbitrary: es' rule: increment_count_list.induct) (auto split: if_splits)

lemma increment_count_list_none: "increment_count_list k es = None \<Longrightarrow> find (\<lambda>e. ac_keyid e = k) es = None"
  by (induction k es rule: increment_count_list.induct) (auto split: if_splits)

lemma unat_increment: "unat (x :: u64) < 2 ^ 32 \<Longrightarrow> x < - 1 \<and> unat (x + 1) = Suc (unat x)"
  by (simp add: word_less_nat_alt unat_word_ariths unsigned_minus_1_eq_mask mask_eq_exp_minus_1)

lemma Increment_count_of:
  assumes "access_count_map s = Some cm" "IncrementKeyAccessCount k cm = (True, cm')" "access_count_map s' = Some cm'"
    "counted (count_of k' s) n" "k' = k \<longrightarrow> n < 2 ^ 32 - 1"
  shows "counted (count_of k' s') (if k' = k then Suc n else n)"
proof (cases "increment_count_list k (access_count_list cm)")
  case None
  then show ?thesis
    using assms increment_count_list_none [OF None]
    by (auto simp: IncrementKeyAccessCount_def count_of_def counted_def split: if_splits)
next
  case (Some es)
  then show ?thesis
    using assms increment_count_list_find [OF Some, of k']
    by (auto simp: IncrementKeyAccessCount_def count_of_def counted_def unat_increment split: option.splits)
qed

text \<open>Before a use that is counted and granted, the key has been used fewer times than each limit, or never.\<close>

lemma granted_below_limit:
  assumes "access_count_map s = Some cm" "\<forall>n. KeyAccessCount k cm = Some n \<longrightarrow> n < m" "counted (count_of k s) n"
  shows "n = 0 \<or> n < unat m"
proof (cases "KeyAccessCount k cm")
  case None
  then show ?thesis using assms(1,3) by (auto simp: KeyAccessCount_def count_of_def counted_def)
next
  case (Some x)
  then have "unat x = n"
    using assms(1,3) by (auto simp: KeyAccessCount_def count_of_def counted_def unsigned_ucast_eq take_bit_eq_mod)
  then show ?thesis using assms(2) Some by (auto simp: word_less_nat_alt)
qed

lemma used_step:
  assumes "authorize_call v c s = Some (e, s')" "consts_ok (env_consts v)" "counted (count_of k s) n"
  shows "counted (count_of k s') (if used v k (c, e, s') then Suc n else n) \<and>
    (used v k (c, e, s') \<longrightarrow> (\<forall>m \<in> set (use_limits v (c_auths c)). n = 0 \<or> n < unat m))"
  using assms(1)
proof (cases rule: authorize_call_cases)
  case 1
  note C = AuthorizeBegin_count [OF 1(2) assms(2)]
  show ?thesis
  proof (cases "e = KM_ERROR_OK \<and> use_limits v (c_auths c) \<noteq> []")
    case False
    then have "access_count_map s' = access_count_map s" "\<not> used v k (c, e, s')" using C by (auto simp: used_def)
    then show ?thesis using assms(3) by (simp add: count_of_def)
  next
    case True
    then obtain cm cm' where i: "access_count_map s = Some cm" "access_count_map s' = Some cm'"
      "IncrementKeyAccessCount (c_keyid c) cm = (True, cm')"
      "\<forall>m \<in> set (use_limits v (c_auths c)). \<forall>n. KeyAccessCount (c_keyid c) cm = Some n \<longrightarrow> n < m"
      using C by auto
    have u: "used v k (c, e, s') \<longleftrightarrow> k = c_keyid c" using True 1 by (auto simp: used_def)
    have lt: "k = c_keyid c \<longrightarrow> (\<forall>m \<in> set (use_limits v (c_auths c)). n = 0 \<or> n < unat m)"
      using granted_below_limit [OF i(1) _ assms(3)] i(4) by blast
    obtain m where "m \<in> set (use_limits v (c_auths c))" using True by (cases "use_limits v (c_auths c)") auto
    then have "k = c_keyid c \<longrightarrow> n < 2 ^ 32 - 1"
      using lt unsigned_less [of m, where 'a = nat] by fastforce
    then show ?thesis using Increment_count_of [OF i(1,3,2) assms(3)] u lt by simp
  qed
next
  case 2
  then show ?thesis using assms(3) by (simp add: used_def count_of_def quiet_def)
qed

lemma run_counts:
  assumes "enf_run v (new_KeymasterEnforcement b1 b2 n1 n2) tr s" "consts_ok (env_consts v)"
  shows "counted (count_of k s) (length (filter (used v k) tr))"
  using assms(1)
proof (induction rule: enf_run.induct)
  case start
  then show ?case by (simp add: counted_def count_of_def new_KeymasterEnforcement_def)
next
  case (call tr s c e s')
  then show ?case using used_step [OF call.hyps(2) assms(2) call.IH] by (auto split: if_splits)
qed

section \<open>Time between uses\<close>

text \<open>The time that is recorded by the last call, its last call of the platform.\<close>

definition use_time :: "km_env \<Rightarrow> enforcement \<Rightarrow> u32" where
  "use_time v s = clock v (platform_calls s - 1)"

definition of_limit :: "km_env \<Rightarrow> u64 \<Rightarrow> u32 \<Rightarrow> km_call \<Rightarrow> bool" where
  "of_limit v k m c \<longleftrightarrow> (limited v c \<and> c_keyid c = k \<longrightarrow> min_limit v (c_auths c) = m)"

definition time_inv :: "(time_map \<Rightarrow> bool) \<Rightarrow> enforcement \<Rightarrow> bool" where
  "time_inv P s \<longleftrightarrow> (\<forall>tm. access_time_map s = Some tm \<longrightarrow> P tm)"

lemma rated_step:
  assumes "authorize_call v c s = Some (e, s')" "consts_ok (env_consts v)" "clock_ok v" "of_limit v k m c"
    "time_inv (rated k m) s"
  shows "time_inv (rated k m) s'"
  using assms(1)
proof (cases rule: authorize_call_cases)
  case 1
  from AuthorizeBegin_time [OF 1(2) assms(2,3)] show ?thesis
    using assms(4,5) 1(1) Update_rated [where k = k and m = m] unfolding time_inv_def of_limit_def by (metis option.inject)
next
  case 2
  then show ?thesis using assms(5) by (simp add: time_inv_def quiet_def)
qed

lemma held_step:
  assumes "authorize_call v c s = Some (e, s')" "consts_ok (env_consts v)" "clock_ok v" "of_limit v k m c"
    "access_time_map s = Some tm" "held v k m T (platform_calls s) tm"
  shows "\<exists>tm'. access_time_map s' = Some tm' \<and> held v k m T (platform_calls s') tm'"
  using assms(1)
proof (cases rule: authorize_call_cases)
  case 1
  from AuthorizeBegin_time [OF 1(2) assms(2,3)] show ?thesis
  proof (elim disjE)
    assume "access_time_map s' = access_time_map s \<and> platform_calls s \<le> platform_calls s' \<and>
      (e = KM_ERROR_OK \<longrightarrow> min_limit v (c_auths c) = - 1)"
    then show ?thesis using assms(5,6) held_later by auto
  next
    assume "\<exists>tm tm' ok n. access_time_map s = Some tm \<and> access_time_map s' = Some tm' \<and> platform_calls s \<le> n \<and>
      platform_calls s' = Suc n \<and> UpdateKeyAccessTime (c_keyid c) (clock v n) (min_limit v (c_auths c)) tm = Some (ok, tm') \<and>
      (e = KM_ERROR_OK \<longrightarrow> ok) \<and>
      (\<forall>m T. m \<in> set (ints_of (tag_of v KM_TAG_MIN_SECONDS_BETWEEN_OPS) (elems (c_auths c))) \<longrightarrow>
        LastKeyAccessTime (c_keyid c) tm = Some T \<longrightarrow> uint T + uint m \<le> uint (clock v n))"
    then obtain tm' ok n where u: "access_time_map s' = Some tm'" "platform_calls s \<le> n" "platform_calls s' = Suc n"
      "UpdateKeyAccessTime (c_keyid c) (clock v n) (min_limit v (c_auths c)) tm = Some (ok, tm')" using assms(5) by auto
    have h: "held v k m T n tm" using held_later [OF assms(6) u(2)] .
    have "held v k m T (Suc n) tm'"
    proof (cases "c_keyid c = k")
      case True
      then have "min_limit v (c_auths c) = m" using assms(4) 1(1) by (simp add: of_limit_def)
      then show ?thesis using Update_same u(4) h assms(3) True by simp
    next
      case False
      then show ?thesis using Update_other [OF u(4) h False assms(3)] by simp
    qed
    then show ?thesis using u by auto
  qed
next
  case 2
  then show ?thesis using assms(5,6) held_later by (auto simp: quiet_def)
qed

text \<open>The granted use itself: it sets the time, and comes late enough after a use at \<open>T\<close>.\<close>

lemma granted_time:
  assumes "authorize_call v c s = Some (KM_ERROR_OK, s')" "consts_ok (env_consts v)" "clock_ok v"
    "limited v c" "c_keyid c = k" "min_limit v (c_auths c) = m" "m \<noteq> - 1" "time_inv (rated k m) s"
  shows "\<exists>tm tm'. access_time_map s = Some tm \<and> access_time_map s' = Some tm' \<and>
    held v k m (use_time v s') (platform_calls s') tm' \<and>
    (\<forall>T. held v k m T (platform_calls s) tm \<longrightarrow> uint T + uint m \<le> uint (use_time v s'))"
proof -
  have "AuthorizeBegin v (c_purpose c) k (c_auths c) (c_params c) s = Some (KM_ERROR_OK, s')"
    using assms(1,4,5) by (auto elim: authorize_call_cases)
  from AuthorizeBegin_time [OF this assms(2,3)] obtain tm tm' n where u: "access_time_map s = Some tm"
    "access_time_map s' = Some tm'" "platform_calls s \<le> n" "platform_calls s' = Suc n"
    "UpdateKeyAccessTime k (clock v n) m tm = Some (True, tm')"
    "\<forall>l T. l \<in> set (ints_of (tag_of v KM_TAG_MIN_SECONDS_BETWEEN_OPS) (elems (c_auths c))) \<longrightarrow>
        LastKeyAccessTime k tm = Some T \<longrightarrow> uint T + uint l \<le> uint (clock v n)"
    using assms(6,7) by auto
  have t: "use_time v s' = clock v n" using u(4) by (simp add: use_time_def)
  have m: "m \<in> set (ints_of (tag_of v KM_TAG_MIN_SECONDS_BETWEEN_OPS) (elems (c_auths c)))"
    using assms(6,7) by (auto simp: min_limit_def split: if_splits)
  have "uint T + uint m \<le> uint (clock v n)" if h: "held v k m T (platform_calls s) tm" for T
  proof (cases "LastKeyAccessTime k tm")
    case None
    then have "k \<notin> at_keyid ` set (last_access_list tm)" by (auto simp: LastKeyAccessTime_def find_None_iff)
    then show ?thesis using h u(3) by (simp add: held_def)
  next
    case (Some T')
    then obtain e where "e \<in> set (last_access_list tm)" "at_keyid e = k" "at_access_time e = T'"
      by (auto simp: LastKeyAccessTime_def find_Some_iff intro: nth_mem)
    then have "T \<le> T'" using h by (auto simp: held_def)
    then show ?thesis using u(6) m Some by (auto simp: word_le_def)
  qed
  moreover have "held v k m (clock v n) (Suc n) tm'" using Update_granted u(1,5) assms(3,8) by (simp add: time_inv_def)
  ultimately show ?thesis using u(1,2,4) t by auto
qed

lemma run_rated:
  assumes "enf_run v (new_KeymasterEnforcement b1 b2 n1 n2) tr s" "consts_ok (env_consts v)" "clock_ok v"
    "list_all (of_limit v k m \<circ> fst) tr"
  shows "time_inv (rated k m) s"
  using assms(1,4)
proof (induction rule: enf_run.induct)
  case start
  then show ?case by (simp add: time_inv_def rated_def new_KeymasterEnforcement_def)
next
  case (call tr s c e s')
  then show ?case using rated_step [OF call.hyps(2) assms(2,3)] by simp
qed

text \<open>From a use at \<open>T\<close> on, the table holds it until the end of the run.\<close>

lemma run_held:
  assumes "enf_run v s0 (tr1 @ tr2) s" "enf_run v s0 tr1 s1" "consts_ok (env_consts v)" "clock_ok v"
    "list_all (of_limit v k m \<circ> fst) tr2" "\<exists>tm. access_time_map s1 = Some tm \<and> held v k m T (platform_calls s1) tm"
  shows "\<exists>tm. access_time_map s = Some tm \<and> held v k m T (platform_calls s) tm"
  using assms(1,5)
proof (induction tr2 arbitrary: s rule: rev_induct)
  case Nil
  then show ?case using enf_run_deterministic [OF _ assms(2)] assms(6) by simp
next
  case (snoc x tr2)
  obtain c e sa where "x = (c, e, sa)" by (cases x)
  then obtain sb where "enf_run v s0 (tr1 @ tr2) sb" "authorize_call v c sb = Some (e, s)"
    using snoc.prems(1) by (auto simp flip: append_assoc elim: enf_run_snocE)
  then show ?case using snoc.IH [of sb] snoc.prems(2) \<open>x = _\<close> held_step [OF _ assms(3,4)] by auto
qed

end
