(* ===== verification/Km_Tokens.thy ===== *)
theory Km_Tokens
  imports Km_Runs
begin

text \<open>
  User authentication in \<open>KeymasterEnforcement\<close>: which tokens \<open>AuthTokenMatches\<close> accepts and what a granted
  operation of a key with a secure id shows; and that \<open>AuthorizeOperation\<close> is total on well-typed sets.
  \<open>tags_ok\<close> is what \<open>hardware/keymaster_defs.h\<close> gives: the types of the tags that are read.
\<close>

section \<open>Tokens\<close>

text \<open>The token that comes with an operation.\<close>

definition token_of :: "km_env \<Rightarrow> auth_set \<Rightarrow> hw_auth_token option" where
  "token_of v params =
     (case GetTagValueBlob params (tag_of v KM_TAG_AUTH_TOKEN) of
        Some (Some bytes) \<Rightarrow> if length bytes = hw_sizeof (env_layout v) then Some (hw_read (env_layout v) bytes) else None
      | _ \<Rightarrow> None)"

text \<open>The token is of the right kind, signed, and belongs to a secure id and an authenticator of the key.\<close>

definition genuine_token :: "km_env \<Rightarrow> nat \<Rightarrow> hw_auth_token \<Rightarrow> bool" where
  "genuine_token v n tok \<longleftrightarrow>
     tok_version tok = HW_AUTH_TOKEN_VERSION (env_layout v) \<and> ValidateTokenSignature (env_platform v) n tok"

definition of_user :: "u64 \<Rightarrow> hw_auth_token \<Rightarrow> bool" where
  "of_user sid tok \<longleftrightarrow> sid = tok_user_id tok \<or> sid = tok_authenticator_id tok"

definition type_matches :: "km_env \<Rightarrow> auth_set \<Rightarrow> hw_auth_token \<Rightarrow> bool" where
  "type_matches v aset tok \<longleftrightarrow>
     (\<exists>i mask. last_position (tag_of v KM_TAG_USER_AUTH_TYPE) aset = Some i \<and> p_value (elems aset ! i) = VInt mask \<and>
        mask AND bswap 4 (tok_authenticator_type tok) \<noteq> 0)"

definition recent_token :: "km_env \<Rightarrow> auth_set \<Rightarrow> nat \<Rightarrow> hw_auth_token \<Rightarrow> bool" where
  "recent_token v aset n tok \<longleftrightarrow>
     (\<exists>j timeout. last_position (tag_of v KM_TAG_AUTH_TIMEOUT) aset = Some j \<and> p_value (elems aset ! j) = VInt timeout \<and>
        \<not> auth_token_timed_out (env_platform v) n tok timeout)"

lemma as_simps:
  "as_int x = Some i \<longleftrightarrow> x = VInt i" "as_long x = Some l \<longleftrightarrow> x = VLong l" "as_blob x = Some b \<longleftrightarrow> x = VBlob b"
  by (auto simp: as_int_def as_long_def as_blob_def split: km_value.splits)

lemma last_position_Some:
  assumes "last_position t aset = Some i"
  shows "i < length (elems aset) \<and> p_tag (elems aset ! i) = t"
proof -
  have "i \<in> set (filter (\<lambda>i. p_tag (elems aset ! i) = t) [0..<length (elems aset)])"
    using assms last_in_set unfolding last_position_def Let_def by (metis option.distinct(1) option.inject)
  then show ?thesis by simp
qed

lemma last_position_None: "last_position t aset = None \<longleftrightarrow> (\<forall>p \<in> set (elems aset). p_tag p \<noteq> t)"
  by (simp add: last_position_def Let_def filter_empty_conv all_set_conv_all_nth) auto

abbreviation type_position :: "km_env \<Rightarrow> auth_set \<Rightarrow> nat option" where
  "type_position v aset \<equiv> last_position (tag_of v KM_TAG_USER_AUTH_TYPE) aset"

abbreviation timeout_position :: "km_env \<Rightarrow> auth_set \<Rightarrow> nat option" where
  "timeout_position v aset \<equiv> last_position (tag_of v KM_TAG_AUTH_TIMEOUT) aset"

lemma matches_begin:
  assumes "AuthTokenMatches v aset params sid (type_position v aset) (timeout_position v aset) 0 True n = Some (True, n')"
    "timeout_position v aset \<noteq> None"
  shows "\<exists>tok. token_of v params = Some tok \<and> genuine_token v n tok \<and> of_user sid tok \<and> type_matches v aset tok \<and>
    recent_token v aset (Suc n) tok"
  using assms
  by (auto simp: AuthTokenMatches_def type_and_timeout_match_def Let_def as_simps token_of_def genuine_token_def of_user_def
      type_matches_def recent_token_def split: if_splits option.splits Option.bind_splits)

lemma matches_update:
  assumes "AuthTokenMatches v aset params sid (type_position v aset) None h False n = Some (True, n')"
  shows "\<exists>tok. token_of v params = Some tok \<and> genuine_token v n tok \<and> of_user sid tok \<and> type_matches v aset tok \<and>
    (h \<noteq> 0 \<longrightarrow> tok_challenge tok = h)"
  using assms
  by (auto simp: AuthTokenMatches_def type_and_timeout_match_def Let_def as_simps token_of_def genuine_token_def of_user_def
      type_matches_def split: if_splits option.splits Option.bind_splits)

section \<open>A granted operation\<close>

abbreviation has_tag :: "km_env \<Rightarrow> km_tag \<Rightarrow> auth_set \<Rightarrow> bool" where
  "has_tag v t aset \<equiv> \<exists>p \<in> set (elems aset). p_tag p = tag_of v t"

definition secure_id_of :: "km_env \<Rightarrow> auth_set \<Rightarrow> u64 \<Rightarrow> bool" where
  "secure_id_of v aset sid \<longleftrightarrow> (\<exists>p \<in> set (elems aset). p_tag p = tag_of v KM_TAG_USER_SECURE_ID \<and> p_value p = VLong sid)"

lemma update_loop_granted:
  assumes "update_or_finish_loop v aset params (type_position v aset) h ps req n = Some (KM_ERROR_OK, n')"
    "req \<or> (\<exists>p \<in> set ps. p_tag p = tag_of v KM_TAG_USER_SECURE_ID)"
  shows "\<exists>tok sid n. (\<exists>p \<in> set ps. p_tag p = tag_of v KM_TAG_USER_SECURE_ID \<and> p_value p = VLong sid) \<and>
    token_of v params = Some tok \<and> genuine_token v n tok \<and> of_user sid tok \<and> type_matches v aset tok \<and>
    (h \<noteq> 0 \<longrightarrow> tok_challenge tok = h)"
  using assms
proof (induction ps arbitrary: req n)
  case (Cons p ps)
  show ?case
  proof (cases "p_tag p = tag_of v KM_TAG_USER_SECURE_ID")
    case True
    then obtain sid b n1 where 1: "p_value p = VLong sid"
      "AuthTokenMatches v aset params sid (type_position v aset) None h False n = Some (b, n1)"
      using Cons.prems(1) by (auto simp: as_simps split: Option.bind_splits)
    show ?thesis
    proof (cases b)
      case True
      then show ?thesis
        using matches_update [of v aset params sid h n n1] 1 \<open>p_tag p = _\<close> by (metis list.set_intros(1))
    next
      case False
      then have "update_or_finish_loop v aset params (type_position v aset) h ps True n1 = Some (KM_ERROR_OK, n')"
        using Cons.prems(1) 1 True by (simp add: as_long_def)
      from Cons.IH [OF this] show ?thesis by auto
    qed
  next
    case False
    then have "update_or_finish_loop v aset params (type_position v aset) h ps req n = Some (KM_ERROR_OK, n')"
      using Cons.prems(1) by simp
    from Cons.IH [OF this] show ?thesis using Cons.prems(2) False by auto
  qed
qed simp

text \<open>The loop of \<open>AuthorizeBegin\<close>: what its two variables for authentication mean.\<close>

lemma begin_param_auth:
  assumes "begin_param v pu k aset params p x s = Some (KM_ERROR_OK, x', s')" "consts_ok (env_consts v)"
    "timeout_position v aset \<noteq> None"
  shows "(p_tag p = tag_of v KM_TAG_USER_SECURE_ID \<longrightarrow> authentication_required x') \<and>
    (authentication_required x \<longrightarrow> authentication_required x') \<and>
    (auth_token_matched x' \<longrightarrow> auth_token_matched x \<or>
      (\<exists>sid n n'. p_tag p = tag_of v KM_TAG_USER_SECURE_ID \<and> p_value p = VLong sid \<and>
        AuthTokenMatches v aset params sid (type_position v aset) (timeout_position v aset) 0 True n = Some (True, n')))"
  using assms(1,3) unfolding begin_param_def Let_def
  by (auto simp: consts_okD [OF assms(2)] as_simps split: Option.bind_splits if_splits prod.splits)

lemma begin_loop_auth:
  assumes "begin_loop v pu k aset params ps x s = Some (KM_ERROR_OK, x', s')" "consts_ok (env_consts v)"
    "timeout_position v aset \<noteq> None"
  shows "((\<exists>p \<in> set ps. p_tag p = tag_of v KM_TAG_USER_SECURE_ID) \<longrightarrow> authentication_required x') \<and>
    (authentication_required x \<longrightarrow> authentication_required x') \<and>
    (auth_token_matched x' \<longrightarrow> auth_token_matched x \<or>
      (\<exists>p \<in> set ps. \<exists>sid n n'. p_tag p = tag_of v KM_TAG_USER_SECURE_ID \<and> p_value p = VLong sid \<and>
        AuthTokenMatches v aset params sid (type_position v aset) (timeout_position v aset) 0 True n = Some (True, n')))"
  using assms(1)
proof (induction ps arbitrary: x s)
  case (Cons p ps)
  obtain x1 s1 where 1: "begin_param v pu k aset params p x s = Some (KM_ERROR_OK, x1, s1)"
    "begin_loop v pu k aset params ps x1 s1 = Some (KM_ERROR_OK, x', s')"
    using Cons.prems by (rule begin_loop_Cons)
  show ?case using begin_param_auth [OF 1(1) assms(2,3)] Cons.IH [OF 1(2)] by (metis list.set_intros set_ConsD)
qed simp

lemma granted_begin:
  assumes "authorize_call v c s = Some (KM_ERROR_OK, s')" "limited v c" "consts_ok (env_consts v)"
    "has_tag v KM_TAG_USER_SECURE_ID (c_auths c)" "has_tag v KM_TAG_AUTH_TIMEOUT (c_auths c)"
  shows "\<exists>tok sid n. secure_id_of v (c_auths c) sid \<and> token_of v (c_params c) = Some tok \<and> genuine_token v n tok \<and>
    of_user sid tok \<and> type_matches v (c_auths c) tok \<and> recent_token v (c_auths c) (Suc n) tok"
proof -
  have t: "timeout_position v (c_auths c) \<noteq> None" using assms(5) by (auto simp: last_position_None)
  have "AuthorizeBegin v (c_purpose c) (c_keyid c) (c_auths c) (c_params c) s = Some (KM_ERROR_OK, s')"
    using assms(1,2) by (auto elim: authorize_call_cases)
  then obtain x s1 where l: "begin_loop v (c_purpose c) (c_keyid c) (c_auths c) (c_params c) (elems (c_auths c)) begin_start s =
      Some (KM_ERROR_OK, x, s1)" "\<not> (authentication_required x \<and> \<not> auth_token_matched x)"
    by (cases rule: AuthorizeBegin_cases) auto
  then show ?thesis
    using begin_loop_auth [OF l(1) assms(3) t] assms(4) matches_begin [OF _ t]
    by (simp add: begin_start_def secure_id_of_def) blast
qed

lemma granted_update:
  assumes "authorize_call v c s = Some (KM_ERROR_OK, s')" "\<not> c_is_begin c" "\<not> public_operation v (c_purpose c) (c_auths c)"
    "has_tag v KM_TAG_USER_SECURE_ID (c_auths c) \<or> has_tag v KM_TAG_USER_AUTH_TYPE (c_auths c)"
    "\<not> has_tag v KM_TAG_AUTH_TIMEOUT (c_auths c)" "\<not> has_tag v KM_TAG_NO_AUTH_REQUIRED (c_auths c)"
  shows "\<exists>tok sid n. secure_id_of v (c_auths c) sid \<and> token_of v (c_params c) = Some tok \<and> genuine_token v n tok \<and>
    of_user sid tok \<and> type_matches v (c_auths c) tok \<and> (c_handle c \<noteq> 0 \<longrightarrow> tok_challenge tok = c_handle c)"
proof -
  have "AuthorizeUpdateOrFinish v (c_auths c) (c_params c) (c_handle c) s = Some (KM_ERROR_OK, s')"
    using assms(1-3)
    by (cases "is_public_key_algorithm v (c_auths c)")
      (auto simp: authorize_call_def AuthorizeOperation_def public_operation_def split: if_splits)
  then obtain n n' where "update_or_finish_loop v (c_auths c) (c_params c) (type_position v (c_auths c)) (c_handle c)
      (elems (c_auths c)) (type_position v (c_auths c) \<noteq> None) n = Some (KM_ERROR_OK, n')"
    using assms(5,6) by (auto simp: AuthorizeUpdateOrFinish_def Let_def split: if_splits Option.bind_splits)
  from update_loop_granted [OF this] show ?thesis
    using assms(4) by (auto simp: last_position_None secure_id_of_def)
qed

section \<open>No assertion fails\<close>

definition tags_ok :: "km_env \<Rightarrow> bool" where
  "tags_ok v \<longleftrightarrow>
     (\<forall>t \<in> {KM_TAG_MIN_SECONDS_BETWEEN_OPS, KM_TAG_MAX_USES_PER_BOOT, KM_TAG_AUTH_TIMEOUT}.
        tag_get_type (env_defs v) (tag_of v t) = KM_UINT) \<and>
     (\<forall>t \<in> {KM_TAG_ALGORITHM, KM_TAG_USER_AUTH_TYPE}. tag_get_type (env_defs v) (tag_of v t) = KM_ENUM) \<and>
     (\<forall>t \<in> {KM_TAG_ACTIVE_DATETIME, KM_TAG_ORIGINATION_EXPIRE_DATETIME, KM_TAG_USAGE_EXPIRE_DATETIME}.
        tag_get_type (env_defs v) (tag_of v t) = KM_DATE) \<and>
     tag_get_type (env_defs v) (tag_of v KM_TAG_PURPOSE) = KM_ENUM_REP \<and>
     tag_get_type (env_defs v) (tag_of v KM_TAG_USER_SECURE_ID) = KM_ULONG_REP \<and>
     tag_get_type (env_defs v) (tag_of v KM_TAG_AUTH_TOKEN) = KM_BYTES"

lemma typed_int: "typed d p \<Longrightarrow> tag_get_type d (p_tag p) \<in> {KM_UINT, KM_ENUM, KM_ENUM_REP} \<Longrightarrow> \<exists>x. p_value p = VInt x"
  by (auto simp: typed_def value_fits_def split: km_value.splits)

lemma typed_long: "typed d p \<Longrightarrow> tag_get_type d (p_tag p) \<in> {KM_DATE, KM_ULONG_REP} \<Longrightarrow> \<exists>x. p_value p = VLong x"
  by (auto simp: typed_def value_fits_def split: km_value.splits)

lemma typed_bytes: "typed d p \<Longrightarrow> tag_get_type d (p_tag p) = KM_BYTES \<Longrightarrow> \<exists>x. p_value p = VBlob x"
  by (auto simp: typed_def value_fits_def split: km_value.splits)

lemma find_tag_Some: "find_tag s t 0 = Some i \<Longrightarrow> i < length (elems s) \<and> p_tag (elems s ! i) = t"
  by (auto simp: find_tag_def find_Some_iff split: if_splits)

lemma get_at_total:
  assumes "\<forall>i. find_tag s t 0 = Some i \<longrightarrow> (\<exists>x. read (member (elems s ! i)) = Some x)"
  shows "\<exists>r. get_at read member (find_tag s t 0) s = Some r"
  using assms find_tag_Some by (fastforce simp: get_at_def split: option.splits)

text \<open>The laws about types, for the members of a set.\<close>

abbreviation all_typed :: "km_env \<Rightarrow> auth_set \<Rightarrow> bool" where
  "all_typed v aset \<equiv> list_all (typed (env_defs v)) (elems aset)"

lemma read_token_total:
  assumes "tags_ok v" "all_typed v params"
  shows "\<exists>r. GetTagValueBlob params (tag_of v KM_TAG_AUTH_TOKEN) = Some r"
  unfolding GetTagValueBlob_def
proof (rule get_at_total, intro allI impI)
  fix i assume "find_tag params (tag_of v KM_TAG_AUTH_TOKEN) 0 = Some i"
  then have i: "i < length (elems params)" "p_tag (elems params ! i) = tag_of v KM_TAG_AUTH_TOKEN"
    using find_tag_Some by auto
  then have "\<exists>x. p_value (elems params ! i) = VBlob x"
    using typed_bytes [of "env_defs v" "elems params ! i"] assms by (simp add: tags_ok_def list_all_length)
  then show "\<exists>x. as_blob (p_value (value_of (indirect_data params) (elems params ! i))) = Some x"
    by (auto simp: as_simps value_of_def)
qed

lemma last_position_int:
  assumes "last_position (tag_of v t) aset = Some i" "tag_get_type (env_defs v) (tag_of v t) \<in> {KM_UINT, KM_ENUM}"
    "all_typed v aset"
  shows "\<exists>x. as_int (p_value (elems aset ! i)) = Some x"
  using last_position_Some [OF assms(1)] typed_int [of "env_defs v" "elems aset ! i"] assms(2,3)
  by (auto simp: list_all_length as_simps)

lemma AuthTokenMatches_total:
  assumes "tags_ok v" "all_typed v aset" "all_typed v params" "j = None \<or> j = timeout_position v aset"
  shows "AuthTokenMatches v aset params sid (type_position v aset) j h b n \<noteq> None"
proof -
  obtain r where r: "GetTagValueBlob params (tag_of v KM_TAG_AUTH_TOKEN) = Some r" using read_token_total assms(1,3) by blast
  have i: "in_set (type_position v aset) aset" "in_set j aset"
    using last_position_Some assms(4) by (auto simp: in_set_def split: option.splits)
  have ints: "type_position v aset = Some k \<Longrightarrow> \<exists>x. as_int (p_value (elems aset ! k)) = Some x"
    "timeout_position v aset = Some k \<Longrightarrow> \<exists>x. as_int (p_value (elems aset ! k)) = Some x" for k
    using last_position_int [of v _ aset] assms(1,2) by (auto simp: tags_ok_def)
  have "type_and_timeout_match v aset (type_position v aset) j b tok m \<noteq> None" for tok m
    using last_position_Some [of _ aset] ints assms(4)
    by (fastforce simp: type_and_timeout_match_def split: option.splits Option.bind_splits)
  then show ?thesis using r i by (auto simp: AuthTokenMatches_def Let_def split: option.splits)
qed

lemma bind_not_None: "x \<noteq> None \<Longrightarrow> (\<And>y. x = Some y \<Longrightarrow> f y \<noteq> None) \<Longrightarrow> Option.bind x f \<noteq> None"
  by auto

lemma if_not_None: "(P \<Longrightarrow> a \<noteq> None) \<Longrightarrow> (\<not> P \<Longrightarrow> b \<noteq> None) \<Longrightarrow> (if P then a else b) \<noteq> None"
  by simp

lemma begin_param_total:
  assumes "tags_ok v" "all_typed v aset" "all_typed v params" "typed (env_defs v) p"
  shows "begin_param v pu k aset params p x s \<noteq> None"
proof -
  have i: "as_int (p_value p) \<noteq> None"
    if "p_tag p = tag_of v KM_TAG_MIN_SECONDS_BETWEEN_OPS \<or> p_tag p = tag_of v KM_TAG_MAX_USES_PER_BOOT"
    using that typed_int [OF assms(4)] assms(1) by (auto simp: tags_ok_def as_int_def)
  have l: "as_long (p_value p) \<noteq> None"
    if "p_tag p = tag_of v KM_TAG_ACTIVE_DATETIME \<or> p_tag p = tag_of v KM_TAG_ORIGINATION_EXPIRE_DATETIME \<or>
      p_tag p = tag_of v KM_TAG_USAGE_EXPIRE_DATETIME \<or> p_tag p = tag_of v KM_TAG_USER_SECURE_ID"
    using that typed_long [OF assms(4)] assms(1) by (auto simp: tags_ok_def as_long_def)
  have t: "AuthTokenMatches v aset params sid (type_position v aset) (timeout_position v aset) 0 True n \<noteq> None" for sid n
    using AuthTokenMatches_total [OF assms(1-3), of "timeout_position v aset"] by blast
  show ?thesis
    unfolding begin_param_def Let_def
    by (intro if_not_None bind_not_None i l t) (simp_all split: prod.split)
qed

lemma begin_loop_total:
  assumes "tags_ok v" "all_typed v aset" "all_typed v params" "list_all (typed (env_defs v)) ps"
  shows "begin_loop v pu k aset params ps x s \<noteq> None"
  using assms(4)
proof (induction ps arbitrary: x s)
  case (Cons p ps)
  then obtain e1 x1 s1 where "begin_param v pu k aset params p x s = Some (e1, x1, s1)"
    using begin_param_total [OF assms(1-3), of p pu k x s] by auto
  then show ?case using Cons by simp
qed simp

lemma update_or_finish_loop_total:
  assumes "tags_ok v" "all_typed v aset" "all_typed v params" "list_all (typed (env_defs v)) ps"
  shows "update_or_finish_loop v aset params (type_position v aset) h ps req n \<noteq> None"
  using assms(4)
proof (induction ps arbitrary: req n)
  case (Cons p ps)
  show ?case
  proof (cases "p_tag p = tag_of v KM_TAG_USER_SECURE_ID")
    case True
    then obtain sid where "as_long (p_value p) = Some sid"
      using typed_long [of "env_defs v" p] Cons.prems assms(1) by (auto simp: tags_ok_def as_simps)
    moreover obtain b n1 where "AuthTokenMatches v aset params sid (type_position v aset) None h False n = Some (b, n1)"
      using AuthTokenMatches_total [OF assms(1-3), of None sid h False n] by auto
    ultimately show ?thesis using True Cons by simp
  next
    case False
    then show ?thesis using Cons by simp
  qed
qed simp

text \<open>No recorded time lies ahead of the clock; this is what the assertion of \<open>UpdateKeyAccessTime\<close> needs.\<close>

definition times_past :: "u32 \<Rightarrow> time_map \<Rightarrow> bool" where
  "times_past now tm \<longleftrightarrow> (\<forall>e \<in> set (last_access_list tm). at_access_time e \<le> now)"

definition enf_ok :: "km_env \<Rightarrow> enforcement \<Rightarrow> bool" where
  "enf_ok v s \<longleftrightarrow> time_inv (times_past (clock v (platform_calls s))) s"

lemma update_access_list_total:
  "\<forall>e \<in> set es. at_access_time e \<le> now \<Longrightarrow>
   \<exists>found es'. update_access_list k now es = Some (found, es') \<and> (\<forall>e \<in> set es'. at_access_time e \<le> now)"
proof (induction k now es rule: update_access_list.induct)
  case (2 k now e es)
  show ?case
  proof (cases "at_keyid e = k")
    case False
    have a: "\<not> now < at_access_time e" using "2.prems" by (simp add: not_less)
    then obtain found es' where "update_access_list k now es = Some (found, es')" "\<forall>e \<in> set es'. at_access_time e \<le> now"
      using "2.IH" [OF False] "2.prems" by auto
    then show ?thesis using False a "2.prems" by auto
  qed (use "2.prems" in auto)
qed auto

lemma Update_total:
  assumes "times_past now tm"
  shows "\<exists>ok tm'. UpdateKeyAccessTime k now t tm = Some (ok, tm') \<and> times_past now tm'"
proof -
  obtain found es where "update_access_list k now (last_access_list tm) = Some (found, es)" "\<forall>e \<in> set es. at_access_time e \<le> now"
    using update_access_list_total assms unfolding times_past_def by blast
  then show ?thesis by (auto simp: UpdateKeyAccessTime_def times_past_def)
qed

lemma times_past_later: "times_past (clock v i) tm \<Longrightarrow> i \<le> j \<Longrightarrow> clock_ok v \<Longrightarrow> times_past (clock v j) tm"
  unfolding times_past_def clock_ok_def by (meson order_trans)

lemma enf_ok_quiet: "enf_ok v s \<Longrightarrow> quiet s s' \<Longrightarrow> clock_ok v \<Longrightarrow> enf_ok v s'"
  unfolding enf_ok_def time_inv_def quiet_def using times_past_later by metis

lemma record_time_total:
  assumes "enf_ok v s" "clock_ok v"
  shows "\<exists>e s'. record_time v k t s = Some (e, s') \<and> enf_ok v s'"
proof (cases "t = - 1 \<or> access_time_map s = None")
  case True
  then show ?thesis using assms(1) by (auto simp: record_time_def)
next
  case False
  then obtain tm where tm: "access_time_map s = Some tm" by auto
  then obtain ok tm' where u: "UpdateKeyAccessTime k (clock v (platform_calls s)) t tm = Some (ok, tm')"
    "times_past (clock v (platform_calls s)) tm'"
    using Update_total assms(1) unfolding enf_ok_def time_inv_def by blast
  have "times_past (clock v (Suc (platform_calls s))) tm'" using times_past_later [OF u(2) _ assms(2)] by simp
  then show ?thesis using False tm u(1) by (simp add: record_time_def enf_ok_def time_inv_def)
qed

lemma authorized_purpose_total:
  assumes "tags_ok v" "all_typed v aset"
  shows "authorized_purpose v pu aset \<noteq> None"
proof -
  have "contains_int ps (tag_of v KM_TAG_PURPOSE) x \<noteq> None" if "list_all (typed (env_defs v)) ps" for ps x
    using that
  proof (induction ps)
    case (Cons p ps)
    then show ?case using typed_int [of "env_defs v" p] assms(1) by (cases "p_value p") (auto simp: tags_ok_def as_int_def)
  qed simp
  from this [OF assms(2)] show ?thesis
    unfolding authorized_purpose_def ContainsEnumValue_def by (intro if_not_None bind_not_None) simp_all
qed

lemma is_public_key_algorithm_total:
  assumes "tags_ok v" "all_typed v aset"
  shows "is_public_key_algorithm v aset \<noteq> None"
proof -
  have "\<exists>r. GetTagValueEnum aset (tag_of v KM_TAG_ALGORITHM) = Some r"
    unfolding GetTagValueEnum_def
  proof (rule get_at_total, intro allI impI)
    fix i assume "find_tag aset (tag_of v KM_TAG_ALGORITHM) 0 = Some i"
    then show "\<exists>x. as_int (p_value (elems aset ! i)) = Some x"
      using find_tag_Some [of aset _ i] typed_int [of "env_defs v" "elems aset ! i"] assms
      by (auto simp: tags_ok_def list_all_length as_simps)
  qed
  then show ?thesis by (auto simp: is_public_key_algorithm_def)
qed

lemma AuthorizeBegin_total:
  assumes "tags_ok v" "all_typed v aset" "all_typed v params" "clock_ok v" "enf_ok v s"
  shows "\<exists>e s'. AuthorizeBegin v pu k aset params s = Some (e, s') \<and> enf_ok v s'"
proof -
  obtain e0 where 0: "authorized_purpose v pu aset = Some e0" using authorized_purpose_total [OF assms(1,2)] by blast
  obtain e1 x s1 where 1: "begin_loop v pu k aset params (elems aset) begin_start s = Some (e1, x, s1)"
    using begin_loop_total [OF assms(1-3,2)] by fastforce
  have ok1: "enf_ok v s1" using enf_ok_quiet [OF assms(5) begin_loop_quiet [OF 1] assms(4)] .
  obtain e2 s2 where 2: "record_time v k (min_ops_timeout x) s1 = Some (e2, s2)" "enf_ok v s2"
    using record_time_total [OF ok1 assms(4)] by blast
  obtain e3 s3 where 3: "record_use k (update_access_count x) s2 = (e3, s3)" by fastforce
  have "enf_ok v s3" using 2(2) record_use_frame [OF 3] by (simp add: enf_ok_def time_inv_def)
  then show ?thesis using 0 1 2 3 ok1 assms(5) by (simp add: AuthorizeBegin_def)
qed

lemma AuthorizeOperation_total:
  assumes "tags_ok v" "all_typed v aset" "all_typed v params" "clock_ok v" "enf_ok v s"
  shows "\<exists>e s'. AuthorizeOperation v pu k aset params h b s = Some (e, s') \<and> enf_ok v s'"
proof -
  obtain p where p: "is_public_key_algorithm v aset = Some p" using is_public_key_algorithm_total [OF assms(1,2)] by blast
  obtain e n where n: "update_or_finish_loop v aset params (type_position v aset) h (elems aset) (type_position v aset \<noteq> None)
      (platform_calls s) = Some (e, n)"
    using update_or_finish_loop_total [OF assms(1-3,2), of h "type_position v aset \<noteq> None" "platform_calls s"] by auto
  have "\<exists>e s'. AuthorizeUpdateOrFinish v aset params h s = Some (e, s')"
    using n by (simp add: AuthorizeUpdateOrFinish_def Let_def)
  then have "\<exists>e s'. AuthorizeUpdateOrFinish v aset params h s = Some (e, s') \<and> enf_ok v s'"
    using enf_ok_quiet [OF assms(5) AuthorizeUpdateOrFinish_quiet assms(4)] by blast
  then show ?thesis
    using AuthorizeBegin_total [OF assms, of pu k] p assms(5) by (simp add: AuthorizeOperation_def)
qed

end
