(* ===== verification/Km_Demo.thy ===== *)
theory Km_Demo
  imports Km_AuthOps Km_Tokens "HOL-Library.List_Lexorder"
begin

text \<open>
  An instance of what keymaster takes from outside the sources, for the witnesses: the tag numbers with the
  type in the upper four bits, a comparison of parameters by tag and value, insertion sort for \<open>qsort\<close>, and a
  platform with a clock that counts the calls.
\<close>

section \<open>Tags\<close>

fun demo_tag :: "km_tag \<Rightarrow> u32" where
  "demo_tag KM_TAG_PURPOSE = 0x20000001"
| "demo_tag KM_TAG_ALGORITHM = 0x10000002"
| "demo_tag KM_TAG_NONCE = 0x900003E9"
| "demo_tag KM_TAG_CALLER_NONCE = 0x70000007"
| "demo_tag KM_TAG_ACTIVE_DATETIME = 0x60000190"
| "demo_tag KM_TAG_ORIGINATION_EXPIRE_DATETIME = 0x60000191"
| "demo_tag KM_TAG_USAGE_EXPIRE_DATETIME = 0x60000192"
| "demo_tag KM_TAG_MIN_SECONDS_BETWEEN_OPS = 0x30000193"
| "demo_tag KM_TAG_MAX_USES_PER_BOOT = 0x30000194"
| "demo_tag KM_TAG_USER_SECURE_ID = 0xA00001F6"
| "demo_tag KM_TAG_NO_AUTH_REQUIRED = 0x700001F7"
| "demo_tag KM_TAG_USER_AUTH_TYPE = 0x100001F8"
| "demo_tag KM_TAG_AUTH_TIMEOUT = 0x300001F9"
| "demo_tag KM_TAG_AUTH_TOKEN = 0x900003EA"
| "demo_tag KM_TAG_ROOT_OF_TRUST = 0x900002C0"
| "demo_tag KM_TAG_APPLICATION_DATA = 0x900002BC"
| "demo_tag KM_TAG_ATTESTATION_CHALLENGE = 0x900002C4"
| "demo_tag KM_TAG_ATTESTATION_APPLICATION_ID = 0x900002C5"
| "demo_tag KM_TAG_ATTESTATION_ID_BRAND = 0x900002C6"
| "demo_tag KM_TAG_ATTESTATION_ID_DEVICE = 0x900002C7"
| "demo_tag KM_TAG_ATTESTATION_ID_PRODUCT = 0x900002C8"
| "demo_tag KM_TAG_ATTESTATION_ID_SERIAL = 0x900002C9"
| "demo_tag KM_TAG_ATTESTATION_ID_IMEI = 0x900002CA"
| "demo_tag KM_TAG_ATTESTATION_ID_MEID = 0x900002CB"
| "demo_tag KM_TAG_ATTESTATION_ID_MANUFACTURER = 0x900002CC"
| "demo_tag KM_TAG_ATTESTATION_ID_MODEL = 0x900002CD"
| "demo_tag KM_TAG_BOOTLOADER_ONLY = 0x7000012E"
| "demo_tag KM_TAG_PADDING_OLD = 0x10000007"
| "demo_tag KM_TAG_DIGEST_OLD = 0x10000005"
| "demo_tag KM_TAG_OS_PATCHLEVEL = 0x300002C2"

fun demo_purpose :: "keymaster_purpose_t \<Rightarrow> u32" where
  "demo_purpose KM_PURPOSE_ENCRYPT = 0"
| "demo_purpose KM_PURPOSE_DECRYPT = 1"
| "demo_purpose KM_PURPOSE_SIGN = 2"
| "demo_purpose KM_PURPOSE_VERIFY = 3"

definition demo_consts :: km_consts where
  "demo_consts = \<lparr>tag = demo_tag, purpose_code = demo_purpose, KM_ALGORITHM_RSA = 1, KM_ALGORITHM_EC = 3\<rparr>"

definition demo_type :: "u32 \<Rightarrow> keymaster_tag_type_t" where
  "demo_type t =
     (let k = unat t div 268435456 in
      if k = 0 then KM_INVALID else if k = 1 then KM_ENUM else if k = 2 then KM_ENUM_REP else if k = 3 then KM_UINT
      else if k = 4 then KM_UINT_REP else if k = 5 then KM_ULONG else if k = 6 then KM_DATE else if k = 7 then KM_BOOL
      else if k = 8 then KM_BIGNUM else if k = 9 then KM_BYTES else if k = 10 then KM_ULONG_REP else KM_OTHER)"

text \<open>All tags, by their numbers.\<close>

definition all_tags :: "km_tag list" where
  "all_tags =
    [KM_TAG_ALGORITHM, KM_TAG_DIGEST_OLD, KM_TAG_PADDING_OLD, KM_TAG_USER_AUTH_TYPE, KM_TAG_PURPOSE,
     KM_TAG_MIN_SECONDS_BETWEEN_OPS, KM_TAG_MAX_USES_PER_BOOT, KM_TAG_AUTH_TIMEOUT, KM_TAG_OS_PATCHLEVEL,
     KM_TAG_ACTIVE_DATETIME, KM_TAG_ORIGINATION_EXPIRE_DATETIME, KM_TAG_USAGE_EXPIRE_DATETIME,
     KM_TAG_CALLER_NONCE, KM_TAG_BOOTLOADER_ONLY, KM_TAG_NO_AUTH_REQUIRED, KM_TAG_APPLICATION_DATA,
     KM_TAG_ROOT_OF_TRUST, KM_TAG_ATTESTATION_CHALLENGE, KM_TAG_ATTESTATION_APPLICATION_ID,
     KM_TAG_ATTESTATION_ID_BRAND, KM_TAG_ATTESTATION_ID_DEVICE, KM_TAG_ATTESTATION_ID_PRODUCT,
     KM_TAG_ATTESTATION_ID_SERIAL, KM_TAG_ATTESTATION_ID_IMEI, KM_TAG_ATTESTATION_ID_MEID,
     KM_TAG_ATTESTATION_ID_MANUFACTURER, KM_TAG_ATTESTATION_ID_MODEL, KM_TAG_NONCE, KM_TAG_AUTH_TOKEN,
     KM_TAG_USER_SECURE_ID]"

lemma in_all_tags: "t \<in> set all_tags"
  unfolding all_tags_def by (cases t) simp_all

lemma demo_tag_inj: "inj demo_tag"
proof -
  have "successively (\<lambda>a b. a < b) (map (\<lambda>t. unat (demo_tag t)) all_tags)" by (simp add: all_tags_def)
  then have "sorted_wrt (<) (map (\<lambda>t. unat (demo_tag t)) all_tags)" by (simp add: successively_conv_sorted_wrt)
  then have "distinct (map (\<lambda>t. unat (demo_tag t)) all_tags)" by (simp add: strict_sorted_iff)
  then have "inj_on (\<lambda>t. unat (demo_tag t)) (set all_tags)" by (simp add: distinct_map)
  then show ?thesis using in_all_tags by (simp add: inj_on_def)
qed

lemma demo_consts_ok [simp]: "consts_ok demo_consts"
proof -
  have "inj demo_purpose"
  proof (rule injI)
    fix a b assume "demo_purpose a = demo_purpose b"
    then show "a = b" by (cases a; cases b) simp_all
  qed
  then show ?thesis using demo_tag_inj by (simp add: consts_ok_def demo_consts_def)
qed

section \<open>Comparison and sorting\<close>

definition demo_key :: "byte list km_param \<Rightarrow> nat list" where
  "demo_key p =
     (if p_tag p = 0 then []
      else unat (p_tag p) # (case p_value p of VNone \<Rightarrow> [0] | VInt x \<Rightarrow> [1, unat x] | VLong x \<Rightarrow> [2, unat x]
        | VBool x \<Rightarrow> [3] | VBlob b \<Rightarrow> 4 # map unat b))"

definition demo_compare :: "byte list km_param \<Rightarrow> byte list km_param \<Rightarrow> int" where
  "demo_compare a b = (if demo_key a < demo_key b then - 1 else if demo_key a = demo_key b then 0 else 1)"

fun insort_by :: "('a \<Rightarrow> 'a \<Rightarrow> int) \<Rightarrow> 'a \<Rightarrow> 'a list \<Rightarrow> 'a list" where
  "insort_by f x [] = [x]"
| "insort_by f x (y # ys) = (if f x y \<le> 0 then x # y # ys else y # insort_by f x ys)"

definition demo_qsort :: "('a \<Rightarrow> 'a \<Rightarrow> int) \<Rightarrow> 'a list \<Rightarrow> 'a list" where
  "demo_qsort f xs = foldr (insort_by f) xs []"

definition demo_defs :: km_defs where
  "demo_defs = \<lparr>tag_get_type = demo_type, KM_TAG_INVALID = 0, param_compare = demo_compare, param_size = 24,
     km_qsort = demo_qsort\<rparr>"

lemma mset_insort_by: "mset (insort_by f x ys) = add_mset x (mset ys)"
  by (induction ys) auto

lemma mset_demo_qsort: "mset (demo_qsort f xs) = mset xs"
  unfolding demo_qsort_def by (induction xs) (auto simp: mset_insort_by)

lemma sorted_insort_by:
  assumes "order_on A f" "set (x # ys) \<subseteq> A" "sorted_wrt (\<lambda>a b. f a b \<le> 0) ys"
  shows "sorted_wrt (\<lambda>a b. f a b \<le> 0) (insort_by f x ys)"
  using assms(2,3)
proof (induction ys)
  case (Cons y ys)
  have tr: "f a c \<le> 0" if "f a b \<le> 0" "f b c \<le> 0" "a \<in> A" "b \<in> A" "c \<in> A" for a b c
    using assms(1) that unfolding order_on_def by blast
  show ?case
  proof (cases "f x y \<le> 0")
    case True
    then show ?thesis using Cons tr [OF True] by auto
  next
    case False
    then have "f y x \<le> 0" using order_on_antisym [OF assms(1), of y x] Cons.prems(1) by auto
    moreover have "set (insort_by f x ys) = insert x (set ys)" using mset_insort_by [of f x ys] by (metis set_mset_add_mset_insert set_mset_mset)
    ultimately show ?thesis using False Cons by auto
  qed
qed simp

lemma sorted_demo_qsort:
  assumes "order_on (set xs) f"
  shows "sorted_wrt (\<lambda>a b. f a b \<le> 0) (demo_qsort f xs)"
proof -
  have "sorted_wrt (\<lambda>a b. f a b \<le> 0) (demo_qsort f ys)" if "set ys \<subseteq> set xs" for ys
    using that
  proof (induction ys)
    case (Cons y ys)
    have "set (demo_qsort f ys) = set ys" using mset_demo_qsort [of f ys] by (rule mset_eq_setD)
    then show ?case
      using Cons sorted_insort_by [OF assms, of y "demo_qsort f ys"] by (simp add: demo_qsort_def)
  qed (simp add: demo_qsort_def)
  then show ?thesis by blast
qed

lemma demo_key_inj: "demo_key a = demo_key b \<longleftrightarrow> same_param demo_defs a b"
proof -
  have "map unat (x :: byte list) = map unat y \<longleftrightarrow> x = y" for x y
    by (metis inj_map_eq_map inj_onI word_unat_eq_iff)
  then show ?thesis
    by (cases a; cases b; cases "p_value a"; cases "p_value b")
      (auto simp: demo_key_def same_param_def canon_def demo_defs_def word_unat_eq_iff split: if_splits)
qed

lemma demo_defs_ok [simp]: "defs_ok demo_defs"
proof -
  have "order_on A demo_compare" for A by (auto simp: order_on_def demo_compare_def)
  moreover have "demo_compare a b = 0 \<longleftrightarrow> same_param demo_defs a b" for a b
    by (simp add: demo_compare_def flip: demo_key_inj)
  moreover have "demo_compare a b < 0" if "p_tag a = 0" "p_tag b \<noteq> 0" for a b
    using that by (simp add: demo_compare_def demo_key_def)
  ultimately show ?thesis
    using mset_demo_qsort sorted_demo_qsort by (auto simp: defs_ok_def demo_defs_def)
qed

section \<open>The platform\<close>

definition demo_platform :: platform where
  "demo_platform =
     \<lparr>activation_date_valid = (\<lambda>_ _. True), expiration_date_passed = (\<lambda>_ _. False),
      auth_token_timed_out = (\<lambda>_ _ _. False), get_current_time = (\<lambda>n. of_nat (min n 100)),
      ValidateTokenSignature = (\<lambda>_ _. True)\<rparr>"

definition demo_env :: km_env where
  "demo_env = \<lparr>env_defs = demo_defs, env_consts = demo_consts, env_layout = packed_layout, env_platform = demo_platform\<rparr>"

lemma demo_env_fields [simp]: "env_consts demo_env = demo_consts" "env_defs demo_env = demo_defs" "env_layout demo_env = packed_layout"
  by (simp_all add: demo_env_def)

lemma demo_clock_ok [simp]: "clock_ok demo_env"
proof -
  have "(of_nat (min i 100) :: u32) \<le> of_nat (min j 100)" if "i \<le> j" for i j
    using that by (simp add: word_le_nat_alt unat_of_nat min_def)
  then show ?thesis by (simp add: clock_ok_def demo_env_def demo_platform_def)
qed

lemma demo_tags_ok [simp]: "tags_ok demo_env"
  by (simp add: tags_ok_def demo_env_def demo_consts_def demo_defs_def demo_type_def Let_def)

text \<open>A set without byte strings.\<close>

definition plain_set :: "(km_tag \<times> blob_ref km_value) list \<Rightarrow> auth_set" where
  "plain_set ps = \<lparr>elems = map (\<lambda>(t, x). \<lparr>p_tag = demo_tag t, p_value = x\<rparr>) ps, elems_capacity = length ps, indirect_data = [],
     indirect_data_capacity = 0, indirect_block = 0, set_error = OK\<rparr>"

definition km_alloc :: allocator where
  "km_alloc = \<lparr>alloc_ok = (\<lambda>_. True), alloc_fill = (\<lambda>_. 0)\<rparr>"

lemma km_alloc_total [simp]: "alloc_total km_alloc"
  by (simp add: alloc_total_def km_alloc_def)

text \<open>Keys that need authentication, and a token for them.\<close>

definition demo_auth_key :: auth_set where
  "demo_auth_key = plain_set [(KM_TAG_PURPOSE, VInt 2), (KM_TAG_USER_SECURE_ID, VLong 5), (KM_TAG_USER_AUTH_TYPE, VInt 1),
     (KM_TAG_AUTH_TIMEOUT, VInt 30)]"

definition demo_op_key :: auth_set where
  "demo_op_key = plain_set [(KM_TAG_PURPOSE, VInt 2), (KM_TAG_USER_SECURE_ID, VLong 5), (KM_TAG_USER_AUTH_TYPE, VInt 1),
     (KM_TAG_ALGORITHM, VInt 128)]"

definition demo_token :: hw_auth_token where
  "demo_token = \<lparr>tok_version = 0, tok_challenge = 9, tok_user_id = 5, tok_authenticator_id = 0,
     tok_authenticator_type = bswap 4 1, tok_timestamp = 0, tok_hmac = replicate 32 0\<rparr>"

lemma demo_token_fields [simp]:
  "tok_version demo_token = 0" "tok_challenge demo_token = 9" "tok_user_id demo_token = 5" "tok_authenticator_type demo_token = bswap 4 1"
  by (simp_all add: demo_token_def)

definition demo_token_params :: auth_set where
  "demo_token_params = \<lparr>elems = [\<lparr>p_tag = demo_tag KM_TAG_AUTH_TOKEN, p_value = VBlob (0, 69)\<rparr>], elems_capacity = 1,
     indirect_data = packed_bytes demo_token, indirect_data_capacity = 69, indirect_block = 69, set_error = OK\<rparr>"

lemma demo_token_read:
  "GetTagValueBlob demo_token_params 0x900003EA = Some (Some (packed_bytes demo_token))"
  "length (packed_bytes demo_token) = 69" "packed_read (packed_bytes demo_token) = demo_token"
  by (simp_all add: GetTagValueBlob_def get_at_def find_tag_def demo_token_params_def value_of_def blob_at_def as_blob_def
      upt_rec packed_bytes_def packed_read_def demo_token_def)

lemma demo_positions:
  "last_position (demo_tag KM_TAG_USER_AUTH_TYPE) demo_auth_key = Some 2" "last_position (demo_tag KM_TAG_AUTH_TIMEOUT) demo_auth_key = Some 3"
  "last_position (demo_tag KM_TAG_NO_AUTH_REQUIRED) demo_auth_key = None"
  "last_position (demo_tag KM_TAG_USER_AUTH_TYPE) demo_op_key = Some 2"
  by (simp_all add: last_position_def demo_auth_key_def demo_op_key_def plain_set_def upt_rec)

lemma demo_matches:
  "AuthTokenMatches demo_env demo_auth_key demo_token_params 5 (Some 2) (Some 3) 0 True n = Some (True, Suc (Suc n))"
  "AuthTokenMatches demo_env demo_op_key demo_token_params 5 (Some 2) None 9 False n = Some (True, Suc n)"
  by (simp_all add: AuthTokenMatches_def in_set_def demo_token_read type_and_timeout_match_def demo_auth_key_def demo_op_key_def
      plain_set_def demo_env_def demo_consts_def demo_platform_def packed_layout_def as_int_def Let_def)

end
