(* ===== verification/Km_Theorems.thy ===== *)
theory Km_Theorems
  imports Km_Demo
begin

text \<open>The properties of keymaster, each with a concrete instance.\<close>

section \<open>Limits of a key\<close>


definition demo_key_auths :: auth_set where
  "demo_key_auths = plain_set [(KM_TAG_PURPOSE, VInt 2), (KM_TAG_MIN_SECONDS_BETWEEN_OPS, VInt 1), (KM_TAG_MAX_USES_PER_BOOT, VInt 2)]"

definition demo_sign :: km_call where
  "demo_sign = \<lparr>c_purpose = 2, c_keyid = 7, c_auths = demo_key_auths, c_params = plain_set [], c_handle = 0, c_is_begin = True\<rparr>"

lemma demo_sign_fields [simp]: "c_keyid demo_sign = 7" "c_auths demo_sign = demo_key_auths"
  by (simp_all add: demo_sign_def)




lemma one_less_max [simp]: "(1 :: u64) < - 1"
  using unat_increment [of 1] by simp







section \<open>User authentication\<close>

text \<open>
  C9: a key with a secure id and an authentication timeout is begun only with a token of its user: when
  \<open>AuthorizeOperation\<close> grants the begin of an operation that is not a public one, the parameters hold a
  token of the current version whose signature is valid, which names one of the secure ids of the key, whose
  authenticator type is among those of the key, and which the platform does not hold to have timed out.
\<close>

theorem begin_needs_recent_token:
  assumes "authorize_call v c s = Some (KM_ERROR_OK, s')" "limited v c" "consts_ok (env_consts v)"
    and "has_tag v KM_TAG_USER_SECURE_ID (c_auths c)" "has_tag v KM_TAG_AUTH_TIMEOUT (c_auths c)"
  shows "\<exists>tok sid n. secure_id_of v (c_auths c) sid \<and> token_of v (c_params c) = Some tok \<and> genuine_token v n tok \<and>
    of_user sid tok \<and> type_matches v (c_auths c) tok \<and> recent_token v (c_auths c) (Suc n) tok"
  using assms by (rule granted_begin)

definition demo_begin :: km_call where
  "demo_begin = \<lparr>c_purpose = 2, c_keyid = 7, c_auths = demo_auth_key, c_params = demo_token_params, c_handle = 0, c_is_begin = True\<rparr>"

lemma demo_begin_ok:
  "limited demo_env demo_begin"
  "authorize_call demo_env demo_begin (new_KeymasterEnforcement True True 4 4) =
     Some (KM_ERROR_OK, (new_KeymasterEnforcement True True 4 4)\<lparr>platform_calls := 2\<rparr>)"
proof -
  have es: "elems demo_auth_key = map (\<lambda>(t, x). \<lparr>p_tag = demo_tag t, p_value = x\<rparr>)
     [(KM_TAG_PURPOSE, VInt 2), (KM_TAG_USER_SECURE_ID, VLong 5), (KM_TAG_USER_AUTH_TYPE, VInt 1), (KM_TAG_AUTH_TIMEOUT, VInt 30)]"
    "set_error demo_auth_key = OK" by (simp_all add: demo_auth_key_def plain_set_def)
  have p: "is_public_key_algorithm demo_env demo_auth_key = Some False"
    by (simp add: is_public_key_algorithm_def GetTagValueEnum_def get_at_def find_tag_def es upt_rec demo_consts_def)
  then show "limited demo_env demo_begin" by (simp add: limited_def public_operation_def demo_begin_def)
  have a: "authorized_purpose demo_env 2 demo_auth_key = Some KM_ERROR_OK"
    by (simp add: authorized_purpose_def ContainsEnumValue_def es demo_consts_def as_int_def)
  have n: "find_tag demo_token_params (demo_tag KM_TAG_NONCE) 0 = None" by (simp add: find_tag_def demo_token_params_def upt_rec)
  have b: "begin_loop demo_env 2 7 demo_auth_key demo_token_params (elems demo_auth_key) begin_start (new_KeymasterEnforcement True True 4 4) =
      Some (KM_ERROR_OK, begin_start\<lparr>authentication_required := True, auth_token_matched := True\<rparr>,
        (new_KeymasterEnforcement True True 4 4)\<lparr>platform_calls := 2\<rparr>)"
    using demo_positions demo_matches(1)
    by (simp add: es begin_param_def Let_def forbidden_tags_def demo_consts_def demo_defs_def as_long_def new_KeymasterEnforcement_def)
  have bs: "min_ops_timeout begin_start = - 1" "\<not> update_access_count begin_start" by (simp_all add: begin_start_def)
  show "authorize_call demo_env demo_begin (new_KeymasterEnforcement True True 4 4) =
     Some (KM_ERROR_OK, (new_KeymasterEnforcement True True 4 4)\<lparr>platform_calls := 2\<rparr>)"
    using n by (simp add: authorize_call_def AuthorizeOperation_def demo_begin_def p AuthorizeBegin_def a b bs
        record_time_def record_use_def demo_consts_def)
qed

lemma demo_has_tags:
  "has_tag demo_env KM_TAG_USER_SECURE_ID demo_auth_key" "has_tag demo_env KM_TAG_AUTH_TIMEOUT demo_auth_key"
  by (simp_all add: demo_auth_key_def plain_set_def demo_consts_def)

lemma demo_call_fields [simp]:
  "c_auths demo_begin = demo_auth_key" "c_params demo_begin = demo_token_params"
  by (simp_all add: demo_begin_def)

theorem begin_needs_recent_token_witness:
  "\<exists>tok sid n. secure_id_of demo_env demo_auth_key sid \<and> token_of demo_env demo_token_params = Some tok \<and> genuine_token demo_env n tok \<and>
    of_user sid tok \<and> type_matches demo_env demo_auth_key tok \<and> recent_token demo_env demo_auth_key (Suc n) tok"
  using begin_needs_recent_token [OF demo_begin_ok(2,1)] demo_has_tags(1,2) by simp

text \<open>
  C27: authorization sets that are well-typed keep \<open>KeymasterEnforcement\<close> well: on a clock that does not go
  backwards, in every state where no recorded time lies ahead of it, \<open>AuthorizeOperation\<close> answers every call
  without a failed assertion and without reading a member of a parameter that its tag does not have, and no
  recorded time lies ahead of the clock afterwards. The state after the start is such a state.
\<close>

theorem authorize_well_typed:
  assumes "tags_ok v" "clock_ok v" "all_typed v (c_auths c)" "all_typed v (c_params c)"
    and "enf_ok v s \<or> s = new_KeymasterEnforcement b1 b2 n1 n2"
  shows "\<exists>e s'. authorize_call v c s = Some (e, s') \<and> enf_ok v s'"
proof -
  have "enf_ok v (new_KeymasterEnforcement b1 b2 n1 n2)"
    by (simp add: enf_ok_def time_inv_def times_past_def new_KeymasterEnforcement_def)
  then show ?thesis using AuthorizeOperation_total [OF assms(1,3,4,2)] assms(5) by (auto simp: authorize_call_def)
qed

theorem authorize_well_typed_witness:
  "\<exists>e s'. authorize_call demo_env demo_sign (new_KeymasterEnforcement True True 4 4) = Some (e, s') \<and> enf_ok demo_env s'"
  by (rule authorize_well_typed [where ?b1.0 = True and ?b2.0 = True and ?n1.0 = 4 and ?n2.0 = 4])
    (simp_all add: demo_sign_def demo_key_auths_def plain_set_def typed_def demo_defs_def demo_type_def Let_def value_fits_def)

end
