(* ===== verification/Km_SetTheorems.thy ===== *)
theory Km_SetTheorems
  imports Km_Demo
begin

text \<open>The properties of the authorization sets and of the buffers of keymaster, each with a concrete instance.\<close>

section \<open>Buffers\<close>

text \<open>
  C35: a \<open>Buffer\<close> is a queue of bytes. However \<open>write\<close>, \<open>read\<close> and \<open>reserve\<close> are called, and whether they
  succeed or not, no access leaves the block, and the bytes that were readable followed by those of the
  successful writes are the bytes of the successful reads followed by those still readable. The sizes
  asked for add up to less than \<open>2\<^sup>6\<^sup>3\<close>: a larger one can wrap around in \<open>reserve\<close>.
\<close>

theorem buffer_is_queue:
  assumes "Buffer_ok b" "length (buffer_data b) + sum_list (map op_growth ops) < 2 ^ 63"
  shows "\<exists>written got b'. Buffer_run al ops b = Some (written, got, b') \<and> Buffer_ok b' \<and>
     readable b @ written = got @ readable b'"
  using assms by (rule Buffer_run_queue)

definition demo_buffer :: km_buffer where
  "demo_buffer = \<lparr>buffer_data = [1, 2, 3, 4], read_position = 1, write_position = 3\<rparr>"

theorem buffer_is_queue_witness:
  "\<exists>written got b'. Buffer_run km_alloc [Write [9], Read 2, Write [7, 8], Reserve 4, Write [5]] demo_buffer =
     Some (written, got, b') \<and> Buffer_ok b' \<and> [2, 3] @ written = got @ readable b'"
proof -
  have "Buffer_ok demo_buffer" "readable demo_buffer = [2, 3]" "length (buffer_data demo_buffer) = 4"
    by (simp_all add: demo_buffer_def Buffer_ok_def readable_def window_def)
  then show ?thesis
    using buffer_is_queue [of demo_buffer "[Write [9], Read 2, Write [7, 8], Reserve 4, Write [5]]" km_alloc]
    by (simp add: op_growth_def del: Buffer_run.simps)
qed

section \<open>Sending authorization sets\<close>

text \<open>
  C22: an authorization set survives being sent. A set made from a list of parameters holds that list; it
  is serialized into exactly the announced number of bytes, and deserializing these bytes, whatever follows
  them and whatever the receiving set held before, gives a set with the same list and leaves what follows.
  The parameters are well typed with tags of a known type, allocations succeed on both sides, the serialized
  set is shorter than \<open>2\<^sup>3\<^sup>2\<close> bytes and the buffer written to has room for it.
\<close>

theorem auth_set_roundtrip:
  assumes "list_all (sendable d) ps" "alloc_total al"
  shows "\<exists>s. Set_Reinitialize d al ps s0 = Some (True, s) \<and> set_values s = ps \<and>
    (Set_SerializedSize d s < 2 ^ 32 \<longrightarrow> has_room (Set_SerializedSize d s) w \<longrightarrow>
      (\<exists>bytes s'. Set_Serialize d s w = Some (put bytes w) \<and> length bytes = Set_SerializedSize d s \<and>
        Set_Deserialize d al (bytes @ rest) s1 = (True, s', rest) \<and> set_values s' = ps))"
proof -
  have t: "list_all (typed d) ps" using assms(1) by (auto simp: list_all_iff sendable_def)
  obtain s where s: "Set_Reinitialize d al ps s0 = Some (True, s)" "set_values s = ps" "growable d s"
    "elems_indirect_size d (elems s) = length (indirect_data s)"
    using Set_Reinitialize_ok [OF t assms(2)] by blast
  have send: "list_all (sendable d) (elems s)"
    using assms(1) unfolding s(2) [symmetric] by (auto simp: set_values_def list_all_iff sendable_def)
  then have "list_all (\<lambda>p. sendable d p \<and> in_range (length (indirect_data s)) p) (elems s)"
    using s(3) by (auto simp: growable_def set_ok_def list_all_iff)
  note D = Set_Deserialize_bytes [OF this _ _ assms(2)]
  show ?thesis
  proof (intro exI [of _ s] conjI impI s(1,2))
    assume "Set_SerializedSize d s < 2 ^ 32" "has_room (Set_SerializedSize d s) w"
    then show "\<exists>bytes s'. Set_Serialize d s w = Some (put bytes w) \<and> length bytes = Set_SerializedSize d s \<and>
        Set_Deserialize d al (bytes @ rest) s1 = (True, s', rest) \<and> set_values s' = ps"
      using Set_Serialize_put [OF send] length_set_bytes [OF send] D s(2,4)
      by (intro exI [of _ "set_bytes d s"]) (auto simp: Set_SerializedSize_def set_values_def)
  qed
qed

definition demo_params :: "byte list km_param list" where
  "demo_params = [\<lparr>p_tag = 0x20000001, p_value = VInt 2\<rparr>, \<lparr>p_tag = 0x900002C5, p_value = VBlob [7, 8]\<rparr>]"

lemma demo_params_ok: "list_all (sendable demo_defs) demo_params" "list_all (typed demo_defs) demo_params"
  by (simp_all add: demo_params_def sendable_def typed_def demo_defs_def demo_type_def Let_def value_fits_def)

theorem auth_set_roundtrip_witness:
  "\<exists>s bytes s'. Set_Reinitialize demo_defs km_alloc demo_params new_AuthorizationSet = Some (True, s) \<and>
     Set_Serialize demo_defs s \<lparr>wb_block = replicate 100 0, wb_pos = 0\<rparr> = Some (put bytes \<lparr>wb_block = replicate 100 0, wb_pos = 0\<rparr>) \<and>
     Set_Deserialize demo_defs km_alloc (bytes @ [1, 2]) new_AuthorizationSet = (True, s', [1, 2]) \<and> set_values s' = demo_params"
proof -
  have len: "Set_SerializedSize demo_defs s = 34"
    if "Set_Reinitialize demo_defs km_alloc demo_params new_AuthorizationSet = Some (True, s)" for s
    using that by (auto simp: Set_Reinitialize_def FreeData_new new_AuthorizationSet_def demo_params_def reserve_elems_def
      km_alloc_def is_blob_tag_def demo_defs_def demo_type_def as_blob_def reserve_indirect_def own_param_def
      Set_SerializedSize_def SerializedSizeOfElements_def serialized_size_def Let_def)
  show ?thesis
    using auth_set_roundtrip [OF demo_params_ok(1) km_alloc_total, of new_AuthorizationSet "\<lparr>wb_block = replicate 100 0, wb_pos = 0\<rparr>"
        "[1, 2]" new_AuthorizationSet] len by (auto simp: has_room_def)
qed

text \<open>
  C28: whatever bytes arrive, the authorization set they are read into is well-formed: every element has a
  value of the type of its tag, its bytes lie within the indirect data, and sizes do not exceed what is
  allocated. A set that is accepted has no error and its indirect data is exactly as long as its elements say;
  one that is rejected is empty with an error. What is not read stays in the buffer.
\<close>

theorem auth_set_from_any_bytes:
  assumes "Set_Deserialize d al buf s0 = (ok, s, rest)"
  shows "set_ok d s \<and> (\<exists>k. rest = drop k buf) \<and>
    (if ok then set_error s = OK \<and> list_all (sendable d) (elems s) \<and> elems_indirect_size d (elems s) = length (indirect_data s)
     else elems s = [] \<and> set_error s \<noteq> OK)"
  using assms by (rule Set_Deserialize_ok)

theorem auth_set_from_any_bytes_witness:
  "set_ok demo_defs (fst (snd (Set_Deserialize demo_defs km_alloc [1, 0, 0, 0, 5, 2, 0, 0, 0, 7] new_AuthorizationSet))) \<and>
   elems (fst (snd (Set_Deserialize demo_defs km_alloc [1, 0, 0, 0, 5, 2, 0, 0, 0, 7] new_AuthorizationSet))) = []"
proof -
  obtain ok s rest where d: "Set_Deserialize demo_defs km_alloc [1, 0, 0, 0, 5, 2, 0, 0, 0, 7] new_AuthorizationSet = (ok, s, rest)"
    by (metis prod_cases3)
  then have "\<not> ok"
    by (auto simp: Set_Deserialize_def DeserializeIndirectData_def copy_size_and_data_from_buf_def copy_uint32_from_buf_def
      copy_from_buf_def DeserializeElementsData_def km_alloc_def split: if_splits prod.splits)
  then show ?thesis using auth_set_from_any_bytes [OF d] d by simp
qed

section \<open>Union and difference\<close>

text \<open>
  C29: \<open>Union\<close> and \<open>Difference\<close> are the set operations, up to the values of booleans, which the comparison of
  parameters does not look at. With a list of well-typed parameters that is not empty, and when memory allocation succeeds
  and the byte strings have less than \<open>2\<^sup>6\<^sup>3\<close> bytes, the result of either is a well-formed set
  in which no parameter occurs twice and none has the invalid tag. Its parameters come from the set or the list,
  respectively from the set; and up to the values of booleans they are all of those, respectively all that are not
  in the list. An empty list changes nothing and is left out.
\<close>

theorem union_and_difference:
  assumes "defs_ok d" "set_ok d s" "set_error s = OK" "list_all (typed d) ps" "ps \<noteq> []" "alloc_total al"
    and "length (indirect_data s) + sum_list (map param_len ps) < 2 ^ 63" "indirect_data_capacity s < 2 ^ 63"
  shows "(\<exists>s'. Set_Union d al ps s = Some s' \<and> set_ok d s' \<and> set_error s' = OK \<and> distinct (map canon (set_values s')) \<and>
      set (set_values s') \<subseteq> set (set_values s) \<union> set ps \<and>
      canon ` set (set_values s') = canon ` {p \<in> set (set_values s) \<union> set ps. p_tag p \<noteq> KM_TAG_INVALID d}) \<and>
    (\<exists>s'. Set_Difference d ps s = Some s' \<and> set_ok d s' \<and> set_error s' = OK \<and> distinct (map canon (set_values s')) \<and>
      set (set_values s') \<subseteq> set (set_values s) \<and>
      canon ` set (set_values s') = canon ` {p \<in> set (set_values s). p_tag p \<noteq> KM_TAG_INVALID d} - canon ` set ps)"
  using Set_Union_ok [OF assms] Set_Difference_ok [OF assms(1-5)] by blast

theorem union_and_difference_witness:
  "\<exists>s s'. Set_Reinitialize demo_defs km_alloc demo_params new_AuthorizationSet = Some (True, s) \<and>
     Set_Difference demo_defs [\<lparr>p_tag = 0x20000001, p_value = VInt 2\<rparr>] s = Some s' \<and>
     set (set_values s') = {\<lparr>p_tag = 0x900002C5, p_value = VBlob [7, 8]\<rparr>}"
proof -
  obtain s where s: "Set_Reinitialize demo_defs km_alloc demo_params new_AuthorizationSet = Some (True, s)"
    "set_values s = demo_params" "growable demo_defs s" "ComputeIndirectDataSize demo_defs demo_params = Some (length (indirect_data s))"
    "indirect_data_capacity s = length (indirect_data s)"
    using Set_Reinitialize_ok [OF demo_params_ok(2) km_alloc_total] by blast
  have len: "length (indirect_data s) = 2"
    using s(4) by (simp add: demo_params_def is_blob_tag_def demo_defs_def demo_type_def as_blob_def Let_def)
  let ?p = "[\<lparr>p_tag = 0x20000001, p_value = VInt 2\<rparr>] :: byte list km_param list"
  have "list_all (typed demo_defs) ?p" using demo_params_ok(2) by (simp add: demo_params_def)
  from union_and_difference [OF demo_defs_ok _ _ this _ km_alloc_total, of s] s(3,5) len
  obtain s' where s': "Set_Difference demo_defs ?p s = Some s'" "set (set_values s') \<subseteq> set demo_params"
    "canon ` set (set_values s') = canon ` {p \<in> set demo_params. p_tag p \<noteq> KM_TAG_INVALID demo_defs} - canon ` set ?p"
    by (auto simp: growable_def param_len_def s(2))
  have c: "canon p = p" if "p \<in> set demo_params \<or> p \<in> set ?p" for p using that by (intro canon_not_bool) (auto simp: demo_params_def)
  have "canon ` A = A" if "A \<subseteq> set demo_params \<or> A \<subseteq> set ?p" for A
  proof -
    have "canon p = p" if "p \<in> A" for p using c \<open>A \<subseteq> set demo_params \<or> A \<subseteq> set ?p\<close> that by blast
    then show ?thesis by force
  qed
  then have "set (set_values s') = {p \<in> set demo_params. p_tag p \<noteq> KM_TAG_INVALID demo_defs} - set ?p" using s'(2,3) by auto
  moreover have "{p \<in> set demo_params. p_tag p \<noteq> KM_TAG_INVALID demo_defs} - set ?p = {\<lparr>p_tag = 0x900002C5, p_value = VBlob [7, 8]\<rparr>}"
    by (auto simp: demo_params_def demo_defs_def)
  ultimately show ?thesis using s(1) s'(1) by auto
qed

section \<open>What goes wrong\<close>

text \<open>
  C40: a set that was deserialized with byte strings cannot take another one: \<open>Deserialize\<close> leaves
  \<open>indirect_data_capacity_\<close> at zero, the room that \<open>push_back\<close> computes wraps around, and appending a parameter
  with bytes writes behind the indirect data.
\<close>

theorem push_back_after_deserialize:
  assumes "Set_Deserialize d al buf s0 = (True, s, rest)" "indirect_data s \<noteq> []"
    and "typed d p" "0 < param_len p" "length (indirect_data s) + param_len p \<le> 2 ^ 64" "alloc_total al'"
  shows "push_back d al' p s = None"
proof -
  have "indirect_data_capacity s = 0 \<and> indirect_block s = length (indirect_data s) \<and> set_error s = OK"
    using assms(1) by (auto simp: Set_Deserialize_def DeserializeIndirectData_def DeserializeElementsData_def FreeData_def
        reserve_elems_def Let_def split: if_splits prod.splits option.splits bool.splits)
  then show ?thesis using push_back_overflow assms(2-6) by blast
qed

lemma serialized_size_le: "serialized_size d p \<le> 12"
  by (simp add: serialized_size_def split: keymaster_tag_type_t.split)

lemma demo_received:
  "\<exists>bytes s. Set_Deserialize demo_defs km_alloc bytes new_AuthorizationSet = (True, s, []) \<and> length (indirect_data s) = 2"
proof -
  obtain s where s: "set_values s = demo_params" "growable demo_defs s" "elems_indirect_size demo_defs (elems s) = length (indirect_data s)"
    "ComputeIndirectDataSize demo_defs demo_params = Some (length (indirect_data s))"
    using Set_Reinitialize_ok [OF demo_params_ok(2) km_alloc_total] by blast
  have len: "length (indirect_data s) = 2"
    using s(4) by (simp add: demo_params_def is_blob_tag_def demo_defs_def demo_type_def as_blob_def Let_def)
  have send: "list_all (sendable demo_defs) (elems s)"
    using demo_params_ok(1) unfolding s(1) [symmetric] by (auto simp: set_values_def list_all_iff sendable_def)
  have "list_all (\<lambda>p. sendable demo_defs p \<and> in_range (length (indirect_data s)) p) (elems s)"
    using send s(2) by (auto simp: growable_def set_ok_def list_all_iff)
  moreover obtain a b where "elems s = [a, b]" using s(1) by (auto simp: set_values_def demo_params_def)
  then have "SerializedSizeOfElements demo_defs s < 2 ^ 32"
    using serialized_size_le [of demo_defs a] serialized_size_le [of demo_defs b] by (simp add: SerializedSizeOfElements_def)
  ultimately show ?thesis
    using Set_Deserialize_bytes [of demo_defs s km_alloc "[]" new_AuthorizationSet] s(3) len
    by (intro exI [of _ "set_bytes demo_defs s"]) auto
qed

theorem push_back_after_deserialize_witness:
  "\<exists>bytes s. Set_Deserialize demo_defs km_alloc bytes new_AuthorizationSet = (True, s, []) \<and>
     push_back demo_defs km_alloc \<lparr>p_tag = 0x900002C6, p_value = VBlob [1]\<rparr> s = None"
proof -
  obtain bytes s where b: "Set_Deserialize demo_defs km_alloc bytes new_AuthorizationSet = (True, s, [])" "length (indirect_data s) = 2"
    using demo_received by blast
  then have "push_back demo_defs km_alloc \<lparr>p_tag = 0x900002C6, p_value = VBlob [1]\<rparr> s = None"
    by (intro push_back_after_deserialize [OF b(1)])
      (auto simp: typed_def demo_defs_def demo_type_def Let_def value_fits_def param_len_def)
  then show ?thesis using b(1) by blast
qed

lemma distinct_set_singleton: "distinct xs \<Longrightarrow> set xs = {x} \<Longrightarrow> xs = [x]"
  by (cases xs; cases "tl xs") auto

lemma frame_indirect: "t = s\<lparr>elems := es\<rparr> \<Longrightarrow> indirect_data t = indirect_data s"
  by simp

text \<open>
  a set with a byte string that occurs twice cannot be sent once it has been deduplicated:
  \<open>Deduplicate\<close> drops the parameter but keeps its bytes in the indirect data, and \<open>Deserialize\<close> rejects a set
  whose indirect data is longer than its elements say.
\<close>

theorem deduplicated_blob_rejected:
  assumes "defs_ok d" "sendable d p" "p_tag p \<noteq> KM_TAG_INVALID d" "0 < param_len p" "2 * param_len p < 2 ^ 32" "alloc_total al"
    and "Set_Reinitialize d al [p, p] s0 = Some (True, s)" "has_room (Set_SerializedSize d (Deduplicate d s)) w"
  shows "\<exists>bytes. Set_Serialize d (Deduplicate d s) w = Some (put bytes w) \<and> set_values (Deduplicate d s) = [p] \<and>
    Set_Deserialize d al (bytes @ rest) s1 = (False, set_invalid MALFORMED_DATA new_AuthorizationSet, rest)"
proof -
  have t: "list_all (typed d) [p, p]" using assms(2) by (simp add: sendable_def)
  have s: "set_values s = [p, p]" "set_ok d s" "length (indirect_data s) = 2 * param_len p"
    using Set_Reinitialize_ok [OF t assms(6), of s0] ComputeIndirectDataSize_typed [OF t] assms(7) by (auto simp: growable_def)
  note D = Deduplicate_ok [OF assms(1) set_ok_comparable [OF s(2)]]
  let ?s = "Deduplicate d s"
  have ind: "indirect_data ?s = indirect_data s" using D by (elim conjE) (erule frame_indirect)
  have "set_values ?s \<noteq> []" "set (set_values ?s) \<subseteq> {p}" "distinct (map canon (set_values ?s))"
    using D assms(3) by (auto simp: s(1))
  then have one: "set_values ?s = [p]"
    by (intro distinct_set_singleton) (auto simp: distinct_map subset_singleton_iff)
  then obtain e where e: "elems ?s = [e]" "value_of (indirect_data s) e = p" using ind by (auto simp: set_values_def)
  have ok: "set_ok d ?s" using Deduplicate_set_ok [OF assms(1) s(2)] by blast
  have send: "sendable d e" using assms(2) e(2) by (auto simp: sendable_def)
  then have all: "list_all (\<lambda>p. sendable d p \<and> in_range (length (indirect_data ?s)) p) (elems ?s)"
    using ok e(1) by (simp add: set_ok_def)
  obtain b r where b: "p_value p = VBlob b" "p_value e = VBlob r" "b = blob_at (indirect_data s) r"
    using assms(4) e(2) by (cases "p_value e") (auto simp: param_len_def value_of_def)
  have "elems_indirect_size d (elems ?s) = snd r"
    using sendable_blob [OF send] b(2) e(1) by (cases r) (simp add: elems_indirect_size_def)
  also have "\<dots> = param_len p"
    using all e(1) b ind by (cases r) (auto simp: in_range_def param_len_def blob_at_def min_def)
  finally have size: "elems_indirect_size d (elems ?s) \<noteq> length (indirect_data ?s)" using s(3) assms(4) ind by simp
  have "SerializedSizeOfElements d ?s < 2 ^ 32" "length (indirect_data ?s) < 2 ^ 32"
    using e(1) s(3) assms(5) ind serialized_size_le [of d e] by (simp_all add: SerializedSizeOfElements_def)
  from Set_Deserialize_bytes [OF all this(2,1) assms(6), of rest s1] size
  show ?thesis using Set_Serialize_put [of d ?s w] send e(1) one assms(8) by (intro exI [of _ "set_bytes d ?s"]) simp
qed

theorem deduplicated_blob_rejected_witness:
  "\<exists>s w bytes. Set_Reinitialize demo_defs km_alloc (replicate 2 \<lparr>p_tag = 0x900002C5, p_value = VBlob [7, 8]\<rparr>) new_AuthorizationSet = Some (True, s) \<and>
     Set_Serialize demo_defs (Deduplicate demo_defs s) w = Some (put bytes w) \<and>
     fst (Set_Deserialize demo_defs km_alloc bytes new_AuthorizationSet) = False"
proof -
  let ?p = "\<lparr>p_tag = 0x900002C5, p_value = VBlob [7, 8]\<rparr> :: byte list km_param"
  have p: "sendable demo_defs ?p" using demo_params_ok(1) by (simp add: demo_params_def)
  then obtain s where s: "Set_Reinitialize demo_defs km_alloc [?p, ?p] new_AuthorizationSet = Some (True, s)"
    using Set_Reinitialize_ok [of demo_defs "[?p, ?p]" km_alloc new_AuthorizationSet] by (auto simp: sendable_def)
  let ?w = "\<lparr>wb_block = replicate (Set_SerializedSize demo_defs (Deduplicate demo_defs s)) 0, wb_pos = 0\<rparr>"
  have "has_room (Set_SerializedSize demo_defs (Deduplicate demo_defs s)) ?w" by (simp add: has_room_def)
  from deduplicated_blob_rejected [OF demo_defs_ok p _ _ _ km_alloc_total s this, of "[]" new_AuthorizationSet]
  obtain bytes where "Set_Serialize demo_defs (Deduplicate demo_defs s) ?w = Some (put bytes ?w)"
    "Set_Deserialize demo_defs km_alloc bytes new_AuthorizationSet = (False, set_invalid MALFORMED_DATA new_AuthorizationSet, [])"
    by (auto simp: demo_defs_def param_len_def)
  then show ?thesis using s by (intro exI [of _ s] exI [of _ ?w] exI [of _ bytes]) (simp add: numeral_2_eq_2)
qed

end
