(* ===== verification/Km_Operations.thy ===== *)
theory Km_Operations
  imports Km_AuthBuild Km_Enforcement
begin

text \<open>
  The operations of \<open>class AndroidKeymaster\<close> (\<open>android_keymaster.cpp\<close>): loading a key, and \<open>BeginOperation\<close>,
  \<open>UpdateOperation\<close>, \<open>FinishOperation\<close> and \<open>AbortOperation\<close> over \<open>class OperationTable\<close> (\<open>operation_table.cpp\<close>)
  and the base class \<open>Operation\<close> (\<open>operation.h\<close>).

  The virtual functions of the context, of the key and operation factories, of keys and of operations are
  the parameter \<open>km_context\<close>; contexts, factories, keys and operations are type parameters. \<^term>\<open>None\<close> is a
  null pointer that is dereferenced, a failed assertion or the use of an uninitialised member.
\<close>

section \<open>The virtual functions\<close>

record 'op operation =
  op_purpose :: u32
  op_key_auths :: auth_set
  op_key_id :: u64
  op_impl :: 'op

record ('ctx, 'fac, 'key, 'opf, 'op) km_context =
  GetSystemVersion :: "'ctx \<Rightarrow> u32 \<times> u32"
  GetKeyFactory :: "u32 \<Rightarrow> 'fac option"
  ParseKeyBlob :: "'ctx \<Rightarrow> byte list \<Rightarrow> auth_set \<Rightarrow> auth_set \<times> auth_set \<Rightarrow> keymaster_error_t \<times> byte list \<times> auth_set \<times> auth_set"
  fac_LoadKey :: "'fac \<Rightarrow> byte list \<Rightarrow> auth_set \<Rightarrow> auth_set \<Rightarrow> auth_set \<Rightarrow> keymaster_error_t \<times> 'key option"
  fac_GetOperationFactory :: "'fac \<Rightarrow> u32 \<Rightarrow> 'opf option"
  key_authorizations :: "'key \<Rightarrow> auth_set"
  opf_CreateOperation :: "'opf \<Rightarrow> 'key \<Rightarrow> auth_set \<Rightarrow> keymaster_error_t \<times> 'op operation option"
  op_Begin :: "'op \<Rightarrow> auth_set \<Rightarrow> auth_set \<Rightarrow> keymaster_error_t \<times> auth_set \<times> 'op"
  op_Update :: "'op \<Rightarrow> auth_set \<Rightarrow> km_buffer \<Rightarrow> auth_set \<times> km_buffer \<times> nat \<Rightarrow>
    keymaster_error_t \<times> (auth_set \<times> km_buffer \<times> nat) \<times> 'op"
  op_Finish :: "'op \<Rightarrow> auth_set \<Rightarrow> km_buffer \<Rightarrow> km_buffer \<Rightarrow> auth_set \<times> km_buffer \<Rightarrow>
    keymaster_error_t \<times> (auth_set \<times> km_buffer) \<times> 'op"
  op_Abort :: "'op \<Rightarrow> keymaster_error_t \<times> 'op"
  op_CreateOperationHandle :: "'op \<Rightarrow> 'ctx \<Rightarrow> keymaster_error_t \<times> u64 \<times> 'ctx"
  sha256 :: "byte list \<Rightarrow> byte list option"
  SetSystemVersion :: "u32 \<Rightarrow> u32 \<Rightarrow> 'ctx \<Rightarrow> keymaster_error_t \<times> 'ctx"
  ctx_AddRngEntropy :: "byte list \<Rightarrow> 'ctx \<Rightarrow> keymaster_error_t \<times> 'ctx"
  ctx_DeleteKey :: "byte list \<Rightarrow> 'ctx \<Rightarrow> keymaster_error_t \<times> 'ctx"
  ctx_DeleteAllKeys :: "'ctx \<Rightarrow> keymaster_error_t \<times> 'ctx"
  UpgradeKeyBlob :: "'ctx \<Rightarrow> byte list \<Rightarrow> auth_set \<Rightarrow> keymaster_error_t \<times> byte list"
  GetSupportedAlgorithms :: "u32 list"
  ctx_GetOperationFactory :: "u32 \<Rightarrow> u32 \<Rightarrow> 'opf option"
  opf_SupportedBlockModes :: "'opf \<Rightarrow> u32 list"
  opf_SupportedPaddingModes :: "'opf \<Rightarrow> u32 list"
  opf_SupportedDigests :: "'opf \<Rightarrow> u32 list"
  fac_SupportedImportFormats :: "'fac \<Rightarrow> u32 list"
  fac_SupportedExportFormats :: "'fac \<Rightarrow> u32 list"
  fac_GenerateKey :: "'fac \<Rightarrow> 'ctx \<Rightarrow> auth_set \<Rightarrow> auth_set \<times> auth_set \<Rightarrow>
    keymaster_error_t \<times> byte list \<times> (auth_set \<times> auth_set) \<times> 'ctx"
  fac_ImportKey :: "'fac \<Rightarrow> 'ctx \<Rightarrow> auth_set \<Rightarrow> u32 \<Rightarrow> byte list \<Rightarrow> auth_set \<times> auth_set \<Rightarrow>
    keymaster_error_t \<times> byte list \<times> (auth_set \<times> auth_set) \<times> 'ctx"
  formatted_key_material :: "'key \<Rightarrow> u32 \<Rightarrow> keymaster_error_t \<times> byte list"
  GenerateAttestation :: "'key \<Rightarrow> 'ctx \<Rightarrow> auth_set \<Rightarrow> auth_set \<Rightarrow> auth_set \<Rightarrow> byte list list \<Rightarrow>
    keymaster_error_t \<times> byte list list \<times> 'ctx"

text \<open>\<open>Operation::CreateOperationHandle\<close>, unless a subclass overrides it: eight random bytes.\<close>

definition CreateOperationHandle ::
  "('ctx \<Rightarrow> nat \<Rightarrow> keymaster_error_t \<times> byte list \<times> 'ctx) \<Rightarrow> 'op \<Rightarrow> 'ctx \<Rightarrow> keymaster_error_t \<times> u64 \<times> 'ctx" where
  "CreateOperationHandle GenerateRandom op ctx = (case GenerateRandom ctx 8 of (e, bytes, ctx) \<Rightarrow> (e, le_word bytes, ctx))"

text \<open>
  \<open>SetAuthorizations\<close> ignores whether the copy succeeded. \<open>authorizations()\<close> returns a copy; the copy
  constructor does not initialise the size when the set has an error.
\<close>

definition SetAuthorizations :: "km_defs \<Rightarrow> allocator \<Rightarrow> auth_set \<Rightarrow> 'op operation \<Rightarrow> 'op operation option" where
  "SetAuthorizations d al auths op = do {
     (_, s) \<leftarrow> Set_Reinitialize d al (set_values auths) (op_key_auths op);
     Some (op\<lparr>op_key_auths := s\<rparr>)
   }"

definition copy_AuthorizationSet :: "km_defs \<Rightarrow> allocator \<Rightarrow> auth_set \<Rightarrow> auth_set option" where
  "copy_AuthorizationSet d al src =
     (if set_error src \<noteq> OK then None
      else do { (_, s) \<leftarrow> Set_Reinitialize d al (set_values src) new_AuthorizationSet; Some s })"

definition authorizations :: "km_defs \<Rightarrow> allocator \<Rightarrow> 'op operation \<Rightarrow> auth_set option" where
  "authorizations d al op = copy_AuthorizationSet d al (op_key_auths op)"

section \<open>The operation table\<close>

record 'op entry =
  e_handle :: u64
  e_operation :: "'op operation option"

record 'op op_table =
  table :: "'op entry list option"
  table_size :: nat

definition new_OperationTable :: "nat \<Rightarrow> 'op op_table" where
  "new_OperationTable n = \<lparr>table = None, table_size = n\<rparr>"

definition empty_entry :: "'op entry" where
  "empty_entry = \<lparr>e_handle = 0, e_operation = None\<rparr>"

text \<open>The loop of \<open>Add\<close>: the first entry without an operation.\<close>

fun add_entry :: "u64 \<Rightarrow> 'op operation \<Rightarrow> 'op entry list \<Rightarrow> 'op entry list option" where
  "add_entry h op [] = None"
| "add_entry h op (e # es) =
     (if e_operation e = None then Some (\<lparr>e_handle = h, e_operation = Some op\<rparr> # es) else map_option ((#) e) (add_entry h op es))"

definition Table_Add ::
  "('op \<Rightarrow> 'ctx \<Rightarrow> keymaster_error_t \<times> u64 \<times> 'ctx) \<Rightarrow> allocator \<Rightarrow> 'op operation \<Rightarrow> 'ctx \<Rightarrow> u64 \<Rightarrow> 'op op_table \<Rightarrow>
   keymaster_error_t \<times> u64 \<times> 'ctx \<times> 'op op_table" where
  "Table_Add create_handle al op ctx op_handle t =
     (if table t = None \<and> \<not> alloc_ok al (16 * table_size t) then (KM_ERROR_MEMORY_ALLOCATION_FAILED, op_handle, ctx, t)
      else
        let es = (case table t of None \<Rightarrow> replicate (table_size t) empty_entry | Some es \<Rightarrow> es); t = t\<lparr>table := Some es\<rparr>
        in case create_handle (op_impl op) ctx of
          (e, h, ctx) \<Rightarrow>
            if e \<noteq> KM_ERROR_OK then (e, h, ctx, t)
            else if h = 0 then (KM_ERROR_UNKNOWN_ERROR, h, ctx, t)
            else case add_entry h op es of
              Some es \<Rightarrow> (KM_ERROR_OK, h, ctx, t\<lparr>table := Some es\<rparr>)
            | None \<Rightarrow> (KM_ERROR_TOO_MANY_OPERATIONS, h, ctx, t))"

fun find_entry :: "u64 \<Rightarrow> 'op entry list \<Rightarrow> 'op operation option" where
  "find_entry h [] = None"
| "find_entry h (e # es) = (if e_handle e = h then e_operation e else find_entry h es)"

definition Table_Find :: "u64 \<Rightarrow> 'op op_table \<Rightarrow> 'op operation option" where
  "Table_Find h t = (if h = 0 then None else case table t of None \<Rightarrow> None | Some es \<Rightarrow> find_entry h es)"

fun delete_entry :: "u64 \<Rightarrow> 'op entry list \<Rightarrow> bool \<times> 'op entry list" where
  "delete_entry h [] = (False, [])"
| "delete_entry h (e # es) =
     (if e_handle e = h then (True, empty_entry # es) else case delete_entry h es of (b, es) \<Rightarrow> (b, e # es))"

definition Table_Delete :: "u64 \<Rightarrow> 'op op_table \<Rightarrow> bool \<times> 'op op_table" where
  "Table_Delete h t =
     (case table t of
        None \<Rightarrow> (False, t)
      | Some es \<Rightarrow> (case delete_entry h es of (b, es) \<Rightarrow> (b, t\<lparr>table := Some es\<rparr>)))"

text \<open>A method of an operation in the table changes the object the entry points to.\<close>

fun change_entry :: "u64 \<Rightarrow> 'op \<Rightarrow> 'op entry list \<Rightarrow> 'op entry list" where
  "change_entry h impl [] = []"
| "change_entry h impl (e # es) =
     (if e_handle e = h then e\<lparr>e_operation := map_option (\<lambda>op. op\<lparr>op_impl := impl\<rparr>) (e_operation e)\<rparr> # es
      else e # change_entry h impl es)"

definition Table_change :: "u64 \<Rightarrow> 'op \<Rightarrow> 'op op_table \<Rightarrow> 'op op_table" where
  "Table_change h impl t = t\<lparr>table := map_option (change_entry h impl) (table t)\<rparr>"

section \<open>Copies of blobs\<close>

definition kMaxDupBufferSize :: nat where "kMaxDupBufferSize = 16 * 1024 * 1024"

definition dup_buffer :: "allocator \<Rightarrow> byte list \<Rightarrow> byte list option" where
  "dup_buffer al buf = (if kMaxDupBufferSize \<le> length buf \<or> \<not> alloc_ok al (length buf) then None else Some buf)"

text \<open>A \<open>KeymasterKeyBlob\<close> whose copy fails, or that is too large, has no bytes.\<close>

definition KeymasterKeyBlob :: "allocator \<Rightarrow> byte list \<Rightarrow> byte list" where
  "KeymasterKeyBlob al blob = (case dup_buffer al blob of None \<Rightarrow> [] | Some bytes \<Rightarrow> bytes)"

section \<open>The device\<close>

text \<open>A policy of \<^term>\<open>None\<close> is a context without enforcement.\<close>

record ('ctx, 'op) keymaster =
  ak_ctx :: 'ctx
  ak_table :: "'op op_table option"
  ak_policy :: "enforcement option"

definition new_AndroidKeymaster :: "allocator \<Rightarrow> 'ctx \<Rightarrow> enforcement option \<Rightarrow> nat \<Rightarrow> ('ctx, 'op) keymaster" where
  "new_AndroidKeymaster al ctx policy operation_table_size =
     \<lparr>ak_ctx = ctx, ak_table = (if alloc_ok al 16 then Some (new_OperationTable operation_table_size) else None), ak_policy = policy\<rparr>"

definition CheckVersionInfo ::
  "('ctx, 'fac, 'key, 'opf, 'op) km_context \<Rightarrow> km_env \<Rightarrow> 'ctx \<Rightarrow> auth_set \<Rightarrow> auth_set \<Rightarrow> keymaster_error_t option" where
  "CheckVersionInfo K v ctx tee_enforced sw_enforced = do {
     let (os_version, os_patchlevel) = GetSystemVersion K ctx;
     t \<leftarrow> GetTagValueInt tee_enforced (tag_of v KM_TAG_OS_PATCHLEVEL);
     l \<leftarrow> (case t of Some l \<Rightarrow> Some (Some l) | None \<Rightarrow> GetTagValueInt sw_enforced (tag_of v KM_TAG_OS_PATCHLEVEL));
     Some (case l of
         None \<Rightarrow> KM_ERROR_OK
       | Some key_os_patchlevel \<Rightarrow>
           if key_os_patchlevel < os_patchlevel then KM_ERROR_KEY_REQUIRES_UPGRADE
           else if key_os_patchlevel > os_patchlevel then KM_ERROR_INVALID_KEY_BLOB
           else KM_ERROR_OK)
   }"

definition factory_of ::
  "('ctx, 'fac, 'key, 'opf, 'op) km_context \<Rightarrow> km_env \<Rightarrow> auth_set \<Rightarrow> auth_set \<Rightarrow> (keymaster_error_t \<times> 'fac option) option" where
  "factory_of K v hw_enforced sw_enforced = do {
     h \<leftarrow> GetTagValueEnum hw_enforced (tag_of v KM_TAG_ALGORITHM);
     a \<leftarrow> (case h of Some a \<Rightarrow> Some (Some a) | None \<Rightarrow> GetTagValueEnum sw_enforced (tag_of v KM_TAG_ALGORITHM));
     Some (case a of
         None \<Rightarrow> (KM_ERROR_UNSUPPORTED_ALGORITHM, None)
       | Some algorithm \<Rightarrow>
           (case GetKeyFactory K algorithm of
              None \<Rightarrow> (KM_ERROR_UNSUPPORTED_ALGORITHM, None)
            | Some f \<Rightarrow> (KM_ERROR_OK, Some f)))
   }"

text \<open>The error, both sets of authorizations, and the factory with the key when there is no error.\<close>

definition ak_LoadKey ::
  "('ctx, 'fac, 'key, 'opf, 'op) km_context \<Rightarrow> km_env \<Rightarrow> allocator \<Rightarrow> 'ctx \<Rightarrow> byte list \<Rightarrow> auth_set \<Rightarrow>
   (keymaster_error_t \<times> auth_set \<times> auth_set \<times> ('fac \<times> 'key option) option) option" where
  "ak_LoadKey K v al ctx key_blob additional_params =
     (case ParseKeyBlob K ctx (KeymasterKeyBlob al key_blob) additional_params (new_AuthorizationSet, new_AuthorizationSet) of
        (e, key_material, hw_enforced, sw_enforced) \<Rightarrow>
          if e \<noteq> KM_ERROR_OK then Some (e, hw_enforced, sw_enforced, None)
          else do {
            e \<leftarrow> CheckVersionInfo K v ctx hw_enforced sw_enforced;
            if e \<noteq> KM_ERROR_OK then Some (e, hw_enforced, sw_enforced, None)
            else do {
              (e, f) \<leftarrow> factory_of K v hw_enforced sw_enforced;
              if e \<noteq> KM_ERROR_OK then Some (e, hw_enforced, sw_enforced, None)
              else do {
                f \<leftarrow> f;
                let (e, key) = fac_LoadKey K f key_material additional_params hw_enforced sw_enforced;
                Some (e, hw_enforced, sw_enforced, Some (f, key))
              }
            }
          })"

text \<open>\<open>CreateKeyId\<close>: the first eight bytes of a hash of the key blob, if it can be computed.\<close>

definition CreateKeyId :: "('ctx, 'fac, 'key, 'opf, 'op) km_context \<Rightarrow> byte list \<Rightarrow> u64 option option" where
  "CreateKeyId K key_blob =
     (case sha256 K key_blob of
        None \<Rightarrow> Some None
      | Some hash \<Rightarrow> if length hash < 8 then None else Some (Some (le_word (take 8 hash))))"

section \<open>Beginning an operation\<close>

record begin_request =
  bq_purpose :: u32
  bq_key_blob :: "byte list"
  bq_additional_params :: auth_set

record begin_response =
  br_error :: keymaster_error_t
  br_op_handle :: u64
  br_output_params :: auth_set

text \<open>The check of the policy in \<open>BeginOperation\<close>, with the key id the operation gets.\<close>

definition authorize_begin ::
  "('ctx, 'fac, 'key, 'opf, 'op) km_context \<Rightarrow> km_env \<Rightarrow> begin_request \<Rightarrow> auth_set \<Rightarrow> enforcement option \<Rightarrow>
   (keymaster_error_t \<times> u64 option \<times> enforcement option) option" where
  "authorize_begin K v q auths policy =
     (case policy of
        None \<Rightarrow> Some (KM_ERROR_OK, None, None)
      | Some s \<Rightarrow> do {
          key_id \<leftarrow> CreateKeyId K (bq_key_blob q);
          case key_id of
            None \<Rightarrow> Some (KM_ERROR_UNKNOWN_ERROR, None, Some s)
          | Some key_id \<Rightarrow> do {
              (e, s) \<leftarrow> AuthorizeOperation v (bq_purpose q) key_id auths (bq_additional_params q) 0 True s;
              Some (e, Some key_id, Some s)
            }
        })"

text \<open>What follows once an operation is created and allowed: it begins and enters the table.\<close>

definition start_operation ::
  "('ctx, 'fac, 'key, 'opf, 'op) km_context \<Rightarrow> km_env \<Rightarrow> allocator \<Rightarrow> begin_request \<Rightarrow> auth_set \<Rightarrow> 'op operation \<Rightarrow>
   begin_response \<Rightarrow> ('ctx, 'op) keymaster \<Rightarrow> (begin_response \<times> ('ctx, 'op) keymaster) option" where
  "start_operation K v al q auths operation r m =
     (case op_Begin K (op_impl operation) (bq_additional_params q) (Set_Clear (br_output_params r)) of
        (e, out, impl) \<Rightarrow>
          let r = r\<lparr>br_error := e, br_output_params := out\<rparr>
          in if e \<noteq> KM_ERROR_OK then Some (r, m)
             else do {
               operation \<leftarrow> SetAuthorizations (env_defs v) al auths (operation\<lparr>op_impl := impl\<rparr>);
               t \<leftarrow> ak_table m;
               let (e, h, ctx, t) = Table_Add (op_CreateOperationHandle K) al operation (ak_ctx m) (br_op_handle r) t;
               Some (r\<lparr>br_error := e, br_op_handle := h\<rparr>, m\<lparr>ak_ctx := ctx, ak_table := Some t\<rparr>)
             })"

text \<open>What \<open>BeginOperation\<close> does once the key is loaded.\<close>

definition begin_with_key ::
  "('ctx, 'fac, 'key, 'opf, 'op) km_context \<Rightarrow> km_env \<Rightarrow> allocator \<Rightarrow> begin_request \<Rightarrow> begin_response \<Rightarrow> 'fac \<Rightarrow> 'key \<Rightarrow>
   ('ctx, 'op) keymaster \<Rightarrow> (begin_response \<times> ('ctx, 'op) keymaster) option" where
  "begin_with_key K v al q r key_factory key m = do {
     algorithm \<leftarrow> GetTagValueEnum (key_authorizations K key) (tag_of v KM_TAG_ALGORITHM);
     if algorithm = None then Some (r\<lparr>br_error := KM_ERROR_UNKNOWN_ERROR\<rparr>, m)
     else case fac_GetOperationFactory K key_factory (bq_purpose q) of
       None \<Rightarrow> Some (r\<lparr>br_error := KM_ERROR_UNSUPPORTED_PURPOSE\<rparr>, m)
     | Some factory \<Rightarrow>
         (case opf_CreateOperation K factory key (bq_additional_params q) of
            (e, None) \<Rightarrow> Some (r\<lparr>br_error := e\<rparr>, m)
          | (e, Some operation) \<Rightarrow> do {
              (e, key_id, policy) \<leftarrow> authorize_begin K v q (key_authorizations K key) (ak_policy m);
              let m = m\<lparr>ak_policy := policy\<rparr>;
              let operation = (case key_id of None \<Rightarrow> operation | Some k \<Rightarrow> operation\<lparr>op_key_id := k\<rparr>);
              if e \<noteq> KM_ERROR_OK then Some (r\<lparr>br_error := e\<rparr>, m)
              else start_operation K v al q (key_authorizations K key) operation r m
            })
   }"

definition BeginOperation ::
  "('ctx, 'fac, 'key, 'opf, 'op) km_context \<Rightarrow> km_env \<Rightarrow> allocator \<Rightarrow> begin_request \<Rightarrow> begin_response \<Rightarrow>
   ('ctx, 'op) keymaster \<Rightarrow> (begin_response \<times> ('ctx, 'op) keymaster) option" where
  "BeginOperation K v al q r m = do {
     let r = r\<lparr>br_op_handle := 0\<rparr>;
     (e, hw_enforced, sw_enforced, loaded) \<leftarrow> ak_LoadKey K v al (ak_ctx m) (bq_key_blob q) (bq_additional_params q);
     if e \<noteq> KM_ERROR_OK then Some (r\<lparr>br_error := e\<rparr>, m)
     else do {
       (key_factory, key) \<leftarrow> loaded;
       key \<leftarrow> key;
       begin_with_key K v al q r key_factory key m
     }
   }"

section \<open>Going on with an operation\<close>

record update_request =
  uq_op_handle :: u64
  uq_additional_params :: auth_set
  uq_input :: km_buffer

record update_response =
  ur_error :: keymaster_error_t
  ur_output_params :: auth_set
  ur_output :: km_buffer
  ur_input_consumed :: nat

record finish_request =
  fq_op_handle :: u64
  fq_additional_params :: auth_set
  fq_input :: km_buffer
  fq_signature :: km_buffer

record finish_response =
  fr_error :: keymaster_error_t
  fr_output_params :: auth_set
  fr_output :: km_buffer

text \<open>The check of the policy in \<open>UpdateOperation\<close> and \<open>FinishOperation\<close>.\<close>

definition authorize_continue ::
  "km_env \<Rightarrow> allocator \<Rightarrow> 'op operation \<Rightarrow> auth_set \<Rightarrow> u64 \<Rightarrow> enforcement option \<Rightarrow>
   (keymaster_error_t \<times> enforcement option) option" where
  "authorize_continue v al operation params op_handle policy =
     (case policy of
        None \<Rightarrow> Some (KM_ERROR_OK, None)
      | Some s \<Rightarrow> do {
          auths \<leftarrow> authorizations (env_defs v) al operation;
          (e, s) \<leftarrow> AuthorizeOperation v (op_purpose operation) (op_key_id operation) auths params op_handle False s;
          Some (e, Some s)
        })"

definition UpdateOperation ::
  "('ctx, 'fac, 'key, 'opf, 'op) km_context \<Rightarrow> km_env \<Rightarrow> allocator \<Rightarrow> update_request \<Rightarrow> update_response \<Rightarrow>
   ('ctx, 'op) keymaster \<Rightarrow> (update_response \<times> ('ctx, 'op) keymaster) option" where
  "UpdateOperation K v al q r m = do {
     t \<leftarrow> ak_table m;
     case Table_Find (uq_op_handle q) t of
       None \<Rightarrow> Some (r\<lparr>ur_error := KM_ERROR_INVALID_OPERATION_HANDLE\<rparr>, m)
     | Some operation \<Rightarrow> do {
         (e, policy) \<leftarrow> authorize_continue v al operation (uq_additional_params q) (uq_op_handle q) (ak_policy m);
         let m = m\<lparr>ak_policy := policy\<rparr>;
         if e \<noteq> KM_ERROR_OK
         then Some (r\<lparr>ur_error := e\<rparr>, m\<lparr>ak_table := Some (snd (Table_Delete (uq_op_handle q) t))\<rparr>)
         else
           let (e, (out_params, out, consumed), impl) =
                 op_Update K (op_impl operation) (uq_additional_params q) (uq_input q)
                   (ur_output_params r, ur_output r, ur_input_consumed r);
               t = Table_change (uq_op_handle q) impl t;
               t = (if e \<noteq> KM_ERROR_OK then snd (Table_Delete (uq_op_handle q) t) else t)
           in Some (\<lparr>ur_error = e, ur_output_params = out_params, ur_output = out, ur_input_consumed = consumed\<rparr>,
                    m\<lparr>ak_table := Some t\<rparr>)
       }
   }"

definition FinishOperation ::
  "('ctx, 'fac, 'key, 'opf, 'op) km_context \<Rightarrow> km_env \<Rightarrow> allocator \<Rightarrow> finish_request \<Rightarrow> finish_response \<Rightarrow>
   ('ctx, 'op) keymaster \<Rightarrow> (finish_response \<times> ('ctx, 'op) keymaster) option" where
  "FinishOperation K v al q r m = do {
     t \<leftarrow> ak_table m;
     case Table_Find (fq_op_handle q) t of
       None \<Rightarrow> Some (r\<lparr>fr_error := KM_ERROR_INVALID_OPERATION_HANDLE\<rparr>, m)
     | Some operation \<Rightarrow> do {
         (e, policy) \<leftarrow> authorize_continue v al operation (fq_additional_params q) (fq_op_handle q) (ak_policy m);
         let m = m\<lparr>ak_policy := policy\<rparr>;
         if e \<noteq> KM_ERROR_OK
         then Some (r\<lparr>fr_error := e\<rparr>, m\<lparr>ak_table := Some (snd (Table_Delete (fq_op_handle q) t))\<rparr>)
         else
           let (e, (out_params, out), impl) =
                 op_Finish K (op_impl operation) (fq_additional_params q) (fq_input q) (fq_signature q)
                   (fr_output_params r, fr_output r)
           in Some (\<lparr>fr_error = e, fr_output_params = out_params, fr_output = out\<rparr>,
                    m\<lparr>ak_table := Some (snd (Table_Delete (fq_op_handle q) t))\<rparr>)
       }
   }"

definition AbortOperation ::
  "('ctx, 'fac, 'key, 'opf, 'op) km_context \<Rightarrow> u64 \<Rightarrow> ('ctx, 'op) keymaster \<Rightarrow> (keymaster_error_t \<times> ('ctx, 'op) keymaster) option" where
  "AbortOperation K op_handle m = do {
     t \<leftarrow> ak_table m;
     case Table_Find op_handle t of
       None \<Rightarrow> Some (KM_ERROR_INVALID_OPERATION_HANDLE, m)
     | Some operation \<Rightarrow>
         (case op_Abort K (op_impl operation) of
            (e, impl) \<Rightarrow> Some (e, m\<lparr>ak_table := Some (snd (Table_Delete op_handle t))\<rparr>))
   }"

definition has_operation :: "u64 \<Rightarrow> ('ctx, 'op) keymaster \<Rightarrow> bool option" where
  "has_operation op_handle m = map_option (\<lambda>t. Table_Find op_handle t \<noteq> None) (ak_table m)"

end
