(* ===== verification/Km_OpRuns.thy ===== *)
theory Km_OpRuns
  imports Km_Operations Km_Tokens
begin

text \<open>
  Runs of the operation commands. The table of operations keeps the contract of a table of handles; the
  runs rest on that contract. Every operation in the table was begun with a key it still has the
  authorizations of.
\<close>

section \<open>The contract of a table of handles\<close>

locale handle_table =
  fixes inv :: "'t \<Rightarrow> bool"
    and find :: "'h \<Rightarrow> 't \<Rightarrow> 'o option"
    and remove :: "'h \<Rightarrow> 't \<Rightarrow> 't"
    and modify :: "'h \<Rightarrow> ('o \<Rightarrow> 'o) \<Rightarrow> 't \<Rightarrow> 't"
    and insert :: "'h \<Rightarrow> 'o \<Rightarrow> 't \<Rightarrow> 't option"
    and usable :: "'h \<Rightarrow> bool"
  assumes inv_remove: "inv t \<Longrightarrow> inv (remove h t)"
    and inv_modify: "inv t \<Longrightarrow> inv (modify h f t)"
    and inv_insert: "inv t \<Longrightarrow> usable h \<Longrightarrow> find h t = None \<Longrightarrow> insert h x t = Some t' \<Longrightarrow> inv t'"
    and find_remove: "inv t \<Longrightarrow> usable k \<Longrightarrow> find h (remove k t) = (if h = k then None else find h t)"
    and find_modify: "inv t \<Longrightarrow> find h (modify k f t) = (if h = k then map_option f (find h t) else find h t)"
    and find_insert: "inv t \<Longrightarrow> usable k \<Longrightarrow> find k t = None \<Longrightarrow> insert k x t = Some t' \<Longrightarrow>
      find h t' = (if h = k then Some x else find h t)"
    and find_usable: "find h t = Some x \<Longrightarrow> usable h"
begin

text \<open>What holds of every object in the table.\<close>

definition every :: "('h \<Rightarrow> 'o \<Rightarrow> bool) \<Rightarrow> 't \<Rightarrow> bool" where
  "every P t \<longleftrightarrow> (\<forall>h x. find h t = Some x \<longrightarrow> P h x)"

lemma every_remove: "inv t \<Longrightarrow> usable k \<Longrightarrow> every P t \<Longrightarrow> every P (remove k t)"
  by (simp add: every_def find_remove)

lemma every_modify: "inv t \<Longrightarrow> (\<And>h x. P h x \<Longrightarrow> P h (f x)) \<Longrightarrow> every P t \<Longrightarrow> every P (modify k f t)"
  by (auto simp: every_def find_modify split: if_splits)

lemma every_insert:
  "inv t \<Longrightarrow> usable k \<Longrightarrow> find k t = None \<Longrightarrow> insert k x t = Some t' \<Longrightarrow> P k x \<Longrightarrow> every P t \<Longrightarrow> every P t'"
  by (auto simp: every_def find_insert split: if_splits)

lemma gone_remove: "inv t \<Longrightarrow> usable k \<Longrightarrow> find h t = None \<or> h = k \<Longrightarrow> find h (remove k t) = None"
  by (simp add: find_remove) blast

lemma gone_modify: "inv t \<Longrightarrow> find h t = None \<Longrightarrow> find h (modify k f t) = None"
  by (cases "h = k") (auto simp: find_modify)

lemma others_remove: "inv t \<Longrightarrow> usable k \<Longrightarrow> h \<noteq> k \<Longrightarrow> find h (remove k t) = find h t"
  by (simp add: find_remove)

end

section \<open>The operation table keeps it\<close>

definition entries_ok :: "'op entry list \<Rightarrow> bool" where
  "entries_ok es \<longleftrightarrow> distinct (filter (\<lambda>h. h \<noteq> 0) (map e_handle es)) \<and> (\<forall>e \<in> set es. e_operation e = None \<longleftrightarrow> e_handle e = 0)"

definition table_ok :: "'op op_table \<Rightarrow> bool" where
  "table_ok t \<longleftrightarrow> (case table t of None \<Rightarrow> True | Some es \<Rightarrow> length es = table_size t \<and> entries_ok es)"

definition Table_insert :: "u64 \<Rightarrow> 'op operation \<Rightarrow> 'op op_table \<Rightarrow> 'op op_table option" where
  "Table_insert h op t =
     map_option (\<lambda>es. t\<lparr>table := Some es\<rparr>)
       (add_entry h op (case table t of None \<Rightarrow> replicate (table_size t) empty_entry | Some es \<Rightarrow> es))"

lemma entries_ok_Cons:
  "entries_ok (e # es) \<longleftrightarrow> (e_operation e = None \<longleftrightarrow> e_handle e = 0) \<and> (e_handle e \<noteq> 0 \<longrightarrow> e_handle e \<notin> e_handle ` set es) \<and> entries_ok es"
  by (auto simp: entries_ok_def)

lemma find_entry_absent: "h \<notin> e_handle ` set es \<Longrightarrow> find_entry h es = None"
  by (induction es) auto

lemma find_entry_None: "entries_ok es \<Longrightarrow> h \<noteq> 0 \<Longrightarrow> find_entry h es = None \<longleftrightarrow> h \<notin> e_handle ` set es"
  by (induction es) (auto simp: entries_ok_Cons)

lemma delete_entry_Cons [simp]:
  "snd (delete_entry h (e # es)) = (if e_handle e = h then empty_entry # es else e # snd (delete_entry h es))"
  by (simp split: prod.splits)

lemma delete_entry_handles: "h \<in> e_handle ` set (snd (delete_entry k es)) \<Longrightarrow> h = 0 \<or> h \<in> e_handle ` set es"
  by (induction es) (auto simp del: delete_entry.simps(2) simp: empty_entry_def split: if_splits)

lemma delete_entry_ok:
  "entries_ok es \<Longrightarrow> entries_ok (snd (delete_entry k es)) \<and> length (snd (delete_entry k es)) = length es"
proof (induction es)
  case (Cons e es)
  then show ?case
    using delete_entry_handles [of "e_handle e" k es]
    by (simp del: delete_entry.simps(2) add: entries_ok_Cons) (simp add: empty_entry_def, blast)
qed simp

lemma find_delete_entry:
  "entries_ok es \<Longrightarrow> k \<noteq> 0 \<Longrightarrow> h \<noteq> 0 \<Longrightarrow> find_entry h (snd (delete_entry k es)) = (if h = k then None else find_entry h es)"
  by (induction es) (auto simp del: delete_entry.simps(2) simp: entries_ok_Cons empty_entry_def find_entry_absent)

lemma Table_Delete_snd: "snd (Table_Delete h t) = t\<lparr>table := map_option (\<lambda>es. snd (delete_entry h es)) (table t)\<rparr>"
  by (cases t) (auto simp: Table_Delete_def split: option.splits prod.splits)

lemma add_entry_handles: "add_entry h op es = Some es' \<Longrightarrow> k \<in> e_handle ` set es' \<Longrightarrow> k = h \<or> k \<in> e_handle ` set es"
  by (induction es arbitrary: es') (auto split: if_splits)

lemma add_entry_ok:
  "add_entry h op es = Some es' \<Longrightarrow> entries_ok es \<Longrightarrow> h \<noteq> 0 \<Longrightarrow> h \<notin> e_handle ` set es \<Longrightarrow> entries_ok es' \<and> length es' = length es"
proof (induction es arbitrary: es')
  case (Cons e es)
  show ?case
  proof (cases "e_operation e = None")
    case True
    then show ?thesis using Cons.prems by (auto simp: entries_ok_Cons)
  next
    case False
    then obtain es1 where 1: "add_entry h op es = Some es1" "es' = e # es1" using Cons.prems(1) by auto
    have "entries_ok es1 \<and> length es1 = length es" using Cons.IH [OF 1(1)] Cons.prems(2-) by (simp add: entries_ok_Cons)
    moreover have "e_handle e \<notin> e_handle ` set es1" if "e_handle e \<noteq> 0"
      using add_entry_handles [OF 1(1)] Cons.prems(2,4) that unfolding entries_ok_Cons by (metis imageI list.set_intros(1))
    ultimately show ?thesis using Cons.prems(2) 1(2) by (simp add: entries_ok_Cons)
  qed
qed simp

lemma find_add_entry:
  "add_entry h op es = Some es' \<Longrightarrow> entries_ok es \<Longrightarrow> h \<noteq> 0 \<Longrightarrow> h \<notin> e_handle ` set es \<Longrightarrow> k \<noteq> 0 \<Longrightarrow>
   find_entry k es' = (if k = h then Some op else find_entry k es)"
proof (induction es arbitrary: es')
  case (Cons e es)
  show ?case
  proof (cases "e_operation e = None")
    case True
    then have "es' = \<lparr>e_handle = h, e_operation = Some op\<rparr> # es" using Cons.prems(1) by simp
    then show ?thesis using Cons.prems True by (simp add: entries_ok_Cons)
  next
    case False
    then obtain es1 where 1: "add_entry h op es = Some es1" "es' = e # es1" using Cons.prems(1) by auto
    have "find_entry k es1 = (if k = h then Some op else find_entry k es)"
      using Cons.IH [OF 1(1)] Cons.prems(2-) by (simp add: entries_ok_Cons)
    then show ?thesis using 1(2) Cons.prems(4) by auto
  qed
qed simp

lemma entries_ok_fresh: "entries_ok (replicate n empty_entry)" "find_entry h (replicate n empty_entry) = None"
  by (induction n) (auto simp: entries_ok_def empty_entry_def)

definition modify_entry :: "u64 \<Rightarrow> ('op operation \<Rightarrow> 'op operation) \<Rightarrow> 'op entry \<Rightarrow> 'op entry" where
  "modify_entry h f e = (if e_handle e = h then e\<lparr>e_operation := map_option f (e_operation e)\<rparr> else e)"

lemma modify_entry_simps [simp]:
  "e_handle (modify_entry h f e) = e_handle e"
  "e_operation (modify_entry h f e) = (if e_handle e = h then map_option f (e_operation e) else e_operation e)"
  by (simp_all add: modify_entry_def)

lemma find_modify_entry:
  "find_entry h (map (modify_entry k f) es) = (if h = k then map_option f (find_entry h es) else find_entry h es)"
  by (induction es) auto

lemma modify_entry_ok: "entries_ok es \<Longrightarrow> entries_ok (map (modify_entry k f) es)"
  by (auto simp: entries_ok_def comp_def)

lemma change_entry_modify:
  "entries_ok es \<Longrightarrow> h \<noteq> 0 \<Longrightarrow> change_entry h impl es =
   map (modify_entry h (\<lambda>op. op\<lparr>op_impl := impl\<rparr>)) es"
proof (induction es)
  case (Cons e es)
  then have "e_handle e = h \<Longrightarrow> map (modify_entry h (\<lambda>op. op\<lparr>op_impl := impl\<rparr>)) es = es"
    by (intro map_idI) (auto simp: entries_ok_Cons modify_entry_def image_iff)
  then show ?case
    using Cons by (cases "e_handle e = h") (simp_all add: entries_ok_Cons modify_entry_def [of h _ e])
qed simp

definition Table_modify :: "u64 \<Rightarrow> ('op operation \<Rightarrow> 'op operation) \<Rightarrow> 'op op_table \<Rightarrow> 'op op_table" where
  "Table_modify h f t = t\<lparr>table := map_option (map (modify_entry h f)) (table t)\<rparr>"

interpretation op_table: handle_table table_ok Table_Find "\<lambda>h t. snd (Table_Delete h t)" Table_modify Table_insert "\<lambda>h. h \<noteq> 0"
proof unfold_locales
  fix t t' :: "'op op_table" and h k f x
  show "table_ok t \<Longrightarrow> table_ok (snd (Table_Delete h t))"
    using delete_entry_ok by (auto simp: table_ok_def Table_Delete_snd split: option.splits)
  show "table_ok t \<Longrightarrow> table_ok (Table_modify h f t)"
    by (auto simp: table_ok_def Table_modify_def modify_entry_ok split: option.splits)
  show "table_ok t \<Longrightarrow> k \<noteq> 0 \<Longrightarrow> Table_Find h (snd (Table_Delete k t)) = (if h = k then None else Table_Find h t)"
    using find_delete_entry [of _ k h]
    by (auto simp: table_ok_def Table_Delete_snd Table_Find_def split: option.splits)
  show "table_ok t \<Longrightarrow> Table_Find h (Table_modify k f t) = (if h = k then map_option f (Table_Find h t) else Table_Find h t)"
    using find_modify_entry [of h k f]
    by (auto simp: table_ok_def Table_modify_def Table_Find_def split: option.splits)
  show "Table_Find h t = Some x \<Longrightarrow> h \<noteq> 0" by (auto simp: Table_Find_def)
  assume a: "table_ok t" "k \<noteq> 0" "Table_Find k t = None" "Table_insert k x t = Some t'"
  define es where "es = (case table t of None \<Rightarrow> replicate (table_size t) empty_entry | Some es \<Rightarrow> es)"
  obtain es' where es': "add_entry k x es = Some es'" "t' = t\<lparr>table := Some es'\<rparr>"
    using a(4) by (auto simp: Table_insert_def es_def)
  have ok: "entries_ok es" "length es = table_size t" "Table_Find j t = (if j = 0 then None else find_entry j es)" for j
    using a(1) by (auto simp: table_ok_def es_def entries_ok_fresh Table_Find_def split: option.splits)
  have "k \<notin> e_handle ` set es" using a(2,3) ok by (simp add: find_entry_None)
  note new = add_entry_ok [OF es'(1) ok(1) a(2) this] find_add_entry [OF es'(1) ok(1) a(2) this]
  show "table_ok t'" using new(1) ok(2) es'(2) by (simp add: table_ok_def)
  show "Table_Find h t' = (if h = k then Some x else Table_Find h t)"
    using new(2) [of h] a(2) unfolding ok(3) by (cases "h = 0") (simp_all add: es'(2) Table_Find_def)
qed

lemma Table_change_modify: "table_ok t \<Longrightarrow> h \<noteq> 0 \<Longrightarrow> Table_change h impl t = Table_modify h (\<lambda>op. op\<lparr>op_impl := impl\<rparr>) t"
  by (cases "table t") (simp_all add: Table_change_def Table_modify_def table_ok_def change_entry_modify)

text \<open>\<open>Add\<close> inserts, or leaves what the table holds as it is.\<close>

lemma Table_Find_fresh: "table t = None \<Longrightarrow> Table_Find h (t\<lparr>table := Some (replicate n empty_entry)\<rparr>) = None"
  by (simp add: Table_Find_def entries_ok_fresh)

lemma Table_Add_cases:
  assumes "Table_Add create al op ctx h0 t = (e, h, ctx', t')" "table_ok t"
  obtains (added) "e = KM_ERROR_OK" "h \<noteq> 0" "Table_insert h op t = Some t'"
    | (failed) "e \<noteq> KM_ERROR_OK" "table_ok t'" "\<And>k. Table_Find k t' = Table_Find k t"
proof -
  define es where "es = (case table t of None \<Rightarrow> replicate (table_size t) empty_entry | Some es \<Rightarrow> es)"
  have "table_ok (t\<lparr>table := Some es\<rparr>)" "Table_Find k (t\<lparr>table := Some es\<rparr>) = Table_Find k t" for k
    using assms(2) by (auto simp: es_def table_ok_def Table_Find_def entries_ok_fresh split: option.splits)
  note same = this
  show thesis
    using assms(1) same added failed assms(2) unfolding Table_Add_def Let_def es_def [symmetric]
    by (auto simp: Table_insert_def es_def [symmetric] split: if_splits prod.splits option.splits)
qed

section \<open>Commands and runs\<close>

datatype op_command =
  C_Begin begin_request begin_response
| C_Update update_request update_response
| C_Finish finish_request finish_response
| C_Abort u64

text \<open>The error of the response and the handle the command is about.\<close>

fun run_command ::
  "('ctx, 'fac, 'key, 'opf, 'op) km_context \<Rightarrow> km_env \<Rightarrow> allocator \<Rightarrow> op_command \<Rightarrow> ('ctx, 'op) keymaster \<Rightarrow>
   (keymaster_error_t \<times> u64 \<times> ('ctx, 'op) keymaster) option" where
  "run_command K v al (C_Begin q r) m = map_option (\<lambda>(r, m). (br_error r, br_op_handle r, m)) (BeginOperation K v al q r m)"
| "run_command K v al (C_Update q r) m = map_option (\<lambda>(r, m). (ur_error r, uq_op_handle q, m)) (UpdateOperation K v al q r m)"
| "run_command K v al (C_Finish q r) m = map_option (\<lambda>(r, m). (fr_error r, fq_op_handle q, m)) (FinishOperation K v al q r m)"
| "run_command K v al (C_Abort h) m = map_option (\<lambda>(e, m). (e, h, m)) (AbortOperation K h m)"

fun is_begin :: "op_command \<Rightarrow> bool" where
  "is_begin (C_Begin q r) = True"
| "is_begin _ = False"

definition in_use :: "u64 \<Rightarrow> ('ctx, 'op) keymaster \<Rightarrow> bool" where
  "in_use h m \<longleftrightarrow> (\<exists>t. ak_table m = Some t \<and> Table_Find h t \<noteq> None)"

text \<open>
  A run from \<open>m0\<close>: the commands with their error, their handle and the state before them. The handles
  that are given out are random numbers of 64 bits; the run is one where none of them is in use already.
\<close>

inductive op_run ::
  "('ctx, 'fac, 'key, 'opf, 'op) km_context \<Rightarrow> km_env \<Rightarrow> allocator \<Rightarrow> ('ctx, 'op) keymaster \<Rightarrow>
   (op_command \<times> keymaster_error_t \<times> u64 \<times> ('ctx, 'op) keymaster) list \<Rightarrow> ('ctx, 'op) keymaster \<Rightarrow> bool"
  for K v al m0 where
  start: "op_run K v al m0 [] m0"
| step: "op_run K v al m0 tr m \<Longrightarrow> run_command K v al c m = Some (e, h, m') \<Longrightarrow>
    (is_begin c \<Longrightarrow> e = KM_ERROR_OK \<Longrightarrow> \<not> in_use h m) \<Longrightarrow> op_run K v al m0 (tr @ [(c, e, h, m)]) m'"

inductive_cases op_run_snocE: "op_run K v al m0 (tr @ [x]) m"
inductive_simps op_run_Nil: "op_run K v al m0 [] m"

section \<open>What a command does to the operations\<close>

definition operations :: "('ctx, 'op) keymaster \<Rightarrow> u64 \<Rightarrow> 'op operation option" where
  "operations m = (\<lambda>h. Option.bind (ak_table m) (Table_Find h))"

definition dev_ok :: "('ctx, 'op) keymaster \<Rightarrow> bool" where
  "dev_ok m \<longleftrightarrow> (\<exists>t. ak_table m = Some t \<and> table_ok t)"

text \<open>The key of a begin command, and the operation that comes of it.\<close>

definition loads ::
  "('ctx, 'fac, 'key, 'opf, 'op) km_context \<Rightarrow> km_env \<Rightarrow> allocator \<Rightarrow> 'ctx \<Rightarrow> begin_request \<Rightarrow> 'fac \<Rightarrow> 'key \<Rightarrow> bool" where
  "loads K v al ctx q f key \<longleftrightarrow>
     (\<exists>hw sw. ak_LoadKey K v al ctx (bq_key_blob q) (bq_additional_params q) = Some (KM_ERROR_OK, hw, sw, Some (f, Some key)))"

definition begun_with ::
  "('ctx, 'fac, 'key, 'opf, 'op) km_context \<Rightarrow> km_env \<Rightarrow> allocator \<Rightarrow> begin_request \<Rightarrow> 'fac \<Rightarrow> 'key \<Rightarrow> 'op operation \<Rightarrow> bool" where
  "begun_with K v al q f key op \<longleftrightarrow>
     (\<exists>factory e op0 s0 b. fac_GetOperationFactory K f (bq_purpose q) = Some factory \<and>
        opf_CreateOperation K factory key (bq_additional_params q) = (e, Some op0) \<and> op_purpose op = op_purpose op0 \<and>
        Set_Reinitialize (env_defs v) al (set_values (key_authorizations K key)) s0 = Some (b, op_key_auths op))"

lemma start_operation_cases:
  assumes "start_operation K v al q auths op0 r m = Some (r', m')" "ak_table m = Some t" "table_ok t"
  obtains (added) op t' b where "br_error r' = KM_ERROR_OK" "br_op_handle r' \<noteq> 0" "ak_table m' = Some t'"
      "Table_insert (br_op_handle r') op t = Some t'" "op_purpose op = op_purpose op0"
      "Set_Reinitialize (env_defs v) al (set_values auths) (op_key_auths op0) = Some (b, op_key_auths op)"
    | (failed) t' where "br_error r' \<noteq> KM_ERROR_OK" "ak_table m' = Some t'" "table_ok t'" "\<And>k. Table_Find k t' = Table_Find k t"
proof -
  obtain e out impl where b: "op_Begin K (op_impl op0) (bq_additional_params q) (Set_Clear (br_output_params r)) = (e, out, impl)"
    by (metis prod_cases3)
  show thesis
  proof (cases "e = KM_ERROR_OK")
    case False
    then show thesis using assms b failed by (auto simp: start_operation_def)
  next
    case True
    obtain ok s e' h ctx t' where s: "Set_Reinitialize (env_defs v) al (set_values auths) (op_key_auths op0) = Some (ok, s)"
      and a: "Table_Add (op_CreateOperationHandle K) al (op0\<lparr>op_impl := impl, op_key_auths := s\<rparr>) (ak_ctx m) (br_op_handle r) t = (e', h, ctx, t')"
      and r: "br_error r' = e'" "br_op_handle r' = h" "ak_table m' = Some t'"
      using assms(1,2) b True
      by (auto simp: start_operation_def SetAuthorizations_def split: Option.bind_splits prod.splits)
    from a assms(3) show thesis
    proof (cases rule: Table_Add_cases)
      case 1: added
      show thesis
        by (rule added [where op = "op0\<lparr>op_impl := impl, op_key_auths := s\<rparr>"]) (use 1 r s in auto)
    next
      case 2: failed
      then show thesis using failed r by metis
    qed
  qed
qed

text \<open>What a begin command leaves behind when no operation is added.\<close>

definition begin_kept :: "begin_response \<Rightarrow> 'op op_table \<Rightarrow> ('ctx, 'op) keymaster \<Rightarrow> bool" where
  "begin_kept r t m \<longleftrightarrow> (br_error r \<noteq> KM_ERROR_OK \<or> br_op_handle r = 0) \<and>
     (\<exists>t'. ak_table m = Some t' \<and> table_ok t' \<and> (\<forall>k. Table_Find k t' = Table_Find k t))"

definition begin_added ::
  "('ctx, 'fac, 'key, 'opf, 'op) km_context \<Rightarrow> km_env \<Rightarrow> allocator \<Rightarrow> begin_request \<Rightarrow> 'fac \<Rightarrow> 'key \<Rightarrow> begin_response \<Rightarrow>
   'op op_table \<Rightarrow> ('ctx, 'op) keymaster \<Rightarrow> bool" where
  "begin_added K v al q f key r t m \<longleftrightarrow> br_error r = KM_ERROR_OK \<and> br_op_handle r \<noteq> 0 \<and>
     (\<exists>op t'. ak_table m = Some t' \<and> Table_insert (br_op_handle r) op t = Some t' \<and> begun_with K v al q f key op)"

lemma begin_with_key_cases:
  assumes "begin_with_key K v al q r f key m = Some (r', m')" "ak_table m = Some t" "table_ok t" "br_op_handle r = 0"
  shows "begin_added K v al q f key r' t m' \<or> begin_kept r' t m'"
proof -
  have early: "begin_kept (r\<lparr>br_error := e\<rparr>) t (m\<lparr>ak_policy := p\<rparr>)" for e p
    using assms(2-4) by (auto simp: begin_kept_def)
  have early': "begin_kept (r\<lparr>br_error := e\<rparr>) t m" for e
    using assms(2-4) by (auto simp: begin_kept_def)
  obtain a where a: "GetTagValueEnum (key_authorizations K key) (tag_of v KM_TAG_ALGORITHM) = Some a"
    using assms(1) by (auto simp: begin_with_key_def bind_eq_Some_conv)
  consider (no) e where "r' = r\<lparr>br_error := e\<rparr>" "m' = m"
    | (yes) factory e op0 where "a \<noteq> None" "fac_GetOperationFactory K f (bq_purpose q) = Some factory"
        "opf_CreateOperation K factory key (bq_additional_params q) = (e, Some op0)"
    using assms(1) a by (auto simp: begin_with_key_def split: if_splits option.splits prod.splits)
  then show ?thesis
  proof cases
    case no
    then show ?thesis using early' by simp
  next
    case yes
    obtain e1 kid p where au: "authorize_begin K v q (key_authorizations K key) (ak_policy m) = Some (e1, kid, p)"
      using assms(1) a yes by (auto simp: begin_with_key_def bind_eq_Some_conv)
    show ?thesis
    proof (cases "e1 = KM_ERROR_OK")
      case False
      then show ?thesis using assms(1) a yes au early by (auto simp: begin_with_key_def)
    next
      case True
      let ?op = "case kid of None \<Rightarrow> op0 | Some k \<Rightarrow> op0\<lparr>op_key_id := k\<rparr>"
      have s: "start_operation K v al q (key_authorizations K key) ?op r (m\<lparr>ak_policy := p\<rparr>) = Some (r', m')"
        using assms(1) a yes au True by (simp add: begin_with_key_def)
      have t: "ak_table (m\<lparr>ak_policy := p\<rparr>) = Some t" using assms(2) by simp
      from s t assms(3) show ?thesis
      proof (cases rule: start_operation_cases)
        case (added op t' b)
        have "begun_with K v al q f key op"
          using added yes unfolding begun_with_def by (auto split: option.splits)
        then show ?thesis using added by (auto simp: begin_added_def)
      next
        case (failed t')
        then show ?thesis by (simp add: begin_kept_def)
      qed
    qed
  qed
qed

lemma BeginOperation_cases:
  assumes "BeginOperation K v al q r m = Some (r', m')"
  obtains (not_loaded) e where "r' = r\<lparr>br_op_handle := 0, br_error := e\<rparr>" "m' = m" "e \<noteq> KM_ERROR_OK"
    | (loaded) f key where "loads K v al (ak_ctx m) q f key"
        "begin_with_key K v al q (r\<lparr>br_op_handle := 0\<rparr>) f key m = Some (r', m')"
proof -
  obtain e hw sw l where l: "ak_LoadKey K v al (ak_ctx m) (bq_key_blob q) (bq_additional_params q) = Some (e, hw, sw, l)"
    using assms
    by (cases "ak_LoadKey K v al (ak_ctx m) (bq_key_blob q) (bq_additional_params q)") (auto simp: BeginOperation_def)
  show thesis
  proof (cases "e = KM_ERROR_OK")
    case False
    then show thesis using assms l not_loaded by (auto simp: BeginOperation_def)
  next
    case True
    then obtain f key where k: "l = Some (f, Some key)"
      and b: "begin_with_key K v al q (r\<lparr>br_op_handle := 0\<rparr>) f key m = Some (r', m')"
      using assms l by (cases l; cases "snd (the l)") (auto simp: BeginOperation_def split: prod.splits)
    have "loads K v al (ak_ctx m) q f key" using l k True by (simp add: loads_def)
    then show thesis using loaded b by blast
  qed
qed

lemma begin_cases:
  assumes "BeginOperation K v al q r m = Some (r', m')" "ak_table m = Some t" "table_ok t"
  shows "(\<exists>f key. loads K v al (ak_ctx m) q f key \<and> begin_added K v al q f key r' t m') \<or> begin_kept r' t m'"
  using assms(1)
proof (cases rule: BeginOperation_cases)
  case (not_loaded e)
  then show ?thesis using assms(2,3) by (simp add: begin_kept_def)
next
  case (loaded f key)
  then show ?thesis using begin_with_key_cases [OF loaded(2) assms(2,3)] by auto
qed

section \<open>The operations as a map\<close>

text \<open>What the commands promise: handles name operations until a command ends them.\<close>

inductive handle_spec ::
  "op_command \<Rightarrow> keymaster_error_t \<Rightarrow> u64 \<Rightarrow> (u64 \<Rightarrow> 'op operation option) \<Rightarrow> (u64 \<Rightarrow> 'op operation option) \<Rightarrow> bool" where
  begin_ok: "h \<noteq> 0 \<Longrightarrow> M h = None \<Longrightarrow> handle_spec (C_Begin q r) KM_ERROR_OK h M (M(h := Some op))"
| begin_none: "e \<noteq> KM_ERROR_OK \<or> h = 0 \<Longrightarrow> handle_spec (C_Begin q r) e h M M"
| unknown: "\<not> is_begin c \<Longrightarrow> M h = None \<Longrightarrow> handle_spec c KM_ERROR_INVALID_OPERATION_HANDLE h M M"
| update_ok: "M h = Some op \<Longrightarrow> handle_spec (C_Update q r) KM_ERROR_OK h M (M(h := Some (op\<lparr>op_impl := impl\<rparr>)))"
| update_error: "M h \<noteq> None \<Longrightarrow> e \<noteq> KM_ERROR_OK \<Longrightarrow> handle_spec (C_Update q r) e h M (M(h := None))"
| finish: "M h \<noteq> None \<Longrightarrow> handle_spec (C_Finish q r) e h M (M(h := None))"
| abort: "M h \<noteq> None \<Longrightarrow> handle_spec (C_Abort h) e h M (M(h := None))"

inductive_simps handle_spec_simps:
  "handle_spec (C_Begin q r) e h M M'" "handle_spec (C_Update q r) e h M M'" "handle_spec (C_Finish q r) e h M M'"
  "handle_spec (C_Abort k) e h M M'"

lemma operations_Some: "ak_table m = Some t \<Longrightarrow> operations m = (\<lambda>h. Table_Find h t)"
  by (simp add: operations_def)

lemma operations_delete:
  "table_ok t \<Longrightarrow> k \<noteq> 0 \<Longrightarrow> (\<lambda>h. Table_Find h (snd (Table_Delete k t))) = (\<lambda>h. Table_Find h t)(k := None)"
  by (simp add: fun_eq_iff op_table.find_remove)

lemma operations_change:
  "table_ok t \<Longrightarrow> Table_Find k t = Some op \<Longrightarrow>
   (\<lambda>h. Table_Find h (Table_change k impl t)) = (\<lambda>h. Table_Find h t)(k := Some (op\<lparr>op_impl := impl\<rparr>))"
  using op_table.find_usable [of k t op] by (simp add: fun_eq_iff Table_change_modify op_table.find_modify)

lemma table_change_ok: "table_ok t \<Longrightarrow> k \<noteq> 0 \<Longrightarrow> table_ok (Table_change k impl t)"
  by (simp add: Table_change_modify op_table.inv_modify)

lemma begin_step:
  assumes "BeginOperation K v al q r m = Some (r', m')" "ak_table m = Some t" "table_ok t"
    "br_error r' = KM_ERROR_OK \<Longrightarrow> \<not> in_use (br_op_handle r') m"
  shows "dev_ok m' \<and> (operations m' = operations m \<and> (br_error r' \<noteq> KM_ERROR_OK \<or> br_op_handle r' = 0) \<or>
    br_error r' = KM_ERROR_OK \<and> br_op_handle r' \<noteq> 0 \<and> operations m (br_op_handle r') = None \<and>
    (\<exists>op f key. operations m' = (operations m)(br_op_handle r' := Some op) \<and> loads K v al (ak_ctx m) q f key \<and>
      begun_with K v al q f key op))"
  using begin_cases [OF assms(1-3)]
proof (elim disjE exE conjE)
  assume "begin_kept r' t m'"
  then show ?thesis using assms(2) by (auto simp: begin_kept_def dev_ok_def operations_def)
next
  fix f key
  assume l: "loads K v al (ak_ctx m) q f key" and a: "begin_added K v al q f key r' t m'"
  then obtain op t' where a: "br_error r' = KM_ERROR_OK" "br_op_handle r' \<noteq> 0" "ak_table m' = Some t'"
    "Table_insert (br_op_handle r') op t = Some t'" "begun_with K v al q f key op" by (auto simp: begin_added_def)
  have n: "Table_Find (br_op_handle r') t = None" using assms(2,4) a(1) by (auto simp: in_use_def)
  have "operations m' = (operations m)(br_op_handle r' := Some op)"
    using op_table.find_insert [OF assms(3) a(2) n a(4)] a(3) assms(2) by (simp add: operations_def fun_eq_iff)
  moreover have "table_ok t'" by (rule op_table.inv_insert [OF assms(3) a(2) n a(4)])
  ultimately show ?thesis using a l n assms(2) by (auto simp: dev_ok_def operations_def)
qed

lemma update_step:
  assumes "UpdateOperation K v al q r m = Some (r', m')" "ak_table m = Some t" "table_ok t"
  shows "dev_ok m' \<and> handle_spec (C_Update q r) (ur_error r') (uq_op_handle q) (operations m) (operations m')"
proof (cases "Table_Find (uq_op_handle q) t")
  case None
  then show ?thesis using assms by (auto simp: handle_spec_simps UpdateOperation_def dev_ok_def operations_def)
next
  case (Some op)
  have z: "uq_op_handle q \<noteq> 0" using op_table.find_usable [OF Some] .
  obtain e p where a: "authorize_continue v al op (uq_additional_params q) (uq_op_handle q) (ak_policy m) = Some (e, p)"
    using assms(1,2) Some by (auto simp: UpdateOperation_def bind_eq_Some_conv)
  note del = operations_delete [OF assms(3) z] op_table.inv_remove [OF assms(3)]
  note ch = operations_change [OF assms(3) Some] table_change_ok [OF assms(3) z]
  show ?thesis
    using assms(1,2) Some a del ch operations_delete [OF ch(2) z] op_table.inv_remove [OF ch(2)]
    by (auto simp: handle_spec_simps UpdateOperation_def Let_def dev_ok_def operations_Some split: if_splits prod.splits)
qed

lemma finish_step:
  assumes "FinishOperation K v al q r m = Some (r', m')" "ak_table m = Some t" "table_ok t"
  shows "dev_ok m' \<and> handle_spec (C_Finish q r) (fr_error r') (fq_op_handle q) (operations m) (operations m')"
proof (cases "Table_Find (fq_op_handle q) t")
  case None
  then show ?thesis using assms by (auto simp: handle_spec_simps FinishOperation_def dev_ok_def operations_def)
next
  case (Some op)
  have z: "fq_op_handle q \<noteq> 0" using op_table.find_usable [OF Some] .
  obtain e p where a: "authorize_continue v al op (fq_additional_params q) (fq_op_handle q) (ak_policy m) = Some (e, p)"
    using assms(1,2) Some by (auto simp: FinishOperation_def bind_eq_Some_conv)
  show ?thesis
    using assms(1,2) Some a operations_delete [OF assms(3) z] op_table.inv_remove [OF assms(3)]
    by (auto simp: handle_spec_simps FinishOperation_def Let_def dev_ok_def operations_Some split: if_splits prod.splits)
qed

lemma abort_step:
  assumes "AbortOperation K h m = Some (e, m')" "ak_table m = Some t" "table_ok t"
  shows "dev_ok m' \<and> handle_spec (C_Abort h) e h (operations m) (operations m')"
proof (cases "Table_Find h t")
  case None
  then show ?thesis using assms by (auto simp: handle_spec_simps AbortOperation_def dev_ok_def operations_def)
next
  case (Some op)
  have z: "h \<noteq> 0" using op_table.find_usable [OF Some] .
  show ?thesis
    using assms(1,2) Some operations_delete [OF assms(3) z] op_table.inv_remove [OF assms(3)]
    by (auto simp: handle_spec_simps AbortOperation_def dev_ok_def operations_Some split: prod.splits)
qed

lemma command_step:
  assumes "run_command K v al c m = Some (e, h, m')" "dev_ok m" "is_begin c \<Longrightarrow> e = KM_ERROR_OK \<Longrightarrow> \<not> in_use h m"
  shows "dev_ok m' \<and> handle_spec c e h (operations m) (operations m')"
proof -
  obtain t where t: "ak_table m = Some t" "table_ok t" using assms(2) by (auto simp: dev_ok_def)
  show ?thesis
  proof (cases c)
    case (C_Begin q r)
    then obtain r' where r: "BeginOperation K v al q r m = Some (r', m')" "br_error r' = e" "br_op_handle r' = h"
      using assms(1) by auto
    have "\<not> in_use (br_op_handle r') m" if "br_error r' = KM_ERROR_OK" using assms(3) r that C_Begin by simp
    from begin_step [OF r(1) t this] show ?thesis unfolding C_Begin r(2,3) by (auto intro: handle_spec.intros)
  next
    case (C_Update q r)
    then obtain r' where "UpdateOperation K v al q r m = Some (r', m')" "ur_error r' = e" "uq_op_handle q = h"
      using assms(1) by auto
    then show ?thesis using update_step [OF _ t] unfolding C_Update by metis
  next
    case (C_Finish q r)
    then obtain r' where "FinishOperation K v al q r m = Some (r', m')" "fr_error r' = e" "fq_op_handle q = h"
      using assms(1) by auto
    then show ?thesis using finish_step [OF _ t] unfolding C_Finish by metis
  next
    case (C_Abort k)
    then have "AbortOperation K k m = Some (e, m')" "k = h" using assms(1) by auto
    then show ?thesis using abort_step [OF _ t] unfolding C_Abort by metis
  qed
qed

section \<open>Runs\<close>

lemma op_run_snoc:
  "op_run K v al m0 (tr @ [(c, e, h, m)]) m' \<longleftrightarrow>
   op_run K v al m0 tr m \<and> run_command K v al c m = Some (e, h, m') \<and> (is_begin c \<longrightarrow> e = KM_ERROR_OK \<longrightarrow> \<not> in_use h m)"
  by (auto elim: op_run_snocE intro: op_run.step)

lemma op_run_append: "op_run K v al m0 (tr1 @ tr2) m \<longleftrightarrow> (\<exists>m1. op_run K v al m0 tr1 m1 \<and> op_run K v al m1 tr2 m)"
proof (induction tr2 arbitrary: m rule: rev_induct)
  case Nil
  then show ?case by (auto intro: op_run.start elim: op_run.cases)
next
  case (snoc x tr2)
  obtain c e h m2 where x: "x = (c, e, h, m2)" by (cases x)
  show ?case
    unfolding x append_assoc [symmetric] op_run_snoc snoc by blast
qed

lemma op_run_ok: "op_run K v al m0 tr m \<Longrightarrow> dev_ok m0 \<Longrightarrow> dev_ok m"
proof (induction rule: op_run.induct)
  case (step tr m c e h m')
  show ?case using command_step [OF step.hyps(2) step.IH [OF step.prems] step.hyps(3)] by (rule conjunct1)
qed simp

lemma op_run_middle:
  assumes "op_run K v al m0 (tr1 @ (c, e, h, m1) # tr2) m"
  obtains m2 where "op_run K v al m0 tr1 m1" "run_command K v al c m1 = Some (e, h, m2)"
    "is_begin c \<longrightarrow> e = KM_ERROR_OK \<longrightarrow> \<not> in_use h m1" "op_run K v al m2 tr2 m"
proof -
  obtain m2 where "op_run K v al m0 (tr1 @ [(c, e, h, m1)]) m2" "op_run K v al m2 tr2 m"
    using assms op_run_append [of K v al m0 "tr1 @ [(c, e, h, m1)]" tr2 m] by auto
  then show thesis using that unfolding op_run_snoc by blast
qed

text \<open>A handle that names no operation stays so until an operation is begun with it.\<close>

definition begins :: "u64 \<Rightarrow> op_command \<times> keymaster_error_t \<times> u64 \<times> ('ctx, 'op) keymaster \<Rightarrow> bool" where
  "begins h x \<longleftrightarrow> (case x of (c, e, h', _) \<Rightarrow> is_begin c \<and> e = KM_ERROR_OK \<and> h' = h)"

lemma handle_spec_gone:
  "handle_spec c e k M M' \<Longrightarrow> M h = None \<Longrightarrow> \<not> (is_begin c \<and> e = KM_ERROR_OK \<and> k = h) \<Longrightarrow> M' h = None"
  by (induction rule: handle_spec.induct) auto

lemma run_gone:
  "op_run K v al m0 tr m \<Longrightarrow> dev_ok m0 \<Longrightarrow> operations m0 h = None \<Longrightarrow> \<forall>x \<in> set tr. \<not> begins h x \<Longrightarrow> operations m h = None"
proof (induction rule: op_run.induct)
  case (step tr m c e k m')
  have hs: "handle_spec c e k (operations m) (operations m')"
    using command_step [OF step.hyps(2) op_run_ok [OF step.hyps(1) step.prems(1)] step.hyps(3)] by (rule conjunct2)
  have "\<not> (is_begin c \<and> e = KM_ERROR_OK \<and> k = h)" using step.prems(3) by (simp add: begins_def)
  moreover have "operations m h = None" using step.IH [OF step.prems(1,2)] step.prems(3) by simp
  ultimately show ?case using handle_spec_gone [OF hs] by blast
qed simp

text \<open>Commands that end an operation.\<close>

fun ends :: "op_command \<Rightarrow> keymaster_error_t \<Rightarrow> bool" where
  "ends (C_Begin q r) e = False"
| "ends (C_Update q r) e = (e \<noteq> KM_ERROR_OK)"
| "ends (C_Finish q r) e = True"
| "ends (C_Abort h) e = True"

lemma handle_spec_ends: "handle_spec c e h M M' \<Longrightarrow> ends c e \<Longrightarrow> M' h = None"
  by (induction rule: handle_spec.induct) auto

lemma handle_spec_unknown: "handle_spec c e h M M' \<Longrightarrow> M h = None \<Longrightarrow> \<not> is_begin c \<Longrightarrow> e = KM_ERROR_INVALID_OPERATION_HANDLE"
  by (induction rule: handle_spec.induct) auto

text \<open>
  Every operation in the table was begun, by the last begin that returned its handle: since then no begin
  returned the handle again and no command ended the operation.
\<close>

definition ended :: "u64 \<Rightarrow> op_command \<times> keymaster_error_t \<times> u64 \<times> ('ctx, 'op) keymaster \<Rightarrow> bool" where
  "ended h x \<longleftrightarrow> (case x of (c, e, h', _) \<Rightarrow> h' = h \<and> ends c e)"

definition begun_in ::
  "('ctx, 'fac, 'key, 'opf, 'op) km_context \<Rightarrow> km_env \<Rightarrow> allocator \<Rightarrow>
   (op_command \<times> keymaster_error_t \<times> u64 \<times> ('ctx, 'op) keymaster) list \<Rightarrow> u64 \<Rightarrow> begin_request \<Rightarrow> 'fac \<Rightarrow> 'key \<Rightarrow> bool" where
  "begun_in K v al tr h q f key \<longleftrightarrow> (\<exists>pre r m post. tr = pre @ (C_Begin q r, KM_ERROR_OK, h, m) # post \<and>
     loads K v al (ak_ctx m) q f key \<and> (\<forall>x \<in> set post. \<not> begins h x \<and> \<not> ended h x))"

definition known ::
  "('ctx, 'fac, 'key, 'opf, 'op) km_context \<Rightarrow> km_env \<Rightarrow> allocator \<Rightarrow>
   (op_command \<times> keymaster_error_t \<times> u64 \<times> ('ctx, 'op) keymaster) list \<Rightarrow> (u64 \<Rightarrow> 'op operation option) \<Rightarrow> bool" where
  "known K v al tr M \<longleftrightarrow> (\<forall>h op. M h = Some op \<longrightarrow> (\<exists>q f key. begun_in K v al tr h q f key \<and> begun_with K v al q f key op))"

lemma begun_in_more:
  assumes "begun_in K v al tr h q f key" "\<not> begins h x" "\<not> ended h x"
  shows "begun_in K v al (tr @ [x]) h q f key"
proof -
  obtain pre r m post where b: "tr = pre @ (C_Begin q r, KM_ERROR_OK, h, m) # post" "loads K v al (ak_ctx m) q f key"
    "\<forall>x \<in> set post. \<not> begins h x \<and> \<not> ended h x" using assms(1) unfolding begun_in_def by blast
  show ?thesis unfolding begun_in_def
    by (rule exI [of _ pre], rule exI [of _ r], rule exI [of _ m], rule exI [of _ "post @ [x]"]) (use b assms(2,3) in simp)
qed

lemma begun_with_impl [simp]: "begun_with K v al q f key (op\<lparr>op_impl := impl\<rparr>) = begun_with K v al q f key op"
  by (simp add: begun_with_def)

text \<open>What stays in the table was begun before and has not been ended.\<close>

lemma known_step:
  assumes "known K v al tr M"
    "\<And>h op. M' h = Some op \<Longrightarrow> \<exists>op0 impl. M h = Some op0 \<and> op = op0\<lparr>op_impl := impl\<rparr> \<and> \<not> begins h x \<and> \<not> ended h x"
  shows "known K v al (tr @ [x]) M'"
  unfolding known_def
proof (intro allI impI)
  fix h op
  assume "M' h = Some op"
  then obtain op0 impl where o: "M h = Some op0" "op = op0\<lparr>op_impl := impl\<rparr>" "\<not> begins h x" "\<not> ended h x" using assms(2) by blast
  then obtain q f key where "begun_in K v al tr h q f key" "begun_with K v al q f key op0" using assms(1) unfolding known_def by blast
  then show "\<exists>q f key. begun_in K v al (tr @ [x]) h q f key \<and> begun_with K v al q f key op" using begun_in_more o by fastforce
qed

lemma same_impl [simp]: "\<exists>impl. op = op\<lparr>op_impl := impl\<rparr>" for op :: "'op operation"
  by (rule exI [of _ "op_impl op"]) simp

lemma handle_spec_kept:
  assumes "handle_spec c e k M M'" "\<not> is_begin c" "M' h = Some op"
  shows "\<exists>op0 impl. M h = Some op0 \<and> op = op0\<lparr>op_impl := impl\<rparr> \<and> \<not> begins h (c, e, k, m) \<and> \<not> ended h (c, e, k, m)"
  using assms
proof (induction rule: handle_spec.induct)
  case (unknown c M k)
  then have "h \<noteq> k" by auto
  then show ?case using unknown by (auto simp: begins_def ended_def)
next
  case (update_ok M k op' q r impl)
  then show ?case by (cases "h = k") (auto simp: begins_def ended_def)
next
  case (update_error M k e q r)
  then show ?case by (cases "h = k") (auto simp: begins_def ended_def)
next
  case (finish M k q r e)
  then show ?case by (cases "h = k") (auto simp: begins_def ended_def)
next
  case (abort M k e)
  then show ?case by (cases "h = k") (auto simp: begins_def ended_def)
qed simp_all

lemma known_begin:
  assumes "known K v al tr M" "M h = None" "loads K v al (ak_ctx m) q f key" "begun_with K v al q f key op"
  shows "known K v al (tr @ [(C_Begin q r, KM_ERROR_OK, h, m)]) (M(h := Some op))"
  unfolding known_def
proof (intro allI impI)
  fix k op'
  assume k: "(M(h := Some op)) k = Some op'"
  let ?x = "(C_Begin q r, KM_ERROR_OK, h, m)"
  show "\<exists>q f key. begun_in K v al (tr @ [?x]) k q f key \<and> begun_with K v al q f key op'"
  proof (cases "k = h")
    case True
    have "begun_in K v al (tr @ [?x]) h q f key" unfolding begun_in_def
      by (rule exI [of _ tr], rule exI [of _ r], rule exI [of _ m], rule exI [of _ "[]"]) (simp add: assms(3))
    then show ?thesis using True k assms(4) by auto
  next
    case False
    then have "\<not> begins k ?x" "\<not> ended k ?x" by (auto simp: begins_def ended_def)
    then show ?thesis using begun_in_more assms(1) k False unfolding known_def by (metis fun_upd_other)
  qed
qed

lemma run_known:
  "op_run K v al m0 tr m \<Longrightarrow> dev_ok m0 \<Longrightarrow> known K v al [] (operations m0) \<Longrightarrow> known K v al tr (operations m)"
proof (induction rule: op_run.induct)
  case (step tr m c e h m')
  obtain t where t: "ak_table m = Some t" "table_ok t"
    using op_run_ok [OF step.hyps(1) step.prems(1)] by (auto simp: dev_ok_def)
  note IH = step.IH [OF step.prems]
  show ?case
  proof (cases "\<exists>q r. c = C_Begin q r")
    case False
    then have "\<not> is_begin c" by (cases c) auto
    moreover have "handle_spec c e h (operations m) (operations m')"
      using command_step [OF step.hyps(2) op_run_ok [OF step.hyps(1) step.prems(1)] step.hyps(3)] by (rule conjunct2)
    ultimately show ?thesis by (intro known_step [OF IH]) (rule handle_spec_kept)
  next
    case True
    then obtain q r r' where b: "c = C_Begin q r" "BeginOperation K v al q r m = Some (r', m')" "br_error r' = e" "br_op_handle r' = h"
      using step.hyps(2) by auto
    have "br_error r' = KM_ERROR_OK \<Longrightarrow> \<not> in_use (br_op_handle r') m" using step.hyps(3) b by simp
    from begin_step [OF b(2) t this, unfolded b(3,4)]
    consider (kept) "operations m' = operations m" "e \<noteq> KM_ERROR_OK \<or> h = 0"
      | (new) op f key where "e = KM_ERROR_OK" "operations m h = None" "operations m' = (operations m)(h := Some op)"
        "loads K v al (ak_ctx m) q f key" "begun_with K v al q f key op" by blast
    then show ?thesis
    proof cases
      case kept
      have "operations m 0 = None" using op_table.find_usable [of 0 t] t(1) by (cases "Table_Find 0 t") (auto simp: operations_def)
      then show ?thesis unfolding b(1) kept(1)
        using kept(2) by (intro known_step [OF IH]) (auto simp: begins_def ended_def)
    next
      case new
      then show ?thesis using known_begin [OF IH new(2,4,5)] unfolding b(1) new(1,3) by blast
    qed
  qed
qed simp

text \<open>The enforcement policy of the context stays in place.\<close>

lemma authorize_begin_policy: "authorize_begin K v q auths p = Some (e, k, p') \<Longrightarrow> p' = None \<longleftrightarrow> p = None"
  by (auto simp: authorize_begin_def split: option.splits Option.bind_splits)

lemma authorize_continue_policy: "authorize_continue v al op params h p = Some (e, p') \<Longrightarrow> p' = None \<longleftrightarrow> p = None"
  by (auto simp: authorize_continue_def split: option.splits Option.bind_splits)

lemma start_operation_policy: "start_operation K v al q auths op r m = Some (r', m') \<Longrightarrow> ak_policy m' = ak_policy m"
  by (auto simp: start_operation_def Let_def split: prod.splits if_splits Option.bind_splits)

lemma begin_with_key_policy:
  "begin_with_key K v al q r f key m = Some (r', m') \<Longrightarrow> ak_policy m' = None \<longleftrightarrow> ak_policy m = None"
  by (auto simp: begin_with_key_def Let_def bind_eq_Some_conv dest!: authorize_begin_policy start_operation_policy
      split: option.splits prod.splits if_splits)

lemma BeginOperation_policy:
  assumes "BeginOperation K v al q r m = Some (r', m')"
  shows "ak_policy m' = None \<longleftrightarrow> ak_policy m = None"
  using assms by (cases rule: BeginOperation_cases) (auto dest: begin_with_key_policy)

text \<open>An update or a finish asks the policy, and it succeeds only when the policy grants it.\<close>

lemma update_authorized:
  assumes "UpdateOperation K v al q r m = Some (r', m')" "ak_table m = Some t" "Table_Find (uq_op_handle q) t = Some op"
  obtains e where "authorize_continue v al op (uq_additional_params q) (uq_op_handle q) (ak_policy m) = Some (e, ak_policy m')"
    "ur_error r' = KM_ERROR_OK \<longrightarrow> e = KM_ERROR_OK"
proof -
  obtain e p where a: "authorize_continue v al op (uq_additional_params q) (uq_op_handle q) (ak_policy m) = Some (e, p)"
    using assms by (auto simp: UpdateOperation_def bind_eq_Some_conv)
  obtain e1 o1 o2 o3 impl where u: "op_Update K (op_impl op) (uq_additional_params q) (uq_input q)
      (ur_output_params r, ur_output r, ur_input_consumed r) = (e1, (o1, o2, o3), impl)" by (metis surj_pair)
  show thesis using that [of e] assms a u by (cases "e = KM_ERROR_OK") (auto simp: UpdateOperation_def Let_def)
qed

lemma finish_authorized:
  assumes "FinishOperation K v al q r m = Some (r', m')" "ak_table m = Some t" "Table_Find (fq_op_handle q) t = Some op"
  obtains e where "authorize_continue v al op (fq_additional_params q) (fq_op_handle q) (ak_policy m) = Some (e, ak_policy m')"
    "fr_error r' = KM_ERROR_OK \<longrightarrow> e = KM_ERROR_OK"
proof -
  obtain e p where a: "authorize_continue v al op (fq_additional_params q) (fq_op_handle q) (ak_policy m) = Some (e, p)"
    using assms by (auto simp: FinishOperation_def bind_eq_Some_conv)
  obtain e1 o1 o2 impl where u: "op_Finish K (op_impl op) (fq_additional_params q) (fq_input q) (fq_signature q)
      (fr_output_params r, fr_output r) = (e1, (o1, o2), impl)" by (metis surj_pair)
  show thesis using that [of e] assms a u by (cases "e = KM_ERROR_OK") (auto simp: FinishOperation_def Let_def)
qed

lemma UpdateOperation_policy:
  assumes "UpdateOperation K v al q r m = Some (r', m')"
  shows "ak_policy m' = None \<longleftrightarrow> ak_policy m = None"
proof -
  obtain t where t: "ak_table m = Some t" using assms by (auto simp: UpdateOperation_def bind_eq_Some_conv)
  show ?thesis
  proof (cases "Table_Find (uq_op_handle q) t")
    case None
    then show ?thesis using assms t by (auto simp: UpdateOperation_def)
  next
    case (Some op)
    from assms t Some show ?thesis by (rule update_authorized) (auto dest: authorize_continue_policy)
  qed
qed

lemma FinishOperation_policy:
  assumes "FinishOperation K v al q r m = Some (r', m')"
  shows "ak_policy m' = None \<longleftrightarrow> ak_policy m = None"
proof -
  obtain t where t: "ak_table m = Some t" using assms by (auto simp: FinishOperation_def bind_eq_Some_conv)
  show ?thesis
  proof (cases "Table_Find (fq_op_handle q) t")
    case None
    then show ?thesis using assms t by (auto simp: FinishOperation_def)
  next
    case (Some op)
    from assms t Some show ?thesis by (rule finish_authorized) (auto dest: authorize_continue_policy)
  qed
qed

lemma AbortOperation_policy: "AbortOperation K h m = Some (e, m') \<Longrightarrow> ak_policy m' = ak_policy m"
  by (cases "op_Abort K (op_impl (the (Table_Find h (the (ak_table m)))))")
    (auto simp: AbortOperation_def bind_eq_Some_conv split: option.splits)

lemma command_policy: "run_command K v al c m = Some (e, h, m') \<Longrightarrow> ak_policy m' = None \<longleftrightarrow> ak_policy m = None"
  by (cases c) (auto dest: BeginOperation_policy UpdateOperation_policy FinishOperation_policy AbortOperation_policy)

lemma run_policy: "op_run K v al m0 tr m \<Longrightarrow> ak_policy m = None \<longleftrightarrow> ak_policy m0 = None"
  by (induction rule: op_run.induct) (auto dest: command_policy)

section \<open>Copies of authorizations\<close>

text \<open>What the enforcement policy reads of a set depends on the values in the set only.\<close>

lemma same_values_nth:
  assumes "set_values s = set_values s'"
  shows "length (elems s) = length (elems s')"
    "i < length (elems s) \<Longrightarrow> p_tag (elems s ! i) = p_tag (elems s' ! i)"
    "i < length (elems s) \<Longrightarrow> as_int (p_value (elems s ! i)) = as_int (p_value (elems s' ! i))"
    "i < length (elems s) \<Longrightarrow> as_long (p_value (elems s ! i)) = as_long (p_value (elems s' ! i))"
proof -
  show l: "length (elems s) = length (elems s')" using assms unfolding set_values_def by (metis length_map)
  fix i
  assume i: "i < length (elems s)"
  have "value_of (indirect_data s) (elems s ! i) = value_of (indirect_data s') (elems s' ! i)"
    using assms i l unfolding set_values_def by (metis nth_map)
  then show "p_tag (elems s ! i) = p_tag (elems s' ! i)" "as_int (p_value (elems s ! i)) = as_int (p_value (elems s' ! i))"
    "as_long (p_value (elems s ! i)) = as_long (p_value (elems s' ! i))"
    by (cases "p_value (elems s ! i)"; cases "p_value (elems s' ! i)"; simp add: value_of_def as_int_def as_long_def)+
qed

lemma same_values_tag: "set_values s = set_values s' \<Longrightarrow> has_tag v t s \<longleftrightarrow> has_tag v t s'"
  using same_values_nth(1,2) [of s s'] by (metis in_set_conv_nth)

lemma same_values_secure_id: "set_values s = set_values s' \<Longrightarrow> secure_id_of v s sid \<longleftrightarrow> secure_id_of v s' sid"
  using same_values_nth(1,2,4) [of s s'] unfolding secure_id_of_def as_simps(2) [symmetric] by (metis in_set_conv_nth)

lemma same_values_position: "set_values s = set_values s' \<Longrightarrow> last_position t s = last_position t s'"
proof -
  assume a: "set_values s = set_values s'"
  have "filter (\<lambda>i. p_tag (elems s ! i) = t) [0..<length (elems s)] = filter (\<lambda>i. p_tag (elems s' ! i) = t) [0..<length (elems s')]"
    unfolding same_values_nth(1) [OF a] by (rule filter_cong) (simp_all add: same_values_nth [OF a])
  then show ?thesis by (simp add: last_position_def)
qed

lemma same_values_type:
  assumes "set_values s = set_values s'"
  shows "type_matches v s tok \<longleftrightarrow> type_matches v s' tok"
proof -
  let ?p = "last_position (tag_of v KM_TAG_USER_AUTH_TYPE) s'"
  have "as_int (p_value (elems s ! i)) = as_int (p_value (elems s' ! i))" if "?p = Some i" for i
    using last_position_Some [OF that] same_values_nth(1,3) [OF assms] by simp
  then show ?thesis
    unfolding type_matches_def same_values_position [OF assms] as_simps(1) [symmetric] by (cases ?p) auto
qed

lemma same_values_public:
  assumes "set_values s = set_values s'" "set_error s = set_error s'"
  shows "public_operation v p s \<longleftrightarrow> public_operation v p s'"
proof -
  have f: "find (\<lambda>i. p_tag (elems s ! i) = t) [0..<length (elems s)] = find (\<lambda>i. p_tag (elems s' ! i) = t) [0..<length (elems s')]" for t
    unfolding same_values_nth(1) [OF assms(1)] by (rule find_cong) (simp_all add: same_values_nth [OF assms(1)])
  have "GetTagValueEnum s t = GetTagValueEnum s' t" for t
    using f [of t] same_values_nth(1,3) [OF assms(1)] assms(2)
    by (simp add: GetTagValueEnum_def get_at_def find_tag_def split: option.split)
  then show ?thesis by (simp add: public_operation_def is_public_key_algorithm_def)
qed

end
