(* ===== verification/Km_Commands.thy ===== *)
theory Km_Commands
  imports Km_Operations
begin

text \<open>
  The other commands of \<open>class AndroidKeymaster\<close> (\<open>android_keymaster.cpp\<close>): the version, the lists of
  supported parameters, entropy, and creating, describing, exporting, attesting, upgrading and deleting
  keys. None of them touches the table of operations or the enforcement policy.
\<close>

section \<open>Versions and supported parameters\<close>

definition MAJOR_VER :: byte where "MAJOR_VER = 2"
definition MINOR_VER :: byte where "MINOR_VER = 0"
definition SUBMINOR_VER :: byte where "SUBMINOR_VER = 0"

record version_response =
  vr_error :: keymaster_error_t
  vr_major :: byte
  vr_minor :: byte
  vr_subminor :: byte

definition GetVersion :: "version_response \<Rightarrow> version_response" where
  "GetVersion r =
     r\<lparr>vr_major := MAJOR_VER, vr_minor := MINOR_VER, vr_subminor := SUBMINOR_VER, vr_error := KM_ERROR_OK\<rparr>"

text \<open>The results of a \<open>SupportedResponse\<close>: a null pointer is \<^term>\<open>None\<close>, and the length is kept apart.\<close>

record supported_response =
  sr_error :: keymaster_error_t
  sr_results :: "u32 list option"
  sr_results_length :: nat

definition dup_array :: "allocator \<Rightarrow> u32 list \<Rightarrow> u32 list option" where
  "dup_array al a = (if alloc_ok al (4 * length a) then Some a else None)"

definition SetResults :: "allocator \<Rightarrow> u32 list \<Rightarrow> supported_response \<Rightarrow> supported_response" where
  "SetResults al arr r =
     (case dup_array al arr of
        None \<Rightarrow> r\<lparr>sr_results_length := 0, sr_results := None, sr_error := KM_ERROR_MEMORY_ALLOCATION_FAILED\<rparr>
      | Some a \<Rightarrow> r\<lparr>sr_results_length := length arr, sr_results := Some a, sr_error := KM_ERROR_OK\<rparr>)"

definition check_supported ::
  "('ctx, 'fac, 'key, 'opf, 'op) km_context \<Rightarrow> u32 \<Rightarrow> supported_response \<Rightarrow> bool \<times> supported_response" where
  "check_supported K algorithm r =
     (if GetKeyFactory K algorithm = None then (False, r\<lparr>sr_error := KM_ERROR_UNSUPPORTED_ALGORITHM\<rparr>) else (True, r))"

definition SupportedAlgorithms ::
  "('ctx, 'fac, 'key, 'opf, 'op) km_context \<Rightarrow> allocator \<Rightarrow> supported_response \<Rightarrow> supported_response" where
  "SupportedAlgorithms K al r =
     (let r = r\<lparr>sr_error := KM_ERROR_OK\<rparr>; algorithms = GetSupportedAlgorithms K
      in if algorithms = [] then r
         else
           let r = r\<lparr>sr_results_length := length algorithms, sr_results := dup_array al algorithms\<rparr>
           in if sr_results r = None then r\<lparr>sr_error := KM_ERROR_MEMORY_ALLOCATION_FAILED\<rparr> else r)"

definition GetSupported ::
  "('ctx, 'fac, 'key, 'opf, 'op) km_context \<Rightarrow> allocator \<Rightarrow> u32 \<Rightarrow> u32 \<Rightarrow> ('opf \<Rightarrow> u32 list) \<Rightarrow>
   supported_response \<Rightarrow> supported_response" where
  "GetSupported K al algorithm purpose get_supported_method r =
     (case check_supported K algorithm r of
        (False, r) \<Rightarrow> r
      | (True, r) \<Rightarrow>
          (case ctx_GetOperationFactory K algorithm purpose of
             None \<Rightarrow> r\<lparr>sr_error := KM_ERROR_UNSUPPORTED_PURPOSE\<rparr>
           | Some factory \<Rightarrow> SetResults al (get_supported_method factory) r))"

definition SupportedBlockModes ::
  "('ctx, 'fac, 'key, 'opf, 'op) km_context \<Rightarrow> allocator \<Rightarrow> u32 \<Rightarrow> u32 \<Rightarrow> supported_response \<Rightarrow> supported_response" where
  "SupportedBlockModes K al algorithm purpose = GetSupported K al algorithm purpose (opf_SupportedBlockModes K)"

definition SupportedPaddingModes ::
  "('ctx, 'fac, 'key, 'opf, 'op) km_context \<Rightarrow> allocator \<Rightarrow> u32 \<Rightarrow> u32 \<Rightarrow> supported_response \<Rightarrow> supported_response" where
  "SupportedPaddingModes K al algorithm purpose = GetSupported K al algorithm purpose (opf_SupportedPaddingModes K)"

definition SupportedDigests ::
  "('ctx, 'fac, 'key, 'opf, 'op) km_context \<Rightarrow> allocator \<Rightarrow> u32 \<Rightarrow> u32 \<Rightarrow> supported_response \<Rightarrow> supported_response" where
  "SupportedDigests K al algorithm purpose = GetSupported K al algorithm purpose (opf_SupportedDigests K)"

definition SupportedImportFormats ::
  "('ctx, 'fac, 'key, 'opf, 'op) km_context \<Rightarrow> allocator \<Rightarrow> u32 \<Rightarrow> supported_response \<Rightarrow> supported_response option" where
  "SupportedImportFormats K al algorithm r =
     (case check_supported K algorithm r of
        (False, r) \<Rightarrow> Some r
      | (True, r) \<Rightarrow> do { f \<leftarrow> GetKeyFactory K algorithm; Some (SetResults al (fac_SupportedImportFormats K f) r) })"

definition SupportedExportFormats ::
  "('ctx, 'fac, 'key, 'opf, 'op) km_context \<Rightarrow> allocator \<Rightarrow> u32 \<Rightarrow> supported_response \<Rightarrow> supported_response option" where
  "SupportedExportFormats K al algorithm r =
     (case check_supported K algorithm r of
        (False, r) \<Rightarrow> Some r
      | (True, r) \<Rightarrow> do { f \<leftarrow> GetKeyFactory K algorithm; Some (SetResults al (fac_SupportedExportFormats K f) r) })"

section \<open>Keys\<close>

definition AddRngEntropy ::
  "('ctx, 'fac, 'key, 'opf, 'op) km_context \<Rightarrow> km_buffer \<Rightarrow> ('ctx, 'op) keymaster \<Rightarrow>
   (keymaster_error_t \<times> ('ctx, 'op) keymaster) option" where
  "AddRngEntropy K random_data m = do {
     bytes \<leftarrow> peek_read random_data;
     let (e, ctx) = ctx_AddRngEntropy K bytes (ak_ctx m);
     Some (e, m\<lparr>ak_ctx := ctx\<rparr>)
   }"

record key_response =
  kr_error :: keymaster_error_t
  kr_key_blob :: "byte list"
  kr_enforced :: auth_set
  kr_unenforced :: auth_set

definition GenerateKey ::
  "('ctx, 'fac, 'key, 'opf, 'op) km_context \<Rightarrow> km_env \<Rightarrow> auth_set \<Rightarrow> key_response \<Rightarrow> ('ctx, 'op) keymaster \<Rightarrow>
   (key_response \<times> ('ctx, 'op) keymaster) option" where
  "GenerateKey K v key_description r m = do {
     a \<leftarrow> GetTagValueEnum key_description (tag_of v KM_TAG_ALGORITHM);
     case Option.bind a (GetKeyFactory K) of
       None \<Rightarrow> Some (r\<lparr>kr_error := KM_ERROR_UNSUPPORTED_ALGORITHM\<rparr>, m)
     | Some factory \<Rightarrow>
         (case fac_GenerateKey K factory (ak_ctx m) key_description (Set_Clear (kr_enforced r), Set_Clear (kr_unenforced r)) of
            (e, blob, (enforced, unenforced), ctx) \<Rightarrow>
              Some (r\<lparr>kr_error := e, kr_enforced := enforced, kr_unenforced := unenforced,
                       kr_key_blob := (if e = KM_ERROR_OK then blob else kr_key_blob r)\<rparr>,
                    m\<lparr>ak_ctx := ctx\<rparr>))
   }"

definition ImportKey ::
  "('ctx, 'fac, 'key, 'opf, 'op) km_context \<Rightarrow> km_env \<Rightarrow> allocator \<Rightarrow> auth_set \<Rightarrow> u32 \<Rightarrow> byte list \<Rightarrow> key_response \<Rightarrow>
   ('ctx, 'op) keymaster \<Rightarrow> (key_response \<times> ('ctx, 'op) keymaster) option" where
  "ImportKey K v al key_description key_format key_data r m = do {
     a \<leftarrow> GetTagValueEnum key_description (tag_of v KM_TAG_ALGORITHM);
     case Option.bind a (GetKeyFactory K) of
       None \<Rightarrow> Some (r\<lparr>kr_error := KM_ERROR_UNSUPPORTED_ALGORITHM\<rparr>, m)
     | Some factory \<Rightarrow>
         (case fac_ImportKey K factory (ak_ctx m) key_description key_format (KeymasterKeyBlob al key_data)
                 (kr_enforced r, kr_unenforced r) of
            (e, blob, (enforced, unenforced), ctx) \<Rightarrow>
              Some (r\<lparr>kr_error := e, kr_enforced := enforced, kr_unenforced := unenforced,
                       kr_key_blob := (if e = KM_ERROR_OK then blob else kr_key_blob r)\<rparr>,
                    m\<lparr>ak_ctx := ctx\<rparr>))
   }"

record characteristics_response =
  cr_error :: keymaster_error_t
  cr_enforced :: auth_set
  cr_unenforced :: auth_set

definition GetKeyCharacteristics ::
  "('ctx, 'fac, 'key, 'opf, 'op) km_context \<Rightarrow> km_env \<Rightarrow> allocator \<Rightarrow> byte list \<Rightarrow> auth_set \<Rightarrow> characteristics_response \<Rightarrow>
   ('ctx, 'op) keymaster \<Rightarrow> characteristics_response option" where
  "GetKeyCharacteristics K v al key_blob additional_params r m =
     (case ParseKeyBlob K (ak_ctx m) (KeymasterKeyBlob al key_blob) additional_params (cr_enforced r, cr_unenforced r) of
        (e, key_material, enforced, unenforced) \<Rightarrow>
          let r = r\<lparr>cr_error := e, cr_enforced := enforced, cr_unenforced := unenforced\<rparr>
          in if e \<noteq> KM_ERROR_OK then Some r
             else do { e \<leftarrow> CheckVersionInfo K v (ak_ctx m) enforced unenforced; Some (r\<lparr>cr_error := e\<rparr>) })"

text \<open>\<open>ExportKey\<close> does not check the version of the key.\<close>

definition ExportKey ::
  "('ctx, 'fac, 'key, 'opf, 'op) km_context \<Rightarrow> km_env \<Rightarrow> allocator \<Rightarrow> byte list \<Rightarrow> auth_set \<Rightarrow> u32 \<Rightarrow>
   keymaster_error_t \<times> byte list \<Rightarrow> ('ctx, 'op) keymaster \<Rightarrow> (keymaster_error_t \<times> byte list) option" where
  "ExportKey K v al key_blob additional_params key_format r m =
     (case ParseKeyBlob K (ak_ctx m) (KeymasterKeyBlob al key_blob) additional_params (new_AuthorizationSet, new_AuthorizationSet) of
        (e, key_material, hw_enforced, sw_enforced) \<Rightarrow>
          if e \<noteq> KM_ERROR_OK then Some (e, snd r)
          else do {
            (e, f) \<leftarrow> factory_of K v hw_enforced sw_enforced;
            case f of
              None \<Rightarrow> Some (e, snd r)
            | Some f \<Rightarrow>
                (case fac_LoadKey K f key_material additional_params hw_enforced sw_enforced of
                   (e, key) \<Rightarrow>
                     if e \<noteq> KM_ERROR_OK then Some (e, snd r)
                     else do {
                       key \<leftarrow> key;
                       let (e, out_key) = formatted_key_material K key key_format;
                       Some (e, if e = KM_ERROR_OK then out_key else snd r)
                     })
          })"

text \<open>\<open>AttestKey\<close> ignores whether the application id could be added.\<close>

definition AttestKey ::
  "('ctx, 'fac, 'key, 'opf, 'op) km_context \<Rightarrow> km_env \<Rightarrow> allocator \<Rightarrow> byte list \<Rightarrow> auth_set \<Rightarrow>
   keymaster_error_t \<times> byte list list \<Rightarrow> ('ctx, 'op) keymaster \<Rightarrow>
   ((keymaster_error_t \<times> byte list list) \<times> ('ctx, 'op) keymaster) option" where
  "AttestKey K v al key_blob attest_params r m = do {
     (e, tee_enforced, sw_enforced, loaded) \<leftarrow> ak_LoadKey K v al (ak_ctx m) key_blob attest_params;
     if e \<noteq> KM_ERROR_OK then Some ((e, snd r), m)
     else do {
       (key_factory, key) \<leftarrow> loaded;
       key \<leftarrow> key;
       id \<leftarrow> GetTagValueBlob attest_params (tag_of v KM_TAG_ATTESTATION_APPLICATION_ID);
       sw_enforced \<leftarrow> (case id of
           None \<Rightarrow> Some sw_enforced
         | Some blob \<Rightarrow>
             map_option snd (push_back (env_defs v) al
               \<lparr>p_tag = tag_of v KM_TAG_ATTESTATION_APPLICATION_ID, p_value = VBlob blob\<rparr> sw_enforced));
       let (e, chain, ctx) = GenerateAttestation K key (ak_ctx m) attest_params tee_enforced sw_enforced (snd r);
       Some ((e, chain), m\<lparr>ak_ctx := ctx\<rparr>)
     }
   }"

definition UpgradeKey ::
  "('ctx, 'fac, 'key, 'opf, 'op) km_context \<Rightarrow> allocator \<Rightarrow> byte list \<Rightarrow> auth_set \<Rightarrow> keymaster_error_t \<times> byte list \<Rightarrow>
   ('ctx, 'op) keymaster \<Rightarrow> keymaster_error_t \<times> byte list" where
  "UpgradeKey K al key_blob upgrade_params r m =
     (case UpgradeKeyBlob K (ak_ctx m) (KeymasterKeyBlob al key_blob) upgrade_params of
        (e, upgraded_key) \<Rightarrow> if e \<noteq> KM_ERROR_OK then (e, snd r) else (e, upgraded_key))"

definition DeleteKey ::
  "('ctx, 'fac, 'key, 'opf, 'op) km_context \<Rightarrow> allocator \<Rightarrow> byte list \<Rightarrow> ('ctx, 'op) keymaster \<Rightarrow>
   keymaster_error_t \<times> ('ctx, 'op) keymaster" where
  "DeleteKey K al key_blob m =
     (case ctx_DeleteKey K (KeymasterKeyBlob al key_blob) (ak_ctx m) of (e, ctx) \<Rightarrow> (e, m\<lparr>ak_ctx := ctx\<rparr>))"

definition DeleteAllKeys ::
  "('ctx, 'fac, 'key, 'opf, 'op) km_context \<Rightarrow> ('ctx, 'op) keymaster \<Rightarrow> keymaster_error_t \<times> ('ctx, 'op) keymaster" where
  "DeleteAllKeys K m = (case ctx_DeleteAllKeys K (ak_ctx m) of (e, ctx) \<Rightarrow> (e, m\<lparr>ak_ctx := ctx\<rparr>))"

definition Configure ::
  "('ctx, 'fac, 'key, 'opf, 'op) km_context \<Rightarrow> u32 \<Rightarrow> u32 \<Rightarrow> ('ctx, 'op) keymaster \<Rightarrow>
   keymaster_error_t \<times> ('ctx, 'op) keymaster" where
  "Configure K os_version os_patchlevel m =
     (case SetSystemVersion K os_version os_patchlevel (ak_ctx m) of (e, ctx) \<Rightarrow> (e, m\<lparr>ak_ctx := ctx\<rparr>))"

end
