(* ===== verification/Km_OpTheorems.thy ===== *)
theory Km_OpTheorems
  imports Km_OpRuns Km_Commands Km_Demo
begin

text \<open>
  The properties of the operations of \<open>AndroidKeymaster\<close>: handles name operations the way a map does, an
  ended operation is gone, and no operation with a key that needs authentication goes on without a token for
  it, unless the copy of its authorizations fails.
\<close>

section \<open>Handles\<close>

lemma new_AndroidKeymaster_ok:
  assumes "alloc_ok al 16"
  shows "dev_ok (new_AndroidKeymaster al ctx p n)" "operations (new_AndroidKeymaster al ctx p n) = (\<lambda>_. None)"
    "known K v al [] (operations (new_AndroidKeymaster al ctx p n))" "ak_policy (new_AndroidKeymaster al ctx p n) = p"
  using assms
  by (auto simp: new_AndroidKeymaster_def dev_ok_def table_ok_def new_OperationTable_def operations_def Table_Find_def known_def)

text \<open>
  C10: the commands keep a map from handles to operations. From a new device on, every command of every run in
  which no handle is given out twice at a time does to the operations what the specification says: a begin that
  succeeds adds one under a new handle that is not zero, an update changes the state of one, a finish, an abort
  and an update that fails remove it, and a handle without an operation is answered with
  \<open>KM_ERROR_INVALID_OPERATION_HANDLE\<close>.
\<close>

theorem operations_refine_map:
  assumes "op_run K v al (new_AndroidKeymaster al ctx p n) (tr @ (c, e, h, m) # tr') m_end" "alloc_ok al 16"
  shows "\<exists>m'. op_run K v al (new_AndroidKeymaster al ctx p n) (tr @ [(c, e, h, m)]) m' \<and>
    handle_spec c e h (operations m) (operations m') \<and> (tr = [] \<longrightarrow> operations m = (\<lambda>_. None))"
proof -
  note new = new_AndroidKeymaster_ok [OF assms(2)]
  obtain m' where r: "op_run K v al (new_AndroidKeymaster al ctx p n) tr m" "run_command K v al c m = Some (e, h, m')"
    "is_begin c \<longrightarrow> e = KM_ERROR_OK \<longrightarrow> \<not> in_use h m" using assms(1) by (rule op_run_middle) blast
  have "handle_spec c e h (operations m) (operations m')"
    using command_step [OF r(2) op_run_ok [OF r(1) new(1)] r(3) [rule_format]] by (rule conjunct2)
  moreover have "tr = [] \<longrightarrow> operations m = (\<lambda>_. None)" using r(1) new(2) by (auto simp: op_run_Nil)
  moreover have "op_run K v al (new_AndroidKeymaster al ctx p n) (tr @ [(c, e, h, m)]) m'" using r by (simp add: op_run_snoc)
  ultimately show ?thesis by blast
qed

text \<open>
  C16: an ended operation is gone. After a finish or an abort of a handle, whatever it returned, and after an
  update that failed, every command for that handle is answered with
  \<open>KM_ERROR_INVALID_OPERATION_HANDLE\<close> until a begin gives the handle out again.
\<close>

theorem ended_operation_is_gone:
  assumes "op_run K v al (new_AndroidKeymaster al ctx p n) (tr @ (c, e, h, m) # tr' @ [(c', e', h, m')]) m_end" "alloc_ok al 16"
    and "ends c e" "\<not> is_begin c'" "\<forall>x \<in> set tr'. \<not> begins h x"
  shows "e' = KM_ERROR_INVALID_OPERATION_HANDLE"
proof -
  note new = new_AndroidKeymaster_ok [OF assms(2)]
  obtain m1 where r: "op_run K v al (new_AndroidKeymaster al ctx p n) tr m" "run_command K v al c m = Some (e, h, m1)"
    "is_begin c \<longrightarrow> e = KM_ERROR_OK \<longrightarrow> \<not> in_use h m" "op_run K v al m1 (tr' @ [(c', e', h, m')]) m_end"
    using assms(1) by (rule op_run_middle) blast
  note s = command_step [OF r(2) op_run_ok [OF r(1) new(1)] r(3) [rule_format]]
  have g: "operations m1 h = None" using handle_spec_ends [OF conjunct2 [OF s] assms(3)] .
  have r': "op_run K v al m1 tr' m'" "run_command K v al c' m' = Some (e', h, m_end)" using r(4) by (auto simp: op_run_snoc)
  have "operations m' h = None" by (rule run_gone [OF r'(1) conjunct1 [OF s] g assms(5)])
  moreover have "handle_spec c' e' h (operations m') (operations m_end)"
    using command_step [OF r'(2) op_run_ok [OF r'(1) conjunct1 [OF s]]] assms(4) by blast
  ultimately show ?thesis using handle_spec_unknown assms(4) by blast
qed

section \<open>Authentication\<close>

text \<open>Keys that are used with a token for every operation.\<close>

definition needs_token :: "km_env \<Rightarrow> u32 \<Rightarrow> auth_set \<Rightarrow> bool" where
  "needs_token v purpose auths \<longleftrightarrow>
     (has_tag v KM_TAG_USER_SECURE_ID auths \<or> has_tag v KM_TAG_USER_AUTH_TYPE auths) \<and>
     \<not> has_tag v KM_TAG_AUTH_TIMEOUT auths \<and> \<not> has_tag v KM_TAG_NO_AUTH_REQUIRED auths \<and> \<not> public_operation v purpose auths"

definition token_for :: "km_env \<Rightarrow> auth_set \<Rightarrow> u64 \<Rightarrow> auth_set \<Rightarrow> bool" where
  "token_for v auths h params \<longleftrightarrow>
     (\<exists>tok sid n. token_of v params = Some tok \<and> genuine_token v n tok \<and> secure_id_of v auths sid \<and> of_user sid tok \<and>
        type_matches v auths tok \<and> tok_challenge tok = h)"

text \<open>
  What the operations rely on: an operation factory makes operations of its purpose, and the authorizations
  of a key are well-typed.
\<close>

definition factories_ok :: "('ctx, 'fac, 'key, 'opf, 'op) km_context \<Rightarrow> bool" where
  "factories_ok K \<longleftrightarrow>
     (\<forall>f purpose factory key params e op. fac_GetOperationFactory K f purpose = Some factory \<longrightarrow>
        opf_CreateOperation K factory key params = (e, Some op) \<longrightarrow> op_purpose op = purpose)"

definition keys_ok :: "('ctx, 'fac, 'key, 'opf, 'op) km_context \<Rightarrow> km_env \<Rightarrow> bool" where
  "keys_ok K v \<longleftrightarrow>
     (\<forall>key. set_error (key_authorizations K key) = OK \<and> list_all (typed (env_defs v)) (set_values (key_authorizations K key)))"

fun command_params :: "op_command \<Rightarrow> auth_set" where
  "command_params (C_Begin q r) = bq_additional_params q"
| "command_params (C_Update q r) = uq_additional_params q"
| "command_params (C_Finish q r) = fq_additional_params q"
| "command_params (C_Abort h) = new_AuthorizationSet"

fun goes_on :: "op_command \<Rightarrow> bool" where
  "goes_on (C_Update q r) = True"
| "goes_on (C_Finish q r) = True"
| "goes_on _ = False"

lemma command_authorized:
  assumes "run_command K v al c m = Some (KM_ERROR_OK, h, m')" "goes_on c" "dev_ok m"
  shows "\<exists>op. operations m h = Some op \<and>
    authorize_continue v al op (command_params c) h (ak_policy m) = Some (KM_ERROR_OK, ak_policy m')"
proof -
  obtain t where t: "ak_table m = Some t" using assms(3) by (auto simp: dev_ok_def)
  show ?thesis
  proof (cases c)
    case (C_Update q r)
    then obtain r' where u: "UpdateOperation K v al q r m = Some (r', m')" "ur_error r' = KM_ERROR_OK" "uq_op_handle q = h"
      using assms(1) by auto
    obtain op where f: "Table_Find (uq_op_handle q) t = Some op"
      using u t by (cases "Table_Find (uq_op_handle q) t") (auto simp: UpdateOperation_def)
    from u(1) t f obtain e where "authorize_continue v al op (uq_additional_params q) (uq_op_handle q) (ak_policy m) = Some (e, ak_policy m')"
      "ur_error r' = KM_ERROR_OK \<longrightarrow> e = KM_ERROR_OK" by (rule update_authorized) blast
    then show ?thesis using C_Update u t f by (simp add: operations_def)
  next
    case (C_Finish q r)
    then obtain r' where u: "FinishOperation K v al q r m = Some (r', m')" "fr_error r' = KM_ERROR_OK" "fq_op_handle q = h"
      using assms(1) by auto
    obtain op where f: "Table_Find (fq_op_handle q) t = Some op"
      using u t by (cases "Table_Find (fq_op_handle q) t") (auto simp: FinishOperation_def)
    from u(1) t f obtain e where "authorize_continue v al op (fq_additional_params q) (fq_op_handle q) (ak_policy m) = Some (e, ak_policy m')"
      "fr_error r' = KM_ERROR_OK \<longrightarrow> e = KM_ERROR_OK" by (rule finish_authorized) blast
    then show ?thesis using C_Finish u t f by (simp add: operations_def)
  qed (use assms(2) in auto)
qed

lemma continue_needs_token:
  assumes "authorize_continue v al op params h (Some s) = Some (KM_ERROR_OK, p')" "alloc_total al" "h \<noteq> 0"
    "list_all (typed (env_defs v)) (set_values auths)" "set_error auths = OK" "set_error (op_key_auths op) = OK"
    "set_values (op_key_auths op) = set_values auths" "needs_token v (op_purpose op) auths"
  shows "token_for v auths h params"
proof -
  obtain s1 where s1: "authorizations (env_defs v) al op = Some s1" "set_values s1 = set_values auths" "set_error s1 = OK"
    using Set_Reinitialize_ok [OF assms(4,2), of new_AuthorizationSet] assms(6,7)
    by (auto simp: authorizations_def copy_AuthorizationSet_def growable_def)
  let ?c = "\<lparr>c_purpose = op_purpose op, c_keyid = op_key_id op, c_auths = s1, c_params = params, c_handle = h, c_is_begin = False\<rparr>"
  obtain s' where a: "authorize_call v ?c s = Some (KM_ERROR_OK, s')"
    using assms(1) s1(1) by (auto simp: authorize_continue_def authorize_call_def bind_eq_Some_conv)
  have e: "set_error s1 = set_error auths" using s1(3) assms(5) by simp
  note n = assms(8) [unfolded needs_token_def same_values_tag [OF s1(2), symmetric] same_values_public [OF s1(2) e, symmetric]]
  have "\<exists>tok sid n. secure_id_of v s1 sid \<and> token_of v params = Some tok \<and> genuine_token v n tok \<and>
    of_user sid tok \<and> type_matches v s1 tok \<and> (h \<noteq> 0 \<longrightarrow> tok_challenge tok = h)"
    using granted_update [OF a] n by simp
  then show ?thesis
    unfolding token_for_def same_values_secure_id [OF s1(2)] same_values_type [OF s1(2)] using assms(3) by blast
qed

text \<open>
  C5: an operation with a key that needs authentication for every operation goes on only with a token for this
  operation. Take a run of a device with an enforcement policy in which memory allocation succeeds, no handle is given
  out while it is in use, factories make operations of the purpose they are asked for, and the authorizations of keys are well-typed.
  Before every update or finish that succeeds, the operation was begun with some key, by the last begin that returned
  the handle, and nothing ended it since; when that key has a secure id or an authenticator type, no
  authentication timeout and no \<open>KM_TAG_NO_AUTH_REQUIRED\<close>, and the operation is not one with a public key, the
  parameters of the update or finish hold a valid token of the user of the key whose challenge is the handle.
  Without the assumption on allocation this fails: a failed copy of the authorizations is empty, and demands no token.
\<close>

theorem operation_needs_token:
  assumes "op_run K v al (new_AndroidKeymaster al ctx (Some s) n) (tr @ (c, KM_ERROR_OK, h, m) # tr') m_end"
    and "alloc_total al" "factories_ok K" "keys_ok K v" "goes_on c"
  shows "\<exists>q f key. begun_in K v al tr h q f key \<and>
    (needs_token v (bq_purpose q) (key_authorizations K key) \<longrightarrow> token_for v (key_authorizations K key) h (command_params c))"
proof -
  have al: "alloc_ok al 16" using assms(2) by simp
  note new = new_AndroidKeymaster_ok [OF al]
  obtain m' where r: "op_run K v al (new_AndroidKeymaster al ctx (Some s) n) tr m" "run_command K v al c m = Some (KM_ERROR_OK, h, m')"
    using assms(1) by (rule op_run_middle) blast
  have ok: "dev_ok m" by (rule op_run_ok [OF r(1) new(1)])
  obtain s1 where p: "ak_policy m = Some s1" using run_policy [OF r(1)] unfolding new(4) by auto
  obtain op p' where a: "operations m h = Some op" "authorize_continue v al op (command_params c) h (Some s1) = Some (KM_ERROR_OK, p')"
    using command_authorized [OF r(2) assms(5) ok] p by auto
  obtain q f key where b: "begun_in K v al tr h q f key" "begun_with K v al q f key op"
    using run_known [OF r(1) new(1,3)] a(1) unfolding known_def by blast
  have h: "h \<noteq> 0" using a(1) by (auto simp: operations_def Table_Find_def bind_eq_Some_conv)
  have k: "set_error (key_authorizations K key) = OK" "list_all (typed (env_defs v)) (set_values (key_authorizations K key))"
    using assms(4) by (auto simp: keys_ok_def)
  obtain s0 b1 where i: "Set_Reinitialize (env_defs v) al (set_values (key_authorizations K key)) s0 = Some (b1, op_key_auths op)"
    and pu: "op_purpose op = bq_purpose q"
    using b(2) assms(3) unfolding begun_with_def factories_ok_def by metis
  have "set_values (op_key_auths op) = set_values (key_authorizations K key)" "set_error (op_key_auths op) = OK"
    using Set_Reinitialize_ok [OF k(2) assms(2), of s0] i by (auto simp: growable_def)
  then show ?thesis using b(1) continue_needs_token [OF a(2) assms(2) h k(2,1)] pu by auto
qed

text \<open>
  C39: when memory for the copy of the authorizations runs out, the operation goes on without authentication.
  \<open>Operation::authorizations\<close> returns a copy of the authorizations; if the elements cannot be allocated, the copy
  is empty, \<open>AuthorizeOperation\<close> finds nothing to check in it, and the finish is carried out whatever the key
  demands and whatever the parameters hold.
\<close>

theorem failed_copy_skips_authentication:
  assumes "ak_table m = Some t" "Table_Find (fq_op_handle q) t = Some op" "ak_policy m = Some s"
    and "set_error (op_key_auths op) = OK" "elems (op_key_auths op) \<noteq> []"
    and "\<not> alloc_ok al (param_size (env_defs v) * length (elems (op_key_auths op)))"
    and "op_Finish K (op_impl op) (fq_additional_params q) (fq_input q) (fq_signature q) (fr_output_params r, fr_output r) =
      (e, (out_params, out), impl)"
  shows "\<exists>m'. FinishOperation K v al q r m = Some (\<lparr>fr_error = e, fr_output_params = out_params, fr_output = out\<rparr>, m')"
proof -
  obtain s1 where c: "authorizations (env_defs v) al op = Some s1" "elems s1 = []" "set_error s1 = ALLOCATION_FAILURE"
    using assms(4-6)
    by (auto simp: authorizations_def copy_AuthorizationSet_def Set_Reinitialize_def Let_def reserve_elems_def set_values_def FreeData_def Set_Clear_def
        set_invalid_def new_AuthorizationSet_def)
  have "is_public_key_algorithm v s1 = Some False"
    using c by (simp add: is_public_key_algorithm_def GetTagValueEnum_def get_at_def find_tag_def)
  moreover have "last_position t s1 = None" for t using c(2) by (simp add: last_position_None)
  ultimately have "authorize_continue v al op (fq_additional_params q) (fq_op_handle q) (Some s) = Some (KM_ERROR_OK, Some s)"
    using c by (simp add: authorize_continue_def AuthorizeOperation_def AuthorizeUpdateOrFinish_def)
  then show ?thesis using assms(1-3,7) by (simp add: FinishOperation_def)
qed

section \<open>An instance\<close>

text \<open>A device with one key, whose operations do nothing and get the handle 9.\<close>

definition demo_device :: "(unit, unit, unit, u32, unit) km_context" where
  "demo_device =
     \<lparr>GetSystemVersion = (\<lambda>_. (0, 0)), GetKeyFactory = (\<lambda>_. Some ()),
      ParseKeyBlob = (\<lambda>_ blob _ _. (KM_ERROR_OK, blob, new_AuthorizationSet, demo_op_key)),
      fac_LoadKey = (\<lambda>_ _ _ _ _. (KM_ERROR_OK, Some ())), fac_GetOperationFactory = (\<lambda>_. Some),
      key_authorizations = (\<lambda>_. demo_op_key),
      opf_CreateOperation = (\<lambda>purpose _ _. (KM_ERROR_OK,
        Some \<lparr>op_purpose = purpose, op_key_auths = new_AuthorizationSet, op_key_id = 0, op_impl = ()\<rparr>)),
      op_Begin = (\<lambda>op _ out. (KM_ERROR_OK, out, op)), op_Update = (\<lambda>op _ _ out. (KM_ERROR_OK, out, op)),
      op_Finish = (\<lambda>op _ _ _ out. (KM_ERROR_OK, out, op)), op_Abort = (\<lambda>op. (KM_ERROR_OK, op)),
      op_CreateOperationHandle = (\<lambda>_ ctx. (KM_ERROR_OK, 9, ctx)), sha256 = (\<lambda>_. Some (replicate 32 0)),
      SetSystemVersion = (\<lambda>_ _ ctx. (KM_ERROR_OK, ctx)), ctx_AddRngEntropy = (\<lambda>_ ctx. (KM_ERROR_OK, ctx)),
      ctx_DeleteKey = (\<lambda>_ ctx. (KM_ERROR_OK, ctx)), ctx_DeleteAllKeys = (\<lambda>ctx. (KM_ERROR_OK, ctx)),
      UpgradeKeyBlob = (\<lambda>_ blob _. (KM_ERROR_OK, blob)), GetSupportedAlgorithms = [128],
      ctx_GetOperationFactory = (\<lambda>_. Some), opf_SupportedBlockModes = (\<lambda>_. []), opf_SupportedPaddingModes = (\<lambda>_. []),
      opf_SupportedDigests = (\<lambda>_. []), fac_SupportedImportFormats = (\<lambda>_. []), fac_SupportedExportFormats = (\<lambda>_. []),
      fac_GenerateKey = (\<lambda>_ ctx _ sets. (KM_ERROR_OK, [], sets, ctx)),
      fac_ImportKey = (\<lambda>_ ctx _ _ blob sets. (KM_ERROR_OK, blob, sets, ctx)),
      formatted_key_material = (\<lambda>_ _. (KM_ERROR_OK, [])),
      GenerateAttestation = (\<lambda>_ ctx _ _ _ chain. (KM_ERROR_OK, chain, ctx))\<rparr>"

lemma demo_device_fields [simp]:
  "GetSystemVersion demo_device ctx = (0, 0)" "GetKeyFactory demo_device a = Some ()"
  "ParseKeyBlob demo_device ctx blob params sets = (KM_ERROR_OK, blob, new_AuthorizationSet, demo_op_key)"
  "fac_LoadKey demo_device f material params hw sw = (KM_ERROR_OK, Some ())" "fac_GetOperationFactory demo_device f purpose = Some purpose"
  "key_authorizations demo_device key = demo_op_key"
  "opf_CreateOperation demo_device purpose key params = (KM_ERROR_OK,
     Some \<lparr>op_purpose = purpose, op_key_auths = new_AuthorizationSet, op_key_id = 0, op_impl = ()\<rparr>)"
  "op_Begin demo_device op params out = (KM_ERROR_OK, out, op)"
  "op_Finish demo_device op params input sign outs = (KM_ERROR_OK, outs, op)" "op_Abort demo_device op = (KM_ERROR_OK, op)"
  "op_CreateOperationHandle demo_device op ctx = (KM_ERROR_OK, 9, ctx)" "sha256 demo_device blob = Some (replicate 32 0)"
  by (simp_all add: demo_device_def)

definition demo_operation :: "unit operation" where
  "demo_operation = \<lparr>op_purpose = 2, op_key_auths = demo_op_key, op_key_id = 0, op_impl = ()\<rparr>"

text \<open>The device when it is new, after the begin and after the finish.\<close>

abbreviation demo_policy :: enforcement where
  "demo_policy \<equiv> new_KeymasterEnforcement True True 4 4"

definition demo_new :: "(unit, unit) keymaster" where
  "demo_new = new_AndroidKeymaster km_alloc () (Some demo_policy) 1"

definition demo_begun :: "(unit, unit) keymaster" where
  "demo_begun = \<lparr>ak_ctx = (), ak_table = Some \<lparr>table = Some [\<lparr>e_handle = 9, e_operation = Some demo_operation\<rparr>], table_size = 1\<rparr>,
     ak_policy = Some demo_policy\<rparr>"

definition demo_finished :: "(unit, unit) keymaster" where
  "demo_finished = \<lparr>ak_ctx = (), ak_table = Some \<lparr>table = Some [empty_entry], table_size = 1\<rparr>,
     ak_policy = Some (demo_policy\<lparr>platform_calls := 1\<rparr>)\<rparr>"

definition demo_begin_request :: begin_request where
  "demo_begin_request = \<lparr>bq_purpose = 2, bq_key_blob = [1, 2], bq_additional_params = new_AuthorizationSet\<rparr>"

definition demo_begin_response :: begin_response where
  "demo_begin_response = \<lparr>br_error = KM_ERROR_UNKNOWN_ERROR, br_op_handle = 0, br_output_params = new_AuthorizationSet\<rparr>"

definition demo_finish_request :: "auth_set \<Rightarrow> finish_request" where
  "demo_finish_request params = \<lparr>fq_op_handle = 9, fq_additional_params = params, fq_input = new_Buffer, fq_signature = new_Buffer\<rparr>"

definition demo_finish_response :: finish_response where
  "demo_finish_response = \<lparr>fr_error = KM_ERROR_UNKNOWN_ERROR, fr_output_params = new_AuthorizationSet, fr_output = new_Buffer\<rparr>"

lemma demo_op_key_elems:
  "elems demo_op_key = map (\<lambda>(t, x). \<lparr>p_tag = demo_tag t, p_value = x\<rparr>)
     [(KM_TAG_PURPOSE, VInt 2), (KM_TAG_USER_SECURE_ID, VLong 5), (KM_TAG_USER_AUTH_TYPE, VInt 1), (KM_TAG_ALGORITHM, VInt 128)]"
  "set_error demo_op_key = OK"
  by (simp_all add: demo_op_key_def plain_set_def)

lemma demo_op_key_tags:
  "GetTagValueInt demo_op_key (demo_tag KM_TAG_OS_PATCHLEVEL) = Some None"
  "GetTagValueEnum demo_op_key (demo_tag KM_TAG_ALGORITHM) = Some (Some 128)"
  "GetTagValueInt new_AuthorizationSet t = Some None" "GetTagValueEnum new_AuthorizationSet t = Some None"
  by (simp_all add: GetTagValueInt_def GetTagValueEnum_def get_at_def find_tag_def demo_op_key_elems upt_rec as_int_def
      new_AuthorizationSet_def)

lemma demo_public: "is_public_key_algorithm demo_env demo_op_key = Some False"
  using demo_op_key_tags(2) by (simp add: is_public_key_algorithm_def demo_consts_def)

lemma demo_copy: "Set_Reinitialize demo_defs km_alloc (set_values demo_op_key) new_AuthorizationSet = Some (True, demo_op_key)"
  by (simp add: Set_Reinitialize_def set_values_def demo_op_key_def plain_set_def value_of_def reserve_elems_def reserve_indirect_def
      FreeData_def Set_Clear_def new_AuthorizationSet_def km_alloc_def own_param_def is_blob_tag_def demo_defs_def demo_type_def Let_def)

lemma demo_load:
  "ak_LoadKey demo_device demo_env km_alloc ctx blob params = Some (KM_ERROR_OK, new_AuthorizationSet, demo_op_key, Some ((), Some ()))"
  using demo_op_key_tags
  by (simp add: ak_LoadKey_def CheckVersionInfo_def factory_of_def demo_consts_def)

lemma demo_authorize_begin:
  "authorize_begin demo_device demo_env demo_begin_request demo_op_key (Some demo_policy) = Some (KM_ERROR_OK, Some 0, Some demo_policy)"
proof -
  have "le_word (replicate n 0) = (0 :: u64)" for n by (induction n) simp_all
  then have k: "CreateKeyId demo_device [1, 2] = Some (Some 0)" by (simp add: CreateKeyId_def)
  have a: "authorized_purpose demo_env 2 demo_op_key = Some KM_ERROR_OK"
    by (simp add: authorized_purpose_def ContainsEnumValue_def demo_op_key_elems demo_consts_def as_int_def)
  have n: "find_tag new_AuthorizationSet t 0 = None" for t by (simp add: find_tag_def new_AuthorizationSet_def)
  have l: "last_position (demo_tag KM_TAG_AUTH_TIMEOUT) demo_op_key = None" "last_position (demo_tag KM_TAG_NO_AUTH_REQUIRED) demo_op_key = None"
    by (simp_all add: last_position_None demo_op_key_elems)
  have b: "begin_loop demo_env 2 0 demo_op_key new_AuthorizationSet (elems demo_op_key) begin_start demo_policy =
      Some (KM_ERROR_OK, begin_start, demo_policy)"
    using demo_positions(4) l
    by (simp add: demo_op_key_elems begin_param_def Let_def forbidden_tags_def demo_consts_def demo_defs_def as_long_def)
  have bs: "min_ops_timeout begin_start = - 1" "\<not> update_access_count begin_start" "\<not> authentication_required begin_start"
    by (simp_all add: begin_start_def)
  show ?thesis
    using n by (simp add: authorize_begin_def demo_begin_request_def k AuthorizeOperation_def demo_public AuthorizeBegin_def a b bs
        record_time_def record_use_def demo_consts_def)
qed

lemma demo_begin_step:
  "BeginOperation demo_device demo_env km_alloc demo_begin_request demo_begin_response demo_new =
     Some (demo_begin_response\<lparr>br_error := KM_ERROR_OK, br_op_handle := 9\<rparr>, demo_begun)"
proof -
  have k: "begin_with_key demo_device demo_env km_alloc demo_begin_request (demo_begin_response\<lparr>br_op_handle := 0\<rparr>) () () demo_new =
      start_operation demo_device demo_env km_alloc demo_begin_request demo_op_key
        \<lparr>op_purpose = 2, op_key_auths = new_AuthorizationSet, op_key_id = 0, op_impl = ()\<rparr>
        (demo_begin_response\<lparr>br_op_handle := 0\<rparr>) demo_new"
    using demo_op_key_tags(2) demo_authorize_begin
    by (simp add: begin_with_key_def demo_consts_def demo_new_def new_AndroidKeymaster_def) (simp add: demo_begin_request_def)
  have "start_operation demo_device demo_env km_alloc demo_begin_request demo_op_key
        \<lparr>op_purpose = 2, op_key_auths = new_AuthorizationSet, op_key_id = 0, op_impl = ()\<rparr>
        (demo_begin_response\<lparr>br_op_handle := 0\<rparr>) demo_new =
      Some (demo_begin_response\<lparr>br_error := KM_ERROR_OK, br_op_handle := 9\<rparr>, demo_begun)"
    using demo_copy
    by (simp add: start_operation_def SetAuthorizations_def demo_new_def new_AndroidKeymaster_def new_OperationTable_def Table_Add_def
        demo_begin_response_def demo_begun_def demo_operation_def empty_entry_def Set_Clear_def) (simp add: new_AuthorizationSet_def)
  then show ?thesis by (simp add: BeginOperation_def demo_load k)
qed

lemma demo_authorized:
  "authorize_continue demo_env km_alloc demo_operation demo_token_params 9 (Some demo_policy) =
     Some (KM_ERROR_OK, Some (demo_policy\<lparr>platform_calls := 1\<rparr>))"
proof -
  have "authorizations demo_defs km_alloc demo_operation = Some demo_op_key"
    using demo_copy by (simp add: authorizations_def copy_AuthorizationSet_def demo_operation_def demo_op_key_elems)
  then show ?thesis
    using demo_positions demo_matches(2)
    by (simp add: authorize_continue_def AuthorizeOperation_def demo_public demo_operation_def AuthorizeUpdateOrFinish_def
        demo_op_key_elems demo_consts_def as_long_def new_KeymasterEnforcement_def)
qed

lemma demo_finish_step:
  "FinishOperation demo_device demo_env km_alloc (demo_finish_request demo_token_params) demo_finish_response demo_begun =
     Some (demo_finish_response\<lparr>fr_error := KM_ERROR_OK\<rparr>, demo_finished)"
  using demo_authorized
  by (simp add: FinishOperation_def demo_finish_request_def demo_begun_def Table_Find_def demo_finish_response_def demo_finished_def
      Table_Delete_def)

lemma demo_abort_step: "AbortOperation demo_device 9 demo_finished = Some (KM_ERROR_INVALID_OPERATION_HANDLE, demo_finished)"
  by (simp add: AbortOperation_def demo_finished_def Table_Find_def empty_entry_def)

abbreviation demo_events :: "(op_command \<times> keymaster_error_t \<times> u64 \<times> (unit, unit) keymaster) list" where
  "demo_events \<equiv>
     [(C_Begin demo_begin_request demo_begin_response, KM_ERROR_OK, 9, demo_new),
      (C_Finish (demo_finish_request demo_token_params) demo_finish_response, KM_ERROR_OK, 9, demo_begun),
      (C_Abort 9, KM_ERROR_INVALID_OPERATION_HANDLE, 9, demo_finished)]"

lemma demo_op_run: "op_run demo_device demo_env km_alloc (new_AndroidKeymaster km_alloc () (Some demo_policy) 1) demo_events demo_finished"
proof -
  have u: "\<not> in_use 9 demo_new"
    by (simp add: in_use_def demo_new_def new_AndroidKeymaster_def new_OperationTable_def Table_Find_def)
  have "op_run demo_device demo_env km_alloc demo_new ([] @ [(C_Begin demo_begin_request demo_begin_response, KM_ERROR_OK, 9, demo_new)]) demo_begun"
    using u demo_begin_step by (intro op_run.step op_run.start) (simp_all add: demo_begin_response_def)
  from op_run.step [OF this, of "C_Finish (demo_finish_request demo_token_params) demo_finish_response" KM_ERROR_OK 9 demo_finished]
  have "op_run demo_device demo_env km_alloc demo_new
     ([(C_Begin demo_begin_request demo_begin_response, KM_ERROR_OK, 9, demo_new)] @
      [(C_Finish (demo_finish_request demo_token_params) demo_finish_response, KM_ERROR_OK, 9, demo_begun)]) demo_finished"
    using demo_finish_step by (simp add: demo_finish_response_def) (simp add: demo_finish_request_def)
  from op_run.step [OF this, of "C_Abort 9" KM_ERROR_INVALID_OPERATION_HANDLE 9 demo_finished] show ?thesis
    using demo_abort_step by (simp add: demo_new_def)
qed

theorem operations_refine_map_witness:
  "\<exists>m'. op_run demo_device demo_env km_alloc (new_AndroidKeymaster km_alloc () (Some demo_policy) 1) (take 2 demo_events) m' \<and>
    handle_spec (C_Finish (demo_finish_request demo_token_params) demo_finish_response) KM_ERROR_OK 9 (operations demo_begun) (operations m')"
  using operations_refine_map [where tr = "take 1 demo_events" and tr' = "drop 2 demo_events" and al = km_alloc and ctx = "()" and p = "Some demo_policy" and n = 1 and
      K = demo_device and v = demo_env and m_end = demo_finished and h = 9 and e = KM_ERROR_OK and m = demo_begun and
      c = "C_Finish (demo_finish_request demo_token_params) demo_finish_response"] demo_op_run by simp

theorem ended_operation_is_gone_witness:
  "fst (the (AbortOperation demo_device 9 demo_finished)) = KM_ERROR_INVALID_OPERATION_HANDLE"
  using ended_operation_is_gone [of demo_device demo_env km_alloc "()" "Some demo_policy" 1 "take 1 demo_events"
      "C_Finish (demo_finish_request demo_token_params) demo_finish_response" KM_ERROR_OK 9 demo_begun "[]" "C_Abort 9"
      "fst (the (AbortOperation demo_device 9 demo_finished))" demo_finished demo_finished] demo_op_run demo_abort_step
  by simp

lemma demo_laws: "factories_ok demo_device" "keys_ok demo_device demo_env" "needs_token demo_env 2 demo_op_key"
  by (simp_all add: factories_ok_def keys_ok_def needs_token_def demo_op_key_elems demo_public public_operation_def demo_consts_def
      set_values_def value_of_def typed_def demo_defs_def demo_type_def Let_def value_fits_def)

theorem operation_needs_token_witness: "token_for demo_env demo_op_key 9 demo_token_params"
proof -
  have "bq_purpose q = 2" if "begun_in demo_device demo_env km_alloc (take 1 demo_events) 9 q f key" for q f key
    using that by (auto simp: begun_in_def demo_begin_request_def Cons_eq_append_conv)
  then show ?thesis
    using operation_needs_token [of demo_device demo_env km_alloc "()" demo_policy 1 "take 1 demo_events"
        "C_Finish (demo_finish_request demo_token_params) demo_finish_response" 9 demo_begun "drop 2 demo_events" demo_finished]
      demo_op_run demo_laws by (auto simp: demo_finish_request_def)
qed

theorem failed_copy_skips_authentication_witness:
  "\<exists>m'. FinishOperation demo_device demo_env \<lparr>alloc_ok = (\<lambda>n. n < 96), alloc_fill = (\<lambda>_. 0)\<rparr>
     (demo_finish_request new_AuthorizationSet) demo_finish_response demo_begun =
     Some (\<lparr>fr_error = KM_ERROR_OK, fr_output_params = new_AuthorizationSet, fr_output = new_Buffer\<rparr>, m')"
  by (rule failed_copy_skips_authentication [where op = demo_operation and s = demo_policy and impl = "()"
        and t = "\<lparr>table = Some [\<lparr>e_handle = 9, e_operation = Some demo_operation\<rparr>], table_size = 1\<rparr>"])
    (simp_all add: demo_begun_def demo_finish_request_def demo_operation_def demo_finish_response_def demo_op_key_elems demo_defs_def
      Table_Find_def)

end
