(* ===== verification/Km_Messages.thy ===== *)
theory Km_Messages
  imports Km_Commands
begin

text \<open>
  The messages of keymaster (\<open>android_keymaster_messages.h\<close> and \<open>.cpp\<close>): \<open>SerializedSize\<close>, \<open>Serialize\<close> and
  \<open>Deserialize\<close> of every request and response. A message is the record that the commands take or return;
  \<open>message_version\<close> is the argument \<open>ver\<close>. The numbers of the errors are declared outside the sources and are
  the parameter \<open>km_codes\<close>. A key blob that was not received is shown as empty; a message is only used
  when \<open>Deserialize\<close> returns true.
\<close>

section \<open>Members of messages\<close>

type_synonym 'm reader = "byte list \<Rightarrow> 'm \<Rightarrow> bool \<times> 'm \<times> byte list"

text \<open>The conjunction of two calls of \<open>Deserialize\<close>, the second of which is made when the first succeeds.\<close>

definition read_and :: "'m reader \<Rightarrow> 'm reader \<Rightarrow> 'm reader" where
  "read_and f g buf m = (case f buf m of (ok, m, buf) \<Rightarrow> if ok then g buf m else (False, m, buf))"

text \<open>Reading into a member of a message, given by its selector and its update.\<close>

definition read_into :: "('m \<Rightarrow> 'f) \<Rightarrow> (('f \<Rightarrow> 'f) \<Rightarrow> 'm \<Rightarrow> 'm) \<Rightarrow> 'f reader \<Rightarrow> 'm reader" where
  "read_into get upd read buf m = (case read buf (get m) of (ok, x, buf) \<Rightarrow> (ok, upd (\<lambda>_. x) m, buf))"

definition read_none :: "'m reader" where
  "read_none buf m = (True, m, buf)"

definition read_uint32 :: "u32 reader" where
  "read_uint32 buf x = (case copy_uint32_from_buf buf of (None, buf) \<Rightarrow> (False, x, buf) | (Some v, buf) \<Rightarrow> (True, v, buf))"

definition read_uint64 :: "u64 reader" where
  "read_uint64 buf x = (case copy_uint64_from_buf buf of (None, buf) \<Rightarrow> (False, x, buf) | (Some v, buf) \<Rightarrow> (True, v, buf))"

definition set_key_blob :: "allocator \<Rightarrow> byte list \<Rightarrow> byte list option" where
  "set_key_blob al key_material = dup_buffer al key_material"

definition key_blob_size :: "byte list \<Rightarrow> nat" where
  "key_blob_size key_blob = 4 + length key_blob"

definition serialize_key_blob :: "byte list \<Rightarrow> wbuf \<Rightarrow> wbuf" where
  "serialize_key_blob key_blob w = append_size_and_data_to_buf key_blob w"

definition deserialize_key_blob :: "allocator \<Rightarrow> byte list reader" where
  "deserialize_key_blob al buf key_blob =
     (case copy_size_and_data_from_buf al buf of (None, buf) \<Rightarrow> (False, [], buf) | (Some data, buf) \<Rightarrow> (True, data, buf))"

section \<open>Versions\<close>

definition MAX_MESSAGE_VERSION :: int where "MAX_MESSAGE_VERSION = 3"

definition MessageVersion :: "byte \<Rightarrow> byte \<Rightarrow> byte \<Rightarrow> int" where
  "MessageVersion major_ver minor_ver subminor_ver =
     (if major_ver = 0 then 0
      else if major_ver = 1 then (if minor_ver = 0 then 1 else if minor_ver = 1 then 2 else - 1)
      else if major_ver = 2 then 3
      else - 1)"

section \<open>Responses\<close>

record km_codes =
  err_code :: "keymaster_error_t \<Rightarrow> u32"
  err_of :: "u32 \<Rightarrow> keymaster_error_t"

definition Response_SerializedSize :: "('m \<Rightarrow> keymaster_error_t) \<Rightarrow> ('m \<Rightarrow> nat option) \<Rightarrow> 'm \<Rightarrow> nat option" where
  "Response_SerializedSize error NonErrorSerializedSize r =
     (if error r \<noteq> KM_ERROR_OK then Some 4 else do { n \<leftarrow> NonErrorSerializedSize r; Some (4 + n) })"

definition Response_Serialize ::
  "km_codes \<Rightarrow> ('m \<Rightarrow> keymaster_error_t) \<Rightarrow> ('m \<Rightarrow> wbuf \<Rightarrow> wbuf option) \<Rightarrow> 'm \<Rightarrow> wbuf \<Rightarrow> wbuf option" where
  "Response_Serialize C error NonErrorSerialize r w =
     (let w = append_uint32_to_buf (err_code C (error r)) w
      in if error r = KM_ERROR_OK then NonErrorSerialize r w else Some w)"

definition Response_Deserialize ::
  "km_codes \<Rightarrow> ((keymaster_error_t \<Rightarrow> keymaster_error_t) \<Rightarrow> 'm \<Rightarrow> 'm) \<Rightarrow> 'm reader \<Rightarrow> 'm reader" where
  "Response_Deserialize C error_update NonErrorDeserialize buf r =
     (case copy_uint32_from_buf buf of
        (None, buf) \<Rightarrow> (False, r, buf)
      | (Some code, buf) \<Rightarrow>
          let r = error_update (\<lambda>_. err_of C code) r
          in if err_of C code \<noteq> KM_ERROR_OK then (True, r, buf) else NonErrorDeserialize buf r)"

text \<open>Requests without members and responses with only an error.\<close>

definition empty_SerializedSize :: "'m \<Rightarrow> nat option" where "empty_SerializedSize m = Some 0"
definition empty_Serialize :: "'m \<Rightarrow> wbuf \<Rightarrow> wbuf option" where "empty_Serialize m w = Some w"

section \<open>Supported parameters\<close>

definition SupportedByAlgorithmRequest_SerializedSize :: "u32 \<Rightarrow> nat option" where
  "SupportedByAlgorithmRequest_SerializedSize algorithm = Some 4"

definition SupportedByAlgorithmRequest_Serialize :: "u32 \<Rightarrow> wbuf \<Rightarrow> wbuf option" where
  "SupportedByAlgorithmRequest_Serialize algorithm w = Some (append_uint32_to_buf algorithm w)"

definition SupportedByAlgorithmRequest_Deserialize :: "u32 reader" where
  "SupportedByAlgorithmRequest_Deserialize = read_uint32"

record algorithm_and_purpose =
  ap_algorithm :: u32
  ap_purpose :: u32

definition SupportedByAlgorithmAndPurposeRequest_SerializedSize :: "algorithm_and_purpose \<Rightarrow> nat option" where
  "SupportedByAlgorithmAndPurposeRequest_SerializedSize q = Some (4 * 2)"

definition SupportedByAlgorithmAndPurposeRequest_Serialize :: "algorithm_and_purpose \<Rightarrow> wbuf \<Rightarrow> wbuf option" where
  "SupportedByAlgorithmAndPurposeRequest_Serialize q w =
     Some (append_uint32_to_buf (ap_purpose q) (append_uint32_to_buf (ap_algorithm q) w))"

definition SupportedByAlgorithmAndPurposeRequest_Deserialize :: "algorithm_and_purpose reader" where
  "SupportedByAlgorithmAndPurposeRequest_Deserialize =
     read_and (read_into ap_algorithm ap_algorithm_update read_uint32) (read_into ap_purpose ap_purpose_update read_uint32)"

definition SupportedResponse_NonErrorSerializedSize :: "supported_response \<Rightarrow> nat option" where
  "SupportedResponse_NonErrorSerializedSize r = Some (4 + sr_results_length r * 4)"

text \<open>A null pointer is only read when the length is not zero.\<close>

definition SupportedResponse_NonErrorSerialize :: "supported_response \<Rightarrow> wbuf \<Rightarrow> wbuf option" where
  "SupportedResponse_NonErrorSerialize r w =
     (case sr_results r of
        None \<Rightarrow> if sr_results_length r = 0 then Some (append_uint32_array_to_buf [] w) else None
      | Some a \<Rightarrow> if length a < sr_results_length r then None else Some (append_uint32_array_to_buf (take (sr_results_length r) a) w))"

definition SupportedResponse_NonErrorDeserialize :: "allocator \<Rightarrow> supported_response reader" where
  "SupportedResponse_NonErrorDeserialize al buf r =
     (let r = r\<lparr>sr_results := None\<rparr>
      in case copy_uint32_array_from_buf al buf of
           (None, buf) \<Rightarrow> (False, r, buf)
         | (Some a, buf) \<Rightarrow> (True, r\<lparr>sr_results := Some a, sr_results_length := length a\<rparr>, buf))"

definition GetVersionResponse_NonErrorSerializedSize :: "version_response \<Rightarrow> nat option" where
  "GetVersionResponse_NonErrorSerializedSize r = Some 3"

text \<open>Without room the position advances nevertheless.\<close>

definition GetVersionResponse_NonErrorSerialize :: "version_response \<Rightarrow> wbuf \<Rightarrow> wbuf option" where
  "GetVersionResponse_NonErrorSerialize r w =
     Some (if wb_pos w + 3 \<le> length (wb_block w)
           then \<lparr>wb_block = memcpy_at (wb_pos w) [vr_major r, vr_minor r, vr_subminor r] (wb_block w), wb_pos = wb_pos w + 3\<rparr>
           else w\<lparr>wb_pos := wb_pos w + 3\<rparr>)"

definition GetVersionResponse_NonErrorDeserialize :: "version_response reader" where
  "GetVersionResponse_NonErrorDeserialize buf r =
     (case buf of
        a # b # c # buf \<Rightarrow> (True, r\<lparr>vr_major := a, vr_minor := b, vr_subminor := c\<rparr>, buf)
      | _ \<Rightarrow> (False, r, buf))"

section \<open>Keys\<close>

definition GenerateKeyRequest_SerializedSize :: "km_defs \<Rightarrow> auth_set \<Rightarrow> nat option" where
  "GenerateKeyRequest_SerializedSize d key_description = Some (Set_SerializedSize d key_description)"

definition GenerateKeyRequest_Serialize :: "km_defs \<Rightarrow> auth_set \<Rightarrow> wbuf \<Rightarrow> wbuf option" where
  "GenerateKeyRequest_Serialize d key_description w = Set_Serialize d key_description w"

definition GenerateKeyRequest_Deserialize :: "km_defs \<Rightarrow> allocator \<Rightarrow> auth_set reader" where
  "GenerateKeyRequest_Deserialize d al = Set_Deserialize d al"

definition GenerateKeyResponse_NonErrorSerializedSize :: "km_defs \<Rightarrow> key_response \<Rightarrow> nat option" where
  "GenerateKeyResponse_NonErrorSerializedSize d r =
     Some (key_blob_size (kr_key_blob r) + Set_SerializedSize d (kr_enforced r) + Set_SerializedSize d (kr_unenforced r))"

definition GenerateKeyResponse_NonErrorSerialize :: "km_defs \<Rightarrow> key_response \<Rightarrow> wbuf \<Rightarrow> wbuf option" where
  "GenerateKeyResponse_NonErrorSerialize d r w = do {
     let w = serialize_key_blob (kr_key_blob r) w;
     w \<leftarrow> Set_Serialize d (kr_enforced r) w;
     Set_Serialize d (kr_unenforced r) w
   }"

definition GenerateKeyResponse_NonErrorDeserialize :: "km_defs \<Rightarrow> allocator \<Rightarrow> key_response reader" where
  "GenerateKeyResponse_NonErrorDeserialize d al =
     read_and (read_into kr_key_blob kr_key_blob_update (deserialize_key_blob al))
       (read_and (read_into kr_enforced kr_enforced_update (Set_Deserialize d al))
         (read_into kr_unenforced kr_unenforced_update (Set_Deserialize d al)))"

text \<open>\<open>ImportKeyResponse\<close> has the members of \<open>GenerateKeyResponse\<close>.\<close>

definition ImportKeyResponse_NonErrorSerializedSize :: "km_defs \<Rightarrow> key_response \<Rightarrow> nat option" where
  "ImportKeyResponse_NonErrorSerializedSize d r =
     Some (key_blob_size (kr_key_blob r) + Set_SerializedSize d (kr_enforced r) + Set_SerializedSize d (kr_unenforced r))"

definition ImportKeyResponse_NonErrorSerialize :: "km_defs \<Rightarrow> key_response \<Rightarrow> wbuf \<Rightarrow> wbuf option" where
  "ImportKeyResponse_NonErrorSerialize d r w = do {
     let w = serialize_key_blob (kr_key_blob r) w;
     w \<leftarrow> Set_Serialize d (kr_enforced r) w;
     Set_Serialize d (kr_unenforced r) w
   }"

definition ImportKeyResponse_NonErrorDeserialize :: "km_defs \<Rightarrow> allocator \<Rightarrow> key_response reader" where
  "ImportKeyResponse_NonErrorDeserialize d al =
     read_and (read_into kr_key_blob kr_key_blob_update (deserialize_key_blob al))
       (read_and (read_into kr_enforced kr_enforced_update (Set_Deserialize d al))
         (read_into kr_unenforced kr_unenforced_update (Set_Deserialize d al)))"

text \<open>
  \<open>GetKeyCharacteristicsRequest\<close>, \<open>AttestKeyRequest\<close> and \<open>UpgradeKeyRequest\<close> hold a key blob and parameters.
\<close>

record blob_and_params =
  bp_key_blob :: "byte list"
  bp_params :: auth_set

definition GetKeyCharacteristicsRequest_SerializedSize :: "km_defs \<Rightarrow> blob_and_params \<Rightarrow> nat option" where
  "GetKeyCharacteristicsRequest_SerializedSize d q = Some (key_blob_size (bp_key_blob q) + Set_SerializedSize d (bp_params q))"

definition GetKeyCharacteristicsRequest_Serialize :: "km_defs \<Rightarrow> blob_and_params \<Rightarrow> wbuf \<Rightarrow> wbuf option" where
  "GetKeyCharacteristicsRequest_Serialize d q w = Set_Serialize d (bp_params q) (serialize_key_blob (bp_key_blob q) w)"

definition GetKeyCharacteristicsRequest_Deserialize :: "km_defs \<Rightarrow> allocator \<Rightarrow> blob_and_params reader" where
  "GetKeyCharacteristicsRequest_Deserialize d al =
     read_and (read_into bp_key_blob bp_key_blob_update (deserialize_key_blob al))
       (read_into bp_params bp_params_update (Set_Deserialize d al))"

definition AttestKeyRequest_SerializedSize :: "km_defs \<Rightarrow> blob_and_params \<Rightarrow> nat option" where
  "AttestKeyRequest_SerializedSize d q = Some (key_blob_size (bp_key_blob q) + Set_SerializedSize d (bp_params q))"

definition AttestKeyRequest_Serialize :: "km_defs \<Rightarrow> blob_and_params \<Rightarrow> wbuf \<Rightarrow> wbuf option" where
  "AttestKeyRequest_Serialize d q w = Set_Serialize d (bp_params q) (serialize_key_blob (bp_key_blob q) w)"

definition AttestKeyRequest_Deserialize :: "km_defs \<Rightarrow> allocator \<Rightarrow> blob_and_params reader" where
  "AttestKeyRequest_Deserialize d al =
     read_and (read_into bp_key_blob bp_key_blob_update (deserialize_key_blob al))
       (read_into bp_params bp_params_update (Set_Deserialize d al))"

definition UpgradeKeyRequest_SerializedSize :: "km_defs \<Rightarrow> blob_and_params \<Rightarrow> nat option" where
  "UpgradeKeyRequest_SerializedSize d q = Some (key_blob_size (bp_key_blob q) + Set_SerializedSize d (bp_params q))"

definition UpgradeKeyRequest_Serialize :: "km_defs \<Rightarrow> blob_and_params \<Rightarrow> wbuf \<Rightarrow> wbuf option" where
  "UpgradeKeyRequest_Serialize d q w = Set_Serialize d (bp_params q) (serialize_key_blob (bp_key_blob q) w)"

definition UpgradeKeyRequest_Deserialize :: "km_defs \<Rightarrow> allocator \<Rightarrow> blob_and_params reader" where
  "UpgradeKeyRequest_Deserialize d al =
     read_and (read_into bp_key_blob bp_key_blob_update (deserialize_key_blob al))
       (read_into bp_params bp_params_update (Set_Deserialize d al))"

definition GetKeyCharacteristicsResponse_NonErrorSerializedSize :: "km_defs \<Rightarrow> characteristics_response \<Rightarrow> nat option" where
  "GetKeyCharacteristicsResponse_NonErrorSerializedSize d r =
     Some (Set_SerializedSize d (cr_enforced r) + Set_SerializedSize d (cr_unenforced r))"

definition GetKeyCharacteristicsResponse_NonErrorSerialize :: "km_defs \<Rightarrow> characteristics_response \<Rightarrow> wbuf \<Rightarrow> wbuf option" where
  "GetKeyCharacteristicsResponse_NonErrorSerialize d r w = do {
     w \<leftarrow> Set_Serialize d (cr_enforced r) w;
     Set_Serialize d (cr_unenforced r) w
   }"

definition GetKeyCharacteristicsResponse_NonErrorDeserialize :: "km_defs \<Rightarrow> allocator \<Rightarrow> characteristics_response reader" where
  "GetKeyCharacteristicsResponse_NonErrorDeserialize d al =
     read_and (read_into cr_enforced cr_enforced_update (Set_Deserialize d al))
       (read_into cr_unenforced cr_unenforced_update (Set_Deserialize d al))"

definition DeleteKeyRequest_SerializedSize :: "byte list \<Rightarrow> nat option" where
  "DeleteKeyRequest_SerializedSize key_blob = Some (key_blob_size key_blob)"

definition DeleteKeyRequest_Serialize :: "byte list \<Rightarrow> wbuf \<Rightarrow> wbuf option" where
  "DeleteKeyRequest_Serialize key_blob w = Some (serialize_key_blob key_blob w)"

definition DeleteKeyRequest_Deserialize :: "allocator \<Rightarrow> byte list reader" where
  "DeleteKeyRequest_Deserialize al = deserialize_key_blob al"

text \<open>The responses of \<open>UpgradeKey\<close> and \<open>ExportKey\<close> are an error and bytes.\<close>

definition UpgradeKeyResponse_NonErrorSerializedSize :: "keymaster_error_t \<times> byte list \<Rightarrow> nat option" where
  "UpgradeKeyResponse_NonErrorSerializedSize r = Some (key_blob_size (snd r))"

definition UpgradeKeyResponse_NonErrorSerialize :: "keymaster_error_t \<times> byte list \<Rightarrow> wbuf \<Rightarrow> wbuf option" where
  "UpgradeKeyResponse_NonErrorSerialize r w = Some (serialize_key_blob (snd r) w)"

definition UpgradeKeyResponse_NonErrorDeserialize :: "allocator \<Rightarrow> (keymaster_error_t \<times> byte list) reader" where
  "UpgradeKeyResponse_NonErrorDeserialize al = read_into snd apsnd (deserialize_key_blob al)"

definition ExportKeyResponse_NonErrorSerializedSize :: "keymaster_error_t \<times> byte list \<Rightarrow> nat option" where
  "ExportKeyResponse_NonErrorSerializedSize r = Some (4 + length (snd r))"

definition ExportKeyResponse_NonErrorSerialize :: "keymaster_error_t \<times> byte list \<Rightarrow> wbuf \<Rightarrow> wbuf option" where
  "ExportKeyResponse_NonErrorSerialize r w = Some (append_size_and_data_to_buf (snd r) w)"

definition ExportKeyResponse_NonErrorDeserialize :: "allocator \<Rightarrow> (keymaster_error_t \<times> byte list) reader" where
  "ExportKeyResponse_NonErrorDeserialize al buf r =
     (case copy_size_and_data_from_buf al buf of
        (None, buf) \<Rightarrow> (False, (fst r, []), buf)
      | (Some data, buf) \<Rightarrow> (True, (fst r, data), buf))"

record import_request =
  iq_key_description :: auth_set
  iq_key_format :: u32
  iq_key_data :: "byte list"

definition ImportKeyRequest_SerializedSize :: "km_defs \<Rightarrow> import_request \<Rightarrow> nat option" where
  "ImportKeyRequest_SerializedSize d q = Some (Set_SerializedSize d (iq_key_description q) + 4 + 4 + length (iq_key_data q))"

definition ImportKeyRequest_Serialize :: "km_defs \<Rightarrow> import_request \<Rightarrow> wbuf \<Rightarrow> wbuf option" where
  "ImportKeyRequest_Serialize d q w = do {
     w \<leftarrow> Set_Serialize d (iq_key_description q) w;
     let w = append_uint32_to_buf (iq_key_format q) w;
     Some (append_size_and_data_to_buf (iq_key_data q) w)
   }"

definition ImportKeyRequest_Deserialize :: "km_defs \<Rightarrow> allocator \<Rightarrow> import_request reader" where
  "ImportKeyRequest_Deserialize d al buf q =
     read_and (read_into iq_key_description iq_key_description_update (Set_Deserialize d al))
       (read_and (read_into iq_key_format iq_key_format_update read_uint32)
         (read_into iq_key_data iq_key_data_update
           (\<lambda>buf x. case copy_size_and_data_from_buf al buf of (None, buf) \<Rightarrow> (False, x, buf) | (Some data, buf) \<Rightarrow> (True, data, buf))))
       buf (q\<lparr>iq_key_data := []\<rparr>)"

record export_request =
  eq_additional_params :: auth_set
  eq_key_format :: u32
  eq_key_blob :: "byte list"

definition ExportKeyRequest_SerializedSize :: "km_defs \<Rightarrow> export_request \<Rightarrow> nat option" where
  "ExportKeyRequest_SerializedSize d q = Some (Set_SerializedSize d (eq_additional_params q) + 4 + key_blob_size (eq_key_blob q))"

definition ExportKeyRequest_Serialize :: "km_defs \<Rightarrow> export_request \<Rightarrow> wbuf \<Rightarrow> wbuf option" where
  "ExportKeyRequest_Serialize d q w = do {
     w \<leftarrow> Set_Serialize d (eq_additional_params q) w;
     let w = append_uint32_to_buf (eq_key_format q) w;
     Some (serialize_key_blob (eq_key_blob q) w)
   }"

definition ExportKeyRequest_Deserialize :: "km_defs \<Rightarrow> allocator \<Rightarrow> export_request reader" where
  "ExportKeyRequest_Deserialize d al =
     read_and (read_into eq_additional_params eq_additional_params_update (Set_Deserialize d al))
       (read_and (read_into eq_key_format eq_key_format_update read_uint32)
         (read_into eq_key_blob eq_key_blob_update (deserialize_key_blob al)))"

text \<open>The certificate chain of \<open>AttestKeyResponse\<close>.\<close>

definition kMaxChainEntryCount :: nat where "kMaxChainEntryCount = 10"

definition AllocateChain :: "allocator \<Rightarrow> nat \<Rightarrow> byte list list \<Rightarrow> bool \<times> byte list list" where
  "AllocateChain al entry_count chain =
     (if entry_count > kMaxChainEntryCount then (False, chain)
      else if \<not> alloc_ok al (16 * entry_count) then (False, [])
      else (True, replicate entry_count []))"

definition AttestKeyResponse_NonErrorSerializedSize :: "keymaster_error_t \<times> byte list list \<Rightarrow> nat option" where
  "AttestKeyResponse_NonErrorSerializedSize r = Some (4 + sum_list (map (\<lambda>entry. 4 + length entry) (snd r)))"

definition AttestKeyResponse_NonErrorSerialize :: "keymaster_error_t \<times> byte list list \<Rightarrow> wbuf \<Rightarrow> wbuf option" where
  "AttestKeyResponse_NonErrorSerialize r w =
     Some (foldl (\<lambda>w entry. append_size_and_data_to_buf entry w) (append_uint32_to_buf (of_nat (length (snd r))) w) (snd r))"

fun read_chain :: "allocator \<Rightarrow> byte list list reader" where
  "read_chain al buf [] = (True, [], buf)"
| "read_chain al buf (x # xs) =
     (case copy_size_and_data_from_buf al buf of
        (None, buf) \<Rightarrow> (False, x # xs, buf)
      | (Some data, buf) \<Rightarrow> (case read_chain al buf xs of (ok, xs, buf) \<Rightarrow> (ok, data # xs, buf)))"

definition AttestKeyResponse_NonErrorDeserialize :: "allocator \<Rightarrow> (keymaster_error_t \<times> byte list list) reader" where
  "AttestKeyResponse_NonErrorDeserialize al buf r =
     (case copy_uint32_from_buf buf of
        (None, buf) \<Rightarrow> (False, r, buf)
      | (Some entry_count, buf) \<Rightarrow>
          (case AllocateChain al (unat entry_count) (snd r) of
             (False, chain) \<Rightarrow> (False, (fst r, chain), buf)
           | (True, chain) \<Rightarrow> (case read_chain al buf chain of (ok, chain, buf) \<Rightarrow> (ok, (fst r, chain), buf))))"

record configure_request =
  cq_os_version :: u32
  cq_os_patchlevel :: u32

definition ConfigureRequest_SerializedSize :: "configure_request \<Rightarrow> nat option" where
  "ConfigureRequest_SerializedSize q = Some (4 + 4)"

definition ConfigureRequest_Serialize :: "configure_request \<Rightarrow> wbuf \<Rightarrow> wbuf option" where
  "ConfigureRequest_Serialize q w = Some (append_uint32_to_buf (cq_os_patchlevel q) (append_uint32_to_buf (cq_os_version q) w))"

definition ConfigureRequest_Deserialize :: "configure_request reader" where
  "ConfigureRequest_Deserialize =
     read_and (read_into cq_os_version cq_os_version_update read_uint32) (read_into cq_os_patchlevel cq_os_patchlevel_update read_uint32)"

definition AddEntropyRequest_SerializedSize :: "km_buffer \<Rightarrow> nat option" where
  "AddEntropyRequest_SerializedSize random_data = Buffer_SerializedSize random_data"

definition AddEntropyRequest_Serialize :: "km_buffer \<Rightarrow> wbuf \<Rightarrow> wbuf option" where
  "AddEntropyRequest_Serialize random_data w = Buffer_Serialize random_data w"

definition AddEntropyRequest_Deserialize :: "allocator \<Rightarrow> km_buffer reader" where
  "AddEntropyRequest_Deserialize al = Buffer_Deserialize al"

section \<open>Operations\<close>

definition BeginOperationRequest_SerializedSize :: "km_defs \<Rightarrow> begin_request \<Rightarrow> nat option" where
  "BeginOperationRequest_SerializedSize d q =
     Some (4 + key_blob_size (bq_key_blob q) + Set_SerializedSize d (bq_additional_params q))"

definition BeginOperationRequest_Serialize :: "km_defs \<Rightarrow> begin_request \<Rightarrow> wbuf \<Rightarrow> wbuf option" where
  "BeginOperationRequest_Serialize d q w =
     Set_Serialize d (bq_additional_params q) (serialize_key_blob (bq_key_blob q) (append_uint32_to_buf (bq_purpose q) w))"

definition BeginOperationRequest_Deserialize :: "km_defs \<Rightarrow> allocator \<Rightarrow> begin_request reader" where
  "BeginOperationRequest_Deserialize d al =
     read_and (read_into bq_purpose bq_purpose_update read_uint32)
       (read_and (read_into bq_key_blob bq_key_blob_update (deserialize_key_blob al))
         (read_into bq_additional_params bq_additional_params_update (Set_Deserialize d al)))"

definition BeginOperationResponse_NonErrorSerializedSize :: "km_defs \<Rightarrow> u32 \<Rightarrow> begin_response \<Rightarrow> nat option" where
  "BeginOperationResponse_NonErrorSerializedSize d ver r =
     (if ver = 0 then Some 8 else Some (8 + Set_SerializedSize d (br_output_params r)))"

definition BeginOperationResponse_NonErrorSerialize :: "km_defs \<Rightarrow> u32 \<Rightarrow> begin_response \<Rightarrow> wbuf \<Rightarrow> wbuf option" where
  "BeginOperationResponse_NonErrorSerialize d ver r w =
     (let w = append_uint64_to_buf (br_op_handle r) w
      in if ver > 0 then Set_Serialize d (br_output_params r) w else Some w)"

definition BeginOperationResponse_NonErrorDeserialize :: "km_defs \<Rightarrow> allocator \<Rightarrow> u32 \<Rightarrow> begin_response reader" where
  "BeginOperationResponse_NonErrorDeserialize d al ver =
     read_and (read_into br_op_handle br_op_handle_update read_uint64)
       (if ver > 0 then read_into br_output_params br_output_params_update (Set_Deserialize d al) else read_none)"

definition UpdateOperationRequest_SerializedSize :: "km_defs \<Rightarrow> u32 \<Rightarrow> update_request \<Rightarrow> nat option" where
  "UpdateOperationRequest_SerializedSize d ver q = do {
     n \<leftarrow> Buffer_SerializedSize (uq_input q);
     Some (if ver = 0 then 8 + n else 8 + n + Set_SerializedSize d (uq_additional_params q))
   }"

definition UpdateOperationRequest_Serialize :: "km_defs \<Rightarrow> u32 \<Rightarrow> update_request \<Rightarrow> wbuf \<Rightarrow> wbuf option" where
  "UpdateOperationRequest_Serialize d ver q w = do {
     let w = append_uint64_to_buf (uq_op_handle q) w;
     w \<leftarrow> Buffer_Serialize (uq_input q) w;
     if ver > 0 then Set_Serialize d (uq_additional_params q) w else Some w
   }"

definition UpdateOperationRequest_Deserialize :: "km_defs \<Rightarrow> allocator \<Rightarrow> u32 \<Rightarrow> update_request reader" where
  "UpdateOperationRequest_Deserialize d al ver =
     read_and (read_into uq_op_handle uq_op_handle_update read_uint64)
       (read_and (read_into uq_input uq_input_update (Buffer_Deserialize al))
         (if ver > 0 then read_into uq_additional_params uq_additional_params_update (Set_Deserialize d al) else read_none))"

text \<open>The versions above 3 end in a failed assertion.\<close>

definition UpdateOperationResponse_NonErrorSerializedSize :: "km_defs \<Rightarrow> u32 \<Rightarrow> update_response \<Rightarrow> nat option" where
  "UpdateOperationResponse_NonErrorSerializedSize d ver r =
     (if ver > 3 then None
      else do {
        n \<leftarrow> Buffer_SerializedSize (ur_output r);
        Some ((if ver \<ge> 2 then Set_SerializedSize d (ur_output_params r) else 0) + (if ver \<ge> 1 then 4 else 0) + n)
      })"

definition UpdateOperationResponse_NonErrorSerialize :: "km_defs \<Rightarrow> u32 \<Rightarrow> update_response \<Rightarrow> wbuf \<Rightarrow> wbuf option" where
  "UpdateOperationResponse_NonErrorSerialize d ver r w = do {
     w \<leftarrow> Buffer_Serialize (ur_output r) w;
     let w = (if ver > 0 then append_uint32_to_buf (of_nat (ur_input_consumed r)) w else w);
     if ver > 1 then Set_Serialize d (ur_output_params r) w else Some w
   }"

definition UpdateOperationResponse_NonErrorDeserialize :: "km_defs \<Rightarrow> allocator \<Rightarrow> u32 \<Rightarrow> update_response reader" where
  "UpdateOperationResponse_NonErrorDeserialize d al ver =
     read_and (read_into ur_output ur_output_update (Buffer_Deserialize al))
       (read_and
         (if ver > 0
          then read_into ur_input_consumed ur_input_consumed_update
            (\<lambda>buf x. case copy_uint32_from_buf buf of (None, buf) \<Rightarrow> (False, x, buf) | (Some n, buf) \<Rightarrow> (True, unat n, buf))
          else read_none)
         (if ver > 1 then read_into ur_output_params ur_output_params_update (Set_Deserialize d al) else read_none))"

definition FinishOperationRequest_SerializedSize :: "km_defs \<Rightarrow> u32 \<Rightarrow> finish_request \<Rightarrow> nat option" where
  "FinishOperationRequest_SerializedSize d ver q =
     (if ver > 3 then None
      else do {
        i \<leftarrow> (if ver = 3 then Buffer_SerializedSize (fq_input q) else Some 0);
        s \<leftarrow> Buffer_SerializedSize (fq_signature q);
        Some (i + (if ver \<ge> 1 then Set_SerializedSize d (fq_additional_params q) else 0) + 8 + s)
      })"

definition FinishOperationRequest_Serialize :: "km_defs \<Rightarrow> u32 \<Rightarrow> finish_request \<Rightarrow> wbuf \<Rightarrow> wbuf option" where
  "FinishOperationRequest_Serialize d ver q w = do {
     let w = append_uint64_to_buf (fq_op_handle q) w;
     w \<leftarrow> Buffer_Serialize (fq_signature q) w;
     w \<leftarrow> (if ver > 0 then Set_Serialize d (fq_additional_params q) w else Some w);
     if ver > 2 then Buffer_Serialize (fq_input q) w else Some w
   }"

definition FinishOperationRequest_Deserialize :: "km_defs \<Rightarrow> allocator \<Rightarrow> u32 \<Rightarrow> finish_request reader" where
  "FinishOperationRequest_Deserialize d al ver =
     read_and (read_into fq_op_handle fq_op_handle_update read_uint64)
       (read_and (read_into fq_signature fq_signature_update (Buffer_Deserialize al))
         (read_and
           (if ver > 0 then read_into fq_additional_params fq_additional_params_update (Set_Deserialize d al) else read_none)
           (if ver > 2 then read_into fq_input fq_input_update (Buffer_Deserialize al) else read_none)))"

definition FinishOperationResponse_NonErrorSerializedSize :: "km_defs \<Rightarrow> u32 \<Rightarrow> finish_response \<Rightarrow> nat option" where
  "FinishOperationResponse_NonErrorSerializedSize d ver r = do {
     n \<leftarrow> Buffer_SerializedSize (fr_output r);
     Some (if ver < 2 then n else n + Set_SerializedSize d (fr_output_params r))
   }"

definition FinishOperationResponse_NonErrorSerialize :: "km_defs \<Rightarrow> u32 \<Rightarrow> finish_response \<Rightarrow> wbuf \<Rightarrow> wbuf option" where
  "FinishOperationResponse_NonErrorSerialize d ver r w = do {
     w \<leftarrow> Buffer_Serialize (fr_output r) w;
     if ver > 1 then Set_Serialize d (fr_output_params r) w else Some w
   }"

definition FinishOperationResponse_NonErrorDeserialize :: "km_defs \<Rightarrow> allocator \<Rightarrow> u32 \<Rightarrow> finish_response reader" where
  "FinishOperationResponse_NonErrorDeserialize d al ver =
     read_and (read_into fr_output fr_output_update (Buffer_Deserialize al))
       (if ver > 1 then read_into fr_output_params fr_output_params_update (Set_Deserialize d al) else read_none)"

definition AbortOperationRequest_SerializedSize :: "u64 \<Rightarrow> nat option" where
  "AbortOperationRequest_SerializedSize op_handle = Some 8"

definition AbortOperationRequest_Serialize :: "u64 \<Rightarrow> wbuf \<Rightarrow> wbuf option" where
  "AbortOperationRequest_Serialize op_handle w = Some (append_uint64_to_buf op_handle w)"

definition AbortOperationRequest_Deserialize :: "u64 reader" where
  "AbortOperationRequest_Deserialize = read_uint64"

end
