(* ===== verification/Km_Resend.thy ===== *)
theory Km_Resend
  imports Km_Messages
begin

text \<open>
  Every keymaster message arrives as it was sent: the contract of a serializable class, which the members and
  all messages keep, and that a response keeps it when the part behind the error does.
\<close>

section \<open>The contract\<close>

text \<open>Reading a message of one class as one of a type of several.\<close>

definition read_as :: "('m \<Rightarrow> 'n) \<Rightarrow> 'm reader \<Rightarrow> byte list \<Rightarrow> 'm \<Rightarrow> bool \<times> 'n \<times> byte list" where
  "read_as con deser buf m = (case deser buf m of (ok, m, buf) \<Rightarrow> (ok, con m, buf))"

text \<open>A message of a given size is written, fills the block, and is read again with the property \<open>P\<close>.\<close>

definition arrives ::
  "nat option \<Rightarrow> (wbuf \<Rightarrow> wbuf option) \<Rightarrow> (byte list \<Rightarrow> bool \<times> 'n \<times> byte list) \<Rightarrow> ('n \<Rightarrow> bool) \<Rightarrow> byte list \<Rightarrow> bool" where
  "arrives announced write_to read_from P rest \<longleftrightarrow>
     (\<exists>n w m'. announced = Some n \<and> write_to \<lparr>wb_block = replicate n 0, wb_pos = 0\<rparr> = Some w \<and> wb_pos w = n \<and>
        read_from (wb_block w @ rest) = (True, m', rest) \<and> P m')"

locale km_message =
  fixes bytes :: "'m \<Rightarrow> byte list"
    and size :: "'m \<Rightarrow> nat option"
    and ser :: "'m \<Rightarrow> wbuf \<Rightarrow> wbuf option"
    and deser :: "'m reader"
    and good :: "'m \<Rightarrow> bool"
    and same :: "'m \<Rightarrow> 'm \<Rightarrow> bool"
  assumes size_bytes: "good m \<Longrightarrow> size m = Some (length (bytes m))"
    and write_bytes: "good m \<Longrightarrow> has_room (length (bytes m)) w \<Longrightarrow> ser m w = Some (put (bytes m) w)"
    and read_bytes: "good m \<Longrightarrow> \<exists>m'. deser (bytes m @ rest) m0 = (True, m', rest) \<and> same m m'"
begin

text \<open>Sending a message in a block of the size that \<open>SerializedSize\<close> gives, and receiving it.\<close>

lemma resend:
  assumes "good m"
  shows "\<exists>n w m'. size m = Some n \<and> ser m \<lparr>wb_block = replicate n 0, wb_pos = 0\<rparr> = Some w \<and> wb_pos w = n \<and>
    deser (wb_block w @ rest) m0 = (True, m', rest) \<and> same m m'"
proof -
  let ?n = "length (bytes m)" and ?w = "\<lparr>wb_block = replicate (length (bytes m)) 0, wb_pos = 0\<rparr>"
  have "has_room ?n ?w" by (simp add: has_room_def)
  from write_bytes [OF assms this] have "ser m ?w = Some (put (bytes m) ?w)" .
  moreover have "wb_block (put (bytes m) ?w) = bytes m" "wb_pos (put (bytes m) ?w) = ?n"
    by (simp_all add: put_def memcpy_at_def)
  ultimately show ?thesis using size_bytes [OF assms] read_bytes [OF assms, of rest m0] by (metis (no_types))
qed

lemma resend_as:
  "good m \<Longrightarrow> arrives (size m) (ser m) (\<lambda>buf. read_as con deser buf m0) (\<lambda>M. \<exists>m'. M = con m' \<and> same m m') rest"
  unfolding arrives_def using resend [of m rest m0] by (fastforce simp: read_as_def)

end

text \<open>A response: an error, and the rest of the message when the error is \<open>KM_ERROR_OK\<close>.\<close>

locale km_response = body: km_message bytes size ser deser good same
  for bytes :: "'m \<Rightarrow> byte list" and size ser deser good same +
  fixes C :: km_codes
    and error :: "'m \<Rightarrow> keymaster_error_t"
    and error_update :: "(keymaster_error_t \<Rightarrow> keymaster_error_t) \<Rightarrow> 'm \<Rightarrow> 'm"
  assumes error_update: "error (error_update (\<lambda>_. e) m) = e"
    and read_error: "deser buf m0 = (ok, m', rest) \<Longrightarrow> error m' = error m0"
begin

lemma response_size:
  "(error m = KM_ERROR_OK \<Longrightarrow> good m) \<Longrightarrow>
   Response_SerializedSize error size m =
     Some (length (le_bytes 4 (err_code C (error m)) @ (if error m = KM_ERROR_OK then bytes m else [])))"
  by (simp add: Response_SerializedSize_def body.size_bytes)

lemma response_write:
  "(error m = KM_ERROR_OK \<Longrightarrow> good m) \<Longrightarrow>
   has_room (length (le_bytes 4 (err_code C (error m)) @ (if error m = KM_ERROR_OK then bytes m else []))) w \<Longrightarrow>
   Response_Serialize C error ser m w =
     Some (put (le_bytes 4 (err_code C (error m)) @ (if error m = KM_ERROR_OK then bytes m else [])) w)"
  by (auto simp: Response_Serialize_def append_uint_room has_room_le has_room_put body.write_bytes put_put)

lemma response_read:
  assumes "err_of C (err_code C (error m)) = error m" "error m = KM_ERROR_OK \<Longrightarrow> good m"
  shows "\<exists>m'. Response_Deserialize C error_update deser
      ((le_bytes 4 (err_code C (error m)) @ (if error m = KM_ERROR_OK then bytes m else [])) @ rest) m0 = (True, m', rest) \<and>
    error m' = error m \<and> (error m = KM_ERROR_OK \<longrightarrow> same m m')"
proof (cases "error m = KM_ERROR_OK")
  case True
  obtain m' where r: "deser (bytes m @ rest) (error_update (\<lambda>_. KM_ERROR_OK) m0) = (True, m', rest)" "same m m'"
    using body.read_bytes [OF assms(2) [OF True]] by blast
  then show ?thesis using True assms(1) read_error [OF r(1)] error_update by (simp add: Response_Deserialize_def)
next
  case False
  then show ?thesis using assms(1) error_update by (simp add: Response_Deserialize_def)
qed

end

sublocale km_response \<subseteq> response: km_message "\<lambda>m. le_bytes 4 (err_code C (error m)) @ (if error m = KM_ERROR_OK then bytes m else [])"
  "Response_SerializedSize error size" "Response_Serialize C error ser" "Response_Deserialize C error_update deser"
  "\<lambda>m. err_of C (err_code C (error m)) = error m \<and> (error m = KM_ERROR_OK \<longrightarrow> good m)"
  "\<lambda>m m'. error m' = error m \<and> (error m = KM_ERROR_OK \<longrightarrow> same m m')"
  by unfold_locales (use response_size response_write response_read in blast)+

section \<open>Members\<close>

definition sendable_set :: "km_defs \<Rightarrow> auth_set \<Rightarrow> bool" where
  "sendable_set d s \<longleftrightarrow> list_all (\<lambda>p. sendable d p \<and> in_range (length (indirect_data s)) p) (elems s) \<and>
     elems_indirect_size d (elems s) = length (indirect_data s) \<and> Set_SerializedSize d s < 2 ^ 32"

definition sendable_buffer :: "km_buffer \<Rightarrow> bool" where
  "sendable_buffer b \<longleftrightarrow> Buffer_ok b \<and> length (readable b) < 2 ^ 32"

text \<open>What arrives of a set and of a buffer.\<close>

definition received_set :: "auth_set \<Rightarrow> auth_set" where
  "received_set s = \<lparr>elems = elems s, elems_capacity = length (elems s), indirect_data = indirect_data s,
     indirect_data_capacity = 0, indirect_block = length (indirect_data s), set_error = OK\<rparr>"

definition received_buffer :: "km_buffer \<Rightarrow> km_buffer" where
  "received_buffer b = \<lparr>buffer_data = readable b, read_position = 0, write_position = length (readable b)\<rparr>"

definition blob_bytes :: "byte list \<Rightarrow> byte list" where
  "blob_bytes b = le_bytes 4 (of_nat (length b) :: u32) @ b"

definition array_bytes :: "u32 list \<Rightarrow> byte list" where
  "array_bytes a = le_bytes 4 (of_nat (length a) :: u32) @ concat (map (le_bytes 4) a)"

lemma received_simps [simp]: "set_values (received_set s) = set_values s" "readable (received_buffer b) = readable b"
  by (simp_all add: received_set_def set_values_def received_buffer_def readable_def [of "\<lparr>buffer_data = _, read_position = _, write_position = _\<rparr>"] window_def)

lemma put_simps [simp]: "wb_pos (put bs w) = wb_pos w + length bs" 
  "wb_pos w + length bs \<le> length (wb_block w) \<Longrightarrow> length (wb_block (put bs w)) = length (wb_block w)"
  by (simp_all add: put_def)

text \<open>The rules for writing, with the room counted in the block.\<close>

lemma write_members:
  "wb_pos w + 4 \<le> length (wb_block w) \<Longrightarrow> append_uint32_to_buf v w = put (le_bytes 4 v) w"
  "wb_pos w + 8 \<le> length (wb_block w) \<Longrightarrow> append_uint64_to_buf x w = put (le_bytes 8 x) w"
  "wb_pos w + length (blob_bytes b) \<le> length (wb_block w) \<Longrightarrow> append_size_and_data_to_buf b w = put (blob_bytes b) w"
  "wb_pos w + length (blob_bytes b) \<le> length (wb_block w) \<Longrightarrow> serialize_key_blob b w = put (blob_bytes b) w"
  "sendable_set d s \<Longrightarrow> wb_pos w + length (set_bytes d s) \<le> length (wb_block w) \<Longrightarrow> Set_Serialize d s w = Some (put (set_bytes d s) w)"
  "sendable_buffer bf \<Longrightarrow> wb_pos w + length (blob_bytes (readable bf)) \<le> length (wb_block w) \<Longrightarrow>
   Buffer_Serialize bf w = Some (put (blob_bytes (readable bf)) w)"
proof -
  show "wb_pos w + 4 \<le> length (wb_block w) \<Longrightarrow> append_uint32_to_buf v w = put (le_bytes 4 v) w"
    "wb_pos w + 8 \<le> length (wb_block w) \<Longrightarrow> append_uint64_to_buf x w = put (le_bytes 8 x) w"
    by (simp_all add: append_uint_room has_room_def)
  show blob: "append_size_and_data_to_buf b w = put (blob_bytes b) w" if "wb_pos w + length (blob_bytes b) \<le> length (wb_block w)" for b
    using that append_size_and_data_room [of b w] by (simp add: blob_bytes_def has_room_def)
  show "wb_pos w + length (blob_bytes b) \<le> length (wb_block w) \<Longrightarrow> serialize_key_blob b w = put (blob_bytes b) w"
    by (simp add: serialize_key_blob_def blob)
  show "sendable_buffer bf \<Longrightarrow> wb_pos w + length (blob_bytes (readable bf)) \<le> length (wb_block w) \<Longrightarrow>
      Buffer_Serialize bf w = Some (put (blob_bytes (readable bf)) w)"
    by (simp add: Buffer_Serialize_def sendable_buffer_def peek_read_ok blob)
  assume s: "sendable_set d s" "wb_pos w + length (set_bytes d s) \<le> length (wb_block w)"
  have "list_all (sendable d) (elems s)" using s(1) by (auto simp: sendable_set_def list_all_iff)
  then show "Set_Serialize d s w = Some (put (set_bytes d s) w)"
    using s(2) Set_Serialize_put [of d s w] by (simp add: has_room_def length_set_bytes)
qed

lemma member_sizes:
  "sendable_set d s \<Longrightarrow> Set_SerializedSize d s = length (set_bytes d s)"
  "key_blob_size b = length (blob_bytes b)" "length (blob_bytes b) = 4 + length b"
  "sendable_buffer bf \<Longrightarrow> Buffer_SerializedSize bf = Some (length (blob_bytes (readable bf)))"
proof -
  assume "sendable_set d s"
  then have "list_all (sendable d) (elems s)" by (auto simp: sendable_set_def list_all_iff)
  then show "Set_SerializedSize d s = length (set_bytes d s)" by (simp add: length_set_bytes)
qed (simp_all add: key_blob_size_def blob_bytes_def Buffer_SerializedSize_def sendable_buffer_def)

lemma read_members:
  "read_uint32 (le_bytes 4 v @ rest) v0 = (True, v, rest)" "read_uint64 (le_bytes 8 x @ rest) x0 = (True, x, rest)"
  "alloc_total al \<Longrightarrow> length b < 2 ^ 32 \<Longrightarrow> copy_size_and_data_from_buf al (blob_bytes b @ rest) = (Some b, rest)"
  "alloc_total al \<Longrightarrow> sendable_set d s \<Longrightarrow> Set_Deserialize d al (set_bytes d s @ rest) s0 = (True, received_set s, rest)"
  "alloc_total al \<Longrightarrow> sendable_buffer bf \<Longrightarrow>
   Buffer_Deserialize al (blob_bytes (readable bf) @ rest) b0 = (True, received_buffer bf, rest)"
proof -
  show "read_uint32 (le_bytes 4 v @ rest) v0 = (True, v, rest)" "read_uint64 (le_bytes 8 x @ rest) x0 = (True, x, rest)"
    by (simp_all add: read_uint32_def read_uint64_def)
  assume al: "alloc_total al"
  show blob: "copy_size_and_data_from_buf al (blob_bytes b @ rest) = (Some b, rest)" if "length b < 2 ^ 32" for b
    using that al copy_size_and_data_append [of b al rest] by (simp add: blob_bytes_def)
  show "sendable_buffer bf \<Longrightarrow> Buffer_Deserialize al (blob_bytes (readable bf) @ rest) b0 = (True, received_buffer bf, rest)"
    by (simp add: Buffer_Deserialize_def sendable_buffer_def blob Buffer_Clear_def received_buffer_def)
  assume s: "sendable_set d s"
  then have "length (indirect_data s) < 2 ^ 32" "SerializedSizeOfElements d s < 2 ^ 32"
    by (simp_all add: sendable_set_def Set_SerializedSize_def)
  then show "Set_Deserialize d al (set_bytes d s @ rest) s0 = (True, received_set s, rest)"
    using Set_Deserialize_bytes [of d s al rest s0] s al by (simp add: sendable_set_def received_set_def)
qed

lemmas message_rules = write_members member_sizes read_members put_put has_room_def read_and_def read_into_def read_none_def deserialize_key_blob_def

section \<open>Messages\<close>

interpretation SupportedByAlgorithmRequest: km_message
  "\<lambda>m. le_bytes 4 m"
  "SupportedByAlgorithmRequest_SerializedSize" "SupportedByAlgorithmRequest_Serialize" "SupportedByAlgorithmRequest_Deserialize"
  "\<lambda>m. True"
  "\<lambda>m m'. m' = m"
  by unfold_locales
    (auto simp: SupportedByAlgorithmRequest_SerializedSize_def SupportedByAlgorithmRequest_Serialize_def SupportedByAlgorithmRequest_Deserialize_def message_rules)

interpretation SupportedByAlgorithmAndPurposeRequest: km_message
  "\<lambda>m. le_bytes 4 (ap_algorithm m) @ le_bytes 4 (ap_purpose m)"
  "SupportedByAlgorithmAndPurposeRequest_SerializedSize" "SupportedByAlgorithmAndPurposeRequest_Serialize" "SupportedByAlgorithmAndPurposeRequest_Deserialize"
  "\<lambda>m. True"
  "\<lambda>m m'. ap_algorithm m' = ap_algorithm m \<and> ap_purpose m' = ap_purpose m"
  by unfold_locales
    (auto simp: SupportedByAlgorithmAndPurposeRequest_SerializedSize_def SupportedByAlgorithmAndPurposeRequest_Serialize_def SupportedByAlgorithmAndPurposeRequest_Deserialize_def message_rules)

interpretation GenerateKeyRequest: km_message
  "\<lambda>m. set_bytes d m"
  "GenerateKeyRequest_SerializedSize d" "GenerateKeyRequest_Serialize d" "GenerateKeyRequest_Deserialize d al"
  "\<lambda>m. alloc_total al \<and> sendable_set d m"
  "\<lambda>m m'. set_values m' = set_values m" for d al
  by unfold_locales
    (auto simp: GenerateKeyRequest_SerializedSize_def GenerateKeyRequest_Serialize_def GenerateKeyRequest_Deserialize_def message_rules)

interpretation GetKeyCharacteristicsRequest: km_message
  "\<lambda>m. blob_bytes (bp_key_blob m) @ set_bytes d (bp_params m)"
  "GetKeyCharacteristicsRequest_SerializedSize d" "GetKeyCharacteristicsRequest_Serialize d" "GetKeyCharacteristicsRequest_Deserialize d al"
  "\<lambda>m. alloc_total al \<and> length (bp_key_blob m) < 2 ^ 32 \<and> sendable_set d (bp_params m)"
  "\<lambda>m m'. bp_key_blob m' = bp_key_blob m \<and> set_values (bp_params m') = set_values (bp_params m)" for d al
  by unfold_locales
    (auto simp: GetKeyCharacteristicsRequest_SerializedSize_def GetKeyCharacteristicsRequest_Serialize_def GetKeyCharacteristicsRequest_Deserialize_def message_rules)

interpretation AttestKeyRequest: km_message
  "\<lambda>m. blob_bytes (bp_key_blob m) @ set_bytes d (bp_params m)"
  "AttestKeyRequest_SerializedSize d" "AttestKeyRequest_Serialize d" "AttestKeyRequest_Deserialize d al"
  "\<lambda>m. alloc_total al \<and> length (bp_key_blob m) < 2 ^ 32 \<and> sendable_set d (bp_params m)"
  "\<lambda>m m'. bp_key_blob m' = bp_key_blob m \<and> set_values (bp_params m') = set_values (bp_params m)" for d al
  by unfold_locales
    (auto simp: AttestKeyRequest_SerializedSize_def AttestKeyRequest_Serialize_def AttestKeyRequest_Deserialize_def message_rules)

interpretation UpgradeKeyRequest: km_message
  "\<lambda>m. blob_bytes (bp_key_blob m) @ set_bytes d (bp_params m)"
  "UpgradeKeyRequest_SerializedSize d" "UpgradeKeyRequest_Serialize d" "UpgradeKeyRequest_Deserialize d al"
  "\<lambda>m. alloc_total al \<and> length (bp_key_blob m) < 2 ^ 32 \<and> sendable_set d (bp_params m)"
  "\<lambda>m m'. bp_key_blob m' = bp_key_blob m \<and> set_values (bp_params m') = set_values (bp_params m)" for d al
  by unfold_locales
    (auto simp: UpgradeKeyRequest_SerializedSize_def UpgradeKeyRequest_Serialize_def UpgradeKeyRequest_Deserialize_def message_rules)

interpretation DeleteKeyRequest: km_message
  "\<lambda>m. blob_bytes m"
  "DeleteKeyRequest_SerializedSize" "DeleteKeyRequest_Serialize" "DeleteKeyRequest_Deserialize al"
  "\<lambda>m. alloc_total al \<and> length m < 2 ^ 32"
  "\<lambda>m m'. m' = m" for al
  by unfold_locales
    (auto simp: DeleteKeyRequest_SerializedSize_def DeleteKeyRequest_Serialize_def DeleteKeyRequest_Deserialize_def message_rules)

interpretation ImportKeyRequest: km_message
  "\<lambda>m. set_bytes d (iq_key_description m) @ le_bytes 4 (iq_key_format m) @ blob_bytes (iq_key_data m)"
  "ImportKeyRequest_SerializedSize d" "ImportKeyRequest_Serialize d" "ImportKeyRequest_Deserialize d al"
  "\<lambda>m. alloc_total al \<and> sendable_set d (iq_key_description m) \<and> length (iq_key_data m) < 2 ^ 32"
  "\<lambda>m m'. set_values (iq_key_description m') = set_values (iq_key_description m) \<and> iq_key_format m' = iq_key_format m \<and> iq_key_data m' = iq_key_data m" for d al
  by unfold_locales
    (auto simp: ImportKeyRequest_SerializedSize_def ImportKeyRequest_Serialize_def ImportKeyRequest_Deserialize_def message_rules)

interpretation ExportKeyRequest: km_message
  "\<lambda>m. set_bytes d (eq_additional_params m) @ le_bytes 4 (eq_key_format m) @ blob_bytes (eq_key_blob m)"
  "ExportKeyRequest_SerializedSize d" "ExportKeyRequest_Serialize d" "ExportKeyRequest_Deserialize d al"
  "\<lambda>m. alloc_total al \<and> sendable_set d (eq_additional_params m) \<and> length (eq_key_blob m) < 2 ^ 32"
  "\<lambda>m m'. set_values (eq_additional_params m') = set_values (eq_additional_params m) \<and> eq_key_format m' = eq_key_format m \<and> eq_key_blob m' = eq_key_blob m" for d al
  by unfold_locales
    (auto simp: ExportKeyRequest_SerializedSize_def ExportKeyRequest_Serialize_def ExportKeyRequest_Deserialize_def message_rules)

interpretation ConfigureRequest: km_message
  "\<lambda>m. le_bytes 4 (cq_os_version m) @ le_bytes 4 (cq_os_patchlevel m)"
  "ConfigureRequest_SerializedSize" "ConfigureRequest_Serialize" "ConfigureRequest_Deserialize"
  "\<lambda>m. True"
  "\<lambda>m m'. cq_os_version m' = cq_os_version m \<and> cq_os_patchlevel m' = cq_os_patchlevel m"
  by unfold_locales
    (auto simp: ConfigureRequest_SerializedSize_def ConfigureRequest_Serialize_def ConfigureRequest_Deserialize_def message_rules)

interpretation AddEntropyRequest: km_message
  "\<lambda>m. blob_bytes (readable m)"
  "AddEntropyRequest_SerializedSize" "AddEntropyRequest_Serialize" "AddEntropyRequest_Deserialize al"
  "\<lambda>m. alloc_total al \<and> sendable_buffer m"
  "\<lambda>m m'. readable m' = readable m" for al
  by unfold_locales
    (auto simp: AddEntropyRequest_SerializedSize_def AddEntropyRequest_Serialize_def AddEntropyRequest_Deserialize_def message_rules)

interpretation BeginOperationRequest: km_message
  "\<lambda>m. le_bytes 4 (bq_purpose m) @ blob_bytes (bq_key_blob m) @ set_bytes d (bq_additional_params m)"
  "BeginOperationRequest_SerializedSize d" "BeginOperationRequest_Serialize d" "BeginOperationRequest_Deserialize d al"
  "\<lambda>m. alloc_total al \<and> length (bq_key_blob m) < 2 ^ 32 \<and> sendable_set d (bq_additional_params m)"
  "\<lambda>m m'. bq_purpose m' = bq_purpose m \<and> bq_key_blob m' = bq_key_blob m \<and> set_values (bq_additional_params m') = set_values (bq_additional_params m)" for d al
  by unfold_locales
    (auto simp: BeginOperationRequest_SerializedSize_def BeginOperationRequest_Serialize_def BeginOperationRequest_Deserialize_def message_rules)

interpretation UpdateOperationRequest: km_message
  "\<lambda>m. le_bytes 8 (uq_op_handle m) @ blob_bytes (readable (uq_input m)) @ (if 0 < ver then set_bytes d (uq_additional_params m) else [])"
  "UpdateOperationRequest_SerializedSize d ver" "UpdateOperationRequest_Serialize d ver" "UpdateOperationRequest_Deserialize d al ver"
  "\<lambda>m. alloc_total al \<and> sendable_buffer (uq_input m) \<and> sendable_set d (uq_additional_params m)"
  "\<lambda>m m'. uq_op_handle m' = uq_op_handle m \<and> readable (uq_input m') = readable (uq_input m) \<and> (0 < ver \<longrightarrow> set_values (uq_additional_params m') = set_values (uq_additional_params m))" for d al ver
  by unfold_locales
    (auto simp: UpdateOperationRequest_SerializedSize_def UpdateOperationRequest_Serialize_def UpdateOperationRequest_Deserialize_def message_rules word_gt_0)

text \<open>Comparing versions.\<close>

lemma version_order:
  "(1 :: u32) \<le> v \<longleftrightarrow> 0 < v" "(2 :: u32) \<le> v \<longleftrightarrow> 1 < v" "(v :: u32) < 2 \<longleftrightarrow> \<not> 1 < v"
  "(v :: u32) \<le> 3 \<Longrightarrow> v = 3 \<longleftrightarrow> 2 < v" "(v :: u32) \<le> 3 \<Longrightarrow> \<not> 3 < v" "1 < v \<Longrightarrow> 0 < (v :: u32)" "2 < v \<Longrightarrow> 0 < (v :: u32)"
  by (auto simp: word_le_nat_alt word_less_nat_alt word_unat_eq_iff)

lemma unat_of_small: "n < 2 ^ 32 \<Longrightarrow> unat (of_nat n :: u32) = n"
  by (simp add: unat_of_nat take_bit_nat_eq_self)

interpretation FinishOperationRequest: km_message
  "\<lambda>m. le_bytes 8 (fq_op_handle m) @ blob_bytes (readable (fq_signature m)) @ (if 0 < ver then set_bytes d (fq_additional_params m) else []) @ (if 2 < ver then blob_bytes (readable (fq_input m)) else [])"
  "FinishOperationRequest_SerializedSize d ver" "FinishOperationRequest_Serialize d ver" "FinishOperationRequest_Deserialize d al ver"
  "\<lambda>m. alloc_total al \<and> sendable_buffer (fq_signature m) \<and> sendable_set d (fq_additional_params m) \<and> sendable_buffer (fq_input m) \<and> ver \<le> 3"
  "\<lambda>m m'. fq_op_handle m' = fq_op_handle m \<and> readable (fq_signature m') = readable (fq_signature m) \<and> (0 < ver \<longrightarrow> set_values (fq_additional_params m') = set_values (fq_additional_params m)) \<and> (2 < ver \<longrightarrow> readable (fq_input m') = readable (fq_input m))" for d al ver
  by unfold_locales
    (auto simp: FinishOperationRequest_SerializedSize_def FinishOperationRequest_Serialize_def FinishOperationRequest_Deserialize_def message_rules version_order)

interpretation AbortOperationRequest: km_message
  "\<lambda>m. le_bytes 8 m"
  "AbortOperationRequest_SerializedSize" "AbortOperationRequest_Serialize" "AbortOperationRequest_Deserialize"
  "\<lambda>m. True"
  "\<lambda>m m'. m' = m"
  by unfold_locales
    (auto simp: AbortOperationRequest_SerializedSize_def AbortOperationRequest_Serialize_def AbortOperationRequest_Deserialize_def message_rules)

interpretation GenerateKeyResponse: km_response
  "\<lambda>m. blob_bytes (kr_key_blob m) @ set_bytes d (kr_enforced m) @ set_bytes d (kr_unenforced m)"
  "GenerateKeyResponse_NonErrorSerializedSize d" "GenerateKeyResponse_NonErrorSerialize d" "GenerateKeyResponse_NonErrorDeserialize d al"
  "\<lambda>m. alloc_total al \<and> length (kr_key_blob m) < 2 ^ 32 \<and> sendable_set d (kr_enforced m) \<and> sendable_set d (kr_unenforced m)"
  "\<lambda>m m'. kr_key_blob m' = kr_key_blob m \<and> set_values (kr_enforced m') = set_values (kr_enforced m) \<and> set_values (kr_unenforced m') = set_values (kr_unenforced m)"
  C kr_error kr_error_update for d al C
  by unfold_locales
    (auto simp: GenerateKeyResponse_NonErrorSerializedSize_def GenerateKeyResponse_NonErrorSerialize_def GenerateKeyResponse_NonErrorDeserialize_def message_rules split: prod.splits if_splits option.splits list.splits)

interpretation ImportKeyResponse: km_response
  "\<lambda>m. blob_bytes (kr_key_blob m) @ set_bytes d (kr_enforced m) @ set_bytes d (kr_unenforced m)"
  "ImportKeyResponse_NonErrorSerializedSize d" "ImportKeyResponse_NonErrorSerialize d" "ImportKeyResponse_NonErrorDeserialize d al"
  "\<lambda>m. alloc_total al \<and> length (kr_key_blob m) < 2 ^ 32 \<and> sendable_set d (kr_enforced m) \<and> sendable_set d (kr_unenforced m)"
  "\<lambda>m m'. kr_key_blob m' = kr_key_blob m \<and> set_values (kr_enforced m') = set_values (kr_enforced m) \<and> set_values (kr_unenforced m') = set_values (kr_unenforced m)"
  C kr_error kr_error_update for d al C
  by unfold_locales
    (auto simp: ImportKeyResponse_NonErrorSerializedSize_def ImportKeyResponse_NonErrorSerialize_def ImportKeyResponse_NonErrorDeserialize_def message_rules split: prod.splits if_splits option.splits list.splits)

interpretation GetKeyCharacteristicsResponse: km_response
  "\<lambda>m. set_bytes d (cr_enforced m) @ set_bytes d (cr_unenforced m)"
  "GetKeyCharacteristicsResponse_NonErrorSerializedSize d" "GetKeyCharacteristicsResponse_NonErrorSerialize d" "GetKeyCharacteristicsResponse_NonErrorDeserialize d al"
  "\<lambda>m. alloc_total al \<and> sendable_set d (cr_enforced m) \<and> sendable_set d (cr_unenforced m)"
  "\<lambda>m m'. set_values (cr_enforced m') = set_values (cr_enforced m) \<and> set_values (cr_unenforced m') = set_values (cr_unenforced m)"
  C cr_error cr_error_update for d al C
  by unfold_locales
    (auto simp: GetKeyCharacteristicsResponse_NonErrorSerializedSize_def GetKeyCharacteristicsResponse_NonErrorSerialize_def GetKeyCharacteristicsResponse_NonErrorDeserialize_def message_rules split: prod.splits if_splits option.splits list.splits)

interpretation UpgradeKeyResponse: km_response
  "\<lambda>m. blob_bytes (snd m)"
  "UpgradeKeyResponse_NonErrorSerializedSize" "UpgradeKeyResponse_NonErrorSerialize" "UpgradeKeyResponse_NonErrorDeserialize al"
  "\<lambda>m. alloc_total al \<and> length (snd m) < 2 ^ 32"
  "\<lambda>m m'. snd m' = snd m"
  C fst apfst for al C
  by unfold_locales
    (auto simp: UpgradeKeyResponse_NonErrorSerializedSize_def UpgradeKeyResponse_NonErrorSerialize_def UpgradeKeyResponse_NonErrorDeserialize_def message_rules split: prod.splits if_splits option.splits list.splits)

interpretation ExportKeyResponse: km_response
  "\<lambda>m. blob_bytes (snd m)"
  "ExportKeyResponse_NonErrorSerializedSize" "ExportKeyResponse_NonErrorSerialize" "ExportKeyResponse_NonErrorDeserialize al"
  "\<lambda>m. alloc_total al \<and> length (snd m) < 2 ^ 32"
  "\<lambda>m m'. snd m' = snd m"
  C fst apfst for al C
  by unfold_locales
    (auto simp: ExportKeyResponse_NonErrorSerializedSize_def ExportKeyResponse_NonErrorSerialize_def ExportKeyResponse_NonErrorDeserialize_def message_rules split: prod.splits if_splits option.splits list.splits)

interpretation BeginOperationResponse: km_response
  "\<lambda>m. le_bytes 8 (br_op_handle m) @ (if 0 < ver then set_bytes d (br_output_params m) else [])"
  "BeginOperationResponse_NonErrorSerializedSize d ver" "BeginOperationResponse_NonErrorSerialize d ver" "BeginOperationResponse_NonErrorDeserialize d al ver"
  "\<lambda>m. alloc_total al \<and> sendable_set d (br_output_params m)"
  "\<lambda>m m'. br_op_handle m' = br_op_handle m \<and> (0 < ver \<longrightarrow> set_values (br_output_params m') = set_values (br_output_params m))"
  C br_error br_error_update for d al ver C
  by unfold_locales
    (auto simp: BeginOperationResponse_NonErrorSerializedSize_def BeginOperationResponse_NonErrorSerialize_def BeginOperationResponse_NonErrorDeserialize_def message_rules word_gt_0 split: prod.splits if_splits option.splits list.splits)

interpretation UpdateOperationResponse: km_response
  "\<lambda>m. blob_bytes (readable (ur_output m)) @ (if 0 < ver then le_bytes 4 (of_nat (ur_input_consumed m) :: u32) else []) @ (if 1 < ver then set_bytes d (ur_output_params m) else [])"
  "UpdateOperationResponse_NonErrorSerializedSize d ver" "UpdateOperationResponse_NonErrorSerialize d ver" "UpdateOperationResponse_NonErrorDeserialize d al ver"
  "\<lambda>m. alloc_total al \<and> sendable_buffer (ur_output m) \<and> ur_input_consumed m < 2 ^ 32 \<and> sendable_set d (ur_output_params m) \<and> ver \<le> 3"
  "\<lambda>m m'. readable (ur_output m') = readable (ur_output m) \<and> (0 < ver \<longrightarrow> ur_input_consumed m' = ur_input_consumed m) \<and> (1 < ver \<longrightarrow> set_values (ur_output_params m') = set_values (ur_output_params m))"
  C ur_error ur_error_update for d al ver C
  by unfold_locales
    (auto simp: UpdateOperationResponse_NonErrorSerializedSize_def UpdateOperationResponse_NonErrorSerialize_def UpdateOperationResponse_NonErrorDeserialize_def message_rules version_order unat_of_small split: prod.splits if_splits option.splits list.splits)

interpretation FinishOperationResponse: km_response
  "\<lambda>m. blob_bytes (readable (fr_output m)) @ (if 1 < ver then set_bytes d (fr_output_params m) else [])"
  "FinishOperationResponse_NonErrorSerializedSize d ver" "FinishOperationResponse_NonErrorSerialize d ver" "FinishOperationResponse_NonErrorDeserialize d al ver"
  "\<lambda>m. alloc_total al \<and> sendable_buffer (fr_output m) \<and> sendable_set d (fr_output_params m)"
  "\<lambda>m m'. readable (fr_output m') = readable (fr_output m) \<and> (1 < ver \<longrightarrow> set_values (fr_output_params m') = set_values (fr_output_params m))"
  C fr_error fr_error_update for d al ver C
  by unfold_locales
    (auto simp: FinishOperationResponse_NonErrorSerializedSize_def FinishOperationResponse_NonErrorSerialize_def FinishOperationResponse_NonErrorDeserialize_def message_rules version_order split: prod.splits if_splits option.splits list.splits)

text \<open>The lists of supported parameters.\<close>

lemma append_uint32s: "wb_pos w + 4 * length a \<le> length (wb_block w) \<Longrightarrow>
  foldl (\<lambda>w v. append_uint32_to_buf v w) w a = put (concat (map (le_bytes 4) a)) w"
proof (induction a arbitrary: w)
  case Nil
  then show ?case by (cases w) (simp add: put_def memcpy_at_def)
next
  case (Cons v a)
  have l: "length (concat (map (le_bytes 4) xs)) = 4 * length xs" for xs :: "u32 list" by (induction xs) simp_all
  then show ?case using Cons by (simp add: message_rules)
qed

lemma length_array_bytes: "length (array_bytes a) = 4 + 4 * length a"
  unfolding array_bytes_def by (induction a) simp_all

lemma write_array:
  assumes "length a < (2 ^ 32 - 1) div 4" "wb_pos w + length (array_bytes a) \<le> length (wb_block w)"
  shows "append_uint32_array_to_buf a w = put (array_bytes a) w"
proof -
  have "length (concat (map (le_bytes 4) a)) = 4 * length a" by (induction a) simp_all
  then show ?thesis
    using assms length_array_bytes [of a]
    by (simp add: append_uint32_array_to_buf_def append_uint32s message_rules) (simp add: array_bytes_def)
qed

lemma copy_uint32s_bytes: "copy_uint32s (length a) (concat (map (le_bytes 4) a) @ rest) = (Some a, rest)"
  by (induction a) simp_all

lemma read_array:
  assumes "length a < (2 ^ 32 - 1) div 4" "alloc_total al"
  shows "copy_uint32_array_from_buf al (array_bytes a @ rest) = (Some a, rest)"
proof -
  have "length (concat (map (le_bytes 4) a)) = 4 * length a" by (induction a) simp_all
  then show ?thesis
    using assms by (simp add: copy_uint32_array_from_buf_def array_bytes_def unat_of_small copy_uint32s_bytes)
qed

interpretation SupportedResponse: km_response "\<lambda>m. array_bytes (the (sr_results m))"
  SupportedResponse_NonErrorSerializedSize SupportedResponse_NonErrorSerialize "SupportedResponse_NonErrorDeserialize al"
  "\<lambda>m. alloc_total al \<and> (\<exists>a. sr_results m = Some a \<and> sr_results_length m = length a \<and> length a < (2 ^ 32 - 1) div 4)"
  "\<lambda>m m'. sr_results m' = sr_results m \<and> sr_results_length m' = sr_results_length m"
  C sr_error sr_error_update for al C
  by unfold_locales
    (auto simp: SupportedResponse_NonErrorSerializedSize_def SupportedResponse_NonErrorSerialize_def Let_def
      SupportedResponse_NonErrorDeserialize_def length_array_bytes write_array read_array has_room_def split: prod.splits option.splits)

interpretation GetVersionResponse: km_response "\<lambda>m. [vr_major m, vr_minor m, vr_subminor m]"
  GetVersionResponse_NonErrorSerializedSize GetVersionResponse_NonErrorSerialize GetVersionResponse_NonErrorDeserialize
  "\<lambda>m. True" "\<lambda>m m'. vr_major m' = vr_major m \<and> vr_minor m' = vr_minor m \<and> vr_subminor m' = vr_subminor m"
  C vr_error vr_error_update for C
  by unfold_locales
    (auto simp: GetVersionResponse_NonErrorSerializedSize_def GetVersionResponse_NonErrorSerialize_def
      GetVersionResponse_NonErrorDeserialize_def has_room_def put_def split: list.splits)

text \<open>The certificate chain.\<close>

lemma append_chain: "wb_pos w + sum_list (map (\<lambda>e. 4 + length e) es) \<le> length (wb_block w) \<Longrightarrow>
  foldl (\<lambda>w e. append_size_and_data_to_buf e w) w es = put (concat (map blob_bytes es)) w"
proof (induction es arbitrary: w)
  case Nil
  then show ?case by (cases w) (simp add: put_def memcpy_at_def)
next
  case (Cons e es)
  have l: "length (concat (map blob_bytes xs)) = sum_list (map (\<lambda>e. 4 + length e) xs)" for xs
    by (induction xs) (simp_all add: member_sizes)
  then show ?case using Cons by (simp add: message_rules)
qed

lemma read_chain_bytes:
  "alloc_total al \<Longrightarrow> list_all (\<lambda>e. length e < 2 ^ 32) es \<Longrightarrow>
   read_chain al (concat (map blob_bytes es) @ rest) (replicate (length es) []) = (True, es, rest)"
  by (induction es) (simp_all add: read_members)

lemma chain_length: "length (concat (map blob_bytes es)) = sum_list (map (\<lambda>e. 4 + length e) es)"
  by (induction es) (simp_all add: member_sizes)

lemma read_chain_error: "AttestKeyResponse_NonErrorDeserialize al buf m0 = (ok, m', rest) \<Longrightarrow> fst m' = fst m0"
  by (auto simp: AttestKeyResponse_NonErrorDeserialize_def split: prod.splits option.splits bool.splits)

lemma read_attest:
  assumes "alloc_total al" "length es \<le> kMaxChainEntryCount" "list_all (\<lambda>e. length e < 2 ^ 32) es"
  shows "AttestKeyResponse_NonErrorDeserialize al (le_bytes 4 (of_nat (length es) :: u32) @ concat (map blob_bytes es) @ rest) m0 =
    (True, (fst m0, es), rest)"
  using assms read_chain_bytes [OF assms(1,3)]
  by (simp add: AttestKeyResponse_NonErrorDeserialize_def unat_of_small kMaxChainEntryCount_def AllocateChain_def)

interpretation AttestKeyResponse: km_response
  "\<lambda>m. le_bytes 4 (of_nat (length (snd m)) :: u32) @ concat (map blob_bytes (snd m))"
  AttestKeyResponse_NonErrorSerializedSize AttestKeyResponse_NonErrorSerialize "AttestKeyResponse_NonErrorDeserialize al"
  "\<lambda>m. alloc_total al \<and> length (snd m) \<le> kMaxChainEntryCount \<and> list_all (\<lambda>e. length e < 2 ^ 32) (snd m)"
  "\<lambda>m m'. snd m' = snd m" C fst apfst for al C
proof unfold_locales
  fix m m0 :: "keymaster_error_t \<times> byte list list" and w rest
  show "AttestKeyResponse_NonErrorSerializedSize m =
      Some (length (le_bytes 4 (of_nat (length (snd m)) :: u32) @ concat (map blob_bytes (snd m))))"
    by (simp add: AttestKeyResponse_NonErrorSerializedSize_def chain_length)
  assume g: "alloc_total al \<and> length (snd m) \<le> kMaxChainEntryCount \<and> list_all (\<lambda>e. length e < 2 ^ 32) (snd m)"
  show "\<exists>m'. AttestKeyResponse_NonErrorDeserialize al
      ((le_bytes 4 (of_nat (length (snd m)) :: u32) @ concat (map blob_bytes (snd m))) @ rest) m0 = (True, m', rest) \<and> snd m' = snd m"
    using g read_attest [of al "snd m" rest m0] by simp
  assume "has_room (length (le_bytes 4 (of_nat (length (snd m)) :: u32) @ concat (map blob_bytes (snd m)))) w"
  then show "AttestKeyResponse_NonErrorSerialize m w =
      Some (put (le_bytes 4 (of_nat (length (snd m)) :: u32) @ concat (map blob_bytes (snd m))) w)"
    by (simp add: AttestKeyResponse_NonErrorSerialize_def append_chain message_rules chain_length)
qed (use read_chain_error in auto)

text \<open>Messages without members.\<close>

lemma put_Nil: "put [] w = w"
  by (cases w) (simp add: put_def memcpy_at_def)

interpretation empty_request: km_message "\<lambda>m :: unit. []" empty_SerializedSize empty_Serialize read_none "\<lambda>m. True" "\<lambda>m m'. True"
  by unfold_locales (simp_all add: empty_SerializedSize_def empty_Serialize_def read_none_def put_Nil)

interpretation empty_response: km_response "\<lambda>m. []" empty_SerializedSize empty_Serialize read_none "\<lambda>m. True" "\<lambda>m m'. True"
  C "\<lambda>e. e" "\<lambda>f e. f e" for C
  by unfold_locales (simp_all add: empty_SerializedSize_def empty_Serialize_def read_none_def put_Nil)

end
