(* ===== verification/Km_MsgTheorems.thy ===== *)
theory Km_MsgTheorems
  imports Km_Resend Km_Demo
begin

text \<open>
  All keymaster messages in one type, the class of a message being its constructor, and that every one of them
  survives being sent.
\<close>

section \<open>All messages\<close>

datatype km_msg =
  M_SupportedByAlgorithmRequest u32
| M_SupportedByAlgorithmAndPurposeRequest algorithm_and_purpose
| M_GenerateKeyRequest auth_set
| M_GetKeyCharacteristicsRequest blob_and_params
| M_AttestKeyRequest blob_and_params
| M_UpgradeKeyRequest blob_and_params
| M_DeleteKeyRequest "byte list"
| M_ImportKeyRequest import_request
| M_ExportKeyRequest export_request
| M_ConfigureRequest configure_request
| M_AddEntropyRequest km_buffer
| M_BeginOperationRequest begin_request
| M_UpdateOperationRequest update_request
| M_FinishOperationRequest finish_request
| M_AbortOperationRequest u64
| M_GenerateKeyResponse key_response
| M_ImportKeyResponse key_response
| M_GetKeyCharacteristicsResponse characteristics_response
| M_UpgradeKeyResponse "keymaster_error_t \<times> byte list"
| M_ExportKeyResponse "keymaster_error_t \<times> byte list"
| M_BeginOperationResponse begin_response
| M_UpdateOperationResponse update_response
| M_FinishOperationResponse finish_response
| M_SupportedResponse supported_response
| M_GetVersionResponse version_response
| M_AttestKeyResponse "keymaster_error_t \<times> byte list list"
| M_EmptyRequest unit
| M_EmptyResponse keymaster_error_t

primrec msg_SerializedSize :: "km_defs \<Rightarrow> u32 \<Rightarrow> km_msg \<Rightarrow> nat option" where
  "msg_SerializedSize d ver (M_SupportedByAlgorithmRequest m) = SupportedByAlgorithmRequest_SerializedSize m"
| "msg_SerializedSize d ver (M_SupportedByAlgorithmAndPurposeRequest m) = SupportedByAlgorithmAndPurposeRequest_SerializedSize m"
| "msg_SerializedSize d ver (M_GenerateKeyRequest m) = GenerateKeyRequest_SerializedSize d m"
| "msg_SerializedSize d ver (M_GetKeyCharacteristicsRequest m) = GetKeyCharacteristicsRequest_SerializedSize d m"
| "msg_SerializedSize d ver (M_AttestKeyRequest m) = AttestKeyRequest_SerializedSize d m"
| "msg_SerializedSize d ver (M_UpgradeKeyRequest m) = UpgradeKeyRequest_SerializedSize d m"
| "msg_SerializedSize d ver (M_DeleteKeyRequest m) = DeleteKeyRequest_SerializedSize m"
| "msg_SerializedSize d ver (M_ImportKeyRequest m) = ImportKeyRequest_SerializedSize d m"
| "msg_SerializedSize d ver (M_ExportKeyRequest m) = ExportKeyRequest_SerializedSize d m"
| "msg_SerializedSize d ver (M_ConfigureRequest m) = ConfigureRequest_SerializedSize m"
| "msg_SerializedSize d ver (M_AddEntropyRequest m) = AddEntropyRequest_SerializedSize m"
| "msg_SerializedSize d ver (M_BeginOperationRequest m) = BeginOperationRequest_SerializedSize d m"
| "msg_SerializedSize d ver (M_UpdateOperationRequest m) = UpdateOperationRequest_SerializedSize d ver m"
| "msg_SerializedSize d ver (M_FinishOperationRequest m) = FinishOperationRequest_SerializedSize d ver m"
| "msg_SerializedSize d ver (M_AbortOperationRequest m) = AbortOperationRequest_SerializedSize m"
| "msg_SerializedSize d ver (M_GenerateKeyResponse m) = Response_SerializedSize kr_error (GenerateKeyResponse_NonErrorSerializedSize d) m"
| "msg_SerializedSize d ver (M_ImportKeyResponse m) = Response_SerializedSize kr_error (ImportKeyResponse_NonErrorSerializedSize d) m"
| "msg_SerializedSize d ver (M_GetKeyCharacteristicsResponse m) = Response_SerializedSize cr_error (GetKeyCharacteristicsResponse_NonErrorSerializedSize d) m"
| "msg_SerializedSize d ver (M_UpgradeKeyResponse m) = Response_SerializedSize fst UpgradeKeyResponse_NonErrorSerializedSize m"
| "msg_SerializedSize d ver (M_ExportKeyResponse m) = Response_SerializedSize fst ExportKeyResponse_NonErrorSerializedSize m"
| "msg_SerializedSize d ver (M_BeginOperationResponse m) = Response_SerializedSize br_error (BeginOperationResponse_NonErrorSerializedSize d ver) m"
| "msg_SerializedSize d ver (M_UpdateOperationResponse m) = Response_SerializedSize ur_error (UpdateOperationResponse_NonErrorSerializedSize d ver) m"
| "msg_SerializedSize d ver (M_FinishOperationResponse m) = Response_SerializedSize fr_error (FinishOperationResponse_NonErrorSerializedSize d ver) m"
| "msg_SerializedSize d ver (M_SupportedResponse m) = Response_SerializedSize sr_error SupportedResponse_NonErrorSerializedSize m"
| "msg_SerializedSize d ver (M_GetVersionResponse m) = Response_SerializedSize vr_error GetVersionResponse_NonErrorSerializedSize m"
| "msg_SerializedSize d ver (M_AttestKeyResponse m) = Response_SerializedSize fst AttestKeyResponse_NonErrorSerializedSize m"
| "msg_SerializedSize d ver (M_EmptyRequest m) = empty_SerializedSize m"
| "msg_SerializedSize d ver (M_EmptyResponse m) = Response_SerializedSize (\<lambda>e. e) empty_SerializedSize m"

primrec msg_Serialize :: "km_defs \<Rightarrow> km_codes \<Rightarrow> u32 \<Rightarrow> km_msg \<Rightarrow> wbuf \<Rightarrow> wbuf option" where
  "msg_Serialize d C ver (M_SupportedByAlgorithmRequest m) w = SupportedByAlgorithmRequest_Serialize m w"
| "msg_Serialize d C ver (M_SupportedByAlgorithmAndPurposeRequest m) w = SupportedByAlgorithmAndPurposeRequest_Serialize m w"
| "msg_Serialize d C ver (M_GenerateKeyRequest m) w = GenerateKeyRequest_Serialize d m w"
| "msg_Serialize d C ver (M_GetKeyCharacteristicsRequest m) w = GetKeyCharacteristicsRequest_Serialize d m w"
| "msg_Serialize d C ver (M_AttestKeyRequest m) w = AttestKeyRequest_Serialize d m w"
| "msg_Serialize d C ver (M_UpgradeKeyRequest m) w = UpgradeKeyRequest_Serialize d m w"
| "msg_Serialize d C ver (M_DeleteKeyRequest m) w = DeleteKeyRequest_Serialize m w"
| "msg_Serialize d C ver (M_ImportKeyRequest m) w = ImportKeyRequest_Serialize d m w"
| "msg_Serialize d C ver (M_ExportKeyRequest m) w = ExportKeyRequest_Serialize d m w"
| "msg_Serialize d C ver (M_ConfigureRequest m) w = ConfigureRequest_Serialize m w"
| "msg_Serialize d C ver (M_AddEntropyRequest m) w = AddEntropyRequest_Serialize m w"
| "msg_Serialize d C ver (M_BeginOperationRequest m) w = BeginOperationRequest_Serialize d m w"
| "msg_Serialize d C ver (M_UpdateOperationRequest m) w = UpdateOperationRequest_Serialize d ver m w"
| "msg_Serialize d C ver (M_FinishOperationRequest m) w = FinishOperationRequest_Serialize d ver m w"
| "msg_Serialize d C ver (M_AbortOperationRequest m) w = AbortOperationRequest_Serialize m w"
| "msg_Serialize d C ver (M_GenerateKeyResponse m) w = Response_Serialize C kr_error (GenerateKeyResponse_NonErrorSerialize d) m w"
| "msg_Serialize d C ver (M_ImportKeyResponse m) w = Response_Serialize C kr_error (ImportKeyResponse_NonErrorSerialize d) m w"
| "msg_Serialize d C ver (M_GetKeyCharacteristicsResponse m) w = Response_Serialize C cr_error (GetKeyCharacteristicsResponse_NonErrorSerialize d) m w"
| "msg_Serialize d C ver (M_UpgradeKeyResponse m) w = Response_Serialize C fst UpgradeKeyResponse_NonErrorSerialize m w"
| "msg_Serialize d C ver (M_ExportKeyResponse m) w = Response_Serialize C fst ExportKeyResponse_NonErrorSerialize m w"
| "msg_Serialize d C ver (M_BeginOperationResponse m) w = Response_Serialize C br_error (BeginOperationResponse_NonErrorSerialize d ver) m w"
| "msg_Serialize d C ver (M_UpdateOperationResponse m) w = Response_Serialize C ur_error (UpdateOperationResponse_NonErrorSerialize d ver) m w"
| "msg_Serialize d C ver (M_FinishOperationResponse m) w = Response_Serialize C fr_error (FinishOperationResponse_NonErrorSerialize d ver) m w"
| "msg_Serialize d C ver (M_SupportedResponse m) w = Response_Serialize C sr_error SupportedResponse_NonErrorSerialize m w"
| "msg_Serialize d C ver (M_GetVersionResponse m) w = Response_Serialize C vr_error GetVersionResponse_NonErrorSerialize m w"
| "msg_Serialize d C ver (M_AttestKeyResponse m) w = Response_Serialize C fst AttestKeyResponse_NonErrorSerialize m w"
| "msg_Serialize d C ver (M_EmptyRequest m) w = empty_Serialize m w"
| "msg_Serialize d C ver (M_EmptyResponse m) w = Response_Serialize C (\<lambda>e. e) empty_Serialize m w"

text \<open>The message is read into one of the class that the receiver expects.\<close>

primrec msg_Deserialize :: "km_defs \<Rightarrow> allocator \<Rightarrow> km_codes \<Rightarrow> u32 \<Rightarrow> km_msg reader" where
  "msg_Deserialize d al C ver buf (M_SupportedByAlgorithmRequest m) = read_as M_SupportedByAlgorithmRequest SupportedByAlgorithmRequest_Deserialize buf m"
| "msg_Deserialize d al C ver buf (M_SupportedByAlgorithmAndPurposeRequest m) = read_as M_SupportedByAlgorithmAndPurposeRequest SupportedByAlgorithmAndPurposeRequest_Deserialize buf m"
| "msg_Deserialize d al C ver buf (M_GenerateKeyRequest m) = read_as M_GenerateKeyRequest (GenerateKeyRequest_Deserialize d al) buf m"
| "msg_Deserialize d al C ver buf (M_GetKeyCharacteristicsRequest m) = read_as M_GetKeyCharacteristicsRequest (GetKeyCharacteristicsRequest_Deserialize d al) buf m"
| "msg_Deserialize d al C ver buf (M_AttestKeyRequest m) = read_as M_AttestKeyRequest (AttestKeyRequest_Deserialize d al) buf m"
| "msg_Deserialize d al C ver buf (M_UpgradeKeyRequest m) = read_as M_UpgradeKeyRequest (UpgradeKeyRequest_Deserialize d al) buf m"
| "msg_Deserialize d al C ver buf (M_DeleteKeyRequest m) = read_as M_DeleteKeyRequest (DeleteKeyRequest_Deserialize al) buf m"
| "msg_Deserialize d al C ver buf (M_ImportKeyRequest m) = read_as M_ImportKeyRequest (ImportKeyRequest_Deserialize d al) buf m"
| "msg_Deserialize d al C ver buf (M_ExportKeyRequest m) = read_as M_ExportKeyRequest (ExportKeyRequest_Deserialize d al) buf m"
| "msg_Deserialize d al C ver buf (M_ConfigureRequest m) = read_as M_ConfigureRequest ConfigureRequest_Deserialize buf m"
| "msg_Deserialize d al C ver buf (M_AddEntropyRequest m) = read_as M_AddEntropyRequest (AddEntropyRequest_Deserialize al) buf m"
| "msg_Deserialize d al C ver buf (M_BeginOperationRequest m) = read_as M_BeginOperationRequest (BeginOperationRequest_Deserialize d al) buf m"
| "msg_Deserialize d al C ver buf (M_UpdateOperationRequest m) = read_as M_UpdateOperationRequest (UpdateOperationRequest_Deserialize d al ver) buf m"
| "msg_Deserialize d al C ver buf (M_FinishOperationRequest m) = read_as M_FinishOperationRequest (FinishOperationRequest_Deserialize d al ver) buf m"
| "msg_Deserialize d al C ver buf (M_AbortOperationRequest m) = read_as M_AbortOperationRequest AbortOperationRequest_Deserialize buf m"
| "msg_Deserialize d al C ver buf (M_GenerateKeyResponse m) = read_as M_GenerateKeyResponse (Response_Deserialize C kr_error_update (GenerateKeyResponse_NonErrorDeserialize d al)) buf m"
| "msg_Deserialize d al C ver buf (M_ImportKeyResponse m) = read_as M_ImportKeyResponse (Response_Deserialize C kr_error_update (ImportKeyResponse_NonErrorDeserialize d al)) buf m"
| "msg_Deserialize d al C ver buf (M_GetKeyCharacteristicsResponse m) = read_as M_GetKeyCharacteristicsResponse (Response_Deserialize C cr_error_update (GetKeyCharacteristicsResponse_NonErrorDeserialize d al)) buf m"
| "msg_Deserialize d al C ver buf (M_UpgradeKeyResponse m) = read_as M_UpgradeKeyResponse (Response_Deserialize C apfst (UpgradeKeyResponse_NonErrorDeserialize al)) buf m"
| "msg_Deserialize d al C ver buf (M_ExportKeyResponse m) = read_as M_ExportKeyResponse (Response_Deserialize C apfst (ExportKeyResponse_NonErrorDeserialize al)) buf m"
| "msg_Deserialize d al C ver buf (M_BeginOperationResponse m) = read_as M_BeginOperationResponse (Response_Deserialize C br_error_update (BeginOperationResponse_NonErrorDeserialize d al ver)) buf m"
| "msg_Deserialize d al C ver buf (M_UpdateOperationResponse m) = read_as M_UpdateOperationResponse (Response_Deserialize C ur_error_update (UpdateOperationResponse_NonErrorDeserialize d al ver)) buf m"
| "msg_Deserialize d al C ver buf (M_FinishOperationResponse m) = read_as M_FinishOperationResponse (Response_Deserialize C fr_error_update (FinishOperationResponse_NonErrorDeserialize d al ver)) buf m"
| "msg_Deserialize d al C ver buf (M_SupportedResponse m) = read_as M_SupportedResponse (Response_Deserialize C sr_error_update (SupportedResponse_NonErrorDeserialize al)) buf m"
| "msg_Deserialize d al C ver buf (M_GetVersionResponse m) = read_as M_GetVersionResponse (Response_Deserialize C vr_error_update GetVersionResponse_NonErrorDeserialize) buf m"
| "msg_Deserialize d al C ver buf (M_AttestKeyResponse m) = read_as M_AttestKeyResponse (Response_Deserialize C apfst (AttestKeyResponse_NonErrorDeserialize al)) buf m"
| "msg_Deserialize d al C ver buf (M_EmptyRequest m) = read_as M_EmptyRequest read_none buf m"
| "msg_Deserialize d al C ver buf (M_EmptyResponse m) = read_as M_EmptyResponse (Response_Deserialize C (\<lambda>f e. f e) read_none) buf m"

text \<open>
  Messages that can be sent, and what has to arrive. The conditions are those the receiver checks or the wire format
  needs: lengths of 32 bits, sets whose indirect data is what their byte strings need, chains of at most
  \<open>kMaxChainEntryCount\<close> certificates, results that are not null, and memory for the receiver.
\<close>

primrec msg_good :: "km_defs \<Rightarrow> allocator \<Rightarrow> km_codes \<Rightarrow> u32 \<Rightarrow> km_msg \<Rightarrow> bool" where
  "msg_good d al C ver (M_SupportedByAlgorithmRequest m) = True"
| "msg_good d al C ver (M_SupportedByAlgorithmAndPurposeRequest m) = True"
| "msg_good d al C ver (M_GenerateKeyRequest m) \<longleftrightarrow> alloc_total al \<and> sendable_set d m"
| "msg_good d al C ver (M_GetKeyCharacteristicsRequest m) \<longleftrightarrow> alloc_total al \<and> length (bp_key_blob m) < 2 ^ 32 \<and> sendable_set d (bp_params m)"
| "msg_good d al C ver (M_AttestKeyRequest m) \<longleftrightarrow> alloc_total al \<and> length (bp_key_blob m) < 2 ^ 32 \<and> sendable_set d (bp_params m)"
| "msg_good d al C ver (M_UpgradeKeyRequest m) \<longleftrightarrow> alloc_total al \<and> length (bp_key_blob m) < 2 ^ 32 \<and> sendable_set d (bp_params m)"
| "msg_good d al C ver (M_DeleteKeyRequest m) \<longleftrightarrow> alloc_total al \<and> length m < 2 ^ 32"
| "msg_good d al C ver (M_ImportKeyRequest m) \<longleftrightarrow> alloc_total al \<and> sendable_set d (iq_key_description m) \<and> length (iq_key_data m) < 2 ^ 32"
| "msg_good d al C ver (M_ExportKeyRequest m) \<longleftrightarrow> alloc_total al \<and> sendable_set d (eq_additional_params m) \<and> length (eq_key_blob m) < 2 ^ 32"
| "msg_good d al C ver (M_ConfigureRequest m) = True"
| "msg_good d al C ver (M_AddEntropyRequest m) \<longleftrightarrow> alloc_total al \<and> sendable_buffer m"
| "msg_good d al C ver (M_BeginOperationRequest m) \<longleftrightarrow> alloc_total al \<and> length (bq_key_blob m) < 2 ^ 32 \<and> sendable_set d (bq_additional_params m)"
| "msg_good d al C ver (M_UpdateOperationRequest m) \<longleftrightarrow> alloc_total al \<and> sendable_buffer (uq_input m) \<and> sendable_set d (uq_additional_params m)"
| "msg_good d al C ver (M_FinishOperationRequest m) \<longleftrightarrow> alloc_total al \<and> sendable_buffer (fq_signature m) \<and> sendable_set d (fq_additional_params m) \<and> sendable_buffer (fq_input m) \<and> ver \<le> 3"
| "msg_good d al C ver (M_AbortOperationRequest m) = True"
| "msg_good d al C ver (M_GenerateKeyResponse m) \<longleftrightarrow> err_of C (err_code C (kr_error m)) = kr_error m \<and> (kr_error m = KM_ERROR_OK \<longrightarrow> alloc_total al \<and> length (kr_key_blob m) < 2 ^ 32 \<and> sendable_set d (kr_enforced m) \<and> sendable_set d (kr_unenforced m))"
| "msg_good d al C ver (M_ImportKeyResponse m) \<longleftrightarrow> err_of C (err_code C (kr_error m)) = kr_error m \<and> (kr_error m = KM_ERROR_OK \<longrightarrow> alloc_total al \<and> length (kr_key_blob m) < 2 ^ 32 \<and> sendable_set d (kr_enforced m) \<and> sendable_set d (kr_unenforced m))"
| "msg_good d al C ver (M_GetKeyCharacteristicsResponse m) \<longleftrightarrow> err_of C (err_code C (cr_error m)) = cr_error m \<and> (cr_error m = KM_ERROR_OK \<longrightarrow> alloc_total al \<and> sendable_set d (cr_enforced m) \<and> sendable_set d (cr_unenforced m))"
| "msg_good d al C ver (M_UpgradeKeyResponse m) \<longleftrightarrow> err_of C (err_code C (fst m)) = fst m \<and> (fst m = KM_ERROR_OK \<longrightarrow> alloc_total al \<and> length (snd m) < 2 ^ 32)"
| "msg_good d al C ver (M_ExportKeyResponse m) \<longleftrightarrow> err_of C (err_code C (fst m)) = fst m \<and> (fst m = KM_ERROR_OK \<longrightarrow> alloc_total al \<and> length (snd m) < 2 ^ 32)"
| "msg_good d al C ver (M_BeginOperationResponse m) \<longleftrightarrow> err_of C (err_code C (br_error m)) = br_error m \<and> (br_error m = KM_ERROR_OK \<longrightarrow> alloc_total al \<and> sendable_set d (br_output_params m))"
| "msg_good d al C ver (M_UpdateOperationResponse m) \<longleftrightarrow> err_of C (err_code C (ur_error m)) = ur_error m \<and> (ur_error m = KM_ERROR_OK \<longrightarrow> alloc_total al \<and> sendable_buffer (ur_output m) \<and> ur_input_consumed m < 2 ^ 32 \<and> sendable_set d (ur_output_params m) \<and> ver \<le> 3)"
| "msg_good d al C ver (M_FinishOperationResponse m) \<longleftrightarrow> err_of C (err_code C (fr_error m)) = fr_error m \<and> (fr_error m = KM_ERROR_OK \<longrightarrow> alloc_total al \<and> sendable_buffer (fr_output m) \<and> sendable_set d (fr_output_params m))"
| "msg_good d al C ver (M_SupportedResponse m) \<longleftrightarrow> err_of C (err_code C (sr_error m)) = sr_error m \<and> (sr_error m = KM_ERROR_OK \<longrightarrow> alloc_total al \<and> (\<exists>a. sr_results m = Some a \<and> sr_results_length m = length a \<and> length a < (2 ^ 32 - 1) div 4))"
| "msg_good d al C ver (M_GetVersionResponse m) \<longleftrightarrow> err_of C (err_code C (vr_error m)) = vr_error m \<and> (vr_error m = KM_ERROR_OK \<longrightarrow> True)"
| "msg_good d al C ver (M_AttestKeyResponse m) \<longleftrightarrow> err_of C (err_code C (fst m)) = fst m \<and> (fst m = KM_ERROR_OK \<longrightarrow> alloc_total al \<and> length (snd m) \<le> kMaxChainEntryCount \<and> list_all (\<lambda>e. length e < 2 ^ 32) (snd m))"
| "msg_good d al C ver (M_EmptyRequest m) = True"
| "msg_good d al C ver (M_EmptyResponse m) \<longleftrightarrow> err_of C (err_code C m) = m \<and> (m = KM_ERROR_OK \<longrightarrow> True)"

primrec msg_same :: "u32 \<Rightarrow> km_msg \<Rightarrow> km_msg \<Rightarrow> bool" where
  "msg_same ver (M_SupportedByAlgorithmRequest m) M \<longleftrightarrow> (\<exists>m'. M = M_SupportedByAlgorithmRequest m' \<and> m' = m)"
| "msg_same ver (M_SupportedByAlgorithmAndPurposeRequest m) M \<longleftrightarrow> (\<exists>m'. M = M_SupportedByAlgorithmAndPurposeRequest m' \<and> ap_algorithm m' = ap_algorithm m \<and> ap_purpose m' = ap_purpose m)"
| "msg_same ver (M_GenerateKeyRequest m) M \<longleftrightarrow> (\<exists>m'. M = M_GenerateKeyRequest m' \<and> set_values m' = set_values m)"
| "msg_same ver (M_GetKeyCharacteristicsRequest m) M \<longleftrightarrow> (\<exists>m'. M = M_GetKeyCharacteristicsRequest m' \<and> bp_key_blob m' = bp_key_blob m \<and> set_values (bp_params m') = set_values (bp_params m))"
| "msg_same ver (M_AttestKeyRequest m) M \<longleftrightarrow> (\<exists>m'. M = M_AttestKeyRequest m' \<and> bp_key_blob m' = bp_key_blob m \<and> set_values (bp_params m') = set_values (bp_params m))"
| "msg_same ver (M_UpgradeKeyRequest m) M \<longleftrightarrow> (\<exists>m'. M = M_UpgradeKeyRequest m' \<and> bp_key_blob m' = bp_key_blob m \<and> set_values (bp_params m') = set_values (bp_params m))"
| "msg_same ver (M_DeleteKeyRequest m) M \<longleftrightarrow> (\<exists>m'. M = M_DeleteKeyRequest m' \<and> m' = m)"
| "msg_same ver (M_ImportKeyRequest m) M \<longleftrightarrow> (\<exists>m'. M = M_ImportKeyRequest m' \<and> set_values (iq_key_description m') = set_values (iq_key_description m) \<and> iq_key_format m' = iq_key_format m \<and> iq_key_data m' = iq_key_data m)"
| "msg_same ver (M_ExportKeyRequest m) M \<longleftrightarrow> (\<exists>m'. M = M_ExportKeyRequest m' \<and> set_values (eq_additional_params m') = set_values (eq_additional_params m) \<and> eq_key_format m' = eq_key_format m \<and> eq_key_blob m' = eq_key_blob m)"
| "msg_same ver (M_ConfigureRequest m) M \<longleftrightarrow> (\<exists>m'. M = M_ConfigureRequest m' \<and> cq_os_version m' = cq_os_version m \<and> cq_os_patchlevel m' = cq_os_patchlevel m)"
| "msg_same ver (M_AddEntropyRequest m) M \<longleftrightarrow> (\<exists>m'. M = M_AddEntropyRequest m' \<and> readable m' = readable m)"
| "msg_same ver (M_BeginOperationRequest m) M \<longleftrightarrow> (\<exists>m'. M = M_BeginOperationRequest m' \<and> bq_purpose m' = bq_purpose m \<and> bq_key_blob m' = bq_key_blob m \<and> set_values (bq_additional_params m') = set_values (bq_additional_params m))"
| "msg_same ver (M_UpdateOperationRequest m) M \<longleftrightarrow> (\<exists>m'. M = M_UpdateOperationRequest m' \<and> uq_op_handle m' = uq_op_handle m \<and> readable (uq_input m') = readable (uq_input m) \<and> (0 < ver \<longrightarrow> set_values (uq_additional_params m') = set_values (uq_additional_params m)))"
| "msg_same ver (M_FinishOperationRequest m) M \<longleftrightarrow> (\<exists>m'. M = M_FinishOperationRequest m' \<and> fq_op_handle m' = fq_op_handle m \<and> readable (fq_signature m') = readable (fq_signature m) \<and> (0 < ver \<longrightarrow> set_values (fq_additional_params m') = set_values (fq_additional_params m)) \<and> (2 < ver \<longrightarrow> readable (fq_input m') = readable (fq_input m)))"
| "msg_same ver (M_AbortOperationRequest m) M \<longleftrightarrow> (\<exists>m'. M = M_AbortOperationRequest m' \<and> m' = m)"
| "msg_same ver (M_GenerateKeyResponse m) M \<longleftrightarrow> (\<exists>m'. M = M_GenerateKeyResponse m' \<and> kr_error m' = kr_error m \<and> (kr_error m = KM_ERROR_OK \<longrightarrow> kr_key_blob m' = kr_key_blob m \<and> set_values (kr_enforced m') = set_values (kr_enforced m) \<and> set_values (kr_unenforced m') = set_values (kr_unenforced m)))"
| "msg_same ver (M_ImportKeyResponse m) M \<longleftrightarrow> (\<exists>m'. M = M_ImportKeyResponse m' \<and> kr_error m' = kr_error m \<and> (kr_error m = KM_ERROR_OK \<longrightarrow> kr_key_blob m' = kr_key_blob m \<and> set_values (kr_enforced m') = set_values (kr_enforced m) \<and> set_values (kr_unenforced m') = set_values (kr_unenforced m)))"
| "msg_same ver (M_GetKeyCharacteristicsResponse m) M \<longleftrightarrow> (\<exists>m'. M = M_GetKeyCharacteristicsResponse m' \<and> cr_error m' = cr_error m \<and> (cr_error m = KM_ERROR_OK \<longrightarrow> set_values (cr_enforced m') = set_values (cr_enforced m) \<and> set_values (cr_unenforced m') = set_values (cr_unenforced m)))"
| "msg_same ver (M_UpgradeKeyResponse m) M \<longleftrightarrow> (\<exists>m'. M = M_UpgradeKeyResponse m' \<and> fst m' = fst m \<and> (fst m = KM_ERROR_OK \<longrightarrow> snd m' = snd m))"
| "msg_same ver (M_ExportKeyResponse m) M \<longleftrightarrow> (\<exists>m'. M = M_ExportKeyResponse m' \<and> fst m' = fst m \<and> (fst m = KM_ERROR_OK \<longrightarrow> snd m' = snd m))"
| "msg_same ver (M_BeginOperationResponse m) M \<longleftrightarrow> (\<exists>m'. M = M_BeginOperationResponse m' \<and> br_error m' = br_error m \<and> (br_error m = KM_ERROR_OK \<longrightarrow> br_op_handle m' = br_op_handle m \<and> (0 < ver \<longrightarrow> set_values (br_output_params m') = set_values (br_output_params m))))"
| "msg_same ver (M_UpdateOperationResponse m) M \<longleftrightarrow> (\<exists>m'. M = M_UpdateOperationResponse m' \<and> ur_error m' = ur_error m \<and> (ur_error m = KM_ERROR_OK \<longrightarrow> readable (ur_output m') = readable (ur_output m) \<and> (0 < ver \<longrightarrow> ur_input_consumed m' = ur_input_consumed m) \<and> (1 < ver \<longrightarrow> set_values (ur_output_params m') = set_values (ur_output_params m))))"
| "msg_same ver (M_FinishOperationResponse m) M \<longleftrightarrow> (\<exists>m'. M = M_FinishOperationResponse m' \<and> fr_error m' = fr_error m \<and> (fr_error m = KM_ERROR_OK \<longrightarrow> readable (fr_output m') = readable (fr_output m) \<and> (1 < ver \<longrightarrow> set_values (fr_output_params m') = set_values (fr_output_params m))))"
| "msg_same ver (M_SupportedResponse m) M \<longleftrightarrow> (\<exists>m'. M = M_SupportedResponse m' \<and> sr_error m' = sr_error m \<and> (sr_error m = KM_ERROR_OK \<longrightarrow> sr_results m' = sr_results m \<and> sr_results_length m' = sr_results_length m))"
| "msg_same ver (M_GetVersionResponse m) M \<longleftrightarrow> (\<exists>m'. M = M_GetVersionResponse m' \<and> vr_error m' = vr_error m \<and> (vr_error m = KM_ERROR_OK \<longrightarrow> vr_major m' = vr_major m \<and> vr_minor m' = vr_minor m \<and> vr_subminor m' = vr_subminor m))"
| "msg_same ver (M_AttestKeyResponse m) M \<longleftrightarrow> (\<exists>m'. M = M_AttestKeyResponse m' \<and> fst m' = fst m \<and> (fst m = KM_ERROR_OK \<longrightarrow> snd m' = snd m))"
| "msg_same ver (M_EmptyRequest m) M \<longleftrightarrow> (\<exists>m'. M = M_EmptyRequest m' \<and> True)"
| "msg_same ver (M_EmptyResponse m) M \<longleftrightarrow> (\<exists>m'. M = M_EmptyResponse m' \<and> m' = m \<and> (m = KM_ERROR_OK \<longrightarrow> True))"

primrec same_class :: "km_msg \<Rightarrow> km_msg \<Rightarrow> bool" where
  "same_class (M_SupportedByAlgorithmRequest m) M \<longleftrightarrow> (\<exists>m'. M = M_SupportedByAlgorithmRequest m')"
| "same_class (M_SupportedByAlgorithmAndPurposeRequest m) M \<longleftrightarrow> (\<exists>m'. M = M_SupportedByAlgorithmAndPurposeRequest m')"
| "same_class (M_GenerateKeyRequest m) M \<longleftrightarrow> (\<exists>m'. M = M_GenerateKeyRequest m')"
| "same_class (M_GetKeyCharacteristicsRequest m) M \<longleftrightarrow> (\<exists>m'. M = M_GetKeyCharacteristicsRequest m')"
| "same_class (M_AttestKeyRequest m) M \<longleftrightarrow> (\<exists>m'. M = M_AttestKeyRequest m')"
| "same_class (M_UpgradeKeyRequest m) M \<longleftrightarrow> (\<exists>m'. M = M_UpgradeKeyRequest m')"
| "same_class (M_DeleteKeyRequest m) M \<longleftrightarrow> (\<exists>m'. M = M_DeleteKeyRequest m')"
| "same_class (M_ImportKeyRequest m) M \<longleftrightarrow> (\<exists>m'. M = M_ImportKeyRequest m')"
| "same_class (M_ExportKeyRequest m) M \<longleftrightarrow> (\<exists>m'. M = M_ExportKeyRequest m')"
| "same_class (M_ConfigureRequest m) M \<longleftrightarrow> (\<exists>m'. M = M_ConfigureRequest m')"
| "same_class (M_AddEntropyRequest m) M \<longleftrightarrow> (\<exists>m'. M = M_AddEntropyRequest m')"
| "same_class (M_BeginOperationRequest m) M \<longleftrightarrow> (\<exists>m'. M = M_BeginOperationRequest m')"
| "same_class (M_UpdateOperationRequest m) M \<longleftrightarrow> (\<exists>m'. M = M_UpdateOperationRequest m')"
| "same_class (M_FinishOperationRequest m) M \<longleftrightarrow> (\<exists>m'. M = M_FinishOperationRequest m')"
| "same_class (M_AbortOperationRequest m) M \<longleftrightarrow> (\<exists>m'. M = M_AbortOperationRequest m')"
| "same_class (M_GenerateKeyResponse m) M \<longleftrightarrow> (\<exists>m'. M = M_GenerateKeyResponse m')"
| "same_class (M_ImportKeyResponse m) M \<longleftrightarrow> (\<exists>m'. M = M_ImportKeyResponse m')"
| "same_class (M_GetKeyCharacteristicsResponse m) M \<longleftrightarrow> (\<exists>m'. M = M_GetKeyCharacteristicsResponse m')"
| "same_class (M_UpgradeKeyResponse m) M \<longleftrightarrow> (\<exists>m'. M = M_UpgradeKeyResponse m')"
| "same_class (M_ExportKeyResponse m) M \<longleftrightarrow> (\<exists>m'. M = M_ExportKeyResponse m')"
| "same_class (M_BeginOperationResponse m) M \<longleftrightarrow> (\<exists>m'. M = M_BeginOperationResponse m')"
| "same_class (M_UpdateOperationResponse m) M \<longleftrightarrow> (\<exists>m'. M = M_UpdateOperationResponse m')"
| "same_class (M_FinishOperationResponse m) M \<longleftrightarrow> (\<exists>m'. M = M_FinishOperationResponse m')"
| "same_class (M_SupportedResponse m) M \<longleftrightarrow> (\<exists>m'. M = M_SupportedResponse m')"
| "same_class (M_GetVersionResponse m) M \<longleftrightarrow> (\<exists>m'. M = M_GetVersionResponse m')"
| "same_class (M_AttestKeyResponse m) M \<longleftrightarrow> (\<exists>m'. M = M_AttestKeyResponse m')"
| "same_class (M_EmptyRequest m) M \<longleftrightarrow> (\<exists>m'. M = M_EmptyRequest m')"
| "same_class (M_EmptyResponse m) M \<longleftrightarrow> (\<exists>m'. M = M_EmptyResponse m')"

lemmas resend_rules =
  SupportedByAlgorithmRequest.resend_as
  SupportedByAlgorithmAndPurposeRequest.resend_as
  GenerateKeyRequest.resend_as
  GetKeyCharacteristicsRequest.resend_as
  AttestKeyRequest.resend_as
  UpgradeKeyRequest.resend_as
  DeleteKeyRequest.resend_as
  ImportKeyRequest.resend_as
  ExportKeyRequest.resend_as
  ConfigureRequest.resend_as
  AddEntropyRequest.resend_as
  BeginOperationRequest.resend_as
  UpdateOperationRequest.resend_as
  FinishOperationRequest.resend_as
  AbortOperationRequest.resend_as
  GenerateKeyResponse.response.resend_as
  ImportKeyResponse.response.resend_as
  GetKeyCharacteristicsResponse.response.resend_as
  UpgradeKeyResponse.response.resend_as
  ExportKeyResponse.response.resend_as
  BeginOperationResponse.response.resend_as
  UpdateOperationResponse.response.resend_as
  FinishOperationResponse.response.resend_as
  SupportedResponse.response.resend_as
  GetVersionResponse.response.resend_as
  AttestKeyResponse.response.resend_as
  empty_request.resend_as
  empty_response.response.resend_as

text \<open>
  C26: a keymaster message that meets \<open>msg_good\<close> survives being sent. Such a request or response, of any class and in
  every message version up to 3, is written into a block of exactly the size that \<open>SerializedSize\<close> gives and fills it; a message of the same
  class that reads these bytes, whatever it held before and whatever follows them, succeeds, leaves what follows, and
  has the same members, byte strings and authorizations as far as the version carries them. A response with an error
  carries only the error.

  What \<open>msg_good\<close> asks, and so leaves out: the receiver's allocations succeed; byte strings, buffers and serialized
  sets are shorter than \<open>2\<^sup>3\<^sup>2\<close> bytes; every authorization is well typed, with a tag of a known type, and the byte strings of
  a set are together as long as its indirect data. A set that has lost a byte string, by \<open>erase\<close> or
  \<open>Deduplicate\<close>, does not meet this, and the receiver refuses it (\<open>Km_SetTheorems\<close>). A successful
  \<open>AttestKeyResponse\<close> has at most \<open>kMaxChainEntryCount\<close> certificates, since longer chains are refused. The
  results of a successful \<open>SupportedResponse\<close> are present. The error of a response is one that its 32-bit code
  stands for.
\<close>

theorem keymaster_messages_resend:
  assumes "msg_good d al C ver m" "same_class m m0"
  shows "\<exists>n w m'. msg_SerializedSize d ver m = Some n \<and>
    msg_Serialize d C ver m \<lparr>wb_block = replicate n 0, wb_pos = 0\<rparr> = Some w \<and> wb_pos w = n \<and>
    msg_Deserialize d al C ver (wb_block w @ rest) m0 = (True, m', rest) \<and> msg_same ver m m'"
proof -
  have "arrives (msg_SerializedSize d ver m) (\<lambda>w. msg_Serialize d C ver m w) (\<lambda>buf. msg_Deserialize d al C ver buf m0)
      (\<lambda>m'. msg_same ver m m') rest"
    by (insert assms; cases m; hypsubst_thin; unfold same_class.simps; elim exE; hypsubst_thin;
        unfold msg_good.simps msg_SerializedSize.simps msg_Serialize.simps msg_same.simps msg_Deserialize.simps;
        rule resend_rules; assumption)
  then show ?thesis by (simp add: arrives_def)
qed

lemma demo_op_key_sendable: "sendable_set demo_defs demo_op_key"
  by (simp add: sendable_set_def demo_op_key_def plain_set_def sendable_def typed_def value_fits_def in_range_def elems_indirect_size_def
      is_blob_tag_def Set_SerializedSize_def SerializedSizeOfElements_def serialized_size_def demo_defs_def demo_type_def Let_def)

definition demo_msg :: km_msg where
  "demo_msg = M_BeginOperationRequest \<lparr>bq_purpose = 2, bq_key_blob = [1, 2], bq_additional_params = demo_op_key\<rparr>"

theorem keymaster_messages_resend_witness:
  "\<exists>n w m'. msg_SerializedSize demo_defs 3 demo_msg = Some n \<and>
    msg_Serialize demo_defs \<lparr>err_code = (\<lambda>_. 0), err_of = (\<lambda>_. KM_ERROR_OK)\<rparr> 3 demo_msg \<lparr>wb_block = replicate n 0, wb_pos = 0\<rparr> = Some w \<and> wb_pos w = n \<and>
    msg_Deserialize demo_defs km_alloc \<lparr>err_code = (\<lambda>_. 0), err_of = (\<lambda>_. KM_ERROR_OK)\<rparr> 3 (wb_block w @ [7]) (M_BeginOperationRequest
      \<lparr>bq_purpose = 0, bq_key_blob = [], bq_additional_params = new_AuthorizationSet\<rparr>) = (True, m', [7]) \<and> msg_same 3 demo_msg m'"
  by (rule keymaster_messages_resend) (simp_all add: demo_msg_def demo_op_key_sendable)

end
