(* ===== verification/Fmq_Queue.thy ===== *)
theory Fmq_Queue
  imports Sys_Bytes
begin

text \<open>
  The fast message queue: \<open>MQDescriptor.h\<close> of \<open>libhidl\<close>, which lays out the memory two processes share,
  and \<open>MessageQueue.h\<close> of \<open>libfmq\<close>, the ring buffer with its two counters in that memory.

  The shared memory is a list of regions, one for each file descriptor of the handle; both processes map
  the same regions. A pointer into it is a \<open>view\<close>: the descriptor, the position and the number of
  bytes that are mapped from there. Reading or writing outside a view or a region is \<^term>\<open>None\<close>, as are
  the fatal checks and a division by zero. The template parameters \<open>T\<close> and \<open>flavor\<close> are the fields
  \<open>sizeof_T\<close> and \<open>flavor\<close> of a queue. \<open>size_t\<close> has 64 bits and the arithmetic on it wraps around.
\<close>

section \<open>Descriptors\<close>

datatype MQFlavor = kSynchronizedReadWrite | kUnsynchronizedWrite

record GrantorDescriptor =
  g_flags :: u32
  g_fdIndex :: u32
  g_offset :: u32
  g_extent :: u64

text \<open>\<open>mHandle\<close> is the number of file descriptors in the handle, if there is one.\<close>

record MQDescriptor =
  mGrantors :: "GrantorDescriptor list"
  mHandle :: "nat option"
  mQuantum :: u32

definition READPTRPOS :: nat where "READPTRPOS = 0"
definition WRITEPTRPOS :: nat where "WRITEPTRPOS = 1"
definition DATAPTRPOS :: nat where "DATAPTRPOS = 2"
definition EVFLAGWORDPOS :: nat where "EVFLAGWORDPOS = 3"

lemmas positions_def = READPTRPOS_def WRITEPTRPOS_def DATAPTRPOS_def EVFLAGWORDPOS_def

definition kMinGrantorCount :: nat where "kMinGrantorCount = DATAPTRPOS + 1"

text \<open>\<open>kAlignmentSize / 8\<close>, with \<open>kAlignmentSize = 64\<close> bits.\<close>

definition kAlignmentBytes :: u64 where "kAlignmentBytes = 8"

definition alignToWordBoundary :: "u64 \<Rightarrow> u64 option" where
  "alignToWordBoundary len =
     (if len > - 1 - kAlignmentBytes + 1 then None else Some ((len + kAlignmentBytes - 1) AND NOT (kAlignmentBytes - 1)))"

definition isAlignedToWordBoundary :: "u64 \<Rightarrow> bool" where
  "isAlignedToWordBoundary offset \<longleftrightarrow> offset AND (kAlignmentBytes - 1) = 0"

definition MQDescriptor_of_grantors :: "GrantorDescriptor list \<Rightarrow> nat option \<Rightarrow> u64 \<Rightarrow> MQDescriptor option" where
  "MQDescriptor_of_grantors grantors nhandle sz =
     (if list_all (\<lambda>g. isAlignedToWordBoundary (ucast (g_offset g))) grantors
      then Some \<lparr>mGrantors = grantors, mHandle = nhandle, mQuantum = ucast sz\<rparr> else None)"

text \<open>The loop of the constructor: each grantor starts at the aligned sum of the sizes before it.\<close>

fun default_grantors :: "u64 \<Rightarrow> u64 list \<Rightarrow> GrantorDescriptor list option" where
  "default_grantors offset [] = Some []"
| "default_grantors offset (m # memSize) = do {
     a \<leftarrow> alignToWordBoundary offset;
     gs \<leftarrow> default_grantors (offset + m) memSize;
     Some (\<lparr>g_flags = 0, g_fdIndex = 0, g_offset = ucast a, g_extent = m\<rparr> # gs) }"

definition MQDescriptor_of_size :: "u64 \<Rightarrow> nat option \<Rightarrow> u64 \<Rightarrow> bool \<Rightarrow> MQDescriptor option" where
  "MQDescriptor_of_size bufferSize nHandle messageSize configureEventFlag = do {
     gs \<leftarrow> default_grantors 0 ([8, 8, bufferSize] @ (if configureEventFlag then [4] else []));
     Some \<lparr>mGrantors = gs, mHandle = nHandle, mQuantum = ucast messageSize\<rparr> }"

definition getSize :: "MQDescriptor \<Rightarrow> u64 option" where
  "getSize d = (if DATAPTRPOS < length (mGrantors d) then Some (g_extent (mGrantors d ! DATAPTRPOS)) else None)"

definition getQuantum :: "MQDescriptor \<Rightarrow> u64" where
  "getQuantum d = ucast (mQuantum d)"

section \<open>Shared memory\<close>

type_synonym shared = "byte list list"

record view =
  v_fd :: nat
  v_at :: nat
  v_len :: nat

definition mapped :: "view \<Rightarrow> nat \<Rightarrow> nat \<Rightarrow> shared \<Rightarrow> bool" where
  "mapped v off n mem \<longleftrightarrow> v_fd v < length mem \<and> off + n \<le> v_len v \<and> v_at v + off + n \<le> length (mem ! v_fd v)"

definition load_bytes :: "view \<Rightarrow> nat \<Rightarrow> nat \<Rightarrow> shared \<Rightarrow> byte list option" where
  "load_bytes v off n mem = (if mapped v off n mem then Some (take n (drop (v_at v + off) (mem ! v_fd v))) else None)"

definition store_bytes :: "view \<Rightarrow> nat \<Rightarrow> byte list \<Rightarrow> shared \<Rightarrow> shared option" where
  "store_bytes v off bs mem =
     (if mapped v off (length bs) mem then Some (mem[v_fd v := memcpy_at (v_at v + off) bs (mem ! v_fd v)]) else None)"

definition load_u64 :: "view \<Rightarrow> shared \<Rightarrow> u64 option" where
  "load_u64 v mem = map_option le_word (load_bytes v 0 8 mem)"

definition store_u64 :: "view \<Rightarrow> u64 \<Rightarrow> shared \<Rightarrow> shared option" where
  "store_u64 v w mem = store_bytes v 0 (le_bytes 8 w) mem"

section \<open>The queue object\<close>

text \<open>The read counter is shared in the synchronized flavor; otherwise each reader has one of its own.\<close>

datatype counter = SharedCtr view | PrivateCtr u64

record message_queue =
  sizeof_T :: u64
  flavor :: MQFlavor
  mDesc :: MQDescriptor
  mRing :: "view option"
  mReadPtr :: "counter option"
  mWritePtr :: "view option"
  mEvFlagWord :: "view option"

definition PAGE_SIZE :: nat where "PAGE_SIZE = 4096"

text \<open>
  What a process takes from the system: whether a grantor can be mapped, the memory of a private read
  counter (\<^term>\<open>None\<close> when it cannot be allocated), and whether a handle and a descriptor can be allocated.
\<close>

record fmq_env =
  mmap_ok :: "nat \<Rightarrow> bool"
  fresh_counter :: "u64 option"
  handle_ok :: bool
  desc_ok :: bool

text \<open>
  \<open>mmap\<close> fails for a length or an offset that is negative after the conversion to \<open>int\<close>, and otherwise
  when \<open>mmap_ok\<close> says so. The result is \<open>Some None\<close> for the null pointer.
\<close>

definition mapGrantorDescr :: "fmq_env \<Rightarrow> MQDescriptor \<Rightarrow> nat \<Rightarrow> view option option" where
  "mapGrantorDescr env d idx =
     (case mHandle d of
        None \<Rightarrow> Some None
      | Some numFds \<Rightarrow>
          if idx \<ge> length (mGrantors d) then Some None
          else
            let g = mGrantors d ! idx; fdIndex = unat (g_fdIndex g);
                mapOffset = g_offset g div of_nat PAGE_SIZE * of_nat PAGE_SIZE;
                mapLength = ucast (ucast (g_offset g - mapOffset) + g_extent g) :: u32;
                skip = unat (g_offset g - mapOffset)
            in if fdIndex \<ge> numFds then None
               else if 0 < sint mapLength \<and> 0 \<le> sint mapOffset \<and> mmap_ok env idx
               then Some (Some \<lparr>v_fd = fdIndex, v_at = unat mapOffset + skip, v_len = unat mapLength - skip\<rparr>)
               else Some None)"

definition load_counter :: "counter option \<Rightarrow> shared \<Rightarrow> u64 option" where
  "load_counter c mem = (case c of None \<Rightarrow> None | Some (SharedCtr v) \<Rightarrow> load_u64 v mem | Some (PrivateCtr n) \<Rightarrow> Some n)"

definition store_counter :: "u64 \<Rightarrow> counter option \<Rightarrow> shared \<Rightarrow> (counter option \<times> shared) option" where
  "store_counter w c mem =
     (case c of
        None \<Rightarrow> None
      | Some (SharedCtr v) \<Rightarrow> map_option (\<lambda>mem'. (c, mem')) (store_u64 v w mem)
      | Some (PrivateCtr n) \<Rightarrow> Some (Some (PrivateCtr w), mem))"

definition load_writePtr :: "message_queue \<Rightarrow> shared \<Rightarrow> u64 option" where
  "load_writePtr q mem = Option.bind (mWritePtr q) (\<lambda>v. load_u64 v mem)"

definition store_writePtr :: "u64 \<Rightarrow> message_queue \<Rightarrow> shared \<Rightarrow> shared option" where
  "store_writePtr w q mem = Option.bind (mWritePtr q) (\<lambda>v. store_u64 v w mem)"

definition load_readPtr :: "message_queue \<Rightarrow> shared \<Rightarrow> u64 option" where
  "load_readPtr q mem = load_counter (mReadPtr q) mem"

definition store_readPtr :: "u64 \<Rightarrow> message_queue \<Rightarrow> shared \<Rightarrow> (message_queue \<times> shared) option" where
  "store_readPtr w q mem = map_option (\<lambda>(c, mem'). (q\<lparr>mReadPtr := c\<rparr>, mem')) (store_counter w (mReadPtr q) mem)"

text \<open>What the members are before \<open>initMemory\<close>.\<close>

definition null_queue :: "u64 \<Rightarrow> MQFlavor \<Rightarrow> MQDescriptor \<Rightarrow> message_queue" where
  "null_queue T fl d =
     \<lparr>sizeof_T = T, flavor = fl, mDesc = d, mRing = None, mReadPtr = None, mWritePtr = None, mEvFlagWord = None\<rparr>"

text \<open>\<open>details::check\<close> aborts on a null pointer.\<close>

definition map_counters :: "fmq_env \<Rightarrow> message_queue \<Rightarrow> message_queue option" where
  "map_counters env q = do {
     r \<leftarrow> (if flavor q = kSynchronizedReadWrite
           then map_option (map_option SharedCtr) (mapGrantorDescr env (mDesc q) READPTRPOS)
           else Some (map_option PrivateCtr (fresh_counter env)));
     (if r = None then None else do {
        w \<leftarrow> mapGrantorDescr env (mDesc q) WRITEPTRPOS;
        (if w = None then None else Some (q\<lparr>mReadPtr := r, mWritePtr := w\<rparr>)) }) }"

definition initMemory :: "fmq_env \<Rightarrow> bool \<Rightarrow> message_queue \<Rightarrow> shared \<Rightarrow> (message_queue \<times> shared) option" where
  "initMemory env resetPointers q mem =
     (if mHandle (mDesc q) = None \<or> length (mGrantors (mDesc q)) < kMinGrantorCount \<or> getQuantum (mDesc q) \<noteq> sizeof_T q
      then Some (q, mem)
      else do {
        q \<leftarrow> map_counters env q;
        (q, mem) \<leftarrow>
          (if resetPointers then do {
             (q, mem) \<leftarrow> store_readPtr 0 q mem;
             mem \<leftarrow> store_writePtr 0 q mem;
             Some (q, mem) }
           else if flavor q \<noteq> kSynchronizedReadWrite then store_readPtr 0 q mem
           else Some (q, mem));
        ring \<leftarrow> mapGrantorDescr env (mDesc q) DATAPTRPOS;
        (if ring = None then None else do {
           ev \<leftarrow> mapGrantorDescr env (mDesc q) EVFLAGWORDPOS;
           Some (q\<lparr>mRing := ring, mEvFlagWord := ev\<rparr>, mem) }) })"

text \<open>
  The two constructors. The one with a size creates the region, which the kernel fills with zeros.
  \<open>no_desc\<close> stands for a null descriptor.
\<close>

definition no_desc :: MQDescriptor where
  "no_desc = \<lparr>mGrantors = [], mHandle = None, mQuantum = 0\<rparr>"

definition MessageQueue_of_desc ::
  "fmq_env \<Rightarrow> u64 \<Rightarrow> MQFlavor \<Rightarrow> MQDescriptor \<Rightarrow> bool \<Rightarrow> shared \<Rightarrow> (message_queue \<times> shared) option" where
  "MessageQueue_of_desc env T fl d resetPointers mem =
     (if \<not> desc_ok env then Some (null_queue T fl no_desc, mem)
      else initMemory env resetPointers (null_queue T fl d) mem)"

definition ashmem_size :: "u64 \<Rightarrow> bool \<Rightarrow> u64 option" where
  "ashmem_size kQueueSizeBytes configureEventFlagWord = do {
     a \<leftarrow> alignToWordBoundary kQueueSizeBytes;
     Some ((a + (2 * 8 + (if configureEventFlagWord then 4 else 0)) + of_nat PAGE_SIZE - 1) AND NOT (of_nat PAGE_SIZE - 1)) }"

definition MessageQueue_of_size ::
  "fmq_env \<Rightarrow> u64 \<Rightarrow> MQFlavor \<Rightarrow> u64 \<Rightarrow> bool \<Rightarrow> (message_queue \<times> shared) option" where
  "MessageQueue_of_size env T fl numElementsInQueue configureEventFlagWord =
     (if numElementsInQueue > - 1 div T then Some (null_queue T fl no_desc, [])
      else do {
        n \<leftarrow> ashmem_size (numElementsInQueue * T) configureEventFlagWord;
        (if \<not> handle_ok env \<or> \<not> desc_ok env then Some (null_queue T fl no_desc, [replicate (unat n) 0])
         else do {
           d \<leftarrow> MQDescriptor_of_size (numElementsInQueue * T) (Some 1) T configureEventFlagWord;
           initMemory env True (null_queue T fl d) [replicate (unat n) 0] }) })"

definition isValid :: "message_queue \<Rightarrow> bool" where
  "isValid q \<longleftrightarrow> mRing q \<noteq> None \<and> mReadPtr q \<noteq> None \<and> mWritePtr q \<noteq> None"

definition getQuantumSize :: "message_queue \<Rightarrow> u64" where
  "getQuantumSize q = getQuantum (mDesc q)"

text \<open>A division by zero traps.\<close>

definition udiv :: "u64 \<Rightarrow> u64 \<Rightarrow> u64 option" where
  "udiv a b = (if b = 0 then None else Some (a div b))"

definition umod :: "u64 \<Rightarrow> u64 \<Rightarrow> u64 option" where
  "umod a b = (if b = 0 then None else Some (a mod b))"

definition getQuantumCount :: "message_queue \<Rightarrow> u64 option" where
  "getQuantumCount q = do { sz \<leftarrow> getSize (mDesc q); udiv sz (getQuantum (mDesc q)) }"

section \<open>Transactions\<close>

text \<open>The address of a region is its offset in the ring.\<close>

record MemRegion =
  address :: "nat option"
  rlength :: u64

record MemTransaction =
  first :: MemRegion
  second :: MemRegion

definition null_region :: MemRegion where
  "null_region = \<lparr>address = None, rlength = 0\<rparr>"

definition null_tx :: MemTransaction where
  "null_tx = \<lparr>first = null_region, second = null_region\<rparr>"

definition getSlot :: "u64 \<Rightarrow> MemTransaction \<Rightarrow> u64 \<Rightarrow> nat option" where
  "getSlot T tx idx =
     (if idx > rlength (first tx) + rlength (second tx) then None
      else if idx < rlength (first tx) then map_option (\<lambda>a. a + unat (idx * T)) (address (first tx))
      else map_option (\<lambda>a. a + unat ((idx - rlength (first tx)) * T)) (address (second tx)))"

definition getMemRegionInfo ::
  "u64 \<Rightarrow> MemTransaction \<Rightarrow> u64 \<Rightarrow> u64 \<Rightarrow> (u64 \<times> u64 \<times> nat option \<times> nat option) option" where
  "getMemRegionInfo T tx startIdx nMessages =
     (let firstRegionLength = rlength (first tx); secondRegionLength = rlength (second tx) in
      if startIdx + nMessages > firstRegionLength + secondRegionLength then None
      else
        let firstCount = (if startIdx < firstRegionLength then min nMessages (firstRegionLength - startIdx) else 0);
            secondCount = nMessages - firstCount;
            secondStartIdx = (if startIdx > firstRegionLength then startIdx - firstRegionLength else 0)
        in Some (firstCount, secondCount,
             (if firstCount \<noteq> 0 then map_option (\<lambda>a. a + unat (startIdx * T)) (address (first tx)) else None),
             (if secondCount \<noteq> 0 then map_option (\<lambda>a. a + unat (secondStartIdx * T)) (address (second tx)) else None)))"

text \<open>\<open>memcpy\<close> of \<open>n\<close> bytes from a region of the ring; a null pointer or a copy outside the ring is \<^term>\<open>None\<close>.\<close>

definition from_region :: "message_queue \<Rightarrow> nat option \<Rightarrow> u64 \<Rightarrow> shared \<Rightarrow> byte list option" where
  "from_region q base n mem = (if n = 0 then Some [] else do {
     ring \<leftarrow> mRing q; a \<leftarrow> base; load_bytes ring a (unat n) mem })"

definition to_region :: "message_queue \<Rightarrow> nat option \<Rightarrow> byte list \<Rightarrow> shared \<Rightarrow> shared option" where
  "to_region q base bs mem = (if bs = [] then Some mem else do {
     ring \<leftarrow> mRing q; a \<leftarrow> base; store_bytes ring a bs mem })"

text \<open>
  \<open>copyFrom\<close> into a buffer that is large enough, or into none (\<open>null\<close>): the bytes it receives, or
  \<open>Some None\<close> for \<open>false\<close>.
\<close>

definition copyFrom :: "message_queue \<Rightarrow> MemTransaction \<Rightarrow> bool \<Rightarrow> u64 \<Rightarrow> u64 \<Rightarrow> shared \<Rightarrow> byte list option option" where
  "copyFrom q tx null startIdx nMessages mem =
     (if null then Some None else case getMemRegionInfo (sizeof_T q) tx startIdx nMessages of
        None \<Rightarrow> Some None
      | Some (firstReadCount, secondReadCount, firstBase, secondBase) \<Rightarrow> do {
          a \<leftarrow> from_region q firstBase (firstReadCount * sizeof_T q) mem;
          b \<leftarrow> from_region q secondBase (secondReadCount * sizeof_T q) mem;
          Some (Some (a @ b)) })"

text \<open>The source of \<open>copyTo\<close> must hold what is copied; \<open>data = None\<close> is the null pointer.\<close>

definition copyTo :: "message_queue \<Rightarrow> MemTransaction \<Rightarrow> byte list option \<Rightarrow> u64 \<Rightarrow> u64 \<Rightarrow> shared \<Rightarrow> (bool \<times> shared) option" where
  "copyTo q tx data startIdx nMessages mem =
     (case data of None \<Rightarrow> Some (False, mem) | Some bs \<Rightarrow>
      case getMemRegionInfo (sizeof_T q) tx startIdx nMessages of
        None \<Rightarrow> Some (False, mem)
      | Some (firstWriteCount, secondWriteCount, firstBase, secondBase) \<Rightarrow>
          let n1 = unat (firstWriteCount * sizeof_T q); n2 = unat (secondWriteCount * sizeof_T q) in
          if n1 + n2 > length bs then None
          else do {
            mem \<leftarrow> to_region q firstBase (take n1 bs) mem;
            mem \<leftarrow> to_region q secondBase (take n2 (drop n1 bs)) mem;
            Some (True, mem) })"

section \<open>Reading and writing\<close>

definition availableToReadBytes :: "message_queue \<Rightarrow> shared \<Rightarrow> u64 option" where
  "availableToReadBytes q mem = do { w \<leftarrow> load_writePtr q mem; r \<leftarrow> load_readPtr q mem; Some (w - r) }"

definition availableToWriteBytes :: "message_queue \<Rightarrow> shared \<Rightarrow> u64 option" where
  "availableToWriteBytes q mem = do { sz \<leftarrow> getSize (mDesc q); n \<leftarrow> availableToReadBytes q mem; Some (sz - n) }"

definition availableToWrite :: "message_queue \<Rightarrow> shared \<Rightarrow> u64 option" where
  "availableToWrite q mem = do { n \<leftarrow> availableToWriteBytes q mem; udiv n (sizeof_T q) }"

definition availableToRead :: "message_queue \<Rightarrow> shared \<Rightarrow> u64 option" where
  "availableToRead q mem = do { n \<leftarrow> availableToReadBytes q mem; udiv n (sizeof_T q) }"

text \<open>The regions for \<open>nMessages\<close> messages from \<open>offset\<close>, as \<open>beginWrite\<close> and \<open>beginRead\<close> compute them.\<close>

definition make_tx :: "u64 \<Rightarrow> u64 \<Rightarrow> u64 \<Rightarrow> u64 \<Rightarrow> MemTransaction option" where
  "make_tx T sz offset nMessages = do {
     contiguousMessages \<leftarrow> udiv (sz - offset) T;
     Some (if contiguousMessages < nMessages
       then \<lparr>first = \<lparr>address = Some (unat offset), rlength = contiguousMessages\<rparr>,
             second = \<lparr>address = Some 0, rlength = nMessages - contiguousMessages\<rparr>\<rparr>
       else \<lparr>first = \<lparr>address = Some (unat offset), rlength = nMessages\<rparr>, second = null_region\<rparr>) }"

definition beginWrite :: "message_queue \<Rightarrow> u64 \<Rightarrow> shared \<Rightarrow> (bool \<times> MemTransaction) option" where
  "beginWrite q nMessages mem = do {
     full \<leftarrow> (if flavor q = kSynchronizedReadWrite
              then map_option (\<lambda>n. n < nMessages) (availableToWrite q mem) else Some False);
     count \<leftarrow> (if full then Some 0 else getQuantumCount q);
     (if full \<or> nMessages > count then Some (False, null_tx)
      else do {
        writePtr \<leftarrow> load_writePtr q mem;
        sz \<leftarrow> getSize (mDesc q);
        writeOffset \<leftarrow> umod writePtr sz;
        tx \<leftarrow> make_tx (sizeof_T q) sz writeOffset nMessages;
        Some (True, tx) }) }"

definition commitWrite :: "message_queue \<Rightarrow> u64 \<Rightarrow> shared \<Rightarrow> (bool \<times> shared) option" where
  "commitWrite q nMessages mem = do {
     writePtr \<leftarrow> load_writePtr q mem;
     mem \<leftarrow> store_writePtr (writePtr + nMessages * sizeof_T q) q mem;
     Some (True, mem) }"

definition write_messages :: "message_queue \<Rightarrow> byte list option \<Rightarrow> u64 \<Rightarrow> shared \<Rightarrow> (bool \<times> shared) option" where
  "write_messages q data nMessages mem = do {
     (ok, tx) \<leftarrow> beginWrite q nMessages mem;
     (if \<not> ok then Some (False, mem) else do {
        (ok, mem) \<leftarrow> copyTo q tx data 0 nMessages mem;
        (if \<not> ok then Some (False, mem) else commitWrite q nMessages mem) }) }"

definition beginRead :: "message_queue \<Rightarrow> u64 \<Rightarrow> shared \<Rightarrow> (bool \<times> MemTransaction \<times> message_queue \<times> shared) option" where
  "beginRead q nMessages mem = do {
     writePtr \<leftarrow> load_writePtr q mem;
     readPtr \<leftarrow> load_readPtr q mem;
     sz \<leftarrow> getSize (mDesc q);
     (if writePtr - readPtr > sz then do {
        (q, mem) \<leftarrow> store_readPtr writePtr q mem;
        Some (False, null_tx, q, mem) }
      else if writePtr - readPtr < nMessages * sizeof_T q then Some (False, null_tx, q, mem)
      else do {
        readOffset \<leftarrow> umod readPtr sz;
        tx \<leftarrow> make_tx (sizeof_T q) sz readOffset nMessages;
        Some (True, tx, q, mem) }) }"

definition commitRead :: "message_queue \<Rightarrow> u64 \<Rightarrow> shared \<Rightarrow> (bool \<times> message_queue \<times> shared) option" where
  "commitRead q nMessages mem = do {
     readPtr \<leftarrow> load_readPtr q mem;
     writePtr \<leftarrow> load_writePtr q mem;
     sz \<leftarrow> getSize (mDesc q);
     (if writePtr - readPtr > sz then do {
        (q, mem) \<leftarrow> store_readPtr writePtr q mem;
        Some (False, q, mem) }
      else do {
        (q, mem) \<leftarrow> store_readPtr (readPtr + nMessages * sizeof_T q) q mem;
        Some (True, q, mem) }) }"

text \<open>\<open>read\<close>: the bytes received, or \<^term>\<open>None\<close> inside for \<open>false\<close>.\<close>

definition read_messages :: "message_queue \<Rightarrow> bool \<Rightarrow> u64 \<Rightarrow> shared \<Rightarrow> (byte list option \<times> message_queue \<times> shared) option" where
  "read_messages q null nMessages mem = do {
     (ok, tx, q, mem) \<leftarrow> beginRead q nMessages mem;
     (if \<not> ok then Some (None, q, mem) else do {
        data \<leftarrow> copyFrom q tx null 0 nMessages mem;
        (case data of
           None \<Rightarrow> Some (None, q, mem)
         | Some bs \<Rightarrow> do {
             (ok, q, mem) \<leftarrow> commitRead q nMessages mem;
             Some (if ok then Some bs else None, q, mem) }) }) }"

end
