(* ===== verification/Fmq_Ring.thy ===== *)
theory Fmq_Ring
  imports Fmq_Queue
begin

text \<open>
  The memory of a queue that was laid out by the constructor, and the transactions on its ring. In such a
  memory the two counters and the ring lie behind each other, so loads and stores act on one of the parts. A
  transaction of \<open>n\<close> messages at counter \<open>p\<close> covers the bytes \<open>p, ..., p + n * T - 1\<close> modulo the size of the ring.
\<close>

section \<open>The layout\<close>

definition layout :: "u64 \<Rightarrow> u64 \<Rightarrow> byte list \<Rightarrow> byte list \<Rightarrow> shared" where
  "layout r w ring rest = [le_bytes 8 r @ le_bytes 8 w @ ring @ rest]"

definition read_view :: view where "read_view = \<lparr>v_fd = 0, v_at = 0, v_len = 8\<rparr>"
definition write_view :: view where "write_view = \<lparr>v_fd = 0, v_at = 8, v_len = 8\<rparr>"
definition ring_view :: "nat \<Rightarrow> view" where "ring_view B = \<lparr>v_fd = 0, v_at = 16, v_len = B\<rparr>"

lemmas views_def = read_view_def write_view_def ring_view_def

lemma load_views [simp]:
  "load_u64 read_view (layout r w ring rest) = Some r"
  "load_u64 write_view (layout r w ring rest) = Some w"
  by (simp_all add: load_u64_def load_bytes_def mapped_def layout_def views_def)

lemma store_views [simp]:
  "store_u64 read_view v (layout r w ring rest) = Some (layout v w ring rest)"
  "store_u64 write_view v (layout r w ring rest) = Some (layout r v ring rest)"
  by (simp_all add: store_u64_def store_bytes_def mapped_def layout_def views_def memcpy_at_def)

lemma load_ring [simp]:
  "a + n \<le> length ring \<Longrightarrow> load_bytes (ring_view (length ring)) a n (layout r w ring rest) = Some (take n (drop a ring))"
  by (simp add: load_bytes_def mapped_def layout_def views_def)

lemma store_ring [simp]:
  "a + length bs \<le> length ring \<Longrightarrow>
   store_bytes (ring_view (length ring)) a bs (layout r w ring rest) = Some (layout r w (memcpy_at a bs ring) rest)"
  by (simp add: store_bytes_def mapped_def layout_def views_def memcpy_at_def)

text \<open>A queue with \<open>T\<close>-byte messages over a ring of \<open>B\<close> bytes in this layout.\<close>

definition laid_out :: "nat \<Rightarrow> nat \<Rightarrow> message_queue \<Rightarrow> bool" where
  "laid_out T B q \<longleftrightarrow> 0 < T \<and> 0 < B \<and> T dvd B \<and> B < 2 ^ 63 \<and> sizeof_T q = of_nat T \<and>
     getSize (mDesc q) = Some (of_nat B) \<and> getQuantum (mDesc q) = of_nat T \<and>
     mWritePtr q = Some write_view \<and> mRing q = Some (ring_view B)"

lemma laid_out_T: "laid_out T B q \<Longrightarrow> T < 2 ^ 63"
  by (auto simp: laid_out_def dest: dvd_imp_le)

lemma load_writePtr_layout [simp]: "laid_out T B q \<Longrightarrow> load_writePtr q (layout r w ring rest) = Some w"
  by (simp add: laid_out_def load_writePtr_def)

lemma store_writePtr_layout [simp]:
  "laid_out T B q \<Longrightarrow> store_writePtr v q (layout r w ring rest) = Some (layout r v ring rest)"
  by (simp add: laid_out_def store_writePtr_def)

section \<open>Word arithmetic\<close>

declare unat_of_nat_small [simp]

lemma of_nat_less_u64: "a < 2 ^ 64 \<Longrightarrow> b < 2 ^ 64 \<Longrightarrow> (of_nat a :: u64) < of_nat b \<longleftrightarrow> a < b"
  by (simp add: word_less_nat_alt)

lemma udiv_of_nat: "a < 2 ^ 64 \<Longrightarrow> b < 2 ^ 64 \<Longrightarrow> 0 < b \<Longrightarrow> udiv (of_nat a) (of_nat b) = Some (of_nat (a div b))"
  by (auto simp: udiv_def word_arith_nat_div dest: arg_cong [where f = unat])

lemma umod_of_nat: "a < 2 ^ 64 \<Longrightarrow> b < 2 ^ 64 \<Longrightarrow> 0 < b \<Longrightarrow> umod (of_nat a) (of_nat b) = Some (of_nat (a mod b))"
  by (auto simp: umod_def word_arith_nat_mod dest: arg_cong [where f = unat])

lemma of_nat_diff_u64: "b \<le> a \<Longrightarrow> (of_nat a :: u64) - of_nat b = of_nat (a - b)"
  by (simp add: of_nat_diff)

text \<open>A counter that has wrapped around still gives the right offset when the size divides \<open>2 ^ 64\<close>.\<close>

definition counts :: "nat \<Rightarrow> nat \<Rightarrow> bool" where
  "counts B p \<longleftrightarrow> p < 2 ^ 64 \<or> B dvd 2 ^ 64"

lemma counts_mono: "counts B p \<Longrightarrow> p' \<le> p \<Longrightarrow> counts B p'"
  by (auto simp: counts_def)

lemma umod_counts:
  assumes "counts B p" "0 < B" "B < 2 ^ 63"
  shows "umod (of_nat p) (of_nat B) = Some (of_nat (p mod B))"
proof (cases "p < 2 ^ 64")
  case True
  then show ?thesis using assms by (simp add: umod_of_nat)
next
  case False
  then have "B dvd 2 ^ 64" using assms(1) by (simp add: counts_def)
  then have "p mod 2 ^ 64 mod B = p mod B" by (rule mod_mod_cancel)
  moreover have "(of_nat p :: u64) = of_nat (p mod 2 ^ 64)"
    by (rule word_unat_eq_iff [THEN iffD2]) (simp add: unat_of_nat take_bit_eq_mod)
  ultimately show ?thesis using assms by (simp add: umod_of_nat)
qed

section \<open>Circular copies\<close>

definition cyc :: "nat \<Rightarrow> nat \<Rightarrow> byte list \<Rightarrow> byte list" where
  "cyc p n ring = map (\<lambda>k. ring ! ((p + k) mod length ring)) [0..<n]"

definition cyc_write :: "nat \<Rightarrow> byte list \<Rightarrow> byte list \<Rightarrow> byte list" where
  "cyc_write p bs ring =
     (let a = p mod length ring; c = length ring - a
      in memcpy_at 0 (drop c bs) (memcpy_at a (take c bs) ring))"

lemma length_cyc [simp]: "length (cyc p n ring) = n"
  by (simp add: cyc_def)

lemma length_cyc_write [simp]:
  assumes "length bs \<le> length ring"
  shows "length (cyc_write p bs ring) = length ring"
proof (cases "ring = []")
  case False
  let ?a = "p mod length ring" and ?c = "length ring - p mod length ring"
  have a: "?a < length ring" using False by simp
  have "length (memcpy_at ?a (take ?c bs) ring) = length ring" using a by (intro length_memcpy_at) auto
  moreover have "0 + length (drop ?c bs) \<le> length ring" using assms by simp
  ultimately show ?thesis by (simp add: cyc_write_def Let_def)
qed (use assms in \<open>simp add: cyc_write_def memcpy_at_def\<close>)

lemma mod_split:
  assumes "p mod B < B" "k < (B::nat)"
  shows "(p + k) mod B = (if k < B - p mod B then p mod B + k else k - (B - p mod B))"
proof -
  have e: "(p + k) mod B = (p mod B + k) mod B" by (simp add: mod_add_left_eq)
  show ?thesis
  proof (cases "k < B - p mod B")
    case True
    then show ?thesis using e assms by simp
  next
    case False
    then have "p mod B + k = B + (k - (B - p mod B))" using assms by linarith
    then have "(p mod B + k) mod B = (k - (B - p mod B)) mod B" by (metis mod_add_self1)
    moreover have "k - (B - p mod B) < B" using assms by linarith
    ultimately show ?thesis using e False by (simp only: mod_less if_False)
  qed
qed

lemma cyc_parts:
  assumes "n \<le> length ring" "0 < length ring"
  shows "cyc p n ring =
    (let a = p mod length ring; c = min n (length ring - a) in take c (drop a ring) @ take (n - c) ring)"
proof (rule nth_equalityI)
  fix k assume "k < length (cyc p n ring)"
  then have k: "k < n" "k < length ring" using assms by simp_all
  have a: "p mod length ring < length ring" using assms by simp
  show "cyc p n ring ! k =
    (let a = p mod length ring; c = min n (length ring - a) in take c (drop a ring) @ take (n - c) ring) ! k"
    using k a mod_split [OF a k(2)] by (auto simp: cyc_def Let_def nth_append min_def)
next
  define a where "a = p mod length ring"
  have "a < length ring" using assms by (simp add: a_def)
  then have "min (min n (length ring - a)) (length ring - a) + min (n - min n (length ring - a)) (length ring) = n"
    using assms(1) by (simp add: min_def) linarith
  then show "length (cyc p n ring) =
    length (let a = p mod length ring; c = min n (length ring - a) in take c (drop a ring) @ take (n - c) ring)"
    by (simp add: Let_def a_def min.commute)
qed

lemma nth_memcpy_at:
  "a + length bs \<le> length b \<Longrightarrow> i < length b \<Longrightarrow>
   memcpy_at a bs b ! i = (if a \<le> i \<and> i < a + length bs then bs ! (i - a) else b ! i)"
  by (auto simp: memcpy_at_def nth_append)

lemma nth_cyc_write:
  assumes "length bs \<le> length ring" "k < length ring"
  shows "cyc_write p bs ring ! ((p + k) mod length ring) =
    (if k < length bs then bs ! k else ring ! ((p + k) mod length ring))"
proof -
  let ?a = "p mod length ring" and ?c = "length ring - p mod length ring"
  have a: "?a < length ring" using assms(2) by (intro mod_less_divisor) linarith
  define m where "m = memcpy_at ?a (take ?c bs) ring"
  have m: "length m = length ring" unfolding m_def using a by (intro length_memcpy_at) auto
  have nm: "m ! i = (if ?a \<le> i \<and> i < ?a + length (take ?c bs) then take ?c bs ! (i - ?a) else ring ! i)" if "i < length ring" for i
    unfolding m_def using that a by (intro nth_memcpy_at) auto
  have nw: "cyc_write p bs ring ! i = (if i < length bs - ?c then bs ! (?c + i) else m ! i)" if "i < length ring" for i
    using that assms m a nth_memcpy_at [of 0 "drop ?c bs" m i] by (simp add: cyc_write_def Let_def m_def)
  show ?thesis
    using mod_split [OF a assms(2)] nw [of "(p + k) mod length ring"] nm [of "(p + k) mod length ring"] assms a
    by (auto simp: min_def split: if_splits)
qed

section \<open>Transactions\<close>

lemma region_info_0:
  assumes "getMemRegionInfo T tx 0 n = Some (c1, c2, b1, b2)"
  shows "c1 = (if 0 < rlength (first tx) then min n (rlength (first tx)) else 0) \<and> c2 = n - c1 \<and>
    b1 = (if c1 \<noteq> 0 then address (first tx) else None) \<and> b2 = (if c2 \<noteq> 0 then address (second tx) else None)"
  using assms by (auto simp: getMemRegionInfo_def Let_def option.map_ident split: if_splits)

lemma of_nat_u64_0: "m < 2 ^ 63 \<Longrightarrow> (of_nat m :: u64) = 0 \<longleftrightarrow> m = 0"
  using of_nat_less_u64 [of 0 m] by auto

lemma tx_info_wrap:
  assumes "c < n" "n < 2 ^ 63"
  shows "getMemRegionInfo T \<lparr>first = \<lparr>address = Some a, rlength = of_nat c\<rparr>,
      second = \<lparr>address = Some 0, rlength = of_nat n - of_nat c\<rparr>\<rparr> 0 (of_nat n) =
    Some (of_nat c, of_nat (n - c), if c \<noteq> 0 then Some a else None, Some 0)"
proof -
  have "c < 2 ^ 63" using assms by linarith
  note z = of_nat_u64_0 [OF this]
  have mn: "min (of_nat n :: u64) (of_nat c) = of_nat c"
    using assms of_nat_less_u64 [of c n] by (simp add: min_absorb2 less_imp_le)
  have df: "(of_nat (n - c) :: u64) = of_nat n - of_nat c" using assms by (simp add: of_nat_diff)
  have "(of_nat n :: u64) - of_nat c \<noteq> 0"
    unfolding df [symmetric] using assms by (subst of_nat_u64_0) linarith+
  then have "0 < (of_nat n :: u64) - of_nat c" by (simp add: word_neq_0_conv [symmetric] del: word_neq_0_conv)
  then show ?thesis unfolding df using z mn by (auto simp: getMemRegionInfo_def Let_def word_neq_0_conv)
qed

lemma tx_info_straight:
  assumes "n < 2 ^ 63"
  shows "getMemRegionInfo T \<lparr>first = \<lparr>address = Some a, rlength = of_nat n\<rparr>, second = null_region\<rparr> 0 (of_nat n) =
    Some (of_nat n, 0, if n \<noteq> 0 then Some a else None, None)"
  using of_nat_u64_0 [OF assms] by (auto simp: getMemRegionInfo_def Let_def null_region_def word_neq_0_conv)

text \<open>The two pieces of a transaction: \<open>c\<close> messages to the end of the ring, the others at its start.\<close>

lemma make_tx_info:
  assumes T: "0 < T" "T < 2 ^ 63" and B: "a < B" "B < 2 ^ 63" and n: "n < 2 ^ 63" and c: "c = (B - a) div T"
  obtains tx where "make_tx (of_nat T) (of_nat B) (of_nat a) (of_nat n) = Some tx"
    "getMemRegionInfo (of_nat T) tx 0 (of_nat n) =
       Some (of_nat (min n c), of_nat (n - c), if min n c \<noteq> 0 then Some a else None, if n - c \<noteq> 0 then Some 0 else None)"
proof -
  have e: "(2::nat) ^ 63 < 2 ^ 64" by simp
  have c63: "c < 2 ^ 63" using B(2) div_le_dividend [of "B - a" T] unfolding c by linarith
  have d: "udiv (of_nat B - of_nat a) (of_nat T) = Some (of_nat c)"
    unfolding of_nat_diff_u64 [OF less_imp_le [OF B(1)]] c using T B e by (intro udiv_of_nat) linarith+
  have lt: "((of_nat c :: u64) < of_nat n) \<longleftrightarrow> c < n" using c63 n e by (intro of_nat_less_u64) linarith+
  have addr: "unat (of_nat a :: u64) = a" using B e by (intro unat_of_nat_small) linarith
  show thesis
  proof (cases "c < n")
    case True
    show thesis
      by (rule that, simp add: make_tx_def d lt addr True)
        (use True in \<open>simp add: tx_info_wrap [OF True n] min_def\<close>)
  next
    case False
    show thesis
      by (rule that, simp add: make_tx_def d lt addr False)
        (use False in \<open>simp add: tx_info_straight [OF n] min_def\<close>)
  qed
qed

lemma from_region_layout:
  assumes "mRing q = Some (ring_view (length ring))" "m < 2 ^ 63" "m \<noteq> 0 \<Longrightarrow> b = Some a" "a + m \<le> length ring"
  shows "from_region q b (of_nat m) (layout r w ring rest) = Some (take m (drop a ring))"
  using assms of_nat_u64_0 [OF assms(2)] by (cases "m = 0") (simp_all add: from_region_def)

lemma to_region_layout:
  assumes "mRing q = Some (ring_view (length ring))" "bs \<noteq> [] \<Longrightarrow> b = Some a" "a + length bs \<le> length ring"
  shows "to_region q b bs (layout r w ring rest) = Some (layout r w (memcpy_at a bs ring) rest)"
  using assms by (cases "bs = []") (simp_all add: to_region_def memcpy_at_def)

text \<open>The sizes of the pieces in bytes.\<close>

lemma pieces:
  assumes "T dvd B" "T dvd p" "(0::nat) < T" "c = (B - p mod B) div T"
  shows "min n c * T = min (n * T) (B - p mod B)" "(n - c) * T = n * T - (B - p mod B)"
proof -
  have "T dvd B - p mod B" using assms by (simp add: dvd_mod dvd_diff_nat)
  then have c: "c * T = B - p mod B" using assms by simp
  show "min n c * T = min (n * T) (B - p mod B)" using c by (metis nat_mult_min_left)
  show "(n - c) * T = n * T - (B - p mod B)" using c by (simp add: diff_mult_distrib)
qed

text \<open>What a transaction of \<open>n\<close> messages at counter \<open>p\<close> reads and writes.\<close>

lemma tx_copies:
  assumes q: "laid_out T B q" and p: "T dvd p" and n: "n * T \<le> B" and ring: "length ring = B"
  obtains tx where "make_tx (of_nat T) (of_nat B) (of_nat (p mod B)) (of_nat n) = Some tx"
    "\<And>r w rest. copyFrom q tx False 0 (of_nat n) (layout r w ring rest) = Some (Some (cyc p (n * T) ring))"
    "\<And>bs r w rest. length bs = n * T \<Longrightarrow>
       copyTo q tx (Some bs) 0 (of_nat n) (layout r w ring rest) = Some (True, layout r w (cyc_write p bs ring) rest)"
proof -
  let ?a = "p mod B" let ?c = "(B - ?a) div T"
  have T: "0 < T" "T < 2 ^ 63" and B: "B < 2 ^ 63" "T dvd B" "?a < B" and s: "sizeof_T q = of_nat T"
    and m: "mRing q = Some (ring_view (length ring))"
    using q ring laid_out_T [OF q] by (auto simp: laid_out_def)
  have "n * 1 \<le> n * T" using T(1) by (intro mult_le_mono2) simp
  then have n63: "n < 2 ^ 63" using n B(1) by linarith
  obtain tx where tx: "make_tx (of_nat T) (of_nat B) (of_nat ?a) (of_nat n) = Some tx"
    and info: "getMemRegionInfo (of_nat T) tx 0 (of_nat n) = Some (of_nat (min n ?c), of_nat (n - ?c),
      if min n ?c \<noteq> 0 then Some ?a else None, if n - ?c \<noteq> 0 then Some 0 else None)"
    using make_tx_info [OF T B(3) B(1) n63 refl] by blast
  note pc = pieces [OF B(2) p T(1) refl, of n]
  define n1 n2 where "n1 = min (n * T) (B - ?a)" and "n2 = n * T - (B - ?a)"
  have le: "n1 + n2 = n * T" "?a + n1 \<le> B" "n2 \<le> B" "n1 < 2 ^ 63" "n2 < 2 ^ 63"
    using n B by (auto simp: n1_def n2_def)
  have u1: "(of_nat (min n ?c) :: u64) * of_nat T = of_nat n1"
    unfolding of_nat_mult [symmetric] pc(1) n1_def by (rule refl)
  have u2: "(of_nat (n - ?c) :: u64) * of_nat T = of_nat n2"
    unfolding of_nat_mult [symmetric] pc(2) n2_def by (rule refl)
  define b1 b2 where "b1 = (if min n ?c \<noteq> 0 then Some ?a else None)" and "b2 = (if n - ?c \<noteq> 0 then Some (0::nat) else None)"
  have b1: "n1 \<noteq> 0 \<Longrightarrow> b1 = Some ?a" unfolding b1_def n1_def pc(1) [symmetric] by (rule if_P) (metis mult_0)
  have b2: "n2 \<noteq> 0 \<Longrightarrow> b2 = Some 0" unfolding b2_def n2_def pc(2) [symmetric] by (rule if_P) (metis mult_0)
  note info = info [folded b1_def b2_def]
  have from1: "from_region q b1 (of_nat n1) (layout r w ring rest) = Some (take n1 (drop ?a ring))" for r w rest
    using m le b1 ring by (intro from_region_layout) auto
  have from2: "from_region q b2 (of_nat n2) (layout r w ring rest) = Some (take n2 (drop 0 ring))" for r w rest
    using m le b2 ring by (intro from_region_layout) auto
  have cyc: "cyc p (n * T) ring = take n1 (drop ?a ring) @ take n2 ring"
  proof -
    have "n2 = n * T - n1" using le(1) by linarith
    then show ?thesis using cyc_parts [of "n * T" ring p] n ring B by (simp add: Let_def n1_def)
  qed
  show thesis
  proof (rule that [OF tx])
    show "copyFrom q tx False 0 (of_nat n) (layout r w ring rest) = Some (Some (cyc p (n * T) ring))" for r w rest
      unfolding copyFrom_def s info option.case prod.case u1 u2 from1 from2 cyc by simp
    fix bs :: "byte list" and r w rest assume bs: "length bs = n * T"
    have t1: "to_region q b1 (take n1 bs) (layout r w ring rest) =
        Some (layout r w (memcpy_at ?a (take n1 bs) ring) rest)"
      using m le b1 ring bs by (intro to_region_layout) auto
    have l: "length (memcpy_at ?a (take n1 bs) ring) = length ring"
      using le ring by (intro length_memcpy_at) auto
    have t2: "to_region q b2 (take n2 (drop n1 bs)) (layout r w (memcpy_at ?a (take n1 bs) ring) rest) =
        Some (layout r w (memcpy_at 0 (take n2 (drop n1 bs)) (memcpy_at ?a (take n1 bs) ring)) rest)"
      using m le b2 ring bs l by (intro to_region_layout) auto
    have un: "unat (of_nat n1 :: u64) = n1" "unat (of_nat n2 :: u64) = n2"
      using le by (auto intro: unat_of_nat_small)
    have "take n1 bs = take (B - ?a) bs" "take n2 (drop n1 bs) = drop (B - ?a) bs"
      using bs le by (auto simp: n1_def n2_def min_def)
    then show "copyTo q tx (Some bs) 0 (of_nat n) (layout r w ring rest) = Some (True, layout r w (cyc_write p bs ring) rest)"
      using bs le t1 t2 unfolding copyTo_def s info option.case prod.case u1 u2 Let_def un cyc_write_def ring by simp
  qed
qed

end
