(* ===== verification/Fmq_Runs.thy ===== *)
theory Fmq_Runs
  imports Fmq_Ring
begin

text \<open>
  What the functions of a queue do to its counters and its ring, and the runs of a writer and a reader. The
  counters are followed as the numbers of bytes written and read since the queue was made, without
  wrapping around.
\<close>

section \<open>Construction\<close>

lemma align_0_8_16 [simp]:
  "alignToWordBoundary 0 = Some 0" "alignToWordBoundary 8 = Some 8" "alignToWordBoundary 16 = Some 16"
  by (simp_all add: alignToWordBoundary_def kAlignmentBytes_def)

lemma word_and_not: "(x :: u64) AND NOT y = x - (x AND y)"
proof -
  have "(x AND NOT y) + (x AND y) = (x AND NOT y) OR (x AND y)"
    by (rule disjunctive_add_eq_or) (auto intro: bit_word_eqI simp: bit_simps)
  also have "\<dots> = x" by (auto intro: bit_word_eqI simp: bit_simps)
  finally show ?thesis by (simp add: eq_diff_eq)
qed

lemma unat_and_not: "unat ((x :: u64) AND NOT y) = unat x - unat (x AND y)"
  unfolding word_and_not by (rule unat_sub) (rule word_and_le2)

lemma unat_and_le: "unat ((x :: u64) AND y) \<le> unat y"
  by (simp add: word_le_nat_alt [symmetric] word_and_le1)

lemma align_bound:
  assumes "n < 2 ^ 32"
  obtains a where "alignToWordBoundary (of_nat n) = Some (of_nat a)" "n \<le> a" "a \<le> n + 7"
proof -
  let ?x = "of_nat (n + 7) :: u64"
  have e: "(of_nat n :: u64) + 8 - 1 = ?x" by simp
  have u: "unat ?x = n + 7" using assms by (intro unat_of_nat_small) simp
  have "\<not> (of_nat n :: u64) > - 1 - 8 + 1" using assms by (simp add: word_less_nat_alt unat_of_nat take_bit_nat_eq_self)
  then have "alignToWordBoundary (of_nat n) = Some (?x AND NOT 7)"
    using e by (simp add: alignToWordBoundary_def kAlignmentBytes_def add.commute)
  moreover have "unat (?x AND 7) \<le> 7" using unat_and_le [of ?x 7] by simp
  then have "n \<le> unat (?x AND NOT 7)" "unat (?x AND NOT 7) \<le> n + 7" unfolding unat_and_not u by linarith+
  ultimately show thesis by (intro that [of "unat (?x AND NOT 7)"]) simp_all
qed

text \<open>The region holds the counters and the ring.\<close>

lemma ashmem_size_bound:
  assumes "B < 2 ^ 31"
  obtains n where "ashmem_size (of_nat B) ev = Some n" "16 + B \<le> unat n"
proof -
  have "B < 2 ^ 32" using assms by simp
  from align_bound [OF this] obtain a where a: "alignToWordBoundary (of_nat B) = Some (of_nat a)" "B \<le> a" "a \<le> B + 7" .
  define e :: nat where "e = (if ev then 4 else 0)"
  let ?x = "of_nat (a + 16 + e + 4095) :: u64"
  have x: "of_nat a + (2 * 8 + (if ev then 4 else 0)) + of_nat PAGE_SIZE - 1 = ?x"
    by (simp add: e_def PAGE_SIZE_def)
  have u: "unat ?x = a + 16 + e + 4095" using a assms by (intro unat_of_nat_small) (simp add: e_def)
  have "unat (?x AND 4095) \<le> 4095" using unat_and_le [of ?x 4095] by simp
  then have "16 + B \<le> unat (?x AND NOT 4095)" unfolding unat_and_not u using a by linarith
  moreover have "ashmem_size (of_nat B) ev = Some (?x AND NOT 4095)"
    unfolding ashmem_size_def a(1) x [symmetric] by (simp add: PAGE_SIZE_def)
  ultimately show thesis by (rule that [rotated])
qed

lemma layout_zero:
  "16 + B \<le> n \<Longrightarrow> [replicate n 0] = layout 0 0 (replicate B 0) (replicate (n - 16 - B) 0)"
proof -
  assume n: "16 + B \<le> n"
  have z: "le_bytes 8 (0 :: u64) = replicate 8 0"
    by (simp add: le_bytes_def map_replicate_const)
  have "n = 8 + (8 + (B + (n - 16 - B)))" using n by simp
  then show ?thesis unfolding layout_def z replicate_add [symmetric] by simp
qed

lemma int32_of_nat:
  assumes "n < 2 ^ 31"
  shows "(ucast (of_nat n :: u64) :: u32) = of_nat n" "sint (of_nat n :: u32) = int n" "unat (of_nat n :: u32) = n"
  using assms by (simp_all add: ucast_eq uint_nat sint_uint unat_of_nat take_bit_nat_eq_self signed_take_bit_int_eq_self)

text \<open>The grantors of the descriptor and where they are mapped.\<close>

definition default_desc :: "nat \<Rightarrow> nat \<Rightarrow> GrantorDescriptor list \<Rightarrow> MQDescriptor" where
  "default_desc T B ev =
     \<lparr>mGrantors = [\<lparr>g_flags = 0, g_fdIndex = 0, g_offset = 0, g_extent = 8\<rparr>, \<lparr>g_flags = 0, g_fdIndex = 0, g_offset = 8, g_extent = 8\<rparr>,
        \<lparr>g_flags = 0, g_fdIndex = 0, g_offset = 16, g_extent = of_nat B\<rparr>] @ ev,
      mHandle = Some 1, mQuantum = of_nat T\<rparr>"

lemma MQDescriptor_of_size_default:
  assumes "B < 2 ^ 31" "T < 2 ^ 31"
  obtains ev where "MQDescriptor_of_size (of_nat B) (Some 1) (of_nat T) configure = Some (default_desc T B ev)"
    "length ev \<le> 1" "list_all (\<lambda>g. g_fdIndex g = 0) ev"
proof -
  have "16 + B < 2 ^ 32" using assms by simp
  from align_bound [OF this] obtain a where a: "alignToWordBoundary (16 + of_nat B) = Some (of_nat a)" by auto
  note T = int32_of_nat(1) [OF assms(2)]
  show thesis
  proof (cases configure)
    case True
    show thesis
      by (rule that [of "[\<lparr>g_flags = 0, g_fdIndex = 0, g_offset = ucast (of_nat a :: u64), g_extent = 4\<rparr>]"])
        (use True a T in \<open>simp_all add: MQDescriptor_of_size_def default_desc_def\<close>)
  next
    case False
    show thesis
      by (rule that [of "[]"]) (use False T in \<open>simp_all add: MQDescriptor_of_size_def default_desc_def\<close>)
  qed
qed

lemma map_default [simp]:
  "mapGrantorDescr env (default_desc T B ev) READPTRPOS = Some (if mmap_ok env 0 then Some read_view else None)"
  "mapGrantorDescr env (default_desc T B ev) WRITEPTRPOS = Some (if mmap_ok env 1 then Some write_view else None)"
  by (simp_all add: mapGrantorDescr_def default_desc_def positions_def PAGE_SIZE_def views_def)

lemma map_default_ring:
  assumes "B < 2 ^ 31 - 16"
  shows "mapGrantorDescr env (default_desc T B ev) DATAPTRPOS = Some (if mmap_ok env 2 then Some (ring_view B) else None)"
proof -
  have "16 + B < 2 ^ 31" using assms by simp
  note n = int32_of_nat [OF this]
  have m: "ucast (ucast (16 :: u32) + of_nat B :: u64) = (of_nat (16 + B) :: u32)" using n(1) by simp
  have "0 < sint (of_nat (16 + B) :: u32)" unfolding n(2) by simp
  then show ?thesis
    using m n(3) by (simp add: mapGrantorDescr_def default_desc_def positions_def PAGE_SIZE_def views_def Let_def del: of_nat_add)
qed

text \<open>The queue a process gets: its read counter is the shared one, or a private one at zero.\<close>

definition reader_counter :: "MQFlavor \<Rightarrow> counter" where
  "reader_counter fl = (if fl = kSynchronizedReadWrite then SharedCtr read_view else PrivateCtr 0)"

definition queue_of :: "MQFlavor \<Rightarrow> nat \<Rightarrow> nat \<Rightarrow> message_queue \<Rightarrow> bool" where
  "queue_of fl T B q \<longleftrightarrow> laid_out T B q \<and> flavor q = fl \<and> mReadPtr q = Some (reader_counter fl) \<and>
     (\<exists>ev. mDesc q = default_desc T B ev \<and> length ev \<le> 1 \<and> list_all (\<lambda>g. g_fdIndex g = 0) ev)"

lemma default_desc_simps:
  "T < 2 ^ 31 \<Longrightarrow> getQuantum (default_desc T B ev) = of_nat T"
  "getSize (default_desc T B ev) = Some (of_nat B)"
  "mHandle (default_desc T B ev) = Some 1" "\<not> length (mGrantors (default_desc T B ev)) < kMinGrantorCount"
  using int32_of_nat [of T]
  by (simp_all add: getQuantum_def getSize_def default_desc_def positions_def kMinGrantorCount_def ucast_eq uint_nat)

lemma initMemory_default:
  assumes B: "B < 2 ^ 31 - 16" "0 < T" "T dvd B" "0 < B"
    and ev: "length ev \<le> 1" "list_all (\<lambda>g. g_fdIndex g = 0) ev"
    and init: "initMemory env reset (null_queue (of_nat T) fl (default_desc T B ev)) (layout r w ring rest) = Some (q, mem)"
  shows "queue_of fl T B q \<and>
    mem = layout (if reset \<and> fl = kSynchronizedReadWrite then 0 else r) (if reset then 0 else w) ring rest"
proof -
  have "T \<le> B" using B by (auto dest: dvd_imp_le)
  then have T: "T < 2 ^ 31" using B by simp
  show ?thesis
    using init B ev
    by (cases fl; cases reset)
      (auto simp: initMemory_def null_queue_def map_counters_def default_desc_simps(2-) default_desc_simps(1) [OF T]
        map_default_ring [OF B(1)] store_readPtr_def store_counter_def store_writePtr_def queue_of_def laid_out_def reader_counter_def
        split: if_splits bind_splits)
qed

lemma MessageQueue_of_size_ok:
  assumes B: "N * T < 2 ^ 31 - 16" "0 < N" "0 < T"
    and new: "MessageQueue_of_size env (of_nat T) fl (of_nat N) ev = Some (q, mem)" "isValid q"
  obtains rest where "queue_of fl T (N * T) q" "mem = layout 0 0 (replicate (N * T) 0) rest"
proof -
  have le: "T \<le> N * T" using B by simp
  from le_less_trans [OF this B(1)] have T: "T < 2 ^ 31" by simp
  obtain n where n: "ashmem_size (of_nat (N * T)) ev = Some n" "16 + N * T \<le> unat n"
    using B ashmem_size_bound [of "N * T" ev] by auto
  obtain gs where gs: "MQDescriptor_of_size (of_nat (N * T)) (Some 1) (of_nat T) ev = Some (default_desc T (N * T) gs)"
    "length gs \<le> 1" "list_all (\<lambda>g. g_fdIndex g = 0) gs"
    using B T MQDescriptor_of_size_default [of "N * T" T ev] by auto
  note z = layout_zero [OF n(2)]
  have "initMemory env True (null_queue (of_nat T) fl (default_desc T (N * T) gs)) [replicate (unat n) 0] = Some (q, mem)"
    using new n(1) gs(1) by (auto simp: MessageQueue_of_size_def isValid_def null_queue_def split: if_splits)
  then have "queue_of fl T (N * T) q \<and> mem = layout (if True \<and> fl = kSynchronizedReadWrite then 0 else 0) (if True then 0 else 0)
      (replicate (N * T) 0) (replicate (unat n - 16 - N * T) 0)"
    unfolding z using B le by (intro initMemory_default [OF _ _ _ _ gs(2,3)]) auto
  then show thesis by (intro that) auto
qed

lemma MessageQueue_of_desc_ok:
  assumes B: "B < 2 ^ 31 - 16" "queue_of fl T B q0"
    and new: "MessageQueue_of_desc env (of_nat T) fl (mDesc q0) reset (layout 0 0 ring rest) = Some (q, mem)" "isValid q"
  shows "queue_of fl T B q \<and> mem = layout 0 0 ring rest"
proof -
  obtain gs where gs: "mDesc q0 = default_desc T B gs" "length gs \<le> 1" "list_all (\<lambda>g. g_fdIndex g = 0) gs"
    and T: "0 < T" "T dvd B" "0 < B"
    using B(2) by (auto simp: queue_of_def laid_out_def)
  have "initMemory env reset (null_queue (of_nat T) fl (default_desc T B gs)) (layout 0 0 ring rest) = Some (q, mem)"
    using new gs(1) by (auto simp: MessageQueue_of_desc_def isValid_def null_queue_def split: if_splits)
  from initMemory_default [OF B(1) T gs(2,3) this] show ?thesis by (auto split: if_splits)
qed

section \<open>The functions on counters\<close>

text \<open>\<open>W\<close> and \<open>R\<close> bytes have been written and read.\<close>

lemma getQuantumCount_layout:
  "laid_out T B q \<Longrightarrow> getQuantumCount q = Some (of_nat (B div T))"
  using laid_out_T [of T B q] by (simp add: laid_out_def getQuantumCount_def udiv_of_nat)

lemma beginWrite_tx:
  assumes q: "laid_out T B q" and W: "counts B W" "mem = layout r (of_nat W) ring rest"
    and n: "unat n * T \<le> B" and free: "flavor q = kSynchronizedReadWrite \<Longrightarrow> \<exists>a. availableToWrite q mem = Some a \<and> n \<le> a"
  shows "beginWrite q n mem = map_option (Pair True) (make_tx (of_nat T) (of_nat B) (of_nat (W mod B)) n)"
proof -
  have B: "0 < B" "B < 2 ^ 63" "0 < T" "sizeof_T q = of_nat T" "getSize (mDesc q) = Some (of_nat B)"
    using q by (auto simp: laid_out_def)
  have "unat n \<le> B div T" using n B by (simp add: less_eq_div_iff_mult_less_eq)
  moreover have "B div T < 2 ^ 64" by (rule le_less_trans [OF div_le_dividend]) (use B(2) in simp)
  ultimately have le: "n \<le> of_nat (B div T)" by (simp add: word_le_nat_alt)
  obtain m where m: "(if flavor q = kSynchronizedReadWrite then map_option (\<lambda>n'. n' < n) (availableToWrite q mem) else Some False) = Some False"
    using free by (auto simp: linorder_not_less)
  have nl: "(of_nat (B div T) < n) = False" using le by (simp only: linorder_not_less simp_thms)
  show ?thesis
    unfolding beginWrite_def m getQuantumCount_layout [OF q]
    using B W q umod_counts [OF W(1) B(1,2)] by (simp add: nl map_conv_bind_option comp_def)
qed

lemma availableToWrite_layout:
  assumes q: "laid_out T B q" and W: "mem = layout r (of_nat (R + D)) ring rest" "load_readPtr q mem = Some (of_nat R)" "D \<le> B"
  shows "availableToWrite q mem = Some (of_nat ((B - D) div T))"
proof -
  have B: "B < 2 ^ 63" "0 < T" "sizeof_T q = of_nat T" "getSize (mDesc q) = Some (of_nat B)"
    using q by (auto simp: laid_out_def)
  have d: "availableToWriteBytes q mem = Some (of_nat B - of_nat D)"
    using B W q by (simp add: availableToWriteBytes_def availableToReadBytes_def)
  have "udiv (of_nat (B - D)) (of_nat T) = Some (of_nat ((B - D) div T))"
    using B laid_out_T [OF q] by (intro udiv_of_nat) auto
  then show ?thesis unfolding availableToWrite_def d B(3) of_nat_diff_u64 [OF W(3)] by simp
qed

lemma commitWrite_layout:
  assumes "laid_out T B q"
  shows "commitWrite q n (layout r (of_nat W) ring rest) = Some (True, layout r (of_nat (W + unat n * T)) ring rest)"
  using assms by (simp add: commitWrite_def) (simp add: laid_out_def)

lemma beginRead_layout:
  assumes q: "laid_out T B q" and W: "counts B R" "mem = layout r (of_nat (R + D)) ring rest" "load_readPtr q mem = Some (of_nat R)" "D \<le> B"
    and n: "unat n * T < 2 ^ 64"
  shows "beginRead q n mem =
    (if unat n * T \<le> D then map_option (\<lambda>tx. (True, tx, q, mem)) (make_tx (of_nat T) (of_nat B) (of_nat (R mod B)) n)
     else Some (False, null_tx, q, mem))"
proof -
  have B: "0 < B" "B < 2 ^ 63" "sizeof_T q = of_nat T" "getSize (mDesc q) = Some (of_nat B)"
    using q by (auto simp: laid_out_def)
  have D: "D < 2 ^ 64" using W B by simp
  have nT: "n * of_nat T = of_nat (unat n * T)" by simp
  have a: "\<not> (of_nat B :: u64) < of_nat D" using W B D of_nat_less_u64 [of B D] by simp
  have b: "(of_nat D :: u64) < n * of_nat T \<longleftrightarrow> \<not> unat n * T \<le> D"
    unfolding nT using of_nat_less_u64 [OF D n] by (simp only: linorder_not_le)
  show ?thesis
    using q W B a b umod_counts [OF W(1) B(1,2)]
    by (simp add: beginRead_def map_conv_bind_option comp_def)
qed

lemma commitRead_layout:
  assumes q: "laid_out T B q" and W: "mem = layout r (of_nat (R + D)) ring rest" "load_readPtr q mem = Some (of_nat R)" "D \<le> B"
  shows "commitRead q n mem =
    map_option (\<lambda>(q, mem). (True, q, mem)) (store_readPtr (of_nat (R + unat n * T)) q mem)"
proof -
  have B: "0 < B" "B < 2 ^ 63" "sizeof_T q = of_nat T" "getSize (mDesc q) = Some (of_nat B)"
    using q by (auto simp: laid_out_def)
  have a: "\<not> (of_nat B :: u64) < of_nat D" using W B of_nat_less_u64 [of B D] by simp
  show ?thesis
    using q W B a by (simp add: commitRead_def map_conv_bind_option comp_def split_def)
qed

lemma beginWrite_full:
  assumes q: "laid_out T B q" "flavor q = kSynchronizedReadWrite"
    and W: "mem = layout r (of_nat (R + D)) ring rest" "load_readPtr q mem = Some (of_nat R)" "D \<le> B"
    and full: "\<not> unat n * T \<le> B - D"
  shows "beginWrite q n mem = Some (False, null_tx)"
proof -
  have B: "B < 2 ^ 63" "0 < T" using q by (auto simp: laid_out_def)
  have "(B - D) div T < unat n" 
    unfolding linorder_not_le [symmetric] less_eq_div_iff_mult_less_eq [OF B(2)] by (rule full)
  moreover have "(B - D) div T < 2 ^ 64" by (rule le_less_trans [OF div_le_dividend]) (use B in simp)
  ultimately have "of_nat ((B - D) div T) < n" by (simp add: word_less_nat_alt)
  then show ?thesis unfolding beginWrite_def availableToWrite_layout [OF q(1) W] by (simp add: q(2))
qed

lemma beginWrite_room:
  assumes q: "laid_out T B q" "flavor q = kSynchronizedReadWrite"
    and W: "mem = layout r (of_nat (R + D)) ring rest" "load_readPtr q mem = Some (of_nat R)" "D \<le> B" "counts B (R + D)"
    and room: "unat n * T \<le> B - D"
  shows "beginWrite q n mem = map_option (Pair True) (make_tx (of_nat T) (of_nat B) (of_nat ((R + D) mod B)) n)"
proof (rule beginWrite_tx [OF q(1) W(4,1)])
  have B: "B < 2 ^ 63" "0 < T" using q by (auto simp: laid_out_def)
  have "unat n \<le> (B - D) div T" using room B by (simp add: less_eq_div_iff_mult_less_eq)
  moreover have "(B - D) div T < 2 ^ 64" by (rule le_less_trans [OF div_le_dividend]) (use B in simp)
  ultimately have "n \<le> of_nat ((B - D) div T)" by (simp add: word_le_nat_alt)
  then show "\<exists>a. availableToWrite q mem = Some a \<and> n \<le> a" using availableToWrite_layout [OF q(1) W(1-3)] by blast
qed (use room in linarith)

text \<open>A write behind \<open>D\<close> unread bytes leaves them as they are.\<close>

lemma cyc_write_unread:
  assumes "length bs + D \<le> length ring" "k < D"
  shows "cyc_write (R + D) bs ring ! ((R + k) mod length ring) = ring ! ((R + k) mod length ring)"
proof -
  let ?B = "length ring" let ?j = "?B - D + k"
  have "R + D + ?j = R + k + ?B" using assms by simp
  then have e: "(R + D + ?j) mod ?B = (R + k) mod ?B" by (metis mod_add_self2)
  have "?j < ?B" "\<not> ?j < length bs" using assms by simp_all
  then show ?thesis using nth_cyc_write [of bs ring ?j "R + D"] assms unfolding e by simp
qed

section \<open>Runs\<close>

text \<open>
  A writer and a reader that call \<open>write\<close> and \<open>read\<close>. Each call is three steps, the functions it is composed of,
  and the steps of the two are interleaved in any way. Every one of these functions touches a counter
  of the other process at most once. \<open>s_sent\<close> and \<open>s_got\<close> are the bytes of the messages that were
  written and read with success.
\<close>

datatype writer = W_idle | W_begun u64 "byte list" MemTransaction | W_copied u64 "byte list"
datatype reader = R_idle | R_begun u64 MemTransaction | R_copied u64 "byte list"

record fmq_state =
  s_mem :: shared
  s_wq :: message_queue
  s_rq :: message_queue
  s_w :: writer
  s_r :: reader
  s_sent :: "byte list"
  s_got :: "byte list"

definition writer_step :: "u64 \<Rightarrow> byte list \<Rightarrow> fmq_state \<Rightarrow> fmq_state option" where
  "writer_step n bs s =
     (case s_w s of
        W_idle \<Rightarrow> do {
          (ok, tx) \<leftarrow> beginWrite (s_wq s) n (s_mem s);
          Some (s\<lparr>s_w := if ok then W_begun n bs tx else W_idle\<rparr>) }
      | W_begun n bs tx \<Rightarrow> do {
          (ok, mem) \<leftarrow> copyTo (s_wq s) tx (Some bs) 0 n (s_mem s);
          Some (s\<lparr>s_mem := mem, s_w := if ok then W_copied n bs else W_idle\<rparr>) }
      | W_copied n bs \<Rightarrow> do {
          (ok, mem) \<leftarrow> commitWrite (s_wq s) n (s_mem s);
          Some (s\<lparr>s_mem := mem, s_w := W_idle, s_sent := s_sent s @ (if ok then bs else [])\<rparr>) })"

definition reader_step :: "u64 \<Rightarrow> fmq_state \<Rightarrow> fmq_state option" where
  "reader_step n s =
     (case s_r s of
        R_idle \<Rightarrow> do {
          (ok, tx, q, mem) \<leftarrow> beginRead (s_rq s) n (s_mem s);
          Some (s\<lparr>s_mem := mem, s_rq := q, s_r := if ok then R_begun n tx else R_idle\<rparr>) }
      | R_begun n tx \<Rightarrow> do {
          data \<leftarrow> copyFrom (s_rq s) tx False 0 n (s_mem s);
          Some (s\<lparr>s_r := case data of None \<Rightarrow> R_idle | Some bs \<Rightarrow> R_copied n bs\<rparr>) }
      | R_copied n bs \<Rightarrow> do {
          (ok, q, mem) \<leftarrow> commitRead (s_rq s) n (s_mem s);
          Some (s\<lparr>s_mem := mem, s_rq := q, s_r := R_idle, s_got := s_got s @ (if ok then bs else [])\<rparr>) })"

text \<open>The source of a write has the announced length, and the target of a read is a block of memory.\<close>

definition write_call :: "nat \<Rightarrow> u64 \<Rightarrow> byte list \<Rightarrow> bool" where
  "write_call T n bs \<longleftrightarrow> length bs = unat n * T"

definition read_call :: "nat \<Rightarrow> u64 \<Rightarrow> bool" where
  "read_call T n \<longleftrightarrow> unat n * T < 2 ^ 64"

inductive fmq_run :: "nat \<Rightarrow> fmq_state \<Rightarrow> fmq_state \<Rightarrow> bool" for T s0 where
  start: "fmq_run T s0 s0"
| writes: "fmq_run T s0 s \<Longrightarrow> write_call T n bs \<Longrightarrow> writer_step n bs s = Some s' \<Longrightarrow> fmq_run T s0 s'"
| reads: "fmq_run T s0 s \<Longrightarrow> read_call T n \<Longrightarrow> reader_step n s = Some s' \<Longrightarrow> fmq_run T s0 s'"

definition fmq_start :: "message_queue \<Rightarrow> message_queue \<Rightarrow> shared \<Rightarrow> fmq_state" where
  "fmq_start wq rq mem = \<lparr>s_mem = mem, s_wq = wq, s_rq = rq, s_w = W_idle, s_r = R_idle, s_sent = [], s_got = []\<rparr>"

end
