(* ===== verification/Fmq_Theorems.thy ===== *)
theory Fmq_Theorems
  imports Fmq_Runs "HOL-Library.Sublist"
begin

text \<open>
  Properties of the message queue: the synchronized flavor is a first-in first-out channel under every
  interleaving, the unsynchronized flavor is one when calls do not overlap, and what goes wrong otherwise.
\<close>

section \<open>The synchronized flavor\<close>

text \<open>The bytes of a write that are in the ring and not committed yet, and the room it has taken.\<close>

definition pending :: "writer \<Rightarrow> byte list" where
  "pending w = (case w of W_copied n bs \<Rightarrow> bs | _ \<Rightarrow> [])"

definition taken :: "writer \<Rightarrow> nat" where
  "taken w = (case w of W_idle \<Rightarrow> 0 | W_begun n bs tx \<Rightarrow> length bs | W_copied n bs \<Rightarrow> length bs)"

definition writer_ok :: "nat \<Rightarrow> nat \<Rightarrow> nat \<Rightarrow> writer \<Rightarrow> bool" where
  "writer_ok T B W w =
     (case w of
        W_idle \<Rightarrow> True
      | W_begun n bs tx \<Rightarrow> write_call T n bs \<and> make_tx (of_nat T) (of_nat B) (of_nat (W mod B)) n = Some tx
      | W_copied n bs \<Rightarrow> write_call T n bs)"

definition reader_ok :: "nat \<Rightarrow> nat \<Rightarrow> nat \<Rightarrow> byte list \<Rightarrow> reader \<Rightarrow> bool" where
  "reader_ok T B R unread r =
     (case r of
        R_idle \<Rightarrow> True
      | R_begun n tx \<Rightarrow> unat n * T \<le> length unread \<and> make_tx (of_nat T) (of_nat B) (of_nat (R mod B)) n = Some tx
      | R_copied n bs \<Rightarrow> unat n * T \<le> length unread \<and> bs = take (unat n * T) unread)"

text \<open>\<open>us\<close> are the bytes sent and not yet read.\<close>

definition sync_inv :: "nat \<Rightarrow> nat \<Rightarrow> byte list \<Rightarrow> fmq_state \<Rightarrow> bool" where
  "sync_inv T B us s \<longleftrightarrow>
     queue_of kSynchronizedReadWrite T B (s_wq s) \<and> queue_of kSynchronizedReadWrite T B (s_rq s) \<and>
     s_sent s = s_got s @ us \<and> T dvd length (s_got s) \<and> T dvd length us \<and> length us + taken (s_w s) \<le> B \<and>
     writer_ok T B (length (s_got s) + length us) (s_w s) \<and> reader_ok T B (length (s_got s)) us (s_r s) \<and>
     (\<exists>ring rest. s_mem s = layout (of_nat (length (s_got s))) (of_nat (length (s_got s) + length us)) ring rest \<and>
        length ring = B \<and> cyc (length (s_got s)) (length us + length (pending (s_w s))) ring = us @ pending (s_w s))"

lemma queue_of_sync:
  assumes "queue_of kSynchronizedReadWrite T B q"
  shows "laid_out T B q" "flavor q = kSynchronizedReadWrite" "load_readPtr q (layout r w ring rest) = Some r"
    "store_readPtr v q (layout r w ring rest) = Some (q, layout v w ring rest)"
  using assms by (simp_all add: queue_of_def reader_counter_def load_readPtr_def load_counter_def store_readPtr_def store_counter_def)

lemma cyc_eq_iff: "cyc p n ring = xs \<longleftrightarrow> length xs = n \<and> (\<forall>k < n. ring ! ((p + k) mod length ring) = xs ! k)"
  by (auto simp: cyc_def list_eq_iff_nth_eq)

lemma cyc_take: "m \<le> n \<Longrightarrow> cyc p n ring = xs \<Longrightarrow> cyc p m ring = take m xs"
  by (auto simp: cyc_eq_iff)

lemma cyc_drop: "m \<le> n \<Longrightarrow> cyc p n ring = xs \<Longrightarrow> cyc (p + m) (n - m) ring = drop m xs"
  by (auto simp: cyc_eq_iff add.assoc)

lemma cyc_after_write:
  assumes "cyc R (length us) ring = us" "length us + length bs \<le> length ring"
  shows "cyc R (length us + length bs) (cyc_write (R + length us) bs ring) = us @ bs"
proof -
  have "cyc_write (R + length us) bs ring ! ((R + k) mod length ring) = (us @ bs) ! k" if k: "k < length us + length bs" for k
  proof (cases "k < length us")
    case True
    have "length bs + length us \<le> length ring" using assms(2) by simp
    from cyc_write_unread [OF this True] show ?thesis
      using assms(1) True by (simp add: nth_append cyc_eq_iff)
  next
    case False
    then have "R + k = R + length us + (k - length us)" "k - length us < length bs" using k by simp_all
    then show ?thesis
      using nth_cyc_write [of bs ring "k - length us" "R + length us"] assms False by (simp add: nth_append)
  qed
  then show ?thesis using assms by (simp add: cyc_eq_iff)
qed

lemma make_tx_total:
  assumes "laid_out T B q" "unat n * T \<le> B" "T dvd p"
  obtains tx where "make_tx (of_nat T) (of_nat B) (of_nat (p mod B)) n = Some tx"
  by (rule tx_copies [OF assms(1,3,2), of "replicate B 0"]) simp_all

lemma tx_of_copies:
  assumes q: "laid_out T B q" and p: "T dvd p" and n: "unat n * T \<le> B" and ring: "length ring = B"
    and tx: "make_tx (of_nat T) (of_nat B) (of_nat (p mod B)) n = Some tx"
  shows "copyFrom q tx False 0 n (layout r w ring rest) = Some (Some (cyc p (unat n * T) ring))"
    "write_call T n bs \<Longrightarrow> copyTo q tx (Some bs) 0 n (layout r w ring rest) = Some (True, layout r w (cyc_write p bs ring) rest)"
proof -
  obtain tx' where "make_tx (of_nat T) (of_nat B) (of_nat (p mod B)) (of_nat (unat n)) = Some tx'"
    "\<And>r w rest. copyFrom q tx' False 0 (of_nat (unat n)) (layout r w ring rest) = Some (Some (cyc p (unat n * T) ring))"
    "\<And>bs r w rest. length bs = unat n * T \<Longrightarrow>
       copyTo q tx' (Some bs) 0 (of_nat (unat n)) (layout r w ring rest) = Some (True, layout r w (cyc_write p bs ring) rest)"
    by (rule tx_copies [OF q p n ring]) blast
  then show "copyFrom q tx False 0 n (layout r w ring rest) = Some (Some (cyc p (unat n * T) ring))"
    "write_call T n bs \<Longrightarrow> copyTo q tx (Some bs) 0 n (layout r w ring rest) = Some (True, layout r w (cyc_write p bs ring) rest)"
    using tx by (simp_all add: write_call_def)
qed

lemma writer_step_sync:
  assumes inv: "sync_inv T B us s" and c: "write_call T n bs" and cnt: "counts B (length (s_sent s))"
  obtains s' us' where "writer_step n bs s = Some s'" "sync_inv T B us' s'"
proof -
  let ?R = "length (s_got s)"
  obtain ring rest where mem: "s_mem s = layout (of_nat ?R) (of_nat (?R + length us)) ring rest" "length ring = B"
    and ring: "cyc ?R (length us + length (pending (s_w s))) ring = us @ pending (s_w s)"
    using inv by (auto simp: sync_inv_def)
  have q: "queue_of kSynchronizedReadWrite T B (s_wq s)" and sent: "s_sent s = s_got s @ us"
    and dv: "T dvd ?R" "T dvd length us" "T dvd ?R + length us" and room: "length us + taken (s_w s) \<le> B"
    and w: "writer_ok T B (?R + length us) (s_w s)"
    using inv by (auto simp: sync_inv_def)
  note qs = queue_of_sync [OF q]
  show thesis
  proof (cases "s_w s")
    case W_idle
    show thesis
    proof (cases "unat n * T \<le> B - length us")
      case True
      then have n: "unat n * T \<le> B" by simp
      obtain tx where tx: "make_tx (of_nat T) (of_nat B) (of_nat ((?R + length us) mod B)) n = Some tx"
        by (rule make_tx_total [OF qs(1) n dv(3)])
      have "beginWrite (s_wq s) n (s_mem s) = Some (True, tx)"
        using beginWrite_room [OF qs(1,2) mem(1) _ _ _ True] qs(3) mem room cnt sent tx by (simp add: mem(1))
      then have "writer_step n bs s = Some (s\<lparr>s_w := W_begun n bs tx\<rparr>)" by (simp add: writer_step_def W_idle)
      moreover have "length us + length bs \<le> B" using True room c by (simp add: write_call_def)
      then have "sync_inv T B us (s\<lparr>s_w := W_begun n bs tx\<rparr>)"
        using inv tx c by (simp add: sync_inv_def W_idle writer_ok_def taken_def pending_def)
      ultimately show thesis by (rule that)
    next
      case False
      have "beginWrite (s_wq s) n (s_mem s) = Some (False, null_tx)"
        using beginWrite_full [OF qs(1,2) mem(1) _ _ False] qs(3) mem room by simp
      then have "writer_step n bs s = Some (s\<lparr>s_w := W_idle\<rparr>)" by (simp add: writer_step_def W_idle)
      moreover have "sync_inv T B us (s\<lparr>s_w := W_idle\<rparr>)" using inv by (simp add: sync_inv_def W_idle)
      ultimately show thesis by (rule that)
    qed
  next
    case (W_begun n' bs' tx)
    have c': "write_call T n' bs'" and tx: "make_tx (of_nat T) (of_nat B) (of_nat ((?R + length us) mod B)) n' = Some tx"
      using w by (simp_all add: W_begun writer_ok_def)
    have n: "unat n' * T \<le> B" using room c' by (simp add: W_begun taken_def write_call_def)
    note cp = tx_of_copies(2) [OF qs(1) dv(3) n mem(2) tx c']
    define s' where "s' = s\<lparr>s_mem := layout (of_nat ?R) (of_nat (?R + length us)) (cyc_write (?R + length us) bs' ring) rest,
        s_w := W_copied n' bs'\<rparr>"
    have "writer_step n bs s = Some s'"
      using cp by (simp add: writer_step_def W_begun mem(1) s'_def)
    moreover have "cyc ?R (length us + length bs') (cyc_write (?R + length us) bs' ring) = us @ bs'"
      using ring room mem(2) by (intro cyc_after_write) (simp_all add: W_begun pending_def taken_def)
    then have "sync_inv T B us s'"
      using inv c' room mem(2) length_cyc_write [of bs' ring]
      by (auto simp: sync_inv_def W_begun writer_ok_def taken_def pending_def s'_def)
    ultimately show thesis by (rule that)
  next
    case (W_copied n' bs')
    have c': "length bs' = unat n' * T" using w by (simp add: W_copied writer_ok_def write_call_def)
    have cm: "commitWrite (s_wq s) n' (s_mem s) = Some (True, layout (of_nat ?R) (of_nat (?R + length (us @ bs'))) ring rest)"
      unfolding mem(1) commitWrite_layout [OF qs(1)] by (simp add: c' add.assoc)
    define s' where "s' = s\<lparr>s_mem := layout (of_nat ?R) (of_nat (?R + length (us @ bs'))) ring rest,
        s_w := W_idle, s_sent := s_sent s @ bs'\<rparr>"
    have "writer_step n bs s = Some s'"
      using cm by (simp add: writer_step_def W_copied s'_def)
    moreover have "sync_inv T B (us @ bs') s'"
      using inv c' room mem(2) ring
      by (auto simp: sync_inv_def W_copied writer_ok_def reader_ok_def taken_def pending_def s'_def split: reader.splits)
    ultimately show thesis by (rule that)
  qed
qed

lemma reader_step_sync:
  assumes inv: "sync_inv T B us s" and c: "read_call T n" and cnt: "counts B (length (s_sent s))"
  obtains s' us' where "reader_step n s = Some s'" "sync_inv T B us' s'"
proof -
  let ?R = "length (s_got s)"
  obtain ring rest where mem: "s_mem s = layout (of_nat ?R) (of_nat (?R + length us)) ring rest" "length ring = B"
    and ring: "cyc ?R (length us + length (pending (s_w s))) ring = us @ pending (s_w s)"
    using inv by (auto simp: sync_inv_def)
  have q: "queue_of kSynchronizedReadWrite T B (s_rq s)" and sent: "s_sent s = s_got s @ us"
    and dv: "T dvd ?R" "T dvd length us" and room: "length us \<le> B"
    and r: "reader_ok T B ?R us (s_r s)"
    using inv by (auto simp: sync_inv_def)
  note qs = queue_of_sync [OF q]
  have rd: "load_readPtr (s_rq s) (s_mem s) = Some (of_nat ?R)" by (simp add: mem(1) qs(3))
  have cR: "counts B ?R" using cnt by (rule counts_mono) (simp add: sent)
  show thesis
  proof (cases "s_r s")
    case R_idle
    note br = beginRead_layout [OF qs(1) cR mem(1) rd room c [unfolded read_call_def]]
    show thesis
    proof (cases "unat n * T \<le> length us")
      case True
      then have n: "unat n * T \<le> B" using room by linarith
      obtain tx where tx: "make_tx (of_nat T) (of_nat B) (of_nat (?R mod B)) n = Some tx"
        by (rule make_tx_total [OF qs(1) n dv(1)])
      have "reader_step n s = Some (s\<lparr>s_r := R_begun n tx\<rparr>)" using True tx by (simp add: reader_step_def R_idle br)
      moreover have "sync_inv T B us (s\<lparr>s_r := R_begun n tx\<rparr>)"
        using inv tx True by (simp add: sync_inv_def R_idle reader_ok_def)
      ultimately show thesis by (rule that)
    next
      case False
      have "reader_step n s = Some (s\<lparr>s_r := R_idle\<rparr>)" using False by (simp add: reader_step_def R_idle br)
      moreover have "sync_inv T B us (s\<lparr>s_r := R_idle\<rparr>)" using inv by (simp add: sync_inv_def R_idle)
      ultimately show thesis by (rule that)
    qed
  next
    case (R_begun n' tx)
    have n: "unat n' * T \<le> length us" and tx: "make_tx (of_nat T) (of_nat B) (of_nat (?R mod B)) n' = Some tx"
      using r by (simp_all add: R_begun reader_ok_def)
    then have "unat n' * T \<le> B" using room by linarith
    note cp = tx_of_copies(1) [OF qs(1) dv(1) this mem(2) tx]
    have "cyc ?R (unat n' * T) ring = take (unat n' * T) us" using cyc_take [OF _ ring] n by simp
    then have "reader_step n s = Some (s\<lparr>s_r := R_copied n' (take (unat n' * T) us)\<rparr>)"
      using cp by (simp add: reader_step_def R_begun mem(1))
    moreover have "sync_inv T B us (s\<lparr>s_r := R_copied n' (take (unat n' * T) us)\<rparr>)"
      using inv n by (simp add: sync_inv_def reader_ok_def)
    ultimately show thesis by (rule that)
  next
    case (R_copied n' bs)
    let ?m = "unat n' * T"
    have n: "?m \<le> length us" and bs: "bs = take ?m us" using r by (simp_all add: R_copied reader_ok_def)
    define s' where "s' = s\<lparr>s_mem := layout (of_nat (?R + ?m)) (of_nat (?R + length us)) ring rest, s_r := R_idle, s_got := s_got s @ bs\<rparr>"
    have "reader_step n s = Some s'"
      using commitRead_layout [OF qs(1) mem(1) rd room, of n'] qs(4)
      by (simp add: reader_step_def R_copied mem(1) s'_def)
    moreover have "cyc (?R + ?m) (length us + length (pending (s_w s)) - ?m) ring = drop ?m us @ pending (s_w s)"
      using cyc_drop [OF _ ring, of ?m] n by simp
    then have "sync_inv T B (drop ?m us) s'"
      using inv n bs mem(2) dv room by (simp add: sync_inv_def reader_ok_def s'_def of_nat_diff) auto
    ultimately show thesis by (rule that)
  qed
qed

lemma step_sent:
  "writer_step n bs s = Some s' \<Longrightarrow> length (s_sent s) \<le> length (s_sent s')"
  "reader_step n s = Some s' \<Longrightarrow> s_sent s' = s_sent s"
  by (auto simp: writer_step_def reader_step_def split: writer.splits reader.splits bind_splits)

lemma fmq_run_sync:
  assumes "fmq_run T s0 s" "sync_inv T B us0 s0" "counts B (length (s_sent s))"
  obtains us where "sync_inv T B us s"
  using assms
proof (induction arbitrary: thesis)
  case start
  then show ?case by blast
next
  case (writes s n bs s')
  have cnt: "counts B (length (s_sent s))" using writes.prems(3) step_sent(1) [OF writes.hyps(3)] by (rule counts_mono)
  from writes.IH [OF _ writes.prems(2) cnt] obtain us where "sync_inv T B us s" by blast
  from writer_step_sync [OF this writes.hyps(2) cnt] show ?case using writes.hyps(3) writes.prems(1) by force
next
  case (reads s n s')
  have cnt: "counts B (length (s_sent s))" using reads.prems(3) step_sent(2) [OF reads.hyps(3)] by simp
  from reads.IH [OF _ reads.prems(2) cnt] obtain us where "sync_inv T B us s" by blast
  from reader_step_sync [OF this reads.hyps(2) cnt] show ?case using reads.hyps(3) reads.prems(1) by force
qed

lemma sync_inv_start:
  assumes "queue_of kSynchronizedReadWrite T B wq" "queue_of kSynchronizedReadWrite T B rq" "length ring = B"
  shows "sync_inv T B [] (fmq_start wq rq (layout 0 0 ring rest))"
  using assms by (auto simp: sync_inv_def fmq_start_def taken_def pending_def writer_ok_def reader_ok_def cyc_def)

text \<open>Calls that are not interrupted: a read gets the oldest bytes, a write succeeds when there is room.\<close>

lemma read_messages_sync:
  assumes inv: "sync_inv T B us s" and cnt: "counts B (length (s_sent s))" and n: "unat n * T \<le> length us"
  obtains q mem where "read_messages (s_rq s) False n (s_mem s) = Some (Some (take (unat n * T) us), q, mem)"
proof -
  let ?R = "length (s_got s)"
  obtain ring rest where mem: "s_mem s = layout (of_nat ?R) (of_nat (?R + length us)) ring rest" "length ring = B"
    and ring: "cyc ?R (length us + length (pending (s_w s))) ring = us @ pending (s_w s)"
    and q: "queue_of kSynchronizedReadWrite T B (s_rq s)" and sent: "s_sent s = s_got s @ us"
    and dv: "T dvd ?R" and room: "length us \<le> B"
    using inv by (auto simp: sync_inv_def)
  note qs = queue_of_sync [OF q]
  have rd: "load_readPtr (s_rq s) (s_mem s) = Some (of_nat ?R)" by (simp add: mem(1) qs(3))
  have cR: "counts B ?R" using cnt by (rule counts_mono) (simp add: sent)
  have "B < 2 ^ 63" using qs(1) by (simp add: laid_out_def)
  then have n': "unat n * T \<le> B" "unat n * T < 2 ^ 64" using n room by simp_all
  obtain tx where tx: "make_tx (of_nat T) (of_nat B) (of_nat (?R mod B)) n = Some tx"
    by (rule make_tx_total [OF qs(1) n'(1) dv])
  have "cyc ?R (unat n * T) ring = take (unat n * T) us" using cyc_take [OF _ ring] n by simp
  then show thesis
    using that tx_of_copies(1) [OF qs(1) dv n'(1) mem(2) tx] commitRead_layout [OF qs(1) mem(1) rd room, of n]
      beginRead_layout [OF qs(1) cR mem(1) rd room n'(2)] n tx qs(4)
    by (simp add: read_messages_def mem(1))
qed

lemma write_messages_sync:
  assumes inv: "sync_inv T B us s" and cnt: "counts B (length (s_sent s))" and n: "write_call T n bs"
  shows "\<exists>mem. write_messages (s_wq s) (Some bs) n (s_mem s) = Some (length bs \<le> B - length us, mem)"
proof -
  let ?R = "length (s_got s)"
  obtain ring rest where mem: "s_mem s = layout (of_nat ?R) (of_nat (?R + length us)) ring rest" "length ring = B"
    and q: "queue_of kSynchronizedReadWrite T B (s_wq s)" and sent: "s_sent s = s_got s @ us"
    and dv: "T dvd ?R" "T dvd length us" and room: "length us \<le> B"
    using inv by (auto simp: sync_inv_def)
  note qs = queue_of_sync [OF q]
  have dvW: "T dvd ?R + length us" using dv by simp
  have rd: "load_readPtr (s_wq s) (s_mem s) = Some (of_nat ?R)" by (simp add: mem(1) qs(3))
  show ?thesis
  proof (cases "unat n * T \<le> B - length us")
    case True
    then have n': "unat n * T \<le> B" by simp
    obtain tx where tx: "make_tx (of_nat T) (of_nat B) (of_nat ((?R + length us) mod B)) n = Some tx"
      by (rule make_tx_total [OF qs(1) n' dvW])
    have "beginWrite (s_wq s) n (s_mem s) = Some (True, tx)"
      using beginWrite_room [OF qs(1,2) mem(1) rd room _ True] cnt sent tx by simp
    then show ?thesis
      using tx_of_copies(2) [OF qs(1) dvW n' mem(2) tx n] True n
      by (simp add: write_messages_def mem(1) commitWrite_def write_call_def load_writePtr_layout [OF qs(1)] store_writePtr_layout [OF qs(1)])
  next
    case False
    then show ?thesis
      using beginWrite_full [OF qs(1,2) mem(1) rd room False] n by (simp add: write_messages_def write_call_def)
  qed
qed

text \<open>
  C13: A writer makes a synchronized queue for \<open>N\<close> messages of \<open>T\<close> bytes and a reader attaches to it. Under every
  interleaving of the steps of their calls no access leaves the shared memory, what was read is a prefix
  of what was written, and what lies between is at most the capacity: nothing is lost, duplicated or
  reordered. A read for which there are enough messages succeeds and returns the oldest ones, and a
  write succeeds exactly if there is room. The counters may wrap around if the size of the ring divides
  \<open>2 ^ 64\<close>; otherwise fewer than \<open>2 ^ 64\<close> bytes are sent.
\<close>

theorem synchronized_queue_is_fifo:
  assumes size: "N * T < 2 ^ 31 - 16" "0 < N" "0 < T"
    and writer: "MessageQueue_of_size env (of_nat T) kSynchronizedReadWrite (of_nat N) ev = Some (wq, mem0)" "isValid wq"
    and reader: "MessageQueue_of_desc env' (of_nat T) kSynchronizedReadWrite (mDesc wq) reset mem0 = Some (rq, mem)" "isValid rq"
    and run: "fmq_run T (fmq_start wq rq mem) s"
    and count: "length (s_sent s) < 2 ^ 64 \<or> N * T dvd 2 ^ 64"
  shows "\<exists>unread. s_sent s = s_got s @ unread \<and> length unread \<le> N * T \<and> T dvd length unread \<and>
    (\<forall>n bs. write_call T n bs \<longrightarrow> writer_step n bs s \<noteq> None \<and>
       (\<exists>mem'. write_messages (s_wq s) (Some bs) n (s_mem s) = Some (length bs \<le> N * T - length unread, mem'))) \<and>
    (\<forall>n. read_call T n \<longrightarrow> reader_step n s \<noteq> None) \<and>
    (\<forall>n. unat n * T \<le> length unread \<longrightarrow>
       (\<exists>q mem'. read_messages (s_rq s) False n (s_mem s) = Some (Some (take (unat n * T) unread), q, mem')))"
proof -
  obtain rest where wq: "queue_of kSynchronizedReadWrite T (N * T) wq" "mem0 = layout 0 0 (replicate (N * T) 0) rest"
    by (rule MessageQueue_of_size_ok [OF size writer])
  have rq: "queue_of kSynchronizedReadWrite T (N * T) rq" "mem = layout 0 0 (replicate (N * T) 0) rest"
    using MessageQueue_of_desc_ok [OF size(1) wq(1) reader(1) [unfolded wq(2)] reader(2)] by simp_all
  have cnt: "counts (N * T) (length (s_sent s))" using count by (simp add: counts_def)
  from fmq_run_sync [OF run [unfolded rq(2)] sync_inv_start [OF wq(1) rq(1)] cnt]
  obtain us where us: "sync_inv T (N * T) us s" by auto
  show ?thesis
  proof (intro exI [of _ us] conjI allI impI)
    show "s_sent s = s_got s @ us" "length us \<le> N * T" "T dvd length us" using us by (auto simp: sync_inv_def)
  next
    fix n bs assume c: "write_call T n bs"
    show "writer_step n bs s \<noteq> None" using writer_step_sync [OF us c cnt] by (metis option.discI)
    show "\<exists>mem'. write_messages (s_wq s) (Some bs) n (s_mem s) = Some (length bs \<le> N * T - length us, mem')"
      by (rule write_messages_sync [OF us cnt c])
  next
    fix n assume "read_call T n"
    then show "reader_step n s \<noteq> None" using reader_step_sync [OF us _ cnt] by (metis option.discI)
  next
    fix n :: u64 assume "unat n * T \<le> length us"
    then show "\<exists>q mem'. read_messages (s_rq s) False n (s_mem s) = Some (Some (take (unat n * T) us), q, mem')"
      using read_messages_sync [OF us cnt] by metis
  qed
qed

section \<open>A concrete queue\<close>

definition demo_fmq_env :: fmq_env where
  "demo_fmq_env = \<lparr>mmap_ok = (\<lambda>_. True), fresh_counter = Some 7, handle_ok = True, desc_ok = True\<rparr>"

text \<open>A queue for one message of one byte.\<close>

definition demo_queue :: "MQFlavor \<Rightarrow> message_queue" where
  "demo_queue fl = \<lparr>sizeof_T = 1, flavor = fl, mDesc = default_desc 1 1 [], mRing = Some (ring_view 1),
     mReadPtr = Some (reader_counter fl), mWritePtr = Some write_view, mEvFlagWord = None\<rparr>"

definition demo_mem :: shared where
  "demo_mem = layout 0 0 [0] (replicate 4079 0)"

lemma demo_init:
  "initMemory demo_fmq_env True (null_queue 1 fl (default_desc 1 1 [])) demo_mem = Some (demo_queue fl, demo_mem)"
  using default_desc_simps [of 1 1 "[]"] map_default_ring [of 1 demo_fmq_env 1 "[]"]
  by (cases fl) (simp_all add: initMemory_def null_queue_def map_counters_def demo_fmq_env_def demo_mem_def demo_queue_def
    store_readPtr_def store_counter_def store_writePtr_def reader_counter_def, simp_all add: mapGrantorDescr_def default_desc_def EVFLAGWORDPOS_def)

lemma demo_allocs [simp]: "handle_ok demo_fmq_env" "desc_ok demo_fmq_env"
  by (simp_all add: demo_fmq_env_def)

lemma demo_of_size: "MessageQueue_of_size demo_fmq_env 1 fl 1 False = Some (demo_queue fl, demo_mem)"
proof -
  have "ashmem_size 1 False = Some 4096" by code_simp
  moreover have "MQDescriptor_of_size 1 (Some 1) 1 False = Some (default_desc 1 1 [])"
    by (simp add: MQDescriptor_of_size_def default_desc_def)
  moreover have "[replicate 4096 0] = demo_mem" using layout_zero [of 1 4096] by (simp add: demo_mem_def)
  ultimately show ?thesis using demo_init [of fl] by (simp add: MessageQueue_of_size_def)
qed

lemma demo_of_desc: "MessageQueue_of_desc demo_fmq_env 1 fl (mDesc (demo_queue fl)) True demo_mem = Some (demo_queue fl, demo_mem)"
  using demo_init [of fl] by (simp add: MessageQueue_of_desc_def) (simp add: demo_queue_def)

lemma demo_valid: "isValid (demo_queue fl)"
  by (simp add: isValid_def demo_queue_def)

text \<open>The steps of a run on it, as equations on its counters and its byte.\<close>

lemma demo_laid_out: "laid_out 1 1 (demo_queue fl)"
  using default_desc_simps [of 1 1 "[]"] by (simp add: laid_out_def demo_queue_def)

definition demo_tx :: MemTransaction where
  "demo_tx = \<lparr>first = \<lparr>address = Some 0, rlength = 1\<rparr>, second = null_region\<rparr>"

lemma demo_make_tx: "make_tx 1 1 0 1 = Some demo_tx"
  by (simp add: make_tx_def udiv_def demo_tx_def)

lemma demo_copyTo: "copyTo (demo_queue fl) demo_tx (Some [b]) 0 1 (layout r w [x] rest) = Some (True, layout r w [b] rest)"
  using tx_of_copies(2) [of 1 1 "demo_queue fl" 0 1 "[x]" demo_tx "[b]" r w rest] demo_laid_out [of fl] demo_make_tx
  by (simp add: write_call_def cyc_write_def memcpy_at_def)

lemma demo_copyFrom: "copyFrom (demo_queue fl) demo_tx False 0 1 (layout r w [x] rest) = Some (Some [x])"
  using tx_of_copies(1) [of 1 1 "demo_queue fl" 0 1 "[x]" demo_tx r w rest] demo_laid_out [of fl] demo_make_tx
  by (simp add: cyc_def)

lemma demo_beginWrite: "beginWrite (demo_queue fl) 1 (layout 0 0 [x] rest) = Some (True, demo_tx)"
proof (rule trans [OF beginWrite_tx [OF demo_laid_out, of 0]])
  show "\<exists>a. availableToWrite (demo_queue fl) (layout 0 0 [x] rest) = Some a \<and> 1 \<le> a" if "flavor (demo_queue fl) = kSynchronizedReadWrite"
    using that availableToWrite_layout [OF demo_laid_out, of _ 0 0 0 "[x]" rest fl]
    by (simp add: load_readPtr_def load_counter_def demo_queue_def reader_counter_def)
qed (simp_all add: counts_def demo_make_tx)

lemma demo_beginWrite_unsync: "beginWrite (demo_queue kUnsynchronizedWrite) 1 (layout 0 1 [x] rest) = Some (True, demo_tx)"
  by (rule trans [OF beginWrite_tx [OF demo_laid_out, of 1]]) (simp_all add: counts_def demo_make_tx demo_queue_def)

definition demo_after :: "MQFlavor \<Rightarrow> byte \<Rightarrow> fmq_state" where
  "demo_after fl b = (fmq_start (demo_queue fl) (demo_queue fl) (layout 0 1 [b] (replicate 4079 0)))\<lparr>s_sent := [b]\<rparr>"

lemma demo_written: "fmq_run 1 (fmq_start (demo_queue fl) (demo_queue fl) demo_mem) (demo_after fl b)"
proof -
  let ?s = "fmq_start (demo_queue fl) (demo_queue fl) demo_mem"
  have c: "write_call 1 1 [b]" by (simp add: write_call_def)
  have 1: "writer_step 1 [b] ?s = Some (?s\<lparr>s_w := W_begun 1 [b] demo_tx\<rparr>)"
    by (simp add: writer_step_def fmq_start_def demo_mem_def demo_beginWrite)
  have 2: "writer_step 1 [b] (?s\<lparr>s_w := W_begun 1 [b] demo_tx\<rparr>) =
      Some (?s\<lparr>s_mem := layout 0 0 [b] (replicate 4079 0), s_w := W_copied 1 [b]\<rparr>)"
    by (simp add: writer_step_def fmq_start_def demo_mem_def demo_copyTo)
  have 3: "writer_step 1 [b] (?s\<lparr>s_mem := layout 0 0 [b] (replicate 4079 0), s_w := W_copied 1 [b]\<rparr>) = Some (demo_after fl b)"
    using commitWrite_layout [OF demo_laid_out, of fl 1 0 0 "[b]"] by (simp add: writer_step_def fmq_start_def demo_after_def)
  show ?thesis by (rule fmq_run.writes [OF fmq_run.writes [OF fmq_run.writes [OF fmq_run.start c 1] c 2] c 3])
qed

theorem synchronized_queue_is_fifo_witness:
  "\<exists>s. s_sent s = [5] \<and> s_got s = [] \<and> fmq_run 1 (fmq_start (demo_queue kSynchronizedReadWrite) (demo_queue kSynchronizedReadWrite) demo_mem) s \<and>
     (\<exists>q mem'. read_messages (s_rq s) False 1 (s_mem s) = Some (Some [5], q, mem'))"
proof -
  let ?s = "demo_after kSynchronizedReadWrite 5"
  have s: "s_sent ?s = [5]" "s_got ?s = []" by (simp_all add: demo_after_def fmq_start_def)
  have new: "MessageQueue_of_size demo_fmq_env (of_nat 1) kSynchronizedReadWrite (of_nat 1) False = Some (demo_queue kSynchronizedReadWrite, demo_mem)"
    using demo_of_size by simp
  have att: "MessageQueue_of_desc demo_fmq_env (of_nat 1) kSynchronizedReadWrite (mDesc (demo_queue kSynchronizedReadWrite)) True demo_mem =
      Some (demo_queue kSynchronizedReadWrite, demo_mem)"
    using demo_of_desc by simp
  have "length (s_sent ?s) < 2 ^ 64 \<or> 1 * 1 dvd (2 :: nat) ^ 64" by simp
  from synchronized_queue_is_fifo [OF _ _ _ new demo_valid att demo_valid demo_written this]
  obtain unread where "s_sent ?s = s_got ?s @ unread"
    and rd: "\<forall>n. unat n * 1 \<le> length unread \<longrightarrow> (\<exists>q mem'. read_messages (s_rq ?s) False n (s_mem ?s) = Some (Some (take (unat n * 1) unread), q, mem'))"
    by auto
  then have "unread = [5]" using s by simp
  with rd [rule_format, of 1] have "\<exists>q mem'. read_messages (s_rq ?s) False 1 (s_mem ?s) = Some (Some [5], q, mem')" by simp
  then show ?thesis using demo_written s by blast
qed

section \<open>The unsynchronized flavor\<close>

text \<open>Complete calls of one writer and one reader; \<open>s_sent\<close> are the bytes written.\<close>

inductive unsync_calls :: "nat \<Rightarrow> fmq_state \<Rightarrow> fmq_state \<Rightarrow> bool" for T s0 where
  init: "unsync_calls T s0 s0"
| writes: "unsync_calls T s0 s \<Longrightarrow> write_call T n bs \<Longrightarrow> write_messages (s_wq s) (Some bs) n (s_mem s) = Some (ok, mem) \<Longrightarrow>
    unsync_calls T s0 (s\<lparr>s_mem := mem, s_sent := s_sent s @ (if ok then bs else [])\<rparr>)"
| reads: "unsync_calls T s0 s \<Longrightarrow> read_call T n \<Longrightarrow> read_messages (s_rq s) False n (s_mem s) = Some (data, q, mem) \<Longrightarrow>
    unsync_calls T s0 (s\<lparr>s_mem := mem, s_rq := q\<rparr>)"

text \<open>The ring holds the last bytes that were sent; \<open>R\<close> is the position of the reader.\<close>

definition unsync_inv :: "nat \<Rightarrow> nat \<Rightarrow> nat \<Rightarrow> fmq_state \<Rightarrow> bool" where
  "unsync_inv T B R s \<longleftrightarrow>
     laid_out T B (s_wq s) \<and> flavor (s_wq s) = kUnsynchronizedWrite \<and>
     laid_out T B (s_rq s) \<and> mReadPtr (s_rq s) = Some (PrivateCtr (of_nat R)) \<and>
     R \<le> length (s_sent s) \<and> T dvd R \<and> T dvd length (s_sent s) \<and>
     (\<exists>r ring rest. s_mem s = layout r (of_nat (length (s_sent s))) ring rest \<and> length ring = B \<and>
        (\<forall>k. length (s_sent s) \<le> k + B \<and> k < length (s_sent s) \<longrightarrow> ring ! (k mod B) = s_sent s ! k))"

lemma unsync_inv_mem:
  assumes "unsync_inv T B R s" "T dvd length sent" "R \<le> length sent" "mem = layout r (of_nat (length sent)) ring rest" "length ring = B"
    "\<And>k. length sent \<le> k + B \<Longrightarrow> k < length sent \<Longrightarrow> ring ! (k mod B) = sent ! k"
  shows "unsync_inv T B R (s\<lparr>s_mem := mem, s_sent := sent\<rparr>)"
  using assms by (simp add: unsync_inv_def) blast

lemma write_messages_unsync:
  assumes inv: "unsync_inv T B R s" and c: "write_call T n bs" and cnt: "counts B (length (s_sent s))"
  obtains mem where "write_messages (s_wq s) (Some bs) n (s_mem s) = Some (length bs \<le> B, mem)"
    "unsync_inv T B R (s\<lparr>s_mem := mem, s_sent := s_sent s @ (if length bs \<le> B then bs else [])\<rparr>)"
proof -
  let ?W = "length (s_sent s)"
  obtain r ring rest where mem: "s_mem s = layout r (of_nat ?W) ring rest" "length ring = B"
    and ring: "\<And>k. ?W \<le> k + B \<Longrightarrow> k < ?W \<Longrightarrow> ring ! (k mod B) = s_sent s ! k"
    and q: "laid_out T B (s_wq s)" "flavor (s_wq s) = kUnsynchronizedWrite" and dv: "T dvd ?W"
    using inv by (auto simp: unsync_inv_def)
  have bs: "length bs = unat n * T" using c by (simp add: write_call_def)
  show thesis
  proof (cases "length bs \<le> B")
    case True
    then have n: "unat n * T \<le> B" using bs by simp
    obtain tx where tx: "make_tx (of_nat T) (of_nat B) (of_nat (?W mod B)) n = Some tx"
      by (rule make_tx_total [OF q(1) n dv])
    have "beginWrite (s_wq s) n (s_mem s) = Some (True, tx)"
      using beginWrite_tx [OF q(1) cnt mem(1) n] q(2) tx by simp
    then have "write_messages (s_wq s) (Some bs) n (s_mem s) =
        Some (True, layout r (of_nat (?W + unat n * T)) (cyc_write ?W bs ring) rest)"
      using tx_of_copies(2) [OF q(1) dv n mem(2) tx c] commitWrite_layout [OF q(1)]
      by (simp add: write_messages_def mem(1))
    moreover have "cyc_write ?W bs ring ! (k mod B) = (s_sent s @ bs) ! k"
      if k: "?W + length bs \<le> k + B" "k < ?W + length bs" for k
    proof (cases "k < ?W")
      case True
      have "?W = k + (?W - k)" "length bs + (?W - k) \<le> length ring" using True k mem(2) by simp_all
      then have "cyc_write ?W bs ring ! (k mod B) = ring ! (k mod B)"
        using cyc_write_unread [of bs "?W - k" ring 0 k] True mem(2) by simp
      then show ?thesis using ring [of k] k True by (simp add: nth_append)
    next
      case False
      then have "k - ?W < length bs" using k by linarith
      then show ?thesis
        using nth_cyc_write [of bs ring "k - ?W" ?W] \<open>length bs \<le> B\<close> mem(2) k False by (simp add: nth_append)
    qed
    then have "unsync_inv T B R (s\<lparr>s_mem := layout r (of_nat (?W + unat n * T)) (cyc_write ?W bs ring) rest, s_sent := s_sent s @ bs\<rparr>)"
      using inv bs True mem(2) dv 
      by (intro unsync_inv_mem [OF inv, where r = r and ring = "cyc_write ?W bs ring" and rest = rest]) (auto simp: unsync_inv_def)
    ultimately show thesis using True by (intro that) simp_all
  next
    case False
    have lt: "B div T < unat n"
      unfolding linorder_not_le [symmetric] using False bs q(1) by (simp add: laid_out_def less_eq_div_iff_mult_less_eq)
    moreover have "B div T < 2 ^ 64" by (rule le_less_trans [OF div_le_dividend]) (use q(1) in \<open>simp add: laid_out_def\<close>)
    ultimately have "of_nat (B div T) < n" by (simp add: word_less_nat_alt)
    then have "write_messages (s_wq s) (Some bs) n (s_mem s) = Some (False, s_mem s)"
      by (simp add: write_messages_def beginWrite_def q(2) getQuantumCount_layout [OF q(1)])
    then show thesis using that inv False by simp
  qed
qed

text \<open>Where a read of \<open>n\<close> bytes leaves the reader, and what it returns.\<close>

definition unsync_read :: "nat \<Rightarrow> byte list \<Rightarrow> nat \<Rightarrow> nat \<Rightarrow> byte list option \<times> nat" where
  "unsync_read B sent R n =
     (if length sent - R > B then (None, length sent)
      else if n \<le> length sent - R then (Some (take n (drop R sent)), R + n)
      else (None, R))"

lemma read_messages_unsync:
  assumes inv: "unsync_inv T B R s" and c: "read_call T n" and cnt: "length (s_sent s) < 2 ^ 64"
  obtains q where "unsync_inv T B (snd (unsync_read B (s_sent s) R (unat n * T))) (s\<lparr>s_rq := q\<rparr>)"
    "read_messages (s_rq s) False n (s_mem s) = Some (fst (unsync_read B (s_sent s) R (unat n * T)), q, s_mem s)"
proof -
  let ?W = "length (s_sent s)" let ?m = "unat n * T"
  obtain r ring rest where mem: "s_mem s = layout r (of_nat ?W) ring rest" "length ring = B"
    and ring: "\<And>k. ?W \<le> k + B \<Longrightarrow> k < ?W \<Longrightarrow> ring ! (k mod B) = s_sent s ! k"
    and q: "laid_out T B (s_rq s)" "mReadPtr (s_rq s) = Some (PrivateCtr (of_nat R))"
    and dv: "T dvd R" "T dvd ?W" and R: "R \<le> ?W"
    using inv by (auto simp: unsync_inv_def)
  have rd: "load_readPtr (s_rq s) (s_mem s) = Some (of_nat R)" by (simp add: load_readPtr_def load_counter_def q(2))
  have st: "store_readPtr v (s_rq s) m = Some ((s_rq s)\<lparr>mReadPtr := Some (PrivateCtr v)\<rparr>, m)" for v m
    by (simp add: store_readPtr_def store_counter_def q(2))
  have inv': "unsync_inv T B R' (s\<lparr>s_rq := (s_rq s)\<lparr>mReadPtr := Some (PrivateCtr (of_nat R'))\<rparr>\<rparr>)" if "R' \<le> ?W" "T dvd R'" for R'
    using inv that by (auto simp: unsync_inv_def laid_out_def)
  show thesis
  proof (cases "?W - R > B")
    case True
    have "getSize (mDesc (s_rq s)) = Some (of_nat B)" "B < 2 ^ 63" using q(1) by (simp_all add: laid_out_def)
    moreover have "(of_nat B :: u64) < of_nat ?W - of_nat R"
      unfolding of_nat_diff_u64 [OF R] using True cnt \<open>B < 2 ^ 63\<close> by (subst of_nat_less_u64) auto
    ultimately have "read_messages (s_rq s) False n (s_mem s) = Some (None, (s_rq s)\<lparr>mReadPtr := Some (PrivateCtr (of_nat ?W))\<rparr>, s_mem s)"
      using q(1) rd by (simp add: read_messages_def beginRead_def mem(1) st)
    then show thesis using that inv' [of ?W] dv True by (simp add: unsync_read_def)
  next
    case False
    define D where "D = ?W - R"
    have W: "?W = R + D" "D \<le> B" using R False by (simp_all add: D_def)
    have mem': "s_mem s = layout r (of_nat (R + D)) ring rest" using mem(1) W(1) by simp
    have cR: "counts B R" using cnt R by (simp add: counts_def)
    note br = beginRead_layout [OF q(1) cR mem' rd W(2) c [unfolded read_call_def]]
    show thesis
    proof (cases "?m \<le> D")
      case True
      then have n: "?m \<le> B" using W by linarith
      obtain tx where tx: "make_tx (of_nat T) (of_nat B) (of_nat (R mod B)) n = Some tx"
        by (rule make_tx_total [OF q(1) n dv(1)])
      have "cyc R ?m ring = take ?m (drop R (s_sent s))"
        using ring W True mem(2) by (auto simp: cyc_eq_iff)
      then have "read_messages (s_rq s) False n (s_mem s) =
          Some (Some (take ?m (drop R (s_sent s))), (s_rq s)\<lparr>mReadPtr := Some (PrivateCtr (of_nat (R + ?m)))\<rparr>, s_mem s)"
        using tx_of_copies(1) [OF q(1) dv(1) n mem(2) tx] commitRead_layout [OF q(1) mem' rd W(2), of n] br True tx
        by (simp add: read_messages_def st mem')
      then show thesis using that inv' [of "R + ?m"] dv True W False by (simp add: unsync_read_def)
    next
      case False
      then have "read_messages (s_rq s) False n (s_mem s) = Some (None, s_rq s, s_mem s)" using br by (simp add: read_messages_def)
      then show thesis using that [of "s_rq s"] inv False W by (simp add: unsync_read_def)
    qed
  qed
qed

lemma unsync_calls_inv:
  assumes "unsync_calls T s0 s" "unsync_inv T B R0 s0" "length (s_sent s) < 2 ^ 64"
  shows "\<exists>R. unsync_inv T B R s"
  using assms
proof induction
  case init
  then show ?case by blast
next
  case (writes s n bs ok mem)
  have cnt: "length (s_sent s) < 2 ^ 64" using writes.prems(2) by simp
  from writes.IH [OF writes.prems(1) cnt] obtain R where R: "unsync_inv T B R s" ..
  have "counts B (length (s_sent s))" using cnt by (simp add: counts_def)
  from write_messages_unsync [OF R writes.hyps(2) this] obtain mem' where
    m: "write_messages (s_wq s) (Some bs) n (s_mem s) = Some (length bs \<le> B, mem')"
    "unsync_inv T B R (s\<lparr>s_mem := mem', s_sent := s_sent s @ (if length bs \<le> B then bs else [])\<rparr>)" .
  have "ok = (length bs \<le> B)" "mem = mem'" using writes.hyps(3) m(1) by simp_all
  then show ?case using m(2) by blast
next
  case (reads s n data q mem)
  have cnt: "length (s_sent s) < 2 ^ 64" using reads.prems(2) by simp
  from reads.IH [OF reads.prems(1) cnt] obtain R where R: "unsync_inv T B R s" ..
  from read_messages_unsync [OF R reads.hyps(2) cnt] obtain q' where
    m: "unsync_inv T B (snd (unsync_read B (s_sent s) R (unat n * T))) (s\<lparr>s_rq := q'\<rparr>)"
    "read_messages (s_rq s) False n (s_mem s) = Some (fst (unsync_read B (s_sent s) R (unat n * T)), q', s_mem s)" .
  have "q = q'" "mem = s_mem s" using reads.hyps(3) m(2) by simp_all
  then have "s\<lparr>s_mem := mem, s_rq := q\<rparr> = s\<lparr>s_rq := q'\<rparr>" by simp
  then show ?case using m(1) by metis
qed

text \<open>
  C24: An unsynchronized queue whose calls do not overlap. A write of at most the capacity always succeeds. A
  read either returns the next messages in the order they were sent, or it fails and says why by where the
  reader stands afterwards: at the end of what was sent if the writer has overrun it, and where it was if there
  are not enough messages yet. It never returns bytes that were overwritten.
\<close>

theorem unsynchronized_reads_in_order:
  assumes size: "N * T < 2 ^ 31 - 16" "0 < N" "0 < T"
    and writer: "MessageQueue_of_size env (of_nat T) kUnsynchronizedWrite (of_nat N) ev = Some (wq, mem0)" "isValid wq"
    and reader: "MessageQueue_of_desc env' (of_nat T) kUnsynchronizedWrite (mDesc wq) reset mem0 = Some (rq, mem)" "isValid rq"
    and calls: "unsync_calls T (fmq_start wq rq mem) s" and count: "length (s_sent s) < 2 ^ 64"
  shows "\<exists>R. mReadPtr (s_rq s) = Some (PrivateCtr (of_nat R)) \<and> R \<le> length (s_sent s) \<and>
    (\<forall>n bs. write_call T n bs \<longrightarrow>
       (\<exists>mem'. write_messages (s_wq s) (Some bs) n (s_mem s) = Some (length bs \<le> N * T, mem'))) \<and>
    (\<forall>n. read_call T n \<longrightarrow>
       (\<exists>q data R'. read_messages (s_rq s) False n (s_mem s) = Some (data, q, s_mem s) \<and>
          (data, R') = unsync_read (N * T) (s_sent s) R (unat n * T) \<and> mReadPtr q = Some (PrivateCtr (of_nat R'))))"
proof -
  obtain rest where wq: "queue_of kUnsynchronizedWrite T (N * T) wq" "mem0 = layout 0 0 (replicate (N * T) 0) rest"
    by (rule MessageQueue_of_size_ok [OF size writer])
  have rq: "queue_of kUnsynchronizedWrite T (N * T) rq" "mem = layout 0 0 (replicate (N * T) 0) rest"
    using MessageQueue_of_desc_ok [OF size(1) wq(1) reader(1) [unfolded wq(2)] reader(2)] by simp_all
  have "unsync_inv T (N * T) 0 (fmq_start wq rq mem)"
    using wq rq by (simp add: unsync_inv_def fmq_start_def queue_of_def reader_counter_def) (metis length_replicate)
  from unsync_calls_inv [OF calls this count] obtain R where R: "unsync_inv T (N * T) R s" by blast
  have cnt: "counts (N * T) (length (s_sent s))" using count by (simp add: counts_def)
  show ?thesis
  proof (intro exI [of _ R] conjI allI impI)
    show "mReadPtr (s_rq s) = Some (PrivateCtr (of_nat R))" "R \<le> length (s_sent s)" using R by (auto simp: unsync_inv_def)
    fix n bs assume "write_call T n bs"
    from write_messages_unsync [OF R this cnt]
    show "\<exists>mem'. write_messages (s_wq s) (Some bs) n (s_mem s) = Some (length bs \<le> N * T, mem')" by blast
  next
    fix n assume "read_call T n"
    from read_messages_unsync [OF R this count] obtain q where
      q: "unsync_inv T (N * T) (snd (unsync_read (N * T) (s_sent s) R (unat n * T))) (s\<lparr>s_rq := q\<rparr>)"
      "read_messages (s_rq s) False n (s_mem s) = Some (fst (unsync_read (N * T) (s_sent s) R (unat n * T)), q, s_mem s)" by blast
    have "mReadPtr q = Some (PrivateCtr (of_nat (snd (unsync_read (N * T) (s_sent s) R (unat n * T)))))"
      using q(1) by (simp add: unsync_inv_def)
    with q(2) show "\<exists>q data R'. read_messages (s_rq s) False n (s_mem s) = Some (data, q, s_mem s) \<and>
        (data, R') = unsync_read (N * T) (s_sent s) R (unat n * T) \<and> mReadPtr q = Some (PrivateCtr (of_nat R'))"
      by (metis prod.collapse)
  qed
qed

text \<open>Two messages through the queue of one: the reader is overrun, and goes to the end.\<close>

lemma demo_write_unsync:
  "write_messages (demo_queue kUnsynchronizedWrite) (Some [b]) 1 (layout 0 0 [x] rest) = Some (True, layout 0 1 [b] rest)"
  "write_messages (demo_queue kUnsynchronizedWrite) (Some [b]) 1 (layout 0 1 [x] rest) = Some (True, layout 0 2 [b] rest)"
  using commitWrite_layout [OF demo_laid_out, of kUnsynchronizedWrite 1 0 0 "[b]" rest] commitWrite_layout [OF demo_laid_out, of kUnsynchronizedWrite 1 0 1 "[b]" rest]
  by (simp_all add: write_messages_def demo_beginWrite demo_beginWrite_unsync demo_copyTo)

theorem unsynchronized_reads_in_order_witness:
  "\<exists>q. read_messages (demo_queue kUnsynchronizedWrite) False 1 (layout 0 2 [6] (replicate 4079 0)) =
       Some (None, q, layout 0 2 [6] (replicate 4079 0)) \<and> mReadPtr q = Some (PrivateCtr 2)"
proof -
  let ?q = "demo_queue kUnsynchronizedWrite" let ?s = "fmq_start ?q ?q demo_mem" let ?rest = "replicate 4079 0 :: byte list"
  let ?t = "?s\<lparr>s_mem := layout 0 2 [6] ?rest, s_sent := [5, 6]\<rparr>"
  have new: "MessageQueue_of_size demo_fmq_env (of_nat 1) kUnsynchronizedWrite (of_nat 1) False = Some (?q, demo_mem)"
    using demo_of_size by simp
  have att: "MessageQueue_of_desc demo_fmq_env (of_nat 1) kUnsynchronizedWrite (mDesc ?q) True demo_mem = Some (?q, demo_mem)"
    using demo_of_desc by simp
  have c: "write_call 1 1 [b]" for b by (simp add: write_call_def)
  have "unsync_calls 1 ?s (?s\<lparr>s_mem := layout 0 1 [5] ?rest, s_sent := [5]\<rparr>)"
    using unsync_calls.writes [OF unsync_calls.init c, of ?s 5 True "layout 0 1 [5] ?rest"] demo_write_unsync(1)
    by (simp add: fmq_start_def demo_mem_def)
  from unsync_calls.writes [OF this c, of 6 True "layout 0 2 [6] ?rest"] have run: "unsync_calls 1 ?s ?t"
    using demo_write_unsync(2) by (simp add: fmq_start_def)
  have "length (s_sent ?t) < 2 ^ 64" by simp
  from unsynchronized_reads_in_order [OF _ _ _ new demo_valid att demo_valid run this]
  obtain R where R: "mReadPtr (s_rq ?t) = Some (PrivateCtr (of_nat R))" "R \<le> 2" and rd: "\<And>n. read_call 1 n \<Longrightarrow>
    \<exists>q data R'. read_messages (s_rq ?t) False n (s_mem ?t) = Some (data, q, s_mem ?t) \<and>
      (data, R') = unsync_read (1 * 1) (s_sent ?t) R (unat n * 1) \<and> mReadPtr q = Some (PrivateCtr (of_nat R'))"
    by auto
  have "R < 2 ^ 64" using R(2) by simp
  then have "R = 0" using R(1) of_nat_u64_0 [of R] R(2) by (simp add: fmq_start_def demo_queue_def reader_counter_def)
  then show ?thesis using rd [of 1] by (auto simp: fmq_start_def unsync_read_def read_call_def)
qed

text \<open>
  C38: Calls that overlap break the unsynchronized flavor. The writer copies its message before it moves
  the write counter, and \<open>commitRead\<close> compares only the counters. In a queue of one message, a reader that has
  begun to read the first message reports success with the bytes of the second one, which was never committed.
\<close>

theorem unsynchronized_read_race:
  "\<exists>s. fmq_run 1 (fmq_start (demo_queue kUnsynchronizedWrite) (demo_queue kUnsynchronizedWrite) demo_mem) s \<and>
     s_sent s = [1] \<and> s_got s = [2] \<and>
     MessageQueue_of_size demo_fmq_env 1 kUnsynchronizedWrite 1 False = Some (demo_queue kUnsynchronizedWrite, demo_mem)"
proof -
  let ?q = "demo_queue kUnsynchronizedWrite" let ?rest = "replicate 4079 0 :: byte list"
  let ?s = "demo_after kUnsynchronizedWrite 1"
  let ?w = "\<lparr>s_mem = layout 0 1 [2] ?rest, s_wq = ?q, s_rq = ?q, s_w = W_copied 1 [2], s_r = R_begun 1 demo_tx, s_sent = [1], s_got = []\<rparr>"
  have c: "write_call 1 1 [2]" "read_call 1 1" by (simp_all add: write_call_def read_call_def)
  have rd: "load_readPtr ?q m = Some (of_nat 0)" for m by (simp add: load_readPtr_def load_counter_def demo_queue_def reader_counter_def)
  have st: "store_readPtr v ?q m = Some (?q\<lparr>mReadPtr := Some (PrivateCtr v)\<rparr>, m)" for v m
    by (simp add: store_readPtr_def store_counter_def demo_queue_def reader_counter_def)
  have "beginRead ?q 1 (layout 0 1 [1] ?rest) = Some (True, demo_tx, ?q, layout 0 1 [1] ?rest)"
    using beginRead_layout [OF demo_laid_out _ _ rd, of _ 0 1 "[1]" ?rest 1] demo_make_tx by (simp add: counts_def)
  then have 1: "reader_step 1 ?s = Some (?s\<lparr>s_r := R_begun 1 demo_tx\<rparr>)"
    by (simp add: reader_step_def demo_after_def fmq_start_def)
  have 2: "writer_step 1 [2] (?s\<lparr>s_r := R_begun 1 demo_tx\<rparr>) = Some (?s\<lparr>s_r := R_begun 1 demo_tx, s_w := W_begun 1 [2] demo_tx\<rparr>)"
    by (simp add: writer_step_def demo_after_def fmq_start_def demo_beginWrite_unsync)
  have 3: "writer_step 1 [2] (?s\<lparr>s_r := R_begun 1 demo_tx, s_w := W_begun 1 [2] demo_tx\<rparr>) = Some ?w"
    by (simp add: writer_step_def demo_after_def fmq_start_def demo_copyTo)
  have 4: "reader_step 1 ?w = Some (?w\<lparr>s_r := R_copied 1 [2]\<rparr>)"
    by (simp add: reader_step_def demo_copyFrom)
  have 5: "reader_step 1 (?w\<lparr>s_r := R_copied 1 [2]\<rparr>) =
      Some (?w\<lparr>s_rq := ?q\<lparr>mReadPtr := Some (PrivateCtr 1)\<rparr>, s_r := R_idle, s_got := [2]\<rparr>)"
    using commitRead_layout [OF demo_laid_out _ rd, of _ 0 1 "[2]" ?rest 1] by (simp add: reader_step_def st)
  note run = fmq_run.reads [OF fmq_run.reads [OF fmq_run.writes [OF fmq_run.writes [OF
    fmq_run.reads [OF demo_written c(2) 1] c(1) 2] c(1) 3] c(2) 4] c(2) 5]
  show ?thesis by (intro exI conjI, rule run) (simp_all add: demo_of_size)
qed

end
