(* ===== verification/Ue_Extents.thy ===== *)
theory Ue_Extents
  imports Sys_Prelude
begin

text \<open>
  Extents of the update payload generator: \<open>extent_ranges.cc\<close>, a set of blocks kept as extents, and
  \<open>extent_utils.cc\<close>, lists of extents as sequences of blocks.

  \<open>std::set<Extent, ExtentLess>\<close> is the list of its elements in the order of their start blocks. A failed
  \<open>CHECK\<close> and moving an iterator past the end are \<^term>\<open>None\<close>. Block numbers are 64-bit words.
\<close>

record extent =
  start_block :: u64
  num_blocks :: u64

definition kSparseHole :: u64 where "kSparseHole = - 1"

definition ExtentForRange :: "u64 \<Rightarrow> u64 \<Rightarrow> extent" where
  "ExtentForRange start n = \<lparr>start_block = start, num_blocks = n\<rparr>"

definition extent_end :: "extent \<Rightarrow> u64" where
  "extent_end e = start_block e + num_blocks e"

section \<open>Sorted sets\<close>

definition ExtentLess :: "extent \<Rightarrow> extent \<Rightarrow> bool" where
  "ExtentLess x y \<longleftrightarrow> start_block x < start_block y"

fun set_insert :: "extent \<Rightarrow> extent list \<Rightarrow> extent list" where
  "set_insert e [] = [e]"
| "set_insert e (x # xs) =
     (if ExtentLess e x then e # x # xs else if ExtentLess x e then x # set_insert e xs else x # xs)"

definition lower_bound :: "extent \<Rightarrow> extent list \<Rightarrow> nat" where
  "lower_bound e xs = length (takeWhile (\<lambda>x. ExtentLess x e) xs)"

section \<open>Sets of blocks\<close>

record extent_ranges =
  extent_set :: "extent list"
  blocks :: u64

definition new_ExtentRanges :: extent_ranges where
  "new_ExtentRanges = \<lparr>extent_set = [], blocks = 0\<rparr>"

definition ExtentsOverlapOrTouch :: "extent \<Rightarrow> extent \<Rightarrow> bool" where
  "ExtentsOverlapOrTouch a b \<longleftrightarrow>
     (if start_block a = start_block b then True
      else if start_block a = kSparseHole \<or> start_block b = kSparseHole then False
      else if start_block a < start_block b then extent_end a \<ge> start_block b
      else extent_end b \<ge> start_block a)"

definition ExtentsOverlap :: "extent \<Rightarrow> extent \<Rightarrow> bool" where
  "ExtentsOverlap a b \<longleftrightarrow>
     (if start_block a = start_block b then True
      else if start_block a = kSparseHole \<or> start_block b = kSparseHole then False
      else if start_block a < start_block b then extent_end a > start_block b
      else extent_end b > start_block a)"

definition UnionOverlappingExtents :: "extent \<Rightarrow> extent \<Rightarrow> extent option" where
  "UnionOverlappingExtents a b =
     (if start_block a = kSparseHole \<or> start_block b = kSparseHole then None
      else
        let start = min (start_block a) (start_block b); end = max (extent_end a) (extent_end b)
        in Some (ExtentForRange start (end - start)))"

text \<open>
  The loop of \<open>AddExtent\<close>: \<open>i\<close> is the position of the iterator, \<open>e\<close> the position of the end. It
  collects the range to delete, the number of blocks in it, and the union of what overlaps.
\<close>

fun add_loop :: "nat \<Rightarrow> nat \<Rightarrow> extent list \<Rightarrow> nat \<times> nat \<times> u64 \<times> extent \<Rightarrow> (nat \<times> nat \<times> u64 \<times> extent) option" where
  "add_loop e i [] st = Some st"
| "add_loop e i (it # its) (begin_del, end_del, del_blocks, x) =
     (if ExtentsOverlapOrTouch it x then do {
        u \<leftarrow> UnionOverlappingExtents x it;
        add_loop e (Suc i) its (if begin_del = e then i else begin_del, Suc i, del_blocks + num_blocks it, u) }
      else add_loop e (Suc i) its (begin_del, end_del, del_blocks, x))"

definition AddExtent :: "extent \<Rightarrow> extent_ranges \<Rightarrow> extent_ranges option" where
  "AddExtent x r =
     (if start_block x = kSparseHole \<or> num_blocks x = 0 then Some r
      else
        let S = extent_set r; e = length S in do {
          (begin_del, end_del, del_blocks, x) \<leftarrow> add_loop e 0 S (e, e, 0, x);
          Some \<lparr>extent_set = set_insert x (take begin_del S @ drop end_del S),
                blocks = blocks r - del_blocks + num_blocks x\<rparr> })"

definition SubtractOverlappingExtents :: "extent \<Rightarrow> extent \<Rightarrow> extent list" where
  "SubtractOverlappingExtents base subtractee =
     (let ret = (if start_block subtractee > start_block base
                 then [ExtentForRange (start_block base) (start_block subtractee - start_block base)] else [])
      in if extent_end base > extent_end subtractee
         then set_insert (ExtentForRange (extent_end subtractee) (extent_end base - extent_end subtractee)) ret else ret)"

fun subtract_loop ::
  "extent \<Rightarrow> nat \<Rightarrow> nat \<Rightarrow> extent list \<Rightarrow> nat \<times> nat \<times> u64 \<times> extent list \<Rightarrow> nat \<times> nat \<times> u64 \<times> extent list" where
  "subtract_loop x e i [] st = st"
| "subtract_loop x e i (it # its) (begin_del, end_del, del_blocks, new_extents) =
     (if \<not> ExtentsOverlap it x then subtract_loop x e (Suc i) its (begin_del, end_del, del_blocks, new_extents)
      else
        let subtraction = SubtractOverlappingExtents it x
        in subtract_loop x e (Suc i) its
             (if begin_del = e then i else begin_del, Suc i,
              fold (\<lambda>jt d. d - num_blocks jt) subtraction (del_blocks + num_blocks it),
              fold set_insert subtraction new_extents))"

definition SubtractExtent :: "extent \<Rightarrow> extent_ranges \<Rightarrow> extent_ranges" where
  "SubtractExtent x r =
     (if start_block x = kSparseHole \<or> num_blocks x = 0 then r
      else
        let S = extent_set r; e = length S in
        case subtract_loop x e 0 S (e, e, 0, []) of
          (begin_del, end_del, del_blocks, new_extents) \<Rightarrow>
            \<lparr>extent_set = fold set_insert new_extents (take begin_del S @ drop end_del S), blocks = blocks r - del_blocks\<rparr>)"

definition AddBlock :: "u64 \<Rightarrow> extent_ranges \<Rightarrow> extent_ranges option" where
  "AddBlock block r = AddExtent (ExtentForRange block 1) r"

definition SubtractBlock :: "u64 \<Rightarrow> extent_ranges \<Rightarrow> extent_ranges" where
  "SubtractBlock block r = SubtractExtent (ExtentForRange block 1) r"

fun AddExtents :: "extent list \<Rightarrow> extent_ranges \<Rightarrow> extent_ranges option" where
  "AddExtents [] r = Some r"
| "AddExtents (x # xs) r = do { r \<leftarrow> AddExtent x r; AddExtents xs r }"

fun SubtractExtents :: "extent list \<Rightarrow> extent_ranges \<Rightarrow> extent_ranges" where
  "SubtractExtents [] r = r"
| "SubtractExtents (x # xs) r = SubtractExtents xs (SubtractExtent x r)"

definition AddRanges :: "extent_ranges \<Rightarrow> extent_ranges \<Rightarrow> extent_ranges option" where
  "AddRanges ranges r = AddExtents (extent_set ranges) r"

definition SubtractRanges :: "extent_ranges \<Rightarrow> extent_ranges \<Rightarrow> extent_ranges" where
  "SubtractRanges ranges r = SubtractExtents (extent_set ranges) r"

definition AddRepeatedExtents :: "extent list \<Rightarrow> extent_ranges \<Rightarrow> extent_ranges option" where
  "AddRepeatedExtents exts r = AddExtents exts r"

definition SubtractRepeatedExtents :: "extent list \<Rightarrow> extent_ranges \<Rightarrow> extent_ranges" where
  "SubtractRepeatedExtents exts r = SubtractExtents exts r"

text \<open>Iterating from one position to another; \<^term>\<open>None\<close> when the end is passed on the way.\<close>

definition iterate_range :: "nat \<Rightarrow> nat \<Rightarrow> 'a list \<Rightarrow> 'a list option" where
  "iterate_range lower upper xs = (if lower \<le> upper then Some (take (upper - lower) (drop lower xs)) else None)"

definition ContainsBlock :: "u64 \<Rightarrow> extent_ranges \<Rightarrow> bool option" where
  "ContainsBlock block r =
     (let lower = lower_bound (ExtentForRange block 1) (extent_set r);
          lower = (if lower \<noteq> 0 then lower - 1 else lower);
          upper = lower_bound (ExtentForRange (block + 1) 0) (extent_set r)
      in map_option (list_ex (\<lambda>x. start_block x \<le> block \<and> block < extent_end x)) (iterate_range lower upper (extent_set r)))"

fun BlocksInExtents :: "extent list \<Rightarrow> u64" where
  "BlocksInExtents [] = 0"
| "BlocksInExtents (x # xs) = num_blocks x + BlocksInExtents xs"

fun count_loop :: "u64 \<Rightarrow> extent list \<Rightarrow> extent list \<times> u64 \<Rightarrow> extent list \<times> u64" where
  "count_loop count [] st = st"
| "count_loop count (it # its) (out, out_blocks) =
     (let blocks_needed = count - out_blocks in
      if num_blocks it < blocks_needed then count_loop count its (out @ [it], out_blocks + num_blocks it)
      else if num_blocks it = blocks_needed then (out @ [it], out_blocks + num_blocks it)
      else (out @ [it\<lparr>num_blocks := blocks_needed\<rparr>], out_blocks + num_blocks it - num_blocks it + blocks_needed))"

definition GetExtentsForBlockCount :: "u64 \<Rightarrow> extent_ranges \<Rightarrow> extent list option" where
  "GetExtentsForBlockCount count r =
     (if count = 0 then Some []
      else if \<not> count \<le> blocks r then None
      else case count_loop count (extent_set r) ([], 0) of
        (out, out_blocks) \<Rightarrow> if out_blocks = BlocksInExtents out then Some out else None)"

text \<open>The inner loop of \<open>FilterExtentRanges\<close>: what is cut off goes to \<open>result\<close>, \<open>x\<close> is what remains.\<close>

fun filter_loop :: "extent list \<Rightarrow> extent \<times> extent list \<Rightarrow> extent \<times> extent list" where
  "filter_loop [] st = st"
| "filter_loop (it # its) (x, result) =
     (if \<not> ExtentsOverlap x it then filter_loop its (x, result)
      else if start_block it \<le> start_block x then
        let cut_blocks = extent_end it - start_block x in
        if cut_blocks \<ge> num_blocks x then (x\<lparr>num_blocks := 0\<rparr>, result)
        else filter_loop its (ExtentForRange (start_block x + cut_blocks) (num_blocks x - cut_blocks), result)
      else
        let result = result @ [ExtentForRange (start_block x) (start_block it - start_block x)];
            new_start = extent_end it; old_end = extent_end x in
        if new_start \<ge> old_end then (x\<lparr>num_blocks := 0\<rparr>, result)
        else filter_loop its (ExtentForRange new_start (old_end - new_start), result))"

definition filter_extent :: "extent_ranges \<Rightarrow> extent \<Rightarrow> extent list \<Rightarrow> extent list option" where
  "filter_extent ranges x result =
     (let S = extent_set ranges; lower = lower_bound x S; lower = (if lower \<noteq> 0 then lower - 1 else lower);
          upper = lower_bound (ExtentForRange (extent_end x) 0) S
      in do {
        its \<leftarrow> iterate_range lower upper S;
        (case filter_loop its (x, result) of (x, result) \<Rightarrow> Some (if num_blocks x > 0 then result @ [x] else result)) })"

fun filter_extents :: "extent_ranges \<Rightarrow> extent list \<Rightarrow> extent list \<Rightarrow> extent list option" where
  "filter_extents ranges [] result = Some result"
| "filter_extents ranges (x # xs) result = do { result \<leftarrow> filter_extent ranges x result; filter_extents ranges xs result }"

definition FilterExtentRanges :: "extent list \<Rightarrow> extent_ranges \<Rightarrow> extent list option" where
  "FilterExtentRanges extents ranges = filter_extents ranges extents []"

section \<open>Sequences of blocks\<close>

definition expand_extent :: "extent \<Rightarrow> u64 list" where
  "expand_extent x =
     (if start_block x = kSparseHole then replicate (unat (num_blocks x)) kSparseHole
      else map of_nat [unat (start_block x)..<unat (extent_end x)])"

definition ExpandExtents :: "extent list \<Rightarrow> u64 list" where
  "ExpandExtents xs = concat (map expand_extent xs)"

definition AppendBlockToExtents :: "extent list \<Rightarrow> u64 \<Rightarrow> extent list" where
  "AppendBlockToExtents extents block =
     (if extents \<noteq> [] \<and>
         (if start_block (last extents) = kSparseHole then kSparseHole else extent_end (last extents)) = block
      then butlast extents @ [(last extents)\<lparr>num_blocks := num_blocks (last extents) + 1\<rparr>]
      else extents @ [ExtentForRange block 1])"

fun normalize_loop :: "extent list \<Rightarrow> extent list \<Rightarrow> extent list" where
  "normalize_loop new_extents [] = new_extents"
| "normalize_loop new_extents (cur # xs) =
     (if new_extents = [] then normalize_loop [cur] xs
      else if extent_end (last new_extents) = start_block cur
      then normalize_loop (butlast new_extents @ [(last new_extents)\<lparr>num_blocks := num_blocks (last new_extents) + num_blocks cur\<rparr>]) xs
      else normalize_loop (new_extents @ [cur]) xs)"

definition NormalizeExtents :: "extent list \<Rightarrow> extent list" where
  "NormalizeExtents extents = normalize_loop [] extents"

definition StoreExtents :: "extent list \<Rightarrow> extent list \<Rightarrow> extent list" where
  "StoreExtents extents out = out @ extents"

definition ExtendExtents :: "extent list \<Rightarrow> extent list \<Rightarrow> extent list" where
  "ExtendExtents extents extents_to_add = StoreExtents (NormalizeExtents (extents @ extents_to_add)) []"

fun sublist_loop :: "u64 \<Rightarrow> u64 \<Rightarrow> u64 \<Rightarrow> extent list \<Rightarrow> extent list" where
  "sublist_loop block_offset end_block_offset scanned [] = []"
| "sublist_loop block_offset end_block_offset scanned (x # xs) =
     (let n = num_blocks x;
          n' = (if scanned + n > end_block_offset then end_block_offset - scanned else n);
          piece = (if block_offset > scanned
                   then ExtentForRange (start_block x + (block_offset - scanned)) (n' - (block_offset - scanned))
                   else ExtentForRange (start_block x) n');
          found = (if scanned + n > block_offset then [piece] else [])
      in if scanned + n \<ge> end_block_offset then found
         else found @ sublist_loop block_offset end_block_offset (scanned + n) xs)"

definition ExtentsSublist :: "extent list \<Rightarrow> u64 \<Rightarrow> u64 \<Rightarrow> extent list" where
  "ExtentsSublist extents block_offset block_count =
     (if block_count = 0 then [] else sublist_loop block_offset (block_offset + block_count) 0 extents)"

end
