(* ===== verification/Ue_Writer.thy ===== *)
theory Ue_Writer
  imports Ue_Extents
begin

text \<open>
  Writing a stream of bytes into a list of extents: \<open>EintrSafeFileDescriptor\<close> of
  \<open>payload_consumer/file_descriptor.cc\<close>, \<open>WriteAll\<close> of \<open>common/utils.cc\<close>, and \<open>DirectExtentWriter\<close> and
  \<open>ZeroPadExtentWriter\<close> of \<open>payload_consumer/extent_writer\<close>.  The system calls are parameters acting on a
  device state.  A result \<^term>\<open>None\<close> is a failed CHECK, an overrun or a loop that does not end; otherwise the
  returned value comes with the new state.
\<close>

section \<open>The file descriptor\<close>

text \<open>The system calls after retrying on EINTR: \<open>lseek64\<close> to an absolute offset and \<open>write\<close>.\<close>

record 'd posix_calls =
  sys_lseek64 :: "'d \<Rightarrow> u64 \<Rightarrow> int \<times> 'd"
  sys_write :: "'d \<Rightarrow> byte list \<Rightarrow> int \<times> 'd"

record 'd EintrSafeFileDescriptor =
  fd_number :: int
  device :: 'd

function eintr_write_loop :: "'d posix_calls \<Rightarrow> byte list \<Rightarrow> int \<Rightarrow> 'd \<Rightarrow> (int \<times> 'd) option" where
  "eintr_write_loop sys buf written d =
     (if buf = [] then Some (written, d)
      else case sys_write sys d buf of (ret, d) \<Rightarrow>
        if ret \<le> 0 then Some (if written \<noteq> 0 then written else ret, d)
        else if ret > int (length buf) then None
        else eintr_write_loop sys (drop (nat ret) buf) (written + ret) d)"
  by pat_completeness auto
termination
  by (relation "measure (\<lambda>(sys, buf, written, d). length buf)") auto

declare eintr_write_loop.simps [simp del]

definition fd_Write :: "'d posix_calls \<Rightarrow> byte list \<Rightarrow> 'd EintrSafeFileDescriptor \<Rightarrow> (int \<times> 'd EintrSafeFileDescriptor) option" where
  "fd_Write sys buf f =
     (if \<not> fd_number f \<ge> 0 then None
      else map_option (\<lambda>(written, d). (written, f\<lparr>device := d\<rparr>)) (eintr_write_loop sys buf 0 (device f)))"

definition fd_Seek :: "'d posix_calls \<Rightarrow> u64 \<Rightarrow> 'd EintrSafeFileDescriptor \<Rightarrow> (int \<times> 'd EintrSafeFileDescriptor) option" where
  "fd_Seek sys offset f =
     (if \<not> fd_number f \<ge> 0 then None
      else case sys_lseek64 sys (device f) offset of (ret, d) \<Rightarrow> Some (ret, f\<lparr>device := d\<rparr>))"

text \<open>\<open>WriteAll\<close> asks again for what was not written; it does not end if a write keeps returning 0.\<close>

partial_function (option) WriteAll ::
  "'d posix_calls \<Rightarrow> byte list \<Rightarrow> 'd EintrSafeFileDescriptor \<Rightarrow> (bool \<times> 'd EintrSafeFileDescriptor) option" where
  "WriteAll sys buf f =
     (if buf = [] then Some (True, f)
      else Option.bind (fd_Write sys buf f) (\<lambda>(rc, f).
        if \<not> rc \<ge> 0 then Some (False, f) else WriteAll sys (drop (nat rc) buf) f))"

section \<open>The direct writer\<close>

record 'd DirectExtentWriter =
  dw_fd :: "'d EintrSafeFileDescriptor"
  dw_block_size :: u64
  extent_bytes_written :: u64
  dw_extents :: "extent list"
  next_extent_index :: nat

definition Direct_Init :: "'d EintrSafeFileDescriptor \<Rightarrow> extent list \<Rightarrow> u32 \<Rightarrow> 'd DirectExtentWriter" where
  "Direct_Init f extents block_size =
     \<lparr>dw_fd = f, dw_block_size = ucast block_size, extent_bytes_written = 0, dw_extents = extents, next_extent_index = 0\<rparr>"

text \<open>Seek to the place of the next byte and write a piece of the buffer there; sparse holes are skipped.\<close>

definition write_piece :: "'d posix_calls \<Rightarrow> byte list \<Rightarrow> 'd DirectExtentWriter \<Rightarrow> (bool \<times> 'd DirectExtentWriter) option" where
  "write_piece sys piece w =
     (let x = dw_extents w ! next_extent_index w in
      if start_block x = kSparseHole then Some (True, w)
      else do {
        (ret, f) \<leftarrow> fd_Seek sys (start_block x * dw_block_size w + extent_bytes_written w) (dw_fd w);
        if ret = - 1 then Some (False, w\<lparr>dw_fd := f\<rparr>)
        else do {
          (ok, f) \<leftarrow> WriteAll sys piece f;
          Some (ok, w\<lparr>dw_fd := f\<rparr>) } })"

definition advance :: "u64 \<Rightarrow> u64 \<Rightarrow> 'd DirectExtentWriter \<Rightarrow> 'd DirectExtentWriter option" where
  "advance bytes_remaining_next_extent bytes_to_write w =
     (let written = extent_bytes_written w + bytes_to_write in
      if bytes_remaining_next_extent = bytes_to_write then
        if written \<noteq> num_blocks (dw_extents w ! next_extent_index w) * dw_block_size w then None
        else Some (w\<lparr>extent_bytes_written := 0, next_extent_index := next_extent_index w + 1\<rparr>)
      else Some (w\<lparr>extent_bytes_written := written\<rparr>))"

function direct_loop :: "'d posix_calls \<Rightarrow> byte list \<Rightarrow> 'd DirectExtentWriter \<Rightarrow> (bool \<times> 'd DirectExtentWriter) option" where
  "direct_loop sys bytes w =
     (if (of_nat (length bytes) :: u64) = 0 then Some (True, w)
      else if \<not> next_extent_index w < length (dw_extents w) then Some (False, w)
      else let
          bytes_remaining_next_extent = num_blocks (dw_extents w ! next_extent_index w) * dw_block_size w - extent_bytes_written w;
          bytes_to_write = min (of_nat (length bytes)) bytes_remaining_next_extent
        in if bytes_remaining_next_extent = 0 then None
        else do {
          (ok, w) \<leftarrow> write_piece sys (take (unat bytes_to_write) bytes) w;
          if \<not> ok then Some (False, w)
          else do {
            w \<leftarrow> advance bytes_remaining_next_extent bytes_to_write w;
            direct_loop sys (drop (unat bytes_to_write) bytes) w } })"
  by pat_completeness auto
termination
  by (relation "measure (\<lambda>(sys, bytes, w). length bytes)") (auto simp: min_def unsigned_eq_0_iff intro!: diff_less gr0I)

declare direct_loop.simps [simp del]

definition Direct_Write :: "'d posix_calls \<Rightarrow> byte list \<Rightarrow> 'd DirectExtentWriter \<Rightarrow> (bool \<times> 'd DirectExtentWriter) option" where
  "Direct_Write sys bytes w = (if bytes = [] then Some (True, w) else direct_loop sys bytes w)"

definition Direct_EndImpl :: "'d DirectExtentWriter \<Rightarrow> (bool \<times> 'd DirectExtentWriter) option" where
  "Direct_EndImpl w = Some (True, w)"

section \<open>Zero padding\<close>

record 'd ZeroPadExtentWriter =
  underlying_writer :: "'d DirectExtentWriter"
  pad_block_size :: u64
  bytes_written_mod :: u64

definition ZeroPad_Init :: "'d EintrSafeFileDescriptor \<Rightarrow> extent list \<Rightarrow> u32 \<Rightarrow> 'd ZeroPadExtentWriter" where
  "ZeroPad_Init f extents block_size =
     \<lparr>underlying_writer = Direct_Init f extents block_size, pad_block_size = ucast block_size, bytes_written_mod = 0\<rparr>"

definition ZeroPad_Write :: "'d posix_calls \<Rightarrow> byte list \<Rightarrow> 'd ZeroPadExtentWriter \<Rightarrow> (bool \<times> 'd ZeroPadExtentWriter) option" where
  "ZeroPad_Write sys bytes z = do {
     (ok, u) \<leftarrow> Direct_Write sys bytes (underlying_writer z);
     if \<not> ok then Some (False, z\<lparr>underlying_writer := u\<rparr>)
     else if pad_block_size z = 0 then None
     else Some (True, z\<lparr>underlying_writer := u,
       bytes_written_mod := (bytes_written_mod z + of_nat (length bytes)) mod pad_block_size z\<rparr>) }"

definition ZeroPad_EndImpl :: "'d posix_calls \<Rightarrow> 'd ZeroPadExtentWriter \<Rightarrow> (bool \<times> 'd ZeroPadExtentWriter) option" where
  "ZeroPad_EndImpl sys z = do {
     (ok, u) \<leftarrow> (if bytes_written_mod z \<noteq> 0
       then Direct_Write sys (replicate (unat (pad_block_size z - bytes_written_mod z)) 0) (underlying_writer z)
       else Some (True, underlying_writer z));
     if \<not> ok then Some (False, z\<lparr>underlying_writer := u\<rparr>)
     else do {
       (ok, u) \<leftarrow> Direct_EndImpl u;
       Some (ok, z\<lparr>underlying_writer := u\<rparr>) } }"

end
