(* ===== verification/Ue_Ranges.thy ===== *)
theory Ue_Ranges
  imports Ue_Extents
begin

text \<open>
  Sets of extents denote sets of blocks: adding and subtracting an extent is union and difference, the
  extents stay sorted, disjoint and as large as possible, and \<open>blocks_\<close> counts the blocks.
\<close>

section \<open>Extents as intervals\<close>

definition st :: "extent \<Rightarrow> nat" where "st x = unat (start_block x)"
definition en :: "extent \<Rightarrow> nat" where "en x = unat (start_block x) + unat (num_blocks x)"

definition proper :: "extent \<Rightarrow> bool" where
  "proper x \<longleftrightarrow> st x < en x \<and> en x < 2 ^ 64"

definition blocks_of :: "extent \<Rightarrow> nat set" where
  "blocks_of x = {st x..<en x}"

lemma unat_u64_less: "unat (w :: u64) < 2 ^ 64"
  using unsigned_less [of w] by simp

lemma unat_kSparseHole: "unat kSparseHole = 2 ^ 64 - 1"
  by (simp add: kSparseHole_def unsigned_minus_1_eq_mask mask_eq_exp_minus_1)

lemma proper_unat [simp]:
  assumes "proper x"
  shows "unat (extent_end x) = en x" "start_block x \<noteq> kSparseHole" "num_blocks x \<noteq> 0"
proof -
  show "unat (extent_end x) = en x"
    using assms by (simp add: proper_def en_def extent_end_def unat_word_ariths)
  show "start_block x \<noteq> kSparseHole" using assms unat_kSparseHole by (auto simp: proper_def en_def st_def)
  show "num_blocks x \<noteq> 0" using assms by (auto simp: proper_def en_def st_def)
qed

lemma start_less: "start_block x < start_block y \<longleftrightarrow> st x < st y"
  by (simp add: st_def word_less_nat_alt)

lemma start_eq: "start_block x = start_block y \<longleftrightarrow> st x = st y"
  by (simp add: st_def word_unat_eq_iff)

lemma unat_num: "unat (num_blocks x) = en x - st x"
  by (simp add: st_def en_def)

text \<open>Building an extent from two block numbers.\<close>

lemma ExtentForRange_nat:
  assumes "unat s < unat e"
  shows "proper (ExtentForRange s (e - s))" "st (ExtentForRange s (e - s)) = unat s" "en (ExtentForRange s (e - s)) = unat e"
proof -
  have "unat (e - s) = unat e - unat s" using assms by (intro unat_sub) (simp add: word_le_nat_alt)
  then show "st (ExtentForRange s (e - s)) = unat s" "en (ExtentForRange s (e - s)) = unat e"
    using assms by (simp_all add: st_def en_def ExtentForRange_def)
  then show "proper (ExtentForRange s (e - s))" using assms unat_u64_less [of e] by (simp add: proper_def)
qed

lemma touch_nat:
  assumes "proper a" "proper b"
  shows "ExtentsOverlapOrTouch a b \<longleftrightarrow> st a \<le> en b \<and> st b \<le> en a"
    "ExtentsOverlap a b \<longleftrightarrow> st a < en b \<and> st b < en a"
proof -
  have p: "st a < en a" "st b < en b" using assms by (simp_all add: proper_def)
  show "ExtentsOverlapOrTouch a b \<longleftrightarrow> st a \<le> en b \<and> st b \<le> en a"
    using assms p by (auto simp: ExtentsOverlapOrTouch_def start_eq start_less word_le_nat_alt st_def [symmetric])
  show "ExtentsOverlap a b \<longleftrightarrow> st a < en b \<and> st b < en a"
    using assms p by (auto simp: ExtentsOverlap_def start_eq start_less word_less_nat_alt st_def [symmetric])
qed

lemma interval_union:
  "a \<le> d \<Longrightarrow> b \<le> c \<Longrightarrow> {min a b..<max c d} = {a..<c} \<union> {b..<(d::nat)}"
  by (auto simp: min_def max_def)

lemma union_nat:
  assumes "proper a" "proper b" "st a \<le> en b" "st b \<le> en a"
  obtains u where "UnionOverlappingExtents a b = Some u" "proper u" "st u = min (st a) (st b)" "en u = max (en a) (en b)"
    "blocks_of u = blocks_of a \<union> blocks_of b"
proof -
  let ?s = "min (start_block a) (start_block b)" and ?e = "max (extent_end a) (extent_end b)"
  have s: "unat ?s = min (st a) (st b)" by (simp add: min_def st_def word_le_nat_alt)
  have e: "unat ?e = max (en a) (en b)"
    using proper_unat(1) [OF assms(1)] proper_unat(1) [OF assms(2)] by (simp add: max_def word_le_nat_alt)
  have "unat ?s < unat ?e" unfolding s e using assms(1) by (simp add: proper_def min_less_iff_disj less_max_iff_disj)
  note u = ExtentForRange_nat [OF this]
  have "blocks_of (ExtentForRange ?s (?e - ?s)) = blocks_of a \<union> blocks_of b"
    unfolding blocks_of_def u s e by (rule interval_union [OF assms(3,4)])
  then show thesis using that [of "ExtentForRange ?s (?e - ?s)"] u s e assms by (simp add: UnionOverlappingExtents_def Let_def)
qed

section \<open>Separated lists\<close>

definition separated :: "extent list \<Rightarrow> bool" where
  "separated xs \<longleftrightarrow> (\<forall>x \<in> set xs. proper x) \<and> sorted_wrt (\<lambda>a b. en a < st b) xs"

definition count_of :: "extent list \<Rightarrow> nat" where
  "count_of xs = sum_list (map (\<lambda>x. en x - st x) xs)"

definition union_of :: "extent list \<Rightarrow> nat set" where
  "union_of xs = (\<Union>x \<in> set xs. blocks_of x)"

lemma separated_append:
  "separated (xs @ ys) \<longleftrightarrow> separated xs \<and> separated ys \<and> (\<forall>x \<in> set xs. \<forall>y \<in> set ys. en x < st y)"
  by (auto simp: separated_def sorted_wrt_append)

lemma separated_Cons:
  "separated (x # ys) \<longleftrightarrow> proper x \<and> separated ys \<and> (\<forall>y \<in> set ys. en x < st y)"
  by (auto simp: separated_def)

lemma union_of_simps [simp]:
  "union_of [] = {}" "union_of (x # xs) = blocks_of x \<union> union_of xs" "union_of (xs @ ys) = union_of xs \<union> union_of ys"
  by (auto simp: union_of_def)

lemma count_of_simps [simp]:
  "count_of [] = 0" "count_of (x # xs) = en x - st x + count_of xs" "count_of (xs @ ys) = count_of xs + count_of ys"
  by (simp_all add: count_of_def)

lemma card_union_of: "separated xs \<Longrightarrow> finite (union_of xs) \<and> card (union_of xs) = count_of xs"
proof (induction xs)
  case (Cons x xs)
  then have "blocks_of x \<inter> union_of xs = {}"
    by (fastforce simp: separated_Cons union_of_def blocks_of_def)
  then show ?case using Cons by (auto simp: separated_Cons card_Un_disjoint blocks_of_def)
qed simp

lemma union_of_bound: "separated xs \<Longrightarrow> union_of xs \<subseteq> {..<2 ^ 64}"
  by (force simp: separated_def union_of_def blocks_of_def proper_def)

lemma count_of_bound: "separated xs \<Longrightarrow> count_of xs \<le> 2 ^ 64"
  using card_union_of [of xs] card_mono [OF _ union_of_bound, of xs] by simp

text \<open>Inserting into the sorted set.\<close>

lemma set_insert_between:
  assumes "\<forall>a \<in> set A. st a < st u" "\<forall>c \<in> set C. st u < st c"
  shows "set_insert u (A @ C) = A @ u # C"
  using assms
proof (induction A)
  case Nil
  then show ?case by (cases C) (auto simp: ExtentLess_def start_less)
next
  case (Cons a A)
  then show ?case by (auto simp: ExtentLess_def start_less)
qed

lemma fold_set_insert:
  assumes "sorted_wrt (\<lambda>a b. st a < st b) (A @ P @ C)"
  shows "fold set_insert P (A @ C) = A @ P @ C"
  using assms
proof (induction P arbitrary: A)
  case (Cons p P)
  have "set_insert p (A @ C) = (A @ [p]) @ C"
    using Cons.prems by (subst set_insert_between) (auto simp: sorted_wrt_append)
  then show ?case using Cons.IH [of "A @ [p]"] Cons.prems by simp
qed simp

lemma separated_sorted: "separated xs \<Longrightarrow> sorted_wrt (\<lambda>a b. st a < st b) xs"
  by (rule sorted_wrt_mono_rel [of _ "\<lambda>a b. en a < st b"]) (auto simp: separated_def proper_def)

section \<open>Adding\<close>

text \<open>A sorted set falls into what lies before an interval, what meets it, and what lies behind it.\<close>

lemma split_three:
  assumes "separated xs" "s \<le> Suc e"
  obtains A M C where "xs = A @ M @ C" "\<forall>a \<in> set A. en a < s" "\<forall>m \<in> set M. s \<le> en m \<and> st m \<le> e" "\<forall>c \<in> set C. e < st c"
  using assms(1)
proof (induction xs arbitrary: thesis)
  case (Cons x xs)
  obtain A M C where IH: "xs = A @ M @ C" "\<forall>a \<in> set A. en a < s" "\<forall>m \<in> set M. s \<le> en m \<and> st m \<le> e" "\<forall>c \<in> set C. e < st c"
    using Cons.IH Cons.prems(2) by (auto simp: separated_Cons)
  have x: "st x < en x" "\<forall>y \<in> set xs. en x < st y \<and> st y < en y"
    using Cons.prems(2) by (auto simp: separated_Cons separated_def proper_def)
  consider "en x < s" | "s \<le> en x" "st x \<le> e" | "e < st x" by linarith
  then show ?case
  proof cases
    case 1
    then show ?thesis using IH Cons.prems(1) [of "x # A" M C] by simp
  next
    case 2
    then have "A = []" using IH x by (cases A) force+
    then show ?thesis using IH 2 Cons.prems(1) [of "[]" "x # M" C] by simp
  next
    case 3
    have "A = []" using 3 IH x assms(2) by (cases A) force+
    moreover have "M = []" using 3 IH x assms(2) by (cases M) force+
    ultimately have "A = []" "M = []" by simp_all
    then show ?thesis using IH 3 Cons.prems(1) [of "[]" "[]" "x # C"] by simp
  qed
qed simp

lemma add_loop_skip:
  assumes "proper x" "\<forall>a \<in> set A. proper a \<and> (en a < st x \<or> en x < st a)"
  shows "add_loop e i (A @ B) (b, d, n, x) = add_loop e (i + length A) B (b, d, n, x)"
  using assms by (induction A arbitrary: i) (auto simp: touch_nat)

text \<open>\<open>u\<close> covers \<open>x\<close> and \<open>M\<close> and reaches no further than they do.\<close>

definition covers :: "extent \<Rightarrow> extent \<Rightarrow> extent list \<Rightarrow> bool" where
  "covers u x M \<longleftrightarrow> proper u \<and> blocks_of u = blocks_of x \<union> union_of M \<and>
     (\<forall>c. en x < c \<and> (\<forall>m \<in> set M. en m < c) \<longrightarrow> en u < c) \<and> (\<forall>a. a < st x \<and> (\<forall>m \<in> set M. a < st m) \<longrightarrow> a < st u)"

lemma covers_Cons:
  assumes "covers u' u M" "st u = min (st x) (st m)" "en u = max (en x) (en m)" "blocks_of u = blocks_of x \<union> blocks_of m"
  shows "covers u' x (m # M)"
  using assms by (auto simp: covers_def)

lemma add_loop_meet:
  assumes "proper x" "\<forall>m \<in> set M. proper m \<and> st x \<le> en m \<and> st m \<le> en x" "i + length M \<le> e"
  shows "\<exists>u. covers u x M \<and> add_loop e i (M @ C) (b, d, n, x) =
      add_loop e (i + length M) C (if M = [] then b else if b = e then i else b, if M = [] then d else i + length M, n + of_nat (count_of M), u)"
  using assms
proof (induction M arbitrary: i b d n x)
  case Nil
  then show ?case by (auto simp: covers_def)
next
  case (Cons m M)
  have "proper m" "st x \<le> en m" "st m \<le> en x" using Cons.prems(2) by auto
  from union_nat [OF Cons.prems(1) this] obtain u where u: "UnionOverlappingExtents x m = Some u" "proper u"
    "st u = min (st x) (st m)" "en u = max (en x) (en m)" "blocks_of u = blocks_of x \<union> blocks_of m" .
  have m: "\<forall>m' \<in> set M. proper m' \<and> st u \<le> en m' \<and> st m' \<le> en u" using Cons.prems(2) u by auto
  have le: "Suc i + length M \<le> e" using Cons.prems(3) by simp
  obtain u' where u': "covers u' u M" "add_loop e (Suc i) (M @ C) (if b = e then i else b, Suc i, n + num_blocks m, u) =
      add_loop e (Suc i + length M) C (if M = [] then if b = e then i else b else if (if b = e then i else b) = e then Suc i else if b = e then i else b,
        if M = [] then Suc i else Suc i + length M, n + num_blocks m + of_nat (count_of M), u')"
    using Cons.IH [OF u(2) m le] by blast
  have num: "num_blocks m = of_nat (en m - st m)" by (simp add: unat_num [symmetric])
  have b: "i \<noteq> e" using le by simp
  have "add_loop e i ((m # M) @ C) (b, d, n, x) = add_loop e (Suc i) (M @ C) (if b = e then i else b, Suc i, n + num_blocks m, u)"
    using Cons.prems(1) \<open>proper m\<close> \<open>st x \<le> en m\<close> \<open>st m \<le> en x\<close> u(1) by (simp add: touch_nat)
  also have "\<dots> = add_loop e (i + length (m # M)) C (if b = e then i else b, i + length (m # M), n + of_nat (count_of (m # M)), u')"
    unfolding u'(2) using b by (simp add: num add.assoc)
  finally show ?case using covers_Cons [OF u'(1) u(3-5)] by auto
qed

text \<open>The invariant of a set of extents.\<close>

definition ranges_ok :: "extent_ranges \<Rightarrow> bool" where
  "ranges_ok r \<longleftrightarrow> separated (extent_set r) \<and> blocks r = of_nat (count_of (extent_set r))"

definition block_set :: "extent_ranges \<Rightarrow> nat set" where
  "block_set r = union_of (extent_set r)"

lemma AddExtent_union:
  assumes r: "ranges_ok r" and x: "proper x"
  obtains r' where "AddExtent x r = Some r'" "ranges_ok r'" "block_set r' = block_set r \<union> blocks_of x"
proof -
  let ?S = "extent_set r"
  have S: "separated ?S" and n: "blocks r = of_nat (count_of ?S)" using r by (simp_all add: ranges_ok_def)
  have "st x \<le> Suc (en x)" using x by (simp add: proper_def)
  from split_three [OF S this] obtain A M C where sp: "?S = A @ M @ C" "\<forall>a \<in> set A. en a < st x"
    "\<forall>m \<in> set M. st x \<le> en m \<and> st m \<le> en x" "\<forall>c \<in> set C. en x < st c" by blast
  have pr: "\<forall>y \<in> set (A @ M @ C). proper y" using S sp(1) by (simp add: separated_def)
  have le: "length A + length M \<le> length ?S" using sp(1) by simp
  obtain u where u: "covers u x M" "add_loop (length ?S) (length A) (M @ C) (length ?S, length ?S, 0, x) =
      add_loop (length ?S) (length A + length M) C (if M = [] then length ?S else length A,
        if M = [] then length ?S else length A + length M, of_nat (count_of M), u)"
    using add_loop_meet [OF x _ le, of C "length ?S" "length ?S" 0] pr sp(3) by auto
  have uC: "\<forall>c \<in> set C. en u < st c" using u(1) sp(1,4) S by (auto simp: covers_def separated_append)
  have uA: "\<forall>a \<in> set A. en a < st u" using u(1) sp(1,2) S by (auto simp: covers_def separated_append)
  have pu: "proper u" using u(1) by (simp add: covers_def)
  have "add_loop (length ?S) 0 (A @ M @ C) (length ?S, length ?S, 0, x) = add_loop (length ?S) (length A) (M @ C) (length ?S, length ?S, 0, x)"
    using add_loop_skip [OF x, of A "length ?S" 0] sp(2) pr by simp
  also have "\<dots> = Some (if M = [] then length ?S else length A, if M = [] then length ?S else length A + length M, of_nat (count_of M), u)"
    unfolding u(2) using add_loop_skip [OF pu, of C _ _ "[]"] uC pr by simp
  finally have loop: "add_loop (length ?S) 0 ?S (length ?S, length ?S, 0, x) =
      Some (if M = [] then length ?S else length A, if M = [] then length ?S else length A + length M, of_nat (count_of M), u)"
    using sp(1) by simp
  have rest: "take (if M = [] then length ?S else length A) ?S @ drop (if M = [] then length ?S else length A + length M) ?S = A @ C"
    using sp(1) by simp
  have ins: "set_insert u (A @ C) = A @ u # C"
    using uA uC pr pu by (intro set_insert_between) (auto simp: proper_def dest!: bspec)
  define r' where "r' = \<lparr>extent_set = A @ u # C, blocks = blocks r - of_nat (count_of M) + num_blocks u\<rparr>"
  have "AddExtent x r = Some r'"
    using x loop rest ins by (simp add: AddExtent_def Let_def r'_def)
  moreover have "separated (A @ u # C)" using S sp(1) uA uC pu by (auto simp: separated_append separated_Cons)
  moreover have "num_blocks u = of_nat (en u - st u)" by (simp add: unat_num [symmetric])
  then have "blocks r' = of_nat (count_of (A @ u # C))" by (simp add: r'_def n sp(1))
  moreover have "block_set r' = block_set r \<union> blocks_of x"
    using u(1) by (auto simp: block_set_def r'_def sp(1) covers_def)
  ultimately show thesis using that [of r'] by (simp add: ranges_ok_def r'_def)
qed

section \<open>Subtracting\<close>

lemma pieces_nat:
  assumes "proper m" "proper x" "st m < en x" "st x < en m"
  shows "separated (SubtractOverlappingExtents m x)" "union_of (SubtractOverlappingExtents m x) = blocks_of m - blocks_of x"
    "\<forall>p \<in> set (SubtractOverlappingExtents m x). st m \<le> st p \<and> en p \<le> en m"
proof -
  let ?P = "SubtractOverlappingExtents m x"
  define l where "l = ExtentForRange (start_block m) (start_block x - start_block m)"
  define t where "t = ExtentForRange (extent_end x) (extent_end m - extent_end x)"
  have l: "proper l" "st l = st m" "en l = st x" if "st m < st x"
    using ExtentForRange_nat [of "start_block m" "start_block x"] that by (simp_all add: l_def st_def)
  have t: "proper t" "st t = en x" "en t = en m" if "en x < en m"
    using ExtentForRange_nat [of "extent_end x" "extent_end m"] that assms(1,2) by (simp_all add: t_def)
  have x: "st x < en x" using assms(2) by (simp add: proper_def)
  have e: "extent_end x < extent_end m \<longleftrightarrow> en x < en m" using assms(1,2) by (simp add: word_less_nat_alt)
  have "?P = (let ret = (if st m < st x then [l] else []) in if en x < en m then set_insert t ret else ret)"
    by (simp only: SubtractOverlappingExtents_def start_less e l_def t_def)
  moreover have "ExtentLess l t \<and> \<not> ExtentLess t l" if "st m < st x" "en x < en m"
    unfolding ExtentLess_def start_less using l(2) [OF that(1)] t(2) [OF that(2)] that x by linarith
  ultimately have P: "?P = (if st m < st x then [l] else []) @ (if en x < en m then [t] else [])"
    by (cases "st m < st x"; cases "en x < en m") simp_all
  show "separated ?P"
    unfolding P using l t x by (cases "st m < st x"; cases "en x < en m") (simp_all add: separated_def)
  show "\<forall>p \<in> set ?P. st m \<le> st p \<and> en p \<le> en m"
    unfolding P using l t assms(1,3,4) by (cases "st m < st x"; cases "en x < en m") (simp_all add: proper_def)
  show "union_of ?P = blocks_of m - blocks_of x"
  proof (rule set_eqI)
    fix k
    show "k \<in> union_of ?P \<longleftrightarrow> k \<in> blocks_of m - blocks_of x"
      unfolding P using l t x assms(3,4) by (cases "st m < st x"; cases "en x < en m") (simp_all add: blocks_of_def; linarith)+
  qed
qed

lemma subtract_loop_skip:
  assumes "proper x" "\<forall>a \<in> set A. proper a \<and> (en a \<le> st x \<or> en x \<le> st a)"
  shows "subtract_loop x e i (A @ B) (b, d, n, N) = subtract_loop x e (i + length A) B (b, d, n, N)"
  using assms by (induction A arbitrary: i) (auto simp: touch_nat)

lemma fold_minus: "fold (\<lambda>jt d. d - num_blocks jt) P n = n - of_nat (count_of P)"
proof (induction P arbitrary: n)
  case (Cons p P)
  have "num_blocks p = of_nat (en p - st p)" by (simp add: unat_num [symmetric])
  then show ?case using Cons by (simp add: diff_diff_eq)
qed simp

lemma subtract_loop_meet:
  assumes "proper x" "separated M" "\<forall>m \<in> set M. st m < en x \<and> st x < en m" "separated N" "\<forall>p \<in> set N. \<forall>m \<in> set M. en p < st m"
    "i + length M \<le> e"
  shows "\<exists>P. separated (N @ P) \<and> union_of P = union_of M - blocks_of x \<and> (\<forall>p \<in> set P. \<exists>m \<in> set M. st m \<le> st p \<and> en p \<le> en m) \<and>
    subtract_loop x e i (M @ C) (b, d, n, N) =
      subtract_loop x e (i + length M) C (if M = [] then b else if b = e then i else b, if M = [] then d else i + length M,
        n + of_nat (count_of M) - of_nat (count_of P), N @ P)"
  using assms
proof (induction M arbitrary: i b d n N)
  case Nil
  then show ?case by (intro exI [of _ "[]"]) simp
next
  case (Cons m M)
  let ?Q = "SubtractOverlappingExtents m x"
  have m: "proper m" "st m < en x" "st x < en m" and M: "separated M" "\<forall>y \<in> set M. en m < st y"
    using Cons.prems(2,3) by (auto simp: separated_Cons)
  note Q = pieces_nat [OF m(1) Cons.prems(1) m(2,3)]
  have NQ: "separated (N @ ?Q)"
    using Cons.prems(4,5) Q by (auto simp: separated_append) (meson le_trans less_le_trans)
  have ins: "fold set_insert ?Q N = N @ ?Q"
    using fold_set_insert [of N ?Q "[]"] separated_sorted [OF NQ] by simp
  have NM: "\<forall>p \<in> set (N @ ?Q). \<forall>m' \<in> set M. en p < st m'" using Cons.prems(5) Q(3) M(2) by (auto intro: le_less_trans)
  have le: "Suc i + length M \<le> e" using Cons.prems(6) by simp
  have hM: "\<forall>m' \<in> set M. st m' < en x \<and> st x < en m'" using Cons.prems(3) by simp
  let ?b = "if b = e then i else b"
  obtain P where P: "separated ((N @ ?Q) @ P)" "union_of P = union_of M - blocks_of x" "\<forall>p \<in> set P. \<exists>m' \<in> set M. st m' \<le> st p \<and> en p \<le> en m'"
    "subtract_loop x e (Suc i) (M @ C) (?b, Suc i, n + num_blocks m - of_nat (count_of ?Q), N @ ?Q) =
      subtract_loop x e (Suc i + length M) C (if M = [] then ?b else if ?b = e then Suc i else ?b, if M = [] then Suc i else Suc i + length M,
        n + num_blocks m - of_nat (count_of ?Q) + of_nat (count_of M) - of_nat (count_of P), (N @ ?Q) @ P)"
    using Cons.IH [OF Cons.prems(1) M(1) hM NQ NM le] by blast
  have num: "num_blocks m = of_nat (en m - st m)" by (simp add: unat_num [symmetric])
  have b: "i \<noteq> e" using le by simp
  have "subtract_loop x e i ((m # M) @ C) (b, d, n, N) = subtract_loop x e (Suc i) (M @ C) (?b, Suc i, n + num_blocks m - of_nat (count_of ?Q), N @ ?Q)"
    using Cons.prems(1) m by (simp add: touch_nat Let_def fold_minus ins)
  also have "\<dots> = subtract_loop x e (i + length (m # M)) C (?b, i + length (m # M),
        n + of_nat (count_of (m # M)) - of_nat (count_of (?Q @ P)), N @ ?Q @ P)"
    unfolding P(4) using b by (simp add: num algebra_simps)
  finally have e: "subtract_loop x e i ((m # M) @ C) (b, d, n, N) = subtract_loop x e (i + length (m # M)) C (?b, i + length (m # M),
        n + of_nat (count_of (m # M)) - of_nat (count_of (?Q @ P)), N @ ?Q @ P)" .
  show ?case
    by (rule exI [of _ "?Q @ P"]) (use e P Q in auto)
qed

lemma SubtractExtent_diff:
  assumes r: "ranges_ok r" and x: "proper x"
  shows "ranges_ok (SubtractExtent x r)" "block_set (SubtractExtent x r) = block_set r - blocks_of x"
proof -
  let ?S = "extent_set r"
  have S: "separated ?S" and n: "blocks r = of_nat (count_of ?S)" using r by (simp_all add: ranges_ok_def)
  have xx: "st x < en x" using x by (simp add: proper_def)
  have "Suc (st x) \<le> Suc (en x - 1)" using xx by simp
  from split_three [OF S this] obtain A M C where sp: "?S = A @ M @ C" "\<forall>a \<in> set A. en a < Suc (st x)"
    "\<forall>m \<in> set M. Suc (st x) \<le> en m \<and> st m \<le> en x - 1" "\<forall>c \<in> set C. en x - 1 < st c" by blast
  have pr: "\<forall>y \<in> set (A @ M @ C). proper y" using S sp(1) by (simp add: separated_def)
  have sepM: "separated M" "\<forall>m \<in> set M. st m < en x \<and> st x < en m"
    using S sp xx by (auto simp: separated_append)
  have eA: "en a \<le> st x" if "a \<in> set A" for a using bspec [OF sp(2) that] by simp
  have eC: "en x \<le> st c" if "c \<in> set C" for c using bspec [OF sp(4) that] by linarith
  have hA: "\<forall>a \<in> set A. proper a \<and> (en a \<le> st x \<or> en x \<le> st a)" using eA pr by simp
  have hC: "\<forall>c \<in> set C. proper c \<and> (en c \<le> st x \<or> en x \<le> st c)" using eC pr by simp
  have le: "length A + length M \<le> length ?S" using sp(1) by simp
  obtain P where P: "separated ([] @ P)" "union_of P = union_of M - blocks_of x" "\<forall>p \<in> set P. \<exists>m \<in> set M. st m \<le> st p \<and> en p \<le> en m"
    "subtract_loop x (length ?S) (length A) (M @ C) (length ?S, length ?S, 0, []) =
      subtract_loop x (length ?S) (length A + length M) C (if M = [] then length ?S else if length ?S = length ?S then length A else length ?S,
        if M = [] then length ?S else length A + length M, 0 + of_nat (count_of M) - of_nat (count_of P), [] @ P)"
    using subtract_loop_meet [OF x sepM _ _ le, of "[]" C "length ?S" "length ?S" 0] by (auto simp: separated_def)
  have "subtract_loop x (length ?S) 0 (A @ M @ C) (length ?S, length ?S, 0, []) =
      subtract_loop x (length ?S) (length A) (M @ C) (length ?S, length ?S, 0, [])"
    using subtract_loop_skip [OF x hA, of "length ?S" 0] by simp
  also have "\<dots> = (if M = [] then length ?S else length A, if M = [] then length ?S else length A + length M,
      of_nat (count_of M) - of_nat (count_of P), P)"
    unfolding P(4) using subtract_loop_skip [OF x hC, of _ _ "[]"] by simp
  finally have loop: "subtract_loop x (length ?S) 0 ?S (length ?S, length ?S, 0, []) =
      (if M = [] then length ?S else length A, if M = [] then length ?S else length A + length M, of_nat (count_of M) - of_nat (count_of P), P)"
    using sp(1) by simp
  have rest: "take (if M = [] then length ?S else length A) ?S @ drop (if M = [] then length ?S else length A + length M) ?S = A @ C"
    using sp(1) by simp
  have sS: "separated A" "separated C" "\<forall>a \<in> set A. \<forall>m \<in> set M. en a < st m" "\<forall>m \<in> set M. \<forall>c \<in> set C. en m < st c"
    "\<forall>a \<in> set A. \<forall>c \<in> set C. en a < st c"
    using S unfolding sp(1) separated_append by simp_all
  have "en a < st p" if "a \<in> set A" "p \<in> set P" for a p
    using bspec [OF P(3) that(2)] sS(3) that(1) by (meson less_le_trans)
  moreover have "en p < st c" if "c \<in> set C" "p \<in> set P" for c p
    using bspec [OF P(3) that(2)] sS(4) that(1) by (meson le_less_trans)
  ultimately have sep: "separated (A @ P @ C)" using sS(1,2,5) P(1) unfolding separated_append by (simp add: ball_Un)
  have ins: "fold set_insert P (A @ C) = A @ P @ C" by (rule fold_set_insert [OF separated_sorted [OF sep]])
  have sub: "SubtractExtent x r = \<lparr>extent_set = A @ P @ C, blocks = blocks r - (of_nat (count_of M) - of_nat (count_of P))\<rparr>"
    using x loop rest ins by (simp add: SubtractExtent_def Let_def)
  show "ranges_ok (SubtractExtent x r)" unfolding sub using sep by (simp add: ranges_ok_def n sp(1) algebra_simps)
  have "k \<notin> blocks_of x" if "k \<in> union_of A \<union> union_of C" for k
    using that by (auto simp: union_of_def blocks_of_def dest: eA eC)
  then show "block_set (SubtractExtent x r) = block_set r - blocks_of x"
    unfolding sub using P(2) by (auto simp: block_set_def sp(1))
qed

section \<open>The contract of a set of blocks\<close>

text \<open>What an extent contributes: sparse holes and empty extents are ignored.\<close>

definition ignored :: "extent \<Rightarrow> bool" where
  "ignored x \<longleftrightarrow> start_block x = kSparseHole \<or> num_blocks x = 0"

definition covered :: "extent \<Rightarrow> nat set" where
  "covered x = (if ignored x then {} else blocks_of x)"

definition fits :: "extent \<Rightarrow> bool" where
  "fits x \<longleftrightarrow> ignored x \<or> en x < 2 ^ 64"

lemma fits_proper: "fits x \<Longrightarrow> \<not> ignored x \<Longrightarrow> proper x"
  by (auto simp: fits_def ignored_def proper_def en_def st_def word_unat_eq_iff)

lemma proper_covered: "proper x \<Longrightarrow> fits x \<and> covered x = blocks_of x"
  using proper_unat [of x] by (simp add: fits_def covered_def ignored_def proper_def)

locale block_sets =
  fixes ok :: "'s \<Rightarrow> bool" and blks :: "'s \<Rightarrow> nat set"
    and add :: "extent \<Rightarrow> 's \<Rightarrow> 's option" and sub :: "extent \<Rightarrow> 's \<Rightarrow> 's"
  assumes add_union: "ok r \<Longrightarrow> fits x \<Longrightarrow> \<exists>r'. add x r = Some r' \<and> ok r' \<and> blks r' = blks r \<union> covered x"
    and sub_diff: "ok r \<Longrightarrow> fits x \<Longrightarrow> ok (sub x r) \<and> blks (sub x r) = blks r - covered x"
begin

lemma add_list:
  assumes "ok r" "\<forall>x \<in> set xs. fits x" "\<And>r. adds [] r = Some r" "\<And>x xs r. adds (x # xs) r = Option.bind (add x r) (adds xs)"
  shows "\<exists>r'. adds xs r = Some r' \<and> ok r' \<and> blks r' = blks r \<union> (\<Union>x \<in> set xs. covered x)"
  using assms(1,2)
proof (induction xs arbitrary: r)
  case (Cons x xs)
  obtain r1 where r1: "add x r = Some r1" "ok r1" "blks r1 = blks r \<union> covered x" using add_union [of r x] Cons.prems by auto
  obtain r2 where "adds xs r1 = Some r2" "ok r2" "blks r2 = blks r1 \<union> (\<Union>x \<in> set xs. covered x)"
    using Cons.IH [OF r1(2)] Cons.prems by auto
  then show ?case using r1 by (simp add: assms(4) Un_assoc)
qed (simp add: assms(3))

lemma sub_list:
  assumes "ok r" "\<forall>x \<in> set xs. fits x" "\<And>r. subs [] r = r" "\<And>x xs r. subs (x # xs) r = subs xs (sub x r)"
  shows "ok (subs xs r) \<and> blks (subs xs r) = blks r - (\<Union>x \<in> set xs. covered x)"
  using assms(1,2)
proof (induction xs arbitrary: r)
  case (Cons x xs)
  have "ok (sub x r)" "blks (sub x r) = blks r - covered x" using sub_diff [of r x] Cons.prems by auto
  then show ?case using Cons.IH [of "sub x r"] Cons.prems by (auto simp: assms(4))
qed (simp add: assms(3))

end

interpretation ranges: block_sets ranges_ok block_set AddExtent SubtractExtent
proof unfold_locales
  fix r x assume r: "ranges_ok r" and x: "fits x"
  show "\<exists>r'. AddExtent x r = Some r' \<and> ranges_ok r' \<and> block_set r' = block_set r \<union> covered x"
  proof (cases "ignored x")
    case True
    then show ?thesis using r by (simp add: AddExtent_def ignored_def [symmetric] covered_def)
  next
    case False
    then show ?thesis using AddExtent_union [OF r fits_proper [OF x False]] by (auto simp: covered_def)
  qed
  show "ranges_ok (SubtractExtent x r) \<and> block_set (SubtractExtent x r) = block_set r - covered x"
  proof (cases "ignored x")
    case True
    then show ?thesis using r by (simp add: SubtractExtent_def ignored_def [symmetric] covered_def)
  next
    case False
    then show ?thesis using SubtractExtent_diff [OF r fits_proper [OF x False]] by (auto simp: covered_def)
  qed
qed

lemma separated_covered: "separated xs \<Longrightarrow> (\<forall>x \<in> set xs. fits x) \<and> (\<Union>x \<in> set xs. covered x) = union_of xs"
  using proper_covered by (auto simp: separated_def union_of_def)

section \<open>Looking up a block\<close>

lemma lower_bound_nat:
  assumes "sorted_wrt (\<lambda>a b. st a < st b) xs"
  shows "lower_bound e xs \<le> length xs" "\<And>i. i < length xs \<Longrightarrow> i < lower_bound e xs \<longleftrightarrow> st (xs ! i) < st e"
proof -
  let ?P = "\<lambda>x. ExtentLess x e"
  show le: "lower_bound e xs \<le> length xs" by (simp add: lower_bound_def length_takeWhile_le)
  fix i assume i: "i < length xs"
  show "i < lower_bound e xs \<longleftrightarrow> st (xs ! i) < st e"
  proof
    assume "i < lower_bound e xs"
    then show "st (xs ! i) < st e"
      using set_takeWhileD [of "xs ! i" ?P xs] takeWhile_nth [of i ?P xs] nth_mem [of i "takeWhile ?P xs"]
      by (simp add: lower_bound_def ExtentLess_def start_less)
  next
    assume l: "st (xs ! i) < st e"
    show "i < lower_bound e xs"
    proof (rule ccontr)
      let ?k = "lower_bound e xs"
      assume n: "\<not> i < ?k"
      then have k: "?k < length xs" using i by linarith
      then have "\<not> st (xs ! ?k) < st e" using nth_length_takeWhile [of ?P xs] by (simp add: lower_bound_def ExtentLess_def start_less)
      moreover have "st (xs ! ?k) \<le> st (xs ! i)"
        using assms n i k by (cases "?k = i") (auto simp: sorted_wrt_iff_nth_less less_imp_le)
      ultimately show False using l by linarith
    qed
  qed
qed

lemma separated_nth: "separated xs \<Longrightarrow> i < j \<Longrightarrow> j < length xs \<Longrightarrow> en (xs ! i) < st (xs ! j)"
  by (simp add: separated_def sorted_wrt_iff_nth_less)

lemma separated_proper: "separated xs \<Longrightarrow> i < length xs \<Longrightarrow> proper (xs ! i)"
  by (simp add: separated_def)

text \<open>
  The elements from the one before the lower bound of \<open>e\<close> to the lower bound of \<open>e'\<close> are all that reach into
  the blocks from \<open>e\<close> to \<open>e'\<close>.
\<close>

lemma iterate_window:
  assumes S: "separated xs" and le: "st e \<le> st e'"
  obtains its where
    "iterate_range (if lower_bound e xs \<noteq> 0 then lower_bound e xs - 1 else lower_bound e xs) (lower_bound e' xs) xs = Some its"
    "separated its" "set its \<subseteq> set xs" "\<And>k. st e \<le> k \<Longrightarrow> k < st e' \<Longrightarrow> k \<in> union_of its \<longleftrightarrow> k \<in> union_of xs"
proof -
  note lb = lower_bound_nat [OF separated_sorted [OF S]]
  define l where "l = (if lower_bound e xs \<noteq> 0 then lower_bound e xs - 1 else lower_bound e xs)"
  define u where "u = lower_bound e' xs"
  define its where "its = take (u - l) (drop l xs)"
  have mono: "lower_bound e xs \<le> u"
  proof (rule ccontr)
    assume "\<not> lower_bound e xs \<le> u"
    then have "u < length xs" "u < lower_bound e xs" using lb(1) [of e] by linarith+
    then show False using lb(2) [of u e] lb(2) [of u e'] le by (simp add: u_def)
  qed
  then have "l \<le> u" by (auto simp: l_def)
  have "its @ drop u xs = drop l xs"
    using \<open>l \<le> u\<close> append_take_drop_id [of "u - l" "drop l xs"] by (simp add: its_def)
  then have xs: "xs = take l xs @ its @ drop u xs" by simp
  then have sub: "separated its" "set its \<subseteq> set xs"
    using S separated_append [of "take l xs" "its @ drop u xs"] separated_append [of its "drop u xs"]
    by (simp, auto simp: its_def dest: in_set_takeD in_set_dropD)
  have "k \<in> union_of its" if k: "st e \<le> k" "k < st e'" and "k \<in> union_of xs" for k
  proof -
    obtain i where i: "i < length xs" "st (xs ! i) \<le> k" "k < en (xs ! i)"
      using \<open>k \<in> union_of xs\<close> by (auto simp: union_of_def blocks_of_def in_set_conv_nth)
    have "i < u" using lb(2) [OF i(1), of e'] i k by (simp add: u_def)
    moreover have "l \<le> i"
    proof (rule ccontr)
      assume "\<not> l \<le> i"
      then have "i < l" "l < lower_bound e xs" "l < length xs" using lb(1) [of e] by (auto simp: l_def split: if_splits)
      then show False using separated_nth [OF S, of i l] lb(2) [of l e] i k by simp
    qed
    ultimately have "its ! (i - l) = xs ! i" "i - l < length its" using i(1) by (simp_all add: its_def) linarith
    then have "xs ! i \<in> set its" by (metis nth_mem)
    then show ?thesis using i by (auto simp: union_of_def blocks_of_def)
  qed
  moreover have "union_of its \<subseteq> union_of xs" using sub(2) by (auto simp: union_of_def)
  ultimately show thesis
    using that [of its] sub \<open>l \<le> u\<close> unfolding l_def [symmetric] u_def [symmetric]
    by (simp add: iterate_range_def its_def) blast
qed

lemma ContainsBlock_member:
  assumes r: "ranges_ok r" and b: "b \<noteq> kSparseHole"
  shows "ContainsBlock b r = Some (unat b \<in> block_set r)"
proof -
  let ?e = "ExtentForRange b 1" and ?e' = "ExtentForRange (b + 1) 0"
  have "unat b \<noteq> 2 ^ 64 - 1" using b unat_kSparseHole by (metis word_unat_eq_iff)
  then have "unat b + 1 < 2 ^ 64" using unat_u64_less [of b] by linarith
  then have "unat (b + 1) = unat b + 1" by (simp add: unat_word_ariths)
  then have s: "st ?e = unat b" "st ?e' = unat b + 1" by (simp_all add: st_def ExtentForRange_def)
  have S: "separated (extent_set r)" using r by (simp add: ranges_ok_def)
  have "st ?e \<le> st ?e'" using s by simp
  from iterate_window [OF S this]
  obtain its where its: "iterate_range (if lower_bound ?e (extent_set r) \<noteq> 0 then lower_bound ?e (extent_set r) - 1 else lower_bound ?e (extent_set r))
      (lower_bound ?e' (extent_set r)) (extent_set r) = Some its" "separated its"
    "\<And>k. st ?e \<le> k \<Longrightarrow> k < st ?e' \<Longrightarrow> k \<in> union_of its \<longleftrightarrow> k \<in> union_of (extent_set r)"
    by blast
  have "start_block x \<le> b \<and> b < extent_end x \<longleftrightarrow> unat b \<in> blocks_of x" if "x \<in> set its" for x
    using its(2) that by (simp add: separated_def blocks_of_def word_le_nat_alt word_less_nat_alt st_def [symmetric])
  then have "list_ex (\<lambda>x. start_block x \<le> b \<and> b < extent_end x) its \<longleftrightarrow> unat b \<in> union_of its"
    by (auto simp: list_ex_iff union_of_def)
  then show ?thesis using its s by (simp add: ContainsBlock_def Let_def block_set_def)
qed

end
