(* ===== verification/Ue_Sequences.thy ===== *)
theory Ue_Sequences
  imports Ue_Ranges
begin

text \<open>
  Lists of extents denote sequences of blocks: filtering by a set of extents, taking the first blocks of a set,
  cutting out a part, merging neighbours and appending a block do to the sequence what they say.
\<close>

section \<open>The blocks of a list of extents\<close>

definition addressable :: "extent \<Rightarrow> bool" where
  "addressable x \<longleftrightarrow> en x < 2 ^ 64"

definition flat :: "extent list \<Rightarrow> nat list" where
  "flat xs = concat (map (\<lambda>x. [st x..<en x]) xs)"

lemma flat_simps [simp]:
  "flat [] = []" "flat (x # xs) = [st x..<en x] @ flat xs" "flat (xs @ ys) = flat xs @ flat ys"
  by (simp_all add: flat_def)

lemma st_le_en [simp]: "st x \<le> en x"
  by (simp add: st_def en_def)

lemma proper_addressable: "proper x \<longleftrightarrow> addressable x \<and> num_blocks x \<noteq> 0"
  by (auto simp: proper_def addressable_def st_def en_def word_unat_eq_iff)

lemma addressable_end: "addressable x \<Longrightarrow> unat (extent_end x) = en x"
  by (simp add: addressable_def en_def extent_end_def unat_word_ariths)

lemma expand_extent_flat:
  assumes "addressable x" shows "expand_extent x = map of_nat [st x..<en x]"
proof (cases "start_block x = kSparseHole")
  case True
  then have "unat (num_blocks x) = 0" using assms unat_kSparseHole by (simp add: addressable_def en_def)
  then show ?thesis using True by (simp add: expand_extent_def en_def st_def)
qed (simp add: expand_extent_def addressable_end [OF assms] st_def)

lemma ExpandExtents_flat: "\<forall>x \<in> set xs. addressable x \<Longrightarrow> ExpandExtents xs = map of_nat (flat xs)"
  by (induction xs) (auto simp: ExpandExtents_def expand_extent_flat)

lemma flat_bound: "\<forall>x \<in> set xs. addressable x \<Longrightarrow> k \<in> set (flat xs) \<Longrightarrow> k < 2 ^ 64"
  by (induction xs) (auto simp: addressable_def)

lemma length_flat: "length (flat xs) = count_of xs"
  by (induction xs) simp_all

lemma BlocksInExtents_count: "BlocksInExtents xs = of_nat (count_of xs)"
  by (induction xs) (simp_all add: unat_num [symmetric])

lemma upt_split: "a \<le> b \<Longrightarrow> b \<le> c \<Longrightarrow> [a..<c] = [a..<b] @ [b..<c]"
  using upt_add_eq_append [of a b "c - b"] by simp

section \<open>Filtering\<close>

lemma filter_loop_empty:
  "num_blocks x = 0 \<Longrightarrow> \<exists>x'. filter_loop its (x, res) = (x', res) \<and> num_blocks x' = 0"
  by (induction its) (auto simp: Let_def ExtentsOverlap_def extent_end_def)

lemma filter_interval:
  assumes "a \<le> b" "b \<le> c"
  shows "\<forall>k. a \<le> k \<and> k < b \<longrightarrow> P k \<Longrightarrow> filter P [a..<c] = [a..<b] @ filter P [b..<c]"
    "\<forall>k. a \<le> k \<and> k < b \<longrightarrow> \<not> P k \<Longrightarrow> filter P [a..<c] = filter P [b..<c]"
  by (simp_all add: upt_split [OF assms])

definition rest_after :: "extent \<Rightarrow> extent \<Rightarrow> extent" where
  "rest_after it x = ExtentForRange (extent_end it) (extent_end x - extent_end it)"

definition part_before :: "extent \<Rightarrow> extent \<Rightarrow> extent" where
  "part_before it x = ExtentForRange (start_block x) (start_block it - start_block x)"

lemma rest_after_nat:
  "proper it \<Longrightarrow> proper x \<Longrightarrow> en it < en x \<Longrightarrow> proper (rest_after it x) \<and> st (rest_after it x) = en it \<and> en (rest_after it x) = en x"
  using ExtentForRange_nat [of "extent_end it" "extent_end x"] by (simp add: rest_after_def)

lemma part_before_nat:
  "st x < st it \<Longrightarrow> proper (part_before it x) \<and> st (part_before it x) = st x \<and> en (part_before it x) = st it"
  using ExtentForRange_nat [of "start_block x" "start_block it"] by (simp add: part_before_def st_def)

lemma filter_loop_step:
  assumes "proper x" "proper it"
  shows "filter_loop (it # its) (x, res) =
    (if \<not> (st x < en it \<and> st it < en x) then filter_loop its (x, res)
     else if st it \<le> st x then if en x \<le> en it then (x\<lparr>num_blocks := 0\<rparr>, res) else filter_loop its (rest_after it x, res)
     else if en x \<le> en it then (x\<lparr>num_blocks := 0\<rparr>, res @ [part_before it x])
     else filter_loop its (rest_after it x, res @ [part_before it x]))"
proof -
  have e: "unat (extent_end it) = en it" "unat (extent_end x) = en x" using assms by simp_all
  have c: "start_block it \<le> start_block x \<longleftrightarrow> st it \<le> st x" "extent_end x \<le> extent_end it \<longleftrightarrow> en x \<le> en it"
    by (simp_all add: word_le_nat_alt st_def e)
  have cut: "num_blocks x \<le> extent_end it - start_block x \<longleftrightarrow> en x \<le> en it" if "st x < en it"
  proof -
    have "unat (extent_end it - start_block x) = en it - st x"
      using that unat_sub [of "start_block x" "extent_end it"] by (simp add: e word_le_nat_alt st_def)
    then show ?thesis using that by (simp add: word_le_nat_alt unat_num) arith
  qed
  have r: "num_blocks x - (extent_end it - start_block x) = extent_end x - extent_end it"
    by (simp add: extent_end_def)
  show ?thesis by (simp add: Let_def touch_nat(2) [OF assms] c cut r part_before_def [symmetric] rest_after_def [symmetric])
qed

lemma filter_loop_flat:
  assumes "separated its" "proper x"
  obtains x' ps where "filter_loop its (x, res) = (x', res @ ps)" "\<forall>p \<in> set ps. proper p" "num_blocks x' \<noteq> 0 \<Longrightarrow> proper x'"
    "flat ps @ (if num_blocks x' = 0 then [] else [st x'..<en x']) = filter (\<lambda>k. k \<notin> union_of its) [st x..<en x]"
proof -
  have "\<exists>x' ps. filter_loop its (x, res) = (x', res @ ps) \<and> (\<forall>p \<in> set ps. proper p) \<and> (num_blocks x' \<noteq> 0 \<longrightarrow> proper x') \<and>
      flat ps @ (if num_blocks x' = 0 then [] else [st x'..<en x']) = filter (\<lambda>k. k \<notin> union_of its) [st x..<en x]"
    using assms
  proof (induction its arbitrary: x res)
    case Nil
    then show ?case by (auto simp: proper_addressable)
  next
    case (Cons it its)
    have it: "proper it" "separated its" and later: "\<forall>k \<in> union_of its. en it < k"
      using Cons.prems(1) by (force simp: separated_Cons union_of_def blocks_of_def)+
    have px: "st x < en x" "st it < en it" using Cons.prems(2) it by (simp_all add: proper_def)
    let ?P = "\<lambda>k. k \<notin> union_of (it # its)"
    note step = filter_loop_step [OF Cons.prems(2) it(1), of its res]
    have before: "filter ?P [a..<en x] = [a..<st it] @ filter ?P [st it..<en x]" if "a \<le> st it" "st it \<le> en x" for a
      by (rule filter_interval(1) [OF that]) (use later px in \<open>auto simp: blocks_of_def\<close>)
    have inside: "filter ?P [a..<en x] = []" if "st it \<le> a" "en x \<le> en it" for a
      using that by (auto simp: filter_empty_conv blocks_of_def)
    have after: "filter ?P [a..<en x] = filter (\<lambda>k. k \<notin> union_of its) [en it..<en x]" if "st it \<le> a" "a \<le> en it" "en it < en x" for a
    proof -
      have "filter ?P [a..<en x] = filter ?P [en it..<en x]"
        by (rule filter_interval(2)) (use that in \<open>auto simp: blocks_of_def\<close>)
      also have "\<dots> = filter (\<lambda>k. k \<notin> union_of its) [en it..<en x]" by (rule filter_cong) (auto simp: blocks_of_def)
      finally show ?thesis .
    qed
    consider (apart) "\<not> (st x < en it \<and> st it < en x)" | (over) "st x < en it" "st it < en x" "st it \<le> st x"
      | (right) "st x < en it" "st x < st it" "st it < en x" by linarith
    then show ?case
    proof cases
      case apart
      then have "filter ?P [st x..<en x] = filter (\<lambda>k. k \<notin> union_of its) [st x..<en x]"
        by (intro filter_cong) (auto simp: blocks_of_def)
      then show ?thesis using Cons.IH [OF it(2) Cons.prems(2), of res] apart unfolding step by simp
    next
      case over
      show ?thesis
      proof (cases "en x \<le> en it")
        case True
        then show ?thesis using over inside [of "st x"] unfolding step by auto
      next
        case False
        then show ?thesis using over rest_after_nat [OF it(1) Cons.prems(2)] after [of "st x"] Cons.IH [OF it(2), of "rest_after it x" res]
          unfolding step by auto
      qed
    next
      case right
      note pb = part_before_nat [OF right(2)]
      show ?thesis
      proof (cases "en x \<le> en it")
        case True
        then show ?thesis using right pb before [of "st x"] inside [of "st it"] unfolding step
          by (intro exI [of _ "x\<lparr>num_blocks := 0\<rparr>"] exI [of _ "[part_before it x]"]) simp
      next
        case False
        then obtain x' ps where "filter_loop its (rest_after it x, res @ [part_before it x]) = (x', (res @ [part_before it x]) @ ps)"
          "\<forall>p \<in> set ps. proper p" "num_blocks x' \<noteq> 0 \<longrightarrow> proper x'"
          "flat ps @ (if num_blocks x' = 0 then [] else [st x'..<en x']) = filter (\<lambda>k. k \<notin> union_of its) [en it..<en x]"
          using rest_after_nat [OF it(1) Cons.prems(2)] Cons.IH [OF it(2), of "rest_after it x" "res @ [part_before it x]"] by auto
        then show ?thesis using False right pb before [of "st x"] after [of "st it"] px unfolding step
          by (intro exI [of _ x'] exI [of _ "part_before it x # ps"]) simp
      qed
    qed
  qed
  then show thesis using that by blast
qed

lemma filter_extent_flat:
  assumes r: "ranges_ok r" and x: "addressable x"
  obtains ps where "filter_extent r x res = Some (res @ ps)" "\<forall>p \<in> set ps. proper p"
    "flat ps = filter (\<lambda>k. k \<notin> block_set r) [st x..<en x]"
proof -
  have S: "separated (extent_set r)" using r by (simp add: ranges_ok_def)
  let ?e' = "ExtentForRange (extent_end x) 0"
  have e': "st ?e' = en x" using addressable_end [OF x] by (simp add: st_def ExtentForRange_def)
  then have "st x \<le> st ?e'" by simp
  from iterate_window [OF S this] obtain its where
    its: "iterate_range (if lower_bound x (extent_set r) \<noteq> 0 then lower_bound x (extent_set r) - 1 else lower_bound x (extent_set r))
      (lower_bound ?e' (extent_set r)) (extent_set r) = Some its" "separated its"
      "\<And>k. st x \<le> k \<Longrightarrow> k < st ?e' \<Longrightarrow> k \<in> union_of its \<longleftrightarrow> k \<in> union_of (extent_set r)" by blast
  have un: "filter (\<lambda>k. k \<notin> union_of its) [st x..<en x] = filter (\<lambda>k. k \<notin> block_set r) [st x..<en x]"
    using its(3) e' by (intro filter_cong) (auto simp: block_set_def)
  show thesis
  proof (cases "num_blocks x = 0")
    case True
    then obtain x' where "filter_loop its (x, res) = (x', res)" "num_blocks x' = 0" using filter_loop_empty by blast
    then show thesis using that [of "[]"] its(1) True by (simp add: filter_extent_def Let_def en_def st_def)
  next
    case False
    then have "proper x" using x by (simp add: proper_addressable)
    from filter_loop_flat [OF its(2) this, of res] obtain x' ps where
      f: "filter_loop its (x, res) = (x', res @ ps)" "\<forall>p \<in> set ps. proper p" "num_blocks x' \<noteq> 0 \<Longrightarrow> proper x'"
        "flat ps @ (if num_blocks x' = 0 then [] else [st x'..<en x']) = filter (\<lambda>k. k \<notin> union_of its) [st x..<en x]" by blast
    show thesis
      by (rule that [of "if num_blocks x' = 0 then ps else ps @ [x']"])
        (use f its(1) un in \<open>auto simp: filter_extent_def Let_def word_gt_0 split: if_splits\<close>)
  qed
qed

lemma filter_extents_flat:
  assumes "ranges_ok r" "\<forall>x \<in> set xs. addressable x"
  shows "\<exists>ps. filter_extents r xs res = Some (res @ ps) \<and> (\<forall>p \<in> set ps. proper p) \<and> flat ps = filter (\<lambda>k. k \<notin> block_set r) (flat xs)"
  using assms(2)
proof (induction xs arbitrary: res)
  case (Cons x xs)
  then have "addressable x" by simp
  from filter_extent_flat [OF assms(1) this, of res] obtain ps where ps: "filter_extent r x res = Some (res @ ps)"
    "\<forall>p \<in> set ps. proper p" "flat ps = filter (\<lambda>k. k \<notin> block_set r) [st x..<en x]" by blast
  obtain qs where "filter_extents r xs (res @ ps) = Some ((res @ ps) @ qs)" "\<forall>p \<in> set qs. proper p"
    "flat qs = filter (\<lambda>k. k \<notin> block_set r) (flat xs)" using Cons.IH [of "res @ ps"] Cons.prems by auto
  then show ?case using ps by (intro exI [of _ "ps @ qs"]) auto
qed simp

section \<open>The first blocks of a set\<close>

lemma count_of_less: "separated xs \<Longrightarrow> count_of xs < 2 ^ 64"
proof -
  assume s: "separated xs"
  then have "union_of xs \<subseteq> {..<2 ^ 64 - 1}" by (force simp: separated_def union_of_def blocks_of_def proper_def)
  then have "card (union_of xs) \<le> 2 ^ 64 - 1" using card_mono [of "{..<(2::nat) ^ 64 - 1}"] by simp
  then show ?thesis using card_union_of [OF s] by simp
qed

lemma resized: "unat n \<le> en x - st x \<Longrightarrow> addressable x \<Longrightarrow> addressable (x\<lparr>num_blocks := n\<rparr>)
    \<and> st (x\<lparr>num_blocks := n\<rparr>) = st x \<and> en (x\<lparr>num_blocks := n\<rparr>) = st x + unat n"
  by (simp add: addressable_def st_def en_def)

lemma take_upt_append: "take n ([a..<b] @ xs) = (if n \<le> b - a then [a..<a + n] else [a..<b] @ take (n - (b - a)) xs)"
  by (cases "a \<le> b") auto

lemma count_loop_flat:
  assumes "\<forall>x \<in> set its. proper x" "unat d \<le> count_of its" "0 < unat d" "unat got + unat d < 2 ^ 64"
  shows "\<exists>ps. count_loop (got + d) its (out, got) = (out @ ps, got + d) \<and> (\<forall>p \<in> set ps. proper p) \<and>
    flat ps = take (unat d) (flat its)"
  using assms
proof (induction its arbitrary: got d out)
  case (Cons it its)
  have it: "proper it" "addressable it" using Cons.prems(1) by (auto simp: proper_addressable)
  have n: "unat (num_blocks it) = en it - st it" by (rule unat_num)
  consider (less) "en it - st it < unat d" | (eq) "num_blocks it = d" | (more) "unat d < en it - st it"
    using n by (metis linorder_neqE_nat word_unat_eq_iff)
  then show ?case
  proof cases
    case less
    then have d': "unat (d - num_blocks it) = unat d - (en it - st it)"
      using unat_sub [of "num_blocks it" d] by (simp add: word_le_nat_alt n)
    have got': "unat (got + num_blocks it) = unat got + (en it - st it)"
      using less Cons.prems(4) by (simp add: unat_word_ariths n)
    have pre: "\<forall>x \<in> set its. proper x" "unat d - (en it - st it) \<le> count_of its" "0 < unat d - (en it - st it)"
      "unat got + (en it - st it) + (unat d - (en it - st it)) < 2 ^ 64"
      using Cons.prems less by (simp, simp, simp, linarith)
    obtain ps where "count_loop ((got + num_blocks it) + (d - num_blocks it)) its (out @ [it], got + num_blocks it)
        = ((out @ [it]) @ ps, (got + num_blocks it) + (d - num_blocks it))" "\<forall>p \<in> set ps. proper p"
        "flat ps = take (unat d - (en it - st it)) (flat its)"
      using Cons.IH [of "d - num_blocks it" "got + num_blocks it" "out @ [it]", unfolded d' got', OF pre] by blast
    then show ?thesis using less it n
      by (intro exI [of _ "it # ps"]) (simp add: Let_def word_less_nat_alt take_upt_append)
  next
    case eq
    then show ?thesis using it n by (intro exI [of _ "[it]"]) (simp add: Let_def take_upt_append)
  next
    case more
    then have "proper (it\<lparr>num_blocks := d\<rparr>)" "st (it\<lparr>num_blocks := d\<rparr>) = st it" "en (it\<lparr>num_blocks := d\<rparr>) = st it + unat d"
      using resized [of d it] it(2) Cons.prems(3) by (auto simp: proper_addressable)
    then show ?thesis using more n
      by (intro exI [of _ "[it\<lparr>num_blocks := d\<rparr>]"]) (auto simp: Let_def word_less_nat_alt take_upt_append)
  qed
qed simp

lemma GetExtentsForBlockCount_take:
  assumes r: "ranges_ok r" and c: "count \<le> blocks r"
  shows "\<exists>ps. GetExtentsForBlockCount count r = Some ps \<and> (\<forall>p \<in> set ps. proper p) \<and> flat ps = take (unat count) (flat (extent_set r))"
proof (cases "count = 0")
  case False
  have S: "separated (extent_set r)" and n: "blocks r = of_nat (count_of (extent_set r))" using r by (simp_all add: ranges_ok_def)
  have "unat (blocks r) = count_of (extent_set r)" using count_of_less [OF S] by (simp add: n unat_of_nat_small)
  then have "unat count \<le> count_of (extent_set r)" using c by (simp add: word_le_nat_alt)
  then obtain ps where ps: "count_loop count (extent_set r) ([], 0) = (ps, count)" "\<forall>p \<in> set ps. proper p"
    "flat ps = take (unat count) (flat (extent_set r))"
    using count_loop_flat [of "extent_set r" count 0 "[]"] S False unat_u64_less [of count] by (auto simp: separated_def unat_gt_0)
  have "count_of ps = unat count"
    using arg_cong [OF ps(3), of length] \<open>unat count \<le> _\<close> by (simp add: length_flat)
  then show ?thesis using ps c False by (simp add: GetExtentsForBlockCount_def BlocksInExtents_count)
qed (simp add: GetExtentsForBlockCount_def)

section \<open>Cutting out a part\<close>

lemma ExtentForRange_bounds:
  "st (ExtentForRange s n) = unat s" "en (ExtentForRange s n) = unat s + unat n"
  by (simp_all add: st_def en_def ExtentForRange_def)

lemma cut_piece:
  assumes "addressable x" "a \<le> b" "b \<le> en x - st x" "unat u = a" "unat v = b"
  shows "addressable (ExtentForRange (start_block x + u) (v - u))" "[st (ExtentForRange (start_block x + u) (v - u))..<en (ExtentForRange (start_block x + u) (v - u))]
    = [st x + a..<st x + b]"
proof -
  have x: "en x < 2 ^ 64" using assms(1) by (simp add: addressable_def)
  have "st x + a < 2 ^ 64" using assms(2,3) x st_le_en [of x] by linarith
  then have s: "unat (start_block x + u) = st x + a" using assms(4) by (simp add: unat_word_ariths st_def)
  have n: "unat (v - u) = b - a" using unat_sub [of u v] assms by (simp add: word_le_nat_alt)
  show "addressable (ExtentForRange (start_block x + u) (v - u))" unfolding addressable_def ExtentForRange_bounds s n
    using x assms(2,3) st_le_en [of x] by linarith
  show "[st (ExtentForRange (start_block x + u) (v - u))..<en (ExtentForRange (start_block x + u) (v - u))] = [st x + a..<st x + b]"
    using assms(2) by (simp add: ExtentForRange_bounds s n)
qed

lemma sublist_loop_flat:
  assumes "\<forall>x \<in> set xs. addressable x" "unat sc + count_of xs < 2 ^ 64" "unat sc < unat e" "unat off < unat e"
  shows "(\<forall>x \<in> set (sublist_loop off e sc xs). addressable x) \<and>
    flat (sublist_loop off e sc xs) = drop (unat off - unat sc) (take (unat e - unat sc) (flat xs))"
  using assms
proof (induction xs arbitrary: sc)
  case (Cons x xs)
  let ?S = "unat sc" and ?N = "en x - st x" and ?O = "unat off" and ?E = "unat e"
  have x: "addressable x" using Cons.prems(1) by simp
  have sn: "unat (sc + num_blocks x) = ?S + ?N" using Cons.prems(2) by (simp add: unat_word_ariths unat_num)
  define n' where "n' = (if sc + num_blocks x > e then e - sc else num_blocks x)"
  define u where "u = (if off > sc then off - sc else 0)"
  have n': "unat n' = min ?N (?E - ?S)"
    using Cons.prems(3) unat_sub [of sc e] by (auto simp: n'_def word_less_nat_alt word_le_nat_alt sn unat_num)
  have u: "unat u = ?O - ?S" using unat_sub [of sc off] by (simp add: u_def word_less_nat_alt word_le_nat_alt)
  define found where "found = (if sc + num_blocks x > off then [ExtentForRange (start_block x + u) (n' - u)] else [])"
  have found: "(\<forall>x \<in> set found. addressable x) \<and> flat found = drop (?O - ?S) (take (?E - ?S) [st x..<en x])"
  proof (cases "?S + ?N > ?O")
    case True
    have "[st x + (?O - ?S)..<st x + min ?N (?E - ?S)] = drop (?O - ?S) (take (?E - ?S) [st x..<en x])"
      by (cases "?N \<le> ?E - ?S") (simp_all add: min_def take_upt_append [of _ _ _ "[]", simplified])
    moreover have "?O - ?S \<le> min ?N (?E - ?S)" "min ?N (?E - ?S) \<le> ?N" using True Cons.prems(3,4) by auto
    ultimately show ?thesis using cut_piece [OF x _ _ u n'] True by (simp add: found_def word_less_nat_alt sn)
  qed (simp add: found_def word_less_nat_alt sn)
  have step: "sublist_loop off e sc (x # xs) = (if sc + num_blocks x \<ge> e then found else found @ sublist_loop off e (sc + num_blocks x) xs)"
    by (simp add: Let_def found_def n'_def u_def)
  show ?case
  proof (cases "?E \<le> ?S + ?N")
    case True
    then show ?thesis using found unfolding step by (simp add: word_le_nat_alt sn)
  next
    case False
    have "?S + ?N + count_of xs < 2 ^ 64" using Cons.prems(2) by (simp only: count_of_simps add.assoc)
    then have "(\<forall>y \<in> set (sublist_loop off e (sc + num_blocks x) xs). addressable y) \<and>
      flat (sublist_loop off e (sc + num_blocks x) xs) = drop (?O - (?S + ?N)) (take (?E - (?S + ?N)) (flat xs))"
      using Cons.IH [of "sc + num_blocks x", unfolded sn] Cons.prems(1,4) False by simp
    then show ?thesis using False found unfolding step by (simp add: word_le_nat_alt sn ball_Un)
  qed
qed simp

lemma ExtentsSublist_flat:
  assumes "\<forall>x \<in> set xs. addressable x" "count_of xs < 2 ^ 64" "unat off + unat cnt < 2 ^ 64"
  shows "(\<forall>x \<in> set (ExtentsSublist xs off cnt). addressable x) \<and> flat (ExtentsSublist xs off cnt) = take (unat cnt) (drop (unat off) (flat xs))"
proof (cases "cnt = 0")
  case False
  have "unat (off + cnt) = unat off + unat cnt" using assms(3) by (simp add: unat_word_ariths)
  moreover have "0 < unat cnt" using False by (simp add: unat_gt_0)
  ultimately show ?thesis using sublist_loop_flat [of xs 0 "off + cnt" off] assms False by (simp add: ExtentsSublist_def take_drop add.commute)
qed (simp add: ExtentsSublist_def)

section \<open>Merging neighbours\<close>

definition merged :: "extent list \<Rightarrow> bool" where
  "merged xs \<longleftrightarrow> successively (\<lambda>a b. en a \<noteq> st b) xs"

lemma normalize_loop_flat:
  assumes "\<forall>x \<in> set acc. addressable x" "\<forall>x \<in> set xs. addressable x" "merged acc"
  shows "(\<forall>x \<in> set (normalize_loop acc xs). addressable x) \<and> flat (normalize_loop acc xs) = flat acc @ flat xs \<and> merged (normalize_loop acc xs)"
  using assms
proof (induction xs arbitrary: acc)
  case (Cons cur xs)
  have cur: "addressable cur" using Cons.prems(2) by simp
  show ?case
  proof (cases acc rule: rev_cases)
    case Nil
    then show ?thesis using Cons.IH [of "[cur]"] Cons.prems by (simp add: merged_def)
  next
    case (snoc ys l)
    have l: "addressable l" using Cons.prems(1) snoc by simp
    have touch: "extent_end l = start_block cur \<longleftrightarrow> en l = st cur" by (simp add: word_unat_eq_iff addressable_end [OF l] st_def)
    show ?thesis
    proof (cases "en l = st cur")
      case True
      let ?l = "l\<lparr>num_blocks := num_blocks l + num_blocks cur\<rparr>"
      have "unat (num_blocks l + num_blocks cur) = unat (num_blocks l) + unat (num_blocks cur)"
        using True cur by (simp add: addressable_def en_def st_def unat_word_ariths)
      then have b: "st ?l = st l" "en ?l = en cur" using True by (simp_all add: st_def en_def)
      have "[st l..<en cur] = [st l..<en l] @ [st cur..<en cur]"
        unfolding True [symmetric] by (rule upt_split [OF st_le_en]) (simp add: True)
      then have f: "flat (ys @ [?l]) = flat acc @ flat [cur]" unfolding snoc flat_simps b by simp
      have m: "merged (ys @ [?l])" using Cons.prems(3) b(1) by (simp add: snoc merged_def successively_append_iff)
      have z: "\<forall>x \<in> set (ys @ [?l]). addressable x" "\<forall>x \<in> set xs. addressable x" using Cons.prems(1) Cons.prems(2) snoc b(2) cur by (simp_all add: addressable_def)
      have n: "normalize_loop acc (cur # xs) = normalize_loop (ys @ [?l]) xs" using True touch by (simp add: snoc)
      from Cons.IH [OF z m] show ?thesis unfolding n f by simp
    next
      case False
      then have "merged (acc @ [cur])" using Cons.prems(3) by (simp add: snoc merged_def successively_append_iff)
      moreover have "normalize_loop acc (cur # xs) = normalize_loop (acc @ [cur]) xs" using False touch by (simp add: snoc)
      ultimately show ?thesis using Cons.IH [of "acc @ [cur]"] Cons.prems(1,2) cur by simp
    qed
  qed
qed simp

section \<open>Appending a block\<close>

definition clean :: "extent \<Rightarrow> bool" where
  "clean x \<longleftrightarrow> (if start_block x = kSparseHole then unat (num_blocks x) < 2 ^ 64 - 1 else en x < 2 ^ 64 - 1)"

lemma expand_extent_append:
  assumes "clean x" "(if start_block x = kSparseHole then kSparseHole else extent_end x) = b"
  shows "expand_extent (x\<lparr>num_blocks := num_blocks x + 1\<rparr>) = expand_extent x @ [b]"
proof (cases "start_block x = kSparseHole")
  case True
  then have "unat (num_blocks x + 1) = Suc (unat (num_blocks x))" using assms(1) by (simp add: clean_def unat_word_ariths)
  then show ?thesis using True assms(2) by (simp add: expand_extent_def replicate_append_same)
next
  case False
  then have e: "en x < 2 ^ 64 - 1" and x: "addressable x" using assms(1) by (simp_all add: clean_def addressable_def)
  let ?x = "x\<lparr>num_blocks := num_blocks x + 1\<rparr>"
  have "unat (num_blocks x + 1) = Suc (unat (num_blocks x))" using e by (simp add: en_def unat_word_ariths)
  then have b: "st ?x = st x" "en ?x = Suc (en x)" by (simp_all add: st_def en_def)
  then have "addressable ?x" using e by (simp add: addressable_def)
  moreover have "of_nat (en x) = b" using assms(2) False by (simp add: en_def extent_end_def)
  ultimately show ?thesis using b by (simp add: expand_extent_flat x)
qed

lemma AppendBlockToExtents_expand:
  assumes "\<forall>x \<in> set xs. clean x"
  shows "ExpandExtents (AppendBlockToExtents xs b) = ExpandExtents xs @ [b]"
proof -
  have new: "expand_extent (ExtentForRange b 1) = [b]"
  proof (cases "b = kSparseHole")
    case False
    then have "unat b < 2 ^ 64 - 1" using unat_kSparseHole unat_u64_less [of b] by (metis One_nat_def Suc_pred less_Suc_eq word_unat_eq_iff zero_less_numeral zero_less_power)
    then have "clean (ExtentForRange b 0)" "expand_extent (ExtentForRange b 0) = []" "extent_end (ExtentForRange b 0) = b"
      using False by (simp_all add: clean_def en_def ExtentForRange_def expand_extent_def extent_end_def)
    then show ?thesis using expand_extent_append [of "ExtentForRange b 0" b] False by (simp add: ExtentForRange_def)
  qed (simp add: expand_extent_def ExtentForRange_def)
  show ?thesis
  proof (cases xs rule: rev_cases)
    case Nil
    then show ?thesis by (simp add: AppendBlockToExtents_def ExpandExtents_def new)
  next
    case (snoc ys l)
    then show ?thesis using expand_extent_append [of l b] assms by (simp add: AppendBlockToExtents_def ExpandExtents_def new)
  qed
qed

lemma BlocksInExtents_length:
  assumes "\<forall>x \<in> set xs. clean x" shows "BlocksInExtents xs = of_nat (length (ExpandExtents xs))"
  using assms
proof (induction xs)
  case (Cons x xs)
  have "num_blocks x = of_nat (length (expand_extent x))"
  proof (cases "start_block x = kSparseHole")
    case False
    then have "addressable x" using Cons.prems by (simp add: clean_def addressable_def)
    then show ?thesis by (simp add: expand_extent_flat unat_num [symmetric])
  qed (simp add: expand_extent_def)
  then show ?case using Cons by (simp add: ExpandExtents_def)
qed (simp add: ExpandExtents_def)

end
