(* ===== verification/Ue_Placed.thy ===== *)
theory Ue_Placed
  imports Ue_Writer Ue_Sequences
begin

text \<open>
  Where the bytes of a stream end up on the device.  The hypothesis on the system calls is their documented
  behaviour on a file with room: \<open>lseek64\<close> moves the position, \<open>write\<close> writes a nonempty prefix there.
\<close>

section \<open>Writing everything\<close>

fun put_bytes :: "nat \<Rightarrow> byte list \<Rightarrow> (nat \<Rightarrow> byte) \<Rightarrow> nat \<Rightarrow> byte" where
  "put_bytes a [] c = c"
| "put_bytes a (b # bs) c = put_bytes (Suc a) bs (c(a := b))"

lemma put_bytes_append [simp]: "put_bytes a (xs @ ys) c = put_bytes (a + length xs) ys (put_bytes a xs c)"
  by (induction xs arbitrary: a c) simp_all

definition posix_file :: "'d posix_calls \<Rightarrow> ('d \<Rightarrow> nat) \<Rightarrow> ('d \<Rightarrow> nat \<Rightarrow> byte) \<Rightarrow> bool" where
  "posix_file sys pos content \<longleftrightarrow>
     (\<forall>d off. unat off < 2 ^ 63 \<longrightarrow>
       (\<exists>d'. sys_lseek64 sys d off = (int (unat off), d') \<and> pos d' = unat off \<and> content d' = content d)) \<and>
     (\<forall>d buf. buf \<noteq> [] \<longrightarrow>
       (\<exists>n d'. sys_write sys d buf = (int n, d') \<and> 0 < n \<and> n \<le> length buf \<and>
         pos d' = pos d + n \<and> content d' = put_bytes (pos d) (take n buf) (content d)))"

lemma posix_write:
  assumes "posix_file sys pos content" "buf \<noteq> []"
  obtains n d' where "sys_write sys d buf = (int n, d')" "0 < n" "n \<le> length buf" "pos d' = pos d + n"
    "content d' = put_bytes (pos d) (take n buf) (content d)"
  using assms unfolding posix_file_def by blast

lemma posix_seek:
  assumes "posix_file sys pos content" "unat off < 2 ^ 63"
  obtains d' where "sys_lseek64 sys d off = (int (unat off), d')" "pos d' = unat off" "content d' = content d"
  using assms unfolding posix_file_def by blast

lemma eintr_write_all:
  assumes p: "posix_file sys pos content"
  shows "\<exists>d'. eintr_write_loop sys buf written d = Some (written + int (length buf), d') \<and>
    pos d' = pos d + length buf \<and> content d' = put_bytes (pos d) buf (content d)"
proof (induction buf arbitrary: written d rule: length_induct)
  case (1 buf)
  show ?case
  proof (cases "buf = []")
    case False
    from posix_write [OF p False] obtain n d1 where n: "sys_write sys d buf = (int n, d1)" "0 < n" "n \<le> length buf" "pos d1 = pos d + n"
      "content d1 = put_bytes (pos d) (take n buf) (content d)" .
    obtain d2 where "eintr_write_loop sys (drop n buf) (written + int n) d1 = Some (written + int n + int (length (drop n buf)), d2)"
      "pos d2 = pos d1 + length (drop n buf)" "content d2 = put_bytes (pos d1) (drop n buf) (content d1)"
      using 1 [rule_format, of "drop n buf" "written + int n" d1] n False by auto
    moreover have "put_bytes (pos d) buf (content d) = put_bytes (pos d1) (drop n buf) (content d1)"
      using put_bytes_append [of "pos d" "take n buf" "drop n buf" "content d"] n by simp
    ultimately show ?thesis using n False by (subst eintr_write_loop.simps) simp
  qed (simp add: eintr_write_loop.simps)
qed

lemma WriteAll_writes:
  assumes p: "posix_file sys pos content" and f: "0 \<le> fd_number f"
  obtains f' where "WriteAll sys buf f = Some (True, f')" "fd_number f' = fd_number f" "content (device f') = put_bytes (pos (device f)) buf (content (device f))"
proof (cases "buf = []")
  case True
  then show thesis using that [of f] by (simp add: WriteAll.simps)
next
  case False
  obtain d' where d': "eintr_write_loop sys buf 0 (device f) = Some (int (length buf), d')"
    "content d' = put_bytes (pos (device f)) buf (content (device f))" using eintr_write_all [OF p, of buf 0] by auto
  then have "WriteAll sys buf f = WriteAll sys [] (f\<lparr>device := d'\<rparr>)"
    using f False by (subst WriteAll.simps) (simp add: fd_Write_def)
  then show thesis using that [of "f\<lparr>device := d'\<rparr>"] d' by (simp add: WriteAll.simps)
qed

section \<open>Laying a stream over blocks\<close>

text \<open>Byte \<open>i\<close> of the stream belongs to the \<open>i div B\<close>-th block of the sequence.\<close>

fun laid :: "nat \<Rightarrow> u64 list \<Rightarrow> nat \<Rightarrow> byte list \<Rightarrow> (nat \<Rightarrow> byte) \<Rightarrow> nat \<Rightarrow> byte" where
  "laid B bls i [] c = c"
| "laid B bls i (b # bs) c =
     laid B bls (Suc i) bs (if bls ! (i div B) = kSparseHole then c else c(unat (bls ! (i div B)) * B + i mod B := b))"

lemma laid_append: "laid B bls i (xs @ ys) c = laid B bls (i + length xs) ys (laid B bls i xs c)"
  by (induction xs arbitrary: i c) simp_all

definition placeable :: "nat \<Rightarrow> extent \<Rightarrow> bool" where
  "placeable B x \<longleftrightarrow> 0 < unat (num_blocks x) \<and> unat (num_blocks x) * B < 2 ^ 64 \<and> (start_block x \<noteq> kSparseHole \<longrightarrow> en x * B \<le> 2 ^ 63)"

lemma placeable_addressable: "placeable B x \<Longrightarrow> 0 < B \<Longrightarrow> start_block x \<noteq> kSparseHole \<Longrightarrow> addressable x"
proof -
  assume "placeable B x" "0 < B" "start_block x \<noteq> kSparseHole"
  then have "en x * 1 \<le> en x * B" "en x * B \<le> 2 ^ 63" by (simp_all add: placeable_def)
  moreover have "(2 :: nat) ^ 63 < 2 ^ 64" by simp
  ultimately show "addressable x" unfolding addressable_def by linarith
qed

lemma placeable_expand:
  assumes "placeable B x" "0 < B"
  shows "length (expand_extent x) = unat (num_blocks x)"
    "t < unat (num_blocks x) \<Longrightarrow> expand_extent x ! t = (if start_block x = kSparseHole then kSparseHole else of_nat (st x + t))"
proof -
  have "expand_extent x = (if start_block x = kSparseHole then replicate (unat (num_blocks x)) kSparseHole else map of_nat [st x..<en x])"
  proof (cases "start_block x = kSparseHole")
    case False
    then show ?thesis using expand_extent_flat [OF placeable_addressable [OF assms False]] by simp
  qed (simp add: expand_extent_def)
  then show "length (expand_extent x) = unat (num_blocks x)"
    "t < unat (num_blocks x) \<Longrightarrow> expand_extent x ! t = (if start_block x = kSparseHole then kSparseHole else of_nat (st x + t))"
    by (simp_all add: unat_num)
qed

lemma length_ExpandExtents: "\<forall>x \<in> set xs. placeable B x \<Longrightarrow> 0 < B \<Longrightarrow> length (ExpandExtents xs) = count_of xs"
  by (induction xs) (auto simp: ExpandExtents_def placeable_expand(1) unat_num)

lemma expand_nth:
  assumes "\<forall>x \<in> set xs. placeable B x" "0 < B" "j < length xs" "t < unat (num_blocks (xs ! j))"
  shows "ExpandExtents xs ! (count_of (take j xs) + t) = expand_extent (xs ! j) ! t"
proof -
  have "ExpandExtents xs = ExpandExtents (take j xs) @ expand_extent (xs ! j) @ ExpandExtents (drop (Suc j) xs)"
    by (subst id_take_nth_drop [OF assms(3)]) (simp add: ExpandExtents_def)
  moreover have "length (ExpandExtents (take j xs)) = count_of (take j xs)"
    using assms by (intro length_ExpandExtents) (auto dest: in_set_takeD)
  moreover have "t < length (expand_extent (xs ! j))" using placeable_expand(1) [of B "xs ! j"] assms by simp
  ultimately show ?thesis by (simp add: nth_append)
qed

lemma laid_piece:
  assumes pl: "\<forall>x \<in> set xs. placeable B x" "0 < B" "j < length xs" and n: "e + length bs \<le> unat (num_blocks (xs ! j)) * B"
  shows "laid B (ExpandExtents xs) (B * count_of (take j xs) + e) bs c =
    (if start_block (xs ! j) = kSparseHole then c else put_bytes (st (xs ! j) * B + e) bs c)"
  using n
proof (induction bs arbitrary: e c)
  case (Cons b bs)
  let ?x = "xs ! j" and ?K = "count_of (take j xs)"
  have x: "placeable B ?x" using pl(1,3) by simp
  have "e div B < unat (num_blocks ?x)" using Cons.prems pl(2) by (simp add: div_less_iff_less_mult)
  then have nth: "ExpandExtents xs ! (?K + e div B) = (if start_block ?x = kSparseHole then kSparseHole else of_nat (st ?x + e div B))"
    using expand_nth [OF pl] placeable_expand(2) [OF x pl(2)] by simp
  have d: "(B * ?K + e) div B = ?K + e div B" "(B * ?K + e) mod B = e mod B" using pl(2) by simp_all
  have IH: "laid B (ExpandExtents xs) (B * ?K + Suc e) bs c' = (if start_block ?x = kSparseHole then c' else put_bytes (st ?x * B + Suc e) bs c')" for c'
    using Cons.prems by (intro Cons.IH) simp
  show ?case
  proof (cases "start_block ?x = kSparseHole")
    case True
    then show ?thesis using IH by (simp add: d nth)
  next
    case False
    have "st ?x + e div B < en ?x" using \<open>e div B < _\<close> unat_num [of ?x] by simp
    moreover have "en ?x < 2 ^ 64" using placeable_addressable [OF x pl(2) False] by (simp add: addressable_def)
    ultimately have u: "unat (of_nat (st ?x + e div B) :: u64) = st ?x + e div B"
      by (intro unat_of_nat_small) linarith
    have "unat (of_nat (st ?x + e div B) :: u64) \<noteq> unat kSparseHole"
      unfolding u unat_kSparseHole using \<open>st ?x + e div B < en ?x\<close> \<open>en ?x < 2 ^ 64\<close> by linarith
    then have "(of_nat (st ?x + e div B) :: u64) \<noteq> kSparseHole" by (rule contrapos_nn) (rule arg_cong)
    moreover have "(st ?x + e div B) * B + e mod B = st ?x * B + e" by (simp add: add_mult_distrib)
    ultimately show ?thesis using IH False u by (simp add: d nth)
  qed
qed simp

section \<open>The direct writer\<close>

text \<open>The writer stands at byte \<open>i\<close> of the stream.\<close>

definition stands_at :: "nat \<Rightarrow> extent list \<Rightarrow> nat \<Rightarrow> 'd DirectExtentWriter \<Rightarrow> bool" where
  "stands_at B xs i w \<longleftrightarrow> dw_extents w = xs \<and> unat (dw_block_size w) = B \<and> 0 \<le> fd_number (dw_fd w) \<and>
     next_extent_index w \<le> length xs \<and> i = B * count_of (take (next_extent_index w) xs) + unat (extent_bytes_written w) \<and>
     (if next_extent_index w < length xs then unat (extent_bytes_written w) < unat (num_blocks (xs ! next_extent_index w)) * B
      else extent_bytes_written w = 0)"

lemma stands_inside:
  "stands_at B xs i w \<Longrightarrow> i < B * count_of xs \<Longrightarrow> next_extent_index w < length xs"
  by (auto simp: stands_at_def split: if_splits)

lemma write_piece_laid:
  assumes p: "posix_file sys pos content" and pl: "\<forall>x \<in> set xs. placeable B x" "0 < B" and w: "stands_at B xs i w"
    and j: "next_extent_index w < length xs" and n: "unat (extent_bytes_written w) + length bs \<le> unat (num_blocks (xs ! next_extent_index w)) * B"
  obtains f' where "write_piece sys bs w = Some (True, w\<lparr>dw_fd := f'\<rparr>)" "fd_number f' = fd_number (dw_fd w)"
    "content (device f') = laid B (ExpandExtents xs) i bs (content (device (dw_fd w)))"
proof -
  let ?x = "xs ! next_extent_index w" and ?e = "unat (extent_bytes_written w)" and ?f = "dw_fd w"
  have x: "placeable B ?x" using pl(1) j by simp
  have i: "i = B * count_of (take (next_extent_index w) xs) + ?e" "dw_extents w = xs" "unat (dw_block_size w) = B" "0 \<le> fd_number ?f"
    and e: "?e < unat (num_blocks ?x) * B" using w j by (simp_all add: stands_at_def)
  note laid = laid_piece [OF pl j n, folded i(1)]
  show thesis
  proof (cases "start_block ?x = kSparseHole")
    case True
    then show thesis using that [of ?f] laid i by (simp add: write_piece_def)
  next
    case False
    let ?off = "start_block ?x * dw_block_size w + extent_bytes_written w"
    have "st ?x * B + ?e < en ?x * B" using e by (simp add: en_def st_def add_mult_distrib)
    then have b: "st ?x * B + ?e < 2 ^ 63" using x False by (simp add: placeable_def)
    moreover have "(2 :: nat) ^ 63 < 2 ^ 64" by simp
    ultimately have "st ?x * B + ?e < 2 ^ 64" by linarith
    then have off: "unat ?off = st ?x * B + ?e" by (simp add: unat_word_ariths i st_def)
    then have lt: "unat ?off < 2 ^ 63" using b by simp
    obtain d' where d': "sys_lseek64 sys (device ?f) ?off = (int (unat ?off), d')"
      "pos d' = unat ?off" "content d' = content (device ?f)" by (rule posix_seek [OF p lt])
    have "0 \<le> fd_number (?f\<lparr>device := d'\<rparr>)" using i by simp
    from WriteAll_writes [OF p this, of bs] obtain f' where f': "WriteAll sys bs (?f\<lparr>device := d'\<rparr>) = Some (True, f')"
      "fd_number f' = fd_number ?f" "content (device f') = put_bytes (pos d') bs (content d')" by auto
    have "int (unat ?off) \<noteq> - 1" by linarith
    then have "write_piece sys bs w = Some (True, w\<lparr>dw_fd := f'\<rparr>)"
      using False f'(1) d'(1) i by (simp add: write_piece_def fd_Seek_def Let_def del: of_nat_unat)
    moreover have "content (device f') = laid B (ExpandExtents xs) i bs (content (device ?f))"
      unfolding laid f'(3) d'(2,3) off using False by simp
    ultimately show thesis using f'(2) by (intro that)
  qed
qed

lemma advance_stands:
  assumes w: "stands_at B xs i w" and pl: "\<forall>x \<in> set xs. placeable B x" "0 < B" and j: "next_extent_index w < length xs"
    and r: "r = num_blocks (xs ! next_extent_index w) * dw_block_size w - extent_bytes_written w" and n: "unat n \<le> unat r"
  obtains w' where "advance r n w = Some w'" "stands_at B xs (i + unat n) w'" "dw_fd w' = dw_fd w"
proof -
  let ?x = "xs ! next_extent_index w" and ?e = "unat (extent_bytes_written w)"
  have i: "i = B * count_of (take (next_extent_index w) xs) + ?e" "dw_extents w = xs" "unat (dw_block_size w) = B"
    and e: "?e < unat (num_blocks ?x) * B" using w j by (simp_all add: stands_at_def)
  have x: "placeable B ?x" using pl(1) j by simp
  then have full: "unat (num_blocks ?x * dw_block_size w) = unat (num_blocks ?x) * B"
    by (simp add: placeable_def unat_word_ariths i)
  then have ur: "unat r = unat (num_blocks ?x) * B - ?e"
    unfolding r using e by (subst unat_sub) (simp_all add: word_le_nat_alt)
  have nx: "count_of (take (Suc (next_extent_index w)) xs) = count_of (take (next_extent_index w) xs) + unat (num_blocks ?x)"
    using j by (simp add: take_Suc_conv_app_nth unat_num)
  show thesis
  proof (cases "r = n")
    case True
    let ?w = "w\<lparr>extent_bytes_written := 0, next_extent_index := next_extent_index w + 1\<rparr>"
    have "advance r n w = Some ?w" using r True by (simp add: advance_def Let_def i)
    moreover have "i + unat n = B * count_of (take (Suc (next_extent_index w)) xs)"
      using True [symmetric] ur e by (simp add: i(1) nx add_mult_distrib2)
    moreover have "0 < unat (num_blocks (xs ! Suc (next_extent_index w))) * B" if "Suc (next_extent_index w) < length xs"
      using pl that by (simp add: placeable_def)
    ultimately show thesis using w j that [of ?w] by (simp add: stands_at_def)
  next
    case False
    let ?w = "w\<lparr>extent_bytes_written := extent_bytes_written w + n\<rparr>"
    have "unat n \<noteq> unat r" using False by (metis word_unat_eq_iff)
    then have "?e + unat n < unat (num_blocks ?x) * B" using n ur by linarith
    moreover from this have "unat (extent_bytes_written w + n) = ?e + unat n"
      using x by (simp add: placeable_def unat_word_ariths)
    moreover have "advance r n w = Some ?w" using False by (simp add: advance_def Let_def)
    ultimately show thesis using w j that [of ?w] by (simp add: stands_at_def)
  qed
qed

lemma direct_loop_laid:
  assumes p: "posix_file sys pos content" and pl: "\<forall>x \<in> set xs. placeable B x" "0 < B"
    and "stands_at B xs i w" "i + length bs \<le> B * count_of xs" "length bs < 2 ^ 64"
  shows "\<exists>w'. direct_loop sys bs w = Some (True, w') \<and> stands_at B xs (i + length bs) w' \<and>
    content (device (dw_fd w')) = laid B (ExpandExtents xs) i bs (content (device (dw_fd w)))"
  using assms(4-6)
proof (induction bs arbitrary: i w rule: length_induct)
  case (1 bs)
  show ?case
  proof (cases "bs = []")
    case True
    then show ?thesis using 1 by (subst direct_loop.simps) simp
  next
    case False
    let ?L = "of_nat (length bs) :: u64" and ?x = "xs ! next_extent_index w" and ?e = "unat (extent_bytes_written w)"
    define r where "r = num_blocks ?x * dw_block_size w - extent_bytes_written w"
    define n where "n = min ?L r"
    have uL: "unat ?L = length bs" using 1(4) by (rule unat_of_nat_small)
    then have L: "?L \<noteq> 0" using False by (metis length_0_conv unsigned_0)
    have j: "next_extent_index w < length xs" using stands_inside [OF 1(2)] 1(3) False by (metis add_less_cancel_left add_0_right length_greater_0_conv less_le_trans)
    then have x: "placeable B ?x" and e: "?e < unat (num_blocks ?x) * B" "unat (dw_block_size w) = B" "dw_extents w = xs"
      using 1(2) pl(1) by (simp_all add: stands_at_def)
    have "unat (num_blocks ?x * dw_block_size w) = unat (num_blocks ?x) * B" using x by (simp add: placeable_def unat_word_ariths e)
    then have ur: "unat r = unat (num_blocks ?x) * B - ?e"
      unfolding r_def using e by (subst unat_sub) (simp_all add: word_le_nat_alt)
    have un: "unat n = min (length bs) (unat r)" by (simp add: n_def min_def word_le_nat_alt uL)
    have pos: "0 < unat r" "0 < unat n" using e ur False by (auto simp: un)
    have "?e + length (take (unat n) bs) \<le> unat (num_blocks ?x) * B" using un ur e by simp
    from write_piece_laid [OF p pl 1(2) j this] obtain f' where f': "write_piece sys (take (unat n) bs) w = Some (True, w\<lparr>dw_fd := f'\<rparr>)"
      "fd_number f' = fd_number (dw_fd w)"
      "content (device f') = laid B (ExpandExtents xs) i (take (unat n) bs) (content (device (dw_fd w)))" .
    have w1: "stands_at B xs i (w\<lparr>dw_fd := f'\<rparr>)" using 1(2) f'(2) by (simp add: stands_at_def)
    obtain w2 where w2: "advance r n (w\<lparr>dw_fd := f'\<rparr>) = Some w2" "stands_at B xs (i + unat n) w2" "dw_fd w2 = f'"
      by (rule advance_stands [OF w1 pl, of r n]) (use j un in \<open>simp_all add: r_def\<close>)
    have le: "unat n \<le> length bs" using un by simp
    have smaller: "length (drop (unat n) bs) < length bs" "i + unat n + length (drop (unat n) bs) \<le> B * count_of xs"
      "length (drop (unat n) bs) < 2 ^ 64" using 1(3,4) pos(2) le False unfolding length_drop by linarith+
    obtain w3 where w3: "direct_loop sys (drop (unat n) bs) w2 = Some (True, w3)" "stands_at B xs (i + unat n + length (drop (unat n) bs)) w3"
      "content (device (dw_fd w3)) = laid B (ExpandExtents xs) (i + unat n) (drop (unat n) bs) (content (device f'))"
      using 1(1) [rule_format, of "drop (unat n) bs", OF smaller(1) w2(2) smaller(2,3)] w2(3) by auto
    have "r \<noteq> 0" using pos by auto
    then have "direct_loop sys bs w = direct_loop sys (drop (unat n) bs) w2"
      using L j e f'(1) w2(1) by (subst direct_loop.simps) (simp add: Let_def r_def [symmetric] n_def [symmetric])
    moreover have "laid B (ExpandExtents xs) i bs c = laid B (ExpandExtents xs) (i + unat n) (drop (unat n) bs) (laid B (ExpandExtents xs) i (take (unat n) bs) c)" for c
      using laid_append [of B "ExpandExtents xs" i "take (unat n) bs" "drop (unat n) bs"] le by simp
    ultimately show ?thesis using w3 f'(3) le by simp
  qed
qed

lemma Direct_Write_laid:
  assumes "posix_file sys pos content" "\<forall>x \<in> set xs. placeable B x" "0 < B"
    "stands_at B xs i w" "i + length bs \<le> B * count_of xs" "length bs < 2 ^ 64"
  obtains w' where "Direct_Write sys bs w = Some (True, w')" "stands_at B xs (i + length bs) w'"
    "content (device (dw_fd w')) = laid B (ExpandExtents xs) i bs (content (device (dw_fd w)))"
proof (cases "bs = []")
  case True
  then show thesis using that [of w] assms(4) by (simp add: Direct_Write_def)
next
  case False
  then show thesis using direct_loop_laid [OF assms] that by (auto simp: Direct_Write_def)
qed

section \<open>The padding writer\<close>

definition pads_at :: "nat \<Rightarrow> extent list \<Rightarrow> nat \<Rightarrow> 'd ZeroPadExtentWriter \<Rightarrow> bool" where
  "pads_at B xs i z \<longleftrightarrow> stands_at B xs i (underlying_writer z) \<and> unat (pad_block_size z) = B \<and> unat (bytes_written_mod z) = i mod B"

fun ZeroPad_Writes :: "'d posix_calls \<Rightarrow> byte list list \<Rightarrow> 'd ZeroPadExtentWriter \<Rightarrow> (bool \<times> 'd ZeroPadExtentWriter) option" where
  "ZeroPad_Writes sys [] z = Some (True, z)"
| "ZeroPad_Writes sys (bs # bss) z =
     Option.bind (ZeroPad_Write sys bs z) (\<lambda>(ok, z). if ok then ZeroPad_Writes sys bss z else Some (False, z))"

lemma unat_ucast_u64: "unat (ucast (v :: u32) :: u64) = unat v"
proof -
  have "unat v < 2 ^ 64" using unsigned_less [of v, where 'a = nat] by simp
  then show ?thesis by (simp add: unsigned_ucast_eq take_bit_nat_eq_self_iff)
qed

lemma ZeroPad_Init_pads:
  assumes "unat bsz = B" "0 < B" "0 \<le> fd_number f" "\<forall>x \<in> set xs. placeable B x"
  shows "pads_at B xs 0 (ZeroPad_Init f xs bsz)" "device (dw_fd (underlying_writer (ZeroPad_Init f xs bsz))) = device f"
  using assms by (auto simp: pads_at_def stands_at_def ZeroPad_Init_def Direct_Init_def placeable_def unat_ucast_u64)

lemma ZeroPad_Write_laid:
  assumes p: "posix_file sys pos content" and pl: "\<forall>x \<in> set xs. placeable B x" "0 < B" and tot: "B * count_of xs < 2 ^ 64"
    and z: "pads_at B xs i z" and n: "i + length bs \<le> B * count_of xs"
  obtains z' where "ZeroPad_Write sys bs z = Some (True, z')" "pads_at B xs (i + length bs) z'"
    "content (device (dw_fd (underlying_writer z'))) = laid B (ExpandExtents xs) i bs (content (device (dw_fd (underlying_writer z))))"
proof -
  have st: "stands_at B xs i (underlying_writer z)" and b: "unat (pad_block_size z) = B" and m: "unat (bytes_written_mod z) = i mod B"
    using z by (simp_all add: pads_at_def)
  have lt: "length bs < 2 ^ 64" "i mod B + length bs < 2 ^ 64" using n tot mod_less_eq_dividend [of i B] by linarith+
  obtain w' where w': "Direct_Write sys bs (underlying_writer z) = Some (True, w')" "stands_at B xs (i + length bs) w'"
    "content (device (dw_fd w')) = laid B (ExpandExtents xs) i bs (content (device (dw_fd (underlying_writer z))))"
    by (rule Direct_Write_laid [OF p pl st n lt(1)])
  let ?m = "(bytes_written_mod z + of_nat (length bs)) mod pad_block_size z"
  have "unat (of_nat (length bs) :: u64) = length bs" using lt(1) by (rule unat_of_nat_small)
  then have "unat (bytes_written_mod z + of_nat (length bs)) = i mod B + length bs"
    using lt(2) by (simp add: unat_word_ariths m)
  then have "unat ?m = (i mod B + length bs) mod B" by (simp add: unat_mod_distrib b)
  then have "unat ?m = (i + length bs) mod B" by (simp add: mod_add_left_eq)
  moreover have "pad_block_size z \<noteq> 0" using b pl(2) by auto
  ultimately show thesis using w' b
    by (intro that [of "z\<lparr>underlying_writer := w', bytes_written_mod := ?m\<rparr>"]) (simp_all add: ZeroPad_Write_def pads_at_def)
qed

lemma ZeroPad_Writes_laid:
  assumes p: "posix_file sys pos content" and pl: "\<forall>x \<in> set xs. placeable B x" "0 < B" and tot: "B * count_of xs < 2 ^ 64"
    and "pads_at B xs i z" "i + length (concat bss) \<le> B * count_of xs"
  shows "\<exists>z'. ZeroPad_Writes sys bss z = Some (True, z') \<and> pads_at B xs (i + length (concat bss)) z' \<and>
    content (device (dw_fd (underlying_writer z'))) = laid B (ExpandExtents xs) i (concat bss) (content (device (dw_fd (underlying_writer z))))"
  using assms(5,6)
proof (induction bss arbitrary: i z)
  case (Cons bs bss)
  have "i + length bs \<le> B * count_of xs" using Cons.prems(2) by simp
  from ZeroPad_Write_laid [OF p pl tot Cons.prems(1) this] obtain z' where "ZeroPad_Write sys bs z = Some (True, z')" "pads_at B xs (i + length bs) z'"
    "content (device (dw_fd (underlying_writer z'))) = laid B (ExpandExtents xs) i bs (content (device (dw_fd (underlying_writer z))))" .
  then show ?case using Cons.IH [of "i + length bs" z'] Cons.prems(2) by (simp add: laid_append add.assoc)
qed simp

definition padding :: "nat \<Rightarrow> nat \<Rightarrow> byte list" where
  "padding B n = replicate ((B - n mod B) mod B) 0"

lemma padded_fits:
  assumes "0 < (B :: nat)" "n \<le> B * m"
  shows "n + (B - n mod B) mod B \<le> B * m"
proof (cases "n mod B = 0")
  case False
  have lt: "n mod B < B" using assms(1) by simp
  have "n + (B - n mod B) = B * (n div B + 1)"
    unfolding distrib_left mult_1_right using mult_div_mod_eq [of B n] lt by linarith
  moreover have "n div B < m"
    using assms False by (metis div_less_iff_less_mult le_neq_implies_less mod_mult_self1_is_0 mult.commute)
  then have "B * (n div B + 1) \<le> B * m" by (intro mult_le_mono2) simp
  ultimately show ?thesis using lt False by simp
qed (use assms in simp)

lemma ZeroPad_EndImpl_laid:
  assumes p: "posix_file sys pos content" and pl: "\<forall>x \<in> set xs. placeable B x" "0 < B"
    and z: "pads_at B xs i z" and i: "i \<le> B * count_of xs"
  obtains z' where "ZeroPad_EndImpl sys z = Some (True, z')" "fd_number (dw_fd (underlying_writer z')) \<ge> 0"
    "content (device (dw_fd (underlying_writer z'))) = laid B (ExpandExtents xs) i (padding B i) (content (device (dw_fd (underlying_writer z))))"
proof -
  have st: "stands_at B xs i (underlying_writer z)" and b: "unat (pad_block_size z) = B" and m: "unat (bytes_written_mod z) = i mod B"
    using z by (simp_all add: pads_at_def)
  show thesis
  proof (cases "i mod B = 0")
    case True
    then have "bytes_written_mod z = 0" using m by (simp add: unsigned_eq_0_iff)
    then show thesis using that [of z] True st by (simp add: ZeroPad_EndImpl_def Direct_EndImpl_def padding_def stands_at_def)
  next
    case False
    let ?zs = "replicate (unat (pad_block_size z - bytes_written_mod z)) (0 :: byte)"
    have lt: "i mod B < B" using pl(2) by simp
    have k: "unat (pad_block_size z - bytes_written_mod z) = B - i mod B"
      using lt by (subst unat_sub) (simp_all add: word_le_nat_alt b m)
    then have zs: "?zs = padding B i" using False lt by (simp add: padding_def)
    have "i + length ?zs \<le> B * count_of xs" unfolding length_replicate k using padded_fits [OF pl(2) i] False lt by simp
    moreover have "length ?zs < 2 ^ 64" using unsigned_less [of "pad_block_size z - bytes_written_mod z", where 'a = nat] by simp
    ultimately obtain w' where w': "Direct_Write sys ?zs (underlying_writer z) = Some (True, w')" "stands_at B xs (i + length ?zs) w'"
      "content (device (dw_fd w')) = laid B (ExpandExtents xs) i ?zs (content (device (dw_fd (underlying_writer z))))"
      by (rule Direct_Write_laid [OF p pl st])
    have "bytes_written_mod z \<noteq> 0" using m False by auto
    then show thesis using w' zs
      by (intro that [of "z\<lparr>underlying_writer := w'\<rparr>"]) (simp_all add: ZeroPad_EndImpl_def Direct_EndImpl_def stands_at_def)
  qed
qed

section \<open>Reading the stream back\<close>

definition byte_place :: "nat \<Rightarrow> u64 list \<Rightarrow> nat \<Rightarrow> nat option" where
  "byte_place B bls k = (if bls ! (k div B) = kSparseHole then None else Some (unat (bls ! (k div B)) * B + k mod B))"

definition blocks_differ :: "u64 list \<Rightarrow> bool" where
  "blocks_differ bls \<longleftrightarrow> distinct (filter (\<lambda>b. b \<noteq> kSparseHole) bls)"

lemma blocks_differD:
  "blocks_differ bls \<Longrightarrow> p < length bls \<Longrightarrow> q < length bls \<Longrightarrow> bls ! p \<noteq> kSparseHole \<Longrightarrow> bls ! p = bls ! q \<Longrightarrow> p = q"
proof (induction bls arbitrary: p q)
  case (Cons b bls)
  have "b \<notin> set bls" if "b \<noteq> kSparseHole" using Cons.prems(1) that by (simp add: blocks_differ_def)
  moreover have "blocks_differ bls" using Cons.prems(1) by (simp add: blocks_differ_def split: if_splits)
  ultimately show ?case using Cons.IH [of "p - 1" "q - 1"] Cons.prems(2-5)
    by (cases p; cases q) (auto simp: in_set_conv_nth)
qed simp

lemma byte_place_inj:
  assumes "blocks_differ bls" "0 < B" "k div B < length bls" "k' div B < length bls" "byte_place B bls k = Some a" "byte_place B bls k' = Some a"
  shows "k = k'"
proof -
  have e: "unat (bls ! (k div B)) * B + k mod B = unat (bls ! (k' div B)) * B + k' mod B" "bls ! (k div B) \<noteq> kSparseHole"
    using assms(5,6) by (simp_all add: byte_place_def split: if_splits)
  have "unat (bls ! (k div B)) = unat (bls ! (k' div B))" using arg_cong [OF e(1), of "\<lambda>a. a div B"] assms(2) by simp
  then have "bls ! (k div B) = bls ! (k' div B)" by (metis word_unat_eq_iff)
  then have "k div B = k' div B" by (rule blocks_differD [OF assms(1,3,4) e(2)])
  moreover from this have "k mod B = k' mod B" using e(1) by simp
  ultimately show ?thesis by (metis mult_div_mod_eq)
qed

lemma laid_elsewhere:
  "\<forall>k. i \<le> k \<and> k < i + length bs \<longrightarrow> byte_place B bls k \<noteq> Some a \<Longrightarrow> laid B bls i bs c a = c a"
proof (induction bs arbitrary: i c)
  case (Cons b bs)
  have "byte_place B bls i \<noteq> Some a" using Cons.prems by simp
  moreover have "laid B bls (Suc i) bs c' a = c' a" for c' using Cons.prems by (intro Cons.IH) simp
  ultimately show ?case by (simp add: byte_place_def split: if_splits)
qed simp

lemma laid_there:
  assumes "blocks_differ bls" "0 < B" "i + length bs \<le> B * length bls" "i \<le> k" "k < i + length bs" "byte_place B bls k = Some a"
  shows "laid B bls i bs c a = bs ! (k - i)"
  using assms(3-5)
proof (induction bs arbitrary: i c)
  case (Cons b bs)
  have small: "k' div B < length bls" if "k' < i + length (b # bs)" for k'
    using that Cons.prems(1) assms(2) by (simp add: div_less_iff_less_mult mult.commute)
  show ?case
  proof (cases "k = i")
    case True
    have "byte_place B bls k' \<noteq> Some a" if "Suc i \<le> k'" "k' < Suc i + length bs" for k'
      using byte_place_inj [OF assms(1,2) small small _ assms(6), of k'] that True Cons.prems by auto
    then show ?thesis using True assms(6) by (simp add: laid_elsewhere byte_place_def split: if_splits)
  next
    case False
    then have "laid B bls (Suc i) bs c' a = bs ! (k - Suc i)" for c' using Cons.prems by (intro Cons.IH) auto
    moreover have "k - i = Suc (k - Suc i)" using False Cons.prems(2) by linarith
    ultimately show ?thesis by simp
  qed
qed simp

end
