(* ===== verification/Ue_Theorems.thy ===== *)
theory Ue_Theorems
  imports Ue_Placed
begin

text \<open>
  The theorems about the extents of the update engine: sets of extents as sets of blocks, lists of extents as
  sequences of blocks, and the writers that put a stream of bytes into them.
\<close>

section \<open>Sets of extents\<close>

text \<open>The calls on an \<open>ExtentRanges\<close> object, and what each does to the set of blocks.\<close>

datatype ranges_call =
    CallAddBlock u64
  | CallSubtractBlock u64
  | CallAddExtent extent
  | CallSubtractExtent extent
  | CallAddExtents "extent list"
  | CallSubtractExtents "extent list"
  | CallAddRepeatedExtents "extent list"
  | CallSubtractRepeatedExtents "extent list"
  | CallAddRanges extent_ranges
  | CallSubtractRanges extent_ranges

fun run_call :: "ranges_call \<Rightarrow> extent_ranges \<Rightarrow> extent_ranges option" where
  "run_call (CallAddBlock b) r = AddBlock b r"
| "run_call (CallSubtractBlock b) r = Some (SubtractBlock b r)"
| "run_call (CallAddExtent x) r = AddExtent x r"
| "run_call (CallSubtractExtent x) r = Some (SubtractExtent x r)"
| "run_call (CallAddExtents xs) r = AddExtents xs r"
| "run_call (CallSubtractExtents xs) r = Some (SubtractExtents xs r)"
| "run_call (CallAddRepeatedExtents xs) r = AddRepeatedExtents xs r"
| "run_call (CallSubtractRepeatedExtents xs) r = Some (SubtractRepeatedExtents xs r)"
| "run_call (CallAddRanges q) r = AddRanges q r"
| "run_call (CallSubtractRanges q) r = Some (SubtractRanges q r)"

fun run_calls :: "ranges_call list \<Rightarrow> extent_ranges \<Rightarrow> extent_ranges option" where
  "run_calls [] r = Some r"
| "run_calls (c # cs) r = Option.bind (run_call c r) (run_calls cs)"

fun call_fits :: "ranges_call \<Rightarrow> bool" where
  "call_fits (CallAddExtent x) = fits x"
| "call_fits (CallSubtractExtent x) = fits x"
| "call_fits (CallAddExtents xs) = list_all fits xs"
| "call_fits (CallSubtractExtents xs) = list_all fits xs"
| "call_fits (CallAddRepeatedExtents xs) = list_all fits xs"
| "call_fits (CallSubtractRepeatedExtents xs) = list_all fits xs"
| "call_fits (CallAddRanges q) = ranges_ok q"
| "call_fits (CallSubtractRanges q) = ranges_ok q"
| "call_fits (CallAddBlock b) = True"
| "call_fits (CallSubtractBlock b) = True"

definition covered_by :: "extent list \<Rightarrow> nat set" where
  "covered_by xs = (\<Union>x \<in> set xs. covered x)"

fun call_on_sets :: "ranges_call \<Rightarrow> nat set \<Rightarrow> nat set" where
  "call_on_sets (CallAddBlock b) S = S \<union> (if b = kSparseHole then {} else {unat b})"
| "call_on_sets (CallSubtractBlock b) S = S - (if b = kSparseHole then {} else {unat b})"
| "call_on_sets (CallAddExtent x) S = S \<union> covered x"
| "call_on_sets (CallSubtractExtent x) S = S - covered x"
| "call_on_sets (CallAddExtents xs) S = S \<union> covered_by xs"
| "call_on_sets (CallSubtractExtents xs) S = S - covered_by xs"
| "call_on_sets (CallAddRepeatedExtents xs) S = S \<union> covered_by xs"
| "call_on_sets (CallSubtractRepeatedExtents xs) S = S - covered_by xs"
| "call_on_sets (CallAddRanges q) S = S \<union> block_set q"
| "call_on_sets (CallSubtractRanges q) S = S - block_set q"

lemma AddExtents_sets:
  "ranges_ok r \<Longrightarrow> list_all fits xs \<Longrightarrow> \<exists>r'. AddExtents xs r = Some r' \<and> ranges_ok r' \<and> block_set r' = block_set r \<union> covered_by xs"
  unfolding covered_by_def by (rule ranges.add_list) (simp_all add: list_all_iff)

lemma SubtractExtents_sets:
  "ranges_ok r \<Longrightarrow> list_all fits xs \<Longrightarrow> ranges_ok (SubtractExtents xs r) \<and> block_set (SubtractExtents xs r) = block_set r - covered_by xs"
  unfolding covered_by_def by (rule ranges.sub_list) (simp_all add: list_all_iff)

lemma one_block: "fits (ExtentForRange b 1) \<and> covered (ExtentForRange b 1) = (if b = kSparseHole then {} else {unat b})"
proof (cases "b = kSparseHole")
  case True
  then show ?thesis by (simp add: fits_def covered_def ignored_def ExtentForRange_def)
next
  case False
  then have "unat b \<noteq> 2 ^ 64 - 1" using unat_kSparseHole by (metis word_unat_eq_iff)
  then have "unat b + 1 < 2 ^ 64" using unat_u64_less [of b] by linarith
  then show ?thesis using False by (auto simp: fits_def covered_def ignored_def blocks_of_def st_def en_def ExtentForRange_def)
qed

lemma ranges_args: "ranges_ok q \<Longrightarrow> list_all fits (extent_set q) \<and> covered_by (extent_set q) = block_set q"
  using separated_covered [of "extent_set q"] by (simp add: ranges_ok_def list_all_iff covered_by_def block_set_def)

lemma run_call_sets:
  assumes "ranges_ok r" "call_fits c"
  shows "\<exists>r'. run_call c r = Some r' \<and> ranges_ok r' \<and> block_set r' = call_on_sets c (block_set r)"
proof -
  note r = assms(1)
  have block: "\<exists>r'. AddBlock b r = Some r' \<and> ranges_ok r' \<and> block_set r' = call_on_sets (CallAddBlock b) (block_set r)" for b
    using ranges.add_union [OF r, of "ExtentForRange b 1"] one_block [of b] by (simp only: AddBlock_def call_on_sets.simps)
  have add: "\<exists>r'. AddRanges q r = Some r' \<and> ranges_ok r' \<and> block_set r' = block_set r \<union> block_set q" if "ranges_ok q" for q
    using AddExtents_sets [OF r, of "extent_set q"] ranges_args [OF that] by (simp add: AddRanges_def)
  show ?thesis
    using assms(2) AddExtents_sets [OF r] SubtractExtents_sets [OF r] ranges.add_union [OF r] ranges.sub_diff [OF r] one_block ranges_args block add
    by (cases c) (simp_all only: run_call.simps call_fits.simps call_on_sets.simps option.inject ex_simps simp_thms
      SubtractBlock_def AddRepeatedExtents_def SubtractRepeatedExtents_def SubtractRanges_def)
qed

lemma run_calls_sets:
  "ranges_ok r \<Longrightarrow> list_all call_fits cs \<Longrightarrow>
    \<exists>r'. run_calls cs r = Some r' \<and> ranges_ok r' \<and> block_set r' = fold call_on_sets cs (block_set r)"
proof (induction cs arbitrary: r)
  case (Cons c cs)
  then obtain r1 where "run_call c r = Some r1" "ranges_ok r1" "block_set r1 = call_on_sets c (block_set r)"
    using run_call_sets [of r c] by auto
  then show ?case using Cons.IH [of r1] Cons.prems(2) by auto
qed simp

lemma new_ranges: "ranges_ok new_ExtentRanges \<and> block_set new_ExtentRanges = {}"
  by (simp add: new_ExtentRanges_def ranges_ok_def block_set_def separated_def)

lemma ranges_card: "ranges_ok r \<Longrightarrow> unat (blocks r) = card (block_set r)"
  using card_union_of [of "extent_set r"] count_of_less [of "extent_set r"]
  by (simp add: ranges_ok_def block_set_def unat_of_nat_small)

text \<open>
  C14: Every sequence of calls on a new \<open>ExtentRanges\<close> object whose extents end below \<open>2\<^sup>6\<^sup>4\<close> completes (no CHECK
  fails), and computes with sets of blocks: the extents kept are sorted, nonempty, pairwise disjoint and not even
  touching, their blocks are the union and difference of what was added and subtracted, \<open>blocks_\<close> is the number of
  blocks, and \<open>ContainsBlock\<close> decides membership.
\<close>
theorem extent_ranges_are_block_sets:
  assumes "list_all call_fits cs"
  shows "\<exists>r. run_calls cs new_ExtentRanges = Some r \<and> separated (extent_set r) \<and>
    union_of (extent_set r) = fold call_on_sets cs {} \<and> unat (blocks r) = card (fold call_on_sets cs {}) \<and>
    (\<forall>b. b \<noteq> kSparseHole \<longrightarrow> ContainsBlock b r = Some (unat b \<in> fold call_on_sets cs {}))"
proof -
  obtain r where r: "run_calls cs new_ExtentRanges = Some r" "ranges_ok r" "block_set r = fold call_on_sets cs {}"
    using run_calls_sets [OF _ assms, of new_ExtentRanges] new_ranges by auto
  then show ?thesis using ranges_card [OF r(2)] ContainsBlock_member [OF r(2)]
    by (intro exI [of _ r]) (simp add: ranges_ok_def block_set_def)
qed

text \<open>A run that exercises union, difference and lookup.\<close>
theorem extent_ranges_are_block_sets_witness:
  "\<exists>r. run_calls [CallAddExtent (ExtentForRange 0 4), CallSubtractBlock 1, CallAddBlock 9] new_ExtentRanges = Some r \<and>
    ContainsBlock 9 r = Some True \<and> ContainsBlock 1 r = Some False"
proof -
  have "list_all call_fits [CallAddExtent (ExtentForRange 0 4), CallSubtractBlock 1, CallAddBlock 9]"
    by (simp add: fits_def en_def ExtentForRange_def)
  from extent_ranges_are_block_sets [OF this] obtain r where
    "run_calls [CallAddExtent (ExtentForRange 0 4), CallSubtractBlock 1, CallAddBlock 9] new_ExtentRanges = Some r"
    "\<forall>b. b \<noteq> kSparseHole \<longrightarrow> ContainsBlock b r =
      Some (unat b \<in> fold call_on_sets [CallAddExtent (ExtentForRange 0 4), CallSubtractBlock 1, CallAddBlock 9] {})" by blast
  then show ?thesis by (simp add: kSparseHole_def)
qed

section \<open>Lists of extents\<close>

lemma expand_filter:
  assumes "\<forall>x \<in> set xs. addressable x" "\<forall>y \<in> set ys. addressable y" "flat ys = filter P (flat xs)"
  shows "ExpandExtents ys = filter (\<lambda>b. P (unat b)) (ExpandExtents xs)"
proof -
  have "map of_nat (filter P (flat xs)) = filter (\<lambda>b. P (unat b)) (map of_nat (flat xs) :: u64 list)"
    unfolding filter_map using flat_bound [OF assms(1)] by (intro arg_cong [of _ _ "map of_nat"] filter_cong) (simp_all add: unat_of_nat_small)
  then show ?thesis by (simp add: ExpandExtents_flat [OF assms(1)] ExpandExtents_flat [OF assms(2)] assms(3))
qed

text \<open>
  C23: Filtering a list of extents by a set of extents removes exactly the blocks of the set and keeps the order of
  the others, also where one extent of the list meets several of the set, and returns only nonempty extents.  Every extent of
  the list ends below \<open>2\<^sup>6\<^sup>4\<close> (\<open>addressable\<close>), so none is a sparse hole, and the set is one that \<open>ExtentRanges\<close> keeps.
\<close>
theorem FilterExtentRanges_filters:
  assumes "\<forall>x \<in> set xs. addressable x" "ranges_ok r"
  shows "\<exists>ys. FilterExtentRanges xs r = Some ys \<and> (\<forall>y \<in> set ys. proper y) \<and>
    ExpandExtents ys = filter (\<lambda>b. unat b \<notin> block_set r) (ExpandExtents xs)"
proof -
  obtain ps where ps: "filter_extents r xs [] = Some ps" "\<forall>p \<in> set ps. proper p" "flat ps = filter (\<lambda>k. k \<notin> block_set r) (flat xs)"
    using filter_extents_flat [OF assms(2,1), of "[]"] by auto
  then show ?thesis using expand_filter [OF assms(1) _ ps(3)] by (auto simp: FilterExtentRanges_def proper_addressable)
qed

theorem FilterExtentRanges_filters_witness:
  "\<exists>ys. FilterExtentRanges [ExtentForRange 5 4, ExtentForRange 0 2] \<lparr>extent_set = [ExtentForRange 1 5], blocks = 5\<rparr> = Some ys \<and>
    ExpandExtents ys = [6, 7, 8, 0]"
proof -
  have "\<forall>x \<in> set [ExtentForRange 5 4, ExtentForRange 0 2]. addressable x" by (simp add: addressable_def en_def ExtentForRange_def)
  moreover have "ranges_ok \<lparr>extent_set = [ExtentForRange 1 5], blocks = 5\<rparr>"
    by (simp add: ranges_ok_def separated_def proper_def st_def en_def ExtentForRange_def)
  moreover have "block_set \<lparr>extent_set = [ExtentForRange 1 5], blocks = 5\<rparr> = {1..<6}"
    by (simp add: block_set_def blocks_of_def st_def en_def ExtentForRange_def)
  moreover have "ExpandExtents [ExtentForRange 5 4, ExtentForRange 0 2] = [5, 6, 7, 8, 0, 1]"
    by (simp add: ExpandExtents_def expand_extent_def kSparseHole_def extent_end_def ExtentForRange_def upt_rec)
  ultimately show ?thesis using FilterExtentRanges_filters [of "[ExtentForRange 5 4, ExtentForRange 0 2]"] by fastforce
qed

text \<open>
  C25: On lists of extents that end below \<open>2\<^sup>6\<^sup>4\<close>: \<open>ExtentsSublist\<close> selects the asked blocks of the sequence,
  \<open>NormalizeExtents\<close> keeps the sequence and leaves no extent ending where the next one starts, and
  \<open>GetExtentsForBlockCount\<close> returns the first blocks of a set, or stops at its CHECK when there are too few.
\<close>
theorem extent_lists_are_block_sequences:
  assumes "\<forall>x \<in> set xs. addressable x" "count_of xs < 2 ^ 64" "unat off + unat cnt < 2 ^ 64" "ranges_ok r"
  shows "ExpandExtents (ExtentsSublist xs off cnt) = take (unat cnt) (drop (unat off) (ExpandExtents xs)) \<and>
    (ExpandExtents (NormalizeExtents xs) = ExpandExtents xs \<and> merged (NormalizeExtents xs)) \<and>
    (if unat cnt \<le> card (block_set r)
      then \<exists>ys. GetExtentsForBlockCount cnt r = Some ys \<and> ExpandExtents ys = take (unat cnt) (ExpandExtents (extent_set r))
      else GetExtentsForBlockCount cnt r = None)"
proof (intro conjI)
  show "ExpandExtents (ExtentsSublist xs off cnt) = take (unat cnt) (drop (unat off) (ExpandExtents xs))"
    using ExtentsSublist_flat [OF assms(1-3)] assms(1) by (simp add: ExpandExtents_flat take_map drop_map)
  show "ExpandExtents (NormalizeExtents xs) = ExpandExtents xs" "merged (NormalizeExtents xs)"
    using normalize_loop_flat [of "[]" xs] assms(1) by (simp_all add: NormalizeExtents_def ExpandExtents_flat merged_def)
  have c: "cnt \<le> blocks r \<longleftrightarrow> unat cnt \<le> card (block_set r)" using ranges_card [OF assms(4)] by (simp add: word_le_nat_alt)
  show "if unat cnt \<le> card (block_set r)
    then \<exists>ys. GetExtentsForBlockCount cnt r = Some ys \<and> ExpandExtents ys = take (unat cnt) (ExpandExtents (extent_set r))
    else GetExtentsForBlockCount cnt r = None"
  proof (cases "cnt \<le> blocks r")
    case True
    then obtain ps where ps: "GetExtentsForBlockCount cnt r = Some ps" "\<forall>p \<in> set ps. addressable p" "flat ps = take (unat cnt) (flat (extent_set r))"
      using GetExtentsForBlockCount_take [OF assms(4) True] by (auto simp: proper_addressable)
    have "\<forall>x \<in> set (extent_set r). addressable x" using assms(4) by (auto simp: ranges_ok_def separated_def proper_addressable)
    then show ?thesis using ps c True by (simp add: ExpandExtents_flat take_map)
  next
    case False
    then have "cnt \<noteq> 0" by auto
    then show ?thesis using False c by (simp add: GetExtentsForBlockCount_def)
  qed
qed

theorem extent_lists_are_block_sequences_witness:
  "ExpandExtents (ExtentsSublist [ExtentForRange 5 4, ExtentForRange 9 2] 3 2) = [8, 9] \<and>
   ExpandExtents (NormalizeExtents [ExtentForRange 5 4, ExtentForRange 9 2]) = [5, 6, 7, 8, 9, 10] \<and>
   (\<exists>ys. GetExtentsForBlockCount 2 \<lparr>extent_set = [ExtentForRange 1 5], blocks = 5\<rparr> = Some ys \<and> ExpandExtents ys = [1, 2])"
proof -
  have "\<forall>x \<in> set [ExtentForRange 5 4, ExtentForRange 9 2]. addressable x" "count_of [ExtentForRange 5 4, ExtentForRange 9 2] < 2 ^ 64"
    by (simp_all add: addressable_def st_def en_def ExtentForRange_def)
  moreover have "unat (3 :: u64) + unat (2 :: u64) < 2 ^ 64" by simp
  moreover have "ranges_ok \<lparr>extent_set = [ExtentForRange 1 5], blocks = 5\<rparr>"
    by (simp add: ranges_ok_def separated_def proper_def st_def en_def ExtentForRange_def)
  moreover have "block_set \<lparr>extent_set = [ExtentForRange 1 5], blocks = 5\<rparr> = {1..<6}"
    by (simp add: block_set_def blocks_of_def st_def en_def ExtentForRange_def)
  moreover have "ExpandExtents [ExtentForRange 5 4, ExtentForRange 9 2] = [5, 6, 7, 8, 9, 10]" "ExpandExtents [ExtentForRange 1 5] = [1, 2, 3, 4, 5]"
    by (simp_all add: ExpandExtents_def expand_extent_def kSparseHole_def extent_end_def ExtentForRange_def upt_rec)
  ultimately show ?thesis
    using extent_lists_are_block_sequences [of "[ExtentForRange 5 4, ExtentForRange 9 2]" 3 2 "\<lparr>extent_set = [ExtentForRange 1 5], blocks = 5\<rparr>"]
    by (simp add: take_Suc_conv_app_nth)
qed

text \<open>A sparse hole whose start and length wrap to the start of the next extent is merged with it, which loses the blocks.\<close>

lemma NormalizeExtents_merges_sparse_hole:
  "NormalizeExtents [ExtentForRange kSparseHole 1, ExtentForRange 0 3] = [ExtentForRange kSparseHole 4]"
  by (simp add: NormalizeExtents_def extent_end_def ExtentForRange_def kSparseHole_def)

section \<open>Writing into extents\<close>

text \<open>
  C15: A stream written in any number of pieces through \<open>ZeroPadExtentWriter\<close> over \<open>DirectExtentWriter\<close> arrives where
  the extents say: every call succeeds, byte \<open>k\<close> of the stream, padded with zeros to whole blocks, is at offset
  \<open>k mod B\<close> of the \<open>k div B\<close>-th block of the extents unless that block is a sparse hole, and no other byte of the
  device changes.  The system calls may write less than they are asked to.
\<close>
theorem extent_writer_places_stream:
  assumes "posix_file sys pos content" "0 \<le> fd_number f" "0 < unat bsz" "\<forall>x \<in> set xs. placeable (unat bsz) x"
    "unat bsz * count_of xs < 2 ^ 64" "length (concat bss) \<le> unat bsz * count_of xs" "blocks_differ (ExpandExtents xs)"
  shows "\<exists>z z'. ZeroPad_Writes sys bss (ZeroPad_Init f xs bsz) = Some (True, z) \<and> ZeroPad_EndImpl sys z = Some (True, z') \<and>
    (let D = concat bss @ padding (unat bsz) (length (concat bss)); place = byte_place (unat bsz) (ExpandExtents xs);
         new = content (device (dw_fd (underlying_writer z'))) in
     (\<forall>k < length D. \<forall>a. place k = Some a \<longrightarrow> new a = D ! k) \<and>
     (\<forall>a. (\<forall>k < length D. place k \<noteq> Some a) \<longrightarrow> new a = content (device f) a))"
proof -
  let ?B = "unat bsz" and ?bl = "ExpandExtents xs" and ?n = "length (concat bss)"
  define D where "D = concat bss @ padding ?B ?n"
  note init = ZeroPad_Init_pads [OF refl assms(3,2,4)]
  obtain z where z: "ZeroPad_Writes sys bss (ZeroPad_Init f xs bsz) = Some (True, z)" "pads_at ?B xs ?n z"
    "content (device (dw_fd (underlying_writer z))) = laid ?B ?bl 0 (concat bss) (content (device f))"
    using ZeroPad_Writes_laid [OF assms(1,4,3,5) init(1)] assms(6) init(2) by auto
  obtain z' where z': "ZeroPad_EndImpl sys z = Some (True, z')"
    "content (device (dw_fd (underlying_writer z'))) = laid ?B ?bl ?n (padding ?B ?n) (content (device (dw_fd (underlying_writer z))))"
    by (rule ZeroPad_EndImpl_laid [OF assms(1,4,3) z(2) assms(6)])
  have new: "content (device (dw_fd (underlying_writer z'))) = laid ?B ?bl 0 D (content (device f))"
    unfolding z' z D_def using laid_append [of ?B ?bl 0 "concat bss" "padding ?B ?n"] by simp
  have fit: "length D \<le> ?B * length ?bl"
    unfolding D_def length_ExpandExtents [OF assms(4,3)] using padded_fits [OF assms(3,6)] by (simp add: padding_def)
  have "laid ?B ?bl 0 D c a = D ! k" if "k < length D" "byte_place ?B ?bl k = Some a" for c k a
    using laid_there [OF assms(7,3) _ _ _ that(2), of 0 D] fit that(1) by simp
  moreover have "laid ?B ?bl 0 D c a = c a" if "\<forall>k < length D. byte_place ?B ?bl k \<noteq> Some a" for c a
    using that by (intro laid_elsewhere) simp
  ultimately show ?thesis using z(1) z'(1) unfolding Let_def D_def [symmetric] new [symmetric]
    by (intro exI [of _ z] exI [of _ z']) (simp add: new)
qed

text \<open>A device whose \<open>write\<close> takes at most two bytes at a time.\<close>

definition slow_device :: "(nat \<times> (nat \<Rightarrow> byte)) posix_calls" where
  "slow_device = \<lparr>sys_lseek64 = (\<lambda>d off. (int (unat off), (unat off, snd d))),
     sys_write = (\<lambda>d buf. (int (min 2 (length buf)), (fst d + min 2 (length buf), put_bytes (fst d) (take 2 buf) (snd d))))\<rparr>"

lemma slow_device_posix: "posix_file slow_device fst snd"
  unfolding posix_file_def
proof (intro conjI allI impI)
  fix d :: "nat \<times> (nat \<Rightarrow> byte)" and buf :: "byte list"
  assume "buf \<noteq> []"
  moreover have "take (min 2 (length buf)) buf = take 2 buf" by (simp add: min_def)
  ultimately show "\<exists>n d'. sys_write slow_device d buf = (int n, d') \<and> 0 < n \<and> n \<le> length buf \<and> fst d' = fst d + n \<and>
      snd d' = put_bytes (fst d) (take n buf) (snd d)"
    by (intro exI [of _ "min 2 (length buf)"]) (simp add: slow_device_def)
qed (simp add: slow_device_def)

theorem extent_writer_places_stream_witness:
  "\<exists>z z'. ZeroPad_Writes slow_device [[1, 2], [3, 4, 5]] (ZeroPad_Init \<lparr>fd_number = 3, device = (0, \<lambda>_. 7)\<rparr>
      [ExtentForRange 3 1, ExtentForRange kSparseHole 1, ExtentForRange 0 1] 4) = Some (True, z) \<and>
    ZeroPad_EndImpl slow_device z = Some (True, z') \<and> snd (device (dw_fd (underlying_writer z'))) 15 = 4"
proof -
  let ?f = "\<lparr>fd_number = 3, device = (0, \<lambda>_. 7)\<rparr> :: (nat \<times> (nat \<Rightarrow> byte)) EintrSafeFileDescriptor"
  let ?xs = "[ExtentForRange 3 1, ExtentForRange kSparseHole 1, ExtentForRange 0 1]" and ?bss = "[[1, 2], [3, 4, 5]] :: byte list list"
  have ex: "ExpandExtents ?xs = [3, kSparseHole, 0]"
    by (simp add: ExpandExtents_def expand_extent_def kSparseHole_def extent_end_def ExtentForRange_def upt_rec)
  have "0 \<le> fd_number ?f" "0 < unat (4 :: u32)" "\<forall>x \<in> set ?xs. placeable (unat (4 :: u32)) x" "unat (4 :: u32) * count_of ?xs < 2 ^ 64"
    "length (concat ?bss) \<le> unat (4 :: u32) * count_of ?xs" "blocks_differ (ExpandExtents ?xs)"
    unfolding ex by (simp_all add: placeable_def st_def en_def ExtentForRange_def blocks_differ_def kSparseHole_def)
  from extent_writer_places_stream [OF slow_device_posix this] obtain z z' where
    "ZeroPad_Writes slow_device ?bss (ZeroPad_Init ?f ?xs 4) = Some (True, z)" "ZeroPad_EndImpl slow_device z = Some (True, z')"
    "\<forall>k < length (concat ?bss @ padding (unat (4 :: u32)) (length (concat ?bss))). \<forall>a. byte_place (unat (4 :: u32)) (ExpandExtents ?xs) k = Some a \<longrightarrow>
      snd (device (dw_fd (underlying_writer z'))) a = (concat ?bss @ padding (unat (4 :: u32)) (length (concat ?bss))) ! k"
    unfolding Let_def by blast
  moreover have "byte_place (unat (4 :: u32)) (ExpandExtents ?xs) 3 = Some 15" unfolding ex by (simp add: byte_place_def kSparseHole_def)
  moreover have "3 < length (concat ?bss @ padding (unat (4 :: u32)) (length (concat ?bss)))" by simp
  ultimately have "snd (device (dw_fd (underlying_writer z'))) 15 = (concat ?bss @ padding (unat (4 :: u32)) (length (concat ?bss))) ! 3" by blast
  then show ?thesis using \<open>ZeroPad_Writes _ _ _ = _\<close> \<open>ZeroPad_EndImpl _ _ = _\<close> by (intro exI [of _ z] exI [of _ z']) simp
qed

end
