(* ===== verification/Spec2Isabelle.thy ===== *)
theory Spec2Isabelle
  imports Ks_Theorems Nvram_Theorems Gk_Theorems Km_Theorems Km_SetTheorems Km_OpTheorems Km_MsgTheorems Fmq_Theorems Ue_Theorems
begin

text \<open>
  Verification of the trusted storage, key, transport and update services of the Android \<open>system\<close> tree.

  \<^bold>\<open>The program.\<close> The sources under \<open>src/\<close> are the native services of an Android release. The parts modelled
  here are those on which the security of stored secrets rests, the message queue between HAL processes and the
  placement of an update on the disk:
  \<^item> \<open>nvram\<close>, access-controlled non-volatile spaces: \<open>messages/\<close> is the wire format of requests and
    responses, \<open>core/persistence.cpp\<close> the format of the stored header and spaces, \<open>core/nvram_manager.cpp\<close>
    the manager that executes requests, and \<open>hal/memory_storage.cpp\<close> a storage layer in memory.
  \<^item> \<open>gatekeeper\<close>, verification of the device password: \<open>gatekeeper_messages.cpp\<close> is its wire format,
    \<open>gatekeeper.cpp\<close> enrolls and verifies passwords, limits the rate of guesses and mints authentication
    tokens, and \<open>core/gatekeeperd\<close> has the software implementation of its virtual functions.
  \<^item> \<open>keymaster\<close>, use of keys under their authorizations: \<open>serializable.cpp\<close> and \<open>authorization_set.cpp\<close> are
    buffers and sets of tagged parameters, \<open>android_keymaster_messages.cpp\<close> the wire format,
    \<open>keymaster_enforcement.cpp\<close> decides whether a key may be used, and \<open>android_keymaster.cpp\<close> executes the commands
    with a table of the operations in progress.
  \<^item> \<open>security/keystore\<close>, the daemon between applications and keymaster: \<open>auth_token_table.cpp\<close> keeps the tokens received
    and finds the one that authorizes an operation, \<open>operation.cpp\<close> keeps the operations of the applications.
  \<^item> \<open>libfmq\<close>, queues of fixed-size messages in shared memory: \<open>MQDescriptor.h\<close> of \<open>libhidl\<close> describes the memory,
    \<open>MessageQueue.h\<close> reads and writes it without locks, in a synchronized and an unsynchronized flavor.
  \<^item> \<open>update_engine\<close>, where an update goes: \<open>payload_generator/extent_ranges.cc\<close> and \<open>extent_utils.cc\<close> compute with
    sets and lists of extents, \<open>payload_consumer/extent_writer.cc\<close> writes a stream of bytes into extents.
  A client sends a request as bytes; the manager or device decodes it, checks rights, changes its state and
  what it stores, and answers. Gatekeeper and keymaster meet in the authentication token, which the first
  mints after a password was verified and the second demands before a key is used; \<open>password_unlocks_operation\<close>
  below follows one token from the password to the finished operation.

  \<^bold>\<open>Conventions.\<close> A function of the source is a function of the same name on explicit state; classes are
  records, virtual functions records of functions. \<^term>\<open>None\<close> as the result of an operation is a failed
  check or assertion, an access outside a block or another undefined behaviour; error codes are values.
  Machine integers are words where they can wrap around. Memory allocation is the parameter \<open>allocator\<close>:
  which sizes are granted and what fresh memory holds. Whether a request is granted depends on its size only, so that
  two requests of the same size have the same outcome, within a call and throughout a run; only in \<open>Dispatch_all\<close> every
  request comes with an allocator of its own. Theorems that need every request granted say so (\<open>alloc_total\<close>, also as part of \<open>env_ok\<close>,
  \<open>msg_good\<close>). What the sources take from outside (BoringSSL, hardware headers, the C library, the platform) are
  parameters with their documented laws as named predicates (\<open>lib_ok\<close>, \<open>hw_ok\<close>, \<open>defs_ok\<close>, \<open>consts_ok\<close>,
  \<open>tags_ok\<close>, \<open>clock_ok\<close>, \<open>factories_ok\<close>, \<open>keys_ok\<close>, \<open>posix_file\<close>), each shown to hold of an instance. Null output pointers are not modelled, except the buffer of the
  message queue's \<open>copyFrom\<close> and \<open>read\<close>.

  \<^bold>\<open>Shared theories.\<close> \<open>Sys_Prelude\<close>: types, blocks of memory, allocation, and lemmas on lists and words.
  \<open>Sys_Bytes\<close>: integers as bytes. \<open>Hw_Token\<close>: the authentication token.

  \<^bold>\<open>Nvram.\<close>
  \<^item> \<open>Nvram_Containers\<close>: \<open>Blob\<close> and \<open>Vector\<close>. \<open>Nvram_Io\<close>, \<open>Nvram_Codec\<close>: streams, the protobuf reader and
    writer, and the codecs of fields (\<open>io.cpp\<close>, \<open>message_codec.h\<close>). \<open>Nvram_Wire\<close>, \<open>Nvram_Roundtrip\<close>,
    \<open>Nvram_Tables\<close>: what is written is read back, and reading is safe on any bytes, for one field and for whole
    descriptor tables. The decoding loop has the number of remaining bytes as fuel; each turn consumes one.
  \<^item> \<open>Nvram_Messages\<close> (\<open>nvram_messages.cpp\<close>) and \<open>Nvram_Persistence\<close> (\<open>persistence.cpp\<close>): the messages and the
    stored objects with their round trips.
  \<^item> \<open>Nvram_Manager\<close>: \<open>NvramManager\<close>, every request and \<open>Dispatch\<close>. \<open>Nvram_Access\<close>: over sequences of
    requests it never leaves \<open>spaces_\<close>, as long as the storage layer does not fail deletions.
    \<open>Nvram_Spec\<close>: an abstract manager over a medium, with crashes between writes. \<open>Nvram_Refine\<close>: the manager
    over any storage layer that keeps its contract takes only steps of it. \<open>Nvram_Storage\<close>: the layer in memory.
  \<^item> \<open>Nvram_Theorems\<close>: the properties.

  \<^bold>\<open>Gatekeeper.\<close>
  \<^item> \<open>Gk_Messages\<close>, \<open>Gk_Core\<close>, \<open>Gk_Soft\<close>: the messages, \<open>class GateKeeper\<close>, and \<open>SoftGateKeeper\<close> with its device.
  \<^item> \<open>Gk_Throttle\<close>: the table of timeouts, and the rate of guesses, over runs of any requests with one handle
    and of any requests of other users, for any store of failure records that keeps the contract \<open>gk_store\<close>.
    \<open>Gk_Verify\<close>: the invariant of the software implementation over the history of successful requests, and which
    passwords are accepted.
  \<^item> \<open>Gk_Theorems\<close>: the properties.

  \<^bold>\<open>Keymaster.\<close>
  \<^item> \<open>Km_Serial\<close>: reading and writing of buffers and \<open>class Buffer\<close>. \<open>Km_AuthSet\<close>: \<open>class AuthorizationSet\<close>.
    \<open>Km_AuthSerial\<close>, \<open>Km_AuthBuild\<close>, \<open>Km_AuthOps\<close>: its serialization, its construction, and the set operations, which
    like the comparison of parameters do not look at the values of booleans.
  \<^item> \<open>Km_Enforcement\<close>: \<open>class KeymasterEnforcement\<close>. \<open>Km_Limits\<close>, \<open>Km_Runs\<close>: what a granted operation has passed, the
    tables of uses and times over whole runs. \<open>Km_Tokens\<close>: user authentication, and totality.
  \<^item> \<open>Km_Operations\<close>, \<open>Km_Commands\<close>: \<open>class OperationTable\<close>, and \<open>class AndroidKeymaster\<close> with the commands that begin,
    update, finish and abort operations, and with the other commands. \<open>Km_OpRuns\<close>: runs of these commands, the table as a
    finite map (the contract \<open>handle_table\<close>), which key an operation was begun with, and what one command does to
    an operation and to the policy.
  \<^item> \<open>Km_Messages\<close>: all messages of \<open>android_keymaster_messages.cpp\<close>. \<open>Km_Resend\<close>: the contract of a message, that it
    arrives as it was sent and that any bytes are read safely, interpreted for every class of messages.
  \<^item> \<open>Km_Demo\<close>: an instance of the external parameters. \<open>Km_Theorems\<close>, \<open>Km_SetTheorems\<close>, \<open>Km_OpTheorems\<close>, \<open>Km_MsgTheorems\<close>: the properties.

  \<^bold>\<open>Keystore daemon.\<close>
  \<^item> \<open>Ks_Tokens\<close>: \<open>class AuthTokenTable\<close>, with what it reads of key parameters. \<open>Ks_TokenRuns\<close>: its invariant over any
    sequence of calls. \<open>Ks_Operations\<close>: \<open>class OperationMap\<close>, its specification and the refinement. \<open>Ks_Theorems\<close>:
    the properties.

  \<^bold>\<open>Message queue.\<close>
  \<^item> \<open>Fmq_Queue\<close>: \<open>MQDescriptor\<close>, \<open>MessageQueue\<close> and its transactions over shared memory that is a list of byte blocks.
  \<^item> \<open>Fmq_Ring\<close>: the layout of the memory and circular copies. \<open>Fmq_Runs\<close>: construction, and the interleaved steps of
    a writer and a reader. \<open>Fmq_Theorems\<close>: the properties of both flavors.

  \<^bold>\<open>Update engine.\<close>
  \<^item> \<open>Ue_Extents\<close>: extents, \<open>class ExtentRanges\<close> and the functions on lists of extents. \<open>Ue_Ranges\<close>: union, difference
    and lookup, and the contract \<open>block_sets\<close>. \<open>Ue_Sequences\<close>: lists of extents as sequences of blocks.
  \<^item> \<open>Ue_Writer\<close>: the file descriptor and the two extent writers, over the system calls. \<open>Ue_Placed\<close>: where the bytes
    of a stream end up. \<open>Ue_Theorems\<close>: the properties.

  \<^bold>\<open>Bounds.\<close> \<open>size_t\<close> has 64 bits and blocks are smaller than half the address space; this is where
  hypotheses such as \<open>< 2 ^ 63\<close> come from, and \<open>< 2 ^ 32\<close> where the format has 32-bit lengths. The runs in the
  theorems about time are finite sequences of calls of any length; the clock may be read at each of them.

  \<^bold>\<open>Not modelled.\<close> The processes around these services (binder, HAL devices, files, permissions), the
  cryptography of keymaster (key blobs, and the subclasses of factories, keys and operations, which call BoringSSL
  and enter as the functions of a record), and the other
  services of the tree (the rest of the keystore daemon, Bluetooth, NFC, networking, volumes, the rest of the update engine, and so on): they are
  driven by hardware, kernel interfaces or IPC, and do not take part in the properties shown here. The blocking
  calls of the message queue and its event flag are futex system calls. Memory that is freed and logging are not
  modelled. The services serve one request at a time; only the message queue has concurrent callers.
\<close>

section \<open>From the password to the key\<close>

text \<open>
  The one thing the components share is the token: gatekeeper mints it for a challenge, keymaster checks it
  for an operation. The challenge of a verification is the handle of the operation.
\<close>

text \<open>The second loop of \<open>AuthorizeUpdateOrFinish\<close> finds the secure id that the token is for.\<close>

lemma update_loop_grants:
  assumes "\<forall>p \<in> set ps. p_tag p = tag_of v KM_TAG_USER_SECURE_ID \<longrightarrow> (\<exists>l. p_value p = VLong l)"
    "\<exists>p \<in> set ps. p_tag p = tag_of v KM_TAG_USER_SECURE_ID \<and> p_value p = VLong sid"
    "\<And>l n. \<exists>b n'. AuthTokenMatches v aset params l pos None h False n = Some (b, n')"
    "\<And>n. \<exists>n'. AuthTokenMatches v aset params sid pos None h False n = Some (True, n')"
  shows "\<exists>n'. update_or_finish_loop v aset params pos h ps req n = Some (KM_ERROR_OK, n')"
  using assms(1,2)
proof (induction ps arbitrary: req n)
  case (Cons p ps)
  show ?case
  proof (cases "p_tag p = tag_of v KM_TAG_USER_SECURE_ID")
    case True
    then obtain l where l: "p_value p = VLong l" using Cons.prems(1) by auto
    obtain b n' where m: "AuthTokenMatches v aset params l pos None h False n = Some (b, n')" using assms(3) by blast
    show ?thesis
    proof (cases b)
      case True
      then show ?thesis using l m \<open>p_tag p = _\<close> by (simp add: as_long_def)
    next
      case False
      have "l \<noteq> sid" using assms(4) [of n] m False by auto
      then have "\<exists>p \<in> set ps. p_tag p = tag_of v KM_TAG_USER_SECURE_ID \<and> p_value p = VLong sid" using Cons.prems(2) l by auto
      then show ?thesis using Cons.IH [of True n'] Cons.prems(1) l m False True by (simp add: as_long_def)
    qed
  next
    case False
    then show ?thesis using Cons.IH [of req n] Cons.prems by auto
  qed
qed simp

lemma token_matches:
  assumes "GetTagValueBlob params (tag_of v KM_TAG_AUTH_TOKEN) = Some (Some bytes)" "length bytes = hw_sizeof (env_layout v)"
    "hw_read (env_layout v) bytes = tok" "tok_version tok = HW_AUTH_TOKEN_VERSION (env_layout v)" "tok_challenge tok = h"
    "\<And>n. ValidateTokenSignature (env_platform v) n tok" "type_matches v aset tok"
  shows "AuthTokenMatches v aset params l (type_position v aset) None h False n =
    Some (l = tok_user_id tok \<or> l = tok_authenticator_id tok, Suc n)"
proof -
  obtain i mask where i: "type_position v aset = Some i" "p_value (elems aset ! i) = VInt mask"
    "mask AND bswap 4 (tok_authenticator_type tok) \<noteq> 0" using assms(7) by (auto simp: type_matches_def)
  have "in_set (Some i) aset \<and> in_set None aset" "p_tag (elems aset ! i) = tag_of v KM_TAG_USER_AUTH_TYPE"
    using last_position_Some [OF i(1)] by (simp_all add: in_set_def)
  then show ?thesis
    using assms i by (simp add: AuthTokenMatches_def type_and_timeout_match_def as_int_def Let_def)
qed

lemma continue_granted:
  assumes "list_all (typed (env_defs v)) (set_values (op_key_auths op))" "set_error (op_key_auths op) = OK" "alloc_total al" "tags_ok v"
    "secure_id_of v (op_key_auths op) (tok_user_id tok)" "type_matches v (op_key_auths op) tok"
    "GetTagValueBlob params (tag_of v KM_TAG_AUTH_TOKEN) = Some (Some bytes)" "length bytes = hw_sizeof (env_layout v)"
    "hw_read (env_layout v) bytes = tok" "tok_version tok = HW_AUTH_TOKEN_VERSION (env_layout v)" "tok_challenge tok = h"
    "\<And>n. ValidateTokenSignature (env_platform v) n tok"
  shows "\<exists>s'. authorize_continue v al op params h (Some s) = Some (KM_ERROR_OK, Some s')"
proof -
  obtain s1 where s1: "authorizations (env_defs v) al op = Some s1" "set_values s1 = set_values (op_key_auths op)" "growable (env_defs v) s1"
    using Set_Reinitialize_ok [OF assms(1,3), of new_AuthorizationSet] assms(2) by (auto simp: authorizations_def copy_AuthorizationSet_def)
  have ty: "all_typed v s1" using s1(3) by (simp add: growable_def set_ok_def list_all_iff)
  have m: "AuthTokenMatches v s1 params l (type_position v s1) None h False n =
      Some (l = tok_user_id tok \<or> l = tok_authenticator_id tok, Suc n)" for l n
    by (rule token_matches [OF assms(7-12)]) (use assms(6) in \<open>simp add: same_values_type [OF s1(2)]\<close>)
  have sid: "\<exists>p \<in> set (elems s1). p_tag p = tag_of v KM_TAG_USER_SECURE_ID \<and> p_value p = VLong (tok_user_id tok)"
    using assms(5) unfolding same_values_secure_id [OF s1(2), symmetric] by (simp add: secure_id_of_def)
  have "tag_get_type (env_defs v) (tag_of v KM_TAG_USER_SECURE_ID) = KM_ULONG_REP" using assms(4) by (simp add: tags_ok_def)
  then have long: "\<forall>p \<in> set (elems s1). p_tag p = tag_of v KM_TAG_USER_SECURE_ID \<longrightarrow> (\<exists>l. p_value p = VLong l)"
    using ty typed_long [of "env_defs v"] by (metis insertI1 insert_commute list_all_iff)
  have loop: "\<exists>n'. update_or_finish_loop v s1 params (type_position v s1) h (elems s1) req n = Some (KM_ERROR_OK, n')" for req n
    by (rule update_loop_grants [OF long sid]) (simp_all add: m)
  obtain b where pub: "is_public_key_algorithm v s1 = Some b" using is_public_key_algorithm_total [OF assms(4) ty] by auto
  have "\<exists>s'. AuthorizeUpdateOrFinish v s1 params h s = Some (KM_ERROR_OK, s')"
    using loop [of "type_position v s1 \<noteq> None" "platform_calls s"] by (auto simp: AuthorizeUpdateOrFinish_def Let_def)
  then show ?thesis using s1(1) pub by (auto simp: authorize_continue_def AuthorizeOperation_def)
qed

text \<open>The authorizations of a key that a password of a secure id unlocks.\<close>

definition unlocked_by_password :: "km_env \<Rightarrow> u64 \<Rightarrow> auth_set \<Rightarrow> bool" where
  "unlocked_by_password v sid auths \<longleftrightarrow> secure_id_of v auths sid \<and>
     (\<exists>i mask. type_position v auths = Some i \<and> p_value (elems auths ! i) = VInt mask \<and> mask AND HW_AUTH_PASSWORD (env_layout v) \<noteq> 0)"

text \<open>
  C6: the right password lets an operation go on. Let an operation with a key for a secure id and the
  authenticator type password be in the table of keymaster, and let gatekeeper hold a handle of that secure id
  that was made from the password. Once the throttle window has passed, verifying the password with the handle of
  the operation as challenge returns a token, and every finish of the operation with this token among its
  parameters is carried out: its response is what the operation's own \<open>Finish\<close> gives. Both components use the same
  layout of the token, and the platform accepts its signature, as the one of the software keymaster does.
\<close>

theorem password_unlocks_operation:
  assumes "lib_ok lib" "soft_run lib g" "genuine lib ph pw" "handle_version ph = Some HANDLE_VERSION"
    and "handle_user_id ph = Some sid" "pw \<noteq> []" "length pw + 17 < 2 ^ 32" "length ph < 2 ^ 32"
    and "window_open (soft_record g uid sid) (soft_GetMillisecondsSinceBoot g)"
    and "operations m h = Some op" "ak_policy m = Some s" "unlocked_by_password v sid (op_key_auths op)"
    and "list_all (typed (env_defs v)) (set_values (op_key_auths op))" "set_error (op_key_auths op) = OK"
    and "alloc_total al" "tags_ok v" "env_layout v = lib_layout lib" "\<forall>n tok. ValidateTokenSignature (env_platform v) n tok"
  shows "\<exists>token g'. device_verify lib garbage uid h (Some ph, of_nat (length ph)) (Some pw, of_nat (length pw)) g =
      Some (0, Some (sized token, False), g') \<and>
    (\<forall>q r. fq_op_handle q = h \<longrightarrow> GetTagValueBlob (fq_additional_params q) (tag_of v KM_TAG_AUTH_TOKEN) = Some (Some token) \<longrightarrow>
      (case op_Finish K (op_impl op) (fq_additional_params q) (fq_input q) (fq_signature q) (fr_output_params r, fr_output r) of
         (e, (out_params, out), impl) \<Rightarrow>
           \<exists>m'. FinishOperation K v al q r m = Some (\<lparr>fr_error = e, fr_output_params = out_params, fr_output = out\<rparr>, m')))"
proof -
  obtain flags where flags: "handle_flags ph = Some flags" using genuine_flags [OF assms(3)] by blast
  have co: "checks_out lib g ph pw" by (rule genuine_checks_out [OF assms(1) soft_run_inv [OF assms(2,1)] assms(3,6,7)])
  have "length pw < 2 ^ 32" using assms(7) by simp
  from device_verify_minted [OF assms(1) co assms(4,5) flags assms(6) this assms(8,9), of garbage h]
  obtain token g' tok where t: "device_verify lib garbage uid h (Some ph, of_nat (length ph)) (Some pw, of_nat (length pw)) g =
      Some (0, Some (sized token, False), g')" "hw_read (env_layout v) token = tok" "length token = hw_sizeof (env_layout v)"
    "tok_version tok = HW_AUTH_TOKEN_VERSION (env_layout v)" "tok_challenge tok = h" "tok_user_id tok = sid"
    "tok_authenticator_type tok = bswap 4 (HW_AUTH_PASSWORD (env_layout v))"
    unfolding assms(17) by auto
  obtain tb where tb: "ak_table m = Some tb" "Table_Find h tb = Some op" using assms(10) by (auto simp: operations_def bind_eq_Some_conv)
  have u: "secure_id_of v (op_key_auths op) (tok_user_id tok)" "type_matches v (op_key_auths op) tok"
    using assms(12) t(6,7) by (auto simp: unlocked_by_password_def type_matches_def)
  have go: "\<exists>s'. authorize_continue v al op params h (Some s) = Some (KM_ERROR_OK, Some s')"
    if "GetTagValueBlob params (tag_of v KM_TAG_AUTH_TOKEN) = Some (Some token)" for params
    using continue_granted [OF assms(13-16) u that t(3,2,4,5)] assms(18) by blast
  have "\<exists>m'. FinishOperation K v al q r m = Some (\<lparr>fr_error = e, fr_output_params = out_params, fr_output = out\<rparr>, m')"
    if "fq_op_handle q = h" "GetTagValueBlob (fq_additional_params q) (tag_of v KM_TAG_AUTH_TOKEN) = Some (Some token)"
      "op_Finish K (op_impl op) (fq_additional_params q) (fq_input q) (fq_signature q) (fr_output_params r, fr_output r) =
        (e, (out_params, out), impl)" for q r e out_params out impl
    using go [OF that(2)] that tb assms(11) by (auto simp: FinishOperation_def)
  then show ?thesis using t(1) by (intro exI conjI allI impI) (auto split: prod.splits)
qed

theorem password_unlocks_operation_witness:
  "\<exists>token g'. device_verify demo_lib (0, 0) 10 9 (Some demo_handle, of_nat (length demo_handle)) (Some [49, 50], of_nat (length [49, 50 :: byte]))
      (new_SoftGateKeeper (Some (1, 0))) = Some (0, Some (sized token, False), g') \<and>
    (\<forall>q r. fq_op_handle q = 9 \<longrightarrow> GetTagValueBlob (fq_additional_params q) (tag_of demo_env KM_TAG_AUTH_TOKEN) = Some (Some token) \<longrightarrow>
      (\<exists>m'. FinishOperation demo_device demo_env km_alloc q r demo_begun =
        Some (\<lparr>fr_error = KM_ERROR_OK, fr_output_params = fr_output_params r, fr_output = fr_output r\<rparr>, m')))"
proof -
  have w: "window_open (soft_record (new_SoftGateKeeper (Some (1, 0))) 10 5) (soft_GetMillisecondsSinceBoot (new_SoftGateKeeper (Some (1, 0))))"
    by (simp add: window_open_def soft_record_def stored_record_def new_SoftGateKeeper_def zero_record_def ComputeRetryTimeout_def)
  have o: "operations demo_begun 9 = Some demo_operation" "ak_policy demo_begun = Some demo_policy"
    by (simp_all add: operations_def demo_begun_def Table_Find_def)
  have u: "unlocked_by_password demo_env 5 (op_key_auths demo_operation)"
    using demo_positions(4)
    by (simp add: unlocked_by_password_def secure_id_of_def demo_operation_def demo_op_key_elems demo_consts_def packed_layout_def)
  have k: "list_all (typed (env_defs demo_env)) (set_values (op_key_auths demo_operation))" "set_error (op_key_auths demo_operation) = OK"
    using demo_laws(2) by (simp_all add: keys_ok_def demo_operation_def)
  have p: "env_layout demo_env = lib_layout demo_lib" "\<forall>n tok. ValidateTokenSignature (env_platform demo_env) n tok"
    by (simp_all add: demo_lib_def) (simp add: demo_env_def demo_platform_def)
  from password_unlocks_operation [OF demo_lib_ok soft_run.start demo_genuine(1) demo_handle_fields(1,2) _ _ _ w o u k km_alloc_total
      demo_tags_ok p, of "(0, 0)" demo_device]
  show ?thesis by simp
qed

end
